(* ===== verification/Prelude.thy ===== *)
theory Prelude
  imports Main "HOL-Library.Word"
begin

unbundle bit_operations_syntax

section \<open>Prelude: shared types, outcomes, list and word facts\<close>

text \<open>
  What every component shares.
  \<^item> The outcome of a C++ call is an exception or a value, together with the state the call
    leaves behind: \<open>('a, 's) res\<close>. A C++ \<open>throw\<close> keeps the updates made before it, so the
    state is returned in both cases.
  \<^item> \<open>exc\<close> names the exception classes of the sources. The message text is not modelled.
    \<open>Mem_fault\<close> and \<open>Blocked\<close> are not exceptions of the code: they mark an access outside the
    mapped memory, which C++ leaves undefined, and a call that is still waiting.
  \<^item> 64-bit counters that the code keeps in \<open>uint64_t\<close> are either \<open>64 word\<close> (time stamps)
    or \<open>nat\<close> with the wrap-around written out (\<open>sub64\<close>, \<open>add64\<close>).
\<close>

datatype exc =
    Precondition       \<comment> \<open>PRECONDITION: base_error\<close>
  | Postcondition      \<comment> \<open>POSTCONDITION: base_error\<close>
  | Null_pointer       \<comment> \<open>CHECK_NOT_NULL: base_error\<close>
  | Assertion          \<comment> \<open>_assert: base_error\<close>
  | State_unavailable  \<comment> \<open>CHECK_STATE_AVAILABLE: base_error\<close>
  | Base_error
  | Lock_error
  | Lock_timeout
  | Lock_table_error
  | Control_error
  | Config_error
  | Fs_error
  | Fs_block_error nat \<comment> \<open>fs_block_error with its error code\<close>
  | Type_valid_error   \<comment> \<open>TYPE_VALID_ERROR\<close>
  | Type_parser_error  \<comment> \<open>TYPE_PARSER_ERROR\<close>
  | Not_found_error
  | Aborted            \<comment> \<open>assert: the process ends\<close>
  | Empty_value        \<comment> \<open>CHECK_NOT_EMPTY, CHECK_NOT_EMPTY_P: base_error\<close>
  | Std_error          \<comment> \<open>an exception of the C++ library (std::stoi, std::string::substr)\<close>
  | Mem_fault          \<comment> \<open>access outside the mapping: undefined behaviour in C++\<close>
  | Blocked            \<comment> \<open>the call waits on a semaphore that nobody has posted\<close>

type_synonym ('a, 's) res = "(exc + 'a) \<times> 's"

type_synonym u8 = "8 word"
type_synonym u32 = "32 word"
type_synonym u64 = "64 word"
type_synonym time = "64 word"
type_synonym pid = int
type_synonym tid = string

subsection \<open>Unsigned 64-bit arithmetic on nat\<close>

definition add64 :: "nat \<Rightarrow> nat \<Rightarrow> nat" where
  "add64 a b = (a + b) mod 2 ^ 64"

definition sub64 :: "nat \<Rightarrow> nat \<Rightarrow> nat" where
  "sub64 a b = (a + (2 ^ 64 - b mod 2 ^ 64)) mod 2 ^ 64"

lemma add64_small: "a + b < 2 ^ 64 \<Longrightarrow> add64 a b = a + b"
  by (simp add: add64_def)

lemma sub64_le: "b \<le> a \<Longrightarrow> a < 2 ^ 64 \<Longrightarrow> sub64 a b = a - b"
proof -
  assume le: "b \<le> a" and a: "a < 2 ^ 64"
  then have "a + (2 ^ 64 - b mod 2 ^ 64) = (a - b) + 2 ^ 64"
    by simp
  then show ?thesis
    using a by (simp add: sub64_def)
qed

lemma sub64_wrap: "a < b \<Longrightarrow> b < 2 ^ 64 \<Longrightarrow> sub64 a b = 2 ^ 64 - (b - a)"
  by (simp add: sub64_def)

subsection \<open>C strings\<close>

text \<open>
  A NUL-terminated buffer is the string of its characters before the NUL, so
  \<open>strncmp (a, b, n) == 0\<close> compares the first \<open>n\<close> characters of the two strings (a shorter
  string ends with its NUL and differs there).
\<close>

definition strncmp_eq :: "string \<Rightarrow> string \<Rightarrow> nat \<Rightarrow> bool" where
  "strncmp_eq a b n \<longleftrightarrow> take n a = take n b"

lemma strncmp_eq_refl [simp]: "strncmp_eq a a n"
  by (simp add: strncmp_eq_def)

lemma strncmp_eq_empty [simp]: "strncmp_eq a [] 0"
  by (simp add: strncmp_eq_def)

lemma strncmp_eq_whole:
  "strncmp_eq a b (length b) \<Longrightarrow> length a = length b \<Longrightarrow> a = b"
  by (simp add: strncmp_eq_def)

subsection \<open>Lists\<close>

lemma nth_update_if:
  "i < length xs \<Longrightarrow> xs[i := v] ! j = (if j = i then v else xs ! j)"
  by simp

lemma filter_update_length:
  assumes "i < length xs"
  shows "length (filter P (xs[i := v])) + (if P (xs ! i) then 1 else 0)
       = length (filter P xs) + (if P v then 1 else 0)"
  using assms
proof (induction xs arbitrary: i)
  case Nil
  then show ?case by simp
next
  case (Cons x xs)
  then show ?case by (cases i) auto
qed

lemma take_drop_split3:
  assumes "i + n \<le> length xs"
  shows "take i xs @ take n (drop i xs) @ drop (n + i) xs = xs"
  by (metis append.assoc append_take_drop_id take_add add.commute)

text \<open>What is found in a list, or is at a position of it, is smaller than the list.\<close>

lemma find_size: "find P fs = Some f \<Longrightarrow> size f < Suc (size_list size fs)"
  by (auto simp: find_Some_iff dest!: nth_mem intro!: le_imp_less_Suc size_list_estimation')

lemma nth_size: "i < length fs \<Longrightarrow> size (fs ! i) < Suc (size_list size fs)"
  by (auto dest!: nth_mem intro!: le_imp_less_Suc size_list_estimation')

subsection \<open>Results without a state\<close>

definition e_bind :: "exc + 'a \<Rightarrow> ('a \<Rightarrow> exc + 'b) \<Rightarrow> exc + 'b" where
  "e_bind m k = (case m of Inl e \<Rightarrow> Inl e | Inr x \<Rightarrow> k x)"

subsection \<open>Commands\<close>

text \<open>
  A command reads and updates a state and ends with an exception or a value. \<open>c_bind\<close> runs two
  commands in order and stops at the first exception, \<open>c_check\<close> is a \<open>PRECONDITION\<close> on the
  state, \<open>c_all\<close> a sequence of checks.
\<close>

type_synonym ('a, 's) cmd = "'s \<Rightarrow> ('a, 's) res"

named_theorems cmd_simps

definition c_ret :: "'a \<Rightarrow> ('a, 's) cmd" where
  "c_ret x s = (Inr x, s)"

definition c_throw :: "exc \<Rightarrow> ('a, 's) cmd" where
  "c_throw e s = (Inl e, s)"

definition c_bind :: "('a, 's) cmd \<Rightarrow> ('a \<Rightarrow> ('b, 's) cmd) \<Rightarrow> ('b, 's) cmd" where
  "c_bind m k s = (case m s of (Inl e, s') \<Rightarrow> (Inl e, s') | (Inr x, s') \<Rightarrow> k x s')"

definition c_check :: "exc \<Rightarrow> ('s \<Rightarrow> bool) \<Rightarrow> (unit, 's) cmd" where
  "c_check e P s = (if P s then (Inr (), s) else (Inl e, s))"

definition c_get :: "('s \<Rightarrow> 'a) \<Rightarrow> ('a, 's) cmd" where
  "c_get f s = (Inr (f s), s)"

definition c_mod :: "('s \<Rightarrow> 's) \<Rightarrow> (unit, 's) cmd" where
  "c_mod f s = (Inr (), f s)"

fun c_all :: "(unit, 's) cmd list \<Rightarrow> (unit, 's) cmd" where
  "c_all [] = c_ret ()"
| "c_all (c # cs) = c_bind c (\<lambda>_. c_all cs)"

text \<open>\<open>c_assert e c\<close>: the check of a condition that is itself a command.\<close>

definition c_assert :: "exc \<Rightarrow> (bool, 's) cmd \<Rightarrow> (unit, 's) cmd" where
  "c_assert e c = c_bind c (\<lambda>b. if b then c_ret () else c_throw e)"

definition c_when :: "bool \<Rightarrow> (unit, 's) cmd \<Rightarrow> (unit, 's) cmd" where
  "c_when b c = (if b then c else c_ret ())"

lemmas cmd_defs [cmd_simps] = c_ret_def c_throw_def c_check_def c_get_def c_mod_def c_when_def

lemma c_bind_Inr [cmd_simps]: "m s = (Inr x, s') \<Longrightarrow> c_bind m k s = k x s'"
  by (simp add: c_bind_def)

lemma c_bind_Inl [cmd_simps]: "m s = (Inl e, s') \<Longrightarrow> c_bind m k s = (Inl e, s')"
  by (simp add: c_bind_def)

lemma c_bind_ret [cmd_simps]: "c_bind (c_ret x) k1 s = k1 x s"
  "c_bind (c_throw e) k2 s = (Inl e, s)"
  "c_bind (c_get f) k3 s = k3 (f s) s"
  "c_bind (c_mod g) k s = k () (g s)"
  "c_bind (c_check e P) k s = (if P s then k () s else (Inl e, s))"
  by (simp_all add: c_bind_def c_ret_def c_throw_def c_get_def c_mod_def c_check_def)

lemma c_bind_assoc [cmd_simps]:
  "c_bind (c_bind m k) k' s = c_bind m (\<lambda>x. c_bind (k x) k') s"
  by (auto simp: c_bind_def split: prod.splits sum.splits)

lemma c_all_single [cmd_simps]: "c_bind (c_all []) k s = k () s"
  "c_bind (c_all (c # cs)) k s = c_bind c (\<lambda>_. c_bind (c_all cs) k) s"
  by (simp_all add: cmd_simps)

lemma c_bind_assert_true [cmd_simps]:
  "c s = (Inr True, s') \<Longrightarrow> c_bind (c_assert e c) k s = k () s'"
  "c s = (Inr False, s') \<Longrightarrow> c_bind (c_assert e c) k s = (Inl e, s')"
  "c s = (Inl x, s') \<Longrightarrow> c_bind (c_assert e c) k s = (Inl x, s')"
  by (simp_all add: c_assert_def c_bind_def c_ret_def c_throw_def)

lemma c_bind_when [cmd_simps]: "c_bind (c_when b c) k s = (if b then c_bind c k s else k () s)"
  by (simp add: c_when_def cmd_simps)

lemma c_bind_cases:
  assumes "c_bind m k s = (r, s')"
  obtains (fail) e where "m s = (Inl e, s')" "r = Inl e"
    | (ok) x s1 where "m s = (Inr x, s1)" "k x s1 = (r, s')"
  using assms by (auto simp: c_bind_def split: prod.splits sum.splits)

end
