(* ===== verification/Strings.thy ===== *)
theory Strings
  imports Prelude
begin

section \<open>Text functions (common/includes/common_utils.h)\<close>

text \<open>
  The string functions of \<open>string_utils\<close> and \<open>common_utils\<close>, and the functions of the C++ library that
  the sources call on texts. Characters are ASCII in the C locale.
\<close>

subsection \<open>string_utils\<close>

definition char_tolower :: "char \<Rightarrow> char" where
  "char_tolower c = (let n = of_char c :: nat in if 65 \<le> n \<and> n \<le> 90 then char_of (n + 32) else c)"

definition char_isspace :: "char \<Rightarrow> bool" where
  "char_isspace c \<longleftrightarrow> (let n = of_char c :: nat in n = 32 \<or> (9 \<le> n \<and> n \<le> 13))"

definition str_tolower :: "string \<Rightarrow> string" where
  "str_tolower s = map char_tolower s"

definition str_ltrim :: "string \<Rightarrow> string" where
  "str_ltrim s = dropWhile char_isspace s"

definition str_rtrim :: "string \<Rightarrow> string" where
  "str_rtrim s = rev (dropWhile char_isspace (rev s))"

definition str_trim :: "string \<Rightarrow> string" where
  "str_trim s = str_ltrim (str_rtrim s)"

lemmas str_defs = str_trim_def str_rtrim_def str_ltrim_def str_tolower_def char_tolower_def char_isspace_def char_of_def

text \<open>\<open>std::string::find\<close> with a start position; \<open>npos\<close> is \<open>2 ^ 64 - 1\<close>.\<close>

definition npos :: nat where
  "npos = 18446744073709551615"

fun find_from :: "string \<Rightarrow> string \<Rightarrow> nat \<Rightarrow> nat" where
  "find_from sub [] i = (if sub = [] then i else npos)"
| "find_from sub (c # cs) i = (if take (length sub) (c # cs) = sub then i else find_from sub cs (i + 1))"

definition str_find :: "string \<Rightarrow> string \<Rightarrow> nat \<Rightarrow> nat" where
  "str_find s sub pos = (if pos \<le> length s then find_from sub (drop pos s) pos else npos)"

definition str_substr :: "string \<Rightarrow> nat \<Rightarrow> nat \<Rightarrow> exc + string" where
  "str_substr s pos n = (if pos \<le> length s then Inr (take n (drop pos s)) else Inl Std_error)"

text \<open>\<open>std::getline\<close> over a string stream: no item after a final delimiter.\<close>

function str_split :: "char \<Rightarrow> string \<Rightarrow> string list" where
  "str_split d s =
     (if s = [] then [] else takeWhile (\<lambda>c. c \<noteq> d) s # str_split d (tl (dropWhile (\<lambda>c. c \<noteq> d) s)))"
  by pat_completeness auto

lemma length_tl_dropWhile: "s \<noteq> [] \<Longrightarrow> length (tl (dropWhile P s)) < length s"
proof -
  assume "s \<noteq> []"
  moreover have "length (dropWhile P s) \<le> length s"
    by (rule length_dropWhile_le)
  ultimately show ?thesis
    by (cases s) (auto simp: less_Suc_eq_le intro: le_trans [OF _ length_dropWhile_le])
qed

termination str_split
  by (relation "measure (length \<circ> snd)") (simp_all add: length_tl_dropWhile del: length_tl)

declare str_split.simps [simp del]

text \<open>\<open>std::stoi\<close> and \<open>std::stol\<close>: white space, a sign, digits; the rest of the string is ignored.\<close>

definition char_digit :: "char \<Rightarrow> nat option" where
  "char_digit c = (let n = of_char c :: nat in if 48 \<le> n \<and> n \<le> 57 then Some (n - 48) else None)"

fun read_digits :: "string \<Rightarrow> nat \<Rightarrow> nat" where
  "read_digits [] acc = acc"
| "read_digits (c # cs) acc = (case char_digit c of None \<Rightarrow> acc | Some d \<Rightarrow> read_digits cs (10 * acc + d))"

definition read_nat :: "string \<Rightarrow> nat option" where
  "read_nat s = (case s of [] \<Rightarrow> None | c # cs \<Rightarrow> if char_digit c = None then None else Some (read_digits s 0))"

definition read_int :: "string \<Rightarrow> int option" where
  "read_int s0 = (case str_ltrim s0 of
     [] \<Rightarrow> None
   | c # cs \<Rightarrow> if c = CHR ''-'' then map_option (\<lambda>n. - int n) (read_nat cs)
               else if c = CHR ''+'' then map_option int (read_nat cs)
               else map_option int (read_nat (c # cs)))"

definition std_sto :: "nat \<Rightarrow> string \<Rightarrow> exc + int" where
  "std_sto w s = (case read_int s of None \<Rightarrow> Inl Std_error
     | Some i \<Rightarrow> if - (2 ^ (w - 1)) \<le> i \<and> i < 2 ^ (w - 1) then Inr i else Inl Std_error)"

definition std_stoi :: "string \<Rightarrow> exc + int" where "std_stoi = std_sto 32"
definition std_stol :: "string \<Rightarrow> exc + int" where "std_stol = std_sto 64"

subsection \<open>More of string_utils\<close>

definition starts_with :: "string \<Rightarrow> string \<Rightarrow> bool" where
  "starts_with source prefix = (if source \<noteq> [] \<and> prefix \<noteq> []
     then let i = str_find source prefix 0 in if i \<noteq> npos then i = 0 else False
     else False)"

text \<open>\<open>std::string::rfind\<close>: the last position.\<close>

fun rfind_from :: "string \<Rightarrow> string \<Rightarrow> nat \<Rightarrow> nat" where
  "rfind_from sub [] i = (if sub = [] then i else npos)"
| "rfind_from sub (c # cs) i = (let r = rfind_from sub cs (i + 1) in
     if r \<noteq> npos then r else if take (length sub) (c # cs) = sub then i else npos)"

definition ends_with :: "string \<Rightarrow> string \<Rightarrow> bool" where
  "ends_with source suffix = (if source \<noteq> [] \<and> suffix \<noteq> []
     then let i = rfind_from suffix source 0 in
       if i \<noteq> npos then add64 i (length suffix) = length source - 1 else False
     else False)"

definition is_escaped :: "char \<Rightarrow> bool" where
  "is_escaped c \<longleftrightarrow> of_char c \<in> {39 :: nat, 34, 92}"

definition escape :: "string \<Rightarrow> string" where
  "escape s = concat (map (\<lambda>c. if is_escaped c then [CHR 0x5C, c] else [c]) s)"

text \<open>\<open>unescape\<close> reads the character after the one it is at; after the last one that is the NUL.\<close>

fun unescape :: "string \<Rightarrow> string" where
  "unescape [] = []"
| "unescape [a] = [CHR 0x00]"
| "unescape (a # b # cs) = b # (if is_escaped b then unescape cs else unescape (b # cs))"

text \<open>The loop of \<open>set_token\<close>; a token of no characters does not advance it, so it has fuel.\<close>

fun set_token_from :: "nat \<Rightarrow> string \<Rightarrow> string \<Rightarrow> string \<Rightarrow> nat \<Rightarrow> string option" where
  "set_token_from 0 token val input offset = None"
| "set_token_from (Suc n) token val input offset =
     (if offset < length input
      then let index = str_find input token offset in
        if index = npos then Some (drop offset input)
        else map_option (\<lambda>r. take (index - offset) (drop offset input) @ val @ r)
               (set_token_from n token val input (index + length token))
      else Some [])"

definition set_token :: "nat \<Rightarrow> string \<Rightarrow> string \<Rightarrow> string \<Rightarrow> string option" where
  "set_token n token val input = set_token_from n token val input 0"

end
