(* ===== verification/Bytes.thy ===== *)
theory Bytes
  imports Prelude
begin

section \<open>Mapped memory as bytes, and the fixed-width fields written to it\<close>

text \<open>
  A mapped file or shared-memory segment is the list of its bytes. \<open>peek\<close> and \<open>poke\<close> are the
  reads and writes through a pointer \<open>increment_data_ptr (base, offset)\<close> of
  common/includes/buffer_utils.h; outside the mapping they give \<open>None\<close>. Unsigned integers are
  stored little-endian (the layout of the x86-64 targets the code is built for).
\<close>

type_synonym mem = "u8 list"

named_theorems mem_simps

definition peek :: "mem \<Rightarrow> nat \<Rightarrow> nat \<Rightarrow> u8 list option" where
  "peek m off n = (if off + n \<le> length m then Some (take n (drop off m)) else None)"

definition poke :: "mem \<Rightarrow> nat \<Rightarrow> u8 list \<Rightarrow> mem option" where
  "poke m off bs =
     (if off + length bs \<le> length m
      then Some (take off m @ bs @ drop (off + length bs) m) else None)"

lemma poke_Some_iff:
  "poke m off bs = Some m' \<longleftrightarrow>
     off + length bs \<le> length m \<and> m' = take off m @ bs @ drop (off + length bs) m"
  by (auto simp: poke_def)

lemma poke_length: "poke m off bs = Some m' \<Longrightarrow> length m' = length m"
  by (auto simp: poke_Some_iff)

lemma poke_take:
  "poke m off bs = Some m' \<Longrightarrow> n \<le> off \<Longrightarrow> take n m' = take n m"
  by (auto simp: poke_Some_iff min_def)

lemma poke_take_snoc:
  "poke m off bs = Some m' \<Longrightarrow> take (off + length bs) m' = take off m @ bs"
  by (auto simp: poke_Some_iff)

lemma peek_take:
  "off + n \<le> k \<Longrightarrow> k \<le> length m \<Longrightarrow> peek m off n = peek (take k m) off n"
  by (auto simp: peek_def drop_take min_def)

lemma peek_take_cong:
  assumes "take k m = take k m'" "off + n \<le> k" "k \<le> length m" "k \<le> length m'"
  shows "peek m off n = peek m' off n"
  using assms peek_take by metis

lemma peek_poke_same: "poke m off bs = Some m' \<Longrightarrow> peek m' off (length bs) = Some bs"
  by (auto simp: poke_Some_iff peek_def)

lemma poke_drop:
  "poke m off bs = Some m' \<Longrightarrow> drop (off + length bs) m' = drop (off + length bs) m"
  by (auto simp: poke_Some_iff)

lemma peek_poke_before:
  assumes "poke m off bs = Some m'" "o' + n \<le> off"
  shows "peek m' o' n = peek m o' n"
proof -
  have "take off m' = take off m"
    using assms(1) by (rule poke_take) simp
  moreover have "off \<le> length m" "off \<le> length m'"
    using assms(1) poke_length [OF assms(1)] by (auto simp: poke_Some_iff)
  ultimately show ?thesis
    using assms(2) peek_take_cong by metis
qed

lemma peek_poke_after:
  assumes "poke m off bs = Some m'" "off + length bs \<le> o'"
  shows "peek m' o' n = peek m o' n"
proof -
  have "drop o' m' = drop (o' - (off + length bs)) (drop (off + length bs) m')"
    using assms(2) by simp
  also have "\<dots> = drop (o' - (off + length bs)) (drop (off + length bs) m)"
    by (simp only: poke_drop [OF assms(1)])
  also have "\<dots> = drop o' m"
    using assms(2) by simp
  finally show ?thesis
    using poke_length [OF assms(1)] by (simp add: peek_def)
qed

lemma poke_at: "length pre = off \<Longrightarrow> length old = length new \<Longrightarrow>
    poke (pre @ old @ post) off new = Some (pre @ new @ post)"
  by (auto simp: poke_def)

lemma poke_end:
  assumes "length bs \<le> length post"
  shows "poke (pre @ post) (length pre) bs = Some (pre @ bs @ drop (length bs) post)"
  using assms by (simp add: poke_def)

lemma poke_end':
  assumes "length pre = off" "length bs \<le> length post"
  shows "poke (pre @ post) off bs = Some (pre @ bs @ drop (length bs) post)"
  using assms by (auto simp: poke_def)

lemma peek_append_left: "off + n \<le> length xs \<Longrightarrow> peek (xs @ ys) off n = peek xs off n"
  by (auto simp: peek_def)

lemma peek_append_right: "peek (xs @ ys) (length xs + off) n = peek ys off n"
  by (auto simp: peek_def)

subsection \<open>Little-endian unsigned integers\<close>

fun nat_bytes :: "nat \<Rightarrow> nat \<Rightarrow> u8 list" where
  "nat_bytes 0 n = []"
| "nat_bytes (Suc k) n = word_of_nat (n mod 256) # nat_bytes k (n div 256)"

fun bytes_nat :: "u8 list \<Rightarrow> nat" where
  "bytes_nat [] = 0"
| "bytes_nat (b # bs) = unat b + 256 * bytes_nat bs"

lemma length_nat_bytes [simp]: "length (nat_bytes k n) = k"
  by (induction k arbitrary: n) auto

lemma unat_byte: "unat (word_of_nat (n mod 256) :: u8) = n mod 256"
  by (simp add: unat_of_nat)

lemma bytes_nat_nat_bytes: "bytes_nat (nat_bytes k n) = n mod 256 ^ k"
proof (induction k arbitrary: n)
  case 0
  then show ?case by simp
next
  case (Suc k)
  have "n mod (256 * 256 ^ k) = 256 * (n div 256 mod 256 ^ k) + n mod 256"
    by (rule mod_mult2_eq)
  then show ?case
    using Suc by (simp add: unat_byte)
qed

lemma bytes_nat_roundtrip [simp]: "n < 256 ^ k \<Longrightarrow> bytes_nat (nat_bytes k n) = n"
  by (simp add: bytes_nat_nat_bytes)

lemma unat_u8_lt: "unat (b :: u8) < 256"
  by (rule order.strict_trans2 [OF unsigned_less]) simp

lemma bytes_nat_bound: "bytes_nat bs < 256 ^ length bs"
proof (induction bs)
  case Nil
  then show ?case by simp
next
  case (Cons b bs)
  have "unat b < 256"
    by (rule unat_u8_lt)
  moreover have "256 * bytes_nat bs + 256 \<le> 256 * 256 ^ length bs"
    using Cons by (metis Suc_eq_plus1 Suc_leI distrib_left mult.right_neutral mult_le_mono2)
  ultimately show ?case by simp
qed

lemma nat_bytes_bytes_nat: "nat_bytes (length bs) (bytes_nat bs) = bs"
proof (induction bs)
  case Nil
  then show ?case by simp
next
  case (Cons b bs)
  have b: "unat b < 256"
    by (rule unat_u8_lt)
  then have "(unat b + 256 * bytes_nat bs) mod 256 = unat b"
    and "(unat b + 256 * bytes_nat bs) div 256 = bytes_nat bs"
    by simp_all
  then show ?case
    using Cons by simp
qed

lemma pow256_8: "(256::nat) ^ 8 = 2 ^ 64"
  by simp

lemma nat_bytes_mod: "nat_bytes k (n mod 256 ^ k) = nat_bytes k n"
  by (metis bytes_nat_nat_bytes length_nat_bytes nat_bytes_bytes_nat)

end
