(* ===== verification/Bitset.thy ===== *)
theory Bitset
  imports Prelude
begin

section \<open>The expandable bitset (common/includes/__bitset.h)\<close>

text \<open>
  \<open>__bitset\<close> keeps its bits in an array of \<open>uint32_t\<close> that is malloc'ed or mapped. The model's
  \<open>bs_data\<close> is the array that is really there; an access past it is \<open>Mem_fault\<close>. Offsets are
  \<open>nat\<close> with the conversions to \<open>uint16_t\<close> written out.

  The lemmas show the bit-level behaviour of every operation, that \<open>get_free_bit\<close> allocates the
  least free bit, and, under \<open>bitset_wf\<close>, that the operations implement a finite set of bit
  numbers (\<open>bits_of\<close>).
\<close>

record bitset =
  bs_size :: nat          \<comment> \<open>\<open>_size\<close>: bytes of storage\<close>
  bs_data :: "u32 list"   \<comment> \<open>\<open>_data\<close>\<close>
  bs_mapped :: bool
  bs_max_offset :: nat    \<comment> \<open>\<open>uint16_t max_offset\<close>\<close>

definition u16 :: "nat \<Rightarrow> nat" where
  "u16 n = n mod 2 ^ 16"

definition bitset_byte_size :: "nat \<Rightarrow> nat" where
  "bitset_byte_size count =
     (if count > 0
      then (let s = count div 32; s' = (if count mod 32 > 0 then s + 1 else s) in s' * 4)
      else 0)"

definition bitset_max_offset :: "nat \<Rightarrow> nat" where
  "bitset_max_offset sz = (if sz > 0 then (let c = sz div 4 in u16 (c * 32)) else 0)"

text \<open>
  The allocating constructor does not clear what \<open>malloc\<close> returns: \<open>junk\<close> is the content of the
  fresh storage. The mapping constructor takes the storage size in bytes.
\<close>

definition bitset_new :: "u32 list \<Rightarrow> nat \<Rightarrow> exc + bitset" where
  "bitset_new junk count =
     (if count > 0
      then Inr \<lparr>bs_size = bitset_byte_size count,
                bs_data = take (bitset_byte_size count div 4) junk,
                bs_mapped = False, bs_max_offset = count\<rparr>
      else Inl Precondition)"

definition bitset_map :: "u32 list \<Rightarrow> nat \<Rightarrow> exc + bitset" where
  "bitset_map ptr sz =
     (if sz > 0
      then Inr \<lparr>bs_size = sz, bs_data = ptr, bs_mapped = True,
                bs_max_offset = bitset_max_offset sz\<rparr>
      else Inl Precondition)"

definition bitset_check :: "bitset \<Rightarrow> nat \<Rightarrow> exc + bool" where
  "bitset_check b offset =
     (let o' = u16 offset in
      if o' < bs_max_offset b
      then (let index = o' div 32; part = o' mod 32 in
            if index < length (bs_data b)
            then Inr ((bs_data b ! index) AND (push_bit part 1) \<noteq> 0)
            else Inl Mem_fault)
      else Inl Precondition)"

definition bitset_set :: "bitset \<Rightarrow> nat \<Rightarrow> (unit, bitset) res" where
  "bitset_set b offset =
     (let o' = u16 offset in
      if o' < bs_max_offset b
      then (let index = o' div 32; part = o' mod 32 in
            if index < length (bs_data b)
            then (Inr (), b\<lparr>bs_data := (bs_data b)[index := (bs_data b ! index) OR (push_bit part 1)]\<rparr>)
            else (Inl Mem_fault, b))
      else (Inl Precondition, b))"

definition bitset_clear :: "bitset \<Rightarrow> nat \<Rightarrow> (unit, bitset) res" where
  "bitset_clear b offset =
     (let o' = u16 offset in
      if o' < bs_max_offset b
      then (let index = o' div 32; part = o' mod 32 in
            if index < length (bs_data b)
            then (Inr (), b\<lparr>bs_data := (bs_data b)[index := (bs_data b ! index) AND NOT (push_bit part 1)]\<rparr>)
            else (Inl Mem_fault, b))
      else (Inl Precondition, b))"

definition bitset_check_and_set :: "bitset \<Rightarrow> nat \<Rightarrow> (bool, bitset) res" where
  "bitset_check_and_set b offset =
     (case bitset_check b offset of
        Inl e \<Rightarrow> (Inl e, b)
      | Inr True \<Rightarrow> (Inr False, b)
      | Inr False \<Rightarrow>
          (case bitset_set b offset of
             (Inl e, b') \<Rightarrow> (Inl e, b')
           | (Inr _, b') \<Rightarrow> (Inr True, b')))"

definition bitset_words :: "bitset \<Rightarrow> u32 list" where
  "bitset_words b = take (u16 (bs_size b div 4)) (bs_data b)"

definition bitset_any :: "bitset \<Rightarrow> bool" where
  "bitset_any b = list_ex (\<lambda>w. w > 0) (bitset_words b)"

definition bitset_none :: "bitset \<Rightarrow> bool" where
  "bitset_none b = (\<not> list_ex (\<lambda>w. w > 0) (bitset_words b))"

definition bitset_all :: "bitset \<Rightarrow> bool" where
  "bitset_all b = (\<not> list_ex (\<lambda>w. w = 0) (bitset_words b))"

definition bitset_clear_all :: "bitset \<Rightarrow> bitset" where
  "bitset_clear_all b =
     b\<lparr>bs_data := replicate (min (bs_size b div 4) (length (bs_data b))) 0
                  @ drop (bs_size b div 4) (bs_data b)\<rparr>"

text \<open>\<open>get_free_bit\<close>: skip the full words, then try the bits one by one.\<close>

fun skip_full :: "u32 list \<Rightarrow> nat" where
  "skip_full [] = 0"
| "skip_full (w # ws) = (if w < - 1 then 0 else 32 + skip_full ws)"

function free_bit_from :: "bitset \<Rightarrow> nat \<Rightarrow> (int, bitset) res" where
  "free_bit_from b index =
     (if index < bs_max_offset b
      then (case bitset_check_and_set b index of
              (Inl e, b') \<Rightarrow> (Inl e, b')
            | (Inr True, b') \<Rightarrow> (Inr (int index), b')
            | (Inr False, _) \<Rightarrow> free_bit_from b (index + 1))
      else (Inr (-1), b))"
  by pat_completeness auto
termination
  by (relation "measure (\<lambda>(b, i). bs_max_offset b - i)") auto

declare free_bit_from.simps [simp del]

definition bitset_get_free_bit :: "bitset \<Rightarrow> (int, bitset) res" where
  "bitset_get_free_bit b = free_bit_from b (u16 (skip_full (bitset_words b)))"

subsection \<open>The set of bits that are on\<close>

definition bits_of :: "bitset \<Rightarrow> nat set" where
  "bits_of b = {i. i < bs_max_offset b \<and> bit (bs_data b ! (i div 32)) (i mod 32)}"

definition bitset_wf :: "bitset \<Rightarrow> bool" where
  "bitset_wf b \<longleftrightarrow> bs_max_offset b < 2 ^ 16 \<and> bs_max_offset b \<le> 32 * length (bs_data b)
     \<and> length (bs_data b) = bs_size b div 4 \<and> bs_size b div 4 < 2 ^ 16"

named_theorems bitset_defs

lemmas bitset_op_defs [bitset_defs] =
  bitset_check_def bitset_set_def bitset_clear_def bitset_check_and_set_def

lemma u16_small [simp]: "n < 2 ^ 16 \<Longrightarrow> u16 n = n"
  by (simp add: u16_def)

lemma bit_or_exp: "n < 32 \<Longrightarrow> bit ((w :: u32) OR 2 ^ n) k \<longleftrightarrow> bit w k \<or> k = n"
  by (auto simp: bit_or_iff bit_exp_iff)

lemma bit_andnot_exp:
  "n < 32 \<Longrightarrow> k < 32 \<Longrightarrow> bit ((w :: u32) AND NOT (2 ^ n)) k \<longleftrightarrow> bit w k \<and> k \<noteq> n"
  by (auto simp: bit_and_iff bit_not_iff bit_exp_iff)

lemma and_exp_iff_bit: "n < 32 \<Longrightarrow> ((w :: u32) AND 2 ^ n \<noteq> 0) = bit w n"
  by (simp add: bit_iff_and_push_bit_not_eq_0 push_bit_of_1)

lemma wf_index: "bitset_wf b \<Longrightarrow> i < bs_max_offset b \<Longrightarrow> i div 32 < length (bs_data b)"
  by (auto simp: bitset_wf_def)

lemma wf_u16: "bitset_wf b \<Longrightarrow> i < bs_max_offset b \<Longrightarrow> u16 i = i"
  by (simp add: bitset_wf_def)

lemma bitset_check_wf:
  assumes "bitset_wf b" "i < bs_max_offset b"
  shows "bitset_check b i = Inr (i \<in> bits_of b)"
  using assms wf_index [OF assms] wf_u16 [OF assms]
  by (simp add: bitset_check_def Let_def and_exp_iff_bit bits_of_def)

lemma div_mod_32_eq: "(i::nat) div 32 = j div 32 \<Longrightarrow> i mod 32 = j mod 32 \<Longrightarrow> i = j"
  by (metis div_mult_mod_eq)

lemma bitset_set_wf:
  assumes "bitset_wf b" "i < bs_max_offset b"
  obtains b' where "bitset_set b i = (Inr (), b')" "bitset_wf b'"
    "bits_of b' = insert i (bits_of b)" "bs_max_offset b' = bs_max_offset b"
    "bs_size b' = bs_size b" "bs_mapped b' = bs_mapped b"
proof
  let ?b = "b\<lparr>bs_data := (bs_data b)[i div 32 := (bs_data b ! (i div 32)) OR push_bit (i mod 32) 1]\<rparr>"
  show "bitset_set b i = (Inr (), ?b)"
    using assms wf_index [OF assms] wf_u16 [OF assms] by (simp add: bitset_set_def Let_def)
  show "bitset_wf ?b" using assms(1) by (simp add: bitset_wf_def)
  show "bits_of ?b = insert i (bits_of b)"
    using assms(2) wf_index [OF assms]
    by (auto simp: bits_of_def nth_list_update bit_or_exp dest: div_mod_32_eq)
qed simp_all

lemma bitset_clear_wf:
  assumes "bitset_wf b" "i < bs_max_offset b"
  obtains b' where "bitset_clear b i = (Inr (), b')" "bitset_wf b'"
    "bits_of b' = bits_of b - {i}" "bs_max_offset b' = bs_max_offset b"
    "bs_size b' = bs_size b" "bs_mapped b' = bs_mapped b"
proof
  let ?b = "b\<lparr>bs_data := (bs_data b)[i div 32 := (bs_data b ! (i div 32)) AND NOT (push_bit (i mod 32) 1)]\<rparr>"
  show "bitset_clear b i = (Inr (), ?b)"
    using assms wf_index [OF assms] wf_u16 [OF assms] by (simp add: bitset_clear_def Let_def)
  show "bitset_wf ?b" using assms(1) by (simp add: bitset_wf_def)
  show "bits_of ?b = bits_of b - {i}"
    using assms(2) wf_index [OF assms]
    by (auto simp: bits_of_def nth_list_update bit_andnot_exp dest: div_mod_32_eq)
qed simp_all

subsection \<open>Allocation\<close>

lemma less_max_u32: "((w :: u32) < - 1) = (w \<noteq> - 1)"
  using word_n1_ge [of w] by (auto simp: order.strict_iff_order)

lemma skip_full_bits: "i < skip_full ws \<Longrightarrow> bit (ws ! (i div 32)) (i mod 32)"
proof (induction ws arbitrary: i)
  case Nil
  then show ?case by simp
next
  case (Cons w ws)
  then have w: "w = - 1" and i: "i < 32 + skip_full ws"
    by (auto simp: less_max_u32 split: if_splits)
  show ?case
  proof (cases "i < 32")
    case True
    then show ?thesis using w by simp
  next
    case False
    then have "bit (ws ! ((i - 32) div 32)) ((i - 32) mod 32)"
      using i by (intro Cons.IH) simp
    moreover have "i div 32 = Suc ((i - 32) div 32)" "i mod 32 = (i - 32) mod 32"
      using False by (auto simp: le_div_geq le_mod_geq)
    ultimately show ?thesis by simp
  qed
qed

lemma skip_full_len: "skip_full ws \<le> 32 * length ws"
  by (induction ws) auto

lemma skip_full_set:
  assumes "i < u16 (skip_full (bitset_words b))" "i < bs_max_offset b"
  shows "i \<in> bits_of b"
proof -
  have "u16 (skip_full (bitset_words b)) \<le> skip_full (bitset_words b)"
    by (simp add: u16_def)
  then have i: "i < skip_full (bitset_words b)"
    using assms(1) by simp
  then have "bit (bitset_words b ! (i div 32)) (i mod 32)"
    by (rule skip_full_bits)
  moreover have "i div 32 < length (bitset_words b)"
    using i skip_full_len [of "bitset_words b"] by simp
  ultimately show ?thesis
    using assms(2) by (simp add: bits_of_def bitset_words_def)
qed

lemma check_and_set_wf:
  assumes "bitset_wf b" "i < bs_max_offset b"
  shows "i \<in> bits_of b \<Longrightarrow> bitset_check_and_set b i = (Inr False, b)"
    and "i \<notin> bits_of b \<Longrightarrow> bitset_check_and_set b i = (Inr True, snd (bitset_set b i))"
proof -
  obtain b' where "bitset_set b i = (Inr (), b')"
    by (rule bitset_set_wf [OF assms])
  then show "i \<in> bits_of b \<Longrightarrow> bitset_check_and_set b i = (Inr False, b)"
    and "i \<notin> bits_of b \<Longrightarrow> bitset_check_and_set b i = (Inr True, snd (bitset_set b i))"
    by (simp_all add: bitset_check_and_set_def bitset_check_wf [OF assms])
qed

lemma free_bit_from_spec:
  assumes "bitset_wf b"
  shows "free_bit_from b k =
    (if {k..<bs_max_offset b} \<subseteq> bits_of b then (Inr (- 1), b)
     else let i = (LEAST i. k \<le> i \<and> i \<notin> bits_of b) in (Inr (int i), snd (bitset_set b i)))"
  using assms
proof (induction b k rule: free_bit_from.induct)
  case (1 b k)
  show ?case
  proof (cases "k < bs_max_offset b")
    case False
    then show ?thesis by (subst free_bit_from.simps) auto
  next
    case True
    show ?thesis
    proof (cases "k \<in> bits_of b")
      case False
      moreover have "(LEAST i. k \<le> i \<and> i \<notin> bits_of b) = k"
        using False by (intro Least_equality) auto
      ultimately show ?thesis
        using True check_and_set_wf(2) [OF "1.prems" True False]
        by (subst free_bit_from.simps) (auto simp: Let_def)
    next
      case set: True
      then have cs: "bitset_check_and_set b k = (Inr False, b)"
        using True "1.prems" check_and_set_wf(1) by blast
      have sub: "({k..<bs_max_offset b} \<subseteq> bits_of b) = ({k + 1..<bs_max_offset b} \<subseteq> bits_of b)"
      proof
        assume "{k..<bs_max_offset b} \<subseteq> bits_of b"
        then show "{k + 1..<bs_max_offset b} \<subseteq> bits_of b" by fastforce
      next
        assume h: "{k + 1..<bs_max_offset b} \<subseteq> bits_of b"
        show "{k..<bs_max_offset b} \<subseteq> bits_of b"
        proof
          fix x
          assume "x \<in> {k..<bs_max_offset b}"
          then show "x \<in> bits_of b"
            using h set by (cases "x = k") auto
        qed
      qed
      have least: "(LEAST i. k \<le> i \<and> i \<notin> bits_of b) = (LEAST i. k + 1 \<le> i \<and> i \<notin> bits_of b)"
      proof -
        have "k \<le> i \<and> i \<notin> bits_of b \<longleftrightarrow> k + 1 \<le> i \<and> i \<notin> bits_of b" for i
          using set by (cases "i = k") auto
        then show ?thesis by simp
      qed
      have "free_bit_from b k = free_bit_from b (k + 1)"
        using True cs by (subst free_bit_from.simps) simp
      also have "\<dots> = (if {k + 1..<bs_max_offset b} \<subseteq> bits_of b then (Inr (- 1), b)
          else let i = (LEAST i. k + 1 \<le> i \<and> i \<notin> bits_of b) in (Inr (int i), snd (bitset_set b i)))"
        by (rule "1.IH" [OF True cs [symmetric] refl refl "1.prems"])
      finally show ?thesis by (simp only: sub least)
    qed
  qed
qed

lemma get_free_bit_full:
  assumes "bitset_wf b" "bits_of b = {..<bs_max_offset b}"
  shows "bitset_get_free_bit b = (Inr (- 1), b)"
proof -
  have "{k..<bs_max_offset b} \<subseteq> bits_of b" for k
    unfolding assms(2) by auto
  then show ?thesis
    by (simp only: bitset_get_free_bit_def free_bit_from_spec [OF assms(1)] if_True)
qed

lemma get_free_bit_least:
  assumes wf: "bitset_wf b" and free: "bits_of b \<noteq> {..<bs_max_offset b}"
  defines "i \<equiv> LEAST i. i \<notin> bits_of b"
  shows "bitset_get_free_bit b = (Inr (int i), snd (bitset_set b i))" and "i < bs_max_offset b"
proof -
  let ?k = "u16 (skip_full (bitset_words b))"
  obtain j where j: "j < bs_max_offset b" "j \<notin> bits_of b"
    using free by (auto simp: bits_of_def)
  have "i \<notin> bits_of b" and le: "i \<le> j"
    using j(2) LeastI [of "\<lambda>i. i \<notin> bits_of b" j] Least_le [of "\<lambda>i. i \<notin> bits_of b" j]
    by (simp_all add: i_def)
  then show imax: "i < bs_max_offset b"
    using j(1) by simp
  have ki: "?k \<le> i"
    using skip_full_set [of i b] imax \<open>i \<notin> bits_of b\<close> by (meson not_le)
  have "(LEAST n. ?k \<le> n \<and> n \<notin> bits_of b) = i"
    by (rule Least_equality) (use ki \<open>i \<notin> bits_of b\<close> in \<open>auto simp: i_def intro: Least_le\<close>)
  moreover have "\<not> {?k..<bs_max_offset b} \<subseteq> bits_of b"
    using ki imax \<open>i \<notin> bits_of b\<close> by auto
  ultimately show "bitset_get_free_bit b = (Inr (int i), snd (bitset_set b i))"
    by (simp add: bitset_get_free_bit_def free_bit_from_spec [OF wf])
qed

lemma bitset_clear_all_wf:
  assumes "bitset_wf b"
  shows "bitset_wf (bitset_clear_all b)" and "bits_of (bitset_clear_all b) = {}"
  using assms by (auto simp: bitset_wf_def bitset_clear_all_def bits_of_def)

lemma bitset_words_wf: "bitset_wf b \<Longrightarrow> bitset_words b = bs_data b"
  by (simp add: bitset_words_def bitset_wf_def)

text \<open>
  \<open>any\<close> and \<open>none\<close> scan whole words. When the storage has no padding bits they decide whether
  the set is empty.
\<close>

lemma bits_of_empty_iff:
  assumes "bs_max_offset b = 32 * length (bs_data b)"
  shows "bits_of b = {} \<longleftrightarrow> (\<forall>w \<in> set (bs_data b). w = 0)"
proof
  assume e: "bits_of b = {}"
  show "\<forall>w \<in> set (bs_data b). w = 0"
  proof
    fix w
    assume "w \<in> set (bs_data b)"
    then obtain n where n: "n < length (bs_data b)" "w = bs_data b ! n"
      by (auto simp: in_set_conv_nth)
    have "\<not> bit w k" if "k < 32" for k
    proof -
      have "32 * n + k \<notin> bits_of b"
        using e by simp
      then show ?thesis
        using n that assms by (auto simp: bits_of_def)
    qed
    then show "w = 0"
      by (intro bit_word_eqI) simp
  qed
next
  assume z: "\<forall>w \<in> set (bs_data b). w = 0"
  have "bs_data b ! (i div 32) = 0" if "i < bs_max_offset b" for i
    using that z assms by simp
  then show "bits_of b = {}"
    by (auto simp: bits_of_def)
qed

lemma bitset_none_iff:
  assumes "bitset_wf b" "bs_max_offset b = 32 * length (bs_data b)"
  shows "bitset_none b \<longleftrightarrow> bits_of b = {}" and "bitset_any b \<longleftrightarrow> bits_of b \<noteq> {}"
  using bits_of_empty_iff [OF assms(2)]
  by (auto simp: bitset_none_def bitset_any_def bitset_words_wf [OF assms(1)] list_ex_iff
      word_neq_0_conv)

text \<open>\<open>all\<close> only asks that no word is zero: one bit per word is enough.\<close>

definition bitset_one_bit :: bitset where
  "bitset_one_bit = \<lparr>bs_size = 4, bs_data = [1], bs_mapped = True, bs_max_offset = 32\<rparr>"

lemma bitset_all_misses: "bitset_all bitset_one_bit \<and> bits_of bitset_one_bit = {0}"
proof -
  have "bits_of bitset_one_bit = {0}"
    by (auto simp: bits_of_def bitset_one_bit_def bit_1_iff split: if_splits)
  then show ?thesis
    by (simp add: bitset_all_def bitset_words_def bitset_one_bit_def)
qed

text \<open>A bitset mapped over the whole of its storage is well formed.\<close>

lemma bitset_map_wf:
  assumes "0 < sz" "sz div 4 < 2 ^ 11" "length ptr = sz div 4"
  shows "bitset_map ptr sz = Inr \<lparr>bs_size = sz, bs_data = ptr, bs_mapped = True,
      bs_max_offset = 32 * (sz div 4)\<rparr>"
    and "bitset_wf \<lparr>bs_size = sz, bs_data = ptr, bs_mapped = True, bs_max_offset = 32 * (sz div 4)\<rparr>"
  using assms by (auto simp: bitset_map_def bitset_max_offset_def u16_def bitset_wf_def)

lemma bitset_new_wf:
  assumes "bitset_new junk count = Inr b" "count < 2 ^ 16"
    "bitset_byte_size count div 4 \<le> length junk"
  shows "bitset_wf b" and "bs_max_offset b = count"
  using assms
  by (auto simp: bitset_new_def bitset_byte_size_def bitset_wf_def Let_def split: if_splits)

subsection \<open>The interface its clients rely on\<close>

text \<open>
  The lock table of watergate and the block list of core use a bitset as a pool of slot
  numbers. \<open>slot_pool\<close> is what they rely on: \<open>alloc\<close> returns a slot that was free and below the
  capacity and marks it, or reports that none is left and changes nothing; \<open>free\<close> gives it back.
\<close>

locale slot_pool =
  fixes wf :: "'p \<Rightarrow> bool"
    and used :: "'p \<Rightarrow> nat set"
    and cap :: "'p \<Rightarrow> nat"
    and alloc :: "'p \<Rightarrow> (int, 'p) res"
    and free :: "'p \<Rightarrow> nat \<Rightarrow> (unit, 'p) res"
  assumes used_cap: "wf p \<Longrightarrow> used p \<subseteq> {..<cap p}"
    and alloc_some: "wf p \<Longrightarrow> used p \<noteq> {..<cap p} \<Longrightarrow>
        \<exists>i p'. alloc p = (Inr (int i), p') \<and> i < cap p \<and> i \<notin> used p
          \<and> wf p' \<and> used p' = insert i (used p) \<and> cap p' = cap p"
    and alloc_none: "wf p \<Longrightarrow> used p = {..<cap p} \<Longrightarrow> alloc p = (Inr (- 1), p)"
    and free_used: "wf p \<Longrightarrow> i < cap p \<Longrightarrow>
        \<exists>p'. free p i = (Inr (), p') \<and> wf p' \<and> used p' = used p - {i} \<and> cap p' = cap p"
begin

lemma finite_used: "wf p \<Longrightarrow> finite (used p)"
  by (rule finite_subset [OF used_cap finite_lessThan])

lemma card_used_le: "wf p \<Longrightarrow> card (used p) \<le> cap p"
  using card_mono [OF finite_lessThan used_cap] by simp

lemma full_iff_card: "wf p \<Longrightarrow> (used p = {..<cap p}) = (card (used p) = cap p)"
  using card_subset_eq [OF finite_lessThan used_cap, of p] by (metis card_lessThan)

lemma alloc_card:
  assumes "wf p" "card (used p) < cap p"
  obtains i p' where "alloc p = (Inr (int i), p')" "i < cap p" "i \<notin> used p" "wf p'"
    "used p' = insert i (used p)" "cap p' = cap p" "card (used p') = Suc (card (used p))"
proof -
  have "used p \<noteq> {..<cap p}"
    using assms full_iff_card by (metis less_irrefl)
  then obtain i p' where *: "alloc p = (Inr (int i), p')" "i < cap p" "i \<notin> used p" "wf p'"
    "used p' = insert i (used p)" "cap p' = cap p"
    using alloc_some [OF assms(1)] by blast
  moreover have "card (used p') = Suc (card (used p))"
    using * finite_used [OF assms(1)] by simp
  ultimately show ?thesis by (rule that)
qed

lemma free_card:
  assumes "wf p" "i \<in> used p"
  obtains p' where "free p i = (Inr (), p')" "wf p'" "used p' = used p - {i}"
    "cap p' = cap p" "Suc (card (used p')) = card (used p)"
proof -
  have "i < cap p"
    using assms used_cap by blast
  then obtain p' where *: "free p i = (Inr (), p')" "wf p'" "used p' = used p - {i}" "cap p' = cap p"
    using free_used [OF assms(1)] by blast
  moreover have "Suc (card (used p')) = card (used p)"
    using * finite_used [OF assms(1)] assms(2) by (metis card.remove)
  ultimately show ?thesis by (rule that)
qed

lemma alloc_free_restores:
  assumes "wf p" "alloc p = (Inr (int i), p')"
  shows "\<exists>p''. free p' i = (Inr (), p'') \<and> wf p'' \<and> used p'' = used p"
proof (cases "used p = {..<cap p}")
  case True
  then show ?thesis
    using assms alloc_none by fastforce
next
  case False
  then obtain j q where q: "alloc p = (Inr (int j), q)" "j < cap p" "j \<notin> used p" "wf q"
    "used q = insert j (used p)" "cap q = cap p"
    using alloc_some [OF assms(1)] by blast
  then have "p' = q" "i = j"
    using assms(2) by simp_all
  then show ?thesis
    using free_used [OF q(4), of j] q by auto
qed

end

interpretation bits: slot_pool bitset_wf bits_of bs_max_offset bitset_get_free_bit bitset_clear
proof unfold_locales
  fix p :: bitset and i :: nat
  assume wf: "bitset_wf p"
  show "bits_of p \<subseteq> {..<bs_max_offset p}"
    by (auto simp: bits_of_def)
  show "bitset_get_free_bit p = (Inr (- 1), p)" if "bits_of p = {..<bs_max_offset p}"
    using wf that by (rule get_free_bit_full)
  show "\<exists>i p'. bitset_get_free_bit p = (Inr (int i), p') \<and> i < bs_max_offset p \<and> i \<notin> bits_of p
      \<and> bitset_wf p' \<and> bits_of p' = insert i (bits_of p) \<and> bs_max_offset p' = bs_max_offset p"
    if free: "bits_of p \<noteq> {..<bs_max_offset p}"
  proof -
    note gf = get_free_bit_least [OF wf free]
    have "(LEAST i. i \<notin> bits_of p) \<notin> bits_of p"
    proof (rule LeastI)
      show "bs_max_offset p \<notin> bits_of p" by (simp add: bits_of_def)
    qed
    then show ?thesis
      using gf bitset_set_wf [OF wf gf(2)] by (metis snd_conv)
  qed
  show "\<exists>p'. bitset_clear p i = (Inr (), p') \<and> bitset_wf p' \<and> bits_of p' = bits_of p - {i}
      \<and> bs_max_offset p' = bs_max_offset p" if "i < bs_max_offset p"
    using bitset_clear_wf [OF wf that] by metis
qed

subsection \<open>Properties\<close>

text \<open>C34. \<open>get_free_bit\<close> returns the least bit that is off, which lies
  below the capacity, and sets that bit and no other.\<close>

theorem bitset_get_free_bit_least:
  assumes "bitset_wf b" "bits_of b \<noteq> {..<bs_max_offset b}"
  shows "\<exists>b'. bitset_get_free_bit b = (Inr (int (LEAST i. i \<notin> bits_of b)), b')
    \<and> (LEAST i. i \<notin> bits_of b) < bs_max_offset b \<and> bitset_wf b'
    \<and> bits_of b' = insert (LEAST i. i \<notin> bits_of b) (bits_of b)"
proof -
  note gf = get_free_bit_least [OF assms]
  obtain b' where "bitset_set b (LEAST i. i \<notin> bits_of b) = (Inr (), b')" "bitset_wf b'"
    "bits_of b' = insert (LEAST i. i \<notin> bits_of b) (bits_of b)"
    by (rule bitset_set_wf [OF assms(1) gf(2)])
  then show ?thesis
    using gf by simp
qed

lemma bitset_one_bit_wf: "bitset_wf bitset_one_bit" "bits_of bitset_one_bit = {0}" "bs_max_offset bitset_one_bit = 32"
  using bitset_all_misses by (simp_all add: bitset_wf_def bitset_one_bit_def)

theorem bitset_get_free_bit_least_witness:
  "\<exists>b'. bitset_get_free_bit bitset_one_bit = (Inr 1, b') \<and> bits_of b' = {0, 1}"
proof -
  have l: "(LEAST i. i \<notin> bits_of bitset_one_bit) = 1"
    by (rule Least_equality) (auto simp: bitset_one_bit_wf)
  have "card (bits_of bitset_one_bit) < bs_max_offset bitset_one_bit"
    by (simp add: bitset_one_bit_wf)
  then have ne: "bits_of bitset_one_bit \<noteq> {..<bs_max_offset bitset_one_bit}"
    by (metis card_lessThan less_irrefl)
  obtain b' where "bitset_get_free_bit bitset_one_bit = (Inr (int 1), b')" "bits_of b' = insert 1 (bits_of bitset_one_bit)"
    using bitset_get_free_bit_least [OF bitset_one_bit_wf(1) ne] unfolding l by blast
  then show ?thesis
    by (auto simp: bitset_one_bit_wf insert_commute)
qed

text \<open>Clearing the bit that \<open>get_free_bit\<close> returned gives the bitset its
  earlier set of bits back.\<close>

theorem bitset_alloc_free:
  assumes "bitset_wf b" "bitset_get_free_bit b = (Inr (int i), b')"
  shows "\<exists>b''. bitset_clear b' i = (Inr (), b'') \<and> bitset_wf b'' \<and> bits_of b'' = bits_of b"
  using assms by (rule bits.alloc_free_restores)

theorem bitset_alloc_free_witness:
  "\<exists>b' b''. bitset_get_free_bit bitset_one_bit = (Inr (int 1), b') \<and> bitset_clear b' 1 = (Inr (), b'')
     \<and> bits_of b'' = {0}"
proof -
  have "card (bits_of bitset_one_bit) < bs_max_offset bitset_one_bit"
    by (simp add: bitset_one_bit_wf)
  then have "bits_of bitset_one_bit \<noteq> {..<bs_max_offset bitset_one_bit}"
    by (metis card_lessThan less_irrefl)
  note gf = get_free_bit_least [OF bitset_one_bit_wf(1) this]
  have l: "(LEAST i. i \<notin> bits_of bitset_one_bit) = 1"
    by (rule Least_equality) (auto simp: bitset_one_bit_wf)
  obtain b' where b: "bitset_get_free_bit bitset_one_bit = (Inr (int 1), b')"
    using gf(1) l by simp
  from bitset_alloc_free [OF bitset_one_bit_wf(1) b] b show ?thesis
    by (auto simp: bitset_one_bit_wf)
qed

text \<open>\<open>all\<close>, documented to tell whether all bits are set, answers yes for a
  bitset of 32 bits in which one bit is on.\<close>

theorem bitset_all_is_wrong: "\<exists>b. bitset_wf b \<and> bs_max_offset b = 32 \<and> bits_of b = {0} \<and> bitset_all b"
  using bitset_all_misses bitset_one_bit_wf by blast

end
