(* ===== verification/ExclusiveLock.thy ===== *)
theory ExclusiveLock
  imports Prelude
begin

section \<open>The semaphore-based exclusive lock (common/includes/exclusive_lock.h)\<close>

text \<open>
  An \<open>exclusive_lock\<close> object belongs to one process and is shared by its threads; all objects
  of one name share a kernel semaphore created with value 1. \<open>xl_sem\<close> is that semaphore's value,
  the other two fields are the object's own. The POSIX calls are modelled by their documented
  effect (\<open>sem_trywait\<close> takes one unit or fails, \<open>sem_post\<close> adds one, \<open>sem_wait\<close> blocks at
  zero: \<open>None\<close>); their error returns for invalid handles are not modelled.
\<close>

record xlock =
  xl_sem :: nat
  xl_locked :: bool
  xl_owner :: tid

definition xl_set_locked :: "xlock \<Rightarrow> tid \<Rightarrow> xlock" where
  "xl_set_locked l t = l\<lparr>xl_locked := True, xl_owner := t\<rparr>"

definition xl_reset_locked :: "xlock \<Rightarrow> xlock" where
  "xl_reset_locked l = l\<lparr>xl_locked := False, xl_owner := []\<rparr>"

definition xl_is_locked :: "xlock \<Rightarrow> tid \<Rightarrow> bool" where
  "xl_is_locked l t = (if xl_locked l then t = xl_owner l else False)"

definition sem_trywait :: "xlock \<Rightarrow> bool \<times> xlock" where
  "sem_trywait l = (if xl_sem l > 0 then (True, l\<lparr>xl_sem := xl_sem l - 1\<rparr>) else (False, l))"

definition sem_post :: "xlock \<Rightarrow> xlock" where
  "sem_post l = l\<lparr>xl_sem := xl_sem l + 1\<rparr>"

definition xl_try_lock :: "xlock \<Rightarrow> tid \<Rightarrow> bool \<times> xlock" where
  "xl_try_lock l t =
     (if xl_is_locked l t then (True, l)
      else (case sem_trywait l of
              (True, l') \<Rightarrow> (True, xl_set_locked l' t)
            | (False, l') \<Rightarrow> (False, l')))"

text \<open>
  The retrying version: each tick gives the semaphore value the attempt sees and the clock read
  after the alarm. \<open>rem\<close> is the code's signed \<open>long rem\<close>. \<open>None\<close>: still retrying when the ticks
  run out.
\<close>

fun xl_try_lock_for ::
  "xlock \<Rightarrow> tid \<Rightarrow> u64 \<Rightarrow> time \<Rightarrow> int \<Rightarrow> (nat \<times> time) list \<Rightarrow> (bool \<times> xlock) option" where
  "xl_try_lock_for l t timeout s_time rem [] = (if rem < 0 then Some (False, l) else None)"
| "xl_try_lock_for l t timeout s_time rem ((v, now) # ticks) =
     (if rem < 0 then Some (False, l)
      else (case xl_try_lock (l\<lparr>xl_sem := v\<rparr>) t of
              (True, l') \<Rightarrow> Some (True, l')
            | (False, l') \<Rightarrow>
                (let delta = now - s_time in
                 xl_try_lock_for l' t timeout s_time (sint (timeout - delta)) ticks)))"

definition xl_wait_lock :: "xlock \<Rightarrow> tid \<Rightarrow> (bool \<times> xlock) option" where
  "xl_wait_lock l t =
     (if xl_is_locked l t then Some (True, l)
      else if xl_sem l > 0 then Some (True, xl_set_locked (l\<lparr>xl_sem := xl_sem l - 1\<rparr>) t)
      else None)"

definition xl_release_lock :: "xlock \<Rightarrow> tid \<Rightarrow> bool \<times> xlock" where
  "xl_release_lock l t =
     (if \<not> xl_is_locked l t then (False, l)
      else (True, xl_reset_locked (sem_post l)))"

text \<open>\<open>reset\<close>: post until a \<open>sem_trywait\<close> succeeds, then give that unit back.\<close>

function xl_reset_loop :: "xlock \<Rightarrow> xlock" where
  "xl_reset_loop l =
     (case sem_trywait l of
        (True, l') \<Rightarrow> sem_post l'
      | (False, l') \<Rightarrow> xl_reset_loop (sem_post l'))"
  by pat_completeness auto
termination
  by (relation "measure (\<lambda>l. 1 - xl_sem l)") (auto simp: sem_trywait_def sem_post_def split: if_splits)

declare xl_reset_loop.simps [simp del]

definition xl_reset :: "xlock \<Rightarrow> xlock" where
  "xl_reset l = xl_reset_locked (xl_reset_loop l)"

definition xl_create :: "nat \<Rightarrow> xlock" where
  "xl_create v = xl_reset_locked \<lparr>xl_sem = v, xl_locked = False, xl_owner = []\<rparr>"

text \<open>The guard object: acquire on entry, release in the destructor if held by this thread.\<close>

definition guard_get_lock :: "xlock \<Rightarrow> tid \<Rightarrow> u64 \<Rightarrow> time \<Rightarrow> (nat \<times> time) list
    \<Rightarrow> (bool \<times> xlock) option" where
  "guard_get_lock l t timeout s_time ticks =
     (if timeout \<le> 0 then Some (xl_try_lock l t)
      else xl_try_lock_for l t timeout s_time (sint timeout) ticks)"

definition guard_exit :: "xlock \<Rightarrow> tid \<Rightarrow> xlock" where
  "guard_exit l t = (if xl_is_locked l t then snd (xl_release_lock l t) else l)"

lemmas xl_defs = xl_set_locked_def xl_reset_locked_def xl_is_locked_def sem_trywait_def
  sem_post_def xl_try_lock_def xl_wait_lock_def xl_release_lock_def guard_exit_def

lemma xl_try_lock_owner: "xl_try_lock l t = (True, l') \<Longrightarrow> xl_is_locked l' t"
  by (auto simp: xl_defs split: if_splits)

lemma xl_try_lock_reentrant: "xl_is_locked l t \<Longrightarrow> xl_try_lock l t = (True, l)"
  by (simp add: xl_try_lock_def)

lemma xl_try_lock_fail: "xl_try_lock l t = (False, l') \<longleftrightarrow> \<not> xl_is_locked l t \<and> xl_sem l = 0 \<and> l' = l"
  by (auto simp: xl_defs split: if_splits)

lemma guard_balanced:
  assumes "\<not> xl_locked l" "xl_owner l = []" "xl_try_lock l t = (True, l')"
  shows "guard_exit l' t = l"
  using assms by (auto simp: xl_defs split: if_splits)

text \<open>
  A nested guard of the same thread is not neutral: its destructor gives the semaphore back
  while the outer guard is still in scope.
\<close>

lemma guard_nested_releases:
  assumes "xl_is_locked l t" "xl_try_lock l t = (True, l')"
  shows "xl_sem (guard_exit l' t) = xl_sem l + 1 \<and> \<not> xl_is_locked (guard_exit l' t) t"
proof -
  have "l' = l"
    using assms by (simp add: xl_try_lock_reentrant)
  then show ?thesis
    using assms(1) by (auto simp: xl_defs split: if_splits)
qed

lemma xl_reset_sem: "xl_sem (xl_reset l) = max 1 (xl_sem l)"
proof -
  have "xl_sem (xl_reset_loop l) = max 1 (xl_sem l)"
  proof (cases "xl_sem l > 0")
    case True
    then show ?thesis
      by (subst xl_reset_loop.simps) (simp add: sem_trywait_def sem_post_def)
  next
    case False
    then show ?thesis
      by (simp add: xl_reset_loop.simps [of l] xl_reset_loop.simps [of "l\<lparr>xl_sem := Suc 0\<rparr>"]
          sem_trywait_def sem_post_def)
  qed
  then show ?thesis by (simp add: xl_reset_def xl_reset_locked_def)
qed

text \<open>The retry loop ends: a clock reading past the timeout makes \<open>rem\<close> negative.\<close>

lemma xl_try_lock_for_ends:
  assumes "sint (timeout - (now - s_time)) < 0"
  shows "\<exists>r. xl_try_lock_for l t timeout s_time rem (ticks @ [(v, now)]) = Some r"
proof (induction ticks arbitrary: l rem)
  case Nil
  then show ?case
    using assms by (auto simp: Let_def split: bool.splits prod.splits)
next
  case (Cons a ticks)
  then show ?case
    by (cases a) (auto simp: Let_def split: bool.splits prod.splits)
qed

lemma xl_try_lock_for_result:
  "xl_try_lock_for l t timeout s_time rem ticks = Some (True, l') \<Longrightarrow> xl_is_locked l' t"
proof (induction ticks arbitrary: l rem)
  case Nil
  then show ?case by (simp split: if_splits)
next
  case (Cons a ticks)
  then show ?case
    by (cases a) (auto simp: Let_def dest: xl_try_lock_owner split: if_splits bool.splits prod.splits)
qed

subsection \<open>Processes and threads sharing one lock\<close>

text \<open>
  The system: one semaphore and, for every process \<open>i\<close>, its lock object. A step is one thread
  of one process taking or releasing the lock through its object, each call atomic.
\<close>

record xsys =
  xs_sem :: nat
  xs_obj :: "nat \<Rightarrow> bool \<times> tid"

definition xs_view :: "xsys \<Rightarrow> nat \<Rightarrow> xlock" where
  "xs_view s i = \<lparr>xl_sem = xs_sem s, xl_locked = fst (xs_obj s i), xl_owner = snd (xs_obj s i)\<rparr>"

definition xs_put :: "xsys \<Rightarrow> nat \<Rightarrow> xlock \<Rightarrow> xsys" where
  "xs_put s i l = s\<lparr>xs_sem := xl_sem l, xs_obj := (xs_obj s)(i := (xl_locked l, xl_owner l))\<rparr>"

definition xs_init :: xsys where
  "xs_init = \<lparr>xs_sem = 1, xs_obj = (\<lambda>_. (False, []))\<rparr>"

inductive xstep :: "xsys \<Rightarrow> xsys \<Rightarrow> bool" where
  try_lock: "xl_try_lock (xs_view s i) t = (b, l) \<Longrightarrow> xstep s (xs_put s i l)"
| wait_lock: "xl_wait_lock (xs_view s i) t = Some (b, l) \<Longrightarrow> xstep s (xs_put s i l)"
| release_lock: "xl_release_lock (xs_view s i) t = (b, l) \<Longrightarrow> xstep s (xs_put s i l)"
| guard_end: "xstep s (xs_put s i (guard_exit (xs_view s i) t))"

inductive xreach :: "xsys \<Rightarrow> bool" where
  init: "xreach xs_init"
| step: "xreach s \<Longrightarrow> xstep s s' \<Longrightarrow> xreach s'"

definition xs_holds :: "xsys \<Rightarrow> nat \<Rightarrow> tid \<Rightarrow> bool" where
  "xs_holds s i t = xl_is_locked (xs_view s i) t"

definition xs_inv :: "xsys \<Rightarrow> bool" where
  "xs_inv s \<longleftrightarrow> (\<forall>i j. fst (xs_obj s i) \<longrightarrow> fst (xs_obj s j) \<longrightarrow> i = j)
      \<and> xs_sem s = (if \<exists>i. fst (xs_obj s i) then 0 else 1)"

lemma xs_inv_init: "xs_inv xs_init"
  by (simp add: xs_inv_def xs_init_def)

text \<open>Every call leaves the object as it was, or takes a free unit, or gives its unit back.\<close>

definition xl_move :: "xlock \<Rightarrow> xlock \<Rightarrow> bool" where
  "xl_move l l' \<longleftrightarrow> l' = l
     \<or> (xl_sem l > 0 \<and> xl_sem l' = xl_sem l - 1 \<and> xl_locked l')
     \<or> (xl_locked l \<and> xl_sem l' = xl_sem l + 1 \<and> \<not> xl_locked l')"

lemma xl_move_try: "xl_try_lock l t = (b, l') \<Longrightarrow> xl_move l l'"
  by (auto simp: xl_move_def xl_defs split: if_splits)

lemma xl_move_wait: "xl_wait_lock l t = Some (b, l') \<Longrightarrow> xl_move l l'"
  by (auto simp: xl_move_def xl_defs split: if_splits)

lemma xl_move_release: "xl_release_lock l t = (b, l') \<Longrightarrow> xl_move l l'"
  by (auto simp: xl_move_def xl_defs split: if_splits)

lemma xl_move_guard: "xl_move l (guard_exit l t)"
  by (auto simp: xl_move_def xl_defs)

lemma xs_inv_put:
  assumes inv: "xs_inv s" and m: "xl_move (xs_view s i) l"
  shows "xs_inv (xs_put s i l)"
proof -
  let ?s = "xs_put s i l"
  have un: "fst (xs_obj s a) \<Longrightarrow> fst (xs_obj s b) \<Longrightarrow> a = b" for a b
    using inv by (simp add: xs_inv_def)
  have free: "\<not> fst (xs_obj s a)" if "xs_sem s > 0" for a
    using inv that by (auto simp: xs_inv_def split: if_splits)
  consider (same) "l = xs_view s i"
    | (take) "xs_sem s > 0" "xl_sem l = xs_sem s - 1" "xl_locked l"
    | (give) "fst (xs_obj s i)" "xl_sem l = xs_sem s + 1" "\<not> xl_locked l"
    using m by (auto simp: xl_move_def xs_view_def)
  then show ?thesis
  proof cases
    case same
    then have "?s = s" by (simp add: xs_put_def xs_view_def)
    then show ?thesis using inv by simp
  next
    case take
    then have "xs_sem s = 1"
      using inv by (auto simp: xs_inv_def split: if_splits)
    then show ?thesis
      using take free by (auto simp: xs_inv_def xs_put_def)
  next
    case give
    then have "xs_sem s = 0"
      using inv by (auto simp: xs_inv_def split: if_splits)
    then show ?thesis
      using give un by (auto simp: xs_inv_def xs_put_def)
  qed
qed

lemma xstep_inv: "xstep s s' \<Longrightarrow> xs_inv s \<Longrightarrow> xs_inv s'"
  by (erule xstep.cases)
    (auto intro!: xs_inv_put dest: xl_move_try xl_move_wait xl_move_release intro: xl_move_guard)

lemma xreach_inv: "xreach s \<Longrightarrow> xs_inv s"
  by (induction rule: xreach.induct) (auto intro: xs_inv_init xstep_inv)

lemma xs_exclusive:
  assumes "xreach s" "xs_holds s i t" "xs_holds s j u"
  shows "i = j \<and> t = u"
proof -
  have "fst (xs_obj s i)" "t = snd (xs_obj s i)" "fst (xs_obj s j)" "u = snd (xs_obj s j)"
    using assms(2,3) by (auto simp: xs_holds_def xl_is_locked_def xs_view_def split: if_splits)
  moreover have "i = j"
    using xreach_inv [OF assms(1)] calculation by (auto simp: xs_inv_def)
  ultimately show ?thesis by simp
qed

subsection \<open>Two threads of one process: the release is not atomic\<close>

text \<open>
  \<open>__release_lock\<close> posts the semaphore before it clears the object's fields, and nothing orders
  this against the other threads of the process. \<open>rel_post\<close> and \<open>rel_clear\<close> are the two halves;
  \<open>rel\<close> marks the threads between them.
\<close>

record xfine =
  xf_lock :: xlock
  xf_rel :: "tid set"

inductive xfstep :: "xfine \<Rightarrow> xfine \<Rightarrow> bool" where
  acquire: "t \<notin> xf_rel s \<Longrightarrow> xl_try_lock (xf_lock s) t = (b, l) \<Longrightarrow> xfstep s (s\<lparr>xf_lock := l\<rparr>)"
| rel_post: "t \<notin> xf_rel s \<Longrightarrow> xl_is_locked (xf_lock s) t \<Longrightarrow>
     xfstep s (s\<lparr>xf_lock := sem_post (xf_lock s), xf_rel := insert t (xf_rel s)\<rparr>)"
| rel_clear: "t \<in> xf_rel s \<Longrightarrow>
     xfstep s (s\<lparr>xf_lock := xl_reset_locked (xf_lock s), xf_rel := xf_rel s - {t}\<rparr>)"

inductive xfreach :: "xfine \<Rightarrow> bool" where
  init: "xfreach \<lparr>xf_lock = xl_create 1, xf_rel = {}\<rparr>"
| step: "xfreach s \<Longrightarrow> xfstep s s' \<Longrightarrow> xfreach s'"

definition xf_stuck :: "xfine \<Rightarrow> bool" where
  "xf_stuck s \<longleftrightarrow> xf_rel s = {} \<and> xl_sem (xf_lock s) = 0 \<and> \<not> xl_locked (xf_lock s)"

lemma xf_race_reach: "xfreach \<lparr>xf_lock = \<lparr>xl_sem = 0, xl_locked = False, xl_owner = []\<rparr>, xf_rel = {}\<rparr>"
proof -
  let ?l = "\<lambda>n b t. \<lparr>xl_sem = n, xl_locked = b, xl_owner = t\<rparr>"
  have 1: "xfreach \<lparr>xf_lock = ?l 0 True ''a'', xf_rel = {}\<rparr>"
    by (rule xfreach.step [OF xfreach.init])
      (use xfstep.acquire [of "''a''" "\<lparr>xf_lock = xl_create 1, xf_rel = {}\<rparr>"] in
        \<open>simp add: xl_defs xl_create_def\<close>)
  have 2: "xfreach \<lparr>xf_lock = ?l 1 True ''a'', xf_rel = {''a''}\<rparr>"
    by (rule xfreach.step [OF 1])
      (use xfstep.rel_post [of "''a''" "\<lparr>xf_lock = ?l 0 True ''a'', xf_rel = {}\<rparr>"] in
        \<open>simp add: xl_defs\<close>)
  have 3: "xfreach \<lparr>xf_lock = ?l 0 True ''b'', xf_rel = {''a''}\<rparr>"
    by (rule xfreach.step [OF 2])
      (use xfstep.acquire [of "''b''" "\<lparr>xf_lock = ?l 1 True ''a'', xf_rel = {''a''}\<rparr>"] in
        \<open>simp add: xl_defs\<close>)
  show ?thesis
    by (rule xfreach.step [OF 3])
      (use xfstep.rel_clear [of "''a''" "\<lparr>xf_lock = ?l 0 True ''b'', xf_rel = {''a''}\<rparr>"] in
        \<open>simp add: xl_defs\<close>)
qed

text \<open>In a stuck state no thread can take the lock and no thread can release it.\<close>

lemma xf_stuck_forever: "xf_stuck s \<Longrightarrow> xfstep s s' \<Longrightarrow> xf_stuck s'"
  by (erule xfstep.cases) (auto simp: xf_stuck_def xl_defs split: if_splits)

subsection \<open>Properties\<close>



text \<open>C36. Because a release posts the semaphore before it clears the
  object's fields, two threads of one process can reach a state in which the semaphore is taken
  and no thread is recorded as its holder; whatever they do from there, it stays so.\<close>

theorem exclusive_lock_release_race:
  "\<exists>s. xfreach s \<and> {s'. xfstep\<^sup>*\<^sup>* s s'} \<subseteq> Collect xf_stuck"
proof (intro exI conjI subsetI)
  let ?s = "\<lparr>xf_lock = \<lparr>xl_sem = 0, xl_locked = False, xl_owner = []\<rparr>, xf_rel = {}\<rparr>"
  show "xfreach ?s" by (rule xf_race_reach)
  fix s'
  assume "s' \<in> {s'. xfstep\<^sup>*\<^sup>* ?s s'}"
  then have "xfstep\<^sup>*\<^sup>* ?s s'" by simp
  then have "xf_stuck s'"
    by (induction rule: rtranclp_induct) (auto simp: xf_stuck_def [of ?s] intro: xf_stuck_forever)
  then show "s' \<in> Collect xf_stuck" by simp
qed

text \<open>A guard taken by the thread that holds the lock succeeds, and
  its end gives the lock back: the thread no longer holds it and the semaphore is free.\<close>

theorem exclusive_lock_nested_guard:
  assumes "xl_is_locked l t"
  shows "\<exists>l'. xl_try_lock l t = (True, l') \<and> xl_sem (guard_exit l' t) = xl_sem l + 1
    \<and> \<not> xl_is_locked (guard_exit l' t) t"
  using xl_try_lock_reentrant [OF assms] guard_nested_releases [OF assms] by blast

theorem exclusive_lock_nested_guard_witness:
  "\<exists>l'. xl_try_lock \<lparr>xl_sem = 0, xl_locked = True, xl_owner = ''a''\<rparr> ''a'' = (True, l')
    \<and> xl_sem (guard_exit l' ''a'') = 1"
  using exclusive_lock_nested_guard [of "\<lparr>xl_sem = 0, xl_locked = True, xl_owner = ''a''\<rparr>" "''a''"]
  by (auto simp: xl_is_locked_def)

text \<open>A call that waits for the lock returns when a clock reading is past
  its timeout, whatever happened to the lock before.\<close>

theorem exclusive_lock_timeout:
  assumes "sint (timeout - (now - s_time)) < 0" "0 < timeout"
  shows "\<exists>r. guard_get_lock l t timeout s_time (ticks @ [(v, now)]) = Some r"
  using xl_try_lock_for_ends [OF assms(1)] assms(2) by (simp add: guard_get_lock_def)

theorem exclusive_lock_timeout_witness:
  "\<exists>r. guard_get_lock \<lparr>xl_sem = 0, xl_locked = False, xl_owner = []\<rparr> ''a'' 10 100 ([(0, 105)] @ [(0, 111)]) = Some r"
  by (rule exclusive_lock_timeout) simp_all

end
