(* ===== verification/LockTables.thy ===== *)
theory LockTables
  imports Prelude
begin

section \<open>The shared lock records and the write-lock table\<close>

text \<open>
  common/includes/lock_structs_v0.h (the records in shared memory), \<open>w_lock_table\<close> of
  common/includes/write_lock.h with its operations in common/src/write_lock.cpp, and
  \<open>base_lock_table\<close> of common/includes/shared_lock.h. A pointer to a record is its index; a null
  pointer is \<open>None\<close>. \<open>got\<close> says whether the table's exclusive lock was obtained before its
  timeout (\<open>TRY_LOCK_WITH_ERROR\<close>); the guard is neutral otherwise
  (\<open>guard_balanced\<close> of \<open>ExclusiveLock\<close>).
\<close>

datatype lock_state_enum =
  LOCK_UNKNOWN | LOCK_FREE | LOCK_LOCKED | LOCK_EXPIRED | LOCK_RESET | LOCK_ERROR

record owner =
  ow_owner :: string
  ow_txn_id :: string
  ow_process_id :: pid
  ow_thread_id :: tid
  ow_lock_timestamp :: time
  ow_last_updated :: time

record w_lock_struct =
  ws_used :: bool
  ws_name :: string
  ws_last_used :: time
  ws_write_locked :: bool
  ws_state :: lock_state_enum
  ws_ref_count :: nat
  ws_owner :: owner

definition zero_owner :: owner where
  "zero_owner = \<lparr>ow_owner = [], ow_txn_id = [], ow_process_id = 0, ow_thread_id = [],
     ow_lock_timestamp = 0, ow_last_updated = 0\<rparr>"

definition zero_w_lock :: w_lock_struct where
  "zero_w_lock = \<lparr>ws_used = False, ws_name = [], ws_last_used = 0, ws_write_locked = False,
     ws_state = LOCK_UNKNOWN, ws_ref_count = 0, ws_owner = zero_owner\<rparr>"

definition SIZE_LOCK_NAME :: nat where "SIZE_LOCK_NAME = 32"
definition MAX_W_SHARED_LOCKS :: nat where "MAX_W_SHARED_LOCKS = 4096 * 10"

record w_lock_table =
  wt_version :: "nat \<times> nat"
  wt_max_count :: nat
  wt_used_count :: nat
  wt_locks :: "w_lock_struct list"

text \<open>
  \<open>base_lock_table::__create\<close> and \<open>w_lock_table::create\<close>: the manager writes the header of the
  segment, a client checks the version; \<open>reset\<close> clears the records.
\<close>

definition version_compatible :: "nat \<times> nat \<Rightarrow> nat \<times> nat \<Rightarrow> bool" where
  "version_compatible v1 v2 \<longleftrightarrow> fst v1 = fst v2"

definition base_table_create :: "nat \<Rightarrow> bool \<Rightarrow> nat \<times> nat \<Rightarrow> w_lock_table \<Rightarrow> (unit, w_lock_table) res" where
  "base_table_create max_count manager version seg =
     (if manager
      then (Inr (), seg\<lparr>wt_max_count := max_count, wt_used_count := 0, wt_version := version\<rparr>)
      else if version_compatible (wt_version seg) version then (Inr (), seg)
      else (Inl Lock_error, seg))"

definition w_table_create :: "bool \<Rightarrow> bool \<Rightarrow> w_lock_table \<Rightarrow> (unit, w_lock_table) res" where
  "w_table_create is_manager reset seg =
     (case base_table_create MAX_W_SHARED_LOCKS is_manager (0, 1) seg of
        (Inl e, s) \<Rightarrow> (Inl e, s)
      | (Inr _, s) \<Rightarrow>
          (Inr (), if reset then s\<lparr>wt_locks := replicate MAX_W_SHARED_LOCKS zero_w_lock\<rparr> else s))"

definition w_table_get_at :: "w_lock_table \<Rightarrow> nat \<Rightarrow> exc + nat option" where
  "w_table_get_at t index =
     (if index < wt_max_count t
      then (if index < length (wt_locks t)
            then Inr (if ws_used (wt_locks t ! index) then Some index else None)
            else Inl Mem_fault)
      else Inl Precondition)"

text \<open>
  The scan of \<open>add_lock\<close>: stop at a used record of this name, remember the first free record
  seen on the way.
\<close>

definition w_name_is :: "w_lock_struct \<Rightarrow> string \<Rightarrow> bool" where
  "w_name_is p name \<longleftrightarrow> length (ws_name p) = length name
     \<and> strncmp_eq (ws_name p) name (length name)"

fun w_scan_add :: "string \<Rightarrow> w_lock_struct list \<Rightarrow> nat \<Rightarrow> nat option \<Rightarrow> nat option \<times> nat option" where
  "w_scan_add name [] ii free = (None, free)"
| "w_scan_add name (p # ps) ii free =
     (if ws_used p \<and> w_name_is p name then (Some ii, free)
      else w_scan_add name ps (ii + 1) (if free = None \<and> \<not> ws_used p then Some ii else free))"

definition w_table_add_lock :: "bool \<Rightarrow> w_lock_table \<Rightarrow> string \<Rightarrow> (nat option, w_lock_table) res" where
  "w_table_add_lock got t name =
     (if name = [] then (Inl Precondition, t)
      else if \<not> length name < SIZE_LOCK_NAME then (Inl Precondition, t)
      else if \<not> got then (Inl Lock_timeout, t)
      else if wt_used_count t \<ge> wt_max_count t then (Inl Lock_error, t)
      else
        (let (found, free) = w_scan_add name (take (wt_max_count t) (wt_locks t)) 0 None in
         case free of
           None \<Rightarrow> (Inr found, t)
         | Some i \<Rightarrow>
             (Inr (Some i),
              t\<lparr>wt_locks := (wt_locks t)[i := zero_w_lock\<lparr>ws_used := True, ws_name := name\<rparr>],
                wt_used_count := wt_used_count t + 1\<rparr>)))"

text \<open>\<open>used_count--\<close> on a \<open>uint32_t\<close>.\<close>

definition dec32 :: "nat \<Rightarrow> nat" where
  "dec32 n = (n + (2 ^ 32 - 1)) mod 2 ^ 32"

fun w_scan :: "string \<Rightarrow> w_lock_struct list \<Rightarrow> nat \<Rightarrow> nat option" where
  "w_scan name [] ii = None"
| "w_scan name (p # ps) ii =
     (if ws_used p \<and> w_name_is p name then Some ii else w_scan name ps (ii + 1))"

definition w_table_remove_lock :: "bool \<Rightarrow> w_lock_table \<Rightarrow> string \<Rightarrow> (bool, w_lock_table) res" where
  "w_table_remove_lock got t name =
     (if name = [] then (Inl Precondition, t)
      else if \<not> length name < SIZE_LOCK_NAME then (Inl Precondition, t)
      else if \<not> got then (Inl Lock_timeout, t)
      else
        (case w_scan name (take (wt_max_count t) (wt_locks t)) 0 of
           None \<Rightarrow> (Inr False, t)
         | Some i \<Rightarrow>
             (let p = wt_locks t ! i;
                  p' = (if ws_ref_count p > 0 then p\<lparr>ws_ref_count := ws_ref_count p - 1\<rparr> else p) in
              if ws_ref_count p' = 0
              then (Inr True, t\<lparr>wt_locks := (wt_locks t)[i := zero_w_lock],
                                wt_used_count := dec32 (wt_used_count t)\<rparr>)
              else (Inr False, t\<lparr>wt_locks := (wt_locks t)[i := p']\<rparr>))))"

subsection \<open>The scans\<close>

lemma w_name_is_iff: "w_name_is p name \<longleftrightarrow> ws_name p = name"
  by (auto simp: w_name_is_def strncmp_eq_def)

lemma w_scan_Some:
  "w_scan name ps k = Some i \<Longrightarrow>
     k \<le> i \<and> i < k + length ps \<and> ws_used (ps ! (i - k)) \<and> ws_name (ps ! (i - k)) = name"
proof (induction ps arbitrary: k)
  case Nil
  then show ?case by simp
next
  case (Cons p ps)
  show ?case
  proof (cases "ws_used p \<and> w_name_is p name")
    case True
    then show ?thesis using Cons.prems by (auto simp: w_name_is_iff)
  next
    case False
    then have "w_scan name ps (k + 1) = Some i"
      using Cons.prems by (simp split: if_splits)
    note ih = Cons.IH [OF this]
    then have "i - k = Suc (i - (k + 1))" by arith
    then show ?thesis using ih by simp
  qed
qed

lemma w_scan_None:
  "w_scan name ps k = None \<longleftrightarrow> (\<forall>p \<in> set ps. ws_used p \<longrightarrow> ws_name p \<noteq> name)"
  by (induction ps arbitrary: k) (auto simp: w_name_is_iff)

lemma w_scan_add_free_Some:
  "w_scan_add name ps k free = (fd, Some i) \<Longrightarrow>
     free = Some i \<or> (free = None \<and> k \<le> i \<and> i < k + length ps \<and> \<not> ws_used (ps ! (i - k)))"
proof (induction ps arbitrary: k free)
  case Nil
  then show ?case by simp
next
  case (Cons p ps)
  show ?case
  proof (cases "ws_used p \<and> w_name_is p name")
    case True
    then show ?thesis using Cons.prems by simp
  next
    case False
    let ?f = "if free = None \<and> \<not> ws_used p then Some k else free"
    have "w_scan_add name ps (k + 1) ?f = (fd, Some i)"
      using False Cons.prems by (simp only: w_scan_add.simps if_False)
    note ih = Cons.IH [OF this]
    show ?thesis
    proof (cases "free = None \<and> \<not> ws_used p")
      case True
      then show ?thesis using ih by auto
    next
      case f: False
      then show ?thesis
        using ih by (cases free) (auto simp: nth_Cons' Suc_diff_le)
    qed
  qed
qed

lemma w_scan_add_found:
  "fst (w_scan_add name ps k free) = w_scan name ps k"
  by (induction ps arbitrary: k free) auto

lemma w_scan_add_free_None:
  "snd (w_scan_add name ps k free) = None \<Longrightarrow> w_scan name ps k = None \<Longrightarrow> (\<forall>p \<in> set ps. ws_used p)"
proof (induction ps arbitrary: k free)
  case Nil
  then show ?case by simp
next
  case (Cons p ps)
  have keep: "(snd (w_scan_add name ps j (Some m)) = None) = False" for j m
    by (induction ps arbitrary: j) auto
  have np: "\<not> (ws_used p \<and> w_name_is p name)" and sc: "w_scan name ps (k + 1) = None"
    using Cons.prems(2) by (auto split: if_splits)
  have step: "snd (w_scan_add name ps (k + 1) (if free = None \<and> \<not> ws_used p then Some k else free)) = None"
    using Cons.prems(1) np by (simp only: w_scan_add.simps if_False)
  have "ws_used p" "free = None"
    using step by (cases free; simp add: keep split: if_splits)+
  then show ?case
    using Cons.IH [OF _ sc] step by auto
qed

subsection \<open>Well-formed tables\<close>

text \<open>
  \<open>w_table_wf\<close>: the segment holds \<open>max_count\<close> records and the header counts the used ones.
  \<open>w_table_unique\<close>: no two used records have the same name, which is what makes a named lock
  one lock.
\<close>

definition w_table_wf :: "w_lock_table \<Rightarrow> bool" where
  "w_table_wf t \<longleftrightarrow> length (wt_locks t) = wt_max_count t \<and> wt_max_count t < 2 ^ 32
     \<and> wt_used_count t = length (filter ws_used (wt_locks t))"

definition w_table_unique :: "w_lock_table \<Rightarrow> bool" where
  "w_table_unique t \<longleftrightarrow> (\<forall>i < length (wt_locks t). \<forall>j < length (wt_locks t).
     ws_used (wt_locks t ! i) \<longrightarrow> ws_used (wt_locks t ! j)
       \<longrightarrow> ws_name (wt_locks t ! i) = ws_name (wt_locks t ! j) \<longrightarrow> i = j)"

definition w_table_refs0 :: "w_lock_table \<Rightarrow> bool" where
  "w_table_refs0 t \<longleftrightarrow> (\<forall>p \<in> set (wt_locks t). ws_used p \<longrightarrow> ws_ref_count p = 0)"

lemma w_add_cases:
  assumes "w_table_wf t" "w_table_add_lock got t name = (r, t')"
  obtains (err) e where "r = Inl e" "t' = t"
    | (found) i where "r = Inr (Some i)" "t' = t" "i < length (wt_locks t)"
        "ws_used (wt_locks t ! i)" "ws_name (wt_locks t ! i) = name"
    | (fresh) i where "r = Inr (Some i)" "i < length (wt_locks t)" "\<not> ws_used (wt_locks t ! i)"
        "wt_locks t' = (wt_locks t)[i := zero_w_lock\<lparr>ws_used := True, ws_name := name\<rparr>]"
        "wt_used_count t' = wt_used_count t + 1" "wt_max_count t' = wt_max_count t"
proof (cases "\<exists>e. r = Inl e")
  case True
  then obtain e where e: "r = Inl e" by blast
  then have "t' = t"
    using assms(2) by (auto simp: w_table_add_lock_def Let_def split: if_splits prod.splits option.splits)
  then show ?thesis using e err by blast
next
  case False
  have len: "take (wt_max_count t) (wt_locks t) = wt_locks t"
    using assms(1) by (simp add: w_table_wf_def)
  obtain fd fr where sc: "w_scan_add name (wt_locks t) 0 None = (fd, fr)"
    by (cases "w_scan_add name (wt_locks t) 0 None")
  have notfull: "wt_used_count t < wt_max_count t"
    using False assms(2) by (auto simp: w_table_add_lock_def split: if_splits)
  show ?thesis
  proof (cases fr)
    case None
    have ws: "w_scan name (wt_locks t) 0 = fd"
      using w_scan_add_found [of name "wt_locks t" 0 None] sc by simp
    have "fd \<noteq> None"
    proof
      assume "fd = None"
      then have "\<forall>p \<in> set (wt_locks t). ws_used p"
        using w_scan_add_free_None [of name "wt_locks t" 0 None] sc None ws by simp
      then have "filter ws_used (wt_locks t) = wt_locks t"
        by (simp add: filter_id_conv)
      then show False
        using notfull assms(1) by (simp add: w_table_wf_def)
    qed
    then obtain i where i: "fd = Some i" by blast
    then have "r = Inr (Some i)" "t' = t"
      using False assms(2) sc None
      by (auto simp: w_table_add_lock_def len split: if_splits)
    moreover have "i < length (wt_locks t)" "ws_used (wt_locks t ! i)" "ws_name (wt_locks t ! i) = name"
      using w_scan_Some [of name "wt_locks t" 0 i] ws i by auto
    ultimately show ?thesis using found by blast
  next
    case (Some i)
    have "i < length (wt_locks t)" "\<not> ws_used (wt_locks t ! i)"
      using w_scan_add_free_Some [of name "wt_locks t" 0 None fd i] sc Some by auto
    moreover have "r = Inr (Some i)"
      "wt_locks t' = (wt_locks t)[i := zero_w_lock\<lparr>ws_used := True, ws_name := name\<rparr>]"
      "wt_used_count t' = wt_used_count t + 1" "wt_max_count t' = wt_max_count t"
      using False assms(2) sc Some
      by (auto simp: w_table_add_lock_def len split: if_splits)
    ultimately show ?thesis using fresh by blast
  qed
qed

lemma w_add_wf:
  assumes "w_table_wf t" "w_table_add_lock got t name = (r, t')"
  shows "w_table_wf t'"
  using assms
proof (cases rule: w_add_cases)
  case (fresh i)
  then show ?thesis
    using assms(1) filter_update_length [of i "wt_locks t" ws_used "zero_w_lock\<lparr>ws_used := True, ws_name := name\<rparr>"]
    by (simp add: w_table_wf_def)
qed (use assms(1) in simp_all)

lemma w_add_refs0:
  assumes "w_table_wf t" "w_table_refs0 t" "w_table_add_lock got t name = (r, t')"
  shows "w_table_refs0 t'"
  using assms(1,3)
proof (cases rule: w_add_cases)
  case (fresh i)
  then show ?thesis
    using assms(2) by (auto simp: w_table_refs0_def zero_w_lock_def dest!: set_update_subset_insert [THEN subsetD])
qed (use assms in simp_all)

lemma dec32_pos: "0 < n \<Longrightarrow> n < 2 ^ 32 \<Longrightarrow> dec32 n = n - 1"
proof -
  assume "0 < n" "n < 2 ^ 32"
  then have "n + (2 ^ 32 - 1) = (n - 1) + 2 ^ 32" "n - 1 < 2 ^ 32" by simp_all
  then show ?thesis by (metis dec32_def mod_add_self2 mod_less)
qed

lemma w_remove_cases:
  assumes "w_table_wf t" "w_table_remove_lock got t name = (r, t')"
  obtains (same) "t' = t" "\<not> (r = Inr True)"
    | (dec) i where "r = Inr False" "i < length (wt_locks t)" "ws_used (wt_locks t ! i)"
        "ws_name (wt_locks t ! i) = name"
        "ws_ref_count (wt_locks t ! i) > 1"
        "t' = t\<lparr>wt_locks := (wt_locks t)[i := (wt_locks t ! i)\<lparr>ws_ref_count := ws_ref_count (wt_locks t ! i) - 1\<rparr>]\<rparr>"
    | (gone) i where "r = Inr True" "i < length (wt_locks t)" "ws_used (wt_locks t ! i)"
        "ws_name (wt_locks t ! i) = name"
        "t' = t\<lparr>wt_locks := (wt_locks t)[i := zero_w_lock], wt_used_count := dec32 (wt_used_count t)\<rparr>"
proof (cases "w_scan name (wt_locks t) 0")
  case None
  then have "t' = t \<and> \<not> (r = Inr True)"
    using assms by (auto simp: w_table_remove_lock_def w_table_wf_def split: if_splits)
  then show ?thesis using same by blast
next
  case (Some i)
  have i: "i < length (wt_locks t)" "ws_used (wt_locks t ! i)" "ws_name (wt_locks t ! i) = name"
    using w_scan_Some [OF Some] by auto
  have len: "take (wt_max_count t) (wt_locks t) = wt_locks t"
    using assms(1) by (simp add: w_table_wf_def)
  show ?thesis
  proof (cases "name = [] \<or> \<not> length name < SIZE_LOCK_NAME \<or> \<not> got")
    case True
    then have "t' = t \<and> \<not> (r = Inr True)"
      using assms(2) by (auto simp: w_table_remove_lock_def split: if_splits)
    then show ?thesis using same by blast
  next
    case False
    show ?thesis
    proof (cases "ws_ref_count (wt_locks t ! i) > 1")
      case True
      then show ?thesis
        using dec [OF _ i True] assms(2) False Some by (simp add: w_table_remove_lock_def len Let_def)
    next
      case nd: False
      then show ?thesis
        using gone [OF _ i] assms(2) False Some
        by (cases "ws_ref_count (wt_locks t ! i) = 0") (simp_all add: w_table_remove_lock_def len)
    qed
  qed
qed

lemma w_remove_wf:
  assumes "w_table_wf t" "w_table_remove_lock got t name = (r, t')"
  shows "w_table_wf t'"
  using assms
proof (cases rule: w_remove_cases)
  case (dec i)
  then show ?thesis
    using assms(1) filter_update_length [of i "wt_locks t" ws_used
        "(wt_locks t ! i)\<lparr>ws_ref_count := ws_ref_count (wt_locks t ! i) - 1\<rparr>"]
    by (simp add: w_table_wf_def)
next
  case (gone i)
  have f: "length (filter ws_used ((wt_locks t)[i := zero_w_lock])) + 1 = length (filter ws_used (wt_locks t))"
    using gone filter_update_length [of i "wt_locks t" ws_used zero_w_lock] by (simp add: zero_w_lock_def)
  moreover have "length (filter ws_used (wt_locks t)) < 2 ^ 32"
    using assms(1) length_filter_le [of ws_used "wt_locks t"] by (simp add: w_table_wf_def)
  moreover have c: "wt_used_count t = length (filter ws_used (wt_locks t))"
    using assms(1) by (simp add: w_table_wf_def)
  ultimately have "dec32 (wt_used_count t) = wt_used_count t - 1"
    by (intro dec32_pos) linarith+
  then have "dec32 (wt_used_count t) = length (filter ws_used ((wt_locks t)[i := zero_w_lock]))"
    using f c by linarith
  then show ?thesis
    using gone assms(1) by (simp add: w_table_wf_def)
qed (use assms(1) in simp_all)

lemma w_remove_unique:
  assumes "w_table_wf t" "w_table_unique t" "w_table_remove_lock got t name = (r, t')"
  shows "w_table_unique t'"
  using assms(1,3)
proof (cases rule: w_remove_cases)
  case (dec i)
  then show ?thesis
    using assms(2) by (auto simp: w_table_unique_def nth_list_update)
next
  case (gone i)
  then show ?thesis
    using assms(2) by (auto simp: w_table_unique_def nth_list_update zero_w_lock_def)
qed (use assms(2) in simp_all)

text \<open>
  What \<open>add_lock\<close> does keep: a fresh record of a name that no used record has. The name is
  unique afterwards; otherwise it may not be (see \<open>w_add_duplicates\<close>).
\<close>

lemma w_add_unique:
  assumes "w_table_wf t" "w_table_unique t" "w_table_add_lock got t name = (r, t')"
    and new: "\<forall>p \<in> set (wt_locks t). ws_used p \<longrightarrow> ws_name p \<noteq> name"
  shows "w_table_unique t'"
  using assms(1,3)
proof (cases rule: w_add_cases)
  case (fresh i)
  have "ws_name (wt_locks t ! j) \<noteq> name" if "j < length (wt_locks t)" "ws_used (wt_locks t ! j)" for j
    using new that by simp
  then show ?thesis
    using fresh assms(2) by (auto simp: w_table_unique_def nth_list_update)
qed (use assms(2) in simp_all)

text \<open>
  Reference counts: no operation ever increments \<open>ref_count\<close>, so in a table built by the
  operations it is 0 and the first \<open>remove_lock\<close> clears the record whoever else uses it.
\<close>

lemma w_remove_clears:
  assumes "w_table_wf t" "w_table_refs0 t" "name \<noteq> []" "length name < SIZE_LOCK_NAME"
    and "\<exists>p \<in> set (wt_locks t). ws_used p \<and> ws_name p = name"
  shows "\<exists>i < length (wt_locks t). ws_name (wt_locks t ! i) = name \<and>
    w_table_remove_lock True t name =
      (Inr True, t\<lparr>wt_locks := (wt_locks t)[i := zero_w_lock], wt_used_count := dec32 (wt_used_count t)\<rparr>)"
proof -
  have "w_scan name (wt_locks t) 0 \<noteq> None"
    using assms(5) by (auto simp: w_scan_None)
  then obtain i where sc: "w_scan name (wt_locks t) 0 = Some i" by blast
  note i = w_scan_Some [OF sc]
  then have "ws_ref_count (wt_locks t ! i) = 0"
    using assms(2) by (auto simp: w_table_refs0_def)
  moreover have "take (wt_max_count t) (wt_locks t) = wt_locks t"
    using assms(1) by (simp add: w_table_wf_def)
  ultimately show ?thesis
    using i sc assms(3,4) by (intro exI [of _ i]) (simp add: w_table_remove_lock_def)
qed

subsection \<open>Properties\<close>

text \<open>Adding and removing locks, whether they succeed or fail, keep the table well
  formed: its used count is the number of its used records.\<close>

theorem lock_table_wf:
  assumes "w_table_wf t"
  shows "w_table_wf (snd (w_table_add_lock got t name)) \<and> w_table_wf (snd (w_table_remove_lock got t name))"
  using w_add_wf [OF assms] w_remove_wf [OF assms] by (metis prod.collapse)

definition demo_w_table :: w_lock_table where
  "demo_w_table = \<lparr>wt_version = (0, 1), wt_max_count = 2, wt_used_count = 0, wt_locks = [zero_w_lock, zero_w_lock]\<rparr>"

theorem lock_table_wf_witness:
  "w_table_wf (snd (w_table_add_lock True demo_w_table ''a'')) \<and> w_table_wf (snd (w_table_remove_lock True demo_w_table ''a''))"
  by (rule lock_table_wf) (simp add: w_table_wf_def demo_w_table_def zero_w_lock_def)

text \<open>A free record that precedes the record of a name makes \<open>add_lock\<close> of
  that name allocate a second record: after adding \<open>a\<close> and \<open>b\<close> and removing \<open>a\<close>, adding \<open>b\<close> again
  leaves two used records of the name \<open>b\<close>, and the caller is given the new one.\<close>

theorem lock_table_duplicates:
  "\<exists>t1 t2 t3 t4. w_table_add_lock True demo_w_table ''a'' = (Inr (Some 0), t1)
    \<and> w_table_add_lock True t1 ''b'' = (Inr (Some 1), t2)
    \<and> w_table_remove_lock True t2 ''a'' = (Inr True, t3)
    \<and> w_table_add_lock True t3 ''b'' = (Inr (Some 0), t4)
    \<and> map ws_name (filter ws_used (wt_locks t4)) = [''b'', ''b'']"
  by (simp add: demo_w_table_def w_table_add_lock_def w_table_remove_lock_def SIZE_LOCK_NAME_def
      zero_w_lock_def w_name_is_iff dec32_def Let_def)

text \<open>No operation raises the reference count of a record, so the first
  \<open>remove_lock\<close> of a name clears its record, whoever else uses it.\<close>

theorem lock_table_remove_clears:
  assumes "w_table_wf t" "w_table_refs0 t" "name \<noteq> []" "length name < SIZE_LOCK_NAME"
    and "\<exists>p \<in> set (wt_locks t). ws_used p \<and> ws_name p = name"
  shows "w_table_refs0 (snd (w_table_add_lock got t other))
    \<and> (\<exists>i < length (wt_locks t). ws_name (wt_locks t ! i) = name
      \<and> w_table_remove_lock True t name = (Inr True, t\<lparr>wt_locks := (wt_locks t)[i := zero_w_lock],
          wt_used_count := dec32 (wt_used_count t)\<rparr>))"
  using w_remove_clears [OF assms] w_add_refs0 [OF assms(1,2)] by (metis prod.collapse)

theorem lock_table_remove_clears_witness:
  "fst (w_table_remove_lock True \<lparr>wt_version = (0, 1), wt_max_count = 1, wt_used_count = 1,
      wt_locks = [zero_w_lock\<lparr>ws_used := True, ws_name := ''a''\<rparr>]\<rparr> ''a'') = Inr True"
  using lock_table_remove_clears [of "\<lparr>wt_version = (0, 1), wt_max_count = 1, wt_used_count = 1,
      wt_locks = [zero_w_lock\<lparr>ws_used := True, ws_name := ''a''\<rparr>]\<rparr>" "''a''"]
  by (auto simp: w_table_wf_def w_table_refs0_def zero_w_lock_def SIZE_LOCK_NAME_def)

end
