(* ===== verification/WriteLock.thy ===== *)
theory WriteLock
  imports LockTables
begin

section \<open>The write lock (common/includes/write_lock.h)\<close>

text \<open>
  A \<open>write_lock\<close> object of one process, and the record in shared memory it points to. The
  operations take the process id, the thread id and the clock they read, and return the object
  and the table. A null \<open>lock_struct\<close> that is dereferenced is \<open>Mem_fault\<close>. The object's
  \<open>exclusive_lock\<close> is the table's; \<open>got\<close> says whether it was obtained.
\<close>

record write_lock =
  wk_state :: lock_state_enum
  wk_lock_struct :: "nat option"
  wk_txn_id :: string
  wk_name :: string
  wk_reference_count :: nat

text \<open>What an operation reads from its surroundings.\<close>

record call_env =
  ce_pid :: pid
  ce_tid :: tid
  ce_now :: time

definition write_lock_new :: write_lock where
  "write_lock_new = \<lparr>wk_state = LOCK_UNKNOWN, wk_lock_struct = None, wk_txn_id = [], wk_name = [],
     wk_reference_count = 0\<rparr>"

text \<open>\<open>DEFAULT_W_LOCK_EXPIRY\<close> is 10 minutes in milliseconds.\<close>

definition W_LOCK_EXPIRY :: time where "W_LOCK_EXPIRY = 10 * 60 * 1000"

definition wk_available :: "write_lock \<Rightarrow> bool" where
  "wk_available l \<longleftrightarrow> wk_state l \<noteq> LOCK_UNKNOWN \<and> wk_state l \<noteq> LOCK_ERROR"

definition wk_is_free :: "write_lock \<Rightarrow> bool" where
  "wk_is_free l \<longleftrightarrow> wk_state l = LOCK_FREE"

definition wk_is_lock_reset :: "write_lock \<Rightarrow> exc + bool" where
  "wk_is_lock_reset l = (if wk_available l then Inr (wk_state l = LOCK_RESET) else Inl Precondition)"

definition wk_get_txn_id :: "write_lock \<Rightarrow> exc + string" where
  "wk_get_txn_id l = (if wk_available l then Inr (wk_txn_id l) else Inl Precondition)"

definition wk_increment_ref_count :: "write_lock \<Rightarrow> nat \<times> write_lock" where
  "wk_increment_ref_count l =
     (let n = (wk_reference_count l + 1) mod 2 ^ 32 in (n, l\<lparr>wk_reference_count := n\<rparr>))"

definition wk_decrement_ref_count :: "write_lock \<Rightarrow> nat \<times> write_lock" where
  "wk_decrement_ref_count l =
     (let n = (if wk_reference_count l > 0 then wk_reference_count l - 1 else wk_reference_count l)
      in (n, l\<lparr>wk_reference_count := n\<rparr>))"

definition wk_clear_lock_reset :: "write_lock \<Rightarrow> write_lock" where
  "wk_clear_lock_reset l = l\<lparr>wk_state := LOCK_RESET, wk_lock_struct := None\<rparr>"

definition wt_record :: "w_lock_table \<Rightarrow> nat option \<Rightarrow> w_lock_struct option" where
  "wt_record t p = (case p of None \<Rightarrow> None
     | Some i \<Rightarrow> if i < length (wt_locks t) then Some (wt_locks t ! i) else None)"

definition wt_store :: "w_lock_table \<Rightarrow> nat option \<Rightarrow> w_lock_struct \<Rightarrow> w_lock_table" where
  "wt_store t p r = (case p of None \<Rightarrow> t | Some i \<Rightarrow> t\<lparr>wt_locks := (wt_locks t)[i := r]\<rparr>)"

text \<open>
  \<open>check_lock_valid\<close>. After \<open>clear_lock_reset\<close> the code goes on to read \<open>lock_struct->last_used\<close>
  through the pointer it has just set to null.
\<close>

definition wk_check_lock_valid :: "time \<Rightarrow> write_lock \<Rightarrow> w_lock_table \<Rightarrow> (bool, write_lock) res" where
  "wk_check_lock_valid now l t =
     (case wt_record t (wk_lock_struct l) of
        None \<Rightarrow> (Inl Mem_fault, l)
      | Some s \<Rightarrow>
          (let (r, l') =
             (if \<not> ws_used s then (False, wk_clear_lock_reset l)
              else if \<not> strncmp_eq (ws_name s) (wk_name l) (length (wk_name l))
              then (False, wk_clear_lock_reset l)
              else (True, l)) in
           (case wt_record t (wk_lock_struct l') of
              None \<Rightarrow> (Inl Mem_fault, l')
            | Some s' \<Rightarrow>
                (let delta = now - ws_last_used s' in
                 if delta \<ge> W_LOCK_EXPIRY then (Inr False, l'\<lparr>wk_state := LOCK_EXPIRED\<rparr>)
                 else (Inr r, l')))))"

definition wk_has_write_lock ::
  "call_env \<Rightarrow> write_lock \<Rightarrow> w_lock_table \<Rightarrow> (bool, write_lock \<times> w_lock_table) res" where
  "wk_has_write_lock e l t =
     (if \<not> wk_available l then (Inl Precondition, (l, t))
      else (case wk_check_lock_valid (ce_now e) l t of
              (Inl x, l') \<Rightarrow> (Inl x, (l', t))
            | (Inr False, l') \<Rightarrow> (Inr False, (l', t))
            | (Inr True, l') \<Rightarrow>
                (case wt_record t (wk_lock_struct l') of
                   None \<Rightarrow> (Inl Mem_fault, (l', t))
                 | Some s0 \<Rightarrow>
                     (let s = s0\<lparr>ws_last_used := ce_now e\<rparr>; ow = ws_owner s;
                          t1 = wt_store t (wk_lock_struct l') s in
                      if ws_write_locked s
                        \<and> ow_process_id ow = ce_pid e
                        \<and> strncmp_eq (ow_txn_id ow) (wk_txn_id l') (length (wk_txn_id l'))
                        \<and> strncmp_eq (ow_thread_id ow) (ce_tid e) (length (ce_tid e))
                      then (Inr True, (l', wt_store t (wk_lock_struct l')
                              (s\<lparr>ws_owner := ow\<lparr>ow_last_updated := ws_last_used s\<rparr>\<rparr>)))
                      else (Inr False, (l', t1))))))"

definition wk_register_lock :: "bool \<Rightarrow> time \<Rightarrow> write_lock \<Rightarrow> w_lock_table \<Rightarrow> (unit, write_lock \<times> w_lock_table) res" where
  "wk_register_lock got now l t =
     (case w_table_add_lock got t (wk_name l) of
        (Inl x, t') \<Rightarrow> (Inl x, (l, t'))
      | (Inr p, t') \<Rightarrow>
          (let l' = l\<lparr>wk_lock_struct := p\<rparr> in
           case wt_record t' p of
             None \<Rightarrow> (Inl Postcondition, (l', t'))
           | Some s \<Rightarrow> (Inr (), (l', wt_store t' p (s\<lparr>ws_last_used := now\<rparr>)))))"

definition wk_create :: "bool \<Rightarrow> time \<Rightarrow> string \<Rightarrow> write_lock \<Rightarrow> w_lock_table \<Rightarrow> (unit, write_lock \<times> w_lock_table) res" where
  "wk_create got now name l t =
     (if wk_available l then (Inr (), (l, t))
      else if name = [] then (Inl Lock_error, (l\<lparr>wk_state := LOCK_ERROR\<rparr>, t))
      else (case wk_register_lock got now (l\<lparr>wk_name := name\<rparr>) t of
              (Inl _, (l', t')) \<Rightarrow> (Inl Lock_error, (l'\<lparr>wk_state := LOCK_ERROR\<rparr>, t'))
            | (Inr _, (l', t')) \<Rightarrow> (Inr (), (l'\<lparr>wk_state := LOCK_FREE\<rparr>, t'))))"

definition wk_check_and_register :: "bool \<Rightarrow> time \<Rightarrow> write_lock \<Rightarrow> w_lock_table \<Rightarrow> (unit, write_lock \<times> w_lock_table) res" where
  "wk_check_and_register got now l t =
     (if \<not> wk_available l then (Inl Precondition, (l, t))
      else if wk_state l = LOCK_FREE \<or> wk_state l = LOCK_LOCKED then (Inr (), (l, t))
      else if wk_state l = LOCK_RESET
      then (case wk_register_lock got now l t of
              (Inl _, (l', t')) \<Rightarrow> (Inl Lock_error, (l'\<lparr>wk_state := LOCK_ERROR\<rparr>, t'))
            | (Inr _, (l', t')) \<Rightarrow> (Inr (), (l', t')))
      else (Inr (), (l, t)))"

text \<open>
  \<open>get_lock\<close>. Each round of its loop is given by whether the exclusive lock was obtained, the
  clock, and what other processes did to the table since the round before. The loop ends when
  the lock is taken, on a foreign transaction id, or past the timeout; \<open>None\<close> means that the
  rounds ran out first. The result is the object's transaction id, as in the code.
\<close>

record round =
  rd_got :: bool
  rd_now :: time
  rd_env :: "w_lock_table \<Rightarrow> w_lock_table"

datatype attempt = Taken | Give_up | Not_taken

definition wk_take :: "call_env \<Rightarrow> string \<Rightarrow> string \<Rightarrow> w_lock_struct \<Rightarrow> w_lock_struct" where
  "wk_take e owner txn s =
     s\<lparr>ws_write_locked := True,
       ws_owner := \<lparr>ow_owner = owner, ow_txn_id = txn, ow_process_id = ce_pid e,
         ow_thread_id = ce_tid e, ow_lock_timestamp = ce_now e, ow_last_updated = ce_now e\<rparr>\<rparr>"

definition wk_attempt :: "call_env \<Rightarrow> string \<Rightarrow> string \<Rightarrow> string \<Rightarrow> write_lock \<Rightarrow> w_lock_table
    \<Rightarrow> (attempt, write_lock \<times> w_lock_table) res" where
  "wk_attempt e owner txid uuid l t =
     (case wk_has_write_lock e l t of
        (Inl x, s) \<Rightarrow> (Inl x, s)
      | (Inr True, (l', t')) \<Rightarrow>
          (if txid = [] then (Inr Taken, (l', t'))
           else if txid = wk_txn_id l' then (Inr Taken, (l', t'))
           else (Inr Give_up, (l', t')))
      | (Inr False, (l', t')) \<Rightarrow>
          (case wt_record t' (wk_lock_struct l') of
             None \<Rightarrow> (Inl Mem_fault, (l', t'))
           | Some s \<Rightarrow>
               if \<not> ws_write_locked s
               then (let txn = (if txid = [] then uuid else txid) in
                     (Inr Taken, (l'\<lparr>wk_txn_id := txn\<rparr>, wt_store t' (wk_lock_struct l') (wk_take e owner txn s))))
               else (Inr Not_taken, (l', t'))))"

fun wk_get_lock_rounds :: "call_env \<Rightarrow> string \<Rightarrow> u64 \<Rightarrow> string \<Rightarrow> string \<Rightarrow> write_lock \<Rightarrow> w_lock_table
    \<Rightarrow> round list \<Rightarrow> (string, write_lock \<times> w_lock_table) res option" where
  "wk_get_lock_rounds e owner timeout txid uuid l t [] = None"
| "wk_get_lock_rounds e owner timeout txid uuid l t (r # rs) =
     (let t0 = rd_env r t; e' = e\<lparr>ce_now := rd_now r\<rparr>;
          step = (if rd_got r then wk_attempt e' owner txid uuid l t0 else (Inr Not_taken, (l, t0))) in
      case step of
        (Inl x, s) \<Rightarrow> Some (Inl x, s)
      | (Inr Taken, (l', t')) \<Rightarrow> Some (Inr (wk_txn_id l'), (l', t'))
      | (Inr Give_up, (l', t')) \<Rightarrow> Some (Inr (wk_txn_id l'), (l', t'))
      | (Inr Not_taken, (l', t')) \<Rightarrow>
          (if rd_now r - ce_now e > timeout then Some (Inr (wk_txn_id l'), (l', t'))
           else wk_get_lock_rounds e owner timeout txid uuid l' t' rs))"

definition wk_get_lock :: "call_env \<Rightarrow> string \<Rightarrow> u64 \<Rightarrow> string \<Rightarrow> string \<Rightarrow> write_lock \<Rightarrow> w_lock_table
    \<Rightarrow> round list \<Rightarrow> (string, write_lock \<times> w_lock_table) res option" where
  "wk_get_lock e owner timeout txid uuid l t rounds =
     (if \<not> wk_available l then Some (Inl Precondition, (l, t))
      else if owner = [] then Some (Inl Precondition, (l, t))
      else wk_get_lock_rounds e owner timeout txid uuid l t rounds)"

definition wk_release_struct :: "w_lock_struct \<Rightarrow> w_lock_struct" where
  "wk_release_struct s =
     s\<lparr>ws_write_locked := False,
       ws_owner := (ws_owner s)\<lparr>ow_process_id := - 1, ow_lock_timestamp := 0, ow_txn_id := [],
         ow_owner := [], ow_thread_id := []\<rparr>\<rparr>"

definition wk_release_lock :: "bool \<Rightarrow> call_env \<Rightarrow> write_lock \<Rightarrow> w_lock_table
    \<Rightarrow> (bool, write_lock \<times> w_lock_table) res" where
  "wk_release_lock got e l t =
     (if \<not> wk_available l then (Inl Precondition, (l, t))
      else if wk_txn_id l = [] then (Inl Precondition, (l, t))
      else if \<not> got then (Inl Lock_timeout, (l, t))
      else (case wt_record t (wk_lock_struct l) of
              None \<Rightarrow> (Inl Mem_fault, (l, t))
            | Some s \<Rightarrow>
                if ws_write_locked s
                then (case wk_has_write_lock e l t of
                        (Inl x, st) \<Rightarrow> (Inl x, st)
                      | (Inr False, st) \<Rightarrow> (Inr False, st)
                      | (Inr True, (l', t')) \<Rightarrow>
                          (case wt_record t' (wk_lock_struct l') of
                             None \<Rightarrow> (Inl Mem_fault, (l', t'))
                           | Some s' \<Rightarrow>
                               (Inr True, (l'\<lparr>wk_txn_id := []\<rparr>,
                                  wt_store t' (wk_lock_struct l') (wk_release_struct s')))))
                else (Inr False, (l, t))))"

text \<open>
  The destructor sets the state to \<open>LOCK_UNKNOWN\<close> before it gives up a lock its process still
  holds, and \<open>release_lock\<close> refuses that state; an exception that leaves a destructor ends the
  process.
\<close>

definition wk_check_and_clear :: "bool \<Rightarrow> call_env \<Rightarrow> write_lock \<Rightarrow> w_lock_table
    \<Rightarrow> (unit, write_lock \<times> w_lock_table) res" where
  "wk_check_and_clear got e l t =
     (case wt_record t (wk_lock_struct l) of
        None \<Rightarrow> (Inr (), (l, t))
      | Some s \<Rightarrow>
          if ws_used s \<and> ws_write_locked s \<and> ow_process_id (ws_owner s) = ce_pid e
          then (case wk_release_lock got e l t of
                  (Inl x, st) \<Rightarrow> (Inl x, st) | (Inr _, st) \<Rightarrow> (Inr (), st))
          else (Inr (), (l, t)))"

definition wk_destroy :: "bool \<Rightarrow> call_env \<Rightarrow> write_lock \<Rightarrow> w_lock_table
    \<Rightarrow> (unit, write_lock \<times> w_lock_table) res" where
  "wk_destroy got e l t =
     (case wk_check_and_clear got e (l\<lparr>wk_state := LOCK_UNKNOWN\<rparr>) t of
        (Inl x, st) \<Rightarrow> (Inl x, st)
      | (Inr _, (l', t')) \<Rightarrow> (Inr (), (l'\<lparr>wk_lock_struct := None\<rparr>, t')))"

subsection \<open>A valid lock record, and who holds it\<close>

text \<open>
  \<open>wk_live now l t s\<close>: the object points to the used record \<open>s\<close> of its name, touched less than
  the expiry ago. \<open>wk_mine e l s\<close> is the ownership test of \<open>has_write_lock\<close>.
\<close>

definition wk_live :: "time \<Rightarrow> write_lock \<Rightarrow> w_lock_table \<Rightarrow> w_lock_struct \<Rightarrow> bool" where
  "wk_live now l t s \<longleftrightarrow> wk_available l \<and> wt_record t (wk_lock_struct l) = Some s \<and> ws_used s
     \<and> strncmp_eq (ws_name s) (wk_name l) (length (wk_name l)) \<and> now - ws_last_used s < W_LOCK_EXPIRY"

definition wk_mine :: "call_env \<Rightarrow> write_lock \<Rightarrow> w_lock_struct \<Rightarrow> bool" where
  "wk_mine e l s \<longleftrightarrow> ws_write_locked s \<and> ow_process_id (ws_owner s) = ce_pid e
     \<and> strncmp_eq (ow_txn_id (ws_owner s)) (wk_txn_id l) (length (wk_txn_id l))
     \<and> strncmp_eq (ow_thread_id (ws_owner s)) (ce_tid e) (length (ce_tid e))"

definition wk_session :: "call_env \<Rightarrow> write_lock \<Rightarrow> w_lock_table \<Rightarrow> bool" where
  "wk_session e l t \<longleftrightarrow> (\<exists>s. wk_live (ce_now e) l t s \<and> wk_mine e l s)"

definition wk_touch :: "call_env \<Rightarrow> write_lock \<Rightarrow> w_lock_table \<Rightarrow> w_lock_table" where
  "wk_touch e l t = (case wt_record t (wk_lock_struct l) of None \<Rightarrow> t
     | Some s \<Rightarrow> wt_store t (wk_lock_struct l)
         (s\<lparr>ws_last_used := ce_now e, ws_owner := (ws_owner s)\<lparr>ow_last_updated := ce_now e\<rparr>\<rparr>))"

named_theorems wk_simps

lemma wt_record_Some_iff:
  "wt_record t p = Some s \<longleftrightarrow> (\<exists>i. p = Some i \<and> i < length (wt_locks t) \<and> s = wt_locks t ! i)"
  by (auto simp: wt_record_def split: option.splits)

lemma wt_record_store [wk_simps]:
  "wt_record t p = Some s0 \<Longrightarrow> wt_record (wt_store t p s) p = Some s"
  by (auto simp: wt_record_def wt_store_def split: option.splits if_splits)

lemma wt_record_store_other [wk_simps]:
  "p \<noteq> q \<Longrightarrow> wt_record (wt_store t p s) q = wt_record t q"
proof (cases p)
  case None
  then show ?thesis by (simp add: wt_store_def)
next
  case (Some i)
  assume "p \<noteq> q"
  with Some show ?thesis
    by (cases q) (simp_all add: wt_record_def wt_store_def)
qed

lemma wt_store_store [wk_simps]: "wt_store (wt_store t p s) p s' = wt_store t p s'"
  by (auto simp: wt_store_def split: option.splits)

lemma wt_store_frame [simp]:
  "wt_max_count (wt_store t p s) = wt_max_count t"
  "wt_used_count (wt_store t p s) = wt_used_count t"
  "length (wt_locks (wt_store t p s)) = length (wt_locks t)"
  by (auto simp: wt_store_def split: option.splits)

lemma wk_check_live: "wk_live now l t s \<Longrightarrow> wk_check_lock_valid now l t = (Inr True, l)"
  by (simp add: wk_live_def wk_check_lock_valid_def Let_def not_le)

lemma has_write_lock_mine:
  assumes "wk_live (ce_now e) l t s" "wk_mine e l s"
  shows "wk_has_write_lock e l t = (Inr True, (l, wk_touch e l t))"
  using assms wk_check_live [OF assms(1)]
  by (simp add: wk_has_write_lock_def wk_live_def wk_mine_def wk_touch_def Let_def)

lemma has_write_lock_not_mine:
  assumes "wk_live (ce_now e) l t s" "\<not> wk_mine e l s"
  shows "wk_has_write_lock e l t =
    (Inr False, (l, wt_store t (wk_lock_struct l) (s\<lparr>ws_last_used := ce_now e\<rparr>)))"
  using assms wk_check_live [OF assms(1)]
  by (simp add: wk_has_write_lock_def wk_live_def wk_mine_def Let_def)

lemma session_has: "wk_session e l t \<Longrightarrow> wk_has_write_lock e l t = (Inr True, (l, wk_touch e l t))"
  by (auto simp: wk_session_def has_write_lock_mine)

lemma touch_record:
  assumes "wk_live now l t s"
  shows "wt_record (wk_touch e l t) (wk_lock_struct l) =
    Some (s\<lparr>ws_last_used := ce_now e, ws_owner := (ws_owner s)\<lparr>ow_last_updated := ce_now e\<rparr>\<rparr>)"
  using assms by (simp add: wk_touch_def wk_live_def wk_simps)

lemma session_touch:
  assumes "wk_session e l t" "ce_pid e' = ce_pid e" "ce_tid e' = ce_tid e"
    "ce_now e' - ce_now e < W_LOCK_EXPIRY"
  shows "wk_session e' l (wk_touch e l t)"
proof -
  obtain s where s: "wk_live (ce_now e) l t s" "wk_mine e l s"
    using assms(1) by (auto simp: wk_session_def)
  show ?thesis
    unfolding wk_session_def
    using s assms(2-4) touch_record [OF s(1), of e]
    by (intro exI [of _ "s\<lparr>ws_last_used := ce_now e, ws_owner := (ws_owner s)\<lparr>ow_last_updated := ce_now e\<rparr>\<rparr>"])
      (simp add: wk_live_def wk_mine_def)
qed

lemma W_LOCK_EXPIRY_pos: "0 < W_LOCK_EXPIRY"
  by (simp add: W_LOCK_EXPIRY_def)

lemma touch_touch: "wk_session e l t \<Longrightarrow> wk_touch e l (wk_touch e l t) = wk_touch e l t"
proof -
  assume "wk_session e l t"
  then obtain s where "wk_live (ce_now e) l t s"
    by (auto simp: wk_session_def)
  then show ?thesis
    by (auto simp: wk_touch_def wk_live_def wk_simps)
qed

subsection \<open>Taking and releasing\<close>

lemma attempt_free:
  assumes "wk_live (ce_now e) l t s" "\<not> ws_write_locked s"
  shows "wk_attempt e owner txid uuid l t =
    (let txn = (if txid = [] then uuid else txid) in
     (Inr Taken, (l\<lparr>wk_txn_id := txn\<rparr>,
        wt_store t (wk_lock_struct l) (wk_take e owner txn (s\<lparr>ws_last_used := ce_now e\<rparr>)))))"
proof -
  have "\<not> wk_mine e l s"
    using assms(2) by (simp add: wk_mine_def)
  note hw = has_write_lock_not_mine [OF assms(1) this]
  have "wt_record t (wk_lock_struct l) = Some s"
    using assms(1) by (simp add: wk_live_def)
  then show ?thesis
    using assms(2) by (simp add: wk_attempt_def hw wk_simps Let_def)
qed

lemma attempt_free_session:
  assumes "wk_live (ce_now e) l t s" "\<not> ws_write_locked s"
    and "wk_attempt e owner txid uuid l t = (r, (l', t'))"
  shows "r = Inr Taken" and "wk_session e l' t'" and "wk_txn_id l' = (if txid = [] then uuid else txid)"
proof -
  have rec: "wt_record t (wk_lock_struct l) = Some s"
    using assms(1) by (simp add: wk_live_def)
  obtain x where x: "x = (if txid = [] then uuid else txid)"
    by blast
  have eq: "r = Inr Taken" "l' = l\<lparr>wk_txn_id := x\<rparr>"
    "t' = wt_store t (wk_lock_struct l) (wk_take e owner x (s\<lparr>ws_last_used := ce_now e\<rparr>))"
    using assms(3) attempt_free [OF assms(1,2)] x by (simp_all add: Let_def)
  show "r = Inr Taken" "wk_txn_id l' = (if txid = [] then uuid else txid)"
    using eq x by simp_all
  show "wk_session e l' t'"
    unfolding wk_session_def eq
    using assms(1) wt_record_store [OF rec] W_LOCK_EXPIRY_pos
    by (intro exI [of _ "wk_take e owner x (s\<lparr>ws_last_used := ce_now e\<rparr>)"])
      (auto simp: wk_live_def wk_mine_def wk_take_def wk_available_def)
qed

text \<open>A lock held by somebody else is neither taken nor changed, apart from its time stamp.\<close>

lemma attempt_held:
  assumes "wk_live (ce_now e) l t s" "ws_write_locked s" "\<not> wk_mine e l s"
  shows "wk_attempt e owner txid uuid l t =
    (Inr Not_taken, (l, wt_store t (wk_lock_struct l) (s\<lparr>ws_last_used := ce_now e\<rparr>)))"
proof -
  have "wt_record t (wk_lock_struct l) = Some s"
    using assms(1) by (simp add: wk_live_def)
  then show ?thesis
    using assms(2) has_write_lock_not_mine [OF assms(1,3)]
    by (simp add: wk_attempt_def wk_simps)
qed

lemma release_session:
  assumes "wk_session e l t" "wk_txn_id l \<noteq> []"
  shows "\<exists>s'. wk_release_lock True e l t = (Inr True, (l\<lparr>wk_txn_id := []\<rparr>, wt_store t (wk_lock_struct l) s'))
    \<and> ws_used s' \<and> \<not> ws_write_locked s' \<and> ow_txn_id (ws_owner s') = [] \<and> ws_last_used s' = ce_now e"
proof -
  obtain s where s: "wk_live (ce_now e) l t s" "wk_mine e l s"
    using assms(1) by (auto simp: wk_session_def)
  then have rec: "wt_record t (wk_lock_struct l) = Some s" and lk: "ws_write_locked s"
    and av: "wk_available l" and us: "ws_used s"
    by (simp_all add: wk_live_def wk_mine_def)
  let ?s = "s\<lparr>ws_last_used := ce_now e, ws_owner := (ws_owner s)\<lparr>ow_last_updated := ce_now e\<rparr>\<rparr>"
  have "wk_release_lock True e l t = (Inr True, (l\<lparr>wk_txn_id := []\<rparr>,
      wt_store (wk_touch e l t) (wk_lock_struct l) (wk_release_struct ?s)))"
    using av assms rec lk session_has [OF assms(1)] touch_record [OF s(1), of e]
    by (simp add: wk_release_lock_def)
  moreover have "wk_touch e l t = wt_store t (wk_lock_struct l) ?s"
    using rec by (simp add: wk_touch_def)
  ultimately show ?thesis
    using us by (intro exI [of _ "wk_release_struct ?s"]) (simp add: wk_simps wk_release_struct_def)
qed

lemma release_not_mine:
  assumes "wk_live (ce_now e) l t s" "\<not> wk_mine e l s"
    and "wk_release_lock True e l t = (r, (l', t'))" and "wt_record t' (wk_lock_struct l) = Some s'"
  shows "r \<noteq> Inr True" and "ws_write_locked s' = ws_write_locked s" and "ws_owner s' = ws_owner s"
proof -
  have rec: "wt_record t (wk_lock_struct l) = Some s"
    using assms(1) by (simp add: wk_live_def)
  have "(r, (l', t')) = (Inl Precondition, (l, t)) \<or> (r, (l', t')) = (Inr False, (l, t)) \<or>
      (r, (l', t')) = (Inr False, (l, wt_store t (wk_lock_struct l) (s\<lparr>ws_last_used := ce_now e\<rparr>)))"
    using assms(3) has_write_lock_not_mine [OF assms(1,2)] rec
    by (auto simp: wk_release_lock_def split: if_splits)
  then show "r \<noteq> Inr True" "ws_write_locked s' = ws_write_locked s" "ws_owner s' = ws_owner s"
    using assms(4) rec by (auto simp: wk_simps)
qed

subsection \<open>The interface the data blocks rely on\<close>

text \<open>
  A data block asks its lock, many times within one transaction, whether the calling thread
  still holds it, and gives it up at the end. \<open>lock_session\<close> states what makes that sound: while
  a session is live the question is answered with yes, asking keeps the session live for the
  same caller within the expiry, and releasing ends it.
\<close>

locale lock_session =
  fixes has :: "call_env \<Rightarrow> 's \<Rightarrow> (bool, 's) res"
    and release :: "call_env \<Rightarrow> 's \<Rightarrow> (bool, 's) res"
    and session :: "call_env \<Rightarrow> 's \<Rightarrow> bool"
    and releasable :: "'s \<Rightarrow> bool"
    and free :: "'s \<Rightarrow> bool"
    and near :: "call_env \<Rightarrow> call_env \<Rightarrow> bool"
  assumes near_refl: "near e e"
    and has_session: "session e s \<Longrightarrow> fst (has e s) = Inr True"
    and has_keeps: "session e s \<Longrightarrow> near e e' \<Longrightarrow> session e' (snd (has e s))"
    and has_idem: "session e s \<Longrightarrow> has e (snd (has e s)) = (Inr True, snd (has e s))"
    and has_releasable: "session e s \<Longrightarrow> releasable s \<Longrightarrow> releasable (snd (has e s))"
    and release_session: "session e s \<Longrightarrow> releasable s \<Longrightarrow>
        fst (release e s) = Inr True \<and> free (snd (release e s))"
begin

fun ask :: "call_env list \<Rightarrow> 's \<Rightarrow> 's" where
  "ask [] s = s"
| "ask (e # es) s = ask es (snd (has e s))"

fun nears :: "call_env \<Rightarrow> call_env list \<Rightarrow> bool" where
  "nears e [] = True"
| "nears e (e' # es) = (near e e' \<and> nears e' es)"

lemma ask_session:
  assumes "session e s" "nears e (es @ [e'])"
  shows "session e' (ask (e # es) s)"
  using assms
proof (induction es arbitrary: e s)
  case Nil
  then show ?case by (simp add: has_keeps)
next
  case (Cons a es)
  then have "session a (snd (has e s))"
    by (simp add: has_keeps)
  then show ?case
    using Cons by simp
qed

lemma ask_releasable:
  assumes "session e s" "releasable s" "nears e es"
  shows "releasable (ask (e # es) s)"
  using assms
proof (induction es arbitrary: e s)
  case Nil
  then show ?case by (simp add: has_releasable)
next
  case (Cons a es)
  then have "session a (snd (has e s))" "releasable (snd (has e s))" "nears a es"
    by (simp_all add: has_keeps has_releasable)
  then show ?case
    using Cons.IH by simp
qed

lemma nears_snocD: "nears e (es @ [e']) \<Longrightarrow> nears e es"
  by (induction es arbitrary: e) auto

lemma ask_then_release:
  assumes "session e s" "releasable s" "nears e (es @ [e'])"
  shows "fst (release e' (ask (e # es) s)) = Inr True \<and> free (snd (release e' (ask (e # es) s)))"
  using release_session [OF ask_session [OF assms(1,3)]
      ask_releasable [OF assms(1,2) nears_snocD [OF assms(3)]]] .

end

definition env_near :: "call_env \<Rightarrow> call_env \<Rightarrow> bool" where
  "env_near e e' \<longleftrightarrow> ce_pid e' = ce_pid e \<and> ce_tid e' = ce_tid e \<and> ce_now e' - ce_now e < W_LOCK_EXPIRY"

definition wk_unlocked :: "write_lock \<times> w_lock_table \<Rightarrow> bool" where
  "wk_unlocked st \<longleftrightarrow> (\<exists>s. wt_record (snd st) (wk_lock_struct (fst st)) = Some s \<and> \<not> ws_write_locked s)"

interpretation wl: lock_session
  "\<lambda>e (l, t). wk_has_write_lock e l t" "\<lambda>e (l, t). wk_release_lock True e l t"
  "\<lambda>e (l, t). wk_session e l t" "\<lambda>(l, t). wk_txn_id l \<noteq> []" wk_unlocked env_near
proof unfold_locales
  fix e e' :: call_env and st :: "write_lock \<times> w_lock_table"
  obtain l t where st: "st = (l, t)" by (cases st)
  show "env_near e e"
    using W_LOCK_EXPIRY_pos by (simp add: env_near_def)
  assume "case st of (l, t) \<Rightarrow> wk_session e l t"
  then have ses: "wk_session e l t" by (simp add: st)
  show "fst (case st of (l, t) \<Rightarrow> wk_has_write_lock e l t) = Inr True"
    by (simp add: st session_has [OF ses])
  show "case snd (case st of (l, t) \<Rightarrow> wk_has_write_lock e l t) of (l, t) \<Rightarrow> wk_session e' l t"
    if "env_near e e'"
    using that session_touch [OF ses] by (simp add: st session_has [OF ses] env_near_def)
  show "(case snd (case st of (l, t) \<Rightarrow> wk_has_write_lock e l t) of (l, t) \<Rightarrow> wk_has_write_lock e l t)
      = (Inr True, snd (case st of (l, t) \<Rightarrow> wk_has_write_lock e l t))"
    using session_touch [OF ses] W_LOCK_EXPIRY_pos
    by (simp add: st session_has [OF ses] session_has touch_touch [OF ses])
  show "case snd (case st of (l, t) \<Rightarrow> wk_has_write_lock e l t) of (l, t) \<Rightarrow> wk_txn_id l \<noteq> []"
    if "case st of (l, t) \<Rightarrow> wk_txn_id l \<noteq> []"
    using that by (simp add: st session_has [OF ses])
  show "fst (case st of (l, t) \<Rightarrow> wk_release_lock True e l t) = Inr True
      \<and> wk_unlocked (snd (case st of (l, t) \<Rightarrow> wk_release_lock True e l t))"
    if "case st of (l, t) \<Rightarrow> wk_txn_id l \<noteq> []"
  proof -
    have "wk_txn_id l \<noteq> []"
      using that by (simp add: st)
    moreover obtain s where "wt_record t (wk_lock_struct l) = Some s"
      using ses by (auto simp: wk_session_def wk_live_def)
    ultimately show ?thesis
      using release_session [OF ses] by (auto simp: st wk_unlocked_def wk_simps)
  qed
qed

subsection \<open>Properties\<close>

text \<open>The answer of \<open>has_write_lock\<close> is yes exactly in a session.\<close>

lemma check_lock_valid_True:
  assumes "wk_check_lock_valid now l t = (Inr True, l')"
  shows "l' = l \<and> (\<exists>s. wt_record t (wk_lock_struct l) = Some s \<and> ws_used s
    \<and> strncmp_eq (ws_name s) (wk_name l) (length (wk_name l)) \<and> now - ws_last_used s < W_LOCK_EXPIRY)"
  using assms
  by (auto simp: wk_check_lock_valid_def Let_def not_le wk_clear_lock_reset_def split: option.splits prod.splits if_splits)

lemma has_write_lock_True_iff: "fst (wk_has_write_lock e l t) = Inr True \<longleftrightarrow> wk_session e l t"
proof
  assume h: "fst (wk_has_write_lock e l t) = Inr True"
  then have av: "wk_available l"
    by (auto simp: wk_has_write_lock_def split: if_splits)
  obtain l' where "wk_check_lock_valid (ce_now e) l t = (Inr True, l')"
    using h av by (cases "wk_check_lock_valid (ce_now e) l t")
      (auto simp: wk_has_write_lock_def split: sum.splits bool.splits)
  note c = check_lock_valid_True [OF this]
  then obtain s where live: "wk_live (ce_now e) l t s"
    using av by (auto simp: wk_live_def)
  have "wk_mine e l s"
    using h has_write_lock_not_mine [OF live] by (cases "wk_mine e l s") simp_all
  then show "wk_session e l t"
    using live unfolding wk_session_def by blast
qed (simp add: session_has)


definition demo_w_held :: w_lock_table where
  "demo_w_held = \<lparr>wt_version = (0, 1), wt_max_count = 1, wt_used_count = 1,
     wt_locks = [\<lparr>ws_used = True, ws_name = ''a'', ws_last_used = 900, ws_write_locked = True,
       ws_state = LOCK_UNKNOWN, ws_ref_count = 0, ws_owner = \<lparr>ow_owner = ''u'', ow_txn_id = ''tx'',
         ow_process_id = 7, ow_thread_id = ''t1'', ow_lock_timestamp = 900, ow_last_updated = 900\<rparr>\<rparr>]\<rparr>"

definition demo_w_lock :: write_lock where
  "demo_w_lock = \<lparr>wk_state = LOCK_FREE, wk_lock_struct = Some 0, wk_txn_id = ''tx'', wk_name = ''a'',
     wk_reference_count = 1\<rparr>"

lemmas demo_w_simps = demo_w_held_def demo_w_lock_def wk_session_def wk_live_def wk_mine_def
  wk_available_def wt_record_def strncmp_eq_def W_LOCK_EXPIRY_def

lemma demo_w_session: "wk_session \<lparr>ce_pid = 7, ce_tid = ''t1'', ce_now = 1000\<rparr> demo_w_lock demo_w_held"
  by (simp add: demo_w_simps)


text \<open>\<open>get_lock\<close> on a live and unlocked record takes it in its first round:
  it returns the transaction id it was given, or the new one, and the caller holds the lock.\<close>

theorem write_lock_acquires:
  assumes "wk_live (ce_now e) l t s" "\<not> ws_write_locked s" "owner \<noteq> []"
    and "rd_got r" "rd_now r = ce_now e" "rd_env r t = t"
  shows "\<exists>l' t'. wk_get_lock e owner timeout txid uuid l t (r # rs) =
      Some (Inr (if txid = [] then uuid else txid), (l', t')) \<and> wk_session e l' t'"
proof -
  have av: "wk_available l" using assms(1) by (simp add: wk_live_def)
  obtain x l' t' where a: "wk_attempt e owner txid uuid l t = (x, (l', t'))"
    by (cases "wk_attempt e owner txid uuid l t") auto
  note f = attempt_free_session [OF assms(1,2) a]
  have "e\<lparr>ce_now := rd_now r\<rparr> = e" using assms(5) by simp
  then show ?thesis
    using av assms(3,4,6) a f by (auto simp: wk_get_lock_def)
qed

theorem write_lock_acquires_witness:
  "\<exists>l' t'. wk_get_lock \<lparr>ce_pid = 8, ce_tid = ''t2'', ce_now = 1000\<rparr> ''u'' 0 [] ''new'' demo_w_lock
      (demo_w_held\<lparr>wt_locks := [hd (wt_locks demo_w_held)\<lparr>ws_write_locked := False\<rparr>]\<rparr>)
      [\<lparr>rd_got = True, rd_now = 1000, rd_env = \<lambda>t. t\<rparr>] = Some (Inr ''new'', (l', t'))"
  using write_lock_acquires [of "\<lparr>ce_pid = 8, ce_tid = ''t2'', ce_now = 1000\<rparr>" demo_w_lock
      "demo_w_held\<lparr>wt_locks := [hd (wt_locks demo_w_held)\<lparr>ws_write_locked := False\<rparr>]\<rparr>"
      "hd (wt_locks demo_w_held)\<lparr>ws_write_locked := False\<rparr>" "''u''" "\<lparr>rd_got = True, rd_now = 1000, rd_env = \<lambda>t. t\<rparr>"
      0 "[]" "''new''" "[]"]
  by (auto simp: demo_w_simps)

text \<open>While the holder asks for its lock often enough, it keeps it, and the
  release at the end succeeds and leaves the record unlocked.\<close>

theorem write_lock_session:
  assumes "wk_session e l t" "wk_txn_id l \<noteq> []" "wl.nears e (es @ [e'])"
  shows "\<exists>l1 t1. wl.ask (e # es) (l, t) = (l1, t1)
    \<and> fst (wk_release_lock True e' l1 t1) = Inr True \<and> wk_unlocked (snd (wk_release_lock True e' l1 t1))"
  using wl.ask_then_release [of e "(l, t)" es e'] assms
  by (cases "wl.ask (e # es) (l, t)") simp

theorem write_lock_session_witness:
  "\<exists>l1 t1. wl.ask [\<lparr>ce_pid = 7, ce_tid = ''t1'', ce_now = 1000\<rparr>] (demo_w_lock, demo_w_held) = (l1, t1)
    \<and> fst (wk_release_lock True \<lparr>ce_pid = 7, ce_tid = ''t1'', ce_now = 2000\<rparr> l1 t1) = Inr True"
proof -
  have t: "wk_txn_id demo_w_lock \<noteq> []" by (simp add: demo_w_lock_def)
  have n: "wl.nears \<lparr>ce_pid = 7, ce_tid = ''t1'', ce_now = 1000\<rparr> ([] @ [\<lparr>ce_pid = 7, ce_tid = ''t1'', ce_now = 2000\<rparr>])"
    by (simp add: env_near_def W_LOCK_EXPIRY_def)
  show ?thesis
    using write_lock_session [OF demo_w_session t n] by auto
qed

text \<open>When another thread holds the record until the timeout, \<open>get_lock\<close>
  returns the transaction id that the lock object already had, and not the empty string it
  documents, so a caller cannot tell the failure from a success; the record is not changed but for
  its time stamp.\<close>

theorem write_lock_get_fails_stale:
  assumes "wk_live (rd_now r) l t s" "ws_write_locked s" "\<not> wk_mine (e\<lparr>ce_now := rd_now r\<rparr>) l s"
    and "owner \<noteq> []" "rd_got r" "rd_env r t = t" "rd_now r - ce_now e > timeout"
  shows "wk_get_lock e owner timeout txid uuid l t (r # rs) =
    Some (Inr (wk_txn_id l), (l, wt_store t (wk_lock_struct l) (s\<lparr>ws_last_used := rd_now r\<rparr>)))"
proof -
  let ?e = "e\<lparr>ce_now := rd_now r\<rparr>"
  have "wk_attempt ?e owner txid uuid l t =
      (Inr Not_taken, (l, wt_store t (wk_lock_struct l) (s\<lparr>ws_last_used := rd_now r\<rparr>)))"
    using attempt_held [of ?e l t s] assms(1-3) by simp
  moreover have "wk_available l" using assms(1) by (simp add: wk_live_def)
  ultimately show ?thesis
    using assms(4-7) by (simp add: wk_get_lock_def)
qed

theorem write_lock_get_fails_stale_witness:
  "\<exists>st. wk_get_lock \<lparr>ce_pid = 7, ce_tid = ''t2'', ce_now = 1000\<rparr> ''u'' 5 [] ''new'' demo_w_lock demo_w_held
      [\<lparr>rd_got = True, rd_now = 1010, rd_env = \<lambda>t. t\<rparr>] = Some (Inr ''tx'', st)"
  using write_lock_get_fails_stale [of "\<lparr>rd_got = True, rd_now = 1010, rd_env = \<lambda>t. t\<rparr>" demo_w_lock
      demo_w_held "hd (wt_locks demo_w_held)" "\<lparr>ce_pid = 7, ce_tid = ''t2'', ce_now = 1000\<rparr>" "''u''" 5 "[]" "''new''" "[]"]
  by (auto simp: demo_w_simps)

text \<open>When the record of a lock object was released or given to another
  name, the check that should notice it sets the object's pointer to null and then reads through
  it.\<close>

theorem write_lock_reset_faults:
  assumes "wk_available l" "wt_record t (wk_lock_struct l) = Some s"
    and "\<not> ws_used s \<or> \<not> strncmp_eq (ws_name s) (wk_name l) (length (wk_name l))"
  shows "fst (wk_has_write_lock e l t) = Inl Mem_fault"
  using assms
  by (auto simp: wk_has_write_lock_def wk_check_lock_valid_def wk_clear_lock_reset_def wt_record_def [of t None])

theorem write_lock_reset_faults_witness:
  "fst (wk_has_write_lock \<lparr>ce_pid = 7, ce_tid = ''t1'', ce_now = 1000\<rparr> demo_w_lock
     (demo_w_held\<lparr>wt_locks := [zero_w_lock]\<rparr>)) = Inl Mem_fault"
  by (rule write_lock_reset_faults [where s = zero_w_lock])
    (simp_all add: demo_w_simps zero_w_lock_def)

end
