(* ===== verification/WriteClient.thy ===== *)
theory WriteClient
  imports WriteLock ExclusiveLock "HOL-Library.AList"
begin

section \<open>The write-lock client and manager of a process\<close>

text \<open>
  common/includes/write_lock_client.h, common/src/write_lock_client.cpp and
  common/src/write_lock_manager.cpp. A client owns the lock objects of its process, one per name
  (\<open>locks\<close>), the shared table and the table's exclusive lock. A pointer to a lock object is its
  name in the registry; a pointer to an object that was removed is dangling, and using it is
  \<open>Mem_fault\<close>. \<open>got\<close> says whether the exclusive lock was obtained in time, in this call.
\<close>

record write_client =
  wc_available :: bool
  wc_locks :: "(string \<times> write_lock) list"
  wc_table :: w_lock_table
  wc_xlock :: xlock

definition wc_find :: "write_client \<Rightarrow> string \<Rightarrow> write_lock option" where
  "wc_find c name = map_of (wc_locks c) name"

definition wc_store :: "write_client \<Rightarrow> string \<Rightarrow> write_lock \<Rightarrow> write_client" where
  "wc_store c name l = c\<lparr>wc_locks := AList.update name l (wc_locks c)\<rparr>"

text \<open>\<open>wc_call name f\<close>: a method of the lock object behind a pointer.\<close>

definition wc_call :: "string \<Rightarrow> (write_lock \<Rightarrow> w_lock_table \<Rightarrow> ('a, write_lock \<times> w_lock_table) res)
    \<Rightarrow> ('a, write_client) cmd" where
  "wc_call name f c =
     (case wc_find c name of
        None \<Rightarrow> (Inl Mem_fault, c)
      | Some l \<Rightarrow> (case f l (wc_table c) of
            (r, (l', t')) \<Rightarrow> (r, (wc_store c name l')\<lparr>wc_table := t'\<rparr>)))"

definition wc_create :: "bool \<Rightarrow> bool \<Rightarrow> write_client \<Rightarrow> (unit, write_client) res" where
  "wc_create is_manager reset c =
     (case w_table_create is_manager reset (wc_table c) of
        (Inl _, t) \<Rightarrow> (Inl Lock_error, c\<lparr>wc_available := False, wc_table := t\<rparr>)
      | (Inr _, t) \<Rightarrow> (Inr (), c\<lparr>wc_available := True, wc_table := t,
            wc_xlock := (if reset then xl_reset (wc_xlock c) else wc_xlock c)\<rparr>))"

definition wc_add_lock :: "bool \<Rightarrow> time \<Rightarrow> string \<Rightarrow> (string, write_client) cmd" where
  "wc_add_lock got now name c =
     (if \<not> wc_available c then (Inl State_unavailable, c)
      else
        (case wc_find c name of
           Some l \<Rightarrow> (Inr name, wc_store c name (snd (wk_increment_ref_count l)))
         | None \<Rightarrow>
             (case wk_create got now name write_lock_new (wc_table c) of
                (Inl e, (_, t)) \<Rightarrow> (Inl e, c\<lparr>wc_table := t\<rparr>)
              | (Inr _, (l, t)) \<Rightarrow>
                  (Inr name, (wc_store c name (snd (wk_increment_ref_count l)))\<lparr>wc_table := t\<rparr>))))"

definition wc_remove_lock :: "bool \<Rightarrow> call_env \<Rightarrow> string \<Rightarrow> (bool, write_client) cmd" where
  "wc_remove_lock got e name =
     c_bind (c_check State_unavailable wc_available) (\<lambda>_ c.
     if wc_find c name = None then c_ret False c
     else
       c_bind (wc_call name (wk_has_write_lock e)) (\<lambda>held.
       c_bind (c_when held (c_bind (wc_call name (wk_release_lock got e)) (\<lambda>_. c_ret ()))) (\<lambda>_.
       c_bind (wc_call name (\<lambda>l t. let (n, l') = wk_decrement_ref_count l in (Inr n, (l', t)))) (\<lambda>rc.
       if rc = 0
       then (\<lambda>c1. case w_table_remove_lock got (wc_table c1) name of
               (Inl x, t) \<Rightarrow> (Inl x, c1\<lparr>wc_table := t\<rparr>)
             | (Inr r, t) \<Rightarrow>
                 c_bind (wc_call name (wk_destroy got e)) (\<lambda>_ c2.
                   (Inr r, c2\<lparr>wc_locks := AList.delete name (wc_locks c2)\<rparr>)) (c1\<lparr>wc_table := t\<rparr>))
       else c_ret False))) c)"

text \<open>
  The destructor of the client removes the table record of every lock it has registered, without
  asking the object's reference count.
\<close>

fun wc_drop_locks :: "bool \<Rightarrow> call_env \<Rightarrow> string list \<Rightarrow> (unit, write_client) cmd" where
  "wc_drop_locks got e [] = c_ret ()"
| "wc_drop_locks got e (name # ns) =
     (\<lambda>c. case w_table_remove_lock got (wc_table c) name of
            (Inl x, t) \<Rightarrow> (Inl x, c\<lparr>wc_table := t\<rparr>)
          | (Inr _, t) \<Rightarrow>
              c_bind (wc_call name (wk_destroy got e)) (\<lambda>_. wc_drop_locks got e ns) (c\<lparr>wc_table := t\<rparr>))"

definition wc_destroy :: "bool \<Rightarrow> call_env \<Rightarrow> (unit, write_client) cmd" where
  "wc_destroy got e c = wc_drop_locks got e (map fst (wc_locks c)) (c\<lparr>wc_available := False\<rparr>)"

text \<open>\<open>lock->reset ()\<close> through a lock object: the exclusive lock of the table is reset.\<close>

definition wc_lock_reset :: "string \<Rightarrow> (unit, write_client) cmd" where
  "wc_lock_reset name c =
     (case wc_find c name of
        None \<Rightarrow> (Inl Mem_fault, c)
      | Some l \<Rightarrow> if wk_available l then (Inr (), c\<lparr>wc_xlock := xl_reset (wc_xlock c)\<rparr>)
                  else (Inl Precondition, c))"

subsection \<open>The manager\<close>

definition DEFAULT_WRITE_LOCK_TIMEOUT :: time where
  "DEFAULT_WRITE_LOCK_TIMEOUT = 5 * 60 * 1000"

text \<open>What the manager clears in the owner of a record (the thread id stays).\<close>

definition wm_clear_owner :: "w_lock_struct \<Rightarrow> w_lock_struct" where
  "wm_clear_owner s = s\<lparr>ws_write_locked := False,
     ws_owner := (ws_owner s)\<lparr>ow_lock_timestamp := 0, ow_process_id := - 1, ow_txn_id := [],
       ow_owner := []\<rparr>\<rparr>"

definition wm_expire :: "time \<Rightarrow> w_lock_struct \<Rightarrow> w_lock_struct" where
  "wm_expire now s =
     (if ws_write_locked s \<and> now - ow_last_updated (ws_owner s) > DEFAULT_WRITE_LOCK_TIMEOUT
      then (wm_clear_owner s)\<lparr>ws_state := LOCK_EXPIRED\<rparr> else s)"

definition wm_check_one :: "bool \<Rightarrow> time \<Rightarrow> nat \<Rightarrow> (unit, w_lock_table) cmd" where
  "wm_check_one got now ii t =
     (case w_table_get_at t ii of
        Inl e \<Rightarrow> (Inl e, t)
      | Inr None \<Rightarrow> (Inr (), t)
      | Inr (Some i) \<Rightarrow>
          (let s = wm_expire now (wt_locks t ! i); t1 = t\<lparr>wt_locks := (wt_locks t)[i := s]\<rparr> in
           if ws_ref_count s \<le> 0 \<and> now - ws_last_used s + 1 \<ge> W_LOCK_EXPIRY
           then c_bind (\<lambda>t. w_table_remove_lock got t (ws_name s)) (\<lambda>_. c_ret ()) t1
           else (Inr (), t1)))"

fun wm_check_from :: "bool \<Rightarrow> time \<Rightarrow> nat list \<Rightarrow> (unit, w_lock_table) cmd" where
  "wm_check_from got now [] = c_ret ()"
| "wm_check_from got now (i # is) = c_bind (wm_check_one got now i) (\<lambda>_. wm_check_from got now is)"

definition wm_check_lock_states :: "bool \<Rightarrow> time \<Rightarrow> (unit, write_client) cmd" where
  "wm_check_lock_states got now c =
     (if wc_available c
      then (case wm_check_from got now [0..<wt_max_count (wc_table c)] (wc_table c) of
              (r, t) \<Rightarrow> (r, c\<lparr>wc_table := t\<rparr>))
      else (Inr (), c))"

definition wm_reset_one :: "(pid \<Rightarrow> bool) \<Rightarrow> time \<Rightarrow> w_lock_struct \<Rightarrow> w_lock_struct" where
  "wm_reset_one alive now s =
     (if ws_used s \<and> ws_write_locked s
      then (if \<not> alive (ow_process_id (ws_owner s)) then wm_clear_owner s
            else if now - ow_lock_timestamp (ws_owner s) > DEFAULT_WRITE_LOCK_TIMEOUT then wm_clear_owner s
            else s)
      else s)"

definition wm_reset :: "(pid \<Rightarrow> bool) \<Rightarrow> time \<Rightarrow> (unit, write_client) cmd" where
  "wm_reset alive now c =
     (if \<not> wc_available c then (Inl State_unavailable, c)
      else (let t = wc_table c; n = wt_max_count t in
            if n \<le> length (wt_locks t)
            then (Inr (), c\<lparr>wc_table := t\<lparr>wt_locks :=
                    map (wm_reset_one alive now) (take n (wt_locks t)) @ drop n (wt_locks t)\<rparr>\<rparr>)
            else (Inl Mem_fault, c)))"

definition wm_init :: "bool \<Rightarrow> (pid \<Rightarrow> bool) \<Rightarrow> time \<Rightarrow> (unit, write_client) cmd" where
  "wm_init reset alive now =
     c_bind (wc_create True reset) (\<lambda>_. c_when reset (wm_reset alive now))"

subsection \<open>The registry\<close>

lemma wc_find_store [simp]:
  "wc_find (wc_store c n l) n' = (if n' = n then Some l else wc_find c n')"
  by (simp add: wc_find_def wc_store_def update_conv)

lemma wc_find_frame [simp]:
  "wc_find (c\<lparr>wc_table := t\<rparr>) n = wc_find c n"
  "wc_find (c\<lparr>wc_xlock := x\<rparr>) n = wc_find c n"
  by (simp_all add: wc_find_def)

lemma wc_store_frame [simp]:
  "wc_table (wc_store c n l) = wc_table c" "wc_available (wc_store c n l) = wc_available c"
  "wc_xlock (wc_store c n l) = wc_xlock c"
  by (simp_all add: wc_store_def)

text \<open>A client that is asked again for a lock it has gives the same object, counted once more.\<close>

lemma wc_add_again:
  assumes "wc_available c" "wc_find c name = Some l"
  shows "wc_add_lock got now name c = (Inr name, wc_store c name (snd (wk_increment_ref_count l)))"
  using assms by (simp add: wc_add_lock_def)

text \<open>\<open>wc_session\<close>: the calling thread holds the lock behind the pointer.\<close>

definition wc_session :: "call_env \<Rightarrow> string \<Rightarrow> write_client \<Rightarrow> bool" where
  "wc_session e name c \<longleftrightarrow> (\<exists>l. wc_find c name = Some l \<and> wk_session e l (wc_table c))"

definition wc_touch :: "call_env \<Rightarrow> string \<Rightarrow> write_client \<Rightarrow> write_client" where
  "wc_touch e name c = (case wc_find c name of None \<Rightarrow> c
     | Some l \<Rightarrow> (wc_store c name l)\<lparr>wc_table := wk_touch e l (wc_table c)\<rparr>)"

lemma wc_has_session:
  assumes "wc_session e name c"
  shows "wc_call name (wk_has_write_lock e) c = (Inr True, wc_touch e name c)"
  using assms by (auto simp: wc_session_def wc_call_def wc_touch_def session_has)

lemma wc_session_touch:
  assumes "wc_session e name c" "env_near e e'"
  shows "wc_session e' name (wc_touch e name c)"
  using assms session_touch by (auto simp: wc_session_def wc_touch_def env_near_def)


lemma wc_touch_eq:
  "wc_find c name = Some l \<Longrightarrow> wc_touch e name c = c\<lparr>wc_table := wk_touch e l (wc_table c)\<rparr>"
  by (simp add: wc_touch_def wc_store_def wc_find_def AList.update_triv)

lemma wc_touch_touch:
  assumes "wc_session e name c"
  shows "wc_touch e name (wc_touch e name c) = wc_touch e name c"
  using assms by (auto simp: wc_session_def wc_touch_eq touch_touch)

lemma wc_touch_find [simp]: "wc_find (wc_touch e name c) n = wc_find c n"
  by (cases "wc_find c name") (auto simp: wc_touch_def)

text \<open>Releasing through the pointer.\<close>

lemma wc_release_session:
  assumes "wc_session e name c" "wc_find c name = Some l" "wk_txn_id l \<noteq> []"
  shows "\<exists>c' l'. wc_call name (wk_release_lock True e) c = (Inr True, c')
    \<and> wc_find c' name = Some l' \<and> wk_unlocked (l', wc_table c') \<and> wk_txn_id l' = []
    \<and> (\<forall>n. n \<noteq> name \<longrightarrow> wc_find c' n = wc_find c n)"
proof -
  have ses: "wk_session e l (wc_table c)"
    using assms(1,2) by (simp add: wc_session_def)
  then obtain s0 where rec: "wt_record (wc_table c) (wk_lock_struct l) = Some s0"
    by (auto simp: wk_session_def wk_live_def)
  obtain s' where rel: "wk_release_lock True e l (wc_table c) =
      (Inr True, (l\<lparr>wk_txn_id := []\<rparr>, wt_store (wc_table c) (wk_lock_struct l) s'))" "\<not> ws_write_locked s'"
    using release_session [OF ses assms(3)] by blast
  show ?thesis
    using rel wt_record_store [OF rec, of s']
    by (auto simp: wc_call_def assms(2) wk_unlocked_def)
qed

subsection \<open>What the manager leaves alone\<close>

definition wm_recent :: "time \<Rightarrow> w_lock_struct \<Rightarrow> bool" where
  "wm_recent now s \<longleftrightarrow> (ws_write_locked s \<longrightarrow> now - ow_last_updated (ws_owner s) \<le> DEFAULT_WRITE_LOCK_TIMEOUT)
     \<and> now - ws_last_used s + 1 < W_LOCK_EXPIRY"

lemma wm_expire_recent: "wm_recent now s \<Longrightarrow> wm_expire now s = s"
  by (auto simp: wm_expire_def wm_recent_def not_less)

lemma wm_expire_frame [simp]:
  "ws_used (wm_expire now s) = ws_used s" "ws_name (wm_expire now s) = ws_name s"
  "ws_ref_count (wm_expire now s) = ws_ref_count s" "ws_last_used (wm_expire now s) = ws_last_used s"
  by (simp_all add: wm_expire_def wm_clear_owner_def)

lemma w_table_update_same_name:
  assumes "w_table_wf t" "w_table_unique t" "i < length (wt_locks t)"
    and "ws_used s = ws_used (wt_locks t ! i)" "ws_name s = ws_name (wt_locks t ! i)"
  shows "w_table_wf (t\<lparr>wt_locks := (wt_locks t)[i := s]\<rparr>)"
    and "w_table_unique (t\<lparr>wt_locks := (wt_locks t)[i := s]\<rparr>)"
  using assms filter_update_length [OF assms(3), of ws_used s]
  by (auto simp: w_table_wf_def w_table_unique_def nth_list_update split: if_splits)

lemma wm_check_one_keeps:
  assumes wf: "w_table_wf t" "w_table_unique t"
    and i: "i < length (wt_locks t)" "ws_used (wt_locks t ! i)" "wm_recent now (wt_locks t ! i)"
    and run: "wm_check_one got now ii t = (r, t')"
  shows "w_table_wf t' \<and> w_table_unique t' \<and> length (wt_locks t') = length (wt_locks t)
    \<and> wt_locks t' ! i = wt_locks t ! i"
proof (cases "w_table_get_at t ii = Inr (Some ii)")
  case False
  then have "t' = t"
    using run by (auto simp: wm_check_one_def w_table_get_at_def split: if_splits)
  then show ?thesis using wf by simp
next
  case True
  then have ii: "ii < length (wt_locks t)" "ws_used (wt_locks t ! ii)"
    by (auto simp: w_table_get_at_def split: if_splits)
  let ?s = "wm_expire now (wt_locks t ! ii)"
  let ?t = "t\<lparr>wt_locks := (wt_locks t)[ii := ?s]\<rparr>"
  note t1 = w_table_update_same_name [OF wf ii(1), of ?s, simplified]
  have at_i: "wt_locks ?t ! i = wt_locks t ! i"
    using ii i by (simp add: nth_list_update wm_expire_recent)
  show ?thesis
  proof (cases "ws_ref_count ?s \<le> 0 \<and> now - ws_last_used ?s + 1 \<ge> W_LOCK_EXPIRY")
    case False
    then have "t' = ?t" using run True by (auto simp: wm_check_one_def Let_def)
    then show ?thesis using t1 at_i by simp
  next
    case old: True
    then obtain r1 where rm: "w_table_remove_lock got ?t (ws_name ?s) = (r1, t')"
      using run True by (auto simp: wm_check_one_def Let_def c_bind_def c_ret_def split: prod.splits sum.splits)
    have "i \<noteq> ii"
      using old i(3) by (auto simp: wm_recent_def)
    then have ne: "ws_name (wt_locks t ! i) \<noteq> ws_name (wt_locks t ! ii)"
      using wf(2) i ii by (auto simp: w_table_unique_def)
    have other: "j \<noteq> i" if "j < length (wt_locks ?t)" "ws_name (wt_locks ?t ! j) = ws_name ?s" for j
      using that ne at_i by auto
    have "wt_locks t' ! i = wt_locks t ! i \<and> length (wt_locks t') = length (wt_locks t)"
      using t1(1) rm
    proof (cases rule: w_remove_cases)
      case same
      then show ?thesis using at_i by simp
    next
      case (dec j)
      then show ?thesis using at_i other [of j] by simp
    next
      case (gone j)
      then show ?thesis using at_i other [of j] by simp
    qed
    then show ?thesis
      using w_remove_wf [OF t1(1) rm] w_remove_unique [OF t1 rm] by simp
  qed
qed

lemma wm_check_from_keeps:
  assumes "w_table_wf t" "w_table_unique t"
    and "i < length (wt_locks t)" "ws_used (wt_locks t ! i)" "wm_recent now (wt_locks t ! i)"
    and "wm_check_from got now is t = (r, t')"
  shows "wt_locks t' ! i = wt_locks t ! i"
  using assms
proof (induction "is" arbitrary: t)
  case Nil
  then show ?case by (simp add: cmd_simps)
next
  case (Cons a as)
  from Cons.prems(6) have "c_bind (wm_check_one got now a) (\<lambda>_. wm_check_from got now as) t = (r, t')"
    by simp
  then show ?case
  proof (cases rule: c_bind_cases)
    case (fail e)
    then show ?thesis using wm_check_one_keeps [OF Cons.prems(1-5) fail(1)] by simp
  next
    case (ok x s1)
    note k = wm_check_one_keeps [OF Cons.prems(1-5) ok(1)]
    then have "wt_locks t' ! i = wt_locks s1 ! i"
      using Cons.IH [of s1] Cons.prems ok(2) by auto
    then show ?thesis using k by simp
  qed
qed

subsection \<open>Properties\<close>

text \<open>A pass of the lock manager over a well-formed table without
  duplicate names leaves every record as it is whose owner was active within the lock timeout
  and which was used within the expiry.\<close>

theorem manager_keeps_active:
  assumes "w_table_wf (wc_table c)" "w_table_unique (wc_table c)"
    and "i < length (wt_locks (wc_table c))" "ws_used (wt_locks (wc_table c) ! i)"
    and "wm_recent now (wt_locks (wc_table c) ! i)"
  shows "wt_locks (wc_table (snd (wm_check_lock_states got now c))) ! i = wt_locks (wc_table c) ! i"
proof (cases "wc_available c")
  case True
  obtain r t' where run: "wm_check_from got now [0..<wt_max_count (wc_table c)] (wc_table c) = (r, t')"
    by (cases "wm_check_from got now [0..<wt_max_count (wc_table c)] (wc_table c)")
  then show ?thesis
    using True wm_check_from_keeps [OF assms run] by (simp add: wm_check_lock_states_def)
next
  case False
  then show ?thesis by (simp add: wm_check_lock_states_def)
qed

definition demo_manager :: write_client where
  "demo_manager = \<lparr>wc_available = True, wc_locks = [], wc_table = demo_w_held,
     wc_xlock = \<lparr>xl_sem = 1, xl_locked = False, xl_owner = []\<rparr>\<rparr>"

theorem manager_keeps_active_witness:
  "wt_locks (wc_table (snd (wm_check_lock_states True 1000 demo_manager))) ! 0 = wt_locks demo_w_held ! 0"
  using manager_keeps_active [of demo_manager 0 1000 True]
  by (simp add: demo_manager_def demo_w_held_def w_table_wf_def w_table_unique_def wm_recent_def
      DEFAULT_WRITE_LOCK_TIMEOUT_def W_LOCK_EXPIRY_def)

text \<open>The destructor of a lock object whose process still holds the
  record throws instead of releasing it, because it has set its own state to unknown first.\<close>

theorem lock_destructor_throws:
  assumes "wt_record t (wk_lock_struct l) = Some s" "ws_used s" "ws_write_locked s"
    and "ow_process_id (ws_owner s) = ce_pid e"
  shows "fst (wk_destroy got e l t) = Inl Precondition"
  using assms by (simp add: wk_destroy_def wk_check_and_clear_def wk_release_lock_def wk_available_def)

theorem lock_destructor_throws_witness:
  "fst (wk_destroy True \<lparr>ce_pid = 7, ce_tid = ''t1'', ce_now = 1000\<rparr> demo_w_lock demo_w_held) = Inl Precondition"
  by (rule lock_destructor_throws [where s = "hd (wt_locks demo_w_held)"]) (simp_all add: demo_w_simps)

end
