(* ===== verification/Records.thy ===== *)
theory Records
  imports Bytes
begin

section \<open>The block structures (core/includes/block_common_structs_v0.h)\<close>

text \<open>
  The enumerations, the headers and the fixed-size entries that a data block and its index keep
  in their mapped files. \<open>__record_header\<close> and \<open>__record_index_ptr\<close> are written into the
  mapping, so they come with the byte layout of the C struct (natural alignment on x86-64):
  48 bytes with four bytes of padding after the 4-byte state, and 32 bytes with seven bytes of
  padding after the 1-byte state. The locale \<open>fixed_codec\<close> states what makes such a layout usable
  and is interpreted on both.
\<close>

datatype block_usage = PRIMARY | REPLICA | DELETED
datatype block_def = BASIC | INDEXED | TYPED | MAP
datatype compression_type = NO_COMPRESSION | GZIP | LZO | ZLIB | SNAPPY
datatype encryption_type = NO_ENCRYPTION
datatype block_state = AVAILABLE | LOCKED | OUT_OF_SYNC | COMMIT_PENDING | CORRUPTED
datatype write_state = WRITABLE | CLOSED | UPDATEABLE

text \<open>The states of a record, as the numbers stored in its header.\<close>

definition R_FREE :: nat where "R_FREE = 0"
definition R_READABLE :: nat where "R_READABLE = 1"
definition R_DELETED :: nat where "R_DELETED = 2"
definition R_DIRTY :: nat where "R_DIRTY = 3"
definition R_ALL :: nat where "R_ALL = 4"

definition BLOCK_RECORD_STATE_FREE :: nat where "BLOCK_RECORD_STATE_FREE = 0"
definition BLOCK_RECORD_STATE_USED :: nat where "BLOCK_RECORD_STATE_USED = 1"
definition BLOCK_RECORD_STATE_READABLE :: nat where "BLOCK_RECORD_STATE_READABLE = 2"
definition BLOCK_RECORD_STATE_DELETED :: nat where "BLOCK_RECORD_STATE_DELETED = 4"
definition BLOCK_RECORD_STATE_UPDATED :: nat where "BLOCK_RECORD_STATE_UPDATED = 8"

lemmas record_states = R_FREE_def R_READABLE_def R_DELETED_def R_DIRTY_def R_ALL_def
lemmas index_states = BLOCK_RECORD_STATE_FREE_def BLOCK_RECORD_STATE_USED_def
  BLOCK_RECORD_STATE_READABLE_def BLOCK_RECORD_STATE_DELETED_def BLOCK_RECORD_STATE_UPDATED_def

record rec_header =
  rh_index :: nat
  rh_offset :: nat
  rh_state :: nat
  rh_data_size :: nat
  rh_uncompressed_size :: nat
  rh_timestamp :: nat

record index_ptr =
  ip_index :: nat
  ip_state :: nat
  ip_offset :: nat
  ip_size :: nat

record index_header =
  ih_version :: "nat \<times> nat"
  ih_block_uid :: string
  ih_block_id :: nat
  ih_create_time :: time
  ih_update_time :: time
  ih_start_index :: nat
  ih_last_index :: nat
  ih_write_state :: write_state
  ih_total_size :: nat
  ih_used_size :: nat
  ih_write_offset :: nat

record rollback_info =
  ri_in_transaction :: bool
  ri_transaction_id :: string
  ri_start_offset :: nat
  ri_write_offset :: nat
  ri_used_bytes :: nat
  ri_last_index :: nat
  ri_start_time :: time

record block_header =
  bh_version :: "nat \<times> nat"
  bh_block_uid :: string
  bh_parent_id :: nat
  bh_usage :: block_usage
  bh_type :: block_def
  bh_write_state :: write_state
  bh_block_id :: nat
  bh_create_time :: time
  bh_update_time :: time
  bh_start_index :: nat
  bh_last_index :: nat
  bh_block_ttl :: nat
  bh_block_size :: nat
  bh_write_offset :: nat
  bh_used_bytes :: nat
  bh_commit_sequence :: nat
  bh_total_records :: nat
  bh_deleted_records :: nat
  bh_compressed :: bool
  bh_compression_type :: compression_type
  bh_encrypted :: bool

definition REC_HEADER_SIZE :: nat where "REC_HEADER_SIZE = 48"
definition INDEX_PTR_SIZE :: nat where "INDEX_PTR_SIZE = 32"
definition INDEX_HEADER_SIZE :: nat where "INDEX_HEADER_SIZE = 120"

definition enc_rec_header :: "rec_header \<Rightarrow> u8 list" where
  "enc_rec_header h = nat_bytes 8 (rh_index h) @ nat_bytes 8 (rh_offset h)
     @ nat_bytes 4 (rh_state h) @ replicate 4 0 @ nat_bytes 8 (rh_data_size h)
     @ nat_bytes 8 (rh_uncompressed_size h) @ nat_bytes 8 (rh_timestamp h)"

definition field :: "nat \<Rightarrow> nat \<Rightarrow> u8 list \<Rightarrow> nat" where
  "field off n bs = bytes_nat (take n (drop off bs))"

definition dec_rec_header :: "u8 list \<Rightarrow> rec_header" where
  "dec_rec_header bs = \<lparr>rh_index = field 0 8 bs, rh_offset = field 8 8 bs, rh_state = field 16 4 bs,
     rh_data_size = field 24 8 bs, rh_uncompressed_size = field 32 8 bs, rh_timestamp = field 40 8 bs\<rparr>"

definition rec_header_ok :: "rec_header \<Rightarrow> bool" where
  "rec_header_ok h \<longleftrightarrow> rh_index h < 2 ^ 64 \<and> rh_offset h < 2 ^ 64 \<and> rh_state h < 2 ^ 32
     \<and> rh_data_size h < 2 ^ 64 \<and> rh_uncompressed_size h < 2 ^ 64 \<and> rh_timestamp h < 2 ^ 64"

definition enc_index_ptr :: "index_ptr \<Rightarrow> u8 list" where
  "enc_index_ptr p = nat_bytes 8 (ip_index p) @ nat_bytes 1 (ip_state p) @ replicate 7 0
     @ nat_bytes 8 (ip_offset p) @ nat_bytes 8 (ip_size p)"

definition dec_index_ptr :: "u8 list \<Rightarrow> index_ptr" where
  "dec_index_ptr bs = \<lparr>ip_index = field 0 8 bs, ip_state = field 8 1 bs,
     ip_offset = field 16 8 bs, ip_size = field 24 8 bs\<rparr>"

definition index_ptr_ok :: "index_ptr \<Rightarrow> bool" where
  "index_ptr_ok p \<longleftrightarrow> ip_index p < 2 ^ 64 \<and> ip_state p < 2 ^ 8 \<and> ip_offset p < 2 ^ 64 \<and> ip_size p < 2 ^ 64"

subsection \<open>What a fixed layout promises\<close>

text \<open>
  A codec of fixed width: every value takes \<open>width\<close> bytes and valid values are read back as
  they were written. The lemmas of the locale are the reads and writes of one entry in a
  mapping, and of entry \<open>i\<close> in an array of entries, which the block and index proofs use.
\<close>

locale fixed_codec =
  fixes enc :: "'a \<Rightarrow> u8 list" and dec :: "u8 list \<Rightarrow> 'a" and width :: nat and valid :: "'a \<Rightarrow> bool"
  assumes enc_length [simp]: "length (enc x) = width"
    and dec_enc: "valid x \<Longrightarrow> dec (enc x) = x"
begin

lemma read_back:
  assumes "poke m off (enc x) = Some m'" "valid x"
  shows "map_option dec (peek m' off width) = Some x"
  using peek_poke_same [OF assms(1)] assms(2) by (simp add: dec_enc)

lemma read_at:
  assumes "valid x" "length pre = off"
  shows "map_option dec (peek (pre @ enc x @ post) off width) = Some x"
  using assms by (auto simp: peek_def dec_enc)

lemma write_at:
  assumes "length pre = off"
  shows "poke (pre @ enc x @ post) off (enc y) = Some (pre @ enc y @ post)"
  using assms by (auto simp: poke_Some_iff)

lemma concat_length: "length (concat (map enc xs)) = length xs * width"
  by (induction xs) auto

lemma concat_split:
  assumes "i < length xs"
  shows "concat (map enc xs) = concat (map enc (take i xs)) @ enc (xs ! i) @ concat (map enc (drop (Suc i) xs))"
proof -
  have "concat (map enc xs) = concat (map enc (take i xs @ xs ! i # drop (Suc i) xs))"
    using id_take_nth_drop [OF assms] by simp
  then show ?thesis by simp
qed

lemma entry_read:
  assumes "i < length xs" "valid (xs ! i)"
  shows "map_option dec (peek (concat (map enc xs) @ rest) (i * width) width) = Some (xs ! i)"
proof -
  have "length (concat (map enc (take i xs))) = i * width"
    using assms(1) by (simp add: concat_length)
  then show ?thesis
    using read_at [OF assms(2)] concat_split [OF assms(1)] by simp
qed

lemma entry_write:
  assumes "i < length xs"
  shows "poke (concat (map enc xs) @ rest) (i * width) (enc y) = Some (concat (map enc (xs[i := y])) @ rest)"
proof -
  have len: "length (concat (map enc (take i xs))) = i * width"
    using assms by (simp add: concat_length)
  have "concat (map enc (xs[i := y])) = concat (map enc (take i xs)) @ enc y @ concat (map enc (drop (Suc i) xs))"
    using assms by (simp add: upd_conv_take_nth_drop)
  then show ?thesis
    using write_at [OF len] concat_split [OF assms] by simp
qed

lemma entry_append:
  assumes "take (length xs * width) m = concat (map enc xs)" "poke m (length xs * width) (enc y) = Some m'"
  shows "take (length (xs @ [y]) * width) m' = concat (map enc (xs @ [y]))"
  using poke_take_snoc [OF assms(2)] assms(1) by (simp add: add.commute)

end

lemma field_first: "length a = n \<Longrightarrow> field 0 n (a @ b) = bytes_nat a"
  by (simp add: field_def)

lemma field_next: "length a \<le> off \<Longrightarrow> field off n (a @ b) = field (off - length a) n b"
  by (simp add: field_def)

lemma field_last: "length a = n \<Longrightarrow> field 0 n a = bytes_nat a"
  by (simp add: field_def)

lemmas field_simps' = field_first field_next field_last

lemma nat_bytes_8: "n < 2 ^ 64 \<Longrightarrow> bytes_nat (nat_bytes 8 n) = n"
  by (rule bytes_nat_roundtrip) simp

lemma nat_bytes_4: "n < 2 ^ 32 \<Longrightarrow> bytes_nat (nat_bytes 4 n) = n"
  by (rule bytes_nat_roundtrip) simp

lemma nat_bytes_1: "n < 2 ^ 8 \<Longrightarrow> bytes_nat (nat_bytes 1 n) = n"
  by (rule bytes_nat_roundtrip) simp

interpretation rec_codec: fixed_codec enc_rec_header dec_rec_header REC_HEADER_SIZE rec_header_ok
proof unfold_locales
  fix h :: rec_header
  show "length (enc_rec_header h) = REC_HEADER_SIZE"
    by (simp add: enc_rec_header_def REC_HEADER_SIZE_def del: nat_bytes.simps)
  assume "rec_header_ok h"
  then show "dec_rec_header (enc_rec_header h) = h"
    by (simp add: enc_rec_header_def dec_rec_header_def rec_header_ok_def field_simps'
        nat_bytes_8 nat_bytes_4 del: nat_bytes.simps)
qed

interpretation ptr_codec: fixed_codec enc_index_ptr dec_index_ptr INDEX_PTR_SIZE index_ptr_ok
proof unfold_locales
  fix p :: index_ptr
  show "length (enc_index_ptr p) = INDEX_PTR_SIZE"
    by (simp add: enc_index_ptr_def INDEX_PTR_SIZE_def del: nat_bytes.simps)
  assume "index_ptr_ok p"
  then show "dec_index_ptr (enc_index_ptr p) = p"
    by (simp add: enc_index_ptr_def dec_index_ptr_def index_ptr_ok_def field_simps'
        nat_bytes_8 nat_bytes_1 del: nat_bytes.simps One_nat_def)
qed

end
