(* ===== verification/BaseBlock.thy ===== *)
theory BaseBlock
  imports Records WriteClient
begin

section \<open>The data block (core/includes/base_block.h, core/src/base_block.cpp)\<close>

text \<open>
  A \<open>base_block\<close> object: the mapped file (its header and the data area after it), the rollback
  information of the running transaction, the records marked for deletion, and the pointer to
  the block's write lock in the client of the process. A \<open>__record\<close> is the offset of its header
  in the data area. Every method takes what it reads from its surroundings (\<open>blk_env\<close>): the
  calling process and thread, the clock, whether a lock was obtained in time, the elapsed time of
  its timer, and the compression handler, which is third-party code. One call reads the clock
  once. Metrics timers and log messages are not modelled.
\<close>

record blk_env =
  be_call :: call_env
  be_got :: bool
  be_elapsed :: nat
  be_user :: "string option"
  be_write_archive :: "u8 list \<Rightarrow> exc + u8 list"
  be_read_archive :: "u8 list \<Rightarrow> int \<times> u8 list"

record usage_stat =
  us_bytes_used :: nat
  us_elapsed_time :: nat
  us_last_synced :: time

record base_block =
  bb_available :: bool
  bb_filename :: string
  bb_lock :: "string option"            \<comment> \<open>\<open>block_lock\<close>, a pointer\<close>
  bb_header :: block_header
  bb_data :: mem                        \<comment> \<open>the mapping from \<open>get_data_ptr ()\<close> on\<close>
  bb_write_ptr :: bool                  \<comment> \<open>\<open>write_ptr\<close> is not null\<close>
  bb_updateable :: bool
  bb_rollback :: "rollback_info option"
  bb_deletes :: "nat list"              \<comment> \<open>\<open>rollback_info_deletes\<close>\<close>
  bb_compression :: bool                \<comment> \<open>\<open>compression\<close> is not null\<close>
  bb_client :: write_client
  bb_write_usage :: usage_stat
  bb_read_usage :: usage_stat
  bb_reports :: "(nat \<times> nat) list"     \<comment> \<open>calls of \<open>mount_client::update_write_metrics\<close>\<close>

abbreviation be_now :: "blk_env \<Rightarrow> time" where "be_now v \<equiv> ce_now (be_call v)"

definition BLOCK_VERSION :: "nat \<times> nat" where "BLOCK_VERSION = (0, 1)"
definition BLOCK_USAGE_FLUSH_INTERVAL :: time where "BLOCK_USAGE_FLUSH_INTERVAL = 15 * 1000"

definition ERRCODE_INDEX_COPRRUPTED :: nat where "ERRCODE_INDEX_COPRRUPTED = 0"
definition ERRCODE_INDEX_NOT_FOUND :: nat where "ERRCODE_INDEX_NOT_FOUND = 1"
definition ERRCODE_INDEX_FILE_NOUT_FOUND :: nat where "ERRCODE_INDEX_FILE_NOUT_FOUND = 2"
definition ERRCODE_BLOCK_COPRRUPTED :: nat where "ERRCODE_BLOCK_COPRRUPTED = 3"
definition ERRCODE_BLOCK_FILE_NOT_FOUND :: nat where "ERRCODE_BLOCK_FILE_NOT_FOUND = 4"
definition ERRCODE_RECORD_NOT_FOUND :: nat where "ERRCODE_RECORD_NOT_FOUND = 5"
definition ERRCODE_INDEX_DATA_VERSION :: nat where "ERRCODE_INDEX_DATA_VERSION = 6"
definition ERRCODE_BLOCK_DATA_VERSION :: nat where "ERRCODE_BLOCK_DATA_VERSION = 7"
definition ERRCODE_BLOCK_OUT_OF_SPACE :: nat where "ERRCODE_BLOCK_OUT_OF_SPACE = 9"
definition ERRCODE_BLOCK_COMPRESSION :: nat where "ERRCODE_BLOCK_COMPRESSION = 8"
definition ERRCODE_BLOCK_SANITY_FAILED :: nat where "ERRCODE_BLOCK_SANITY_FAILED = 12"

subsection \<open>Usage statistics\<close>

definition blk_flush_write_usage :: "blk_env \<Rightarrow> base_block \<Rightarrow> base_block" where
  "blk_flush_write_usage v b =
     b\<lparr>bb_reports := bb_reports b @ [(us_bytes_used (bb_write_usage b), us_elapsed_time (bb_write_usage b))],
       bb_write_usage := \<lparr>us_bytes_used = 0, us_elapsed_time = 0, us_last_synced = be_now v\<rparr>\<rparr>"

definition blk_flush_read_usage :: "blk_env \<Rightarrow> base_block \<Rightarrow> base_block" where
  "blk_flush_read_usage v b =
     b\<lparr>bb_reports := bb_reports b @ [(us_bytes_used (bb_read_usage b), us_elapsed_time (bb_read_usage b))],
       bb_read_usage := \<lparr>us_bytes_used = 0, us_elapsed_time = 0, us_last_synced = be_now v\<rparr>\<rparr>"

definition usage_add :: "nat \<Rightarrow> nat \<Rightarrow> usage_stat \<Rightarrow> usage_stat" where
  "usage_add bytes elapsed u = u\<lparr>us_bytes_used := add64 (us_bytes_used u) bytes,
     us_elapsed_time := add64 (us_elapsed_time u) elapsed\<rparr>"

definition blk_update_write_usage :: "blk_env \<Rightarrow> nat \<Rightarrow> base_block \<Rightarrow> base_block" where
  "blk_update_write_usage v bytes b =
     (let b1 = b\<lparr>bb_write_usage := usage_add bytes (be_elapsed v) (bb_write_usage b)\<rparr> in
      if be_now v - us_last_synced (bb_write_usage b1) > BLOCK_USAGE_FLUSH_INTERVAL
      then blk_flush_write_usage v b1 else b1)"

text \<open>The read statistics trigger a flush of the write statistics, as in the code.\<close>

definition blk_update_read_usage :: "blk_env \<Rightarrow> nat \<Rightarrow> base_block \<Rightarrow> base_block" where
  "blk_update_read_usage v bytes b =
     (let b1 = b\<lparr>bb_read_usage := usage_add bytes (be_elapsed v) (bb_read_usage b)\<rparr> in
      if be_now v - us_last_synced (bb_read_usage b1) > BLOCK_USAGE_FLUSH_INTERVAL
      then blk_flush_write_usage v b1 else b1)"

subsection \<open>The lock and the transaction\<close>

definition blk_lock_call :: "(string \<Rightarrow> ('a, write_client) cmd) \<Rightarrow> ('a, base_block) cmd" where
  "blk_lock_call f b =
     (case bb_lock b of
        None \<Rightarrow> (Inl Mem_fault, b)
      | Some n \<Rightarrow> (case f n (bb_client b) of (r, c) \<Rightarrow> (r, b\<lparr>bb_client := c\<rparr>)))"

definition blk_has_lock :: "blk_env \<Rightarrow> (bool, base_block) cmd" where
  "blk_has_lock v = blk_lock_call (\<lambda>n. wc_call n (wk_has_write_lock (be_call v)))"

definition blk_release :: "blk_env \<Rightarrow> (bool, base_block) cmd" where
  "blk_release v = blk_lock_call (\<lambda>n. wc_call n (wk_release_lock (be_got v) (be_call v)))"

definition blk_is_lock_reset :: "(bool, base_block) cmd" where
  "blk_is_lock_reset = blk_lock_call (\<lambda>n. wc_call n (\<lambda>l t. (wk_is_lock_reset l, (l, t))))"

definition blk_reregister :: "blk_env \<Rightarrow> (unit, base_block) cmd" where
  "blk_reregister v = blk_lock_call (\<lambda>n. wc_call n (wk_check_and_register (be_got v) (be_now v)))"

definition blk_in_transaction :: "blk_env \<Rightarrow> (bool, base_block) cmd" where
  "blk_in_transaction v b =
     (case bb_rollback b of
        None \<Rightarrow> (Inr False, b)
      | Some ri \<Rightarrow>
          if ri_in_transaction ri
          then c_bind (blk_has_lock v) (\<lambda>h.
               if h then c_ret True
               else c_bind blk_is_lock_reset (\<lambda>r.
                    if r then c_bind (blk_reregister v) (\<lambda>_. blk_has_lock v)
                    else c_ret False)) b
          else (Inr False, b))"

definition blk_setup_transaction :: "blk_env \<Rightarrow> string \<Rightarrow> base_block \<Rightarrow> base_block" where
  "blk_setup_transaction v txid b =
     b\<lparr>bb_rollback := Some \<lparr>ri_in_transaction = True, ri_transaction_id = txid,
         ri_start_offset = bh_write_offset (bb_header b),
         ri_write_offset = bh_write_offset (bb_header b), ri_used_bytes = 0,
         ri_last_index = bh_last_index (bb_header b), ri_start_time = be_now v\<rparr>\<rparr>"

definition ri_ended :: "rollback_info \<Rightarrow> rollback_info" where
  "ri_ended ri = ri\<lparr>ri_in_transaction := False, ri_last_index := 0, ri_start_time := 0,
     ri_transaction_id := [], ri_write_offset := 0, ri_used_bytes := 0\<rparr>"

definition blk_end_transaction :: "blk_env \<Rightarrow> (unit, base_block) cmd" where
  "blk_end_transaction v =
     c_bind (c_assert Precondition (blk_has_lock v)) (\<lambda>_ b.
     case bb_rollback b of
       None \<Rightarrow> (Inl Null_pointer, b)
     | Some ri \<Rightarrow> c_bind (blk_release v) (\<lambda>_. c_ret ()) (b\<lparr>bb_rollback := Some (ri_ended ri)\<rparr>))"

text \<open>
  \<open>get_lock\<close> loops; \<open>rounds\<close> are its iterations (see \<open>WriteLock\<close>), \<open>None\<close> means that they ran
  out. \<open>uuid\<close> is the identifier that \<open>common_utils::uuid\<close> makes up.
\<close>

definition blk_start_transaction :: "blk_env \<Rightarrow> u64 \<Rightarrow> string \<Rightarrow> string \<Rightarrow> round list \<Rightarrow> base_block
    \<Rightarrow> (string, base_block) res option" where
  "blk_start_transaction v timeout txid uuid rounds b =
     (if \<not> bb_available b then Some (Inl State_unavailable, b)
      else (case be_user v of
              None \<Rightarrow> Some (Inl Precondition, b)
            | Some uname \<Rightarrow>
                (case bb_lock b of
                   None \<Rightarrow> Some (Inl Mem_fault, b)
                 | Some n \<Rightarrow>
                     (case wc_find (bb_client b) n of
                        None \<Rightarrow> Some (Inl Mem_fault, b)
                      | Some l \<Rightarrow>
                          (case wk_get_lock (be_call v) uname timeout txid uuid l (wc_table (bb_client b)) rounds of
                             None \<Rightarrow> None
                           | Some (r, (l', t')) \<Rightarrow>
                               (let b' = b\<lparr>bb_client := (wc_store (bb_client b) n l')\<lparr>wc_table := t'\<rparr>\<rparr> in
                                case r of
                                  Inl e \<Rightarrow> Some (Inl e, b')
                                | Inr rid \<Rightarrow>
                                    if rid \<noteq> [] then Some (Inr rid, blk_setup_transaction v rid b')
                                    else Some (Inl Fs_error, b')))))))"

definition blk_force_rollback :: "blk_env \<Rightarrow> (unit, base_block) cmd" where
  "blk_force_rollback v =
     c_bind (c_all [c_check State_unavailable bb_available,
                    c_assert Precondition (blk_in_transaction v),
                    c_mod (\<lambda>b. b\<lparr>bb_deletes := []\<rparr>)]) (\<lambda>_.
     blk_end_transaction v)"

definition blk_check_txid :: "string \<Rightarrow> (unit, base_block) cmd" where
  "blk_check_txid tx b =
     (if tx = [] then (Inl Precondition, b)
      else (case bb_rollback b of
              None \<Rightarrow> (Inl Mem_fault, b)
            | Some ri \<Rightarrow> if ri_transaction_id ri = tx then (Inr (), b) else (Inl Precondition, b)))"

definition blk_rollback :: "blk_env \<Rightarrow> string \<Rightarrow> (unit, base_block) cmd" where
  "blk_rollback v tx =
     c_bind (c_all [c_check State_unavailable bb_available,
                    c_assert Precondition (blk_in_transaction v),
                    blk_check_txid tx]) (\<lambda>_.
     blk_force_rollback v)"

definition blk_has_expired_transaction :: "blk_env \<Rightarrow> time \<Rightarrow> (bool, base_block) cmd" where
  "blk_has_expired_transaction v timeout =
     c_bind (blk_in_transaction v) (\<lambda>tx.
     c_get (\<lambda>b. tx \<and> (case bb_rollback b of None \<Rightarrow> False
                  | Some ri \<Rightarrow> be_now v - ri_start_time ri > timeout)))"

subsection \<open>Space\<close>

text \<open>
  \<open>get_free_space\<close>. Inside a transaction that has used the block up, the first test fails and the
  code falls through to the space that was free before the transaction.
\<close>

definition blk_get_free_space :: "blk_env \<Rightarrow> (nat, base_block) cmd" where
  "blk_get_free_space v =
     c_bind (c_check State_unavailable bb_available) (\<lambda>_.
     c_bind (blk_in_transaction v) (\<lambda>tx.
     c_get (\<lambda>b.
       let h = bb_header b;
           tx_used = (case bb_rollback b of None \<Rightarrow> 0 | Some ri \<Rightarrow> ri_used_bytes ri);
           used1 = add64 (add64 (bh_used_bytes h) tx_used) REC_HEADER_SIZE;
           used0 = add64 (bh_used_bytes h) REC_HEADER_SIZE in
       if tx \<and> bh_block_size h > used1 then bh_block_size h - used1
       else if bh_block_size h > used0 then bh_block_size h - used0
       else 0)))"

definition blk_get_used_space :: "blk_env \<Rightarrow> (nat, base_block) cmd" where
  "blk_get_used_space v =
     c_bind (c_check State_unavailable bb_available) (\<lambda>_.
     c_bind (blk_in_transaction v) (\<lambda>tx.
     c_get (\<lambda>b. case (tx, bb_rollback b) of
             (True, Some ri) \<Rightarrow> add64 (bh_used_bytes (bb_header b)) (ri_used_bytes ri)
           | _ \<Rightarrow> bh_used_bytes (bb_header b))))"

definition blk_has_space :: "blk_env \<Rightarrow> nat \<Rightarrow> (bool, base_block) cmd" where
  "blk_has_space v sz = c_bind (blk_get_free_space v) (\<lambda>free. c_ret (free \<ge> sz))"

definition blk_is_writeable :: "(bool, base_block) cmd" where
  "blk_is_writeable = c_bind (c_check State_unavailable bb_available) (\<lambda>_.
     c_get (\<lambda>b. bb_updateable b \<and> bh_write_state (bb_header b) = WRITABLE))"

definition blk_is_updateable :: "(bool, base_block) cmd" where
  "blk_is_updateable = c_bind (c_check State_unavailable bb_available) (\<lambda>_.
     c_get (\<lambda>b. bh_write_state (bb_header b) = WRITABLE
       \<or> (bb_updateable b \<and> bh_write_state (bb_header b) = UPDATEABLE)))"

subsection \<open>Reading and writing the mapping\<close>

definition blk_poke :: "nat \<Rightarrow> u8 list \<Rightarrow> (unit, base_block) cmd" where
  "blk_poke off bs b = (case poke (bb_data b) off bs of
     None \<Rightarrow> (Inl Mem_fault, b) | Some m \<Rightarrow> (Inr (), b\<lparr>bb_data := m\<rparr>))"

definition header_at :: "mem \<Rightarrow> nat \<Rightarrow> rec_header option" where
  "header_at m off = map_option dec_rec_header (peek m off REC_HEADER_SIZE)"

definition blk_ri :: "(rollback_info, base_block) cmd" where
  "blk_ri b = (case bb_rollback b of None \<Rightarrow> (Inl Mem_fault, b) | Some ri \<Rightarrow> (Inr ri, b))"

definition blk_ri_update :: "(rollback_info \<Rightarrow> rollback_info) \<Rightarrow> base_block \<Rightarrow> base_block" where
  "blk_ri_update f b = b\<lparr>bb_rollback := map_option f (bb_rollback b)\<rparr>"

definition blk_get_write_ptr :: "blk_env \<Rightarrow> (nat, base_block) cmd" where
  "blk_get_write_ptr v =
     c_bind (c_assert Precondition (blk_in_transaction v)) (\<lambda>_.
     c_bind (c_check Mem_fault bb_write_ptr) (\<lambda>_.
     c_bind blk_ri (\<lambda>ri. c_ret (ri_write_offset ri))))"

definition blk_get_write_offset :: "blk_env \<Rightarrow> (nat, base_block) cmd" where
  "blk_get_write_offset v =
     c_bind (c_assert Precondition (blk_in_transaction v)) (\<lambda>_.
     c_bind blk_ri (\<lambda>ri. c_ret (ri_write_offset ri)))"

definition blk_get_next_index :: "blk_env \<Rightarrow> (nat, base_block) cmd" where
  "blk_get_next_index v =
     c_bind (c_assert Precondition (blk_in_transaction v)) (\<lambda>_.
     c_bind blk_ri (\<lambda>ri.
     c_bind (c_mod (blk_ri_update (\<lambda>r. r\<lparr>ri_last_index := add64 (ri_last_index r) 1\<rparr>))) (\<lambda>_.
     c_ret (ri_last_index ri))))"

definition blk_get_current_index :: "blk_env \<Rightarrow> (nat, base_block) cmd" where
  "blk_get_current_index v =
     c_bind (blk_in_transaction v) (\<lambda>tx.
     c_get (\<lambda>b. case (tx, bb_rollback b) of (True, Some ri) \<Rightarrow> ri_last_index ri
           | _ \<Rightarrow> bh_last_index (bb_header b)))"

definition blk_write_record0 :: "blk_env \<Rightarrow> u8 list option \<Rightarrow> string \<Rightarrow> nat \<Rightarrow> (nat, base_block) cmd" where
  "blk_write_record0 v source tx uncompressed =
     c_bind (c_all [c_check State_unavailable bb_available,
                    c_check Null_pointer (\<lambda>_. source \<noteq> None),
                    c_assert Precondition blk_is_writeable,
                    c_assert Precondition (blk_has_space v (length (the source))),
                    blk_check_txid tx]) (\<lambda>_.
     c_bind (blk_in_transaction v) (\<lambda>intx.
     c_bind (c_when (\<not> intx) (c_bind (blk_force_rollback v) (\<lambda>_. c_throw Fs_error))) (\<lambda>_.
     c_bind (blk_get_write_ptr v) (\<lambda>off.
     c_bind (blk_poke off (replicate REC_HEADER_SIZE 0)) (\<lambda>_.
     c_bind (blk_get_next_index v) (\<lambda>index.
     c_bind (blk_get_write_offset v) (\<lambda>woff.
     c_bind (blk_poke off (enc_rec_header \<lparr>rh_index = index, rh_offset = woff, rh_state = R_DIRTY,
         rh_data_size = length (the source), rh_uncompressed_size = uncompressed,
         rh_timestamp = unat (be_now v)\<rparr>)) (\<lambda>_.
     c_bind (blk_poke (off + REC_HEADER_SIZE) (the source)) (\<lambda>_.
     c_bind (c_mod (blk_ri_update (\<lambda>r. r\<lparr>ri_used_bytes := add64 (ri_used_bytes r) (length (the source)),
         ri_write_offset := add64 (ri_write_offset r) (REC_HEADER_SIZE + length (the source))\<rparr>))) (\<lambda>_.
     c_bind (c_mod (blk_update_write_usage v (REC_HEADER_SIZE + length (the source)))) (\<lambda>_.
     c_bind (c_mod (\<lambda>b. b\<lparr>bb_header := (bb_header b)\<lparr>bh_update_time := be_now v\<rparr>\<rparr>)) (\<lambda>_.
     c_ret off))))))))))))"

text \<open>
  \<open>write_record\<close>: with compression the handler's buffer is written; with encryption alone the
  empty buffer is, whose pointer is null.
\<close>

definition blk_write_record :: "blk_env \<Rightarrow> u8 list option \<Rightarrow> string \<Rightarrow> (nat, base_block) cmd" where
  "blk_write_record v source tx =
     c_bind (c_check State_unavailable bb_available) (\<lambda>_ b.
     if bh_compressed (bb_header b)
     then (if \<not> bb_compression b then (Inl Null_pointer, b)
           else (case source of
                   None \<Rightarrow> (Inl Null_pointer, b)
                 | Some s \<Rightarrow> (case be_write_archive v s of
                       Inl e \<Rightarrow> (Inl e, b)
                     | Inr packed \<Rightarrow> blk_write_record0 v (Some packed) tx (length s) b)))
     else if bh_encrypted (bb_header b) then blk_write_record0 v None tx 0 b
     else blk_write_record0 v source tx 0 b)"

definition blk_write :: "blk_env \<Rightarrow> u8 list option \<Rightarrow> string \<Rightarrow> (nat, base_block) cmd" where
  "blk_write v source tx =
     c_bind (c_all [c_check State_unavailable bb_available,
                    c_check Null_pointer (\<lambda>_. source \<noteq> None)]) (\<lambda>_.
     c_bind (blk_write_record v source tx) (\<lambda>off b.
     case header_at (bb_data b) off of
       None \<Rightarrow> (Inl Mem_fault, b) | Some h \<Rightarrow> (Inr (rh_index h), b)))"

text \<open>\<open>__read_record (index)\<close>: walk from the first record, \<open>index - start_index\<close> steps.\<close>

fun walk :: "mem \<Rightarrow> nat \<Rightarrow> nat \<Rightarrow> nat \<Rightarrow> exc + nat" where
  "walk m ii 0 off = Inr off"
| "walk m ii (Suc n) off =
     (case header_at m off of
        None \<Rightarrow> Inl Mem_fault
      | Some h \<Rightarrow> if rh_index h = ii
                  then walk m (ii + 1) n (off + add64 (rh_data_size h) REC_HEADER_SIZE)
                  else Inl Postcondition)"

definition blk_read_record :: "nat \<Rightarrow> (nat \<times> rec_header, base_block) cmd" where
  "blk_read_record index =
     c_bind (c_all [c_check State_unavailable bb_available,
       c_check Precondition (\<lambda>b. bh_start_index (bb_header b) \<le> index \<and> index \<le> bh_last_index (bb_header b))])
     (\<lambda>_ b.
     case walk (bb_data b) (bh_start_index (bb_header b)) (index - bh_start_index (bb_header b)) 0 of
       Inl e \<Rightarrow> (Inl e, b)
     | Inr off \<Rightarrow>
         (case header_at (bb_data b) off of
            None \<Rightarrow> (Inl Mem_fault, b)
          | Some h \<Rightarrow> if rh_index h = index then (Inr (off, h), b) else (Inl Postcondition, b)))"

text \<open>\<open>__read_record (index, offset, size)\<close>, with the position read from an index.\<close>

definition blk_read_record_at :: "nat \<Rightarrow> nat \<Rightarrow> nat \<Rightarrow> (nat \<times> rec_header, base_block) cmd" where
  "blk_read_record_at index off sz =
     c_bind (c_all [c_check State_unavailable bb_available,
       c_check Precondition (\<lambda>b. bh_start_index (bb_header b) \<le> index \<and> index \<le> bh_last_index (bb_header b))])
     (\<lambda>_ b.
     case header_at (bb_data b) off of
       None \<Rightarrow> (Inl Mem_fault, b)
     | Some h \<Rightarrow> if rh_index h = index \<and> rh_offset h = off \<and> rh_data_size h = sz
                 then (Inr (off, h), b) else (Inl Postcondition, b))"

definition rec_valid_state :: "rec_header \<Rightarrow> bool" where
  "rec_valid_state h \<longleftrightarrow> rh_state h = R_READABLE \<or> rh_state h = R_DIRTY"

definition blk_delete_record :: "blk_env \<Rightarrow> nat \<Rightarrow> string \<Rightarrow> (bool, base_block) cmd" where
  "blk_delete_record v index tx =
     c_bind (c_all [c_check State_unavailable bb_available,
                    c_assert Precondition blk_is_updateable,
                    c_assert Precondition (blk_in_transaction v),
                    blk_check_txid tx,
                    c_check Precondition (\<lambda>b. bh_start_index (bb_header b) \<le> index),
                    c_assert Precondition (c_bind (blk_get_current_index v) (\<lambda>i. c_ret (index \<le> i)))]) (\<lambda>_.
     c_bind (blk_read_record index) (\<lambda>(off, h).
     c_bind (c_check Precondition (\<lambda>_. rec_valid_state h)) (\<lambda>_.
     c_bind (c_mod (\<lambda>b. b\<lparr>bb_deletes := bb_deletes b @ [index],
         bb_header := (bb_header b)\<lparr>bh_update_time := be_now v\<rparr>\<rparr>)) (\<lambda>_.
     c_ret True))))"

subsection \<open>Reading\<close>

text \<open>
  \<open>process_record_data\<close> appends what a record gives to the result. A compressed record is handed
  to the handler with its uncompressed size as the number of bytes to take from the mapping; the
  two buffers are empty when encryption is on, so the handler is given a null pointer.
\<close>

definition blk_process_record :: "blk_env \<Rightarrow> base_block \<Rightarrow> nat \<Rightarrow> rec_header \<Rightarrow> exc + u8 list list" where
  "blk_process_record v b off h =
     (let enc = bh_encrypted (bb_header b); cmp = bh_compressed (bb_header b) in
      if enc \<or> cmp
      then (if cmp
            then (if \<not> bb_compression b then Inl Null_pointer
                  else if enc then Inl Null_pointer
                  else (case peek (bb_data b) (off + REC_HEADER_SIZE) (rh_uncompressed_size h) of
                          None \<Rightarrow> Inl Mem_fault
                        | Some bs \<Rightarrow> (let (ret, out) = be_read_archive v bs in
                                      if ret > 0 then Inr [out] else Inl Postcondition)))
            else Inr [])
      else (case peek (bb_data b) (off + REC_HEADER_SIZE) (rh_data_size h) of
              None \<Rightarrow> Inl Mem_fault
            | Some bs \<Rightarrow> Inr [bs]))"

definition read_skips :: "nat \<Rightarrow> rec_header \<Rightarrow> bool" where
  "read_skips r_state h \<longleftrightarrow> (r_state = R_DELETED \<or> r_state = R_DIRTY) \<and> rh_state h \<noteq> r_state"

text \<open>
  The loop of \<open>read\<close>: \<open>n\<close> is the number of indices left before \<open>last_index\<close>. It gives the payloads
  and the number of bytes of the records it looked at.
\<close>

fun blk_read_loop :: "blk_env \<Rightarrow> nat \<Rightarrow> nat \<Rightarrow> nat \<Rightarrow> nat \<Rightarrow> (u8 list list \<times> nat, base_block) cmd" where
  "blk_read_loop v r_state index count 0 = c_ret ([], 0)"
| "blk_read_loop v r_state index count (Suc n) =
     (if count = 0 then c_ret ([], 0)
      else c_bind (blk_read_record index) (\<lambda>(off, h) b.
        if read_skips r_state h
        then c_bind (blk_read_loop v r_state (index + 1) count n) (\<lambda>(ds, bytes).
             c_ret (ds, rh_data_size h + bytes)) b
        else (case blk_process_record v b off h of
                Inl e \<Rightarrow> (Inl e, b)
              | Inr d \<Rightarrow>
                  c_bind (blk_read_loop v r_state (index + 1) (count - 1) n) (\<lambda>(ds, bytes).
                  c_ret (d @ ds, rh_data_size h + bytes)) b)))"

definition blk_read :: "blk_env \<Rightarrow> nat \<Rightarrow> nat \<Rightarrow> nat \<Rightarrow> (u8 list list, base_block) cmd" where
  "blk_read v index count r_state =
     c_bind (c_all [c_check State_unavailable bb_available,
                    c_check Precondition (\<lambda>_. r_state \<noteq> R_FREE)]) (\<lambda>_ b.
     c_bind (blk_read_loop v r_state index count (bh_last_index (bb_header b) - index)) (\<lambda>(ds, bytes).
     c_bind (c_when (bytes > 0) (c_mod (blk_update_read_usage v bytes))) (\<lambda>_.
     c_ret ds)) b)"

subsection \<open>Commit\<close>

definition blk_set_state :: "nat \<Rightarrow> rec_header \<Rightarrow> nat \<Rightarrow> (unit, base_block) cmd" where
  "blk_set_state off h st = blk_poke (off + 16) (nat_bytes 4 st)"

definition inc32 :: "nat \<Rightarrow> nat" where "inc32 n = (n + 1) mod 2 ^ 32"

fun blk_mark_deleted :: "nat list \<Rightarrow> (unit, base_block) cmd" where
  "blk_mark_deleted [] = c_mod (\<lambda>b. b\<lparr>bb_deletes := []\<rparr>)"
| "blk_mark_deleted (i # is) =
     c_bind (blk_read_record i) (\<lambda>(off, h).
     c_bind (blk_set_state off h R_DELETED) (\<lambda>_.
     c_bind (c_mod (\<lambda>b. b\<lparr>bb_header := (bb_header b)\<lparr>bh_deleted_records := inc32 (bh_deleted_records (bb_header b))\<rparr>\<rparr>)) (\<lambda>_.
     blk_mark_deleted is)))"

text \<open>
  The loop that makes the records of the transaction readable, from the committed write offset
  to that of the transaction. Each step moves on by at least a record header; \<open>fuel\<close> bounds the
  number of steps, and \<open>None\<close> says that it was not enough. \<open>blk_commit\<close> gives as many steps as
  there are bytes to cover.
\<close>

fun blk_publish :: "nat \<Rightarrow> nat \<Rightarrow> nat \<Rightarrow> nat \<Rightarrow> base_block \<Rightarrow> (nat, base_block) res option" where
  "blk_publish 0 stop off added b = (if off < stop then None else Some (Inr added, b))"
| "blk_publish (Suc fuel) stop off added b =
     (if off < stop
      then (case header_at (bb_data b) off of
              None \<Rightarrow> Some (Inl Mem_fault, b)
            | Some h \<Rightarrow>
                (case blk_set_state off h R_READABLE b of
                   (Inl e, b') \<Rightarrow> Some (Inl e, b')
                 | (Inr _, b') \<Rightarrow>
                     blk_publish fuel stop (add64 off (add64 REC_HEADER_SIZE (rh_data_size h))) (inc32 added) b'))
      else Some (Inr added, b))"

definition blk_commit_header :: "rollback_info \<Rightarrow> nat \<Rightarrow> block_header \<Rightarrow> block_header" where
  "blk_commit_header ri added h =
     h\<lparr>bh_last_index := ri_last_index ri,
       bh_used_bytes := add64 (bh_used_bytes h) (ri_used_bytes ri),
       bh_write_offset := ri_write_offset ri,
       bh_commit_sequence := add64 (bh_commit_sequence h) 1,
       bh_total_records := (bh_total_records h + added) mod 2 ^ 32\<rparr>"

definition blk_publish_all :: "(unit, base_block) cmd" where
  "blk_publish_all b =
     (case bb_rollback b of
        None \<Rightarrow> (Inl Mem_fault, b)
      | Some ri \<Rightarrow>
          (case blk_publish (ri_write_offset ri) (ri_write_offset ri) (bh_write_offset (bb_header b)) 0 b of
             None \<Rightarrow> (Inl Mem_fault, b)
           | Some (Inl e, b') \<Rightarrow> (Inl e, b')
           | Some (Inr added, b') \<Rightarrow> (Inr (), b'\<lparr>bb_header := blk_commit_header ri added (bb_header b')\<rparr>)))"

definition blk_commit :: "blk_env \<Rightarrow> string \<Rightarrow> (unit, base_block) cmd" where
  "blk_commit v tx =
     c_bind (c_all [c_check State_unavailable bb_available,
                    c_assert Precondition (blk_in_transaction v),
                    blk_check_txid tx]) (\<lambda>_.
     c_bind (\<lambda>b. blk_mark_deleted (bb_deletes b) b) (\<lambda>_.
     c_bind blk_publish_all (\<lambda>_.
     blk_end_transaction v)))"

subsection \<open>Creating, opening and closing\<close>

text \<open>
  A block file is its header and its data area. \<open>__create_block\<close> maps a new file, which
  \<open>file_mapped_data\<close> fills with zeros; \<open>exists\<close> and \<open>removed\<close> are the answers of the file system.
\<close>

type_synonym block_file = "block_header \<times> mem"

definition nat_digits :: "nat \<Rightarrow> nat \<Rightarrow> string" where
  "nat_digits width n = map (\<lambda>k. char_of ((48::nat) + (n div 10 ^ (width - 1 - k)) mod 10)) [0..<width]"

definition blk_lock_name :: "nat \<Rightarrow> string" where
  "blk_lock_name block_id = ''blk_'' @ nat_digits 24 block_id"

definition blk_area_size :: "nat \<Rightarrow> nat" where
  "blk_area_size block_size = (block_size * 110) mod 2 ^ 64 div 100"

definition new_block_header :: "blk_env \<Rightarrow> string \<Rightarrow> nat \<Rightarrow> nat \<Rightarrow> block_usage \<Rightarrow> block_def \<Rightarrow> nat \<Rightarrow> nat \<Rightarrow> block_header" where
  "new_block_header v uuid block_id parent_id usage type block_size start_index =
     \<lparr>bh_version = BLOCK_VERSION, bh_block_uid = uuid, bh_parent_id = parent_id, bh_usage = usage,
      bh_type = type, bh_write_state = WRITABLE, bh_block_id = block_id, bh_create_time = be_now v,
      bh_update_time = be_now v, bh_start_index = start_index, bh_last_index = start_index,
      bh_block_ttl = 0, bh_block_size = block_size, bh_write_offset = 0, bh_used_bytes = 0,
      bh_commit_sequence = 0, bh_total_records = 0, bh_deleted_records = 0, bh_compressed = False,
      bh_compression_type = NO_COMPRESSION, bh_encrypted = False\<rparr>"

definition blk_create_block :: "blk_env \<Rightarrow> string \<Rightarrow> nat \<Rightarrow> nat \<Rightarrow> string \<Rightarrow> block_usage \<Rightarrow> block_def
    \<Rightarrow> nat \<Rightarrow> nat \<Rightarrow> bool \<Rightarrow> bool \<Rightarrow> bool \<Rightarrow> (string, base_block) cmd" where
  "blk_create_block v uuid block_id parent_id filename usage type block_size start_index overwrite exists removed b =
     (if exists \<and> (\<not> overwrite \<or> \<not> removed) then (Inl Fs_error, b\<lparr>bb_available := False\<rparr>)
      else
        (let b1 = b\<lparr>bb_header := new_block_header v uuid block_id parent_id usage type block_size start_index,
                    bb_data := replicate (blk_area_size block_size) 0\<rparr> in
         case wc_add_lock (be_got v) (be_now v) (blk_lock_name block_id) (bb_client b1) of
           (Inl _, c) \<Rightarrow> (Inl Fs_error, b1\<lparr>bb_client := c, bb_available := False\<rparr>)
         | (Inr n, c) \<Rightarrow>
             (case wc_lock_reset n c of
                (Inl _, c') \<Rightarrow> (Inl Fs_error, b1\<lparr>bb_client := c', bb_lock := Some n, bb_available := False\<rparr>)
              | (Inr _, c') \<Rightarrow> (Inr uuid, b1\<lparr>bb_client := c', bb_lock := Some n,
                    bb_filename := filename, bb_available := True\<rparr>))))"

definition blk_close :: "blk_env \<Rightarrow> (unit, base_block) cmd" where
  "blk_close v =
     c_bind (c_mod (\<lambda>b. blk_flush_read_usage v (blk_flush_write_usage v (b\<lparr>bb_available := False\<rparr>)))) (\<lambda>_.
     c_bind (\<lambda>b. case bb_lock b of
         None \<Rightarrow> (Inr (), b)
       | Some n \<Rightarrow>
           c_bind (blk_has_lock v) (\<lambda>held.
           c_bind (c_when held (c_bind (blk_release v) (\<lambda>_. c_ret ()))) (\<lambda>_.
           c_bind (blk_lock_call (wc_remove_lock (be_got v) (be_call v))) (\<lambda>_.
           c_mod (\<lambda>b. b\<lparr>bb_lock := None\<rparr>)))) b) (\<lambda>_.
     c_mod (\<lambda>b. b\<lparr>bb_rollback := None, bb_write_ptr := False\<rparr>)))"

definition blk_create :: "blk_env \<Rightarrow> string \<Rightarrow> nat \<Rightarrow> nat \<Rightarrow> string \<Rightarrow> block_usage \<Rightarrow> nat \<Rightarrow> nat \<Rightarrow> bool
    \<Rightarrow> bool \<Rightarrow> bool \<Rightarrow> (string, base_block) cmd" where
  "blk_create v uuid block_id parent_id filename usage block_size start_index overwrite exists removed =
     c_bind (blk_create_block v uuid block_id parent_id filename usage BASIC block_size start_index
               overwrite exists removed) (\<lambda>r.
     c_bind (blk_close v) (\<lambda>_.
     c_bind (c_check Postcondition (\<lambda>_. r \<noteq> [])) (\<lambda>_. c_ret r)))"

text \<open>\<open>file\<close> is the content of the file with this name, if there is one.\<close>

definition blk_open_block :: "blk_env \<Rightarrow> nat \<Rightarrow> string \<Rightarrow> block_file option \<Rightarrow> bool \<Rightarrow> (unit, base_block) cmd" where
  "blk_open_block v block_id filename file for_update b =
     (case file of
        None \<Rightarrow> (Inl (Fs_block_error ERRCODE_BLOCK_FILE_NOT_FOUND), b)
      | Some (h, m) \<Rightarrow>
          (let b1 = b\<lparr>bb_header := h, bb_data := m\<rparr> in
           if bh_block_id h \<noteq> block_id then (Inl (Fs_block_error ERRCODE_BLOCK_COPRRUPTED), b1)
           else if \<not> version_compatible (bh_version h) BLOCK_VERSION
           then (Inl (Fs_block_error ERRCODE_BLOCK_DATA_VERSION), b1)
           else
             c_bind (\<lambda>b. if bb_lock b = None \<and> for_update
                         then (case wc_add_lock (be_got v) (be_now v) (blk_lock_name block_id) (bb_client b) of
                                 (Inl e, c) \<Rightarrow> (Inl e, b\<lparr>bb_client := c\<rparr>)
                               | (Inr n, c) \<Rightarrow> (Inr (), b\<lparr>bb_client := c, bb_lock := Some n, bb_updateable := True\<rparr>))
                         else (Inr (), b)) (\<lambda>_.
             c_bind (c_mod (\<lambda>b. b\<lparr>bb_filename := filename\<rparr>)) (\<lambda>_ b.
             if bh_compressed h
             then (if bh_compression_type h = ZLIB then (Inr (), b\<lparr>bb_compression := True\<rparr>)
                   else (Inl (Fs_block_error ERRCODE_BLOCK_COMPRESSION), b))
             else (Inr (), b))) b1))"

definition blk_open :: "blk_env \<Rightarrow> nat \<Rightarrow> string \<Rightarrow> block_file option \<Rightarrow> bool \<Rightarrow> (unit, base_block) cmd" where
  "blk_open v block_id filename file for_update =
     c_bind (blk_open_block v block_id filename file for_update) (\<lambda>_.
     c_mod (\<lambda>b. b\<lparr>bb_write_ptr := (bh_write_state (bb_header b) = WRITABLE
                   \<or> (for_update \<and> bh_write_state (bb_header b) = UPDATEABLE)),
                 bb_available := True\<rparr>))"

definition blk_finish :: "(unit, base_block) cmd" where
  "blk_finish = c_bind (c_check State_unavailable bb_available) (\<lambda>_.
     c_mod (\<lambda>b. b\<lparr>bb_header := (bb_header b)\<lparr>bh_write_state := UPDATEABLE\<rparr>\<rparr>))"

definition blk_archive :: "(unit, base_block) cmd" where
  "blk_archive = c_bind (c_check State_unavailable bb_available) (\<lambda>_.
     c_mod (\<lambda>b. b\<lparr>bb_header := (bb_header b)\<lparr>bh_write_state := CLOSED\<rparr>\<rparr>))"

definition blk_with_compression_type :: "compression_type \<Rightarrow> (unit, base_block) cmd" where
  "blk_with_compression_type ty = c_bind (c_check State_unavailable bb_available) (\<lambda>_.
     c_mod (\<lambda>b. b\<lparr>bb_header := (bb_header b)\<lparr>bh_compressed := (ty \<noteq> NO_COMPRESSION),
       bh_compression_type := ty\<rparr>\<rparr>))"

definition blk_with_block_ttl :: "nat \<Rightarrow> (unit, base_block) cmd" where
  "blk_with_block_ttl ttl = c_bind (c_check State_unavailable bb_available) (\<lambda>_.
     c_mod (\<lambda>b. b\<lparr>bb_header := (bb_header b)\<lparr>bh_block_ttl := ttl\<rparr>\<rparr>))"

subsection \<open>The sanity check\<close>

text \<open>The loop counter is a \<open>uint32_t\<close>; \<open>fuel\<close> bounds its steps.\<close>

fun blk_count_records :: "nat \<Rightarrow> nat \<Rightarrow> nat \<Rightarrow> nat \<Rightarrow> base_block \<Rightarrow> (nat \<times> nat, base_block) res option" where
  "blk_count_records 0 ii tot deleted b =
     (if ii < bh_last_index (bb_header b) then None else Some (Inr (tot, deleted), b))"
| "blk_count_records (Suc fuel) ii tot deleted b =
     (if ii < bh_last_index (bb_header b)
      then (case blk_read_record ii b of
              (Inl e, b') \<Rightarrow> Some (Inl e, b')
            | (Inr (off, h), b') \<Rightarrow>
                blk_count_records fuel (inc32 ii) (inc32 tot)
                  (if rh_state h \<noteq> R_READABLE then inc32 deleted else deleted) b')
      else Some (Inr (tot, deleted), b))"

record block_check_record =
  cr_block_id :: nat
  cr_block_uuid :: string
  cr_record_index_start :: nat
  cr_record_index_last :: nat
  cr_commit_sequence :: nat

definition blk_check_sanity :: "nat \<Rightarrow> base_block \<Rightarrow> (block_check_record, base_block) res option" where
  "blk_check_sanity fuel b =
     (if \<not> bb_available b then Some (Inl State_unavailable, b)
      else (case blk_count_records fuel (bh_start_index (bb_header b) mod 2 ^ 32) 0 0 b of
              None \<Rightarrow> None
            | Some (Inl e, b') \<Rightarrow> Some (Inl e, b')
            | Some (Inr (tot, deleted), b') \<Rightarrow>
                (let h = bb_header b' in
                 if tot \<noteq> bh_total_records h \<or> deleted \<noteq> bh_deleted_records h
                 then Some (Inl (Fs_block_error ERRCODE_BLOCK_SANITY_FAILED), b')
                 else Some (Inr \<lparr>cr_block_id = bh_block_id h, cr_block_uuid = bh_block_uid h,
                        cr_record_index_start = bh_start_index h, cr_record_index_last = bh_last_index h,
                        cr_commit_sequence = bh_commit_sequence h\<rparr>, b'))))"

end
