(* ===== verification/BlockLayout.thy ===== *)
theory BlockLayout
  imports BaseBlock
begin

section \<open>The layout of the data area\<close>

text \<open>
  Abstractly the data area is a list of chunks, a record header and its payload each.
  \<open>chunks_ok i off cs\<close>: the headers count up from index \<open>i\<close>, and record where they are and how
  long the payload is. The lemmas show what walking, reading and rewriting a state does to such
  an area.
\<close>

type_synonym chunk = "rec_header \<times> u8 list"

definition enc_chunk :: "chunk \<Rightarrow> u8 list" where
  "enc_chunk c = enc_rec_header (fst c) @ snd c"

definition enc_chunks :: "chunk list \<Rightarrow> u8 list" where
  "enc_chunks cs = concat (map enc_chunk cs)"

fun chunks_ok :: "nat \<Rightarrow> nat \<Rightarrow> chunk list \<Rightarrow> bool" where
  "chunks_ok i off [] = True"
| "chunks_ok i off (c # cs) =
     (rh_index (fst c) = i \<and> rh_offset (fst c) = off \<and> rh_data_size (fst c) = length (snd c)
      \<and> rec_header_ok (fst c) \<and> chunks_ok (i + 1) (off + length (enc_chunk c)) cs)"

named_theorems layout_simps

lemma enc_chunks_simps [simp]:
  "enc_chunks [] = []" "enc_chunks (c # cs) = enc_chunk c @ enc_chunks cs"
  "enc_chunks (cs @ ds) = enc_chunks cs @ enc_chunks ds"
  by (simp_all add: enc_chunks_def)

lemma enc_chunk_length [simp]: "length (enc_chunk c) = REC_HEADER_SIZE + length (snd c)"
  by (simp add: enc_chunk_def)

lemma enc_chunks_count: "length cs * REC_HEADER_SIZE \<le> length (enc_chunks cs)"
  by (induction cs) auto

lemma chunks_ok_append:
  "chunks_ok i off (cs @ ds) \<longleftrightarrow>
     chunks_ok i off cs \<and> chunks_ok (i + length cs) (off + length (enc_chunks cs)) ds"
  by (induction cs arbitrary: i off) (auto simp: add.assoc)

lemma header_at_pos:
  assumes "rec_header_ok h" "length pre = off"
  shows "header_at (pre @ enc_rec_header h @ post) off = Some h"
  using rec_codec.read_at [OF assms] by (simp add: header_at_def)

lemma header_at_chunk:
  assumes "rec_header_ok (fst c)" "length pre = off"
  shows "header_at (pre @ enc_chunk c @ post) off = Some (fst c)"
  using header_at_pos [OF assms, of "snd c @ post"] by (simp add: enc_chunk_def)

lemma payload_at_chunk:
  assumes "length pre = off"
  shows "peek (pre @ enc_chunk c @ post) (off + REC_HEADER_SIZE) (length (snd c)) = Some (snd c)"
proof -
  have "pre @ enc_chunk c @ post = (pre @ enc_rec_header (fst c)) @ snd c @ post"
    by (simp add: enc_chunk_def)
  moreover have "length (pre @ enc_rec_header (fst c)) = off + REC_HEADER_SIZE"
    using assms by simp
  ultimately show ?thesis
    by (simp add: peek_def)
qed

text \<open>Writing a state over the one in a header.\<close>

definition with_state :: "nat \<Rightarrow> chunk \<Rightarrow> chunk" where
  "with_state st c = ((fst c)\<lparr>rh_state := st\<rparr>, snd c)"

lemma with_state_simps [simp]:
  "snd (with_state st c) = snd c" "rh_index (fst (with_state st c)) = rh_index (fst c)"
  "rh_offset (fst (with_state st c)) = rh_offset (fst c)"
  "rh_data_size (fst (with_state st c)) = rh_data_size (fst c)"
  "rh_state (fst (with_state st c)) = st"
  "with_state st (with_state st' c) = with_state st c"
  by (simp_all add: with_state_def)

lemma with_state_ok: "rec_header_ok (fst c) \<Longrightarrow> st < 2 ^ 32 \<Longrightarrow> rec_header_ok (fst (with_state st c))"
  by (simp add: rec_header_ok_def with_state_def)

lemma poke_state:
  assumes "length pre = off"
  shows "poke (pre @ enc_chunk c @ post) (off + 16) (nat_bytes 4 st) = Some (pre @ enc_chunk (with_state st c) @ post)"
proof -
  let ?a = "nat_bytes 8 (rh_index (fst c)) @ nat_bytes 8 (rh_offset (fst c))"
  let ?z = "replicate 4 0 @ nat_bytes 8 (rh_data_size (fst c))
     @ nat_bytes 8 (rh_uncompressed_size (fst c)) @ nat_bytes 8 (rh_timestamp (fst c)) @ snd c @ post"
  have e: "pre @ enc_chunk (with_state s c) @ post = (pre @ ?a) @ nat_bytes 4 s @ ?z" for s
    by (simp add: enc_chunk_def enc_rec_header_def with_state_def del: nat_bytes.simps)
  have c: "c = with_state (rh_state (fst c)) c"
    by (simp add: with_state_def)
  have len: "length (pre @ ?a) = off + 16"
    using assms by (simp del: nat_bytes.simps)
  have "poke ((pre @ ?a) @ nat_bytes 4 (rh_state (fst c)) @ ?z) (off + 16) (nat_bytes 4 st)
      = Some ((pre @ ?a) @ nat_bytes 4 st @ ?z)"
    by (rule poke_at [OF len]) (simp del: nat_bytes.simps)
  then show ?thesis
    using e [of st] e [of "rh_state (fst c)"] c by simp
qed

lemma chunks_ok_with_state:
  "chunks_ok i off (cs @ c # ds) \<Longrightarrow> st < 2 ^ 32 \<Longrightarrow> chunks_ok i off (cs @ with_state st c # ds)"
  by (simp add: chunks_ok_append with_state_ok)

lemma chunks_ok_map_state:
  "chunks_ok i off cs \<Longrightarrow> st < 2 ^ 32 \<Longrightarrow> chunks_ok i off (map (with_state st) cs)"
  by (induction cs arbitrary: i off) (auto simp: with_state_ok)

lemma enc_map_state_length [simp]:
  "length (enc_chunks (map (with_state st) cs)) = length (enc_chunks cs)"
  by (induction cs) auto

lemma walk_chunks:
  assumes "chunks_ok i (length pre) cs" "n \<le> length cs"
    and "length (pre @ enc_chunks cs @ post) < 2 ^ 64"
  shows "walk (pre @ enc_chunks cs @ post) i n (length pre) = Inr (length pre + length (enc_chunks (take n cs)))"
  using assms
proof (induction cs arbitrary: i pre n)
  case Nil
  then show ?case by simp
next
  case (Cons c cs)
  show ?case
  proof (cases n)
    case 0
    then show ?thesis by simp
  next
    case (Suc k)
    have ok: "rec_header_ok (fst c)" "rh_index (fst c) = i" "rh_data_size (fst c) = length (snd c)"
      and rest: "chunks_ok (i + 1) (length (pre @ enc_chunk c)) cs"
      using Cons.prems(1) by simp_all
    have hd: "header_at (pre @ enc_chunks (c # cs) @ post) (length pre) = Some (fst c)"
      using header_at_chunk [OF ok(1), of pre "length pre" "enc_chunks cs @ post"] by simp
    have len: "add64 (length (snd c)) REC_HEADER_SIZE = length (enc_chunk c)"
      using Cons.prems(3) by (simp add: add64_small)
    have "walk ((pre @ enc_chunk c) @ enc_chunks cs @ post) (i + 1) k (length (pre @ enc_chunk c))
        = Inr (length (pre @ enc_chunk c) + length (enc_chunks (take k cs)))"
      using Cons.IH [OF rest, of k] Cons.prems Suc by simp
    then show ?thesis
      using Suc hd ok len by simp
  qed
qed

lemma split_chunk:
  assumes "n < length cs"
  shows "enc_chunks cs @ post = enc_chunks (take n cs) @ enc_chunk (cs ! n) @ enc_chunks (drop (Suc n) cs) @ post"
proof -
  have "enc_chunks cs = enc_chunks (take n cs @ cs ! n # drop (Suc n) cs)"
    using id_take_nth_drop [OF assms] by simp
  then show ?thesis by simp
qed

lemma chunks_ok_nth:
  assumes "chunks_ok i off cs" "n < length cs"
  shows "rec_header_ok (fst (cs ! n)) \<and> rh_index (fst (cs ! n)) = i + n
    \<and> rh_offset (fst (cs ! n)) = off + length (enc_chunks (take n cs))
    \<and> rh_data_size (fst (cs ! n)) = length (snd (cs ! n))"
proof -
  have "chunks_ok i off (take n cs @ cs ! n # drop (Suc n) cs)"
    using assms id_take_nth_drop [OF assms(2)] by simp
  then show ?thesis
    using assms(2) by (simp add: chunks_ok_append)
qed

text \<open>Rewriting the state of chunk \<open>n\<close>.\<close>

lemma poke_state_nth:
  assumes "n < length cs"
  shows "poke (enc_chunks cs @ post) (length (enc_chunks (take n cs)) + 16) (nat_bytes 4 st)
    = Some (enc_chunks (cs[n := with_state st (cs ! n)]) @ post)"
  using poke_state [OF refl, of "enc_chunks (take n cs)" "cs ! n" "enc_chunks (drop (Suc n) cs) @ post" st]
    split_chunk [OF assms] assms
  by (simp add: upd_conv_take_nth_drop)

lemma chunks_ok_update:
  assumes "chunks_ok i off cs" "n < length cs" "st < 2 ^ 32"
  shows "chunks_ok i off (cs[n := with_state st (cs ! n)])"
  using assms chunks_ok_with_state [of i off "take n cs" "cs ! n" "drop (Suc n) cs" st]
  by (simp add: upd_conv_take_nth_drop id_take_nth_drop [symmetric])

lemma enc_update_length [simp]:
  "n < length cs \<Longrightarrow> length (enc_chunks (cs[n := with_state st (cs ! n)])) = length (enc_chunks cs)"
proof -
  assume n: "n < length cs"
  then have "length (enc_chunks (take n cs @ cs ! n # drop (Suc n) cs)) = length (enc_chunks cs)"
    by (simp add: id_take_nth_drop [symmetric])
  then show ?thesis
    using n by (simp add: upd_conv_take_nth_drop)
qed

end
