(* ===== verification/BlockSpec.thy ===== *)
theory BlockSpec
  imports BlockLayout
begin

section \<open>What a data block promises\<close>

text \<open>
  The abstract state of a block is the list of its committed chunks and the list of the chunks
  the running transaction has appended. \<open>blk_repr\<close> relates it to the mapped file and the header,
  \<open>blk_tx\<close> to the rollback information, and \<open>blk_held\<close> says that the calling thread runs the
  transaction and holds the lock. The lemmas show that write appends to the pending chunks, that
  commit turns them into committed ones and that rollback forgets them.
\<close>

subsection \<open>A transaction of the calling thread\<close>

definition blk_held :: "blk_env \<Rightarrow> string \<Rightarrow> base_block \<Rightarrow> bool" where
  "blk_held v tx b \<longleftrightarrow> bb_available b \<and> tx \<noteq> [] \<and>
     (\<exists>n. bb_lock b = Some n \<and> wc_session (be_call v) n (bb_client b)
        \<and> wc_touch (be_call v) n (bb_client b) = bb_client b) \<and>
     (\<exists>ri. bb_rollback b = Some ri \<and> ri_in_transaction ri \<and> ri_transaction_id ri = tx)"

definition blk_session :: "blk_env \<Rightarrow> string \<Rightarrow> base_block \<Rightarrow> bool" where
  "blk_session v tx b \<longleftrightarrow> bb_available b \<and> tx \<noteq> [] \<and>
     (\<exists>n. bb_lock b = Some n \<and> wc_session (be_call v) n (bb_client b)) \<and>
     (\<exists>ri. bb_rollback b = Some ri \<and> ri_in_transaction ri \<and> ri_transaction_id ri = tx)"

definition blk_touch :: "blk_env \<Rightarrow> base_block \<Rightarrow> base_block" where
  "blk_touch v b = (case bb_lock b of None \<Rightarrow> b
     | Some n \<Rightarrow> b\<lparr>bb_client := wc_touch (be_call v) n (bb_client b)\<rparr>)"

lemma touch_frame [simp]:
  "bb_available (blk_touch v b) = bb_available b" "bb_lock (blk_touch v b) = bb_lock b"
  "bb_header (blk_touch v b) = bb_header b" "bb_data (blk_touch v b) = bb_data b"
  "bb_write_ptr (blk_touch v b) = bb_write_ptr b" "bb_updateable (blk_touch v b) = bb_updateable b"
  "bb_rollback (blk_touch v b) = bb_rollback b" "bb_deletes (blk_touch v b) = bb_deletes b"
  "bb_compression (blk_touch v b) = bb_compression b"
  by (auto simp: blk_touch_def split: option.splits)

lemma env_near_refl: "env_near e e"
  using W_LOCK_EXPIRY_pos by (simp add: env_near_def)

lemma session_in_tx: "blk_session v tx b \<Longrightarrow> blk_in_transaction v b = (Inr True, blk_touch v b)"
  by (auto simp: blk_session_def blk_in_transaction_def blk_has_lock_def blk_lock_call_def
      wc_has_session blk_touch_def c_bind_def c_ret_def)

lemma session_touch_held: "blk_session v tx b \<Longrightarrow> blk_held v tx (blk_touch v b)"
  using env_near_refl
  by (auto simp: blk_session_def blk_held_def blk_touch_def wc_touch_touch wc_session_touch)

lemma held_session: "blk_held v tx b \<Longrightarrow> blk_session v tx b"
  by (auto simp: blk_session_def blk_held_def)

named_theorems held_simps

lemma held_touch [held_simps]: "blk_held v tx b \<Longrightarrow> blk_touch v b = b"
  by (auto simp: blk_held_def blk_touch_def)

lemma held_in_tx [held_simps]: "blk_held v tx b \<Longrightarrow> blk_in_transaction v b = (Inr True, b)"
  using session_in_tx [OF held_session] held_touch by metis

lemma held_facts:
  assumes "blk_held v tx b"
  shows "bb_available b" "tx \<noteq> []" "\<exists>ri. bb_rollback b = Some ri \<and> ri_in_transaction ri \<and> ri_transaction_id ri = tx"
  using assms by (auto simp: blk_held_def)

lemma held_check_txid [held_simps]: "blk_held v tx b \<Longrightarrow> blk_check_txid tx b = (Inr (), b)"
  by (auto simp: blk_held_def blk_check_txid_def)

lemma held_cong:
  assumes "blk_held v tx b" "bb_available b' = bb_available b" "bb_lock b' = bb_lock b"
    "bb_client b' = bb_client b"
    "\<exists>ri. bb_rollback b' = Some ri \<and> ri_in_transaction ri \<and> ri_transaction_id ri = tx"
  shows "blk_held v tx b'"
  using assms by (simp add: blk_held_def)

lemma held_has_lock [held_simps]: "blk_held v tx b \<Longrightarrow> blk_has_lock v b = (Inr True, b)"
  by (auto simp: blk_held_def blk_has_lock_def blk_lock_call_def wc_has_session)

text \<open>Commands that change nothing but the lock client, such as all questions about the
  transaction and the space.\<close>

definition only_client :: "('a, base_block) cmd \<Rightarrow> bool" where
  "only_client m \<longleftrightarrow> (\<forall>b r b'. m b = (r, b') \<longrightarrow> (\<exists>c. b' = b\<lparr>bb_client := c\<rparr>))"

named_theorems only_client_intros

lemma only_clientD: "only_client m \<Longrightarrow> m b = (r, b') \<Longrightarrow> \<exists>c. b' = b\<lparr>bb_client := c\<rparr>"
  by (auto simp: only_client_def)

lemma only_clientI: "(\<And>b. \<exists>c. snd (m b) = b\<lparr>bb_client := c\<rparr>) \<Longrightarrow> only_client m"
  by (metis only_client_def snd_conv)

lemma only_client_same: "(\<And>b. snd (m b) = b) \<Longrightarrow> only_client m"
  by (rule only_clientI) (metis base_block.surjective base_block.update_convs(11))

lemma only_client_basic [only_client_intros]:
  "only_client (c_ret x)" "only_client (c_throw e)" "only_client (c_check e P)" "only_client (c_get g)"
  "only_client (blk_check_txid tx)"
  by (rule only_client_same, simp add: cmd_defs blk_check_txid_def split: option.split)+

lemma only_client_lock_call [only_client_intros]: "only_client (blk_lock_call f)"
proof (rule only_clientI)
  fix b :: base_block
  show "\<exists>c. snd (blk_lock_call f b) = b\<lparr>bb_client := c\<rparr>"
  proof (cases "bb_lock b")
    case None
    then show ?thesis
      by (intro exI [of _ "bb_client b"]) (simp add: blk_lock_call_def)
  next
    case (Some n)
    then show ?thesis
      by (intro exI [of _ "snd (f n (bb_client b))"]) (simp add: blk_lock_call_def split: prod.split)
  qed
qed

lemma only_client_bind [only_client_intros]:
  assumes "only_client m" "\<And>x. only_client (k x)"
  shows "only_client (c_bind m k)"
  unfolding only_client_def
proof (intro allI impI)
  fix b r b'
  assume "c_bind m k b = (r, b')"
  then show "\<exists>c. b' = b\<lparr>bb_client := c\<rparr>"
  proof (cases rule: c_bind_cases)
    case (fail e)
    then show ?thesis using assms(1) only_clientD by blast
  next
    case (ok x s1)
    then obtain c where "s1 = b\<lparr>bb_client := c\<rparr>" using assms(1) only_clientD by blast
    moreover obtain c' where "b' = s1\<lparr>bb_client := c'\<rparr>" using ok(2) assms(2) only_clientD by blast
    ultimately show ?thesis by auto
  qed
qed

lemma only_client_if [only_client_intros]:
  "only_client m \<Longrightarrow> only_client m' \<Longrightarrow> only_client (if c then m else m')"
  by simp

lemma only_client_assert [only_client_intros]: "only_client m \<Longrightarrow> only_client (c_assert e m)"
  unfolding c_assert_def by (intro only_client_intros)

lemma only_client_in_tx [only_client_intros]: "only_client (blk_in_transaction v)"
proof -
  have k: "only_client (c_bind (blk_has_lock v) (\<lambda>h.
               if h then c_ret True
               else c_bind blk_is_lock_reset (\<lambda>r.
                    if r then c_bind (blk_reregister v) (\<lambda>_. blk_has_lock v)
                    else c_ret False)))"
    unfolding blk_has_lock_def blk_is_lock_reset_def blk_reregister_def
    by (intro only_client_intros)
  show ?thesis
  proof (rule only_clientI)
    fix b :: base_block
    have same: "\<exists>c. b = b\<lparr>bb_client := c\<rparr>"
      by (rule exI [of _ "bb_client b"]) simp
    show "\<exists>c. snd (blk_in_transaction v b) = b\<lparr>bb_client := c\<rparr>"
    proof (cases "\<exists>ri. bb_rollback b = Some ri \<and> ri_in_transaction ri")
      case True
      then show ?thesis
        using only_clientD [OF k, of b] by (auto simp: blk_in_transaction_def) (metis prod.collapse)
    next
      case False
      then have "snd (blk_in_transaction v b) = b"
        by (auto simp: blk_in_transaction_def split: option.split)
      then show ?thesis using same by simp
    qed
  qed
qed

lemma in_tx_true:
  "blk_in_transaction v b = (Inr True, b') \<Longrightarrow> \<exists>ri. bb_rollback b = Some ri \<and> ri_in_transaction ri"
  by (auto simp: blk_in_transaction_def split: option.splits if_splits)

lemma only_client_has_space [only_client_intros]: "only_client (blk_has_space v n)"
  unfolding blk_has_space_def blk_get_free_space_def by (intro only_client_intros)

lemma only_client_writeable [only_client_intros]: "only_client blk_is_writeable" "only_client blk_is_updateable"
  unfolding blk_is_writeable_def blk_is_updateable_def by (intro only_client_intros)+

subsection \<open>Representation\<close>

definition payload_bytes :: "chunk list \<Rightarrow> nat" where
  "payload_bytes cs = sum_list (map (\<lambda>c. length (snd c)) cs)"

definition blk_repr :: "base_block \<Rightarrow> chunk list \<Rightarrow> chunk list \<Rightarrow> bool" where
  "blk_repr b cs ps \<longleftrightarrow>
     (\<exists>post. bb_data b = enc_chunks (cs @ ps) @ post)
     \<and> chunks_ok (bh_start_index (bb_header b)) 0 (cs @ ps)
     \<and> bh_start_index (bb_header b) + length (bb_data b) < 2 ^ 63
     \<and> bh_write_offset (bb_header b) = length (enc_chunks cs)
     \<and> bh_last_index (bb_header b) = bh_start_index (bb_header b) + length cs
     \<and> bh_used_bytes (bb_header b) = payload_bytes cs
     \<and> bh_total_records (bb_header b) = length cs mod 2 ^ 32
     \<and> (\<forall>c \<in> set cs. rh_state (fst c) = R_READABLE \<or> rh_state (fst c) = R_DELETED)
     \<and> (\<forall>c \<in> set ps. rh_state (fst c) = R_DIRTY)
     \<and> \<not> bh_compressed (bb_header b) \<and> \<not> bh_encrypted (bb_header b)"

definition blk_tx :: "base_block \<Rightarrow> chunk list \<Rightarrow> chunk list \<Rightarrow> bool" where
  "blk_tx b cs ps \<longleftrightarrow> (\<exists>ri. bb_rollback b = Some ri
     \<and> ri_write_offset ri = length (enc_chunks (cs @ ps))
     \<and> ri_last_index ri = bh_start_index (bb_header b) + length cs + length ps
     \<and> ri_used_bytes ri = payload_bytes ps)"

lemma payload_bytes_simps [simp]:
  "payload_bytes [] = 0" "payload_bytes (c # cs) = length (snd c) + payload_bytes cs"
  "payload_bytes (cs @ ds) = payload_bytes cs + payload_bytes ds"
  by (simp_all add: payload_bytes_def)

lemma payload_le_enc: "payload_bytes cs \<le> length (enc_chunks cs)"
  by (induction cs) auto

lemma repr_touch [simp]: "blk_repr (blk_touch v b) cs ps = blk_repr b cs ps"
  by (simp add: blk_repr_def)

lemma tx_touch [simp]: "blk_tx (blk_touch v b) cs ps = blk_tx b cs ps"
  by (simp add: blk_tx_def)

text \<open>Setting up a transaction starts with no pending chunks; the bytes after the committed ones
  are forgotten.\<close>

lemma repr_forget: "blk_repr b cs ps \<Longrightarrow> blk_repr b cs []"
  by (auto simp: blk_repr_def chunks_ok_append)

lemma setup_repr:
  assumes "blk_repr b cs []"
  shows "blk_repr (blk_setup_transaction v tx b) cs []" and "blk_tx (blk_setup_transaction v tx b) cs []"
  using assms by (simp_all add: blk_repr_def blk_tx_def blk_setup_transaction_def)

subsection \<open>Writing\<close>

text \<open>The record that \<open>write\<close> appends.\<close>

definition new_chunk :: "blk_env \<Rightarrow> base_block \<Rightarrow> chunk list \<Rightarrow> chunk list \<Rightarrow> nat \<Rightarrow> u8 list \<Rightarrow> chunk" where
  "new_chunk v b cs ps unc d =
     (\<lparr>rh_index = bh_start_index (bb_header b) + length cs + length ps,
       rh_offset = length (enc_chunks (cs @ ps)), rh_state = R_DIRTY, rh_data_size = length d,
       rh_uncompressed_size = unc, rh_timestamp = unat (be_now v)\<rparr>, d)"

text \<open>\<open>blk_fits\<close>: the write pointer is set, the block is open for writing, the space check passes
  and the record really fits into the mapping.\<close>

definition blk_fits :: "blk_env \<Rightarrow> base_block \<Rightarrow> chunk list \<Rightarrow> nat \<Rightarrow> bool" where
  "blk_fits v b qs n \<longleftrightarrow> bb_write_ptr b \<and> bb_updateable b \<and> bh_write_state (bb_header b) = WRITABLE
     \<and> length (enc_chunks qs) + REC_HEADER_SIZE + n \<le> length (bb_data b)"

text \<open>The three stores of a record write.\<close>

lemma write_pokes:
  assumes "length pre = off" "REC_HEADER_SIZE + length d \<le> length post"
  shows "\<exists>m1 m2. poke (pre @ post) off (replicate REC_HEADER_SIZE 0) = Some m1
    \<and> poke m1 off (enc_rec_header h) = Some m2
    \<and> poke m2 (off + REC_HEADER_SIZE) d = Some (pre @ enc_chunk (h, d) @ drop (REC_HEADER_SIZE + length d) post)"
proof (intro exI conjI)
  let ?p = "drop REC_HEADER_SIZE post"
  show "poke (pre @ post) off (replicate REC_HEADER_SIZE 0) = Some (pre @ replicate REC_HEADER_SIZE 0 @ ?p)"
    using poke_end' [OF assms(1), of "replicate REC_HEADER_SIZE 0" post] assms(2) by simp
  show "poke (pre @ replicate REC_HEADER_SIZE 0 @ ?p) off (enc_rec_header h) = Some (pre @ enc_rec_header h @ ?p)"
    by (rule poke_at [OF assms(1)]) simp
  have "poke ((pre @ enc_rec_header h) @ ?p) (off + REC_HEADER_SIZE) d
      = Some ((pre @ enc_rec_header h) @ d @ drop (length d) ?p)"
    by (rule poke_end') (use assms in simp_all)
  then show "poke (pre @ enc_rec_header h @ ?p) (off + REC_HEADER_SIZE) d
      = Some (pre @ enc_chunk (h, d) @ drop (REC_HEADER_SIZE + length d) post)"
    by (simp add: enc_chunk_def add.commute)
qed

lemma held_mods [held_simps]:
  assumes "blk_held v tx b"
  shows "blk_held v tx (b\<lparr>bb_data := m\<rparr>)" "blk_held v tx (b\<lparr>bb_header := h\<rparr>)"
    "blk_held v tx (b\<lparr>bb_deletes := ds\<rparr>)" "blk_held v tx (blk_update_write_usage v' n b)"
    "blk_held v tx (blk_update_read_usage v' n b)"
  using assms
  by (simp_all add: blk_held_def blk_update_write_usage_def blk_update_read_usage_def
      blk_flush_write_usage_def Let_def)

lemma held_ri_update:
  assumes "blk_held v tx b" "\<And>r. ri_in_transaction (f r) = ri_in_transaction r"
    "\<And>r. ri_transaction_id (f r) = ri_transaction_id r"
  shows "blk_held v tx (blk_ri_update f b)"
  using assms by (auto simp: blk_held_def blk_ri_update_def)

lemma usage_frame [simp]:
  "bb_header (blk_update_write_usage v n b) = bb_header b"
  "bb_data (blk_update_write_usage v n b) = bb_data b"
  "bb_rollback (blk_update_write_usage v n b) = bb_rollback b"
  "bb_deletes (blk_update_write_usage v n b) = bb_deletes b"
  "bb_write_ptr (blk_update_write_usage v n b) = bb_write_ptr b"
  "bb_updateable (blk_update_write_usage v n b) = bb_updateable b"
  "bb_lock (blk_update_write_usage v n b) = bb_lock b"
  "bb_client (blk_update_write_usage v n b) = bb_client b"
  "bb_available (blk_update_write_usage v n b) = bb_available b"
  "bb_header (blk_update_read_usage v n b) = bb_header b"
  "bb_data (blk_update_read_usage v n b) = bb_data b"
  "bb_rollback (blk_update_read_usage v n b) = bb_rollback b"
  "bb_deletes (blk_update_read_usage v n b) = bb_deletes b"
  "bb_available (blk_update_read_usage v n b) = bb_available b"
  by (simp_all add: blk_update_write_usage_def blk_update_read_usage_def blk_flush_write_usage_def Let_def)

lemma ri_update_frame [simp]:
  "bb_header (blk_ri_update f b) = bb_header b" "bb_data (blk_ri_update f b) = bb_data b"
  "bb_rollback (blk_ri_update f b) = map_option f (bb_rollback b)"
  "bb_deletes (blk_ri_update f b) = bb_deletes b" "bb_write_ptr (blk_ri_update f b) = bb_write_ptr b"
  "bb_updateable (blk_ri_update f b) = bb_updateable b"
  by (simp_all add: blk_ri_update_def)

text \<open>What the parts of a write do in a state where the transaction is held.\<close>

lemma held_write_ptr:
  assumes "blk_held v tx b" "bb_write_ptr b" "bb_rollback b = Some ri"
  shows "blk_get_write_ptr v b = (Inr (ri_write_offset ri), b)"
    and "blk_get_write_offset v b = (Inr (ri_write_offset ri), b)"
  using held_in_tx [OF assms(1)] assms(2,3)
  by (simp_all add: blk_get_write_ptr_def blk_get_write_offset_def blk_ri_def cmd_simps)

lemma held_write_offset:
  assumes "blk_held v tx b" "bb_rollback b = Some ri"
  shows "blk_get_write_offset v b = (Inr (ri_write_offset ri), b)"
  using held_in_tx [OF assms(1)] assms(2)
  by (simp add: blk_get_write_offset_def blk_ri_def cmd_simps)

lemma held_next_index:
  assumes "blk_held v tx b" "bb_rollback b = Some ri"
  shows "blk_get_next_index v b = (Inr (ri_last_index ri),
    blk_ri_update (\<lambda>r. r\<lparr>ri_last_index := add64 (ri_last_index r) 1\<rparr>) b)"
  using held_in_tx [OF assms(1)] assms(2)
  by (simp add: blk_get_next_index_def blk_ri_def cmd_simps)

lemma session_has_space:
  assumes "blk_session v tx b"
  shows "blk_has_space v n b = (fst (blk_has_space v n b), blk_touch v b)"
  using session_in_tx [OF assms] assms
  by (simp add: blk_has_space_def blk_get_free_space_def cmd_simps blk_session_def)

definition written :: "blk_env \<Rightarrow> base_block \<Rightarrow> mem \<Rightarrow> rollback_info \<Rightarrow> nat \<Rightarrow> base_block" where
  "written v b m ri n = (let b1 = blk_update_write_usage v n (b\<lparr>bb_data := m, bb_rollback := Some ri\<rparr>) in
     b1\<lparr>bb_header := (bb_header b1)\<lparr>bh_update_time := be_now v\<rparr>\<rparr>)"

lemma write_record0_eval:
  assumes ses: "blk_session v tx b" and space: "fst (blk_has_space v (length d) b) = Inr True"
    and wr: "bb_write_ptr b" "bb_updateable b" "bh_write_state (bb_header b) = WRITABLE"
    and ri: "bb_rollback b = Some ri" and off: "ri_write_offset ri = off"
    and p: "poke (bb_data b) off (replicate REC_HEADER_SIZE 0) = Some m1"
      "poke m1 off (enc_rec_header \<lparr>rh_index = ri_last_index ri, rh_offset = off, rh_state = R_DIRTY,
         rh_data_size = length d, rh_uncompressed_size = unc, rh_timestamp = unat (be_now v)\<rparr>) = Some m2"
      "poke m2 (off + REC_HEADER_SIZE) d = Some m3"
  shows "blk_write_record0 v (Some d) tx unc b = (Inr off, written v (blk_touch v b) m3
     (ri\<lparr>ri_last_index := add64 (ri_last_index ri) 1, ri_used_bytes := add64 (ri_used_bytes ri) (length d),
         ri_write_offset := add64 off (REC_HEADER_SIZE + length d)\<rparr>) (REC_HEADER_SIZE + length d))"
proof -
  define b0 where "b0 = blk_touch v b"
  have h0: "blk_held v tx b0" using session_touch_held [OF ses] by (simp add: b0_def)
  define b1 where "b1 = b0\<lparr>bb_data := m1\<rparr>"
  have h1: "blk_held v tx b1" using h0 by (simp add: b1_def held_simps)
  define b2 where "b2 = blk_ri_update (\<lambda>r. r\<lparr>ri_last_index := add64 (ri_last_index r) 1\<rparr>) b1"
  have h2: "blk_held v tx b2" using h1 unfolding b2_def by (rule held_ri_update) simp_all
  have r0: "bb_rollback b0 = Some ri" "bb_rollback b1 = Some ri" "bb_write_ptr b0"
    using ri wr by (simp_all add: b0_def b1_def)
  have r2: "bb_rollback b2 = Some (ri\<lparr>ri_last_index := add64 (ri_last_index ri) 1\<rparr>)"
    using r0 by (simp add: b2_def)
  have av: "bb_available b" using ses by (simp add: blk_session_def)
  have sp: "blk_has_space v (length d) b = (Inr True, b0)"
    using session_has_space [OF ses, of "length d"] space by (simp add: b0_def)
  have w: "blk_is_writeable b = (Inr True, b)"
    using av wr by (simp add: blk_is_writeable_def cmd_simps)
  have pk: "blk_poke off (replicate REC_HEADER_SIZE 0) b0 = (Inr (), b1)"
    using p(1) by (simp add: blk_poke_def b0_def b1_def)
  have pk2: "blk_poke off (enc_rec_header \<lparr>rh_index = ri_last_index ri, rh_offset = off, rh_state = R_DIRTY,
         rh_data_size = length d, rh_uncompressed_size = unc, rh_timestamp = unat (be_now v)\<rparr>) b2
      = (Inr (), b2\<lparr>bb_data := m2\<rparr>)"
    using p(2) by (simp add: blk_poke_def b1_def b2_def)
  have pk3: "blk_poke (off + REC_HEADER_SIZE) d (b2\<lparr>bb_data := m2\<rparr>) = (Inr (), b2\<lparr>bb_data := m3\<rparr>)"
    using p(3) by (simp add: blk_poke_def)
  note steps = held_in_tx [OF h0] held_check_txid [OF h0] held_write_ptr(1) [OF h0 r0(3,1)]
    held_next_index [OF h1 r0(2), folded b2_def] held_write_offset [OF h2 r2]
  have "blk_write_record0 v (Some d) tx unc b = (Inr off,
      (let b4 = blk_update_write_usage v (REC_HEADER_SIZE + length d)
        (blk_ri_update (\<lambda>r. r\<lparr>ri_used_bytes := add64 (ri_used_bytes r) (length d),
         ri_write_offset := add64 (ri_write_offset r) (REC_HEADER_SIZE + length d)\<rparr>) (b2\<lparr>bb_data := m3\<rparr>)) in
       b4\<lparr>bb_header := (bb_header b4)\<lparr>bh_update_time := be_now v\<rparr>\<rparr>))"
    using av off unfolding blk_write_record0_def
    by (simp add: cmd_simps w sp steps pk pk2 pk3 Let_def)
  also have "blk_ri_update (\<lambda>r. r\<lparr>ri_used_bytes := add64 (ri_used_bytes r) (length d),
         ri_write_offset := add64 (ri_write_offset r) (REC_HEADER_SIZE + length d)\<rparr>) (b2\<lparr>bb_data := m3\<rparr>)
      = b0\<lparr>bb_data := m3, bb_rollback := Some (ri\<lparr>ri_last_index := add64 (ri_last_index ri) 1,
          ri_used_bytes := add64 (ri_used_bytes ri) (length d),
          ri_write_offset := add64 off (REC_HEADER_SIZE + length d)\<rparr>)\<rparr>"
    using r0 off by (simp add: blk_ri_update_def b2_def b1_def)
  finally show ?thesis
    by (simp add: written_def b0_def Let_def)
qed

text \<open>The lock object has a transaction id of its own, which \<open>release_lock\<close> asks for.\<close>

definition blk_releasable :: "blk_env \<Rightarrow> base_block \<Rightarrow> bool" where
  "blk_releasable v b \<longleftrightarrow> be_got v \<and> (\<exists>n l. bb_lock b = Some n \<and> wc_find (bb_client b) n = Some l \<and> wk_txn_id l \<noteq> [])"

definition blk_unlocked :: "base_block \<Rightarrow> bool" where
  "blk_unlocked b \<longleftrightarrow> (\<exists>n l. bb_lock b = Some n \<and> wc_find (bb_client b) n = Some l
     \<and> wk_unlocked (l, wc_table (bb_client b)) \<and> wk_txn_id l = [])"

lemma releasable_cong:
  "bb_lock b' = bb_lock b \<Longrightarrow> bb_client b' = bb_client b \<Longrightarrow> blk_releasable v b' = blk_releasable v b"
  by (simp add: blk_releasable_def)

lemma releasable_touch [simp]: "blk_releasable v (blk_touch v b) = blk_releasable v b"
  by (auto simp: blk_releasable_def blk_touch_def split: option.splits)

text \<open>What a write leaves alone.\<close>

definition blk_frame :: "base_block \<Rightarrow> base_block \<Rightarrow> bool" where
  "blk_frame b b' \<longleftrightarrow> (\<exists>t. bb_header b' = (bb_header b)\<lparr>bh_update_time := t\<rparr>)
     \<and> length (bb_data b') = length (bb_data b) \<and> bb_write_ptr b' = bb_write_ptr b
     \<and> bb_updateable b' = bb_updateable b \<and> bb_deletes b' = bb_deletes b \<and> bb_lock b' = bb_lock b"

lemma frame_trans:
  assumes "blk_frame a b" "blk_frame b c"
  shows "blk_frame a c"
proof -
  obtain t u where t: "bb_header b = (bb_header a)\<lparr>bh_update_time := t\<rparr>"
    and u: "bb_header c = (bb_header b)\<lparr>bh_update_time := u\<rparr>"
    using assms unfolding blk_frame_def by blast
  have "bb_header c = (bb_header a)\<lparr>bh_update_time := u\<rparr>"
    unfolding u t by simp
  then show ?thesis
    using assms unfolding blk_frame_def by metis
qed

lemma frame_fields:
  assumes "blk_frame b b'"
  shows "bh_start_index (bb_header b') = bh_start_index (bb_header b)"
    "bh_last_index (bb_header b') = bh_last_index (bb_header b)"
    "bh_block_size (bb_header b') = bh_block_size (bb_header b)"
    "bh_used_bytes (bb_header b') = bh_used_bytes (bb_header b)"
    "bh_write_state (bb_header b') = bh_write_state (bb_header b)"
    "bh_deleted_records (bb_header b') = bh_deleted_records (bb_header b)"
proof -
  obtain t where "bb_header b' = (bb_header b)\<lparr>bh_update_time := t\<rparr>"
    using assms unfolding blk_frame_def by blast
  then show "bh_start_index (bb_header b') = bh_start_index (bb_header b)"
    "bh_last_index (bb_header b') = bh_last_index (bb_header b)"
    "bh_block_size (bb_header b') = bh_block_size (bb_header b)"
    "bh_used_bytes (bb_header b') = bh_used_bytes (bb_header b)"
    "bh_write_state (bb_header b') = bh_write_state (bb_header b)"
    "bh_deleted_records (bb_header b') = bh_deleted_records (bb_header b)"
    by simp_all
qed

lemma frame_fits:
  assumes "blk_frame b b'"
  shows "blk_fits v b' qs n = blk_fits v b qs n"
proof -
  have "length (bb_data b') = length (bb_data b)" "bb_write_ptr b' = bb_write_ptr b"
    "bb_updateable b' = bb_updateable b"
    using assms unfolding blk_frame_def by blast+
  then show ?thesis
    unfolding blk_fits_def by (simp add: frame_fields [OF assms])
qed

lemma written_simps [simp]:
  "bb_data (written v b m ri n) = m" "bb_rollback (written v b m ri n) = Some ri"
  "bb_header (written v b m ri n) = (bb_header b)\<lparr>bh_update_time := be_now v\<rparr>"
  "bb_write_ptr (written v b m ri n) = bb_write_ptr b"
  "bb_updateable (written v b m ri n) = bb_updateable b"
  "bb_deletes (written v b m ri n) = bb_deletes b" "bb_lock (written v b m ri n) = bb_lock b"
  "bb_client (written v b m ri n) = bb_client b" "bb_available (written v b m ri n) = bb_available b"
  by (simp_all add: written_def Let_def)

lemma written_held:
  assumes "blk_held v tx b" "ri_in_transaction ri" "ri_transaction_id ri = tx"
  shows "blk_held v tx (written v b m ri n)"
  using assms(1) by (rule held_cong) (simp_all add: assms)

lemma new_chunk_ok:
  assumes "blk_repr b cs ps" "blk_fits v b (cs @ ps) (length d)" "unc < 2 ^ 64"
  shows "chunks_ok (bh_start_index (bb_header b)) 0 ((cs @ ps) @ [new_chunk v b cs ps unc d])"
proof -
  have bnd: "bh_start_index (bb_header b) + length (bb_data b) < 2 ^ 63"
    and fit: "length (enc_chunks (cs @ ps)) + REC_HEADER_SIZE + length d \<le> length (bb_data b)"
    using assms by (simp_all add: blk_repr_def blk_fits_def)
  have cnt: "length (cs @ ps) \<le> length (enc_chunks (cs @ ps))"
    using enc_chunks_count [of "cs @ ps"] by (simp add: REC_HEADER_SIZE_def)
  have "unat (be_now v) < 2 ^ 64"
    using unsigned_less [of "be_now v"] by simp
  then have "rec_header_ok (fst (new_chunk v b cs ps unc d))"
    using bnd fit cnt assms(3) by (simp add: rec_header_ok_def new_chunk_def R_DIRTY_def)
  then show ?thesis
    using assms(1) unfolding chunks_ok_append [of _ _ "cs @ ps"]
    by (simp add: blk_repr_def new_chunk_def)
qed

lemma write_record0_spec:
  assumes ses: "blk_session v tx b" and rep: "blk_repr b cs ps" and txr: "blk_tx b cs ps"
    and fits: "blk_fits v b (cs @ ps) (length d)"
    and space: "fst (blk_has_space v (length d) b) = Inr True" and unc: "unc < 2 ^ 64"
  obtains b' where
    "blk_write_record0 v (Some d) tx unc b = (Inr (length (enc_chunks (cs @ ps))), b')"
    "blk_held v tx b'" "blk_repr b' cs (ps @ [new_chunk v b cs ps unc d])"
    "blk_tx b' cs (ps @ [new_chunk v b cs ps unc d])" "blk_frame b b'"
    "blk_releasable v b' = blk_releasable v b"
proof -
  let ?c = "new_chunk v b cs ps unc d" and ?off = "length (enc_chunks (cs @ ps))"
  obtain ri where ri: "bb_rollback b = Some ri" "ri_in_transaction ri" "ri_transaction_id ri = tx"
    using ses by (auto simp: blk_session_def)
  then have ri': "ri_write_offset ri = ?off" "ri_used_bytes ri = payload_bytes ps"
    "ri_last_index ri = bh_start_index (bb_header b) + length cs + length ps"
    using txr by (auto simp: blk_tx_def)
  obtain post where data: "bb_data b = enc_chunks (cs @ ps) @ post"
    using rep by (auto simp: blk_repr_def)
  have room: "REC_HEADER_SIZE + length d \<le> length post"
    using fits data by (simp add: blk_fits_def)
  obtain m1 m2 where p: "poke (bb_data b) ?off (replicate REC_HEADER_SIZE 0) = Some m1"
    "poke m1 ?off (enc_rec_header (fst ?c)) = Some m2"
    "poke m2 (?off + REC_HEADER_SIZE) d =
       Some (enc_chunks (cs @ ps) @ enc_chunk ?c @ drop (REC_HEADER_SIZE + length d) post)"
    using write_pokes [OF refl room, of "enc_chunks (cs @ ps)" "fst ?c"] data
    by (auto simp: new_chunk_def)
  let ?m3 = "enc_chunks (cs @ ps) @ enc_chunk ?c @ drop (REC_HEADER_SIZE + length d) post"
  let ?ri = "ri\<lparr>ri_last_index := add64 (ri_last_index ri) 1, ri_used_bytes := add64 (ri_used_bytes ri) (length d),
         ri_write_offset := add64 ?off (REC_HEADER_SIZE + length d)\<rparr>"
  let ?b = "written v (blk_touch v b) ?m3 ?ri (REC_HEADER_SIZE + length d)"
  have wr: "bb_write_ptr b" "bb_updateable b" "bh_write_state (bb_header b) = WRITABLE"
    using fits by (simp_all add: blk_fits_def)
  have ev: "blk_write_record0 v (Some d) tx unc b = (Inr ?off, ?b)"
    by (rule write_record0_eval [OF ses space wr ri(1) ri'(1) p(1)])
      (use p ri' in \<open>simp_all add: new_chunk_def\<close>)
  have bnd: "bh_start_index (bb_header b) + length (bb_data b) < 2 ^ 63"
    using rep by (simp add: blk_repr_def)
  have fit: "?off + (REC_HEADER_SIZE + length d) \<le> length (bb_data b)"
    using fits by (simp add: blk_fits_def)
  have cnt: "length (cs @ ps) \<le> ?off"
    using enc_chunks_count [of "cs @ ps"] by (simp add: REC_HEADER_SIZE_def)
  have a: "add64 ?off (REC_HEADER_SIZE + length d) = ?off + (REC_HEADER_SIZE + length d)"
    "add64 (ri_last_index ri) 1 = ri_last_index ri + 1"
    "add64 (ri_used_bytes ri) (length d) = ri_used_bytes ri + length d"
    using bnd fit cnt ri' payload_le_enc [of ps] by (simp_all add: add64_small)
  have len: "length ?m3 = length (bb_data b)"
    using room data by (simp add: new_chunk_def)
  show ?thesis
  proof (rule that [OF ev])
    show "blk_held v tx ?b"
      using session_touch_held [OF ses] by (rule written_held) (simp_all add: ri)
    show "blk_tx ?b cs (ps @ [?c])"
      using a ri' by (simp add: blk_tx_def new_chunk_def)
    show "blk_repr ?b cs (ps @ [?c])"
      using rep new_chunk_ok [OF rep fits unc] len bnd
      by (auto simp: blk_repr_def new_chunk_def)
    show "blk_frame b ?b"
      using len by (auto simp: blk_frame_def)
    show "blk_releasable v ?b = blk_releasable v b"
      using releasable_cong [of ?b "blk_touch v b"] by simp
  qed
qed

lemma write_record_spec:
  assumes ses: "blk_session v tx b" and rep: "blk_repr b cs ps" and txr: "blk_tx b cs ps"
    and fits: "blk_fits v b (cs @ ps) (length d)"
    and space: "fst (blk_has_space v (length d) b) = Inr True"
  obtains b' where
    "blk_write_record v (Some d) tx b = (Inr (length (enc_chunks (cs @ ps))), b')"
    "header_at (bb_data b') (length (enc_chunks (cs @ ps))) = Some (fst (new_chunk v b cs ps 0 d))"
    "blk_held v tx b'" "blk_repr b' cs (ps @ [new_chunk v b cs ps 0 d])"
    "blk_tx b' cs (ps @ [new_chunk v b cs ps 0 d])" "blk_frame b b'"
    "blk_releasable v b' = blk_releasable v b"
proof -
  let ?c = "new_chunk v b cs ps 0 d"
  obtain b' where b': "blk_write_record0 v (Some d) tx 0 b = (Inr (length (enc_chunks (cs @ ps))), b')"
    "blk_held v tx b'" "blk_repr b' cs (ps @ [?c])" "blk_tx b' cs (ps @ [?c])" "blk_frame b b'"
    "blk_releasable v b' = blk_releasable v b"
    using write_record0_spec [OF assms] by (metis zero_less_numeral zero_less_power)
  have plain: "bb_available b" "\<not> bh_compressed (bb_header b)" "\<not> bh_encrypted (bb_header b)"
    using ses rep by (simp_all add: blk_session_def blk_repr_def)
  have wr: "blk_write_record v (Some d) tx b = (Inr (length (enc_chunks (cs @ ps))), b')"
    using plain b'(1) by (simp add: blk_write_record_def cmd_simps)
  obtain post where data: "bb_data b' = enc_chunks (cs @ ps) @ enc_chunk ?c @ post"
    using b'(3) by (auto simp: blk_repr_def)
  have "rec_header_ok (fst ?c)"
    using new_chunk_ok [OF rep fits, of 0] by (simp add: chunks_ok_append)
  then have "header_at (bb_data b') (length (enc_chunks (cs @ ps))) = Some (fst ?c)"
    using header_at_chunk [OF _ refl, of ?c "enc_chunks (cs @ ps)" post] data by simp
  then show ?thesis
    using that wr b' by blast
qed

lemma write_spec:
  assumes ses: "blk_session v tx b" and rep: "blk_repr b cs ps" and txr: "blk_tx b cs ps"
    and fits: "blk_fits v b (cs @ ps) (length d)"
    and space: "fst (blk_has_space v (length d) b) = Inr True"
  obtains b' where
    "blk_write v (Some d) tx b = (Inr (bh_last_index (bb_header b) + length ps), b')"
    "blk_held v tx b'" "blk_repr b' cs (ps @ [new_chunk v b cs ps 0 d])"
    "blk_tx b' cs (ps @ [new_chunk v b cs ps 0 d])" "blk_frame b b'"
    "blk_releasable v b' = blk_releasable v b"
proof -
  let ?c = "new_chunk v b cs ps 0 d"
  obtain b' where b': "blk_write_record v (Some d) tx b = (Inr (length (enc_chunks (cs @ ps))), b')"
    "header_at (bb_data b') (length (enc_chunks (cs @ ps))) = Some (fst ?c)"
    "blk_held v tx b'" "blk_repr b' cs (ps @ [?c])" "blk_tx b' cs (ps @ [?c])" "blk_frame b b'"
    "blk_releasable v b' = blk_releasable v b"
    by (rule write_record_spec [OF assms])
  have "bb_available b" using ses by (simp add: blk_session_def)
  then have "blk_write v (Some d) tx b = (Inr (rh_index (fst ?c)), b')"
    using b'(1,2) by (simp add: blk_write_def cmd_simps)
  moreover have "rh_index (fst ?c) = bh_last_index (bb_header b) + length ps"
    using rep by (simp add: new_chunk_def blk_repr_def)
  ultimately show ?thesis
    using that b' by simp
qed

subsection \<open>Reading\<close>

lemma read_record_spec:
  assumes rep: "blk_repr b cs ps" and av: "bb_available b"
    and n: "n \<le> length cs" "n < length (cs @ ps)"
  shows "blk_read_record (bh_start_index (bb_header b) + n) b =
    (Inr (length (enc_chunks (take n (cs @ ps))), fst ((cs @ ps) ! n)), b)"
proof -
  let ?qs = "cs @ ps" and ?s = "bh_start_index (bb_header b)"
  obtain post where data: "bb_data b = enc_chunks ?qs @ post"
    using rep by (auto simp: blk_repr_def)
  have ok: "chunks_ok ?s 0 ?qs" and len: "length (bb_data b) < 2 ^ 64"
    and last: "bh_last_index (bb_header b) = ?s + length cs"
    using rep by (simp_all add: blk_repr_def)
  have w: "walk (bb_data b) ?s n 0 = Inr (length (enc_chunks (take n ?qs)))"
    using walk_chunks [of ?s "[]" ?qs n post] ok n len data by simp
  note c = chunks_ok_nth [OF ok n(2)]
  have h: "header_at (bb_data b) (length (enc_chunks (take n ?qs))) = Some (fst (?qs ! n))"
    using header_at_chunk [OF _ refl, of "?qs ! n" "enc_chunks (take n ?qs)"] c
      split_chunk [OF n(2), of post] data by metis
  show ?thesis
    using av n last w h c unfolding blk_read_record_def
    by (simp add: cmd_simps)
qed

lemma process_record_spec:
  assumes rep: "blk_repr b cs ps" and n: "n < length (cs @ ps)"
  shows "blk_process_record v b (length (enc_chunks (take n (cs @ ps)))) (fst ((cs @ ps) ! n))
    = Inr [snd ((cs @ ps) ! n)]"
proof -
  let ?qs = "cs @ ps"
  obtain post where data: "bb_data b = enc_chunks ?qs @ post"
    using rep by (auto simp: blk_repr_def)
  have "rh_data_size (fst (?qs ! n)) = length (snd (?qs ! n))"
    using rep chunks_ok_nth n by (auto simp: blk_repr_def)
  moreover have "peek (bb_data b) (length (enc_chunks (take n ?qs)) + REC_HEADER_SIZE) (length (snd (?qs ! n)))
      = Some (snd (?qs ! n))"
    using payload_at_chunk [OF refl] split_chunk [OF n, of post] data by metis
  ultimately show ?thesis
    using rep by (simp add: blk_process_record_def blk_repr_def)
qed

lemma read_loop_spec:
  assumes "blk_repr b cs ps" "bb_available b" "n + k = length cs"
  shows "\<exists>bytes. blk_read_loop v st (bh_start_index (bb_header b) + n) count k b =
    (Inr (map snd (take count (filter (\<lambda>c. \<not> read_skips st (fst c)) (drop n cs))), bytes), b)"
  using assms
proof (induction k arbitrary: n count)
  case 0
  then show ?case by (simp add: cmd_simps)
next
  case (Suc k)
  then have n: "n < length cs" by simp
  have rd: "blk_read_record (bh_start_index (bb_header b) + n) b =
      (Inr (length (enc_chunks (take n (cs @ ps))), fst (cs ! n)), b)"
    using read_record_spec [OF Suc.prems(1,2), of n] n by (simp add: nth_append)
  have pr: "blk_process_record v b (length (enc_chunks (take n (cs @ ps)))) (fst (cs ! n)) = Inr [snd (cs ! n)]"
    using process_record_spec [OF Suc.prems(1), of n v] n by (simp add: nth_append)
  have dr: "drop n cs = cs ! n # drop (Suc n) cs"
    using n by (simp add: Cons_nth_drop_Suc)
  show ?case
  proof (cases "count = 0")
    case True
    then show ?thesis by (simp add: cmd_simps)
  next
    case False
    then obtain m where m: "count = Suc m" by (cases count) auto
    obtain b1 where ih1: "blk_read_loop v st (bh_start_index (bb_header b) + Suc n) count k b =
        (Inr (map snd (take count (filter (\<lambda>c. \<not> read_skips st (fst c)) (drop (Suc n) cs))), b1), b)"
      using Suc.IH [of "Suc n" count] Suc.prems by auto
    obtain b2 where ih2: "blk_read_loop v st (bh_start_index (bb_header b) + Suc n) m k b =
        (Inr (map snd (take m (filter (\<lambda>c. \<not> read_skips st (fst c)) (drop (Suc n) cs))), b2), b)"
      using Suc.IH [of "Suc n" m] Suc.prems by auto
    show ?thesis
      using False rd pr ih1 ih2 dr m
      by (cases "read_skips st (fst (cs ! n))") (simp_all add: cmd_simps)
  qed
qed

text \<open>
  A read returns the payloads of the committed chunks from its index on, at most \<open>count\<close> of them;
  only a read of the deleted or of the dirty records looks at the state.
\<close>

lemma read_spec:
  assumes rep: "blk_repr b cs ps" and av: "bb_available b" and n: "n \<le> length cs" and st: "st \<noteq> R_FREE"
  obtains b' where "blk_read v (bh_start_index (bb_header b) + n) count st b =
      (Inr (map snd (take count (filter (\<lambda>c. \<not> read_skips st (fst c)) (drop n cs)))), b')"
    "blk_repr b' cs ps" "bb_data b' = bb_data b" "bb_header b' = bb_header b"
    "bb_rollback b' = bb_rollback b" "bb_available b'"
proof -
  have last: "bh_last_index (bb_header b) - (bh_start_index (bb_header b) + n) = length cs - n"
    using rep by (simp add: blk_repr_def)
  obtain bytes where lp: "blk_read_loop v st (bh_start_index (bb_header b) + n) count (length cs - n) b =
    (Inr (map snd (take count (filter (\<lambda>c. \<not> read_skips st (fst c)) (drop n cs))), bytes), b)"
    using read_loop_spec [OF rep av, of n "length cs - n" v st count] n by auto
  have ev: "blk_read v (bh_start_index (bb_header b) + n) count st b =
      (Inr (map snd (take count (filter (\<lambda>c. \<not> read_skips st (fst c)) (drop n cs)))),
       if bytes > 0 then blk_update_read_usage v bytes b else b)"
    using av st last lp unfolding blk_read_def by (simp add: cmd_simps)
  show ?thesis
    by (rule that [OF ev]) (use rep av in \<open>simp_all add: blk_repr_def\<close>)
qed

subsection \<open>Committing\<close>

definition mark :: "nat \<Rightarrow> nat list \<Rightarrow> chunk list \<Rightarrow> chunk list" where
  "mark s ds cs = fold (\<lambda>i qs. qs[i - s := with_state R_DELETED (qs ! (i - s))]) ds cs"

lemma mark_simps [simp]:
  "mark s [] cs = cs"
  "mark s (i # ds) cs = mark s ds (cs[i - s := with_state R_DELETED (cs ! (i - s))])"
  by (simp_all add: mark_def)

lemma length_mark [simp]: "length (mark s ds cs) = length cs"
  by (induction ds arbitrary: cs) auto

lemma nth_mark:
  assumes "n < length cs" "\<forall>i \<in> set ds. s \<le> i \<and> i < s + length cs"
  shows "mark s ds cs ! n = (if s + n \<in> set ds then with_state R_DELETED (cs ! n) else cs ! n)"
  using assms
  by (induction ds arbitrary: cs) (auto simp: nth_list_update)

lemma payload_bytes_update [simp]:
  "n < length cs \<Longrightarrow> payload_bytes (cs[n := with_state st (cs ! n)]) = payload_bytes cs"
proof -
  assume n: "n < length cs"
  then have "payload_bytes (take n cs @ cs ! n # drop (Suc n) cs) = payload_bytes cs"
    by (simp add: id_take_nth_drop [symmetric])
  then show ?thesis
    using n by (simp add: upd_conv_take_nth_drop)
qed

lemma repr_set_state:
  assumes rep: "blk_repr b cs ps" and n: "n < length cs" and st: "st = R_READABLE \<or> st = R_DELETED"
  shows "\<exists>m. poke (bb_data b) (length (enc_chunks (take n (cs @ ps))) + 16) (nat_bytes 4 st) = Some m
    \<and> blk_repr (b\<lparr>bb_data := m\<rparr>) (cs[n := with_state st (cs ! n)]) ps"
proof -
  let ?cs = "cs[n := with_state st (cs ! n)]"
  obtain post where data: "bb_data b = enc_chunks (cs @ ps) @ post"
    using rep by (auto simp: blk_repr_def)
  have u: "(cs @ ps)[n := with_state st ((cs @ ps) ! n)] = ?cs @ ps"
    using n by (simp add: list_update_append nth_append)
  have n': "n < length (cs @ ps)" and st32: "st < 2 ^ 32"
    using n st by (auto simp: record_states)
  have pk: "poke (bb_data b) (length (enc_chunks (take n (cs @ ps))) + 16) (nat_bytes 4 st)
      = Some (enc_chunks (?cs @ ps) @ post)"
    using poke_state_nth [OF n', of post st] u data by simp
  have ok: "chunks_ok (bh_start_index (bb_header b)) 0 (?cs @ ps)"
    using chunks_ok_update [OF _ n' st32] u rep by (auto simp: blk_repr_def)
  have states: "\<forall>c \<in> set ?cs. rh_state (fst c) = R_READABLE \<or> rh_state (fst c) = R_DELETED"
    using rep st by (auto simp: blk_repr_def dest!: set_update_subset_insert [THEN subsetD])
  have len: "length (enc_chunks (?cs @ ps) @ post) = length (bb_data b)"
    using data n by simp
  have "blk_repr (b\<lparr>bb_data := enc_chunks (?cs @ ps) @ post\<rparr>) ?cs ps"
    using rep ok states len n unfolding blk_repr_def by simp
  then show ?thesis
    using pk by blast
qed

lemma repr_cong:
  assumes "blk_repr b cs ps" "bb_data b' = bb_data b"
    "bh_start_index (bb_header b') = bh_start_index (bb_header b)"
    "bh_write_offset (bb_header b') = bh_write_offset (bb_header b)"
    "bh_last_index (bb_header b') = bh_last_index (bb_header b)"
    "bh_used_bytes (bb_header b') = bh_used_bytes (bb_header b)"
    "bh_total_records (bb_header b') = bh_total_records (bb_header b)"
    "bh_compressed (bb_header b') = bh_compressed (bb_header b)"
    "bh_encrypted (bb_header b') = bh_encrypted (bb_header b)"
  shows "blk_repr b' cs ps"
  using assms by (simp add: blk_repr_def)

lemma mark_deleted_spec:
  assumes "blk_repr b cs ps" "bb_available b"
    and "\<forall>i \<in> set ds. bh_start_index (bb_header b) \<le> i \<and> i < bh_last_index (bb_header b)"
  shows "\<exists>m. blk_mark_deleted ds b = (Inr (), b\<lparr>bb_data := m,
      bb_header := (bb_header b)\<lparr>bh_deleted_records := (inc32 ^^ length ds) (bh_deleted_records (bb_header b))\<rparr>,
      bb_deletes := []\<rparr>)
    \<and> blk_repr (b\<lparr>bb_data := m\<rparr>) (mark (bh_start_index (bb_header b)) ds cs) ps"
  using assms
proof (induction ds arbitrary: b cs)
  case Nil
  then show ?case
    by (intro exI [of _ "bb_data b"]) (simp add: cmd_simps)
next
  case (Cons i ds)
  let ?s = "bh_start_index (bb_header b)"
  have last: "bh_last_index (bb_header b) = ?s + length cs"
    using Cons.prems(1) by (simp add: blk_repr_def)
  obtain n where n: "i = ?s + n" "n < length cs"
    using Cons.prems(3) last by (metis le_add_diff_inverse list.set_intros(1) nat_add_left_cancel_less)
  have rd: "blk_read_record i b = (Inr (length (enc_chunks (take n (cs @ ps))), fst (cs ! n)), b)"
    using read_record_spec [OF Cons.prems(1,2), of n] n by (simp add: nth_append)
  obtain m where m: "poke (bb_data b) (length (enc_chunks (take n (cs @ ps))) + 16) (nat_bytes 4 R_DELETED) = Some m"
    "blk_repr (b\<lparr>bb_data := m\<rparr>) (cs[n := with_state R_DELETED (cs ! n)]) ps"
    using repr_set_state [OF Cons.prems(1) n(2), of R_DELETED] by blast
  define b1 where "b1 = b\<lparr>bb_data := m, bb_header := (bb_header b)\<lparr>bh_deleted_records := inc32 (bh_deleted_records (bb_header b))\<rparr>\<rparr>"
  have step: "blk_mark_deleted (i # ds) b = blk_mark_deleted ds b1"
    using rd m(1) by (simp add: cmd_simps blk_set_state_def blk_poke_def b1_def)
  have rep1: "blk_repr b1 (cs[n := with_state R_DELETED (cs ! n)]) ps"
    using m(2) by (rule repr_cong) (simp_all add: b1_def)
  obtain m' where m': "blk_mark_deleted ds b1 = (Inr (), b1\<lparr>bb_data := m',
      bb_header := (bb_header b1)\<lparr>bh_deleted_records := (inc32 ^^ length ds) (bh_deleted_records (bb_header b1))\<rparr>,
      bb_deletes := []\<rparr>)"
    "blk_repr (b1\<lparr>bb_data := m'\<rparr>) (mark ?s ds (cs[n := with_state R_DELETED (cs ! n)])) ps"
    using Cons.IH [OF rep1] Cons.prems(2,3) by (auto simp: b1_def)
  have "blk_repr (b\<lparr>bb_data := m'\<rparr>) (mark ?s (i # ds) cs) ps"
    using m'(2) n by (simp add: b1_def blk_repr_def)
  moreover have "blk_mark_deleted (i # ds) b = (Inr (), b\<lparr>bb_data := m',
      bb_header := (bb_header b)\<lparr>bh_deleted_records := (inc32 ^^ length (i # ds)) (bh_deleted_records (bb_header b))\<rparr>,
      bb_deletes := []\<rparr>)"
    unfolding step m'(1) by (simp add: b1_def funpow_swap1)
  ultimately show ?case by blast
qed

lemma inc32_pow: "(inc32 ^^ n) (a mod 2 ^ 32) = (a + n) mod 2 ^ 32"
proof (induction n)
  case 0
  then show ?case by simp
next
  case (Suc n)
  then have "(inc32 ^^ Suc n) (a mod 2 ^ 32) = inc32 ((a + n) mod 2 ^ 32)"
    by simp
  also have "\<dots> = (a + Suc n) mod 2 ^ 32"
    by (simp add: inc32_def mod_Suc_eq)
  finally show ?case .
qed

text \<open>The loop of \<open>commit\<close> ends, with one step for each pending chunk, and makes each readable.\<close>

lemma publish_spec:
  assumes "bb_data b = pre @ enc_chunks ps @ post" "chunks_ok i (length pre) ps"
    and "length (bb_data b) < 2 ^ 63" "length ps \<le> fuel"
  shows "blk_publish fuel (length pre + length (enc_chunks ps)) (length pre) added b =
    Some (Inr ((inc32 ^^ length ps) added),
      b\<lparr>bb_data := pre @ enc_chunks (map (with_state R_READABLE) ps) @ post\<rparr>)"
  using assms
proof (induction ps arbitrary: b pre i fuel added)
  case Nil
  have "b\<lparr>bb_data := pre @ post\<rparr> = b"
    using Nil.prems(1) by simp
  then show ?case by (cases fuel) simp_all
next
  case (Cons c ps)
  obtain k where k: "fuel = Suc k" "length ps \<le> k"
    using Cons.prems(4) by (cases fuel) auto
  have ok: "rec_header_ok (fst c)" "rh_data_size (fst c) = length (snd c)"
    and rest: "chunks_ok (i + 1) (length (pre @ enc_chunk (with_state R_READABLE c))) ps"
    using Cons.prems(2) by simp_all
  have hd: "header_at (bb_data b) (length pre) = Some (fst c)"
    using header_at_chunk [OF ok(1) refl, of pre "enc_chunks ps @ post"] Cons.prems(1) by simp
  let ?b = "b\<lparr>bb_data := pre @ enc_chunk (with_state R_READABLE c) @ enc_chunks ps @ post\<rparr>"
  have st: "blk_set_state (length pre) (fst c) R_READABLE b = (Inr (), ?b)"
    using poke_state [OF refl, of pre c "enc_chunks ps @ post" R_READABLE] Cons.prems(1)
    by (simp add: blk_set_state_def blk_poke_def)
  have len: "length (bb_data b) = length pre + (REC_HEADER_SIZE + length (snd c)) + length (enc_chunks ps) + length post"
    using Cons.prems(1) by simp
  have nx: "add64 (length pre) (add64 REC_HEADER_SIZE (rh_data_size (fst c))) =
      length (pre @ enc_chunk (with_state R_READABLE c))"
    using ok len Cons.prems(3) by (simp add: add64_small)
  have ih: "blk_publish k (length (pre @ enc_chunk (with_state R_READABLE c)) + length (enc_chunks ps))
      (length (pre @ enc_chunk (with_state R_READABLE c))) (inc32 added) ?b
    = Some (Inr ((inc32 ^^ length ps) (inc32 added)), ?b\<lparr>bb_data :=
        (pre @ enc_chunk (with_state R_READABLE c)) @ enc_chunks (map (with_state R_READABLE) ps) @ post\<rparr>)"
    by (rule Cons.IH [OF _ rest]) (use Cons.prems k len in simp_all)
  have stop: "length pre + length (enc_chunks (c # ps)) =
      length (pre @ enc_chunk (with_state R_READABLE c)) + length (enc_chunks ps)"
    by simp
  have lt: "length pre < length pre + length (enc_chunks (c # ps))"
    by (simp add: REC_HEADER_SIZE_def)
  have "blk_publish fuel (length pre + length (enc_chunks (c # ps))) (length pre) added b =
      blk_publish k (length pre + length (enc_chunks (c # ps)))
        (length (pre @ enc_chunk (with_state R_READABLE c))) (inc32 added) ?b"
    unfolding k(1) using lt by (simp only: blk_publish.simps hd st nx option.case prod.case sum.case if_True)
  then show ?case
    unfolding stop ih by (simp add: funpow_swap1)
qed

lemma map_state_states: "c \<in> set (map (with_state st) ps) \<Longrightarrow> rh_state (fst c) = st"
  by auto

lemma payload_bytes_map_state [simp]: "payload_bytes (map (with_state st) ps) = payload_bytes ps"
  by (induction ps) auto

lemma publish_all_spec:
  assumes rep: "blk_repr b cs ps" and txr: "blk_tx b cs ps"
  shows "\<exists>m h. blk_publish_all b = (Inr (), b\<lparr>bb_data := m, bb_header := h\<rparr>)
    \<and> blk_repr (b\<lparr>bb_data := m, bb_header := h\<rparr>) (cs @ map (with_state R_READABLE) ps) []
    \<and> bh_start_index h = bh_start_index (bb_header b)
    \<and> bh_last_index h = bh_last_index (bb_header b) + length ps
    \<and> bh_deleted_records h = bh_deleted_records (bb_header b)
    \<and> bh_commit_sequence h = add64 (bh_commit_sequence (bb_header b)) 1"
proof -
  obtain post where data: "bb_data b = enc_chunks cs @ enc_chunks ps @ post"
    using rep by (auto simp: blk_repr_def)
  obtain ri where ri: "bb_rollback b = Some ri" "ri_write_offset ri = length (enc_chunks cs) + length (enc_chunks ps)"
    "ri_last_index ri = bh_start_index (bb_header b) + length cs + length ps" "ri_used_bytes ri = payload_bytes ps"
    using txr by (auto simp: blk_tx_def)
  have bnd: "bh_start_index (bb_header b) + length (bb_data b) < 2 ^ 63"
    and oks: "chunks_ok (bh_start_index (bb_header b)) 0 cs"
      "chunks_ok (bh_start_index (bb_header b) + length cs) (length (enc_chunks cs)) ps"
    and wo: "bh_write_offset (bb_header b) = length (enc_chunks cs)"
    using rep by (simp_all add: blk_repr_def chunks_ok_append)
  let ?m = "enc_chunks cs @ enc_chunks (map (with_state R_READABLE) ps) @ post"
  let ?h = "blk_commit_header ri ((inc32 ^^ length ps) 0) (bb_header b)"
  have "length ps \<le> ri_write_offset ri"
    using enc_chunks_count [of ps] ri(2) by (simp add: REC_HEADER_SIZE_def)
  then have pub: "blk_publish (ri_write_offset ri) (length (enc_chunks cs) + length (enc_chunks ps)) (length (enc_chunks cs)) 0 b
      = Some (Inr ((inc32 ^^ length ps) 0), b\<lparr>bb_data := ?m\<rparr>)"
    using publish_spec [OF data oks(2)] bnd by simp
  then have ev: "blk_publish_all b = (Inr (), b\<lparr>bb_data := ?m, bb_header := ?h\<rparr>)"
    by (simp add: blk_publish_all_def ri(1,2) wo)
  have used: "add64 (bh_used_bytes (bb_header b)) (payload_bytes ps) = payload_bytes cs + payload_bytes ps"
    using rep bnd data payload_le_enc [of cs] payload_le_enc [of ps] by (simp add: blk_repr_def add64_small)
  have tot: "(bh_total_records (bb_header b) + (inc32 ^^ length ps) 0) mod 2 ^ 32 = (length cs + length ps) mod 2 ^ 32"
    using rep inc32_pow [of "length ps" 0] by (simp add: blk_repr_def mod_add_eq)
  have ok: "chunks_ok (bh_start_index (bb_header b)) 0 (cs @ map (with_state R_READABLE) ps)"
    using oks chunks_ok_map_state [OF oks(2), of R_READABLE] by (simp add: chunks_ok_append R_READABLE_def)
  have "blk_repr (b\<lparr>bb_data := ?m, bb_header := ?h\<rparr>) (cs @ map (with_state R_READABLE) ps) []"
    using rep ok used tot data ri unfolding blk_repr_def blk_commit_header_def by auto
  moreover have "bh_last_index ?h = bh_last_index (bb_header b) + length ps"
    using rep ri by (simp add: blk_repr_def blk_commit_header_def)
  ultimately show ?thesis
    using ev by (intro exI [of _ ?m] exI [of _ ?h]) (simp add: blk_commit_header_def)
qed

subsection \<open>Ending a transaction\<close>

lemma end_transaction_spec:
  assumes held: "blk_held v tx b" and rel: "blk_releasable v b" and ri: "bb_rollback b = Some ri"
  shows "\<exists>c'. blk_end_transaction v b = (Inr (), b\<lparr>bb_rollback := Some (ri_ended ri), bb_client := c'\<rparr>)
    \<and> blk_unlocked (b\<lparr>bb_rollback := Some (ri_ended ri), bb_client := c'\<rparr>)"
proof -
  obtain n l where n: "bb_lock b = Some n" "wc_find (bb_client b) n = Some l" "wk_txn_id l \<noteq> []"
    and got: "be_got v"
    using rel by (auto simp: blk_releasable_def)
  have ses: "wc_session (be_call v) n (bb_client b)"
    using held n(1) by (auto simp: blk_held_def)
  obtain c' l' where c': "wc_call n (wk_release_lock True (be_call v)) (bb_client b) = (Inr True, c')"
    "wc_find c' n = Some l'" "wk_unlocked (l', wc_table c')" "wk_txn_id l' = []"
    using wc_release_session [OF ses n(2,3)] by blast
  have "blk_release v (b\<lparr>bb_rollback := Some (ri_ended ri)\<rparr>) =
      (Inr True, b\<lparr>bb_rollback := Some (ri_ended ri), bb_client := c'\<rparr>)"
    using got c'(1) n(1) by (simp add: blk_release_def blk_lock_call_def)
  then have "blk_end_transaction v b = (Inr (), b\<lparr>bb_rollback := Some (ri_ended ri), bb_client := c'\<rparr>)"
    using held_has_lock [OF held] ri by (simp add: blk_end_transaction_def cmd_simps)
  moreover have "blk_unlocked (b\<lparr>bb_rollback := Some (ri_ended ri), bb_client := c'\<rparr>)"
    using n(1) c' by (simp add: blk_unlocked_def)
  ultimately show ?thesis by blast
qed

lemma commit_spec:
  assumes ses: "blk_session v tx b" and rel: "blk_releasable v b"
    and rep: "blk_repr b cs ps" and txr: "blk_tx b cs ps"
    and del: "\<forall>i \<in> set (bb_deletes b). bh_start_index (bb_header b) \<le> i \<and> i < bh_last_index (bb_header b)"
  obtains b' where "blk_commit v tx b = (Inr (), b')"
    "blk_repr b' (mark (bh_start_index (bb_header b)) (bb_deletes b) cs @ map (with_state R_READABLE) ps) []"
    "bb_deletes b' = []" "blk_unlocked b'" "bb_available b'"
    "bh_start_index (bb_header b') = bh_start_index (bb_header b)"
    "bh_last_index (bb_header b') = bh_last_index (bb_header b) + length ps"
    "bh_commit_sequence (bb_header b') = add64 (bh_commit_sequence (bb_header b)) 1"
    "bh_deleted_records (bb_header b') = (inc32 ^^ length (bb_deletes b)) (bh_deleted_records (bb_header b))"
proof -
  let ?s = "bh_start_index (bb_header b)"
  define b0 where "b0 = blk_touch v b"
  have h0: "blk_held v tx b0" and av: "bb_available b"
    using session_touch_held [OF ses] ses by (simp_all add: b0_def blk_session_def)
  have rep0: "blk_repr b0 cs ps" and tx0: "blk_tx b0 cs ps"
    using rep txr by (simp_all add: b0_def)
  obtain m where m: "blk_mark_deleted (bb_deletes b0) b0 = (Inr (), b0\<lparr>bb_data := m,
      bb_header := (bb_header b0)\<lparr>bh_deleted_records := (inc32 ^^ length (bb_deletes b0)) (bh_deleted_records (bb_header b0))\<rparr>,
      bb_deletes := []\<rparr>)" "blk_repr (b0\<lparr>bb_data := m\<rparr>) (mark ?s (bb_deletes b0) cs) ps"
    using mark_deleted_spec [OF rep0, of "bb_deletes b0"] av del by (auto simp: b0_def)
  define b1 where "b1 = b0\<lparr>bb_data := m,
      bb_header := (bb_header b0)\<lparr>bh_deleted_records := (inc32 ^^ length (bb_deletes b0)) (bh_deleted_records (bb_header b0))\<rparr>,
      bb_deletes := []\<rparr>"
  have rep1: "blk_repr b1 (mark ?s (bb_deletes b) cs) ps"
    by (rule repr_cong [OF m(2), unfolded b0_def, simplified]) (simp_all add: b1_def b0_def)
  have len: "length (enc_chunks (mark ?s (bb_deletes b) cs)) = length (enc_chunks cs)"
    using rep rep1 by (simp add: blk_repr_def b1_def b0_def)
  have tx1: "blk_tx b1 (mark ?s (bb_deletes b) cs) ps"
    using tx0 len by (simp add: blk_tx_def b1_def b0_def)
  obtain m2 h2 where p: "blk_publish_all b1 = (Inr (), b1\<lparr>bb_data := m2, bb_header := h2\<rparr>)"
    "blk_repr (b1\<lparr>bb_data := m2, bb_header := h2\<rparr>)
       (mark ?s (bb_deletes b) cs @ map (with_state R_READABLE) ps) []"
    "bh_start_index h2 = bh_start_index (bb_header b1)"
    "bh_last_index h2 = bh_last_index (bb_header b1) + length ps"
    "bh_deleted_records h2 = bh_deleted_records (bb_header b1)"
    "bh_commit_sequence h2 = add64 (bh_commit_sequence (bb_header b1)) 1"
    using publish_all_spec [OF rep1 tx1] by blast
  define b2 where "b2 = b1\<lparr>bb_data := m2, bb_header := h2\<rparr>"
  have h2: "blk_held v tx b2"
    using h0 by (auto simp: b2_def b1_def blk_held_def)
  have rel2: "blk_releasable v b2"
    using rel releasable_cong [of b2 b0] by (simp add: b0_def b1_def b2_def)
  obtain ri where ri: "bb_rollback b2 = Some ri"
    using held_facts [OF h2] by blast
  obtain c' where c': "blk_end_transaction v b2 = (Inr (), b2\<lparr>bb_rollback := Some (ri_ended ri), bb_client := c'\<rparr>)"
    "blk_unlocked (b2\<lparr>bb_rollback := Some (ri_ended ri), bb_client := c'\<rparr>)"
    using end_transaction_spec [OF h2 rel2 ri] by blast
  let ?b = "b2\<lparr>bb_rollback := Some (ri_ended ri), bb_client := c'\<rparr>"
  have md: "(\<lambda>b. blk_mark_deleted (bb_deletes b) b) b0 = (Inr (), b1)"
    using m(1) by (simp add: b1_def)
  have ev: "blk_commit v tx b = (Inr (), ?b)"
    using av session_in_tx [OF ses, folded b0_def] held_check_txid [OF h0] md p(1) [folded b2_def] c'(1)
    unfolding blk_commit_def by (simp add: cmd_simps)
  show ?thesis
  proof (rule that [OF ev])
    show "blk_repr ?b (mark ?s (bb_deletes b) cs @ map (with_state R_READABLE) ps) []"
      using p(2) by (rule repr_cong) (simp_all add: b2_def)
    show "bb_available ?b"
      using av by (simp add: b2_def b1_def b0_def)
  qed (use c'(2) p in \<open>simp_all add: b2_def b1_def b0_def\<close>)
qed

lemma rollback_spec:
  assumes ses: "blk_session v tx b" and rel: "blk_releasable v b" and rep: "blk_repr b cs ps"
  obtains b' where "blk_rollback v tx b = (Inr (), b')" "blk_repr b' cs []" "bb_deletes b' = []"
    "blk_unlocked b'" "bb_header b' = bb_header b" "bb_data b' = bb_data b" "bb_available b'"
proof -
  define b0 where "b0 = blk_touch v b"
  have h0: "blk_held v tx b0" and av: "bb_available b"
    using session_touch_held [OF ses] ses by (simp_all add: b0_def blk_session_def)
  define b1 where "b1 = b0\<lparr>bb_deletes := []\<rparr>"
  have h1: "blk_held v tx b1"
    using h0 by (simp add: b1_def held_simps)
  have rel1: "blk_releasable v b1"
    using rel releasable_cong [of b1 b0] by (simp add: b0_def b1_def)
  obtain ri where ri: "bb_rollback b1 = Some ri"
    using held_facts [OF h1] by blast
  obtain c' where c': "blk_end_transaction v b1 = (Inr (), b1\<lparr>bb_rollback := Some (ri_ended ri), bb_client := c'\<rparr>)"
    "blk_unlocked (b1\<lparr>bb_rollback := Some (ri_ended ri), bb_client := c'\<rparr>)"
    using end_transaction_spec [OF h1 rel1 ri] by blast
  let ?b = "b1\<lparr>bb_rollback := Some (ri_ended ri), bb_client := c'\<rparr>"
  have av0: "bb_available b0" using av by (simp add: b0_def)
  have force: "blk_force_rollback v b0 = (Inr (), ?b)"
    using av0 held_in_tx [OF h0] c'(1) unfolding blk_force_rollback_def
    by (simp add: cmd_simps b1_def)
  have ev: "blk_rollback v tx b = (Inr (), ?b)"
    using av session_in_tx [OF ses, folded b0_def] held_check_txid [OF h0] force
    unfolding blk_rollback_def by (simp add: cmd_simps)
  show ?thesis
  proof (rule that [OF ev])
    show "blk_repr ?b cs []"
      by (rule repr_cong [OF repr_forget [OF rep]]) (simp_all add: b1_def b0_def)
  qed (use av c'(2) in \<open>simp_all add: b1_def b0_def\<close>)
qed

end
