(* ===== verification/BlockProps.thy ===== *)
theory BlockProps
  imports BlockSpec
begin

section \<open>The properties of the data block\<close>

text \<open>
  Sequences of writes, the round trip through commit and read, rollback, the guards of a write,
  the space accounting and the deletion of records. \<open>demo_block\<close> is a small block in the middle
  of a transaction on which the theorems are applied.
\<close>

fun blk_write_all :: "blk_env \<Rightarrow> u8 list list \<Rightarrow> string \<Rightarrow> (nat list, base_block) cmd" where
  "blk_write_all v [] tx = c_ret []"
| "blk_write_all v (d # ds) tx =
     c_bind (blk_write v (Some d) tx) (\<lambda>i. c_bind (blk_write_all v ds tx) (\<lambda>is. c_ret (i # is)))"

text \<open>\<open>blk_room b qs ds\<close>: the block accepts the payloads \<open>ds\<close> after the chunks \<open>qs\<close>; their bytes fit
  under \<open>block_size\<close> and their records into the mapping.\<close>

definition blk_room :: "base_block \<Rightarrow> chunk list \<Rightarrow> u8 list list \<Rightarrow> bool" where
  "blk_room b qs ds \<longleftrightarrow> bb_write_ptr b \<and> bb_updateable b \<and> bh_write_state (bb_header b) = WRITABLE
     \<and> payload_bytes qs + length (concat ds) + REC_HEADER_SIZE < bh_block_size (bb_header b)
     \<and> length (enc_chunks qs) + length ds * REC_HEADER_SIZE + length (concat ds) \<le> length (bb_data b)"

lemma free_space_eval:
  assumes ses: "blk_session v tx b" and rep: "blk_repr b cs ps" and txr: "blk_tx b cs ps"
  shows "blk_get_free_space v b =
    (Inr (if payload_bytes cs + payload_bytes ps + REC_HEADER_SIZE < bh_block_size (bb_header b)
          then bh_block_size (bb_header b) - (payload_bytes cs + payload_bytes ps + REC_HEADER_SIZE)
          else bh_block_size (bb_header b) - (payload_bytes cs + REC_HEADER_SIZE)), blk_touch v b)"
proof -
  obtain ri where ri: "bb_rollback b = Some ri" "ri_used_bytes ri = payload_bytes ps"
    using txr by (auto simp: blk_tx_def)
  have bnd: "length (bb_data b) < 2 ^ 63" and u: "bh_used_bytes (bb_header b) = payload_bytes cs"
    and le: "payload_bytes cs + payload_bytes ps \<le> length (bb_data b)"
    using rep payload_le_enc [of cs] payload_le_enc [of ps] by (auto simp: blk_repr_def)
  have a: "add64 (payload_bytes cs) (payload_bytes ps) = payload_bytes cs + payload_bytes ps"
    "add64 (payload_bytes cs + payload_bytes ps) REC_HEADER_SIZE = payload_bytes cs + payload_bytes ps + REC_HEADER_SIZE"
    "add64 (payload_bytes cs) REC_HEADER_SIZE = payload_bytes cs + REC_HEADER_SIZE"
    using bnd le by (simp_all add: add64_small REC_HEADER_SIZE_def)
  have av: "bb_available b" using ses by (simp add: blk_session_def)
  show ?thesis
    using av session_in_tx [OF ses] ri u a
    by (simp add: blk_get_free_space_def cmd_simps Let_def)
qed

lemma has_space_room:
  assumes "blk_session v tx b" "blk_repr b cs ps" "blk_tx b cs ps"
    and "payload_bytes cs + payload_bytes ps + n + REC_HEADER_SIZE < bh_block_size (bb_header b)"
  shows "fst (blk_has_space v n b) = Inr True"
  using free_space_eval [OF assms(1-3)] assms(4)
  by (simp add: blk_has_space_def c_bind_def c_ret_def)

lemma upt_start_Suc: "[i..<Suc (i + n)] = i # [Suc i..<Suc (i + n)]"
  by (simp add: upt_conv_Cons del: upt_Suc)

lemma write_all_spec:
  assumes "blk_session v tx b" "blk_repr b cs ps" "blk_tx b cs ps" "blk_room b (cs @ ps) ds"
  shows "\<exists>b' qs. blk_write_all v ds tx b =
      (Inr [bh_last_index (bb_header b) + length ps ..< bh_last_index (bb_header b) + length ps + length ds], b')
    \<and> blk_session v tx b' \<and> blk_repr b' cs (ps @ qs) \<and> blk_tx b' cs (ps @ qs) \<and> map snd qs = ds
    \<and> blk_frame b b' \<and> blk_releasable v b' = blk_releasable v b"
  using assms
proof (induction ds arbitrary: b ps)
  case Nil
  have "blk_frame b b"
    unfolding blk_frame_def by (intro conjI exI [of _ "bh_update_time (bb_header b)"]) simp_all
  then show ?case
    using Nil by (intro exI [of _ b] exI [of _ "[]"]) (simp add: cmd_simps)
next
  case (Cons d ds)
  have fits: "blk_fits v b (cs @ ps) (length d)"
    using Cons.prems(4) by (simp add: blk_room_def blk_fits_def)
  have space: "fst (blk_has_space v (length d) b) = Inr True"
    using Cons.prems(4) by (intro has_space_room [OF Cons.prems(1-3)]) (simp add: blk_room_def)
  let ?c = "new_chunk v b cs ps 0 d"
  obtain b1 where b1: "blk_write v (Some d) tx b = (Inr (bh_last_index (bb_header b) + length ps), b1)"
    "blk_held v tx b1" "blk_repr b1 cs (ps @ [?c])" "blk_tx b1 cs (ps @ [?c])" "blk_frame b b1" and rel: "blk_releasable v b1 = blk_releasable v b"
    by (rule write_spec [OF Cons.prems(1-3) fits space])
  have room: "blk_room b1 (cs @ ps @ [?c]) ds"
    using Cons.prems(4) b1(5) frame_fields [OF b1(5)] unfolding blk_room_def blk_frame_def
    by (simp add: new_chunk_def)
  obtain b' qs where b': "blk_write_all v ds tx b1 =
      (Inr [bh_last_index (bb_header b1) + length (ps @ [?c]) ..< bh_last_index (bb_header b1) + length (ps @ [?c]) + length ds], b')"
    "blk_session v tx b'" "blk_repr b' cs ((ps @ [?c]) @ qs)" "blk_tx b' cs ((ps @ [?c]) @ qs)" "map snd qs = ds"
    "blk_frame b1 b'" "blk_releasable v b' = blk_releasable v b1"
    using Cons.IH [OF held_session [OF b1(2)] b1(3,4)] room by auto
  show ?case
  proof (intro exI conjI)
    show "blk_write_all v (d # ds) tx b =
      (Inr [bh_last_index (bb_header b) + length ps ..< bh_last_index (bb_header b) + length ps + length (d # ds)], b')"
      using b1(1) b'(1) frame_fields [OF b1(5)] by (simp add: cmd_simps upt_start_Suc del: upt_Suc)
    show "blk_repr b' cs (ps @ ?c # qs)" "blk_tx b' cs (ps @ ?c # qs)"
      using b'(3,4) by simp_all
    show "blk_frame b b'"
      using b1(5) b'(6) by (rule frame_trans)
  qed (use b' rel in \<open>simp_all add: new_chunk_def\<close>)
qed

lemma no_skip: "st \<noteq> R_DELETED \<Longrightarrow> st \<noteq> R_DIRTY \<Longrightarrow> filter (\<lambda>c. \<not> read_skips st (fst c)) cs = cs"
  by (simp add: read_skips_def)

lemma read_readable:
  assumes "blk_repr b cs ps" "bb_available b" "n \<le> length cs"
  shows "fst (blk_read v (bh_start_index (bb_header b) + n) count R_READABLE b) = Inr (map snd (take count (drop n cs)))"
proof -
  have "R_READABLE \<noteq> R_FREE" "R_READABLE \<noteq> R_DELETED" "R_READABLE \<noteq> R_DIRTY"
    by (simp_all add: record_states)
  then show ?thesis
    using read_spec [OF assms, of R_READABLE v count] no_skip [of R_READABLE] by (metis fst_conv)
qed

lemma session_available: "blk_session v tx b \<Longrightarrow> bb_available b"
  by (simp add: blk_session_def)

lemma map_snd_state [simp]: "map snd (map (with_state st) ps) = map snd ps"
  by simp

lemma map_snd_update: "map snd (cs[n := with_state st (cs ! n)]) = map snd cs"
  by (cases "n < length cs") (auto intro!: nth_equalityI simp: nth_list_update)

lemma mark_payloads [simp]: "map snd (mark s ds cs) = map snd cs"
  by (induction ds arbitrary: cs) (simp_all add: map_snd_update)

subsection \<open>Properties\<close>

text \<open>C6. What one transaction writes and commits is read back: the
  indices count on from the last one, the payloads come back unchanged and in order, after those
  that were there before, and the lock is free again.\<close>

theorem block_commit_roundtrip:
  assumes "blk_session v tx b" "blk_releasable v b" "blk_repr b cs []" "blk_tx b cs []"
    and "bb_deletes b = []" "blk_room b cs ds"
  shows "\<exists>b1 b'. blk_write_all v ds tx b =
      (Inr [bh_last_index (bb_header b) ..< bh_last_index (bb_header b) + length ds], b1)
    \<and> blk_commit v tx b1 = (Inr (), b') \<and> blk_unlocked b'
    \<and> (\<forall>w n. fst (blk_read w (bh_last_index (bb_header b)) n R_READABLE b') = Inr (take n ds))
    \<and> (\<forall>w. fst (blk_read w (bh_start_index (bb_header b)) (length cs + length ds) R_READABLE b')
           = Inr (map snd cs @ ds))"
proof -
  obtain b1 qs where w: "blk_write_all v ds tx b =
      (Inr [bh_last_index (bb_header b) ..< bh_last_index (bb_header b) + length ds], b1)"
    "blk_session v tx b1" "blk_repr b1 cs qs" "blk_tx b1 cs qs" "map snd qs = ds"
    "blk_frame b b1" "blk_releasable v b1"
    using write_all_spec [OF assms(1,3,4), of ds] assms by auto
  have del: "bb_deletes b1 = []"
    using w(6) assms(5) unfolding blk_frame_def by simp
  obtain b' where c: "blk_commit v tx b1 = (Inr (), b')"
    "blk_repr b' (cs @ map (with_state R_READABLE) qs) []" "blk_unlocked b'" "bb_available b'"
    "bh_start_index (bb_header b') = bh_start_index (bb_header b)"
    by (rule commit_spec [OF w(2,7,3,4)]) (use del in \<open>simp_all add: frame_fields [OF w(6)]\<close>)
  have last: "bh_last_index (bb_header b) = bh_start_index (bb_header b') + length cs"
    using assms(3) c(5) by (simp add: blk_repr_def)
  have pay: "map snd (take n (map (with_state R_READABLE) qs)) = take n ds" for n
    using w(5) by (simp add: take_map [symmetric] o_def)
  have "fst (blk_read u (bh_last_index (bb_header b)) n R_READABLE b') = Inr (take n ds)" for u n
    using read_readable [OF c(2,4), of "length cs" u n] last pay by simp
  moreover have "fst (blk_read u (bh_start_index (bb_header b)) (length cs + length ds) R_READABLE b')
      = Inr (map snd cs @ ds)" for u
    using read_readable [OF c(2,4), of 0 u "length cs + length ds"] c(5) w(5) by auto
  ultimately show ?thesis
    using w(1) c(1,3) by blast
qed

text \<open>C15. Rolling back a transaction, whatever it wrote, leaves every
  read of the block as it was, frees the lock, and keeps the header but for its update time.\<close>

theorem block_rollback_restores:
  assumes "blk_session v tx b" "blk_releasable v b" "blk_repr b cs []" "blk_tx b cs []" "blk_room b cs ds"
  shows "\<exists>b1 b'. blk_write_all v ds tx b = (fst (blk_write_all v ds tx b), b1)
    \<and> blk_rollback v tx b1 = (Inr (), b') \<and> blk_unlocked b' \<and> bb_deletes b' = []
    \<and> (\<exists>t. bb_header b' = (bb_header b)\<lparr>bh_update_time := t\<rparr>)
    \<and> (\<forall>w n i. i \<le> length cs \<longrightarrow>
         fst (blk_read w (bh_start_index (bb_header b) + i) n R_READABLE b')
       = fst (blk_read w (bh_start_index (bb_header b) + i) n R_READABLE b))"
proof -
  obtain b1 qs where w: "blk_write_all v ds tx b =
      (Inr [bh_last_index (bb_header b) ..< bh_last_index (bb_header b) + length ds], b1)"
    "blk_session v tx b1" "blk_repr b1 cs qs" "blk_frame b b1" "blk_releasable v b1"
    using write_all_spec [OF assms(1,3,4), of ds] assms by auto
  obtain b' where r: "blk_rollback v tx b1 = (Inr (), b')" "blk_repr b' cs []" "bb_deletes b' = []"
    "blk_unlocked b'" "bb_header b' = bb_header b1" "bb_available b'"
    by (rule rollback_spec [OF w(2,5,3)])
  have st: "bh_start_index (bb_header b') = bh_start_index (bb_header b)"
    using r(5) frame_fields [OF w(4)] by simp
  have "fst (blk_read u (bh_start_index (bb_header b) + i) n R_READABLE b')
      = fst (blk_read u (bh_start_index (bb_header b) + i) n R_READABLE b)" if "i \<le> length cs" for u n i
    using read_readable [OF r(2,6) that, of u n] st
      read_readable [OF assms(3) session_available [OF assms(1)] that, of u n] by simp
  moreover have "\<exists>t. bb_header b' = (bb_header b)\<lparr>bh_update_time := t\<rparr>"
    using w(4) r(5) unfolding blk_frame_def by simp
  ultimately show ?thesis
    using w(1) r(1,3,4) by auto
qed

lemma c_assert_ok: "c_assert e m s = (Inr u, s') \<Longrightarrow> m s = (Inr True, s')"
  by (auto simp: c_assert_def c_bind_def c_ret_def c_throw_def split: prod.splits sum.splits if_splits)

lemma c_check_ok: "c_check e P s = (Inr u, s') \<Longrightarrow> P s \<and> s' = s"
  by (simp add: c_check_def split: if_splits)

lemma c_bind_ok:
  assumes "c_bind m k s = (Inr y, s')"
  obtains x s1 where "m s = (Inr x, s1)" "k x s1 = (Inr y, s')"
  using assms by (cases rule: c_bind_cases) auto

lemma c_all_ok:
  assumes "c_all (c # cs) s = (Inr u, s')"
  obtains s1 where "c s = (Inr (), s1)" "c_all cs s1 = (Inr u, s')"
proof -
  have "c_bind c (\<lambda>_. c_all cs) s = (Inr u, s')"
    using assms by simp
  then show thesis
    by (rule c_bind_ok) (use that in simp)
qed

lemma write_record0_guarded:
  assumes "blk_write_record0 v src tx unc b = (Inr off, b')"
  shows "bb_updateable b \<and> bh_write_state (bb_header b) = WRITABLE
    \<and> (\<exists>ri. bb_rollback b = Some ri \<and> ri_in_transaction ri \<and> ri_transaction_id ri = tx) \<and> tx \<noteq> []"
proof -
  obtain s5 k where pre: "c_all [c_check State_unavailable bb_available,
                    c_check Null_pointer (\<lambda>_. src \<noteq> None),
                    c_assert Precondition blk_is_writeable,
                    c_assert Precondition (blk_has_space v (length (the src))),
                    blk_check_txid tx] b = (Inr (), s5)"
    and rest: "c_bind (blk_in_transaction v) (\<lambda>intx.
      c_bind (c_when (\<not> intx) (c_bind (blk_force_rollback v) (\<lambda>_. c_throw Fs_error))) (k intx)) s5 = (Inr off, b')"
    using assms unfolding blk_write_record0_def
    by (rule c_bind_ok) (rule that, simp, assumption)
  obtain s1 s2 s3 s4 where w: "blk_is_writeable b = (Inr True, s3)"
    and sp: "blk_has_space v (length (the src)) s3 = (Inr True, s4)"
    and t: "blk_check_txid tx s4 = (Inr (), s5)"
    using pre by (elim c_all_ok) (auto dest!: c_assert_ok c_check_ok simp: cmd_simps split: if_splits)
  have w': "s3 = b" "bb_updateable b" "bh_write_state (bb_header b) = WRITABLE"
    using w by (auto simp: blk_is_writeable_def cmd_simps split: if_splits)
  obtain c where c: "s4 = b\<lparr>bb_client := c\<rparr>"
    using only_clientD [OF only_client_has_space sp] w'(1) by blast
  have t': "tx \<noteq> []" "\<exists>ri. bb_rollback b = Some ri \<and> ri_transaction_id ri = tx" "s5 = s4"
    using t by (auto simp: blk_check_txid_def c split: if_splits option.splits)
  obtain intx s6 where i: "blk_in_transaction v s5 = (Inr intx, s6)"
    and cont: "c_bind (c_when (\<not> intx) (c_bind (blk_force_rollback v) (\<lambda>_. c_throw Fs_error))) (k intx) s6 = (Inr off, b')"
    using rest by (rule c_bind_ok)
  have "intx"
  proof (rule ccontr)
    assume "\<not> intx"
    then show False
      using cont by (auto elim!: c_bind_ok simp: cmd_simps c_throw_def)
  qed
  then show ?thesis
    using in_tx_true [of v s5 s6] i w' t' c by auto
qed

text \<open>C22. A write that succeeds was given data, on a block opened for
  writing, inside the running transaction and under its id; every other write is an exception.\<close>

theorem block_write_guarded:
  assumes "blk_write v src tx b = (Inr i, b')"
  shows "\<exists>d ri. src = Some d \<and> bb_available b \<and> bb_updateable b \<and> bh_write_state (bb_header b) = WRITABLE
    \<and> bb_rollback b = Some ri \<and> ri_in_transaction ri \<and> ri_transaction_id ri = tx \<and> tx \<noteq> []"
proof -
  obtain off s1 where chk: "bb_available b" "src \<noteq> None" and wr: "blk_write_record v src tx b = (Inr off, s1)"
    using assms unfolding blk_write_def
    by (auto elim!: c_bind_ok c_all_ok simp: cmd_simps split: if_splits)
  obtain src' unc where "blk_write_record0 v src' tx unc b = (Inr off, s1)"
    using wr chk by (auto simp: blk_write_record_def cmd_simps split: if_splits option.splits sum.splits)
  then show ?thesis
    using write_record0_guarded [of v src' tx unc b off s1] chk by (cases src) auto
qed

lemma concat_map_filter_if: "concat (map (\<lambda>n. if P n then [f n] else []) xs) = map f (filter P xs)"
  by (induction xs) auto

text \<open>C21. Committing a transaction that marked records makes exactly those,
  and the ones deleted before, come back from a read of the deleted records. A read of the
  readable records does not look at the state: it still returns them all.\<close>

theorem block_commit_deletes:
  assumes "blk_session v tx b" "blk_releasable v b" "blk_repr b cs []" "blk_tx b cs []"
    and "\<forall>i \<in> set (bb_deletes b). bh_start_index (bb_header b) \<le> i \<and> i < bh_last_index (bb_header b)"
  shows "\<exists>b'. blk_commit v tx b = (Inr (), b')
    \<and> (\<forall>w. fst (blk_read w (bh_start_index (bb_header b)) (length cs) R_DELETED b') =
         Inr [snd (cs ! n). n \<leftarrow> [0..<length cs],
              rh_state (fst (cs ! n)) = R_DELETED \<or> bh_start_index (bb_header b) + n \<in> set (bb_deletes b)])
    \<and> (\<forall>w. fst (blk_read w (bh_start_index (bb_header b)) (length cs) R_READABLE b') = Inr (map snd cs))"
proof -
  let ?s = "bh_start_index (bb_header b)" and ?ds = "bb_deletes b"
  obtain b' where c: "blk_commit v tx b = (Inr (), b')" "blk_repr b' (mark ?s ?ds cs) []" "bb_available b'"
    "bh_start_index (bb_header b') = ?s"
    by (rule commit_spec [OF assms]) simp
  have last: "bh_last_index (bb_header b) = ?s + length cs"
    using assms(3) by (simp add: blk_repr_def)
  have nth: "mark ?s ?ds cs ! n = (if ?s + n \<in> set ?ds then with_state R_DELETED (cs ! n) else cs ! n)"
    if "n < length cs" for n
    using nth_mark [OF that, of ?ds ?s] assms(5) last by simp
  have flt: "map snd (filter (\<lambda>c. \<not> read_skips R_DELETED (fst c)) (mark ?s ?ds cs)) =
      [snd (cs ! n). n \<leftarrow> [0..<length cs], rh_state (fst (cs ! n)) = R_DELETED \<or> ?s + n \<in> set ?ds]"
  proof -
    have m: "mark ?s ?ds cs = map (\<lambda>n. mark ?s ?ds cs ! n) [0..<length cs]"
      using map_nth [of "mark ?s ?ds cs"] by simp
    have "map snd (filter (\<lambda>c. \<not> read_skips R_DELETED (fst c)) (mark ?s ?ds cs)) =
      map snd (filter (\<lambda>c. \<not> read_skips R_DELETED (fst c)) (map (\<lambda>n. mark ?s ?ds cs ! n) [0..<length cs]))"
      using m by simp
    also have "\<dots> = map (\<lambda>n. snd (mark ?s ?ds cs ! n)) (filter (\<lambda>n. \<not> read_skips R_DELETED (fst (mark ?s ?ds cs ! n))) [0..<length cs])"
      by (simp add: filter_map o_def)
    also have "\<dots> = map (\<lambda>n. snd (cs ! n)) (filter (\<lambda>n. rh_state (fst (cs ! n)) = R_DELETED \<or> ?s + n \<in> set ?ds) [0..<length cs])"
      by (rule map_cong [OF filter_cong]) (auto simp: nth read_skips_def)
    finally show ?thesis
      by (simp add: concat_map_filter_if)
  qed
  have "fst (blk_read w ?s (length cs) R_DELETED b') =
      Inr [snd (cs ! n). n \<leftarrow> [0..<length cs], rh_state (fst (cs ! n)) = R_DELETED \<or> ?s + n \<in> set ?ds]" for w
  proof -
    have "R_DELETED \<noteq> R_FREE" by (simp add: record_states)
    then have "fst (blk_read w (bh_start_index (bb_header b') + 0) (length cs) R_DELETED b') =
       Inr (map snd (take (length cs) (filter (\<lambda>c. \<not> read_skips R_DELETED (fst c)) (drop 0 (mark ?s ?ds cs)))))"
      using read_spec [OF c(2,3), of 0 R_DELETED w "length cs"] by (metis fst_conv le0)
    then show ?thesis
      using flt c(4) length_filter_le [of _ "mark ?s ?ds cs"] by simp
  qed
  moreover have "fst (blk_read w ?s (length cs) R_READABLE b') = Inr (map snd cs)" for w
    using read_readable [OF c(2,3), of 0 w "length cs"] c(4) by simp
  ultimately show ?thesis
    using c(1) by blast
qed

text \<open>When every record carries at least 480 bytes, the tenth that the
  mapping has over \<open>block_size\<close> pays for the record headers: a record that the space check admits
  fits behind the others.\<close>

theorem block_space_sound:
  assumes "blk_repr b cs ps" "\<forall>c \<in> set (cs @ ps). 480 \<le> length (snd c)" "480 \<le> n"
    and "length (bb_data b) = blk_area_size (bh_block_size (bb_header b))"
    and "bh_block_size (bb_header b) * 110 < 2 ^ 64"
    and "payload_bytes cs + payload_bytes ps + REC_HEADER_SIZE + n \<le> bh_block_size (bb_header b)"
  shows "length (enc_chunks (cs @ ps)) + REC_HEADER_SIZE + n \<le> length (bb_data b)"
proof -
  have e: "length (enc_chunks qs) = payload_bytes qs + 48 * length qs" for qs
    by (induction qs) (auto simp: REC_HEADER_SIZE_def)
  have k: "480 * length qs \<le> payload_bytes qs" if "\<forall>c \<in> set qs. 480 \<le> length (snd c)" for qs
    using that by (induction qs) auto
  have area: "length (bb_data b) = bh_block_size (bb_header b) * 110 div 100"
    using assms(4,5) by (simp add: blk_area_size_def)
  have "100 * (length (enc_chunks (cs @ ps)) + 48 + n) \<le> bh_block_size (bb_header b) * 110"
    using k [OF assms(2)] assms(3,6) by (simp add: e REC_HEADER_SIZE_def)
  then have "length (enc_chunks (cs @ ps)) + 48 + n \<le> bh_block_size (bb_header b) * 110 div 100"
    by (simp add: less_eq_div_iff_mult_less_eq mult.commute)
  then show ?thesis
    using area by (simp add: REC_HEADER_SIZE_def)
qed

text \<open>The space check does not count record headers, so with small
  records it admits a write whose header lies beyond the mapping.\<close>

theorem block_small_records_overrun:
  assumes ses: "blk_session v tx b" and rep: "blk_repr b cs ps" and txr: "blk_tx b cs ps"
    and wr: "bb_write_ptr b" "bb_updateable b" "bh_write_state (bb_header b) = WRITABLE"
    and space: "payload_bytes cs + payload_bytes ps + length d + REC_HEADER_SIZE < bh_block_size (bb_header b)"
    and over: "length (bb_data b) < length (enc_chunks (cs @ ps)) + REC_HEADER_SIZE"
  shows "fst (blk_has_space v (length d) b) = Inr True \<and> fst (blk_write v (Some d) tx b) = Inl Mem_fault"
proof -
  have sp: "fst (blk_has_space v (length d) b) = Inr True"
    by (rule has_space_room [OF ses rep txr space])
  obtain ri where ri: "bb_rollback b = Some ri" "ri_write_offset ri = length (enc_chunks (cs @ ps))"
    using txr by (auto simp: blk_tx_def)
  define b0 where "b0 = blk_touch v b"
  have h0: "blk_held v tx b0" and r0: "bb_write_ptr b0" "bb_rollback b0 = Some ri"
    using session_touch_held [OF ses] wr(1) ri(1) by (simp_all add: b0_def)
  have av: "bb_available b" using ses by (simp add: blk_session_def)
  have sp': "blk_has_space v (length d) b = (Inr True, b0)"
    using session_has_space [OF ses, of "length d"] sp by (simp add: b0_def)
  have w: "blk_is_writeable b = (Inr True, b)"
    using av wr by (simp add: blk_is_writeable_def cmd_simps)
  have pk: "blk_poke (length (enc_chunks (cs @ ps))) (replicate REC_HEADER_SIZE 0) b0 = (Inl Mem_fault, b0)"
    using over by (simp add: blk_poke_def poke_def b0_def)
  have "blk_write_record0 v (Some d) tx 0 b = (Inl Mem_fault, b0)"
    using av ri(2) pk unfolding blk_write_record0_def
    by (simp add: cmd_simps w sp' held_in_tx [OF h0] held_check_txid [OF h0] held_write_ptr(1) [OF h0 r0])
  then have "fst (blk_write v (Some d) tx b) = Inl Mem_fault"
    using av rep by (simp add: blk_write_def blk_write_record_def cmd_simps blk_repr_def)
  then show ?thesis using sp by simp
qed

text \<open>Once a transaction has used the block up, the free space it is
  told is that of before the transaction, so the space check admits it again.\<close>

theorem block_space_falls_through:
  assumes "blk_session v tx b" "blk_repr b cs ps" "blk_tx b cs ps"
    and "bh_block_size (bb_header b) \<le> payload_bytes cs + payload_bytes ps + REC_HEADER_SIZE"
    and "payload_bytes cs + REC_HEADER_SIZE + n \<le> bh_block_size (bb_header b)"
  shows "fst (blk_get_free_space v b) = Inr (bh_block_size (bb_header b) - (payload_bytes cs + REC_HEADER_SIZE))
    \<and> fst (blk_has_space v n b) = Inr True"
  using free_space_eval [OF assms(1-3)] assms(4,5)
  by (simp add: blk_has_space_def cmd_simps)

subsection \<open>The sanity check\<close>

definition deleted_chunks :: "chunk list \<Rightarrow> nat" where
  "deleted_chunks cs = length (filter (\<lambda>c. rh_state (fst c) \<noteq> R_READABLE) cs)"

lemma count_records_spec:
  assumes rep: "blk_repr b cs ps" and av: "bb_available b" and small: "bh_last_index (bb_header b) < 2 ^ 32"
    and "n + k = length cs" "k \<le> fuel" "tot + k < 2 ^ 32" "del + k < 2 ^ 32"
  shows "blk_count_records fuel (bh_start_index (bb_header b) + n) tot del b =
    Some (Inr (tot + k, del + deleted_chunks (drop n cs)), b)"
  using assms(4-)
proof (induction k arbitrary: n fuel tot del)
  case 0
  then have "\<not> bh_start_index (bb_header b) + n < bh_last_index (bb_header b)"
    using rep by (simp add: blk_repr_def)
  then show ?case
    using 0 by (cases fuel) (simp_all add: deleted_chunks_def)
next
  case (Suc k)
  then obtain f where f: "fuel = Suc f" "k \<le> f"
    by (cases fuel) auto
  have last: "bh_last_index (bb_header b) = bh_start_index (bb_header b) + length cs"
    using rep by (simp add: blk_repr_def)
  have n: "n < length cs" using Suc.prems by simp
  have lt: "bh_start_index (bb_header b) + n < bh_last_index (bb_header b)"
    using last n by simp
  have rd: "blk_read_record (bh_start_index (bb_header b) + n) b =
      (Inr (length (enc_chunks (take n (cs @ ps))), fst (cs ! n)), b)"
    using read_record_spec [OF rep av, of n] n by (simp add: nth_append)
  have inc: "inc32 (bh_start_index (bb_header b) + n) = bh_start_index (bb_header b) + Suc n"
    "inc32 tot = Suc tot" "inc32 del = Suc del"
    using lt small Suc.prems by (simp_all add: inc32_def)
  let ?d = "if rh_state (fst (cs ! n)) \<noteq> R_READABLE then Suc del else del"
  have ih: "blk_count_records f (bh_start_index (bb_header b) + Suc n) (Suc tot) ?d b =
      Some (Inr (Suc tot + k, ?d + deleted_chunks (drop (Suc n) cs)), b)"
    using Suc.prems f by (intro Suc.IH) simp_all
  have dr: "drop n cs = cs ! n # drop (Suc n) cs"
    using n by (simp add: Cons_nth_drop_Suc)
  show ?case
    using ih unfolding f(1) by (simp add: lt rd inc dr deleted_chunks_def split: if_splits)
qed

lemma check_sanity_spec:
  assumes rep: "blk_repr b cs []" and av: "bb_available b" and small: "bh_last_index (bb_header b) < 2 ^ 32"
    and fuel: "length cs \<le> fuel"
  shows "\<exists>r. blk_check_sanity fuel b =
    Some (if deleted_chunks cs = bh_deleted_records (bb_header b) then Inr r
          else Inl (Fs_block_error ERRCODE_BLOCK_SANITY_FAILED), b)"
proof -
  have last: "bh_last_index (bb_header b) = bh_start_index (bb_header b) + length cs"
    and tot: "bh_total_records (bb_header b) = length cs mod 2 ^ 32"
    using rep by (simp_all add: blk_repr_def)
  have c: "blk_count_records fuel (bh_start_index (bb_header b)) 0 0 b = Some (Inr (length cs, deleted_chunks cs), b)"
    using count_records_spec [OF rep av small, of 0 "length cs" fuel 0 0] fuel small last by simp
  have m: "bh_start_index (bb_header b) mod 2 ^ 32 = bh_start_index (bb_header b)" "length cs mod 2 ^ 32 = length cs"
    using small last by simp_all
  show ?thesis
    using av c m tot by (auto simp: blk_check_sanity_def Let_def)
qed

lemma deleted_update:
  assumes "n < length cs" "rh_state (fst (cs ! n)) = R_READABLE"
  shows "deleted_chunks (cs[n := with_state R_DELETED (cs ! n)]) = Suc (deleted_chunks cs)"
  using filter_update_length [OF assms(1), of "\<lambda>c. rh_state (fst c) \<noteq> R_READABLE" "with_state R_DELETED (cs ! n)"] assms(2)
  by (simp add: deleted_chunks_def record_states)

lemma deleted_mark:
  assumes "distinct ds" "\<forall>i \<in> set ds. s \<le> i \<and> i < s + length cs \<and> rh_state (fst (cs ! (i - s))) = R_READABLE"
  shows "deleted_chunks (mark s ds cs) = deleted_chunks cs + length ds"
  using assms
proof (induction ds arbitrary: cs)
  case Nil
  then show ?case by simp
next
  case (Cons i ds)
  let ?cs = "cs[i - s := with_state R_DELETED (cs ! (i - s))]"
  have "i - s < length cs" using Cons.prems by auto
  then have "deleted_chunks ?cs = Suc (deleted_chunks cs)"
    using Cons.prems by (intro deleted_update) simp_all
  moreover have "\<forall>j \<in> set ds. s \<le> j \<and> j < s + length ?cs \<and> rh_state (fst (?cs ! (j - s))) = R_READABLE"
  proof
    fix j assume j: "j \<in> set ds"
    then have "j \<noteq> i" "s \<le> j" "j < s + length cs" "rh_state (fst (cs ! (j - s))) = R_READABLE" "s \<le> i"
      using Cons.prems by auto
    then show "s \<le> j \<and> j < s + length ?cs \<and> rh_state (fst (?cs ! (j - s))) = R_READABLE"
      by (simp add: nth_list_update)
  qed
  ultimately show ?case
    using Cons.IH [of ?cs] Cons.prems by simp
qed

lemma deleted_map_readable [simp]: "deleted_chunks (cs @ map (with_state R_READABLE) ps) = deleted_chunks cs"
  by (simp add: deleted_chunks_def filter_map o_def)

lemma deleted_chunks_le: "deleted_chunks cs \<le> length cs"
  by (simp add: deleted_chunks_def)

lemma delete_record_spec:
  assumes ses: "blk_session v tx b" and rep: "blk_repr b cs ps" and txr: "blk_tx b cs ps"
    and up: "bh_write_state (bb_header b) = WRITABLE" and n: "n < length cs"
    and st: "rh_state (fst (cs ! n)) = R_READABLE"
  obtains b' where "blk_delete_record v (bh_start_index (bb_header b) + n) tx b = (Inr True, b')"
    "blk_session v tx b'" "blk_repr b' cs ps" "blk_tx b' cs ps"
    "bb_deletes b' = bb_deletes b @ [bh_start_index (bb_header b) + n]"
    "blk_releasable v b' = blk_releasable v b"
    "\<exists>t. bb_header b' = (bb_header b)\<lparr>bh_update_time := t\<rparr>"
proof -
  define b0 where "b0 = blk_touch v b"
  have h0: "blk_held v tx b0" and av: "bb_available b" and av0: "bb_available b0"
    using session_touch_held [OF ses] ses by (simp_all add: b0_def blk_session_def)
  have rep0: "blk_repr b0 cs ps" using rep by (simp add: b0_def)
  have rd: "blk_read_record (bh_start_index (bb_header b) + n) b0 =
      (Inr (length (enc_chunks (take n (cs @ ps))), fst (cs ! n)), b0)"
    using read_record_spec [OF rep0 av0, of n] n by (simp add: nth_append b0_def)
  obtain ri where ri: "bb_rollback b0 = Some ri" "ri_last_index ri = bh_start_index (bb_header b) + length cs + length ps"
    using txr by (auto simp: blk_tx_def b0_def)
  have cur: "blk_get_current_index v b0 = (Inr (ri_last_index ri), b0)"
    using held_in_tx [OF h0] ri(1) by (simp add: blk_get_current_index_def cmd_simps)
  have upd: "blk_is_updateable b = (Inr True, b)"
    using av up by (simp add: blk_is_updateable_def cmd_simps)
  have cond: "c_bind (blk_get_current_index v) (\<lambda>i. c_ret (bh_start_index (bb_header b) + n \<le> i)) b0 = (Inr True, b0)"
    using cur ri n by (simp add: cmd_simps)
  let ?b = "b0\<lparr>bb_deletes := bb_deletes b0 @ [bh_start_index (bb_header b) + n],
         bb_header := (bb_header b0)\<lparr>bh_update_time := be_now v\<rparr>\<rparr>"
  have hd: "bb_header b0 = bb_header b" by (simp add: b0_def)
  have ev: "blk_delete_record v (bh_start_index (bb_header b) + n) tx b = (Inr True, ?b)"
    using av upd session_in_tx [OF ses, folded b0_def] held_check_txid [OF h0] cond rd st
    unfolding blk_delete_record_def
    by (simp add: cmd_simps rec_valid_state_def hd)
  show ?thesis
  proof (rule that [OF ev])
    show "blk_session v tx ?b"
      by (rule held_session, rule held_cong [OF h0]) (use held_facts [OF h0] in simp_all)
    show "blk_repr ?b cs ps"
      using rep0 by (rule repr_cong) simp_all
    show "blk_tx ?b cs ps"
      using txr by (simp add: blk_tx_def b0_def)
    show "blk_releasable v ?b = blk_releasable v b"
      using releasable_cong [of ?b b0] by (simp add: b0_def)
  qed (auto simp: b0_def)
qed

text \<open>C32. After the commit of a transaction that marked each of its
  deletions once, and marked only readable records, a block whose deleted-record count was right
  passes the sanity check.\<close>

theorem block_sanity_after_commit:
  assumes "blk_session v tx b" "blk_releasable v b" "blk_repr b cs ps" "blk_tx b cs ps"
    and "distinct (bb_deletes b)"
    and del: "\<forall>i \<in> set (bb_deletes b). bh_start_index (bb_header b) \<le> i \<and> i < bh_last_index (bb_header b)
           \<and> rh_state (fst (cs ! (i - bh_start_index (bb_header b)))) = R_READABLE"
    and cnt: "deleted_chunks cs = bh_deleted_records (bb_header b)"
    and small: "bh_last_index (bb_header b) + length ps < 2 ^ 32" and fuel: "length cs + length ps \<le> fuel"
  shows "\<exists>b' r. blk_commit v tx b = (Inr (), b') \<and> blk_check_sanity fuel b' = Some (Inr r, b')"
proof -
  let ?s = "bh_start_index (bb_header b)" and ?ds = "bb_deletes b"
  let ?cs = "mark ?s ?ds cs @ map (with_state R_READABLE) ps"
  obtain b' where c: "blk_commit v tx b = (Inr (), b')" "blk_repr b' ?cs []" "bb_available b'"
    "bh_last_index (bb_header b') = bh_last_index (bb_header b) + length ps"
    "bh_deleted_records (bb_header b') = (inc32 ^^ length ?ds) (bh_deleted_records (bb_header b))"
    by (rule commit_spec [OF assms(1-4)]) (use del in auto)
  have last: "bh_last_index (bb_header b) = ?s + length cs"
    using assms(3) by (simp add: blk_repr_def)
  have d: "deleted_chunks ?cs = deleted_chunks cs + length ?ds"
    using deleted_mark [OF assms(5), of ?s cs] del last by simp
  have "deleted_chunks ?cs \<le> length cs + length ps"
    using deleted_chunks_le [of ?cs] by simp
  then have "deleted_chunks cs + length ?ds < 2 ^ 32"
    using d small last by linarith
  then have "bh_deleted_records (bb_header b') = deleted_chunks ?cs"
    using c(5) d cnt inc32_pow [of "length ?ds" "deleted_chunks cs"] by simp
  then show ?thesis
    using check_sanity_spec [OF c(2,3), of fuel] c(1,4) small fuel by auto
qed

text \<open>A record can be marked twice in one transaction; the commit counts
  it twice and the sanity check of the block fails from then on.\<close>

theorem block_double_delete:
  assumes "blk_session v tx b" "blk_releasable v b" "blk_repr b cs []" "blk_tx b cs []"
    and "bb_deletes b = []" and up: "bh_write_state (bb_header b) = WRITABLE"
    and n: "n < length cs" "rh_state (fst (cs ! n)) = R_READABLE"
    and cnt: "deleted_chunks cs = bh_deleted_records (bb_header b)"
    and small: "bh_last_index (bb_header b) + 1 < 2 ^ 32" and fuel: "length cs \<le> fuel"
  shows "\<exists>b1 b2 b'. blk_delete_record v (bh_start_index (bb_header b) + n) tx b = (Inr True, b1)
    \<and> blk_delete_record v (bh_start_index (bb_header b) + n) tx b1 = (Inr True, b2)
    \<and> blk_commit v tx b2 = (Inr (), b')
    \<and> blk_check_sanity fuel b' = Some (Inl (Fs_block_error ERRCODE_BLOCK_SANITY_FAILED), b')"
proof -
  let ?s = "bh_start_index (bb_header b)"
  obtain b1 where b1: "blk_delete_record v (?s + n) tx b = (Inr True, b1)" "blk_session v tx b1"
    "blk_repr b1 cs []" "blk_tx b1 cs []" "bb_deletes b1 = [?s + n]" "blk_releasable v b1"
    and h1: "\<exists>t. bb_header b1 = (bb_header b)\<lparr>bh_update_time := t\<rparr>"
    by (rule delete_record_spec [OF assms(1,3,4) up n]) (use assms(2,5) in simp_all)
  have h1': "bh_start_index (bb_header b1) = ?s" "bh_write_state (bb_header b1) = WRITABLE"
    using h1 up by auto
  obtain b2 where b2: "blk_delete_record v (?s + n) tx b1 = (Inr True, b2)" "blk_session v tx b2"
    "blk_repr b2 cs []" "blk_tx b2 cs []" "bb_deletes b2 = [?s + n, ?s + n]" "blk_releasable v b2"
    and h2: "\<exists>t. bb_header b2 = (bb_header b1)\<lparr>bh_update_time := t\<rparr>"
    by (rule delete_record_spec [OF b1(2-4) h1'(2) n]) (use b1 h1'(1) in simp_all)
  have h2': "bh_start_index (bb_header b2) = ?s" "bh_last_index (bb_header b2) = bh_last_index (bb_header b)"
    "bh_deleted_records (bb_header b2) = bh_deleted_records (bb_header b)"
    using h1 h2 by auto
  have last: "bh_last_index (bb_header b) = ?s + length cs"
    using assms(3) by (simp add: blk_repr_def)
  let ?cs = "cs[n := with_state R_DELETED (cs ! n)]"
  have mk: "mark ?s [?s + n, ?s + n] cs = ?cs"
    using n(1) by simp
  obtain b' where c: "blk_commit v tx b2 = (Inr (), b')" "blk_repr b' ?cs []" "bb_available b'"
    "bh_last_index (bb_header b') = bh_last_index (bb_header b)"
    "bh_deleted_records (bb_header b') = (inc32 ^^ 2) (bh_deleted_records (bb_header b))"
    by (rule commit_spec [OF b2(2,6,3,4)])
      (use b2(5) h2' mk last n(1) in \<open>simp_all add: numeral_2_eq_2\<close>)
  have one: "deleted_chunks ?cs = Suc (deleted_chunks cs)"
    by (rule deleted_update [OF n])
  have "deleted_chunks cs < length cs"
    using one deleted_chunks_le [of ?cs] by simp
  then have "deleted_chunks cs + 2 < 2 ^ 32"
    using small last by linarith
  then have "bh_deleted_records (bb_header b') = deleted_chunks cs + 2"
    using c(5) cnt inc32_pow [of 2 "deleted_chunks cs"] by simp
  then have "deleted_chunks ?cs \<noteq> bh_deleted_records (bb_header b')"
    using one by simp
  then show ?thesis
    using check_sanity_spec [OF c(2,3), of fuel] c(1,4) small fuel b1(1) b2(1) by auto
qed

end
