(* ===== verification/BlockDemo.thy ===== *)
theory BlockDemo
  imports BlockProps
begin

section \<open>The block theorems on concrete blocks\<close>

text \<open>
  \<open>demo_block\<close> is a block in the middle of the transaction \<open>''tx''\<close> of thread \<open>''t1''\<close>, with given
  committed and pending chunks. The theorems of \<open>BlockProps\<close> are applied to it.
\<close>

definition demo_env :: blk_env where
  "demo_env = \<lparr>be_call = \<lparr>ce_pid = 7, ce_tid = ''t1'', ce_now = 1000\<rparr>, be_got = True, be_elapsed = 1,
     be_user = Some ''user'', be_write_archive = Inr, be_read_archive = (\<lambda>s. (int (length s), s))\<rparr>"

definition demo_record :: w_lock_struct where
  "demo_record = \<lparr>ws_used = True, ws_name = ''blk_1'', ws_last_used = 900, ws_write_locked = True,
     ws_state = LOCK_UNKNOWN, ws_ref_count = 0,
     ws_owner = \<lparr>ow_owner = ''user'', ow_txn_id = ''tx'', ow_process_id = 7, ow_thread_id = ''t1'',
       ow_lock_timestamp = 900, ow_last_updated = 900\<rparr>\<rparr>"

definition demo_lock :: write_lock where
  "demo_lock = \<lparr>wk_state = LOCK_FREE, wk_lock_struct = Some 0, wk_txn_id = ''tx'', wk_name = ''blk_1'',
     wk_reference_count = 1\<rparr>"

definition demo_client :: write_client where
  "demo_client = \<lparr>wc_available = True, wc_locks = [(''blk_1'', demo_lock)],
     wc_table = \<lparr>wt_version = (0, 1), wt_max_count = 1, wt_used_count = 1, wt_locks = [demo_record]\<rparr>,
     wc_xlock = \<lparr>xl_sem = 1, xl_locked = False, xl_owner = []\<rparr>\<rparr>"

definition demo_header :: "chunk list \<Rightarrow> nat \<Rightarrow> block_header" where
  "demo_header cs bsize = (new_block_header demo_env ''uid'' 1 0 PRIMARY BASIC bsize 0)
     \<lparr>bh_last_index := length cs, bh_write_offset := length (enc_chunks cs),
      bh_used_bytes := payload_bytes cs, bh_total_records := length cs mod 2 ^ 32,
      bh_deleted_records := deleted_chunks cs\<rparr>"

definition demo_block :: "chunk list \<Rightarrow> chunk list \<Rightarrow> nat \<Rightarrow> nat \<Rightarrow> nat list \<Rightarrow> base_block" where
  "demo_block cs ps room bsize dels =
     \<lparr>bb_available = True, bb_filename = ''f'', bb_lock = Some ''blk_1'', bb_header = demo_header cs bsize,
      bb_data = enc_chunks (cs @ ps) @ replicate room 0, bb_write_ptr = True, bb_updateable = True,
      bb_rollback = Some \<lparr>ri_in_transaction = True, ri_transaction_id = ''tx'', ri_start_offset = 0,
        ri_write_offset = length (enc_chunks (cs @ ps)), ri_used_bytes = payload_bytes ps,
        ri_last_index = length cs + length ps, ri_start_time = 900\<rparr>,
      bb_deletes = dels, bb_compression = False, bb_client = demo_client,
      bb_write_usage = \<lparr>us_bytes_used = 0, us_elapsed_time = 0, us_last_synced = 900\<rparr>,
      bb_read_usage = \<lparr>us_bytes_used = 0, us_elapsed_time = 0, us_last_synced = 900\<rparr>, bb_reports = []\<rparr>"

definition demo_chunk :: "nat \<Rightarrow> nat \<Rightarrow> nat \<Rightarrow> u8 list \<Rightarrow> chunk" where
  "demo_chunk i off st d = (\<lparr>rh_index = i, rh_offset = off, rh_state = st, rh_data_size = length d,
     rh_uncompressed_size = 0, rh_timestamp = 900\<rparr>, d)"

lemma demo_session [simp]: "blk_session demo_env ''tx'' (demo_block cs ps room bsize dels)"
  by (simp add: blk_session_def demo_block_def wc_session_def demo_client_def wc_find_def
      wk_session_def wk_live_def wk_mine_def wk_available_def demo_lock_def demo_record_def demo_env_def
      wt_record_def strncmp_eq_def W_LOCK_EXPIRY_def)

lemma demo_releasable [simp]: "blk_releasable demo_env (demo_block cs ps room bsize dels)"
  by (simp add: blk_releasable_def demo_block_def demo_client_def wc_find_def demo_lock_def demo_env_def)

lemma demo_tx [simp]: "blk_tx (demo_block cs ps room bsize dels) cs ps"
  by (simp add: blk_tx_def demo_block_def demo_header_def new_block_header_def)

lemma demo_fields [simp]:
  "bb_deletes (demo_block cs ps room bsize dels) = dels"
  "bb_write_ptr (demo_block cs ps room bsize dels)" "bb_updateable (demo_block cs ps room bsize dels)"
  "bb_available (demo_block cs ps room bsize dels)"
  "bh_write_state (bb_header (demo_block cs ps room bsize dels)) = WRITABLE"
  "bh_start_index (bb_header (demo_block cs ps room bsize dels)) = 0"
  "bh_last_index (bb_header (demo_block cs ps room bsize dels)) = length cs"
  "bh_block_size (bb_header (demo_block cs ps room bsize dels)) = bsize"
  "bh_deleted_records (bb_header (demo_block cs ps room bsize dels)) = deleted_chunks cs"
  "length (bb_data (demo_block cs ps room bsize dels)) = length (enc_chunks (cs @ ps)) + room"
  by (simp_all add: demo_block_def demo_header_def new_block_header_def)

lemma demo_repr:
  assumes "chunks_ok 0 0 (cs @ ps)" "length (enc_chunks (cs @ ps)) + room < 2 ^ 63"
    "\<forall>c \<in> set cs. rh_state (fst c) = R_READABLE \<or> rh_state (fst c) = R_DELETED"
    "\<forall>c \<in> set ps. rh_state (fst c) = R_DIRTY"
  shows "blk_repr (demo_block cs ps room bsize dels) cs ps"
  using assms by (auto simp: blk_repr_def demo_block_def demo_header_def new_block_header_def)

lemmas demo_chunk_simps = demo_chunk_def rec_header_ok_def record_states REC_HEADER_SIZE_def

definition demo1 :: "chunk list" where
  "demo1 = [demo_chunk 0 0 R_READABLE [1], demo_chunk 1 49 R_READABLE [2, 3]]"

lemma demo1_repr: "room < 1000 \<Longrightarrow> blk_repr (demo_block demo1 [] room bsize dels) demo1 []"
  by (rule demo_repr) (simp_all add: demo1_def demo_chunk_simps)

lemma demo1_facts: "length demo1 = 2" "map snd demo1 = [[1], [2, 3]]" "demo1 ! 1 = demo_chunk 1 49 R_READABLE [2, 3]"
  "payload_bytes demo1 = 3" "length (enc_chunks demo1) = 99" "deleted_chunks demo1 = 0"
  by (simp_all add: demo1_def demo_chunk_simps deleted_chunks_def)

lemma demo1_room: "blk_room (demo_block demo1 [] 200 500 dels) demo1 [[4, 5], [6]]"
  by (simp add: blk_room_def demo1_facts REC_HEADER_SIZE_def)

theorem block_commit_roundtrip_witness:
  "\<exists>b1 b'. blk_write_all demo_env [[4, 5], [6]] ''tx'' (demo_block demo1 [] 200 500 []) = (Inr [2, 3], b1)
    \<and> blk_commit demo_env ''tx'' b1 = (Inr (), b') \<and> blk_unlocked b'
    \<and> fst (blk_read demo_env 0 4 R_READABLE b') = Inr [[1], [2, 3], [4, 5], [6]]"
proof -
  let ?b = "demo_block demo1 [] 200 500 []"
  obtain b1 b' where b: "blk_write_all demo_env [[4, 5], [6]] ''tx'' ?b =
      (Inr [bh_last_index (bb_header ?b) ..< bh_last_index (bb_header ?b) + length [[4, 5], [6 :: u8]]], b1)"
    "blk_commit demo_env ''tx'' b1 = (Inr (), b')" "blk_unlocked b'"
    "\<forall>w. fst (blk_read w (bh_start_index (bb_header ?b)) (length demo1 + length [[4, 5], [6 :: u8]]) R_READABLE b')
           = Inr (map snd demo1 @ [[4, 5], [6]])"
    using block_commit_roundtrip [OF demo_session demo_releasable demo1_repr demo_tx demo_fields(1) demo1_room]
    by auto
  have "[2..<4] = [2, 3::nat]" by (simp add: upt_rec)
  then show ?thesis
    using b(1-3) b(4) [rule_format, of demo_env]
    by (intro exI [of _ b1] exI [of _ b']) (simp add: demo1_facts)
qed

theorem block_rollback_restores_witness:
  "\<exists>b1 b'. blk_write_all demo_env [[4, 5], [6]] ''tx'' (demo_block demo1 [] 200 500 [])
      = (fst (blk_write_all demo_env [[4, 5], [6]] ''tx'' (demo_block demo1 [] 200 500 [])), b1)
    \<and> blk_rollback demo_env ''tx'' b1 = (Inr (), b') \<and> blk_unlocked b'"
  using block_rollback_restores [OF demo_session demo_releasable demo1_repr demo_tx demo1_room] by force

theorem block_write_guarded_witness:
  "\<exists>d ri. Some [4, 5] = Some d \<and> bb_rollback (demo_block demo1 [] 200 500 []) = Some ri
    \<and> ri_in_transaction ri \<and> ri_transaction_id ri = ''tx''"
proof -
  let ?b = "demo_block demo1 [] 200 500 []"
  have rep: "blk_repr ?b demo1 []" by (rule demo1_repr) simp
  have fits: "blk_fits demo_env ?b (demo1 @ []) (length [4 :: u8, 5])"
    by (simp add: blk_fits_def demo1_facts REC_HEADER_SIZE_def)
  have sp: "fst (blk_has_space demo_env (length [4 :: u8, 5]) ?b) = Inr True"
    by (rule has_space_room [OF demo_session rep demo_tx]) (simp add: demo1_facts REC_HEADER_SIZE_def)
  obtain b' where "blk_write demo_env (Some [4, 5]) ''tx'' ?b = (Inr (bh_last_index (bb_header ?b) + length ([] :: chunk list)), b')"
    by (rule write_spec [OF demo_session rep demo_tx fits sp])
  from block_write_guarded [OF this] show ?thesis by auto
qed

theorem block_commit_deletes_witness:
  "\<exists>b'. blk_commit demo_env ''tx'' (demo_block demo1 [] 200 500 [1]) = (Inr (), b')
    \<and> fst (blk_read demo_env 0 2 R_DELETED b') = Inr [[2, 3]]
    \<and> fst (blk_read demo_env 0 2 R_READABLE b') = Inr [[1], [2, 3]]"
proof -
  let ?b = "demo_block demo1 [] 200 500 [1]"
  have rep: "blk_repr ?b demo1 []" by (rule demo1_repr) simp
  have del: "\<forall>i \<in> set (bb_deletes ?b). bh_start_index (bb_header ?b) \<le> i \<and> i < bh_last_index (bb_header ?b)"
    by (simp add: demo1_facts)
  obtain b' where b: "blk_commit demo_env ''tx'' ?b = (Inr (), b')"
    "\<forall>w. fst (blk_read w (bh_start_index (bb_header ?b)) (length demo1) R_DELETED b') =
         Inr [snd (demo1 ! n). n \<leftarrow> [0..<length demo1],
              rh_state (fst (demo1 ! n)) = R_DELETED \<or> bh_start_index (bb_header ?b) + n \<in> set (bb_deletes ?b)]"
    "\<forall>w. fst (blk_read w (bh_start_index (bb_header ?b)) (length demo1) R_READABLE b') = Inr (map snd demo1)"
    using block_commit_deletes [OF demo_session demo_releasable rep demo_tx del] by blast
  have up: "[0..<2] = [0, 1::nat]" by (simp add: upt_rec)
  show ?thesis
    using b(1) b(2) [rule_format, of demo_env] b(3) [rule_format, of demo_env]
    by (intro exI [of _ b']) (simp add: demo1_facts up, simp add: demo1_def demo_chunk_simps)
qed

definition demo2 :: "chunk list" where
  "demo2 = [demo_chunk 0 0 R_READABLE (replicate 480 7)]"

theorem block_space_sound_witness:
  "length (enc_chunks (demo2 @ [])) + REC_HEADER_SIZE + 480
    \<le> length (bb_data (demo_block demo2 [] 591 1018 []))"
proof (rule block_space_sound)
  show "blk_repr (demo_block demo2 [] 591 1018 []) demo2 []"
    by (rule demo_repr) (simp_all add: demo2_def demo_chunk_simps)
qed (simp_all add: demo2_def demo_chunk_simps blk_area_size_def)

definition demo3 :: "chunk list" where
  "demo3 = [demo_chunk 0 0 R_DIRTY [1], demo_chunk 1 49 R_DIRTY [2]]"

lemma demo3_repr: "room < 1000 \<Longrightarrow> blk_repr (demo_block [] demo3 room bsize dels) [] demo3"
  by (rule demo_repr) (simp_all add: demo3_def demo_chunk_simps)

theorem block_small_records_overrun_witness:
  "fst (blk_has_space demo_env 1 (demo_block [] demo3 12 100 [])) = Inr True
    \<and> fst (blk_write demo_env (Some [3]) ''tx'' (demo_block [] demo3 12 100 [])) = Inl Mem_fault"
proof -
  have r: "blk_repr (demo_block [] demo3 12 100 []) [] demo3" by (rule demo3_repr) simp
  show ?thesis
    using block_small_records_overrun [OF demo_session r demo_tx, of "[3]"]
    by (simp add: demo3_def demo_chunk_simps)
qed

theorem block_space_falls_through_witness:
  "fst (blk_get_free_space demo_env (demo_block [] demo3 12 50 [])) = Inr 2
    \<and> fst (blk_has_space demo_env 2 (demo_block [] demo3 12 50 [])) = Inr True"
proof -
  have r: "blk_repr (demo_block [] demo3 12 50 []) [] demo3" by (rule demo3_repr) simp
  show ?thesis
    using block_space_falls_through [OF demo_session r demo_tx, of 2]
    by (simp add: demo3_def demo_chunk_simps)
qed

theorem block_sanity_after_commit_witness:
  "\<exists>b' r. blk_commit demo_env ''tx'' (demo_block demo1 [] 200 500 [1]) = (Inr (), b')
     \<and> blk_check_sanity 2 b' = Some (Inr r, b')"
proof -
  have r: "blk_repr (demo_block demo1 [] 200 500 [1]) demo1 []" by (rule demo1_repr) simp
  show ?thesis
    by (rule block_sanity_after_commit [OF demo_session demo_releasable r demo_tx])
      (auto simp: demo1_def demo_chunk_simps deleted_chunks_def)
qed

theorem block_double_delete_witness:
  "\<exists>b1 b2 b'. blk_delete_record demo_env 1 ''tx'' (demo_block demo1 [] 200 500 []) = (Inr True, b1)
    \<and> blk_delete_record demo_env 1 ''tx'' b1 = (Inr True, b2) \<and> blk_commit demo_env ''tx'' b2 = (Inr (), b')
    \<and> blk_check_sanity 2 b' = Some (Inl (Fs_block_error ERRCODE_BLOCK_SANITY_FAILED), b')"
proof -
  have r: "blk_repr (demo_block demo1 [] 200 500 []) demo1 []" by (rule demo1_repr) simp
  have st: "rh_state (fst (demo1 ! 1)) = R_READABLE" "1 < length demo1"
    by (simp_all add: demo1_def demo_chunk_def)
  show ?thesis
    using block_double_delete [OF demo_session demo_releasable r demo_tx _ _ st(2,1), of 2]
    by (simp add: demo1_facts)
qed

end
