(* ===== verification/BlockIndex.thy ===== *)
theory BlockIndex
  imports BaseBlock
begin

section \<open>The block index (core/includes/base_block_index.h, core/src/base_block_index.cpp)\<close>

text \<open>
  The index of a block is a second mapped file: a header and an array of fixed-size entries, one
  for each record, in the order of the record indices. It has no lock of its own; its
  transactions follow those of its block. \<open>bi_mapped\<close> is false when \<open>header\<close> is a null pointer.
  An entry is given by its offset in the data area.
\<close>

record block_index =
  bi_available :: bool
  bi_mapped :: bool
  bi_filename :: string
  bi_header :: index_header
  bi_data :: mem
  bi_write_ptr :: bool
  bi_rollback :: "rollback_info option"
  bi_deletes :: "nat list"
  bi_write_usage :: usage_stat
  bi_read_usage :: usage_stat
  bi_reports :: "(nat \<times> nat) list"

definition BLOCK_INDEX_VERSION :: "nat \<times> nat" where "BLOCK_INDEX_VERSION = (0, 1)"

text \<open>\<open>DEFAULT_BLOAT_FACTOR\<close> is the integer division \<open>15 / 10\<close>.\<close>

definition DEFAULT_BLOAT_FACTOR :: nat where "DEFAULT_BLOAT_FACTOR = 15 div 10"

definition bi_flush_write_usage :: "blk_env \<Rightarrow> block_index \<Rightarrow> block_index" where
  "bi_flush_write_usage v b =
     b\<lparr>bi_reports := bi_reports b @ [(us_bytes_used (bi_write_usage b), us_elapsed_time (bi_write_usage b))],
       bi_write_usage := \<lparr>us_bytes_used = 0, us_elapsed_time = 0, us_last_synced = be_now v\<rparr>\<rparr>"

definition bi_update_write_usage :: "blk_env \<Rightarrow> nat \<Rightarrow> block_index \<Rightarrow> block_index" where
  "bi_update_write_usage v bytes b =
     (let b1 = b\<lparr>bi_write_usage := usage_add bytes (be_elapsed v) (bi_write_usage b)\<rparr> in
      if be_now v - us_last_synced (bi_write_usage b1) > BLOCK_USAGE_FLUSH_INTERVAL
      then bi_flush_write_usage v b1 else b1)"

definition bi_update_read_usage :: "blk_env \<Rightarrow> nat \<Rightarrow> block_index \<Rightarrow> block_index" where
  "bi_update_read_usage v bytes b =
     (let b1 = b\<lparr>bi_read_usage := usage_add bytes (be_elapsed v) (bi_read_usage b)\<rparr> in
      if be_now v - us_last_synced (bi_read_usage b1) > BLOCK_USAGE_FLUSH_INTERVAL
      then bi_flush_write_usage v b1 else b1)"

subsection \<open>Transactions\<close>

definition bi_in_transaction :: "block_index \<Rightarrow> bool" where
  "bi_in_transaction b = (case bi_rollback b of None \<Rightarrow> False | Some ri \<Rightarrow> ri_in_transaction ri)"

definition bi_setup_transaction :: "blk_env \<Rightarrow> string \<Rightarrow> (unit, block_index) cmd" where
  "bi_setup_transaction v txid =
     c_bind (c_check Mem_fault bi_mapped) (\<lambda>_.
     c_mod (\<lambda>b. b\<lparr>bi_rollback := Some \<lparr>ri_in_transaction = True, ri_transaction_id = txid,
         ri_start_offset = ih_write_offset (bi_header b),
         ri_write_offset = ih_write_offset (bi_header b), ri_used_bytes = 0,
         ri_last_index = ih_last_index (bi_header b), ri_start_time = be_now v\<rparr>,
       bi_deletes := []\<rparr>))"

definition bi_end_transaction :: "(unit, block_index) cmd" where
  "bi_end_transaction b =
     (case bi_rollback b of
        None \<Rightarrow> (Inl Null_pointer, b)
      | Some ri \<Rightarrow> (Inr (), b\<lparr>bi_rollback := Some ((ri_ended ri)\<lparr>ri_start_offset := 0\<rparr>), bi_deletes := []\<rparr>))"

definition bi_get_last_index :: "block_index \<Rightarrow> nat" where
  "bi_get_last_index b = (case bi_rollback b of
       Some ri \<Rightarrow> if ri_in_transaction ri then ri_last_index ri else ih_last_index (bi_header b)
     | None \<Rightarrow> ih_last_index (bi_header b))"

definition bi_get_write_ptr :: "(nat, block_index) cmd" where
  "bi_get_write_ptr =
     c_bind (c_check Mem_fault bi_write_ptr) (\<lambda>_.
     c_get (\<lambda>b. case bi_rollback b of
       Some ri \<Rightarrow> if ri_in_transaction ri then ri_write_offset ri else ih_write_offset (bi_header b)
     | None \<Rightarrow> ih_write_offset (bi_header b)))"

text \<open>The subtraction is on \<open>uint64_t\<close> and wraps around.\<close>

definition bi_get_free_space :: "(nat, block_index) cmd" where
  "bi_get_free_space =
     c_bind (c_check State_unavailable bi_available) (\<lambda>_.
     c_get (\<lambda>b.
       let h = bi_header b;
           tx_used = (case bi_rollback b of None \<Rightarrow> 0
             | Some ri \<Rightarrow> if ri_in_transaction ri then ri_used_bytes ri else 0) in
       sub64 (ih_total_size h) (add64 (add64 (ih_used_size h) tx_used) INDEX_HEADER_SIZE)))"

definition bi_get_used_space :: "(nat, block_index) cmd" where
  "bi_get_used_space =
     c_bind (c_check State_unavailable bi_available) (\<lambda>_.
     c_get (\<lambda>b. add64 (ih_used_size (bi_header b)) (case bi_rollback b of None \<Rightarrow> 0
             | Some ri \<Rightarrow> if ri_in_transaction ri then ri_used_bytes ri else 0)))"

definition bi_has_space :: "nat \<Rightarrow> (bool, block_index) cmd" where
  "bi_has_space sz = c_bind bi_get_free_space (\<lambda>free. c_ret (free \<ge> sz))"

definition bi_check_txid :: "string \<Rightarrow> (unit, block_index) cmd" where
  "bi_check_txid tx b =
     (case bi_rollback b of
        None \<Rightarrow> (Inl Mem_fault, b)
      | Some ri \<Rightarrow> if ri_transaction_id ri = tx then (Inr (), b) else (Inl Precondition, b))"

subsection \<open>Entries\<close>

definition bi_poke :: "nat \<Rightarrow> u8 list \<Rightarrow> (unit, block_index) cmd" where
  "bi_poke off bs b = (case poke (bi_data b) off bs of
     None \<Rightarrow> (Inl Mem_fault, b) | Some m \<Rightarrow> (Inr (), b\<lparr>bi_data := m\<rparr>))"

definition entry_at :: "mem \<Rightarrow> nat \<Rightarrow> index_ptr option" where
  "entry_at m off = map_option dec_index_ptr (peek m off INDEX_PTR_SIZE)"

definition bi_ri_update :: "(rollback_info \<Rightarrow> rollback_info) \<Rightarrow> block_index \<Rightarrow> block_index" where
  "bi_ri_update f b = b\<lparr>bi_rollback := map_option f (bi_rollback b)\<rparr>"

definition bi_write_index :: "blk_env \<Rightarrow> nat \<Rightarrow> nat \<Rightarrow> nat \<Rightarrow> string \<Rightarrow> (nat, block_index) cmd" where
  "bi_write_index v index offset sz tx =
     c_bind (c_all [c_check State_unavailable bi_available,
                    c_check Precondition (\<lambda>b. ih_write_state (bi_header b) = WRITABLE),
                    c_assert Precondition (bi_has_space INDEX_PTR_SIZE),
                    c_check Precondition bi_in_transaction,
                    c_check Precondition (\<lambda>_. tx \<noteq> []),
                    bi_check_txid tx,
                    c_check Precondition (\<lambda>b. index = ih_start_index (bi_header b)
                      \<or> index = add64 (bi_get_last_index b) 1)]) (\<lambda>_.
     c_bind bi_get_write_ptr (\<lambda>wptr.
     c_bind (bi_poke wptr (replicate INDEX_PTR_SIZE 0)) (\<lambda>_.
     c_bind (bi_poke wptr (enc_index_ptr \<lparr>ip_index = index, ip_state = BLOCK_RECORD_STATE_USED,
         ip_offset = offset, ip_size = sz\<rparr>)) (\<lambda>_.
     c_bind (c_mod (bi_ri_update (\<lambda>r. r\<lparr>ri_last_index := index,
         ri_used_bytes := add64 (ri_used_bytes r) INDEX_PTR_SIZE,
         ri_write_offset := add64 (ri_write_offset r) INDEX_PTR_SIZE\<rparr>))) (\<lambda>_.
     c_bind (c_mod (bi_update_write_usage v INDEX_PTR_SIZE)) (\<lambda>_.
     c_ret wptr))))))"

definition bi_offset :: "block_index \<Rightarrow> nat \<Rightarrow> nat" where
  "bi_offset b index = (sub64 index (ih_start_index (bi_header b)) * INDEX_PTR_SIZE) mod 2 ^ 64"

definition bi_read_index :: "blk_env \<Rightarrow> nat \<Rightarrow> bool \<Rightarrow> ((nat \<times> index_ptr) option, block_index) cmd" where
  "bi_read_index v index all_states =
     c_bind (c_all [c_check State_unavailable bi_available,
       c_check Precondition (\<lambda>b. ih_start_index (bi_header b) \<le> index \<and> index \<le> ih_last_index (bi_header b))])
     (\<lambda>_ b.
     let off = bi_offset b index in
     case entry_at (bi_data b) off of
       None \<Rightarrow> (Inl Mem_fault, b)
     | Some p \<Rightarrow>
         if ip_index p \<noteq> index then (Inl (Fs_block_error ERRCODE_INDEX_COPRRUPTED), b)
         else if \<not> all_states \<and> ip_state p \<noteq> BLOCK_RECORD_STATE_READABLE then (Inr None, b)
         else (Inr (Some (off, p)), bi_update_read_usage v INDEX_PTR_SIZE b))"

definition bi_delete_index :: "nat \<Rightarrow> string \<Rightarrow> (bool, block_index) cmd" where
  "bi_delete_index index tx =
     c_bind (c_all [c_check State_unavailable bi_available,
                    c_check Precondition (\<lambda>b. ih_write_state (bi_header b) = WRITABLE),
                    c_check Precondition bi_in_transaction,
                    c_check Precondition (\<lambda>_. tx \<noteq> []),
                    bi_check_txid tx]) (\<lambda>_ b.
     case entry_at (bi_data b) (bi_offset b index) of
       None \<Rightarrow> (Inl Mem_fault, b)
     | Some p \<Rightarrow>
         if ip_index p \<noteq> index then (Inl (Fs_block_error ERRCODE_INDEX_COPRRUPTED), b)
         else (Inr True, b\<lparr>bi_deletes := bi_deletes b @ [index]\<rparr>))"

subsection \<open>Commit and rollback\<close>

definition bi_set_state :: "nat \<Rightarrow> nat \<Rightarrow> (unit, block_index) cmd" where
  "bi_set_state off st = bi_poke (off + 8) (nat_bytes 1 st)"

text \<open>The loop over the entries of the transaction, with \<open>fuel\<close> steps.\<close>

fun bi_publish :: "nat \<Rightarrow> nat \<Rightarrow> nat \<Rightarrow> block_index \<Rightarrow> (unit, block_index) res option" where
  "bi_publish 0 stop off b = (if off < stop then None else Some (Inr (), b))"
| "bi_publish (Suc fuel) stop off b =
     (if off < stop
      then (case entry_at (bi_data b) off of
              None \<Rightarrow> Some (Inl Mem_fault, b)
            | Some p \<Rightarrow>
                if ip_state p \<noteq> BLOCK_RECORD_STATE_USED
                then Some (Inl (Fs_block_error ERRCODE_INDEX_COPRRUPTED), b)
                else (case bi_set_state off BLOCK_RECORD_STATE_READABLE b of
                        (Inl e, b') \<Rightarrow> Some (Inl e, b')
                      | (Inr _, b') \<Rightarrow> bi_publish fuel stop (add64 off INDEX_PTR_SIZE) b'))
      else Some (Inr (), b))"

fun bi_mark_deleted :: "blk_env \<Rightarrow> nat list \<Rightarrow> (unit, block_index) cmd" where
  "bi_mark_deleted v [] = c_ret ()"
| "bi_mark_deleted v (i # is) =
     c_bind (bi_read_index v i True) (\<lambda>p.
     case p of
       None \<Rightarrow> c_throw (Fs_block_error ERRCODE_INDEX_COPRRUPTED)
     | Some (off, _) \<Rightarrow>
         c_bind (bi_set_state off BLOCK_RECORD_STATE_DELETED) (\<lambda>_. bi_mark_deleted v is))"

definition bi_commit_header :: "rollback_info \<Rightarrow> index_header \<Rightarrow> index_header" where
  "bi_commit_header ri h = h\<lparr>ih_last_index := ri_last_index ri,
     ih_used_size := add64 (ih_used_size h) (ri_used_bytes ri), ih_write_offset := ri_write_offset ri\<rparr>"

definition bi_publish_all :: "(unit, block_index) cmd" where
  "bi_publish_all b =
     (case bi_rollback b of
        None \<Rightarrow> (Inl Mem_fault, b)
      | Some ri \<Rightarrow>
          if ri_start_offset ri < ri_write_offset ri \<and> \<not> bi_write_ptr b then (Inl Mem_fault, b)
          else (case bi_publish (ri_write_offset ri) (ri_write_offset ri) (ri_start_offset ri) b of
             None \<Rightarrow> (Inl Mem_fault, b)
           | Some (Inl e, b') \<Rightarrow> (Inl e, b')
           | Some (Inr _, b') \<Rightarrow> (Inr (), b'\<lparr>bi_header := bi_commit_header ri (bi_header b')\<rparr>)))"

definition bi_commit :: "blk_env \<Rightarrow> string \<Rightarrow> (unit, block_index) cmd" where
  "bi_commit v tx =
     c_bind (c_all [c_check Precondition bi_in_transaction, bi_check_txid tx]) (\<lambda>_.
     c_bind bi_publish_all (\<lambda>_.
     c_bind (\<lambda>b. bi_mark_deleted v (bi_deletes b) b) (\<lambda>_.
     bi_end_transaction)))"

definition bi_rollback_tx :: "string \<Rightarrow> (unit, block_index) cmd" where
  "bi_rollback_tx tx =
     c_bind (c_all [c_check Precondition bi_in_transaction, bi_check_txid tx]) (\<lambda>_. bi_end_transaction)"

subsection \<open>Creating, opening and closing\<close>

type_synonym index_file = "index_header \<times> mem"

definition bi_file_size :: "nat \<Rightarrow> nat" where
  "bi_file_size estimated_records = (estimated_records * INDEX_PTR_SIZE * DEFAULT_BLOAT_FACTOR) mod 2 ^ 64"

definition new_index_header :: "blk_env \<Rightarrow> nat \<Rightarrow> string \<Rightarrow> nat \<Rightarrow> nat \<Rightarrow> index_header" where
  "new_index_header v block_id block_uuid estimated_records start_index =
     \<lparr>ih_version = BLOCK_INDEX_VERSION, ih_block_uid = block_uuid, ih_block_id = block_id,
      ih_create_time = be_now v, ih_update_time = be_now v, ih_start_index = start_index,
      ih_last_index = start_index, ih_write_state = WRITABLE,
      ih_total_size = bi_file_size estimated_records, ih_used_size = 0, ih_write_offset = 0\<rparr>"

definition bi_create_index0 :: "blk_env \<Rightarrow> nat \<Rightarrow> string \<Rightarrow> string \<Rightarrow> nat \<Rightarrow> nat \<Rightarrow> bool \<Rightarrow> bool \<Rightarrow> bool
    \<Rightarrow> (unit, block_index) cmd" where
  "bi_create_index0 v block_id block_uuid filename estimated_records start_index overwrite exists removed b =
     (if exists \<and> (\<not> overwrite \<or> \<not> removed) then (Inl Fs_error, b\<lparr>bi_available := False\<rparr>)
      else (Inr (), b\<lparr>bi_header := new_index_header v block_id block_uuid estimated_records start_index,
              bi_data := replicate (bi_file_size estimated_records) 0, bi_mapped := True,
              bi_available := True, bi_filename := filename @ ''.index''\<rparr>))"

definition bi_close :: "block_index \<Rightarrow> block_index" where
  "bi_close b = b\<lparr>bi_available := False, bi_rollback := None, bi_mapped := False, bi_write_ptr := False\<rparr>"

definition bi_create_index :: "blk_env \<Rightarrow> nat \<Rightarrow> string \<Rightarrow> string \<Rightarrow> nat \<Rightarrow> nat \<Rightarrow> bool \<Rightarrow> bool \<Rightarrow> bool
    \<Rightarrow> (unit, block_index) cmd" where
  "bi_create_index v block_id block_uuid filename estimated_records start_index overwrite exists removed =
     c_bind (bi_create_index0 v block_id block_uuid filename estimated_records start_index overwrite exists removed)
       (\<lambda>_. c_mod bi_close)"

definition bi_open_index0 :: "nat \<Rightarrow> string \<Rightarrow> string \<Rightarrow> index_file option \<Rightarrow> (unit, block_index) cmd" where
  "bi_open_index0 block_id block_uuid filename file b =
     (case file of
        None \<Rightarrow> (Inl (Fs_block_error ERRCODE_INDEX_FILE_NOUT_FOUND), b)
      | Some (h, m) \<Rightarrow>
          (let b1 = b\<lparr>bi_header := h, bi_data := m, bi_mapped := True\<rparr> in
           if ih_block_id h \<noteq> block_id then (Inl (Fs_block_error ERRCODE_INDEX_COPRRUPTED), b1)
           else if \<not> strncmp_eq (ih_block_uid h) block_uuid (length block_uuid)
           then (Inl (Fs_block_error ERRCODE_INDEX_COPRRUPTED), b1)
           else if \<not> version_compatible (ih_version h) BLOCK_INDEX_VERSION
           then (Inl (Fs_block_error ERRCODE_INDEX_DATA_VERSION), b1)
           else (Inr (), b1\<lparr>bi_filename := filename @ ''.index''\<rparr>)))"

definition bi_open_index :: "nat \<Rightarrow> string \<Rightarrow> string \<Rightarrow> index_file option \<Rightarrow> bool \<Rightarrow> (unit, block_index) cmd" where
  "bi_open_index block_id block_uuid filename file for_update =
     c_bind (bi_open_index0 block_id block_uuid filename file) (\<lambda>_.
     c_mod (\<lambda>b. b\<lparr>bi_write_ptr := (ih_write_state (bi_header b) = WRITABLE \<or> for_update), bi_available := True\<rparr>))"

definition bi_finish :: "(unit, block_index) cmd" where
  "bi_finish = c_bind (c_check Mem_fault bi_mapped) (\<lambda>_.
     c_mod (\<lambda>b. b\<lparr>bi_header := (bi_header b)\<lparr>ih_write_state := CLOSED\<rparr>\<rparr>))"

end
