(* ===== verification/IndexSpec.thy ===== *)
theory IndexSpec
  imports BlockIndex
begin

section \<open>What the block index promises\<close>

text \<open>
  Abstractly an index is the list of its committed entries and the list of those the running
  transaction appended, with consecutive indices. The lemmas show reading, writing, commit and
  rollback on it, on top of the entry lemmas of \<open>fixed_codec\<close> (\<open>ptr_codec\<close>).
\<close>

abbreviation enc_entries :: "index_ptr list \<Rightarrow> u8 list" where
  "enc_entries es \<equiv> concat (map enc_index_ptr es)"

definition entries_ok :: "nat \<Rightarrow> index_ptr list \<Rightarrow> bool" where
  "entries_ok s es \<longleftrightarrow> (\<forall>n < length es. ip_index (es ! n) = s + n \<and> index_ptr_ok (es ! n))"

definition last_of :: "nat \<Rightarrow> index_ptr list \<Rightarrow> nat" where
  "last_of s es = s + (length es - 1)"

definition bi_repr :: "block_index \<Rightarrow> index_ptr list \<Rightarrow> index_ptr list \<Rightarrow> bool" where
  "bi_repr b es ps \<longleftrightarrow>
     (\<exists>post. bi_data b = enc_entries (es @ ps) @ post)
     \<and> entries_ok (ih_start_index (bi_header b)) (es @ ps)
     \<and> ih_start_index (bi_header b) + length (bi_data b) < 2 ^ 63
     \<and> ih_write_offset (bi_header b) = length es * INDEX_PTR_SIZE
     \<and> ih_used_size (bi_header b) = length es * INDEX_PTR_SIZE
     \<and> ih_last_index (bi_header b) = last_of (ih_start_index (bi_header b)) es
     \<and> ih_total_size (bi_header b) = length (bi_data b)
     \<and> (\<forall>p \<in> set es. ip_state p = BLOCK_RECORD_STATE_READABLE \<or> ip_state p = BLOCK_RECORD_STATE_DELETED)
     \<and> (\<forall>p \<in> set ps. ip_state p = BLOCK_RECORD_STATE_USED)
     \<and> bi_available b"

definition bi_tx :: "block_index \<Rightarrow> string \<Rightarrow> index_ptr list \<Rightarrow> index_ptr list \<Rightarrow> bool" where
  "bi_tx b tx es ps \<longleftrightarrow> bi_write_ptr b \<and> (\<exists>ri. bi_rollback b = Some ri \<and> ri_in_transaction ri
     \<and> ri_transaction_id ri = tx \<and> ri_start_offset ri = length es * INDEX_PTR_SIZE
     \<and> ri_write_offset ri = length (es @ ps) * INDEX_PTR_SIZE
     \<and> ri_used_bytes ri = length ps * INDEX_PTR_SIZE
     \<and> ri_last_index ri = last_of (ih_start_index (bi_header b)) (es @ ps))"

lemma entries_ok_append: "entries_ok s (es @ [p]) \<longleftrightarrow> entries_ok s es \<and> ip_index p = s + length es \<and> index_ptr_ok p"
  by (auto simp: entries_ok_def nth_append less_Suc_eq)

lemma entries_length [simp]: "length (enc_entries es) = length es * INDEX_PTR_SIZE"
  by (rule ptr_codec.concat_length)

lemma entries_length_comp [simp]: "length (concat (map (enc_index_ptr \<circ> f) cs)) = length cs * INDEX_PTR_SIZE"
  using entries_length [of "map f cs"] by simp

lemma entries_le: "bi_repr b es ps \<Longrightarrow> length (es @ ps) * INDEX_PTR_SIZE \<le> length (bi_data b)"
  by (auto simp: bi_repr_def add_mult_distrib)

lemma repr_setup:
  assumes "bi_repr b es []" "bi_mapped b" "bi_write_ptr b"
  shows "\<exists>b'. bi_setup_transaction v tx b = (Inr (), b') \<and> bi_repr b' es [] \<and> bi_tx b' tx es [] \<and> bi_deletes b' = []
    \<and> ih_start_index (bi_header b') = ih_start_index (bi_header b) \<and> bi_write_ptr b' \<and> bi_mapped b'"
  using assms by (simp add: bi_setup_transaction_def cmd_simps bi_repr_def bi_tx_def)

text \<open>Read-only parts of the state: what the entries and the transaction are made of.\<close>

definition bi_same :: "block_index \<Rightarrow> block_index \<Rightarrow> bool" where
  "bi_same b b' \<longleftrightarrow> bi_data b' = bi_data b \<and> bi_header b' = bi_header b \<and> bi_rollback b' = bi_rollback b
     \<and> bi_deletes b' = bi_deletes b \<and> bi_write_ptr b' = bi_write_ptr b \<and> bi_available b' = bi_available b
     \<and> bi_mapped b' = bi_mapped b"

lemma bi_same_refl [simp]: "bi_same b b"
  by (simp add: bi_same_def)

lemma bi_same_trans: "bi_same a b \<Longrightarrow> bi_same b c \<Longrightarrow> bi_same a c"
  by (simp add: bi_same_def)

lemma bi_same_read_usage [simp]: "bi_same b (bi_update_read_usage v n b)" "bi_same b (bi_update_write_usage v n b)"
  by (simp_all add: bi_same_def bi_update_read_usage_def bi_update_write_usage_def bi_flush_write_usage_def Let_def)

lemma bi_same_repr: "bi_same b b' \<Longrightarrow> bi_repr b' es ps = bi_repr b es ps"
  by (simp add: bi_same_def bi_repr_def)

lemma bi_same_tx: "bi_same b b' \<Longrightarrow> bi_tx b' tx es ps = bi_tx b tx es ps"
  by (simp add: bi_same_def bi_tx_def)

subsection \<open>Reading\<close>

lemma bi_offset_nth:
  assumes "bi_repr b es ps" "n < length (es @ ps)"
  shows "bi_offset b (ih_start_index (bi_header b) + n) = n * INDEX_PTR_SIZE"
proof -
  have b: "ih_start_index (bi_header b) + length (bi_data b) < 2 ^ 63"
    using assms(1) by (simp add: bi_repr_def)
  have le: "length (es @ ps) * INDEX_PTR_SIZE \<le> length (bi_data b)"
    by (rule entries_le [OF assms(1)])
  have n: "n * INDEX_PTR_SIZE < 2 ^ 64" "ih_start_index (bi_header b) + n < 2 ^ 64"
    using assms(2) le b by (auto simp: INDEX_PTR_SIZE_def)
  then have "sub64 (ih_start_index (bi_header b) + n) (ih_start_index (bi_header b)) = n"
    using sub64_le [of "ih_start_index (bi_header b)" "ih_start_index (bi_header b) + n"] by simp
  then show ?thesis
    using n by (simp add: bi_offset_def)
qed

lemma entry_at_nth:
  assumes "bi_repr b es ps" "n < length (es @ ps)"
  shows "entry_at (bi_data b) (n * INDEX_PTR_SIZE) = Some ((es @ ps) ! n)"
proof -
  obtain post where data: "bi_data b = enc_entries (es @ ps) @ post"
    using assms(1) by (auto simp: bi_repr_def)
  have "index_ptr_ok ((es @ ps) ! n)"
    using assms by (auto simp: bi_repr_def entries_ok_def)
  then show ?thesis
    using ptr_codec.entry_read [OF assms(2)] data by (simp add: entry_at_def)
qed

lemma read_index_spec:
  assumes rep: "bi_repr b es ps" and n: "n < length es"
  shows "bi_read_index v (ih_start_index (bi_header b) + n) a b =
    (if a \<or> ip_state (es ! n) = BLOCK_RECORD_STATE_READABLE
     then (Inr (Some (n * INDEX_PTR_SIZE, es ! n)), bi_update_read_usage v INDEX_PTR_SIZE b)
     else (Inr None, b))"
proof -
  have n': "n < length (es @ ps)" using n by simp
  have "ip_index ((es @ ps) ! n) = ih_start_index (bi_header b) + n"
    using rep n' by (auto simp: bi_repr_def entries_ok_def)
  moreover have "bi_available b" "ih_start_index (bi_header b) + n \<le> ih_last_index (bi_header b)"
    using rep n by (auto simp: bi_repr_def last_of_def)
  ultimately show ?thesis
    using bi_offset_nth [OF rep n'] entry_at_nth [OF rep n'] n
    by (simp add: bi_read_index_def cmd_simps nth_append Let_def)
qed

subsection \<open>Writing\<close>

definition new_entry :: "block_index \<Rightarrow> index_ptr list \<Rightarrow> nat \<Rightarrow> nat \<Rightarrow> index_ptr" where
  "new_entry b qs off n = \<lparr>ip_index = ih_start_index (bi_header b) + length qs,
     ip_state = BLOCK_RECORD_STATE_USED, ip_offset = off, ip_size = n\<rparr>"

text \<open>The space check compares with a difference that may have wrapped around.\<close>

lemma bi_free_space_eval:
  assumes rep: "bi_repr b es ps" and tx: "bi_tx b tx es ps"
  shows "bi_get_free_space b =
    (Inr (sub64 (length (bi_data b)) (length (es @ ps) * INDEX_PTR_SIZE + INDEX_HEADER_SIZE)), b)"
proof -
  obtain ri where ri: "bi_rollback b = Some ri" "ri_in_transaction ri" "ri_used_bytes ri = length ps * INDEX_PTR_SIZE"
    using tx by (auto simp: bi_tx_def)
  have bnd: "length (bi_data b) < 2 ^ 63" "length (es @ ps) * INDEX_PTR_SIZE \<le> length (bi_data b)"
    using rep entries_le [OF rep] by (auto simp: bi_repr_def)
  have "add64 (add64 (length es * INDEX_PTR_SIZE) (length ps * INDEX_PTR_SIZE)) INDEX_HEADER_SIZE
      = length (es @ ps) * INDEX_PTR_SIZE + INDEX_HEADER_SIZE"
    using bnd by (simp add: add64_small INDEX_HEADER_SIZE_def algebra_simps)
  then show ?thesis
    using rep ri by (simp add: bi_get_free_space_def cmd_simps bi_repr_def Let_def)
qed

lemma bi_has_space_eval:
  assumes rep: "bi_repr b es ps" and tx: "bi_tx b tx es ps"
  shows "bi_has_space INDEX_PTR_SIZE b =
    (Inr (length (bi_data b) < length (es @ ps) * INDEX_PTR_SIZE + INDEX_HEADER_SIZE
        \<or> length (es @ ps) * INDEX_PTR_SIZE + INDEX_HEADER_SIZE + INDEX_PTR_SIZE \<le> length (bi_data b)), b)"
proof -
  let ?u = "length (es @ ps) * INDEX_PTR_SIZE + INDEX_HEADER_SIZE" and ?l = "length (bi_data b)"
  have bnd: "?l < 2 ^ 63" "length (es @ ps) * INDEX_PTR_SIZE \<le> ?l"
    using rep entries_le [OF rep] by (auto simp: bi_repr_def)
  have "INDEX_PTR_SIZE \<le> sub64 ?l ?u \<longleftrightarrow> ?l < ?u \<or> ?u + INDEX_PTR_SIZE \<le> ?l"
  proof (cases "?l < ?u")
    case True
    have "?u < 2 ^ 64" using bnd by (simp add: INDEX_HEADER_SIZE_def)
    then have "sub64 ?l ?u = 2 ^ 64 - (?u - ?l)"
      by (rule sub64_wrap [OF True])
    moreover have "?u - ?l \<le> 120" using bnd by (simp add: INDEX_HEADER_SIZE_def)
    ultimately show ?thesis using True by (simp add: INDEX_PTR_SIZE_def)
  next
    case False
    then have "sub64 ?l ?u = ?l - ?u"
      using bnd by (intro sub64_le) simp_all
    then show ?thesis using False by auto
  qed
  then show ?thesis
    using bi_free_space_eval [OF assms] by (simp add: bi_has_space_def cmd_simps)
qed

lemma write_index_spec:
  assumes rep: "bi_repr b es ps" and tx: "bi_tx b tx es ps" "tx \<noteq> []"
    and wr: "ih_write_state (bi_header b) = WRITABLE"
    and room: "length (es @ ps) * INDEX_PTR_SIZE + INDEX_PTR_SIZE \<le> length (bi_data b)"
    and free: "length (bi_data b) < length (es @ ps) * INDEX_PTR_SIZE + INDEX_HEADER_SIZE
      \<or> length (es @ ps) * INDEX_PTR_SIZE + INDEX_HEADER_SIZE + INDEX_PTR_SIZE \<le> length (bi_data b)"
    and small: "off < 2 ^ 64" "sz < 2 ^ 64"
  obtains b' where
    "bi_write_index v (ih_start_index (bi_header b) + length (es @ ps)) off sz tx b = (Inr (length (es @ ps) * INDEX_PTR_SIZE), b')"
    "bi_repr b' es (ps @ [new_entry b (es @ ps) off sz])" "bi_tx b' tx es (ps @ [new_entry b (es @ ps) off sz])"
    "bi_header b' = bi_header b" "bi_deletes b' = bi_deletes b" "length (bi_data b') = length (bi_data b)"
proof -
  let ?qs = "es @ ps" and ?p = "new_entry b (es @ ps) off sz" and ?s = "ih_start_index (bi_header b)"
  obtain post where data: "bi_data b = enc_entries ?qs @ post"
    using rep by (auto simp: bi_repr_def)
  obtain ri where ri: "bi_rollback b = Some ri" "ri_in_transaction ri" "ri_transaction_id ri = tx"
    "ri_start_offset ri = length es * INDEX_PTR_SIZE" "ri_write_offset ri = length ?qs * INDEX_PTR_SIZE"
    "ri_used_bytes ri = length ps * INDEX_PTR_SIZE" "ri_last_index ri = last_of ?s ?qs" and wp: "bi_write_ptr b"
    using tx by (auto simp: bi_tx_def)
  have bnd: "?s + length (bi_data b) < 2 ^ 63" and av: "bi_available b"
    and lo: "length ?qs * INDEX_PTR_SIZE \<le> length (bi_data b)"
    using rep entries_le [OF rep] by (auto simp: bi_repr_def)
  have post: "INDEX_PTR_SIZE \<le> length post"
    using room data by (simp add: add_mult_distrib)
  let ?m1 = "enc_entries ?qs @ replicate INDEX_PTR_SIZE 0 @ drop INDEX_PTR_SIZE post"
  let ?m2 = "enc_entries ?qs @ enc_index_ptr ?p @ drop INDEX_PTR_SIZE post"
  have p1: "poke (bi_data b) (length ?qs * INDEX_PTR_SIZE) (replicate INDEX_PTR_SIZE 0) = Some ?m1"
    using poke_end' [of "enc_entries ?qs" "length ?qs * INDEX_PTR_SIZE" "replicate INDEX_PTR_SIZE 0" post] post data
      entries_length [of ?qs] by simp
  have p2: "poke ?m1 (length ?qs * INDEX_PTR_SIZE) (enc_index_ptr ?p) = Some ?m2"
    using poke_end' [of "enc_entries ?qs" "length ?qs * INDEX_PTR_SIZE" "enc_index_ptr ?p"
        "replicate INDEX_PTR_SIZE 0 @ drop INDEX_PTR_SIZE post"] entries_length [of ?qs] by simp
  define b1 where "b1 = bi_ri_update (\<lambda>r. r\<lparr>ri_last_index := ?s + length ?qs,
         ri_used_bytes := add64 (ri_used_bytes r) INDEX_PTR_SIZE,
         ri_write_offset := add64 (ri_write_offset r) INDEX_PTR_SIZE\<rparr>) (b\<lparr>bi_data := ?m2\<rparr>)"
  have hs: "bi_has_space INDEX_PTR_SIZE b = (Inr True, b)"
    using bi_has_space_eval [OF rep tx(1)] free by simp
  have ix: "?s + length ?qs = ?s \<or> ?s + length ?qs = add64 (bi_get_last_index b) 1"
  proof (cases "?qs")
    case Nil then show ?thesis by simp
  next
    case (Cons q qs)
    have "length ?qs \<le> length (bi_data b)"
      using lo by (simp add: INDEX_PTR_SIZE_def)
    then have "add64 (last_of ?s ?qs) 1 = last_of ?s ?qs + 1"
      using bnd by (intro add64_small) (simp add: last_of_def)
    moreover have "last_of ?s ?qs + 1 = ?s + length ?qs"
      using Cons by (simp add: last_of_def)
    ultimately show ?thesis
      using ri by (simp add: bi_get_last_index_def)
  qed
  have wptr: "bi_get_write_ptr b = (Inr (length ?qs * INDEX_PTR_SIZE), b)"
    using wp ri by (simp add: bi_get_write_ptr_def cmd_simps)
  have ck: "bi_check_txid tx b = (Inr (), b)"
    using ri by (simp add: bi_check_txid_def)
  have it: "bi_in_transaction b"
    using ri by (simp add: bi_in_transaction_def)
  have pk1: "bi_poke (length ?qs * INDEX_PTR_SIZE) (replicate INDEX_PTR_SIZE 0) b = (Inr (), b\<lparr>bi_data := ?m1\<rparr>)"
    using p1 by (simp add: bi_poke_def)
  have pk2: "bi_poke (length ?qs * INDEX_PTR_SIZE) (enc_index_ptr ?p) (b\<lparr>bi_data := ?m1\<rparr>) = (Inr (), b\<lparr>bi_data := ?m2\<rparr>)"
    using p2 by (simp add: bi_poke_def)
  have ev: "bi_write_index v (?s + length ?qs) off sz tx b =
      (Inr (length ?qs * INDEX_PTR_SIZE), bi_update_write_usage v INDEX_PTR_SIZE b1)"
    using av wr hs it tx(2) ck ix wptr pk1 pk2 [unfolded new_entry_def]
    unfolding bi_write_index_def b1_def by (simp add: cmd_simps new_entry_def)
  have same: "bi_same b1 (bi_update_write_usage v INDEX_PTR_SIZE b1)" by simp
  have lp: "length ?qs * INDEX_PTR_SIZE + INDEX_PTR_SIZE < 2 ^ 63"
    using room bnd by linarith
  have "entries_ok ?s (?qs @ [?p])"
    using rep small bnd lp unfolding entries_ok_append
    by (simp add: bi_repr_def new_entry_def index_ptr_ok_def index_states INDEX_PTR_SIZE_def)
  then have r1: "bi_repr b1 es (ps @ [?p])"
    using rep post data unfolding bi_repr_def b1_def bi_ri_update_def
    by (auto simp: new_entry_def)
  have "length ps * INDEX_PTR_SIZE \<le> length ?qs * INDEX_PTR_SIZE" by simp
  moreover have "(2::nat) ^ 63 < 2 ^ 64" by simp
  ultimately have a: "add64 (length ps * INDEX_PTR_SIZE) INDEX_PTR_SIZE = length ps * INDEX_PTR_SIZE + INDEX_PTR_SIZE"
    using lp by (intro add64_small) linarith
  have c: "add64 (length ?qs * INDEX_PTR_SIZE) INDEX_PTR_SIZE = length ?qs * INDEX_PTR_SIZE + INDEX_PTR_SIZE"
    using lp by (intro add64_small) simp
  have t1: "bi_tx b1 tx es (ps @ [?p])"
    using ri wp a c unfolding bi_tx_def b1_def bi_ri_update_def
    by (simp add: last_of_def add_mult_distrib)
  show ?thesis
  proof (rule that [OF ev])
    show "bi_repr (bi_update_write_usage v INDEX_PTR_SIZE b1) es (ps @ [?p])"
      using r1 bi_same_repr [OF same] by simp
    show "bi_tx (bi_update_write_usage v INDEX_PTR_SIZE b1) tx es (ps @ [?p])"
      using t1 bi_same_tx [OF same] by simp
  qed (use same post data in \<open>simp_all add: bi_same_def b1_def bi_ri_update_def\<close>)
qed

subsection \<open>Committing\<close>

definition with_ip_state :: "nat \<Rightarrow> index_ptr \<Rightarrow> index_ptr" where
  "with_ip_state st p = p\<lparr>ip_state := st\<rparr>"

lemma with_ip_state_simps [simp]:
  "ip_index (with_ip_state st p) = ip_index p" "ip_offset (with_ip_state st p) = ip_offset p"
  "ip_size (with_ip_state st p) = ip_size p" "ip_state (with_ip_state st p) = st"
  "with_ip_state st (with_ip_state st' p) = with_ip_state st p"
  by (simp_all add: with_ip_state_def)

lemma with_ip_state_ok: "index_ptr_ok p \<Longrightarrow> st < 2 ^ 8 \<Longrightarrow> index_ptr_ok (with_ip_state st p)"
  by (simp add: index_ptr_ok_def with_ip_state_def)

lemma poke_ip_state:
  assumes "length pre = off"
  shows "poke (pre @ enc_index_ptr p @ post) (off + 8) (nat_bytes 1 st)
    = Some (pre @ enc_index_ptr (with_ip_state st p) @ post)"
proof -
  let ?a = "nat_bytes 8 (ip_index p)"
  let ?z = "replicate 7 0 @ nat_bytes 8 (ip_offset p) @ nat_bytes 8 (ip_size p) @ post"
  have e: "pre @ enc_index_ptr (with_ip_state s p) @ post = (pre @ ?a) @ nat_bytes 1 s @ ?z" for s
    by (simp add: enc_index_ptr_def with_ip_state_def del: nat_bytes.simps One_nat_def)
  have c: "p = with_ip_state (ip_state p) p"
    by (simp add: with_ip_state_def)
  have len: "length (pre @ ?a) = off + 8"
    using assms by (simp del: nat_bytes.simps)
  have "poke ((pre @ ?a) @ nat_bytes 1 (ip_state p) @ ?z) (off + 8) (nat_bytes 1 st)
      = Some ((pre @ ?a) @ nat_bytes 1 st @ ?z)"
    by (rule poke_at [OF len]) (simp del: nat_bytes.simps)
  then show ?thesis
    using e [of st] e [of "ip_state p"] c by simp
qed

lemma entries_ok_in: "entries_ok s es \<Longrightarrow> p \<in> set es \<Longrightarrow> index_ptr_ok p"
  by (auto simp: entries_ok_def in_set_conv_nth)

lemma entries_ok_update:
  "entries_ok s es \<Longrightarrow> n < length es \<Longrightarrow> st < 2 ^ 8 \<Longrightarrow> entries_ok s (es[n := with_ip_state st (es ! n)])"
  by (auto simp: entries_ok_def nth_list_update intro: with_ip_state_ok)

lemma entries_ok_readable:
  assumes "entries_ok s (es @ ps)"
  shows "entries_ok s (es @ map (with_ip_state BLOCK_RECORD_STATE_READABLE) ps)"
  unfolding entries_ok_def
proof (intro allI impI)
  fix n assume n: "n < length (es @ map (with_ip_state BLOCK_RECORD_STATE_READABLE) ps)"
  then have "ip_index ((es @ ps) ! n) = s + n \<and> index_ptr_ok ((es @ ps) ! n)"
    using assms by (auto simp: entries_ok_def)
  then show "ip_index ((es @ map (with_ip_state BLOCK_RECORD_STATE_READABLE) ps) ! n) = s + n
      \<and> index_ptr_ok ((es @ map (with_ip_state BLOCK_RECORD_STATE_READABLE) ps) ! n)"
    using n by (cases "n < length es") (simp_all add: nth_append index_states with_ip_state_ok)
qed

text \<open>The publishing loop ends, and turns the entries of the transaction readable. The fuel is the
  number of bytes up to the write offset, more than the number of entries.\<close>

lemma publish_run:
  "\<lbrakk>bi_data b = pre @ enc_entries ps @ post; length pre = off; stop = off + length ps * INDEX_PTR_SIZE;
    stop < 2 ^ 63; length ps \<le> fuel; \<forall>p \<in> set ps. index_ptr_ok p \<and> ip_state p = BLOCK_RECORD_STATE_USED\<rbrakk>
   \<Longrightarrow> bi_publish fuel stop off b = Some (Inr (), b\<lparr>bi_data :=
        pre @ enc_entries (map (with_ip_state BLOCK_RECORD_STATE_READABLE) ps) @ post\<rparr>)"
proof (induction ps arbitrary: pre off fuel b)
  case Nil
  then show ?case by (cases fuel) auto
next
  case (Cons p ps)
  let ?p = "with_ip_state BLOCK_RECORD_STATE_READABLE p"
  let ?b = "b\<lparr>bi_data := pre @ enc_index_ptr ?p @ enc_entries ps @ post\<rparr>"
  obtain f where f: "fuel = Suc f" using Cons.prems(5) by (cases fuel) auto
  have lt: "off < stop" using Cons.prems(3) by (simp add: INDEX_PTR_SIZE_def)
  have ent: "entry_at (bi_data b) off = Some p"
    using Cons.prems ptr_codec.read_at [of p pre off "enc_entries ps @ post"] by (simp add: entry_at_def)
  have st: "bi_set_state off BLOCK_RECORD_STATE_READABLE b = (Inr (), ?b)"
    using poke_ip_state [OF Cons.prems(2)] Cons.prems(1) by (simp add: bi_set_state_def bi_poke_def)
  have ad: "add64 off INDEX_PTR_SIZE = off + INDEX_PTR_SIZE"
    using Cons.prems(3,4) by (intro add64_small) simp
  have ih: "bi_publish f stop (off + INDEX_PTR_SIZE) ?b = Some (Inr (), ?b\<lparr>bi_data :=
        (pre @ enc_index_ptr ?p) @ enc_entries (map (with_ip_state BLOCK_RECORD_STATE_READABLE) ps) @ post\<rparr>)"
    by (rule Cons.IH) (use Cons.prems f in auto)
  show ?case
    using lt ent st ad ih f Cons.prems(6) by simp
qed

text \<open>Marking a committed entry.\<close>

definition ip_mark :: "nat \<Rightarrow> index_ptr list \<Rightarrow> nat \<Rightarrow> index_ptr list" where
  "ip_mark s es i = es[i - s := with_ip_state BLOCK_RECORD_STATE_DELETED (es ! (i - s))]"

lemma ip_mark_length [simp]: "length (ip_mark s es i) = length es"
  by (simp add: ip_mark_def)

definition bi_frame :: "block_index \<Rightarrow> block_index \<Rightarrow> bool" where
  "bi_frame b b' \<longleftrightarrow> bi_header b' = bi_header b \<and> bi_rollback b' = bi_rollback b
     \<and> bi_deletes b' = bi_deletes b \<and> bi_write_ptr b' = bi_write_ptr b \<and> bi_available b' = bi_available b
     \<and> bi_mapped b' = bi_mapped b \<and> length (bi_data b') = length (bi_data b)"

lemma bi_frame_refl [simp]: "bi_frame b b"
  by (simp add: bi_frame_def)

lemma bi_frame_trans: "bi_frame a b \<Longrightarrow> bi_frame b c \<Longrightarrow> bi_frame a c"
  by (simp add: bi_frame_def)

lemma bi_same_frame: "bi_same a b \<Longrightarrow> bi_frame a b"
  by (simp add: bi_frame_def bi_same_def)

lemma bi_reprE:
  assumes "bi_repr b es ps"
  obtains post where "bi_data b = enc_entries (es @ ps) @ post"
  using assms by (auto simp: bi_repr_def)

lemma set_state_nth:
  assumes rep: "bi_repr b es []" and n: "n < length es"
    and st: "st = BLOCK_RECORD_STATE_READABLE \<or> st = BLOCK_RECORD_STATE_DELETED"
  obtains b' where "bi_set_state (n * INDEX_PTR_SIZE) st b = (Inr (), b')"
    "bi_repr b' (es[n := with_ip_state st (es ! n)]) []" "bi_frame b b'"
proof -
  obtain post where data: "bi_data b = enc_entries es @ post"
    using bi_reprE [OF rep] by auto
  let ?p = "with_ip_state st (es ! n)" and ?es = "es[n := with_ip_state st (es ! n)]"
  let ?b = "b\<lparr>bi_data := enc_entries ?es @ post\<rparr>"
  have len: "length (enc_entries (take n es)) = n * INDEX_PTR_SIZE"
    using n by (simp add: min_def)
  have split: "enc_entries es = enc_entries (take n es) @ enc_index_ptr (es ! n) @ enc_entries (drop (Suc n) es)"
    by (rule ptr_codec.concat_split [OF n])
  have split': "enc_entries ?es = enc_entries (take n es) @ enc_index_ptr ?p @ enc_entries (drop (Suc n) es)"
    using n by (simp add: upd_conv_take_nth_drop)
  have "poke (bi_data b) (n * INDEX_PTR_SIZE + 8) (nat_bytes 1 st) = Some (enc_entries ?es @ post)"
    using poke_ip_state [OF len, of "es ! n" "enc_entries (drop (Suc n) es) @ post" st]
    unfolding data split split' by simp
  then have ev: "bi_set_state (n * INDEX_PTR_SIZE) st b = (Inr (), ?b)"
    by (simp add: bi_set_state_def bi_poke_def)
  have ok: "entries_ok (ih_start_index (bi_header b)) ?es"
    using rep n st by (intro entries_ok_update) (auto simp: bi_repr_def index_states)
  have states: "\<forall>p \<in> set ?es. ip_state p = BLOCK_RECORD_STATE_READABLE \<or> ip_state p = BLOCK_RECORD_STATE_DELETED"
    using rep st set_update_subset_insert [of es n ?p] by (auto simp: bi_repr_def)
  have "length (enc_entries ?es @ post) = length (bi_data b)"
    using data by simp
  moreover have "last_of s ?es = last_of s es" for s
    by (simp add: last_of_def)
  ultimately have rep': "bi_repr ?b ?es []" and fr: "bi_frame b ?b"
    using rep ok states by (auto simp: bi_repr_def bi_frame_def)
  show ?thesis
    by (rule that [OF ev rep' fr])
qed

lemma mark_deleted_run:
  "\<lbrakk>bi_repr b es []; s = ih_start_index (bi_header b); \<forall>i \<in> set ds. s \<le> i \<and> i < s + length es\<rbrakk>
   \<Longrightarrow> \<exists>b'. bi_mark_deleted v ds b = (Inr (), b') \<and> bi_repr b' (fold (\<lambda>i qs. ip_mark s qs i) ds es) [] \<and> bi_frame b b'"
proof (induction ds arbitrary: b es)
  case Nil
  then show ?case by (simp add: cmd_simps)
next
  case (Cons i ds)
  define n where "n = i - s"
  have n: "n < length es" "i = ih_start_index (bi_header b) + n"
    using Cons.prems by (auto simp: n_def)
  let ?b1 = "bi_update_read_usage v INDEX_PTR_SIZE b"
  have same: "bi_same b ?b1" by simp
  have rd: "bi_read_index v i True b = (Inr (Some (n * INDEX_PTR_SIZE, es ! n)), ?b1)"
    using read_index_spec [OF Cons.prems(1) n(1)] n(2) by simp
  have rep1: "bi_repr ?b1 es []"
    using Cons.prems(1) bi_same_repr [OF same] by simp
  obtain b2 where b2: "bi_set_state (n * INDEX_PTR_SIZE) BLOCK_RECORD_STATE_DELETED ?b1 = (Inr (), b2)"
    "bi_repr b2 (es[n := with_ip_state BLOCK_RECORD_STATE_DELETED (es ! n)]) []" "bi_frame ?b1 b2"
    by (rule set_state_nth [OF rep1 n(1), of BLOCK_RECORD_STATE_DELETED]) simp_all
  have fr: "bi_frame b b2"
    by (rule bi_frame_trans [OF bi_same_frame [OF same] b2(3)])
  have mk: "es[n := with_ip_state BLOCK_RECORD_STATE_DELETED (es ! n)] = ip_mark s es i"
    by (simp add: ip_mark_def n_def)
  have s2: "s = ih_start_index (bi_header b2)"
    using fr Cons.prems(2) by (simp add: bi_frame_def)
  have rng: "\<forall>i' \<in> set ds. s \<le> i' \<and> i' < s + length (ip_mark s es i)"
    using Cons.prems(3) by simp
  obtain b3 where b3: "bi_mark_deleted v ds b2 = (Inr (), b3)"
    "bi_repr b3 (fold (\<lambda>i qs. ip_mark s qs i) ds (ip_mark s es i)) []" "bi_frame b2 b3"
    using Cons.IH [OF b2(2) [unfolded mk] s2 rng] by blast
  show ?case
    using rd b2(1) b3 bi_frame_trans [OF fr b3(3)] by (simp add: cmd_simps)
qed

text \<open>What the commit leaves at each position.\<close>

definition ip_final :: "nat \<Rightarrow> nat list \<Rightarrow> index_ptr list \<Rightarrow> index_ptr list" where
  "ip_final s ds es = map (\<lambda>n. if s + n \<in> set ds then with_ip_state BLOCK_RECORD_STATE_DELETED (es ! n) else es ! n)
     [0..<length es]"

lemma ip_mark_fold:
  "\<forall>i \<in> set ds. s \<le> i \<and> i < s + length es \<Longrightarrow> fold (\<lambda>i qs. ip_mark s qs i) ds es = ip_final s ds es"
proof (induction ds arbitrary: es)
  case Nil
  then show ?case by (simp add: ip_final_def map_nth)
next
  case (Cons i ds)
  then have "fold (\<lambda>i qs. ip_mark s qs i) ds (ip_mark s es i) = ip_final s ds (ip_mark s es i)"
    by simp
  also have "\<dots> = ip_final s (i # ds) es"
    using Cons.prems by (intro nth_equalityI) (auto simp: ip_final_def ip_mark_def nth_list_update)
  finally show ?case by simp
qed

lemma index_publish_all_spec:
  assumes rep: "bi_repr b es ps" and tx: "bi_tx b tx es ps"
  obtains b' where "bi_publish_all b = (Inr (), b')"
    "bi_repr b' (es @ map (with_ip_state BLOCK_RECORD_STATE_READABLE) ps) []"
    "ih_start_index (bi_header b') = ih_start_index (bi_header b)"
    "bi_rollback b' = bi_rollback b" "bi_deletes b' = bi_deletes b" "bi_write_ptr b'" "bi_mapped b' = bi_mapped b"
    "ih_write_state (bi_header b') = ih_write_state (bi_header b)" "length (bi_data b') = length (bi_data b)"
proof -
  let ?s = "ih_start_index (bi_header b)" and ?qs = "map (with_ip_state BLOCK_RECORD_STATE_READABLE) ps"
  obtain post where data: "bi_data b = enc_entries es @ enc_entries ps @ post"
    using bi_reprE [OF rep] by auto
  obtain ri where ri: "bi_rollback b = Some ri" "ri_start_offset ri = length es * INDEX_PTR_SIZE"
    "ri_write_offset ri = length (es @ ps) * INDEX_PTR_SIZE" "ri_used_bytes ri = length ps * INDEX_PTR_SIZE"
    "ri_last_index ri = last_of ?s (es @ ps)" and wp: "bi_write_ptr b"
    using tx by (auto simp: bi_tx_def)
  have ok: "entries_ok ?s (es @ ps)" "ih_used_size (bi_header b) = length es * INDEX_PTR_SIZE"
    and states: "\<forall>p \<in> set es. ip_state p = BLOCK_RECORD_STATE_READABLE \<or> ip_state p = BLOCK_RECORD_STATE_DELETED"
      "\<forall>p \<in> set ps. ip_state p = BLOCK_RECORD_STATE_USED"
    and bnd: "length (es @ ps) * INDEX_PTR_SIZE < 2 ^ 63" and av: "bi_available b"
      "ih_total_size (bi_header b) = length (bi_data b)" "?s + length (bi_data b) < 2 ^ 63"
    using rep entries_le [OF rep] by (auto simp: bi_repr_def)
  have each: "\<forall>p \<in> set ps. index_ptr_ok p \<and> ip_state p = BLOCK_RECORD_STATE_USED"
    using ok(1) states(2) by (auto intro: entries_ok_in)
  let ?b1 = "b\<lparr>bi_data := enc_entries es @ enc_entries ?qs @ post\<rparr>"
  let ?b2 = "?b1\<lparr>bi_header := bi_commit_header ri (bi_header b)\<rparr>"
  have "length ps \<le> ri_write_offset ri"
    using ri(3) by (simp add: INDEX_PTR_SIZE_def)
  then have run: "bi_publish (ri_write_offset ri) (ri_write_offset ri) (ri_start_offset ri) b = Some (Inr (), ?b1)"
    using each bnd ri by (intro publish_run [OF data]) (simp_all add: add_mult_distrib)
  then have ev: "bi_publish_all b = (Inr (), ?b2)"
    using ri(1) wp by (simp add: bi_publish_all_def)
  have "add64 (length es * INDEX_PTR_SIZE) (length ps * INDEX_PTR_SIZE) = length (es @ ps) * INDEX_PTR_SIZE"
    using bnd by (subst add64_small) (simp_all add: add_mult_distrib)
  moreover have "entries_ok ?s (es @ ?qs)"
    by (rule entries_ok_readable [OF ok(1)])
  ultimately have rep': "bi_repr ?b2 (es @ ?qs) []"
    using data ri(3,4,5) ok(2) states(1) av unfolding bi_repr_def bi_commit_header_def
    by (simp add: last_of_def ball_Un del: map_map)
  show ?thesis
    by (rule that [OF ev rep']) (use wp data in \<open>simp_all add: bi_commit_header_def del: map_map\<close>)
qed

theorem index_commit_spec:
  assumes rep: "bi_repr b es ps" and tx: "bi_tx b tx es ps"
    and ds: "\<forall>i \<in> set (bi_deletes b). ih_start_index (bi_header b) \<le> i
      \<and> i < ih_start_index (bi_header b) + length (es @ ps)"
  obtains b' where "bi_commit v tx b = (Inr (), b')"
    "bi_repr b' (ip_final (ih_start_index (bi_header b)) (bi_deletes b)
        (es @ map (with_ip_state BLOCK_RECORD_STATE_READABLE) ps)) []"
    "\<not> bi_in_transaction b'" "ih_start_index (bi_header b') = ih_start_index (bi_header b)"
proof -
  let ?s = "ih_start_index (bi_header b)" and ?qs = "es @ map (with_ip_state BLOCK_RECORD_STATE_READABLE) ps"
  obtain ri where ri: "bi_rollback b = Some ri" "ri_in_transaction ri" "ri_transaction_id ri = tx"
    using tx by (auto simp: bi_tx_def)
  obtain b1 where b1: "bi_publish_all b = (Inr (), b1)" "bi_repr b1 ?qs []"
    "ih_start_index (bi_header b1) = ?s" "bi_rollback b1 = bi_rollback b" "bi_deletes b1 = bi_deletes b"
    by (rule index_publish_all_spec [OF rep tx])
  have in_range: "\<forall>i \<in> set (bi_deletes b). ?s \<le> i \<and> i < ?s + length ?qs"
    using ds by simp
  obtain b2 where b2: "bi_mark_deleted v (bi_deletes b) b1 = (Inr (), b2)"
    "bi_repr b2 (ip_final ?s (bi_deletes b) ?qs) []" "bi_frame b1 b2"
    using mark_deleted_run [OF b1(2) b1(3) [symmetric] in_range] ip_mark_fold [OF in_range] by auto
  let ?b3 = "b2\<lparr>bi_rollback := Some ((ri_ended ri)\<lparr>ri_start_offset := 0\<rparr>), bi_deletes := []\<rparr>"
  have rb: "bi_rollback b2 = Some ri"
    using b2(3) b1(4) ri(1) by (simp add: bi_frame_def)
  have ev: "bi_commit v tx b = (Inr (), ?b3)"
    using ri b1(1,5) b2(1) rb
    by (simp add: bi_commit_def cmd_simps bi_in_transaction_def bi_check_txid_def bi_end_transaction_def)
  show ?thesis
    by (rule that [OF ev]) (use b2(2,3) b1(3) in
        \<open>simp_all add: bi_repr_def bi_in_transaction_def ri_ended_def bi_frame_def\<close>)
qed

lemma index_rollback_spec:
  assumes rep: "bi_repr b es ps" and tx: "bi_tx b tx es ps"
  obtains b' where "bi_rollback_tx tx b = (Inr (), b')" "\<exists>post. bi_data b' = enc_entries es @ post"
    "bi_header b' = bi_header b" "bi_data b' = bi_data b" "\<not> bi_in_transaction b'" "bi_available b'"
    "bi_deletes b' = []" "bi_write_ptr b'" "bi_mapped b' = bi_mapped b" "bi_repr b' es []"
proof -
  obtain ri where ri: "bi_rollback b = Some ri" "ri_in_transaction ri" "ri_transaction_id ri = tx"
    using tx by (auto simp: bi_tx_def)
  obtain post where data: "bi_data b = enc_entries es @ enc_entries ps @ post"
    using bi_reprE [OF rep] by auto
  let ?b = "b\<lparr>bi_rollback := Some ((ri_ended ri)\<lparr>ri_start_offset := 0\<rparr>), bi_deletes := []\<rparr>"
  have ev: "bi_rollback_tx tx b = (Inr (), ?b)"
    using ri by (simp add: bi_rollback_tx_def cmd_simps bi_in_transaction_def bi_check_txid_def bi_end_transaction_def)
  have "entries_ok (ih_start_index (bi_header b)) es"
    using rep by (auto simp: bi_repr_def entries_ok_def nth_append split: if_splits)
  then have "bi_repr ?b es []"
    using rep data by (auto simp: bi_repr_def)
  then show ?thesis
    by (intro that [OF ev]) (use data rep tx in \<open>simp_all add: bi_in_transaction_def ri_ended_def bi_repr_def bi_tx_def\<close>)
qed

end
