(* ===== verification/IndexProps.thy ===== *)
theory IndexProps
  imports IndexSpec BlockDemo
begin

section \<open>Properties of the block index\<close>

text \<open>
  A transaction of several writes, what is read after its commit or rollback, deletions, and how
  many records an index really takes. \<open>demo_index\<close> is the index on which they are applied.
\<close>

subsection \<open>Several writes\<close>

fun bi_write_many :: "blk_env \<Rightarrow> string \<Rightarrow> nat \<Rightarrow> (nat \<times> nat) list \<Rightarrow> (unit, block_index) cmd" where
  "bi_write_many v tx i [] = c_ret ()"
| "bi_write_many v tx i ((off, n) # rs) =
     c_bind (bi_write_index v i off n tx) (\<lambda>_. bi_write_many v tx (i + 1) rs)"

definition new_entries :: "nat \<Rightarrow> nat \<Rightarrow> (nat \<times> nat) list \<Rightarrow> index_ptr list" where
  "new_entries st i rs = map (\<lambda>(k, off, n). \<lparr>ip_index = i + k, ip_state = st, ip_offset = off, ip_size = n\<rparr>)
     (enumerate 0 rs)"

lemma new_entries_length [simp]: "length (new_entries st i rs) = length rs"
  by (simp add: new_entries_def)

lemma new_entries_nth [simp]:
  "k < length rs \<Longrightarrow> new_entries st i rs ! k = \<lparr>ip_index = i + k, ip_state = st, ip_offset = fst (rs ! k), ip_size = snd (rs ! k)\<rparr>"
  by (simp add: new_entries_def nth_enumerate_eq split: prod.split)

lemma new_entries_Cons: "new_entries st i ((off, n) # rs) =
    \<lparr>ip_index = i, ip_state = st, ip_offset = off, ip_size = n\<rparr> # new_entries st (i + 1) rs"
  by (rule nth_equalityI) (auto simp: nth_Cons split: nat.splits)

lemma new_entries_Nil [simp]: "new_entries st i [] = []"
  by (simp add: new_entries_def)

lemma new_entries_readable [simp]:
  "map (with_ip_state st') (new_entries st i rs) = new_entries st' i rs"
  by (rule nth_equalityI) (auto simp: with_ip_state_def)

text \<open>\<open>n\<close> entries fit and the space check, which wraps around for tiny indexes, admits them.\<close>

definition bi_room :: "block_index \<Rightarrow> nat \<Rightarrow> bool" where
  "bi_room b n \<longleftrightarrow> n * INDEX_PTR_SIZE \<le> length (bi_data b)
     \<and> (length (bi_data b) < INDEX_HEADER_SIZE \<or> n * INDEX_PTR_SIZE + INDEX_HEADER_SIZE \<le> length (bi_data b))"

lemma write_many_spec:
  "\<lbrakk>bi_repr b es ps; bi_tx b tx es ps; tx \<noteq> []; ih_write_state (bi_header b) = WRITABLE;
    bi_room b (length (es @ ps) + length rs); \<forall>r \<in> set rs. fst r < 2 ^ 64 \<and> snd r < 2 ^ 64;
    i = ih_start_index (bi_header b) + length (es @ ps)\<rbrakk>
   \<Longrightarrow> \<exists>b'. bi_write_many v tx i rs b = (Inr (), b')
     \<and> bi_repr b' es (ps @ new_entries BLOCK_RECORD_STATE_USED i rs)
     \<and> bi_tx b' tx es (ps @ new_entries BLOCK_RECORD_STATE_USED i rs)
     \<and> bi_header b' = bi_header b \<and> bi_deletes b' = bi_deletes b \<and> length (bi_data b') = length (bi_data b)"
proof (induction rs arbitrary: b ps i)
  case Nil
  then show ?case by (simp add: cmd_simps)
next
  case (Cons r rs)
  obtain off n where r: "r = (off, n)" by force
  have room: "length (es @ ps) * INDEX_PTR_SIZE + INDEX_PTR_SIZE \<le> length (bi_data b)"
    "length (bi_data b) < length (es @ ps) * INDEX_PTR_SIZE + INDEX_HEADER_SIZE
      \<or> length (es @ ps) * INDEX_PTR_SIZE + INDEX_HEADER_SIZE + INDEX_PTR_SIZE \<le> length (bi_data b)"
    using Cons.prems(5) by (auto simp: bi_room_def algebra_simps)
  have sm: "off < 2 ^ 64" "n < 2 ^ 64"
    using Cons.prems(6) r by auto
  let ?p = "new_entry b (es @ ps) off n"
  obtain b1 where b1: "bi_write_index v i off n tx b = (Inr (length (es @ ps) * INDEX_PTR_SIZE), b1)"
    "bi_repr b1 es (ps @ [?p])" "bi_tx b1 tx es (ps @ [?p])" "bi_header b1 = bi_header b"
    "bi_deletes b1 = bi_deletes b" "length (bi_data b1) = length (bi_data b)"
    using write_index_spec [OF Cons.prems(1-4) room sm, of v] Cons.prems(7) by metis
  have room1: "bi_room b1 (length (es @ (ps @ [?p])) + length rs)"
    using Cons.prems(5) b1(6) by (simp add: bi_room_def)
  obtain b2 where b2: "bi_write_many v tx (i + 1) rs b1 = (Inr (), b2)"
    "bi_repr b2 es ((ps @ [?p]) @ new_entries BLOCK_RECORD_STATE_USED (i + 1) rs)"
    "bi_tx b2 tx es ((ps @ [?p]) @ new_entries BLOCK_RECORD_STATE_USED (i + 1) rs)"
    "bi_header b2 = bi_header b1" "bi_deletes b2 = bi_deletes b1" "length (bi_data b2) = length (bi_data b1)"
    using Cons.IH [OF b1(2,3) Cons.prems(3) _ room1, of "i + 1"] Cons.prems(4,6,7) b1(4) by auto
  have "?p # new_entries BLOCK_RECORD_STATE_USED (i + 1) rs = new_entries BLOCK_RECORD_STATE_USED i (r # rs)"
    using Cons.prems(7) r by (simp add: new_entries_Cons new_entry_def)
  then show ?case
    using b1 b2 r by (simp add: cmd_simps)
qed

fun bi_delete_many :: "string \<Rightarrow> nat list \<Rightarrow> (unit, block_index) cmd" where
  "bi_delete_many tx [] = c_ret ()"
| "bi_delete_many tx (d # ds) = c_bind (bi_delete_index d tx) (\<lambda>_. bi_delete_many tx ds)"

text \<open>A whole transaction: set up, write, and then commit or roll back.\<close>

definition bi_transact :: "blk_env \<Rightarrow> string \<Rightarrow> nat \<Rightarrow> (nat \<times> nat) list \<Rightarrow> nat list \<Rightarrow> (unit, block_index) cmd" where
  "bi_transact v tx i rs ds =
     c_bind (bi_setup_transaction v tx) (\<lambda>_. c_bind (bi_write_many v tx i rs) (\<lambda>_. bi_delete_many tx ds))"

lemma delete_index_spec:
  assumes rep: "bi_repr b es ps" and tx: "bi_tx b tx es ps" "tx \<noteq> []"
    and wr: "ih_write_state (bi_header b) = WRITABLE" and n: "n < length (es @ ps)"
    and i: "i = ih_start_index (bi_header b) + n"
  shows "bi_delete_index i tx b = (Inr True, b\<lparr>bi_deletes := bi_deletes b @ [i]\<rparr>)"
proof -
  have e: "entry_at (bi_data b) (bi_offset b i) = Some ((es @ ps) ! n)"
    using entry_at_nth [OF rep n] bi_offset_nth [OF rep n] i by simp
  have "ip_index ((es @ ps) ! n) = i" "bi_available b"
    using rep n i by (auto simp: bi_repr_def entries_ok_def)
  moreover have "bi_in_transaction b" "bi_check_txid tx b = (Inr (), b)"
    using tx by (auto simp: bi_tx_def bi_in_transaction_def bi_check_txid_def)
  ultimately show ?thesis
    using wr tx(2) e by (simp add: bi_delete_index_def cmd_simps)
qed

lemma repr_deletes [simp]: "bi_repr (b\<lparr>bi_deletes := ds\<rparr>) es ps = bi_repr b es ps"
  "bi_tx (b\<lparr>bi_deletes := ds\<rparr>) tx es ps = bi_tx b tx es ps"
  by (simp_all add: bi_repr_def bi_tx_def)

lemma delete_many_spec:
  "\<lbrakk>bi_repr b es ps; bi_tx b tx es ps; tx \<noteq> []; ih_write_state (bi_header b) = WRITABLE;
    \<forall>d \<in> set ds. ih_start_index (bi_header b) \<le> d \<and> d < ih_start_index (bi_header b) + length (es @ ps)\<rbrakk>
   \<Longrightarrow> bi_delete_many tx ds b
     = (Inr (), b\<lparr>bi_deletes := bi_deletes b @ ds\<rparr>)"
proof (induction ds arbitrary: b)
  case Nil
  then show ?case by (simp add: cmd_simps)
next
  case (Cons d ds)
  let ?b = "b\<lparr>bi_deletes := bi_deletes b @ [d]\<rparr>"
  have "bi_delete_index d tx b = (Inr True, ?b)"
    using Cons.prems by (intro delete_index_spec [of b es ps tx "d - ih_start_index (bi_header b)"]) auto
  moreover have "bi_delete_many tx ds ?b
      = (Inr (), ?b\<lparr>bi_deletes := bi_deletes ?b @ ds\<rparr>)"
    by (rule Cons.IH) (use Cons.prems in auto)
  ultimately show ?case by (simp add: cmd_simps)
qed

text \<open>An index opened for writing, outside a transaction, with the committed entries \<open>es\<close>.\<close>

definition bi_ready :: "block_index \<Rightarrow> index_ptr list \<Rightarrow> bool" where
  "bi_ready b es \<longleftrightarrow> bi_repr b es [] \<and> bi_mapped b \<and> bi_write_ptr b \<and> ih_write_state (bi_header b) = WRITABLE"

definition bi_small :: "(nat \<times> nat) list \<Rightarrow> bool" where
  "bi_small rs \<longleftrightarrow> (\<forall>r \<in> set rs. fst r < 2 ^ 64 \<and> snd r < 2 ^ 64)"

definition bi_next :: "block_index \<Rightarrow> index_ptr list \<Rightarrow> nat" where
  "bi_next b es = ih_start_index (bi_header b) + length es"

lemma setup_fields:
  "bi_mapped b \<Longrightarrow> \<exists>b'. bi_setup_transaction v tx b = (Inr (), b') \<and> bi_header b' = bi_header b \<and> bi_data b' = bi_data b"
  by (simp add: bi_setup_transaction_def cmd_simps)

lemma transact_spec:
  assumes rdy: "bi_ready b es" and tx: "tx \<noteq> []" and room: "bi_room b (length es + length rs)"
    and small: "bi_small rs"
    and ds: "\<forall>d \<in> set ds. ih_start_index (bi_header b) \<le> d \<and> d < bi_next b es + length rs"
  obtains b' where "bi_transact v tx (bi_next b es) rs ds b = (Inr (), b')"
    "bi_repr b' es (new_entries BLOCK_RECORD_STATE_USED (bi_next b es) rs)"
    "bi_tx b' tx es (new_entries BLOCK_RECORD_STATE_USED (bi_next b es) rs)"
    "bi_deletes b' = ds" "bi_header b' = bi_header b"
proof -
  let ?i = "bi_next b es" and ?ps = "new_entries BLOCK_RECORD_STATE_USED (bi_next b es) rs"
  obtain b1 where b1: "bi_setup_transaction v tx b = (Inr (), b1)" "bi_repr b1 es []" "bi_tx b1 tx es []"
    "bi_deletes b1 = []"
    using rdy repr_setup [of b es v tx] unfolding bi_ready_def by blast
  have h1: "bi_header b1 = bi_header b" "bi_data b1 = bi_data b"
    using setup_fields [of b v tx] rdy b1(1) by (auto simp: bi_ready_def)
  obtain b2 where b2: "bi_write_many v tx ?i rs b1 = (Inr (), b2)" "bi_repr b2 es ?ps" "bi_tx b2 tx es ?ps"
    "bi_header b2 = bi_header b1" "bi_deletes b2 = bi_deletes b1"
    using write_many_spec [OF b1(2,3) tx, of rs ?i v] rdy room small h1
    by (auto simp: bi_ready_def bi_room_def bi_small_def bi_next_def)
  have d: "bi_delete_many tx ds b2 = (Inr (), b2\<lparr>bi_deletes := bi_deletes b2 @ ds\<rparr>)"
    using delete_many_spec [OF b2(2,3) tx, of ds] rdy ds b2(4) h1 by (auto simp: bi_ready_def bi_next_def add.assoc)
  show ?thesis
    by (rule that [of "b2\<lparr>bi_deletes := ds\<rparr>"])
      (use b1(1,4) b2 d h1 in \<open>simp_all add: bi_transact_def cmd_simps\<close>)
qed

subsection \<open>Reads after a commit and after a rollback\<close>

text \<open>What a reader of the readable entries is given for position \<open>n\<close>.\<close>

definition bi_expected :: "nat \<Rightarrow> index_ptr list \<Rightarrow> nat list \<Rightarrow> nat \<Rightarrow> (nat \<times> index_ptr) option" where
  "bi_expected s es ds n = (if s + n \<in> set ds \<or> ip_state (es ! n) \<noteq> BLOCK_RECORD_STATE_READABLE
     then None else Some (n * INDEX_PTR_SIZE, es ! n))"

lemma ip_final_length [simp]: "length (ip_final s ds es) = length es"
  by (simp add: ip_final_def)

lemma read_final:
  assumes "bi_repr b (ip_final s ds es) []" "ih_start_index (bi_header b) = s" "n < length es"
  shows "fst (bi_read_index v (s + n) False b) = Inr (bi_expected s es ds n)"
  using read_index_spec [OF assms(1), of n v False] assms(2,3)
  by (auto simp: bi_expected_def ip_final_def index_states)

text \<open>A transaction on the index that appends entries at the next
  indices and deletes some of its records commits; afterwards a read of an index returns the
  appended offset and size, or the entry committed before, and nothing for the deleted ones.\<close>

theorem index_commit_roundtrip:
  assumes "bi_ready b es" "tx \<noteq> []" "bi_room b (length es + length rs)" "bi_small rs"
    and "\<forall>d \<in> set ds. ih_start_index (bi_header b) \<le> d \<and> d < bi_next b es + length rs"
  shows "\<exists>b1 b2. bi_transact v tx (bi_next b es) rs ds b = (Inr (), b1) \<and> bi_commit v tx b1 = (Inr (), b2)
    \<and> (\<forall>n < length es + length rs. fst (bi_read_index v (ih_start_index (bi_header b) + n) False b2)
        = Inr (bi_expected (ih_start_index (bi_header b))
                 (es @ new_entries BLOCK_RECORD_STATE_READABLE (bi_next b es) rs) ds n))"
proof -
  let ?s = "ih_start_index (bi_header b)" and ?ps = "new_entries BLOCK_RECORD_STATE_USED (bi_next b es) rs"
  let ?qs = "es @ new_entries BLOCK_RECORD_STATE_READABLE (bi_next b es) rs"
  obtain b1 where b1: "bi_transact v tx (bi_next b es) rs ds b = (Inr (), b1)" "bi_repr b1 es ?ps"
    "bi_tx b1 tx es ?ps" "bi_deletes b1 = ds" "bi_header b1 = bi_header b"
    by (rule transact_spec [OF assms])
  obtain b2 where b2: "bi_commit v tx b1 = (Inr (), b2)" "bi_repr b2 (ip_final ?s ds ?qs) []"
    "ih_start_index (bi_header b2) = ?s"
    using index_commit_spec [OF b1(2,3), of v] assms(5) b1(4,5) by (auto simp: bi_next_def add.assoc)
  then show ?thesis
    using b1(1) read_final [OF b2(2,3)] by auto
qed

text \<open>Rolling a transaction of the index back leaves its header as
  it was and every committed index reads as before.\<close>

theorem index_rollback_restores:
  assumes "bi_ready b es" "tx \<noteq> []" "bi_room b (length es + length rs)" "bi_small rs"
    and "\<forall>d \<in> set ds. ih_start_index (bi_header b) \<le> d \<and> d < bi_next b es + length rs"
  shows "\<exists>b1 b2. bi_transact v tx (bi_next b es) rs ds b = (Inr (), b1) \<and> bi_rollback_tx tx b1 = (Inr (), b2)
    \<and> bi_header b2 = bi_header b \<and> bi_deletes b2 = [] \<and> \<not> bi_in_transaction b2
    \<and> (\<forall>n < length es. \<forall>a. fst (bi_read_index v (ih_start_index (bi_header b) + n) a b2)
        = fst (bi_read_index v (ih_start_index (bi_header b) + n) a b))"
proof -
  let ?ps = "new_entries BLOCK_RECORD_STATE_USED (bi_next b es) rs"
  obtain b1 where b1: "bi_transact v tx (bi_next b es) rs ds b = (Inr (), b1)" "bi_repr b1 es ?ps"
    "bi_tx b1 tx es ?ps" "bi_deletes b1 = ds" "bi_header b1 = bi_header b"
    by (rule transact_spec [OF assms])
  obtain b2 where b2: "bi_rollback_tx tx b1 = (Inr (), b2)" "bi_repr b2 es []" "bi_header b2 = bi_header b1"
    "bi_deletes b2 = []" "\<not> bi_in_transaction b2"
    by (rule index_rollback_spec [OF b1(2,3)])
  have rep: "bi_repr b es []" using assms(1) by (simp add: bi_ready_def)
  show ?thesis
    using b1(1,5) b2 read_index_spec [OF b2(2), of _ v] read_index_spec [OF rep, of _ v] by auto
qed

subsection \<open>How many records an index takes\<close>

definition bi_new :: "blk_env \<Rightarrow> nat \<Rightarrow> string \<Rightarrow> string \<Rightarrow> nat \<Rightarrow> nat \<Rightarrow> (unit, block_index) cmd" where
  "bi_new v bid uuid fn est s =
     c_bind (bi_create_index v bid uuid fn est s False False False) (\<lambda>_ b.
       bi_open_index bid uuid fn (Some (bi_header b, bi_data b)) True b)"

lemma new_ready:
  assumes "s + est * INDEX_PTR_SIZE < 2 ^ 63"
  obtains b where "bi_new v bid uuid fn est s b0 = (Inr (), b)"
    "bi_ready b []" "length (bi_data b) = est * INDEX_PTR_SIZE" "ih_start_index (bi_header b) = s"
proof -
  have sz: "bi_file_size est = est * INDEX_PTR_SIZE"
    using assms by (simp add: bi_file_size_def DEFAULT_BLOAT_FACTOR_def)
  let ?h = "new_index_header v bid uuid est s"
  let ?b = "(bi_close (b0\<lparr>bi_header := ?h, bi_data := replicate (bi_file_size est) 0, bi_mapped := True,
      bi_available := True, bi_filename := fn @ ''.index''\<rparr>))
    \<lparr>bi_header := ?h, bi_data := replicate (bi_file_size est) 0, bi_mapped := True,
     bi_filename := fn @ ''.index'', bi_write_ptr := True, bi_available := True\<rparr>"
  have "strncmp_eq uuid uuid (length uuid)"
    by (simp add: strncmp_eq_def)
  then have ev: "bi_new v bid uuid fn est s b0 = (Inr (), ?b)"
    by (simp add: bi_new_def bi_create_index_def bi_create_index0_def bi_open_index_def bi_open_index0_def
        bi_close_def cmd_simps new_index_header_def version_compatible_def BLOCK_INDEX_VERSION_def)
  show ?thesis
    by (rule that [OF ev]) (use assms sz in
      \<open>simp_all add: bi_ready_def bi_repr_def bi_close_def new_index_header_def entries_ok_def last_of_def\<close>)
qed

lemma write_many_append:
  "bi_write_many v tx i (rs @ rs') b = (case bi_write_many v tx i rs b of
     (Inl e, b') \<Rightarrow> (Inl e, b') | (Inr _, b') \<Rightarrow> bi_write_many v tx (i + length rs) rs' b')"
proof (induction rs arbitrary: i b)
  case Nil
  then show ?case by (simp add: cmd_simps)
next
  case (Cons r rs)
  obtain off n where r: "r = (off, n)" by force
  show ?case
    using Cons.IH by (cases "bi_write_index v i off n tx b"; cases "fst (bi_write_index v i off n tx b)")
      (simp_all add: r c_bind_def split: prod.splits sum.splits)
qed

lemma write_full:
  assumes rep: "bi_repr b es ps" and tx: "bi_tx b tx es ps" "tx \<noteq> []" and wr: "ih_write_state (bi_header b) = WRITABLE"
    and len: "length (bi_data b) = est * INDEX_PTR_SIZE" and n: "length (es @ ps) = (if est < 4 then est else est - 4)"
  shows "fst (bi_write_index v (ih_start_index (bi_header b) + length (es @ ps)) off sz tx b)
    = Inl (if est < 4 then Mem_fault else Precondition)"
proof (cases "est < 4")
  case False
  then have "bi_has_space INDEX_PTR_SIZE b = (Inr False, b)"
    using bi_has_space_eval [OF rep tx(1)] len n
    by (simp only: INDEX_PTR_SIZE_def INDEX_HEADER_SIZE_def) (simp, linarith)
  then show ?thesis
    using rep wr False by (simp add: bi_write_index_def cmd_simps bi_repr_def)
next
  case True
  obtain ri where ri: "bi_rollback b = Some ri" "ri_in_transaction ri" "ri_transaction_id ri = tx"
    "ri_write_offset ri = length (es @ ps) * INDEX_PTR_SIZE"
    "ri_last_index ri = last_of (ih_start_index (bi_header b)) (es @ ps)" "bi_write_ptr b"
    using tx(1) by (auto simp: bi_tx_def)
  have sp: "bi_has_space INDEX_PTR_SIZE b = (Inr True, b)"
    using bi_has_space_eval [OF rep tx(1)] len n True by (simp add: INDEX_HEADER_SIZE_def)
  have bnd: "ih_start_index (bi_header b) + length (bi_data b) < 2 ^ 63" "bi_available b"
    using rep by (auto simp: bi_repr_def)
  have ix: "ih_start_index (bi_header b) + length (es @ ps) = ih_start_index (bi_header b)
      \<or> ih_start_index (bi_header b) + length (es @ ps) = add64 (bi_get_last_index b) 1"
    using bnd(1) n True len ri
    by (cases "es @ ps") (simp_all add: bi_get_last_index_def last_of_def add64_def INDEX_PTR_SIZE_def)
  have "bi_poke (length (es @ ps) * INDEX_PTR_SIZE) (replicate INDEX_PTR_SIZE 0) b = (Inl Mem_fault, b)"
    using n True len by (simp add: bi_poke_def poke_def INDEX_PTR_SIZE_def)
  then show ?thesis
    using bnd(2) wr sp ri tx(2) ix True
    by (simp add: bi_write_index_def cmd_simps bi_in_transaction_def bi_check_txid_def bi_get_write_ptr_def)
qed

text \<open>C27. An index created for \<open>est\<close> records takes four records less: the space
  check counts the header, which lies outside the size it is compared with, and the next write is
  refused. For fewer than four records the unsigned difference wraps around, all \<open>est\<close> records are
  admitted, and the next one is written past the end of the mapping.\<close>

theorem index_capacity:
  assumes "s + est * INDEX_PTR_SIZE < 2 ^ 63" "tx \<noteq> []" "bi_small rs"
  shows "\<exists>b b1. bi_new v bid uuid fn est s b0 = (Inr (), b) \<and> bi_setup_transaction v tx b = (Inr (), b1)
    \<and> fst (bi_write_many v tx s rs b1) =
        (if length rs \<le> (if est < 4 then est else est - 4) then Inr ()
         else Inl (if est < 4 then Mem_fault else Precondition))"
proof -
  obtain b where b: "bi_new v bid uuid fn est s b0 = (Inr (), b)" "bi_ready b []"
    "length (bi_data b) = est * INDEX_PTR_SIZE" "ih_start_index (bi_header b) = s"
    by (rule new_ready [OF assms(1)])
  then have f: "bi_mapped b" "ih_write_state (bi_header b) = WRITABLE"
    by (auto simp: bi_ready_def)
  obtain b1 where b1: "bi_setup_transaction v tx b = (Inr (), b1)" "bi_repr b1 [] []" "bi_tx b1 tx [] []"
    using b(2) repr_setup [of b "[]" v tx] unfolding bi_ready_def by blast
  have h1: "bi_header b1 = bi_header b" "bi_data b1 = bi_data b"
    using setup_fields [OF f(1), of v tx] b1(1) by auto
  let ?n = "if est < 4 then est else est - 4"
  have fits: "bi_room b1 k" if "k \<le> ?n" for k
    using that b(3) h1(2) by (auto simp: bi_room_def INDEX_PTR_SIZE_def INDEX_HEADER_SIZE_def split: if_splits)
  have run: "\<exists>b'. bi_write_many v tx s qs b1 = (Inr (), b') \<and> bi_repr b' [] (new_entries BLOCK_RECORD_STATE_USED s qs)
      \<and> bi_tx b' tx [] (new_entries BLOCK_RECORD_STATE_USED s qs) \<and> bi_header b' = bi_header b
      \<and> length (bi_data b') = est * INDEX_PTR_SIZE" if "length qs \<le> ?n" "bi_small qs" for qs
    using write_many_spec [OF b1(2,3) assms(2), of qs s v] fits [OF that(1)] that(2) f(2) h1 b(3,4)
    by (auto simp: bi_small_def)
  show ?thesis
  proof (cases "length rs \<le> ?n")
    case True
    then show ?thesis using b(1) b1(1) run [OF True assms(3)] by auto
  next
    case False
    define qs rs' where "qs = take ?n rs" and "rs' = drop (Suc ?n) rs"
    obtain off sz where "rs ! ?n = (off, sz)" by force
    then have rs: "rs = qs @ (off, sz) # rs'" "length qs = ?n"
      using False id_take_nth_drop [of ?n rs] by (auto simp: qs_def rs'_def)
    have "bi_small qs" using assms(3) rs(1) by (simp add: bi_small_def)
    then obtain b2 where b2: "bi_write_many v tx s qs b1 = (Inr (), b2)"
      "bi_repr b2 [] (new_entries BLOCK_RECORD_STATE_USED s qs)" "bi_tx b2 tx [] (new_entries BLOCK_RECORD_STATE_USED s qs)"
      "bi_header b2 = bi_header b" "length (bi_data b2) = est * INDEX_PTR_SIZE"
      using run [of qs] rs(2) by auto
    have "fst (bi_write_index v (s + length qs) off sz tx b2) = Inl (if est < 4 then Mem_fault else Precondition)"
      using write_full [OF b2(2,3) assms(2) _ b2(5), of v off sz] b2(4) f(2) rs(2) b(4) by simp
    then have "fst (bi_write_many v tx s rs b1) = Inl (if est < 4 then Mem_fault else Precondition)"
      unfolding rs(1) write_many_append
      using b2(1) by (cases "bi_write_index v (s + length qs) off sz tx b2") (simp add: c_bind_def)
    then show ?thesis using b(1) b1(1) False by auto
  qed
qed

subsection \<open>On a concrete index\<close>

definition demo_index :: block_index where
  "demo_index = \<lparr>bi_available = False, bi_mapped = False, bi_filename = [],
     bi_header = new_index_header demo_env 0 [] 0 0, bi_data = [], bi_write_ptr = False, bi_rollback = None,
     bi_deletes = [], bi_write_usage = \<lparr>us_bytes_used = 0, us_elapsed_time = 0, us_last_synced = 900\<rparr>,
     bi_read_usage = \<lparr>us_bytes_used = 0, us_elapsed_time = 0, us_last_synced = 900\<rparr>, bi_reports = []\<rparr>"

lemma index_commit_roundtrip_witness:
  "\<exists>b b1 b2. bi_new demo_env 1 ''uid'' ''f'' 9 5 demo_index = (Inr (), b)
    \<and> bi_transact demo_env ''tx'' 5 [(0, 10), (58, 20)] [5] b = (Inr (), b1) \<and> bi_commit demo_env ''tx'' b1 = (Inr (), b2)
    \<and> fst (bi_read_index demo_env 5 False b2) = Inr None
    \<and> fst (bi_read_index demo_env 6 False b2) = Inr (Some (INDEX_PTR_SIZE,
        \<lparr>ip_index = 6, ip_state = BLOCK_RECORD_STATE_READABLE, ip_offset = 58, ip_size = 20\<rparr>))"
proof -
  have small: "(5::nat) + 9 * INDEX_PTR_SIZE < 2 ^ 63" by (simp add: INDEX_PTR_SIZE_def)
  obtain b where b: "bi_new demo_env 1 ''uid'' ''f'' 9 5 demo_index = (Inr (), b)" "bi_ready b []"
    "length (bi_data b) = 9 * INDEX_PTR_SIZE" "ih_start_index (bi_header b) = 5"
    by (rule new_ready [OF small])
  have nx: "bi_next b [] = 5" using b(4) by (simp add: bi_next_def)
  have room: "bi_room b (length ([] :: index_ptr list) + length [(0::nat, 10::nat), (58, 20)])"
    using b(3) by (simp add: bi_room_def INDEX_PTR_SIZE_def INDEX_HEADER_SIZE_def)
  obtain b1 b2 where r: "bi_transact demo_env ''tx'' (bi_next b []) [(0, 10), (58, 20)] [5] b = (Inr (), b1)"
    "bi_commit demo_env ''tx'' b1 = (Inr (), b2)"
    "\<forall>n < length ([] :: index_ptr list) + length [(0::nat, 10::nat), (58, 20)].
      fst (bi_read_index demo_env (ih_start_index (bi_header b) + n) False b2)
        = Inr (bi_expected (ih_start_index (bi_header b))
                 ([] @ new_entries BLOCK_RECORD_STATE_READABLE (bi_next b []) [(0, 10), (58, 20)]) [5] n)"
    using index_commit_roundtrip [OF b(2) _ room, of "''tx''" "[5]" demo_env] b(4) nx
    by (auto simp: bi_small_def)
  have "fst (bi_read_index demo_env 5 False b2) = Inr None"
    using r(3) [rule_format, of 0] b(4) by (simp add: bi_expected_def)
  moreover have "fst (bi_read_index demo_env 6 False b2) = Inr (Some (INDEX_PTR_SIZE,
        \<lparr>ip_index = 6, ip_state = BLOCK_RECORD_STATE_READABLE, ip_offset = 58, ip_size = 20\<rparr>))"
    using r(3) [rule_format, of 1] b(4) nx by (simp add: bi_expected_def)
  ultimately show ?thesis using b(1) r(1,2) nx by auto
qed

lemma index_rollback_restores_witness:
  "\<exists>b b1 b2. bi_new demo_env 1 ''uid'' ''f'' 9 5 demo_index = (Inr (), b)
    \<and> bi_transact demo_env ''tx'' 5 [(0, 10), (58, 20)] [5] b = (Inr (), b1) \<and> bi_rollback_tx ''tx'' b1 = (Inr (), b2)
    \<and> bi_header b2 = bi_header b \<and> bi_deletes b2 = []"
proof -
  have small: "(5::nat) + 9 * INDEX_PTR_SIZE < 2 ^ 63" by (simp add: INDEX_PTR_SIZE_def)
  obtain b where b: "bi_new demo_env 1 ''uid'' ''f'' 9 5 demo_index = (Inr (), b)" "bi_ready b []"
    "length (bi_data b) = 9 * INDEX_PTR_SIZE" "ih_start_index (bi_header b) = 5"
    by (rule new_ready [OF small])
  have nx: "bi_next b [] = 5" using b(4) by (simp add: bi_next_def)
  have room: "bi_room b (length ([] :: index_ptr list) + length [(0::nat, 10::nat), (58, 20)])"
    using b(3) by (simp add: bi_room_def INDEX_PTR_SIZE_def INDEX_HEADER_SIZE_def)
  show ?thesis
    using index_rollback_restores [OF b(2) _ room, of "''tx''" "[5]" demo_env] b(1,4) nx
    by (auto simp: bi_small_def)
qed

lemma index_capacity_witness:
  "(\<exists>b b1. bi_new demo_env 1 ''uid'' ''f'' 5 0 demo_index = (Inr (), b) \<and> bi_setup_transaction demo_env ''tx'' b = (Inr (), b1)
      \<and> fst (bi_write_many demo_env ''tx'' 0 [(0, 10), (58, 20)] b1) = Inl Precondition)
   \<and> (\<exists>b b1. bi_new demo_env 1 ''uid'' ''f'' 1 0 demo_index = (Inr (), b) \<and> bi_setup_transaction demo_env ''tx'' b = (Inr (), b1)
      \<and> fst (bi_write_many demo_env ''tx'' 0 [(0, 10), (58, 20)] b1) = Inl Mem_fault)"
  using index_capacity [of 0 5 "''tx''" "[(0, 10), (58, 20)]" demo_env 1 "''uid''" "''f''" demo_index]
    index_capacity [of 0 1 "''tx''" "[(0, 10), (58, 20)]" demo_env 1 "''uid''" "''f''" demo_index]
  by (simp add: bi_small_def INDEX_PTR_SIZE_def)

end
