(* ===== verification/IndexedBlock.thy ===== *)
theory IndexedBlock
  imports IndexSpec BlockProps
begin

section \<open>Indexed blocks (core/includes/base_indexed_block.h, core/src/base_indexed_block.cpp)\<close>

text \<open>
  An indexed block is a data block with the index of its records beside it; \<open>xb_index\<close> is None
  when \<open>index_ptr\<close> is null. Its operations are those of \<open>BaseBlock\<close> and \<open>BlockIndex\<close> run on the
  two parts, in the order of the code; \<open>on_block\<close> and \<open>on_index\<close> run a command on one of them.
\<close>

record indexed_block =
  xb_block :: base_block
  xb_index :: "block_index option"

definition on_block :: "('a, base_block) cmd \<Rightarrow> ('a, indexed_block) cmd" where
  "on_block m x = (case m (xb_block x) of (r, b') \<Rightarrow> (r, x\<lparr>xb_block := b'\<rparr>))"

definition on_index :: "('a, block_index) cmd \<Rightarrow> ('a, indexed_block) cmd" where
  "on_index m x = (case xb_index x of
       None \<Rightarrow> (Inl Mem_fault, x)
     | Some ix \<Rightarrow> (case m ix of (r, ix') \<Rightarrow> (r, x\<lparr>xb_index := Some ix'\<rparr>)))"

definition xb_start_transaction :: "blk_env \<Rightarrow> u64 \<Rightarrow> string \<Rightarrow> string \<Rightarrow> round list \<Rightarrow> indexed_block
    \<Rightarrow> (string, indexed_block) res option" where
  "xb_start_transaction v timeout txid uuid rounds x =
     (case blk_start_transaction v timeout txid uuid rounds (xb_block x) of
        None \<Rightarrow> None
      | Some (Inl e, b') \<Rightarrow> Some (Inl e, x\<lparr>xb_block := b'\<rparr>)
      | Some (Inr tid, b') \<Rightarrow>
          Some (c_bind (on_index (bi_setup_transaction v tid)) (\<lambda>_. c_ret tid) (x\<lparr>xb_block := b'\<rparr>)))"

definition xb_write :: "blk_env \<Rightarrow> u8 list option \<Rightarrow> string \<Rightarrow> (nat, indexed_block) cmd" where
  "xb_write v source tx =
     c_bind (on_block (c_all [c_check State_unavailable bb_available,
                              c_check Null_pointer (\<lambda>_. source \<noteq> None)])) (\<lambda>_.
     c_bind (on_block (blk_write_record v source tx)) (\<lambda>off x.
     case header_at (bb_data (xb_block x)) off of
       None \<Rightarrow> (Inl Mem_fault, x)
     | Some h \<Rightarrow>
         c_bind (on_index (bi_write_index v (rh_index h) (rh_offset h) (rh_data_size h) tx)) (\<lambda>_.
         c_ret (rh_index h)) x))"

definition xb_close :: "blk_env \<Rightarrow> (unit, indexed_block) cmd" where
  "xb_close v = c_bind (on_block (blk_close v)) (\<lambda>_. c_mod (\<lambda>x. x\<lparr>xb_index := None\<rparr>))"

subsection \<open>Reading\<close>

text \<open>The entries of any state are looked at only for a read of deleted, dirty or all records.\<close>

definition xb_all_states :: "nat \<Rightarrow> bool" where
  "xb_all_states r_state \<longleftrightarrow> r_state \<in> {R_DELETED, R_DIRTY, R_ALL}"

text \<open>\<open>read\<close> hands \<open>process_record_data\<close> a second buffer that is null, which it checks when the
  block is compressed or encrypted.\<close>

definition xb_process_record :: "blk_env \<Rightarrow> base_block \<Rightarrow> nat \<Rightarrow> rec_header \<Rightarrow> exc + u8 list list" where
  "xb_process_record v b off h =
     (if bh_encrypted (bb_header b) \<or> bh_compressed (bb_header b) then Inl Null_pointer
      else blk_process_record v b off h)"

fun xb_read_loop :: "blk_env \<Rightarrow> nat \<Rightarrow> nat \<Rightarrow> nat \<Rightarrow> nat \<Rightarrow> (u8 list list, indexed_block) cmd" where
  "xb_read_loop v r_state index count 0 = c_ret []"
| "xb_read_loop v r_state index count (Suc n) =
     (if count = 0 then c_ret []
      else c_bind (on_index (bi_read_index v index (xb_all_states r_state))) (\<lambda>found.
        case found of
          None \<Rightarrow> xb_read_loop v r_state (index + 1) count n
        | Some (_, p) \<Rightarrow>
            c_bind (on_block (blk_read_record_at (ip_index p) (ip_offset p) (ip_size p))) (\<lambda>(off, h).
            if read_skips r_state h then xb_read_loop v r_state (index + 1) count n
            else (\<lambda>x. case xb_process_record v (xb_block x) off h of
                    Inl e \<Rightarrow> (Inl e, x)
                  | Inr d \<Rightarrow> c_bind (xb_read_loop v r_state (index + 1) (count - 1) n) (\<lambda>ds. c_ret (d @ ds)) x))))"

definition xb_read :: "blk_env \<Rightarrow> nat \<Rightarrow> nat \<Rightarrow> nat \<Rightarrow> (u8 list list, indexed_block) cmd" where
  "xb_read v index count r_state =
     c_bind (on_block (c_all [c_check State_unavailable bb_available,
                              c_check Precondition (\<lambda>_. r_state \<noteq> R_FREE)])) (\<lambda>_ x.
     xb_read_loop v r_state index count (bh_last_index (bb_header (xb_block x)) - index) x)"

subsection \<open>Commit and rollback\<close>

fun xb_mark_deleted :: "blk_env \<Rightarrow> nat list \<Rightarrow> (unit, indexed_block) cmd" where
  "xb_mark_deleted v [] = c_ret ()"
| "xb_mark_deleted v (i # is) =
     c_bind (on_index (bi_read_index v i True)) (\<lambda>found.
     case found of
       None \<Rightarrow> c_throw Null_pointer
     | Some (_, p) \<Rightarrow>
         c_bind (on_block (blk_read_record_at (ip_index p) (ip_offset p) (ip_size p))) (\<lambda>(off, h).
         c_bind (on_block (blk_set_state off h R_DELETED)) (\<lambda>_.
         c_bind (on_block (c_mod (\<lambda>b. b\<lparr>bb_header := (bb_header b)
             \<lparr>bh_deleted_records := inc32 (bh_deleted_records (bb_header b))\<rparr>\<rparr>))) (\<lambda>_.
         xb_mark_deleted v is))))"

definition xb_check_tx :: "blk_env \<Rightarrow> string \<Rightarrow> (unit, indexed_block) cmd" where
  "xb_check_tx v tx = on_block (c_all [c_check State_unavailable bb_available,
                                       c_assert Precondition (blk_in_transaction v), blk_check_txid tx])"

definition xb_commit :: "blk_env \<Rightarrow> string \<Rightarrow> (unit, indexed_block) cmd" where
  "xb_commit v tx =
     c_bind (xb_check_tx v tx) (\<lambda>_.
     c_bind (on_index (c_get bi_deletes)) (\<lambda>ds.
     c_bind (xb_mark_deleted v ds) (\<lambda>_.
     c_bind (on_index (bi_commit v tx)) (\<lambda>_.
     c_bind (on_block blk_publish_all) (\<lambda>_.
     on_block (blk_end_transaction v))))))"

definition xb_rollback :: "blk_env \<Rightarrow> string \<Rightarrow> (unit, indexed_block) cmd" where
  "xb_rollback v tx =
     c_bind (xb_check_tx v tx) (\<lambda>_.
     c_bind (on_index (bi_rollback_tx tx)) (\<lambda>_.
     on_block (blk_force_rollback v)))"

subsection \<open>Deleting\<close>

definition xb_delete_checks :: "blk_env \<Rightarrow> nat \<Rightarrow> string \<Rightarrow> (unit, indexed_block) cmd" where
  "xb_delete_checks v index tx =
     on_block (c_all [c_check State_unavailable bb_available,
                    c_assert Precondition blk_is_writeable,
                    c_assert Precondition (blk_in_transaction v),
                    blk_check_txid tx,
                    c_check Precondition (\<lambda>b. bh_start_index (bb_header b) \<le> index),
                    c_assert Precondition (c_bind (blk_get_current_index v) (\<lambda>i. c_ret (index \<le> i)))])"

definition xb_delete_record :: "blk_env \<Rightarrow> nat \<Rightarrow> string \<Rightarrow> (bool, indexed_block) cmd" where
  "xb_delete_record v index tx =
     c_bind (xb_delete_checks v index tx) (\<lambda>_.
     c_bind (on_index (bi_read_index v index True)) (\<lambda>found.
     case found of
       None \<Rightarrow> c_throw (Fs_block_error ERRCODE_INDEX_NOT_FOUND)
     | Some (_, p) \<Rightarrow>
         c_bind (on_block (blk_read_record_at index (ip_offset p) (ip_size p))) (\<lambda>(off, h).
         c_bind (c_check Precondition (\<lambda>_. rec_valid_state h)) (\<lambda>_.
         c_bind (on_block (c_mod (\<lambda>b. b\<lparr>bb_header := (bb_header b)\<lparr>bh_update_time := be_now v\<rparr>\<rparr>))) (\<lambda>_.
         on_index (bi_delete_index index tx))))))"

subsection \<open>Creating and opening\<close>

definition fresh_index :: "blk_env \<Rightarrow> block_index" where
  "fresh_index v = \<lparr>bi_available = False, bi_mapped = False, bi_filename = [],
     bi_header = new_index_header v 0 [] 0 0, bi_data = [], bi_write_ptr = False, bi_rollback = None,
     bi_deletes = [], bi_write_usage = \<lparr>us_bytes_used = 0, us_elapsed_time = 0, us_last_synced = 0\<rparr>,
     bi_read_usage = \<lparr>us_bytes_used = 0, us_elapsed_time = 0, us_last_synced = 0\<rparr>, bi_reports = []\<rparr>"

text \<open>
  \<open>exists\<close>, \<open>removed\<close> are the answers of the file system for the block file, \<open>iexists\<close>,
  \<open>iremoved\<close> those for the index file. A zero \<open>est_record_size\<close> divides by zero.
\<close>

definition xb_create :: "blk_env \<Rightarrow> string \<Rightarrow> nat \<Rightarrow> nat \<Rightarrow> string \<Rightarrow> block_usage \<Rightarrow> nat \<Rightarrow> nat \<Rightarrow> nat \<Rightarrow> bool
    \<Rightarrow> bool \<Rightarrow> bool \<Rightarrow> bool \<Rightarrow> bool \<Rightarrow> (string, indexed_block) cmd" where
  "xb_create v uuid block_id parent_id filename usage block_size start_index est_record_size overwrite
       exists removed iexists iremoved =
     c_bind (on_block (blk_create_block v uuid block_id parent_id filename usage INDEXED block_size start_index
               overwrite exists removed)) (\<lambda>r.
     c_bind (c_check Mem_fault (\<lambda>_. est_record_size \<noteq> 0)) (\<lambda>_.
     c_bind (c_mod (\<lambda>x. x\<lparr>xb_index := Some (fresh_index v)\<rparr>)) (\<lambda>_.
     c_bind (\<lambda>x. on_index (bi_create_index v (bh_block_id (bb_header (xb_block x))) (bh_block_uid (bb_header (xb_block x)))
               (bb_filename (xb_block x)) (block_size div est_record_size mod 2 ^ 32)
               (bh_start_index (bb_header (xb_block x))) overwrite iexists iremoved) x) (\<lambda>_.
     c_bind (xb_close v) (\<lambda>_.
     c_bind (c_check Postcondition (\<lambda>_. r \<noteq> [])) (\<lambda>_. c_ret r))))))"

definition xb_open :: "blk_env \<Rightarrow> nat \<Rightarrow> string \<Rightarrow> block_file option \<Rightarrow> index_file option \<Rightarrow> bool
    \<Rightarrow> (unit, indexed_block) cmd" where
  "xb_open v block_id filename file ifile for_update =
     c_bind (on_block (blk_open_block v block_id filename file for_update)) (\<lambda>_.
     c_bind (on_block (c_mod (\<lambda>b. b\<lparr>bb_write_ptr := (bh_write_state (bb_header b) = WRITABLE
               \<or> (for_update \<and> bh_write_state (bb_header b) = UPDATEABLE))\<rparr>))) (\<lambda>_.
     c_bind (c_mod (\<lambda>x. x\<lparr>xb_index := Some (fresh_index v)\<rparr>)) (\<lambda>_.
     c_bind (\<lambda>x. on_index (bi_open_index (bh_block_id (bb_header (xb_block x))) (bh_block_uid (bb_header (xb_block x)))
               (bb_filename (xb_block x)) ifile for_update) x) (\<lambda>_.
     on_block (c_mod (\<lambda>b. b\<lparr>bb_available := True\<rparr>))))))"

subsection \<open>The sanity check\<close>

fun xb_count_records :: "blk_env \<Rightarrow> nat \<Rightarrow> nat \<Rightarrow> nat \<Rightarrow> nat \<Rightarrow> indexed_block \<Rightarrow> (nat \<times> nat, indexed_block) res option" where
  "xb_count_records v 0 ii tot deleted x =
     (if ii < bh_last_index (bb_header (xb_block x)) then None else Some (Inr (tot, deleted), x))"
| "xb_count_records v (Suc fuel) ii tot deleted x =
     (if ii < bh_last_index (bb_header (xb_block x))
      then (case on_index (bi_read_index v ii True) x of
              (Inl e, x') \<Rightarrow> Some (Inl e, x')
            | (Inr None, x') \<Rightarrow> Some (Inl (Fs_block_error ERRCODE_BLOCK_SANITY_FAILED), x')
            | (Inr (Some (_, p)), x') \<Rightarrow>
                if ip_state p = BLOCK_RECORD_STATE_READABLE
                then (case on_block (blk_read_record_at (ip_index p) (ip_offset p) (ip_size p)) x' of
                        (Inl e, x'') \<Rightarrow> Some (Inl e, x'')
                      | (Inr _, x'') \<Rightarrow> xb_count_records v fuel (inc32 ii) (inc32 tot) deleted x'')
                else xb_count_records v fuel (inc32 ii) (inc32 tot) (inc32 deleted) x')
      else Some (Inr (tot, deleted), x))"

definition xb_check_sanity :: "blk_env \<Rightarrow> nat \<Rightarrow> indexed_block \<Rightarrow> (block_check_record, indexed_block) res option" where
  "xb_check_sanity v fuel x =
     (if \<not> bb_available (xb_block x) then Some (Inl State_unavailable, x)
      else (case xb_count_records v fuel (bh_start_index (bb_header (xb_block x)) mod 2 ^ 32) 0 0 x of
              None \<Rightarrow> None
            | Some (Inl e, x') \<Rightarrow> Some (Inl e, x')
            | Some (Inr (tot, deleted), x') \<Rightarrow>
                (let h = bb_header (xb_block x') in
                 if tot \<noteq> bh_total_records h \<or> deleted \<noteq> bh_deleted_records h
                 then Some (Inl (Fs_block_error ERRCODE_BLOCK_SANITY_FAILED), x')
                 else Some (Inr \<lparr>cr_block_id = bh_block_id h, cr_block_uuid = bh_block_uid h,
                        cr_record_index_start = bh_start_index h, cr_record_index_last = bh_last_index h,
                        cr_commit_sequence = bh_commit_sequence h\<rparr>, x'))))"

end
