(* ===== verification/IndexedSpec.thy ===== *)
theory IndexedSpec
  imports IndexedBlock
begin

section \<open>What an indexed block promises\<close>

text \<open>
  The coupling invariant \<open>xb_repr\<close>: the entries of the index are the images \<open>ip_of\<close> of the chunks
  of the block, committed and pending. The lemmas show that a write, a commit and a rollback
  keep it, and what a read through the index returns; they rest on \<open>BlockSpec\<close> and \<open>IndexSpec\<close>.
\<close>

definition ip_state_of :: "nat \<Rightarrow> nat" where
  "ip_state_of st = (if st = R_DIRTY then BLOCK_RECORD_STATE_USED
     else if st = R_DELETED then BLOCK_RECORD_STATE_DELETED else BLOCK_RECORD_STATE_READABLE)"

definition ip_of :: "chunk \<Rightarrow> index_ptr" where
  "ip_of c = \<lparr>ip_index = rh_index (fst c), ip_state = ip_state_of (rh_state (fst c)),
     ip_offset = rh_offset (fst c), ip_size = rh_data_size (fst c)\<rparr>"

lemma ip_of_simps [simp]:
  "ip_index (ip_of c) = rh_index (fst c)" "ip_offset (ip_of c) = rh_offset (fst c)"
  "ip_size (ip_of c) = rh_data_size (fst c)" "ip_state (ip_of c) = ip_state_of (rh_state (fst c))"
  by (simp_all add: ip_of_def)

lemma ip_of_with_state: "ip_of (with_state st c) = with_ip_state (ip_state_of st) (ip_of c)"
  by (simp add: ip_of_def with_ip_state_def with_state_def)

lemma ip_state_of_simps [simp]:
  "ip_state_of R_READABLE = BLOCK_RECORD_STATE_READABLE" "ip_state_of R_DELETED = BLOCK_RECORD_STATE_DELETED"
  "ip_state_of R_DIRTY = BLOCK_RECORD_STATE_USED"
  by (simp_all add: ip_state_of_def record_states)

lemma map_ip_of_readable:
  "map ip_of (map (with_state R_READABLE) ps) = map (with_ip_state BLOCK_RECORD_STATE_READABLE) (map ip_of ps)"
  by (simp add: ip_of_with_state comp_def)

definition xb_repr :: "indexed_block \<Rightarrow> chunk list \<Rightarrow> chunk list \<Rightarrow> bool" where
  "xb_repr x cs ps \<longleftrightarrow> blk_repr (xb_block x) cs ps
     \<and> (\<exists>ix. xb_index x = Some ix \<and> bi_repr ix (map ip_of cs) (map ip_of ps)
          \<and> ih_start_index (bi_header ix) = bh_start_index (bb_header (xb_block x)))"

definition xb_tx :: "indexed_block \<Rightarrow> string \<Rightarrow> chunk list \<Rightarrow> chunk list \<Rightarrow> bool" where
  "xb_tx x tx cs ps \<longleftrightarrow> blk_tx (xb_block x) cs ps
     \<and> (\<exists>ix. xb_index x = Some ix \<and> bi_tx ix tx (map ip_of cs) (map ip_of ps))"

lemma on_block_run: "m (xb_block x) = (r, b') \<Longrightarrow> on_block m x = (r, x\<lparr>xb_block := b'\<rparr>)"
  by (simp add: on_block_def)

lemma on_index_run: "xb_index x = Some ix \<Longrightarrow> m ix = (r, ix') \<Longrightarrow> on_index m x = (r, x\<lparr>xb_index := Some ix'\<rparr>)"
  by (simp add: on_index_def)

lemma xb_same [simp]: "xb_index x = Some ix \<Longrightarrow> x\<lparr>xb_index := Some ix\<rparr> = x" "x\<lparr>xb_block := xb_block x\<rparr> = x"
  by simp_all

lemma xb_reprE:
  assumes "xb_repr x cs ps"
  obtains ix where "xb_index x = Some ix" "blk_repr (xb_block x) cs ps" "bi_repr ix (map ip_of cs) (map ip_of ps)"
    "ih_start_index (bi_header ix) = bh_start_index (bb_header (xb_block x))"
  using assms by (auto simp: xb_repr_def)

subsection \<open>Writing\<close>

text \<open>The index is open for writing and takes another entry.\<close>

definition xb_room :: "indexed_block \<Rightarrow> nat \<Rightarrow> bool" where
  "xb_room x n \<longleftrightarrow> (\<exists>ix. xb_index x = Some ix \<and> ih_write_state (bi_header ix) = WRITABLE
     \<and> n * INDEX_PTR_SIZE + INDEX_PTR_SIZE \<le> length (bi_data ix)
     \<and> n * INDEX_PTR_SIZE + INDEX_HEADER_SIZE + INDEX_PTR_SIZE \<le> length (bi_data ix))"

definition xb_frame :: "indexed_block \<Rightarrow> indexed_block \<Rightarrow> bool" where
  "xb_frame x x' \<longleftrightarrow> blk_frame (xb_block x) (xb_block x')
     \<and> (\<exists>ix ix'. xb_index x = Some ix \<and> xb_index x' = Some ix' \<and> bi_header ix' = bi_header ix
          \<and> bi_deletes ix' = bi_deletes ix \<and> length (bi_data ix') = length (bi_data ix))"

lemma xb_write_block:
  assumes ses: "blk_session v tx (xb_block x)" and rep: "xb_repr x cs ps" and txr: "blk_tx (xb_block x) cs ps"
    and fits: "blk_fits v (xb_block x) (cs @ ps) (length d)"
    and space: "fst (blk_has_space v (length d) (xb_block x)) = Inr True"
  obtains b' where
    "xb_write v (Some d) tx x = c_bind (on_index (bi_write_index v
        (bh_start_index (bb_header (xb_block x)) + length (cs @ ps)) (length (enc_chunks (cs @ ps))) (length d) tx))
        (\<lambda>_. c_ret (bh_start_index (bb_header (xb_block x)) + length (cs @ ps))) (x\<lparr>xb_block := b'\<rparr>)"
    "blk_held v tx b'" "blk_repr b' cs (ps @ [new_chunk v (xb_block x) cs ps 0 d])"
    "blk_tx b' cs (ps @ [new_chunk v (xb_block x) cs ps 0 d])" "blk_frame (xb_block x) b'"
    "blk_releasable v b' = blk_releasable v (xb_block x)"
proof -
  obtain ix where rb: "blk_repr (xb_block x) cs ps"
    using xb_reprE [OF rep] by blast
  obtain b' where b': "blk_write_record v (Some d) tx (xb_block x) = (Inr (length (enc_chunks (cs @ ps))), b')"
    "header_at (bb_data b') (length (enc_chunks (cs @ ps))) = Some (fst (new_chunk v (xb_block x) cs ps 0 d))"
    "blk_held v tx b'" "blk_repr b' cs (ps @ [new_chunk v (xb_block x) cs ps 0 d])"
    "blk_tx b' cs (ps @ [new_chunk v (xb_block x) cs ps 0 d])" "blk_frame (xb_block x) b'"
    "blk_releasable v b' = blk_releasable v (xb_block x)"
    by (rule write_record_spec [OF ses rb txr fits space])
  have av: "bb_available (xb_block x)" using ses by (simp add: blk_session_def)
  have "on_block (c_all [c_check State_unavailable bb_available, c_check Null_pointer (\<lambda>_. Some d \<noteq> None)]) x = (Inr (), x)"
    using av by (simp add: on_block_def cmd_simps)
  then have "xb_write v (Some d) tx x = c_bind (on_index (bi_write_index v
        (bh_start_index (bb_header (xb_block x)) + length (cs @ ps)) (length (enc_chunks (cs @ ps))) (length d) tx))
        (\<lambda>_. c_ret (bh_start_index (bb_header (xb_block x)) + length (cs @ ps))) (x\<lparr>xb_block := b'\<rparr>)"
    using on_block_run [of "blk_write_record v (Some d) tx" x, OF b'(1)] b'(2)
    by (simp add: xb_write_def c_bind_Inr new_chunk_def add.assoc)
  then show ?thesis
    using that b' by blast
qed

lemma xb_write_spec:
  assumes ses: "blk_session v tx (xb_block x)" and rep: "xb_repr x cs ps" and txr: "xb_tx x tx cs ps"
    and fits: "blk_fits v (xb_block x) (cs @ ps) (length d)"
    and space: "fst (blk_has_space v (length d) (xb_block x)) = Inr True" and room: "xb_room x (length (cs @ ps))"
  obtains x' where
    "xb_write v (Some d) tx x = (Inr (bh_start_index (bb_header (xb_block x)) + length (cs @ ps)), x')"
    "blk_held v tx (xb_block x')" "xb_repr x' cs (ps @ [new_chunk v (xb_block x) cs ps 0 d])"
    "xb_tx x' tx cs (ps @ [new_chunk v (xb_block x) cs ps 0 d])" "xb_frame x x'"
    "blk_releasable v (xb_block x') = blk_releasable v (xb_block x)"
proof -
  let ?s = "bh_start_index (bb_header (xb_block x))" and ?c = "new_chunk v (xb_block x) cs ps 0 d"
  obtain ix where ix: "xb_index x = Some ix" "blk_repr (xb_block x) cs ps"
    "bi_repr ix (map ip_of cs) (map ip_of ps)" "ih_start_index (bi_header ix) = ?s"
    by (rule xb_reprE [OF rep])
  have t: "blk_tx (xb_block x) cs ps" "bi_tx ix tx (map ip_of cs) (map ip_of ps)"
    using txr ix(1) by (simp_all add: xb_tx_def)
  obtain b' where b': "xb_write v (Some d) tx x = c_bind (on_index (bi_write_index v
        (?s + length (cs @ ps)) (length (enc_chunks (cs @ ps))) (length d) tx))
        (\<lambda>_. c_ret (?s + length (cs @ ps))) (x\<lparr>xb_block := b'\<rparr>)"
    "blk_held v tx b'" "blk_repr b' cs (ps @ [?c])" "blk_tx b' cs (ps @ [?c])" "blk_frame (xb_block x) b'"
    "blk_releasable v b' = blk_releasable v (xb_block x)"
    by (rule xb_write_block [OF ses rep t(1) fits space])
  have small: "length (enc_chunks (cs @ ps)) < 2 ^ 64" "length d < 2 ^ 64"
    using fits ix(2) by (simp_all add: blk_fits_def blk_repr_def)
  have ne: "tx \<noteq> []" using ses by (simp add: blk_session_def)
  have r: "length (map ip_of cs @ map ip_of ps) * INDEX_PTR_SIZE + INDEX_PTR_SIZE \<le> length (bi_data ix)"
    "length (bi_data ix) < length (map ip_of cs @ map ip_of ps) * INDEX_PTR_SIZE + INDEX_HEADER_SIZE
      \<or> length (map ip_of cs @ map ip_of ps) * INDEX_PTR_SIZE + INDEX_HEADER_SIZE + INDEX_PTR_SIZE \<le> length (bi_data ix)"
    "ih_write_state (bi_header ix) = WRITABLE"
    using room ix(1) by (simp_all add: xb_room_def)
  let ?e = "new_entry ix (map ip_of cs @ map ip_of ps) (length (enc_chunks (cs @ ps))) (length d)"
  obtain ix' where ix': "bi_write_index v (ih_start_index (bi_header ix) + length (map ip_of cs @ map ip_of ps))
      (length (enc_chunks (cs @ ps))) (length d) tx ix = (Inr (length (map ip_of cs @ map ip_of ps) * INDEX_PTR_SIZE), ix')"
    "bi_repr ix' (map ip_of cs) (map ip_of ps @ [?e])" "bi_tx ix' tx (map ip_of cs) (map ip_of ps @ [?e])"
    "bi_header ix' = bi_header ix" "bi_deletes ix' = bi_deletes ix" "length (bi_data ix') = length (bi_data ix)"
    by (rule write_index_spec [OF ix(3) t(2) ne r(3,1,2) small])
  have e: "?e = ip_of ?c"
    using ix(4) by (simp add: new_entry_def ip_of_def new_chunk_def)
  let ?x = "x\<lparr>xb_block := b', xb_index := Some ix'\<rparr>"
  have "on_index (bi_write_index v (?s + length (cs @ ps)) (length (enc_chunks (cs @ ps))) (length d) tx) (x\<lparr>xb_block := b'\<rparr>)
      = (Inr (length (map ip_of cs @ map ip_of ps) * INDEX_PTR_SIZE), ?x)"
    using ix'(1) ix(1,4) by (simp add: on_index_def)
  then have ev: "xb_write v (Some d) tx x = (Inr (?s + length (cs @ ps)), ?x)"
    using b'(1) by (simp add: c_bind_def c_ret_def)
  show ?thesis
    by (rule that [OF ev]) (use b' ix' ix e frame_fields(1) [OF b'(5)] in
        \<open>simp_all add: xb_repr_def xb_tx_def xb_frame_def\<close>)
qed

subsection \<open>Reading through the index\<close>

lemma read_record_at_spec:
  assumes rep: "blk_repr b cs ps" and av: "bb_available b" and n: "n < length cs"
  shows "blk_read_record_at (rh_index (fst (cs ! n))) (rh_offset (fst (cs ! n))) (rh_data_size (fst (cs ! n))) b =
    (Inr (length (enc_chunks (take n (cs @ ps))), fst (cs ! n)), b)"
proof -
  have ok: "chunks_ok (bh_start_index (bb_header b)) 0 (cs @ ps)"
    and last: "bh_last_index (bb_header b) = bh_start_index (bb_header b) + length cs"
    using rep by (simp_all add: blk_repr_def)
  have n': "n < length (cs @ ps)" using n by simp
  note c = chunks_ok_nth [OF ok n'] nth_append [of cs ps n]
  obtain post where data: "bb_data b = enc_chunks (cs @ ps) @ post"
    using rep by (auto simp: blk_repr_def)
  have h: "header_at (bb_data b) (length (enc_chunks (take n (cs @ ps)))) = Some (fst (cs ! n))"
    using header_at_chunk [OF _ refl, of "(cs @ ps) ! n" "enc_chunks (take n (cs @ ps))"] c
      split_chunk [OF n', of post] data n by metis
  show ?thesis
    using av n last h c by (simp add: blk_read_record_at_def cmd_simps)
qed

text \<open>Which committed chunks a read selects.\<close>

definition xb_selects :: "nat \<Rightarrow> chunk \<Rightarrow> bool" where
  "xb_selects st c \<longleftrightarrow> (if st = R_DELETED \<or> st = R_DIRTY then rh_state (fst c) = st
     else if st = R_ALL then True else rh_state (fst c) = R_READABLE)"

lemma xb_repr_index:
  assumes "xb_index x = Some ix" "bi_same ix ix'" "xb_repr x cs ps"
  shows "xb_repr (x\<lparr>xb_index := Some ix'\<rparr>) cs ps"
  using assms bi_same_repr [OF assms(2)] by (auto simp: xb_repr_def bi_same_def)

lemma xb_read_loop_spec:
  assumes "xb_repr x cs ps" "bb_available (xb_block x)" "n + k = length cs"
  shows "\<exists>x'. xb_read_loop v st (bh_start_index (bb_header (xb_block x)) + n) count k x =
    (Inr (map snd (take count (filter (xb_selects st) (drop n cs)))), x') \<and> xb_repr x' cs ps \<and> xb_block x' = xb_block x"
  using assms
proof (induction k arbitrary: n count x)
  case 0
  then show ?case by (simp add: cmd_simps)
next
  case (Suc k)
  let ?s = "bh_start_index (bb_header (xb_block x))"
  have n: "n < length cs" using Suc.prems(3) by simp
  obtain ix where ix: "xb_index x = Some ix" "blk_repr (xb_block x) cs ps"
    "bi_repr ix (map ip_of cs) (map ip_of ps)" "ih_start_index (bi_header ix) = ?s"
    by (rule xb_reprE [OF Suc.prems(1)])
  have dr: "drop n cs = cs ! n # drop (Suc n) cs"
    using n by (simp add: Cons_nth_drop_Suc)
  have states: "rh_state (fst (cs ! n)) = R_READABLE \<or> rh_state (fst (cs ! n)) = R_DELETED"
    using ix(2) n by (simp add: blk_repr_def)
  have ro: "on_index (bi_read_index v (?s + n) (xb_all_states st)) x =
      (if xb_all_states st \<or> rh_state (fst (cs ! n)) = R_READABLE
       then (Inr (Some (n * INDEX_PTR_SIZE, ip_of (cs ! n))), x\<lparr>xb_index := Some (bi_update_read_usage v INDEX_PTR_SIZE ix)\<rparr>)
       else (Inr None, x))"
    using read_index_spec [OF ix(3), of n v "xb_all_states st"] n ix(1,4) states
    by (auto simp: on_index_def ip_state_of_def index_states record_states)
  let ?x1 = "x\<lparr>xb_index := Some (bi_update_read_usage v INDEX_PTR_SIZE ix)\<rparr>"
  have rep1: "xb_repr ?x1 cs ps"
    by (rule xb_repr_index [OF ix(1) _ Suc.prems(1)]) simp
  have rec: "on_block (blk_read_record_at (rh_index (fst (cs ! n))) (rh_offset (fst (cs ! n))) (rh_data_size (fst (cs ! n)))) ?x1
      = (Inr (length (enc_chunks (take n (cs @ ps))), fst (cs ! n)), ?x1)"
    using read_record_at_spec [OF ix(2) Suc.prems(2) n] by (simp add: on_block_def)
  have pr: "xb_process_record v (xb_block x) (length (enc_chunks (take n (cs @ ps)))) (fst (cs ! n)) = Inr [snd (cs ! n)]"
    using process_record_spec [OF ix(2), of n v] n ix(2) by (simp add: nth_append xb_process_record_def blk_repr_def)
  have ih: "\<exists>x'. xb_read_loop v st (?s + Suc n) m k y = (Inr (map snd (take m (filter (xb_selects st) (drop (Suc n) cs)))), x')
      \<and> xb_repr x' cs ps \<and> xb_block x' = xb_block y" if "xb_repr y cs ps" "xb_block y = xb_block x" for m y
    using Suc.IH [OF that(1), of "Suc n" m] that(2) Suc.prems(2,3) by simp
  show ?case
  proof (cases count)
    case 0
    then show ?thesis using Suc.prems(1) by (simp add: cmd_simps)
  next
    case (Suc m)
    show ?thesis
    proof (cases "xb_all_states st \<or> rh_state (fst (cs ! n)) = R_READABLE")
      case False
      then have "\<not> xb_selects st (cs ! n)"
        using states by (auto simp: xb_selects_def xb_all_states_def)
      then show ?thesis
        using ro False ih [OF Suc.prems(1) refl, of count] dr Suc by (simp add: cmd_simps)
    next
      case True
      then have "read_skips st (fst (cs ! n)) = (\<not> xb_selects st (cs ! n))"
        using states by (auto simp: xb_selects_def xb_all_states_def read_skips_def record_states)
      then show ?thesis
        using ro True rec pr ih [OF rep1, of count] ih [OF rep1, of m] dr Suc
        by (cases "xb_selects st (cs ! n)") (auto simp: cmd_simps)
    qed
  qed
qed

lemma xb_read_spec:
  assumes rep: "xb_repr x cs ps" and av: "bb_available (xb_block x)" and n: "n \<le> length cs" and st: "st \<noteq> R_FREE"
  obtains x' where "xb_read v (bh_start_index (bb_header (xb_block x)) + n) count st x =
      (Inr (map snd (take count (filter (xb_selects st) (drop n cs)))), x')" "xb_repr x' cs ps" "xb_block x' = xb_block x"
proof -
  have "bh_last_index (bb_header (xb_block x)) - (bh_start_index (bb_header (xb_block x)) + n) = length cs - n"
    using rep by (auto simp: xb_repr_def blk_repr_def)
  moreover have "on_block (c_all [c_check State_unavailable bb_available, c_check Precondition (\<lambda>_. st \<noteq> R_FREE)]) x = (Inr (), x)"
    using av st by (simp add: on_block_def cmd_simps)
  ultimately show ?thesis
    using xb_read_loop_spec [OF rep av, of n "length cs - n" v st count] n that
    by (auto simp: xb_read_def c_bind_Inr)
qed

subsection \<open>Committing\<close>

definition same_place :: "index_ptr list \<Rightarrow> chunk list \<Rightarrow> bool" where
  "same_place es cs \<longleftrightarrow> length es = length cs \<and> (\<forall>n < length cs. ip_index (es ! n) = rh_index (fst (cs ! n))
     \<and> ip_offset (es ! n) = rh_offset (fst (cs ! n)) \<and> ip_size (es ! n) = rh_data_size (fst (cs ! n)))"

lemma same_place_ip_of: "same_place (map ip_of cs) cs"
  by (simp add: same_place_def)

lemma same_place_update: "same_place es cs \<Longrightarrow> same_place es (cs[n := with_state st (cs ! n)])"
  by (cases "n < length cs") (auto simp: same_place_def nth_list_update with_state_def)

abbreviation add_deleted :: "nat \<Rightarrow> base_block \<Rightarrow> base_block" where
  "add_deleted k b \<equiv> b\<lparr>bb_header := (bb_header b)\<lparr>bh_deleted_records := (inc32 ^^ k) (bh_deleted_records (bb_header b))\<rparr>\<rparr>"

lemma xb_mark_spec:
  assumes "blk_repr (xb_block x) cs ps" "bb_available (xb_block x)" "xb_index x = Some ix" "bi_repr ix es qs"
    "same_place es cs" "ih_start_index (bi_header ix) = bh_start_index (bb_header (xb_block x))"
    and "\<forall>i \<in> set ds. bh_start_index (bb_header (xb_block x)) \<le> i \<and> i < bh_last_index (bb_header (xb_block x))"
  shows "\<exists>m ix'. xb_mark_deleted v ds x = (Inr (), x\<lparr>xb_block := add_deleted (length ds) ((xb_block x)\<lparr>bb_data := m\<rparr>),
      xb_index := Some ix'\<rparr>)
    \<and> blk_repr ((xb_block x)\<lparr>bb_data := m\<rparr>) (mark (bh_start_index (bb_header (xb_block x))) ds cs) ps \<and> bi_same ix ix'"
  using assms
proof (induction ds arbitrary: x cs ix)
  case Nil
  then show ?case
    by (intro exI [of _ "bb_data (xb_block x)"] exI [of _ ix]) (simp add: cmd_simps)
next
  case (Cons i ds)
  let ?b = "xb_block x" and ?s = "bh_start_index (bb_header (xb_block x))"
  have last: "bh_last_index (bb_header ?b) = ?s + length cs"
    using Cons.prems(1) by (simp add: blk_repr_def)
  define n where "n = i - ?s"
  have n: "i = ?s + n" "n < length cs" "n < length es"
    using Cons.prems(5,7) last by (auto simp: n_def same_place_def)
  let ?ix = "bi_update_read_usage v INDEX_PTR_SIZE ix"
  have ri: "on_index (bi_read_index v i True) x = (Inr (Some (n * INDEX_PTR_SIZE, es ! n)), x\<lparr>xb_index := Some ?ix\<rparr>)"
    using read_index_spec [OF Cons.prems(4) n(3), of v True] n(1) Cons.prems(3,6) by (simp add: on_index_def)
  have rd: "on_block (blk_read_record_at (ip_index (es ! n)) (ip_offset (es ! n)) (ip_size (es ! n))) (x\<lparr>xb_index := Some ?ix\<rparr>)
      = (Inr (length (enc_chunks (take n (cs @ ps))), fst (cs ! n)), x\<lparr>xb_index := Some ?ix\<rparr>)"
    using read_record_at_spec [OF Cons.prems(1,2) n(2)] Cons.prems(5) n(2) by (simp add: on_block_def same_place_def)
  let ?cs = "cs[n := with_state R_DELETED (cs ! n)]"
  obtain m where m: "poke (bb_data ?b) (length (enc_chunks (take n (cs @ ps))) + 16) (nat_bytes 4 R_DELETED) = Some m"
    "blk_repr (?b\<lparr>bb_data := m\<rparr>) ?cs ps"
    using repr_set_state [OF Cons.prems(1) n(2), of R_DELETED] by blast
  define x1 where "x1 = x\<lparr>xb_block := add_deleted 1 (?b\<lparr>bb_data := m\<rparr>), xb_index := Some ?ix\<rparr>"
  have ss: "on_block (blk_set_state (length (enc_chunks (take n (cs @ ps)))) (fst (cs ! n)) R_DELETED) (x\<lparr>xb_index := Some ?ix\<rparr>)
      = (Inr (), x\<lparr>xb_index := Some ?ix, xb_block := ?b\<lparr>bb_data := m\<rparr>\<rparr>)"
    unfolding on_block_def blk_set_state_def blk_poke_def using m(1) by simp
  have md: "on_block (c_mod (\<lambda>b. b\<lparr>bb_header := (bb_header b)\<lparr>bh_deleted_records := inc32 (bh_deleted_records (bb_header b))\<rparr>\<rparr>))
      (x\<lparr>xb_index := Some ?ix, xb_block := ?b\<lparr>bb_data := m\<rparr>\<rparr>) = (Inr (), x1)"
    by (simp add: on_block_def c_mod_def x1_def)
  have step: "xb_mark_deleted v (i # ds) x = xb_mark_deleted v ds x1"
    using ri rd ss by (simp add: c_bind_Inr md)
  have rep1: "blk_repr (xb_block x1) ?cs ps"
    by (rule repr_cong [OF m(2)]) (simp_all add: x1_def)
  have same1: "bi_same ix ?ix" by simp
  have bi1: "bi_repr ?ix es qs" "ih_start_index (bi_header ?ix) = ih_start_index (bi_header ix)"
    using Cons.prems(4) bi_same_repr [OF same1] same1 by (simp_all add: bi_same_def)
  obtain m' ix' where m': "xb_mark_deleted v ds x1 = (Inr (), x1\<lparr>xb_block := add_deleted (length ds) ((xb_block x1)\<lparr>bb_data := m'\<rparr>),
      xb_index := Some ix'\<rparr>)"
    "blk_repr ((xb_block x1)\<lparr>bb_data := m'\<rparr>) (mark (bh_start_index (bb_header (xb_block x1))) ds ?cs) ps" "bi_same ?ix ix'"
    using Cons.IH [OF rep1 _ _ bi1(1) same_place_update [OF Cons.prems(5)]] Cons.prems(2,6,7) bi1(2)
    by (auto simp: x1_def)
  have e: "mark (bh_start_index (bb_header (xb_block x1))) ds ?cs = mark ?s (i # ds) cs"
    by (simp add: x1_def n_def)
  have "blk_repr (?b\<lparr>bb_data := m'\<rparr>) (mark ?s (i # ds) cs) ps"
    by (rule repr_cong [OF m'(2) [unfolded e]]) (simp_all add: x1_def)
  moreover have "xb_mark_deleted v (i # ds) x = (Inr (), x\<lparr>xb_block := add_deleted (length (i # ds)) (?b\<lparr>bb_data := m'\<rparr>),
      xb_index := Some ix'\<rparr>)"
    unfolding step m'(1) by (simp add: x1_def funpow_swap1)
  ultimately show ?case
    using bi_same_trans [OF same1 m'(3)] by blast
qed

lemma mirror_commit:
  assumes "\<forall>i \<in> set ds. s \<le> i \<and> i < s + length cs"
  shows "ip_final s ds (map ip_of cs @ map (with_ip_state BLOCK_RECORD_STATE_READABLE) (map ip_of ps))
    = map ip_of (mark s ds cs @ map (with_state R_READABLE) ps)"
proof (rule nth_equalityI)
  fix n assume "n < length (ip_final s ds (map ip_of cs @ map (with_ip_state BLOCK_RECORD_STATE_READABLE) (map ip_of ps)))"
  then show "ip_final s ds (map ip_of cs @ map (with_ip_state BLOCK_RECORD_STATE_READABLE) (map ip_of ps)) ! n
    = map ip_of (mark s ds cs @ map (with_state R_READABLE) ps) ! n"
    using assms by (auto simp: ip_final_def nth_append nth_mark ip_of_with_state)
qed (simp add: ip_final_def)

lemma xb_check_tx_spec:
  assumes "blk_session v tx (xb_block x)"
  shows "xb_check_tx v tx x = (Inr (), x\<lparr>xb_block := blk_touch v (xb_block x)\<rparr>)"
proof -
  have h: "blk_held v tx (blk_touch v (xb_block x))" and av: "bb_available (xb_block x)"
    using session_touch_held [OF assms] assms by (simp_all add: blk_session_def)
  have "c_all [c_check State_unavailable bb_available, c_assert Precondition (blk_in_transaction v), blk_check_txid tx] (xb_block x)
      = (Inr (), blk_touch v (xb_block x))"
    using session_in_tx [OF assms] held_check_txid [OF h] av by (simp add: cmd_simps)
  then show ?thesis
    unfolding xb_check_tx_def by (rule on_block_run)
qed

text \<open>The pending records \<open>ps\<close> of the block and \<open>qs\<close> of the index need not be the same.\<close>

lemma xb_commit_gen:
  assumes ses: "blk_session v tx (xb_block x)" and rel: "blk_releasable v (xb_block x)"
    and bi1: "blk_repr (xb_block x) cs ps" and t1: "blk_tx (xb_block x) cs ps" and ix: "xb_index x = Some ix"
    and bi2: "bi_repr ix (map ip_of cs) (map ip_of qs)" "ih_start_index (bi_header ix) = bh_start_index (bb_header (xb_block x))"
    and t2: "bi_tx ix tx (map ip_of cs) (map ip_of qs)"
    and del: "\<forall>i \<in> set (bi_deletes ix). bh_start_index (bb_header (xb_block x)) \<le> i \<and> i < bh_last_index (bb_header (xb_block x))"
  obtains x' where "xb_commit v tx x = (Inr (), x')"
    "blk_repr (xb_block x') (mark (bh_start_index (bb_header (xb_block x))) (bi_deletes ix) cs @ map (with_state R_READABLE) ps) []"
    "\<exists>ix'. xb_index x' = Some ix' \<and> bi_repr ix' (map ip_of (mark (bh_start_index (bb_header (xb_block x))) (bi_deletes ix) cs
        @ map (with_state R_READABLE) qs)) [] \<and> ih_start_index (bi_header ix') = bh_start_index (bb_header (xb_block x))"
    "blk_unlocked (xb_block x')" "bb_available (xb_block x')"
    "bh_start_index (bb_header (xb_block x')) = bh_start_index (bb_header (xb_block x))"
    "bh_last_index (bb_header (xb_block x')) = bh_last_index (bb_header (xb_block x)) + length ps"
    "bh_deleted_records (bb_header (xb_block x')) = (inc32 ^^ length (bi_deletes ix)) (bh_deleted_records (bb_header (xb_block x)))"
proof -
  let ?s = "bh_start_index (bb_header (xb_block x))" and ?ds = "bi_deletes ix"
  define b0 where "b0 = blk_touch v (xb_block x)"
  define x0 where "x0 = x\<lparr>xb_block := b0\<rparr>"
  have h0: "blk_held v tx b0" and av: "bb_available (xb_block x)"
    using session_touch_held [OF ses] ses by (simp_all add: b0_def blk_session_def)
  note bi = bi1 bi2 and t = t1 t2
  have last: "bh_last_index (bb_header (xb_block x)) = ?s + length cs"
    using bi(1) by (simp add: blk_repr_def)
  have x0: "xb_block x0 = b0" "xb_index x0 = Some ix" "bb_header b0 = bb_header (xb_block x)"
    using ix by (simp_all add: x0_def b0_def)
  have rep0: "blk_repr b0 cs ps" using bi(1) by (simp add: b0_def)
  obtain m ix1 where m: "xb_mark_deleted v ?ds x0 = (Inr (), x0\<lparr>xb_block := add_deleted (length ?ds) (b0\<lparr>bb_data := m\<rparr>), xb_index := Some ix1\<rparr>)"
    "blk_repr (b0\<lparr>bb_data := m\<rparr>) (mark ?s ?ds cs) ps" "bi_same ix ix1"
    using xb_mark_spec [of x0 cs ps ix "map ip_of cs" "map ip_of qs" ?ds v] rep0 x0 bi(2,3) av del same_place_ip_of
    by (auto simp: b0_def)
  let ?b1 = "add_deleted (length ?ds) (b0\<lparr>bb_data := m\<rparr>)"
  have range: "\<forall>i \<in> set ?ds. ?s \<le> i \<and> i < ?s + length cs"
    using del last by simp
  have c1: "bi_repr ix1 (map ip_of cs) (map ip_of qs)" "bi_tx ix1 tx (map ip_of cs) (map ip_of qs)"
    "bi_deletes ix1 = ?ds" "ih_start_index (bi_header ix1) = ?s"
    using bi(2,3) t(2) m(3) bi_same_repr [OF m(3)] bi_same_tx [OF m(3)] by (auto simp: bi_same_def)
  have range1: "\<forall>i \<in> set (bi_deletes ix1). ih_start_index (bi_header ix1) \<le> i
      \<and> i < ih_start_index (bi_header ix1) + length (map ip_of cs @ map ip_of qs)"
    using range c1(3,4) by fastforce
  obtain ix2 where ix2: "bi_commit v tx ix1 = (Inr (), ix2)"
    "bi_repr ix2 (map ip_of (mark ?s ?ds cs @ map (with_state R_READABLE) qs)) []"
    "ih_start_index (bi_header ix2) = ?s"
    by (rule index_commit_spec [OF c1(1,2) range1, of v, unfolded c1(3,4) mirror_commit [OF range]])
  have rep1: "blk_repr ?b1 (mark ?s ?ds cs) ps"
    by (rule repr_cong [OF m(2)]) simp_all
  have len: "length (enc_chunks (mark ?s ?ds cs)) = length (enc_chunks cs)"
    using rep0 rep1 by (simp add: blk_repr_def)
  have tx1: "blk_tx ?b1 (mark ?s ?ds cs) ps"
    using t(1) len by (simp add: blk_tx_def b0_def)
  obtain m2 hh where p: "blk_publish_all ?b1 = (Inr (), ?b1\<lparr>bb_data := m2, bb_header := hh\<rparr>)"
    "blk_repr (?b1\<lparr>bb_data := m2, bb_header := hh\<rparr>) (mark ?s ?ds cs @ map (with_state R_READABLE) ps) []"
    "bh_start_index hh = ?s" "bh_last_index hh = bh_last_index (bb_header (xb_block x)) + length ps"
    "bh_deleted_records hh = (inc32 ^^ length ?ds) (bh_deleted_records (bb_header (xb_block x)))"
    using publish_all_spec [OF rep1 tx1] x0(3) by auto
  define b2 where "b2 = ?b1\<lparr>bb_data := m2, bb_header := hh\<rparr>"
  have h2: "blk_held v tx b2"
    using h0 by (auto simp: b2_def blk_held_def)
  have rel2: "blk_releasable v b2"
    using rel releasable_cong [of b2 b0] by (simp add: b0_def b2_def)
  obtain ri where ri: "bb_rollback b2 = Some ri"
    using held_facts [OF h2] by blast
  obtain c' where c': "blk_end_transaction v b2 = (Inr (), b2\<lparr>bb_rollback := Some (ri_ended ri), bb_client := c'\<rparr>)"
    "blk_unlocked (b2\<lparr>bb_rollback := Some (ri_ended ri), bb_client := c'\<rparr>)"
    using end_transaction_spec [OF h2 rel2 ri] by blast
  let ?b = "b2\<lparr>bb_rollback := Some (ri_ended ri), bb_client := c'\<rparr>"
  let ?x = "x\<lparr>xb_block := ?b, xb_index := Some ix2\<rparr>"
  have ev: "xb_commit v tx x = (Inr (), ?x)"
    using xb_check_tx_spec [OF ses, folded b0_def x0_def] m(1) ix2(1) p(1) [folded b2_def] c'(1) x0(2)
    by (simp add: xb_commit_def c_bind_Inr on_index_def on_block_def c_get_def x0_def)
  have rb: "blk_repr ?b (mark ?s ?ds cs @ map (with_state R_READABLE) ps) []"
    using p(2) by (rule repr_cong) (simp_all add: b2_def)
  have avb: "bb_available ?b" using av by (simp add: b2_def b0_def)
  have xr: "\<exists>ix'. xb_index ?x = Some ix' \<and> bi_repr ix' (map ip_of (mark ?s ?ds cs @ map (with_state R_READABLE) qs)) []
      \<and> ih_start_index (bi_header ix') = ?s"
    using ix2(2,3) by simp
  show ?thesis
    by (rule that [OF ev _ xr]) (use rb c'(2) avb p in \<open>simp_all add: b2_def\<close>)
qed

lemma xb_commit_spec:
  assumes ses: "blk_session v tx (xb_block x)" and rel: "blk_releasable v (xb_block x)"
    and rep: "xb_repr x cs ps" and txr: "xb_tx x tx cs ps" and ix: "xb_index x = Some ix"
    and del: "\<forall>i \<in> set (bi_deletes ix). bh_start_index (bb_header (xb_block x)) \<le> i \<and> i < bh_last_index (bb_header (xb_block x))"
  obtains x' where "xb_commit v tx x = (Inr (), x')"
    "xb_repr x' (mark (bh_start_index (bb_header (xb_block x))) (bi_deletes ix) cs @ map (with_state R_READABLE) ps) []"
    "blk_unlocked (xb_block x')" "bb_available (xb_block x')"
    "bh_start_index (bb_header (xb_block x')) = bh_start_index (bb_header (xb_block x))"
    "bh_last_index (bb_header (xb_block x')) = bh_last_index (bb_header (xb_block x)) + length ps"
    "bh_deleted_records (bb_header (xb_block x')) = (inc32 ^^ length (bi_deletes ix)) (bh_deleted_records (bb_header (xb_block x)))"
proof -
  have bi: "blk_repr (xb_block x) cs ps" "bi_repr ix (map ip_of cs) (map ip_of ps)"
    "ih_start_index (bi_header ix) = bh_start_index (bb_header (xb_block x))"
    using rep ix by (auto simp: xb_repr_def)
  have t: "blk_tx (xb_block x) cs ps" "bi_tx ix tx (map ip_of cs) (map ip_of ps)"
    using txr ix by (simp_all add: xb_tx_def)
  show ?thesis
    by (rule xb_commit_gen [OF ses rel bi(1) t(1) ix bi(2,3) t(2) del])
      (rule that, assumption, simp add: xb_repr_def, assumption+)
qed


lemma xb_rollback_spec:
  assumes ses: "blk_session v tx (xb_block x)" and rel: "blk_releasable v (xb_block x)"
    and rep: "xb_repr x cs ps" and txr: "xb_tx x tx cs ps"
  obtains x' where "xb_rollback v tx x = (Inr (), x')" "xb_repr x' cs []" "blk_unlocked (xb_block x')"
    "bb_header (xb_block x') = bb_header (xb_block x)" "bb_available (xb_block x')"
    "\<exists>ix. xb_index x' = Some ix \<and> bi_deletes ix = [] \<and> \<not> bi_in_transaction ix"
proof -
  obtain ix where ix: "xb_index x = Some ix" "blk_repr (xb_block x) cs ps"
    "bi_repr ix (map ip_of cs) (map ip_of ps)" "ih_start_index (bi_header ix) = bh_start_index (bb_header (xb_block x))"
    by (rule xb_reprE [OF rep])
  have t: "bi_tx ix tx (map ip_of cs) (map ip_of ps)"
    using txr ix(1) by (simp add: xb_tx_def)
  obtain ix2 where ix2: "bi_rollback_tx tx ix = (Inr (), ix2)" "bi_header ix2 = bi_header ix" "bi_deletes ix2 = []"
    "\<not> bi_in_transaction ix2" "bi_repr ix2 (map ip_of cs) []"
    by (rule index_rollback_spec [OF ix(3) t])
  obtain b' where b': "blk_rollback v tx (xb_block x) = (Inr (), b')" "blk_repr b' cs []" "blk_unlocked b'"
    "bb_header b' = bb_header (xb_block x)" "bb_available b'"
    by (rule rollback_spec [OF ses rel ix(2)])
  have ct: "c_all [c_check State_unavailable bb_available, c_assert Precondition (blk_in_transaction v), blk_check_txid tx] (xb_block x)
      = (Inr (), blk_touch v (xb_block x))"
    using xb_check_tx_spec [OF ses] by (simp add: xb_check_tx_def on_block_def split: prod.splits) (metis indexed_block.ext_inject
        indexed_block.surjective indexed_block.update_convs(1))
  then have fr: "blk_force_rollback v (blk_touch v (xb_block x)) = (Inr (), b')"
    using b'(1) unfolding blk_rollback_def by (simp only: c_bind_Inr)
  let ?x = "x\<lparr>xb_block := b', xb_index := Some ix2\<rparr>"
  have ev: "xb_rollback v tx x = (Inr (), ?x)"
    using xb_check_tx_spec [OF ses] ix(1) ix2(1) fr
    by (simp add: xb_rollback_def c_bind_Inr on_index_def on_block_def)
  show ?thesis
    by (rule that [OF ev]) (use b' ix2 ix(4) in \<open>simp_all add: xb_repr_def\<close>)
qed

end
