(* ===== verification/IndexedProps.thy ===== *)
theory IndexedProps
  imports IndexedSpec IndexProps
begin

section \<open>Properties of indexed blocks\<close>

text \<open>
  Whole transactions on an indexed block (several writes, deletions, commit or rollback), and the
  two behaviours in which the block and its index part: a full index, and a compressed block.
  \<open>demo_xb\<close> puts an index beside \<open>demo_block\<close>.
\<close>

fun xb_write_all :: "blk_env \<Rightarrow> u8 list list \<Rightarrow> string \<Rightarrow> (nat list, indexed_block) cmd" where
  "xb_write_all v [] tx = c_ret []"
| "xb_write_all v (d # ds) tx =
     c_bind (xb_write v (Some d) tx) (\<lambda>i. c_bind (xb_write_all v ds tx) (\<lambda>is. c_ret (i # is)))"

text \<open>An indexed block in the running transaction \<open>tx\<close>, and room in the index for \<open>n\<close> entries.\<close>

definition xb_running :: "blk_env \<Rightarrow> string \<Rightarrow> indexed_block \<Rightarrow> chunk list \<Rightarrow> chunk list \<Rightarrow> bool" where
  "xb_running v tx x cs ps \<longleftrightarrow> blk_session v tx (xb_block x) \<and> blk_releasable v (xb_block x)
     \<and> xb_repr x cs ps \<and> xb_tx x tx cs ps"

definition xi_room :: "indexed_block \<Rightarrow> nat \<Rightarrow> bool" where
  "xi_room x n \<longleftrightarrow> (\<exists>ix. xb_index x = Some ix \<and> ih_write_state (bi_header ix) = WRITABLE
     \<and> n * INDEX_PTR_SIZE + INDEX_HEADER_SIZE \<le> length (bi_data ix))"

lemma xi_room_xb: "xi_room x (Suc n) \<Longrightarrow> xb_room x n"
  by (auto simp: xi_room_def xb_room_def algebra_simps)

lemma xb_frame_room: "xb_frame x x' \<Longrightarrow> xi_room x' n = xi_room x n"
  by (auto simp: xb_frame_def xi_room_def)

lemma xb_frame_trans: "xb_frame x y \<Longrightarrow> xb_frame y z \<Longrightarrow> xb_frame x z"
  unfolding xb_frame_def by (metis frame_trans option.inject)

lemma xb_frame_start: "xb_frame x x' \<Longrightarrow> bh_start_index (bb_header (xb_block x')) = bh_start_index (bb_header (xb_block x))"
  by (auto simp: xb_frame_def frame_fields)

lemma xb_frame_refl: "xb_index x \<noteq> None \<Longrightarrow> xb_frame x x"
  unfolding xb_frame_def blk_frame_def by (auto intro: exI [of _ "bh_update_time (bb_header (xb_block x))"])

lemma xb_write_all_spec:
  assumes "xb_running v tx x cs ps" "blk_room (xb_block x) (cs @ ps) ds" "xi_room x (length (cs @ ps) + length ds)"
  shows "\<exists>x' qs. xb_write_all v ds tx x = (Inr [bh_start_index (bb_header (xb_block x)) + length (cs @ ps)
        ..< bh_start_index (bb_header (xb_block x)) + length (cs @ ps) + length ds], x')
    \<and> xb_running v tx x' cs (ps @ qs) \<and> map snd qs = ds \<and> xb_frame x x'"
  using assms
proof (induction ds arbitrary: x ps)
  case Nil
  have "xb_index x \<noteq> None" using Nil.prems(3) by (auto simp: xi_room_def)
  then show ?case
    using Nil xb_frame_refl by (intro exI [of _ x] exI [of _ "[]"]) (simp add: cmd_simps)
next
  case (Cons d ds)
  have r: "blk_session v tx (xb_block x)" "blk_releasable v (xb_block x)" "xb_repr x cs ps" "xb_tx x tx cs ps"
    using Cons.prems(1) by (simp_all add: xb_running_def)
  have rb: "blk_repr (xb_block x) cs ps" "blk_tx (xb_block x) cs ps"
    using r by (simp_all add: xb_repr_def xb_tx_def)
  have fits: "blk_fits v (xb_block x) (cs @ ps) (length d)"
    using Cons.prems(2) by (simp add: blk_room_def blk_fits_def)
  have space: "fst (blk_has_space v (length d) (xb_block x)) = Inr True"
    using Cons.prems(2) by (intro has_space_room [OF r(1) rb]) (simp add: blk_room_def)
  have xr: "xb_room x (length (cs @ ps))"
    using Cons.prems(3) by (intro xi_room_xb) (auto simp: xi_room_def algebra_simps)
  let ?c = "new_chunk v (xb_block x) cs ps 0 d"
  obtain x1 where x1: "xb_write v (Some d) tx x = (Inr (bh_start_index (bb_header (xb_block x)) + length (cs @ ps)), x1)"
    "blk_held v tx (xb_block x1)" "xb_repr x1 cs (ps @ [?c])" "xb_tx x1 tx cs (ps @ [?c])" "xb_frame x x1"
    "blk_releasable v (xb_block x1) = blk_releasable v (xb_block x)"
    by (rule xb_write_spec [OF r(1,3,4) fits space xr])
  have fr: "blk_frame (xb_block x) (xb_block x1)" using x1(5) by (simp add: xb_frame_def)
  have run1: "xb_running v tx x1 cs (ps @ [?c])"
    using x1 r(2) held_session by (simp add: xb_running_def)
  have room1: "blk_room (xb_block x1) (cs @ ps @ [?c]) ds"
    using Cons.prems(2) fr frame_fields [OF fr] unfolding blk_room_def blk_frame_def
    by (simp add: new_chunk_def)
  have ir1: "xi_room x1 (length (cs @ (ps @ [?c])) + length ds)"
    using Cons.prems(3) xb_frame_room [OF x1(5)] by simp
  obtain x' qs where x': "xb_write_all v ds tx x1 = (Inr [bh_start_index (bb_header (xb_block x1)) + length (cs @ ps @ [?c])
        ..< bh_start_index (bb_header (xb_block x1)) + length (cs @ ps @ [?c]) + length ds], x')"
    "xb_running v tx x' cs ((ps @ [?c]) @ qs)" "map snd qs = ds" "xb_frame x1 x'"
    using Cons.IH [OF run1 _ ir1] room1 by auto
  show ?case
  proof (intro exI conjI)
    show "xb_write_all v (d # ds) tx x = (Inr [bh_start_index (bb_header (xb_block x)) + length (cs @ ps)
        ..< bh_start_index (bb_header (xb_block x)) + length (cs @ ps) + length (d # ds)], x')"
      using x1(1) x'(1) xb_frame_start [OF x1(5)] by (simp add: cmd_simps upt_start_Suc del: upt_Suc)
    show "xb_running v tx x' cs (ps @ ?c # qs)"
      using x'(2) by simp
    show "xb_frame x x'" using x1(5) x'(4) by (rule xb_frame_trans)
  qed (use x' in \<open>simp_all add: new_chunk_def\<close>)
qed

lemma filter_upt_map: "map snd (filter P cs) = map (\<lambda>n. snd (cs ! n)) (filter (\<lambda>n. P (cs ! n)) [0..<length cs])"
proof -
  have "filter P cs = filter P (map ((!) cs) [0..<length cs])"
    by (simp add: map_nth)
  then show ?thesis by (simp add: filter_map comp_def)
qed

lemma xb_selects_readable: "xb_selects R_READABLE c = (rh_state (fst c) = R_READABLE)"
  "xb_selects R_DELETED c = (rh_state (fst c) = R_DELETED)"
  by (auto simp: xb_selects_def record_states)

lemma deleted_not_readable [simp]: "R_DELETED \<noteq> R_READABLE" "R_READABLE \<noteq> R_DELETED"
  by (simp_all add: record_states)

lemma filter_readable_pending: "filter (xb_selects R_READABLE) (map (with_state R_READABLE) ps) = map (with_state R_READABLE) ps"
  by (induction ps) (simp_all add: xb_selects_readable)

lemma mark_selected:
  assumes "\<forall>i \<in> set dels. s \<le> i \<and> i < s + length cs"
  shows "map snd (filter (xb_selects R_READABLE) (mark s dels cs))
    = [snd (cs ! n). n \<leftarrow> [0..<length cs], rh_state (fst (cs ! n)) = R_READABLE \<and> s + n \<notin> set dels]"
proof -
  have "map snd (filter (xb_selects R_READABLE) (mark s dels cs))
      = map (\<lambda>n. snd (mark s dels cs ! n)) (filter (\<lambda>n. xb_selects R_READABLE (mark s dels cs ! n)) [0..<length cs])"
    by (simp add: filter_upt_map)
  also have "\<dots> = map (\<lambda>n. snd (cs ! n)) (filter (\<lambda>n. rh_state (fst (cs ! n)) = R_READABLE \<and> s + n \<notin> set dels) [0..<length cs])"
    using assms by (intro map_cong filter_cong) (auto simp: nth_mark xb_selects_readable)
  finally show ?thesis by (simp only: concat_map_filter_if)
qed

text \<open>C26. A transaction of writes on an indexed block gets consecutive
  indices and commits; a read of readable records through the index then returns the records
  that were readable before, without those deleted in the transaction, followed by the written ones.\<close>

theorem indexed_commit_roundtrip:
  assumes "xb_running v tx x cs []" "xb_index x = Some ix"
    and "\<forall>i \<in> set (bi_deletes ix). bh_start_index (bb_header (xb_block x)) \<le> i \<and> i < bh_last_index (bb_header (xb_block x))"
    and "blk_room (xb_block x) cs ds" "xi_room x (length cs + length ds)"
  shows "\<exists>x1 x'. xb_write_all v ds tx x =
      (Inr [bh_last_index (bb_header (xb_block x)) ..< bh_last_index (bb_header (xb_block x)) + length ds], x1)
    \<and> xb_commit v tx x1 = (Inr (), x') \<and> blk_unlocked (xb_block x')
    \<and> (\<forall>w. fst (xb_read w (bh_start_index (bb_header (xb_block x))) (length cs + length ds) R_READABLE x')
         = Inr ([snd (cs ! n). n \<leftarrow> [0..<length cs], rh_state (fst (cs ! n)) = R_READABLE
                   \<and> bh_start_index (bb_header (xb_block x)) + n \<notin> set (bi_deletes ix)] @ ds))"
proof -
  let ?s = "bh_start_index (bb_header (xb_block x))"
  have rb: "blk_repr (xb_block x) cs []"
    using assms(1) by (simp add: xb_running_def xb_repr_def)
  have last: "bh_last_index (bb_header (xb_block x)) = ?s + length cs"
    using rb by (simp add: blk_repr_def)
  obtain x1 qs where w: "xb_write_all v ds tx x = (Inr [?s + length cs ..< ?s + length cs + length ds], x1)"
    "xb_running v tx x1 cs qs" "map snd qs = ds" "xb_frame x x1"
    using xb_write_all_spec [OF assms(1), of ds] assms(4,5) by auto
  have r: "blk_session v tx (xb_block x1)" "blk_releasable v (xb_block x1)" "xb_repr x1 cs qs" "xb_tx x1 tx cs qs"
    using w(2) by (simp_all add: xb_running_def)
  obtain ix1 where ix1: "xb_index x1 = Some ix1" "bi_deletes ix1 = bi_deletes ix"
    using w(4) assms(2) by (auto simp: xb_frame_def)
  have fr: "blk_frame (xb_block x) (xb_block x1)" using w(4) by (simp add: xb_frame_def)
  have del: "\<forall>i \<in> set (bi_deletes ix1). bh_start_index (bb_header (xb_block x1)) \<le> i \<and> i < bh_last_index (bb_header (xb_block x1))"
    using assms(3) ix1(2) frame_fields [OF fr] by simp
  let ?cs = "mark ?s (bi_deletes ix) cs @ map (with_state R_READABLE) qs"
  obtain x' where c: "xb_commit v tx x1 = (Inr (), x')" "xb_repr x' ?cs []" "blk_unlocked (xb_block x')"
    "bb_available (xb_block x')" "bh_start_index (bb_header (xb_block x')) = ?s"
    by (rule xb_commit_spec [OF r ix1(1) del, unfolded ix1(2) frame_fields(1) [OF fr]])
  have range: "\<forall>i \<in> set (bi_deletes ix). ?s \<le> i \<and> i < ?s + length cs"
    using assms(3) last by simp
  have pay: "map snd (filter (xb_selects R_READABLE) ?cs) = [snd (cs ! n). n \<leftarrow> [0..<length cs],
      rh_state (fst (cs ! n)) = R_READABLE \<and> ?s + n \<notin> set (bi_deletes ix)] @ ds"
    using w(3) mark_selected [OF range] by (simp add: filter_readable_pending comp_def)
  have "length (filter (xb_selects R_READABLE) ?cs) \<le> length cs + length ds"
    using length_filter_le [of "xb_selects R_READABLE" ?cs] w(3) by (simp add: map_eq_conv [symmetric] flip: w(3))
  then have "fst (xb_read u ?s (length cs + length ds) R_READABLE x') = Inr (map snd (filter (xb_selects R_READABLE) ?cs))" for u
    using xb_read_spec [OF c(2,4), of 0 R_READABLE u "length cs + length ds"] c(5)
    by (metis add_0_right drop0 fst_conv le0 take_all record_states(1) record_states(2) zero_neq_one)
  then show ?thesis
    using w(1) c(1,3) pay last by auto
qed

text \<open>C28. Rolling back a transaction of writes on an indexed block
  rolls back both parts: the records and their entries are again those of before, what a read
  returns is unchanged, and the lock is free.\<close>

theorem indexed_rollback_restores:
  assumes "xb_running v tx x cs []" "blk_room (xb_block x) cs ds" "xi_room x (length cs + length ds)"
  shows "\<exists>r x1 x'. xb_write_all v ds tx x = (Inr r, x1) \<and> xb_rollback v tx x1 = (Inr (), x')
    \<and> xb_repr x' cs [] \<and> blk_unlocked (xb_block x')
    \<and> (\<forall>w n k st. n \<le> length cs \<longrightarrow> st \<noteq> R_FREE \<longrightarrow>
         fst (xb_read w (bh_start_index (bb_header (xb_block x)) + n) k st x')
         = fst (xb_read w (bh_start_index (bb_header (xb_block x)) + n) k st x))"
proof -
  obtain x1 qs where w: "xb_write_all v ds tx x = (Inr [bh_start_index (bb_header (xb_block x)) + length cs
      ..< bh_start_index (bb_header (xb_block x)) + length cs + length ds], x1)"
    "xb_running v tx x1 cs qs" "xb_frame x x1"
    using xb_write_all_spec [OF assms(1), of ds] assms(2,3) by auto
  have r: "blk_session v tx (xb_block x1)" "blk_releasable v (xb_block x1)" "xb_repr x1 cs qs" "xb_tx x1 tx cs qs"
    using w(2) by (simp_all add: xb_running_def)
  obtain x' where b: "xb_rollback v tx x1 = (Inr (), x')" "xb_repr x' cs []" "blk_unlocked (xb_block x')"
    "bb_header (xb_block x') = bb_header (xb_block x1)" "bb_available (xb_block x')"
    by (rule xb_rollback_spec [OF r])
  have x: "xb_repr x cs []" "bb_available (xb_block x)"
    using assms(1) session_available by (auto simp: xb_running_def)
  have "fst (xb_read u (bh_start_index (bb_header (xb_block x)) + n) k st x')
      = fst (xb_read u (bh_start_index (bb_header (xb_block x)) + n) k st x)" if lim: "n \<le> length cs" "st \<noteq> R_FREE" for u n k st
  proof -
    have s: "bh_start_index (bb_header (xb_block x')) = bh_start_index (bb_header (xb_block x))"
      using b(4) xb_frame_start [OF w(3)] by simp
    obtain y where "xb_read u (bh_start_index (bb_header (xb_block x)) + n) k st x =
        (Inr (map snd (take k (filter (xb_selects st) (drop n cs)))), y)"
      by (rule xb_read_spec [OF x lim])
    moreover obtain y' where "xb_read u (bh_start_index (bb_header (xb_block x')) + n) k st x' =
        (Inr (map snd (take k (filter (xb_selects st) (drop n cs)))), y')"
      by (rule xb_read_spec [OF b(2,5) lim])
    ultimately show ?thesis using s by simp
  qed
  then show ?thesis
    using w(1) b(1-3) by blast
qed

subsection \<open>Where the two parts come apart\<close>

text \<open>The index has \<open>n\<close> entries and its space check refuses another.\<close>

definition xi_full :: "indexed_block \<Rightarrow> nat \<Rightarrow> bool" where
  "xi_full x n \<longleftrightarrow> (\<exists>ix. xb_index x = Some ix \<and> ih_write_state (bi_header ix) = WRITABLE
     \<and> n * INDEX_PTR_SIZE + INDEX_HEADER_SIZE \<le> length (bi_data ix)
     \<and> length (bi_data ix) < n * INDEX_PTR_SIZE + INDEX_HEADER_SIZE + INDEX_PTR_SIZE)"

lemma xb_write_full:
  assumes "xb_running v tx x cs ps" "blk_room (xb_block x) (cs @ ps) [d]" "xi_full x (length (cs @ ps))"
  obtains b' where "xb_write v (Some d) tx x = (Inl Precondition, x\<lparr>xb_block := b'\<rparr>)"
    "blk_session v tx b'" "blk_repr b' cs (ps @ [new_chunk v (xb_block x) cs ps 0 d])"
    "blk_tx b' cs (ps @ [new_chunk v (xb_block x) cs ps 0 d])" "blk_frame (xb_block x) b'" "blk_releasable v b'"
proof -
  let ?s = "bh_start_index (bb_header (xb_block x))" and ?c = "new_chunk v (xb_block x) cs ps 0 d"
  have r: "blk_session v tx (xb_block x)" "xb_repr x cs ps" "xb_tx x tx cs ps" "blk_releasable v (xb_block x)"
    using assms(1) by (simp_all add: xb_running_def)
  have rb: "blk_repr (xb_block x) cs ps" "blk_tx (xb_block x) cs ps"
    using r by (simp_all add: xb_repr_def xb_tx_def)
  obtain ix where ix: "xb_index x = Some ix" "bi_repr ix (map ip_of cs) (map ip_of ps)" "bi_tx ix tx (map ip_of cs) (map ip_of ps)"
    using r(2,3) by (auto simp: xb_repr_def xb_tx_def)
  have fits: "blk_fits v (xb_block x) (cs @ ps) (length d)"
    using assms(2) by (simp add: blk_room_def blk_fits_def)
  have space: "fst (blk_has_space v (length d) (xb_block x)) = Inr True"
    using assms(2) by (intro has_space_room [OF r(1) rb]) (simp add: blk_room_def)
  obtain b' where b': "xb_write v (Some d) tx x = c_bind (on_index (bi_write_index v
        (?s + length (cs @ ps)) (length (enc_chunks (cs @ ps))) (length d) tx))
        (\<lambda>_. c_ret (?s + length (cs @ ps))) (x\<lparr>xb_block := b'\<rparr>)"
    "blk_held v tx b'" "blk_repr b' cs (ps @ [?c])" "blk_tx b' cs (ps @ [?c])" "blk_frame (xb_block x) b'"
    "blk_releasable v b' = blk_releasable v (xb_block x)"
    by (rule xb_write_block [OF r(1,2) rb(2) fits space])
  have "bi_has_space INDEX_PTR_SIZE ix = (Inr False, ix)"
    using bi_has_space_eval [OF ix(2,3)] assms(3) ix(1) by (auto simp: xi_full_def)
  then have "bi_write_index v (?s + length (cs @ ps)) (length (enc_chunks (cs @ ps))) (length d) tx ix = (Inl Precondition, ix)"
    using ix(1,2) assms(3) by (simp add: bi_write_index_def cmd_simps bi_repr_def xi_full_def)
  then have "xb_write v (Some d) tx x = (Inl Precondition, x\<lparr>xb_block := b'\<rparr>)"
    using b'(1) ix(1) by (simp add: on_index_def c_bind_def)
  then show ?thesis
    using that b' held_session r(4) by blast
qed

text \<open>A read that starts after the last entry of the index throws.\<close>

lemma xb_read_past:
  assumes "bb_available (xb_block x)" "xb_index x = Some ix" "bi_available ix" "ih_last_index (bi_header ix) < i"
    "i < bh_last_index (bb_header (xb_block x))"
  shows "fst (xb_read w i 1 R_READABLE x) = Inl Precondition"
proof -
  have "on_block (c_all [c_check State_unavailable bb_available, c_check Precondition (\<lambda>_. R_READABLE \<noteq> R_FREE)]) x = (Inr (), x)"
    using assms(1) by (simp add: on_block_def cmd_simps record_states)
  moreover have "on_index (bi_read_index w i (xb_all_states R_READABLE)) x = (Inl Precondition, x)"
    using assms(2-4) by (simp add: on_index_def bi_read_index_def cmd_simps)
  moreover obtain k where "bh_last_index (bb_header (xb_block x)) - i = Suc k"
    using assms(5) by (metis Suc_diff_Suc)
  ultimately show ?thesis
    by (simp add: xb_read_def c_bind_Inr c_bind_Inl)
qed

text \<open>When the index is full and the block is not, \<open>write\<close> throws, but
  the record stays in the transaction of the block: committing publishes it without an entry, and
  a read that reaches it throws.\<close>

theorem indexed_write_orphans:
  assumes "xb_running v tx x cs ps" "blk_room (xb_block x) (cs @ ps) [d]" "xi_full x (length (cs @ ps))"
    and "cs @ ps \<noteq> []" "xb_index x = Some ix" "bi_deletes ix = []"
  shows "\<exists>x1 x'. xb_write v (Some d) tx x = (Inl Precondition, x1) \<and> xb_index x1 = xb_index x
    \<and> xb_commit v tx x1 = (Inr (), x')
    \<and> bh_last_index (bb_header (xb_block x')) = bh_last_index (bb_header (xb_block x)) + length ps + 1
    \<and> (\<forall>w. fst (xb_read w (bh_last_index (bb_header (xb_block x)) + length ps) 1 R_READABLE x') = Inl Precondition)"
proof -
  let ?s = "bh_start_index (bb_header (xb_block x))" and ?c = "new_chunk v (xb_block x) cs ps 0 d"
  have last: "bh_last_index (bb_header (xb_block x)) = ?s + length cs"
    using assms(1) by (simp add: xb_running_def xb_repr_def blk_repr_def)
  have bi: "bi_repr ix (map ip_of cs) (map ip_of ps)" "ih_start_index (bi_header ix) = ?s"
    "bi_tx ix tx (map ip_of cs) (map ip_of ps)"
    using assms(1,5) by (auto simp: xb_running_def xb_repr_def xb_tx_def)
  obtain b' where b': "xb_write v (Some d) tx x = (Inl Precondition, x\<lparr>xb_block := b'\<rparr>)"
    "blk_session v tx b'" "blk_repr b' cs (ps @ [?c])" "blk_tx b' cs (ps @ [?c])" "blk_frame (xb_block x) b'" "blk_releasable v b'"
    by (rule xb_write_full [OF assms(1-3)])
  let ?x1 = "x\<lparr>xb_block := b'\<rparr>"
  have fb: "bh_start_index (bb_header b') = ?s" "bh_last_index (bb_header b') = ?s + length cs"
    using frame_fields [OF b'(5)] last by simp_all
  have cm: "blk_session v tx (xb_block ?x1)" "blk_releasable v (xb_block ?x1)" "blk_repr (xb_block ?x1) cs (ps @ [?c])"
    "blk_tx (xb_block ?x1) cs (ps @ [?c])" "xb_index ?x1 = Some ix"
    "ih_start_index (bi_header ix) = bh_start_index (bb_header (xb_block ?x1))"
    "\<forall>i \<in> set (bi_deletes ix). bh_start_index (bb_header (xb_block ?x1)) \<le> i \<and> i < bh_last_index (bb_header (xb_block ?x1))"
    using b' assms(5,6) bi(2) fb by simp_all
  obtain x' where c: "xb_commit v tx ?x1 = (Inr (), x')" "bb_available (xb_block x')"
    "\<exists>ix'. xb_index x' = Some ix' \<and> bi_repr ix' (map ip_of (mark (bh_start_index (bb_header (xb_block ?x1))) (bi_deletes ix) cs
        @ map (with_state R_READABLE) ps)) [] \<and> ih_start_index (bi_header ix') = bh_start_index (bb_header (xb_block ?x1))"
    "bh_last_index (bb_header (xb_block x')) = bh_last_index (bb_header (xb_block ?x1)) + length (ps @ [?c])"
    by (rule xb_commit_gen [OF cm(1-5) bi(1) cm(6) bi(3) cm(7)])
  obtain ix' where ix': "xb_index x' = Some ix'" "bi_available ix'"
    "ih_last_index (bi_header ix') = ?s + (length cs + length ps - 1)"
    using c(3) fb by (auto simp: bi_repr_def last_of_def)
  have "0 < length cs + length ps" using assms(4) by (cases cs; cases ps) auto
  then have "fst (xb_read w (?s + length cs + length ps) 1 R_READABLE x') = Inl Precondition" for w
    using c(4) fb ix'(3) by (intro xb_read_past [OF c(2) ix'(1,2)]) simp_all
  then show ?thesis
    using b'(1) c(1,4) fb last by auto
qed

lemma xb_delete_checks_spec:
  assumes ses: "blk_session v tx (xb_block x)" and rb: "blk_repr (xb_block x) cs ps" "blk_tx (xb_block x) cs ps"
    and w: "bb_updateable (xb_block x)" "bh_write_state (bb_header (xb_block x)) = WRITABLE" and n: "n < length cs"
  shows "xb_delete_checks v (bh_start_index (bb_header (xb_block x)) + n) tx x = (Inr (), x\<lparr>xb_block := blk_touch v (xb_block x)\<rparr>)"
proof -
  let ?s = "bh_start_index (bb_header (xb_block x))"
  define b0 where "b0 = blk_touch v (xb_block x)"
  have h0: "blk_held v tx b0" and av: "bb_available (xb_block x)"
    using session_touch_held [OF ses] ses by (simp_all add: b0_def blk_session_def)
  have hd: "bb_header b0 = bb_header (xb_block x)" by (simp add: b0_def)
  obtain ri where ri: "bb_rollback b0 = Some ri" "ri_last_index ri = ?s + length cs + length ps"
    using rb(2) by (auto simp: blk_tx_def b0_def)
  have cur: "blk_get_current_index v b0 = (Inr (ri_last_index ri), b0)"
    using held_in_tx [OF h0] ri(1) by (simp add: blk_get_current_index_def cmd_simps)
  have cond: "c_bind (blk_get_current_index v) (\<lambda>i. c_ret (?s + n \<le> i)) b0 = (Inr True, b0)"
    using cur ri n by (simp add: cmd_simps)
  have wrb: "blk_is_writeable (xb_block x) = (Inr True, xb_block x)"
    using av w by (simp add: blk_is_writeable_def cmd_simps)
  show ?thesis
    using av wrb session_in_tx [OF ses, folded b0_def] held_check_txid [OF h0] cond
    unfolding xb_delete_checks_def on_block_def b0_def [symmetric] by (simp add: cmd_simps hd)
qed

text \<open>A committed record is found through the index, and only the read usage of the index changes.\<close>

lemma xb_find_committed:
  assumes rep: "xb_repr x cs ps" and ix: "xb_index x = Some ix" and av: "bb_available (xb_block x)" and n: "n < length cs"
  shows "on_index (bi_read_index v (bh_start_index (bb_header (xb_block x)) + n) True) x =
      (Inr (Some (n * INDEX_PTR_SIZE, ip_of (cs ! n))), x\<lparr>xb_index := Some (bi_update_read_usage v INDEX_PTR_SIZE ix)\<rparr>)"
    and "on_block (blk_read_record_at (bh_start_index (bb_header (xb_block x)) + n) (rh_offset (fst (cs ! n)))
        (rh_data_size (fst (cs ! n)))) (x\<lparr>xb_index := j\<rparr>)
      = (Inr (length (enc_chunks (take n (cs @ ps))), fst (cs ! n)), x\<lparr>xb_index := j\<rparr>)"
proof -
  have r: "blk_repr (xb_block x) cs ps" "bi_repr ix (map ip_of cs) (map ip_of ps)"
    "ih_start_index (bi_header ix) = bh_start_index (bb_header (xb_block x))"
    using rep ix by (auto simp: xb_repr_def)
  then show "on_index (bi_read_index v (bh_start_index (bb_header (xb_block x)) + n) True) x =
      (Inr (Some (n * INDEX_PTR_SIZE, ip_of (cs ! n))), x\<lparr>xb_index := Some (bi_update_read_usage v INDEX_PTR_SIZE ix)\<rparr>)"
    using read_index_spec [OF r(2), of n v True] n ix by (simp add: on_index_def)
  have ok: "rh_index (fst (cs ! n)) = bh_start_index (bb_header (xb_block x)) + n"
    using chunks_ok_nth [of _ 0 "cs @ ps" n] r(1) n by (fastforce simp: blk_repr_def nth_append)
  show "on_block (blk_read_record_at (bh_start_index (bb_header (xb_block x)) + n) (rh_offset (fst (cs ! n)))
        (rh_data_size (fst (cs ! n)))) (x\<lparr>xb_index := j\<rparr>)
      = (Inr (length (enc_chunks (take n (cs @ ps))), fst (cs ! n)), x\<lparr>xb_index := j\<rparr>)"
    using read_record_at_spec [OF r(1) av n] ok by (simp add: on_block_def)
qed

text \<open>Parts of the state that may change without leaving the transaction: the update time, the
  deletions and the usage of the index.\<close>

lemma xb_running_change:
  assumes run: "xb_running v tx x cs ps" and ix: "xb_index x = Some ix" and same: "bi_same ix ix1"
  shows "xb_running v tx (x\<lparr>xb_block := blk_touch v (xb_block x), xb_index := Some ix1\<rparr>) cs ps"
    and "xb_running v tx (x\<lparr>xb_block := (blk_touch v (xb_block x))\<lparr>bb_header := (bb_header (xb_block x))\<lparr>bh_update_time := t\<rparr>\<rparr>,
      xb_index := Some (ix1\<lparr>bi_deletes := ds\<rparr>)\<rparr>) cs ps"
proof -
  let ?b = "blk_touch v (xb_block x)"
  let ?c = "?b\<lparr>bb_header := (bb_header (xb_block x))\<lparr>bh_update_time := t\<rparr>\<rparr>"
  have h0: "blk_held v tx ?b"
    using run session_touch_held by (simp add: xb_running_def)
  have r: "blk_repr ?b cs ps" "blk_tx ?b cs ps" "blk_releasable v ?b" "bi_repr ix1 (map ip_of cs) (map ip_of ps)"
    "bi_tx ix1 tx (map ip_of cs) (map ip_of ps)" "ih_start_index (bi_header ix1) = bh_start_index (bb_header (xb_block x))"
    using run ix bi_same_repr [OF same] bi_same_tx [OF same] same
    by (auto simp: xb_running_def xb_repr_def xb_tx_def bi_same_def)
  show "xb_running v tx (x\<lparr>xb_block := ?b, xb_index := Some ix1\<rparr>) cs ps"
    using r held_session [OF h0] by (simp add: xb_running_def xb_repr_def xb_tx_def)
  have "blk_session v tx ?c"
    by (rule held_session, rule held_cong [OF h0]) (use held_facts [OF h0] in simp_all)
  moreover have "blk_repr ?c cs ps"
    using r(1) by (rule repr_cong) simp_all
  moreover have "blk_releasable v ?c"
    using releasable_cong [of ?c ?b] r(3) by simp
  moreover have "blk_tx ?c cs ps"
    using r(2) by (simp add: blk_tx_def)
  ultimately show "xb_running v tx (x\<lparr>xb_block := ?c, xb_index := Some (ix1\<lparr>bi_deletes := ds\<rparr>)\<rparr>) cs ps"
    using r(4-6) by (simp add: xb_running_def xb_repr_def xb_tx_def)
qed

text \<open>Deleting a committed record of an indexed block in a
  transaction notes its index in the block index exactly when the record is readable; a deleted
  record is refused, and the records stay as they are until the commit.\<close>

theorem indexed_delete_record:
  assumes "xb_running v tx x cs ps" "xi_room x (length (cs @ ps))" "bb_updateable (xb_block x)"
    "bh_write_state (bb_header (xb_block x)) = WRITABLE" "n < length cs"
  shows "\<exists>x'. xb_delete_record v (bh_start_index (bb_header (xb_block x)) + n) tx x =
      ((if rh_state (fst (cs ! n)) = R_READABLE then Inr True else Inl Precondition), x')
    \<and> xb_running v tx x' cs ps
    \<and> map_option bi_deletes (xb_index x') = map_option (\<lambda>ix. bi_deletes ix @
        (if rh_state (fst (cs ! n)) = R_READABLE then [bh_start_index (bb_header (xb_block x)) + n] else [])) (xb_index x)"
proof -
  let ?s = "bh_start_index (bb_header (xb_block x))" and ?b = "blk_touch v (xb_block x)"
  have r: "blk_session v tx (xb_block x)" "xb_repr x cs ps" "xb_tx x tx cs ps" "tx \<noteq> []" "bb_available (xb_block x)"
    using assms(1) by (simp_all add: xb_running_def blk_session_def)
  obtain ix where ix: "xb_index x = Some ix" "blk_repr (xb_block x) cs ps" "ih_write_state (bi_header ix) = WRITABLE"
    "blk_tx (xb_block x) cs ps"
    using assms(2) r(2,3) by (auto simp: xi_room_def xb_repr_def xb_tx_def)
  define ix1 where "ix1 = bi_update_read_usage v INDEX_PTR_SIZE ix"
  have same: "bi_same ix ix1" by (simp add: ix1_def)
  note run1 = xb_running_change [OF assms(1) ix(1) same]
  let ?x0 = "x\<lparr>xb_block := ?b\<rparr>"
  have rep0: "xb_repr ?x0 cs ps" "xb_index ?x0 = Some ix" "bb_available (xb_block ?x0)"
    using r(2,5) ix(1) by (auto simp: xb_repr_def)
  note found = xb_find_committed(1) [OF rep0 assms(5), of v, simplified, folded ix1_def]
    xb_find_committed(2) [OF rep0 assms(5), simplified]
  note checks = xb_delete_checks_spec [OF r(1) ix(2,4) assms(3,4,5)]
  have st: "rh_state (fst (cs ! n)) = R_READABLE \<or> rh_state (fst (cs ! n)) = R_DELETED"
    using ix(2) assms(5) by (simp add: blk_repr_def)
  show ?thesis
  proof (cases "rh_state (fst (cs ! n)) = R_READABLE")
    case True
    let ?x1 = "x\<lparr>xb_block := ?b\<lparr>bb_header := (bb_header (xb_block x))\<lparr>bh_update_time := be_now v\<rparr>\<rparr>, xb_index := Some ix1\<rparr>"
    let ?x2 = "?x1\<lparr>xb_index := Some (ix1\<lparr>bi_deletes := bi_deletes ix1 @ [?s + n]\<rparr>)\<rparr>"
    have md: "on_block (c_mod (\<lambda>b. b\<lparr>bb_header := (bb_header b)\<lparr>bh_update_time := be_now v\<rparr>\<rparr>)) (?x0\<lparr>xb_index := Some ix1\<rparr>)
        = (Inr (), ?x1)"
      by (simp add: on_block_def c_mod_def)
    have i1: "bi_repr ix1 (map ip_of cs) (map ip_of ps)" "bi_tx ix1 tx (map ip_of cs) (map ip_of ps)"
      "ih_write_state (bi_header ix1) = WRITABLE" "?s + n = ih_start_index (bi_header ix1) + n"
      using run1(1) ix(3) same by (auto simp: xb_running_def xb_repr_def xb_tx_def bi_same_def)
    have di: "on_index (bi_delete_index (?s + n) tx) ?x1 = (Inr True, ?x2)"
      using delete_index_spec [OF i1(1,2) r(4) i1(3) _ i1(4)] assms(5) by (simp add: on_index_def)
    have ev: "xb_delete_record v (?s + n) tx x = (Inr True, ?x2)"
      using checks found md di True by (simp add: xb_delete_record_def c_bind_Inr rec_valid_state_def c_check_def)
    show ?thesis
      using ev True ix(1) same run1(2) by (intro exI [of _ ?x2]) (simp add: bi_same_def)
  next
    case False
    then have "\<not> rec_valid_state (fst (cs ! n))"
      using st by (auto simp: rec_valid_state_def record_states)
    then have ev: "xb_delete_record v (?s + n) tx x = (Inl Precondition, ?x0\<lparr>xb_index := Some ix1\<rparr>)"
      using checks found by (simp add: xb_delete_record_def c_bind_Inr c_bind_Inl c_check_def)
    show ?thesis
      using ev False ix(1) same run1(1) by (intro exI [of _ "?x0\<lparr>xb_index := Some ix1\<rparr>"]) (simp add: bi_same_def)
  qed
qed

lemma xb_read_loop_compressed:
  "xb_read_loop v st index count n x = (Inr ds, x') \<Longrightarrow>
   bh_encrypted (bb_header (xb_block x)) \<or> bh_compressed (bb_header (xb_block x)) \<Longrightarrow> ds = []"
proof (induction n arbitrary: index count x ds x')
  case 0
  then show ?case by (simp add: c_ret_def)
next
  case (Suc n)
  show ?case
  proof (cases "count = 0")
    case True
    then show ?thesis using Suc.prems(1) by (simp add: c_ret_def)
  next
    case False
    obtain f x1 where f: "on_index (bi_read_index v index (xb_all_states st)) x = (Inr f, x1)"
      using Suc.prems(1) False by (auto simp: c_bind_def split: prod.splits sum.splits)
    have b1: "xb_block x1 = xb_block x"
      using f by (auto simp: on_index_def split: option.splits prod.splits)
    show ?thesis
    proof (cases f)
      case None
      then have "xb_read_loop v st (index + 1) count n x1 = (Inr ds, x')"
        using Suc.prems(1) False f by (simp add: c_bind_Inr)
      then show ?thesis using Suc.IH Suc.prems(2) b1 by metis
    next
      case (Some q)
      obtain k p where q: "q = (k, p)" by force
      obtain h x2 where h: "on_block (blk_read_record_at (ip_index p) (ip_offset p) (ip_size p)) x1 = (Inr h, x2)"
        using Suc.prems(1) False f Some q by (auto simp: c_bind_def split: prod.splits sum.splits)
      have b2: "xb_block x2 = xb_block x1"
        using h by (auto simp: on_block_def blk_read_record_at_def cmd_simps split: option.splits prod.splits if_splits)
      have cmp: "xb_process_record v (xb_block x2) o' h' = Inl Null_pointer" for o' h'
        using Suc.prems(2) b1 b2 by (simp add: xb_process_record_def)
      obtain off hd where hh: "h = (off, hd)" by force
      have "xb_read_loop v st (index + 1) count n x2 = (Inr ds, x')"
        using Suc.prems(1) False f Some q h hh cmp by (cases "read_skips st hd") (simp_all add: c_bind_Inr)
      then show ?thesis using Suc.IH Suc.prems(2) b1 b2 by metis
    qed
  qed
qed

text \<open>A read of a compressed or encrypted indexed block never
  returns a record: the second buffer that the processing of a record asks for is null.\<close>

theorem indexed_compressed_unreadable:
  assumes "bh_encrypted (bb_header (xb_block x)) \<or> bh_compressed (bb_header (xb_block x))"
    and "fst (xb_read v index count st x) = Inr ds"
  shows "ds = []"
proof -
  obtain x' where rd: "xb_read v index count st x = (Inr ds, x')"
    using assms(2) by (cases "xb_read v index count st x") auto
  then obtain x1 where x1: "on_block (c_all [c_check State_unavailable bb_available,
        c_check Precondition (\<lambda>_. st \<noteq> R_FREE)]) x = (Inr (), x1)"
    "xb_read_loop v st index count (bh_last_index (bb_header (xb_block x1)) - index) x1 = (Inr ds, x')"
    unfolding xb_read_def by (rule c_bind_cases) auto
  have "xb_block x1 = xb_block x"
    using x1(1) by (auto simp: on_block_def cmd_simps split: if_splits)
  then show ?thesis
    using xb_read_loop_compressed [OF x1(2)] assms(1) by simp
qed

end
