(* ===== verification/IndexedDemo.thy ===== *)
theory IndexedDemo
  imports IndexedProps
begin

section \<open>The theorems on indexed blocks applied to concrete ones\<close>

text \<open>\<open>demo_xb\<close> is \<open>demo_block\<close> with the index that mirrors it, in the same transaction, with
  \<open>iroom\<close> bytes after its entries.\<close>

lemma mirror_entries_ok:
  assumes "chunks_ok s 0 cs"
  shows "entries_ok s (map ip_of cs)"
  unfolding entries_ok_def
proof (intro allI impI)
  fix n assume "n < length (map ip_of cs)"
  then have n: "n < length cs" by simp
  note c = chunks_ok_nth [OF assms n]
  then have "index_ptr_ok (ip_of (cs ! n))"
    by (auto simp: index_ptr_ok_def rec_header_ok_def ip_state_of_def index_states)
  then show "ip_index (map ip_of cs ! n) = s + n \<and> index_ptr_ok (map ip_of cs ! n)"
    using c n by simp
qed

definition demo_xi :: "chunk list \<Rightarrow> chunk list \<Rightarrow> nat \<Rightarrow> nat list \<Rightarrow> block_index" where
  "demo_xi cs ps iroom dels = (fresh_index demo_env)
     \<lparr>bi_available := True, bi_mapped := True, bi_write_ptr := True,
      bi_data := enc_entries (map ip_of (cs @ ps)) @ replicate iroom 0,
      bi_header := (new_index_header demo_env 1 ''uid'' 0 0)
        \<lparr>ih_last_index := last_of 0 (map ip_of cs), ih_total_size := length (cs @ ps) * INDEX_PTR_SIZE + iroom,
         ih_used_size := length cs * INDEX_PTR_SIZE, ih_write_offset := length cs * INDEX_PTR_SIZE\<rparr>,
      bi_rollback := Some \<lparr>ri_in_transaction = True, ri_transaction_id = ''tx'',
        ri_start_offset = length cs * INDEX_PTR_SIZE, ri_write_offset = length (cs @ ps) * INDEX_PTR_SIZE,
        ri_used_bytes = length ps * INDEX_PTR_SIZE, ri_last_index = last_of 0 (map ip_of (cs @ ps)), ri_start_time = 900\<rparr>,
      bi_deletes := dels\<rparr>"

definition demo_xb :: "chunk list \<Rightarrow> chunk list \<Rightarrow> nat \<Rightarrow> nat \<Rightarrow> nat \<Rightarrow> nat list \<Rightarrow> indexed_block" where
  "demo_xb cs ps room bsize iroom dels =
     \<lparr>xb_block = demo_block cs ps room bsize [], xb_index = Some (demo_xi cs ps iroom dels)\<rparr>"

lemma demo_xb_simps [simp]:
  "xb_block (demo_xb cs ps room bsize iroom dels) = demo_block cs ps room bsize []"
  "xb_index (demo_xb cs ps room bsize iroom dels) = Some (demo_xi cs ps iroom dels)"
  "bi_deletes (demo_xi cs ps iroom dels) = dels"
  by (simp_all add: demo_xb_def demo_xi_def)

lemma demo_xi_fields:
  "ih_write_state (bi_header (demo_xi cs ps iroom dels)) = WRITABLE"
  "length (bi_data (demo_xi cs ps iroom dels)) = length (cs @ ps) * INDEX_PTR_SIZE + iroom"
  "ih_start_index (bi_header (demo_xi cs ps iroom dels)) = 0"
  by (simp_all add: demo_xi_def new_index_header_def add_mult_distrib)

lemma demo_running:
  assumes "chunks_ok 0 0 (cs @ ps)" "length (enc_chunks (cs @ ps)) + room < 2 ^ 63"
    "\<forall>c \<in> set cs. rh_state (fst c) = R_READABLE \<or> rh_state (fst c) = R_DELETED"
    "\<forall>c \<in> set ps. rh_state (fst c) = R_DIRTY" "length (cs @ ps) * INDEX_PTR_SIZE + iroom < 2 ^ 63"
  shows "xb_running demo_env ''tx'' (demo_xb cs ps room bsize iroom dels) cs ps"
proof -
  have e: "entries_ok 0 (map ip_of cs @ map ip_of ps)"
    using mirror_entries_ok [OF assms(1)] by simp
  have "bi_repr (demo_xi cs ps iroom dels) (map ip_of cs) (map ip_of ps)"
    using e assms(3-5) by (auto simp: bi_repr_def demo_xi_def new_index_header_def add_mult_distrib)
  moreover have "bi_tx (demo_xi cs ps iroom dels) ''tx'' (map ip_of cs) (map ip_of ps)"
    by (simp add: bi_tx_def demo_xi_def new_index_header_def)
  ultimately show ?thesis
    using demo_repr [OF assms(1-4), of bsize "[]"] by (simp add: xb_running_def xb_repr_def xb_tx_def demo_xi_fields)
qed

lemma demo1_running: "room < 1000 \<Longrightarrow> iroom < 1000 \<Longrightarrow> xb_running demo_env ''tx'' (demo_xb demo1 [] room bsize iroom dels) demo1 []"
  by (rule demo_running) (simp_all add: demo1_def demo_chunk_simps INDEX_PTR_SIZE_def)

lemma demo1_room': "blk_room (xb_block (demo_xb demo1 [] 200 500 iroom dels)) demo1 [[4, 5], [6]]"
  using demo1_room [of "[]"] by simp

lemma demo1_xi_room: "184 \<le> iroom \<Longrightarrow> xi_room (demo_xb demo1 [] 200 500 iroom dels) (length demo1 + length [[4, 5], [6 :: u8]])"
  by (simp add: xi_room_def demo_xi_fields demo1_facts INDEX_PTR_SIZE_def INDEX_HEADER_SIZE_def)

theorem indexed_commit_roundtrip_witness:
  "\<exists>x1 x'. xb_write_all demo_env [[4, 5], [6]] ''tx'' (demo_xb demo1 [] 200 500 300 [0]) = (Inr [2, 3], x1)
    \<and> xb_commit demo_env ''tx'' x1 = (Inr (), x')
    \<and> fst (xb_read demo_env 0 4 R_READABLE x') = Inr [[2, 3], [4, 5], [6]]"
proof -
  let ?x = "demo_xb demo1 [] 200 500 300 [0]"
  have run: "xb_running demo_env ''tx'' ?x demo1 []" by (rule demo1_running) simp_all
  have del: "\<forall>i \<in> set (bi_deletes (demo_xi demo1 [] 300 [0])). bh_start_index (bb_header (xb_block ?x)) \<le> i
      \<and> i < bh_last_index (bb_header (xb_block ?x))"
    by (simp add: demo1_facts)
  have rm: "xi_room ?x (length demo1 + length [[4, 5], [6 :: u8]])" by (rule demo1_xi_room) simp
  obtain x1 x' where r: "xb_write_all demo_env [[4, 5], [6]] ''tx'' ?x =
      (Inr [bh_last_index (bb_header (xb_block ?x)) ..< bh_last_index (bb_header (xb_block ?x)) + length [[4, 5], [6 :: u8]]], x1)"
    "xb_commit demo_env ''tx'' x1 = (Inr (), x')"
    "\<forall>w. fst (xb_read w (bh_start_index (bb_header (xb_block ?x))) (length demo1 + length [[4, 5], [6 :: u8]]) R_READABLE x')
         = Inr ([snd (demo1 ! n). n \<leftarrow> [0..<length demo1], rh_state (fst (demo1 ! n)) = R_READABLE
                   \<and> bh_start_index (bb_header (xb_block ?x)) + n \<notin> set (bi_deletes (demo_xi demo1 [] 300 [0]))] @ [[4, 5], [6]])"
    using indexed_commit_roundtrip [OF run demo_xb_simps(2) del demo1_room' rm] by blast
  have up: "[2..<4] = [2, 3::nat]" "[0..<2] = [0, 1::nat]" by (simp_all add: upt_rec)
  show ?thesis
    using r(1,2) r(3) [rule_format, of demo_env]
    by (intro exI [of _ x1] exI [of _ x']) (simp add: demo1_facts up, simp add: demo1_def demo_chunk_simps)
qed

theorem indexed_rollback_restores_witness:
  "\<exists>r x1 x'. xb_write_all demo_env [[4, 5], [6]] ''tx'' (demo_xb demo1 [] 200 500 300 []) = (Inr r, x1)
    \<and> xb_rollback demo_env ''tx'' x1 = (Inr (), x')
    \<and> fst (xb_read demo_env 0 2 R_READABLE x') = fst (xb_read demo_env 0 2 R_READABLE (demo_xb demo1 [] 200 500 300 []))"
proof -
  let ?x = "demo_xb demo1 [] 200 500 300 []"
  have run: "xb_running demo_env ''tx'' ?x demo1 []" by (rule demo1_running) simp_all
  have rm: "xi_room ?x (length demo1 + length [[4, 5], [6 :: u8]])" by (rule demo1_xi_room) simp
  obtain r x1 x' where b: "xb_write_all demo_env [[4, 5], [6]] ''tx'' ?x = (Inr r, x1)"
    "xb_rollback demo_env ''tx'' x1 = (Inr (), x')"
    "\<forall>w n k st. n \<le> length demo1 \<longrightarrow> st \<noteq> R_FREE \<longrightarrow>
         fst (xb_read w (bh_start_index (bb_header (xb_block ?x)) + n) k st x')
         = fst (xb_read w (bh_start_index (bb_header (xb_block ?x)) + n) k st ?x)"
    using indexed_rollback_restores [OF run demo1_room' rm] by blast
  have "fst (xb_read demo_env 0 2 R_READABLE x') = fst (xb_read demo_env 0 2 R_READABLE ?x)"
    using b(3) [rule_format, of 0 R_READABLE demo_env 2] by (simp add: record_states)
  then show ?thesis using b(1,2) by blast
qed

theorem indexed_write_orphans_witness:
  "\<exists>x1 x'. xb_write demo_env (Some [4]) ''tx'' (demo_xb demo1 [] 200 500 120 []) = (Inl Precondition, x1)
    \<and> xb_commit demo_env ''tx'' x1 = (Inr (), x')
    \<and> fst (xb_read demo_env 2 1 R_READABLE x') = Inl Precondition"
proof -
  let ?x = "demo_xb demo1 [] 200 500 120 []"
  have run: "xb_running demo_env ''tx'' ?x demo1 []" by (rule demo1_running) simp_all
  have room: "blk_room (xb_block ?x) (demo1 @ []) [[4]]"
    by (simp add: blk_room_def demo1_facts REC_HEADER_SIZE_def)
  have full: "xi_full ?x (length (demo1 @ []))"
    by (simp add: xi_full_def demo_xi_fields demo1_facts INDEX_PTR_SIZE_def INDEX_HEADER_SIZE_def)
  have ne: "demo1 @ [] \<noteq> []" by (simp add: demo1_def)
  show ?thesis
    using indexed_write_orphans [OF run room full ne demo_xb_simps(2)] demo1_facts(1) by fastforce
qed

theorem indexed_delete_record_witness:
  "\<exists>x'. xb_delete_record demo_env 1 ''tx'' (demo_xb demo1 [] 200 500 300 [0]) = (Inr True, x')
    \<and> map_option bi_deletes (xb_index x') = Some [0, 1]"
proof -
  let ?x = "demo_xb demo1 [] 200 500 300 [0]"
  have run: "xb_running demo_env ''tx'' ?x demo1 []" by (rule demo1_running) simp_all
  have rm: "xi_room ?x (length (demo1 @ []))"
    by (simp add: xi_room_def demo_xi_fields demo1_facts INDEX_PTR_SIZE_def INDEX_HEADER_SIZE_def)
  have st: "1 < length demo1" "rh_state (fst (demo1 ! 1)) = R_READABLE"
    by (simp_all add: demo1_def demo_chunk_def)
  show ?thesis
    using indexed_delete_record [OF run rm _ _ st(1)] st(2) by auto
qed

definition demo_zip :: indexed_block where
  "demo_zip = (let x = demo_xb demo1 [] 200 500 300 [] in
     x\<lparr>xb_block := (xb_block x)\<lparr>bb_header := (bb_header (xb_block x))\<lparr>bh_compressed := True\<rparr>\<rparr>\<rparr>)"

theorem indexed_compressed_unreadable_witness:
  "\<exists>ds. fst (xb_read demo_env 2 4 R_READABLE demo_zip) = Inr ds \<and> ds = []
    \<and> fst (xb_read demo_env 0 4 R_READABLE demo_zip) \<noteq> Inr [[1], [2, 3]]"
proof -
  have "xb_read demo_env 2 4 R_READABLE demo_zip = (Inr [], demo_zip)"
    by (simp add: xb_read_def demo_zip_def Let_def on_block_def cmd_simps record_states demo1_facts)
  moreover have "bh_encrypted (bb_header (xb_block demo_zip)) \<or> bh_compressed (bb_header (xb_block demo_zip))"
    by (simp add: demo_zip_def Let_def)
  note never = indexed_compressed_unreadable [OF this, of demo_env]
  ultimately show ?thesis
    using never by (intro exI [of _ "[]"]) auto
qed

end
