(* ===== verification/InstState.thy ===== *)
theory InstState
  imports Prelude
begin

section \<open>The state of a component instance (common/includes/__state__.h)\<close>

text \<open>
  \<open>__state__\<close>: the enumeration, and the pointer to the exception that put the instance into its
  error state. The pointer is the class of the exception, and null is \<open>None\<close>. Most callers set
  it to the address of a local variable, so that it dangles when they return; only its class is
  modelled.
\<close>

datatype state_enum = Unknown | Initialized | Available | Disposed | Exception

record inst_state =
  st_state :: state_enum
  st_error :: "exc option"

definition state_new :: inst_state where
  "state_new = \<lparr>st_state = Unknown, st_error = None\<rparr>"

fun get_state_string :: "state_enum \<Rightarrow> string" where
  "get_state_string Unknown = ''Unknown''"
| "get_state_string Initialized = ''Initialized''"
| "get_state_string Available = ''Available''"
| "get_state_string Disposed = ''Disposed''"
| "get_state_string Exception = ''Exception''"

fun get_state_int :: "state_enum \<Rightarrow> int" where
  "get_state_int Unknown = 0"
| "get_state_int Initialized = 1"
| "get_state_int Available = 2"
| "get_state_int Disposed = 3"
| "get_state_int Exception = 4"

definition set_state :: "state_enum \<Rightarrow> inst_state \<Rightarrow> inst_state" where
  "set_state s st = st\<lparr>st_state := s\<rparr>"

definition set_error :: "exc \<Rightarrow> inst_state \<Rightarrow> inst_state" where
  "set_error e st = st\<lparr>st_error := Some e, st_state := Exception\<rparr>"

definition get_error :: "inst_state \<Rightarrow> exc option" where
  "get_error st = (if st_state st = Exception then st_error st else None)"

definition has_error :: "inst_state \<Rightarrow> bool" where
  "has_error st \<longleftrightarrow> st_state st = Exception"

definition is_available :: "inst_state \<Rightarrow> bool" where
  "is_available st \<longleftrightarrow> st_state st = Available"

definition is_disposed :: "inst_state \<Rightarrow> bool" where
  "is_disposed st \<longleftrightarrow> st_state st = Disposed"

text \<open>\<open>CHECK_AND_DISPOSE\<close>.\<close>

definition check_and_dispose :: "inst_state \<Rightarrow> inst_state" where
  "check_and_dispose st = (if st_state st \<noteq> Exception then set_state Disposed st else st)"

subsection \<open>Facts\<close>

named_theorems state_simps

lemma state_transitions [state_simps]:
  "is_available (set_state s st) \<longleftrightarrow> s = Available"
  "is_disposed (set_state s st) \<longleftrightarrow> s = Disposed"
  "has_error (set_state s st) \<longleftrightarrow> s = Exception"
  "\<not> is_available (set_error e st)" "has_error (set_error e st)" "\<not> is_disposed (set_error e st)"
  "get_error (set_error e st) = Some e"
  by (simp_all add: is_available_def is_disposed_def has_error_def set_state_def set_error_def get_error_def)

lemma error_not_available: "has_error st \<Longrightarrow> \<not> is_available st"
  by (simp add: has_error_def is_available_def)

lemma get_state_int_inj: "inj get_state_int"
proof (rule injI)
  fix x y
  show "get_state_int x = get_state_int y \<Longrightarrow> x = y"
    by (cases x; cases y) simp_all
qed

text \<open>An instance in error keeps its error through disposal, until its state is set again.\<close>

lemma dispose_keeps_error: "get_error (check_and_dispose st) = get_error st"
  by (simp add: check_and_dispose_def get_error_def set_state_def)

end
