(* ===== verification/RwTable.thy ===== *)
theory RwTable
  imports LockTables InstState
begin

section \<open>The read/write lock table\<close>

text \<open>
  The records \<open>__lock_readers_v0\<close> and \<open>__rw_lock_struct_v0\<close> of common/includes/lock_structs_v0.h,
  \<open>rw_lock_table\<close> of common/includes/read_write_lock.h and its operations in
  common/src/read_write_lock.cpp. A read/write record starts with a write-lock record, so the
  scans of \<open>LockTables\<close> apply to those; \<open>got\<close> says whether the table's exclusive lock was
  obtained.
\<close>

definition MAX_READER_LOCKS :: nat where "MAX_READER_LOCKS = 256"
definition MAX_RW_SHARED_LOCKS :: nat where "MAX_RW_SHARED_LOCKS = 4096"

record lock_reader =
  lr_used :: bool
  lr_process_id :: pid
  lr_thread_id :: tid
  lr_lock_timestamp :: time

record rw_lock_struct =
  rs_w :: w_lock_struct
  rs_reader_count :: nat
  rs_readers :: "lock_reader list"

definition zero_reader :: lock_reader where
  "zero_reader = \<lparr>lr_used = False, lr_process_id = 0, lr_thread_id = [], lr_lock_timestamp = 0\<rparr>"

definition zero_rw_lock :: rw_lock_struct where
  "zero_rw_lock = \<lparr>rs_w = zero_w_lock, rs_reader_count = 0,
     rs_readers = replicate MAX_READER_LOCKS zero_reader\<rparr>"

record rw_lock_table =
  rt_version :: "nat \<times> nat"
  rt_max_count :: nat
  rt_used_count :: nat
  rt_locks :: "rw_lock_struct list"

definition rt_create :: "bool \<Rightarrow> bool \<Rightarrow> rw_lock_table \<Rightarrow> (unit, rw_lock_table) res" where
  "rt_create is_manager reset seg =
     (if \<not> is_manager \<and> \<not> version_compatible (rt_version seg) (0, 1) then (Inl Lock_error, seg)
      else
        (let s = (if is_manager
                  then seg\<lparr>rt_max_count := MAX_RW_SHARED_LOCKS, rt_used_count := 0, rt_version := (0, 1)\<rparr>
                  else seg) in
         (Inr (), if reset then s\<lparr>rt_locks := replicate MAX_RW_SHARED_LOCKS zero_rw_lock\<rparr> else s)))"

definition rt_get_at :: "rw_lock_table \<Rightarrow> nat \<Rightarrow> exc + nat option" where
  "rt_get_at t index =
     (if index < rt_max_count t
      then (if index < length (rt_locks t)
            then Inr (if ws_used (rs_w (rt_locks t ! index)) then Some index else None)
            else Inl Mem_fault)
      else Inl Precondition)"

definition fresh_rw_lock :: "string \<Rightarrow> rw_lock_struct" where
  "fresh_rw_lock name = zero_rw_lock\<lparr>rs_w := zero_w_lock\<lparr>ws_used := True, ws_name := name\<rparr>\<rparr>"

definition rt_add_lock :: "bool \<Rightarrow> string \<Rightarrow> (nat option, rw_lock_table) cmd" where
  "rt_add_lock got name t =
     (if name = [] then (Inl Precondition, t)
      else if \<not> length name < SIZE_LOCK_NAME then (Inl Precondition, t)
      else if \<not> got then (Inl Lock_timeout, t)
      else if rt_used_count t \<ge> rt_max_count t then (Inl Lock_error, t)
      else
        (let (found, free) = w_scan_add name (map rs_w (take (rt_max_count t) (rt_locks t))) 0 None in
         case free of
           None \<Rightarrow> (Inr found, t)
         | Some i \<Rightarrow>
             (Inr (Some i),
              t\<lparr>rt_locks := (rt_locks t)[i := fresh_rw_lock name], rt_used_count := rt_used_count t + 1\<rparr>)))"

definition rt_remove_lock :: "bool \<Rightarrow> string \<Rightarrow> (bool, rw_lock_table) cmd" where
  "rt_remove_lock got name t =
     (if name = [] then (Inl Precondition, t)
      else if \<not> length name < SIZE_LOCK_NAME then (Inl Precondition, t)
      else if \<not> got then (Inl Lock_timeout, t)
      else
        (case w_scan name (map rs_w (take (rt_max_count t) (rt_locks t))) 0 of
           None \<Rightarrow> (Inr False, t)
         | Some i \<Rightarrow>
             (let r = rt_locks t ! i; n = ws_ref_count (rs_w r);
                  r' = (if n > 0 then r\<lparr>rs_w := (rs_w r)\<lparr>ws_ref_count := n - 1\<rparr>\<rparr> else r) in
              if ws_ref_count (rs_w r') \<le> 0
              then (Inr True, t\<lparr>rt_locks := (rt_locks t)[i := zero_rw_lock],
                                rt_used_count := dec32 (rt_used_count t)\<rparr>)
              else (Inr False, t\<lparr>rt_locks := (rt_locks t)[i := r']\<rparr>))))"

subsection \<open>Records and tables in order\<close>

text \<open>
  \<open>rs_ok\<close>: the record has its array of reader slots, its counter counts the used slots, and a
  write-locked record has no reader. \<open>rt_ok\<close>: every record of the table is in order and the
  header counts the used ones.
\<close>

definition rs_used_readers :: "rw_lock_struct \<Rightarrow> nat" where
  "rs_used_readers r = length (filter lr_used (rs_readers r))"

definition rs_ok :: "rw_lock_struct \<Rightarrow> bool" where
  "rs_ok r \<longleftrightarrow> length (rs_readers r) = MAX_READER_LOCKS \<and> rs_reader_count r = rs_used_readers r
     \<and> (ws_write_locked (rs_w r) \<longrightarrow> rs_reader_count r = 0)"

definition rt_ok :: "rw_lock_table \<Rightarrow> bool" where
  "rt_ok t \<longleftrightarrow> length (rt_locks t) = rt_max_count t \<and> rt_max_count t < 2 ^ 32
     \<and> rt_used_count t = length (filter (\<lambda>r. ws_used (rs_w r)) (rt_locks t))
     \<and> (\<forall>r \<in> set (rt_locks t). rs_ok r)"

lemma zero_rw_lock_ok [simp]: "rs_ok zero_rw_lock"
  by (simp add: rs_ok_def rs_used_readers_def zero_rw_lock_def zero_w_lock_def zero_reader_def)

lemma fresh_rw_lock_ok [simp]: "rs_ok (fresh_rw_lock name)"
  by (simp add: rs_ok_def rs_used_readers_def fresh_rw_lock_def zero_rw_lock_def zero_w_lock_def zero_reader_def)

lemma fresh_rw_lock_used [simp]:
  "ws_used (rs_w (fresh_rw_lock name))" "\<not> ws_used (rs_w zero_rw_lock)"
  by (simp_all add: fresh_rw_lock_def zero_rw_lock_def zero_w_lock_def)

text \<open>Replacing one record by one that is in order.\<close>

lemma rt_ok_update:
  assumes "rt_ok t" "i < length (rt_locks t)" "rs_ok r"
    and "ws_used (rs_w r) = ws_used (rs_w (rt_locks t ! i))"
  shows "rt_ok (t\<lparr>rt_locks := (rt_locks t)[i := r]\<rparr>)"
  using assms filter_update_length [OF assms(2), of "\<lambda>r. ws_used (rs_w r)" r]
  by (auto simp: rt_ok_def dest!: set_update_subset_insert [THEN subsetD] split: if_splits)

lemma rt_add_lock_ok:
  assumes ok: "rt_ok t" and run: "rt_add_lock got name t = (x, t')"
  shows "rt_ok t'"
proof -
  have len: "take (rt_max_count t) (rt_locks t) = rt_locks t"
    using ok by (simp add: rt_ok_def)
  obtain fd fr where sc: "w_scan_add name (map rs_w (rt_locks t)) 0 None = (fd, fr)"
    by (cases "w_scan_add name (map rs_w (rt_locks t)) 0 None")
  show ?thesis
  proof (cases "\<exists>i. t' = t\<lparr>rt_locks := (rt_locks t)[i := fresh_rw_lock name], rt_used_count := rt_used_count t + 1\<rparr> \<and> fr = Some i")
    case False
    then have "t' = t"
      using run sc by (auto simp: rt_add_lock_def len split: if_splits option.splits)
    then show ?thesis using ok by simp
  next
    case True
    then obtain i where t': "t' = t\<lparr>rt_locks := (rt_locks t)[i := fresh_rw_lock name], rt_used_count := rt_used_count t + 1\<rparr>"
      and fr: "fr = Some i" by blast
    have i: "i < length (rt_locks t)" "\<not> ws_used (rs_w (rt_locks t ! i))"
      using w_scan_add_free_Some [of name "map rs_w (rt_locks t)" 0 None fd i] sc fr by auto
    show ?thesis
      using ok i filter_update_length [OF i(1), of "\<lambda>r. ws_used (rs_w r)" "fresh_rw_lock name"]
      by (auto simp: rt_ok_def t' dest!: set_update_subset_insert [THEN subsetD])
  qed
qed

lemma rt_remove_lock_ok:
  assumes ok: "rt_ok t" and run: "rt_remove_lock got name t = (x, t')"
  shows "rt_ok t'"
proof (cases "w_scan name (map rs_w (rt_locks t)) 0")
  case None
  then have "t' = t"
    using run ok by (auto simp: rt_remove_lock_def rt_ok_def split: if_splits)
  then show ?thesis using ok by simp
next
  case (Some i)
  have i: "i < length (rt_locks t)" "ws_used (rs_w (rt_locks t ! i))"
    using w_scan_Some [OF Some] by auto
  have len: "take (rt_max_count t) (rt_locks t) = rt_locks t"
    using ok by (simp add: rt_ok_def)
  let ?n = "ws_ref_count (rs_w (rt_locks t ! i))"
  let ?r = "(rt_locks t ! i)\<lparr>rs_w := (rs_w (rt_locks t ! i))\<lparr>ws_ref_count := ?n - 1\<rparr>\<rparr>"
  let ?z = "t\<lparr>rt_locks := (rt_locks t)[i := zero_rw_lock], rt_used_count := dec32 (rt_used_count t)\<rparr>"
  have "t' = t \<or> t' = ?z \<or> t' = t\<lparr>rt_locks := (rt_locks t)[i := ?r]\<rparr>"
    using run Some by (auto simp: rt_remove_lock_def len Let_def split: if_splits)
  moreover have "rt_ok ?z"
  proof -
    have f: "length (filter (\<lambda>r. ws_used (rs_w r)) ((rt_locks t)[i := zero_rw_lock])) + 1
        = length (filter (\<lambda>r. ws_used (rs_w r)) (rt_locks t))"
      using i filter_update_length [OF i(1), of "\<lambda>r. ws_used (rs_w r)" zero_rw_lock] by simp
    moreover have "rt_used_count t < 2 ^ 32"
      using ok length_filter_le [of "\<lambda>r. ws_used (rs_w r)" "rt_locks t"] by (simp add: rt_ok_def)
    ultimately have "dec32 (rt_used_count t) = rt_used_count t - 1"
      using ok by (intro dec32_pos) (auto simp: rt_ok_def)
    then show ?thesis
      using ok f by (auto simp: rt_ok_def dest!: set_update_subset_insert [THEN subsetD])
  qed
  moreover have "rs_ok ?r"
    using ok i by (auto simp: rt_ok_def rs_ok_def rs_used_readers_def)
  then have "rt_ok (t\<lparr>rt_locks := (rt_locks t)[i := ?r]\<rparr>)"
    by (intro rt_ok_update [OF ok i(1)]) simp_all
  ultimately show ?thesis
    using ok by blast
qed

lemma rt_create_ok:
  assumes "rt_create True True seg = (x, t)"
  shows "rt_ok t"
  using assms by (auto simp: rt_create_def rt_ok_def MAX_RW_SHARED_LOCKS_def Let_def)

end
