(* ===== verification/ReadWriteLock.thy ===== *)
theory ReadWriteLock
  imports RwTable WriteLock "HOL-Library.AList"
begin

section \<open>The read/write lock (common/includes/read_write_lock.h)\<close>

text \<open>
  A \<open>read_write_lock\<close> object of one process and the table its record is in. Every operation is a
  command on the pair of the two, and takes the process id, thread id and clock it reads
  (\<open>call_env\<close>) and whether the exclusive lock was obtained (\<open>got\<close>). A null \<open>lock_struct\<close> that is
  dereferenced is \<open>Mem_fault\<close>. \<open>reader_threads\<close> is the code's map from thread ids to indexes of
  reader slots.
\<close>

record read_write_lock =
  rk_state :: inst_state
  rk_lock_struct :: "nat option"
  rk_txn_id :: string
  rk_reader_threads :: "(tid \<times> nat) list"
  rk_name :: string
  rk_reference_count :: nat

definition read_write_lock_new :: read_write_lock where
  "read_write_lock_new = \<lparr>rk_state = state_new, rk_lock_struct = None, rk_txn_id = [],
     rk_reader_threads = [], rk_name = [], rk_reference_count = 0\<rparr>"

text \<open>\<open>DEFAULT_RW_LOCK_EXPIRY\<close> is 10 minutes in milliseconds.\<close>

definition RW_LOCK_EXPIRY :: time where "RW_LOCK_EXPIRY = 10 * 60 * 1000"

type_synonym 'a rk_cmd = "('a, read_write_lock \<times> rw_lock_table) cmd"

definition rt_record :: "rw_lock_table \<Rightarrow> nat option \<Rightarrow> rw_lock_struct option" where
  "rt_record t p = (case p of None \<Rightarrow> None
     | Some i \<Rightarrow> if i < length (rt_locks t) then Some (rt_locks t ! i) else None)"

definition rt_store :: "rw_lock_table \<Rightarrow> nat option \<Rightarrow> rw_lock_struct \<Rightarrow> rw_lock_table" where
  "rt_store t p r = (case p of None \<Rightarrow> t | Some i \<Rightarrow> t\<lparr>rt_locks := (rt_locks t)[i := r]\<rparr>)"

text \<open>The record behind \<open>lock_struct\<close>, an update of it, an update of the object.\<close>

definition rk_deref :: "rw_lock_struct rk_cmd" where
  "rk_deref s = (case rt_record (snd s) (rk_lock_struct (fst s)) of
     None \<Rightarrow> (Inl Mem_fault, s) | Some r \<Rightarrow> (Inr r, s))"

definition rk_upd :: "(rw_lock_struct \<Rightarrow> rw_lock_struct) \<Rightarrow> unit rk_cmd" where
  "rk_upd f = c_bind rk_deref (\<lambda>r. c_mod (\<lambda>(l, t). (l, rt_store t (rk_lock_struct l) (f r))))"

definition rk_obj :: "(read_write_lock \<Rightarrow> read_write_lock) \<Rightarrow> unit rk_cmd" where
  "rk_obj f = c_mod (\<lambda>(l, t). (f l, t))"

definition rk_set_error :: "exc \<Rightarrow> unit rk_cmd" where
  "rk_set_error e = rk_obj (\<lambda>l. l\<lparr>rk_state := set_error e (rk_state l)\<rparr>)"

definition rk_check_available :: "unit rk_cmd" where
  "rk_check_available = c_check State_unavailable (\<lambda>(l, t). is_available (rk_state l))"

fun free_reader_from :: "nat \<Rightarrow> lock_reader list \<Rightarrow> nat option" where
  "free_reader_from ii [] = None"
| "free_reader_from ii (r # rs) = (if \<not> lr_used r then Some ii else free_reader_from (ii + 1) rs)"

definition rs_set_reader :: "nat \<Rightarrow> (lock_reader \<Rightarrow> lock_reader) \<Rightarrow> rw_lock_struct \<Rightarrow> rw_lock_struct" where
  "rs_set_reader i f r = r\<lparr>rs_readers := (rs_readers r)[i := f (rs_readers r ! i)]\<rparr>"

definition rk_find_free_reader :: "nat option rk_cmd" where
  "rk_find_free_reader =
     c_bind rk_deref (\<lambda>r.
     case free_reader_from 0 (rs_readers r) of
       None \<Rightarrow> c_ret None
     | Some i \<Rightarrow> c_bind (rk_upd (rs_set_reader i (lr_used_update (\<lambda>_. True)))) (\<lambda>_. c_ret (Some i)))"

definition rs_touch :: "time \<Rightarrow> rw_lock_struct \<Rightarrow> rw_lock_struct" where
  "rs_touch now r = r\<lparr>rs_w := (rs_w r)\<lparr>ws_last_used := now\<rparr>\<rparr>"

definition rk_check_lock_valid :: "call_env \<Rightarrow> unit rk_cmd" where
  "rk_check_lock_valid e =
     c_bind rk_deref (\<lambda>r.
     c_bind (\<lambda>s. if \<not> ws_used (rs_w r)
                    \<or> \<not> strncmp_eq (ws_name (rs_w r)) (rk_name (fst s)) (length (rk_name (fst s)))
                 then rk_set_error Lock_error s else c_ret () s) (\<lambda>_.
     c_when (ce_now e - ws_last_used (rs_w r) \<ge> RW_LOCK_EXPIRY) (rk_set_error Lock_error)))"

text \<open>What the two questions below do first.\<close>

definition rk_check_and_touch :: "call_env \<Rightarrow> unit rk_cmd" where
  "rk_check_and_touch e =
     c_bind (rk_check_lock_valid e) (\<lambda>_.
     c_bind rk_check_available (\<lambda>_.
     rk_upd (rs_touch (ce_now e))))"

definition rs_owned :: "call_env \<Rightarrow> string \<Rightarrow> w_lock_struct \<Rightarrow> bool" where
  "rs_owned e txn w \<longleftrightarrow> ws_write_locked w \<and> ow_process_id (ws_owner w) = ce_pid e
     \<and> strncmp_eq (ow_txn_id (ws_owner w)) txn (length txn)
     \<and> strncmp_eq (ow_thread_id (ws_owner w)) (ce_tid e) (length (ce_tid e))"

definition rk_has_write_lock :: "call_env \<Rightarrow> bool rk_cmd" where
  "rk_has_write_lock e =
     c_bind (rk_check_and_touch e) (\<lambda>_.
     c_bind rk_deref (\<lambda>r. c_get (\<lambda>(l, t). rs_owned e (rk_txn_id l) (rs_w r))))"

text \<open>
  The slot of a thread, when the map has one and the slot is in use. The index is not checked
  against the array by the code; it is always one that \<open>find_free_reader\<close> gave.
\<close>

definition rk_slot :: "tid \<Rightarrow> read_write_lock \<Rightarrow> rw_lock_struct \<Rightarrow> nat option" where
  "rk_slot tid l r = (case map_of (rk_reader_threads l) tid of
     None \<Rightarrow> None
   | Some i \<Rightarrow> if lr_used (rs_readers r ! i) then Some i else None)"

definition rk_has_thread_lock :: "call_env \<Rightarrow> tid \<Rightarrow> bool rk_cmd" where
  "rk_has_thread_lock e tid =
     c_bind (rk_check_and_touch e) (\<lambda>_.
     c_bind rk_deref (\<lambda>r. c_get (\<lambda>(l, t). rk_slot tid l r \<noteq> None)))"

definition rk_get_reader_index :: "tid \<Rightarrow> nat option rk_cmd" where
  "rk_get_reader_index tid =
     c_bind rk_check_available (\<lambda>_.
     c_bind rk_deref (\<lambda>r. c_get (\<lambda>(l, t). rk_slot tid l r)))"

definition rk_get_txn_id :: "string rk_cmd" where
  "rk_get_txn_id = c_bind rk_check_available (\<lambda>_. c_get (\<lambda>(l, t). rk_txn_id l))"

definition rs_drop_reader :: "nat \<Rightarrow> rw_lock_struct \<Rightarrow> rw_lock_struct" where
  "rs_drop_reader i r =
     rs_set_reader i (lr_used_update (\<lambda>_. False)) (r\<lparr>rs_reader_count := sub64 (rs_reader_count r) 1\<rparr>)"

definition rk_release_read_thread :: "bool \<Rightarrow> call_env \<Rightarrow> tid \<Rightarrow> bool rk_cmd" where
  "rk_release_read_thread got e tid =
     c_bind (c_check Lock_timeout (\<lambda>_. got)) (\<lambda>_.
     c_bind (rk_has_thread_lock e tid) (\<lambda>has.
     c_bind (if \<not> has then c_ret False
             else c_bind rk_deref (\<lambda>r.
               if rs_reader_count r > 0
               then c_bind (rk_get_reader_index tid) (\<lambda>p.
                 case p of
                   None \<Rightarrow> c_ret False
                 | Some i \<Rightarrow>
                     c_bind (rk_upd (rs_drop_reader i)) (\<lambda>_.
                     c_bind (rk_obj (\<lambda>l. l\<lparr>rk_reader_threads := AList.delete tid (rk_reader_threads l)\<rparr>)) (\<lambda>_.
                     c_ret True)))
               else c_throw Lock_error)) (\<lambda>locked.
     c_bind (rk_upd (rs_touch (ce_now e))) (\<lambda>_. c_ret locked))))"

definition rk_release_read_lock :: "bool \<Rightarrow> call_env \<Rightarrow> bool rk_cmd" where
  "rk_release_read_lock got e =
     c_bind rk_check_available (\<lambda>_. rk_release_read_thread got e (ce_tid e))"

definition rs_release_write :: "rw_lock_struct \<Rightarrow> rw_lock_struct" where
  "rs_release_write r = r\<lparr>rs_w := wk_release_struct (rs_w r)\<rparr>"

definition rk_release_write_lock :: "bool \<Rightarrow> call_env \<Rightarrow> bool rk_cmd" where
  "rk_release_write_lock got e =
     c_bind rk_check_available (\<lambda>_.
     c_bind (c_check Precondition (\<lambda>(l, t). rk_txn_id l \<noteq> [])) (\<lambda>_.
     c_bind (c_check Lock_timeout (\<lambda>_. got)) (\<lambda>_.
     c_bind rk_deref (\<lambda>r.
     if ws_write_locked (rs_w r)
     then c_bind (rk_has_write_lock e) (\<lambda>has.
       if has
       then c_bind (rk_upd rs_release_write) (\<lambda>_.
            c_bind (rk_obj (\<lambda>l. l\<lparr>rk_txn_id := []\<rparr>)) (\<lambda>_. c_ret True))
       else c_ret False)
     else c_ret False))))"

definition rk_create :: "bool \<Rightarrow> time \<Rightarrow> string \<Rightarrow> unit rk_cmd" where
  "rk_create got now name s =
     (let body =
        c_bind (c_check Base_error (\<lambda>_. name \<noteq> [])) (\<lambda>_.
        c_bind (rk_obj (\<lambda>l. l\<lparr>rk_name := name\<rparr>)) (\<lambda>_.
        c_bind (\<lambda>(l, t). case rt_add_lock got name t of
                   (Inl x, t') \<Rightarrow> (Inl x, (l, t'))
                 | (Inr p, t') \<Rightarrow> (Inr (), (l\<lparr>rk_lock_struct := p\<rparr>, t'))) (\<lambda>_.
        c_bind (c_check Postcondition (\<lambda>(l, t). rk_lock_struct l \<noteq> None)) (\<lambda>_.
        c_bind (rk_upd (rs_touch now)) (\<lambda>_.
        rk_obj (\<lambda>l. l\<lparr>rk_state := set_state Available (rk_state l)\<rparr>)))))) in
      case body s of
        (Inl _, s') \<Rightarrow> c_bind (rk_set_error Lock_error) (\<lambda>_. c_throw Lock_error) s'
      | (Inr _, s') \<Rightarrow> (Inr (), s'))"

text \<open>
  One turn of the loops of \<open>write_lock\<close> and \<open>read_lock\<close> that obtained the exclusive lock. The new
  transaction id is a parameter.
\<close>

definition rs_take_write :: "call_env \<Rightarrow> string \<Rightarrow> string \<Rightarrow> rw_lock_struct \<Rightarrow> rw_lock_struct" where
  "rs_take_write e owner txn r = (let w = rs_w r in r\<lparr>rs_w := w\<lparr>ws_write_locked := True,
     ws_owner := (ws_owner w)\<lparr>ow_lock_timestamp := ce_now e, ow_owner := owner, ow_process_id := ce_pid e,
       ow_txn_id := txn, ow_thread_id := ce_tid e\<rparr>\<rparr>\<rparr>)"

definition rk_write_attempt :: "string \<Rightarrow> string \<Rightarrow> call_env \<Rightarrow> bool rk_cmd" where
  "rk_write_attempt owner uuid e =
     c_bind (rk_has_write_lock e) (\<lambda>has.
     if has then c_ret True
     else c_bind rk_deref (\<lambda>r.
       if \<not> ws_write_locked (rs_w r) \<and> rs_reader_count r = 0
       then c_bind (rk_upd (rs_take_write e owner uuid)) (\<lambda>_.
            c_bind (rk_obj (\<lambda>l. l\<lparr>rk_txn_id := uuid\<rparr>)) (\<lambda>_. c_ret True))
       else c_ret False))"

definition new_reader :: "call_env \<Rightarrow> lock_reader" where
  "new_reader e = \<lparr>lr_used = True, lr_process_id = ce_pid e, lr_thread_id = ce_tid e,
     lr_lock_timestamp = ce_now e\<rparr>"

definition rk_read_attempt :: "call_env \<Rightarrow> bool rk_cmd" where
  "rk_read_attempt e =
     c_bind rk_deref (\<lambda>r0.
     if ws_write_locked (rs_w r0) then c_ret False
     else c_bind (rk_has_thread_lock e (ce_tid e)) (\<lambda>has.
       if has then c_ret True
       else c_bind rk_deref (\<lambda>r.
         if rs_reader_count r < MAX_READER_LOCKS
         then c_bind rk_find_free_reader (\<lambda>p.
           case p of
             None \<Rightarrow> c_throw Base_error
           | Some i \<Rightarrow>
               c_bind (rk_upd (rs_set_reader i (\<lambda>_. new_reader e))) (\<lambda>_.
               c_bind (rk_obj (\<lambda>l. l\<lparr>rk_reader_threads :=
                         AList.update (ce_tid e) i (rk_reader_threads l)\<rparr>)) (\<lambda>_.
               c_bind (rk_upd (\<lambda>r. r\<lparr>rs_reader_count := add64 (rs_reader_count r) 1\<rparr>)) (\<lambda>_.
               c_ret True))))
         else c_ret False)))"

text \<open>
  The retry loop. A round gives whether the exclusive lock was obtained, the clock, and what
  other processes did to the table since the round before; \<open>None\<close> means that the rounds ran out.
\<close>

record rw_round =
  rr_got :: bool
  rr_now :: time
  rr_env :: "rw_lock_table \<Rightarrow> rw_lock_table"

fun rk_rounds :: "(call_env \<Rightarrow> bool rk_cmd) \<Rightarrow> call_env \<Rightarrow> u64 \<Rightarrow> read_write_lock \<times> rw_lock_table
    \<Rightarrow> rw_round list \<Rightarrow> (bool, read_write_lock \<times> rw_lock_table) res option" where
  "rk_rounds att e timeout s [] = None"
| "rk_rounds att e timeout s (r # rs) =
     (let s0 = (fst s, rr_env r (snd s));
          step = (if rr_got r then att (e\<lparr>ce_now := rr_now r\<rparr>) s0 else (Inr False, s0)) in
      case step of
        (Inl x, s') \<Rightarrow> Some (Inl x, s')
      | (Inr True, s') \<Rightarrow> Some (Inr True, s')
      | (Inr False, s') \<Rightarrow>
          (if rr_now r - ce_now e > timeout then Some (Inr False, s')
           else rk_rounds att e timeout s' rs))"

definition rk_write_lock :: "call_env \<Rightarrow> string \<Rightarrow> u64 \<Rightarrow> string \<Rightarrow> read_write_lock \<times> rw_lock_table
    \<Rightarrow> rw_round list \<Rightarrow> (string, read_write_lock \<times> rw_lock_table) res option" where
  "rk_write_lock e owner timeout uuid s rounds =
     (if \<not> is_available (rk_state (fst s)) then Some (Inl State_unavailable, s)
      else if owner = [] then Some (Inl Precondition, s)
      else if rk_txn_id (fst s) \<noteq> [] then Some (Inl Precondition, s)
      else map_option (\<lambda>r. case r of (Inl x, s') \<Rightarrow> (Inl x, s') | (Inr _, s') \<Rightarrow> (Inr (rk_txn_id (fst s')), s'))
             (rk_rounds (rk_write_attempt owner uuid) e timeout s rounds))"

definition rk_read_lock :: "call_env \<Rightarrow> u64 \<Rightarrow> read_write_lock \<times> rw_lock_table
    \<Rightarrow> rw_round list \<Rightarrow> (bool, read_write_lock \<times> rw_lock_table) res option" where
  "rk_read_lock e timeout s rounds =
     (if \<not> is_available (rk_state (fst s)) then Some (Inl State_unavailable, s)
      else rk_rounds rk_read_attempt e timeout s rounds)"

text \<open>
  \<open>check_and_clear\<close> and the destructor, which sets the state to \<open>Disposed\<close> first. The threads to
  release are those recorded in the slots the map points to.
\<close>

definition rk_slot_threads :: "read_write_lock \<Rightarrow> rw_lock_struct \<Rightarrow> tid list" where
  "rk_slot_threads l r = map (\<lambda>i. lr_thread_id (rs_readers r ! i))
     (filter (\<lambda>i. lr_used (rs_readers r ! i)) (map snd (rk_reader_threads l)))"

fun rk_release_all :: "bool \<Rightarrow> call_env \<Rightarrow> tid list \<Rightarrow> unit rk_cmd" where
  "rk_release_all got e [] = c_ret ()"
| "rk_release_all got e (t # ts) =
     c_bind (rk_release_read_thread got e t) (\<lambda>_. rk_release_all got e ts)"

definition rk_check_and_clear :: "bool \<Rightarrow> call_env \<Rightarrow> unit rk_cmd" where
  "rk_check_and_clear got e s =
     (case rt_record (snd s) (rk_lock_struct (fst s)) of
        None \<Rightarrow> (Inr (), s)
      | Some r \<Rightarrow>
          (if \<not> ws_used (rs_w r) then (Inr (), s)
           else c_bind (if ws_write_locked (rs_w r) \<and> ow_process_id (ws_owner (rs_w r)) = ce_pid e
                        then c_bind (rk_release_write_lock got e) (\<lambda>_. c_ret ())
                        else c_ret ()) (\<lambda>_.
                c_bind rk_deref (\<lambda>r1. \<lambda>s1. rk_release_all got e (rk_slot_threads (fst s1) r1) s1)) s))"

definition rk_destroy :: "bool \<Rightarrow> call_env \<Rightarrow> unit rk_cmd" where
  "rk_destroy got e =
     c_bind (rk_obj (\<lambda>l. l\<lparr>rk_state := set_state Disposed (rk_state l)\<rparr>)) (\<lambda>_.
     c_bind (rk_check_and_clear got e) (\<lambda>_.
     rk_obj (\<lambda>l. l\<lparr>rk_lock_struct := None\<rparr>)))"

definition rk_increment_ref_count :: "nat rk_cmd" where
  "rk_increment_ref_count =
     c_bind (rk_obj (\<lambda>l. l\<lparr>rk_reference_count := (rk_reference_count l + 1) mod 2 ^ 32\<rparr>)) (\<lambda>_.
     c_get (\<lambda>(l, t). rk_reference_count l))"

definition rk_decrement_ref_count :: "nat rk_cmd" where
  "rk_decrement_ref_count =
     c_bind (rk_obj (\<lambda>l. if rk_reference_count l > 0
       then l\<lparr>rk_reference_count := rk_reference_count l - 1\<rparr> else l)) (\<lambda>_.
     c_get (\<lambda>(l, t). rk_reference_count l))"

subsection \<open>The record behind an object\<close>

named_theorems rk_simps

lemma rt_record_Some_iff:
  "rt_record t p = Some r \<longleftrightarrow> (\<exists>i. p = Some i \<and> i < length (rt_locks t) \<and> r = rt_locks t ! i)"
  by (auto simp: rt_record_def split: option.splits)

lemma rt_record_store [rk_simps]:
  "rt_record t p = Some r0 \<Longrightarrow> rt_record (rt_store t p r) p = Some r"
  by (auto simp: rt_record_def rt_store_def split: option.splits if_splits)

lemma rt_store_store [rk_simps]: "rt_store (rt_store t p r) p r' = rt_store t p r'"
  by (auto simp: rt_store_def split: option.splits)

lemma rt_store_same [rk_simps]: "rt_record t p = Some r \<Longrightarrow> rt_store t p r = t"
  by (auto simp: rt_record_def rt_store_def split: option.splits if_splits)

text \<open>
  \<open>rk_live\<close>: the object is available and points to the used record of its name, touched less than
  the expiry ago.
\<close>

definition rk_live :: "time \<Rightarrow> read_write_lock \<Rightarrow> rw_lock_table \<Rightarrow> rw_lock_struct \<Rightarrow> bool" where
  "rk_live now l t r \<longleftrightarrow> is_available (rk_state l) \<and> rt_record t (rk_lock_struct l) = Some r
     \<and> ws_used (rs_w r) \<and> strncmp_eq (ws_name (rs_w r)) (rk_name l) (length (rk_name l))
     \<and> now - ws_last_used (rs_w r) < RW_LOCK_EXPIRY"

text \<open>What a call leaves behind that fails before it touches the record.\<close>

definition rk_failed :: "read_write_lock \<Rightarrow> read_write_lock \<Rightarrow> bool" where
  "rk_failed l l' \<longleftrightarrow> (\<exists>st. l' = l\<lparr>rk_state := st\<rparr> \<and> (st = rk_state l \<or> has_error st))"

lemma rk_failed_refl [simp]: "rk_failed l l"
  unfolding rk_failed_def by (rule exI [of _ "rk_state l"]) simp

lemma rk_failed_frame:
  "rk_failed l l' \<Longrightarrow> rk_lock_struct l' = rk_lock_struct l \<and> rk_txn_id l' = rk_txn_id l
     \<and> rk_reader_threads l' = rk_reader_threads l \<and> rk_name l' = rk_name l"
  by (auto simp: rk_failed_def)

lemmas rk_basic = rk_deref_def rk_obj_def rk_set_error_def rk_check_available_def cmd_simps

lemma rk_upd_run [rk_simps]:
  "rt_record t (rk_lock_struct l) = Some r \<Longrightarrow>
     rk_upd f (l, t) = (Inr (), (l, rt_store t (rk_lock_struct l) (f r)))"
  by (simp add: rk_upd_def rk_deref_def cmd_simps)

lemma rk_deref_run [rk_simps]:
  "rt_record t (rk_lock_struct l) = Some r \<Longrightarrow> rk_deref (l, t) = (Inr r, (l, t))"
  by (simp add: rk_deref_def)

lemma rk_upd_bind [rk_simps]:
  "rt_record t (rk_lock_struct l) = Some r \<Longrightarrow>
     c_bind (rk_upd f) k (l, t) = k () (l, rt_store t (rk_lock_struct l) (f r))"
  by (simp add: c_bind_Inr [of "rk_upd f" "(l, t)", OF rk_upd_run])

lemma rk_deref_bind [rk_simps]:
  "rt_record t (rk_lock_struct l) = Some r \<Longrightarrow> c_bind rk_deref k (l, t) = k r (l, t)"
  by (simp add: c_bind_Inr [of rk_deref "(l, t)", OF rk_deref_run])

lemma rk_obj_bind [rk_simps]: "c_bind (rk_obj f) k (l, t) = k () (f l, t)"
  by (simp add: rk_obj_def cmd_simps)

lemma rk_check_available_bind [rk_simps]:
  "c_bind rk_check_available k (l, t) =
     (if is_available (rk_state l) then k () (l, t) else (Inl State_unavailable, (l, t)))"
  by (simp add: rk_check_available_def cmd_simps)

lemma rk_touch_live:
  assumes "rk_live (ce_now e) l t r"
  shows "rk_check_and_touch e (l, t) = (Inr (), (l, rt_store t (rk_lock_struct l) (rs_touch (ce_now e) r)))"
  using assms
  by (auto simp: rk_check_and_touch_def rk_check_lock_valid_def rk_live_def rk_simps cmd_simps not_le)

lemma rk_touch_dead:
  assumes "\<nexists>r. rk_live (ce_now e) l t r"
  shows "\<exists>x l'. rk_check_and_touch e (l, t) = (Inl x, (l', t)) \<and> rk_failed l l'"
proof (cases "rt_record t (rk_lock_struct l)")
  case None
  then show ?thesis
    by (intro exI [of _ Mem_fault] exI [of _ l])
      (simp add: rk_check_and_touch_def rk_check_lock_valid_def rk_basic)
next
  case (Some r)
  let ?bad = "\<not> ws_used (rs_w r) \<or> \<not> strncmp_eq (ws_name (rs_w r)) (rk_name l) (length (rk_name l))"
  let ?old = "ce_now e - ws_last_used (rs_w r) \<ge> RW_LOCK_EXPIRY"
  let ?l = "l\<lparr>rk_state := (if ?bad \<or> ?old then set_error Lock_error (rk_state l) else rk_state l)\<rparr>"
  have "\<not> is_available (rk_state ?l)"
    using assms Some by (auto simp: rk_live_def state_simps not_le)
  moreover have "rk_check_lock_valid e (l, t) = (Inr (), (?l, t))"
    using Some by (simp add: rk_check_lock_valid_def rk_set_error_def rk_obj_def rk_simps cmd_simps set_error_def)
  ultimately have "rk_check_and_touch e (l, t) = (Inl State_unavailable, (?l, t))"
    by (simp only: rk_check_and_touch_def c_bind_Inr rk_check_available_bind if_False)
  moreover have "rk_failed l ?l"
    unfolding rk_failed_def by (rule exI [of _ "rk_state ?l"]) (auto simp: state_simps)
  ultimately show ?thesis by blast
qed

lemma rk_touch_frame [simp]:
  "rs_readers (rs_touch now r) = rs_readers r" "rs_reader_count (rs_touch now r) = rs_reader_count r"
  "ws_write_locked (rs_w (rs_touch now r)) = ws_write_locked (rs_w r)"
  "ws_owner (rs_w (rs_touch now r)) = ws_owner (rs_w r)"
  "ws_used (rs_w (rs_touch now r)) = ws_used (rs_w r)" "ws_name (rs_w (rs_touch now r)) = ws_name (rs_w r)"
  "ws_last_used (rs_w (rs_touch now r)) = now"
  "rk_slot tid l (rs_touch now r) = rk_slot tid l r"
  "rs_owned e txn (rs_w (rs_touch now r)) = rs_owned e txn (rs_w r)"
  "rs_touch now (rs_touch now' r) = rs_touch now r"
  by (simp_all add: rs_touch_def rk_slot_def rs_owned_def split: option.split)

subsection \<open>The operations on a live record\<close>

lemma rk_has_write_lock_live:
  assumes "rk_live (ce_now e) l t r"
  shows "rk_has_write_lock e (l, t) = (Inr (rs_owned e (rk_txn_id l) (rs_w r)),
    (l, rt_store t (rk_lock_struct l) (rs_touch (ce_now e) r)))"
proof -
  have "rt_record t (rk_lock_struct l) = Some r"
    using assms by (simp add: rk_live_def)
  then show ?thesis
    unfolding rk_has_write_lock_def c_bind_Inr [of "rk_check_and_touch e" "(l, t)", OF rk_touch_live [OF assms]]
    by (simp add: rk_simps cmd_simps)
qed

lemma rk_has_thread_lock_live:
  assumes "rk_live (ce_now e) l t r"
  shows "rk_has_thread_lock e tid (l, t) = (Inr (rk_slot tid l r \<noteq> None),
    (l, rt_store t (rk_lock_struct l) (rs_touch (ce_now e) r)))"
proof -
  have "rt_record t (rk_lock_struct l) = Some r"
    using assms by (simp add: rk_live_def)
  then show ?thesis
    unfolding rk_has_thread_lock_def c_bind_Inr [of "rk_check_and_touch e" "(l, t)", OF rk_touch_live [OF assms]]
    by (simp add: rk_simps cmd_simps)
qed

lemma rk_write_attempt_live:
  assumes "rk_live (ce_now e) l t r"
  shows "rk_write_attempt owner uuid e (l, t) =
    (let p = rk_lock_struct l; r1 = rs_touch (ce_now e) r in
     if rs_owned e (rk_txn_id l) (rs_w r) then (Inr True, (l, rt_store t p r1))
     else if \<not> ws_write_locked (rs_w r) \<and> rs_reader_count r = 0
     then (Inr True, (l\<lparr>rk_txn_id := uuid\<rparr>, rt_store t p (rs_take_write e owner uuid r1)))
     else (Inr False, (l, rt_store t p r1)))"
proof -
  have "rt_record t (rk_lock_struct l) = Some r"
    using assms by (simp add: rk_live_def)
  then show ?thesis
    unfolding rk_write_attempt_def c_bind_Inr [of "rk_has_write_lock e" "(l, t)", OF rk_has_write_lock_live [OF assms]]
    by (simp add: rk_simps cmd_simps Let_def)
qed

definition rs_enter_reader :: "call_env \<Rightarrow> nat \<Rightarrow> rw_lock_struct \<Rightarrow> rw_lock_struct" where
  "rs_enter_reader e i r = r\<lparr>rs_readers := (rs_readers r)[i := new_reader e],
     rs_reader_count := add64 (rs_reader_count r) 1\<rparr>"

lemma rk_read_attempt_live:
  assumes "rk_live (ce_now e) l t r"
  shows "rk_read_attempt e (l, t) =
    (let p = rk_lock_struct l; r1 = rs_touch (ce_now e) r in
     if ws_write_locked (rs_w r) then (Inr False, (l, t))
     else if rk_slot (ce_tid e) l r \<noteq> None then (Inr True, (l, rt_store t p r1))
     else if rs_reader_count r < MAX_READER_LOCKS
     then (case free_reader_from 0 (rs_readers r) of
             None \<Rightarrow> (Inl Base_error, (l, rt_store t p r1))
           | Some i \<Rightarrow> (Inr True,
               (l\<lparr>rk_reader_threads := AList.update (ce_tid e) i (rk_reader_threads l)\<rparr>,
                rt_store t p (rs_enter_reader e i r1))))
     else (Inr False, (l, rt_store t p r1)))"
proof -
  have rec: "rt_record t (rk_lock_struct l) = Some r"
    using assms by (simp add: rk_live_def)
  show ?thesis
    using rec
    by (simp add: rk_read_attempt_def c_bind_Inr [of "rk_has_thread_lock e (ce_tid e)" "(l, t)", OF rk_has_thread_lock_live [OF assms]] rk_simps
        cmd_simps Let_def rk_find_free_reader_def split: option.split)
      (simp add: rs_enter_reader_def rs_set_reader_def)
qed

end
