(* ===== verification/RwSystem.thy ===== *)
theory RwSystem
  imports ReadWriteLock
begin

section \<open>Processes sharing a read/write lock\<close>

text \<open>
  What an operation of \<open>ReadWriteLock\<close> does to its object and its record is one of six effects
  (\<open>rk_effect\<close>). The system of all processes that share one record takes such steps; its
  invariant ties the reader slots to the objects' maps, and the abstract lock (a writer, a set of
  readers) is what it implements.
\<close>

subsection \<open>Effects\<close>

inductive rk_effect :: "call_env \<Rightarrow> read_write_lock \<Rightarrow> rw_lock_struct
    \<Rightarrow> read_write_lock \<Rightarrow> rw_lock_struct \<Rightarrow> bool" where
  failed: "rk_failed l l' \<Longrightarrow> rk_effect e l r l' r"
| touched: "rk_effect e l r l (rs_touch now r)"
| taken: "\<not> ws_write_locked (rs_w r) \<Longrightarrow> rs_reader_count r = 0 \<Longrightarrow>
    rk_effect e l r (l\<lparr>rk_txn_id := uuid\<rparr>) (rs_take_write e owner uuid (rs_touch now r))"
| entered: "\<not> ws_write_locked (rs_w r) \<Longrightarrow> rs_reader_count r < MAX_READER_LOCKS \<Longrightarrow>
    rk_slot (ce_tid e) l r = None \<Longrightarrow> free_reader_from 0 (rs_readers r) = Some i \<Longrightarrow>
    rk_effect e l r (l\<lparr>rk_reader_threads := AList.update (ce_tid e) i (rk_reader_threads l)\<rparr>)
      (rs_enter_reader e i (rs_touch now r))"
| dropped: "rk_slot (ce_tid e) l r = Some i \<Longrightarrow> rs_reader_count r > 0 \<Longrightarrow>
    rk_effect e l r (l\<lparr>rk_reader_threads := AList.delete (ce_tid e) (rk_reader_threads l)\<rparr>)
      (rs_touch now (rs_drop_reader i (rs_touch now r)))"
| released: "rs_owned e (rk_txn_id l) (rs_w r) \<Longrightarrow>
    rk_effect e l r (l\<lparr>rk_txn_id := []\<rparr>) (rs_release_write (rs_touch now r))"

definition rk_sound :: "call_env \<Rightarrow> bool rk_cmd \<Rightarrow> bool" where
  "rk_sound e m \<longleftrightarrow> (\<forall>l t r x l' t'. rt_record t (rk_lock_struct l) = Some r \<longrightarrow> m (l, t) = (x, (l', t'))
     \<longrightarrow> (\<exists>r'. rk_effect e l r l' r' \<and> t' = rt_store t (rk_lock_struct l) r'))"

lemma rk_live_record: "rk_live now l t r \<Longrightarrow> rt_record t (rk_lock_struct l) = Some r"
  by (simp add: rk_live_def)

lemma rk_live_unique: "rt_record t (rk_lock_struct l) = Some r \<Longrightarrow> rk_live now l t r' \<Longrightarrow> r' = r"
  by (simp add: rk_live_def)

text \<open>A command is sound when it is on a live record, and does nothing else but fail otherwise.\<close>

lemma rk_soundI [case_names live dead]:
  assumes live: "\<And>l t r x l' t'. rk_live (ce_now e) l t r \<Longrightarrow> m (l, t) = (x, (l', t'))
     \<Longrightarrow> \<exists>r'. rk_effect e l r l' r' \<and> t' = rt_store t (rk_lock_struct l) r'"
    and dead: "\<And>l t r x l' t'. \<nexists>r. rk_live (ce_now e) l t r \<Longrightarrow> rt_record t (rk_lock_struct l) = Some r
     \<Longrightarrow> m (l, t) = (x, (l', t')) \<Longrightarrow> rk_failed l l' \<and> t' = t"
  shows "rk_sound e m"
  unfolding rk_sound_def
proof (intro allI impI)
  fix l t r x l' t'
  assume rec: "rt_record t (rk_lock_struct l) = Some r" and run: "m (l, t) = (x, (l', t'))"
  show "\<exists>r'. rk_effect e l r l' r' \<and> t' = rt_store t (rk_lock_struct l) r'"
  proof (cases "rk_live (ce_now e) l t r")
    case True
    then show ?thesis by (rule live [OF _ run])
  next
    case False
    then have "\<nexists>r. rk_live (ce_now e) l t r"
      using rk_live_unique [OF rec] by blast
    then have "rk_failed l l'" "t' = t"
      using dead [OF _ rec run] by blast+
    then show ?thesis
      using rt_store_same [OF rec] rk_effect.failed by (intro exI [of _ r]) simp
  qed
qed

text \<open>The questions.\<close>

lemma rk_has_write_lock_dead:
  assumes "\<nexists>r. rk_live (ce_now e) l t r"
  obtains x l' where "rk_has_write_lock e (l, t) = (Inl x, (l', t))" "rk_failed l l'"
proof -
  obtain x l' where "rk_check_and_touch e (l, t) = (Inl x, (l', t))" "rk_failed l l'"
    using rk_touch_dead [OF assms] by blast
  then show thesis
    using that by (simp add: rk_has_write_lock_def c_bind_Inl [of "rk_check_and_touch e" "(l, t)"])
qed

lemma rk_has_thread_lock_dead:
  assumes "\<nexists>r. rk_live (ce_now e) l t r"
  obtains x l' where "rk_has_thread_lock e tid (l, t) = (Inl x, (l', t))" "rk_failed l l'"
proof -
  obtain x l' where "rk_check_and_touch e (l, t) = (Inl x, (l', t))" "rk_failed l l'"
    using rk_touch_dead [OF assms] by blast
  then show thesis
    using that by (simp add: rk_has_thread_lock_def c_bind_Inl [of "rk_check_and_touch e" "(l, t)"])
qed

lemma has_write_sound: "rk_sound e (rk_has_write_lock e)"
proof (rule rk_soundI)
  fix l t r x l' t'
  assume "rk_live (ce_now e) l t r" "rk_has_write_lock e (l, t) = (x, (l', t'))"
  then have "l' = l" "t' = rt_store t (rk_lock_struct l) (rs_touch (ce_now e) r)"
    by (auto simp: rk_has_write_lock_live)
  then show "\<exists>r'. rk_effect e l r l' r' \<and> t' = rt_store t (rk_lock_struct l) r'"
    using rk_effect.touched by blast
next
  fix l t r x l' t'
  assume "\<nexists>r. rk_live (ce_now e) l t r" and "rk_has_write_lock e (l, t) = (x, (l', t'))"
  then show "rk_failed l l' \<and> t' = t"
    by (elim rk_has_write_lock_dead) simp
qed

lemma has_thread_sound: "rk_sound e (rk_has_thread_lock e tid)"
proof (rule rk_soundI)
  fix l t r x l' t'
  assume "rk_live (ce_now e) l t r" "rk_has_thread_lock e tid (l, t) = (x, (l', t'))"
  then have "l' = l" "t' = rt_store t (rk_lock_struct l) (rs_touch (ce_now e) r)"
    by (auto simp: rk_has_thread_lock_live)
  then show "\<exists>r'. rk_effect e l r l' r' \<and> t' = rt_store t (rk_lock_struct l) r'"
    using rk_effect.touched by blast
next
  fix l t r x l' t'
  assume "\<nexists>r. rk_live (ce_now e) l t r" and "rk_has_thread_lock e tid (l, t) = (x, (l', t'))"
  then show "rk_failed l l' \<and> t' = t"
    by (elim rk_has_thread_lock_dead [of e l t tid]) simp
qed

text \<open>The attempts.\<close>

lemma write_attempt_sound: "rk_sound e (rk_write_attempt owner uuid e)"
proof (rule rk_soundI)
  fix l t r x l' t'
  assume live: "rk_live (ce_now e) l t r" and run: "rk_write_attempt owner uuid e (l, t) = (x, (l', t'))"
  consider "l' = l" "t' = rt_store t (rk_lock_struct l) (rs_touch (ce_now e) r)"
    | "\<not> ws_write_locked (rs_w r)" "rs_reader_count r = 0" "l' = l\<lparr>rk_txn_id := uuid\<rparr>"
      "t' = rt_store t (rk_lock_struct l) (rs_take_write e owner uuid (rs_touch (ce_now e) r))"
    using run rk_write_attempt_live [OF live, of owner uuid] by (auto simp: Let_def split: if_splits)
  then show "\<exists>r'. rk_effect e l r l' r' \<and> t' = rt_store t (rk_lock_struct l) r'"
    by cases (blast intro: rk_effect.touched rk_effect.taken)+
next
  fix l t r x l' t'
  assume "\<nexists>r. rk_live (ce_now e) l t r" and run: "rk_write_attempt owner uuid e (l, t) = (x, (l', t'))"
  then obtain y l1 where "rk_has_write_lock e (l, t) = (Inl y, (l1, t))" "rk_failed l l1"
    by (elim rk_has_write_lock_dead)
  then show "rk_failed l l' \<and> t' = t"
    using run by (simp add: rk_write_attempt_def c_bind_Inl [of "rk_has_write_lock e" "(l, t)"])
qed

lemma read_attempt_sound: "rk_sound e (rk_read_attempt e)"
proof (rule rk_soundI)
  fix l t r x l' t'
  assume live: "rk_live (ce_now e) l t r" and run: "rk_read_attempt e (l, t) = (x, (l', t'))"
  note rec = rt_store_same [OF rk_live_record [OF live]]
  consider "l' = l" "t' = t" | "l' = l" "t' = rt_store t (rk_lock_struct l) (rs_touch (ce_now e) r)"
    | i where "\<not> ws_write_locked (rs_w r)" "rs_reader_count r < MAX_READER_LOCKS"
      "rk_slot (ce_tid e) l r = None" "free_reader_from 0 (rs_readers r) = Some i"
      "l' = l\<lparr>rk_reader_threads := AList.update (ce_tid e) i (rk_reader_threads l)\<rparr>"
      "t' = rt_store t (rk_lock_struct l) (rs_enter_reader e i (rs_touch (ce_now e) r))"
    using run rk_read_attempt_live [OF live] by (auto simp: Let_def split: if_splits option.splits)
  then show "\<exists>r'. rk_effect e l r l' r' \<and> t' = rt_store t (rk_lock_struct l) r'"
  proof cases
    case 1
    then show ?thesis
      using rec rk_effect.failed by (intro exI [of _ r]) simp
  qed (blast intro: rk_effect.touched rk_effect.entered)+
next
  fix l t r x l' t'
  assume "\<nexists>r. rk_live (ce_now e) l t r" and rec: "rt_record t (rk_lock_struct l) = Some r"
    and run: "rk_read_attempt e (l, t) = (x, (l', t'))"
  then obtain y l1 where "rk_has_thread_lock e (ce_tid e) (l, t) = (Inl y, (l1, t))" "rk_failed l l1"
    by (elim rk_has_thread_lock_dead [of e l t "ce_tid e"])
  then show "rk_failed l l' \<and> t' = t"
    using run rec
    by (auto simp: rk_read_attempt_def rk_simps cmd_simps c_bind_Inl [of "rk_has_thread_lock e (ce_tid e)" "(l, t)"]
        split: if_splits)
qed

text \<open>The releases.\<close>

lemma release_read_thread_live:
  assumes "rk_live (ce_now e) l t r"
  shows "rk_release_read_thread True e tid (l, t) =
    (let p = rk_lock_struct l; r1 = rs_touch (ce_now e) r in
     case rk_slot tid l r of
       None \<Rightarrow> (Inr False, (l, rt_store t p r1))
     | Some i \<Rightarrow>
         if rs_reader_count r > 0
         then (Inr True, (l\<lparr>rk_reader_threads := AList.delete tid (rk_reader_threads l)\<rparr>,
                 rt_store t p (rs_touch (ce_now e) (rs_drop_reader i r1))))
         else (Inl Lock_error, (l, rt_store t p r1)))"
proof -
  have rec: "rt_record t (rk_lock_struct l) = Some r" and av: "is_available (rk_state l)"
    using assms by (simp_all add: rk_live_def)
  show ?thesis
    using rec av
    by (cases "rk_slot tid l r")
      (simp_all add: rk_release_read_thread_def rk_get_reader_index_def
        c_bind_Inr [of "rk_has_thread_lock e tid" "(l, t)", OF rk_has_thread_lock_live [OF assms]]
        rk_simps cmd_simps Let_def)
qed

lemma release_read_sound: "rk_sound e (rk_release_read_lock got e)"
proof (rule rk_soundI)
  fix l t r x l' t'
  assume live: "rk_live (ce_now e) l t r" and run: "rk_release_read_lock got e (l, t) = (x, (l', t'))"
  show "\<exists>r'. rk_effect e l r l' r' \<and> t' = rt_store t (rk_lock_struct l) r'"
  proof (cases got)
    case False
    then have "l' = l" "t' = t"
      using run by (auto simp: rk_release_read_lock_def rk_release_read_thread_def rk_simps cmd_simps split: if_splits)
    then show ?thesis
      using rt_store_same [OF rk_live_record [OF live]] rk_effect.failed by (intro exI [of _ r]) simp
  next
    case True
    then have run: "rk_release_read_thread True e (ce_tid e) (l, t) = (x, (l', t'))"
      using run live by (simp add: rk_release_read_lock_def rk_simps rk_live_def)
    consider "l' = l" "t' = rt_store t (rk_lock_struct l) (rs_touch (ce_now e) r)"
      | i where "rk_slot (ce_tid e) l r = Some i" "rs_reader_count r > 0"
        "l' = l\<lparr>rk_reader_threads := AList.delete (ce_tid e) (rk_reader_threads l)\<rparr>"
        "t' = rt_store t (rk_lock_struct l) (rs_touch (ce_now e) (rs_drop_reader i (rs_touch (ce_now e) r)))"
      using run release_read_thread_live [OF live] by (auto simp: Let_def split: if_splits option.splits)
    then show ?thesis
      by cases (blast intro: rk_effect.touched rk_effect.dropped)+
  qed
next
  fix l t r x l' t'
  assume "\<nexists>r. rk_live (ce_now e) l t r" and run: "rk_release_read_lock got e (l, t) = (x, (l', t'))"
  then obtain y l1 where "rk_has_thread_lock e (ce_tid e) (l, t) = (Inl y, (l1, t))" "rk_failed l l1"
    by (elim rk_has_thread_lock_dead [of e l t "ce_tid e"])
  then show "rk_failed l l' \<and> t' = t"
    using run by (auto simp: rk_release_read_lock_def rk_release_read_thread_def rk_simps cmd_simps
        c_bind_Inl [of "rk_has_thread_lock e (ce_tid e)" "(l, t)"] split: if_splits)
qed

lemma release_write_live:
  assumes "rk_live (ce_now e) l t r" "rk_txn_id l \<noteq> []"
  shows "rk_release_write_lock True e (l, t) =
    (let p = rk_lock_struct l; r1 = rs_touch (ce_now e) r in
     if \<not> ws_write_locked (rs_w r) then (Inr False, (l, t))
     else if rs_owned e (rk_txn_id l) (rs_w r)
     then (Inr True, (l\<lparr>rk_txn_id := []\<rparr>, rt_store t p (rs_release_write r1)))
     else (Inr False, (l, rt_store t p r1)))"
proof -
  have rec: "rt_record t (rk_lock_struct l) = Some r" and av: "is_available (rk_state l)"
    using assms by (simp_all add: rk_live_def)
  show ?thesis
    using rec av assms(2)
    by (simp add: rk_release_write_lock_def
        c_bind_Inr [of "rk_has_write_lock e" "(l, t)", OF rk_has_write_lock_live [OF assms(1)]]
        rk_simps cmd_simps Let_def)
qed

lemma release_write_sound: "rk_sound e (rk_release_write_lock got e)"
proof (rule rk_soundI)
  fix l t r x l' t'
  assume live: "rk_live (ce_now e) l t r" and run: "rk_release_write_lock got e (l, t) = (x, (l', t'))"
  note rec = rk_live_record [OF live]
  show "\<exists>r'. rk_effect e l r l' r' \<and> t' = rt_store t (rk_lock_struct l) r'"
  proof (cases "rk_txn_id l \<noteq> [] \<and> got \<and> ws_write_locked (rs_w r)")
    case False
    then have "l' = l" "t' = t"
      using run rec by (auto simp: rk_release_write_lock_def rk_simps cmd_simps split: if_splits)
    then show ?thesis
      using rt_store_same [OF rec] rk_effect.failed by (intro exI [of _ r]) simp
  next
    case pre: True
    consider "l' = l" "t' = rt_store t (rk_lock_struct l) (rs_touch (ce_now e) r)"
      | "rs_owned e (rk_txn_id l) (rs_w r)" "l' = l\<lparr>rk_txn_id := []\<rparr>"
        "t' = rt_store t (rk_lock_struct l) (rs_release_write (rs_touch (ce_now e) r))"
      using run pre release_write_live [OF live] by (auto simp: Let_def split: if_splits)
    then show ?thesis
      by cases (blast intro: rk_effect.touched rk_effect.released)+
  qed
next
  fix l t r x l' t'
  assume "\<nexists>r. rk_live (ce_now e) l t r" and rec: "rt_record t (rk_lock_struct l) = Some r"
    and run: "rk_release_write_lock got e (l, t) = (x, (l', t'))"
  then obtain y l1 where "rk_has_write_lock e (l, t) = (Inl y, (l1, t))" "rk_failed l l1"
    by (elim rk_has_write_lock_dead)
  then show "rk_failed l l' \<and> t' = t"
    using run rec by (auto simp: rk_release_write_lock_def rk_simps cmd_simps
        c_bind_Inl [of "rk_has_write_lock e" "(l, t)"] split: if_splits)
qed

subsection \<open>The record invariant under an effect\<close>

lemma free_reader_from_Some:
  "free_reader_from k rs = Some i \<Longrightarrow> k \<le> i \<and> i < k + length rs \<and> \<not> lr_used (rs ! (i - k))"
proof (induction rs arbitrary: k)
  case (Cons a rs)
  show ?case
  proof (cases "lr_used a")
    case True
    then have "free_reader_from (k + 1) rs = Some i" using Cons.prems by simp
    note ih = Cons.IH [OF this]
    then have "i - k = Suc (i - (k + 1))" by arith
    then show ?thesis using ih by simp
  qed (use Cons.prems in simp)
qed simp

lemma free_reader_from_None: "free_reader_from k rs = None \<longleftrightarrow> (\<forall>x \<in> set rs. lr_used x)"
  by (induction rs arbitrary: k) auto

lemma rs_used_readers_update:
  assumes "i < length (rs_readers r)"
  shows "rs_used_readers (r\<lparr>rs_readers := (rs_readers r)[i := v]\<rparr>) + (if lr_used (rs_readers r ! i) then 1 else 0)
       = rs_used_readers r + (if lr_used v then 1 else 0)"
  using filter_update_length [OF assms, of lr_used v] by (simp add: rs_used_readers_def)

lemma rs_used_readers_pos: "i < length (rs_readers r) \<Longrightarrow> lr_used (rs_readers r ! i) \<Longrightarrow> rs_used_readers r > 0"
  by (simp add: rs_used_readers_def filter_empty_conv) (use nth_mem in blast)

lemma rs_ok_count: "rs_ok r \<Longrightarrow> rs_reader_count r \<le> 256"
  using length_filter_le [of lr_used "rs_readers r"]
  by (simp add: rs_ok_def rs_used_readers_def MAX_READER_LOCKS_def)

lemma rs_touch_ok [simp]: "rs_ok (rs_touch now r) = rs_ok r"
  by (simp add: rs_ok_def rs_used_readers_def)

text \<open>\<open>rk_mapped\<close>: the thread's map entries are indexes of the array.\<close>

definition rk_mapped :: "read_write_lock \<Rightarrow> bool" where
  "rk_mapped l \<longleftrightarrow> (\<forall>tid i. map_of (rk_reader_threads l) tid = Some i \<longrightarrow> i < MAX_READER_LOCKS)"

lemma rk_mapped_slot: "rk_mapped l \<Longrightarrow> rk_slot tid l r = Some i \<Longrightarrow> i < MAX_READER_LOCKS \<and> lr_used (rs_readers r ! i)"
  by (auto simp: rk_mapped_def rk_slot_def split: option.splits if_splits)

lemma rs_drop_reader_ok:
  assumes ok: "rs_ok r" and i: "i < MAX_READER_LOCKS" "lr_used (rs_readers r ! i)"
  shows "rs_ok (rs_drop_reader i r)"
proof -
  have len: "i < length (rs_readers r)" using ok i by (simp add: rs_ok_def)
  then have "sub64 (rs_reader_count r) 1 = rs_reader_count r - 1"
    using rs_used_readers_pos [OF len i(2)] rs_ok_count [OF ok] ok by (intro sub64_le) (auto simp: rs_ok_def)
  then show ?thesis
    using ok i rs_used_readers_update [OF len, of "lr_used_update (\<lambda>_. False) (rs_readers r ! i)"]
    by (auto simp: rs_ok_def rs_drop_reader_def rs_set_reader_def rs_used_readers_def)
qed

lemma rs_enter_reader_ok:
  assumes ok: "rs_ok r" and i: "free_reader_from 0 (rs_readers r) = Some i"
    and free: "\<not> ws_write_locked (rs_w r)" "rs_reader_count r < MAX_READER_LOCKS"
  shows "rs_ok (rs_enter_reader e i r)"
proof -
  have len: "i < length (rs_readers r)" and nu: "\<not> lr_used (rs_readers r ! i)"
    using free_reader_from_Some [OF i] by auto
  have "add64 (rs_reader_count r) 1 = rs_reader_count r + 1"
    using free by (intro add64_small) (simp add: MAX_READER_LOCKS_def)
  then show ?thesis
    using ok nu free rs_used_readers_update [OF len, of "new_reader e"]
    by (auto simp: rs_ok_def rs_enter_reader_def rs_used_readers_def new_reader_def)
qed

lemma effect_ok:
  assumes "rk_effect e l r l' r'" "rs_ok r" "rk_mapped l"
  shows "rs_ok r' \<and> rk_mapped l'"
  using assms
proof (cases rule: rk_effect.cases)
  case failed
  then show ?thesis
    using assms(2,3) rk_failed_frame [OF failed(2)] by (simp add: rk_mapped_def)
next
  case touched
  then show ?thesis using assms(2,3) by simp
next
  case taken
  then show ?thesis
    using assms(2,3) by (simp add: rs_ok_def rs_used_readers_def rs_take_write_def rk_mapped_def Let_def)
next
  case (entered i)
  have "i < MAX_READER_LOCKS"
    using free_reader_from_Some [OF entered(6)] assms(2) by (simp add: rs_ok_def)
  then have "rk_mapped l'"
    using assms(3) entered(1) by (auto simp: rk_mapped_def AList.update_conv')
  then show ?thesis
    using rs_enter_reader_ok [of "rs_touch _ r" i e] entered assms(2) by simp
next
  case (dropped i)
  note i = rk_mapped_slot [OF assms(3) dropped(3)]
  have "rk_mapped l'"
    using assms(3) dropped(1) by (auto simp: rk_mapped_def AList.delete_conv' split: if_splits)
  then show ?thesis
    using rs_drop_reader_ok [of "rs_touch _ r" i] i dropped(2) assms(2) by simp
next
  case released
  then show ?thesis
    using assms(2,3) by (simp add: rs_ok_def rs_used_readers_def rs_release_write_def wk_release_struct_def rk_mapped_def)
qed

subsection \<open>The system\<close>

text \<open>
  One table and the lock object of every process. A step is one call of one thread of a process on
  the object of its process, at any time and with or without the exclusive lock; every turn of the
  retry loops is a step of its own. All objects point to record \<open>k\<close>, as \<open>add_lock\<close> gives it for
  one name.
\<close>

record rw_sys =
  ys_obj :: "pid \<Rightarrow> read_write_lock"
  ys_table :: rw_lock_table

definition ys_state :: "rw_sys \<Rightarrow> pid \<Rightarrow> read_write_lock \<times> rw_lock_table" where
  "ys_state s p = (ys_obj s p, ys_table s)"

definition ys_put :: "rw_sys \<Rightarrow> pid \<Rightarrow> read_write_lock \<times> rw_lock_table \<Rightarrow> rw_sys" where
  "ys_put s p st = s\<lparr>ys_obj := (ys_obj s)(p := fst st), ys_table := snd st\<rparr>"

inductive ystep :: "call_env \<Rightarrow> rw_sys \<Rightarrow> rw_sys \<Rightarrow> bool" for e where
  write_try: "rk_write_attempt owner uuid e (ys_state s (ce_pid e)) = (x, st) \<Longrightarrow> ystep e s (ys_put s (ce_pid e) st)"
| read_try: "rk_read_attempt e (ys_state s (ce_pid e)) = (x, st) \<Longrightarrow> ystep e s (ys_put s (ce_pid e) st)"
| write_release: "rk_release_write_lock got e (ys_state s (ce_pid e)) = (x, st) \<Longrightarrow> ystep e s (ys_put s (ce_pid e) st)"
| read_release: "rk_release_read_lock got e (ys_state s (ce_pid e)) = (x, st) \<Longrightarrow> ystep e s (ys_put s (ce_pid e) st)"
| ask_write: "rk_has_write_lock e (ys_state s (ce_pid e)) = (x, st) \<Longrightarrow> ystep e s (ys_put s (ce_pid e) st)"
| ask_read: "rk_has_thread_lock e tid (ys_state s (ce_pid e)) = (x, st) \<Longrightarrow> ystep e s (ys_put s (ce_pid e) st)"

inductive yreach :: "nat \<Rightarrow> rw_sys \<Rightarrow> bool" for k where
  init: "k < length (rt_locks t) \<Longrightarrow> rt_locks t ! k = rs_touch now (fresh_rw_lock name) \<Longrightarrow>
     (\<And>p. rk_lock_struct (obj p) = Some k \<and> rk_reader_threads (obj p) = []) \<Longrightarrow>
     yreach k \<lparr>ys_obj = obj, ys_table = t\<rparr>"
| step: "yreach k s \<Longrightarrow> ystep e s s' \<Longrightarrow> yreach k s'"

definition ys_rec :: "nat \<Rightarrow> rw_sys \<Rightarrow> rw_lock_struct" where
  "ys_rec k s = rt_locks (ys_table s) ! k"

definition rs_slot_of :: "rw_lock_struct \<Rightarrow> nat \<Rightarrow> pid \<Rightarrow> tid \<Rightarrow> bool" where
  "rs_slot_of r i p t \<longleftrightarrow> i < MAX_READER_LOCKS \<and> lr_used (rs_readers r ! i)
     \<and> lr_process_id (rs_readers r ! i) = p \<and> lr_thread_id (rs_readers r ! i) = t"

definition ys_map :: "rw_sys \<Rightarrow> pid \<Rightarrow> tid \<Rightarrow> nat option" where
  "ys_map s p t = map_of (rk_reader_threads (ys_obj s p)) t"

definition yinv :: "nat \<Rightarrow> rw_sys \<Rightarrow> bool" where
  "yinv k s \<longleftrightarrow> k < length (rt_locks (ys_table s)) \<and> (\<forall>p. rk_lock_struct (ys_obj s p) = Some k)
     \<and> rs_ok (ys_rec k s) \<and> (\<forall>p t i. ys_map s p t = Some i \<longleftrightarrow> rs_slot_of (ys_rec k s) i p t)"

text \<open>Every step is an effect on the record.\<close>

lemma ystep_effect:
  assumes "ystep e s s'" "k < length (rt_locks (ys_table s))" "rk_lock_struct (ys_obj s (ce_pid e)) = Some k"
  obtains l' r' where "rk_effect e (ys_obj s (ce_pid e)) (ys_rec k s) l' r'"
    "s' = ys_put s (ce_pid e) (l', rt_store (ys_table s) (Some k) r')"
proof -
  obtain m x st where m: "rk_sound e m" "m (ys_state s (ce_pid e)) = (x, st)" "s' = ys_put s (ce_pid e) st"
    using assms(1) by (cases rule: ystep.cases)
      (blast intro: write_attempt_sound read_attempt_sound release_write_sound release_read_sound has_write_sound has_thread_sound)+
  obtain l' t' where st: "st = (l', t')" by (cases st)
  have "rt_record (ys_table s) (rk_lock_struct (ys_obj s (ce_pid e))) = Some (ys_rec k s)"
    using assms(2,3) by (simp add: rt_record_def ys_rec_def)
  then obtain r' where "rk_effect e (ys_obj s (ce_pid e)) (ys_rec k s) l' r'"
    "t' = rt_store (ys_table s) (rk_lock_struct (ys_obj s (ce_pid e))) r'"
    using m(1,2) st unfolding rk_sound_def ys_state_def by blast
  then show thesis
    using that assms(3) m(3) st by simp
qed

lemma ys_put_simps [simp]:
  "ys_obj (ys_put s p (l, t)) q = (if q = p then l else ys_obj s q)"
  "ys_table (ys_put s p (l, t)) = t"
  "ys_map (ys_put s p (l, t)) q tid = (if q = p then map_of (rk_reader_threads l) tid else ys_map s q tid)"
  by (simp_all add: ys_put_def ys_map_def)

lemma ys_rec_put [simp]:
  "k < length (rt_locks (ys_table s)) \<Longrightarrow> ys_rec k (ys_put s p (l, rt_store (ys_table s) (Some k) r)) = r"
  "length (rt_locks (rt_store t (Some k) r)) = length (rt_locks t)"
  by (simp_all add: ys_rec_def rt_store_def)

lemma rs_slot_of_frame [simp]:
  "rs_slot_of (rs_touch now r) i p t = rs_slot_of r i p t"
  "rs_slot_of (rs_take_write e owner uuid r) i p t = rs_slot_of r i p t"
  "rs_slot_of (rs_release_write r) i p t = rs_slot_of r i p t"
  by (simp_all add: rs_slot_of_def rs_take_write_def rs_release_write_def Let_def)

lemma rs_slot_of_drop:
  "length (rs_readers r) = MAX_READER_LOCKS \<Longrightarrow>
     rs_slot_of (rs_drop_reader i r) j p t \<longleftrightarrow> j \<noteq> i \<and> rs_slot_of r j p t"
  by (cases "j = i") (auto simp: rs_slot_of_def rs_drop_reader_def rs_set_reader_def)

lemma rs_slot_of_enter:
  "length (rs_readers r) = MAX_READER_LOCKS \<Longrightarrow> i < MAX_READER_LOCKS \<Longrightarrow>
     rs_slot_of (rs_enter_reader e i r) j p t \<longleftrightarrow>
       (if j = i then p = ce_pid e \<and> t = ce_tid e else rs_slot_of r j p t)"
  by (auto simp: rs_slot_of_def rs_enter_reader_def new_reader_def nth_list_update)

lemma rs_slot_of_fresh: "\<not> rs_slot_of (fresh_rw_lock name) i p t"
  by (cases "i < MAX_READER_LOCKS") (simp_all add: rs_slot_of_def fresh_rw_lock_def zero_rw_lock_def zero_reader_def)

lemma rs_slot_of_unique: "rs_slot_of r i p t \<Longrightarrow> rs_slot_of r i p' t' \<Longrightarrow> p' = p \<and> t' = t"
  by (simp add: rs_slot_of_def)

lemma yinv_slot:
  assumes "yinv k s"
  shows "rk_slot t (ys_obj s p) (ys_rec k s) = ys_map s p t"
proof (cases "ys_map s p t")
  case None
  then show ?thesis by (simp add: rk_slot_def ys_map_def)
next
  case (Some i)
  then have "rs_slot_of (ys_rec k s) i p t"
    using assms by (simp add: yinv_def)
  then show ?thesis
    using Some by (simp add: rk_slot_def ys_map_def rs_slot_of_def)
qed

lemma yinv_step:
  assumes inv: "yinv k s" and "ystep e s s'"
  shows "yinv k s'"
proof -
  let ?l = "ys_obj s (ce_pid e)" and ?r = "ys_rec k s"
  have k: "k < length (rt_locks (ys_table s))" and p: "rk_lock_struct ?l = Some k" and ok: "rs_ok ?r"
    and mp: "\<And>p t i. ys_map s p t = Some i \<longleftrightarrow> rs_slot_of ?r i p t"
    using inv by (simp_all add: yinv_def)
  have len: "length (rs_readers ?r) = MAX_READER_LOCKS"
    using ok by (simp add: rs_ok_def)
  obtain l' r' where ef: "rk_effect e ?l ?r l' r'"
    and s': "s' = ys_put s (ce_pid e) (l', rt_store (ys_table s) (Some k) r')"
    using ystep_effect [OF assms(2) k p] by blast
  have "rk_mapped ?l"
    using mp by (auto simp: rk_mapped_def ys_map_def rs_slot_of_def)
  then have ok': "rs_ok r'" using effect_ok [OF ef ok] by simp
  have own: "map_of (rk_reader_threads ?l) t = ys_map s (ce_pid e) t" for t
    by (simp add: ys_map_def)
  have "rk_lock_struct l' = Some k \<and> (\<forall>p t i. ys_map s' p t = Some i \<longleftrightarrow> rs_slot_of r' i p t)"
    using ef
  proof (cases rule: rk_effect.cases)
    case failed
    then show ?thesis
      using p mp s' own rk_failed_frame [OF failed(2)] by simp
  next
    case (entered i)
    have i: "i < MAX_READER_LOCKS" "\<not> lr_used (rs_readers ?r ! i)"
      using free_reader_from_Some [OF entered(6)] len by auto
    then have no: "\<not> rs_slot_of ?r i q u" for q u
      by (simp add: rs_slot_of_def)
    have none: "\<not> rs_slot_of ?r j (ce_pid e) (ce_tid e)" for j
      using entered(5) mp yinv_slot [OF inv] by (metis option.distinct(1))
    have r': "rs_slot_of r' j q u \<longleftrightarrow> (if j = i then q = ce_pid e \<and> u = ce_tid e else rs_slot_of ?r j q u)" for j q u
      using entered(2) len i by (simp add: rs_slot_of_enter)
    have m': "ys_map s' q u = (if q = ce_pid e \<and> u = ce_tid e then Some i else ys_map s q u)" for q u
      using entered(1) s' own by (simp add: AList.update_conv')
    have "ys_map s' q u = Some j \<longleftrightarrow> rs_slot_of r' j q u" for q u j
      using m' r' mp no none by (cases "q = ce_pid e \<and> u = ce_tid e"; cases "j = i") auto
    then show ?thesis using entered(1) p by simp
  next
    case (dropped i now)
    have i: "rs_slot_of ?r i (ce_pid e) (ce_tid e)"
      using dropped(3) mp yinv_slot [OF inv] by simp
    have ot: "rs_slot_of ?r j (ce_pid e) (ce_tid e) \<Longrightarrow> j = i" for j
      using i mp by (metis option.inject)
    have r': "rs_slot_of r' j q u \<longleftrightarrow> j \<noteq> i \<and> rs_slot_of ?r j q u" for j q u
      using dropped(2) len by (simp add: rs_slot_of_drop)
    have m': "ys_map s' q u = (if q = ce_pid e \<and> u = ce_tid e then None else ys_map s q u)" for q u
      using dropped(1) s' own by (simp add: AList.delete_conv')
    have "ys_map s' q u = Some j \<longleftrightarrow> rs_slot_of r' j q u" for q u j
    proof (cases "q = ce_pid e \<and> u = ce_tid e")
      case True
      then show ?thesis using m' r' ot by auto
    next
      case False
      then have "rs_slot_of ?r j q u \<Longrightarrow> j \<noteq> i"
        using i rs_slot_of_unique by blast
      then show ?thesis using False m' r' mp by auto
    qed
    then show ?thesis using dropped(1) p by simp
  qed (use p mp s' own in simp_all)
  then show ?thesis
    using inv k ok' s' by (simp add: yinv_def)
qed

lemma yreach_inv: "yreach k s \<Longrightarrow> yinv k s"
proof (induction rule: yreach.induct)
  case (init t now name obj)
  then show ?case
    by (simp add: yinv_def ys_rec_def ys_map_def rs_slot_of_fresh)
next
  case (step s e s')
  then show ?case by (blast intro: yinv_step)
qed

subsection \<open>The abstract lock\<close>

text \<open>
  What the lock promises: at most one writing process, readers only without a writer, and nobody
  but the holder ends a hold. A step of the abstract lock is taken by one thread of one process.
\<close>

record rw_spec =
  sp_writer :: "pid option"
  sp_readers :: "(pid \<times> tid) set"

inductive spec_step :: "pid \<Rightarrow> tid \<Rightarrow> rw_spec \<Rightarrow> rw_spec \<Rightarrow> bool" for p t where
  idle: "spec_step p t s s"
| start_write: "sp_writer s = None \<Longrightarrow> sp_readers s = {} \<Longrightarrow> spec_step p t s (s\<lparr>sp_writer := Some p\<rparr>)"
| end_write: "sp_writer s = Some p \<Longrightarrow> spec_step p t s (s\<lparr>sp_writer := None\<rparr>)"
| start_read: "sp_writer s = None \<Longrightarrow> spec_step p t s (s\<lparr>sp_readers := insert (p, t) (sp_readers s)\<rparr>)"
| end_read: "spec_step p t s (s\<lparr>sp_readers := sp_readers s - {(p, t)}\<rparr>)"

definition ys_abs :: "nat \<Rightarrow> rw_sys \<Rightarrow> rw_spec" where
  "ys_abs k s = \<lparr>sp_writer = (if ws_write_locked (rs_w (ys_rec k s))
       then Some (ow_process_id (ws_owner (rs_w (ys_rec k s)))) else None),
     sp_readers = {(p, t). ys_map s p t \<noteq> None}\<rparr>"

lemma yinv_no_reader:
  assumes inv: "yinv k s" and c: "rs_reader_count (ys_rec k s) = 0"
  shows "ys_map s p t = None"
proof (rule ccontr)
  assume "ys_map s p t \<noteq> None"
  then obtain i where "rs_slot_of (ys_rec k s) i p t"
    using inv by (auto simp: yinv_def)
  then show False
    using inv c rs_used_readers_pos [of i "ys_rec k s"] by (simp add: yinv_def rs_ok_def rs_slot_of_def)
qed

lemma ystep_abs:
  assumes inv: "yinv k s" and st: "ystep e s s'"
  shows "spec_step (ce_pid e) (ce_tid e) (ys_abs k s) (ys_abs k s')"
proof -
  let ?l = "ys_obj s (ce_pid e)" and ?r = "ys_rec k s"
  have k: "k < length (rt_locks (ys_table s))" and p: "rk_lock_struct ?l = Some k"
    using inv by (simp_all add: yinv_def)
  obtain l' r' where ef: "rk_effect e ?l ?r l' r'"
    and s': "s' = ys_put s (ce_pid e) (l', rt_store (ys_table s) (Some k) r')"
    using ystep_effect [OF st k p] by blast
  have own: "map_of (rk_reader_threads ?l) t = ys_map s (ce_pid e) t" for t
    by (simp add: ys_map_def)
  have rec: "ys_rec k s' = r'" using s' k by simp
  have same: "ys_abs k s' = ys_abs k s"
    if "ws_write_locked (rs_w r') = ws_write_locked (rs_w ?r)" "ws_owner (rs_w r') = ws_owner (rs_w ?r)"
      "rk_reader_threads l' = rk_reader_threads ?l"
  proof -
    have "ys_map s' q t = ys_map s q t" for q t using that(3) s' own by simp
    then show ?thesis using that(1,2) rec by (simp add: ys_abs_def)
  qed
  show ?thesis
    using ef
  proof (cases rule: rk_effect.cases)
    case failed
    then show ?thesis using same rk_failed_frame [OF failed(2)] spec_step.idle by simp
  next
    case touched
    then show ?thesis using same spec_step.idle by simp
  next
    case (taken uuid owner now)
    have "ys_map s q t = None" "ys_map s' q t = None" for q t
      using yinv_no_reader [OF inv taken(4)] taken(1) s' own by simp_all
    moreover have "ws_write_locked (rs_w r')" "ow_process_id (ws_owner (rs_w r')) = ce_pid e"
      using taken(2) by (simp_all add: rs_take_write_def Let_def)
    ultimately have "ys_abs k s' = (ys_abs k s)\<lparr>sp_writer := Some (ce_pid e)\<rparr>"
      "sp_writer (ys_abs k s) = None" "sp_readers (ys_abs k s) = {}"
      using taken(3) rec by (simp_all add: ys_abs_def)
    then show ?thesis using spec_step.start_write by simp
  next
    case (entered i now)
    have "ys_map s' q u = (if q = ce_pid e \<and> u = ce_tid e then Some i else ys_map s q u)" for q u
      using entered(1) s' own by (simp add: AList.update_conv')
    then have "ys_abs k s' = (ys_abs k s)\<lparr>sp_readers := insert (ce_pid e, ce_tid e) (sp_readers (ys_abs k s))\<rparr>"
      "sp_writer (ys_abs k s) = None"
      using entered(2,3) rec by (auto simp: ys_abs_def rs_enter_reader_def)
    then show ?thesis using spec_step.start_read by simp
  next
    case (dropped i now)
    have "ys_map s' q u = (if q = ce_pid e \<and> u = ce_tid e then None else ys_map s q u)" for q u
      using dropped(1) s' own by (simp add: AList.delete_conv')
    moreover have "ws_write_locked (rs_w r') = ws_write_locked (rs_w ?r)" "ws_owner (rs_w r') = ws_owner (rs_w ?r)"
      using dropped(2) by (simp_all add: rs_drop_reader_def rs_set_reader_def)
    ultimately have "ys_abs k s' = (ys_abs k s)\<lparr>sp_readers := sp_readers (ys_abs k s) - {(ce_pid e, ce_tid e)}\<rparr>"
      using rec by (auto simp: ys_abs_def)
    then show ?thesis using spec_step.end_read by simp
  next
    case (released now)
    have "ys_map s' q t = ys_map s q t" for q t using released(1) s' own by simp
    then have "ys_abs k s' = (ys_abs k s)\<lparr>sp_writer := None\<rparr>" "sp_writer (ys_abs k s) = Some (ce_pid e)"
      using released(2,3) rec
      by (simp_all add: ys_abs_def rs_release_write_def wk_release_struct_def rs_owned_def)
    then show ?thesis using spec_step.end_write by simp
  qed
qed

subsection \<open>A writer's session\<close>

text \<open>
  The interface \<open>lock_session\<close> that the data blocks rely on is provided by this lock as well: while
  its thread asks often enough, a writer keeps the lock, and its release frees the record.
\<close>

definition rk_session :: "call_env \<Rightarrow> read_write_lock \<times> rw_lock_table \<Rightarrow> bool" where
  "rk_session e s \<longleftrightarrow> (\<exists>r. rk_live (ce_now e) (fst s) (snd s) r \<and> rs_owned e (rk_txn_id (fst s)) (rs_w r))"

definition rk_near :: "call_env \<Rightarrow> call_env \<Rightarrow> bool" where
  "rk_near e e' \<longleftrightarrow> ce_pid e' = ce_pid e \<and> ce_tid e' = ce_tid e \<and> ce_now e' - ce_now e < RW_LOCK_EXPIRY"

definition rk_releasable :: "read_write_lock \<times> rw_lock_table \<Rightarrow> bool" where
  "rk_releasable s \<longleftrightarrow> rk_txn_id (fst s) \<noteq> []"

definition rk_unlocked :: "read_write_lock \<times> rw_lock_table \<Rightarrow> bool" where
  "rk_unlocked s \<longleftrightarrow> (\<exists>r. rt_record (snd s) (rk_lock_struct (fst s)) = Some r \<and> \<not> ws_write_locked (rs_w r))"

definition rk_touched :: "call_env \<Rightarrow> read_write_lock \<times> rw_lock_table \<Rightarrow> read_write_lock \<times> rw_lock_table" where
  "rk_touched e s = (case rt_record (snd s) (rk_lock_struct (fst s)) of None \<Rightarrow> s
     | Some r \<Rightarrow> (fst s, rt_store (snd s) (rk_lock_struct (fst s)) (rs_touch (ce_now e) r)))"

lemma rk_session_has:
  assumes "rk_session e s"
  shows "rk_has_write_lock e s = (Inr True, rk_touched e s)"
proof -
  obtain r where r: "rk_live (ce_now e) (fst s) (snd s) r" "rs_owned e (rk_txn_id (fst s)) (rs_w r)"
    using assms by (auto simp: rk_session_def)
  then show ?thesis
    using rk_has_write_lock_live [OF r(1)] rk_live_record [OF r(1)] by (simp add: rk_touched_def)
qed

lemma rk_session_touched:
  assumes "rk_session e s" "rk_near e e'"
  shows "rk_session e' (rk_touched e s)"
proof -
  obtain r where r: "rk_live (ce_now e) (fst s) (snd s) r" "rs_owned e (rk_txn_id (fst s)) (rs_w r)"
    using assms by (auto simp: rk_session_def)
  note rec = rk_live_record [OF r(1)]
  have "rk_live (ce_now e') (fst s) (snd (rk_touched e s)) (rs_touch (ce_now e) r)"
    using r(1) rec assms(2) by (simp add: rk_touched_def rk_live_def rk_simps rk_near_def)
  moreover have "rs_owned e' (rk_txn_id (fst s)) (rs_w (rs_touch (ce_now e) r))"
    using r(2) assms(2) by (simp add: rk_near_def rs_owned_def)
  moreover have "fst (rk_touched e s) = fst s"
    using rec by (simp add: rk_touched_def)
  ultimately show ?thesis
    unfolding rk_session_def by auto
qed

lemma rk_touched_twice: "rk_session e s \<Longrightarrow> rk_touched e (rk_touched e s) = rk_touched e s"
  by (auto simp: rk_session_def rk_touched_def rk_simps dest!: rk_live_record)

lemma rk_session_release:
  assumes "rk_session e s" "rk_releasable s"
  shows "fst (rk_release_write_lock True e s) = Inr True \<and> rk_unlocked (snd (rk_release_write_lock True e s))"
proof -
  obtain r where r: "rk_live (ce_now e) (fst s) (snd s) r" "rs_owned e (rk_txn_id (fst s)) (rs_w r)"
    using assms by (auto simp: rk_session_def)
  have "ws_write_locked (rs_w r)"
    using r(2) by (simp add: rs_owned_def)
  then show ?thesis
    using release_write_live [OF r(1)] rk_live_record [OF r(1)] r(2) assms(2)
    by (simp add: rk_releasable_def rk_unlocked_def Let_def rk_simps rs_release_write_def wk_release_struct_def)
qed

lemma rk_near_refl: "rk_near e e"
  by (simp add: rk_near_def RW_LOCK_EXPIRY_def)

interpretation rwl: lock_session rk_has_write_lock "rk_release_write_lock True" rk_session
  rk_releasable rk_unlocked rk_near
proof unfold_locales
  fix e e' :: call_env and s :: "read_write_lock \<times> rw_lock_table"
  show "rk_near e e" by (rule rk_near_refl)
  assume ses: "rk_session e s"
  show "fst (rk_has_write_lock e s) = Inr True"
    by (simp add: rk_session_has [OF ses])
  show "rk_session e' (snd (rk_has_write_lock e s))" if "rk_near e e'"
    using rk_session_touched [OF ses that] by (simp add: rk_session_has [OF ses])
  show "rk_has_write_lock e (snd (rk_has_write_lock e s)) = (Inr True, snd (rk_has_write_lock e s))"
    using rk_session_has [OF rk_session_touched [OF ses rk_near_refl]] rk_touched_twice [OF ses]
    by (simp add: rk_session_has [OF ses])
  show "rk_releasable (snd (rk_has_write_lock e s))" if "rk_releasable s"
    using that by (simp add: rk_session_has [OF ses] rk_releasable_def rk_touched_def split: option.split)
  show "fst (rk_release_write_lock True e s) = Inr True \<and> rk_unlocked (snd (rk_release_write_lock True e s))"
    if "rk_releasable s"
    by (rule rk_session_release [OF ses that])
qed

subsection \<open>Properties\<close>

lemma has_write_lock_True:
  assumes "fst (rk_has_write_lock e (l, t)) = Inr True"
  shows "\<exists>r. rk_live (ce_now e) l t r \<and> rs_owned e (rk_txn_id l) (rs_w r)"
proof (cases "\<exists>r. rk_live (ce_now e) l t r")
  case True
  then show ?thesis using assms by (auto simp: rk_has_write_lock_live)
next
  case False
  then show ?thesis using assms by (elim rk_has_write_lock_dead) simp
qed

lemma has_thread_lock_True:
  assumes "fst (rk_has_thread_lock e tid (l, t)) = Inr True"
  shows "\<exists>r. rk_live (ce_now e) l t r \<and> rk_slot tid l r \<noteq> None"
proof (cases "\<exists>r. rk_live (ce_now e) l t r")
  case True
  then show ?thesis using assms by (auto simp: rk_has_thread_lock_live)
next
  case False
  then show ?thesis using assms by (elim rk_has_thread_lock_dead [of e l t tid]) simp
qed

lemma yinv_live: "yinv k s \<Longrightarrow> rk_live now (ys_obj s p) (ys_table s) r \<Longrightarrow> r = ys_rec k s"
  by (auto simp: yinv_def rk_live_def rt_record_def ys_rec_def)

text \<open>C30. Every call of a thread on the shared read/write lock, in a
  state reached by such calls, is a step of the abstract lock by that thread: it starts to write
  only when nobody reads or writes, starts to read only when nobody writes, and ends no hold but
  its own process's write or its own read.\<close>

theorem rw_lock_refines:
  assumes "yreach k s" "ystep e s s'"
  shows "spec_step (ce_pid e) (ce_tid e) (ys_abs k s) (ys_abs k s')"
  using ystep_abs [OF yreach_inv [OF assms(1)] assms(2)] .

text \<open>C29. In a reachable state, when \<open>has_write_lock\<close> answers yes to a thread,
  \<open>has_thread_lock\<close> answers yes to no thread of any process, \<open>has_write_lock\<close> answers yes to no
  thread of another process, and no reader is counted.\<close>

theorem rw_lock_exclusion:
  assumes "yreach k s" "fst (rk_has_write_lock e (ys_state s (ce_pid e))) = Inr True"
  shows "fst (rk_has_thread_lock e' tid (ys_state s p)) \<noteq> Inr True
    \<and> (fst (rk_has_write_lock e' (ys_state s (ce_pid e'))) = Inr True \<longrightarrow> ce_pid e' = ce_pid e)
    \<and> rs_reader_count (ys_rec k s) = 0"
proof -
  note inv = yreach_inv [OF assms(1)]
  have own: "rs_owned f (rk_txn_id (ys_obj s (ce_pid f))) (rs_w (ys_rec k s))"
    if "fst (rk_has_write_lock f (ys_state s (ce_pid f))) = Inr True" for f
    using has_write_lock_True [of f "ys_obj s (ce_pid f)" "ys_table s"] that yinv_live [OF inv]
    by (auto simp: ys_state_def)
  have o: "rs_owned e (rk_txn_id (ys_obj s (ce_pid e))) (rs_w (ys_rec k s))"
    by (rule own [OF assms(2)])
  then have c: "rs_reader_count (ys_rec k s) = 0"
    using inv by (simp add: yinv_def rs_ok_def rs_owned_def)
  have "fst (rk_has_thread_lock e' tid (ys_state s p)) \<noteq> Inr True"
  proof
    assume "fst (rk_has_thread_lock e' tid (ys_state s p)) = Inr True"
    then have "rk_slot tid (ys_obj s p) (ys_rec k s) \<noteq> None"
      using has_thread_lock_True [of e' tid "ys_obj s p" "ys_table s"] yinv_live [OF inv]
      by (auto simp: ys_state_def)
    then show False
      using yinv_slot [OF inv] yinv_no_reader [OF inv c] by simp
  qed
  then show ?thesis
    using c o own [of e'] by (auto simp: rs_owned_def)
qed

subsection \<open>Concrete states\<close>

definition demo_rw_obj :: read_write_lock where
  "demo_rw_obj = read_write_lock_new\<lparr>rk_state := set_state Available state_new,
     rk_lock_struct := Some 0, rk_name := ''a''\<rparr>"

definition demo_rw_table :: rw_lock_table where
  "demo_rw_table = \<lparr>rt_version = (0, 1), rt_max_count = 1, rt_used_count = 1,
     rt_locks = [rs_touch 100 (fresh_rw_lock ''a'')]\<rparr>"

definition demo_rw_sys :: rw_sys where
  "demo_rw_sys = \<lparr>ys_obj = (\<lambda>_. demo_rw_obj), ys_table = demo_rw_table\<rparr>"

definition demo_rw_env :: call_env where
  "demo_rw_env = \<lparr>ce_pid = 7, ce_tid = ''t1'', ce_now = 200\<rparr>"

lemma demo_rw_reach: "yreach 0 demo_rw_sys"
  unfolding demo_rw_sys_def
  by (rule yreach.init [where now = 100 and name = "''a''"])
    (simp_all add: demo_rw_table_def demo_rw_obj_def read_write_lock_new_def)

lemma demo_rw_live: "rk_live 200 demo_rw_obj demo_rw_table (rs_touch 100 (fresh_rw_lock ''a''))"
  by (simp add: rk_live_def demo_rw_obj_def demo_rw_table_def read_write_lock_new_def rt_record_def
      state_simps fresh_rw_lock_def RW_LOCK_EXPIRY_def)

text \<open>The state after process 7 took the write lock.\<close>

definition demo_rw_written :: rw_sys where
  "demo_rw_written = ys_put demo_rw_sys 7 (demo_rw_obj\<lparr>rk_txn_id := ''tx''\<rparr>,
     rt_store demo_rw_table (Some 0) (rs_take_write demo_rw_env ''u'' ''tx'' (rs_touch 200 (fresh_rw_lock ''a''))))"

lemma demo_rw_write: "ystep demo_rw_env demo_rw_sys demo_rw_written"
proof -
  have "rk_write_attempt ''u'' ''tx'' demo_rw_env (demo_rw_obj, demo_rw_table) =
      (Inr True, (demo_rw_obj\<lparr>rk_txn_id := ''tx''\<rparr>,
        rt_store demo_rw_table (Some 0) (rs_take_write demo_rw_env ''u'' ''tx'' (rs_touch 200 (fresh_rw_lock ''a'')))))"
    using rk_write_attempt_live [of demo_rw_env demo_rw_obj demo_rw_table _ "''u''" "''tx''"] demo_rw_live
    by (simp add: demo_rw_env_def Let_def rs_owned_def fresh_rw_lock_def zero_rw_lock_def zero_w_lock_def demo_rw_obj_def)
  then show ?thesis
    using ystep.write_try [of "''u''" "''tx''" demo_rw_env demo_rw_sys]
    by (simp add: ys_state_def demo_rw_sys_def demo_rw_written_def demo_rw_env_def)
qed

lemma demo_rw_session: "rk_session demo_rw_env (ys_state demo_rw_written 7)"
  unfolding rk_session_def
  by (rule exI [of _ "rs_take_write demo_rw_env ''u'' ''tx'' (rs_touch 200 (fresh_rw_lock ''a''))"])
    (simp add: ys_state_def demo_rw_written_def ys_put_def rk_live_def demo_rw_sys_def demo_rw_obj_def
      demo_rw_table_def read_write_lock_new_def rt_record_def rt_store_def state_simps
      rs_take_write_def fresh_rw_lock_def RW_LOCK_EXPIRY_def rs_owned_def demo_rw_env_def Let_def)

theorem rw_lock_refines_witness: "spec_step 7 ''t1'' (ys_abs 0 demo_rw_sys) (ys_abs 0 demo_rw_written)"
  using rw_lock_refines [OF demo_rw_reach demo_rw_write] by (simp add: demo_rw_env_def)

theorem rw_lock_exclusion_witness:
  "fst (rk_has_thread_lock demo_rw_env ''t2'' (ys_state demo_rw_written 8)) \<noteq> Inr True"
proof -
  have "fst (rk_has_write_lock demo_rw_env (ys_state demo_rw_written (ce_pid demo_rw_env))) = Inr True"
    using rk_session_has [OF demo_rw_session] by (simp add: demo_rw_env_def)
  then show ?thesis
    using rw_lock_exclusion [OF yreach.step [OF demo_rw_reach demo_rw_write]] by blast
qed

text \<open>While the writer of a read/write lock asks for it often enough, it keeps
  it, and its release at the end succeeds and leaves the record unlocked.\<close>

theorem rw_write_session:
  assumes "rk_session e s" "rk_releasable s" "rwl.nears e (es @ [e'])"
  shows "fst (rk_release_write_lock True e' (rwl.ask (e # es) s)) = Inr True
    \<and> rk_unlocked (snd (rk_release_write_lock True e' (rwl.ask (e # es) s)))"
  using rwl.ask_then_release [OF assms] .

theorem rw_write_session_witness:
  "fst (rk_release_write_lock True (demo_rw_env\<lparr>ce_now := 300\<rparr>) (rwl.ask [demo_rw_env] (ys_state demo_rw_written 7))) = Inr True"
proof -
  have n: "rwl.nears demo_rw_env ([] @ [demo_rw_env\<lparr>ce_now := 300\<rparr>])"
    by (simp add: rk_near_def demo_rw_env_def RW_LOCK_EXPIRY_def)
  have "rk_releasable (ys_state demo_rw_written 7)"
    by (simp add: rk_releasable_def ys_state_def demo_rw_written_def)
  then show ?thesis
    using rw_write_session [OF demo_rw_session _ n] by simp
qed

end
