(* ===== verification/RwClient.thy ===== *)
theory RwClient
  imports RwSystem WriteClient
begin

section \<open>The read/write-lock client and manager of a process\<close>

text \<open>
  common/includes/read_write_lock_client.h, common/src/read_write_lock_client.cpp,
  common/includes/read_write_lock_manager.h and common/src/read_write_lock_manager.cpp. As for the
  write locks, a pointer to a lock object is its name in the registry. The manager's thread is a
  list of passes, each with the clock it reads.
\<close>

record rw_client =
  rc_state :: inst_state
  rc_locks :: "(string \<times> read_write_lock) list"
  rc_table :: rw_lock_table

definition rc_find :: "rw_client \<Rightarrow> string \<Rightarrow> read_write_lock option" where
  "rc_find c name = map_of (rc_locks c) name"

definition rc_store :: "string \<Rightarrow> read_write_lock \<Rightarrow> rw_client \<Rightarrow> rw_client" where
  "rc_store name l c = c\<lparr>rc_locks := AList.update name l (rc_locks c)\<rparr>"

definition rc_set_error :: "exc \<Rightarrow> rw_client \<Rightarrow> rw_client" where
  "rc_set_error e c = c\<lparr>rc_state := set_error e (rc_state c)\<rparr>"

definition rc_check_available :: "(unit, rw_client) cmd" where
  "rc_check_available = c_check State_unavailable (\<lambda>c. is_available (rc_state c))"

text \<open>\<open>rc_call name m\<close>: a method of the lock object behind a pointer.\<close>

definition rc_call :: "string \<Rightarrow> 'a rk_cmd \<Rightarrow> ('a, rw_client) cmd" where
  "rc_call name m c =
     (case rc_find c name of
        None \<Rightarrow> (Inl Mem_fault, c)
      | Some l \<Rightarrow> (case m (l, rc_table c) of
            (r, (l', t')) \<Rightarrow> (r, (rc_store name l' c)\<lparr>rc_table := t'\<rparr>)))"

definition rc_create :: "bool \<Rightarrow> bool \<Rightarrow> (unit, rw_client) cmd" where
  "rc_create is_manager reset c =
     (case rt_create is_manager reset (rc_table c) of
        (Inl _, t) \<Rightarrow> (Inl Lock_error, rc_set_error Lock_error (c\<lparr>rc_table := t\<rparr>))
      | (Inr _, t) \<Rightarrow> (Inr (), c\<lparr>rc_table := t, rc_state := set_state Available (rc_state c)\<rparr>))"

definition rc_add_lock :: "bool \<Rightarrow> time \<Rightarrow> string \<Rightarrow> (string, rw_client) cmd" where
  "rc_add_lock got now name =
     c_bind rc_check_available (\<lambda>_.
     c_bind (\<lambda>c. case rc_find c name of
         Some l \<Rightarrow> (Inr (), c)
       | None \<Rightarrow>
           (case rk_create got now name (read_write_lock_new, rc_table c) of
              (Inl x, (_, t)) \<Rightarrow> (Inl x, c\<lparr>rc_table := t\<rparr>)
            | (Inr _, (l, t)) \<Rightarrow> (Inr (), (rc_store name l c)\<lparr>rc_table := t\<rparr>))) (\<lambda>_.
     c_bind (rc_call name rk_increment_ref_count) (\<lambda>_. c_ret name)))"

definition rc_release_held :: "bool \<Rightarrow> call_env \<Rightarrow> string \<Rightarrow> (unit, rw_client) cmd" where
  "rc_release_held got e name =
     c_bind (rc_call name (rk_has_write_lock e)) (\<lambda>w.
     c_bind (if w then c_bind (rc_call name (rk_release_write_lock got e)) (\<lambda>_. c_ret ()) else c_ret ()) (\<lambda>_.
     c_bind (rc_call name (rk_has_thread_lock e (ce_tid e))) (\<lambda>r.
     if r then c_bind (rc_call name (rk_release_read_lock got e)) (\<lambda>_. c_ret ()) else c_ret ())))"

definition rc_table_remove :: "bool \<Rightarrow> string \<Rightarrow> (bool, rw_client) cmd" where
  "rc_table_remove got name c =
     (case rt_remove_lock got name (rc_table c) of (r, t) \<Rightarrow> (r, c\<lparr>rc_table := t\<rparr>))"

definition rc_remove_lock :: "bool \<Rightarrow> call_env \<Rightarrow> string \<Rightarrow> (bool, rw_client) cmd" where
  "rc_remove_lock got e name =
     c_bind rc_check_available (\<lambda>_ c.
     if rc_find c name = None then (Inr False, c)
     else
       c_bind (rc_release_held got e name) (\<lambda>_.
       c_bind (rc_call name rk_decrement_ref_count) (\<lambda>rc.
       if rc = 0
       then c_bind (rc_table_remove got name) (\<lambda>ret.
            c_bind (rc_call name (rk_destroy got e)) (\<lambda>_ c2.
              (Inr ret, c2\<lparr>rc_locks := AList.delete name (rc_locks c2)\<rparr>)))
       else c_ret False)) c)"

fun rc_drop_locks :: "bool \<Rightarrow> call_env \<Rightarrow> string list \<Rightarrow> (unit, rw_client) cmd" where
  "rc_drop_locks got e [] = c_ret ()"
| "rc_drop_locks got e (name # ns) =
     c_bind (rc_table_remove got name) (\<lambda>_.
     c_bind (rc_call name (rk_destroy got e)) (\<lambda>_. rc_drop_locks got e ns))"

definition rc_destroy :: "bool \<Rightarrow> call_env \<Rightarrow> (unit, rw_client) cmd" where
  "rc_destroy got e c = rc_drop_locks got e (map fst (rc_locks c))
     (c\<lparr>rc_state := set_state Disposed (rc_state c)\<rparr>)"

definition rc_get_error :: "rw_client \<Rightarrow> exc option" where
  "rc_get_error c = (if has_error (rc_state c) then get_error (rc_state c) else None)"

subsection \<open>The manager\<close>

definition DEFAULT_READ_LOCK_TIMEOUT :: time where "DEFAULT_READ_LOCK_TIMEOUT = 5 * 60 * 1000"
definition DEFAULT_LOCK_MGR_SLEEP :: time where "DEFAULT_LOCK_MGR_SLEEP = 30 * 1000"

definition rm_expire_write :: "time \<Rightarrow> rw_lock_struct \<Rightarrow> rw_lock_struct" where
  "rm_expire_write now r =
     (if ws_write_locked (rs_w r) \<and> now - ow_lock_timestamp (ws_owner (rs_w r)) > DEFAULT_WRITE_LOCK_TIMEOUT
      then r\<lparr>rs_w := wm_clear_owner (rs_w r)\<rparr> else r)"

text \<open>The loop over the slots reads the time stamp through \<open>r_ptr\<close>, which stays at slot 0.\<close>

definition rm_expire_reader :: "time \<Rightarrow> rw_lock_struct \<Rightarrow> nat \<Rightarrow> rw_lock_struct" where
  "rm_expire_reader now r ii =
     (if lr_used (rs_readers r ! ii)
         \<and> now - lr_lock_timestamp (rs_readers r ! 0) > DEFAULT_READ_LOCK_TIMEOUT
      then rs_drop_reader ii r else r)"

definition rm_expire_readers :: "time \<Rightarrow> rw_lock_struct \<Rightarrow> rw_lock_struct" where
  "rm_expire_readers now r = foldl (rm_expire_reader now) r [0..<MAX_READER_LOCKS]"

definition rm_check_one :: "bool \<Rightarrow> time \<Rightarrow> nat \<Rightarrow> (unit, rw_lock_table) cmd" where
  "rm_check_one got now ii t =
     (case rt_get_at t ii of
        Inl e \<Rightarrow> (Inl e, t)
      | Inr None \<Rightarrow> (Inr (), t)
      | Inr (Some i) \<Rightarrow>
          (let r = rm_expire_readers now (rm_expire_write now (rt_locks t ! i));
               t1 = t\<lparr>rt_locks := (rt_locks t)[i := r]\<rparr> in
           if ws_ref_count (rs_w r) \<le> 0 \<and> now - ws_last_used (rs_w r) \<ge> RW_LOCK_EXPIRY
           then c_bind (rt_remove_lock got (ws_name (rs_w r))) (\<lambda>_. c_ret ()) t1
           else (Inr (), t1)))"

fun rm_check_from :: "bool \<Rightarrow> time \<Rightarrow> nat list \<Rightarrow> (unit, rw_lock_table) cmd" where
  "rm_check_from got now [] = c_ret ()"
| "rm_check_from got now (i # is) = c_bind (rm_check_one got now i) (\<lambda>_. rm_check_from got now is)"

definition rm_check_lock_states :: "bool \<Rightarrow> time \<Rightarrow> (unit, rw_client) cmd" where
  "rm_check_lock_states got now c =
     (if is_available (rc_state c)
      then (case rm_check_from got now [0..<rt_max_count (rc_table c)] (rc_table c) of
              (r, t) \<Rightarrow> (r, c\<lparr>rc_table := t\<rparr>))
      else (Inr (), c))"

definition rm_reset_write :: "(pid \<Rightarrow> bool) \<Rightarrow> time \<Rightarrow> rw_lock_struct \<Rightarrow> rw_lock_struct" where
  "rm_reset_write alive now r =
     (if ws_write_locked (rs_w r)
      then (if \<not> alive (ow_process_id (ws_owner (rs_w r))) then r\<lparr>rs_w := wm_clear_owner (rs_w r)\<rparr>
            else rm_expire_write now r)
      else r)"

definition rm_reset_reader :: "(pid \<Rightarrow> bool) \<Rightarrow> time \<Rightarrow> time \<Rightarrow> lock_reader \<Rightarrow> lock_reader" where
  "rm_reset_reader alive now stamp0 x =
     (if lr_used x
      then (if \<not> alive (lr_process_id x) then x\<lparr>lr_used := False\<rparr>
            else if now - stamp0 > DEFAULT_READ_LOCK_TIMEOUT then x\<lparr>lr_used := False\<rparr> else x)
      else x)"

definition rm_reset_readers :: "(pid \<Rightarrow> bool) \<Rightarrow> time \<Rightarrow> rw_lock_struct \<Rightarrow> rw_lock_struct" where
  "rm_reset_readers alive now r =
     (let rs = map (rm_reset_reader alive now (lr_lock_timestamp (rs_readers r ! 0))) (rs_readers r) in
      r\<lparr>rs_readers := rs, rs_reader_count := length (filter lr_used rs)\<rparr>)"

definition rm_reset_record :: "(pid \<Rightarrow> bool) \<Rightarrow> time \<Rightarrow> rw_lock_struct \<Rightarrow> rw_lock_struct" where
  "rm_reset_record alive now r =
     (if ws_used (rs_w r) then rm_reset_readers alive now (rm_reset_write alive now r) else r)"

definition rm_reset :: "(pid \<Rightarrow> bool) \<Rightarrow> time \<Rightarrow> (unit, rw_client) cmd" where
  "rm_reset alive now =
     c_bind rc_check_available (\<lambda>_ c.
     let t = rc_table c; n = rt_max_count t in
     if n \<le> length (rt_locks t)
     then (Inr (), c\<lparr>rc_table := t\<lparr>rt_locks :=
             map (rm_reset_record alive now) (take n (rt_locks t)) @ drop n (rt_locks t)\<rparr>\<rparr>)
     else (Inl Mem_fault, c))"

definition rm_init :: "bool \<Rightarrow> (pid \<Rightarrow> bool) \<Rightarrow> time \<Rightarrow> (unit, rw_client) cmd" where
  "rm_init reset alive now c =
     (case c_bind (rc_create True reset) (\<lambda>_. c_when reset (rm_reset alive now)) c of
        (Inl _, c') \<Rightarrow> (Inl Lock_error, rc_set_error Lock_error c')
      | (Inr _, c') \<Rightarrow> (Inr (), c'))"

text \<open>
  A pass of the manager thread ends the thread and puts the manager in error when it throws; the
  thread sleeps between passes and stops when the manager is no longer available. The callback of
  the shared thread pool makes the same pass.
\<close>

definition rm_callback :: "bool \<Rightarrow> time \<Rightarrow> rw_client \<Rightarrow> rw_client" where
  "rm_callback got now c =
     (if is_available (rc_state c)
      then (case rm_check_lock_states got now c of
              (Inl e, c') \<Rightarrow> rc_set_error e c'
            | (Inr _, c') \<Rightarrow> c')
      else c)"

fun rm_run :: "(bool \<times> time) list \<Rightarrow> rw_client \<Rightarrow> rw_client" where
  "rm_run [] c = c"
| "rm_run ((got, now) # ps) c =
     (if is_available (rc_state c) then rm_run ps (rm_callback got now c) else c)"

definition rm_can_run :: "time \<Rightarrow> time \<Rightarrow> bool" where
  "rm_can_run last_run_time now \<longleftrightarrow> now - last_run_time \<ge> DEFAULT_LOCK_MGR_SLEEP"

subsection \<open>The manager keeps the records in order\<close>

definition lr_clear :: "lock_reader \<Rightarrow> lock_reader" where
  "lr_clear x = x\<lparr>lr_used := False\<rparr>"

lemma lr_clear_simps [simp]:
  "\<not> lr_used (lr_clear x)" "lr_lock_timestamp (lr_clear x) = lr_lock_timestamp x"
  "\<not> lr_used x \<Longrightarrow> lr_clear x = x"
  by (simp_all add: lr_clear_def)

definition rm_old_readers :: "time \<Rightarrow> rw_lock_struct \<Rightarrow> bool" where
  "rm_old_readers now r \<longleftrightarrow> now - lr_lock_timestamp (rs_readers r ! 0) > DEFAULT_READ_LOCK_TIMEOUT"

lemma rm_expire_prefix:
  assumes ok: "rs_ok r" and old: "rm_old_readers now r" and n: "n \<le> MAX_READER_LOCKS"
  shows "foldl (rm_expire_reader now) r [0..<n] =
    r\<lparr>rs_readers := map lr_clear (take n (rs_readers r)) @ drop n (rs_readers r),
      rs_reader_count := length (filter lr_used (drop n (rs_readers r)))\<rparr>"
  using n
proof (induction n)
  case 0
  then show ?case using ok by (simp add: rs_ok_def rs_used_readers_def)
next
  case (Suc n)
  let ?rs = "rs_readers r"
  let ?c = "length (filter lr_used (drop (Suc n) ?rs))"
  have n: "n < length ?rs" and len: "length ?rs = 256"
    using Suc.prems ok by (simp_all add: rs_ok_def MAX_READER_LOCKS_def)
  let ?q = "r\<lparr>rs_readers := map lr_clear (take n ?rs) @ drop n ?rs,
    rs_reader_count := length (filter lr_used (drop n ?rs))\<rparr>"
  have d: "drop n ?rs = ?rs ! n # drop (Suc n) ?rs"
    using n by (simp add: Cons_nth_drop_Suc)
  have tk: "take (Suc n) ?rs = take n ?rs @ [?rs ! n]"
    using n by (rule take_Suc_conv_app_nth)
  have at_n: "rs_readers ?q ! n = ?rs ! n"
    using n by (simp add: nth_append)
  have ts: "lr_lock_timestamp (rs_readers ?q ! 0) = lr_lock_timestamp (?rs ! 0)"
    using n len by (cases n) (simp_all add: nth_append)
  have cnt: "Suc ?c < 2 ^ 64"
    using length_filter_le [of lr_used "drop (Suc n) ?rs"] len n by simp
  have "rm_expire_reader now ?q n = (if lr_used (?rs ! n) then rs_drop_reader n ?q else ?q)"
    using at_n ts old by (simp add: rm_expire_reader_def rm_old_readers_def)
  also have "\<dots> = r\<lparr>rs_readers := map lr_clear (take (Suc n) ?rs) @ drop (Suc n) ?rs, rs_reader_count := ?c\<rparr>"
  proof (cases "lr_used (?rs ! n)")
    case True
    have "sub64 (Suc ?c) 1 = ?c"
      using cnt sub64_le [of 1 "Suc ?c"] by simp
    then show ?thesis
      using True n by (simp add: d tk rs_drop_reader_def rs_set_reader_def lr_clear_def list_update_append nth_append)
  next
    case False
    then show ?thesis by (simp add: d tk)
  qed
  finally show ?case
    using Suc by simp
qed

lemma rm_expire_none: "\<not> rm_old_readers now r \<Longrightarrow> foldl (rm_expire_reader now) r ns = r"
  by (induction ns) (simp_all add: rm_expire_reader_def rm_old_readers_def)

lemma rm_expire_readers_eq:
  assumes "rs_ok r"
  shows "rm_expire_readers now r =
    (if rm_old_readers now r then r\<lparr>rs_readers := map lr_clear (rs_readers r), rs_reader_count := 0\<rparr> else r)"
  using rm_expire_prefix [OF assms, of now MAX_READER_LOCKS] rm_expire_none [of now r] assms
  by (simp add: rm_expire_readers_def rs_ok_def)

lemma rm_expire_readers_ok: "rs_ok r \<Longrightarrow> rs_ok (rm_expire_readers now r)"
  by (simp add: rm_expire_readers_eq) (simp add: rs_ok_def rs_used_readers_def)

lemma rm_expire_readers_frame [simp]:
  "rs_ok r \<Longrightarrow> rs_w (rm_expire_readers now r) = rs_w r"
  by (simp add: rm_expire_readers_eq)

lemma rs_ok_clear_owner: "rs_ok r \<Longrightarrow> rs_ok (r\<lparr>rs_w := wm_clear_owner (rs_w r)\<rparr>)"
  by (simp add: rs_ok_def rs_used_readers_def wm_clear_owner_def)

lemma rm_expire_write_ok: "rs_ok r \<Longrightarrow> rs_ok (rm_expire_write now r)"
  by (simp add: rm_expire_write_def rs_ok_clear_owner)

lemma rm_expire_write_frame [simp]:
  "ws_used (rs_w (rm_expire_write now r)) = ws_used (rs_w r)"
  "ws_name (rs_w (rm_expire_write now r)) = ws_name (rs_w r)"
  "ws_last_used (rs_w (rm_expire_write now r)) = ws_last_used (rs_w r)"
  "ws_ref_count (rs_w (rm_expire_write now r)) = ws_ref_count (rs_w r)"
  "rs_readers (rm_expire_write now r) = rs_readers r"
  by (simp_all add: rm_expire_write_def wm_clear_owner_def)

lemma rt_get_at_Some: "rt_ok t \<Longrightarrow> rt_get_at t ii = Inr (Some i) \<Longrightarrow> i = ii \<and> i < length (rt_locks t)"
  by (auto simp: rt_get_at_def split: if_splits)

lemma rm_check_one_ok:
  assumes ok: "rt_ok t" and run: "rm_check_one got now ii t = (x, t')"
  shows "rt_ok t'"
proof (cases "rt_get_at t ii")
  case (Inr p)
  show ?thesis
  proof (cases p)
    case (Some i)
    note i = rt_get_at_Some [OF ok Inr [unfolded Some]]
    let ?r = "rm_expire_readers now (rm_expire_write now (rt_locks t ! i))"
    let ?t = "t\<lparr>rt_locks := (rt_locks t)[i := ?r]\<rparr>"
    have "rs_ok (rt_locks t ! i)"
      using ok i by (simp add: rt_ok_def)
    then have r: "rs_ok (rm_expire_write now (rt_locks t ! i))"
      by (rule rm_expire_write_ok)
    have t1: "rt_ok ?t"
      using i r by (intro rt_ok_update [OF ok]) (simp_all add: rm_expire_readers_ok)
    consider "t' = ?t" | y where "rt_remove_lock got (ws_name (rs_w ?r)) ?t = (y, t')"
      using run Inr Some
      by (auto simp: rm_check_one_def Let_def c_bind_def c_ret_def split: if_splits prod.splits sum.splits)
    then show ?thesis
      by cases (use t1 rt_remove_lock_ok [OF t1] in auto)
  qed (use ok run Inr in \<open>simp add: rm_check_one_def\<close>)
qed (use ok run in \<open>simp add: rm_check_one_def\<close>)

lemma rm_check_from_ok: "rt_ok t \<Longrightarrow> rm_check_from got now is t = (x, t') \<Longrightarrow> rt_ok t'"
proof (induction "is" arbitrary: t)
  case Nil
  then show ?case by (simp add: cmd_simps)
next
  case (Cons i js)
  from Cons.prems(2) have "c_bind (rm_check_one got now i) (\<lambda>_. rm_check_from got now js) t = (x, t')"
    by simp
  then show ?case
    by (cases rule: c_bind_cases) (use Cons.IH rm_check_one_ok [OF Cons.prems(1)] in blast)+
qed

lemma rm_reset_record_ok: "rs_ok r \<Longrightarrow> rs_ok (rm_reset_record alive now r)"
proof -
  assume r: "rs_ok r"
  let ?w = "rm_reset_write alive now r"
  have w: "rs_ok ?w" "rs_readers ?w = rs_readers r"
    using r by (simp_all add: rm_reset_write_def rs_ok_clear_owner rm_expire_write_ok)
  have "filter (lr_used \<circ> rm_reset_reader alive now st) rs = []" if "filter lr_used rs = []" for st rs
    using that by (auto simp: filter_empty_conv rm_reset_reader_def)
  then show ?thesis
    using w r by (auto simp: rm_reset_record_def rm_reset_readers_def rs_ok_def rs_used_readers_def Let_def)
qed

lemma rm_reset_record_used [simp]: "ws_used (rs_w (rm_reset_record alive now r)) = ws_used (rs_w r)"
  by (simp add: rm_reset_record_def rm_reset_readers_def rm_reset_write_def wm_clear_owner_def Let_def)

lemma rm_reset_ok:
  assumes "rt_ok (rc_table c)"
  shows "rt_ok (rc_table (snd (rm_reset alive now c)))"
proof -
  have "filter (\<lambda>r. ws_used (rs_w r)) (map (rm_reset_record alive now) rs)
      = map (rm_reset_record alive now) (filter (\<lambda>r. ws_used (rs_w r)) rs)" for rs
    by (simp add: filter_map o_def)
  then show ?thesis
    using assms by (auto simp: rm_reset_def rc_check_available_def cmd_simps Let_def rt_ok_def rm_reset_record_ok)
qed

subsection \<open>Properties\<close>

text \<open>C31. Adding and removing locks, a pass of the manager and its reset, whether they
  succeed or not, keep the table in order: every record counts its used reader slots, a
  write-locked record has none, and the header counts the used records.\<close>

theorem rw_table_in_order:
  assumes "rt_ok (rc_table c)"
  shows "rt_ok (snd (rt_add_lock got name (rc_table c))) \<and> rt_ok (snd (rt_remove_lock got name (rc_table c)))
    \<and> rt_ok (rc_table (snd (rm_check_lock_states got now c))) \<and> rt_ok (rc_table (snd (rm_reset alive now c)))"
proof -
  have "rt_ok (rc_table (snd (rm_check_lock_states got now c)))"
    using assms rm_check_from_ok [OF assms, of got now "[0..<rt_max_count (rc_table c)]"]
    by (simp add: rm_check_lock_states_def del: upt_Suc split: prod.split)
  then show ?thesis
    using rm_reset_ok [OF assms, of alive now] rt_add_lock_ok [OF assms, of got name]
      rt_remove_lock_ok [OF assms, of got name] by (metis prod.collapse)
qed

definition demo_rw_client :: rw_client where
  "demo_rw_client = \<lparr>rc_state = set_state Available state_new, rc_locks = [(''a'', demo_rw_obj)],
     rc_table = demo_rw_table\<rparr>"

lemma demo_rw_table_ok: "rt_ok demo_rw_table"
  by (simp add: demo_rw_table_def rt_ok_def)

theorem rw_table_in_order_witness:
  "rt_ok (rc_table (snd (rm_check_lock_states True 1000 demo_rw_client)))"
  using rw_table_in_order [of demo_rw_client] demo_rw_table_ok by (simp add: demo_rw_client_def)

text \<open>The manager's pass over a record judges every reader slot by the time
  stamp of slot 0: all readers lose their lock when that one is old, however recent their own, and
  none does otherwise, however old.\<close>

theorem rw_manager_readers:
  assumes "rt_ok t" "i < length (rt_locks t)" "ws_used (rs_w (rt_locks t ! i))"
    and "now - ws_last_used (rs_w (rt_locks t ! i)) < RW_LOCK_EXPIRY" "j < MAX_READER_LOCKS"
  shows "lr_used (rs_readers (rt_locks (snd (rm_check_one got now i t)) ! i) ! j) \<longleftrightarrow>
    lr_used (rs_readers (rt_locks t ! i) ! j)
      \<and> now - lr_lock_timestamp (rs_readers (rt_locks t ! i) ! 0) \<le> DEFAULT_READ_LOCK_TIMEOUT"
proof -
  let ?w = "rm_expire_write now (rt_locks t ! i)"
  have r: "rs_ok (rt_locks t ! i)"
    using assms(1,2) by (simp add: rt_ok_def)
  then have len: "j < length (rs_readers (rt_locks t ! i))"
    using assms(5) by (simp add: rs_ok_def)
  note w = rm_expire_write_ok [OF r, of now]
  have "rt_get_at t i = Inr (Some i)"
    using assms(1-3) by (simp add: rt_get_at_def rt_ok_def)
  then have "snd (rm_check_one got now i t) = t\<lparr>rt_locks := (rt_locks t)[i := rm_expire_readers now ?w]\<rparr>"
    using assms(4) w by (auto simp: rm_check_one_def Let_def)
  then show ?thesis
    using assms(2) len by (simp add: rm_expire_readers_eq [OF w] rm_old_readers_def not_less [symmetric])
qed

text \<open>Slot 0 was last used long ago; the reader of slot 1 has just come.\<close>

definition demo_rw_readers :: rw_lock_table where
  "demo_rw_readers = demo_rw_table\<lparr>rt_locks := [rs_enter_reader demo_rw_env 1
     (rs_touch 1000000 (fresh_rw_lock ''a''))]\<rparr>"

lemma demo_rw_readers_ok: "rt_ok demo_rw_readers" "lr_used (rs_readers (hd (rt_locks demo_rw_readers)) ! 1)"
proof -
  let ?r = "fresh_rw_lock ''a''"
  have i: "1 < length (rs_readers ?r)" and nu: "\<not> lr_used (rs_readers ?r ! 1)"
    by (simp_all add: fresh_rw_lock_def zero_rw_lock_def MAX_READER_LOCKS_def zero_reader_def)
  have "rs_reader_count ?r = 0" "rs_used_readers ?r = 0" "length (rs_readers ?r) = MAX_READER_LOCKS"
    "\<not> ws_write_locked (rs_w ?r)"
    by (simp_all add: fresh_rw_lock_def zero_rw_lock_def zero_w_lock_def rs_used_readers_def zero_reader_def)
  then have "rs_ok (rs_enter_reader demo_rw_env 1 (rs_touch 1000000 ?r))"
    using rs_used_readers_update [OF i, of "new_reader demo_rw_env"] nu i
    by (simp add: rs_ok_def rs_enter_reader_def rs_used_readers_def new_reader_def add64_def)
  then show "rt_ok demo_rw_readers" "lr_used (rs_readers (hd (rt_locks demo_rw_readers)) ! 1)"
    using i by (simp_all add: demo_rw_readers_def demo_rw_table_def rt_ok_def rs_enter_reader_def new_reader_def
        rs_touch_def fresh_rw_lock_def)
qed

theorem rw_manager_readers_witness:
  "lr_used (rs_readers (hd (rt_locks demo_rw_readers)) ! 1)
    \<and> \<not> lr_used (rs_readers (rt_locks (snd (rm_check_one True 1000000 0 demo_rw_readers)) ! 0) ! 1)"
proof -
  have r: "rt_locks demo_rw_readers ! 0 = rs_enter_reader demo_rw_env 1 (rs_touch 1000000 (fresh_rw_lock ''a''))"
    by (simp add: demo_rw_readers_def)
  have "lr_lock_timestamp (rs_readers (rt_locks demo_rw_readers ! 0) ! 0) = 0"
    by (simp add: r rs_enter_reader_def fresh_rw_lock_def zero_rw_lock_def MAX_READER_LOCKS_def zero_reader_def)
  then have "\<not> lr_used (rs_readers (rt_locks (snd (rm_check_one True 1000000 0 demo_rw_readers)) ! 0) ! 1)"
    using rw_manager_readers [OF demo_rw_readers_ok(1), of 0 1000000 1 True]
    by (simp add: r rs_enter_reader_def rs_touch_def fresh_rw_lock_def RW_LOCK_EXPIRY_def
        DEFAULT_READ_LOCK_TIMEOUT_def MAX_READER_LOCKS_def demo_rw_readers_def)
  then show ?thesis using demo_rw_readers_ok(2) by blast
qed

text \<open>When the manager takes the write lock from its holder, the lock object
  keeps its transaction id: the release answers no and leaves it, and every later \<open>write_lock\<close> of
  any thread of the process is refused by its precondition.\<close>

theorem rw_revoked_writer_stuck:
  assumes "rk_live (ce_now e) l t r" "rk_txn_id l \<noteq> []" "ws_write_locked (rs_w r)"
    and "now - ow_lock_timestamp (ws_owner (rs_w r)) > DEFAULT_WRITE_LOCK_TIMEOUT"
  shows "\<exists>t'. t' = rt_store t (rk_lock_struct l) (rm_expire_write now r)
    \<and> rk_release_write_lock True e (l, t') = (Inr False, (l, t'))
    \<and> rk_write_lock e' owner timeout uuid (l, t') rounds = Some (Inl Precondition, (l, t'))"
proof -
  let ?t = "rt_store t (rk_lock_struct l) (rm_expire_write now r)"
  have "rk_live (ce_now e) l ?t (rm_expire_write now r)"
    using assms(1) rt_record_store [OF rk_live_record [OF assms(1)]] by (simp add: rk_live_def)
  moreover have "\<not> ws_write_locked (rs_w (rm_expire_write now r))"
    using assms(3,4) by (simp add: rm_expire_write_def wm_clear_owner_def)
  ultimately have "rk_release_write_lock True e (l, ?t) = (Inr False, (l, ?t))"
    using release_write_live assms(2) by (simp add: Let_def)
  then show ?thesis
    using assms(1,2) by (simp add: rk_write_lock_def rk_live_def)
qed

theorem rw_revoked_writer_stuck_witness:
  "\<exists>t'. rk_write_lock (demo_rw_env\<lparr>ce_now := 400000\<rparr>) ''u'' 0 ''new'' (demo_rw_obj\<lparr>rk_txn_id := ''tx''\<rparr>, t') []
     = Some (Inl Precondition, (demo_rw_obj\<lparr>rk_txn_id := ''tx''\<rparr>, t'))"
proof -
  let ?e = "demo_rw_env\<lparr>ce_now := 400000\<rparr>"
  let ?r = "rs_take_write demo_rw_env ''u'' ''tx'' (rs_touch 200 (fresh_rw_lock ''a''))"
  let ?t = "rt_store demo_rw_table (Some 0) ?r"
  have "rk_live (ce_now ?e) (demo_rw_obj\<lparr>rk_txn_id := ''tx''\<rparr>) ?t ?r"
    by (simp add: rk_live_def demo_rw_obj_def demo_rw_table_def read_write_lock_new_def rt_record_def
        rt_store_def state_simps rs_take_write_def fresh_rw_lock_def RW_LOCK_EXPIRY_def Let_def)
  moreover have "ws_write_locked (rs_w ?r)" "400000 - ow_lock_timestamp (ws_owner (rs_w ?r)) > DEFAULT_WRITE_LOCK_TIMEOUT"
    by (simp_all add: rs_take_write_def Let_def demo_rw_env_def DEFAULT_WRITE_LOCK_TIMEOUT_def)
  ultimately show ?thesis
    using rw_revoked_writer_stuck [of ?e "demo_rw_obj\<lparr>rk_txn_id := ''tx''\<rparr>" ?t ?r 400000 ?e "''u''" 0 "''new''" "[]"]
    by auto
qed

text \<open>
  A lock object that nobody asked for ten minutes puts itself in error when it is asked next, and
  nothing takes it out of the registry again.
\<close>

lemma rk_has_write_error:
  assumes "has_error (rk_state l)"
  shows "\<exists>x l'. rk_has_write_lock e (l, t) = (Inl x, (l', t)) \<and> has_error (rk_state l')"
proof -
  have "\<nexists>r. rk_live (ce_now e) l t r"
    using assms error_not_available by (auto simp: rk_live_def)
  then obtain x l' where h: "rk_has_write_lock e (l, t) = (Inl x, (l', t))" "rk_failed l l'"
    by (elim rk_has_write_lock_dead)
  then have "has_error (rk_state l')"
    using assms by (auto simp: rk_failed_def)
  then show ?thesis using h(1) by blast
qed

lemma rc_find_store [simp]: "rc_find (rc_store n l c) n' = (if n' = n then Some l else rc_find c n')"
  "rc_find (c\<lparr>rc_table := t\<rparr>) n' = rc_find c n'"
  by (simp_all add: rc_find_def rc_store_def AList.update_conv')

text \<open>A lock object in error stays registered: \<open>remove_lock\<close> throws and keeps it,
  \<open>add_lock\<close> of its name hands it out again, and \<open>read_lock\<close> on it throws.\<close>

theorem rw_dead_lock_registered:
  assumes "is_available (rc_state c)" "rc_find c name = Some l" "has_error (rk_state l)"
  shows "\<exists>x c1 l1 c2 l2. rc_remove_lock got e name c = (Inl x, c1)
    \<and> rc_find c1 name = Some l1 \<and> has_error (rk_state l1)
    \<and> rc_add_lock got now name c = (Inr name, c2) \<and> rc_find c2 name = Some l2 \<and> has_error (rk_state l2)
    \<and> rk_read_lock e timeout (l2, rc_table c2) rounds = Some (Inl State_unavailable, (l2, rc_table c2))"
proof -
  obtain x l1 where h: "rk_has_write_lock e (l, rc_table c) = (Inl x, (l1, rc_table c))" "has_error (rk_state l1)"
    using rk_has_write_error [OF assms(3)] by blast
  let ?c1 = "(rc_store name l1 c)\<lparr>rc_table := rc_table c\<rparr>"
  have q: "rc_call name (rk_has_write_lock e) c = (Inl x, ?c1)"
    using assms(2) h by (simp add: rc_call_def)
  have rm: "rc_remove_lock got e name c = (Inl x, ?c1)"
    using assms(1,2) q
    by (simp add: rc_remove_lock_def rc_check_available_def cmd_simps rc_release_held_def
        c_bind_Inl [of "rc_call name (rk_has_write_lock e)" c])
  let ?l2 = "l\<lparr>rk_reference_count := (rk_reference_count l + 1) mod 2 ^ 32\<rparr>"
  let ?c2 = "(rc_store name ?l2 c)\<lparr>rc_table := rc_table c\<rparr>"
  have inc: "rc_call name rk_increment_ref_count c = (Inr (rk_reference_count ?l2), ?c2)"
    using assms(2) by (simp add: rc_call_def rk_increment_ref_count_def rk_simps cmd_simps)
  have ad: "rc_add_lock got now name c = (Inr name, ?c2)"
    using assms(1,2) inc by (simp add: rc_add_lock_def rc_check_available_def cmd_simps
        c_bind_Inr [of "rc_call name rk_increment_ref_count" c])
  have rd: "rk_read_lock e timeout (?l2, rc_table ?c2) rounds = Some (Inl State_unavailable, (?l2, rc_table ?c2))"
    using assms(3) error_not_available by (simp add: rk_read_lock_def)
  have f: "rc_find ?c1 name = Some l1" "rc_find ?c2 name = Some ?l2" "has_error (rk_state ?l2)"
    using assms(3) by simp_all
  show ?thesis
    using rm ad rd f h(2) by blast
qed

theorem rw_dead_lock_registered_witness:
  "\<exists>x c1. rc_remove_lock True demo_rw_env ''a''
     (demo_rw_client\<lparr>rc_locks := [(''a'', demo_rw_obj\<lparr>rk_state := set_error Lock_error state_new\<rparr>)]\<rparr>) = (Inl x, c1)"
proof -
  let ?c = "demo_rw_client\<lparr>rc_locks := [(''a'', demo_rw_obj\<lparr>rk_state := set_error Lock_error state_new\<rparr>)]\<rparr>"
  have "is_available (rc_state ?c)" "rc_find ?c ''a'' = Some (demo_rw_obj\<lparr>rk_state := set_error Lock_error state_new\<rparr>)"
    "has_error (rk_state (demo_rw_obj\<lparr>rk_state := set_error Lock_error state_new\<rparr>))"
    by (simp_all add: demo_rw_client_def rc_find_def state_simps)
  from rw_dead_lock_registered [OF this, of True demo_rw_env 0 0 "[]"] show ?thesis
    by blast
qed

end
