(* ===== verification/WgTable.thy ===== *)
theory WgTable
  imports Bitset InstState WriteLock
begin

section \<open>Watergate: lock records and the lock table\<close>

text \<open>
  common/includes/lock_record_def.h, watergate/includes/lock_table.h and
  watergate/src/core/control/lock_table.cpp: the table in shared memory in which every process
  that takes part in the control of a resource has one record, with one lock per priority and the
  quota it has used. The table's exclusive lock is held around the operations that the code
  guards and is not shown. Quotas are \<open>double\<close> in the code and integers here: amounts below
  \<open>2\<^sup>5\<^sup>3\<close>, on which the code's arithmetic is exact. A client maps the table with the count it was
  created with.
\<close>

subsection \<open>States and records\<close>

datatype wg_lock_state =
  Locked | QuotaReached | ForceReleased | Expired | NoLock | LockError | Timeout
  | QuotaAvailable | ReleaseLock | Retry

fun get_lock_acquire_enum_string :: "wg_lock_state \<Rightarrow> string" where
  "get_lock_acquire_enum_string Locked = ''LOCKED''"
| "get_lock_acquire_enum_string NoLock = ''NONE''"
| "get_lock_acquire_enum_string LockError = ''ERROR''"
| "get_lock_acquire_enum_string Expired = ''EXPIRED''"
| "get_lock_acquire_enum_string QuotaReached = ''QUOTA REACHED''"
| "get_lock_acquire_enum_string Timeout = ''TIMEOUT''"
| "get_lock_acquire_enum_string ForceReleased = ''FORCE RELEASED''"
| "get_lock_acquire_enum_string QuotaAvailable = ''QUOTA AVAILABLE''"
| "get_lock_acquire_enum_string ReleaseLock = ''RELEASE LOCK''"
| "get_lock_acquire_enum_string Retry = ''RETRY''"

fun get_lock_acquire_enum_int :: "wg_lock_state \<Rightarrow> int" where
  "get_lock_acquire_enum_int Locked = 0"
| "get_lock_acquire_enum_int NoLock = 4"
| "get_lock_acquire_enum_int LockError = 5"
| "get_lock_acquire_enum_int Expired = 3"
| "get_lock_acquire_enum_int QuotaReached = 1"
| "get_lock_acquire_enum_int QuotaAvailable = 7"
| "get_lock_acquire_enum_int Timeout = 6"
| "get_lock_acquire_enum_int ForceReleased = 2"
| "get_lock_acquire_enum_int ReleaseLock = 8"
| "get_lock_acquire_enum_int Retry = 9"

definition MAX_PRIORITY_ALLOWED :: nat where "MAX_PRIORITY_ALLOWED = 8"
definition BASE_PRIORITY :: nat where "BASE_PRIORITY = 0"

record app_handle =
  ah_app_name :: string
  ah_app_id :: string
  ah_proc_id :: pid
  ah_register_time :: time
  ah_last_active_ts :: time

record priority_lock =
  pl_state :: wg_lock_state
  pl_acquired_time :: time

record lock_handle =
  lh_quota_used :: int
  lh_quota_total :: int
  lh_locks :: "priority_lock list"

record lock_record =
  lc_used :: bool
  lc_index :: nat
  lc_app :: app_handle
  lc_lock :: lock_handle

record lock_table_header =
  th_lock_lease_time :: time
  th_quota :: int
  th_used_record :: nat
  th_max_records :: nat

record lock_table =
  lt_header :: lock_table_header
  lt_bits :: bitset
  lt_records :: "lock_record list"

text \<open>What \<open>memset\<close> leaves: every lock state is 0, which is \<open>Locked\<close>.\<close>

definition zero_lock_record :: lock_record where
  "zero_lock_record = \<lparr>lc_used = False, lc_index = 0,
     lc_app = \<lparr>ah_app_name = [], ah_app_id = [], ah_proc_id = 0, ah_register_time = 0, ah_last_active_ts = 0\<rparr>,
     lc_lock = \<lparr>lh_quota_used = 0, lh_quota_total = 0,
       lh_locks = replicate MAX_PRIORITY_ALLOWED \<lparr>pl_state = Locked, pl_acquired_time = 0\<rparr>\<rparr>\<rparr>"

definition wg_reset_record :: "lock_record \<Rightarrow> lock_record" where
  "wg_reset_record r = r\<lparr>lc_used := False,
     lc_app := \<lparr>ah_app_name = [], ah_app_id = [], ah_proc_id = 0, ah_register_time = 0, ah_last_active_ts = 0\<rparr>,
     lc_lock := \<lparr>lh_quota_used = 0, lh_quota_total = 0,
       lh_locks = replicate MAX_PRIORITY_ALLOWED \<lparr>pl_state = NoLock, pl_acquired_time = 0\<rparr>\<rparr>\<rparr>"

definition rec_pl :: "lock_record \<Rightarrow> nat \<Rightarrow> priority_lock" where
  "rec_pl r p = lh_locks (lc_lock r) ! p"

definition rec_set_pl :: "nat \<Rightarrow> (priority_lock \<Rightarrow> priority_lock) \<Rightarrow> lock_record \<Rightarrow> lock_record" where
  "rec_set_pl p f r = r\<lparr>lc_lock := (lc_lock r)\<lparr>lh_locks := (lh_locks (lc_lock r))[p := f (rec_pl r p)]\<rparr>\<rparr>"

definition rec_set_state :: "nat \<Rightarrow> wg_lock_state \<Rightarrow> lock_record \<Rightarrow> lock_record" where
  "rec_set_state p st = rec_set_pl p (\<lambda>x. x\<lparr>pl_state := st\<rparr>)"

definition rec_set_used_quota :: "int \<Rightarrow> lock_record \<Rightarrow> lock_record" where
  "rec_set_used_quota q r = r\<lparr>lc_lock := (lc_lock r)\<lparr>lh_quota_used := q\<rparr>\<rparr>"

definition rec_add_quota :: "int \<Rightarrow> lock_record \<Rightarrow> lock_record" where
  "rec_add_quota q r = r\<lparr>lc_lock := (lc_lock r)\<lparr>lh_quota_used := lh_quota_used (lc_lock r) + q,
     lh_quota_total := lh_quota_total (lc_lock r) + q\<rparr>\<rparr>"

definition rec_touch :: "time \<Rightarrow> lock_record \<Rightarrow> lock_record" where
  "rec_touch now r = r\<lparr>lc_app := (lc_app r)\<lparr>ah_last_active_ts := now\<rparr>\<rparr>"

text \<open>\<open>RELEASE_LOCK_RECORD\<close>.\<close>

definition rec_release :: "nat \<Rightarrow> lock_record \<Rightarrow> lock_record" where
  "rec_release p r =
     (let r1 = rec_set_pl p (\<lambda>_. \<lparr>pl_state = NoLock, pl_acquired_time = 0\<rparr>) r in
      if p = BASE_PRIORITY then rec_set_used_quota 0 r1 else r1)"

subsection \<open>The table\<close>

text \<open>
  \<open>lock_table::create\<close>. \<open>file\<close> is the mapped file when it is there; a fresh file is cleared. The
  result says whether the table is new.
\<close>

definition fresh_lock_table :: "nat \<Rightarrow> lock_table" where
  "fresh_lock_table count = \<lparr>lt_header = \<lparr>th_lock_lease_time = 0, th_quota = 0, th_used_record = 0,
       th_max_records = count mod 2 ^ 16\<rparr>,
     lt_bits = \<lparr>bs_size = bitset_byte_size count, bs_data = replicate (bitset_byte_size count div 4) 0,
       bs_mapped = True, bs_max_offset = bitset_max_offset (bitset_byte_size count)\<rparr>,
     lt_records = replicate count zero_lock_record\<rparr>"

definition lt_create :: "string \<Rightarrow> lock_table option \<Rightarrow> nat \<Rightarrow> bool \<Rightarrow> bool \<Rightarrow> exc + bool \<times> lock_table" where
  "lt_create name file count server overwrite =
     (if name = [] then Inl Lock_table_error
      else if file = None \<and> \<not> server then Inl Lock_table_error
      else if bitset_byte_size count = 0 then Inl Lock_table_error
      else (case file of
              None \<Rightarrow> Inr (True, fresh_lock_table count)
            | Some t \<Rightarrow> if server \<and> overwrite then Inr (True, fresh_lock_table count)
                        else Inr (overwrite, t)))"

definition lt_get_record :: "inst_state \<Rightarrow> lock_table \<Rightarrow> nat \<Rightarrow> exc + lock_record" where
  "lt_get_record st t index =
     (if \<not> is_available st then Inl State_unavailable
      else if \<not> index < th_max_records (lt_header t) then Inl Precondition
      else if index < length (lt_records t) then Inr (lt_records t ! index) else Inl Mem_fault)"

definition lt_set_used :: "nat \<Rightarrow> lock_table \<Rightarrow> lock_table" where
  "lt_set_used n t = t\<lparr>lt_header := (lt_header t)\<lparr>th_used_record := n\<rparr>\<rparr>"

definition lt_put :: "nat \<Rightarrow> lock_record \<Rightarrow> lock_table \<Rightarrow> lock_table" where
  "lt_put i r t = t\<lparr>lt_records := (lt_records t)[i := r]\<rparr>"

definition lt_remove_record :: "nat \<Rightarrow> (unit, lock_table) cmd" where
  "lt_remove_record index t =
     (if \<not> index < th_max_records (lt_header t) then (Inl Precondition, t)
      else (case bitset_check (lt_bits t) index of
              Inl e \<Rightarrow> (Inl e, t)
            | Inr False \<Rightarrow> (Inl Precondition, t)
            | Inr True \<Rightarrow>
                (if index < length (lt_records t)
                 then (let t1 = lt_set_used (u16 (th_used_record (lt_header t) + (2 ^ 16 - 1)))
                                  (lt_put index (wg_reset_record (lt_records t ! index)) t) in
                       (case bitset_clear (lt_bits t1) index of
                          (Inl e, b) \<Rightarrow> (Inl e, t1\<lparr>lt_bits := b\<rparr>)
                        | (Inr _, b) \<Rightarrow> (Inr (), t1\<lparr>lt_bits := b\<rparr>)))
                 else (Inl Mem_fault, t))))"

definition new_lock_record :: "string \<Rightarrow> string \<Rightarrow> pid \<Rightarrow> time \<Rightarrow> nat \<Rightarrow> lock_record \<Rightarrow> lock_record" where
  "new_lock_record app_name app_id pid now index r = (wg_reset_record r)\<lparr>lc_used := True, lc_index := index,
     lc_app := \<lparr>ah_app_name = app_name, ah_app_id = app_id, ah_proc_id = pid, ah_register_time = now,
       ah_last_active_ts = 0\<rparr>\<rparr>"

text \<open>A record of the table that is in use already is a corrupted table: the caller goes into error.\<close>

definition lt_create_new_record :: "string \<Rightarrow> string \<Rightarrow> pid \<Rightarrow> time \<Rightarrow> (nat option, lock_table) cmd" where
  "lt_create_new_record app_name app_id pid now t =
     (if th_used_record (lt_header t) \<ge> th_max_records (lt_header t) then (Inr None, t)
      else (case bitset_get_free_bit (lt_bits t) of
              (Inl e, b) \<Rightarrow> (Inl e, t\<lparr>lt_bits := b\<rparr>)
            | (Inr i, b) \<Rightarrow>
                (if i < 0 then (Inr None, t\<lparr>lt_bits := b\<rparr>)
                 else (let index = nat i;
                           t1 = lt_set_used (u16 (th_used_record (lt_header t) + 1)) (t\<lparr>lt_bits := b\<rparr>) in
                       if \<not> index < length (lt_records t) then (Inl Mem_fault, t1)
                       else if lc_used (lt_records t ! index) then (Inl Lock_table_error, t1)
                       else (Inr (Some index),
                             lt_put index (new_lock_record app_name app_id pid now index (lt_records t ! index)) t1)))))"

definition lt_reset :: "lock_table \<Rightarrow> lock_table" where
  "lt_reset t = (let n = th_max_records (lt_header t) in
     lt_set_used 0 (t\<lparr>lt_bits := bitset_clear_all (lt_bits t),
       lt_records := map wg_reset_record (take n (lt_records t)) @ drop n (lt_records t)\<rparr>))"

subsection \<open>The manager of the table\<close>

definition DEFAULT_LEASE_TIME :: time where "DEFAULT_LEASE_TIME = 1000"
definition DEFAULT_QUOTA :: int where "DEFAULT_QUOTA = - 1"

definition ltm_init :: "string \<Rightarrow> int \<Rightarrow> int \<Rightarrow> lock_table option \<Rightarrow> nat \<Rightarrow> bool \<Rightarrow> exc + lock_table" where
  "ltm_init name lease quota file count overwrite =
     (case lt_create name file count True overwrite of
        Inl e \<Rightarrow> Inl e
      | Inr (False, t) \<Rightarrow> Inr t
      | Inr (True, t) \<Rightarrow>
          (let t1 = lt_reset t in
           Inr (t1\<lparr>lt_header := (lt_header t1)\<lparr>
             th_lock_lease_time := (if lease > 0 then word_of_int lease else DEFAULT_LEASE_TIME),
             th_quota := (if quota > 0 then quota else DEFAULT_QUOTA)\<rparr>\<rparr>)))"

text \<open>The locks of a record that \<open>__check_expired_locks\<close> force-releases, and the record after it.\<close>

definition rec_lock_expired :: "lock_table_header \<Rightarrow> time \<Rightarrow> time \<Rightarrow> priority_lock \<Rightarrow> bool" where
  "rec_lock_expired h expiry now x \<longleftrightarrow> pl_state x = Locked
     \<and> pl_acquired_time x + th_lock_lease_time h + expiry \<le> now"

definition rec_check_expired :: "lock_table_header \<Rightarrow> time \<Rightarrow> time \<Rightarrow> lock_record \<Rightarrow> lock_record" where
  "rec_check_expired h expiry now r =
     (if lc_used r
      then r\<lparr>lc_lock := (lc_lock r)\<lparr>lh_locks := map (\<lambda>x. if rec_lock_expired h expiry now x
               then x\<lparr>pl_state := ForceReleased, pl_acquired_time := 0\<rparr> else x) (lh_locks (lc_lock r))\<rparr>\<rparr>
      else r)"

definition rec_expired_at :: "lock_table_header \<Rightarrow> time \<Rightarrow> time \<Rightarrow> nat \<Rightarrow> lock_record \<Rightarrow> bool" where
  "rec_expired_at h expiry now p r \<longleftrightarrow> lc_used r \<and> p < length (lh_locks (lc_lock r))
     \<and> rec_lock_expired h expiry now (rec_pl r p)"

text \<open>\<open>check_expired_locks\<close> also counts, for every priority, the locks it releases.\<close>

definition ltm_check_expired_locks :: "time \<Rightarrow> time \<Rightarrow> lock_table \<Rightarrow> nat list \<times> lock_table" where
  "ltm_check_expired_locks expiry now t =
     (let h = lt_header t; n = th_max_records h; rs = take n (lt_records t) in
      (map (\<lambda>p. length (filter (rec_expired_at h expiry now p) rs)) [0..<MAX_PRIORITY_ALLOWED],
       t\<lparr>lt_records := map (rec_check_expired h expiry now) rs @ drop n (lt_records t)\<rparr>))"

definition ltm_reset_expired_one :: "time \<Rightarrow> time \<Rightarrow> nat \<Rightarrow> (unit, lock_table) cmd" where
  "ltm_reset_expired_one expiry now ii t =
     (if ii < length (lt_records t)
      then (let r = lt_records t ! ii in
            if lc_used r \<and> ah_last_active_ts (lc_app r) + expiry \<le> now then lt_remove_record ii t
            else (Inr (), t))
      else (Inl Mem_fault, t))"

fun ltm_reset_expired_from :: "time \<Rightarrow> time \<Rightarrow> nat list \<Rightarrow> (unit, lock_table) cmd" where
  "ltm_reset_expired_from expiry now [] = c_ret ()"
| "ltm_reset_expired_from expiry now (i # is) =
     c_bind (ltm_reset_expired_one expiry now i) (\<lambda>_. ltm_reset_expired_from expiry now is)"

definition ltm_reset_expired_records :: "time \<Rightarrow> time \<Rightarrow> (unit, lock_table) cmd" where
  "ltm_reset_expired_records expiry now t =
     ltm_reset_expired_from expiry now [0..<th_max_records (lt_header t)] t"

end
