(* ===== verification/WgControl.thy ===== *)
theory WgControl
  imports WgTable "HOL-Library.AList"
begin

section \<open>Watergate: the priority semaphores of a resource\<close>

text \<open>
  \<open>lock_table_client\<close> of watergate/includes/lock_table.h, the thread records of
  common/includes/lock_record_def.h, and \<open>__semaphore_client\<close>, \<open>__semaphore_owner\<close> of
  watergate/includes/control.h and watergate/src/core/control/control.cpp. A \<open>wg_view\<close> is what one
  process sees: its own fields, and the table and the named semaphores that all share. A semaphore
  is its value; \<open>sem_wait\<close> on a semaphore of value 0 is \<open>Blocked\<close>, and \<open>sc_acquire\<close> is the rest of
  such a call once the semaphore was posted. Semaphore calls do not fail otherwise.
\<close>

record lock_id =
  li_id :: u64
  li_acquired_time :: time

record lock_metrics =
  lm_base_priority :: int
  lm_total_wait_time :: u64
  lm_max_wait_time :: u64
  lm_tries :: u64

record thread_lock_record =
  tl_counts :: "int list"
  tl_ids :: "lock_id list"
  tl_metrics :: lock_metrics

record priority_record =
  pc_count :: u64
  pc_index :: u64

record wg_view =
  wv_state :: inst_state
  wv_record :: "nat option"
  wv_priorities :: nat
  wv_counts :: "priority_record list"
  wv_threads :: "(tid \<times> thread_lock_record) list"
  wv_table :: lock_table
  wv_sems :: "nat list"

definition NO_ID :: u64 where "NO_ID = - 1"

definition thread_record_new :: "nat \<Rightarrow> thread_lock_record" where
  "thread_record_new n = \<lparr>tl_counts = replicate n 0,
     tl_ids = replicate n \<lparr>li_id = NO_ID, li_acquired_time = 0\<rparr>,
     tl_metrics = \<lparr>lm_base_priority = - 1, lm_total_wait_time = 0, lm_max_wait_time = 0, lm_tries = 0\<rparr>\<rparr>"

definition tl_increment :: "nat \<Rightarrow> thread_lock_record \<Rightarrow> thread_lock_record" where
  "tl_increment p r = r\<lparr>tl_counts := (tl_counts r)[p := tl_counts r ! p + 1]\<rparr>"

definition tl_decrement :: "nat \<Rightarrow> thread_lock_record \<Rightarrow> thread_lock_record" where
  "tl_decrement p r = r\<lparr>tl_counts := (tl_counts r)[p := tl_counts r ! p - 1]\<rparr>"

definition tl_set_id :: "nat \<Rightarrow> u64 \<Rightarrow> thread_lock_record \<Rightarrow> thread_lock_record" where
  "tl_set_id p v r = r\<lparr>tl_ids := (tl_ids r)[p := (tl_ids r ! p)\<lparr>li_id := v\<rparr>]\<rparr>"

definition tl_set_acquired :: "nat \<Rightarrow> time \<Rightarrow> thread_lock_record \<Rightarrow> thread_lock_record" where
  "tl_set_acquired p v r = r\<lparr>tl_ids := (tl_ids r)[p := (tl_ids r ! p)\<lparr>li_acquired_time := v\<rparr>]\<rparr>"

definition tl_reset :: "nat \<Rightarrow> thread_lock_record \<Rightarrow> thread_lock_record" where
  "tl_reset p r = r\<lparr>tl_counts := (tl_counts r)[p := 0],
     tl_ids := (tl_ids r)[p := \<lparr>li_id = NO_ID, li_acquired_time = 0\<rparr>]\<rparr>"

definition tl_update_metrics :: "int \<Rightarrow> u64 \<Rightarrow> thread_lock_record \<Rightarrow> thread_lock_record" where
  "tl_update_metrics p lock_time r =
     (let m = tl_metrics r;
          m1 = (if lm_base_priority m < 0 then m\<lparr>lm_base_priority := p\<rparr> else m);
          m2 = m1\<lparr>lm_total_wait_time := lm_total_wait_time m1 + lock_time, lm_tries := lm_tries m1 + 1\<rparr> in
      r\<lparr>tl_metrics := (if lm_max_wait_time m2 < lock_time then m2\<lparr>lm_max_wait_time := lock_time\<rparr> else m2)\<rparr>)"

type_synonym 'a wg_cmd = "('a, wg_view) cmd"

subsection \<open>The table client\<close>

definition tc_check_available :: "unit wg_cmd" where
  "tc_check_available = c_check State_unavailable (\<lambda>v. is_available (wv_state v))"

definition wv_rec :: "wg_view \<Rightarrow> lock_record option" where
  "wv_rec v = (case wv_record v of None \<Rightarrow> None
     | Some i \<Rightarrow> if i < length (lt_records (wv_table v)) then Some (lt_records (wv_table v) ! i) else None)"

definition tc_rec :: "lock_record wg_cmd" where
  "tc_rec v = (case wv_rec v of None \<Rightarrow> (Inl Mem_fault, v) | Some r \<Rightarrow> (Inr r, v))"

definition tc_store :: "lock_record \<Rightarrow> unit wg_cmd" where
  "tc_store r v = (case wv_record v of None \<Rightarrow> (Inl Mem_fault, v)
     | Some i \<Rightarrow> (Inr (), v\<lparr>wv_table := lt_put i r (wv_table v)\<rparr>))"

definition tc_upd :: "(lock_record \<Rightarrow> lock_record) \<Rightarrow> unit wg_cmd" where
  "tc_upd f = c_bind tc_rec (\<lambda>r. tc_store (f r))"

text \<open>
  \<open>has_valid_lock\<close> on the record: its answer, and the record after it. A record that belongs to
  another process is only noted by the code, which constructs an exception and does not throw it.
\<close>

definition rec_active :: "lock_table_header \<Rightarrow> time \<Rightarrow> priority_lock \<Rightarrow> bool" where
  "rec_active h now x \<longleftrightarrow> pl_state x = Locked \<and> now < pl_acquired_time x + th_lock_lease_time h"

definition rec_has_valid :: "lock_table_header \<Rightarrow> time \<Rightarrow> nat \<Rightarrow> int \<Rightarrow> lock_record \<Rightarrow> wg_lock_state \<times> lock_record" where
  "rec_has_valid h now p quota r0 =
     (let r = rec_touch now r0; x = rec_pl r p; q = th_quota h in
      if pl_state x = Locked
      then (if \<not> rec_active h now x then (Expired, r)
            else if quota > 0
            then (if q > 0 \<and> q - lh_quota_used (lc_lock r) < quota then (ReleaseLock, r) else (Locked, r))
            else (Locked, r))
      else if pl_state x = ForceReleased then (ForceReleased, rec_set_state p NoLock r)
      else if pl_state x = QuotaReached
      then (if now > pl_acquired_time x + th_lock_lease_time h
            then (NoLock, rec_set_used_quota 0 (rec_set_state p NoLock r))
            else (QuotaReached, r))
      else (NoLock, r))"

definition tc_has_valid_lock :: "time \<Rightarrow> nat \<Rightarrow> int \<Rightarrow> wg_lock_state wg_cmd" where
  "tc_has_valid_lock now p quota =
     c_bind tc_check_available (\<lambda>_.
     c_bind tc_rec (\<lambda>r v.
     (let (st, r') = rec_has_valid (lt_header (wv_table v)) now p quota r in
      c_bind (tc_store r') (\<lambda>_. c_ret st) v)))"

definition tc_release_lock :: "wg_lock_state \<Rightarrow> nat \<Rightarrow> unit wg_cmd" where
  "tc_release_lock st p =
     c_bind tc_check_available (\<lambda>_.
     if st = Expired \<or> st = Locked
     then tc_upd (\<lambda>r. if pl_state (rec_pl r p) = Locked then rec_release p r else r)
     else if st = ReleaseLock
     then tc_upd (\<lambda>r. if pl_state (rec_pl r p) = Locked then rec_set_state p QuotaReached r else r)
     else c_ret ())"

definition tc_check_and_lock :: "time \<Rightarrow> int \<Rightarrow> wg_lock_state wg_cmd" where
  "tc_check_and_lock now quota =
     c_bind tc_check_available (\<lambda>_.
     c_bind (tc_has_valid_lock now BASE_PRIORITY quota) (\<lambda>ls.
     c_bind (if ls = Expired then tc_release_lock ls BASE_PRIORITY
             else if ls = Locked then tc_upd (rec_add_quota quota)
             else c_ret ()) (\<lambda>_. c_ret ls)))"

definition tc_quota_available :: "int \<Rightarrow> wg_lock_state wg_cmd" where
  "tc_quota_available quota =
     c_bind tc_check_available (\<lambda>_.
     c_bind tc_rec (\<lambda>r v.
     (let q = th_quota (lt_header (wv_table v)) in
      c_ret (if q > 0 \<and> q - lh_quota_used (lc_lock r) < quota then QuotaReached else QuotaAvailable) v)))"

definition tc_update_lock :: "time \<Rightarrow> nat \<Rightarrow> unit wg_cmd" where
  "tc_update_lock now p = c_bind tc_check_available (\<lambda>_.
     tc_upd (rec_set_pl p (\<lambda>_. \<lparr>pl_state = Locked, pl_acquired_time = now\<rparr>)))"

definition tc_update_quota :: "int \<Rightarrow> unit wg_cmd" where
  "tc_update_quota quota = c_bind tc_check_available (\<lambda>_. tc_upd (rec_add_quota quota))"

definition tc_reset_quota :: "unit wg_cmd" where
  "tc_reset_quota = c_bind tc_check_available (\<lambda>_. tc_upd (rec_set_used_quota 0))"

text \<open>
  \<open>lock_table_client::init\<close> takes a new record; the code's \<open>lock_record\<close> pointer is uninitialised
  before it, here it is null. A record that the table calls used puts the client in error.
\<close>

definition tc_init :: "string \<Rightarrow> string \<Rightarrow> pid \<Rightarrow> time \<Rightarrow> string \<Rightarrow> lock_table option \<Rightarrow> nat \<Rightarrow> unit wg_cmd" where
  "tc_init app_name app_id pid now name file count v =
     (if (case wv_rec v of None \<Rightarrow> False | Some r \<Rightarrow> ah_proc_id (lc_app r) \<noteq> pid) then (Inl Lock_table_error, v)
      else (case lt_create name file count False False of
              Inl e \<Rightarrow> (Inl e, v\<lparr>wv_state := set_error Lock_table_error (wv_state v)\<rparr>)
            | Inr (_, t) \<Rightarrow>
                (let v1 = v\<lparr>wv_state := set_state Available (wv_state v), wv_table := t\<rparr> in
                 (case lt_create_new_record app_name app_id pid now t of
                    (Inl e, t') \<Rightarrow> (Inl e, v1\<lparr>wv_table := t',
                        wv_state := set_error Lock_table_error (wv_state v1)\<rparr>)
                  | (Inr None, t') \<Rightarrow> (Inl Null_pointer, v1\<lparr>wv_table := t', wv_record := None\<rparr>)
                  | (Inr (Some i), t') \<Rightarrow> (Inr (), v1\<lparr>wv_table := t', wv_record := Some i\<rparr>)))))"

text \<open>The destructor gives the record back, and not the semaphores its process still holds.\<close>

definition tc_destroy :: "pid \<Rightarrow> unit wg_cmd" where
  "tc_destroy pid v =
     (if is_disposed (wv_state v) then (Inr (), v)
      else (let v1 = v\<lparr>wv_state := set_state Disposed (wv_state v)\<rparr> in
        case wv_rec v1 of
          None \<Rightarrow> (Inr (), v1)
        | Some r \<Rightarrow>
            (if lc_used r \<and> ah_proc_id (lc_app r) = pid
             then (case lt_remove_record (lc_index r) (wv_table v1) of
                     (Inl e, t) \<Rightarrow> (Inl e, v1\<lparr>wv_table := t\<rparr>)
                   | (Inr _, t) \<Rightarrow> (Inr (), v1\<lparr>wv_table := t, wv_record := None\<rparr>))
             else (Inr (), v1))))"

subsection \<open>The semaphore client\<close>

definition sc_count :: "nat \<Rightarrow> (priority_record \<Rightarrow> priority_record) \<Rightarrow> unit wg_cmd" where
  "sc_count p f = c_mod (\<lambda>v. v\<lparr>wv_counts := (wv_counts v)[p := f (wv_counts v ! p)]\<rparr>)"

definition sc_thread :: "tid \<Rightarrow> (thread_lock_record \<Rightarrow> thread_lock_record) \<Rightarrow> unit wg_cmd" where
  "sc_thread t f = c_mod (\<lambda>v. v\<lparr>wv_threads := AList.map_entry t f (wv_threads v)\<rparr>)"

definition sc_post :: "nat \<Rightarrow> unit wg_cmd" where
  "sc_post p = c_mod (\<lambda>v. v\<lparr>wv_sems := (wv_sems v)[p := wv_sems v ! p + 1]\<rparr>)"

definition sc_reset_thread_locks :: "nat \<Rightarrow> unit wg_cmd" where
  "sc_reset_thread_locks p = c_mod (\<lambda>v. v\<lparr>wv_threads := map (\<lambda>(t, r). (t, tl_reset p r)) (wv_threads v)\<rparr>)"

definition sc_clear_count :: "nat \<Rightarrow> unit wg_cmd" where
  "sc_clear_count p = c_bind (sc_count p (pc_count_update (\<lambda>_. 0))) (\<lambda>_. sc_reset_thread_locks p)"

definition sc_reset_locks :: "nat \<Rightarrow> wg_lock_state \<Rightarrow> unit wg_cmd" where
  "sc_reset_locks p st =
     c_bind (sc_clear_count p) (\<lambda>_.
     c_bind (tc_release_lock st p) (\<lambda>_. sc_post p))"

text \<open>The thread's record, which \<open>register_thread\<close> must have made.\<close>

definition sc_get_thread_lock :: "tid \<Rightarrow> thread_lock_record wg_cmd" where
  "sc_get_thread_lock t v = (case map_of (wv_threads v) t of
     None \<Rightarrow> (Inl Control_error, v) | Some r \<Rightarrow> (Inr r, v))"

definition sc_register_thread :: "tid \<Rightarrow> unit wg_cmd" where
  "sc_register_thread t v = (case map_of (wv_threads v) t of
     Some _ \<Rightarrow> (Inr (), v)
   | None \<Rightarrow> (Inr (), v\<lparr>wv_threads := AList.update t (thread_record_new (wv_priorities v)) (wv_threads v)\<rparr>))"

definition sc_note_acquired :: "call_env \<Rightarrow> nat \<Rightarrow> unit wg_cmd" where
  "sc_note_acquired e p =
     c_bind (sc_count p (\<lambda>c. c\<lparr>pc_count := pc_count c + 1\<rparr>)) (\<lambda>_.
     c_bind (sc_thread (ce_tid e) (tl_increment p)) (\<lambda>_ v.
     sc_thread (ce_tid e) (\<lambda>r. tl_set_acquired p (ce_now e) (tl_set_id p (pc_index (wv_counts v ! p)) r)) v))"

text \<open>\<open>sem_wait\<close> and \<open>sem_trywait\<close>: whether a unit was taken.\<close>

definition sc_sem :: "bool \<Rightarrow> nat \<Rightarrow> bool wg_cmd" where
  "sc_sem wait p v =
     (if wv_sems v ! p > 0 then (Inr True, v\<lparr>wv_sems := (wv_sems v)[p := wv_sems v ! p - 1]\<rparr>)
      else if wait then (Inl Blocked, v) else (Inr False, v))"

definition sc_acquire :: "call_env \<Rightarrow> nat \<Rightarrow> bool \<Rightarrow> wg_lock_state wg_cmd" where
  "sc_acquire e p wait =
     c_bind (sc_sem wait p) (\<lambda>ok.
     if ok then
       c_bind (sc_note_acquired e p) (\<lambda>_.
       c_bind (tc_update_lock (ce_now e) p) (\<lambda>_. c_ret Locked))
     else c_ret Retry)"

text \<open>The prelude of the two \<open>try_lock\<close>s: the thread's id of the lock is dropped when it is stale.\<close>

definition sc_sync_id :: "tid \<Rightarrow> nat \<Rightarrow> bool wg_cmd" where
  "sc_sync_id t p =
     c_bind (sc_get_thread_lock t) (\<lambda>r v.
     if li_id (tl_ids r ! p) \<noteq> pc_index (wv_counts v ! p)
     then c_bind (sc_thread t (tl_set_id p NO_ID)) (\<lambda>_. c_ret False) v
     else c_ret True v)"

definition sc_check_priority :: "nat \<Rightarrow> unit wg_cmd" where
  "sc_check_priority p = c_check Precondition (\<lambda>v. p < wv_priorities v)"

definition sc_try_lock :: "call_env \<Rightarrow> nat \<Rightarrow> int \<Rightarrow> nat \<Rightarrow> bool \<Rightarrow> wg_lock_state wg_cmd" where
  "sc_try_lock e p quota base wait =
     c_bind (sc_check_priority p) (\<lambda>_.
     c_bind (sc_check_priority base) (\<lambda>_.
     c_bind (sc_sync_id (ce_tid e) p) (\<lambda>_.
     c_bind (tc_has_valid_lock (ce_now e) p quota) (\<lambda>ls.
     if ls = Locked then c_bind (sc_note_acquired e p) (\<lambda>_. c_ret Locked)
     else if ls = Expired then c_bind (sc_reset_locks p ls) (\<lambda>_. sc_acquire e p wait)
     else if ls = ReleaseLock then c_bind (sc_reset_locks p ls) (\<lambda>_. c_ret QuotaReached)
     else if ls = QuotaReached then c_ret ls
     else if ls = ForceReleased then c_bind (sc_clear_count p) (\<lambda>_. sc_acquire e p wait)
     else sc_acquire e p wait))))"

text \<open>The base priority also accounts for the quota.\<close>

definition sc_acquire_base :: "call_env \<Rightarrow> int \<Rightarrow> bool \<Rightarrow> wg_lock_state wg_cmd" where
  "sc_acquire_base e quota wait =
     c_bind (sc_sem wait BASE_PRIORITY) (\<lambda>ok.
     if ok then
       c_bind (sc_note_acquired e BASE_PRIORITY) (\<lambda>_.
       c_bind (tc_update_lock (ce_now e) BASE_PRIORITY) (\<lambda>_.
       c_bind tc_reset_quota (\<lambda>_.
       c_bind (tc_update_quota quota) (\<lambda>_. c_ret Locked))))
     else c_ret Timeout)"

definition sc_try_lock_base :: "call_env \<Rightarrow> int \<Rightarrow> nat \<Rightarrow> bool \<Rightarrow> wg_lock_state wg_cmd" where
  "sc_try_lock_base e quota base wait =
     c_bind (sc_check_priority base) (\<lambda>_.
     c_bind (sc_sync_id (ce_tid e) BASE_PRIORITY) (\<lambda>_.
     c_bind (tc_check_and_lock (ce_now e) quota) (\<lambda>ls.
     if ls = Locked then c_bind (sc_note_acquired e BASE_PRIORITY) (\<lambda>_. c_ret Locked)
     else if ls = QuotaReached then c_ret ls
     else if ls = Expired then c_bind (sc_reset_locks BASE_PRIORITY ls) (\<lambda>_. sc_acquire_base e quota wait)
     else if ls = ReleaseLock then c_bind (sc_reset_locks BASE_PRIORITY ls) (\<lambda>_. c_ret QuotaReached)
     else if ls = ForceReleased
     then c_bind (sc_clear_count BASE_PRIORITY) (\<lambda>_. c_bind tc_reset_quota (\<lambda>_. sc_acquire_base e quota wait))
     else sc_acquire_base e quota wait)))"

text \<open>
  The releases of a priority and of the base priority differ in \<open>reset_quota\<close> alone. The count is
  an unsigned integer: it is \<open>\<le> 0\<close> when it is 0.
\<close>

definition sc_drop :: "call_env \<Rightarrow> nat \<Rightarrow> bool wg_cmd" where
  "sc_drop e p =
     c_bind (sc_count p (\<lambda>c. c\<lparr>pc_count := pc_count c - 1\<rparr>)) (\<lambda>_.
     c_bind (sc_thread (ce_tid e) (tl_decrement p)) (\<lambda>_ v.
     if pc_count (wv_counts v ! p) \<le> 0
     then c_bind (sc_thread (ce_tid e) (\<lambda>r. tl_set_acquired p 0 (tl_set_id p NO_ID r))) (\<lambda>_.
          c_bind (sc_post p) (\<lambda>_.
          c_bind (tc_release_lock Locked p) (\<lambda>_. c_ret True))) v
     else c_ret False v))"

definition sc_release_lock :: "call_env \<Rightarrow> nat \<Rightarrow> nat \<Rightarrow> bool wg_cmd" where
  "sc_release_lock e p base =
     c_bind (sc_check_priority p) (\<lambda>_.
     c_bind (sc_check_priority base) (\<lambda>_.
     c_bind (sc_sync_id (ce_tid e) p) (\<lambda>same.
     if \<not> same then c_ret False
     else c_bind (tc_has_valid_lock (ce_now e) p 0) (\<lambda>ls.
       if ls = Locked then sc_drop e p
       else if ls = Expired then c_bind (sc_reset_locks p ls) (\<lambda>_. c_ret True)
       else if ls = ForceReleased then c_bind (sc_clear_count p) (\<lambda>_. c_ret False)
       else c_ret False))))"

definition sc_release_lock_base :: "call_env \<Rightarrow> nat \<Rightarrow> bool wg_cmd" where
  "sc_release_lock_base e base =
     c_bind (sc_check_priority base) (\<lambda>_.
     c_bind (sc_sync_id (ce_tid e) BASE_PRIORITY) (\<lambda>same.
     if \<not> same then c_ret False
     else c_bind (tc_has_valid_lock (ce_now e) BASE_PRIORITY 0) (\<lambda>ls.
       if ls = Locked then sc_drop e BASE_PRIORITY
       else if ls = Expired then c_bind (sc_reset_locks BASE_PRIORITY ls) (\<lambda>_. c_ret True)
       else if ls = ForceReleased
       then c_bind (sc_clear_count BASE_PRIORITY) (\<lambda>_. c_bind tc_reset_quota (\<lambda>_. c_ret False))
       else c_ret False)))"

definition sc_has_valid_lock :: "time \<Rightarrow> nat \<Rightarrow> bool wg_cmd" where
  "sc_has_valid_lock now p = c_bind (tc_has_valid_lock now p 0) (\<lambda>ls. c_ret (ls = Locked))"

definition sc_update_metrics :: "tid \<Rightarrow> int \<Rightarrow> u64 \<Rightarrow> unit wg_cmd" where
  "sc_update_metrics t p lock_time = sc_thread t (tl_update_metrics p lock_time)"

subsection \<open>The semaphore owner\<close>

text \<open>\<open>clear_locks\<close>: take all units, post as many again and at least \<open>max_concurrent\<close>.\<close>

definition so_clear_sem :: "nat \<Rightarrow> nat \<Rightarrow> nat" where
  "so_clear_sem max_concurrent sem =
     (let count = sem; sem' = sem - count;
          count' = (if count < max_concurrent then max_concurrent else count) in sem' + count')"

definition so_clear_locks :: "nat \<Rightarrow> nat list \<Rightarrow> nat list" where
  "so_clear_locks max_concurrent sems = map (so_clear_sem max_concurrent) sems"

text \<open>
  \<open>check_expired_locks\<close> asks for the semaphore of every priority that has a count, also of those
  above the configured number of priorities: \<open>get\<close> refuses them.
\<close>

fun so_post_from :: "nat \<Rightarrow> nat list \<Rightarrow> (unit, nat list) cmd" where
  "so_post_from p [] sems = (Inr (), sems)"
| "so_post_from p (c # cs) sems =
     (if c = 0 then so_post_from (p + 1) cs sems
      else if p < length sems then so_post_from (p + 1) cs (sems[p := sems ! p + c])
      else (Inl Precondition, sems))"

definition so_check_expired_locks :: "time \<Rightarrow> time \<Rightarrow> (unit, lock_table \<times> nat list) cmd" where
  "so_check_expired_locks expiry now s =
     (if expiry > 0
      then (let (counts, t) = ltm_check_expired_locks expiry now (fst s) in
            (case so_post_from 0 counts (snd s) of (r, sems) \<Rightarrow> (r, (t, sems))))
      else (Inl Precondition, s))"

definition so_check_expired_records :: "time \<Rightarrow> time \<Rightarrow> (unit, lock_table \<times> nat list) cmd" where
  "so_check_expired_records expiry now s =
     (if expiry > 0
      then (case ltm_reset_expired_records expiry now (fst s) of (r, t) \<Rightarrow> (r, (t, snd s)))
      else (Inl Precondition, s))"

text \<open>\<open>control_manager::run_checkup\<close> for one resource.\<close>

definition cm_run_checkup :: "time \<Rightarrow> time \<Rightarrow> time \<Rightarrow> (unit, lock_table \<times> nat list) cmd" where
  "cm_run_checkup lock_timeout record_timeout now =
     c_bind (so_check_expired_locks lock_timeout now) (\<lambda>_. so_check_expired_records record_timeout now)"

end
