(* ===== verification/WgProps.thy ===== *)
theory WgProps
  imports WgControl
begin

section \<open>Watergate: no unit of a semaphore is lost or made\<close>

text \<open>
  For every priority, the units of the semaphore and the locks held at that priority add up to the
  same number whatever the processes and the manager's expiry of locks do. The calls of a process
  are run symbolically on the record it owns; the lemmas give for each what becomes of its record
  and of the semaphores.
\<close>

subsection \<open>Records\<close>

text \<open>\<open>lk p r\<close>: the record holds the lock of priority \<open>p\<close>.\<close>

definition lk :: "nat \<Rightarrow> lock_record \<Rightarrow> bool" where
  "lk p r \<longleftrightarrow> pl_state (rec_pl r p) = Locked"

definition rec_shape :: "lock_record \<Rightarrow> nat \<times> bool \<times> nat" where
  "rec_shape r = (length (lh_locks (lc_lock r)), lc_used r, lc_index r)"

named_theorems rec_simps

lemma rec_shape_simps [rec_simps]:
  "rec_shape (rec_set_pl p f r) = rec_shape r" "rec_shape (rec_set_state p st r) = rec_shape r"
  "rec_shape (rec_set_used_quota q r) = rec_shape r" "rec_shape (rec_add_quota q r) = rec_shape r"
  "rec_shape (rec_touch now r) = rec_shape r" "rec_shape (rec_release p r) = rec_shape r"
  by (simp_all add: rec_shape_def rec_set_pl_def rec_set_state_def rec_set_used_quota_def
      rec_add_quota_def rec_touch_def rec_release_def Let_def)

lemma rec_pl_simps [rec_simps]:
  "rec_pl (rec_set_used_quota k r) q = rec_pl r q" "rec_pl (rec_add_quota k r) q = rec_pl r q"
  "rec_pl (rec_touch now r) q = rec_pl r q"
  by (simp_all add: rec_pl_def rec_set_used_quota_def rec_add_quota_def rec_touch_def)

lemma rec_pl_set:
  "p < fst (rec_shape r) \<Longrightarrow> rec_pl (rec_set_pl p f r) q = (if q = p then f (rec_pl r p) else rec_pl r q)"
  by (simp add: rec_pl_def rec_set_pl_def rec_shape_def)

lemma lk_simps [rec_simps]:
  "lk q (rec_set_used_quota k r) = lk q r" "lk q (rec_add_quota k r) = lk q r" "lk q (rec_touch now r) = lk q r"
  by (simp_all add: lk_def rec_simps)

lemma lk_set [rec_simps]:
  assumes "p < fst (rec_shape r)"
  shows "lk q (rec_set_state p st r) \<longleftrightarrow> (if q = p then st = Locked else lk q r)"
    and "lk q (rec_release p r) \<longleftrightarrow> q \<noteq> p \<and> lk q r"
    and "lk q (rec_set_pl p (\<lambda>_. x) r) \<longleftrightarrow> (if q = p then pl_state x = Locked else lk q r)"
  using assms by (auto simp: lk_def rec_set_state_def rec_release_def rec_simps rec_pl_set Let_def)

lemma rec_has_valid_lk:
  assumes "rec_has_valid h now p k r = (st, r')" "p < fst (rec_shape r)"
  shows "lk q r' = lk q r" and "rec_shape r' = rec_shape r"
    and "st = Locked \<or> st = Expired \<or> st = ReleaseLock \<longleftrightarrow> lk p r"
  using assms
  by (auto simp: rec_has_valid_def Let_def rec_simps lk_def [of p] rec_pl_set rec_set_state_def
      lk_def [of q] split: if_splits)

subsection \<open>Running the calls of a process\<close>

definition wv_set :: "lock_record \<Rightarrow> wg_view \<Rightarrow> wg_view" where
  "wv_set r v = (case wv_record v of None \<Rightarrow> v | Some i \<Rightarrow> v\<lparr>wv_table := lt_put i r (wv_table v)\<rparr>)"

named_theorems wg_run

lemma wv_set_simps [wg_run]:
  "wv_rec (wv_set r v) = map_option (\<lambda>_. r) (wv_rec v)"
  "wv_record (wv_set r v) = wv_record v" "wv_state (wv_set r v) = wv_state v"
  "wv_sems (wv_set r v) = wv_sems v" "wv_priorities (wv_set r v) = wv_priorities v"
  "lt_header (wv_table (wv_set r v)) = lt_header (wv_table v)"
  "wv_set r (wv_set r' v) = wv_set r v"
  by (simp_all add: wv_set_def wv_rec_def lt_put_def split: option.split)

lemma wv_rec_frame [wg_run]:
  "wv_rec (v\<lparr>wv_counts := c\<rparr>) = wv_rec v" "wv_rec (v\<lparr>wv_threads := t\<rparr>) = wv_rec v"
  "wv_rec (v\<lparr>wv_sems := s\<rparr>) = wv_rec v"
  by (cases "wv_record v"; simp add: wv_rec_def)+

lemma tc_check_run [wg_run]:
  "c_bind tc_check_available k v = (if is_available (wv_state v) then k () v else (Inl State_unavailable, v))"
  by (simp add: tc_check_available_def cmd_simps)

lemma tc_rec_run [wg_run]: "wv_rec v = Some r \<Longrightarrow> c_bind tc_rec k v = k r v"
  by (simp add: tc_rec_def c_bind_def)

lemma tc_store_run [wg_run]:
  "wv_rec v = Some r0 \<Longrightarrow> tc_store r v = (Inr (), wv_set r v)"
  "wv_rec v = Some r0 \<Longrightarrow> c_bind (tc_store r) k2 v = k2 () (wv_set r v)"
  by (auto simp: tc_store_def wv_set_def wv_rec_def c_bind_def split: option.splits if_splits)

lemma tc_upd_run [wg_run]:
  "wv_rec v = Some r \<Longrightarrow> tc_upd f v = (Inr (), wv_set (f r) v)"
  "wv_rec v = Some r \<Longrightarrow> c_bind (tc_upd f) k2 v = k2 () (wv_set (f r) v)"
  by (simp_all add: tc_upd_def tc_rec_def c_bind_def tc_store_run)

lemma wg_if_run [wg_run]: "c_bind (if b then m1 else m2) k v = (if b then c_bind m1 k v else c_bind m2 k v)"
  by simp

lemma tc_has_valid_run:
  assumes "is_available (wv_state v)" "wv_rec v = Some r"
    and "rec_has_valid (lt_header (wv_table v)) now p q r = (st, r')"
  shows "tc_has_valid_lock now p q v = (Inr st, wv_set r' v)"
    and "c_bind (tc_has_valid_lock now p q) k v = k st (wv_set r' v)"
  using assms by (simp_all add: tc_has_valid_lock_def wg_run cmd_simps)

text \<open>
  The bookkeeping of counts and threads touches neither the record nor the semaphores:
  \<open>wg_same v v'\<close>.
\<close>

definition wg_same :: "wg_view \<Rightarrow> wg_view \<Rightarrow> bool" where
  "wg_same v v' \<longleftrightarrow> wv_record v' = wv_record v \<and> wv_state v' = wv_state v \<and> wv_sems v' = wv_sems v
     \<and> wv_table v' = wv_table v \<and> wv_priorities v' = wv_priorities v"

lemma wg_same_rec: "wg_same v v' \<Longrightarrow> wv_rec v' = wv_rec v"
  by (cases "wv_record v") (simp_all add: wg_same_def wv_rec_def)

lemma sc_note_same: "\<exists>v'. sc_note_acquired e p v = (Inr (), v') \<and> wg_same v v'"
  by (simp add: sc_note_acquired_def sc_count_def sc_thread_def cmd_simps wg_same_def)

lemma sc_clear_same: "\<exists>v'. sc_clear_count p v = (Inr (), v') \<and> wg_same v v'"
  by (simp add: sc_clear_count_def sc_count_def sc_reset_thread_locks_def cmd_simps wg_same_def)

lemma sc_sync_same: "\<exists>x v'. sc_sync_id t p v = (x, v') \<and> wg_same v v'"
  by (auto simp: sc_sync_id_def sc_get_thread_lock_def sc_thread_def cmd_simps wg_same_def c_bind_def
      split: option.split)

subsection \<open>What a call keeps\<close>

text \<open>
  \<open>own q v\<close>: the units of priority \<open>q\<close> that the process sees: those of the semaphore, and the one it
  holds. \<open>wg_shape\<close>: a call changes nothing but its record, the semaphores and the process's own
  bookkeeping. \<open>wg_to p d b\<close>: it also moves \<open>own p\<close> by \<open>d\<close>, the process holds \<open>p\<close> after it iff \<open>b\<close>, and
  nothing changes at the other priorities.
\<close>

definition holds :: "nat \<Rightarrow> wg_view \<Rightarrow> bool" where
  "holds q v = (case wv_rec v of None \<Rightarrow> False | Some r \<Rightarrow> lk q r)"

definition own :: "nat \<Rightarrow> wg_view \<Rightarrow> int" where
  "own q v = int (wv_sems v ! q) + (if holds q v then 1 else 0)"

definition wg_ready :: "wg_view \<Rightarrow> bool" where
  "wg_ready v \<longleftrightarrow> is_available (wv_state v) \<and> wv_priorities v = length (wv_sems v)
     \<and> 0 < wv_priorities v \<and> wv_priorities v \<le> MAX_PRIORITY_ALLOWED
     \<and> (\<exists>r. wv_rec v = Some r \<and> rec_shape r = (MAX_PRIORITY_ALLOWED, True, the (wv_record v)))"

definition wg_shape :: "wg_view \<Rightarrow> wg_view \<Rightarrow> bool" where
  "wg_shape v v' \<longleftrightarrow> wv_record v' = wv_record v \<and> wv_state v' = wv_state v
     \<and> length (wv_sems v') = length (wv_sems v) \<and> wv_priorities v' = wv_priorities v
     \<and> (\<exists>r'. wv_rec v' = Some r' \<and> wv_table v' = lt_put (the (wv_record v)) r' (wv_table v)
           \<and> rec_shape r' = (MAX_PRIORITY_ALLOWED, True, the (wv_record v)))"

definition wg_to :: "nat \<Rightarrow> int \<Rightarrow> bool \<Rightarrow> wg_view \<Rightarrow> wg_view \<Rightarrow> bool" where
  "wg_to p d b v v' \<longleftrightarrow> wg_shape v v' \<and> holds p v' = b \<and> own p v' = own p v + d
     \<and> (\<forall>q. q \<noteq> p \<longrightarrow> holds q v' = holds q v \<and> wv_sems v' ! q = wv_sems v ! q)"

lemma lt_put_put [simp]: "lt_put i r (lt_put i r' t) = lt_put i r t"
  by (simp add: lt_put_def)

lemma wg_shape_refl: "wg_ready v \<Longrightarrow> wg_shape v v"
  by (auto simp: wg_ready_def wg_shape_def wv_rec_def lt_put_def split: option.splits if_splits)

lemma wg_shape_trans: "wg_shape v v' \<Longrightarrow> wg_shape v' v'' \<Longrightarrow> wg_shape v v''"
  by (auto simp: wg_shape_def)

lemma wg_shape_ready: "wg_shape v v' \<Longrightarrow> wg_ready v \<Longrightarrow> wg_ready v'"
  by (auto simp: wg_shape_def wg_ready_def)

lemma wg_to_trans: "wg_to p d1 b1 v v1 \<Longrightarrow> wg_to p d2 b2 v1 v2 \<Longrightarrow> wg_to p (d1 + d2) b2 v v2"
  using wg_shape_trans [of v v1 v2] by (auto simp: wg_to_def)

lemma wg_to_ready: "wg_to p d b v v' \<Longrightarrow> wg_ready v \<Longrightarrow> wg_ready v'"
  by (auto simp: wg_to_def wg_shape_ready)

lemma wg_to_refl: "wg_ready v \<Longrightarrow> wg_to p 0 (holds p v) v v"
  by (simp add: wg_to_def wg_shape_refl)

lemma wg_to_same: "wg_same v v' \<Longrightarrow> wg_ready v \<Longrightarrow> wg_to p 0 (holds p v) v v'"
proof -
  assume same: "wg_same v v'" and ready: "wg_ready v"
  have "wg_shape v v'"
    using wg_shape_refl [OF ready] wg_same_rec [OF same] same unfolding wg_same_def wg_shape_def by simp
  moreover have "holds q v' = holds q v" and "own q v' = own q v" for q
    using same by (simp_all add: own_def holds_def wg_same_rec) (simp add: wg_same_def)
  ultimately show ?thesis
    using same by (simp add: wg_to_def wg_same_def)
qed

lemma wg_to_set:
  assumes "wg_ready v" "wv_rec v = Some r" "rec_shape r' = rec_shape r"
    and lk: "\<And>q. q \<noteq> p \<Longrightarrow> lk q r' = lk q r"
  shows "wg_to p ((if lk p r' then 1 else 0) - (if lk p r then 1 else 0)) (lk p r') v (wv_set r' v)"
proof -
  have "wg_shape v (wv_set r' v)"
    using assms(1-3) by (auto simp: wg_shape_def wg_ready_def wg_run)
      (auto simp: wv_rec_def wv_set_def split: option.splits)
  then show ?thesis
    using assms by (auto simp: wg_to_def own_def holds_def wg_run)
qed

lemma wg_to_sems:
  assumes "wg_ready v" "p < length (wv_sems v)" and d: "int n = int (wv_sems v ! p) + d"
  shows "wg_to p d (holds p v) v (v\<lparr>wv_sems := (wv_sems v)[p := n]\<rparr>)"
proof -
  have "wg_shape v (v\<lparr>wv_sems := (wv_sems v)[p := n]\<rparr>)"
    using wg_shape_refl [OF assms(1)] unfolding wg_shape_def by (simp add: wg_run)
  then show ?thesis
    using d assms(2) by (auto simp: wg_to_def own_def holds_def wg_run)
qed

subsection \<open>The steps of the calls\<close>

definition wg_does :: "'a wg_cmd \<Rightarrow> 'a \<Rightarrow> nat \<Rightarrow> int \<Rightarrow> bool \<Rightarrow> wg_view \<Rightarrow> bool" where
  "wg_does m x p d b v \<longleftrightarrow> (\<exists>v'. m v = (Inr x, v') \<and> wg_to p d b v v')"

lemma wg_ready_rec:
  assumes "wg_ready v" "p < length (wv_sems v)"
  obtains r where "is_available (wv_state v)" "wv_rec v = Some r" "p < fst (rec_shape r)"
  using assms by (auto simp: wg_ready_def)

lemma wg_does_note:
  assumes "wg_ready v"
  shows "wg_does (sc_note_acquired e p) () p 0 (holds p v) v"
  using sc_note_same [of e p v] wg_to_same [OF _ assms] unfolding wg_does_def by blast

lemma wg_does_clear:
  assumes "wg_ready v"
  shows "wg_does (sc_clear_count p) () p 0 (holds p v) v"
  using sc_clear_same [of p v] wg_to_same [OF _ assms] unfolding wg_does_def by blast

lemma wg_does_post:
  assumes "wg_ready v" "p < length (wv_sems v)"
  shows "wg_does (sc_post p) () p 1 (holds p v) v"
  using wg_to_sems [OF assms, of "wv_sems v ! p + 1" 1] by (simp add: wg_does_def sc_post_def cmd_simps)

lemma wg_does_upd:
  assumes "wg_ready v" "p < length (wv_sems v)"
    and f: "\<And>r. p < fst (rec_shape r) \<Longrightarrow> rec_shape (f r) = rec_shape r \<and> (\<forall>q. lk q (f r) = (if q = p then g (lk p r) else lk q r))"
  shows "wg_does (tc_upd f) () p ((if g (holds p v) then 1 else 0) - (if holds p v then 1 else 0)) (g (holds p v)) v"
proof -
  obtain r where r: "wv_rec v = Some r" "p < fst (rec_shape r)"
    using wg_ready_rec [OF assms(1,2)] by metis
  show ?thesis
    using wg_to_set [OF assms(1) r(1), of "f r" p] f [OF r(2)] r(1) by (simp add: wg_does_def wg_run holds_def)
qed

lemma wg_does_update_lock:
  assumes "wg_ready v" "p < length (wv_sems v)"
  shows "wg_does (tc_update_lock now p) () p (if holds p v then 0 else 1) True v"
proof -
  have "tc_update_lock now p v = tc_upd (rec_set_pl p (\<lambda>_. \<lparr>pl_state = Locked, pl_acquired_time = now\<rparr>)) v"
    using assms(1) by (simp add: tc_update_lock_def wg_ready_def wg_run)
  then show ?thesis
    using wg_does_upd [OF assms, of "rec_set_pl p (\<lambda>_. \<lparr>pl_state = Locked, pl_acquired_time = now\<rparr>)" "\<lambda>_. True"]
    by (cases "holds p v") (simp_all add: wg_does_def rec_simps)
qed

lemma wg_does_quota:
  assumes "wg_ready v" "p < length (wv_sems v)"
  shows "wg_does (tc_reset_quota) () p 0 (holds p v) v"
    and "wg_does (tc_update_quota k) () p 0 (holds p v) v"
    and "wg_does (tc_upd (rec_add_quota k)) () p 0 (holds p v) v"
  using wg_does_upd [OF assms, of "rec_set_used_quota 0" "\<lambda>b. b"] wg_does_upd [OF assms, of "rec_add_quota k" "\<lambda>b. b"] assms(1)
  by (simp_all add: wg_does_def tc_reset_quota_def tc_update_quota_def wg_ready_def wg_run rec_simps)

lemma wg_does_release:
  assumes "wg_ready v" "p < length (wv_sems v)" "st = Locked \<or> st = Expired \<or> st = ReleaseLock"
  shows "wg_does (tc_release_lock st p) () p (if holds p v then - 1 else 0) False v"
proof -
  let ?f = "if st = ReleaseLock then rec_set_state p QuotaReached else rec_release p"
  have "tc_release_lock st p v = tc_upd (\<lambda>r. if pl_state (rec_pl r p) = Locked then ?f r else r) v"
    using assms by (auto simp: tc_release_lock_def wg_ready_def wg_run)
  then show ?thesis
    using wg_does_upd [OF assms(1,2), of "\<lambda>r. if pl_state (rec_pl r p) = Locked then ?f r else r" "\<lambda>_. False"]
    by (cases "holds p v") (auto simp: wg_does_def rec_simps lk_def [symmetric])
qed

lemma wg_does_valid:
  assumes "wg_ready v" "p < length (wv_sems v)"
  shows "\<exists>st v'. tc_has_valid_lock now p k v = (Inr st, v') \<and> wg_to p 0 (holds p v) v v'
           \<and> (st = Locked \<or> st = Expired \<or> st = ReleaseLock \<longleftrightarrow> holds p v)"
proof -
  obtain r where r: "is_available (wv_state v)" "wv_rec v = Some r" "p < fst (rec_shape r)"
    using wg_ready_rec [OF assms] .
  obtain st r' where h: "rec_has_valid (lt_header (wv_table v)) now p k r = (st, r')"
    by (cases "rec_has_valid (lt_header (wv_table v)) now p k r")
  note run = tc_has_valid_run(1) [OF r(1,2) h]
  have same: "lk q r' = lk q r" for q
    by (rule rec_has_valid_lk(1) [OF h r(3)])
  have "wg_to p 0 (holds p v) v (wv_set r' v)"
    using wg_to_set [OF assms(1) r(2) rec_has_valid_lk(2) [OF h r(3)], of p] same r(2) by (simp add: holds_def)
  then show ?thesis
    using run rec_has_valid_lk(3) [OF h r(3)] r(2) by (simp add: holds_def)
qed

lemma wg_does_sync:
  assumes "wg_ready v"
  shows "\<exists>x v'. sc_sync_id t p v = (x, v') \<and> wg_to p 0 (holds p v) v v'"
  using sc_sync_same [of t p v] wg_to_same [OF _ assms] by blast

subsection \<open>The calls\<close>

text \<open>
  \<open>wg_wp p d Q m v\<close>: the call \<open>m\<close> ends in a state whose \<open>own p\<close> has moved by \<open>d\<close>, and \<open>Q\<close> holds of its
  outcome and of whether the process then holds \<open>p\<close>. One rule takes a step off a sequence.
\<close>

definition wg_at :: "nat \<Rightarrow> wg_view \<Rightarrow> bool" where
  "wg_at p v \<longleftrightarrow> wg_ready v \<and> p < length (wv_sems v)"

definition wg_wp :: "nat \<Rightarrow> int \<Rightarrow> (exc + 'a \<Rightarrow> bool \<Rightarrow> bool) \<Rightarrow> 'a wg_cmd \<Rightarrow> wg_view \<Rightarrow> bool" where
  "wg_wp p d Q m v \<longleftrightarrow> (\<exists>r v'. m v = (r, v') \<and> wg_to p d (holds p v') v v' \<and> Q r (holds p v'))"

lemma wg_to_at: "wg_to p d b v v' \<Longrightarrow> wg_at p v \<Longrightarrow> wg_at p v' \<and> holds p v' = b"
  using wg_to_ready by (auto simp: wg_at_def wg_to_def wg_shape_def)

lemma wg_wp_bind:
  assumes "wg_does m x p d1 b v" and at: "wg_at p v"
    and k: "\<And>v1. wg_at p v1 \<Longrightarrow> holds p v1 = b \<Longrightarrow> wg_wp p (d - d1) Q (k x) v1"
  shows "wg_wp p d Q (c_bind m k) v"
proof -
  obtain v1 where m: "m v = (Inr x, v1)" and t: "wg_to p d1 b v v1"
    using assms(1) unfolding wg_does_def by blast
  have "wg_wp p (d - d1) Q (k x) v1"
    using k wg_to_at [OF t at] by blast
  then obtain r v' where r: "k x v1 = (r, v')" "wg_to p (d - d1) (holds p v') v1 v'" "Q r (holds p v')"
    unfolding wg_wp_def by blast
  have "wg_to p d (holds p v') v v'"
    using wg_to_trans [OF t r(2)] by simp
  then show ?thesis
    using r m by (simp add: wg_wp_def c_bind_def)
qed

named_theorems wg_steps

lemma wg_wp_ret [wg_steps]: "wg_at p v \<Longrightarrow> d = 0 \<Longrightarrow> Q (Inr x) (holds p v) \<Longrightarrow> wg_wp p d Q (c_ret x) v"
  using wg_to_refl [of v p] by (simp add: wg_wp_def wg_at_def c_ret_def)

lemma wg_wp_note [wg_steps]:
  assumes "wg_at p v"
    and "\<And>v1. wg_at p v1 \<Longrightarrow> holds p v1 = holds p v \<Longrightarrow> wg_wp p d Q (k ()) v1"
  shows "wg_wp p d Q (c_bind (sc_note_acquired e p) k) v"
  by (rule wg_wp_bind [OF wg_does_note assms(1)]) (use assms in \<open>simp_all add: wg_at_def\<close>)

lemma wg_wp_clear [wg_steps]:
  assumes "wg_at p v"
    and "\<And>v1. wg_at p v1 \<Longrightarrow> holds p v1 = holds p v \<Longrightarrow> wg_wp p d Q (k ()) v1"
  shows "wg_wp p d Q (c_bind (sc_clear_count p) k) v"
  by (rule wg_wp_bind [OF wg_does_clear assms(1)]) (use assms in \<open>simp_all add: wg_at_def\<close>)

lemma wg_wp_post [wg_steps]:
  assumes "wg_at p v"
    and "\<And>v1. wg_at p v1 \<Longrightarrow> holds p v1 = holds p v \<Longrightarrow> wg_wp p (d - 1) Q (k ()) v1"
  shows "wg_wp p d Q (c_bind (sc_post p) k) v"
  by (rule wg_wp_bind [OF wg_does_post assms(1)]) (use assms in \<open>simp_all add: wg_at_def\<close>)

lemma wg_wp_update_lock [wg_steps]:
  assumes "wg_at p v"
    and "\<And>v1. wg_at p v1 \<Longrightarrow> holds p v1 \<Longrightarrow> wg_wp p (d - (if holds p v then 0 else 1)) Q (k ()) v1"
  shows "wg_wp p d Q (c_bind (tc_update_lock now p) k) v"
  by (rule wg_wp_bind [OF wg_does_update_lock assms(1)]) (use assms in \<open>simp_all add: wg_at_def\<close>)

lemma wg_wp_quota [wg_steps]:
  assumes "wg_at p v"
    and "\<And>v1. wg_at p v1 \<Longrightarrow> holds p v1 = holds p v \<Longrightarrow> wg_wp p d Q (k ()) v1"
  shows "wg_wp p d Q (c_bind tc_reset_quota k) v"
    and "wg_wp p d Q (c_bind (tc_update_quota n) k) v"
    and "wg_wp p d Q (c_bind (tc_upd (rec_add_quota n)) k) v"
  by (rule wg_wp_bind [OF wg_does_quota(1) assms(1)] wg_wp_bind [OF wg_does_quota(2) assms(1)]
    wg_wp_bind [OF wg_does_quota(3) assms(1)]; use assms in \<open>simp add: wg_at_def\<close>)+

lemma wg_wp_release [wg_steps]:
  assumes "wg_at p v" "st = Locked \<or> st = Expired \<or> st = ReleaseLock"
    and "\<And>v1. wg_at p v1 \<Longrightarrow> \<not> holds p v1 \<Longrightarrow> wg_wp p (d + (if holds p v then 1 else 0)) Q (k ()) v1"
  shows "wg_wp p d Q (c_bind (tc_release_lock st p) k) v"
  by (rule wg_wp_bind [OF wg_does_release assms(1)]) (use assms in \<open>auto simp: wg_at_def split: if_splits\<close>)

lemma wg_wp_reset_locks [wg_steps]:
  assumes "wg_at p v" "st = Locked \<or> st = Expired \<or> st = ReleaseLock"
    and "\<And>v1. wg_at p v1 \<Longrightarrow> \<not> holds p v1 \<Longrightarrow> wg_wp p (d - (if holds p v then 0 else 1)) Q (k ()) v1"
  shows "wg_wp p d Q (c_bind (sc_reset_locks p st) k) v"
proof -
  have "wg_wp p d Q (c_bind (sc_clear_count p) (\<lambda>_. c_bind (tc_release_lock st p) (\<lambda>_. c_bind (sc_post p) k))) v"
    using assms by (auto intro!: wg_steps split: if_splits)
  then show ?thesis
    unfolding wg_wp_def by (simp add: sc_reset_locks_def c_bind_assoc [abs_def])
qed

lemma wg_wp_valid:
  assumes "wg_at p v"
    and "\<And>st v1. wg_at p v1 \<Longrightarrow> holds p v1 = holds p v \<Longrightarrow>
          (st = Locked \<or> st = Expired \<or> st = ReleaseLock \<longleftrightarrow> holds p v) \<Longrightarrow> wg_wp p d Q (k st) v1"
  shows "wg_wp p d Q (c_bind (tc_has_valid_lock now p n) k) v"
proof -
  obtain st v1 where "tc_has_valid_lock now p n v = (Inr st, v1)" "wg_to p 0 (holds p v) v v1"
    and st: "st = Locked \<or> st = Expired \<or> st = ReleaseLock \<longleftrightarrow> holds p v"
    using wg_does_valid [of v p now n] assms(1) unfolding wg_at_def by blast
  then have does: "wg_does (tc_has_valid_lock now p n) st p 0 (holds p v) v"
    by (simp add: wg_does_def)
  show ?thesis
    by (rule wg_wp_bind [OF does assms(1)]) (use assms(2) st in simp)
qed

lemma wg_wp_ite [wg_steps]:
  "(P v \<Longrightarrow> wg_wp p d Q m v) \<Longrightarrow> (\<not> P v \<Longrightarrow> wg_wp p d Q n v) \<Longrightarrow> wg_wp p d Q (\<lambda>w. if P w then m w else n w) v"
  by (simp add: wg_wp_def)


lemma wg_wp_keep [wg_steps]:
  assumes "wg_at p v"
    and "\<And>v1. wg_at p v1 \<Longrightarrow> holds p v1 = holds p v \<Longrightarrow> wg_wp p d Q (k ()) v1"
  shows "wg_wp p d Q (c_bind (sc_count p f) k) v" and "wg_wp p d Q (c_bind (sc_thread t g) k) v"
proof -
  have "wg_does (sc_count p f) () p 0 (holds p v) v" "wg_does (sc_thread t g) () p 0 (holds p v) v"
    using assms(1) by (simp_all add: wg_does_def sc_count_def sc_thread_def cmd_simps wg_at_def
        wg_same_def wg_to_same)
  note does = this [THEN wg_wp_bind, OF assms(1)]
  show "wg_wp p d Q (c_bind (sc_count p f) k) v"
    by (rule does(1)) (use assms(2) in simp)
  show "wg_wp p d Q (c_bind (sc_thread t g) k) v"
    by (rule does(2)) (use assms(2) in simp)
qed

lemma wg_wp_sync:
  assumes "wg_at p v" "map_of (wv_threads v) t = None \<Longrightarrow> d = 0 \<and> Q (Inl Control_error) (holds p v)"
    and "\<And>b v1. wg_at p v1 \<Longrightarrow> holds p v1 = holds p v \<Longrightarrow> wg_wp p d Q (k b) v1"
  shows "wg_wp p d Q (c_bind (sc_sync_id t p) k) v"
proof (cases "map_of (wv_threads v) t")
  case None
  then show ?thesis
    using assms(1,2) wg_to_refl [of v p]
    by (simp add: wg_wp_def c_bind_def sc_sync_id_def sc_get_thread_lock_def wg_at_def)
next
  case (Some r)
  then have "fst (sc_sync_id t p v) = Inr (li_id (tl_ids r ! p) = pc_index (wv_counts v ! p))"
    by (simp add: sc_sync_id_def sc_get_thread_lock_def sc_thread_def cmd_simps c_bind_def)
  then obtain b where "fst (sc_sync_id t p v) = Inr b"
    by blast
  then have does: "wg_does (sc_sync_id t p) b p 0 (holds p v) v"
    using wg_does_sync [of v t p] assms(1) by (auto simp: wg_does_def wg_at_def)
  show ?thesis
    by (rule wg_wp_bind [OF does assms(1)]) (use assms(3) in simp)
qed

lemma wg_wp_sync_if:
  assumes "wg_at p v" "d = 0" "Q (Inr x) (holds p v)" "map_of (wv_threads v) t \<noteq> None"
    and "\<And>v1. wg_at p v1 \<Longrightarrow> holds p v1 = holds p v \<Longrightarrow> wg_wp p d Q m v1"
  shows "wg_wp p d Q (c_bind (sc_sync_id t p) (\<lambda>same. if \<not> same then c_ret x else m)) v"
  by (rule wg_wp_sync [OF assms(1)]) (use assms in \<open>auto intro: wg_steps\<close>)

lemma wg_wp_check:
  assumes "wg_at p v" "P v \<Longrightarrow> wg_wp p d Q (k ()) v"
    and "\<not> P v \<Longrightarrow> d = 0 \<and> Q (Inl e) (holds p v)"
  shows "wg_wp p d Q (c_bind (c_check e P) k) v"
  using assms wg_to_refl [of v p] by (auto simp: wg_wp_def c_bind_def c_check_def wg_at_def)

subsection \<open>Taking a lock\<close>

definition got_iff_held :: "exc + wg_lock_state \<Rightarrow> bool \<Rightarrow> bool" where
  "got_iff_held r b \<longleftrightarrow> (b \<longleftrightarrow> r = Inr Locked)"

lemma sc_sem_cases:
  assumes "wg_at p v"
  obtains (taken) v1 where "sc_sem w p v = (Inr True, v1)" "wg_to p (- 1) (holds p v) v v1"
    | (not) r where "sc_sem w p v = (r, v)" "r = (if w then Inl Blocked else Inr False)"
proof (cases "wv_sems v ! p > 0")
  case True
  then show ?thesis
    using taken wg_to_sems [of v p "wv_sems v ! p - 1" "- 1"] assms by (simp add: sc_sem_def wg_at_def)
next
  case False
  then show ?thesis
    using not by (simp add: sc_sem_def)
qed

lemma wg_wp_taken:
  assumes "wg_at p v" "\<not> holds p v"
    and take: "\<And>v1. wg_at p v1 \<Longrightarrow> \<not> holds p v1 \<Longrightarrow> wg_wp p 1 Q (k True) v1"
    and not: "Q (Inl Blocked) False" "wg_wp p 0 Q (k False) v"
  shows "wg_wp p 0 Q (c_bind (sc_sem w p) k) v"
proof (cases rule: sc_sem_cases [OF assms(1), of w])
  case (1 v1)
  then show ?thesis
    using wg_wp_bind [of "sc_sem w p" True p "- 1" False v 0 Q k] take assms(1,2) by (simp add: wg_does_def)
next
  case (2 r)
  then show ?thesis
    using not assms(1,2) wg_to_refl [of v p]
    by (cases w) (auto simp: wg_wp_def c_bind_def wg_at_def)
qed

lemma wg_wp_acquire:
  assumes "wg_at p v" "\<not> holds p v"
  shows "wg_wp p 0 got_iff_held (sc_acquire e p w) v"
  unfolding sc_acquire_def
  by (rule wg_wp_taken [OF assms])
    (use assms in \<open>auto simp: got_iff_held_def intro!: wg_steps\<close>)

lemma wg_wp_acquire_base:
  assumes "wg_at BASE_PRIORITY v" "\<not> holds BASE_PRIORITY v"
  shows "wg_wp BASE_PRIORITY 0 got_iff_held (sc_acquire_base e n w) v"
  unfolding sc_acquire_base_def
  by (rule wg_wp_taken [OF assms])
    (use assms in \<open>auto simp: got_iff_held_def intro!: wg_steps\<close>)

lemma wg_wp_mono: "wg_wp p d Q m v \<Longrightarrow> (\<And>r b. Q r b \<Longrightarrow> Q' r b) \<Longrightarrow> wg_wp p d Q' m v"
  by (auto simp: wg_wp_def)

text \<open>A call that is refused for its arguments or its thread leaves what it found.\<close>

definition sc_refused :: "tid \<Rightarrow> nat list \<Rightarrow> wg_view \<Rightarrow> bool" where
  "sc_refused t ps v \<longleftrightarrow> map_of (wv_threads v) t = None \<or> (\<exists>p \<in> set ps. \<not> p < wv_priorities v)"

lemma wg_wp_try_lock:
  assumes "wg_at p v" "\<not> sc_refused (ce_tid e) [p, base] v"
  shows "wg_wp p 0 got_iff_held (sc_try_lock e p n base w) v"
  unfolding sc_try_lock_def sc_check_priority_def
proof (intro wg_wp_check wg_wp_sync wg_wp_valid)
  fix b v1 st v2
  assume "wg_at p v2" "holds p v2 = holds p v1" "st = Locked \<or> st = Expired \<or> st = ReleaseLock \<longleftrightarrow> holds p v1"
  then show "wg_wp p 0 got_iff_held (if st = Locked then c_bind (sc_note_acquired e p) (\<lambda>_. c_ret Locked)
     else if st = Expired then c_bind (sc_reset_locks p st) (\<lambda>_. sc_acquire e p w)
     else if st = ReleaseLock then c_bind (sc_reset_locks p st) (\<lambda>_. c_ret QuotaReached)
     else if st = QuotaReached then c_ret st
     else if st = ForceReleased then c_bind (sc_clear_count p) (\<lambda>_. sc_acquire e p w)
     else sc_acquire e p w) v2"
    by (auto simp: got_iff_held_def [abs_def] intro!: wg_steps wg_wp_acquire [unfolded got_iff_held_def [abs_def]])
qed (use assms in \<open>auto simp: sc_refused_def\<close>)

text \<open>A release waits for nothing.\<close>

definition freed_ok :: "exc + bool \<Rightarrow> bool \<Rightarrow> bool" where
  "freed_ok r b \<longleftrightarrow> r \<noteq> Inl Blocked \<and> (r = Inr True \<longrightarrow> \<not> b)"

lemma wg_wp_drop:
  assumes "wg_at p v" "holds p v"
  shows "wg_wp p 0 (\<lambda>r b. r = Inr (\<not> b)) (sc_drop e p) v"
  unfolding sc_drop_def using assms by (auto intro!: wg_steps)

lemma wg_wp_release_lock:
  assumes "wg_at p v" "\<not> sc_refused (ce_tid e) [p, base] v"
  shows "wg_wp p 0 freed_ok (sc_release_lock e p base) v"
  unfolding sc_release_lock_def sc_check_priority_def
proof (intro wg_wp_check wg_wp_sync_if wg_wp_valid)
  fix v1 st v2
  assume "wg_at p v2" "holds p v2 = holds p v1" "st = Locked \<or> st = Expired \<or> st = ReleaseLock \<longleftrightarrow> holds p v1"
  then show "wg_wp p 0 freed_ok (if st = Locked then sc_drop e p
       else if st = Expired then c_bind (sc_reset_locks p st) (\<lambda>_. c_ret True)
       else if st = ForceReleased then c_bind (sc_clear_count p) (\<lambda>_. c_ret False)
       else c_ret False) v2"
    by (auto simp: freed_ok_def intro!: wg_steps wg_wp_drop [THEN wg_wp_mono])
qed (use assms in \<open>auto simp: sc_refused_def freed_ok_def intro!: wg_steps\<close>)

text \<open>
  The base priority. \<open>check_and_lock\<close> has given an expired lock up before \<open>reset_locks\<close> posts its
  unit, so the two together move nothing.
\<close>

lemma wg_wp_gone:
  assumes "wg_at p v" "\<not> holds p v" "st = Locked \<or> st = Expired \<or> st = ReleaseLock"
    and "\<And>v1. wg_at p v1 \<Longrightarrow> \<not> holds p v1 \<Longrightarrow> wg_wp p (d - 1) Q (k ()) v1"
  shows "wg_wp p d Q (c_bind (sc_reset_locks p st) k) v"
proof -
  have "wg_wp p d Q (c_bind (sc_clear_count p) (\<lambda>_. c_bind (tc_release_lock st p) (\<lambda>_. c_bind (sc_post p) k))) v"
    using assms by (auto intro!: wg_steps split: if_splits)
  then show ?thesis
    unfolding wg_wp_def by (simp add: sc_reset_locks_def c_bind_assoc [abs_def])
qed

lemma wg_wp_check_and_lock:
  assumes "wg_at BASE_PRIORITY v"
    and "\<And>st v1. wg_at BASE_PRIORITY v1 \<Longrightarrow> holds BASE_PRIORITY v1 = (holds BASE_PRIORITY v \<and> st \<noteq> Expired)
      \<Longrightarrow> (st = Locked \<or> st = Expired \<or> st = ReleaseLock \<longleftrightarrow> holds BASE_PRIORITY v)
      \<Longrightarrow> wg_wp BASE_PRIORITY (d + (if st = Expired then 1 else 0)) Q (k st) v1"
  shows "wg_wp BASE_PRIORITY d Q (c_bind (tc_check_and_lock now n) k) v"
proof -
  have av: "is_available (wv_state v)"
    using assms(1) by (simp add: wg_at_def wg_ready_def)
  have "wg_wp BASE_PRIORITY d Q (c_bind (tc_has_valid_lock now BASE_PRIORITY n) (\<lambda>ls.
     c_bind (if ls = Expired then tc_release_lock ls BASE_PRIORITY
             else if ls = Locked then tc_upd (rec_add_quota n)
             else c_ret ()) (\<lambda>_. k ls))) v"
  proof (rule wg_wp_valid [OF assms(1)])
    fix st v1
    assume v1: "wg_at BASE_PRIORITY v1" "holds BASE_PRIORITY v1 = holds BASE_PRIORITY v"
      and st: "st = Locked \<or> st = Expired \<or> st = ReleaseLock \<longleftrightarrow> holds BASE_PRIORITY v"
    have nil: "wg_wp BASE_PRIORITY d Q (k x) v1 \<Longrightarrow> wg_wp BASE_PRIORITY d Q (c_bind (c_ret ()) (\<lambda>_. k x)) v1" for x
      by (simp add: wg_wp_def cmd_simps)
    show "wg_wp BASE_PRIORITY d Q (c_bind (if st = Expired then tc_release_lock st BASE_PRIORITY
             else if st = Locked then tc_upd (rec_add_quota n) else c_ret ()) (\<lambda>_. k st)) v1"
      using v1 st assms(2) [of _ st] by (auto intro!: wg_wp_release wg_wp_quota nil)
  qed
  then show ?thesis
    unfolding wg_wp_def using av
    by (simp add: tc_check_and_lock_def c_bind_assoc [abs_def] tc_check_run c_bind_ret(1) [abs_def])
qed

lemma wg_wp_try_lock_base:
  assumes "wg_at BASE_PRIORITY v" "\<not> sc_refused (ce_tid e) [base] v"
  shows "wg_wp BASE_PRIORITY 0 got_iff_held (sc_try_lock_base e n base w) v"
  unfolding sc_try_lock_base_def sc_check_priority_def
proof (intro wg_wp_check wg_wp_sync wg_wp_check_and_lock)
  fix b v1 st v2
  assume "wg_at BASE_PRIORITY v2" "holds BASE_PRIORITY v2 = (holds BASE_PRIORITY v1 \<and> st \<noteq> Expired)"
    "st = Locked \<or> st = Expired \<or> st = ReleaseLock \<longleftrightarrow> holds BASE_PRIORITY v1"
  then show "wg_wp BASE_PRIORITY (0 + (if st = Expired then 1 else 0)) got_iff_held
     (if st = Locked then c_bind (sc_note_acquired e BASE_PRIORITY) (\<lambda>_. c_ret Locked)
     else if st = QuotaReached then c_ret st
     else if st = Expired then c_bind (sc_reset_locks BASE_PRIORITY st) (\<lambda>_. sc_acquire_base e n w)
     else if st = ReleaseLock then c_bind (sc_reset_locks BASE_PRIORITY st) (\<lambda>_. c_ret QuotaReached)
     else if st = ForceReleased
     then c_bind (sc_clear_count BASE_PRIORITY) (\<lambda>_. c_bind tc_reset_quota (\<lambda>_. sc_acquire_base e n w))
     else sc_acquire_base e n w) v2"
    by (auto simp: got_iff_held_def [abs_def]
        intro!: wg_steps wg_wp_acquire_base [unfolded got_iff_held_def [abs_def]])
qed (use assms in \<open>auto simp: sc_refused_def\<close>)

lemma wg_wp_release_lock_base:
  assumes "wg_at BASE_PRIORITY v" "\<not> sc_refused (ce_tid e) [base] v"
  shows "wg_wp BASE_PRIORITY 0 freed_ok (sc_release_lock_base e base) v"
  unfolding sc_release_lock_base_def sc_check_priority_def
proof (intro wg_wp_check wg_wp_sync_if wg_wp_valid)
  fix v1 st v2
  assume "wg_at BASE_PRIORITY v2" "holds BASE_PRIORITY v2 = holds BASE_PRIORITY v1"
    "st = Locked \<or> st = Expired \<or> st = ReleaseLock \<longleftrightarrow> holds BASE_PRIORITY v1"
  then show "wg_wp BASE_PRIORITY 0 freed_ok (if st = Locked then sc_drop e BASE_PRIORITY
       else if st = Expired then c_bind (sc_reset_locks BASE_PRIORITY st) (\<lambda>_. c_ret True)
       else if st = ForceReleased
       then c_bind (sc_clear_count BASE_PRIORITY) (\<lambda>_. c_bind tc_reset_quota (\<lambda>_. c_ret False))
       else c_ret False) v2"
    by (auto simp: freed_ok_def intro!: wg_steps wg_wp_drop [THEN wg_wp_mono])
qed (use assms in \<open>auto simp: sc_refused_def freed_ok_def intro!: wg_steps\<close>)

end
