(* ===== verification/WgSystem.thy ===== *)
theory WgSystem
  imports WgProps
begin

section \<open>Watergate: the processes, the table and the manager together\<close>

text \<open>
  Processes that register, take and release locks and leave, and the manager that releases expired
  locks, as steps on one table and one set of semaphores, in any order. A thread that waits for a
  semaphore holds the mutex of its priority (\<open>counts[priority]->priority_lock\<close>), so that its process
  does nothing at that priority until it resumes. A call is one step here. In the code it is not:
  the manager's pass may come between a client's look at its record and what it does about it.
\<close>

subsection \<open>Calls\<close>

datatype wg_act =
    Try_lock call_env nat int nat bool
  | Try_lock_base call_env int nat bool
  | Release_lock call_env nat nat
  | Release_lock_base call_env nat

datatype wg_answer = Got wg_lock_state | Freed bool

fun act_priority :: "wg_act \<Rightarrow> nat" where
  "act_priority (Try_lock e p n base w) = p"
| "act_priority (Try_lock_base e n base w) = BASE_PRIORITY"
| "act_priority (Release_lock e p base) = p"
| "act_priority (Release_lock_base e base) = BASE_PRIORITY"

fun act_run :: "wg_act \<Rightarrow> wg_answer wg_cmd" where
  "act_run (Try_lock e p n base w) = c_bind (sc_try_lock e p n base w) (\<lambda>x. c_ret (Got x))"
| "act_run (Try_lock_base e n base w) = c_bind (sc_try_lock_base e n base w) (\<lambda>x. c_ret (Got x))"
| "act_run (Release_lock e p base) = c_bind (sc_release_lock e p base) (\<lambda>x. c_ret (Freed x))"
| "act_run (Release_lock_base e base) = c_bind (sc_release_lock_base e base) (\<lambda>x. c_ret (Freed x))"

text \<open>The rest of a call that waits, once its semaphore has a unit for it.\<close>

fun act_resume :: "wg_act \<Rightarrow> wg_answer wg_cmd" where
  "act_resume (Try_lock e p n base w) = c_bind (sc_acquire e p True) (\<lambda>x. c_ret (Got x))"
| "act_resume (Try_lock_base e n base w) = c_bind (sc_acquire_base e n True) (\<lambda>x. c_ret (Got x))"
| "act_resume (Release_lock e p base) = c_throw Blocked"
| "act_resume (Release_lock_base e base) = c_throw Blocked"

subsection \<open>Steps\<close>

record wg_sys =
  gs_table :: lock_table
  gs_sems :: "nat list"
  gs_procs :: "wg_view list"
  gs_waiting :: "(nat \<times> wg_act) list"

definition gs_view :: "wg_sys \<Rightarrow> nat \<Rightarrow> wg_view" where
  "gs_view s j = (gs_procs s ! j)\<lparr>wv_table := gs_table s, wv_sems := gs_sems s\<rparr>"

definition gs_put :: "nat \<Rightarrow> wg_view \<Rightarrow> wg_sys \<Rightarrow> wg_sys" where
  "gs_put j v s = s\<lparr>gs_table := wv_table v, gs_sems := wv_sems v, gs_procs := (gs_procs s)[j := v]\<rparr>"

definition gs_wait :: "nat \<Rightarrow> wg_act \<Rightarrow> exc + wg_answer \<Rightarrow> wg_sys \<Rightarrow> wg_sys" where
  "gs_wait j a r s = (if r = Inl Blocked then s\<lparr>gs_waiting := (j, a) # gs_waiting s\<rparr> else s)"

definition gs_free :: "wg_sys \<Rightarrow> nat \<Rightarrow> nat \<Rightarrow> bool" where
  "gs_free s j p \<longleftrightarrow> (\<forall>(i, a) \<in> set (gs_waiting s). i = j \<longrightarrow> act_priority a \<noteq> p)"

definition wg_view_new :: "nat \<Rightarrow> lock_table \<Rightarrow> nat list \<Rightarrow> wg_view" where
  "wg_view_new n t sems = \<lparr>wv_state = state_new, wv_record = None, wv_priorities = n,
     wv_counts = replicate n \<lparr>pc_count = 0, pc_index = 0\<rparr>, wv_threads = [], wv_table = t, wv_sems = sems\<rparr>"

inductive gstep :: "wg_sys \<Rightarrow> bool \<Rightarrow> wg_sys \<Rightarrow> bool" where
  call: "j < length (gs_procs s) \<Longrightarrow> wv_record (gs_procs s ! j) \<noteq> None \<Longrightarrow> gs_free s j (act_priority a) \<Longrightarrow>
     act_run a (gs_view s j) = (r, v) \<Longrightarrow> gstep s False (gs_wait j a r (gs_put j v s))"
| resume: "(j, a) \<in> set (gs_waiting s) \<Longrightarrow> 0 < gs_sems s ! act_priority a \<Longrightarrow>
     act_resume a (gs_view s j) = (r, v) \<Longrightarrow>
     gstep s False (gs_put j v (s\<lparr>gs_waiting := removeAll (j, a) (gs_waiting s)\<rparr>))"
| register: "j < length (gs_procs s) \<Longrightarrow> wv_record (gs_procs s ! j) \<noteq> None \<Longrightarrow>
     sc_register_thread t (gs_view s j) = (r, v) \<Longrightarrow> gstep s False (gs_put j v s)"
| join: "tc_init app_name app_id pid now name (Some (gs_table s)) count
       (wg_view_new (length (gs_sems s)) (gs_table s) (gs_sems s)) = (Inr (), v) \<Longrightarrow>
     gstep s False (s\<lparr>gs_table := wv_table v, gs_procs := gs_procs s @ [v]\<rparr>)"
| expire: "so_check_expired_locks expiry now (gs_table s, gs_sems s) = (r, (t, sems)) \<Longrightarrow>
     gstep s False (s\<lparr>gs_table := t, gs_sems := sems\<rparr>)"
| leave: "j < length (gs_procs s) \<Longrightarrow> \<forall>a. (j, a) \<notin> set (gs_waiting s) \<Longrightarrow>
     tc_destroy pid (gs_view s j) = (r, v) \<Longrightarrow> wv_record v = None \<Longrightarrow> gstep s True (gs_put j v s)"

text \<open>\<open>greach n m leave s\<close>: \<open>s\<close> is reached with \<open>n\<close> priorities of \<open>m\<close> units; \<open>leave\<close>: processes may leave.\<close>

inductive greach :: "nat \<Rightarrow> nat \<Rightarrow> bool \<Rightarrow> wg_sys \<Rightarrow> bool" for n m leaving where
  init: "0 < n \<Longrightarrow> n \<le> MAX_PRIORITY_ALLOWED \<Longrightarrow> count < 2 ^ 16 \<Longrightarrow>
     ltm_init name lease quota None count overwrite = Inr t \<Longrightarrow>
     greach n m leaving \<lparr>gs_table = t, gs_sems = replicate n m, gs_procs = [], gs_waiting = []\<rparr>"
| step: "greach n m leaving s \<Longrightarrow> gstep s l s' \<Longrightarrow> l \<longrightarrow> leaving \<Longrightarrow> greach n m leaving s'"

text \<open>The locks of a priority that the table shows, and with the free units of its semaphore.\<close>

definition gs_held :: "nat \<Rightarrow> wg_sys \<Rightarrow> nat" where
  "gs_held p s = length (filter (\<lambda>r. lc_used r \<and> lk p r) (lt_records (gs_table s)))"

definition gs_units :: "nat \<Rightarrow> wg_sys \<Rightarrow> nat" where
  "gs_units p s = gs_sems s ! p + gs_held p s"

subsection \<open>The calls as actions\<close>

fun act_env :: "wg_act \<Rightarrow> call_env" where
  "act_env (Try_lock e p n base w) = e"
| "act_env (Try_lock_base e n base w) = e"
| "act_env (Release_lock e p base) = e"
| "act_env (Release_lock_base e base) = e"

fun act_args :: "wg_act \<Rightarrow> nat list" where
  "act_args (Try_lock e p n base w) = [p, base]"
| "act_args (Try_lock_base e n base w) = [base]"
| "act_args (Release_lock e p base) = [p, base]"
| "act_args (Release_lock_base e base) = [base]"

definition act_refused :: "wg_act \<Rightarrow> wg_view \<Rightarrow> bool" where
  "act_refused a = sc_refused (ce_tid (act_env a)) (act_args a)"

definition act_ok :: "exc + wg_answer \<Rightarrow> bool \<Rightarrow> bool" where
  "act_ok r b \<longleftrightarrow> (r = Inl Blocked \<longrightarrow> \<not> b) \<and> (r = Inr (Got Locked) \<longrightarrow> b) \<and> (r = Inr (Freed True) \<longrightarrow> \<not> b)"

lemma sc_sync_none: "map_of (wv_threads v) t = None \<Longrightarrow> c_bind (sc_sync_id t p) k v = (Inl Control_error, v)"
  by (simp add: c_bind_def sc_sync_id_def sc_get_thread_lock_def)

lemma act_refused_run:
  assumes "act_refused a v"
  shows "\<exists>x. act_run a v = (Inl x, v) \<and> x \<noteq> Blocked"
  using assms
  by (cases a) (auto simp: act_refused_def sc_refused_def sc_try_lock_def sc_try_lock_base_def
      sc_release_lock_def sc_release_lock_base_def sc_check_priority_def c_bind_assoc c_bind_ret(5) sc_sync_none)

lemma wg_wp_answer:
  assumes "wg_wp p d Q m v" "\<And>x b. Q (Inr x) b \<Longrightarrow> act_ok (Inr (f x)) b" "\<And>e b. Q (Inl e) b \<Longrightarrow> act_ok (Inl e) b"
  shows "wg_wp p d act_ok (c_bind m (\<lambda>x. c_ret (f x))) v"
  using assms unfolding wg_wp_def c_bind_def c_ret_def by (auto split: sum.splits)

lemma act_wp:
  assumes "wg_at (act_priority a) v" "\<not> act_refused a v"
  shows "wg_wp (act_priority a) 0 act_ok (act_run a) v"
  using assms
  by (cases a) (auto simp: act_refused_def got_iff_held_def act_ok_def freed_ok_def
      intro!: wg_wp_answer wg_wp_try_lock wg_wp_try_lock_base wg_wp_release_lock wg_wp_release_lock_base)

lemma act_run_ok:
  assumes "wg_ready v" "act_run a v = (r, v')"
  obtains (refused) x where "r = Inl x" "x \<noteq> Blocked" "v' = v"
    | (ran) "act_priority a < length (wv_sems v)" "wg_to (act_priority a) 0 (holds (act_priority a) v') v v'"
        "act_ok r (holds (act_priority a) v')"
proof (cases "act_refused a v")
  case True
  then show ?thesis
    using refused act_refused_run assms(2) by fastforce
next
  case False
  then have at: "wg_at (act_priority a) v"
    using assms(1) by (cases a) (auto simp: act_refused_def sc_refused_def wg_at_def wg_ready_def BASE_PRIORITY_def)
  then show ?thesis
    using ran act_wp [OF at False] assms(2) by (auto simp: wg_wp_def wg_at_def)
qed

lemma act_resume_ok:
  assumes "wg_at (act_priority a) v" "\<not> holds (act_priority a) v" "act_resume a v = (r, v')"
  shows "wg_to (act_priority a) 0 (holds (act_priority a) v') v v'"
proof -
  have "wg_wp (act_priority a) 0 (\<lambda>r b. True) (act_resume a) v"
  proof (cases a)
    case (Try_lock e p n base w)
    then show ?thesis
      using assms(1,2) by (auto intro!: wg_wp_answer [THEN wg_wp_mono] wg_wp_acquire simp: got_iff_held_def act_ok_def)
  next
    case (Try_lock_base e n base w)
    then show ?thesis
      using assms(1,2) by (auto intro!: wg_wp_answer [THEN wg_wp_mono] wg_wp_acquire_base simp: got_iff_held_def act_ok_def)
  qed (use assms(1) wg_to_refl [of v] in \<open>auto simp: wg_wp_def wg_at_def c_throw_def\<close>)
  then show ?thesis
    using assms(3) by (auto simp: wg_wp_def)
qed

subsection \<open>The invariant\<close>

definition view_ok :: "nat \<Rightarrow> lock_table \<Rightarrow> wg_view \<Rightarrow> bool" where
  "view_ok n t v = (case wv_record v of None \<Rightarrow> True
     | Some i \<Rightarrow> i < length (lt_records t) \<and> lc_used (lt_records t ! i) \<and> lc_index (lt_records t ! i) = i
         \<and> is_available (wv_state v) \<and> wv_priorities v = n)"

definition recs_ok :: "nat \<Rightarrow> lock_table \<Rightarrow> bool" where
  "recs_ok n t \<longleftrightarrow> (\<forall>i < length (lt_records t). length (lh_locks (lc_lock (lt_records t ! i))) = MAX_PRIORITY_ALLOWED
     \<and> (lc_used (lt_records t ! i) \<longrightarrow> (\<forall>p. n \<le> p \<and> p < MAX_PRIORITY_ALLOWED \<longrightarrow> \<not> lk p (lt_records t ! i))))"

definition recs_apart :: "wg_view list \<Rightarrow> bool" where
  "recs_apart ps \<longleftrightarrow> (\<forall>j k i. j < length ps \<and> k < length ps \<and> wv_record (ps ! j) = Some i
     \<and> wv_record (ps ! k) = Some i \<longrightarrow> j = k)"

definition waits_ok :: "nat \<Rightarrow> wg_sys \<Rightarrow> bool" where
  "waits_ok n s \<longleftrightarrow> (\<forall>j a. (j, a) \<in> set (gs_waiting s) \<longrightarrow> j < length (gs_procs s) \<and> act_priority a < n
     \<and> wv_record (gs_procs s ! j) \<noteq> None \<and> \<not> holds (act_priority a) (gs_view s j))"

definition ginv :: "nat \<Rightarrow> wg_sys \<Rightarrow> bool" where
  "ginv n s \<longleftrightarrow> length (gs_sems s) = n \<and> 0 < n \<and> n \<le> MAX_PRIORITY_ALLOWED
     \<and> th_max_records (lt_header (gs_table s)) = length (lt_records (gs_table s))
     \<and> recs_ok n (gs_table s)
     \<and> (\<forall>j < length (gs_procs s). view_ok n (gs_table s) (gs_procs s ! j))
     \<and> recs_apart (gs_procs s)
     \<and> waits_ok n s"

lemma ginv_distinct:
  "ginv n s \<Longrightarrow> j < length (gs_procs s) \<Longrightarrow> k < length (gs_procs s) \<Longrightarrow>
    wv_record (gs_procs s ! j) = Some i \<Longrightarrow> wv_record (gs_procs s ! k) = Some i \<Longrightarrow> j = k"
  by (simp add: ginv_def recs_apart_def)

lemma gs_view_simps [simp]:
  "wv_record (gs_view s j) = wv_record (gs_procs s ! j)" "wv_state (gs_view s j) = wv_state (gs_procs s ! j)"
  "wv_table (gs_view s j) = gs_table s" "wv_sems (gs_view s j) = gs_sems s"
  "wv_priorities (gs_view s j) = wv_priorities (gs_procs s ! j)"
  by (simp_all add: gs_view_def)

lemma wv_rec_gs: "wv_record (gs_procs s ! j) = Some i \<Longrightarrow> i < length (lt_records (gs_table s)) \<Longrightarrow>
    wv_rec (gs_view s j) = Some (lt_records (gs_table s) ! i)"
  by (simp add: wv_rec_def)

lemma ginv_view:
  assumes "ginv n s" "j < length (gs_procs s)" "wv_record (gs_procs s ! j) = Some i"
  shows "wg_ready (gs_view s j)" "i < length (lt_records (gs_table s))"
    "wv_rec (gs_view s j) = Some (lt_records (gs_table s) ! i)" "lc_used (lt_records (gs_table s) ! i)"
proof -
  have v: "view_ok n (gs_table s) (gs_procs s ! j)" and r: "recs_ok n (gs_table s)"
    using assms(1,2) by (auto simp: ginv_def)
  have i: "i < length (lt_records (gs_table s))"
    using v assms(3) by (simp add: view_ok_def)
  note rec = wv_rec_gs [OF assms(3) i]
  show "i < length (lt_records (gs_table s))" "wv_rec (gs_view s j) = Some (lt_records (gs_table s) ! i)"
    using i rec by simp_all
  show "lc_used (lt_records (gs_table s) ! i)"
    using v assms(3) by (simp add: view_ok_def)
  show "wg_ready (gs_view s j)"
    using v r assms i rec by (simp add: view_ok_def recs_ok_def ginv_def wg_ready_def rec_shape_def)
qed

text \<open>What a call at priority \<open>p\<close> that moves no unit does to the record of its process.\<close>

lemma call_rec:
  assumes "ginv n s" "j < length (gs_procs s)" "wv_record (gs_procs s ! j) = Some i"
    and "wg_to p 0 b (gs_view s j) v"
  obtains r where "wv_record v = Some i" "wv_state v = wv_state (gs_procs s ! j)"
    "wv_priorities v = wv_priorities (gs_procs s ! j)" "length (wv_sems v) = length (gs_sems s)"
    "wv_table v = lt_put i r (gs_table s)" "rec_shape r = (MAX_PRIORITY_ALLOWED, True, i)"
    "lk p r = b" "\<And>q. q \<noteq> p \<Longrightarrow> lk q r = lk q (lt_records (gs_table s) ! i) \<and> wv_sems v ! q = gs_sems s ! q"
    "wv_sems v ! p + (if b then 1 else 0) = gs_sems s ! p + (if lk p (lt_records (gs_table s) ! i) then 1 else 0)"
proof -
  note rec = ginv_view [OF assms(1-3)]
  obtain r where r: "wv_rec v = Some r" "wv_table v = lt_put i r (gs_table s)"
    "rec_shape r = (MAX_PRIORITY_ALLOWED, True, i)"
    using assms(3,4) by (auto simp: wg_to_def wg_shape_def)
  have lk: "holds q v = lk q r" "holds q (gs_view s j) = lk q (lt_records (gs_table s) ! i)" for q
    using r rec(3) by (simp_all add: holds_def)
  show thesis
  proof (rule that [OF _ _ _ _ r(2,3)])
    show "wv_sems v ! p + (if b then 1 else 0) = gs_sems s ! p + (if lk p (lt_records (gs_table s) ! i) then 1 else 0)"
      using assms(4) by (auto simp: wg_to_def own_def lk split: if_splits)
  qed (use assms(3,4) in \<open>auto simp: wg_to_def wg_shape_def lk\<close>)
qed

lemma gs_put_simps [simp]:
  "gs_table (gs_put j v s) = wv_table v" "gs_sems (gs_put j v s) = wv_sems v"
  "gs_procs (gs_put j v s) = (gs_procs s)[j := v]" "gs_waiting (gs_put j v s) = gs_waiting s"
  by (simp_all add: gs_put_def)

lemma lt_put_simps [simp]:
  "length (lt_records (lt_put i r t)) = length (lt_records t)" "lt_header (lt_put i r t) = lt_header t"
  "i < length (lt_records t) \<Longrightarrow> lt_records (lt_put i r t) ! k = (if k = i then r else lt_records t ! k)"
  by (auto simp: lt_put_def nth_list_update)

lemma call_units:
  assumes "ginv n s" "j < length (gs_procs s)" "wv_record (gs_procs s ! j) = Some i"
    and "wg_to p 0 b (gs_view s j) v"
  shows "gs_units q (gs_put j v s) = gs_units q s"
proof -
  note rec = ginv_view [OF assms(1-3)]
  obtain r where r: "wv_table v = lt_put i r (gs_table s)" "rec_shape r = (MAX_PRIORITY_ALLOWED, True, i)"
    "lk p r = b" "\<And>q. q \<noteq> p \<Longrightarrow> lk q r = lk q (lt_records (gs_table s) ! i) \<and> wv_sems v ! q = gs_sems s ! q"
    "wv_sems v ! p + (if b then 1 else 0) = gs_sems s ! p + (if lk p (lt_records (gs_table s) ! i) then 1 else 0)"
    using call_rec [OF assms] by metis
  have used: "lc_used r"
    using r(2) by (simp add: rec_shape_def)
  show ?thesis
    using filter_update_length [OF rec(2), of "\<lambda>r. lc_used r \<and> lk q r" r] r(3,5) r(4) [of q] used rec(4) r(1)
    by (cases "q = p") (auto simp: gs_units_def gs_held_def lt_put_def split: if_splits)
qed

lemma gs_view_put [simp]:
  assumes "j < length (gs_procs s)"
  shows "gs_view (gs_put j v s) k = (if k = j then v else (gs_procs s ! k)\<lparr>wv_table := wv_table v, wv_sems := wv_sems v\<rparr>)"
  using assms by (simp add: gs_view_def)

lemma holds_other:
  assumes "wv_record (gs_procs s ! k) = Some i'" "i' \<noteq> i" "i < length (lt_records (gs_table s))"
  shows "holds q ((gs_procs s ! k)\<lparr>wv_table := lt_put i r (gs_table s), wv_sems := z\<rparr>) = holds q (gs_view s k)"
  using assms by (simp add: holds_def wv_rec_def)

lemma call_ginv:
  assumes inv: "ginv n s" and j: "j < length (gs_procs s)" and i: "wv_record (gs_procs s ! j) = Some i"
    and to: "wg_to p 0 b (gs_view s j) v" and p: "p < n" and free: "gs_free s j p"
  shows "ginv n (gs_put j v s)"
proof -
  note rec = ginv_view [OF inv j i]
  obtain r where r: "wv_record v = Some i" "wv_state v = wv_state (gs_procs s ! j)"
    "wv_priorities v = wv_priorities (gs_procs s ! j)" "length (wv_sems v) = length (gs_sems s)"
    "wv_table v = lt_put i r (gs_table s)" "rec_shape r = (MAX_PRIORITY_ALLOWED, True, i)"
    "lk p r = b" "\<And>q. q \<noteq> p \<Longrightarrow> lk q r = lk q (lt_records (gs_table s) ! i) \<and> wv_sems v ! q = gs_sems s ! q"
    using call_rec [OF inv j i to] by metis
  have hv: "holds q v = lk q r" for q
    using r(1,5) rec(2) by (simp add: holds_def wv_rec_def)
  have "recs_ok n (wv_table v)"
    using inv r(5,6) r(8) p rec(2,4) unfolding ginv_def recs_ok_def by (auto simp: rec_shape_def)
  moreover have "view_ok n (wv_table v) (gs_procs (gs_put j v s) ! k)" if "k < length (gs_procs s)" for k
  proof -
    have "view_ok n (gs_table s) (gs_procs s ! k)" "view_ok n (gs_table s) (gs_procs s ! j)"
      using inv that j by (auto simp: ginv_def)
    then show ?thesis
      using that r i rec(2) by (cases "k = j") (auto simp: view_ok_def rec_shape_def split: option.splits)
  qed
  moreover have "waits_ok n (gs_put j v s)"
    unfolding waits_ok_def
  proof (intro allI impI)
    fix k a
    assume "(k, a) \<in> set (gs_waiting (gs_put j v s))"
    then have w: "(k, a) \<in> set (gs_waiting s)"
      by simp
    then have k: "k < length (gs_procs s)" "act_priority a < n" "wv_record (gs_procs s ! k) \<noteq> None"
      "\<not> holds (act_priority a) (gs_view s k)"
      using inv unfolding ginv_def waits_ok_def by auto
    have "\<not> holds (act_priority a) (gs_view (gs_put j v s) k)"
    proof (cases "k = j")
      case True
      then have "act_priority a \<noteq> p"
        using free w by (auto simp: gs_free_def)
      then show ?thesis
        using True k(4) r(8) hv j rec(3) by (simp add: holds_def)
    next
      case False
      obtain i' where i': "wv_record (gs_procs s ! k) = Some i'"
        using k(3) by blast
      have "i' \<noteq> i"
        using ginv_distinct [OF inv j k(1) i] False i' by blast
      then show ?thesis
        using False k(4) j r(5) holds_other [OF i' _ rec(2)] by simp
    qed
    then show "k < length (gs_procs (gs_put j v s)) \<and> act_priority a < n
        \<and> wv_record (gs_procs (gs_put j v s) ! k) \<noteq> None \<and> \<not> holds (act_priority a) (gs_view (gs_put j v s) k)"
      using k r(1) j by (auto simp: nth_list_update)
  qed
  moreover have "recs_apart (gs_procs (gs_put j v s))"
  proof -
    have "wv_record ((gs_procs s)[j := v] ! k) = wv_record (gs_procs s ! k)" for k
      using r(1) i j by (cases "k = j") simp_all
    then show ?thesis
      using inv by (simp add: recs_apart_def ginv_def)
  qed
  ultimately show ?thesis
    using inv r(4,5) unfolding ginv_def by simp
qed

subsection \<open>The other steps\<close>

lemma ginv_wait:
  assumes "ginv n s" "r = Inl Blocked \<Longrightarrow> j < length (gs_procs s) \<and> act_priority a < n
     \<and> wv_record (gs_procs s ! j) \<noteq> None \<and> \<not> holds (act_priority a) (gs_view s j)"
  shows "ginv n (gs_wait j a r s)" and "gs_units q (gs_wait j a r s) = gs_units q s"
  using assms by (auto simp: gs_wait_def ginv_def waits_ok_def gs_view_def gs_units_def gs_held_def)

lemma ginv_waits_less: "ginv n s \<Longrightarrow> set w \<subseteq> set (gs_waiting s) \<Longrightarrow> ginv n (s\<lparr>gs_waiting := w\<rparr>)"
  by (auto simp: ginv_def waits_ok_def gs_view_def)

text \<open>What the manager's pass over the locks does to a record, and to the counts.\<close>

lemma check_expired_rec:
  "lc_used (rec_check_expired h e now r) = lc_used r" "lc_index (rec_check_expired h e now r) = lc_index r"
  "length (lh_locks (lc_lock (rec_check_expired h e now r))) = length (lh_locks (lc_lock r))"
  by (simp_all add: rec_check_expired_def)

lemma check_expired_lk:
  assumes "p < length (lh_locks (lc_lock r))" "lc_used r"
  shows "lk p (rec_check_expired h e now r) \<longleftrightarrow> lk p r \<and> \<not> rec_expired_at h e now p r"
    and "rec_expired_at h e now p r \<longrightarrow> lk p r"
  using assms by (auto simp: rec_check_expired_def rec_expired_at_def rec_lock_expired_def lk_def rec_pl_def)

lemma so_post_from_ok:
  assumes "\<forall>i < length cs. cs ! i > 0 \<longrightarrow> p + i < length sems"
  shows "\<exists>s'. so_post_from p cs sems = (Inr (), s') \<and> length s' = length sems
    \<and> (\<forall>q < length sems. s' ! q = sems ! q + (if p \<le> q \<and> q < p + length cs then cs ! (q - p) else 0))"
  using assms
proof (induction cs arbitrary: p sems)
  case Nil
  then show ?case by simp
next
  case (Cons c cs)
  let ?sems = "if c = 0 then sems else sems[p := sems ! p + c]"
  have c: "c = 0 \<or> p < length sems"
    using Cons.prems by fastforce
  have "\<forall>i < length cs. cs ! i > 0 \<longrightarrow> Suc p + i < length ?sems"
    using Cons.prems by fastforce
  then obtain s' where s': "so_post_from (Suc p) cs ?sems = (Inr (), s')" "length s' = length ?sems"
    "\<forall>q < length ?sems. s' ! q = ?sems ! q + (if Suc p \<le> q \<and> q < Suc p + length cs then cs ! (q - Suc p) else 0)"
    using Cons.IH by blast
  have "so_post_from p (c # cs) sems = (Inr (), s')"
    using s'(1) c by auto
  moreover have "s' ! q = sems ! q + (if p \<le> q \<and> q < p + length (c # cs) then (c # cs) ! (q - p) else 0)"
    if "q < length sems" for q
  proof (cases "q = p")
    case True
    then show ?thesis using s'(3) that by (cases "c = 0") auto
  next
    case False
    then have "(c # cs) ! (q - p) = cs ! (q - Suc p)" if "p \<le> q"
      using that by (metis Suc_diff_Suc le_neq_implies_less nth_Cons_Suc)
    then show ?thesis using s'(3) that False by (cases "c = 0") auto
  qed
  ultimately show ?case
    using s'(2) by (cases "c = 0") auto
qed

lemma expired_count:
  assumes "\<forall>r \<in> set rs. p < length (lh_locks (lc_lock r))"
  shows "length (filter (\<lambda>r. lc_used r \<and> lk p r) (map (rec_check_expired h e now) rs))
      + length (filter (rec_expired_at h e now p) rs) = length (filter (\<lambda>r. lc_used r \<and> lk p r) rs)"
  using assms
proof (induction rs)
  case Nil
  then show ?case by simp
next
  case (Cons r rs)
  then show ?case
    using check_expired_lk [of p r h e now]
    by (cases "lc_used r") (auto simp: check_expired_rec rec_expired_at_def)
qed

lemma expire_step:
  assumes inv: "ginv n s" and run: "so_check_expired_locks expiry now (gs_table s, gs_sems s) = (r, (t, sems))"
  shows "ginv n (s\<lparr>gs_table := t, gs_sems := sems\<rparr>)"
    and "q < n \<Longrightarrow> gs_units q (s\<lparr>gs_table := t, gs_sems := sems\<rparr>) = gs_units q s"
proof -
  let ?rs = "lt_records (gs_table s)" and ?h = "lt_header (gs_table s)"
  let ?f = "rec_check_expired ?h expiry now"
  have ok: "recs_ok n (gs_table s)" "n \<le> MAX_PRIORITY_ALLOWED" "length (gs_sems s) = n"
    using inv by (simp_all add: ginv_def)
  have len: "\<forall>r \<in> set ?rs. p < length (lh_locks (lc_lock r))" if "p < MAX_PRIORITY_ALLOWED" for p
    using ok(1) that by (auto simp: recs_ok_def in_set_conv_nth)
  have counts: "\<not> rec_expired_at ?h expiry now p r" if "r \<in> set ?rs" "n \<le> p" "p < MAX_PRIORITY_ALLOWED" for p r
    using ok(1) that check_expired_lk(2) [OF len [OF that(3), rule_format, OF that(1)]]
    by (auto simp: recs_ok_def in_set_conv_nth rec_expired_at_def)
  let ?cs = "map (\<lambda>p. length (filter (rec_expired_at ?h expiry now p) ?rs)) [0..<MAX_PRIORITY_ALLOWED]"
  have "\<forall>i < length ?cs. ?cs ! i > 0 \<longrightarrow> 0 + i < length (gs_sems s)"
    using counts ok(3) by (auto simp: filter_empty_conv not_less [symmetric])
  then obtain s' where s': "so_post_from 0 ?cs (gs_sems s) = (Inr (), s')" "length s' = length (gs_sems s)"
    "\<forall>q < length (gs_sems s). s' ! q = gs_sems s ! q + (if 0 \<le> q \<and> q < 0 + length ?cs then ?cs ! (q - 0) else 0)"
    using so_post_from_ok by blast
  consider (refused) "t = gs_table s" "sems = gs_sems s"
    | (ran) "t = (gs_table s)\<lparr>lt_records := map ?f ?rs\<rparr>" "sems = s'"
    using run s'(1) inv by (auto simp: so_check_expired_locks_def ltm_check_expired_locks_def ginv_def Let_def split: if_splits)
  note cases = this
  have holds: "holds p ((gs_procs s ! j)\<lparr>wv_table := (gs_table s)\<lparr>lt_records := map ?f ?rs\<rparr>, wv_sems := z\<rparr>)
      \<longrightarrow> holds p (gs_view s j)" if "p < n" for p j z
    using check_expired_lk(1) [of p _ ?h expiry now] len ok(2) that
    by (auto simp: holds_def wv_rec_def gs_view_def rec_check_expired_def split: option.splits if_splits)
  show "ginv n (s\<lparr>gs_table := t, gs_sems := sems\<rparr>)"
  proof (cases rule: cases)
    case ran
    have "recs_ok n t"
      using ok ran check_expired_lk(1) by (auto simp: recs_ok_def check_expired_rec)
    moreover have "view_ok n t (gs_procs s ! j)" if "j < length (gs_procs s)" for j
      using inv that ran by (auto simp: ginv_def view_ok_def check_expired_rec split: option.splits)
    moreover have "waits_ok n (s\<lparr>gs_table := t, gs_sems := sems\<rparr>)"
      unfolding waits_ok_def
    proof (intro allI impI)
      fix j a
      assume "(j, a) \<in> set (gs_waiting (s\<lparr>gs_table := t, gs_sems := sems\<rparr>))"
      then have w: "(j, a) \<in> set (gs_waiting s)"
        by simp
      then have "\<not> holds (act_priority a) (gs_view s j)" "act_priority a < n"
        using inv unfolding ginv_def waits_ok_def by auto
      then have "\<not> holds (act_priority a) (gs_view (s\<lparr>gs_table := t, gs_sems := sems\<rparr>) j)"
        using holds [of "act_priority a" sems j] ran by (auto simp: gs_view_def)
      then show "j < length (gs_procs (s\<lparr>gs_table := t, gs_sems := sems\<rparr>)) \<and> act_priority a < n
        \<and> wv_record (gs_procs (s\<lparr>gs_table := t, gs_sems := sems\<rparr>) ! j) \<noteq> None
        \<and> \<not> holds (act_priority a) (gs_view (s\<lparr>gs_table := t, gs_sems := sems\<rparr>) j)"
        using inv w by (simp add: ginv_def waits_ok_def)
    qed
    ultimately show ?thesis
      using inv ran s'(2) by (simp add: ginv_def)
  qed (use inv in simp)
  show "gs_units q (s\<lparr>gs_table := t, gs_sems := sems\<rparr>) = gs_units q s" if "q < n"
  proof (cases rule: cases)
    case ran
    have "q < MAX_PRIORITY_ALLOWED"
      using that ok(2) by simp
    then show ?thesis
      using ran s'(3) that ok(3) expired_count [OF len, of q ?h expiry now] by (simp add: gs_units_def gs_held_def)
  qed simp
qed

lemma create_new_ok:
  assumes "lt_create_new_record a b pid now t = (Inr (Some i), t')"
  shows "i < length (lt_records t)" "\<not> lc_used (lt_records t ! i)"
    "lt_records t' = (lt_records t)[i := new_lock_record a b pid now i (lt_records t ! i)]"
    "th_max_records (lt_header t') = th_max_records (lt_header t)"
  using assms
  by (auto simp: lt_create_new_record_def lt_set_used_def lt_put_def Let_def split: if_splits prod.splits sum.splits)

lemma tc_init_ok:
  assumes "tc_init a b pid now name (Some t) count (wg_view_new n t sems) = (Inr (), v)"
  obtains i where "wv_record v = Some i" "wv_sems v = sems" "wv_priorities v = n" "is_available (wv_state v)"
    "i < length (lt_records t)" "\<not> lc_used (lt_records t ! i)"
    "lt_records (wv_table v) = (lt_records t)[i := new_lock_record a b pid now i (lt_records t ! i)]"
    "th_max_records (lt_header (wv_table v)) = th_max_records (lt_header t)"
proof -
  from assms obtain i t' where c: "lt_create_new_record a b pid now t = (Inr (Some i), t')"
    and v: "v = (wg_view_new n t sems)\<lparr>wv_state := set_state Available state_new, wv_table := t', wv_record := Some i\<rparr>"
    by (auto simp: tc_init_def wg_view_new_def wv_rec_def lt_create_def Let_def split: if_splits sum.splits prod.splits option.splits)
  show thesis
    using create_new_ok [OF c] by (intro that [of i]) (simp_all add: v wg_view_new_def state_simps)
qed

lemma new_record_facts:
  "lc_used (new_lock_record a b pid now i r)" "lc_index (new_lock_record a b pid now i r) = i"
  "length (lh_locks (lc_lock (new_lock_record a b pid now i r))) = MAX_PRIORITY_ALLOWED"
  "p < MAX_PRIORITY_ALLOWED \<Longrightarrow> \<not> lk p (new_lock_record a b pid now i r)"
  by (simp_all add: new_lock_record_def wg_reset_record_def lk_def rec_pl_def)

lemma join_step:
  assumes inv: "ginv n s"
    and run: "tc_init a b pid now name (Some (gs_table s)) count
      (wg_view_new (length (gs_sems s)) (gs_table s) (gs_sems s)) = (Inr (), v)"
  shows "ginv n (s\<lparr>gs_table := wv_table v, gs_procs := gs_procs s @ [v]\<rparr>)"
    and "q < n \<Longrightarrow> gs_units q (s\<lparr>gs_table := wv_table v, gs_procs := gs_procs s @ [v]\<rparr>) = gs_units q s"
proof -
  obtain i where i: "wv_record v = Some i" "wv_sems v = gs_sems s" "wv_priorities v = length (gs_sems s)"
    "is_available (wv_state v)" "i < length (lt_records (gs_table s))" "\<not> lc_used (lt_records (gs_table s) ! i)"
    "lt_records (wv_table v) = (lt_records (gs_table s))[i := new_lock_record a b pid now i (lt_records (gs_table s) ! i)]"
    "th_max_records (lt_header (wv_table v)) = th_max_records (lt_header (gs_table s))"
    using tc_init_ok [OF run] .
  let ?s = "s\<lparr>gs_table := wv_table v, gs_procs := gs_procs s @ [v]\<rparr>"
  have apart: "wv_record (gs_procs s ! j) \<noteq> Some i" if "j < length (gs_procs s)" for j
    using inv that i(6) by (auto simp: ginv_def view_ok_def split: option.splits)
  have "recs_ok n (wv_table v)"
    using inv i(5,7) by (auto simp: ginv_def recs_ok_def nth_list_update new_record_facts)
  moreover have "view_ok n (wv_table v) ((gs_procs s @ [v]) ! j)" if "j < Suc (length (gs_procs s))" for j
  proof (cases "j < length (gs_procs s)")
    case True
    then show ?thesis
      using inv apart [OF True] i(5,7)
      by (auto simp: ginv_def view_ok_def nth_append nth_list_update split: option.splits)
  next
    case False
    then show ?thesis
      using that i inv by (simp add: less_Suc_eq view_ok_def new_record_facts ginv_def)
  qed
  moreover have "recs_apart (gs_procs s @ [v])"
    using inv apart i(1) unfolding ginv_def recs_apart_def
    by (auto simp: nth_append less_Suc_eq)
  moreover have "waits_ok n ?s"
    unfolding waits_ok_def
  proof (intro allI impI)
    fix j c
    assume "(j, c) \<in> set (gs_waiting ?s)"
    then have w: "(j, c) \<in> set (gs_waiting s)"
      by simp
    then have j: "j < length (gs_procs s)" "act_priority c < n" "wv_record (gs_procs s ! j) \<noteq> None"
      "\<not> holds (act_priority c) (gs_view s j)"
      using inv unfolding ginv_def waits_ok_def by auto
    then have "\<not> holds (act_priority c) (gs_view ?s j)"
      using apart [OF j(1)] i(7)
      by (auto simp: holds_def wv_rec_def gs_view_def nth_append split: option.splits if_splits)
    then show "j < length (gs_procs ?s) \<and> act_priority c < n \<and> wv_record (gs_procs ?s ! j) \<noteq> None
        \<and> \<not> holds (act_priority c) (gs_view ?s j)"
      using j by (simp add: nth_append)
  qed
  ultimately show "ginv n ?s"
    using inv i by (simp add: ginv_def)
  show "gs_units q ?s = gs_units q s" if "q < n"
  proof -
    have "\<not> lk q (new_lock_record a b pid now i (lt_records (gs_table s) ! i))"
      using that inv by (simp add: new_record_facts ginv_def)
    then show ?thesis
      using filter_update_length [OF i(5), of "\<lambda>r. lc_used r \<and> lk q r" "new_lock_record a b pid now i (lt_records (gs_table s) ! i)"]
        i(6,7) by (simp add: gs_units_def gs_held_def)
  qed
qed

lemma remove_record_ok:
  assumes "lt_remove_record i t = (Inr (), t')"
  shows "i < length (lt_records t)" "lt_records t' = (lt_records t)[i := wg_reset_record (lt_records t ! i)]"
    "th_max_records (lt_header t') = th_max_records (lt_header t)"
  using assms
  by (auto simp: lt_remove_record_def lt_set_used_def lt_put_def Let_def split: if_splits prod.splits sum.splits bool.splits)

lemma reset_record_facts:
  "\<not> lc_used (wg_reset_record r)" "length (lh_locks (lc_lock (wg_reset_record r))) = MAX_PRIORITY_ALLOWED"
  by (simp_all add: wg_reset_record_def)

text \<open>A step that changes neither the table nor the semaphores.\<close>

lemma ginv_frame:
  assumes inv: "ginv n s" and j: "j < length (gs_procs s)" and v: "wv_record v = wv_record (gs_procs s ! j)" "view_ok n (gs_table s) v"
    "wv_table v = gs_table s" "wv_sems v = gs_sems s"
  shows "ginv n (gs_put j v s)" "gs_units q (gs_put j v s) = gs_units q s"
proof -
  have w: "wv_record ((gs_procs s)[j := v] ! k) = wv_record (gs_procs s ! k)" for k
    using v(1) j by (cases "k = j") simp_all
  have "view_ok n (gs_table s) ((gs_procs s)[j := v] ! k)" if "k < length (gs_procs s)" for k
    using inv that v(2) by (cases "k = j") (simp_all add: ginv_def)
  moreover have "holds p (gs_view (gs_put j v s) k) = holds p (gs_view s k)" for k p
    using v j by (cases "k = j"; cases "wv_record (gs_procs s ! j)") (simp_all add: holds_def wv_rec_def gs_view_def)
  ultimately show "ginv n (gs_put j v s)"
    using inv v(3,4) w by (simp add: ginv_def recs_apart_def waits_ok_def)
  show "gs_units q (gs_put j v s) = gs_units q s"
    using v(3,4) by (simp add: gs_units_def gs_held_def)
qed

lemma tc_destroy_ok:
  assumes "tc_destroy pid v0 = (r, v)" "wv_record v = None" "wv_record v0 = Some i" "wv_rec v0 = Some r0"
    "is_available (wv_state v0)"
  shows "lt_remove_record (lc_index r0) (wv_table v0) = (Inr (), wv_table v)" "wv_sems v = wv_sems v0"
proof -
  have "\<not> is_disposed (wv_state v0)"
    using assms(5) by (simp add: is_disposed_def is_available_def)
  moreover have "wv_rec (v0\<lparr>wv_state := x\<rparr>) = Some r0" for x
    using assms(3,4) by (simp add: wv_rec_def split: if_splits)
  ultimately show "lt_remove_record (lc_index r0) (wv_table v0) = (Inr (), wv_table v)" "wv_sems v = wv_sems v0"
    using assms(1-3) by (auto simp: tc_destroy_def Let_def split: if_splits prod.splits sum.splits)
qed

lemma leave_step:
  assumes inv: "ginv n s" and j: "j < length (gs_procs s)" and idle: "\<forall>a. (j, a) \<notin> set (gs_waiting s)"
    and run: "tc_destroy pid (gs_view s j) = (r, v)" "wv_record v = None"
  shows "ginv n (gs_put j v s)" and "gs_units q (gs_put j v s) \<le> gs_units q s"
proof -
  have "ginv n (gs_put j v s) \<and> gs_units q (gs_put j v s) \<le> gs_units q s"
  proof (cases "wv_record (gs_procs s ! j)")
    case None
    then have "wv_table v = gs_table s" "wv_sems v = gs_sems s"
      using run by (auto simp: tc_destroy_def wv_rec_def split: if_splits)
    then show ?thesis
      using ginv_frame [OF inv j, of v] None run(2) by (simp add: view_ok_def)
  next
    case (Some i)
    note rec = ginv_view [OF inv j Some]
    have view: "view_ok n (gs_table s) (gs_procs s ! j)"
      using inv j by (simp add: ginv_def)
    then have "lt_remove_record i (gs_table s) = (Inr (), wv_table v)" and sems: "wv_sems v = gs_sems s"
      using tc_destroy_ok [OF run _ rec(3)] Some by (simp_all add: view_ok_def)
    note rm = remove_record_ok [OF this(1)]
    have other: "wv_record (gs_procs s ! k) \<noteq> Some i" if "k < length (gs_procs s)" "k \<noteq> j" for k
      using ginv_distinct [OF inv that(1) j _ Some] that(2) by blast
    have "recs_ok n (wv_table v)"
      using inv rm by (auto simp: ginv_def recs_ok_def nth_list_update reset_record_facts)
    moreover have "view_ok n (wv_table v) ((gs_procs s)[j := v] ! k)" if "k < length (gs_procs s)" for k
      using inv other [OF that] rm run(2) that
      by (cases "k = j") (auto simp: ginv_def view_ok_def nth_list_update split: option.splits)
    moreover have "recs_apart ((gs_procs s)[j := v])"
      using inv run(2) j unfolding ginv_def recs_apart_def by (auto simp: nth_list_update)
    moreover have "waits_ok n (gs_put j v s)"
      unfolding waits_ok_def
    proof (intro allI impI)
      fix k a
      assume "(k, a) \<in> set (gs_waiting (gs_put j v s))"
      then have w: "(k, a) \<in> set (gs_waiting s)" "k \<noteq> j"
        using idle by auto
      then have k: "k < length (gs_procs s)" "act_priority a < n" "wv_record (gs_procs s ! k) \<noteq> None"
        "\<not> holds (act_priority a) (gs_view s k)"
        using inv unfolding ginv_def waits_ok_def by auto
      then have "\<not> holds (act_priority a) (gs_view (gs_put j v s) k)"
        using other [OF k(1) w(2)] rm w(2) j
        by (auto simp: holds_def wv_rec_def gs_view_def split: option.splits if_splits)
      then show "k < length (gs_procs (gs_put j v s)) \<and> act_priority a < n
          \<and> wv_record (gs_procs (gs_put j v s) ! k) \<noteq> None \<and> \<not> holds (act_priority a) (gs_view (gs_put j v s) k)"
        using k w(2) by simp
    qed
    moreover have "gs_held q (gs_put j v s) \<le> gs_held q s"
      using filter_update_length [OF rm(1), of "\<lambda>r. lc_used r \<and> lk q r" "wg_reset_record (lt_records (gs_table s) ! i)"]
        rm(2) by (simp add: gs_held_def reset_record_facts)
    ultimately show ?thesis
      using inv sems rm by (simp add: ginv_def gs_units_def)
  qed
  then show "ginv n (gs_put j v s)" "gs_units q (gs_put j v s) \<le> gs_units q s"
    by simp_all
qed

lemma register_step:
  assumes inv: "ginv n s" and j: "j < length (gs_procs s)" and run: "sc_register_thread t (gs_view s j) = (r, v)"
  shows "ginv n (gs_put j v s)" "gs_units q (gs_put j v s) = gs_units q s"
proof -
  have "view_ok n (gs_table s) (gs_procs s ! j)"
    using inv j by (simp add: ginv_def)
  then have v: "wv_record v = wv_record (gs_procs s ! j)" "view_ok n (gs_table s) v" "wv_table v = gs_table s"
    "wv_sems v = gs_sems s"
    using run by (auto simp: sc_register_thread_def view_ok_def split: option.splits)
  show "ginv n (gs_put j v s)" "gs_units q (gs_put j v s) = gs_units q s"
    using ginv_frame [OF inv j v] by simp_all
qed

lemma call_step:
  assumes inv: "ginv n s" and j: "j < length (gs_procs s)" and rec: "wv_record (gs_procs s ! j) \<noteq> None"
    and free: "gs_free s j (act_priority a)" and run: "act_run a (gs_view s j) = (r, v)"
  shows "ginv n (gs_wait j a r (gs_put j v s))" and "gs_units q (gs_wait j a r (gs_put j v s)) = gs_units q s"
proof -
  obtain i where i: "wv_record (gs_procs s ! j) = Some i"
    using rec by blast
  have "ginv n (gs_wait j a r (gs_put j v s)) \<and> gs_units q (gs_wait j a r (gs_put j v s)) = gs_units q s"
  proof (cases rule: act_run_ok [OF ginv_view(1) [OF inv j i] run])
    case (1 x)
    have "view_ok n (gs_table s) (gs_procs s ! j)"
      using inv j by (simp add: ginv_def)
    then have "view_ok n (gs_table s) v"
      using 1 by (cases "wv_record (gs_procs s ! j)") (simp_all add: view_ok_def)
    then have "ginv n (gs_put j v s) \<and> gs_units q (gs_put j v s) = gs_units q s"
      using ginv_frame [OF inv j, of v] 1 by simp
    then show ?thesis
      using 1 by (simp add: gs_wait_def)
  next
    case 2
    have p: "act_priority a < n"
      using 2(1) inv by (simp add: ginv_def)
    have put: "ginv n (gs_put j v s)" "gs_units q (gs_put j v s) = gs_units q s"
      using call_ginv [OF inv j i 2(2) p free] call_units [OF inv j i 2(2)] by simp_all
    have "wv_record v = Some i"
      using 2(2) i by (simp add: wg_to_def wg_shape_def)
    moreover have "gs_view (gs_put j v s) j = v"
      using j by simp
    ultimately show ?thesis
      using ginv_wait [OF put(1), of r j a] put(2) 2(3) j p
      by (simp add: act_ok_def)
  qed
  then show "ginv n (gs_wait j a r (gs_put j v s))" "gs_units q (gs_wait j a r (gs_put j v s)) = gs_units q s"
    by simp_all
qed

lemma resume_step:
  assumes inv: "ginv n s" and w: "(j, a) \<in> set (gs_waiting s)" and run: "act_resume a (gs_view s j) = (r, v)"
    and free: "gs_free (s\<lparr>gs_waiting := removeAll (j, a) (gs_waiting s)\<rparr>) j (act_priority a)"
  shows "ginv n (gs_put j v (s\<lparr>gs_waiting := removeAll (j, a) (gs_waiting s)\<rparr>))"
    and "gs_units q (gs_put j v (s\<lparr>gs_waiting := removeAll (j, a) (gs_waiting s)\<rparr>)) = gs_units q s"
proof -
  let ?s = "s\<lparr>gs_waiting := removeAll (j, a) (gs_waiting s)\<rparr>"
  have s: "ginv n ?s" "gs_view ?s j = gs_view s j" "gs_units q ?s = gs_units q s"
    using ginv_waits_less [OF inv, of "removeAll (j, a) (gs_waiting s)"] by (auto simp: gs_view_def gs_units_def gs_held_def)
  have k: "j < length (gs_procs s)" "act_priority a < n" "\<not> holds (act_priority a) (gs_view s j)"
    "wv_record (gs_procs s ! j) \<noteq> None"
    using inv w unfolding ginv_def waits_ok_def by auto
  then obtain i where i: "wv_record (gs_procs s ! j) = Some i"
    by blast
  have "wg_at (act_priority a) (gs_view s j)"
    using ginv_view(1) [OF inv k(1) i] k(2) inv by (simp add: wg_at_def ginv_def)
  then have to: "wg_to (act_priority a) 0 (holds (act_priority a) v) (gs_view ?s j) v"
    using act_resume_ok [OF _ k(3) run] s(2) by simp
  show "ginv n (gs_put j v ?s)" "gs_units q (gs_put j v ?s) = gs_units q s"
    using call_ginv [OF s(1) _ _ to k(2) free] call_units [OF s(1) _ _ to] k(1) i s(3) by simp_all
qed

subsection \<open>All of them\<close>

text \<open>A process waits at most once at a priority.\<close>

definition waits_apart :: "wg_sys \<Rightarrow> bool" where
  "waits_apart s \<longleftrightarrow> (\<forall>j a b. (j, a) \<in> set (gs_waiting s) \<and> (j, b) \<in> set (gs_waiting s)
     \<and> act_priority a = act_priority b \<longrightarrow> a = b)"

lemma waits_apart_step: "gstep s l s' \<Longrightarrow> waits_apart s \<Longrightarrow> waits_apart s'"
  by (erule gstep.cases) (auto simp: waits_apart_def gs_wait_def gs_free_def split: if_splits)

lemma gstep_inv:
  assumes step: "gstep s l s'" and inv: "ginv n s" and apart: "waits_apart s"
  shows "ginv n s'" and "\<forall>q < n. gs_units q s' \<le> gs_units q s \<and> (\<not> l \<longrightarrow> gs_units q s' = gs_units q s)"
proof -
  have "ginv n s' \<and> (\<forall>q < n. gs_units q s' \<le> gs_units q s \<and> (\<not> l \<longrightarrow> gs_units q s' = gs_units q s))"
    using step
  proof (cases rule: gstep.cases)
    case (call j a r v)
    then show ?thesis
      using call_step [OF inv call(3-6)] by simp
  next
    case (resume j a r v)
    have "gs_free (s\<lparr>gs_waiting := removeAll (j, a) (gs_waiting s)\<rparr>) j (act_priority a)"
      using apart resume(3) by (auto simp: gs_free_def waits_apart_def)
    then show ?thesis
      using resume_step [OF inv resume(3,5)] resume(1,2) by simp
  next
    case (register j t r v)
    then show ?thesis
      using register_step [OF inv register(3,5)] by simp
  next
    case (join app_name app_id pid now name count v)
    then show ?thesis
      using join_step [OF inv join(3)] by simp
  next
    case (expire expiry now r t sems)
    then show ?thesis
      using expire_step [OF inv expire(3)] by simp
  next
    case (leave j pid r v)
    then show ?thesis
      using leave_step [OF inv leave(3-6)] by simp
  qed
  then show "ginv n s'" "\<forall>q < n. gs_units q s' \<le> gs_units q s \<and> (\<not> l \<longrightarrow> gs_units q s' = gs_units q s)"
    by simp_all
qed

lemma ltm_init_ok:
  assumes "ltm_init name lease quota None count overwrite = Inr t" "count < 2 ^ 16"
  shows "th_max_records (lt_header t) = length (lt_records t)"
    and "i < length (lt_records t) \<Longrightarrow> \<not> lc_used (lt_records t ! i)"
    and "i < length (lt_records t) \<Longrightarrow> length (lh_locks (lc_lock (lt_records t ! i))) = MAX_PRIORITY_ALLOWED"
  using assms
  by (auto simp: ltm_init_def lt_create_def lt_reset_def fresh_lock_table_def lt_set_used_def Let_def
      reset_record_facts split: if_splits)

lemma greach_inv:
  assumes "greach n m leaving s"
  shows "ginv n s \<and> waits_apart s \<and> (\<forall>q < n. gs_units q s \<le> m \<and> (\<not> leaving \<longrightarrow> gs_units q s = m))"
  using assms
proof (induction rule: greach.induct)
  case (init count name lease quota overwrite t)
  note t = ltm_init_ok [OF init(4,3)]
  have "gs_held q \<lparr>gs_table = t, gs_sems = replicate n m, gs_procs = [], gs_waiting = []\<rparr> = 0" for q
    using t(2) by (auto simp: gs_held_def filter_empty_conv in_set_conv_nth)
  then show ?case
    using init t by (simp add: ginv_def recs_ok_def recs_apart_def waits_ok_def waits_apart_def gs_units_def)
next
  case (step s l s')
  then have inv: "ginv n s" "waits_apart s"
    by simp_all
  note s = gstep_inv [OF step.hyps(2) inv] waits_apart_step [OF step.hyps(2) inv(2)]
  have "gs_units q s' \<le> m \<and> (\<not> leaving \<longrightarrow> gs_units q s' = m)" if "q < n" for q
    using s(2) step.IH step.hyps(3) that by (metis order.trans)
  then show ?case
    using s(1,3) by blast
qed

end
