(* ===== verification/WgDemo.thy ===== *)
theory WgDemo
  imports WgSystem
begin

section \<open>Watergate: what the system promises, and where it breaks\<close>

text \<open>
  The properties of the system of processes, table and manager, with their witnesses, and runs on a
  resource of one priority and one unit, with a table of one record.
\<close>

subsection \<open>A small system\<close>

named_theorems wg_eval

lemmas wg_eval_defs [wg_eval] = lt_create_def lt_create_new_record_def lt_set_used_def lt_put_def
  lt_remove_record_def bitset_get_free_bit_def bitset_check_and_set_def bitset_check_def bitset_set_def
  bitset_clear_def bitset_words_def free_bit_from.simps u16_def bitset_byte_size_def
  new_lock_record_def wg_reset_record_def zero_lock_record_def MAX_PRIORITY_ALLOWED_def BASE_PRIORITY_def
  tc_init_def wg_view_new_def wv_rec_def set_state_def state_new_def Let_def
  sc_register_thread_def thread_record_new_def

lemma skip_first [wg_eval]: "(0::u32) < - 1"
  by (simp flip: word_neq_0_conv)

lemma c_bind_lambda [wg_eval]:
  "c_bind (\<lambda>s. if P s then m s else n s) k v = (if P v then c_bind m k v else c_bind n k v)"
  by (simp add: c_bind_def)

definition demo_env :: "pid \<Rightarrow> tid \<Rightarrow> time \<Rightarrow> call_env" where
  "demo_env p t now = \<lparr>ce_pid = p, ce_tid = t, ce_now = now\<rparr>"

definition demo_table :: "u32 \<Rightarrow> nat \<Rightarrow> lock_record \<Rightarrow> lock_table" where
  "demo_table w k r = \<lparr>lt_header = \<lparr>th_lock_lease_time = 1000, th_quota = - 1, th_used_record = k, th_max_records = 1\<rparr>,
     lt_bits = \<lparr>bs_size = 4, bs_data = [w], bs_mapped = True, bs_max_offset = 32\<rparr>, lt_records = [r]\<rparr>"

definition demo_empty :: lock_table where
  "demo_empty = demo_table 0 0 (wg_reset_record zero_lock_record)"

definition demo_rec :: "pid \<Rightarrow> time \<Rightarrow> lock_record" where
  "demo_rec pid now = new_lock_record ''a'' ''i'' pid now 0 zero_lock_record"

definition demo_view :: "nat \<Rightarrow> lock_record \<Rightarrow> (tid \<times> thread_lock_record) list \<Rightarrow> u64 \<Rightarrow> wg_view" where
  "demo_view sem r ts c = \<lparr>wv_state = \<lparr>st_state = Available, st_error = None\<rparr>, wv_record = Some 0, wv_priorities = 1,
     wv_counts = [\<lparr>pc_count = c, pc_index = 0\<rparr>], wv_threads = ts, wv_table = demo_table 1 1 r, wv_sems = [sem]\<rparr>"

lemma demo_init: "ltm_init ''t'' 1000 0 None 1 True = Inr demo_empty"
  by (simp add: wg_eval ltm_init_def fresh_lock_table_def bitset_max_offset_def
   lt_reset_def bitset_clear_all_def demo_empty_def demo_table_def DEFAULT_QUOTA_def)

lemma demo_reset [simp]: "wg_reset_record (wg_reset_record r) = wg_reset_record r"
  "wg_reset_record (demo_rec pid now) = wg_reset_record zero_lock_record"
  "new_lock_record a b pid now 0 (wg_reset_record r) = new_lock_record a b pid now 0 r"
  by (simp_all add: wg_reset_record_def new_lock_record_def demo_rec_def zero_lock_record_def)

lemma demo_join: "tc_init ''a'' ''i'' pid now ''t'' (Some demo_empty) 1 (wg_view_new 1 demo_empty [sem]) =
   (Inr (), demo_view sem (demo_rec pid now) [] 0)"
proof -
  have "lt_create_new_record ''a'' ''i'' pid now demo_empty = (Inr (Some 0), demo_table 1 1 (demo_rec pid now))"
    by (simp add: wg_eval demo_table_def demo_rec_def demo_empty_def)
  then show ?thesis
    by (simp add: tc_init_def lt_create_def wv_rec_def wg_view_new_def state_new_def set_state_def demo_view_def
        bitset_byte_size_def)
qed

lemma demo_register: "map_of ts t = None \<Longrightarrow>
   sc_register_thread t (demo_view sem r ts c) = (Inr (), demo_view sem r (AList.update t (thread_record_new 1) ts) c)"
  by (simp add: sc_register_thread_def demo_view_def)

text \<open>A thread's record with \<open>k\<close> locks taken.\<close>

definition demo_thread :: "int \<Rightarrow> u64 \<Rightarrow> time \<Rightarrow> thread_lock_record" where
  "demo_thread k i now = (thread_record_new 1)\<lparr>tl_counts := [k], tl_ids := [\<lparr>li_id = i, li_acquired_time = now\<rparr>]\<rparr>"

definition demo_held :: "pid \<Rightarrow> time \<Rightarrow> time \<Rightarrow> lock_record" where
  "demo_held pid joined now = rec_set_pl 0 (\<lambda>_. \<lparr>pl_state = Locked, pl_acquired_time = now\<rparr>) (rec_touch now (demo_rec pid joined))"

lemma demo_new_thread: "thread_record_new 1 = demo_thread 0 NO_ID 0"
  by (simp add: thread_record_new_def demo_thread_def)

lemmas sc_eval = sc_check_priority_def cmd_simps sc_sync_id_def sc_get_thread_lock_def c_bind_lambda
  sc_thread_def sc_count_def NO_ID_def tl_set_id_def tl_set_acquired_def tl_increment_def tl_decrement_def
  thread_record_new_def tc_has_valid_lock_def tc_check_available_def tc_rec_def tc_store_def tc_upd_def
  tc_update_lock_def sc_note_acquired_def sc_acquire_def sc_sem_def wv_rec_def rec_has_valid_def

lemma demo_try_first:
  "sc_try_lock (demo_env p t now) 0 0 0 False (demo_view 1 (demo_rec p' joined) [(t, demo_thread 0 NO_ID 0)] 0) =
    (Inr Locked, demo_view 0 (demo_held p' joined now) [(t, demo_thread 1 0 now)] 1)"
  by (simp add: sc_try_lock_def sc_eval demo_env_def demo_view_def demo_thread_def is_available_def demo_table_def wg_eval
    rec_touch_def rec_pl_def demo_rec_def demo_held_def rec_set_pl_def)

lemmas demo_eval = sc_eval demo_env_def demo_view_def demo_thread_def is_available_def demo_table_def wg_eval
  rec_touch_def rec_pl_def demo_rec_def demo_held_def rec_set_pl_def

subsection \<open>Reached states\<close>

definition demo_s0 :: wg_sys where
  "demo_s0 = \<lparr>gs_table = demo_empty, gs_sems = [1], gs_procs = [], gs_waiting = []\<rparr>"

definition demo_sys :: "wg_view \<Rightarrow> wg_sys" where
  "demo_sys v = \<lparr>gs_table = wv_table v, gs_sems = wv_sems v, gs_procs = [v], gs_waiting = []\<rparr>"

definition demo_v1 :: wg_view where "demo_v1 = demo_view 1 (demo_rec 7 5000) [] 0"
definition demo_v2 :: wg_view where "demo_v2 = demo_view 1 (demo_rec 7 5000) [(''A'', demo_thread 0 NO_ID 0)] 0"
definition demo_v3 :: wg_view where "demo_v3 = demo_view 0 (demo_held 7 5000 5001) [(''A'', demo_thread 1 0 5001)] 1"

definition demo_act :: wg_act where "demo_act = Try_lock (demo_env 7 ''A'' 5001) 0 0 0 False"

lemma demo_sys_view: "gs_view (demo_sys v) 0 = v" "gs_procs (demo_sys v) ! 0 = v"
  by (simp_all add: gs_view_def demo_sys_def)

lemma demo_s0_reached: "greach 1 1 leaving demo_s0"
  using greach.init [of 1 1 "''t''" 1000 0 True demo_empty 1 leaving] demo_init
  by (simp add: demo_s0_def MAX_PRIORITY_ALLOWED_def)

lemma demo_v1_reached: "greach 1 1 leaving (demo_sys demo_v1)"
proof -
  have "gstep demo_s0 False (demo_s0\<lparr>gs_table := wv_table demo_v1, gs_procs := gs_procs demo_s0 @ [demo_v1]\<rparr>)"
    using demo_join [of 7 5000 1] by (intro gstep.join [of "''a''" "''i''" 7 5000 "''t''" _ 1])
      (simp add: demo_s0_def demo_v1_def)
  moreover have "demo_s0\<lparr>gs_table := wv_table demo_v1, gs_procs := gs_procs demo_s0 @ [demo_v1]\<rparr> = demo_sys demo_v1"
    by (simp add: demo_s0_def demo_sys_def demo_v1_def demo_view_def)
  ultimately show ?thesis
    using greach.step [OF demo_s0_reached] by simp
qed

lemma demo_v2_reached: "greach 1 1 leaving (demo_sys demo_v2)"
proof -
  have "sc_register_thread ''A'' (gs_view (demo_sys demo_v1) 0) = (Inr (), demo_v2)"
    using demo_register [of "[]" "''A''" 1 "demo_rec 7 5000" 0] demo_new_thread
    by (simp add: demo_sys_view demo_v1_def demo_v2_def)
  then have "gstep (demo_sys demo_v1) False (gs_put 0 demo_v2 (demo_sys demo_v1))"
    by (intro gstep.register) (simp_all add: demo_sys_def demo_v1_def demo_view_def)
  moreover have "gs_put 0 demo_v2 (demo_sys demo_v1) = demo_sys demo_v2"
    by (simp add: gs_put_def demo_sys_def)
  ultimately show ?thesis
    using greach.step [OF demo_v1_reached] by simp
qed

lemma demo_act_run: "act_run demo_act (gs_view (demo_sys demo_v2) 0) = (Inr (Got Locked), demo_v3)"
  using demo_try_first [of 7 "''A''" 5001 7 5000]
  by (simp add: demo_act_def demo_sys_view demo_v2_def demo_v3_def c_bind_def c_ret_def)

lemma demo_v3_reached: "greach 1 1 leaving (demo_sys demo_v3)"
proof -
  have "gstep (demo_sys demo_v2) False (gs_wait 0 demo_act (Inr (Got Locked)) (gs_put 0 demo_v3 (demo_sys demo_v2)))"
    using demo_act_run by (intro gstep.call) (simp_all add: demo_sys_def demo_v2_def demo_view_def gs_free_def)
  moreover have "gs_wait 0 demo_act (Inr (Got Locked)) (gs_put 0 demo_v3 (demo_sys demo_v2)) = demo_sys demo_v3"
    by (simp add: gs_wait_def gs_put_def demo_sys_def)
  ultimately show ?thesis
    using greach.step [OF demo_v2_reached] by simp
qed

lemma demo_v3_held: "gs_held 0 (demo_sys demo_v3) = 1" "holds 0 (gs_view (demo_sys demo_v3) 0)"
  "gs_sems (demo_sys demo_v3) = [0]"
  by (simp_all add: gs_held_def demo_sys_def demo_v3_def demo_eval lk_def holds_def gs_view_def)

lemma demo_v3_record: "wv_record (gs_procs (demo_sys demo_v3) ! 0) = Some 0" "length (gs_procs (demo_sys demo_v3)) = 1"
  "wv_record (gs_procs (demo_sys demo_v2) ! 0) = Some 0" "length (gs_procs (demo_sys demo_v2)) = 1"
  by (simp_all add: demo_sys_def demo_v3_def demo_v2_def demo_view_def)

subsection \<open>The system\<close>





text \<open>C3. A call of a process says \<open>Locked\<close> only when the table then shows the lock
  as held by the process, says that it released a lock only when the table does not show it any
  more, and waits only while the process does not hold it.\<close>

theorem wg_answer_true:
  assumes "greach n m leaving s" "j < length (gs_procs s)" "wv_record (gs_procs s ! j) = Some i"
    and "act_run a (gs_view s j) = (r, v)" "r \<in> {Inr (Got Locked), Inr (Freed True), Inl Blocked}"
  shows "holds (act_priority a) v \<longleftrightarrow> r = Inr (Got Locked)"
  using act_run_ok [OF ginv_view(1) [OF conjunct1 [OF greach_inv [OF assms(1)]] assms(2,3)] assms(4)] assms(5)
  by cases (auto simp: act_ok_def)

theorem wg_answer_true_witness: "holds 0 demo_v3"
  using wg_answer_true [OF demo_v2_reached [of False] _ demo_v3_record(3) demo_act_run] demo_v3_record(4)
  by (simp add: demo_act_def)

subsection \<open>Where it breaks\<close>

text \<open>The destructor of a client gives its record back and posts nothing: every
  lock that the process still holds takes a unit of its semaphore with it, for good, since no other
  step adds one.\<close>

theorem wg_leave_leaks:
  assumes "greach n m True s" "j < length (gs_procs s)" "holds q (gs_view s j)"
    and "tc_destroy pid (gs_view s j) = (r, v)" "wv_record v = None"
  shows "gs_sems (gs_put j v s) = gs_sems s \<and> gs_held q (gs_put j v s) + 1 = gs_held q s"
proof -
  have inv: "ginv n s"
    using greach_inv [OF assms(1)] by blast
  obtain i where i: "wv_record (gs_procs s ! j) = Some i"
    using assms(3) by (auto simp: holds_def wv_rec_def split: option.splits)
  note rec = ginv_view [OF inv assms(2) i]
  have view: "is_available (wv_state (gs_view s j))" "lc_index (lt_records (gs_table s) ! i) = i"
    using inv assms(2) i by (auto simp: ginv_def view_ok_def)
  have rm: "lt_remove_record i (gs_table s) = (Inr (), wv_table v)" "wv_sems v = gs_sems s"
    using tc_destroy_ok [OF assms(4,5) _ rec(3) view(1)] i view(2) by simp_all
  have "lk q (lt_records (gs_table s) ! i)"
    using assms(3) rec(3) by (simp add: holds_def)
  then show ?thesis
    using filter_update_length [OF rec(2), of "\<lambda>r. lc_used r \<and> lk q r" "wg_reset_record (lt_records (gs_table s) ! i)"]
      remove_record_ok(2) [OF rm(1)] rec(4) rm(2) by (simp add: gs_held_def reset_record_facts)
qed

lemma demo_leave: "tc_destroy 7 demo_v3 =
   (Inr (), demo_v3\<lparr>wv_state := set_state Disposed (wv_state demo_v3), wv_table := demo_empty, wv_record := None\<rparr>)"
  by (simp add: tc_destroy_def demo_v3_def demo_eval is_disposed_def demo_empty_def)

theorem wg_leave_leaks_witness: "gs_held 0 (gs_put 0 (snd (tc_destroy 7 demo_v3)) (demo_sys demo_v3)) + 1 = 1"
  using wg_leave_leaks [OF demo_v3_reached [of True] _ demo_v3_held(2), of 7] demo_v3_record(2) demo_v3_held(1)
    demo_leave by (simp add: demo_sys_view)

definition demo_takeover :: "time \<Rightarrow> time \<Rightarrow> (exc + wg_lock_state) \<times> (exc + wg_lock_state)" where
  "demo_takeover expiry now =
     (let v1 = snd (sc_register_thread ''A'' (snd (tc_init ''a'' ''i'' 1 now ''t'' (Some demo_empty) 1 (wg_view_new 1 demo_empty [1]))));
          (t, sems) = snd (so_check_expired_records expiry now (wv_table v1, wv_sems v1));
          v2 = snd (sc_register_thread ''B'' (snd (tc_init ''a'' ''i'' 2 now ''t'' (Some t) 1 (wg_view_new 1 t sems))));
          (r2, v2') = sc_try_lock (demo_env 2 ''B'' now) 0 0 0 False v2;
          v1' = v1\<lparr>wv_table := wv_table v2', wv_sems := wv_sems v2'\<rparr>
      in (r2, fst (sc_try_lock (demo_env 1 ''A'' now) 0 0 0 False v1')))"

text \<open>The time of a process's last activity is 0 until its first call, so that the
  manager's pass over the records removes the record of a process that has just registered. Another
  process is then given the record, and when that process holds the lock of a resource of one unit,
  the first one is told that it holds the lock, too: the record is not its own any more, for which
  the code constructs an exception and does not throw it.\<close>

theorem wg_two_holders:
  assumes "0 < expiry" "expiry \<le> now" "now < now + 1000"
  shows "demo_takeover expiry now = (Inr Locked, Inr Locked)"
proof -
  have reg: "sc_register_thread t (demo_view 1 (demo_rec p now) [] 0)
      = (Inr (), demo_view 1 (demo_rec p now) [(t, demo_thread 0 NO_ID 0)] 0)" for t p
    using demo_register [of "[]" t] demo_new_thread by simp
  have purge: "so_check_expired_records expiry now (demo_table 1 1 (demo_rec p now), [1]) = (Inr (), demo_empty, [1])" for p
    using assms by (simp add: so_check_expired_records_def ltm_reset_expired_records_def ltm_reset_expired_one_def
        demo_eval demo_empty_def cmd_simps)
  have "fst (sc_try_lock (demo_env 1 ''A'' now) 0 0 0 False
      (demo_view 0 (demo_held 2 now now) [(''A'', demo_thread 0 NO_ID 0)] 0)) = Inr Locked"
    using assms(3) by (simp add: sc_try_lock_def demo_eval rec_active_def)
  moreover have "wv_table (demo_view k r ts c) = demo_table 1 1 r" "wv_sems (demo_view k r ts c) = [k]"
    "(demo_view k r ts c)\<lparr>wv_table := demo_table 1 1 r', wv_sems := [k']\<rparr> = demo_view k' r' ts c" for k r ts c r' k'
    by (simp_all add: demo_view_def)
  ultimately show ?thesis
    using assms(3) by (simp add: demo_takeover_def reg demo_join purge demo_try_first Let_def del: One_nat_def)
qed

theorem wg_two_holders_witness: "demo_takeover 60 5000 = (Inr Locked, Inr Locked)"
  by (rule wg_two_holders) simp_all

definition demo_releases :: "time \<Rightarrow> wg_view \<Rightarrow> (exc + bool) list \<times> wg_view" where
  "demo_releases now v =
     (let (r1, v1) = sc_try_lock (demo_env 7 ''B'' now) 0 0 0 False v;
          (x1, v2) = sc_release_lock (demo_env 7 ''B'' now) 0 0 v1;
          (x2, v3) = sc_release_lock (demo_env 7 ''B'' now) 0 0 v2
      in ([x1, x2], v3))"

definition demo_both :: "time \<Rightarrow> wg_view" where
  "demo_both now = demo_view 0 (demo_held 7 5000 now) [(''A'', demo_thread 1 0 now), (''B'', demo_thread 0 NO_ID 0)] 1"

text \<open>The number of a thread's lock is dropped only with the last lock of the
  process, and no other thread changes it. So when two threads of a process have the lock, one of
  them can release it twice: the second release gives the unit back that the other thread relies
  on.\<close>

theorem wg_release_twice:
  assumes "now < now + 1000"
  shows "fst (demo_releases now (demo_both now)) = [Inr False, Inr True]
    \<and> wv_sems (snd (demo_releases now (demo_both now))) = [1]
    \<and> map_of (wv_threads (snd (demo_releases now (demo_both now)))) ''A'' = Some (demo_thread 1 0 now)"
  using assms
  by (simp add: demo_releases_def demo_both_def sc_try_lock_def sc_release_lock_def sc_drop_def sc_post_def
    tc_release_lock_def rec_release_def rec_set_used_quota_def demo_eval rec_active_def)

theorem wg_release_twice_witness: "fst (demo_releases 5001 (demo_both 5001)) = [Inr False, Inr True]"
  using wg_release_twice [of 5001] by simp

end
