(* ===== verification/Buffers.thy ===== *)
theory Buffers
  imports Bytes
begin

section \<open>Length-prefixed strings in a buffer (common/includes/buffer_utils.h)\<close>

text \<open>
  The state is the buffer and the offset that the calls advance. A pointer into the buffer is its
  offset. \<open>k\<close> is the size in bytes of the length field: 1, 2 and 4 for the functions named 8str,
  16str and 32str. Source strings are the bytes at the pointer \<open>value\<close>, \<open>n\<close> is the length that is
  passed with it; a C++ string passes all its bytes and their number. Access outside the buffer or
  the source is \<open>Mem_fault\<close>; null arguments are not modelled.
\<close>

type_synonym buf = "mem \<times> nat"

subsection \<open>Writing\<close>

definition bu_poke :: "nat \<Rightarrow> u8 list \<Rightarrow> (unit, buf) cmd" where
  "bu_poke off bs b = (case poke (fst b) off bs of None \<Rightarrow> (Inl Mem_fault, b) | Some m \<Rightarrow> (Inr (), (m, snd b)))"

definition bu_advance :: "nat \<Rightarrow> (unit, buf) cmd" where
  "bu_advance n = c_mod (\<lambda>(m, off). (m, off + n))"

definition bu_write :: "nat \<Rightarrow> nat \<Rightarrow> (nat, buf) cmd" where
  "bu_write k v = c_bind (c_get snd) (\<lambda>off. c_bind (bu_poke off (nat_bytes k v)) (\<lambda>_.
     c_bind (bu_advance k) (\<lambda>_. c_ret k)))"

text \<open>
  The size counts the terminating NUL and is truncated to the field. The five variants that take a
  \<open>string\<close>, or a pointer with a 16 or 32 bit size, clear one byte more than the size.
\<close>

definition bu_write_str :: "nat \<Rightarrow> bool \<Rightarrow> u8 list \<Rightarrow> nat \<Rightarrow> (nat, buf) cmd" where
  "bu_write_str k more value n =
     (let size = (n + 1) mod 256 ^ k in
      c_bind (bu_write k size) (\<lambda>r_size.
      c_bind (if size > 0
              then c_bind (c_get snd) (\<lambda>off.
                   c_bind (bu_poke off (replicate (if more then (size + 1) mod 2 ^ 32 else size) 0)) (\<lambda>_.
                   c_bind (if size - 1 \<le> length value then bu_poke off (take (size - 1) value) else c_throw Mem_fault) (\<lambda>_.
                   bu_advance size)))
              else c_ret ()) (\<lambda>_.
      c_ret (r_size + size))))"

definition write_8str :: "u8 list \<Rightarrow> nat \<Rightarrow> (nat, buf) cmd" where "write_8str = bu_write_str 1 False"
definition write_16str :: "u8 list \<Rightarrow> nat \<Rightarrow> (nat, buf) cmd" where "write_16str = bu_write_str 2 True"
definition write_32str :: "u8 list \<Rightarrow> nat \<Rightarrow> (nat, buf) cmd" where "write_32str = bu_write_str 4 True"

definition write_8string :: "u8 list \<Rightarrow> (nat, buf) cmd" where "write_8string s = bu_write_str 1 True s (length s)"
definition write_16string :: "u8 list \<Rightarrow> (nat, buf) cmd" where "write_16string s = bu_write_str 2 True s (length s)"
definition write_32string :: "u8 list \<Rightarrow> (nat, buf) cmd" where "write_32string s = bu_write_str 4 True s (length s)"

subsection \<open>Reading\<close>

text \<open>\<open>read\<close> gives a pointer; \<open>bu_deref\<close> is the value at it.\<close>

definition bu_read :: "nat \<Rightarrow> (nat, buf) cmd" where
  "bu_read k = c_bind (c_get snd) (\<lambda>off. c_bind (bu_advance k) (\<lambda>_. c_ret off))"

definition bu_deref :: "nat \<Rightarrow> nat \<Rightarrow> (u8 list, buf) cmd" where
  "bu_deref p n b = (case peek (fst b) p n of None \<Rightarrow> (Inl Mem_fault, b) | Some bs \<Rightarrow> (Inr bs, b))"

text \<open>
  The two readers: one gives a pointer to the characters, the other copies them into a string. A
  size of 0 leaves the target as it was: \<open>None\<close>.
\<close>

definition bu_read_ptr :: "nat \<Rightarrow> (nat \<times> nat option, buf) cmd" where
  "bu_read_ptr k =
     c_bind (bu_read k) (\<lambda>p.
     c_bind (bu_deref p k) (\<lambda>bs.
     (let size = bytes_nat bs in
      if size > 0
      then c_bind (c_get snd) (\<lambda>off. c_bind (bu_advance size) (\<lambda>_. c_ret (k + size, Some off)))
      else c_ret (k + size, None))))"

definition bu_read_str :: "nat \<Rightarrow> (nat \<times> u8 list option, buf) cmd" where
  "bu_read_str k =
     c_bind (bu_read k) (\<lambda>p.
     c_bind (bu_deref p k) (\<lambda>bs.
     (let size = bytes_nat bs in
      if size > 0
      then c_bind (c_get snd) (\<lambda>off.
           c_bind (bu_deref off (size - 1)) (\<lambda>cs.
           c_bind (bu_advance size) (\<lambda>_. c_ret (k + size, Some cs))))
      else c_ret (k + size, None))))"

definition read_8str :: "(nat \<times> nat option, buf) cmd" where "read_8str = bu_read_ptr 1"
definition read_16str :: "(nat \<times> nat option, buf) cmd" where "read_16str = bu_read_ptr 2"
definition read_32str :: "(nat \<times> nat option, buf) cmd" where "read_32str = bu_read_ptr 4"

definition read_8string :: "(nat \<times> u8 list option, buf) cmd" where "read_8string = bu_read_str 1"
definition read_16string :: "(nat \<times> u8 list option, buf) cmd" where "read_16string = bu_read_str 2"
definition read_32string :: "(nat \<times> u8 list option, buf) cmd" where "read_32string = bu_read_str 4"

lemmas bu_defs = bu_write_str_def bu_write_def bu_read_def bu_read_ptr_def bu_read_str_def bu_advance_def

subsection \<open>One string\<close>

text \<open>What a successful write of a string leaves: the bytes before, the field, the string and its NUL.\<close>

definition str_bytes :: "nat \<Rightarrow> u8 list \<Rightarrow> u8 list" where
  "str_bytes k s = nat_bytes k (length s + 1) @ s @ [0]"

lemma length_str_bytes: "length (str_bytes k s) = k + length s + 1"
  by (simp add: str_bytes_def)

definition str_fits :: "nat \<Rightarrow> u8 list \<Rightarrow> bool" where
  "str_fits k s \<longleftrightarrow> 0 < k \<and> k \<le> 4 \<and> length s + 2 < 256 ^ k"

text \<open>\<open>poke\<close> twice at one place: the longer one first.\<close>

lemma bu_poke_run: "off + length bs \<le> length m \<Longrightarrow>
   c_bind (bu_poke off bs) f (m, o') = f () (take off m @ bs @ drop (off + length bs) m, o')"
  by (simp add: bu_poke_def c_bind_def poke_def)

lemma drop_zeros: "drop n (0 # replicate n 0 @ ys) = 0 # ys" "drop n (0 # 0 # replicate n 0 @ ys) = 0 # 0 # ys"
proof -
  have r: "0 # replicate n 0 @ zs = replicate n 0 @ 0 # zs" for zs :: "'a list"
    by (induction n) simp_all
  show "drop n (0 # replicate n 0 @ ys) = 0 # ys" "drop n (0 # 0 # replicate n 0 @ ys) = 0 # 0 # ys"
    by (simp_all add: r)
qed

lemma bu_write_str_run:
  assumes "str_fits k s" "off + k + length s + 2 \<le> length m"
  shows "\<exists>post. bu_write_str k more s (length s) (m, off) =
      (Inr (k + length s + 1), (take off m @ str_bytes k s @ post, off + k + length s + 1))
    \<and> length post = length m - (off + k + length s + 1)"
proof -
  have "(256::nat) ^ k \<le> 256 ^ 4"
    using assms(1) by (intro power_increasing) (simp_all add: str_fits_def)
  then have size: "Suc (length s) mod 256 ^ k = Suc (length s)" "Suc (Suc (length s)) mod 4294967296 = Suc (Suc (length s))"
    using assms(1) by (simp_all add: str_fits_def)
  show ?thesis
    using assms(2)
    by (cases more) (simp_all add: bu_defs size cmd_simps Let_def bu_poke_run str_bytes_def drop_zeros)
qed

text \<open>Reading a string where one was written.\<close>

lemma peek_mid: "length pre = off \<Longrightarrow> peek (pre @ bs @ post) off (length bs) = Some bs"
  by (auto simp: peek_def)

lemma str_fits_size: "str_fits k s \<Longrightarrow> bytes_nat (nat_bytes k (Suc (length s))) = Suc (length s)"
  by (simp add: bytes_nat_nat_bytes str_fits_def)

lemma bu_read_str_run:
  assumes "str_fits k s" "length pre = off"
  shows "bu_read_str k (pre @ str_bytes k s @ post, off) =
      (Inr (k + length s + 1, Some s), (pre @ str_bytes k s @ post, off + k + length s + 1))"
proof -
  have "peek (pre @ str_bytes k s @ post) off k = Some (nat_bytes k (Suc (length s)))"
    using peek_mid [of pre off "nat_bytes k (Suc (length s))" "s @ [0] @ post"] assms(2) by (simp add: str_bytes_def)
  moreover have "peek (pre @ str_bytes k s @ post) (off + k) (length s) = Some s"
    using peek_mid [of "pre @ nat_bytes k (Suc (length s))" "off + k" s "[0] @ post"] assms(2) by (simp add: str_bytes_def)
  ultimately show ?thesis
    by (simp add: bu_read_str_def bu_read_def bu_advance_def bu_deref_def cmd_simps c_bind_def str_fits_size [OF assms(1)])
qed

subsection \<open>Many strings\<close>

text \<open>Strings written one after the other, each with its own size of field, and read in the same order.\<close>

fun bu_write_all :: "(nat \<times> bool \<times> u8 list) list \<Rightarrow> (unit, buf) cmd" where
  "bu_write_all [] = c_ret ()"
| "bu_write_all ((k, more, s) # xs) = c_bind (bu_write_str k more s (length s)) (\<lambda>_. bu_write_all xs)"

fun bu_read_all :: "nat list \<Rightarrow> (u8 list option list, buf) cmd" where
  "bu_read_all [] = c_ret []"
| "bu_read_all (k # ks) = c_bind (bu_read_str k) (\<lambda>(_, s). c_bind (bu_read_all ks) (\<lambda>ss. c_ret (s # ss)))"

fun all_bytes :: "(nat \<times> bool \<times> u8 list) list \<Rightarrow> u8 list" where
  "all_bytes [] = []"
| "all_bytes ((k, more, s) # xs) = str_bytes k s @ all_bytes xs"

lemma bu_write_all_run:
  assumes "\<forall>(k, more, s) \<in> set xs. str_fits k s" "off + length (all_bytes xs) + 1 \<le> length m"
  shows "\<exists>post. bu_write_all xs (m, off) = (Inr (), (take off m @ all_bytes xs @ post, off + length (all_bytes xs)))"
  using assms
proof (induction xs arbitrary: m off)
  case Nil
  then show ?case
    by (auto simp: cmd_simps intro: exI [of _ "drop off m"])
next
  case (Cons x xs)
  obtain k more s where x: "x = (k, more, s)" by (cases x)
  have fits: "str_fits k s" "off + k + length s + 2 \<le> length m"
    using Cons.prems by (auto simp: x length_str_bytes)
  let ?off = "off + k + length s + 1"
  obtain post where w: "bu_write_str k more s (length s) (m, off) =
      (Inr (k + length s + 1), (take off m @ str_bytes k s @ post, ?off))" "length post = length m - ?off"
    using bu_write_str_run [OF fits] by blast
  let ?m = "take off m @ str_bytes k s @ post"
  have "\<exists>post. bu_write_all xs (?m, ?off) = (Inr (), (take ?off ?m @ all_bytes xs @ post, ?off + length (all_bytes xs)))"
    by (rule Cons.IH) (use Cons.prems w(2) fits(2) in \<open>auto simp: x length_str_bytes\<close>)
  then show ?case
    using w(1) fits(2) by (auto simp: x c_bind_def length_str_bytes algebra_simps)
qed

lemma bu_read_all_run:
  assumes "\<forall>(k, more, s) \<in> set xs. str_fits k s" "length pre = off"
  shows "bu_read_all (map fst xs) (pre @ all_bytes xs @ post, off) =
    (Inr (map (\<lambda>(k, more, s). Some s) xs), (pre @ all_bytes xs @ post, off + length (all_bytes xs)))"
  using assms
proof (induction xs arbitrary: pre off)
  case Nil
  then show ?case by (simp add: cmd_simps)
next
  case (Cons x xs)
  obtain k more s where x: "x = (k, more, s)" by (cases x)
  have fits: "str_fits k s"
    using Cons.prems by (auto simp: x)
  note r = bu_read_str_run [OF fits Cons.prems(2), of "all_bytes xs @ post"]
  have "bu_read_all (map fst xs) ((pre @ str_bytes k s) @ all_bytes xs @ post, off + k + length s + 1) =
    (Inr (map (\<lambda>(k, more, s). Some s) xs),
     ((pre @ str_bytes k s) @ all_bytes xs @ post, off + k + length s + 1 + length (all_bytes xs)))"
    by (rule Cons.IH) (use Cons.prems in \<open>auto simp: x length_str_bytes\<close>)
  then show ?case
    using r by (simp add: x c_bind_def c_ret_def length_str_bytes algebra_simps)
qed

subsection \<open>Properties\<close>

text \<open>C35. Strings that are written one after the other, each shorter than
  its size field allows, in a buffer with one spare byte, are read back unchanged and in order, and
  the reader ends where the writer did.\<close>

theorem buffer_strings_roundtrip:
  assumes "\<forall>(k, more, s) \<in> set xs. str_fits k s" "off + length (all_bytes xs) + 1 \<le> length m"
  shows "\<exists>m'. bu_write_all xs (m, off) = (Inr (), (m', off + length (all_bytes xs)))
    \<and> bu_read_all (map fst xs) (m', off) =
      (Inr (map (\<lambda>(k, more, s). Some s) xs), (m', off + length (all_bytes xs)))"
proof -
  obtain post where w: "bu_write_all xs (m, off) = (Inr (), (take off m @ all_bytes xs @ post, off + length (all_bytes xs)))"
    using bu_write_all_run [OF assms] by blast
  show ?thesis
    by (rule exI [of _ "take off m @ all_bytes xs @ post"])
      (use w bu_read_all_run [OF assms(1), of "take off m" off post] assms(2) in simp)
qed

theorem buffer_strings_roundtrip_witness:
  "\<exists>m'. bu_write_all [(1, False, [72, 105]), (4, True, [33])] (replicate 16 7, 2) = (Inr (), (m', 12))
    \<and> bu_read_all [1, 4] (m', 2) = (Inr [Some [72, 105], Some [33]], (m', 12))"
  using buffer_strings_roundtrip [of "[(1, False, [72, 105]), (4, True, [33])]" 2 "replicate 16 7"]
  by (simp add: str_fits_def str_bytes_def)

text \<open>On any buffer, when the reader that copies a string succeeds, the
  reader that gives a pointer returns the same size and leaves the same offset, it leaves its target
  alone in the same cases, and the pointer points to the bytes that the other reader copied.\<close>

theorem buffer_readers_agree:
  assumes "bu_read_str k b = (Inr (n, s), b')"
  shows "\<exists>p. bu_read_ptr k b = (Inr (n, p), b')
    \<and> s = (case p of None \<Rightarrow> None | Some a \<Rightarrow> peek (fst b) a (n - k - 1))"
proof -
  obtain m off where b: "b = (m, off)" by (cases b)
  obtain bs where bs: "peek m off k = Some bs"
    using assms by (auto simp: b bu_defs bu_deref_def c_bind_def cmd_simps split: option.splits)
  show ?thesis
  proof (cases "bytes_nat bs")
    case 0
    then show ?thesis
      using assms bs by (auto simp: b bu_defs bu_deref_def c_bind_def cmd_simps)
  next
    case (Suc size)
    then obtain cs where "peek m (off + k) size = Some cs"
      using assms bs by (auto simp: b bu_defs bu_deref_def c_bind_def cmd_simps split: option.splits)
    then show ?thesis
      using assms bs Suc by (auto simp: b bu_defs bu_deref_def c_bind_def cmd_simps)
  qed
qed

theorem buffer_readers_agree_witness:
  "\<exists>p. bu_read_ptr 1 ([3, 72, 105, 0], 0) = (Inr (4, p), ([3, 72, 105, 0], 4))
    \<and> Some [72, 105] = (case p of None \<Rightarrow> None | Some a \<Rightarrow> peek [3, 72, 105, 0] a 2)"
proof -
  have "bu_read_str 1 ([3, 72, 105, 0], 0) = (Inr (4, Some [72, 105]), ([3, 72, 105, 0], 4))"
    by (simp add: bu_defs bu_deref_def cmd_simps c_bind_def peek_def)
  moreover have "(4::nat) - 1 - 1 = 2"
    by simp
  ultimately show ?thesis
    using buffer_readers_agree [of 1 "([3, 72, 105, 0], 0)" 4] by (metis fst_conv)
qed

text \<open>
  A string whose length is one less than what the size field can hold, as a string of 255
  characters for \<open>write_8str\<close>, is not written: its size becomes 0, and the reader leaves its target
  alone.
\<close>

lemma buffer_str_lost:
  assumes "(n + 1) mod 256 ^ k = 0" "off + k \<le> length m"
  shows "bu_write_str k more s n (m, off) = (Inr k, (take off m @ nat_bytes k 0 @ drop (off + k) m, off + k))"
  using assms by (simp add: bu_write_str_def bu_write_def bu_advance_def cmd_simps Let_def bu_poke_run)

text \<open>
  The variants that clear one byte more than the size write past a buffer that has exactly the room
  for the string.
\<close>

lemma buffer_str_overrun:
  assumes "str_fits k s" "off + k + length s + 1 = length m"
  shows "fst (bu_write_str k True s (length s) (m, off)) = Inl Mem_fault"
proof -
  have "(256::nat) ^ k \<le> 256 ^ 4"
    using assms(1) by (intro power_increasing) (simp_all add: str_fits_def)
  then have "Suc (length s) mod 256 ^ k = Suc (length s)" "Suc (Suc (length s)) mod 4294967296 = Suc (Suc (length s))"
    using assms(1) by (simp_all add: str_fits_def)
  then show ?thesis
    using assms(2) [symmetric]
    by (simp add: bu_write_str_def bu_write_def bu_advance_def cmd_simps Let_def bu_poke_run)
      (simp add: bu_poke_def poke_def c_bind_def)
qed

end
