(* ===== verification/TypeEnums.thy ===== *)
theory TypeEnums
  imports Strings
begin

section \<open>Data type names and numbers (types/includes/types_common.h)\<close>

text \<open>
  The data types, their printed names and their numeric codes, with the two parsers.
\<close>

subsection \<open>The enumeration\<close>

datatype dtype = TYPE_UNKNOWN | TYPE_BOOL | TYPE_BYTE | TYPE_CHAR | TYPE_SHORT | TYPE_INTEGER
  | TYPE_LONG | TYPE_FLOAT | TYPE_DOUBLE | TYPE_TIMESTAMP | TYPE_DATETIME | TYPE_STRING | TYPE_TEXT
  | TYPE_LIST | TYPE_MAP | TYPE_STRUCT

fun type_num :: "dtype \<Rightarrow> nat" where
  "type_num TYPE_UNKNOWN = 0" | "type_num TYPE_BOOL = 1" | "type_num TYPE_BYTE = 2"
| "type_num TYPE_CHAR = 3" | "type_num TYPE_SHORT = 4" | "type_num TYPE_INTEGER = 5"
| "type_num TYPE_LONG = 6" | "type_num TYPE_FLOAT = 7" | "type_num TYPE_DOUBLE = 8"
| "type_num TYPE_TIMESTAMP = 9" | "type_num TYPE_DATETIME = 10" | "type_num TYPE_STRING = 11"
| "type_num TYPE_TEXT = 12" | "type_num TYPE_LIST = 13" | "type_num TYPE_MAP = 14"
| "type_num TYPE_STRUCT = 15"

fun is_native :: "dtype \<Rightarrow> bool" where
  "is_native TYPE_TIMESTAMP = True" | "is_native TYPE_BOOL = True" | "is_native TYPE_BYTE = True"
| "is_native TYPE_DOUBLE = True" | "is_native TYPE_SHORT = True" | "is_native TYPE_CHAR = True"
| "is_native TYPE_FLOAT = True" | "is_native TYPE_INTEGER = True" | "is_native TYPE_LONG = True"
| "is_native TYPE_STRING = True" | "is_native TYPE_DATETIME = True" | "is_native _ = False"

definition is_inner_type_valid :: "dtype \<Rightarrow> bool" where
  "is_inner_type_valid t = (if is_native t then True else t = TYPE_STRUCT \<or> t = TYPE_TEXT)"

fun get_datatype :: "dtype \<Rightarrow> string" where
  "get_datatype TYPE_BYTE = ''byte''" | "get_datatype TYPE_CHAR = ''char''"
| "get_datatype TYPE_DOUBLE = ''double''" | "get_datatype TYPE_FLOAT = ''float''"
| "get_datatype TYPE_INTEGER = ''int''" | "get_datatype TYPE_LIST = ''vector''"
| "get_datatype TYPE_LONG = ''long''" | "get_datatype TYPE_MAP = ''unordered_map''"
| "get_datatype TYPE_SHORT = ''short''" | "get_datatype TYPE_STRING = ''char''"
| "get_datatype TYPE_TEXT = ''char''" | "get_datatype TYPE_DATETIME = ''uint64_t''"
| "get_datatype TYPE_TIMESTAMP = ''uint64_t''" | "get_datatype TYPE_BOOL = ''bool''"
| "get_datatype _ = ''unkown''"

fun get_type_string :: "dtype \<Rightarrow> string" where
  "get_type_string TYPE_BYTE = ''byte''" | "get_type_string TYPE_CHAR = ''char''"
| "get_type_string TYPE_DOUBLE = ''double''" | "get_type_string TYPE_FLOAT = ''float''"
| "get_type_string TYPE_INTEGER = ''integer''" | "get_type_string TYPE_LIST = ''list''"
| "get_type_string TYPE_LONG = ''long''" | "get_type_string TYPE_MAP = ''map''"
| "get_type_string TYPE_SHORT = ''short''" | "get_type_string TYPE_STRING = ''string''"
| "get_type_string TYPE_STRUCT = ''type''" | "get_type_string TYPE_TEXT = ''text''"
| "get_type_string TYPE_TIMESTAMP = ''timestamp''" | "get_type_string TYPE_BOOL = ''boolean''"
| "get_type_string TYPE_DATETIME = ''datetime''" | "get_type_string _ = ''unkown''"

text \<open>The order in which the two parsers compare; \<open>TYPE_STRING\<close> is last by name and first by number.\<close>

definition parse_order :: "dtype list" where
  "parse_order = [TYPE_INTEGER, TYPE_LONG, TYPE_DOUBLE, TYPE_TIMESTAMP, TYPE_TEXT, TYPE_BYTE, TYPE_CHAR,
     TYPE_FLOAT, TYPE_LIST, TYPE_MAP, TYPE_SHORT, TYPE_BOOL, TYPE_STRUCT, TYPE_DATETIME]"

definition parse_type :: "string \<Rightarrow> exc + dtype" where
  "parse_type type =
     (if type = [] then Inl Empty_value
      else let t = str_trim (str_tolower type) in
        case find (\<lambda>d. t = get_type_string d) parse_order of
          Some d \<Rightarrow> Inr d
        | None \<Rightarrow> if str_find type (get_type_string TYPE_STRING) 0 = 0 then Inr TYPE_STRING
                  else Inr TYPE_UNKNOWN)"

definition parse_type_num :: "nat \<Rightarrow> dtype" where
  "parse_type_num t = (case find (\<lambda>d. t = type_num d) (TYPE_STRING # parse_order) of
     Some d \<Rightarrow> d | None \<Rightarrow> TYPE_UNKNOWN)"

definition parse_string_size :: "string \<Rightarrow> exc + nat" where
  "parse_string_size type =
     (if type = [] then Inl Empty_value
      else let t = str_trim (str_tolower type); bs = str_find t ''('' 0; be = str_find t '')'' bs in
        if str_find t (get_type_string TYPE_STRING) 0 \<noteq> 0 then Inl Postcondition
        else if bs = 0 then Inl Postcondition
        else if be = 0 then Inl Postcondition
        else case str_substr t (add64 bs 1) (sub64 (sub64 be bs) 1) of
            Inl e \<Rightarrow> Inl e
          | Inr s \<Rightarrow> if s = [] then Inl Empty_value
              else case std_stoi s of Inl e \<Rightarrow> Inl e
                | Inr i \<Rightarrow> if 0 < i \<and> i < 255 then Inr (nat i) else Inl Postcondition)"

subsection \<open>The parsers invert the printers\<close>

lemma parse_type_name:
  assumes "str_trim (str_tolower s) = get_type_string t" "t \<in> set parse_order"
  shows "parse_type s = Inr t"
proof -
  have "s \<noteq> []"
    using assms by (auto simp: str_trim_def str_rtrim_def str_ltrim_def str_tolower_def parse_order_def)
  then show ?thesis
    using assms by (auto simp: parse_type_def parse_order_def Let_def)
qed

lemma parse_order_all: "t \<in> set parse_order \<longleftrightarrow> t \<noteq> TYPE_UNKNOWN \<and> t \<noteq> TYPE_STRING"
  by (cases t) (simp_all add: parse_order_def)

lemma trim_type_string: "str_trim (str_tolower (get_type_string t)) = get_type_string t"
  by (cases t) (simp_all add: str_defs)

text \<open>The printed name and the numeric code of every data type parse back
  to it. Every type but \<open>TYPE_STRING\<close> is also found from a name in any letter case and with white
  space around it.\<close>

theorem type_codes_roundtrip:
  assumes "t \<noteq> TYPE_UNKNOWN"
  shows "parse_type_num (type_num t) = t \<and> parse_type (get_type_string t) = Inr t
    \<and> (t = TYPE_STRING \<or> (\<forall>s. str_trim (str_tolower s) = get_type_string t \<longrightarrow> parse_type s = Inr t))"
proof -
  have "parse_type_num (type_num t) = t"
    using assms by (cases t) (simp_all add: parse_type_num_def parse_order_def)
  moreover have "parse_type ''string'' = Inr TYPE_STRING"
    by (simp add: parse_type_def parse_order_def str_find_def str_defs)
  ultimately show ?thesis
    using assms parse_type_name [of _ t] trim_type_string [of t] 
    by (cases "t = TYPE_STRING") (auto simp: parse_order_all)
qed

theorem type_codes_roundtrip_witness:
  "parse_type_num 9 = TYPE_TIMESTAMP \<and> parse_type ''timestamp'' = Inr TYPE_TIMESTAMP \<and> parse_type '' TimeStamp'' = Inr TYPE_TIMESTAMP"
proof -
  have "str_trim (str_tolower '' TimeStamp'') = get_type_string TYPE_TIMESTAMP"
    by (simp add: str_defs bit_0)
  then show ?thesis
    using type_codes_roundtrip [of TYPE_TIMESTAMP] by simp
qed

text \<open>
  The comment says the parser ignores case, but the string type is looked for in the argument as
  it was passed.
\<close>

lemma parse_type_string_case:
  "parse_type ''string(10)'' = Inr TYPE_STRING" "parse_type ''STRING'' = Inr TYPE_UNKNOWN"
  "parse_type '' string'' = Inr TYPE_UNKNOWN"
  by (simp_all add: parse_type_def parse_order_def str_find_def npos_def str_defs)

lemma parse_string_size_samples:
  "parse_string_size ''string(10)'' = Inr 10" "parse_string_size ''string(10'' = Inr 10"
  "parse_string_size ''string'' = Inl Std_error" "parse_string_size ''string(255)'' = Inl Postcondition"
  by (simp_all add: parse_string_size_def str_find_def str_substr_def std_stoi_def std_sto_def read_int_def read_nat_def
      char_digit_def add64_def sub64_def npos_def str_defs)

end
