(* ===== verification/TypeHandlers.thy ===== *)
theory TypeHandlers
  imports Buffers TypeEnums
begin

section \<open>The handlers of the native types (types/includes/types_common.h)\<close>

text \<open>
  A handler object is the record of its virtual methods: a class is a definition, a derived class a
  record update. The buffer is the memory and a \<open>void *\<close> value is \<open>None\<close> (null) or what it points
  to. \<open>tval\<close> distinguishes what the code casts \<open>void *\<close> to: the bytes of a number, a C string
  (\<open>char *\<close>, without its NUL), a \<open>std::string\<close> object, a vector, a map in its iteration order, a
  record. A cast to another class than the value has is \<open>Mem_fault\<close>. A reader gives pointers into the
  buffer; the model gives what they point to.
\<close>

datatype tval =
    Scalar "u8 list"
  | Str "u8 list"          \<comment> \<open>char *\<close>
  | Obj "u8 list"          \<comment> \<open>std::string\<close>
  | Lst "tval list"
  | Mp "(tval \<times> tval) list"
  | Rec "tval option list"

datatype c_oper = Op_GT | Op_GTEQ | Op_LT | Op_LTEQ | Op_EQ

type_synonym 'a io = "('a, mem) cmd"

record handler =
  h_type :: dtype
  h_read :: "nat \<Rightarrow> nat \<Rightarrow> (nat \<times> tval option) io"          \<comment> \<open>offset, max length\<close>
  h_write :: "tval option \<Rightarrow> nat \<Rightarrow> nat \<Rightarrow> nat io"           \<comment> \<open>value, offset, max length\<close>
  h_compute_size :: "tval option \<Rightarrow> exc + nat"
  h_estimate_size :: "exc + nat"
  h_compare :: "tval option \<Rightarrow> tval option \<Rightarrow> c_oper \<Rightarrow> exc + bool"   \<comment> \<open>target, source\<close>
  h_set_key_data :: "nat \<Rightarrow> tval option \<Rightarrow> nat \<Rightarrow> nat io"      \<comment> \<open>offset, value, size\<close>

subsection \<open>Memory access at an offset\<close>

definition put_bytes :: "nat \<Rightarrow> u8 list \<Rightarrow> unit io" where
  "put_bytes off bs m = (case poke m off bs of None \<Rightarrow> (Inl Mem_fault, m) | Some m' \<Rightarrow> (Inr (), m'))"

definition get_bytes :: "nat \<Rightarrow> nat \<Rightarrow> u8 list io" where
  "get_bytes off n m = (case peek m off n of None \<Rightarrow> (Inl Mem_fault, m) | Some bs \<Rightarrow> (Inr bs, m))"

text \<open>\<open>buffer_utils::write<T>\<close> and the value behind the pointer of \<open>buffer_utils::read<T>\<close>.\<close>

definition put_num :: "nat \<Rightarrow> nat \<Rightarrow> nat \<Rightarrow> nat io" where
  "put_num k off v = c_bind (put_bytes off (nat_bytes k v)) (\<lambda>_. c_ret k)"

definition get_num :: "nat \<Rightarrow> nat \<Rightarrow> nat io" where
  "get_num k off = c_bind (get_bytes off k) (\<lambda>bs. c_ret (bytes_nat bs))"

definition at_off :: "nat \<Rightarrow> ('a, buf) cmd \<Rightarrow> 'a io" where
  "at_off off c m = (case c (m, off) of (r, b) \<Rightarrow> (r, fst b))"

text \<open>The C string at a pointer: the bytes up to the first NUL.\<close>

definition cstr_at :: "nat \<Rightarrow> u8 list io" where
  "cstr_at p m = (let s = takeWhile (\<lambda>b. b \<noteq> 0) (drop p m) in
     if p + length s < length m then (Inr s, m) else (Inl Mem_fault, m))"

definition get_data_ptr :: "nat \<Rightarrow> nat \<Rightarrow> nat \<Rightarrow> nat io" where
  "get_data_ptr sz off mx = c_bind (c_check Precondition (\<lambda>_. sz \<le> mx)) (\<lambda>_. c_ret off)"

subsection \<open>Numbers\<close>

fun rel_of :: "c_oper \<Rightarrow> int \<Rightarrow> int \<Rightarrow> bool" where
  "rel_of Op_GT a b = (a > b)" | "rel_of Op_GTEQ a b = (a \<ge> b)" | "rel_of Op_LT a b = (a < b)"
| "rel_of Op_LTEQ a b = (a \<le> b)" | "rel_of Op_EQ a b = (a = b)"

text \<open>
  What the bytes of a number stand for in a comparison: its value, and for the IEEE formats a number
  in the order of the values, with one zero and \<open>None\<close> for a NaN, which is in no relation.
\<close>

definition unsigned_of :: "u8 list \<Rightarrow> int option" where
  "unsigned_of bs = Some (int (bytes_nat bs))"

definition signed_of :: "u8 list \<Rightarrow> int option" where
  "signed_of bs = (let n = bytes_nat bs; w = 8 * length bs in
     Some (if n < 2 ^ (w - 1) then int n else int n - 2 ^ w))"

definition ieee_of :: "nat \<Rightarrow> u8 list \<Rightarrow> int option" where
  "ieee_of mant bs = (let n = bytes_nat bs; w = 8 * length bs; mag = n mod 2 ^ (w - 1) in
     if mag > (2 ^ (w - 1 - mant) - 1) * 2 ^ mant then None
     else Some (if n < 2 ^ (w - 1) then int mag else - int mag))"

definition bool_of :: "u8 list \<Rightarrow> int option" where
  "bool_of bs = Some (if bytes_nat bs = 0 then 0 else 1)"

definition num_rel :: "(u8 list \<Rightarrow> int option) \<Rightarrow> c_oper \<Rightarrow> u8 list \<Rightarrow> u8 list \<Rightarrow> bool" where
  "num_rel val oper s t = (case (val s, val t) of (Some a, Some b) \<Rightarrow> rel_of oper a b | _ \<Rightarrow> False)"

subsection \<open>Native handlers\<close>

definition base_handler :: "dtype \<Rightarrow> nat \<Rightarrow> handler" where
  "base_handler type k =
     \<lparr> h_type = type,
       h_read = \<lambda>off mx. c_bind (get_data_ptr k off mx) (\<lambda>p. c_bind (get_bytes p k) (\<lambda>bs. c_ret (k, Some (Scalar bs)))),
       h_write = \<lambda>value off mx. (case value of
           None \<Rightarrow> c_throw Null_pointer
         | Some v \<Rightarrow> c_bind (get_data_ptr k off mx) (\<lambda>p.
             case v of Scalar bs \<Rightarrow> if length bs = k then c_bind (put_bytes p bs) (\<lambda>_. c_ret k) else c_throw Mem_fault
                     | _ \<Rightarrow> c_throw Mem_fault)),
       h_compute_size = \<lambda>data. (case data of None \<Rightarrow> Inr 0 | Some _ \<Rightarrow> Inr k),
       h_estimate_size = Inr k,
       h_compare = \<lambda>target source oper. Inr False,
       h_set_key_data = \<lambda>off value sz. (case value of
           None \<Rightarrow> c_bind (put_bytes off (replicate k 0)) (\<lambda>_. c_ret k)
         | Some (Scalar bs) \<Rightarrow> if length bs = k then c_bind (put_bytes off bs) (\<lambda>_. c_ret k) else c_throw Mem_fault
         | Some _ \<Rightarrow> c_throw Mem_fault) \<rparr>"

definition compare_with :: "(c_oper \<Rightarrow> u8 list \<Rightarrow> u8 list \<Rightarrow> bool) \<Rightarrow> tval option \<Rightarrow> tval option \<Rightarrow> c_oper \<Rightarrow> exc + bool" where
  "compare_with rel target source oper = (case (source, target) of
       (None, _) \<Rightarrow> Inl Null_pointer
     | (_, None) \<Rightarrow> Inl Null_pointer
     | (Some (Scalar s), Some (Scalar t)) \<Rightarrow> Inr (rel oper s t)
     | _ \<Rightarrow> Inl Mem_fault)"

definition dt_byte :: handler where
  "dt_byte = (base_handler TYPE_BYTE 1)\<lparr>h_compare := compare_with (num_rel unsigned_of)\<rparr>"

definition dt_char :: handler where
  "dt_char = (base_handler TYPE_CHAR 1)\<lparr>h_compare := compare_with (num_rel signed_of)\<rparr>"

definition dt_bool :: handler where
  "dt_bool = (base_handler TYPE_BOOL 1)\<lparr>h_compare :=
     compare_with (\<lambda>oper s t. if oper = Op_EQ then num_rel bool_of Op_EQ s t else False)\<rparr>"

definition dt_short :: handler where
  "dt_short = (base_handler TYPE_SHORT 2)\<lparr>h_compare := compare_with (num_rel signed_of)\<rparr>"

definition dt_int :: handler where
  "dt_int = (base_handler TYPE_INTEGER 4)\<lparr>h_compare := compare_with (num_rel signed_of)\<rparr>"

definition dt_long :: handler where
  "dt_long = (base_handler TYPE_LONG 8)\<lparr>h_compare := compare_with (num_rel signed_of)\<rparr>"

definition dt_timestamp :: handler where
  "dt_timestamp = (base_handler TYPE_TIMESTAMP 8)\<lparr>h_compare := compare_with (num_rel unsigned_of)\<rparr>"

text \<open>The constructor of the date-time handler is the one of its base class: the type stays TIMESTAMP.\<close>

definition dt_datetime :: handler where
  "dt_datetime = dt_timestamp"

definition dt_float :: handler where
  "dt_float = (base_handler TYPE_FLOAT 4)\<lparr>h_compare := compare_with (num_rel (ieee_of 23))\<rparr>"

definition dt_double :: handler where
  "dt_double = (base_handler TYPE_DOUBLE 8)\<lparr>h_compare := compare_with (num_rel (ieee_of 52))\<rparr>"

subsection \<open>Strings\<close>

fun strcmp :: "u8 list \<Rightarrow> u8 list \<Rightarrow> int" where
  "strcmp [] [] = 0"
| "strcmp [] (b # bs) = - 1"
| "strcmp (a # as) [] = 1"
| "strcmp (a # as) (b # bs) = (if a = b then strcmp as bs else if unat a < unat b then - 1 else 1)"

definition str_read :: "(nat \<times> nat option, buf) cmd \<Rightarrow> nat \<Rightarrow> (nat \<times> tval option) io" where
  "str_read rd off = c_bind (at_off off rd) (\<lambda>(r_size, p).
     case p of None \<Rightarrow> c_ret (r_size, None)
       | Some p \<Rightarrow> c_bind (cstr_at p) (\<lambda>s. c_ret (r_size, Some (Str s))))"

definition str_write :: "nat \<Rightarrow> (u8 list \<Rightarrow> nat \<Rightarrow> (nat, buf) cmd) \<Rightarrow> tval option \<Rightarrow> nat \<Rightarrow> nat \<Rightarrow> nat io" where
  "str_write k wr value off mx = (case value of
       None \<Rightarrow> c_throw Null_pointer
     | Some (Str s) \<Rightarrow> (let sz = length s mod 256 ^ k in
         c_bind (c_check Precondition (\<lambda>_. k + sz \<le> mx)) (\<lambda>_. at_off off (wr s sz)))
     | Some _ \<Rightarrow> c_throw Mem_fault)"

definition dt_text :: handler where
  "dt_text = \<lparr> h_type = TYPE_STRING,
     h_read = \<lambda>off mx. str_read read_32str off,
     h_write = str_write 4 write_32str,
     h_compute_size = \<lambda>data. (case data of None \<Rightarrow> Inr 0 | Some (Obj s) \<Rightarrow> Inr (8 + length s) | Some _ \<Rightarrow> Inl Mem_fault),
     h_estimate_size = Inr 8,
     h_compare = \<lambda>target source oper. (case (source, target) of
         (None, _) \<Rightarrow> Inl Null_pointer
       | (_, None) \<Rightarrow> Inl Null_pointer
       | (Some (Str s), Some (Str t)) \<Rightarrow> Inr (rel_of oper (strcmp s t) 0)
       | _ \<Rightarrow> Inl Mem_fault),
     h_set_key_data = \<lambda>off value sz. c_throw Base_error \<rparr>"

text \<open>
  The key of a string is \<open>size\<close> bytes from the pointer, past the NUL of a shorter string.
\<close>

definition dt_string :: handler where
  "dt_string = dt_text\<lparr>
     h_read := \<lambda>off mx. str_read read_8str off,
     h_write := str_write 1 write_8str,
     h_compute_size := \<lambda>data. (case data of None \<Rightarrow> Inr 0 | Some (Obj s) \<Rightarrow> Inr (1 + length s) | Some _ \<Rightarrow> Inl Mem_fault),
     h_set_key_data := \<lambda>off value sz. c_bind (c_check Precondition (\<lambda>_. sz > 0)) (\<lambda>_. case value of
         None \<Rightarrow> c_bind (put_bytes off (replicate sz 0)) (\<lambda>_. c_ret sz)
       | Some (Str s) \<Rightarrow> if sz \<le> length s + 1 then c_bind (put_bytes off (take sz (s @ [0]))) (\<lambda>_. c_ret sz)
                          else c_throw Mem_fault
       | Some _ \<Rightarrow> c_throw Mem_fault)\<rparr>"

subsection \<open>The registry of handlers (types/includes/schema_common.h)\<close>

fun create_type_handler :: "dtype \<Rightarrow> exc + handler" where
  "create_type_handler TYPE_BYTE = Inr dt_byte" | "create_type_handler TYPE_CHAR = Inr dt_char"
| "create_type_handler TYPE_DOUBLE = Inr dt_double" | "create_type_handler TYPE_FLOAT = Inr dt_float"
| "create_type_handler TYPE_INTEGER = Inr dt_int" | "create_type_handler TYPE_LONG = Inr dt_long"
| "create_type_handler TYPE_SHORT = Inr dt_short" | "create_type_handler TYPE_STRING = Inr dt_string"
| "create_type_handler TYPE_STRUCT = Inr dt_byte" | "create_type_handler TYPE_TEXT = Inr dt_text"
| "create_type_handler TYPE_TIMESTAMP = Inr dt_timestamp" | "create_type_handler TYPE_BOOL = Inr dt_bool"
| "create_type_handler TYPE_DATETIME = Inr dt_datetime" | "create_type_handler _ = Inl Base_error"

type_synonym registry = "string \<rightharpoonup> handler"

definition get_type_handler :: "dtype \<Rightarrow> (handler option, registry) cmd" where
  "get_type_handler type reg =
     (case reg (get_type_string type) of
        Some h \<Rightarrow> (Inr (Some h), reg)
      | None \<Rightarrow> if is_native type \<or> type = TYPE_TEXT
                then case create_type_handler type of Inl e \<Rightarrow> (Inl e, reg)
                       | Inr h \<Rightarrow> (Inr (Some h), reg(get_type_string type \<mapsto> h))
                else (Inr None, reg))"

definition get_type_handler_key :: "string \<Rightarrow> (handler option, registry) cmd" where
  "get_type_handler_key key reg = (if key = [] then (Inl Empty_value, reg) else (Inr (reg key), reg))"

definition add_external_handler :: "string \<Rightarrow> handler \<Rightarrow> (bool, registry) cmd" where
  "add_external_handler key h reg =
     (if key = [] then (Inl Empty_value, reg)
      else case reg key of Some _ \<Rightarrow> (Inr False, reg) | None \<Rightarrow> (Inr True, reg(key \<mapsto> h)))"

definition create_list_key :: "dtype \<Rightarrow> dtype \<Rightarrow> string" where
  "create_list_key type inner = get_type_string type @ ''::'' @ get_type_string inner"

definition create_map_key :: "dtype \<Rightarrow> dtype \<Rightarrow> dtype \<Rightarrow> string" where
  "create_map_key type key_type value_type =
     get_type_string type @ ''::'' @ get_type_string key_type @ ''::'' @ get_type_string value_type"

end
