(* ===== verification/TypeConstraints.thy ===== *)
theory TypeConstraints
  imports TypeHandlers
begin

section \<open>Constraints and default values of fields (types/includes/__constraints.h, schema_common.h, schema_helpers.h)\<close>

text \<open>
  A constraint is the class of its object with its members: the negation flag, the data type, the
  values. A value that was never set is \<open>None\<close>; reading it is \<open>Mem_fault\<close>. Values of type string
  are \<open>std::string\<close> objects. \<open>fp k s\<close> is what \<open>std::stof\<close> (\<open>k = 4\<close>) or \<open>std::stod\<close> (\<open>k = 8\<close>) make of
  a string: the bytes of the number or the exception. A pattern that \<open>std::regex\<close> rejects is not modelled.
\<close>

type_synonym float_parser = "nat \<Rightarrow> string \<Rightarrow> exc + u8 list"

datatype tcons =
    C_notnull bool
  | C_regex bool "string option"
  | C_range bool dtype "tval option" "tval option"
  | C_oper bool c_oper dtype "tval option"
  | C_value bool dtype "tval list"

datatype ctype_enum = CONSTRAINT_NOT_NULLABLE | CONSTRAINT_RANGE | CONSTRAINT_IN | CONSTRAINT_REGEX
  | CONSTRAINT_GT | CONSTRAINT_LT | CONSTRAINT_GTEQ | CONSTRAINT_LTEQ

fun get_number_value :: "ctype_enum \<Rightarrow> nat" where
  "get_number_value CONSTRAINT_NOT_NULLABLE = 0" | "get_number_value CONSTRAINT_RANGE = 1"
| "get_number_value CONSTRAINT_IN = 2" | "get_number_value CONSTRAINT_REGEX = 3"
| "get_number_value CONSTRAINT_GT = 4" | "get_number_value CONSTRAINT_LT = 5"
| "get_number_value CONSTRAINT_GTEQ = 6" | "get_number_value CONSTRAINT_LTEQ = 7"

fun constraint_string :: "ctype_enum \<Rightarrow> string" where
  "constraint_string CONSTRAINT_NOT_NULLABLE = ''not nullable''"
| "constraint_string CONSTRAINT_RANGE = ''between''" | "constraint_string CONSTRAINT_IN = ''in''"
| "constraint_string CONSTRAINT_REGEX = ''regex''" | "constraint_string CONSTRAINT_GT = ''gt''"
| "constraint_string CONSTRAINT_LT = ''lt''" | "constraint_string CONSTRAINT_GTEQ = ''gteq''"
| "constraint_string CONSTRAINT_LTEQ = ''lteq''"

definition parse_constraint_type :: "string \<Rightarrow> exc + ctype_enum" where
  "parse_constraint_type type0 = (let type = str_tolower type0 in
     case find (\<lambda>c. type = constraint_string c)
       [CONSTRAINT_NOT_NULLABLE, CONSTRAINT_RANGE, CONSTRAINT_IN, CONSTRAINT_REGEX,
        CONSTRAINT_GT, CONSTRAINT_LT, CONSTRAINT_GTEQ, CONSTRAINT_LTEQ] of
       Some c \<Rightarrow> Inr c | None \<Rightarrow> Inl Base_error)"

fun get_constraint_type :: "c_oper \<Rightarrow> exc + ctype_enum" where
  "get_constraint_type Op_LTEQ = Inr CONSTRAINT_LTEQ" | "get_constraint_type Op_LT = Inr CONSTRAINT_LT"
| "get_constraint_type Op_GTEQ = Inr CONSTRAINT_GTEQ" | "get_constraint_type Op_GT = Inr CONSTRAINT_GT"
| "get_constraint_type Op_EQ = Inl Base_error"

subsection \<open>Validation\<close>

text \<open>The C++ comparison of two objects of the type, where they are numbers or strings.\<close>

fun num_of :: "dtype \<Rightarrow> u8 list \<Rightarrow> int option" where
  "num_of TYPE_BYTE = unsigned_of" | "num_of TYPE_BOOL = bool_of" | "num_of TYPE_CHAR = signed_of"
| "num_of TYPE_SHORT = signed_of" | "num_of TYPE_INTEGER = signed_of" | "num_of TYPE_LONG = signed_of"
| "num_of TYPE_FLOAT = ieee_of 23" | "num_of TYPE_DOUBLE = ieee_of 52" | "num_of _ = unsigned_of"

definition cpp_rel :: "dtype \<Rightarrow> c_oper \<Rightarrow> tval option \<Rightarrow> tval option \<Rightarrow> exc + bool" where
  "cpp_rel dt oper s t = (case (s, t) of
       (Some (Scalar a), Some (Scalar b)) \<Rightarrow> Inr (num_rel (num_of dt) oper a b)
     | (Some (Obj a), Some (Obj b)) \<Rightarrow> Inr (rel_of oper (strcmp a b) 0)
     | _ \<Rightarrow> Inl Mem_fault)"

definition native_handler :: "dtype \<Rightarrow> exc + handler" where
  "native_handler dt = (if is_native dt \<or> dt = TYPE_TEXT then create_type_handler dt else Inl Null_pointer)"

fun in_values :: "dtype \<Rightarrow> tval \<Rightarrow> tval list \<Rightarrow> exc + bool" where
  "in_values dt v [] = Inr False"
| "in_values dt v (x # xs) = e_bind (cpp_rel dt Op_EQ (Some v) (Some x)) (\<lambda>b. if b then Inr True else in_values dt v xs)"

definition notnull_validate :: "bool \<Rightarrow> tval option \<Rightarrow> exc + bool" where
  "notnull_validate nt v = Inr (if nt then v = None else v \<noteq> None)"

text \<open>The match with the pattern is commented out.\<close>

definition regex_validate :: "tval option \<Rightarrow> exc + bool" where
  "regex_validate v = Inr False"

definition range_validate :: "bool \<Rightarrow> dtype \<Rightarrow> tval option \<Rightarrow> tval option \<Rightarrow> tval option \<Rightarrow> exc + bool" where
  "range_validate nt dt mn mx v = (if v = None then Inr False else
     e_bind (cpp_rel dt Op_GTEQ v mn) (\<lambda>a.
     e_bind (if a then cpp_rel dt Op_LTEQ v mx else Inr False) (\<lambda>r. Inr (if nt then \<not> r else r))))"

definition oper_validate :: "bool \<Rightarrow> c_oper \<Rightarrow> dtype \<Rightarrow> tval option \<Rightarrow> tval option \<Rightarrow> exc + bool" where
  "oper_validate nt oper dt x v = (if v = None then Inr False else
     e_bind (native_handler dt) (\<lambda>h.
     e_bind (if x = None then Inl Mem_fault else h_compare h x v oper) (\<lambda>r. Inr (if nt then \<not> r else r))))"

definition value_validate :: "bool \<Rightarrow> dtype \<Rightarrow> tval list \<Rightarrow> tval option \<Rightarrow> exc + bool" where
  "value_validate nt dt xs v = (case v of None \<Rightarrow> Inr False
     | Some t \<Rightarrow> e_bind (in_values dt t xs) (\<lambda>r. Inr (if r then \<not> nt else False)))"

fun c_validate :: "tcons \<Rightarrow> tval option \<Rightarrow> exc + bool" where
  "c_validate (C_notnull nt) v = notnull_validate nt v"
| "c_validate (C_regex nt p) v = regex_validate v"
| "c_validate (C_range nt dt mn mx) v = range_validate nt dt mn mx v"
| "c_validate (C_oper nt oper dt x) v = oper_validate nt oper dt x v"
| "c_validate (C_value nt dt xs) v = value_validate nt dt xs v"

subsection \<open>Writing and reading\<close>

definition ULONG_MAX :: nat where
  "ULONG_MAX = 18446744073709551615"

text \<open>A string value is passed to the handler with \<open>c_str\<close>.\<close>

definition c_str :: "u8 list \<Rightarrow> u8 list" where
  "c_str s = takeWhile (\<lambda>b. b \<noteq> 0) s"

fun as_cstr :: "tval option \<Rightarrow> tval option" where
  "as_cstr (Some (Obj s)) = Some (Str (c_str s))"
| "as_cstr v = v"

fun as_obj :: "tval option \<Rightarrow> tval option" where
  "as_obj (Some (Str s)) = Some (Obj s)"
| "as_obj v = v"

definition bytes_of :: "string \<Rightarrow> u8 list" where
  "bytes_of s = map of_char s"

definition string_of :: "u8 list \<Rightarrow> string" where
  "string_of bs = map (\<lambda>b. char_of (unat b)) bs"

definition lift_e :: "exc + 'a \<Rightarrow> 'a io" where
  "lift_e r m = (r, m)"

definition write_value :: "dtype \<Rightarrow> tval option \<Rightarrow> nat \<Rightarrow> nat io" where
  "write_value dt x off = c_bind (lift_e (native_handler dt)) (\<lambda>h.
     if x = None then c_throw Mem_fault else h_write h (as_cstr x) off ULONG_MAX)"

definition read_value :: "dtype \<Rightarrow> nat \<Rightarrow> (nat \<times> tval) io" where
  "read_value dt off = c_bind (lift_e (native_handler dt)) (\<lambda>h.
     c_bind (h_read h off ULONG_MAX) (\<lambda>(r, v). case as_obj v of None \<Rightarrow> c_throw Null_pointer | Some v \<Rightarrow> c_ret (r, v)))"

fun write_values :: "dtype \<Rightarrow> tval list \<Rightarrow> nat \<Rightarrow> nat \<Rightarrow> nat io" where
  "write_values dt [] offset w_size = c_ret w_size"
| "write_values dt (x # xs) offset w_size =
     c_bind (write_value dt (Some x) (offset + w_size)) (\<lambda>r. write_values dt xs offset (w_size + r))"

fun read_values :: "dtype \<Rightarrow> nat \<Rightarrow> nat \<Rightarrow> nat \<Rightarrow> (nat \<times> tval list) io" where
  "read_values dt 0 offset r_size = c_ret (r_size, [])"
| "read_values dt (Suc n) offset r_size =
     c_bind (read_value dt (offset + r_size)) (\<lambda>(r, v).
     c_bind (read_values dt n offset (r_size + r)) (\<lambda>(r_size, vs). c_ret (r_size, v # vs)))"

definition notnull_write :: "nat \<Rightarrow> nat io" where
  "notnull_write off = put_num 1 off (get_number_value CONSTRAINT_NOT_NULLABLE)"

definition regex_write :: "string option \<Rightarrow> nat \<Rightarrow> nat io" where
  "regex_write p off =
     c_bind (put_num 1 off (get_number_value CONSTRAINT_REGEX)) (\<lambda>w.
     c_bind (write_value TYPE_STRING (map_option (Obj \<circ> bytes_of) p) (off + w)) (\<lambda>r. c_ret (w + r)))"

definition range_write :: "dtype \<Rightarrow> tval option \<Rightarrow> tval option \<Rightarrow> nat \<Rightarrow> nat io" where
  "range_write dt mn mx off =
     c_bind (put_num 1 off (get_number_value CONSTRAINT_RANGE)) (\<lambda>w.
     c_bind (write_value dt mn (off + w)) (\<lambda>r.
     c_bind (write_value dt mx (off + (w + r))) (\<lambda>r'. c_ret (w + r + r'))))"

definition oper_write :: "c_oper \<Rightarrow> dtype \<Rightarrow> tval option \<Rightarrow> nat \<Rightarrow> nat io" where
  "oper_write oper dt x off =
     c_bind (lift_e (get_constraint_type oper)) (\<lambda>type.
     c_bind (put_num 1 off (get_number_value type)) (\<lambda>w.
     c_bind (write_value dt x (off + w)) (\<lambda>r. c_ret (w + r))))"

definition value_write :: "dtype \<Rightarrow> tval list \<Rightarrow> nat \<Rightarrow> nat io" where
  "value_write dt xs off =
     c_bind (put_num 1 off (get_number_value CONSTRAINT_IN)) (\<lambda>w.
     c_bind (put_num 2 (off + w) (length xs)) (\<lambda>r. write_values dt xs off (w + r)))"

fun c_write :: "tcons \<Rightarrow> nat \<Rightarrow> nat io" where
  "c_write (C_notnull nt) off = notnull_write off"
| "c_write (C_regex nt p) off = regex_write p off"
| "c_write (C_range nt dt mn mx) off = range_write dt mn mx off"
| "c_write (C_oper nt oper dt x) off = oper_write oper dt x off"
| "c_write (C_value nt dt xs) off = value_write dt xs off"

text \<open>\<open>read\<close> fills the members of an existing object; the flag is not stored.\<close>

definition expect_type :: "nat \<Rightarrow> ctype_enum \<Rightarrow> nat io" where
  "expect_type off c = c_bind (get_num 1 off) (\<lambda>t.
     c_bind (c_check Postcondition (\<lambda>_. t = get_number_value c)) (\<lambda>_. c_ret 1))"

definition notnull_read :: "bool \<Rightarrow> nat \<Rightarrow> (nat \<times> tcons) io" where
  "notnull_read nt off = c_bind (expect_type off CONSTRAINT_NOT_NULLABLE) (\<lambda>r. c_ret (r, C_notnull nt))"

definition regex_read :: "bool \<Rightarrow> nat \<Rightarrow> (nat \<times> tcons) io" where
  "regex_read nt off =
     c_bind (expect_type off CONSTRAINT_REGEX) (\<lambda>r.
     c_bind (read_value TYPE_STRING (off + r)) (\<lambda>(n, v).
       case v of Obj s \<Rightarrow> c_ret (r + n, C_regex nt (Some (string_of s))) | _ \<Rightarrow> c_throw Mem_fault))"

definition range_read :: "bool \<Rightarrow> dtype \<Rightarrow> nat \<Rightarrow> (nat \<times> tcons) io" where
  "range_read nt dt off =
     c_bind (expect_type off CONSTRAINT_RANGE) (\<lambda>r.
     c_bind (read_value dt (off + r)) (\<lambda>(n, a).
     c_bind (read_value dt (off + (r + n))) (\<lambda>(n', b). c_ret (r + n + n', C_range nt dt (Some a) (Some b)))))"

definition oper_read :: "bool \<Rightarrow> c_oper \<Rightarrow> dtype \<Rightarrow> nat \<Rightarrow> (nat \<times> tcons) io" where
  "oper_read nt oper dt off =
     c_bind (lift_e (get_constraint_type oper)) (\<lambda>type.
     c_bind (expect_type off type) (\<lambda>r.
     c_bind (read_value dt (off + r)) (\<lambda>(n, a). c_ret (r + n, C_oper nt oper dt (Some a)))))"

definition value_read :: "bool \<Rightarrow> dtype \<Rightarrow> tval list \<Rightarrow> nat \<Rightarrow> (nat \<times> tcons) io" where
  "value_read nt dt xs off =
     c_bind (expect_type off CONSTRAINT_IN) (\<lambda>r.
     c_bind (get_num 2 (off + r)) (\<lambda>count.
     c_bind (read_values dt count off (r + 2)) (\<lambda>(r_size, vs). c_ret (r_size, C_value nt dt (xs @ vs)))))"

fun c_read :: "tcons \<Rightarrow> nat \<Rightarrow> (nat \<times> tcons) io" where
  "c_read (C_notnull nt) off = notnull_read nt off"
| "c_read (C_regex nt p) off = regex_read nt off"
| "c_read (C_range nt dt mn mx) off = range_read nt dt off"
| "c_read (C_oper nt oper dt x) off = oper_read nt oper dt off"
| "c_read (C_value nt dt xs) off = value_read nt dt xs off"

lemmas c_write_defs = notnull_write_def regex_write_def range_write_def oper_write_def value_write_def
lemmas c_read_defs = notnull_read_def regex_read_def range_read_def oper_read_def value_read_def

subsection \<open>The loader\<close>

text \<open>
  The functions that read a constraint create the object of the right class and let it read itself.
  What they return is the object and the number of bytes that it read.
\<close>

definition basic_types :: "dtype list" where
  "basic_types = [TYPE_CHAR, TYPE_SHORT, TYPE_INTEGER, TYPE_LONG, TYPE_FLOAT, TYPE_DOUBLE, TYPE_TIMESTAMP, TYPE_STRING]"

definition of_basic :: "dtype \<Rightarrow> 'a \<Rightarrow> exc + 'a" where
  "of_basic dt c = (if dt \<in> set basic_types then Inr c else Inl Base_error)"

definition read_new :: "nat \<Rightarrow> exc + tcons \<Rightarrow> (tcons \<times> nat) io" where
  "read_new off c = c_bind (lift_e c) (\<lambda>c. c_bind (c_read c off) (\<lambda>(r, c). c_ret (c, r)))"

definition read_operator_gt :: "nat \<Rightarrow> dtype \<Rightarrow> (tcons \<times> nat) io" where
  "read_operator_gt off dt = read_new off (of_basic dt (C_oper False Op_GT dt None))"
definition read_operator_gteq :: "nat \<Rightarrow> dtype \<Rightarrow> (tcons \<times> nat) io" where
  "read_operator_gteq off dt = read_new off (of_basic dt (C_oper False Op_GTEQ dt None))"
definition read_operator_lt :: "nat \<Rightarrow> dtype \<Rightarrow> (tcons \<times> nat) io" where
  "read_operator_lt off dt = read_new off (of_basic dt (C_oper False Op_LT dt None))"
definition read_operator_lteq :: "nat \<Rightarrow> dtype \<Rightarrow> (tcons \<times> nat) io" where
  "read_operator_lteq off dt = read_new off (of_basic dt (C_oper False Op_LTEQ dt None))"

fun read_operator :: "nat \<Rightarrow> dtype \<Rightarrow> c_oper \<Rightarrow> (tcons \<times> nat) io" where
  "read_operator off dt Op_GT = read_operator_gt off dt"
| "read_operator off dt Op_GTEQ = read_operator_gteq off dt"
| "read_operator off dt Op_LT = read_operator_lt off dt"
| "read_operator off dt Op_LTEQ = read_operator_lteq off dt"
| "read_operator off dt Op_EQ = c_throw Base_error"

definition cl_read_value :: "nat \<Rightarrow> dtype \<Rightarrow> (tcons \<times> nat) io" where
  "cl_read_value off dt = read_new off (of_basic dt (C_value False dt []))"

definition cl_read_range :: "nat \<Rightarrow> dtype \<Rightarrow> (tcons \<times> nat) io" where
  "cl_read_range off dt = read_new off (of_basic dt (C_range False dt None None))"

definition read_regex :: "nat \<Rightarrow> (tcons \<times> nat) io" where
  "read_regex off = read_new off (Inr (C_regex False None))"

definition read_nullable :: "nat \<Rightarrow> (tcons \<times> nat) io" where
  "read_nullable off = read_new off (Inr (C_notnull False))"

text \<open>There is no branch for the code of \<open>CONSTRAINT_GT\<close>: the result stays null.\<close>

definition cl_read :: "nat \<Rightarrow> dtype \<Rightarrow> (tcons \<times> nat) io" where
  "cl_read off dt = c_bind (get_num 1 off) (\<lambda>type.
     if type = get_number_value CONSTRAINT_IN then cl_read_value off dt
     else if type = get_number_value CONSTRAINT_RANGE then cl_read_range off dt
     else if type = get_number_value CONSTRAINT_REGEX then read_regex off
     else if type = get_number_value CONSTRAINT_NOT_NULLABLE then read_nullable off
     else if type = get_number_value CONSTRAINT_LTEQ then read_operator off dt Op_LTEQ
     else if type = get_number_value CONSTRAINT_LT then read_operator off dt Op_LT
     else if type = get_number_value CONSTRAINT_GTEQ then read_operator off dt Op_GTEQ
     else if type = get_number_value CONSTRAINT_LT then read_operator off dt Op_LT
     else c_throw Null_pointer)"

text \<open>Creating a constraint from the text of its values.\<close>

definition int_bytes :: "nat \<Rightarrow> int \<Rightarrow> u8 list" where
  "int_bytes k i = nat_bytes k (nat (i mod 2 ^ (8 * k)))"

definition parse_short :: "string \<Rightarrow> exc + tval" where
  "parse_short s = e_bind (std_stoi s) (\<lambda>i. if - 32768 \<le> i \<and> i \<le> 32767 then Inr (Scalar (int_bytes 2 i)) else Inl Postcondition)"

fun parse_value :: "float_parser \<Rightarrow> dtype \<Rightarrow> string \<Rightarrow> exc + tval" where
  "parse_value fp TYPE_CHAR s = Inr (Scalar [case s of [] \<Rightarrow> 0 | c # _ \<Rightarrow> of_char c])"
| "parse_value fp TYPE_SHORT s = parse_short s"
| "parse_value fp TYPE_INTEGER s = e_bind (std_stoi s) (\<lambda>i. Inr (Scalar (int_bytes 4 i)))"
| "parse_value fp TYPE_LONG s = e_bind (std_stol s) (\<lambda>i. Inr (Scalar (int_bytes 8 i)))"
| "parse_value fp TYPE_FLOAT s = e_bind (fp 4 s) (\<lambda>bs. Inr (Scalar bs))"
| "parse_value fp TYPE_DOUBLE s = e_bind (fp 8 s) (\<lambda>bs. Inr (Scalar bs))"
| "parse_value fp TYPE_TIMESTAMP s = e_bind (std_stol s) (\<lambda>i. Inr (Scalar (int_bytes 8 i)))"
| "parse_value fp TYPE_STRING s = Inr (Obj (bytes_of s))"
| "parse_value fp _ s = Inl Base_error"

definition create_oper_of :: "float_parser \<Rightarrow> c_oper \<Rightarrow> string option \<Rightarrow> dtype \<Rightarrow> exc + tcons" where
  "create_oper_of fp oper vals dt = (if dt \<in> set basic_types
     then case vals of None \<Rightarrow> Inl Mem_fault
       | Some s \<Rightarrow> e_bind (parse_value fp dt s) (\<lambda>v. Inr (C_oper False oper dt (Some v)))
     else Inl Base_error)"

definition create_operator_gt :: "float_parser \<Rightarrow> string option \<Rightarrow> dtype \<Rightarrow> exc + tcons" where
  "create_operator_gt fp vals dt =
     (if vals = None \<or> vals = Some [] then Inl Empty_value else create_oper_of fp Op_GT vals dt)"

definition create_operator_gteq :: "float_parser \<Rightarrow> string option \<Rightarrow> dtype \<Rightarrow> exc + tcons" where
  "create_operator_gteq fp = create_oper_of fp Op_GTEQ"
definition create_operator_lt :: "float_parser \<Rightarrow> string option \<Rightarrow> dtype \<Rightarrow> exc + tcons" where
  "create_operator_lt fp = create_oper_of fp Op_LT"
definition create_operator_lteq :: "float_parser \<Rightarrow> string option \<Rightarrow> dtype \<Rightarrow> exc + tcons" where
  "create_operator_lteq fp = create_oper_of fp Op_LTEQ"

fun create_operator :: "float_parser \<Rightarrow> string option \<Rightarrow> dtype \<Rightarrow> c_oper \<Rightarrow> exc + tcons" where
  "create_operator fp vals dt Op_GT = create_operator_gt fp vals dt"
| "create_operator fp vals dt Op_GTEQ = create_operator_gteq fp vals dt"
| "create_operator fp vals dt Op_LT = create_operator_lt fp vals dt"
| "create_operator fp vals dt Op_LTEQ = create_operator_lteq fp vals dt"
| "create_operator fp vals dt Op_EQ = Inl Base_error"

fun parse_items :: "float_parser \<Rightarrow> dtype \<Rightarrow> string list \<Rightarrow> exc + tval list" where
  "parse_items fp dt [] = Inr []"
| "parse_items fp dt (s # ss) = (let vs = str_trim s in
     if vs = [] then Inl Empty_value
     else e_bind (parse_value fp dt vs) (\<lambda>v. e_bind (parse_items fp dt ss) (\<lambda>xs. Inr (v # xs))))"

definition create_value :: "float_parser \<Rightarrow> string option \<Rightarrow> dtype \<Rightarrow> exc + tcons" where
  "create_value fp vals dt = (if dt \<in> set basic_types
     then case vals of None \<Rightarrow> Inl Mem_fault
       | Some s \<Rightarrow> (let vlist = str_split (CHR '','') s in
           if vlist = [] then Inl Empty_value else e_bind (parse_items fp dt vlist) (\<lambda>xs. Inr (C_value False dt xs)))
     else Inl Base_error)"

text \<open>
  The bounds of a range that are left out. For the floating point types the lower one is
  \<open>std::numeric_limits::min\<close>, the smallest positive normal number.
\<close>

fun default_min :: "dtype \<Rightarrow> tval" where
  "default_min TYPE_CHAR = Scalar (int_bytes 1 (- 128))"
| "default_min TYPE_SHORT = Scalar (int_bytes 2 (- 32768))"
| "default_min TYPE_INTEGER = Scalar (int_bytes 4 (- (2 ^ 31)))"
| "default_min TYPE_LONG = Scalar (int_bytes 8 (- (2 ^ 63)))"
| "default_min TYPE_FLOAT = Scalar (nat_bytes 4 0x00800000)"
| "default_min TYPE_DOUBLE = Scalar (nat_bytes 8 0x0010000000000000)"
| "default_min TYPE_STRING = Obj []"
| "default_min _ = Scalar (int_bytes 8 0)"

fun default_max :: "dtype \<Rightarrow> tval" where
  "default_max TYPE_CHAR = Scalar (int_bytes 1 127)"
| "default_max TYPE_SHORT = Scalar (int_bytes 2 32767)"
| "default_max TYPE_INTEGER = Scalar (int_bytes 4 (2 ^ 31 - 1))"
| "default_max TYPE_LONG = Scalar (int_bytes 8 (2 ^ 63 - 1))"
| "default_max TYPE_FLOAT = Scalar (nat_bytes 4 0x7F7FFFFF)"
| "default_max TYPE_DOUBLE = Scalar (nat_bytes 8 0x7FEFFFFFFFFFFFFF)"
| "default_max TYPE_STRING = Obj []"
| "default_max _ = Scalar (int_bytes 8 (2 ^ 64 - 1))"

definition bound_of :: "float_parser \<Rightarrow> dtype \<Rightarrow> tval \<Rightarrow> string list \<Rightarrow> nat \<Rightarrow> exc + tval" where
  "bound_of fp dt d items i = (let s = (if i < length items then items ! i else []) in
     if s = [] then Inr d else parse_value fp dt s)"

definition create_range :: "float_parser \<Rightarrow> string option \<Rightarrow> dtype \<Rightarrow> exc + tcons" where
  "create_range fp vals dt = (if dt \<in> set basic_types
     then case vals of None \<Rightarrow> Inl Mem_fault
       | Some s \<Rightarrow> (let items = str_split (CHR '','') s in
           e_bind (bound_of fp dt (default_min dt) items 0) (\<lambda>a.
           e_bind (bound_of fp dt (default_max dt) items 1) (\<lambda>b. Inr (C_range False dt (Some a) (Some b)))))
     else Inl Base_error)"

fun set_not :: "bool \<Rightarrow> tcons \<Rightarrow> tcons" where
  "set_not b (C_notnull nt) = C_notnull b" | "set_not b (C_regex nt p) = C_regex b p"
| "set_not b (C_range nt dt mn mx) = C_range b dt mn mx" | "set_not b (C_oper nt oper dt x) = C_oper b oper dt x"
| "set_not b (C_value nt dt xs) = C_value b dt xs"

text \<open>
  The case of the range calls \<open>create_value\<close> and falls through to the throw of the default case.
\<close>

definition cl_create :: "float_parser \<Rightarrow> string \<Rightarrow> string option \<Rightarrow> dtype \<Rightarrow> bool \<Rightarrow> exc + tcons" where
  "cl_create fp constraint vals dt nt =
     (if constraint = [] then Inl Empty_value
      else e_bind (parse_constraint_type constraint) (\<lambda>type.
        e_bind (case type of
            CONSTRAINT_NOT_NULLABLE \<Rightarrow> Inr (C_notnull False)
          | CONSTRAINT_REGEX \<Rightarrow> (case vals of None \<Rightarrow> Inl Mem_fault | Some p \<Rightarrow> Inr (C_regex False (Some p)))
          | CONSTRAINT_GT \<Rightarrow> create_operator fp vals dt Op_GT
          | CONSTRAINT_LT \<Rightarrow> create_operator fp vals dt Op_LT
          | CONSTRAINT_GTEQ \<Rightarrow> create_operator fp vals dt Op_GTEQ
          | CONSTRAINT_LTEQ \<Rightarrow> create_operator fp vals dt Op_LTEQ
          | CONSTRAINT_IN \<Rightarrow> create_value fp vals dt
          | CONSTRAINT_RANGE \<Rightarrow> e_bind (create_value fp vals dt) (\<lambda>_. Inl Base_error))
        (\<lambda>c. Inr (set_not nt c))))"

subsection \<open>Default values\<close>

datatype tdefault = Default dtype "tval option"

fun d_type :: "tdefault \<Rightarrow> dtype" where "d_type (Default dt v) = dt"

text \<open>A string default holds a \<open>char *\<close>, null when it is empty.\<close>

fun get_default :: "tdefault \<Rightarrow> exc + tval" where
  "get_default (Default dt v) = (case v of Some x \<Rightarrow> Inr x
     | None \<Rightarrow> if dt = TYPE_STRING then Inl Null_pointer else Inl Mem_fault)"

fun d_write :: "tdefault \<Rightarrow> nat \<Rightarrow> nat io" where
  "d_write (Default dt v) off = c_bind (lift_e (native_handler dt)) (\<lambda>h.
     if v = None \<and> dt \<noteq> TYPE_STRING then c_throw Mem_fault else h_write h v off ULONG_MAX)"

fun d_read :: "tdefault \<Rightarrow> nat \<Rightarrow> (nat \<times> tdefault) io" where
  "d_read (Default dt v) off = c_bind (lift_e (native_handler dt)) (\<lambda>h.
     c_bind (h_read h off ULONG_MAX) (\<lambda>(r, x). case x of None \<Rightarrow> c_throw Null_pointer
       | Some x \<Rightarrow> c_ret (r, Default dt (Some x))))"

definition dl_read :: "nat \<Rightarrow> dtype \<Rightarrow> (tdefault \<times> nat) io" where
  "dl_read off dt = (if dt \<in> set (TYPE_BOOL # basic_types)
     then c_bind (d_read (Default dt None) off) (\<lambda>(r, d). c_ret (d, r)) else c_throw Base_error)"

definition parse_bool :: "string \<Rightarrow> bool" where
  "parse_bool s = (let t = str_tolower s in t = ''true'' \<or> t = ''1'')"

definition dl_create :: "float_parser \<Rightarrow> string \<Rightarrow> dtype \<Rightarrow> exc + tdefault" where
  "dl_create fp val dt =
     (if dt = TYPE_BOOL then Inr (Default TYPE_BOOL (Some (Scalar [if parse_bool val then 1 else 0])))
      else if dt = TYPE_STRING then Inr (Default TYPE_STRING (if val = [] then None else Some (Str (c_str (bytes_of val)))))
      else if dt = TYPE_DATETIME then e_bind (parse_value fp TYPE_TIMESTAMP val) (\<lambda>v. Inr (Default TYPE_TIMESTAMP (Some v)))
      else if dt \<in> set basic_types then e_bind (parse_value fp dt val) (\<lambda>v. Inr (Default dt (Some v)))
      else Inl Base_error)"

end
