(* ===== verification/TypeRecords.thy ===== *)
theory TypeRecords
  imports TypeConstraints
begin

section \<open>Lists, maps and records (types/includes/type_defs.h, schema_def.h, type_helpers.h)\<close>

text \<open>
  A schema node \<open>stype\<close> is an object of \<open>__native_type\<close> or of one of its subclasses. The fields of a
  complex type are in the iteration order of its \<open>unordered_map\<close>; the key of a field in that map is its
  index. \<open>max_size\<close> and inner types that no constructor sets are \<open>None\<close>. A map value lists its
  entries in iteration order. The remaining length is a \<open>long\<close> in the code and an \<open>int\<close> here;
  offsets do not wrap.
\<close>

datatype rmode = RM_READ | RM_WRITE

record finfo =
  fi_name :: string
  fi_index :: nat
  fi_nullable :: bool
  fi_constraint :: "tcons option"
  fi_default :: "tdefault option"

datatype stype =
    S_native finfo dtype
  | S_string finfo "nat option"
  | S_complex finfo string "stype list"
  | S_list finfo dtype "stype option"
  | S_map finfo dtype dtype "stype option" "stype option"

fun s_info :: "stype \<Rightarrow> finfo" where
  "s_info (S_native fi dt) = fi" | "s_info (S_string fi mx) = fi" | "s_info (S_complex fi tn fs) = fi"
| "s_info (S_list fi it inner) = fi" | "s_info (S_map fi kt vt k v) = fi"

fun s_datatype :: "stype \<Rightarrow> dtype" where
  "s_datatype (S_native fi dt) = dt" | "s_datatype (S_string fi mx) = TYPE_STRING"
| "s_datatype (S_complex fi tn fs) = TYPE_STRUCT" | "s_datatype (S_list fi it inner) = TYPE_LIST"
| "s_datatype (S_map fi kt vt k v) = TYPE_MAP"

subsection \<open>Field values\<close>

definition base_is_valid :: "finfo \<Rightarrow> tval option \<Rightarrow> exc + bool" where
  "base_is_valid fi v =
     (if \<not> fi_nullable fi \<and> v = None then Inr False
      else case fi_constraint fi of Some c \<Rightarrow> c_validate c v | None \<Rightarrow> Inr True)"

fun is_valid_value :: "stype \<Rightarrow> tval option \<Rightarrow> exc + bool" where
  "is_valid_value (S_string fi mx) v =
     (if \<not> fi_nullable fi \<and> v = None then Inr False
      else case v of None \<Rightarrow> Inr True
        | Some (Str s) \<Rightarrow> (case mx of None \<Rightarrow> Inl Mem_fault
            | Some n \<Rightarrow> if length s \<ge> n then Inr False
                else case fi_constraint fi of Some c \<Rightarrow> c_validate c v | None \<Rightarrow> Inr True)
        | Some _ \<Rightarrow> Inl Mem_fault)"
| "is_valid_value t v = base_is_valid (s_info t) v"

subsection \<open>Records in memory\<close>

text \<open>\<open>record_struct::add_field\<close> refuses a second value, the mutable variant replaces it.\<close>

definition rec_add_field :: "nat \<Rightarrow> tval \<Rightarrow> (unit, tval option list) cmd" where
  "rec_add_field i v ds =
     (if \<not> i < length ds then (Inl Precondition, ds)
      else if ds ! i \<noteq> None then (Inl Precondition, ds)
      else (Inr (), ds[i := Some v]))"

definition mrec_add_field :: "nat \<Rightarrow> tval option \<Rightarrow> (unit, tval option list) cmd" where
  "mrec_add_field i v ds =
     (if \<not> i < length ds then (Inl Precondition, ds)
      else if v = None then (Inl Null_pointer, ds)
      else (Inr (), ds[i := v]))"

definition rec_get_field :: "tval option list \<Rightarrow> nat \<Rightarrow> exc + tval option" where
  "rec_get_field ds i = (if i < length ds then Inr (ds ! i) else Inl Precondition)"

subsection \<open>The record handler\<close>

type_synonym sfield = "stype \<times> (rmode \<Rightarrow> exc + handler)"

definition to_long :: "nat \<Rightarrow> int" where
  "to_long n = (if n < 2 ^ 63 then int n else int n - 2 ^ 64)"

definition to_ulong :: "int \<Rightarrow> nat" where
  "to_ulong i = nat (i mod 2 ^ 64)"

definition add_size :: "nat \<Rightarrow> nat \<Rightarrow> unit io" where
  "add_size p r = c_bind (get_num 8 p) (\<lambda>n. c_bind (put_num 8 p (add64 n r)) (\<lambda>_. c_ret ()))"

definition check_pos :: "int \<Rightarrow> unit io" where
  "check_pos maxl = c_check Precondition (\<lambda>_. maxl > 0)"

text \<open>
  The value of a field that is written: the default value stands for null. A value that is not valid
  is printed before the exception; the print of a null pointer dereferences it, or makes a
  \<open>std::string\<close> of it.
\<close>

definition print_value :: "handler \<Rightarrow> tval option \<Rightarrow> unit io" where
  "print_value h d = (if d \<noteq> None then c_ret () else if h_type h = TYPE_STRING then c_throw Std_error else c_throw Mem_fault)"

definition field_value :: "stype \<Rightarrow> handler \<Rightarrow> tval option \<Rightarrow> tval option io" where
  "field_value f h d =
     c_bind (lift_e (is_valid_value f d)) (\<lambda>ok.
     if \<not> ok then c_bind (print_value h d) (\<lambda>_. c_throw Type_valid_error)
     else if d \<noteq> None then c_ret d
     else if \<not> fi_nullable (s_info f) then c_throw Type_valid_error
     else case fi_default (s_info f) of None \<Rightarrow> c_ret None
       | Some df \<Rightarrow> c_bind (lift_e (get_default df)) (\<lambda>x. c_ret (Some x)))"

definition check_constraint :: "stype \<Rightarrow> tval \<Rightarrow> unit io" where
  "check_constraint f v = (case fi_constraint (s_info f) of None \<Rightarrow> c_ret ()
     | Some c \<Rightarrow> c_bind (lift_e (c_validate c (Some v))) (\<lambda>ok. if ok then c_ret () else c_throw Type_valid_error))"

definition write_field :: "stype \<Rightarrow> handler \<Rightarrow> tval \<Rightarrow> nat \<Rightarrow> nat \<Rightarrow> int \<Rightarrow> nat io" where
  "write_field f h v wp off maxl =
     c_bind (check_constraint f v) (\<lambda>_.
     c_bind (put_num 1 off (fi_index (s_info f))) (\<lambda>r.
     c_bind (add_size wp r) (\<lambda>_.
     c_bind (check_pos (maxl - int r)) (\<lambda>_.
     c_bind (h_write h (Some v) (off + r) (to_ulong (maxl - int r))) (\<lambda>r'.
     c_bind (add_size wp r') (\<lambda>_. c_ret (r + r')))))))"

fun write_fields :: "sfield list \<Rightarrow> tval option list \<Rightarrow> nat \<Rightarrow> nat \<Rightarrow> nat \<Rightarrow> int \<Rightarrow> nat io" where
  "write_fields [] ds wp off sz maxl = c_ret sz"
| "write_fields ((f, hs) # fs) ds wp off sz maxl =
     c_bind (check_pos maxl) (\<lambda>_.
     c_bind (lift_e (hs RM_WRITE)) (\<lambda>h.
     c_bind (lift_e (rec_get_field ds (fi_index (s_info f)))) (\<lambda>d.
     c_bind (field_value f h d) (\<lambda>d.
       case d of None \<Rightarrow> write_fields fs ds wp off sz maxl
       | Some v \<Rightarrow> c_bind (write_field f h v wp off maxl) (\<lambda>r.
           write_fields fs ds wp (off + r) (sz + r) (maxl - int r))))))"

definition struct_write :: "sfield list \<Rightarrow> tval option \<Rightarrow> nat \<Rightarrow> nat \<Rightarrow> nat io" where
  "struct_write fs value off bsz = (case value of
       None \<Rightarrow> c_throw Null_pointer
     | Some (Rec ds) \<Rightarrow>
         c_bind (c_check Postcondition (\<lambda>_. length ds = length fs)) (\<lambda>_.
         c_bind (check_pos (to_long bsz)) (\<lambda>_.
         c_bind (put_num 8 off 0) (\<lambda>r.
         c_bind (c_check Empty_value (\<lambda>_. fs \<noteq> [])) (\<lambda>_.
         write_fields fs ds off (off + r) r (to_long bsz - int r)))))
     | Some _ \<Rightarrow> c_throw Mem_fault)"

text \<open>
  The reader's loop. Each turn moves the offset, so \<open>mx - off\<close> turns are enough.
\<close>

definition read_one :: "sfield list \<Rightarrow> nat \<Rightarrow> nat \<Rightarrow> (nat \<times> nat \<times> tval) io" where
  "read_one fs off mx =
     c_bind (get_num 1 off) (\<lambda>ci.
     case find (\<lambda>(f, hs). fi_index (s_info f) = ci) fs of
       None \<Rightarrow> c_throw Postcondition
     | Some (f, hs) \<Rightarrow>
         c_bind (lift_e (hs RM_READ)) (\<lambda>h.
         c_bind (h_read h (off + 1) mx) (\<lambda>(r, v).
         case v of None \<Rightarrow> c_throw Null_pointer | Some v \<Rightarrow> c_ret (ci, r, v))))"

fun read_fields :: "nat \<Rightarrow> sfield list \<Rightarrow> nat \<Rightarrow> nat \<Rightarrow> nat \<Rightarrow> nat \<Rightarrow> tval option list \<Rightarrow> (nat \<times> tval option) io" where
  "read_fields 0 fs mx off psz sz ds = c_ret (psz, Some (Rec ds))"
| "read_fields (Suc n) fs mx off psz sz ds =
     (if off < mx \<and> sz > 0
      then c_bind (read_one fs off mx) (\<lambda>(i, r, v).
        case rec_add_field i v ds of
          (Inl e, _) \<Rightarrow> c_throw e
        | (Inr _, ds) \<Rightarrow> read_fields n fs mx (off + 1 + r) (psz + 1 + r) (sub64 (sub64 sz 1) r) ds)
      else c_ret (psz, Some (Rec ds)))"

definition struct_read :: "sfield list \<Rightarrow> nat \<Rightarrow> nat \<Rightarrow> (nat \<times> tval option) io" where
  "struct_read fs off mx =
     c_bind (get_num 8 off) (\<lambda>sz.
     c_bind (c_check Postcondition (\<lambda>_. sz \<le> mx)) (\<lambda>_.
     c_bind (c_check Empty_value (\<lambda>_. fs \<noteq> [])) (\<lambda>_.
     read_fields (mx - off) fs mx (off + 8) 8 sz (replicate (length fs) None))))"

definition VERSION_HEADER_SIZE :: nat where
  "VERSION_HEADER_SIZE = 4"

fun compute_fields :: "sfield list \<Rightarrow> tval option list \<Rightarrow> exc + nat" where
  "compute_fields [] ds = Inr 0"
| "compute_fields ((f, hs) # fs) ds =
     e_bind (hs RM_WRITE) (\<lambda>h.
     e_bind (rec_get_field ds (fi_index (s_info f))) (\<lambda>d.
     e_bind (is_valid_value f d) (\<lambda>ok.
     if \<not> ok then Inl Type_valid_error
     else e_bind (h_compute_size h d) (\<lambda>n. e_bind (compute_fields fs ds) (\<lambda>m. Inr (n + m))))))"

definition struct_compute_size :: "sfield list \<Rightarrow> tval option \<Rightarrow> exc + nat" where
  "struct_compute_size fs data = (case data of
       None \<Rightarrow> Inr 0
     | Some (Rec ds) \<Rightarrow> if length ds \<noteq> length fs then Inl Postcondition
         else if fs = [] then Inl Empty_value
         else e_bind (compute_fields fs ds) (\<lambda>n. Inr (VERSION_HEADER_SIZE + 8 + n))
     | Some _ \<Rightarrow> Inl Mem_fault)"

definition dt_struct :: "sfield list \<Rightarrow> exc + nat \<Rightarrow> handler" where
  "dt_struct fs estimate = \<lparr> h_type = TYPE_STRUCT,
     h_read = struct_read fs,
     h_write = struct_write fs,
     h_compute_size = struct_compute_size fs,
     h_estimate_size = estimate,
     h_compare = \<lambda>target source oper. Inl Base_error,
     h_set_key_data = \<lambda>off value sz. c_throw Base_error \<rparr>"

subsection \<open>The list handler\<close>

fun list_write_all :: "handler \<Rightarrow> tval list \<Rightarrow> nat \<Rightarrow> nat \<Rightarrow> int \<Rightarrow> nat io" where
  "list_write_all eh [] off sz maxl = c_ret sz"
| "list_write_all eh (v # vs) off sz maxl =
     c_bind (check_pos maxl) (\<lambda>_.
     c_bind (h_write eh (Some v) off (to_ulong maxl)) (\<lambda>r.
     list_write_all eh vs (off + r) (sz + r) (maxl - int r)))"

definition list_write :: "handler \<Rightarrow> tval option \<Rightarrow> nat \<Rightarrow> nat \<Rightarrow> nat io" where
  "list_write eh value off bsz = (case value of
       None \<Rightarrow> c_throw Null_pointer
     | Some (Lst vs) \<Rightarrow>
         c_bind (check_pos (to_long bsz)) (\<lambda>_.
         c_bind (put_num 2 off (length vs mod 65536)) (\<lambda>r.
         c_bind (check_pos (to_long bsz - int r)) (\<lambda>_.
         list_write_all eh (take (length vs mod 65536) vs) (off + r) r (to_long bsz - int r))))
     | Some _ \<Rightarrow> c_throw Mem_fault)"

fun list_read_all :: "handler \<Rightarrow> nat \<Rightarrow> nat \<Rightarrow> nat \<Rightarrow> nat \<Rightarrow> (nat \<times> tval list) io" where
  "list_read_all eh 0 off sz mx = c_ret (sz, [])"
| "list_read_all eh (Suc n) off sz mx =
     c_bind (h_read eh off mx) (\<lambda>(r, v). case v of None \<Rightarrow> c_throw Null_pointer
       | Some v \<Rightarrow> c_bind (list_read_all eh n (off + r) (sz + r) mx) (\<lambda>(sz, vs). c_ret (sz, v # vs)))"

text \<open>A count of 0 leaves the target null.\<close>

definition list_read :: "handler \<Rightarrow> nat \<Rightarrow> nat \<Rightarrow> (nat \<times> tval option) io" where
  "list_read eh off mx =
     c_bind (get_num 2 off) (\<lambda>count.
     if count > 0 then c_bind (list_read_all eh count (off + 2) 2 mx) (\<lambda>(sz, vs). c_ret (sz, Some (Lst vs)))
     else c_ret (2, None))"

fun list_compute :: "handler \<Rightarrow> tval list \<Rightarrow> exc + nat" where
  "list_compute eh [] = Inr 0"
| "list_compute eh (v # vs) = e_bind (h_compute_size eh (Some v)) (\<lambda>n. e_bind (list_compute eh vs) (\<lambda>m. Inr (n + m)))"

text \<open>The size is computed with the native handler of the inner type, which a record has not.\<close>

definition COLLECTION_SIZE_FACTOR :: nat where
  "COLLECTION_SIZE_FACTOR = 4"

definition dt_list :: "dtype \<Rightarrow> handler \<Rightarrow> handler" where
  "dt_list inner_type eh = \<lparr> h_type = TYPE_LIST,
     h_read = list_read eh,
     h_write = list_write eh,
     h_compute_size = \<lambda>data. (case data of None \<Rightarrow> Inr 0
       | Some (Lst vs) \<Rightarrow> if vs = [] then Inr 0
           else e_bind (native_handler inner_type) (\<lambda>h. e_bind (list_compute h vs) (\<lambda>n. Inr (2 + n)))
       | Some _ \<Rightarrow> Inl Mem_fault),
     h_estimate_size = e_bind (h_estimate_size eh) (\<lambda>n. Inr (n * COLLECTION_SIZE_FACTOR)),
     h_compare = \<lambda>target source oper. Inl Base_error,
     h_set_key_data = \<lambda>off value sz. c_throw Base_error \<rparr>"

subsection \<open>The map handlers\<close>

text \<open>
  All entries are written, whatever the 16 bit count says. The map with string keys does not take the
  size of the values off the remaining length.
\<close>

fun map_write_all :: "bool \<Rightarrow> handler \<Rightarrow> handler \<Rightarrow> (tval \<times> tval) list \<Rightarrow> nat \<Rightarrow> nat \<Rightarrow> int \<Rightarrow> nat io" where
  "map_write_all str kh vh [] off sz maxl = c_ret sz"
| "map_write_all str kh vh ((k, v) # es) off sz maxl =
     c_bind (check_pos maxl) (\<lambda>_.
     c_bind (h_write kh (if str then as_cstr (Some k) else Some k) off (to_ulong maxl)) (\<lambda>r.
     c_bind (check_pos (maxl - int r)) (\<lambda>_.
     c_bind (h_write vh (Some v) (off + r) (to_ulong (maxl - int r))) (\<lambda>r'.
     map_write_all str kh vh es (off + (r + r')) (sz + (r + r')) (maxl - int r - (if str then 0 else int r'))))))"

definition map_write :: "bool \<Rightarrow> handler \<Rightarrow> handler \<Rightarrow> tval option \<Rightarrow> nat \<Rightarrow> nat \<Rightarrow> nat io" where
  "map_write str kh vh value off bsz = (case value of
       None \<Rightarrow> c_throw Null_pointer
     | Some (Mp es) \<Rightarrow>
         c_bind (check_pos (to_long bsz)) (\<lambda>_.
         c_bind (put_num 2 off (length es mod 65536)) (\<lambda>r.
         map_write_all str kh vh es (off + r) r (to_long bsz - int r)))
     | Some _ \<Rightarrow> c_throw Mem_fault)"

text \<open>\<open>unordered_map::insert\<close> keeps the entry that is there.\<close>

definition mp_insert :: "tval \<Rightarrow> tval \<Rightarrow> (tval \<times> tval) list \<Rightarrow> (tval \<times> tval) list" where
  "mp_insert k v es = (if k \<in> fst ` set es then es else es @ [(k, v)])"

fun map_read_all :: "bool \<Rightarrow> handler \<Rightarrow> handler \<Rightarrow> nat \<Rightarrow> nat \<Rightarrow> nat \<Rightarrow> nat \<Rightarrow> (tval \<times> tval) list \<Rightarrow> (nat \<times> tval option) io" where
  "map_read_all str kh vh 0 off sz mx es = c_ret (sz, Some (Mp es))"
| "map_read_all str kh vh (Suc n) off sz mx es =
     c_bind (h_read kh off mx) (\<lambda>(r, k). case (if str then as_obj k else k) of None \<Rightarrow> c_throw Null_pointer
       | Some k \<Rightarrow> c_bind (h_read vh (off + r) mx) (\<lambda>(r', v). case v of None \<Rightarrow> c_throw Null_pointer
           | Some v \<Rightarrow> map_read_all str kh vh n (off + (r + r')) (sz + (r + r')) mx (mp_insert k v es)))"

definition map_read :: "bool \<Rightarrow> handler \<Rightarrow> handler \<Rightarrow> nat \<Rightarrow> nat \<Rightarrow> (nat \<times> tval option) io" where
  "map_read str kh vh off mx =
     c_bind (get_num 2 off) (\<lambda>count. map_read_all str kh vh count (off + 2) 2 mx [])"

fun map_compute :: "handler \<Rightarrow> handler \<Rightarrow> (tval \<times> tval) list \<Rightarrow> exc + nat" where
  "map_compute kh vh [] = Inr 0"
| "map_compute kh vh ((k, v) # es) =
     e_bind (h_compute_size kh (Some k)) (\<lambda>n. e_bind (h_compute_size vh (Some v)) (\<lambda>m.
     e_bind (map_compute kh vh es) (\<lambda>r. Inr (n + m + r))))"

definition map_handler :: "bool \<Rightarrow> handler \<Rightarrow> handler \<Rightarrow> handler" where
  "map_handler str kh vh = \<lparr> h_type = TYPE_MAP,
     h_read = map_read str kh vh,
     h_write = map_write str kh vh,
     h_compute_size = \<lambda>data. (case data of None \<Rightarrow> Inr 0
       | Some (Mp es) \<Rightarrow> if es = [] then Inr 0 else e_bind (map_compute kh vh es) (\<lambda>n. Inr (2 + n))
       | Some _ \<Rightarrow> Inl Mem_fault),
     h_estimate_size = e_bind (h_estimate_size kh) (\<lambda>n. e_bind (h_estimate_size vh) (\<lambda>m.
       Inr (n * COLLECTION_SIZE_FACTOR + m * COLLECTION_SIZE_FACTOR))),
     h_compare = \<lambda>target source oper. Inl Base_error,
     h_set_key_data = \<lambda>off value sz. c_throw Base_error \<rparr>"

definition dt_map :: "handler \<Rightarrow> handler \<Rightarrow> handler" where "dt_map = map_handler False"
definition string_key_map :: "handler \<Rightarrow> handler \<Rightarrow> handler" where "string_key_map = map_handler True"

end
