(* ===== verification/TypeFactory.thy ===== *)
theory TypeFactory
  imports TypeRecords
begin

section \<open>Which handler a schema node gets (types/includes/type_helpers.h)\<close>

text \<open>
  The dispatch over the inner types of lists and over the key and value types of maps, and the
  registry that keeps the handlers. \<open>sh\<close> is the handler that \<open>new __dt_struct\<close> makes of the type node
  that is passed, or the exception when the node is null or not complex.
\<close>

subsection \<open>Constructors\<close>

definition inner_handler :: "dtype \<Rightarrow> exc + handler \<Rightarrow> exc + handler" where
  "inner_handler dt sh = (if dt = TYPE_STRUCT then sh else native_handler dt)"

definition new_dt_list :: "dtype \<Rightarrow> exc + handler \<Rightarrow> exc + handler" where
  "new_dt_list inner sh = (if \<not> is_inner_type_valid inner then Inl Precondition
     else e_bind (inner_handler inner sh) (\<lambda>h. Inr (dt_list inner h)))"

definition new_map :: "(handler \<Rightarrow> handler \<Rightarrow> handler) \<Rightarrow> dtype \<Rightarrow> dtype \<Rightarrow> exc + handler \<Rightarrow> exc + handler" where
  "new_map cls kt vt sh =
     (if \<not> is_inner_type_valid vt then Inl Precondition
      else if \<not> is_native kt then Inl Precondition
      else e_bind (native_handler kt) (\<lambda>kh. e_bind (inner_handler vt sh) (\<lambda>vh. Inr (cls kh vh))))"

definition new_dt_map :: "dtype \<Rightarrow> dtype \<Rightarrow> exc + handler \<Rightarrow> exc + handler" where
  "new_dt_map = new_map dt_map"

definition new_string_key_map :: "dtype \<Rightarrow> exc + handler \<Rightarrow> exc + handler" where
  "new_string_key_map = new_map string_key_map TYPE_STRING"

subsection \<open>Dispatch\<close>

definition create_list_handler :: "dtype \<Rightarrow> exc + handler \<Rightarrow> rmode \<Rightarrow> exc + handler" where
  "create_list_handler inner sh mode =
     (if \<not> is_inner_type_valid inner then Inl Precondition
      else case inner of
          TYPE_BYTE \<Rightarrow> new_dt_list TYPE_BYTE sh | TYPE_CHAR \<Rightarrow> new_dt_list TYPE_CHAR sh
        | TYPE_SHORT \<Rightarrow> new_dt_list TYPE_SHORT sh | TYPE_INTEGER \<Rightarrow> new_dt_list TYPE_INTEGER sh
        | TYPE_LONG \<Rightarrow> new_dt_list TYPE_LONG sh | TYPE_FLOAT \<Rightarrow> new_dt_list TYPE_FLOAT sh
        | TYPE_DOUBLE \<Rightarrow> new_dt_list TYPE_DOUBLE sh
        | TYPE_TIMESTAMP \<Rightarrow> new_dt_list TYPE_TIMESTAMP sh | TYPE_DATETIME \<Rightarrow> new_dt_list TYPE_TIMESTAMP sh
        | TYPE_STRING \<Rightarrow> new_dt_list TYPE_STRING sh | TYPE_TEXT \<Rightarrow> new_dt_list TYPE_TEXT sh
        | TYPE_STRUCT \<Rightarrow> (case mode of RM_READ \<Rightarrow> new_dt_list TYPE_STRUCT sh | RM_WRITE \<Rightarrow> new_dt_list TYPE_STRUCT sh)
        | _ \<Rightarrow> Inl Base_error)"

definition map_of_value :: "(dtype \<Rightarrow> exc + handler \<Rightarrow> exc + handler) \<Rightarrow> dtype \<Rightarrow> exc + handler \<Rightarrow> rmode \<Rightarrow> exc + handler" where
  "map_of_value new_m vt sh mode = (case vt of
       TYPE_BYTE \<Rightarrow> new_m TYPE_BYTE sh | TYPE_CHAR \<Rightarrow> new_m TYPE_CHAR sh
     | TYPE_SHORT \<Rightarrow> new_m TYPE_SHORT sh | TYPE_INTEGER \<Rightarrow> new_m TYPE_INTEGER sh
     | TYPE_LONG \<Rightarrow> new_m TYPE_LONG sh | TYPE_FLOAT \<Rightarrow> new_m TYPE_FLOAT sh
     | TYPE_DOUBLE \<Rightarrow> new_m TYPE_DOUBLE sh
     | TYPE_TIMESTAMP \<Rightarrow> new_m TYPE_TIMESTAMP sh | TYPE_DATETIME \<Rightarrow> new_m TYPE_TIMESTAMP sh
     | TYPE_STRING \<Rightarrow> new_m TYPE_STRING sh | TYPE_TEXT \<Rightarrow> new_m TYPE_TEXT sh
     | TYPE_STRUCT \<Rightarrow> (case mode of RM_READ \<Rightarrow> new_m TYPE_STRUCT sh | RM_WRITE \<Rightarrow> new_m TYPE_STRUCT sh)
     | _ \<Rightarrow> Inl Base_error)"

definition create_char_map :: "dtype \<Rightarrow> exc + handler \<Rightarrow> rmode \<Rightarrow> exc + handler" where
  "create_char_map = map_of_value (new_dt_map TYPE_CHAR)"

text \<open>In this function the case of the record has no \<open>break\<close> and ends in the throw of the default case.\<close>

definition create_byte_map :: "dtype \<Rightarrow> exc + handler \<Rightarrow> rmode \<Rightarrow> exc + handler" where
  "create_byte_map vt sh mode =
     e_bind (map_of_value (new_dt_map TYPE_BYTE) vt sh mode) (\<lambda>h. if vt = TYPE_STRUCT then Inl Base_error else Inr h)"

definition create_short_map :: "dtype \<Rightarrow> exc + handler \<Rightarrow> rmode \<Rightarrow> exc + handler" where
  "create_short_map = map_of_value (new_dt_map TYPE_SHORT)"
definition create_int_map :: "dtype \<Rightarrow> exc + handler \<Rightarrow> rmode \<Rightarrow> exc + handler" where
  "create_int_map = map_of_value (new_dt_map TYPE_INTEGER)"
definition create_long_map :: "dtype \<Rightarrow> exc + handler \<Rightarrow> rmode \<Rightarrow> exc + handler" where
  "create_long_map = map_of_value (new_dt_map TYPE_LONG)"
definition create_float_map :: "dtype \<Rightarrow> exc + handler \<Rightarrow> rmode \<Rightarrow> exc + handler" where
  "create_float_map = map_of_value (new_dt_map TYPE_FLOAT)"
definition create_double_map :: "dtype \<Rightarrow> exc + handler \<Rightarrow> rmode \<Rightarrow> exc + handler" where
  "create_double_map = map_of_value (new_dt_map TYPE_DOUBLE)"
definition create_timestamp_map :: "dtype \<Rightarrow> exc + handler \<Rightarrow> rmode \<Rightarrow> exc + handler" where
  "create_timestamp_map = map_of_value (new_dt_map TYPE_TIMESTAMP)"
definition create_string_map :: "dtype \<Rightarrow> exc + handler \<Rightarrow> rmode \<Rightarrow> exc + handler" where
  "create_string_map = map_of_value new_string_key_map"

definition create_map_handler :: "dtype \<Rightarrow> dtype \<Rightarrow> exc + handler \<Rightarrow> rmode \<Rightarrow> exc + handler" where
  "create_map_handler kt vt sh mode =
     (if \<not> is_native kt then Inl Precondition
      else if \<not> is_inner_type_valid vt then Inl Precondition
      else case kt of
          TYPE_BYTE \<Rightarrow> create_byte_map vt sh mode | TYPE_CHAR \<Rightarrow> create_char_map vt sh mode
        | TYPE_SHORT \<Rightarrow> create_short_map vt sh mode | TYPE_INTEGER \<Rightarrow> create_int_map vt sh mode
        | TYPE_LONG \<Rightarrow> create_long_map vt sh mode | TYPE_FLOAT \<Rightarrow> create_float_map vt sh mode
        | TYPE_DOUBLE \<Rightarrow> create_double_map vt sh mode
        | TYPE_TIMESTAMP \<Rightarrow> create_timestamp_map vt sh mode | TYPE_DATETIME \<Rightarrow> create_timestamp_map vt sh mode
        | TYPE_STRING \<Rightarrow> create_string_map vt sh mode
        | _ \<Rightarrow> Inl Base_error)"

subsection \<open>With the registry\<close>

text \<open>
  The handlers of lists and maps of native types are kept under a name made of the types; those of
  records are made each time.
\<close>

definition registered :: "string \<Rightarrow> exc + handler \<Rightarrow> (handler option, registry) cmd" where
  "registered key fresh =
     c_bind (\<lambda>r. (fresh, r)) (\<lambda>ah.
     c_bind (add_external_handler key ah) (\<lambda>_.
     get_type_handler_key key))"

definition get_array_type_handler :: "dtype \<Rightarrow> exc + handler \<Rightarrow> rmode \<Rightarrow> (handler option, registry) cmd" where
  "get_array_type_handler inner sh mode =
     (let key = create_list_key TYPE_LIST inner in
      c_bind (get_type_handler_key key) (\<lambda>handler.
      if handler \<noteq> None then c_ret handler
      else if inner \<noteq> TYPE_STRUCT then registered key (create_list_handler inner (Inl Null_pointer) mode)
      else (\<lambda>r. (e_bind (create_list_handler inner sh mode) (\<lambda>h. Inr (Some h)), r))))"

definition get_map_type_handler :: "dtype \<Rightarrow> dtype \<Rightarrow> exc + handler \<Rightarrow> rmode \<Rightarrow> (handler option, registry) cmd" where
  "get_map_type_handler kt vt sh mode =
     (let key = create_map_key TYPE_MAP kt vt in
      c_bind (get_type_handler_key key) (\<lambda>handler.
      if handler \<noteq> None then c_ret handler
      else if vt \<noteq> TYPE_STRUCT then registered key (create_map_handler kt vt sh mode)
      else (\<lambda>r. (e_bind (create_map_handler kt vt sh mode) (\<lambda>h. Inr (Some h)), r))))"

subsection \<open>Schema nodes\<close>

fun e_sum :: "(exc + nat) list \<Rightarrow> exc + nat" where
  "e_sum [] = Inr 0"
| "e_sum (x # xs) = e_bind x (\<lambda>n. e_bind (e_sum xs) (\<lambda>m. Inr (n + m)))"

definition native_estimate :: "dtype \<Rightarrow> exc + nat" where
  "native_estimate dt = e_bind (native_handler dt) h_estimate_size"

text \<open>\<open>estimate_size\<close> of a node, and its handler for reading or writing.\<close>

fun s_estimate :: "stype \<Rightarrow> exc + nat" where
  "s_estimate (S_native fi dt) = native_estimate dt"
| "s_estimate (S_string fi mx) = (case mx of None \<Rightarrow> Inl Mem_fault | Some n \<Rightarrow> Inr n)"
| "s_estimate (S_complex fi tn fs) = e_sum (map s_estimate fs)"
| "s_estimate (S_list fi it inner) =
     e_bind (if it = TYPE_STRUCT then (case inner of None \<Rightarrow> Inl Null_pointer | Some t \<Rightarrow> s_estimate t)
             else native_estimate it) (\<lambda>n. Inr (n * COLLECTION_SIZE_FACTOR))"
| "s_estimate (S_map fi kt vt k v) =
     e_bind (native_estimate kt) (\<lambda>n.
     e_bind (if vt = TYPE_STRUCT then (case v of None \<Rightarrow> Inl Null_pointer | Some t \<Rightarrow> s_estimate t)
             else native_estimate vt) (\<lambda>m. Inr (n * COLLECTION_SIZE_FACTOR + m * COLLECTION_SIZE_FACTOR)))"

definition as_struct :: "stype option \<Rightarrow> exc + handler \<Rightarrow> exc + handler" where
  "as_struct t h = (case t of Some (S_complex fi tn fs) \<Rightarrow> h | None \<Rightarrow> Inl Null_pointer | Some _ \<Rightarrow> Inl Base_error)"

fun handler_of :: "stype \<Rightarrow> rmode \<Rightarrow> exc + handler" where
  "handler_of (S_native fi dt) mode = native_handler dt"
| "handler_of (S_string fi mx) mode = native_handler TYPE_STRING"
| "handler_of (S_complex fi tn fs) mode =
     Inr (dt_struct (map (\<lambda>f. (f, handler_of f)) fs) (e_sum (map s_estimate fs)))"
| "handler_of (S_list fi it inner) mode =
     create_list_handler it (as_struct inner (case inner of None \<Rightarrow> Inl Null_pointer | Some t \<Rightarrow> handler_of t mode)) mode"
| "handler_of (S_map fi kt vt k v) mode =
     create_map_handler kt vt (as_struct v (case v of None \<Rightarrow> Inl Null_pointer | Some t \<Rightarrow> handler_of t mode)) mode"

end
