(* ===== verification/TypeCodec.thy ===== *)
theory TypeCodec
  imports TypeFactory
begin

section \<open>Typed values written to a buffer are read back\<close>

text \<open>
  The specification of a handler is a codec: the values it takes, their bytes, and the value that
  comes back. \<open>implements\<close> says that the handler's two methods are this codec, at any place of any
  buffer. The codec of a schema node is put together the way its handler is.
\<close>

record codec =
  k_fits :: "tval \<Rightarrow> bool"
  k_enc :: "tval \<Rightarrow> u8 list"
  k_back :: "tval \<Rightarrow> tval"

subsection \<open>What a handler promises\<close>

text \<open>A writer needs one byte more than it writes: the string writers clear it.\<close>

definition writes :: "(nat \<Rightarrow> nat \<Rightarrow> nat io) \<Rightarrow> u8 list \<Rightarrow> bool" where
  "writes w e \<longleftrightarrow> (\<forall>pre rest mx. length e < mx \<and> mx < 2 ^ 63 \<and> length e < length rest \<longrightarrow>
     (\<exists>post. w (length pre) mx (pre @ rest) = (Inr (length e), pre @ e @ post) \<and> length post = length rest - length e))"

definition reads :: "(nat \<Rightarrow> nat \<Rightarrow> (nat \<times> tval option) io) \<Rightarrow> u8 list \<Rightarrow> tval \<Rightarrow> bool" where
  "reads r e v \<longleftrightarrow> (\<forall>pre post mx. length pre + length e \<le> mx \<and> mx < 2 ^ 64 \<longrightarrow>
     r (length pre) mx (pre @ e @ post) = (Inr (length e, Some v), pre @ e @ post))"

definition implements :: "handler \<Rightarrow> codec \<Rightarrow> bool" where
  "implements h c \<longleftrightarrow> (\<forall>v. k_fits c v \<longrightarrow> writes (h_write h (Some v)) (k_enc c v) \<and> reads (h_read h) (k_enc c v) (k_back c v))"

lemma writesE:
  assumes "writes w e" "length e < mx" "mx < 2 ^ 63" "length e < length rest" "off = length pre"
  obtains post where "w off mx (pre @ rest) = (Inr (length e), pre @ e @ post)" "length post = length rest - length e"
  using assms unfolding writes_def by blast

lemma readsD: "reads r e v \<Longrightarrow> off = length pre \<Longrightarrow> off + length e \<le> mx \<Longrightarrow> mx < 2 ^ 64 \<Longrightarrow>
    r off mx (pre @ e @ post) = (Inr (length e, Some v), pre @ e @ post)"
  unfolding reads_def by simp

lemma implementsD:
  "implements h c \<Longrightarrow> k_fits c v \<Longrightarrow> writes (h_write h (Some v)) (k_enc c v)"
  "implements h c \<Longrightarrow> k_fits c v \<Longrightarrow> reads (h_read h) (k_enc c v) (k_back c v)"
  unfolding implements_def by blast+

subsection \<open>Memory\<close>

lemma put_bytes_run: "length bs \<le> length rest \<Longrightarrow> off = length pre \<Longrightarrow>
    put_bytes off bs (pre @ rest) = (Inr (), pre @ bs @ drop (length bs) rest)"
  by (simp add: put_bytes_def poke_def)

lemma put_num_run: "k \<le> length rest \<Longrightarrow> off = length pre \<Longrightarrow>
    put_num k off v (pre @ rest) = (Inr k, pre @ nat_bytes k v @ drop k rest)"
  by (simp add: put_num_def put_bytes_run c_bind_def c_ret_def)

lemma get_bytes_run: "off = length pre \<Longrightarrow> n = length bs \<Longrightarrow>
    get_bytes off n (pre @ bs @ post) = (Inr bs, pre @ bs @ post)"
  by (simp add: get_bytes_def peek_def)

lemma get_num_run: "off = length pre \<Longrightarrow> v < 256 ^ k \<Longrightarrow>
    get_num k off (pre @ nat_bytes k v @ post) = (Inr v, pre @ nat_bytes k v @ post)"
  by (simp add: get_num_def get_bytes_run c_bind_def c_ret_def)

lemma add_size_run:
  assumes "n + r < 2 ^ 64" "p = length pre"
  shows "add_size p r (pre @ nat_bytes 8 n @ rest) = (Inr (), pre @ nat_bytes 8 (n + r) @ rest)"
proof -
  have "n < 256 ^ 8"
    using assms(1) by simp
  note g = get_num_run [OF assms(2) this, of rest]
  have "put_num 8 p (add64 n r) (pre @ nat_bytes 8 n @ rest) = (Inr 8, pre @ nat_bytes 8 (n + r) @ rest)"
    using put_num_run [of 8 "nat_bytes 8 n @ rest" p pre "add64 n r"] assms by (simp add: add64_small)
  then show ?thesis
    using g by (simp add: add_size_def c_bind_def c_ret_def)
qed

subsection \<open>Native types\<close>

fun native_size :: "dtype \<Rightarrow> nat" where
  "native_size TYPE_BYTE = 1" | "native_size TYPE_CHAR = 1" | "native_size TYPE_BOOL = 1"
| "native_size TYPE_SHORT = 2" | "native_size TYPE_INTEGER = 4" | "native_size TYPE_LONG = 8"
| "native_size TYPE_FLOAT = 4" | "native_size TYPE_DOUBLE = 8" | "native_size TYPE_TIMESTAMP = 8"
| "native_size TYPE_DATETIME = 8" | "native_size _ = 0"

definition scalar_codec :: "nat \<Rightarrow> codec" where
  "scalar_codec k = \<lparr> k_fits = \<lambda>v. (case v of Scalar bs \<Rightarrow> length bs = k | _ \<Rightarrow> False),
     k_enc = \<lambda>v. (case v of Scalar bs \<Rightarrow> bs | _ \<Rightarrow> []), k_back = \<lambda>v. v \<rparr>"

definition str_codec :: "nat \<Rightarrow> codec" where
  "str_codec k = \<lparr> k_fits = \<lambda>v. (case v of Str s \<Rightarrow> str_fits k s \<and> 0 \<notin> set s | _ \<Rightarrow> False),
     k_enc = \<lambda>v. (case v of Str s \<Rightarrow> str_bytes k s | _ \<Rightarrow> []), k_back = \<lambda>v. v \<rparr>"

definition native_codec :: "dtype \<Rightarrow> codec" where
  "native_codec dt = (if dt = TYPE_STRING then str_codec 1 else if dt = TYPE_TEXT then str_codec 4
     else scalar_codec (native_size dt))"

definition is_scalar_handler :: "nat \<Rightarrow> handler \<Rightarrow> bool" where
  "is_scalar_handler k h \<longleftrightarrow> (\<exists>type. h_read h = h_read (base_handler type k) \<and> h_write h = h_write (base_handler type k))"

lemma scalar_write_run:
  assumes "is_scalar_handler k h" "length bs = k" "k \<le> mx" "k \<le> length rest" "off = length pre"
  shows "h_write h (Some (Scalar bs)) off mx (pre @ rest) = (Inr k, pre @ bs @ drop k rest)"
  using assms put_bytes_run [of bs rest off pre]
  by (auto simp: is_scalar_handler_def base_handler_def get_data_ptr_def c_bind_def c_check_def c_ret_def)

lemma scalar_read_run:
  assumes "is_scalar_handler k h" "length bs = k" "k \<le> mx" "off = length pre"
  shows "h_read h off mx (pre @ bs @ post) = (Inr (k, Some (Scalar bs)), pre @ bs @ post)"
  using assms get_bytes_run [of off pre k bs post]
  by (auto simp: is_scalar_handler_def base_handler_def get_data_ptr_def c_bind_def c_check_def c_ret_def)

lemma implements_scalar: "is_scalar_handler k h \<Longrightarrow> implements h (scalar_codec k)"
  unfolding implements_def writes_def reads_def scalar_codec_def
  by (auto split: tval.splits simp: scalar_write_run scalar_read_run)

lemma takeWhile_nonzero: "(0 :: u8) \<notin> set s \<Longrightarrow> takeWhile (\<lambda>b. b \<noteq> 0) (s @ 0 # xs) = s"
  by (induction s) auto

lemma cstr_at_run:
  assumes "0 \<notin> set s" "off = length pre"
  shows "cstr_at off (pre @ s @ [0] @ post) = (Inr s, pre @ s @ [0] @ post)"
proof -
  have "takeWhile (\<lambda>b. b \<noteq> 0) (s @ 0 # post) = s"
    by (rule takeWhile_nonzero [OF assms(1)])
  then show ?thesis
    using assms(2) by (simp add: cstr_at_def Let_def)
qed

lemma str_write_run:
  assumes "str_fits k s" "k + length s \<le> mx" "k + length s + 1 < length rest" "off = length pre"
    and wr: "\<And>n. wr s n = bu_write_str k extra s n"
  shows "\<exists>post. str_write k wr (Some (Str s)) off mx (pre @ rest) = (Inr (k + length s + 1), pre @ str_bytes k s @ post)
    \<and> length post = length rest - (k + length s + 1)"
proof -
  have n: "length s mod 256 ^ k = length s"
    using assms(1) by (simp add: str_fits_def)
  obtain post where "bu_write_str k extra s (length s) (pre @ rest, off) =
      (Inr (k + length s + 1), (take off (pre @ rest) @ str_bytes k s @ post, off + k + length s + 1))"
    "length post = length (pre @ rest) - (off + k + length s + 1)"
    using bu_write_str_run [OF assms(1), of off "pre @ rest" extra] assms(3,4) by auto
  then show ?thesis
    using assms(2,4) by (simp add: str_write_def n wr Let_def c_bind_def c_check_def at_off_def)
qed

lemma str_read_run:
  assumes "str_fits k s" "0 \<notin> set s" "off = length pre"
  shows "str_read (bu_read_ptr k) off (pre @ str_bytes k s @ post) = (Inr (k + length s + 1, Some (Str s)), pre @ str_bytes k s @ post)"
proof -
  let ?m = "pre @ str_bytes k s @ post"
  obtain p where p: "bu_read_ptr k (?m, off) = (Inr (k + length s + 1, p), (?m, off + k + length s + 1))"
    using buffer_readers_agree [OF bu_read_str_run [OF assms(1) assms(3) [symmetric]]] by blast
  have "peek ?m off k = Some (nat_bytes k (Suc (length s)))"
    using peek_mid [of pre off "nat_bytes k (Suc (length s))" "s @ [0] @ post"] assms(3) by (simp add: str_bytes_def)
  then have "p = Some (off + k)"
    using p str_fits_size [OF assms(1)] by (simp add: bu_read_ptr_def bu_read_def bu_advance_def bu_deref_def cmd_simps c_bind_def)
  moreover have "cstr_at (off + k) ?m = (Inr s, ?m)"
    using cstr_at_run [OF assms(2), of "off + k" "pre @ nat_bytes k (Suc (length s))" post] assms(3)
    by (simp add: str_bytes_def)
  ultimately show ?thesis
    using p by (simp add: str_read_def at_off_def c_bind_def c_ret_def)
qed

lemma implements_str:
  assumes "\<And>off mx. h_read h off mx = str_read (bu_read_ptr k) off" "h_write h = str_write k (bu_write_str k extra)"
  shows "implements h (str_codec k)"
  unfolding implements_def
proof (intro allI impI)
  fix v assume "k_fits (str_codec k) v"
  then obtain s where s: "v = Str s" "str_fits k s" "0 \<notin> set s"
    by (auto simp: str_codec_def split: tval.splits)
  have e: "k_enc (str_codec k) v = str_bytes k s" "k_back (str_codec k) v = Str s"
    by (simp_all add: str_codec_def s)
  have "writes (h_write h (Some v)) (str_bytes k s)"
    unfolding writes_def length_str_bytes
    using str_write_run [OF s(2), where wr = "bu_write_str k extra" and extra = extra] by (simp add: s(1) assms)
  moreover have "reads (h_read h) (str_bytes k s) (Str s)"
    unfolding reads_def length_str_bytes using str_read_run [OF s(2,3)] by (simp add: assms)
  ultimately show "writes (h_write h (Some v)) (k_enc (str_codec k) v) \<and> reads (h_read h) (k_enc (str_codec k) v) (k_back (str_codec k) v)"
    by (simp add: e)
qed

lemma is_scalar_create:
  assumes "create_type_handler dt = Inr h" "dt \<noteq> TYPE_STRING" "dt \<noteq> TYPE_TEXT" "dt \<noteq> TYPE_STRUCT"
  shows "is_scalar_handler (native_size dt) h"
  using assms by (cases dt) (auto simp: is_scalar_handler_def dt_byte_def dt_char_def dt_bool_def dt_short_def dt_int_def
      dt_long_def dt_timestamp_def dt_datetime_def dt_float_def dt_double_def base_handler_def)

lemma implements_native:
  assumes "native_handler dt = Inr h"
  shows "implements h (native_codec dt)"
proof -
  have c: "create_type_handler dt = Inr h" "is_native dt \<or> dt = TYPE_TEXT"
    using assms by (auto simp: native_handler_def split: if_splits)
  consider "dt = TYPE_STRING" | "dt = TYPE_TEXT" | "dt \<noteq> TYPE_STRING" "dt \<noteq> TYPE_TEXT" "dt \<noteq> TYPE_STRUCT"
    using c(2) by fastforce
  then show ?thesis
  proof cases
    case 1
    then show ?thesis
      using c(1) by (auto simp: native_codec_def dt_string_def dt_text_def read_8str_def write_8str_def intro!: implements_str)
  next
    case 2
    then show ?thesis
      using c(1) by (auto simp: native_codec_def dt_text_def read_32str_def write_32str_def intro!: implements_str)
  next
    case 3
    then show ?thesis
      using implements_scalar [OF is_scalar_create [OF c(1)]] by (simp add: native_codec_def)
  qed
qed

subsection \<open>Remaining lengths\<close>

lemma to_long_small: "n < 2 ^ 63 \<Longrightarrow> to_long n = int n"
  by (simp add: to_long_def)

lemma to_ulong_int: "n < 2 ^ 63 \<Longrightarrow> to_ulong (int n) = n"
  by (simp add: to_ulong_def)

lemma check_pos_run: "0 < n \<Longrightarrow> c_bind (check_pos (int n)) k m = k () m"
  by (simp add: check_pos_def cmd_simps)

subsection \<open>Lists\<close>

definition list_codec :: "codec \<Rightarrow> codec" where
  "list_codec c = \<lparr> k_fits = \<lambda>v. (case v of Lst vs \<Rightarrow> vs \<noteq> [] \<and> length vs < 65536 \<and> (\<forall>x \<in> set vs. k_fits c x) | _ \<Rightarrow> False),
     k_enc = \<lambda>v. (case v of Lst vs \<Rightarrow> nat_bytes 2 (length vs) @ concat (map (k_enc c) vs) | _ \<Rightarrow> []),
     k_back = \<lambda>v. (case v of Lst vs \<Rightarrow> Lst (map (k_back c) vs) | _ \<Rightarrow> v) \<rparr>"

lemma list_write_all_run:
  assumes "implements eh c" "\<forall>x \<in> set vs. k_fits c x" "length (concat (map (k_enc c) vs)) < mx" "mx < 2 ^ 63"
    "length (concat (map (k_enc c) vs)) < length rest" "off = length pre"
  shows "\<exists>post. list_write_all eh vs off sz (int mx) (pre @ rest) =
      (Inr (sz + length (concat (map (k_enc c) vs))), pre @ concat (map (k_enc c) vs) @ post)
    \<and> length post = length rest - length (concat (map (k_enc c) vs))"
  using assms
proof (induction vs arbitrary: pre rest off sz mx)
  case Nil
  then show ?case by (auto simp: c_ret_def)
next
  case (Cons v vs)
  let ?e = "k_enc c v"
  have w: "writes (h_write eh (Some v)) ?e"
    using Cons.prems by (intro implementsD) auto
  obtain post where p: "h_write eh (Some v) off mx (pre @ rest) = (Inr (length ?e), pre @ ?e @ post)"
      "length post = length rest - length ?e"
    by (rule writesE [OF w, of mx rest off pre]) (use Cons.prems in auto)
  have "\<exists>q. list_write_all eh vs (off + length ?e) (sz + length ?e) (int (mx - length ?e)) ((pre @ ?e) @ post) =
      (Inr (sz + length ?e + length (concat (map (k_enc c) vs))), (pre @ ?e) @ concat (map (k_enc c) vs) @ q)
    \<and> length q = length post - length (concat (map (k_enc c) vs))"
    by (rule Cons.IH) (use Cons.prems p(2) in auto)
  moreover have "int mx - int (length ?e) = int (mx - length ?e)" "0 < mx"
    using Cons.prems by (simp_all add: of_nat_diff)
  then have "list_write_all eh (v # vs) off sz (int mx) (pre @ rest) =
      list_write_all eh vs (off + length ?e) (sz + length ?e) (int (mx - length ?e)) ((pre @ ?e) @ post)"
    using p(1) Cons.prems(4) by (simp add: check_pos_run to_ulong_int c_bind_Inr del: of_nat_diff)
  ultimately show ?case
    using p(2) by (simp add: add.assoc)
qed

lemma list_read_all_run:
  assumes "implements eh c" "\<forall>x \<in> set vs. k_fits c x" "off + length (concat (map (k_enc c) vs)) \<le> mx" "mx < 2 ^ 64" "off = length pre"
  shows "list_read_all eh (length vs) off sz mx (pre @ concat (map (k_enc c) vs) @ post) =
      (Inr (sz + length (concat (map (k_enc c) vs)), map (k_back c) vs), pre @ concat (map (k_enc c) vs) @ post)"
  using assms
proof (induction vs arbitrary: pre off sz)
  case Nil
  then show ?case by (simp add: c_ret_def)
next
  case (Cons v vs)
  let ?e = "k_enc c v"
  have "h_read eh off mx (pre @ ?e @ concat (map (k_enc c) vs) @ post) =
      (Inr (length ?e, Some (k_back c v)), pre @ ?e @ concat (map (k_enc c) vs) @ post)"
    by (rule readsD [OF implementsD(2)]) (use Cons.prems in auto)
  moreover have "list_read_all eh (length vs) (off + length ?e) (sz + length ?e) mx ((pre @ ?e) @ concat (map (k_enc c) vs) @ post) =
      (Inr (sz + length ?e + length (concat (map (k_enc c) vs)), map (k_back c) vs), (pre @ ?e) @ concat (map (k_enc c) vs) @ post)"
    by (rule Cons.IH) (use Cons.prems in auto)
  ultimately show ?case
    by (simp add: c_bind_def c_ret_def)
qed

lemma implements_list:
  assumes "implements eh c"
  shows "implements (dt_list inner eh) (list_codec c)"
  unfolding implements_def
proof (intro allI impI)
  fix v assume "k_fits (list_codec c) v"
  then obtain vs where v: "v = Lst vs" "vs \<noteq> []" "length vs < 65536" "\<forall>x \<in> set vs. k_fits c x"
    by (auto simp: list_codec_def split: tval.splits)
  let ?es = "concat (map (k_enc c) vs)"
  let ?e = "nat_bytes 2 (length vs) @ ?es"
  have codec: "k_enc (list_codec c) v = ?e" "k_back (list_codec c) v = Lst (map (k_back c) vs)"
    by (simp_all add: list_codec_def v(1))
  have "\<exists>post. list_write eh (Some v) (length pre) mx (pre @ rest) = (Inr (length ?e), pre @ ?e @ post) \<and> length post = length rest - length ?e"
    if "length ?e < mx" "mx < 2 ^ 63" "length ?e < length rest" for pre rest mx
  proof -
    have w: "\<exists>post. list_write_all eh vs (length pre + 2) 2 (int (mx - 2)) ((pre @ nat_bytes 2 (length vs)) @ drop 2 rest) =
        (Inr (2 + length ?es), (pre @ nat_bytes 2 (length vs)) @ ?es @ post) \<and> length post = length (drop 2 rest) - length ?es"
      by (rule list_write_all_run [OF assms v(4)]) (use that in auto)
    have "int mx - 2 = int (mx - 2)"
      using that by (simp add: of_nat_diff)
    moreover have "put_num 2 (length pre) (length vs) (pre @ rest) = (Inr 2, pre @ nat_bytes 2 (length vs) @ drop 2 rest)"
      using that by (intro put_num_run) auto
    ultimately have "list_write eh (Some v) (length pre) mx (pre @ rest) =
        list_write_all eh vs (length pre + 2) 2 (int (mx - 2)) ((pre @ nat_bytes 2 (length vs)) @ drop 2 rest)"
      using that v(1,3) by (simp add: list_write_def to_long_small check_pos_run c_bind_Inr del: of_nat_diff)
    then show ?thesis
      using w that by simp
  qed
  moreover have "list_read eh (length pre) mx (pre @ ?e @ post) = (Inr (length ?e, Some (Lst (map (k_back c) vs))), pre @ ?e @ post)"
    if "length pre + length ?e \<le> mx" "mx < 2 ^ 64" for pre post mx
  proof -
    have "get_num 2 (length pre) (pre @ ?e @ post) = (Inr (length vs), pre @ ?e @ post)"
      using get_num_run [of "length pre" pre "length vs" 2 "?es @ post"] v(3) by simp
    moreover have "list_read_all eh (length vs) (length pre + 2) 2 mx ((pre @ nat_bytes 2 (length vs)) @ ?es @ post) =
        (Inr (2 + length ?es, map (k_back c) vs), (pre @ nat_bytes 2 (length vs)) @ ?es @ post)"
      by (rule list_read_all_run [OF assms v(4)]) (use that in auto)
    ultimately show ?thesis
      using v(2) by (simp add: list_read_def c_bind_def c_ret_def)
  qed
  ultimately show "writes (h_write (dt_list inner eh) (Some v)) (k_enc (list_codec c) v)
      \<and> reads (h_read (dt_list inner eh)) (k_enc (list_codec c) v) (k_back (list_codec c) v)"
    unfolding codec writes_def reads_def by (simp add: dt_list_def)
qed

subsection \<open>Maps\<close>

text \<open>The key as it is passed to its handler: \<open>c_str\<close> of the string in a map with string keys.\<close>

definition key_arg :: "bool \<Rightarrow> tval \<Rightarrow> tval" where
  "key_arg str k = (if str then (case k of Obj s \<Rightarrow> Str s | _ \<Rightarrow> k) else k)"

definition key_fits :: "bool \<Rightarrow> codec \<Rightarrow> tval \<Rightarrow> bool" where
  "key_fits str kc k \<longleftrightarrow> k_fits kc (key_arg str k) \<and> (str \<longrightarrow> (\<exists>s. k = Obj s \<and> 0 \<notin> set s))"

definition entry_enc :: "bool \<Rightarrow> codec \<Rightarrow> codec \<Rightarrow> tval \<times> tval \<Rightarrow> u8 list" where
  "entry_enc str kc vc e = k_enc kc (key_arg str (fst e)) @ k_enc vc (snd e)"

lemma entry_enc_pair: "entry_enc str kc vc (k, v) = k_enc kc (key_arg str k) @ k_enc vc v"
  by (simp add: entry_enc_def)

definition map_codec :: "bool \<Rightarrow> codec \<Rightarrow> codec \<Rightarrow> codec" where
  "map_codec str kc vc = \<lparr>
     k_fits = \<lambda>v. (case v of Mp es \<Rightarrow> length es < 65536 \<and> distinct (map fst es)
         \<and> (\<forall>e \<in> set es. key_fits str kc (fst e) \<and> k_fits vc (snd e)) | _ \<Rightarrow> False),
     k_enc = \<lambda>v. (case v of Mp es \<Rightarrow> nat_bytes 2 (length es) @ concat (map (entry_enc str kc vc) es) | _ \<Rightarrow> []),
     k_back = \<lambda>v. (case v of Mp es \<Rightarrow> Mp (map (\<lambda>(k, v). (k, k_back vc v)) es) | _ \<Rightarrow> v) \<rparr>"

lemma c_str_same: "0 \<notin> set s \<Longrightarrow> c_str s = s"
  unfolding c_str_def by (rule takeWhile_eq_all_conv [THEN iffD2]) auto

lemma key_arg_write: "key_fits str kc k \<Longrightarrow> (if str then as_cstr (Some k) else Some k) = Some (key_arg str k)"
  by (auto simp: key_fits_def key_arg_def c_str_same)

lemma key_arg_read: "key_fits str kc k \<Longrightarrow> (if str then as_obj (Some (key_arg str k)) else Some (key_arg str k)) = Some k"
  by (auto simp: key_fits_def key_arg_def)

lemma map_write_all_run:
  assumes "implements kh kc" "implements vh vc" "\<forall>e \<in> set es. key_fits str kc (fst e) \<and> k_fits vc (snd e)"
    "length (concat (map (entry_enc str kc vc) es)) < mx" "mx < 2 ^ 63"
    "length (concat (map (entry_enc str kc vc) es)) < length rest" "off = length pre"
  shows "\<exists>post. map_write_all str kh vh es off sz (int mx) (pre @ rest) =
      (Inr (sz + length (concat (map (entry_enc str kc vc) es))), pre @ concat (map (entry_enc str kc vc) es) @ post)
    \<and> length post = length rest - length (concat (map (entry_enc str kc vc) es))"
  using assms
proof (induction es arbitrary: pre rest off sz mx)
  case Nil
  then show ?case by (auto simp: c_ret_def)
next
  case (Cons e es)
  obtain k v where e: "e = (k, v)" by (cases e)
  let ?ke = "k_enc kc (key_arg str k)" and ?ve = "k_enc vc v"
  have fits: "key_fits str kc k" "k_fits kc (key_arg str k)" "k_fits vc v"
    using Cons.prems(3) by (auto simp: e key_fits_def)
  have len: "length ?ke + length ?ve + length (concat (map (entry_enc str kc vc) es)) < mx"
      "length ?ke + length ?ve + length (concat (map (entry_enc str kc vc) es)) < length rest"
    using Cons.prems by (auto simp: e entry_enc_pair)
  obtain p where p: "h_write kh (Some (key_arg str k)) off mx (pre @ rest) = (Inr (length ?ke), pre @ ?ke @ p)"
      "length p = length rest - length ?ke"
    by (rule writesE [OF implementsD(1) [OF Cons.prems(1) fits(2)], of mx rest off pre]) (use Cons.prems len in auto)
  obtain q where q: "h_write vh (Some v) (off + length ?ke) (mx - length ?ke) ((pre @ ?ke) @ p) = (Inr (length ?ve), (pre @ ?ke) @ ?ve @ q)"
      "length q = length p - length ?ve"
    by (rule writesE [OF implementsD(1) [OF Cons.prems(2) fits(3)], of "mx - length ?ke" p "off + length ?ke" "pre @ ?ke"])
      (use Cons.prems len p in auto)
  define mx' where "mx' = mx - length ?ke - (if str then 0 else length ?ve)"
  have "\<exists>r. map_write_all str kh vh es (off + (length ?ke + length ?ve)) (sz + (length ?ke + length ?ve)) (int mx') ((pre @ ?ke @ ?ve) @ q) =
      (Inr (sz + (length ?ke + length ?ve) + length (concat (map (entry_enc str kc vc) es))),
       (pre @ ?ke @ ?ve) @ concat (map (entry_enc str kc vc) es) @ r)
    \<and> length r = length q - length (concat (map (entry_enc str kc vc) es))"
    by (rule Cons.IH) (use Cons.prems len p q in \<open>auto simp: mx'_def\<close>)
  moreover have "int mx - int (length ?ke) = int (mx - length ?ke)" "0 < mx" "0 < mx - length ?ke"
      "int (mx - length ?ke) - (if str then 0 else int (length ?ve)) = int mx'"
    using len by (auto simp: of_nat_diff mx'_def)
  then have "map_write_all str kh vh (e # es) off sz (int mx) (pre @ rest) =
      map_write_all str kh vh es (off + (length ?ke + length ?ve)) (sz + (length ?ke + length ?ve)) (int mx') ((pre @ ?ke @ ?ve) @ q)"
    using p(1) q(1) Cons.prems(5)
    by (simp add: e key_arg_write [OF fits(1)] check_pos_run to_ulong_int c_bind_Inr del: of_nat_diff)
  ultimately show ?case
    using p(2) q(2) by (simp add: e entry_enc_pair add.assoc)
qed

lemma map_read_all_run:
  assumes "implements kh kc" "implements vh vc" "\<forall>e \<in> set es. key_fits str kc (fst e) \<and> k_fits vc (snd e)"
    "k_back kc = (\<lambda>k. k)" "distinct (map fst acc @ map fst es)"
    "off + length (concat (map (entry_enc str kc vc) es)) \<le> mx" "mx < 2 ^ 64" "off = length pre"
  shows "map_read_all str kh vh (length es) off sz mx acc (pre @ concat (map (entry_enc str kc vc) es) @ post) =
      (Inr (sz + length (concat (map (entry_enc str kc vc) es)), Some (Mp (acc @ map (\<lambda>(k, v). (k, k_back vc v)) es))),
       pre @ concat (map (entry_enc str kc vc) es) @ post)"
  using assms
proof (induction es arbitrary: pre off sz acc)
  case Nil
  then show ?case by (simp add: c_ret_def)
next
  case (Cons e es)
  obtain k v where e: "e = (k, v)" by (cases e)
  let ?ke = "k_enc kc (key_arg str k)" and ?ve = "k_enc vc v" and ?es = "concat (map (entry_enc str kc vc) es)"
  have fits: "key_fits str kc k" "k_fits kc (key_arg str k)" "k_fits vc v"
    using Cons.prems(3) by (auto simp: e key_fits_def)
  have "h_read kh off mx (pre @ ?ke @ ?ve @ ?es @ post) = (Inr (length ?ke, Some (key_arg str k)), pre @ ?ke @ ?ve @ ?es @ post)"
    using readsD [OF implementsD(2) [OF Cons.prems(1) fits(2)], of off pre mx "?ve @ ?es @ post"] Cons.prems
    by (simp add: e entry_enc_pair)
  moreover have "h_read vh (off + length ?ke) mx (pre @ ?ke @ ?ve @ ?es @ post) =
      (Inr (length ?ve, Some (k_back vc v)), pre @ ?ke @ ?ve @ ?es @ post)"
    using readsD [OF implementsD(2) [OF Cons.prems(2) fits(3)], of "off + length ?ke" "pre @ ?ke" mx "?es @ post"] Cons.prems
    by (simp add: e entry_enc_pair)
  moreover have "map_read_all str kh vh (length es) (off + (length ?ke + length ?ve)) (sz + (length ?ke + length ?ve)) mx
      (acc @ [(k, k_back vc v)]) ((pre @ ?ke @ ?ve) @ ?es @ post) =
    (Inr (sz + (length ?ke + length ?ve) + length ?es,
      Some (Mp ((acc @ [(k, k_back vc v)]) @ map (\<lambda>(k, v). (k, k_back vc v)) es))), (pre @ ?ke @ ?ve) @ ?es @ post)"
    by (rule Cons.IH) (use Cons.prems in \<open>auto simp: e entry_enc_pair\<close>)
  moreover have "mp_insert k (k_back vc v) acc = acc @ [(k, k_back vc v)]"
    using Cons.prems(5) by (auto simp: mp_insert_def e)
  ultimately show ?case
    using key_arg_read [OF fits(1)] by (simp add: e entry_enc_pair c_bind_Inr add.assoc)
qed

lemma implements_map:
  assumes kv: "implements kh kc" "implements vh vc" and kb: "k_back kc = (\<lambda>k. k)"
  shows "implements (map_handler str kh vh) (map_codec str kc vc)"
  unfolding implements_def
proof (intro allI impI)
  fix v assume "k_fits (map_codec str kc vc) v"
  then obtain es where v: "v = Mp es" "length es < 65536" "distinct (map fst es)"
      "\<forall>e \<in> set es. key_fits str kc (fst e) \<and> k_fits vc (snd e)"
    by (auto simp: map_codec_def split: tval.splits)
  let ?es = "concat (map (entry_enc str kc vc) es)"
  let ?e = "nat_bytes 2 (length es) @ ?es" and ?ret = "Mp (map (\<lambda>(k, v). (k, k_back vc v)) es)"
  have codec: "k_enc (map_codec str kc vc) v = ?e" "k_back (map_codec str kc vc) v = ?ret"
    by (simp_all add: map_codec_def v(1))
  have "\<exists>post. map_write str kh vh (Some v) (length pre) mx (pre @ rest) = (Inr (length ?e), pre @ ?e @ post) \<and> length post = length rest - length ?e"
    if "length ?e < mx" "mx < 2 ^ 63" "length ?e < length rest" for pre rest mx
  proof -
    have w: "\<exists>post. map_write_all str kh vh es (length pre + 2) 2 (int (mx - 2)) ((pre @ nat_bytes 2 (length es)) @ drop 2 rest) =
        (Inr (2 + length ?es), (pre @ nat_bytes 2 (length es)) @ ?es @ post) \<and> length post = length (drop 2 rest) - length ?es"
      by (rule map_write_all_run [OF kv v(4)]) (use that in auto)
    have "int mx - 2 = int (mx - 2)"
      using that by (simp add: of_nat_diff)
    moreover have "put_num 2 (length pre) (length es) (pre @ rest) = (Inr 2, pre @ nat_bytes 2 (length es) @ drop 2 rest)"
      using that by (intro put_num_run) auto
    ultimately have "map_write str kh vh (Some v) (length pre) mx (pre @ rest) =
        map_write_all str kh vh es (length pre + 2) 2 (int (mx - 2)) ((pre @ nat_bytes 2 (length es)) @ drop 2 rest)"
      using that v(1,2) by (simp add: map_write_def to_long_small check_pos_run c_bind_Inr del: of_nat_diff)
    then show ?thesis
      using w that by simp
  qed
  moreover have "map_read str kh vh (length pre) mx (pre @ ?e @ post) = (Inr (length ?e, Some ?ret), pre @ ?e @ post)"
    if "length pre + length ?e \<le> mx" "mx < 2 ^ 64" for pre post mx
  proof -
    have "get_num 2 (length pre) (pre @ ?e @ post) = (Inr (length es), pre @ ?e @ post)"
      using get_num_run [of "length pre" pre "length es" 2 "?es @ post"] v(2) by simp
    moreover have "map_read_all str kh vh (length es) (length pre + 2) 2 mx [] ((pre @ nat_bytes 2 (length es)) @ ?es @ post) =
        (Inr (2 + length ?es, Some (Mp ([] @ map (\<lambda>(k, v). (k, k_back vc v)) es))), (pre @ nat_bytes 2 (length es)) @ ?es @ post)"
      by (rule map_read_all_run [OF kv v(4) kb]) (use that v(3) in auto)
    ultimately show ?thesis
      by (simp add: map_read_def c_bind_Inr)
  qed
  ultimately show "writes (h_write (map_handler str kh vh) (Some v)) (k_enc (map_codec str kc vc) v)
      \<and> reads (h_read (map_handler str kh vh)) (k_enc (map_codec str kc vc) v) (k_back (map_codec str kc vc) v)"
    unfolding codec writes_def reads_def by (simp add: map_handler_def)
qed

end
