(* ===== verification/TypeStructs.thy ===== *)
theory TypeStructs
  imports TypeCodec
begin

section \<open>Records written to a buffer are read back\<close>

subsection \<open>The codec of a record\<close>

abbreviation f_idx :: "stype \<Rightarrow> nat" where "f_idx f \<equiv> fi_index (s_info f)"

text \<open>What is stored for a field: the default value stands for null.\<close>

definition field_val :: "stype \<Rightarrow> tval option \<Rightarrow> tval option" where
  "field_val f d = (case d of Some v \<Rightarrow> Some v
     | None \<Rightarrow> (case fi_default (s_info f) of None \<Rightarrow> None
         | Some df \<Rightarrow> (case get_default df of Inr x \<Rightarrow> Some x | Inl _ \<Rightarrow> None)))"

definition default_ok :: "stype \<Rightarrow> bool" where
  "default_ok f \<longleftrightarrow> (case fi_default (s_info f) of None \<Rightarrow> True | Some df \<Rightarrow> \<exists>x. get_default df = Inr x)"

definition constraint_ok :: "stype \<Rightarrow> tval \<Rightarrow> bool" where
  "constraint_ok f v \<longleftrightarrow> (case fi_constraint (s_info f) of None \<Rightarrow> True | Some c \<Rightarrow> c_validate c (Some v) = Inr True)"

definition field_fits :: "stype \<times> codec \<Rightarrow> tval option \<Rightarrow> bool" where
  "field_fits fc d \<longleftrightarrow> is_valid_value (fst fc) d = Inr True \<and> default_ok (fst fc) \<and> f_idx (fst fc) < 256
     \<and> (case field_val (fst fc) d of None \<Rightarrow> True | Some v \<Rightarrow> constraint_ok (fst fc) v \<and> k_fits (snd fc) v)"

definition field_enc :: "stype \<times> codec \<Rightarrow> tval option \<Rightarrow> u8 list" where
  "field_enc fc d = (case field_val (fst fc) d of None \<Rightarrow> [] | Some v \<Rightarrow> nat_bytes 1 (f_idx (fst fc)) @ k_enc (snd fc) v)"

definition body_enc :: "(stype \<times> codec) list \<Rightarrow> tval option list \<Rightarrow> u8 list" where
  "body_enc fcs ds = concat (map (\<lambda>fc. field_enc fc (ds ! f_idx (fst fc))) fcs)"

fun fill :: "(stype \<times> codec) list \<Rightarrow> tval option list \<Rightarrow> tval option list \<Rightarrow> tval option list" where
  "fill [] ds acc = acc"
| "fill ((f, c) # fcs) ds acc = fill fcs ds
     (case field_val f (ds ! f_idx f) of None \<Rightarrow> acc | Some v \<Rightarrow> acc[f_idx f := Some (k_back c v)])"

definition struct_codec :: "(stype \<times> codec) list \<Rightarrow> codec" where
  "struct_codec fcs = \<lparr>
     k_fits = \<lambda>v. (case v of Rec ds \<Rightarrow> length ds = length fcs \<and> fcs \<noteq> []
         \<and> distinct (map (\<lambda>fc. f_idx (fst fc)) fcs)
         \<and> (\<forall>fc \<in> set fcs. f_idx (fst fc) < length ds \<and> field_fits fc (ds ! f_idx (fst fc))) | _ \<Rightarrow> False),
     k_enc = \<lambda>v. (case v of Rec ds \<Rightarrow> nat_bytes 8 (length (body_enc fcs ds)) @ body_enc fcs ds | _ \<Rightarrow> []),
     k_back = \<lambda>v. (case v of Rec ds \<Rightarrow> Rec (fill fcs ds (replicate (length fcs) None)) | _ \<Rightarrow> v) \<rparr>"

text \<open>\<open>fill\<close> puts each field at its index.\<close>

lemma length_fill [simp]: "length (fill fcs ds acc) = length acc"
  by (induction fcs ds acc rule: fill.induct) (auto split: option.splits)

lemma fill_other: "i \<notin> (\<lambda>fc. f_idx (fst fc)) ` set fcs \<Longrightarrow> fill fcs ds acc ! i = acc ! i"
  by (induction fcs ds acc rule: fill.induct) (auto split: option.splits)

lemma fill_nth:
  assumes "distinct (map (\<lambda>fc. f_idx (fst fc)) fcs)" "(f, c) \<in> set fcs" "f_idx f < length acc" "acc ! f_idx f = None"
  shows "fill fcs ds acc ! f_idx f = map_option (k_back c) (field_val f (ds ! f_idx f))"
  using assms
proof (induction fcs ds acc rule: fill.induct)
  case (1 ds acc)
  then show ?case by simp
next
  case (2 g d fcs ds acc)
  show ?case
  proof (cases "(f, c) = (g, d)")
    case True
    then have "f_idx f \<notin> (\<lambda>fc. f_idx (fst fc)) ` set fcs"
      using "2.prems"(1) by auto
    then show ?thesis
      using True "2.prems" by (auto simp: fill_other split: option.splits)
  next
    case False
    then have "(f, c) \<in> set fcs" "f_idx g \<noteq> f_idx f"
      using "2.prems" by force+
    then show ?thesis
      using "2.IH" "2.prems" by (auto split: option.splits)
  qed
qed

subsection \<open>Writing the fields\<close>

definition field_matches :: "sfield \<Rightarrow> stype \<times> codec \<Rightarrow> bool" where
  "field_matches s fc \<longleftrightarrow> fst s = fst fc \<and>
     (\<exists>h. snd s RM_WRITE = Inr h \<and> implements h (snd fc)) \<and> (\<exists>h. snd s RM_READ = Inr h \<and> implements h (snd fc))"

lemma valid_null_nullable: "is_valid_value f None = Inr True \<Longrightarrow> fi_nullable (s_info f)"
  by (cases f) (auto simp: base_is_valid_def split: if_splits)

lemma field_value_run:
  assumes "is_valid_value f d = Inr True" "default_ok f"
  shows "field_value f h d m = (Inr (field_val f d), m)"
proof (cases d)
  case None
  then have "fi_nullable (s_info f)"
    using assms(1) valid_null_nullable by blast
  then show ?thesis
    using assms None by (auto simp: field_value_def field_val_def lift_e_def c_bind_def c_ret_def default_ok_def split: option.splits)
next
  case (Some v)
  then show ?thesis
    using assms(1) by (simp add: field_value_def field_val_def lift_e_def c_bind_def c_ret_def)
qed

lemma check_constraint_run: "constraint_ok f v \<Longrightarrow> check_constraint f v m = (Inr (), m)"
  by (auto simp: check_constraint_def constraint_ok_def lift_e_def c_bind_def c_ret_def split: option.splits)

lemma write_field_run:
  fixes f v n don c pre rest
  defines "e \<equiv> nat_bytes 1 (f_idx f) @ k_enc c v"
  assumes "implements h c" "constraint_ok f v" "k_fits c v"
    "length e < mx" "mx < 2 ^ 63" "length e < length rest" "n + length e < 2 ^ 64" "length don = n"
  shows "\<exists>post. write_field f h v (length pre) (length pre + 8 + n) (int mx) (pre @ nat_bytes 8 n @ don @ rest) =
      (Inr (length e), pre @ nat_bytes 8 (n + length e) @ don @ e @ post) \<and> length post = length rest - length e"
proof -
  let ?i = "nat_bytes 1 (f_idx f)" and ?e = "k_enc c v"
  have i: "put_num 1 (length pre + 8 + n) (f_idx f) (pre @ nat_bytes 8 n @ don @ rest) =
      (Inr 1, pre @ nat_bytes 8 n @ (don @ ?i) @ drop 1 rest)"
    using put_num_run [of 1 rest "length pre + 8 + n" "pre @ nat_bytes 8 n @ don" "f_idx f"] assms by (simp add: e_def)
  have s1: "add_size (length pre) 1 (pre @ nat_bytes 8 n @ (don @ ?i) @ drop 1 rest) =
      (Inr (), pre @ nat_bytes 8 (n + 1) @ (don @ ?i) @ drop 1 rest)"
    by (rule add_size_run) (use assms in \<open>simp_all add: e_def\<close>)
  obtain post where w: "h_write h (Some v) (length pre + 8 + n + 1) (mx - 1) ((pre @ nat_bytes 8 (n + 1) @ don @ ?i) @ drop 1 rest) =
      (Inr (length ?e), (pre @ nat_bytes 8 (n + 1) @ don @ ?i) @ ?e @ post)" "length post = length (drop 1 rest) - length ?e"
    by (rule writesE [OF implementsD(1) [OF assms(2,4)], of "mx - 1" "drop 1 rest" "length pre + 8 + n + 1"
          "pre @ nat_bytes 8 (n + 1) @ don @ ?i"]) (use assms in \<open>auto simp: e_def\<close>)
  have s2: "add_size (length pre) (length ?e) (pre @ nat_bytes 8 (n + 1) @ don @ ?i @ ?e @ post) =
      (Inr (), pre @ nat_bytes 8 (n + 1 + length ?e) @ don @ ?i @ ?e @ post)"
    by (rule add_size_run) (use assms in \<open>simp_all add: e_def\<close>)
  have "int mx - 1 = int (mx - 1)" "0 < mx - 1" "mx - 1 < 2 ^ 63"
    using assms by (auto simp: of_nat_diff e_def)
  then have "write_field f h v (length pre) (length pre + 8 + n) (int mx) (pre @ nat_bytes 8 n @ don @ rest) =
      (Inr (1 + length ?e), pre @ nat_bytes 8 (n + 1 + length ?e) @ don @ ?i @ ?e @ post)"
    using i s1 w(1) s2 unfolding write_field_def
    by (simp add: c_bind_Inr [OF check_constraint_run [OF assms(3)]] c_bind_Inr check_pos_run to_ulong_int c_ret_def
        del: of_nat_diff nat_bytes.simps One_nat_def)
  then show ?thesis
    using w(2) by (simp add: e_def)
qed

lemma field_enc_run:
  assumes "field_matches s fc" "field_fits fc (ds ! f_idx (fst fc))" "f_idx (fst fc) < length ds"
    "length (field_enc fc (ds ! f_idx (fst fc))) < mx" "mx < 2 ^ 63"
    "length (field_enc fc (ds ! f_idx (fst fc))) < length rest"
    "n + length (field_enc fc (ds ! f_idx (fst fc))) < 2 ^ 64" "length don = n"
  shows "\<exists>post. write_fields (s # ss) ds (length pre) (length pre + 8 + n) sz (int mx) (pre @ nat_bytes 8 n @ don @ rest) =
      write_fields ss ds (length pre) (length pre + 8 + (n + length (field_enc fc (ds ! f_idx (fst fc)))))
        (sz + length (field_enc fc (ds ! f_idx (fst fc)))) (int (mx - length (field_enc fc (ds ! f_idx (fst fc)))))
        (pre @ nat_bytes 8 (n + length (field_enc fc (ds ! f_idx (fst fc)))) @ (don @ field_enc fc (ds ! f_idx (fst fc))) @ post)
    \<and> length post = length rest - length (field_enc fc (ds ! f_idx (fst fc)))"
proof -
  obtain f hs c where s: "s = (f, hs)" and fc: "fc = (f, c)"
    using assms(1) by (cases s; cases fc) (auto simp: field_matches_def)
  obtain h where h: "hs RM_WRITE = Inr h" "implements h c"
    using assms(1) by (auto simp: field_matches_def s fc)
  let ?d = "ds ! f_idx f" and ?m = "pre @ nat_bytes 8 n @ don @ rest"
  have fits: "is_valid_value f ?d = Inr True" "default_ok f"
    using assms(2) by (simp_all add: field_fits_def fc)
  have head: "write_fields (s # ss) ds (length pre) (length pre + 8 + n) sz (int mx) ?m =
      (case field_val f ?d of None \<Rightarrow> write_fields ss ds (length pre) (length pre + 8 + n) sz (int mx)
       | Some v \<Rightarrow> c_bind (write_field f h v (length pre) (length pre + 8 + n) (int mx)) (\<lambda>r.
           write_fields ss ds (length pre) (length pre + 8 + n + r) (sz + r) (int mx - int r))) ?m"
    using assms(3,4) h(1) field_value_run [OF fits, of h ?m]
    by (simp add: s fc check_pos_run lift_e_def rec_get_field_def c_bind_Inr)
  show ?thesis
  proof (cases "field_val f ?d")
    case None
    then show ?thesis
      using head by (auto simp: fc field_enc_def)
  next
    case (Some v)
    let ?e = "nat_bytes 1 (f_idx f) @ k_enc c v"
    have e: "field_enc fc (ds ! f_idx (fst fc)) = ?e"
      using Some by (simp add: fc field_enc_def)
    have "constraint_ok f v" "k_fits c v"
      using assms(2) Some by (simp_all add: field_fits_def fc)
    then obtain post where w: "write_field f h v (length pre) (length pre + 8 + n) (int mx) ?m =
        (Inr (length ?e), pre @ nat_bytes 8 (n + length ?e) @ don @ ?e @ post)" "length post = length rest - length ?e"
      using write_field_run [OF h(2), of f v mx rest n don pre] assms(4-8) unfolding e by blast
    have "int mx - int (length ?e) = int (mx - length ?e)"
      using assms(4) unfolding e by (simp add: of_nat_diff)
    then have "write_fields (s # ss) ds (length pre) (length pre + 8 + n) sz (int mx) ?m =
        write_fields ss ds (length pre) (length pre + 8 + n + length ?e) (sz + length ?e) (int (mx - length ?e))
          (pre @ nat_bytes 8 (n + length ?e) @ don @ ?e @ post)"
      using head w(1) Some by (simp add: c_bind_Inr del: of_nat_diff nat_bytes.simps length_append)
    then show ?thesis
      using w(2) unfolding e by (auto simp: add.assoc)
  qed
qed

lemma body_enc_Cons: "body_enc (fc # fcs) ds = field_enc fc (ds ! f_idx (fst fc)) @ body_enc fcs ds"
  by (simp add: body_enc_def)

lemma write_fields_run:
  assumes "list_all2 field_matches ss fcs" "\<forall>fc \<in> set fcs. f_idx (fst fc) < length ds \<and> field_fits fc (ds ! f_idx (fst fc))"
    "length (body_enc fcs ds) < mx" "mx < 2 ^ 63" "length (body_enc fcs ds) < length rest"
    "n + length (body_enc fcs ds) < 2 ^ 64" "length don = n"
  shows "\<exists>post. write_fields ss ds (length pre) (length pre + 8 + n) sz (int mx) (pre @ nat_bytes 8 n @ don @ rest) =
      (Inr (sz + length (body_enc fcs ds)), pre @ nat_bytes 8 (n + length (body_enc fcs ds)) @ don @ body_enc fcs ds @ post)
    \<and> length post = length rest - length (body_enc fcs ds)"
  using assms
proof (induction ss fcs arbitrary: rest n don sz mx rule: list_all2_induct)
  case Nil
  then show ?case by (auto simp: c_ret_def body_enc_def)
next
  case (Cons s ss fc fcs)
  let ?e = "field_enc fc (ds ! f_idx (fst fc))"
  have len: "length ?e + length (body_enc fcs ds) < mx" "length ?e + length (body_enc fcs ds) < length rest"
      "n + length ?e + length (body_enc fcs ds) < 2 ^ 64"
    using Cons.prems by (simp_all add: body_enc_Cons)
  obtain post where p: "write_fields (s # ss) ds (length pre) (length pre + 8 + n) sz (int mx) (pre @ nat_bytes 8 n @ don @ rest) =
      write_fields ss ds (length pre) (length pre + 8 + (n + length ?e)) (sz + length ?e) (int (mx - length ?e))
        (pre @ nat_bytes 8 (n + length ?e) @ (don @ ?e) @ post)" "length post = length rest - length ?e"
    using field_enc_run [OF Cons.hyps(1), where ds = ds and mx = mx and rest = rest and n = n and don = don and pre = pre
        and ss = ss and sz = sz] Cons.prems len by auto
  have "\<exists>q. write_fields ss ds (length pre) (length pre + 8 + (n + length ?e)) (sz + length ?e) (int (mx - length ?e))
        (pre @ nat_bytes 8 (n + length ?e) @ (don @ ?e) @ post) =
      (Inr (sz + length ?e + length (body_enc fcs ds)),
        pre @ nat_bytes 8 (n + length ?e + length (body_enc fcs ds)) @ (don @ ?e) @ body_enc fcs ds @ q)
    \<and> length q = length post - length (body_enc fcs ds)"
    by (rule Cons.IH) (use Cons.prems len p(2) in auto)
  then show ?case
    using p by (simp add: body_enc_Cons add.assoc)
qed

subsection \<open>Reading the fields\<close>

lemma find_field:
  assumes "list_all2 field_matches all fcs" "distinct (map (\<lambda>fc. f_idx (fst fc)) fcs)" "(f, c) \<in> set fcs"
  shows "\<exists>hs. find (\<lambda>(g, hs). f_idx g = f_idx f) all = Some (f, hs) \<and> field_matches (f, hs) (f, c)"
  using assms
proof (induction all fcs rule: list_all2_induct)
  case Nil
  then show ?case by simp
next
  case (Cons s ss fc fcs)
  obtain g hs where s: "s = (g, hs)" by (cases s)
  have g: "fst fc = g"
    using Cons.hyps(1) by (simp add: field_matches_def s)
  show ?case
  proof (cases "(f, c) = fc")
    case True
    then show ?thesis
      using Cons.hyps(1) g s by auto
  next
    case False
    then have "(f, c) \<in> set fcs" "f_idx g \<noteq> f_idx f"
      using Cons.prems g by force+
    then show ?thesis
      using Cons.IH Cons.prems s by auto
  qed
qed

lemma read_one_run:
  assumes "list_all2 field_matches all fcs" "distinct (map (\<lambda>fc. f_idx (fst fc)) fcs)" "(f, c) \<in> set fcs"
    "k_fits c v" "f_idx f < 256" "off + 1 + length (k_enc c v) \<le> mx" "mx < 2 ^ 64" "off = length pre"
  shows "read_one all off mx (pre @ (nat_bytes 1 (f_idx f) @ k_enc c v) @ post) =
      (Inr (f_idx f, length (k_enc c v), k_back c v), pre @ (nat_bytes 1 (f_idx f) @ k_enc c v) @ post)"
proof -
  obtain hs h where hs: "find (\<lambda>(g, hs). f_idx g = f_idx f) all = Some (f, hs)" "hs RM_READ = Inr h" "implements h c"
    using find_field [OF assms(1-3)] by (auto simp: field_matches_def)
  have g: "get_num 1 off (pre @ nat_bytes 1 (f_idx f) @ k_enc c v @ post) =
      (Inr (f_idx f), pre @ nat_bytes 1 (f_idx f) @ k_enc c v @ post)"
    by (rule get_num_run) (use assms in simp_all)
  have "h_read h (off + 1) mx (pre @ nat_bytes 1 (f_idx f) @ k_enc c v @ post) =
      (Inr (length (k_enc c v), Some (k_back c v)), pre @ nat_bytes 1 (f_idx f) @ k_enc c v @ post)"
    using readsD [OF implementsD(2) [OF hs(3) assms(4)], of "off + 1" "pre @ nat_bytes 1 (f_idx f)" mx post] assms(6-8)
    by simp
  then show ?thesis
    using g hs by (simp add: read_one_def c_bind_Inr lift_e_def c_ret_def del: nat_bytes.simps One_nat_def)
qed

lemma read_fields_run:
  assumes "list_all2 field_matches all fcs" "distinct (map (\<lambda>fc. f_idx (fst fc)) fcs)"
    "set rem \<subseteq> set fcs" "distinct (map (\<lambda>fc. f_idx (fst fc)) rem)"
    "\<forall>fc \<in> set rem. f_idx (fst fc) < length acc \<and> acc ! f_idx (fst fc) = None \<and> field_fits fc (ds ! f_idx (fst fc))"
    "off + length (body_enc rem ds) \<le> mx" "mx - off \<le> n" "mx < 2 ^ 64" "off = length pre"
  shows "read_fields n all mx off psz (length (body_enc rem ds)) acc (pre @ body_enc rem ds @ post) =
      (Inr (psz + length (body_enc rem ds), Some (Rec (fill rem ds acc))), pre @ body_enc rem ds @ post)"
  using assms
proof (induction rem arbitrary: acc off n psz pre)
  case Nil
  then show ?case by (cases n) (simp_all add: c_ret_def body_enc_def)
next
  case (Cons fc rem)
  obtain f c where fc: "fc = (f, c)" by (cases fc)
  show ?case
  proof (cases "field_val f (ds ! f_idx f)")
    case None
    then have e: "body_enc (fc # rem) ds = body_enc rem ds"
      by (simp add: body_enc_Cons fc field_enc_def)
    have "read_fields n all mx off psz (length (body_enc rem ds)) acc (pre @ body_enc rem ds @ post) =
      (Inr (psz + length (body_enc rem ds), Some (Rec (fill rem ds acc))), pre @ body_enc rem ds @ post)"
      by (rule Cons.IH) (use Cons.prems e in auto)
    then show ?thesis
      using None by (simp add: e) (simp add: fc)
  next
    case (Some v)
    let ?e = "nat_bytes 1 (f_idx f) @ k_enc c v" and ?acc = "acc[f_idx f := Some (k_back c v)]"
    have e: "body_enc (fc # rem) ds = ?e @ body_enc rem ds"
      using Some by (simp add: body_enc_Cons fc field_enc_def)
    have fits: "k_fits c v" "f_idx f < 256" "f_idx f < length acc" "acc ! f_idx f = None"
      using Cons.prems(5) Some by (auto simp: fc field_fits_def)
    have len: "off + (1 + length (k_enc c v) + length (body_enc rem ds)) \<le> mx"
        "1 + length (k_enc c v) + length (body_enc rem ds) < 2 ^ 64"
      using Cons.prems(6,8) by (simp_all add: e)
    have other: "f_idx (fst x) \<noteq> f_idx f" if "x \<in> set rem" for x
      using Cons.prems(4) that by (force simp: fc)
    have one: "read_one all off mx (pre @ ?e @ (body_enc rem ds @ post)) =
        (Inr (f_idx f, length (k_enc c v), k_back c v), pre @ ?e @ (body_enc rem ds @ post))"
      by (rule read_one_run [OF Cons.prems(1,2)]) (use Cons.prems(3,8,9) len fits in \<open>auto simp: fc\<close>)
    obtain k where n: "n = Suc k"
      using Cons.prems(7) len by (cases n) auto
    have sz: "sub64 (sub64 (length (?e @ body_enc rem ds)) 1) (length (k_enc c v)) = length (body_enc rem ds)"
      using len(2) by (simp add: sub64_le)
    have "read_fields n all mx off psz (length (?e @ body_enc rem ds)) acc (pre @ ?e @ body_enc rem ds @ post) =
        read_fields k all mx (off + 1 + length (k_enc c v)) (psz + 1 + length (k_enc c v)) (length (body_enc rem ds)) ?acc
          (pre @ ?e @ body_enc rem ds @ post)"
      using one len(1) fits(3,4) sz unfolding n
      by (simp add: c_bind_Inr rec_add_field_def del: nat_bytes.simps)
    also have "\<dots> = (Inr (psz + 1 + length (k_enc c v) + length (body_enc rem ds), Some (Rec (fill rem ds ?acc))),
        (pre @ ?e) @ body_enc rem ds @ post)"
      unfolding append_assoc [symmetric, of pre]
      by (rule Cons.IH) (use Cons.prems len other in \<open>auto simp: fc n nth_list_update\<close>)
    finally show ?thesis
      using Some by (simp add: e) (simp add: fc add.assoc)
  qed
qed

subsection \<open>The handler of a record implements its codec\<close>

lemma implements_struct:
  assumes "list_all2 field_matches ss fcs"
  shows "implements (dt_struct ss est) (struct_codec fcs)"
  unfolding implements_def
proof (intro allI impI)
  fix v assume "k_fits (struct_codec fcs) v"
  then obtain ds where v: "v = Rec ds" "length ds = length fcs" "fcs \<noteq> []" "distinct (map (\<lambda>fc. f_idx (fst fc)) fcs)"
      "\<forall>fc \<in> set fcs. f_idx (fst fc) < length ds \<and> field_fits fc (ds ! f_idx (fst fc))"
    by (auto simp: struct_codec_def split: tval.splits)
  have ss: "length ss = length fcs" "ss \<noteq> []"
    using list_all2_lengthD [OF assms] v(3) by auto
  let ?b = "body_enc fcs ds"
  let ?e = "nat_bytes 8 (length ?b) @ ?b" and ?ret = "Rec (fill fcs ds (replicate (length fcs) None))"
  have codec: "k_enc (struct_codec fcs) v = ?e" "k_back (struct_codec fcs) v = ?ret"
    by (simp_all add: struct_codec_def v(1))
  have "\<exists>post. struct_write ss (Some v) (length pre) mx (pre @ rest) = (Inr (length ?e), pre @ ?e @ post) \<and> length post = length rest - length ?e"
    if "length ?e < mx" "mx < 2 ^ 63" "length ?e < length rest" for pre rest mx
  proof -
    have w: "\<exists>post. write_fields ss ds (length pre) (length pre + 8 + 0) 8 (int (mx - 8)) (pre @ nat_bytes 8 0 @ [] @ drop 8 rest) =
        (Inr (8 + length ?b), pre @ nat_bytes 8 (0 + length ?b) @ [] @ ?b @ post) \<and> length post = length (drop 8 rest) - length ?b"
      by (rule write_fields_run [OF assms v(5)]) (use that in auto)
    have "int mx - 8 = int (mx - 8)"
      using that by (simp add: of_nat_diff)
    moreover have "put_num 8 (length pre) 0 (pre @ rest) = (Inr 8, pre @ nat_bytes 8 0 @ drop 8 rest)"
      using that by (intro put_num_run) auto
    ultimately have "struct_write ss (Some v) (length pre) mx (pre @ rest) =
        write_fields ss ds (length pre) (length pre + 8) 8 (int (mx - 8)) (pre @ nat_bytes 8 0 @ drop 8 rest)"
      using that v(1,2) ss
      by (simp add: struct_write_def to_long_small check_pos_run c_bind_Inr c_bind_ret del: of_nat_diff nat_bytes.simps)
    then show ?thesis
      using w that by (simp del: nat_bytes.simps)
  qed
  moreover have "struct_read ss (length pre) mx (pre @ ?e @ post) = (Inr (length ?e, Some ?ret), pre @ ?e @ post)"
    if "length pre + length ?e \<le> mx" "mx < 2 ^ 64" for pre post mx
  proof -
    have "get_num 8 (length pre) (pre @ ?e @ post) = (Inr (length ?b), pre @ ?e @ post)"
      using get_num_run [of "length pre" pre "length ?b" 8 "?b @ post"] that by simp
    moreover have "read_fields (mx - length pre) ss mx (length pre + 8) 8 (length ?b) (replicate (length fcs) None)
        ((pre @ nat_bytes 8 (length ?b)) @ ?b @ post) =
      (Inr (8 + length ?b, Some ?ret), (pre @ nat_bytes 8 (length ?b)) @ ?b @ post)"
      by (rule read_fields_run [OF assms v(4)]) (use that v in auto)
    ultimately show ?thesis
      using that ss by (simp add: struct_read_def c_bind_Inr c_bind_ret del: nat_bytes.simps)
  qed
  ultimately show "writes (h_write (dt_struct ss est) (Some v)) (k_enc (struct_codec fcs) v)
      \<and> reads (h_read (dt_struct ss est)) (k_enc (struct_codec fcs) v) (k_back (struct_codec fcs) v)"
    unfolding codec writes_def reads_def by (simp add: dt_struct_def)
qed

end
