(* ===== verification/TypeRoundtrip.thy ===== *)
theory TypeRoundtrip
  imports TypeStructs
begin

section \<open>Every well-formed schema: its handler implements its codec\<close>

subsection \<open>The codec of a schema node\<close>

definition elem_codec :: "dtype \<Rightarrow> codec option \<Rightarrow> codec" where
  "elem_codec dt c = (if dt = TYPE_STRUCT then (case c of Some c \<Rightarrow> c | None \<Rightarrow> native_codec dt) else native_codec dt)"

fun s_codec :: "stype \<Rightarrow> codec" where
  "s_codec (S_native fi dt) = native_codec dt"
| "s_codec (S_string fi mx) = native_codec TYPE_STRING"
| "s_codec (S_complex fi tn fs) = struct_codec (map (\<lambda>f. (f, s_codec f)) fs)"
| "s_codec (S_list fi it inner) = list_codec (elem_codec it (map_option s_codec inner))"
| "s_codec (S_map fi kt vt k v) = map_codec (kt = TYPE_STRING) (native_codec kt) (elem_codec vt (map_option s_codec v))"

text \<open>
  The schemas whose handlers can be made. A list or map of booleans and a map from bytes to records
  cannot.
\<close>

definition is_complex :: "stype option \<Rightarrow> bool" where
  "is_complex t \<longleftrightarrow> (\<exists>fi tn fs. t = Some (S_complex fi tn fs))"

definition inner_ok :: "dtype \<Rightarrow> stype option \<Rightarrow> bool" where
  "inner_ok dt t \<longleftrightarrow> is_inner_type_valid dt \<and> dt \<noteq> TYPE_BOOL \<and> (dt = TYPE_STRUCT \<longrightarrow> is_complex t)"

fun s_wf :: "stype \<Rightarrow> bool" where
  "s_wf (S_native fi dt) = (is_native dt \<or> dt = TYPE_TEXT)"
| "s_wf (S_string fi mx) = True"
| "s_wf (S_complex fi tn fs) = (\<forall>f \<in> set fs. s_wf f)"
| "s_wf (S_list fi it inner) = (inner_ok it inner \<and> (case inner of None \<Rightarrow> True | Some t \<Rightarrow> it = TYPE_STRUCT \<longrightarrow> s_wf t))"
| "s_wf (S_map fi kt vt k v) = (is_native kt \<and> kt \<noteq> TYPE_BOOL \<and> inner_ok vt v \<and> \<not> (kt = TYPE_BYTE \<and> vt = TYPE_STRUCT)
     \<and> (case v of None \<Rightarrow> True | Some t \<Rightarrow> vt = TYPE_STRUCT \<longrightarrow> s_wf t))"

subsection \<open>The dispatch gives the handlers of the types\<close>

lemma native_codec_datetime: "native_codec TYPE_DATETIME = native_codec TYPE_TIMESTAMP"
  by (simp add: native_codec_def)

lemma native_handler_ok: "is_native dt \<or> dt = TYPE_TEXT \<Longrightarrow> \<exists>h. native_handler dt = Inr h"
  by (cases dt) (auto simp: native_handler_def)

definition inner_impl :: "dtype \<Rightarrow> exc + handler \<Rightarrow> codec \<Rightarrow> bool" where
  "inner_impl dt sh c \<longleftrightarrow> is_inner_type_valid dt \<and> (\<exists>h. inner_handler dt sh = Inr h \<and> implements h c)"

lemma inner_impl_native:
  "is_native dt \<or> dt = TYPE_TEXT \<Longrightarrow> inner_impl dt sh (native_codec dt)"
  using native_handler_ok [of dt] implements_native
  by (auto simp: inner_impl_def inner_handler_def is_inner_type_valid_def)

lemma inner_impl_struct: "implements h c \<Longrightarrow> inner_impl TYPE_STRUCT (Inr h) c"
  by (auto simp: inner_impl_def inner_handler_def is_inner_type_valid_def)

lemma new_dt_list_impl: "inner_impl dt sh c \<Longrightarrow> \<exists>h. new_dt_list dt sh = Inr h \<and> implements h (list_codec c)"
  by (auto simp: new_dt_list_def inner_impl_def e_bind_def intro: implements_list)

lemma list_dispatch:
  assumes "is_inner_type_valid it" "it \<noteq> TYPE_BOOL" "it = TYPE_STRUCT \<Longrightarrow> sh = Inr h \<and> implements h c"
    "it \<noteq> TYPE_STRUCT \<Longrightarrow> c = native_codec it"
  shows "\<exists>h. create_list_handler it sh mode = Inr h \<and> implements h (list_codec c)"
proof (cases "it = TYPE_STRUCT")
  case True
  then have "inner_impl TYPE_STRUCT sh c"
    using assms(3) inner_impl_struct by auto
  then show ?thesis
    using True assms(1) new_dt_list_impl [of TYPE_STRUCT sh c] by (cases mode) (auto simp: create_list_handler_def)
next
  case False
  have "inner_impl dt sh (native_codec dt)" if "is_native dt \<or> dt = TYPE_TEXT" for dt
    using that by (rule inner_impl_native)
  note new_dt_list_impl [OF this]
  then show ?thesis
    using False assms(1,2,4) by (cases it) (simp_all add: create_list_handler_def is_inner_type_valid_def native_codec_datetime)
qed

lemma native_k_back: "k_back (native_codec dt) = (\<lambda>v. v)"
  by (simp add: native_codec_def str_codec_def scalar_codec_def)

definition map_impl :: "(dtype \<Rightarrow> exc + handler \<Rightarrow> exc + handler) \<Rightarrow> bool \<Rightarrow> dtype \<Rightarrow> bool" where
  "map_impl new_m str kt \<longleftrightarrow> (\<forall>vt sh c. inner_impl vt sh c \<longrightarrow>
     (\<exists>h. new_m vt sh = Inr h \<and> implements h (map_codec str (native_codec kt) c)))"

lemma map_impl_new:
  assumes "is_native kt"
  shows "map_impl (new_map (map_handler str) kt) str kt"
proof -
  obtain kh where "native_handler kt = Inr kh" "implements kh (native_codec kt)"
    using native_handler_ok assms implements_native by blast
  then show ?thesis
    using assms by (auto simp: map_impl_def new_map_def inner_impl_def e_bind_def intro!: implements_map native_k_back)
qed

lemma map_impl_dt_map: "is_native kt \<Longrightarrow> map_impl (new_dt_map kt) False kt"
  unfolding new_dt_map_def dt_map_def by (rule map_impl_new)

lemma map_impl_string: "map_impl new_string_key_map True TYPE_STRING"
  unfolding new_string_key_map_def string_key_map_def by (rule map_impl_new) simp

lemma map_value_dispatch:
  assumes "map_impl new_m str kt" "is_inner_type_valid vt" "vt \<noteq> TYPE_BOOL"
    "vt = TYPE_STRUCT \<Longrightarrow> sh = Inr h \<and> implements h c" "vt \<noteq> TYPE_STRUCT \<Longrightarrow> c = native_codec vt"
  shows "\<exists>h. map_of_value new_m vt sh mode = Inr h \<and> implements h (map_codec str (native_codec kt) c)"
proof (cases "vt = TYPE_STRUCT")
  case True
  then have "inner_impl TYPE_STRUCT sh c"
    using assms(4) inner_impl_struct by auto
  then show ?thesis
    using True assms(1) unfolding map_impl_def map_of_value_def by (cases mode) auto
next
  case False
  have "\<exists>h. new_m dt sh = Inr h \<and> implements h (map_codec str (native_codec kt) (native_codec dt))"
    if "is_native dt \<or> dt = TYPE_TEXT" for dt
    using assms(1) inner_impl_native [OF that] unfolding map_impl_def by blast
  then show ?thesis
    using False assms(2,3,5) by (cases vt) (simp_all add: map_of_value_def is_inner_type_valid_def native_codec_datetime)
qed

lemma byte_map_not_struct: "vt \<noteq> TYPE_STRUCT \<Longrightarrow> create_byte_map vt = map_of_value (new_dt_map TYPE_BYTE) vt"
  by (auto simp: create_byte_map_def e_bind_def fun_eq_iff split: sum.splits)

lemma map_dispatch_impl:
  assumes "is_native kt" "kt \<noteq> TYPE_BOOL" "is_inner_type_valid vt" "vt \<noteq> TYPE_BOOL" "\<not> (kt = TYPE_BYTE \<and> vt = TYPE_STRUCT)"
    "vt = TYPE_STRUCT \<Longrightarrow> sh = Inr h \<and> implements h c" "vt \<noteq> TYPE_STRUCT \<Longrightarrow> c = native_codec vt"
  shows "\<exists>h. create_map_handler kt vt sh mode = Inr h \<and> implements h (map_codec (kt = TYPE_STRING) (native_codec kt) c)"
proof -
  have d: "\<exists>h. map_of_value (new_dt_map k) vt sh mode = Inr h \<and> implements h (map_codec False (native_codec k) c)" if "is_native k" for k
    by (rule map_value_dispatch [OF map_impl_dt_map [OF that] assms(3,4,6,7)])
  have s: "\<exists>h. map_of_value new_string_key_map vt sh mode = Inr h \<and> implements h (map_codec True (native_codec TYPE_STRING) c)"
    by (rule map_value_dispatch [OF map_impl_string assms(3,4,6,7)])
  show ?thesis
    using assms(1-3,5) d s d [of TYPE_TIMESTAMP]
    by (cases kt) (auto simp: create_map_handler_def byte_map_not_struct create_char_map_def create_short_map_def
        create_int_map_def create_long_map_def create_float_map_def create_double_map_def create_timestamp_map_def
        create_string_map_def native_codec_datetime)
qed

subsection \<open>Schemas\<close>

lemma s_handler_implements: "s_wf t \<Longrightarrow> \<exists>h. handler_of t mode = Inr h \<and> implements h (s_codec t)"
proof (induction t arbitrary: mode)
  case (S_native fi dt)
  then show ?case
    using native_handler_ok [of dt] implements_native by auto
next
  case (S_string fi mx)
  show ?case
    using native_handler_ok [of TYPE_STRING] implements_native by auto
next
  case (S_complex fi tn fs)
  have "list_all2 field_matches (map (\<lambda>f. (f, handler_of f)) fs) (map (\<lambda>f. (f, s_codec f)) fs)"
    using S_complex by (auto simp: list.rel_map field_matches_def intro!: list.rel_refl_strong)
  then show ?case
    by (simp add: implements_struct)
next
  case (S_list fi it inner)
  show ?case
  proof (cases "it = TYPE_STRUCT")
    case True
    then obtain t where t: "inner = Some t" "s_wf t" "is_complex (Some t)"
      using S_list.prems by (auto simp: inner_ok_def is_complex_def split: option.splits)
    then obtain h where "handler_of t mode = Inr h" "implements h (s_codec t)"
      using S_list.IH [of t mode] by auto
    then show ?thesis
      using list_dispatch [of it "Inr h" h "s_codec t" mode] True t S_list.prems
      by (auto simp: elem_codec_def as_struct_def is_complex_def inner_ok_def)
  next
    case False
    then show ?thesis
      using list_dispatch [of it _ _ "native_codec it" mode] S_list.prems by (auto simp: elem_codec_def inner_ok_def)
  qed
next
  case (S_map fi kt vt k v)
  show ?case
  proof (cases "vt = TYPE_STRUCT")
    case True
    then obtain t where t: "v = Some t" "s_wf t" "is_complex (Some t)"
      using S_map.prems by (auto simp: inner_ok_def is_complex_def split: option.splits)
    then obtain h where "handler_of t mode = Inr h" "implements h (s_codec t)"
      using S_map.IH(2) [of t mode] by auto
    then show ?thesis
      using map_dispatch_impl [of kt vt "Inr h" h "s_codec t" mode] True t S_map.prems
      by (auto simp: elem_codec_def as_struct_def is_complex_def inner_ok_def)
  next
    case False
    then show ?thesis
      using map_dispatch_impl [of kt vt _ _ "native_codec vt" mode] S_map.prems by (auto simp: elem_codec_def inner_ok_def)
  qed
qed

subsection \<open>Properties\<close>

lemma native_read_mode: "s_wf t \<Longrightarrow> \<exists>hw hr. handler_of t RM_WRITE = Inr hw \<and> handler_of t RM_READ = Inr hr
    \<and> implements hw (s_codec t) \<and> implements hr (s_codec t)"
  using s_handler_implements [of t] by blast

text \<open>C4. For every schema whose handlers can be made - native types, strings,
  records of any depth, lists and maps of them - and every value that fits it, in a buffer with one
  spare byte: the write handler succeeds and changes nothing before the offset, and the read handler,
  given the end of the buffer as its limit, consumes the bytes that were written and returns the value,
  with the defaults in place of nulls.\<close>

theorem typed_value_roundtrip:
  assumes "s_wf t" "k_fits (s_codec t) v" "off + length (k_enc (s_codec t) v) < length m" "length m < 2 ^ 63"
  shows "\<exists>hw hr m'. handler_of t RM_WRITE = Inr hw \<and> handler_of t RM_READ = Inr hr
    \<and> h_write hw (Some v) off (length m - off) m = (Inr (length (k_enc (s_codec t) v)), m')
    \<and> length m' = length m \<and> take off m' = take off m
    \<and> h_read hr off (length m) m' = (Inr (length (k_enc (s_codec t) v), Some (k_back (s_codec t) v)), m')"
proof -
  let ?e = "k_enc (s_codec t) v"
  obtain hw hr where h: "handler_of t RM_WRITE = Inr hw" "handler_of t RM_READ = Inr hr"
      "implements hw (s_codec t)" "implements hr (s_codec t)"
    using native_read_mode [OF assms(1)] by blast
  obtain post where w: "h_write hw (Some v) off (length m - off) (take off m @ drop off m) = (Inr (length ?e), take off m @ ?e @ post)"
      "length post = length (drop off m) - length ?e"
    by (rule writesE [OF implementsD(1) [OF h(3) assms(2)], of "length m - off" "drop off m" off "take off m"])
      (use assms in auto)
  have "h_read hr off (length m) (take off m @ ?e @ post) = (Inr (length ?e, Some (k_back (s_codec t) v)), take off m @ ?e @ post)"
    by (rule readsD [OF implementsD(2) [OF h(4) assms(2)]]) (use assms in auto)
  then show ?thesis
    using h w assms(3) by auto
qed

definition demo_info :: "string \<Rightarrow> nat \<Rightarrow> finfo" where
  "demo_info n i = \<lparr>fi_name = n, fi_index = i, fi_nullable = True, fi_constraint = None, fi_default = None\<rparr>"

definition demo_type :: stype where
  "demo_type = S_complex (demo_info ''r'' 0) ''demo''
     [S_native (demo_info ''id'' 0) TYPE_SHORT,
      S_string (demo_info ''name'' 1) (Some 20),
      S_native ((demo_info ''n'' 2)\<lparr>fi_default := Some (Default TYPE_CHAR (Some (Scalar [65])))\<rparr>) TYPE_CHAR,
      S_list (demo_info ''tags'' 3) TYPE_STRING None]"

definition demo_value :: tval where
  "demo_value = Rec [Some (Scalar [7, 0]), Some (Str [72, 105]), None, Some (Lst [Str [33]])]"

lemmas demo_defs = demo_type_def demo_value_def demo_info_def struct_codec_def list_codec_def str_codec_def
  scalar_codec_def native_codec_def elem_codec_def body_enc_def field_enc_def field_fits_def field_val_def
  base_is_valid_def default_ok_def constraint_ok_def str_fits_def str_bytes_def inner_ok_def is_inner_type_valid_def

theorem typed_value_roundtrip_witness:
  "\<exists>hw hr m'. handler_of demo_type RM_WRITE = Inr hw \<and> handler_of demo_type RM_READ = Inr hr
    \<and> h_write hw (Some demo_value) 2 38 (replicate 40 0) = (Inr 24, m')
    \<and> h_read hr 2 40 m' = (Inr (24, Some (Rec [Some (Scalar [7, 0]), Some (Str [72, 105]), Some (Scalar [65]), Some (Lst [Str [33]])])), m')"
proof -
  have "s_wf demo_type" "k_fits (s_codec demo_type) demo_value" "length (k_enc (s_codec demo_type) demo_value) = 24"
      "k_back (s_codec demo_type) demo_value = Rec [Some (Scalar [7, 0]), Some (Str [72, 105]), Some (Scalar [65]), Some (Lst [Str [33]])]"
    by (simp_all add: demo_defs)
  then show ?thesis
    using typed_value_roundtrip [of demo_type demo_value 2 "replicate 40 0"] by auto
qed

text \<open>Reading a record that was written gives in each field what was in it, a
  null only where the field was null and has no default value.\<close>

theorem typed_record_fields:
  assumes "k_fits (s_codec (S_complex fi tn fs)) (Rec ds)" "f \<in> set fs"
  shows "\<exists>ds'. k_back (s_codec (S_complex fi tn fs)) (Rec ds) = Rec ds' \<and> length ds' = length ds
    \<and> ds' ! fi_index (s_info f) = (case ds ! fi_index (s_info f) of Some v \<Rightarrow> Some (k_back (s_codec f) v)
        | None \<Rightarrow> (case fi_default (s_info f) of None \<Rightarrow> None
            | Some df \<Rightarrow> (case get_default df of Inr x \<Rightarrow> Some (k_back (s_codec f) x) | Inl _ \<Rightarrow> None)))"
proof -
  let ?fcs = "map (\<lambda>f. (f, s_codec f)) fs"
  let ?ds = "fill ?fcs ds (replicate (length fs) None)"
  have a: "distinct (map (\<lambda>fc. f_idx (fst fc)) ?fcs)" "length ds = length fs" "f_idx f < length ds"
    using assms by (auto simp: struct_codec_def)
  have "?ds ! f_idx f = map_option (k_back (s_codec f)) (field_val f (ds ! f_idx f))"
    by (rule fill_nth [OF a(1)]) (use a assms(2) in auto)
  then show ?thesis
    using a(2) by (auto simp: struct_codec_def field_val_def split: option.splits sum.splits)
qed

theorem typed_record_fields_witness:
  "\<exists>ds'. k_back (s_codec demo_type) demo_value = Rec ds' \<and> length ds' = 4 \<and> ds' ! 2 = Some (Scalar [65])"
proof -
  have "k_fits (s_codec demo_type) demo_value"
    by (simp add: demo_defs)
  then show ?thesis
    using typed_record_fields [of "demo_info ''r'' 0" "''demo''" _ "[Some (Scalar [7, 0]), Some (Str [72, 105]), None, Some (Lst [Str [33]])]"
        "S_native ((demo_info ''n'' 2)\<lparr>fi_default := Some (Default TYPE_CHAR (Some (Scalar [65])))\<rparr>) TYPE_CHAR"]
    by (fastforce simp: demo_type_def demo_value_def demo_info_def native_k_back simp del: s_codec.simps(3))
qed

end
