(* ===== verification/TypeSchema.thy ===== *)
theory TypeSchema
  imports TypeRoundtrip
begin

section \<open>Schemas written to a buffer (types/includes/schema_def.h, type_helpers.h)\<close>

text \<open>
  A definition is written node by node and read back into new nodes. The fields of a record are an
  \<open>unordered_map\<close>: the list stands for its iteration order, and a record that was read lists its fields
  in the order in which they were inserted.
\<close>

subsection \<open>Writing a definition\<close>

fun field_type_num :: "stype \<Rightarrow> nat" where
  "field_type_num (S_native fi dt) = 1" | "field_type_num (S_string fi mx) = 2" | "field_type_num (S_complex fi tn fs) = 3"
| "field_type_num (S_list fi it inner) = 5" | "field_type_num (S_map fi kt vt k v) = 6"

datatype field_type = FT_NATIVE | FT_STRING | FT_COMPLEX | FT_LIST | FT_MAP

definition get_field_type :: "nat \<Rightarrow> exc + field_type" where
  "get_field_type i = (if i = 1 then Inr FT_NATIVE else if i = 2 then Inr FT_STRING else if i = 3 then Inr FT_COMPLEX
     else if i = 5 then Inr FT_LIST else if i = 6 then Inr FT_MAP else Inl Base_error)"

definition BIT_TYPE_CONSTRAINT :: nat where "BIT_TYPE_CONSTRAINT = 1"
definition BIT_TYPE_DEFAULT_VALUE :: nat where "BIT_TYPE_DEFAULT_VALUE = 2"

definition set_uint8_bit :: "nat \<Rightarrow> nat \<Rightarrow> nat" where
  "set_uint8_bit bits v = (bits OR push_bit v 1) mod 256"

definition check_uint8_bit :: "nat \<Rightarrow> nat \<Rightarrow> bool" where
  "check_uint8_bit bits v \<longleftrightarrow> odd (drop_bit v bits)"

definition info_bits :: "finfo \<Rightarrow> nat" where
  "info_bits fi =
     (let bits = (if fi_constraint fi \<noteq> None then set_uint8_bit 0 BIT_TYPE_CONSTRAINT else 0) in
      if fi_default fi \<noteq> None then set_uint8_bit bits BIT_TYPE_DEFAULT_VALUE else bits)"

definition write_name :: "nat \<Rightarrow> string \<Rightarrow> nat io" where
  "write_name off s = at_off off (write_8str (bytes_of s) (length s))"

definition base_write :: "stype \<Rightarrow> nat \<Rightarrow> nat io" where
  "base_write t off = (let fi = s_info t in
     c_bind (put_num 1 off (field_type_num t)) (\<lambda>_.
     c_bind (put_num 1 (off + 1) (type_num (s_datatype t))) (\<lambda>_.
     c_bind (put_num 1 (off + 2) (fi_index fi)) (\<lambda>_.
     c_bind (write_name (off + 3) (fi_name fi)) (\<lambda>n.
     c_bind (put_num 1 (off + 3 + n) (if fi_nullable fi then 1 else 0)) (\<lambda>_.
     c_bind (put_num 1 (off + 4 + n) (info_bits fi)) (\<lambda>_.
     c_bind (case fi_constraint fi of None \<Rightarrow> c_ret 0 | Some c \<Rightarrow> c_write c (off + (5 + n))) (\<lambda>c.
     c_bind (case fi_default fi of None \<Rightarrow> c_ret 0 | Some d \<Rightarrow> d_write d (off + (5 + n + c))) (\<lambda>d.
     c_ret (5 + n + c + d))))))))))"

fun write_nodes :: "(nat \<Rightarrow> nat io) list \<Rightarrow> nat \<Rightarrow> nat \<Rightarrow> nat io" where
  "write_nodes [] off sz = c_ret sz"
| "write_nodes (w # ws) off sz = c_bind (w (off + sz)) (\<lambda>r. write_nodes ws off (sz + r))"

fun s_write :: "stype \<Rightarrow> nat \<Rightarrow> nat io" where
  "s_write (S_native fi dt) off = base_write (S_native fi dt) off"
| "s_write (S_string fi mx) off = c_bind (base_write (S_string fi mx) off) (\<lambda>n.
     case mx of None \<Rightarrow> c_throw Mem_fault | Some x \<Rightarrow> c_bind (put_num 1 (off + n) x) (\<lambda>r. c_ret (n + r)))"
| "s_write (S_complex fi tn fs) off = c_bind (base_write (S_complex fi tn fs) off) (\<lambda>n.
     c_bind (put_num 1 (off + n) (length fs)) (\<lambda>r.
     c_bind (write_name (off + n + r) tn) (\<lambda>r'. write_nodes (map s_write fs) off (n + r + r'))))"
| "s_write (S_list fi it inner) off = c_bind (base_write (S_list fi it inner) off) (\<lambda>n.
     case inner of None \<Rightarrow> c_throw Mem_fault | Some t \<Rightarrow> c_bind (s_write t (off + n)) (\<lambda>r. c_ret (n + r)))"
| "s_write (S_map fi kt vt k v) off = c_bind (base_write (S_map fi kt vt k v) off) (\<lambda>n.
     case k of None \<Rightarrow> c_throw Mem_fault | Some k \<Rightarrow> c_bind (s_write k (off + n)) (\<lambda>r.
       case v of None \<Rightarrow> c_throw Mem_fault | Some v \<Rightarrow> c_bind (s_write v (off + (n + r))) (\<lambda>r'. c_ret (n + r + r'))))"

subsection \<open>Reading a definition\<close>

text \<open>\<open>__native_type::read\<close>: the size of a constraint or default value that the loaders report is checked.\<close>

definition read_name :: "nat \<Rightarrow> (nat \<times> string) io" where
  "read_name off = c_bind (at_off off read_8string) (\<lambda>(r, s). c_ret (r, case s of None \<Rightarrow> [] | Some bs \<Rightarrow> string_of bs))"

definition read_extra :: "nat \<Rightarrow> dtype \<Rightarrow> nat \<Rightarrow> nat \<Rightarrow> (nat \<times> tcons option \<times> tdefault option) io" where
  "read_extra off dt bits n =
     c_bind (if check_uint8_bit bits BIT_TYPE_CONSTRAINT
             then c_bind (cl_read (off + n) dt) (\<lambda>(c, sz). c_bind (c_check Postcondition (\<lambda>_. sz > 0)) (\<lambda>_. c_ret (n + sz, Some c)))
             else c_ret (n, None)) (\<lambda>(n, c).
     c_bind (if check_uint8_bit bits BIT_TYPE_DEFAULT_VALUE
             then c_bind (dl_read (off + n) dt) (\<lambda>(d, sz). c_bind (c_check Postcondition (\<lambda>_. sz > 0)) (\<lambda>_. c_ret (n + sz, Some d)))
             else c_ret (n, None)) (\<lambda>(n, d). c_ret (n, c, d)))"

definition base_read :: "nat \<Rightarrow> nat \<Rightarrow> (nat \<times> finfo \<times> dtype) io" where
  "base_read ftn off =
     c_bind (get_num 1 off) (\<lambda>ft.
     c_bind (c_check Postcondition (\<lambda>_. ft = ftn)) (\<lambda>_.
     c_bind (get_num 1 (off + 1)) (\<lambda>dn. let dt = parse_type_num dn in
     c_bind (c_check Postcondition (\<lambda>_. dt \<noteq> TYPE_UNKNOWN)) (\<lambda>_.
     c_bind (get_num 1 (off + 2)) (\<lambda>index.
     c_bind (read_name (off + 3)) (\<lambda>(n, name).
     c_bind (get_num 1 (off + 3 + n)) (\<lambda>nn.
     c_bind (get_num 1 (off + 4 + n)) (\<lambda>bits.
     c_bind (read_extra off dt bits (5 + n)) (\<lambda>(n, c, d).
     c_ret (n, \<lparr>fi_name = name, fi_index = index, fi_nullable = (nn \<noteq> 0), fi_constraint = c, fi_default = d\<rparr>, dt))))))))))"

text \<open>
  The node keeps the data type that was stored. Every class but the native one writes a fixed type; a
  buffer where another one is stored under such a class, which no writer produces, is \<open>Mem_fault\<close>.
\<close>

definition read_class :: "nat \<Rightarrow> dtype \<Rightarrow> nat \<Rightarrow> (nat \<times> finfo) io" where
  "read_class ftn dt off = c_bind (base_read ftn off) (\<lambda>(n, fi, dt'). if dt' = dt then c_ret (n, fi) else c_throw Mem_fault)"

definition read_native :: "nat \<Rightarrow> (nat \<times> stype) io" where
  "read_native off = c_bind (base_read 1 off) (\<lambda>(n, fi, dt). c_ret (n, S_native fi dt))"

definition read_string :: "nat \<Rightarrow> (nat \<times> stype) io" where
  "read_string off = c_bind (read_class 2 TYPE_STRING off) (\<lambda>(n, fi).
     c_bind (get_num 1 (off + n)) (\<lambda>mx. c_ret (n + 1, S_string fi (Some mx))))"

text \<open>
  \<open>read_inner_type\<close> and \<open>read_key_type\<close> look at the kind of the node at the offset, create an object of
  its class and let it read itself. \<open>rc\<close> is the \<open>read\<close> method of records.
\<close>

definition read_inner_type :: "(nat \<Rightarrow> (nat \<times> stype) io) \<Rightarrow> nat \<Rightarrow> (nat \<times> stype) io" where
  "read_inner_type rc off = c_bind (get_num 1 off) (\<lambda>ft. c_bind (lift_e (get_field_type ft)) (\<lambda>t.
     case t of FT_NATIVE \<Rightarrow> read_native off | FT_STRING \<Rightarrow> read_string off | FT_COMPLEX \<Rightarrow> rc off
       | _ \<Rightarrow> c_throw Base_error))"

definition read_key_type :: "nat \<Rightarrow> (nat \<times> stype) io" where
  "read_key_type off = c_bind (get_num 1 off) (\<lambda>ft. c_bind (lift_e (get_field_type ft)) (\<lambda>t.
     c_bind (case t of FT_NATIVE \<Rightarrow> read_native off | FT_STRING \<Rightarrow> read_string off | _ \<Rightarrow> c_throw Base_error) (\<lambda>(n, k).
     c_bind (c_check Postcondition (\<lambda>_. is_native (s_datatype k))) (\<lambda>_. c_ret (n, k)))))"

definition check_handler :: "stype \<Rightarrow> unit io" where
  "check_handler t = c_bind (lift_e (handler_of t RM_READ)) (\<lambda>_. c_bind (lift_e (handler_of t RM_WRITE)) (\<lambda>_. c_ret ()))"

definition read_list :: "(nat \<Rightarrow> (nat \<times> stype) io) \<Rightarrow> nat \<Rightarrow> (nat \<times> stype) io" where
  "read_list rc off = c_bind (read_class 5 TYPE_LIST off) (\<lambda>(n, fi).
     c_bind (read_inner_type rc (off + n)) (\<lambda>(r, inner).
     let t = S_list fi (s_datatype inner) (Some inner) in
     c_bind (check_handler t) (\<lambda>_. c_ret (n + r, t))))"

definition read_map :: "(nat \<Rightarrow> (nat \<times> stype) io) \<Rightarrow> nat \<Rightarrow> (nat \<times> stype) io" where
  "read_map rc off = c_bind (read_class 6 TYPE_MAP off) (\<lambda>(n, fi).
     c_bind (read_key_type (off + n)) (\<lambda>(r, key).
     c_bind (read_inner_type rc (off + (n + r))) (\<lambda>(r', val).
     let t = S_map fi (s_datatype key) (s_datatype val) (Some key) (Some val) in
     c_bind (check_handler t) (\<lambda>_. c_ret (n + r + r', t)))))"

text \<open>\<open>add_field\<close> of a complex type; a field whose index is taken is not inserted.\<close>

definition add_field :: "stype list \<Rightarrow> stype \<Rightarrow> exc + stype list" where
  "add_field fs t = (if fi_name (s_info t) = [] then Inl Empty_value
     else if \<not> length fs < 255 then Inl Precondition
     else if \<exists>f \<in> set fs. fi_index (s_info f) = fi_index (s_info t) then Inr fs
     else Inr (fs @ [t]))"

fun add_fields :: "stype list \<Rightarrow> stype list \<Rightarrow> exc + stype list" where
  "add_fields fs [] = Inr fs"
| "add_fields fs (t # ts) = e_bind (add_field fs t) (\<lambda>fs. add_fields fs ts)"

text \<open>The loader: \<open>count\<close> nodes one after the other.\<close>

definition load_node :: "(nat \<Rightarrow> (nat \<times> stype) io) \<Rightarrow> nat \<Rightarrow> (nat \<times> stype) io" where
  "load_node rc off = c_bind (get_num 1 off) (\<lambda>ft. c_bind (lift_e (get_field_type ft)) (\<lambda>type.
     case type of FT_LIST \<Rightarrow> read_list rc off | FT_MAP \<Rightarrow> read_map rc off | FT_COMPLEX \<Rightarrow> rc off
       | _ \<Rightarrow> read_inner_type rc off))"

fun load_nodes :: "(nat \<Rightarrow> (nat \<times> stype) io) \<Rightarrow> nat \<Rightarrow> nat \<Rightarrow> nat \<Rightarrow> (nat \<times> stype list) io" where
  "load_nodes rc 0 off r_size = c_ret (r_size, [])"
| "load_nodes rc (Suc n) off r_size =
     c_bind (load_node rc (off + r_size)) (\<lambda>(r, t).
     c_bind (load_nodes rc n off (r_size + r)) (\<lambda>(r_size, ts). c_ret (r_size, t # ts)))"

text \<open>
  A nested record starts at a later offset than the one it is in: as many levels as the buffer has
  bytes are enough.
\<close>

fun read_complex :: "nat \<Rightarrow> nat \<Rightarrow> (nat \<times> stype) io" where
  "read_complex 0 off = c_throw Mem_fault"
| "read_complex (Suc k) off =
     c_bind (read_class 3 TYPE_STRUCT off) (\<lambda>(n, fi).
     c_bind (get_num 1 (off + n)) (\<lambda>count.
     c_bind (at_off (off + n + 1) read_8str) (\<lambda>(r, cb).
     case cb of None \<Rightarrow> c_throw Null_pointer
     | Some p \<Rightarrow> c_bind (cstr_at p) (\<lambda>tn.
         c_bind (load_nodes (read_complex k) count (off + (n + 1 + r)) 0) (\<lambda>(sz, types).
         c_bind (lift_e (add_fields [] types)) (\<lambda>fs.
         c_ret (n + 1 + r + sz, S_complex fi (string_of tn) fs)))))))"

definition read_schema :: "nat \<Rightarrow> (nat \<times> stype) io" where
  "read_schema off m = read_complex (length m) off m"

end
