(* ===== verification/TypeStore.thy ===== *)
theory TypeStore
  imports TypeSchema
begin

section \<open>Stored definitions: bytes of names, constraints and default values\<close>

text \<open>
  \<open>puts d w e\<close>: after \<open>d\<close> bytes of a node, \<open>w\<close> writes \<open>e\<close> behind them and returns the size of both.
  \<open>takes d r e v\<close>: behind \<open>d\<close> bytes, where the bytes are \<open>e\<close>, \<open>r\<close> returns \<open>v\<close>. Both compose: a writer and
  a reader of parts is put together from those of the parts.
\<close>

subsection \<open>Writing and reading in sequence\<close>

definition puts :: "nat \<Rightarrow> (nat \<Rightarrow> nat io) \<Rightarrow> u8 list \<Rightarrow> bool" where
  "puts d w e \<longleftrightarrow> (\<forall>pre rest off. length pre = off + d \<and> length e < length rest \<longrightarrow>
     (\<exists>post. w off (pre @ rest) = (Inr (d + length e), pre @ e @ post) \<and> length post = length rest - length e))"

definition takes :: "nat \<Rightarrow> (nat \<Rightarrow> 'a io) \<Rightarrow> u8 list \<Rightarrow> 'a \<Rightarrow> bool" where
  "takes d r e v \<longleftrightarrow> (\<forall>pre post off. length pre = off + d \<longrightarrow> r off (pre @ e @ post) = (Inr v, pre @ e @ post))"

lemma puts_ret: "n = d \<Longrightarrow> puts d (\<lambda>off. c_ret n) []"
  by (auto simp: puts_def c_ret_def)

lemma takes_ret: "takes d (\<lambda>off. c_ret v) [] v"
  by (simp add: takes_def c_ret_def)

lemma puts_bind:
  assumes w: "\<And>pre rest off. length pre = off + d \<Longrightarrow> length e < length rest \<Longrightarrow>
      \<exists>post. w off (pre @ rest) = (Inr r, pre @ e @ post) \<and> length post = length rest - length e"
    and q: "puts (d + length e) (q r) e'"
  shows "puts d (\<lambda>off. c_bind (w off) (\<lambda>n. q n off)) (e @ e')"
  unfolding puts_def
proof (intro allI impI)
  fix pre rest :: mem and off
  assume a: "length pre = off + d \<and> length (e @ e') < length rest"
  obtain post where p: "w off (pre @ rest) = (Inr r, pre @ e @ post)" "length post = length rest - length e"
    using w [of pre off rest] a by auto
  have "length (pre @ e) = off + (d + length e) \<and> length e' < length post"
    using a p(2) by auto
  then obtain post' where "q r off ((pre @ e) @ post) = (Inr (d + length e + length e'), (pre @ e) @ e' @ post')"
    "length post' = length post - length e'"
    using q unfolding puts_def by blast
  then show "\<exists>post. c_bind (w off) (\<lambda>n. q n off) (pre @ rest) = (Inr (d + length (e @ e')), pre @ (e @ e') @ post)
      \<and> length post = length rest - length (e @ e')"
    using p by (auto simp: c_bind_def)
qed

lemma takes_bind:
  assumes r: "\<And>pre post off. length pre = off + d \<Longrightarrow> r off (pre @ e @ post) = (Inr v, pre @ e @ post)"
    and q: "takes (d + length e) (q v) e' v'"
  shows "takes d (\<lambda>off. c_bind (r off) (\<lambda>n. q n off)) (e @ e') v'"
  unfolding takes_def
proof (intro allI impI)
  fix pre post :: mem and off
  assume a: "length pre = off + d"
  have "q v off ((pre @ e) @ e' @ post) = (Inr v', (pre @ e) @ e' @ post)"
    using q a unfolding takes_def by (metis length_append add.assoc)
  then show "c_bind (r off) (\<lambda>n. q n off) (pre @ (e @ e') @ post) = (Inr v', pre @ (e @ e') @ post)"
    using r [OF a, of "e' @ post"] by (simp add: c_bind_def)
qed

lemma puts0D: "puts 0 w e \<Longrightarrow> length pre = off \<Longrightarrow> length e < length rest \<Longrightarrow>
    \<exists>post. w off (pre @ rest) = (Inr (length e), pre @ e @ post) \<and> length post = length rest - length e"
  unfolding puts_def by (metis add.right_neutral add_0)

lemma takes0D: "takes 0 r e v \<Longrightarrow> length pre = off \<Longrightarrow> r off (pre @ e @ post) = (Inr v, pre @ e @ post)"
  unfolding takes_def by auto

lemma puts_sub:
  assumes "puts 0 w e" "\<And>off. o' off = off + d" "puts (d + length e) (q (length e)) e'"
  shows "puts d (\<lambda>off. c_bind (w (o' off)) (\<lambda>n. q n off)) (e @ e')"
  using puts0D [OF assms(1)] by (intro puts_bind [where r = "length e" and q = q, OF _ assms(3)]) (simp add: assms(2))

lemma takesD: "takes d r e v \<Longrightarrow> length pre = off + d \<Longrightarrow> r off (pre @ e @ post) = (Inr v, pre @ e @ post)"
  unfolding takes_def by simp

lemma takes_then:
  assumes "takes d r e v" "\<And>off m. q v off m = (Inr x, m)"
  shows "takes d (\<lambda>off. c_bind (r off) (\<lambda>v. q v off)) e x"
  using assms unfolding takes_def by (simp add: c_bind_def)

lemma takes_sub:
  assumes "takes 0 r e v" "\<And>off. o' off = off + d" "takes (d + length e) (q v) e' v'"
  shows "takes d (\<lambda>off. c_bind (r (o' off)) (\<lambda>x. q x off)) (e @ e') v'"
  using takes0D [OF assms(1)] by (intro takes_bind [where v = v and q = q, OF _ assms(3)]) (simp add: assms(2))

lemma takes_num:
  assumes "\<And>off. o' off = off + d" "v < 256 ^ k" "takes (d + k) (q v) e' v'"
  shows "takes d (\<lambda>off. c_bind (get_num k (o' off)) (\<lambda>n. q n off)) (nat_bytes k v @ e') v'"
  by (rule takes_bind [where v = v]) (use assms in \<open>auto simp: get_num_run\<close>)

lemma takes_check: "b \<Longrightarrow> takes d r e v \<Longrightarrow> takes d (\<lambda>off. c_bind (c_check x (\<lambda>_. b)) (\<lambda>_. r off)) e v"
  by (simp add: takes_def c_check_def c_bind_def)

text \<open>A look at the first byte, without moving.\<close>

lemma takes_peek:
  assumes "v < 256" "e = nat_bytes 1 v @ e'" "takes 0 (q v) e x"
  shows "takes 0 (\<lambda>off. c_bind (get_num 1 off) (\<lambda>n. q n off)) e x"
  unfolding takes_def
proof (intro allI impI)
  fix pre post :: mem and off
  assume "length pre = off + 0"
  then have "get_num 1 off (pre @ e @ post) = (Inr v, pre @ e @ post)"
    using get_num_run [of off pre v 1 "e' @ post"] assms(1,2) by simp
  then show "c_bind (get_num 1 off) (\<lambda>n. q n off) (pre @ e @ post) = (Inr x, pre @ e @ post)"
    using takes0D [OF assms(3), of pre off post] \<open>length pre = off + 0\<close> by (simp add: c_bind_def)
qed

lemma takes_lift: "takes d (q v) e x \<Longrightarrow> takes d (\<lambda>off. c_bind (lift_e (Inr v)) (\<lambda>n. q n off)) e x"
  by (simp add: takes_def c_bind_def lift_e_def)

lemma puts_lift: "puts d (q v) e \<Longrightarrow> puts d (\<lambda>off. c_bind (lift_e (Inr v)) (\<lambda>n. q n off)) e"
  by (simp add: puts_def c_bind_def lift_e_def)

lemma puts_put_num: "puts 0 (\<lambda>off. put_num k off v) (nat_bytes k v)"
  by (auto simp: puts_def put_num_run)

text \<open>Names.\<close>

lemma unat_of_char: "unat (of_char c :: u8) = of_char c"
proof -
  have "(of_char c :: u8) = of_nat (of_char c)"
    by (simp add: of_nat_of_char)
  moreover have "(of_char c :: nat) < 256"
    by (metis of_char_mod_256 mod_less_divisor zero_less_numeral)
  ultimately show ?thesis
    by (simp add: unat_of_nat)
qed

lemma string_of_bytes_of: "string_of (bytes_of s) = s"
  by (simp add: string_of_def bytes_of_def unat_of_char o_def)

lemma write_name_run:
  assumes "str_fits 1 (bytes_of s)" "length s + 2 < length rest" "off = length pre"
  shows "\<exists>post. write_name off s (pre @ rest) = (Inr (length s + 2), pre @ str_bytes 1 (bytes_of s) @ post)
    \<and> length post = length rest - (length s + 2)"
proof -
  have l: "length (bytes_of s) = length s"
    by (simp add: bytes_of_def)
  obtain post where "bu_write_str 1 False (bytes_of s) (length s) (pre @ rest, off) =
      (Inr (1 + length s + 1), (take off (pre @ rest) @ str_bytes 1 (bytes_of s) @ post, off + 1 + length s + 1))"
    "length post = length (pre @ rest) - (off + 1 + length s + 1)"
    using bu_write_str_run [OF assms(1), of off "pre @ rest" False] assms(2,3) by (auto simp: l)
  then show ?thesis
    using assms(3) by (simp add: write_name_def at_off_def write_8str_def)
qed

lemma read_name_run:
  assumes "str_fits 1 (bytes_of s)" "off = length pre"
  shows "read_name off (pre @ str_bytes 1 (bytes_of s) @ post) = (Inr (length s + 2, s), pre @ str_bytes 1 (bytes_of s) @ post)"
proof -
  have l: "length (bytes_of s) = length s"
    by (simp add: bytes_of_def)
  show ?thesis
    using bu_read_str_run [OF assms(1), of pre off post] assms(2)
    by (simp add: read_name_def at_off_def read_8string_def c_bind_def c_ret_def l string_of_bytes_of)
qed

lemma length_name_bytes: "length (str_bytes 1 (bytes_of s)) = length s + 2"
  by (simp add: length_str_bytes bytes_of_def)

lemma puts_write_name: "str_fits 1 (bytes_of s) \<Longrightarrow> puts 0 (\<lambda>off. write_name off s) (str_bytes 1 (bytes_of s))"
  unfolding puts_def using write_name_run [of s] by (simp add: length_name_bytes del: One_nat_def)

lemma takes_read_name: "str_fits 1 (bytes_of s) \<Longrightarrow> takes 0 read_name (str_bytes 1 (bytes_of s)) (length s + 2, s)"
  unfolding takes_def by (simp add: read_name_run del: One_nat_def)

subsection \<open>Values\<close>

text \<open>
  The values of a type that constraints and defaults can hold: the bytes of a number, or a string
  without NUL that its size field can describe.
\<close>

definition value_ok :: "dtype \<Rightarrow> tval \<Rightarrow> bool" where
  "value_ok dt x = (if dt = TYPE_STRING then (case x of Obj s \<Rightarrow> str_fits 1 s \<and> 0 \<notin> set s | _ \<Rightarrow> False)
     else is_native dt \<and> (case x of Scalar bs \<Rightarrow> length bs = native_size dt | _ \<Rightarrow> False))"

fun value_bytes :: "tval \<Rightarrow> u8 list" where
  "value_bytes (Scalar bs) = bs" | "value_bytes (Obj s) = str_bytes 1 s" | "value_bytes (Str s) = str_bytes 1 s"
| "value_bytes _ = []"

lemma native_scalar:
  assumes "is_native dt" "dt \<noteq> TYPE_STRING"
  obtains h where "native_handler dt = Inr h" "is_scalar_handler (native_size dt) h"
proof -
  obtain h where h: "native_handler dt = Inr h"
    using native_handler_ok assms(1) by blast
  then have "create_type_handler dt = Inr h"
    using assms(1) by (simp add: native_handler_def)
  then have "is_scalar_handler (native_size dt) h"
    by (rule is_scalar_create) (use assms in auto)
  then show ?thesis
    using h that by blast
qed

lemma native_string: "native_handler TYPE_STRING = Inr dt_string"
  by (simp add: native_handler_def)

lemma str_fits_1: "str_fits 1 s \<Longrightarrow> length s < 254"
  by (simp add: str_fits_def)

lemma string_write_run:
  assumes "str_fits 1 s" "length s + 2 < length rest" "off = length pre"
  shows "\<exists>post. h_write dt_string (Some (Str s)) off ULONG_MAX (pre @ rest) = (Inr (length s + 2), pre @ str_bytes 1 s @ post)
    \<and> length post = length rest - (length s + 2)"
  using str_write_run [of 1 s ULONG_MAX rest off pre "write_8str" False] assms str_fits_1 [OF assms(1)]
  by (simp add: dt_string_def ULONG_MAX_def write_8str_def)

lemma string_read_run:
  assumes "str_fits 1 s" "0 \<notin> set s" "off = length pre"
  shows "h_read dt_string off mx (pre @ str_bytes 1 s @ post) = (Inr (length s + 2, Some (Str s)), pre @ str_bytes 1 s @ post)"
  using str_read_run [OF assms] by (simp add: dt_string_def read_8str_def)

lemma native_size_le: "native_size dt \<le> ULONG_MAX"
  by (cases dt) (simp_all add: ULONG_MAX_def)

lemma c_str_id: "0 \<notin> set s \<Longrightarrow> c_str s = s"
  unfolding c_str_def by (rule takeWhile_eq_all_conv [THEN iffD2]) auto

lemma puts_value:
  assumes "value_ok dt x"
  shows "puts 0 (\<lambda>off. write_value dt (Some x) off) (value_bytes x)"
proof (cases "dt = TYPE_STRING")
  case True
  then obtain s where s: "x = Obj s" "str_fits 1 s" "0 \<notin> set s"
    using assms by (auto simp: value_ok_def split: tval.splits)
  then show ?thesis
    using string_write_run [OF s(2)] True
    by (simp add: puts_def write_value_def native_string lift_e_def c_bind_def c_str_id length_str_bytes)
next
  case False
  then obtain bs h where "x = Scalar bs" "length bs = native_size dt" "native_handler dt = Inr h" "is_scalar_handler (native_size dt) h"
    using assms native_scalar [of dt] by (auto simp: value_ok_def split: tval.splits)
  then show ?thesis
    using native_size_le [of dt]
    by (simp add: puts_def write_value_def lift_e_def c_bind_def scalar_write_run)
qed

lemma takes_value:
  assumes "value_ok dt x"
  shows "takes 0 (read_value dt) (value_bytes x) (length (value_bytes x), x)"
proof (cases "dt = TYPE_STRING")
  case True
  then obtain s where s: "x = Obj s" "str_fits 1 s" "0 \<notin> set s"
    using assms by (auto simp: value_ok_def split: tval.splits)
  then show ?thesis
    using string_read_run [OF s(2,3)] True
    by (simp add: takes_def read_value_def native_string lift_e_def c_bind_def c_ret_def length_str_bytes)
next
  case False
  then obtain bs h where "x = Scalar bs" "length bs = native_size dt" "native_handler dt = Inr h" "is_scalar_handler (native_size dt) h"
    using assms native_scalar [of dt] by (auto simp: value_ok_def split: tval.splits)
  then show ?thesis
    using native_size_le [of dt]
    by (simp add: takes_def read_value_def lift_e_def c_bind_def c_ret_def scalar_read_run)
qed

subsection \<open>Constraints\<close>

text \<open>
  A constraint that can be written on a field of type \<open>dt\<close> and found again by the loader: it is of the
  field's type, has its values, and is not \<open>GT\<close>, for which the loader has no branch.
\<close>

fun cons_ok :: "dtype \<Rightarrow> tcons \<Rightarrow> bool" where
  "cons_ok dt (C_notnull nt) = True"
| "cons_ok dt (C_regex nt p) = (case p of None \<Rightarrow> False | Some s \<Rightarrow> value_ok TYPE_STRING (Obj (bytes_of s)))"
| "cons_ok dt (C_range nt dt' mn mx) = (dt' = dt \<and> dt \<in> set basic_types
     \<and> (case (mn, mx) of (Some a, Some b) \<Rightarrow> value_ok dt a \<and> value_ok dt b | _ \<Rightarrow> False))"
| "cons_ok dt (C_oper nt oper dt' x) = (dt' = dt \<and> dt \<in> set basic_types \<and> oper \<noteq> Op_EQ \<and> oper \<noteq> Op_GT
     \<and> (case x of None \<Rightarrow> False | Some a \<Rightarrow> value_ok dt a))"
| "cons_ok dt (C_value nt dt' xs) = (dt' = dt \<and> dt \<in> set basic_types \<and> length xs < 65536 \<and> (\<forall>x \<in> set xs. value_ok dt x))"

fun cons_code :: "tcons \<Rightarrow> nat" where
  "cons_code (C_notnull nt) = 0" | "cons_code (C_range nt dt mn mx) = 1" | "cons_code (C_value nt dt xs) = 2"
| "cons_code (C_regex nt p) = 3"
| "cons_code (C_oper nt oper dt x) = (case oper of Op_GT \<Rightarrow> 4 | Op_LT \<Rightarrow> 5 | Op_GTEQ \<Rightarrow> 6 | Op_LTEQ \<Rightarrow> 7 | Op_EQ \<Rightarrow> 0)"

text \<open>The object of its class before it reads.\<close>

fun blank_of :: "tcons \<Rightarrow> tcons" where
  "blank_of (C_notnull nt) = C_notnull False" | "blank_of (C_regex nt p) = C_regex False None"
| "blank_of (C_range nt dt mn mx) = C_range False dt None None"
| "blank_of (C_oper nt oper dt x) = C_oper False oper dt None"
| "blank_of (C_value nt dt xs) = C_value False dt []"

definition opt_bytes :: "tval option \<Rightarrow> u8 list" where
  "opt_bytes x = (case x of None \<Rightarrow> [] | Some x \<Rightarrow> value_bytes x)"

fun cons_body :: "tcons \<Rightarrow> u8 list" where
  "cons_body (C_notnull nt) = []"
| "cons_body (C_regex nt p) = opt_bytes (map_option (Obj \<circ> bytes_of) p)"
| "cons_body (C_range nt dt mn mx) = opt_bytes mn @ opt_bytes mx"
| "cons_body (C_oper nt oper dt x) = opt_bytes x"
| "cons_body (C_value nt dt xs) = nat_bytes 2 (length xs) @ concat (map value_bytes xs)"

definition cons_bytes :: "tcons \<Rightarrow> u8 list" where
  "cons_bytes c = nat_bytes 1 (cons_code c) @ cons_body c"

lemma puts_values: "\<forall>x \<in> set xs. value_ok dt x \<Longrightarrow> puts d (\<lambda>off. write_values dt xs off d) (concat (map value_bytes xs))"
proof (induction xs arbitrary: d)
  case Nil
  show ?case by (simp add: puts_ret)
next
  case (Cons x xs)
  have "puts d (\<lambda>off. c_bind (write_value dt (Some x) (off + d)) (\<lambda>r. write_values dt xs off (d + r)))
      (value_bytes x @ concat (map value_bytes xs))"
    by (rule puts_sub [OF puts_value]) (use Cons in auto)
  then show ?case by simp
qed

lemma takes_values:
  "\<forall>x \<in> set xs. value_ok dt x \<Longrightarrow>
   takes d (\<lambda>off. read_values dt (length xs) off d) (concat (map value_bytes xs)) (d + length (concat (map value_bytes xs)), xs)"
proof (induction xs arbitrary: d)
  case Nil
  show ?case by (simp add: takes_ret)
next
  case (Cons x xs)
  let ?vs = "concat (map value_bytes xs)" and ?n = "d + length (value_bytes x)"
  have "takes (d + length (value_bytes x)) (\<lambda>off. c_bind (read_values dt (length xs) off (d + length (value_bytes x)))
      (\<lambda>(r_size, vs). c_ret (r_size, x # vs))) ?vs (?n + length ?vs, x # xs)"
    by (rule takes_then [OF Cons.IH]) (use Cons.prems in \<open>auto simp: c_ret_def\<close>)
  then have "takes d (\<lambda>off. c_bind (read_value dt (off + d)) (\<lambda>(r, v). c_bind (read_values dt (length xs) off (d + r))
      (\<lambda>(r_size, vs). c_ret (r_size, v # vs)))) (value_bytes x @ ?vs) (?n + length ?vs, x # xs)"
    by (intro takes_sub [OF takes_value]) (use Cons.prems in auto)
  then show ?case by (simp add: add.assoc)
qed

text \<open>The byte of the class, then the values.\<close>

lemma puts_code:
  "puts 1 (q 1) e \<Longrightarrow> puts 0 (\<lambda>off. c_bind (put_num 1 off v) (\<lambda>w. q w off)) (nat_bytes 1 v @ e)"
  by (rule puts_sub [OF puts_put_num]) simp_all

lemma puts_one: "puts 0 w e \<Longrightarrow> puts d (\<lambda>off. c_bind (w (off + d)) (\<lambda>r. c_ret (d + r))) e"
  using puts_sub [of w e "\<lambda>off. off + d" d "\<lambda>n off. c_ret (d + n)" "[]"] by (simp add: puts_ret)

lemma puts_last:
  assumes "puts 0 w e" "\<And>off. o' off = off + d" "\<And>off. q (length e) off = c_ret (d + length e)"
  shows "puts d (\<lambda>off. c_bind (w (o' off)) (\<lambda>n. q n off)) e"
proof -
  have "q (length e) = (\<lambda>off. c_ret (d + length e))"
    using assms(3) by (rule ext)
  then show ?thesis
    using puts_sub [OF assms(1,2), of q "[]"] by (simp add: puts_ret)
qed

lemmas store_unfold = cons_bytes_def c_write.simps c_read.simps c_write_defs c_read_defs cons_code.simps get_number_value.simps cons_body.simps
  opt_bytes_def option.map option.case o_def blank_of.simps set_not.simps

lemma constraint_writes: "cons_ok dt c \<Longrightarrow> puts 0 (c_write c) (cons_bytes c)"
proof (cases c)
  case (C_notnull nt)
  then show ?thesis
    unfolding C_notnull store_unfold using puts_put_num [of 1 0] by simp
next
  case (C_regex nt p)
  assume "cons_ok dt c"
  then obtain s where s: "p = Some s" "value_ok TYPE_STRING (Obj (bytes_of s))"
    using C_regex by (auto split: option.splits)
  show ?thesis
    unfolding C_regex s(1) store_unfold by (rule puts_code, rule puts_one, rule puts_value [OF s(2)])
next
  case (C_range nt dt' mn mx)
  assume "cons_ok dt c"
  then obtain a b where ab: "mn = Some a" "mx = Some b" "value_ok dt' a" "value_ok dt' b"
    using C_range by (auto split: option.splits)
  show ?thesis
    unfolding C_range ab(1,2) store_unfold
    by (rule puts_code, rule puts_sub [OF puts_value [OF ab(3)]], simp, rule puts_last [OF puts_value [OF ab(4)]]) simp_all
next
  case (C_oper nt oper dt' x)
  assume "cons_ok dt c"
  then obtain a where a: "x = Some a" "value_ok dt' a" "oper \<noteq> Op_EQ"
    using C_oper by (auto split: option.splits)
  obtain t where t: "get_constraint_type oper = Inr t" "cons_code c = get_number_value t"
    using a(3) C_oper by (cases oper) auto
  show ?thesis
    unfolding C_oper a(1) c_write.simps oper_write_def cons_bytes_def t(1) t(2) [unfolded C_oper a(1)] cons_body.simps opt_bytes_def option.case
    by (rule puts_lift, rule puts_code, rule puts_one, rule puts_value [OF a(2)])
next
  case (C_value nt dt' xs)
  assume "cons_ok dt c"
  then have "\<forall>x \<in> set xs. value_ok dt' x"
    using C_value by auto
  then have "puts (1 + length (nat_bytes 2 (length xs))) (\<lambda>off. write_values dt' xs off (1 + length (nat_bytes 2 (length xs))))
      (concat (map value_bytes xs))"
    by (rule puts_values)
  then show ?thesis
    unfolding C_value store_unfold by (intro puts_code puts_sub [OF puts_put_num, where q = "\<lambda>r off. write_values dt' xs off (1 + r)"]) simp_all
qed

text \<open>What the loader makes of it: the flag is lost.\<close>

lemma takes_num_at:
  assumes "v < 256 ^ k" "\<And>off. o' off = off + d"
  shows "takes d (\<lambda>off. get_num k (o' off)) (nat_bytes k v) v"
  using assms by (auto simp: takes_def get_num_run)

lemma takes_expect:
  "takes 1 (q 1) e v \<Longrightarrow> takes 0 (\<lambda>off. c_bind (expect_type off c) (\<lambda>r. q r off)) (nat_bytes 1 (get_number_value c) @ e) v"
proof (rule takes_sub [where o' = "\<lambda>off. off"])
  have "get_number_value c < 256"
    by (cases c) auto
  then show "takes 0 (\<lambda>off. expect_type off c) (nat_bytes 1 (get_number_value c)) 1"
    by (auto simp: takes_def expect_type_def c_bind_def c_check_def c_ret_def get_num_run simp del: nat_bytes.simps)
qed simp_all

lemma takes_end: "v' = v \<Longrightarrow> takes d (\<lambda>off. c_ret v') [] v"
  by (simp add: takes_ret)

lemma takes_read_value:
  assumes "value_ok dt x" "\<And>off. o' off = off + d" "takes (d + length (value_bytes x)) (q (length (value_bytes x), x)) e v"
  shows "takes d (\<lambda>off. c_bind (read_value dt (o' off)) (\<lambda>r. q r off)) (value_bytes x @ e) v"
  by (rule takes_sub [where o' = o' and q = q]) (use assms takes_value in auto)

lemma constraint_reads:
  assumes "cons_ok dt c"
  shows "takes 0 (c_read (blank_of c)) (cons_bytes c) (length (cons_bytes c), set_not False c)"
proof (cases c)
  case (C_notnull nt)
  have "takes 0 (\<lambda>off. c_bind (expect_type off CONSTRAINT_NOT_NULLABLE) (\<lambda>r. c_ret (r, C_notnull False)))
      (nat_bytes 1 (get_number_value CONSTRAINT_NOT_NULLABLE) @ []) (1, C_notnull False)"
    by (rule takes_expect, rule takes_ret)
  then show ?thesis
    unfolding C_notnull store_unfold by simp
next
  case (C_regex nt p)
  then obtain s where s: "p = Some s" "value_ok TYPE_STRING (Obj (bytes_of s))"
    using assms by (auto split: option.splits)
  have "takes 0 (\<lambda>off. c_bind (expect_type off CONSTRAINT_REGEX) (\<lambda>r. c_bind (read_value TYPE_STRING (off + r))
      (\<lambda>(n, v). case v of Obj s \<Rightarrow> c_ret (r + n, C_regex False (Some (string_of s))) | _ \<Rightarrow> c_throw Mem_fault)))
    (nat_bytes 1 (get_number_value CONSTRAINT_REGEX) @ value_bytes (Obj (bytes_of s)) @ [])
    (1 + length (value_bytes (Obj (bytes_of s))), C_regex False (Some s))"
    by (rule takes_expect, rule takes_read_value [OF s(2)]) (simp_all add: takes_ret string_of_bytes_of)
  then show ?thesis
    unfolding C_regex s(1) store_unfold by simp
next
  case (C_range nt dt' mn mx)
  then obtain a b where ab: "mn = Some a" "mx = Some b" "value_ok dt' a" "value_ok dt' b"
    using assms by (auto split: option.splits)
  have "takes 0 (\<lambda>off. c_bind (expect_type off CONSTRAINT_RANGE) (\<lambda>r. c_bind (read_value dt' (off + r)) (\<lambda>(n, a).
      c_bind (read_value dt' (off + (r + n))) (\<lambda>(n', b). c_ret (r + n + n', C_range False dt' (Some a) (Some b))))))
    (nat_bytes 1 (get_number_value CONSTRAINT_RANGE) @ value_bytes a @ value_bytes b @ [])
    (1 + length (value_bytes a) + length (value_bytes b), C_range False dt' mn mx)"
    by (rule takes_expect, rule takes_read_value [OF ab(3)], simp, simp only: prod.case, rule takes_read_value [OF ab(4)])
      (simp_all add: takes_ret ab)
  then show ?thesis
    unfolding C_range ab(1,2) store_unfold by (simp add: add.assoc)
next
  case (C_oper nt oper dt' x)
  then obtain a where a: "x = Some a" "value_ok dt' a" "oper \<noteq> Op_EQ"
    using assms by (auto split: option.splits)
  obtain t where t: "get_constraint_type oper = Inr t" "cons_code c = get_number_value t"
    using a(3) C_oper by (cases oper) auto
  have "takes 0 (\<lambda>off. c_bind (lift_e (Inr t)) (\<lambda>t. c_bind (expect_type off t) (\<lambda>r. c_bind (read_value dt' (off + r))
      (\<lambda>(n, a). c_ret (r + n, C_oper False oper dt' (Some a)))))) (nat_bytes 1 (get_number_value t) @ value_bytes a @ [])
    (1 + length (value_bytes a), C_oper False oper dt' x)"
    by (rule takes_lift, rule takes_expect, rule takes_read_value [OF a(2)]) (simp_all add: takes_ret a)
  then show ?thesis
    unfolding C_oper a(1) cons_bytes_def t(2) [unfolded C_oper a(1)] c_read.simps oper_read_def blank_of.simps cons_body.simps opt_bytes_def t(1) by simp
next
  case (C_value nt dt' xs)
  then have xs: "\<forall>x \<in> set xs. value_ok dt' x" "length xs < 256 ^ 2"
    using assms by auto
  let ?vs = "concat (map value_bytes xs)"
  have "takes (1 + 2) (\<lambda>off. c_bind (read_values dt' (length xs) off (1 + 2)) (\<lambda>(r_size, vs). c_ret (r_size, C_value False dt' ([] @ vs))))
      ?vs (1 + 2 + length ?vs, C_value False dt' xs)"
    by (rule takes_then [OF takes_values [OF xs(1)]]) (simp add: c_ret_def)
  then have "takes 0 (\<lambda>off. c_bind (expect_type off CONSTRAINT_IN) (\<lambda>r. c_bind (get_num 2 (off + r)) (\<lambda>count.
      c_bind (read_values dt' count off (r + 2)) (\<lambda>(r_size, vs). c_ret (r_size, C_value False dt' ([] @ vs))))))
    (nat_bytes 1 (get_number_value CONSTRAINT_IN) @ nat_bytes 2 (length xs) @ ?vs) (1 + 2 + length ?vs, C_value False dt' xs)"
    by (intro takes_expect takes_num [OF _ xs(2)]) simp_all
  then show ?thesis
    unfolding C_value store_unfold by simp
qed

lemma takes_new:
  assumes "takes 0 (c_read c0) e (n, c)"
  shows "takes 0 (\<lambda>off. read_new off (Inr c0)) e (c, n)"
  unfolding read_new_def by (rule takes_lift, rule takes_then [OF assms]) (simp add: c_ret_def)

lemma constraint_loads:
  assumes "cons_ok dt c"
  shows "takes 0 (\<lambda>off. cl_read off dt) (cons_bytes c) (set_not False c, length (cons_bytes c))"
  unfolding cl_read_def
proof (rule takes_peek)
  show "cons_code c < 256"
    by (cases c) (auto split: c_oper.splits)
  show "cons_bytes c = nat_bytes 1 (cons_code c) @ cons_body c"
    by (rule cons_bytes_def)
  note r = takes_new [OF constraint_reads [OF assms]]
  show "takes 0 (\<lambda>off. if cons_code c = get_number_value CONSTRAINT_IN then cl_read_value off dt
     else if cons_code c = get_number_value CONSTRAINT_RANGE then cl_read_range off dt
     else if cons_code c = get_number_value CONSTRAINT_REGEX then read_regex off
     else if cons_code c = get_number_value CONSTRAINT_NOT_NULLABLE then read_nullable off
     else if cons_code c = get_number_value CONSTRAINT_LTEQ then read_operator off dt Op_LTEQ
     else if cons_code c = get_number_value CONSTRAINT_LT then read_operator off dt Op_LT
     else if cons_code c = get_number_value CONSTRAINT_GTEQ then read_operator off dt Op_GTEQ
     else if cons_code c = get_number_value CONSTRAINT_LT then read_operator off dt Op_LT
     else c_throw Null_pointer) (cons_bytes c) (set_not False c, length (cons_bytes c))"
  proof (cases c)
    case (C_oper nt oper dt' x)
    then show ?thesis
      using r assms by (cases oper)
        (auto simp: read_operator_gt_def read_operator_gteq_def read_operator_lt_def read_operator_lteq_def of_basic_def)
  qed (use r assms in \<open>auto simp: cl_read_value_def cl_read_range_def read_regex_def read_nullable_def of_basic_def\<close>)
qed

subsection \<open>Default values\<close>

fun dflt_ok :: "dtype \<Rightarrow> tdefault \<Rightarrow> bool" where
  "dflt_ok dt (Default dt' v) = (dt' = dt \<and> dt \<in> set (TYPE_BOOL # basic_types) \<and> (case v of
     Some (Str s) \<Rightarrow> value_ok dt (Obj s) | Some (Scalar bs) \<Rightarrow> value_ok dt (Scalar bs) | _ \<Rightarrow> False))"

fun dflt_bytes :: "tdefault \<Rightarrow> u8 list" where
  "dflt_bytes (Default dt v) = opt_bytes v"

lemma dflt_cases:
  assumes "dflt_ok dt d"
  obtains s where "dt = TYPE_STRING" "d = Default TYPE_STRING (Some (Str s))" "str_fits 1 s" "0 \<notin> set s"
  | bs h where "d = Default dt (Some (Scalar bs))" "length bs = native_size dt" "native_handler dt = Inr h"
      "is_scalar_handler (native_size dt) h" "dt \<noteq> TYPE_STRING"
proof (cases "dt = TYPE_STRING")
  case True
  then show ?thesis
    using assms that(1) by (cases d) (auto simp: value_ok_def split: option.splits tval.splits)
next
  case False
  have "is_native dt"
    using assms by (cases d) (auto simp: basic_types_def)
  then obtain h where "native_handler dt = Inr h" "is_scalar_handler (native_size dt) h"
    using native_scalar False by blast
  then show ?thesis
    using assms that(2) False by (cases d) (auto simp: value_ok_def split: option.splits tval.splits)
qed

lemma default_writes:
  assumes "dflt_ok dt d"
  shows "puts 0 (d_write d) (dflt_bytes d)"
  using assms
proof (cases rule: dflt_cases)
  case (1 s)
  then show ?thesis
    using string_write_run [of s] by (simp add: puts_def native_string lift_e_def c_bind_def opt_bytes_def length_str_bytes)
next
  case (2 bs h)
  then show ?thesis
    using native_size_le [of dt] by (simp add: puts_def lift_e_def c_bind_def opt_bytes_def scalar_write_run)
qed

lemma default_loads:
  assumes "dflt_ok dt d"
  shows "takes 0 (\<lambda>off. dl_read off dt) (dflt_bytes d) (d, length (dflt_bytes d))"
proof -
  have dt: "dt \<in> set (TYPE_BOOL # basic_types)"
    using assms by (cases d) auto
  have "takes 0 (d_read (Default dt None)) (dflt_bytes d) (length (dflt_bytes d), d)"
    using assms
  proof (cases rule: dflt_cases)
    case (1 s)
    then show ?thesis
      using string_read_run [of s]
      by (simp add: takes_def native_string lift_e_def c_bind_def c_ret_def opt_bytes_def length_str_bytes)
  next
    case (2 bs h)
    then show ?thesis
      using native_size_le [of dt] by (simp add: takes_def lift_e_def c_bind_def c_ret_def opt_bytes_def scalar_read_run)
  qed
  then have "takes 0 (\<lambda>off. c_bind (d_read (Default dt None) off) (\<lambda>(r, d). c_ret (d, r))) (dflt_bytes d) (d, length (dflt_bytes d))"
    by (rule takes_then) (simp add: c_ret_def)
  then show ?thesis
    using dt by (simp add: dl_read_def)
qed

end
