(* ===== verification/TypeStored.thy ===== *)
theory TypeStored
  imports TypeStore
begin

section \<open>Stored definitions: a schema that was written is read back\<close>

subsection \<open>The bytes of a node\<close>

definition info_ok :: "dtype \<Rightarrow> finfo \<Rightarrow> bool" where
  "info_ok dt fi \<longleftrightarrow> dt \<noteq> TYPE_UNKNOWN \<and> fi_index fi < 256 \<and> str_fits 1 (bytes_of (fi_name fi))
     \<and> (case fi_constraint fi of None \<Rightarrow> True | Some c \<Rightarrow> cons_ok dt c)
     \<and> (case fi_default fi of None \<Rightarrow> True | Some d \<Rightarrow> dflt_ok dt d)"

definition ext_c :: "finfo \<Rightarrow> u8 list" where
  "ext_c fi = (case fi_constraint fi of None \<Rightarrow> [] | Some c \<Rightarrow> cons_bytes c)"

definition ext_d :: "finfo \<Rightarrow> u8 list" where
  "ext_d fi = (case fi_default fi of None \<Rightarrow> [] | Some d \<Rightarrow> dflt_bytes d)"

definition info_bytes :: "nat \<Rightarrow> dtype \<Rightarrow> finfo \<Rightarrow> u8 list" where
  "info_bytes ft dt fi = nat_bytes 1 ft @ nat_bytes 1 (type_num dt) @ nat_bytes 1 (fi_index fi)
     @ str_bytes 1 (bytes_of (fi_name fi)) @ nat_bytes 1 (if fi_nullable fi then 1 else 0)
     @ nat_bytes 1 (info_bits fi) @ ext_c fi @ ext_d fi"

text \<open>What is read: the negation of a constraint is not stored.\<close>

definition kept :: "finfo \<Rightarrow> finfo" where
  "kept fi = fi\<lparr>fi_constraint := map_option (set_not False) (fi_constraint fi)\<rparr>"

subsection \<open>The members of every node\<close>

lemma puts_num_at:
  assumes "\<And>off. o' off = off + d" "puts (d + k) (q k) e'"
  shows "puts d (\<lambda>off. c_bind (put_num k (o' off) v) (\<lambda>n. q n off)) (nat_bytes k v @ e')"
  by (rule puts_sub [where o' = o' and q = q, OF puts_put_num]) (use assms in simp_all)

lemma puts_name_at:
  assumes "\<And>off. o' off = off + d" "str_fits 1 (bytes_of s)" "puts (d + (length s + 2)) (q (length s + 2)) e'"
  shows "puts d (\<lambda>off. c_bind (write_name (o' off) s) (\<lambda>n. q n off)) (str_bytes 1 (bytes_of s) @ e')"
  by (rule puts_sub [where o' = o' and q = q, OF puts_write_name]) (use assms in \<open>simp_all add: length_name_bytes del: One_nat_def\<close>)

lemma takes_name_at:
  assumes "\<And>off. o' off = off + d" "str_fits 1 (bytes_of s)" "takes (d + (length s + 2)) (q (length s + 2, s)) e' v"
  shows "takes d (\<lambda>off. c_bind (read_name (o' off)) (\<lambda>x. q x off)) (str_bytes 1 (bytes_of s) @ e') v"
  by (rule takes_sub [where o' = o' and q = q, OF takes_read_name]) (use assms in \<open>simp_all add: length_name_bytes del: One_nat_def\<close>)

lemma puts_constraint:
  assumes "info_ok dt fi"
  shows "puts 0 (\<lambda>off. case fi_constraint fi of None \<Rightarrow> c_ret 0 | Some c \<Rightarrow> c_write c off) (ext_c fi)"
  using assms constraint_writes by (auto simp: info_ok_def ext_c_def puts_ret split: option.splits)

lemma puts_default:
  assumes "info_ok dt fi"
  shows "puts 0 (\<lambda>off. case fi_default fi of None \<Rightarrow> c_ret 0 | Some c \<Rightarrow> d_write c off) (ext_d fi)"
  using assms default_writes by (auto simp: info_ok_def ext_d_def puts_ret split: option.splits)

lemma node_writes:
  assumes "info_ok (s_datatype t) (s_info t)"
  shows "puts 0 (base_write t) (info_bytes (field_type_num t) (s_datatype t) (s_info t))"
proof -
  let ?fi = "s_info t"
  have name: "str_fits 1 (bytes_of (fi_name ?fi))"
    using assms by (simp add: info_ok_def)
  have d: "puts (5 + (length (fi_name ?fi) + 2) + length (ext_c ?fi))
      (\<lambda>off. c_bind (case fi_default ?fi of None \<Rightarrow> c_ret 0
        | Some d \<Rightarrow> d_write d (off + (5 + (length (fi_name ?fi) + 2) + length (ext_c ?fi))))
        (\<lambda>d. c_ret (5 + (length (fi_name ?fi) + 2) + length (ext_c ?fi) + d))) (ext_d ?fi)"
    by (rule puts_last [where o' = "\<lambda>off. off + (5 + (length (fi_name ?fi) + 2) + length (ext_c ?fi))"
          and q = "\<lambda>d off. c_ret (5 + (length (fi_name ?fi) + 2) + length (ext_c ?fi) + d)", OF puts_default [OF assms]]) simp_all
  have c: "puts (5 + (length (fi_name ?fi) + 2)) (\<lambda>off. c_bind (case fi_constraint ?fi of None \<Rightarrow> c_ret 0
        | Some c \<Rightarrow> c_write c (off + (5 + (length (fi_name ?fi) + 2)))) (\<lambda>c.
      c_bind (case fi_default ?fi of None \<Rightarrow> c_ret 0 | Some d \<Rightarrow> d_write d (off + (5 + (length (fi_name ?fi) + 2) + c)))
        (\<lambda>d. c_ret (5 + (length (fi_name ?fi) + 2) + c + d)))) (ext_c ?fi @ ext_d ?fi)"
    by (rule puts_sub [where o' = "\<lambda>off. off + (5 + (length (fi_name ?fi) + 2))" and q = "\<lambda>c off.
          c_bind (case fi_default ?fi of None \<Rightarrow> c_ret 0 | Some d \<Rightarrow> d_write d (off + (5 + (length (fi_name ?fi) + 2) + c)))
        (\<lambda>d. c_ret (5 + (length (fi_name ?fi) + 2) + c + d))", OF puts_constraint [OF assms]]) (use d in simp_all)
  have n: "0 + 1 + 1 + 1 + (length (fi_name ?fi) + 2) + 1 + 1 = 5 + (length (fi_name ?fi) + 2)"
    by simp
  show ?thesis
    unfolding base_write_def info_bytes_def Let_def
    by (intro puts_num_at puts_name_at name, simp_all only: n) (rule c | simp)+
qed

lemma takes_seq:
  assumes "takes d r e v" "takes (d + length e) (q v) e' v'"
  shows "takes d (\<lambda>off. c_bind (r off) (\<lambda>x. q x off)) (e @ e') v'"
  by (rule takes_bind [where v = v and q = q]) (use assms takesD in auto)

lemma info_bits_check:
  "check_uint8_bit (info_bits fi) BIT_TYPE_CONSTRAINT \<longleftrightarrow> fi_constraint fi \<noteq> None"
  "check_uint8_bit (info_bits fi) BIT_TYPE_DEFAULT_VALUE \<longleftrightarrow> fi_default fi \<noteq> None"
  "info_bits fi < 256"
  unfolding info_bits_def check_uint8_bit_def set_uint8_bit_def BIT_TYPE_CONSTRAINT_def BIT_TYPE_DEFAULT_VALUE_def Let_def
  by (cases "fi_constraint fi"; cases "fi_default fi"; simp)+

lemma takes_at: "takes 0 r e v \<Longrightarrow> takes n (\<lambda>off. r (off + n)) e v"
  unfolding takes_def by (metis add.right_neutral)

lemma dflt_bytes_nonempty: "dflt_ok dt d \<Longrightarrow> dflt_bytes d \<noteq> []"
  by (cases d) (auto simp: opt_bytes_def str_bytes_def value_ok_def basic_types_def split: option.splits tval.splits)

lemma takes_constraint:
  assumes "info_ok dt fi"
  shows "takes n (\<lambda>off. if check_uint8_bit (info_bits fi) BIT_TYPE_CONSTRAINT
      then c_bind (cl_read (off + n) dt) (\<lambda>(c, sz). c_bind (c_check Postcondition (\<lambda>_. sz > 0)) (\<lambda>_. c_ret (n + sz, Some c)))
      else c_ret (n, None)) (ext_c fi) (n + length (ext_c fi), map_option (set_not False) (fi_constraint fi))"
proof (cases "fi_constraint fi")
  case None
  then show ?thesis by (simp add: info_bits_check ext_c_def takes_ret)
next
  case (Some c)
  then have "takes n (\<lambda>off. cl_read (off + n) dt) (cons_bytes c) (set_not False c, length (cons_bytes c))"
    using assms by (intro takes_at constraint_loads) (simp add: info_ok_def)
  moreover have "0 < length (cons_bytes c)"
    by (simp add: cons_bytes_def)
  ultimately show ?thesis
    unfolding info_bits_check Some ext_c_def
    by (auto intro!: takes_then simp: c_bind_def c_check_def c_ret_def)
qed

lemma takes_default:
  assumes "info_ok dt fi"
  shows "takes n (\<lambda>off. if check_uint8_bit (info_bits fi) BIT_TYPE_DEFAULT_VALUE
      then c_bind (dl_read (off + n) dt) (\<lambda>(d, sz). c_bind (c_check Postcondition (\<lambda>_. sz > 0)) (\<lambda>_. c_ret (n + sz, Some d)))
      else c_ret (n, None)) (ext_d fi) (n + length (ext_d fi), fi_default fi)"
proof (cases "fi_default fi")
  case None
  then show ?thesis by (simp add: info_bits_check ext_d_def takes_ret)
next
  case (Some d)
  then have "dflt_ok dt d"
    using assms by (simp add: info_ok_def)
  then have "takes n (\<lambda>off. dl_read (off + n) dt) (dflt_bytes d) (d, length (dflt_bytes d))" "0 < length (dflt_bytes d)"
    using dflt_bytes_nonempty by (auto intro: takes_at default_loads)
  then show ?thesis
    unfolding info_bits_check Some ext_d_def
    by (auto intro!: takes_then simp: c_bind_def c_check_def c_ret_def)
qed

lemma read_extra_takes:
  assumes "info_ok dt fi"
  shows "takes n (\<lambda>off. read_extra off dt (info_bits fi) n) (ext_c fi @ ext_d fi)
    (n + length (ext_c fi) + length (ext_d fi), map_option (set_not False) (fi_constraint fi), fi_default fi)"
  unfolding read_extra_def
proof (rule takes_seq [OF takes_constraint [OF assms]], simp only: prod.case)
  show "takes (n + length (ext_c fi)) (\<lambda>off. c_bind (if check_uint8_bit (info_bits fi) BIT_TYPE_DEFAULT_VALUE
      then c_bind (dl_read (off + (n + length (ext_c fi))) dt)
        (\<lambda>(d, sz). c_bind (c_check Postcondition (\<lambda>_. sz > 0)) (\<lambda>_. c_ret (n + length (ext_c fi) + sz, Some d)))
      else c_ret (n + length (ext_c fi), None)) (\<lambda>(na, d). c_ret (na, map_option (set_not False) (fi_constraint fi), d)))
    (ext_d fi) (n + length (ext_c fi) + length (ext_d fi), map_option (set_not False) (fi_constraint fi), fi_default fi)"
    by (rule takes_then [OF takes_default [OF assms]]) (simp add: c_ret_def)
qed

lemma parse_type_code: "dt \<noteq> TYPE_UNKNOWN \<Longrightarrow> parse_type_num (type_num dt) = dt"
  by (cases dt) (simp_all add: parse_type_num_def parse_order_def)

lemma type_num_byte: "type_num dt < 256 ^ 1"
  by (cases dt) simp_all

lemma length_info_bytes: "length (info_bytes ft dt fi) = 5 + (length (fi_name fi) + 2) + length (ext_c fi) + length (ext_d fi)"
  unfolding info_bytes_def by (simp add: length_str_bytes bytes_of_def)

lemma node_reads:
  assumes "info_ok dt fi" "ft < 256"
  shows "takes 0 (base_read ft) (info_bytes ft dt fi) (length (info_bytes ft dt fi), kept fi, dt)"
proof -
  let ?n = "5 + (length (fi_name fi) + 2)"
  have i: "dt \<noteq> TYPE_UNKNOWN" "fi_index fi < 256 ^ 1" "str_fits 1 (bytes_of (fi_name fi))" "ft < 256 ^ 1"
      "(if fi_nullable fi then 1 else 0) < (256::nat) ^ 1" "info_bits fi < 256 ^ 1"
    using assms by (auto simp: info_ok_def info_bits_check)
  obtain R where R: "R = (length (info_bytes ft dt fi), kept fi, dt)"
    by simp
  have x: "takes ?n (\<lambda>off. c_bind (read_extra off dt (info_bits fi) ?n) (\<lambda>(n, c, d).
     c_ret (n, \<lparr>fi_name = fi_name fi, fi_index = fi_index fi, fi_nullable = ((if fi_nullable fi then 1 else 0) \<noteq> (0::nat)),
       fi_constraint = c, fi_default = d\<rparr>, dt))) (ext_c fi @ ext_d fi) R"
    by (rule takes_then [OF read_extra_takes [OF assms(1)]]) (simp add: c_ret_def kept_def length_info_bytes R)
  have n: "0 + 1 + 1 + 1 + (length (fi_name fi) + 2) + 1 + 1 = ?n"
    by simp
  have "takes 0 (base_read ft) (info_bytes ft dt fi) R"
    unfolding base_read_def Let_def info_bytes_def
    by (rule takes_num, simp, rule i(4), rule takes_check, rule refl,
        rule takes_num, simp, rule type_num_byte, subst parse_type_code [OF i(1)], rule takes_check, rule i(1),
        rule takes_num, simp, rule i(2), rule takes_name_at, simp, rule i(3), simp only: prod.case,
        rule takes_num, simp, rule i(5), rule takes_num, simp, rule i(6),
        simp only: n parse_type_code [OF i(1)], rule x)
  then show ?thesis
    by (simp only: R)
qed

subsection \<open>Schemas that can be stored\<close>

text \<open>
  Every node has members that fit their bytes, a record has at most 255 fields with different indices
  and non-empty names, and the inner types of lists and maps are ones for which there is a handler.
\<close>

definition inner_storable :: "dtype \<Rightarrow> stype \<Rightarrow> bool" where
  "inner_storable it t \<longleftrightarrow> it = s_datatype t \<and> field_type_num t \<le> 3 \<and> is_inner_type_valid it \<and> it \<noteq> TYPE_BOOL"

definition key_storable :: "dtype \<Rightarrow> stype \<Rightarrow> bool" where
  "key_storable kt t \<longleftrightarrow> kt = s_datatype t \<and> field_type_num t \<le> 2 \<and> is_native kt \<and> kt \<noteq> TYPE_BOOL"

fun storable :: "stype \<Rightarrow> bool" where
  "storable (S_native fi dt) = (info_ok dt fi \<and> (is_native dt \<or> dt = TYPE_TEXT))"
| "storable (S_string fi mx) = (info_ok TYPE_STRING fi \<and> (case mx of None \<Rightarrow> False | Some n \<Rightarrow> n < 256))"
| "storable (S_complex fi tn fs) = (info_ok TYPE_STRUCT fi \<and> str_fits 1 (bytes_of tn) \<and> 0 \<notin> set (bytes_of tn)
     \<and> length fs \<le> 255 \<and> distinct (map (\<lambda>f. fi_index (s_info f)) fs) \<and> (\<forall>f \<in> set fs. fi_name (s_info f) \<noteq> [] \<and> storable f))"
| "storable (S_list fi it inner) = (info_ok TYPE_LIST fi
     \<and> (case inner of None \<Rightarrow> False | Some t \<Rightarrow> inner_storable it t \<and> storable t))"
| "storable (S_map fi kt vt k v) = (info_ok TYPE_MAP fi
     \<and> (case k of None \<Rightarrow> False | Some t \<Rightarrow> key_storable kt t \<and> storable t)
     \<and> (case v of None \<Rightarrow> False | Some t \<Rightarrow> inner_storable vt t \<and> storable t) \<and> \<not> (kt = TYPE_BYTE \<and> vt = TYPE_STRUCT))"

fun s_bytes :: "stype \<Rightarrow> u8 list" where
  "s_bytes (S_native fi dt) = info_bytes 1 dt fi"
| "s_bytes (S_string fi mx) = info_bytes 2 TYPE_STRING fi @ nat_bytes 1 (case mx of None \<Rightarrow> 0 | Some n \<Rightarrow> n)"
| "s_bytes (S_complex fi tn fs) = info_bytes 3 TYPE_STRUCT fi @ nat_bytes 1 (length fs) @ str_bytes 1 (bytes_of tn)
     @ concat (map s_bytes fs)"
| "s_bytes (S_list fi it inner) = info_bytes 5 TYPE_LIST fi @ (case inner of None \<Rightarrow> [] | Some t \<Rightarrow> s_bytes t)"
| "s_bytes (S_map fi kt vt k v) = info_bytes 6 TYPE_MAP fi @ (case k of None \<Rightarrow> [] | Some t \<Rightarrow> s_bytes t)
     @ (case v of None \<Rightarrow> [] | Some t \<Rightarrow> s_bytes t)"

fun s_kept :: "stype \<Rightarrow> stype" where
  "s_kept (S_native fi dt) = S_native (kept fi) dt" | "s_kept (S_string fi mx) = S_string (kept fi) mx"
| "s_kept (S_complex fi tn fs) = S_complex (kept fi) tn (map s_kept fs)"
| "s_kept (S_list fi it inner) = S_list (kept fi) it (map_option s_kept inner)"
| "s_kept (S_map fi kt vt k v) = S_map (kept fi) kt vt (map_option s_kept k) (map_option s_kept v)"

lemma s_kept_simps: "s_info (s_kept t) = kept (s_info t)" "s_datatype (s_kept t) = s_datatype t"
  "field_type_num (s_kept t) = field_type_num t" "fi_name (kept fi) = fi_name fi" "fi_index (kept fi) = fi_index fi"
  by (cases t; simp)+ (simp_all add: kept_def)

lemma storable_info: "storable t \<Longrightarrow> info_ok (s_datatype t) (s_info t)"
  by (cases t) auto

lemma struct_is_complex: "storable t \<Longrightarrow> s_datatype t = TYPE_STRUCT \<Longrightarrow> is_complex (Some (s_kept t))"
  by (cases t) (auto simp: is_complex_def)

lemma storable_wf: "storable t \<Longrightarrow> s_wf (s_kept t)"
proof (induction t)
  case (S_list fi it inner)
  then show ?case
    by (auto simp: inner_ok_def inner_storable_def struct_is_complex split: option.splits)
next
  case (S_map fi kt vt k v)
  then show ?case
    by (auto simp: inner_ok_def inner_storable_def key_storable_def struct_is_complex split: option.splits)
qed auto

subsection \<open>Writing\<close>

lemma puts_nodes:
  "\<forall>f \<in> set fs. puts 0 (s_write f) (s_bytes f) \<Longrightarrow> puts sz (\<lambda>off. write_nodes (map s_write fs) off sz) (concat (map s_bytes fs))"
proof (induction fs arbitrary: sz)
  case Nil
  show ?case by (simp add: puts_ret)
next
  case (Cons f fs)
  have "puts sz (\<lambda>off. c_bind (s_write f (off + sz)) (\<lambda>r. write_nodes (map s_write fs) off (sz + r))) (s_bytes f @ concat (map s_bytes fs))"
    by (rule puts_sub [where w = "s_write f"]) (use Cons in auto)
  then show ?case by simp
qed

lemma puts_node:
  assumes "info_ok dt fi" "s_datatype t = dt" "s_info t = fi" "field_type_num t = ft"
    "puts (length (info_bytes ft dt fi)) (q (length (info_bytes ft dt fi))) e"
  shows "puts 0 (\<lambda>off. c_bind (base_write t off) (\<lambda>n. q n off)) (info_bytes ft dt fi @ e)"
  by (rule puts_sub [where w = "base_write t" and o' = "\<lambda>off. off"]) (use assms node_writes in auto)

lemma puts_s_write:
  assumes "puts 0 (s_write t) (s_bytes t)" "\<And>off. o' off = off + d" "puts (d + length (s_bytes t)) (q (length (s_bytes t))) e"
  shows "puts d (\<lambda>off. c_bind (s_write t (o' off)) (\<lambda>n. q n off)) (s_bytes t @ e)"
  by (rule puts_sub [where o' = o']) (use assms in auto)

lemma schema_writes: "storable t \<Longrightarrow> puts 0 (s_write t) (s_bytes t)"
proof (induction t)
  case (S_native fi dt)
  then show ?case
    using node_writes [of "S_native fi dt"] unfolding s_write.simps by simp
next
  case (S_string fi mx)
  then obtain n where n: "mx = Some n"
    by (auto split: option.splits)
  show ?case
    unfolding s_write.simps s_bytes.simps n option.case
    by (rule puts_node, (use S_string.prems in simp_all)[4], rule puts_one [OF puts_put_num])
next
  case (S_complex fi tn fs)
  have "puts (length (info_bytes 3 TYPE_STRUCT fi) + 1 + (length tn + 2))
      (\<lambda>off. write_nodes (map s_write fs) off (length (info_bytes 3 TYPE_STRUCT fi) + 1 + (length tn + 2))) (concat (map s_bytes fs))"
    by (rule puts_nodes) (use S_complex in auto)
  then show ?case
    unfolding s_write.simps s_bytes.simps
    by (intro puts_node puts_num_at puts_name_at) (use S_complex.prems in simp_all)
next
  case (S_list fi it inner)
  then obtain t where t: "inner = Some t" "storable t"
    by (auto split: option.splits)
  show ?case
    unfolding s_write.simps s_bytes.simps t option.case
    by (rule puts_node, (use S_list.prems in simp_all)[4], rule puts_one) (use S_list.IH t in auto)
next
  case (S_map fi kt vt k v)
  then obtain a b where ab: "k = Some a" "v = Some b" "storable a" "storable b"
    by (auto split: option.splits)
  have ih: "puts 0 (s_write a) (s_bytes a)" "puts 0 (s_write b) (s_bytes b)"
    using S_map.IH ab by auto
  show ?case
    unfolding s_write.simps s_bytes.simps ab option.case
    by (rule puts_node, (use S_map.prems in simp_all)[4], rule puts_s_write [OF ih(1)], simp,
        rule puts_last [where w = "s_write b", OF ih(2)]) simp_all
qed

subsection \<open>Reading\<close>

lemma takes_class:
  assumes "info_ok dt fi" "ft < 256"
  shows "takes 0 (read_class ft dt) (info_bytes ft dt fi) (length (info_bytes ft dt fi), kept fi)"
  unfolding read_class_def by (rule takes_then [OF node_reads [OF assms]]) (simp add: c_ret_def)

lemma takes_of_class:
  assumes "info_ok dt fi" "ft < 256" "takes (length (info_bytes ft dt fi)) (q (length (info_bytes ft dt fi), kept fi)) e v"
  shows "takes 0 (\<lambda>off. c_bind (read_class ft dt off) (\<lambda>x. q x off)) (info_bytes ft dt fi @ e) v"
  by (rule takes_seq [OF takes_class]) (use assms in auto)

lemma takes_read_native: "info_ok dt fi \<Longrightarrow> takes 0 read_native (info_bytes 1 dt fi) (length (info_bytes 1 dt fi), S_native (kept fi) dt)"
  unfolding read_native_def by (rule takes_then [OF node_reads]) (simp_all add: c_ret_def)

lemma takes_read_string:
  assumes "info_ok TYPE_STRING fi" "n < 256"
  shows "takes 0 read_string (info_bytes 2 TYPE_STRING fi @ nat_bytes 1 n)
    (length (info_bytes 2 TYPE_STRING fi @ nat_bytes 1 n), S_string (kept fi) (Some n))"
proof -
  obtain R where R: "R = (length (info_bytes 2 TYPE_STRING fi @ nat_bytes 1 n), S_string (kept fi) (Some n))"
    by simp
  have "takes 0 read_string (info_bytes 2 TYPE_STRING fi @ nat_bytes 1 n @ []) R"
    unfolding read_string_def
    by (rule takes_of_class [OF assms(1)], simp, simp only: prod.case, rule takes_num, simp, (use assms(2) in simp), rule takes_end)
      (simp add: R)
  then show ?thesis
    by (simp only: R append_Nil2)
qed

text \<open>The kind of a node is its first byte.\<close>

lemma s_bytes_kind: "\<exists>e. s_bytes t = nat_bytes 1 (field_type_num t) @ e"
  by (cases t) (auto simp: info_bytes_def)

lemma takes_kind:
  assumes "get_field_type (field_type_num t) = Inr c" "takes 0 (q c) (s_bytes t) v"
  shows "takes 0 (\<lambda>off. c_bind (get_num 1 off) (\<lambda>ft. c_bind (lift_e (get_field_type ft)) (\<lambda>c. q c off))) (s_bytes t) v"
proof -
  obtain e where "s_bytes t = nat_bytes 1 (field_type_num t) @ e"
    using s_bytes_kind by blast
  moreover have "field_type_num t < 256"
    by (cases t) auto
  moreover have "takes 0 (\<lambda>off. c_bind (lift_e (get_field_type (field_type_num t))) (\<lambda>c. q c off)) (s_bytes t) v"
    using assms by (simp add: takes_lift)
  ultimately show ?thesis
    by (intro takes_peek)
qed

text \<open>What the loader and the readers of inner types do with a node, and with a list of them.\<close>

definition loads :: "(nat \<Rightarrow> (nat \<times> stype) io) \<Rightarrow> stype \<Rightarrow> bool" where
  "loads rc t \<longleftrightarrow> takes 0 (load_node rc) (s_bytes t) (length (s_bytes t), s_kept t)
     \<and> (field_type_num t \<le> 3 \<longrightarrow> takes 0 (read_inner_type rc) (s_bytes t) (length (s_bytes t), s_kept t))"

lemma loads_native: "storable (S_native fi dt) \<Longrightarrow> loads rc (S_native fi dt)"
proof -
  assume "storable (S_native fi dt)"
  then have r: "takes 0 read_native (s_bytes (S_native fi dt)) (length (s_bytes (S_native fi dt)), s_kept (S_native fi dt))"
    using takes_read_native by simp
  have i: "takes 0 (read_inner_type rc) (s_bytes (S_native fi dt)) (length (s_bytes (S_native fi dt)), s_kept (S_native fi dt))"
    unfolding read_inner_type_def by (rule takes_kind [of _ FT_NATIVE]) (use r in \<open>simp_all add: get_field_type_def\<close>)
  then show ?thesis
    unfolding loads_def load_node_def
    by (intro conjI impI i takes_kind [of _ FT_NATIVE]) (simp_all add: get_field_type_def i del: s_bytes.simps s_kept.simps)
qed

lemma loads_string: "storable (S_string fi mx) \<Longrightarrow> loads rc (S_string fi mx)"
proof -
  assume "storable (S_string fi mx)"
  then have r: "takes 0 read_string (s_bytes (S_string fi mx)) (length (s_bytes (S_string fi mx)), s_kept (S_string fi mx))"
    using takes_read_string by (auto simp del: nat_bytes.simps split: option.splits)
  have i: "takes 0 (read_inner_type rc) (s_bytes (S_string fi mx)) (length (s_bytes (S_string fi mx)), s_kept (S_string fi mx))"
    unfolding read_inner_type_def by (rule takes_kind [of _ FT_STRING]) (use r in \<open>simp_all add: get_field_type_def\<close>)
  then show ?thesis
    unfolding loads_def load_node_def
    by (intro conjI impI i takes_kind [of _ FT_STRING]) (simp_all add: get_field_type_def i del: s_bytes.simps s_kept.simps)
qed

lemma loads_complex:
  assumes "takes 0 rc (s_bytes (S_complex fi tn fs)) (length (s_bytes (S_complex fi tn fs)), s_kept (S_complex fi tn fs))"
  shows "loads rc (S_complex fi tn fs)"
  unfolding loads_def load_node_def read_inner_type_def
  using assms by (intro conjI impI takes_kind [of _ FT_COMPLEX]) (simp_all add: get_field_type_def del: s_bytes.simps s_kept.simps)

lemma takes_nodes:
  "\<forall>f \<in> set fs. loads rc f \<Longrightarrow> takes sz (\<lambda>off. load_nodes rc (length fs) off sz) (concat (map s_bytes fs))
     (sz + length (concat (map s_bytes fs)), map s_kept fs)"
proof (induction fs arbitrary: sz)
  case Nil
  show ?case by (simp add: takes_ret)
next
  case (Cons f fs)
  let ?n = "length (s_bytes f)" and ?bs = "concat (map s_bytes fs)"
  have "takes (sz + ?n) (\<lambda>off. c_bind (load_nodes rc (length fs) off (sz + ?n)) (\<lambda>(r_size, ts). c_ret (r_size, s_kept f # ts)))
      ?bs (sz + ?n + length ?bs, s_kept f # map s_kept fs)"
    by (rule takes_then [OF Cons.IH]) (use Cons.prems in \<open>auto simp: c_ret_def\<close>)
  then have "takes sz (\<lambda>off. c_bind (load_node rc (off + sz)) (\<lambda>(r, t). c_bind (load_nodes rc (length fs) off (sz + r))
      (\<lambda>(r_size, ts). c_ret (r_size, t # ts)))) (s_bytes f @ ?bs) (sz + ?n + length ?bs, s_kept f # map s_kept fs)"
    by (intro takes_sub [where r = "load_node rc" and o' = "\<lambda>off. off + sz" and v = "(?n, s_kept f)"])
      (use Cons.prems in \<open>simp_all add: loads_def\<close>)
  then show ?case by (simp add: add.assoc)
qed

lemma add_fields_distinct:
  assumes "distinct (map (\<lambda>f. fi_index (s_info f)) (gs @ ts))" "\<forall>t \<in> set ts. fi_name (s_info t) \<noteq> []" "length gs + length ts \<le> 255"
  shows "add_fields gs ts = Inr (gs @ ts)"
  using assms by (induction ts arbitrary: gs) (auto simp: add_field_def e_bind_def image_iff)

lemma cstr_run:
  assumes "str_fits 1 s" "0 \<notin> set s" "off = length pre"
  shows "c_bind (at_off off read_8str) (\<lambda>(r, cb). case cb of None \<Rightarrow> c_throw Null_pointer
      | Some p \<Rightarrow> c_bind (cstr_at p) (\<lambda>tn. q r tn)) (pre @ str_bytes 1 s @ post) = q (length s + 2) s (pre @ str_bytes 1 s @ post)"
  using str_read_run [OF assms, of post]
  by (auto simp: str_read_def read_8str_def c_bind_def c_ret_def c_throw_def split: prod.splits sum.splits option.splits)

lemma takes_cstr:
  assumes "str_fits 1 s" "0 \<notin> set s" "\<And>off. o' off = off + d" "takes (d + (length s + 2)) (q (length s + 2) s) e v"
  shows "takes d (\<lambda>off. c_bind (at_off (o' off) read_8str) (\<lambda>(r, cb). case cb of None \<Rightarrow> c_throw Null_pointer
      | Some p \<Rightarrow> c_bind (cstr_at p) (\<lambda>tn. q r tn off))) (str_bytes 1 s @ e) v"
  unfolding takes_def
proof (intro allI impI)
  fix pre post :: mem and off
  assume p: "length pre = off + d"
  have "q (length s + 2) s off ((pre @ str_bytes 1 s) @ e @ post) = (Inr v, (pre @ str_bytes 1 s) @ e @ post)"
    by (rule takesD [OF assms(4)]) (simp add: p length_str_bytes)
  then show "c_bind (at_off (o' off) read_8str) (\<lambda>(r, cb). case cb of None \<Rightarrow> c_throw Null_pointer
      | Some p \<Rightarrow> c_bind (cstr_at p) (\<lambda>tn. q r tn off)) (pre @ (str_bytes 1 s @ e) @ post) = (Inr v, pre @ (str_bytes 1 s @ e) @ post)"
    using cstr_run [OF assms(1,2), of "o' off" pre "\<lambda>r tn. q r tn off" "e @ post"] by (simp add: p assms(3) del: One_nat_def)
qed

lemma length_bytes_of: "length (bytes_of s) = length s"
  by (simp add: bytes_of_def)

lemma takes_read_complex:
  assumes "storable (S_complex fi tn fs)" "\<forall>f \<in> set fs. loads (read_complex k) f"
  shows "takes 0 (read_complex (Suc k)) (s_bytes (S_complex fi tn fs))
    (length (s_bytes (S_complex fi tn fs)), s_kept (S_complex fi tn fs))"
proof -
  let ?n = "length (info_bytes 3 TYPE_STRUCT fi)" and ?bs = "concat (map s_bytes fs)"
  obtain R where R: "R = (length (s_bytes (S_complex fi tn fs)), s_kept (S_complex fi tn fs))"
    by simp
  have a: "info_ok TYPE_STRUCT fi" "str_fits 1 (bytes_of tn)" "0 \<notin> set (bytes_of tn)" "length fs < 256 ^ 1"
    using assms(1) by auto
  have add: "add_fields [] (map s_kept fs) = Inr (map s_kept fs)"
    using add_fields_distinct [of "[]" "map s_kept fs"] assms(1) by (auto simp: s_kept_simps o_def)
  have x: "takes (?n + 1 + (length (bytes_of tn) + 2)) (\<lambda>off. c_bind (load_nodes (read_complex k) (length fs) (off + (?n + 1 + (length (bytes_of tn) + 2))) 0)
      (\<lambda>(sz, types). c_bind (lift_e (add_fields [] types)) (\<lambda>fs. c_ret (?n + 1 + (length (bytes_of tn) + 2) + sz,
        S_complex (kept fi) (string_of (bytes_of tn)) fs)))) ?bs R"
    by (rule takes_then [where v = "(0 + length ?bs, map s_kept fs)", OF takes_at [OF takes_nodes [OF assms(2)]]])
      (simp add: add lift_e_def c_bind_def c_ret_def string_of_bytes_of R length_str_bytes length_bytes_of)
  have "takes 0 (read_complex (Suc k)) (info_bytes 3 TYPE_STRUCT fi @ nat_bytes 1 (length fs) @ str_bytes 1 (bytes_of tn) @ ?bs) R"
    unfolding read_complex.simps
    by (rule takes_of_class [OF a(1)], simp, simp only: prod.case, rule takes_num [OF _ a(4)], simp,
        rule takes_cstr [OF a(2,3)], simp, rule x)
  then show ?thesis
    by (simp only: s_bytes.simps R)
qed

lemma takes_check_handler: "s_wf t \<Longrightarrow> takes d q e v \<Longrightarrow> takes d (\<lambda>off. c_bind (check_handler t) (\<lambda>_. q off)) e v"
  using native_read_mode [of t] by (auto simp: takes_def check_handler_def lift_e_def c_bind_def c_ret_def)

lemma takes_inner:
  assumes "loads rc t" "inner_storable it t" "\<And>off. o' off = off + d"
    "takes (d + length (s_bytes t)) (q (length (s_bytes t), s_kept t)) e v"
  shows "takes d (\<lambda>off. c_bind (read_inner_type rc (o' off)) (\<lambda>x. q x off)) (s_bytes t @ e) v"
  by (rule takes_sub [where r = "read_inner_type rc" and o' = o']) (use assms in \<open>auto simp: loads_def inner_storable_def\<close>)

lemma takes_key:
  assumes "storable t" "key_storable kt t" "\<And>off. o' off = off + d"
    "takes (d + length (s_bytes t)) (q (length (s_bytes t), s_kept t)) e v"
  shows "takes d (\<lambda>off. c_bind (read_key_type (o' off)) (\<lambda>x. q x off)) (s_bytes t @ e) v"
proof (rule takes_sub [where r = read_key_type and o' = o'])
  have n: "is_native (s_datatype (s_kept t))"
    using assms(2) by (auto simp: key_storable_def s_kept_simps)
  show "takes 0 read_key_type (s_bytes t) (length (s_bytes t), s_kept t)"
  proof (cases t)
    case (S_native fi dt)
    have "takes 0 read_native (s_bytes t) (length (s_bytes t), s_kept t)"
      using assms(1) S_native takes_read_native by simp
    then show ?thesis
      unfolding read_key_type_def
      by (intro takes_kind [of _ FT_NATIVE]) (use S_native n in \<open>auto intro!: takes_then simp: get_field_type_def c_bind_def c_check_def c_ret_def\<close>)
  next
    case (S_string fi mx)
    have "takes 0 read_string (s_bytes t) (length (s_bytes t), s_kept t)"
      using assms(1) S_string takes_read_string by (auto simp del: nat_bytes.simps split: option.splits)
    then show ?thesis
      unfolding read_key_type_def
      by (intro takes_kind [of _ FT_STRING])
        (use S_string n in \<open>auto intro!: takes_then simp: get_field_type_def c_bind_def c_check_def c_ret_def simp del: s_bytes.simps s_kept.simps\<close>)
  qed (use assms(2) in \<open>auto simp: key_storable_def\<close>)
qed (use assms in auto)

lemma loads_list:
  assumes "storable (S_list fi it (Some t))" "loads rc t"
  shows "loads rc (S_list fi it (Some t))"
proof -
  let ?t = "S_list fi it (Some t)" and ?n = "length (info_bytes 5 TYPE_LIST fi)"
  obtain R where R: "R = (length (s_bytes ?t), s_kept ?t)"
    by simp
  have i: "info_ok TYPE_LIST fi" "inner_storable it t"
    using assms(1) by auto
  have "s_wf (s_kept ?t)"
    using assms(1) by (rule storable_wf)
  then have w: "s_wf (S_list (kept fi) (s_datatype (s_kept t)) (Some (s_kept t)))"
    using i(2) by (simp add: inner_storable_def s_kept_simps)
  have r: "(?n + length (s_bytes t), S_list (kept fi) (s_datatype (s_kept t)) (Some (s_kept t))) = R"
    using i(2) by (simp add: R inner_storable_def s_kept_simps)
  have "takes 0 (read_list rc) (info_bytes 5 TYPE_LIST fi @ s_bytes t @ []) R"
    unfolding read_list_def Let_def
    by (rule takes_of_class [OF i(1)], simp, simp only: prod.case, rule takes_inner [OF assms(2) i(2)], simp,
        simp only: prod.case, rule takes_check_handler [OF w], rule takes_end, rule r)
  then show ?thesis
    unfolding loads_def load_node_def
    by (intro conjI impI takes_kind [of _ FT_LIST]) (simp_all add: get_field_type_def R)
qed

lemma loads_map:
  assumes "storable (S_map fi kt vt (Some a) (Some b))" "loads rc b"
  shows "loads rc (S_map fi kt vt (Some a) (Some b))"
proof -
  let ?t = "S_map fi kt vt (Some a) (Some b)" and ?n = "length (info_bytes 6 TYPE_MAP fi)"
  obtain R where R: "R = (length (s_bytes ?t), s_kept ?t)"
    by simp
  have i: "info_ok TYPE_MAP fi" "storable a" "key_storable kt a" "inner_storable vt b"
    using assms(1) by auto
  let ?m = "S_map (kept fi) (s_datatype (s_kept a)) (s_datatype (s_kept b)) (Some (s_kept a)) (Some (s_kept b))"
  have m: "?m = s_kept ?t"
    using i by (simp add: inner_storable_def key_storable_def s_kept_simps)
  have w: "s_wf ?m"
    unfolding m using assms(1) by (rule storable_wf)
  have r: "(?n + length (s_bytes a) + length (s_bytes b), ?m) = R"
    unfolding m by (simp add: R)
  have "takes 0 (read_map rc) (info_bytes 6 TYPE_MAP fi @ s_bytes a @ s_bytes b @ []) R"
    unfolding read_map_def Let_def
    by (rule takes_of_class [OF i(1)], simp, simp only: prod.case, rule takes_key [OF i(2,3)], simp, simp only: prod.case,
        rule takes_inner [OF assms(2) i(4)], simp, simp only: prod.case, rule takes_check_handler [OF w], rule takes_end, rule r)
  then show ?thesis
    unfolding loads_def load_node_def
    by (intro conjI impI takes_kind [of _ FT_MAP]) (simp_all add: get_field_type_def R)
qed

lemma info_bytes_nonempty: "info_bytes ft dt fi \<noteq> []"
  by (simp add: info_bytes_def)

lemma takes_complex:
  assumes "storable (S_complex fi tn fs)" "length (s_bytes (S_complex fi tn fs)) \<le> n"
    "\<And>f k. f \<in> set fs \<Longrightarrow> length (s_bytes f) \<le> k \<Longrightarrow> loads (read_complex k) f"
  shows "takes 0 (read_complex n) (s_bytes (S_complex fi tn fs)) (length (s_bytes (S_complex fi tn fs)), s_kept (S_complex fi tn fs))"
proof -
  obtain k where k: "n = Suc k" "length (concat (map s_bytes fs)) \<le> k"
    using assms(2) info_bytes_nonempty [of 3 TYPE_STRUCT fi] by (cases n) (auto simp: length_str_bytes)
  have "length (s_bytes f) \<le> length (concat (map s_bytes fs))" if "f \<in> set fs" for f
    using that by (induction fs) auto
  then have "\<forall>f \<in> set fs. loads (read_complex k) f"
    using assms(3) k(2) by fastforce
  then show ?thesis
    unfolding k(1) by (rule takes_read_complex [OF assms(1)])
qed

lemma schema_loads: "storable t \<Longrightarrow> length (s_bytes t) \<le> n \<Longrightarrow> loads (read_complex n) t"
proof (induction t arbitrary: n)
  case (S_native fi dt)
  then show ?case by (intro loads_native)
next
  case (S_string fi mx)
  then show ?case by (intro loads_string)
next
  case (S_complex fi tn fs)
  then show ?case
    by (intro loads_complex takes_complex) auto
next
  case (S_list fi it inner)
  then obtain t where t: "inner = Some t" "storable t" "length (s_bytes t) \<le> n"
    by (auto split: option.splits)
  have "loads (read_complex n) t"
    using S_list.IH t by auto
  then show ?case
    using S_list.prems(1) unfolding t(1) by (intro loads_list)
next
  case (S_map fi kt vt a b)
  then obtain u v where t: "a = Some u" "b = Some v" "storable v" "length (s_bytes v) \<le> n"
    by (auto split: option.splits)
  have "loads (read_complex n) v"
    using S_map.IH(2) t by auto
  then show ?case
    using S_map.prems(1) unfolding t(1,2) by (intro loads_map)
qed

subsection \<open>Properties\<close>

text \<open>C5. The definition of a record type, with fields of native types, strings,
  lists, maps and records nested to any depth, with constraints and default values, is written to a
  buffer with one spare byte and read back as the same definition; only the negation of a constraint is
  lost. A constraint with \<open>GT\<close> is not storable. Reader and writer agree on the size, and nothing
  before the offset changes.\<close>

theorem schema_roundtrip:
  assumes "storable (S_complex fi tn fs)" "off + length (s_bytes (S_complex fi tn fs)) < length m"
  shows "\<exists>m'. s_write (S_complex fi tn fs) off m = (Inr (length (s_bytes (S_complex fi tn fs))), m')
    \<and> length m' = length m \<and> take off m' = take off m
    \<and> read_schema off m' = (Inr (length (s_bytes (S_complex fi tn fs)), s_kept (S_complex fi tn fs)), m')"
proof -
  let ?t = "S_complex fi tn fs"
  have "\<exists>post. s_write ?t off (take off m @ drop off m) = (Inr (length (s_bytes ?t)), take off m @ s_bytes ?t @ post)
      \<and> length post = length (drop off m) - length (s_bytes ?t)"
    by (rule puts0D [OF schema_writes [OF assms(1)]]) (use assms(2) in auto)
  then obtain post where w: "s_write ?t off m = (Inr (length (s_bytes ?t)), take off m @ s_bytes ?t @ post)"
      "length post = length m - off - length (s_bytes ?t)"
    by (auto simp del: s_write.simps s_bytes.simps)
  let ?m = "take off m @ s_bytes ?t @ post"
  have m: "length ?m = length m" "take off ?m = take off m"
    using w(2) assms(2) by (auto simp del: s_bytes.simps)
  have "length (s_bytes ?t) \<le> length m"
    using assms(2) by linarith
  then have "takes 0 (read_complex (length m)) (s_bytes ?t) (length (s_bytes ?t), s_kept ?t)"
    by (rule takes_complex [OF assms(1)]) (use assms(1) schema_loads in auto)
  then have "read_complex (length m) off ?m = (Inr (length (s_bytes ?t), s_kept ?t), ?m)"
    by (rule takes0D) (use assms(2) in auto)
  then show ?thesis
    using w(1) m by (auto simp: read_schema_def simp del: s_bytes.simps s_write.simps s_kept.simps)
qed

definition demo_fields :: "bool \<Rightarrow> stype list" where
  "demo_fields nt =
     [S_native ((demo_info ''id'' 0)\<lparr>fi_constraint := Some (C_range nt TYPE_SHORT (Some (Scalar [1, 0])) (Some (Scalar [9, 0])))\<rparr>) TYPE_SHORT,
      S_string ((demo_info ''name'' 1)\<lparr>fi_default := Some (Default TYPE_STRING (Some (Str [72, 105])))\<rparr>) (Some 20),
      S_list (demo_info ''l'' 2) TYPE_STRUCT (Some (S_complex (demo_info ''e'' 0) ''elem'' [S_native (demo_info ''c'' 0) TYPE_CHAR])),
      S_map (demo_info ''m'' 3) TYPE_STRING TYPE_LONG (Some (S_string (demo_info ''k'' 0) (Some 8))) (Some (S_native (demo_info ''v'' 1) TYPE_LONG))]"

definition demo_schema :: "bool \<Rightarrow> stype" where
  "demo_schema nt = S_complex (demo_info ''r'' 0) ''demo'' (demo_fields nt)"

lemmas stored_defs = info_ok_def value_ok_def inner_storable_def key_storable_def is_inner_type_valid_def basic_types_def
  str_fits_def bytes_of_def

theorem schema_roundtrip_witness:
  "\<exists>m'. s_write (demo_schema True) 2 (replicate 200 0) = (Inr 101, m') \<and> length m' = 200
    \<and> read_schema 2 m' = (Inr (101, demo_schema False), m')"
proof -
  have "storable (demo_schema True)"
    unfolding demo_schema_def demo_fields_def demo_info_def by (simp add: stored_defs)
  moreover have "length (s_bytes (demo_schema True)) = 101"
    by (simp add: demo_schema_def demo_fields_def demo_info_def length_info_bytes length_str_bytes ext_c_def ext_d_def
        cons_bytes_def opt_bytes_def bytes_of_def)
  moreover have "s_kept (demo_schema True) = demo_schema False"
    by (simp add: demo_schema_def demo_fields_def demo_info_def kept_def)
  ultimately show ?thesis
    using schema_roundtrip [of "demo_info ''r'' 0" "''demo''" "demo_fields True" 2 "replicate 200 0"]
    unfolding demo_schema_def by auto
qed

end
