(* ===== verification/TypeChecks.thy ===== *)
theory TypeChecks
  imports TypeStored
begin

section \<open>What constraints accept (types/includes/__constraints.h, schema_helpers.h)\<close>

text \<open>
  The meaning of the constraints on integers, from the objects and from the text of a schema, and the
  values that no constraint accepts.
\<close>

subsection \<open>Integers\<close>

definition int_types :: "dtype list" where
  "int_types = [TYPE_CHAR, TYPE_SHORT, TYPE_INTEGER, TYPE_LONG, TYPE_TIMESTAMP]"

definition int_val :: "dtype \<Rightarrow> u8 list \<Rightarrow> int" where
  "int_val dt bs = (let n = bytes_nat bs; w = 8 * length bs in
     if dt = TYPE_TIMESTAMP \<or> n < 2 ^ (w - 1) then int n else int n - 2 ^ w)"

lemma num_of_int: "dt \<in> set int_types \<Longrightarrow> num_of dt bs = Some (int_val dt bs)"
  by (auto simp: int_types_def int_val_def signed_of_def unsigned_of_def Let_def)

lemma cpp_rel_int: "dt \<in> set int_types \<Longrightarrow>
    cpp_rel dt oper (Some (Scalar a)) (Some (Scalar b)) = Inr (rel_of oper (int_val dt a) (int_val dt b))"
  by (simp add: cpp_rel_def num_rel_def num_of_int)

lemma handler_compare_int: "dt \<in> set int_types \<Longrightarrow>
    \<exists>h. native_handler dt = Inr h \<and> (\<forall>a b oper. h_compare h (Some (Scalar b)) (Some (Scalar a)) oper
      = Inr (rel_of oper (int_val dt a) (int_val dt b)))"
  using num_of_int [of dt]
  by (auto simp: int_types_def native_handler_def dt_char_def dt_short_def dt_int_def dt_long_def dt_timestamp_def
      compare_with_def num_rel_def base_handler_def)

lemma in_values_int: "dt \<in> set int_types \<Longrightarrow>
    in_values dt (Scalar v) (map Scalar xs) = Inr (\<exists>x \<in> set xs. int_val dt v = int_val dt x)"
  by (induction xs) (auto simp: cpp_rel_int e_bind_def)

text \<open>C33. On the integer types a range constraint accepts the values between its
  bounds, a comparison those in the relation with its value, a list those equal to one of its members;
  negation complements the first two, and a negated list accepts nothing. None of them accepts null.\<close>

theorem constraint_semantics:
  assumes "dt \<in> set int_types"
  shows "c_validate (C_range nt dt (Some (Scalar a)) (Some (Scalar b))) (Some (Scalar v))
      = Inr ((int_val dt a \<le> int_val dt v \<and> int_val dt v \<le> int_val dt b) \<noteq> nt)
    \<and> c_validate (C_oper nt oper dt (Some (Scalar a))) (Some (Scalar v)) = Inr (rel_of oper (int_val dt v) (int_val dt a) \<noteq> nt)
    \<and> c_validate (C_value nt dt (map Scalar xs)) (Some (Scalar v)) = Inr ((\<exists>x \<in> set xs. int_val dt v = int_val dt x) \<and> \<not> nt)
    \<and> c_validate (C_range nt dt (Some (Scalar a)) (Some (Scalar b))) None = Inr False
    \<and> c_validate (C_oper nt oper dt (Some (Scalar a))) None = Inr False
    \<and> c_validate (C_value nt dt (map Scalar xs)) None = Inr False"
proof -
  have "c_validate (C_oper nt oper dt (Some (Scalar a))) (Some (Scalar v)) = Inr (rel_of oper (int_val dt v) (int_val dt a) \<noteq> nt)"
    using handler_compare_int [OF assms] by (auto simp: oper_validate_def e_bind_def)
  moreover have "c_validate (C_value nt dt (map Scalar xs)) (Some (Scalar v)) = Inr ((\<exists>x \<in> set xs. int_val dt v = int_val dt x) \<and> \<not> nt)"
    by (simp add: value_validate_def in_values_int [OF assms] e_bind_def)
  ultimately show ?thesis
    by (auto simp: range_validate_def oper_validate_def value_validate_def cpp_rel_int [OF assms] e_bind_def)
qed

theorem constraint_semantics_witness:
  "c_validate (C_range False TYPE_CHAR (Some (Scalar [0xFE])) (Some (Scalar [5]))) (Some (Scalar [0xFF])) = Inr True
   \<and> c_validate (C_oper True Op_GT TYPE_CHAR (Some (Scalar [0xFE]))) (Some (Scalar [0xFF])) = Inr False
   \<and> c_validate (C_value True TYPE_CHAR (map Scalar [[7], [9]])) (Some (Scalar [1])) = Inr False"
  using constraint_semantics [of TYPE_CHAR False "[0xFE]" "[5]" "[0xFF]"]
    constraint_semantics [of TYPE_CHAR True "[0xFE]" "[5]" "[0xFF]" Op_GT "[[7], [9]]"]
    constraint_semantics [of TYPE_CHAR True "[0xFE]" "[5]" "[1]" Op_GT "[[7], [9]]"]
  by (simp add: int_types_def int_val_def)

subsection \<open>From the text of a schema\<close>

lemma pow256: "(256::nat) ^ k = 2 ^ (8 * k)"
  by (simp add: power_mult)

lemma bytes_nat_int_bytes: "bytes_nat (int_bytes k i) = nat (i mod 2 ^ (8 * k))"
proof -
  have "nat (i mod 2 ^ (8 * k)) < 2 ^ (8 * k)"
    by (simp add: nat_less_iff)
  then show ?thesis by (simp add: int_bytes_def bytes_nat_nat_bytes pow256)
qed

lemma signed_of_int_bytes:
  assumes "- (2 ^ (8 * k - 1)) \<le> i" "i < 2 ^ (8 * k - 1)" "0 < k"
  shows "signed_of (int_bytes k i) = Some i"
proof -
  obtain w where w: "8 * k = Suc w" using assms(3) by (cases "8 * k") auto
  have len: "length (int_bytes k i) = k" by (simp add: int_bytes_def)
  have b: "bytes_nat (int_bytes k i) = nat (i mod 2 ^ Suc w)" by (simp add: bytes_nat_int_bytes w)
  show ?thesis
  proof (cases "0 \<le> i")
    case True
    then have "i mod 2 ^ Suc w = i" using assms(2) w by (intro mod_pos_pos_trivial) auto
    then show ?thesis using True assms(2) by (simp add: signed_of_def Let_def len b w nat_less_iff)
  next
    case False
    have "(i + 2 ^ Suc w) mod 2 ^ Suc w = i + 2 ^ Suc w"
      using False assms(1) w by (intro mod_pos_pos_trivial) auto
    then have "i mod 2 ^ Suc w = i + 2 ^ Suc w" by simp
    moreover have "\<not> i + 2 ^ Suc w < 2 ^ w" "0 \<le> i + 2 ^ Suc w"
      using assms(1) w zero_less_power [of "2::int" w] by (simp_all, linarith)
    ultimately show ?thesis by (simp add: signed_of_def Let_def len b w nat_less_iff)
  qed
qed

text \<open>The range of the types that are read with \<open>stoi\<close> and \<open>stol\<close>, as sizes in bytes.\<close>

definition text_types :: "(dtype \<times> nat) list" where
  "text_types = [(TYPE_SHORT, 2), (TYPE_INTEGER, 4), (TYPE_LONG, 8)]"

definition fits :: "nat \<Rightarrow> int \<Rightarrow> bool" where
  "fits k i = (- (2 ^ (8 * k - 1)) \<le> i \<and> i < 2 ^ (8 * k - 1))"

lemma parse_value_int:
  assumes "(dt, k) \<in> set text_types" "read_int s = Some i"
  shows "if fits k i then parse_value fp dt s = Inr (Scalar (int_bytes k i)) else \<exists>e. parse_value fp dt s = Inl e"
  using assms by (auto simp: text_types_def fits_def std_stoi_def std_stol_def std_sto_def parse_short_def e_bind_def)

lemma int_val_int_bytes:
  assumes "(dt, k) \<in> set text_types" "fits k i" shows "int_val dt (int_bytes k i) = i"
proof -
  have "dt \<in> set int_types" "num_of dt = signed_of" "0 < k"
    using assms(1) by (auto simp: text_types_def int_types_def)
  then show ?thesis using num_of_int [of dt "int_bytes k i"] assms(2)
    by (simp add: signed_of_int_bytes fits_def)
qed

lemma create_operator_int:
  assumes "(dt, k) \<in> set text_types" "read_int s = Some i" "oper \<noteq> Op_EQ"
  shows "create_operator fp (Some s) dt oper
    = e_bind (parse_value fp dt s) (\<lambda>v. Inr (C_oper False oper dt (Some v)))"
proof -
  have "s \<noteq> []" using assms(2) by (auto simp: read_int_def str_defs)
  moreover have "dt \<in> set basic_types" using assms(1) by (auto simp: text_types_def basic_types_def)
  ultimately show ?thesis using assms(3)
    by (cases oper) (simp_all add: create_operator_gt_def create_operator_gteq_def create_operator_lt_def
      create_operator_lteq_def create_oper_of_def)
qed

lemma cl_create_oper:
  assumes "parse_constraint_type kind = Inr ct" "get_constraint_type oper = Inr ct"
  shows "cl_create fp kind vals dt nt = e_bind (create_operator fp vals dt oper) (\<lambda>c. Inr (set_not nt c))"
proof -
  have "kind \<noteq> []" using assms(1) by (auto simp: parse_constraint_type_def str_defs)
  moreover have "ct \<in> {CONSTRAINT_GT, CONSTRAINT_LT, CONSTRAINT_GTEQ, CONSTRAINT_LTEQ}"
    using assms(2) by (cases oper) auto
  ultimately show ?thesis using assms by (cases oper) (auto simp: cl_create_def e_bind_def)
qed

text \<open>C20. A comparison that is created from its keyword in the schema text and
  the text of a number accepts exactly the values of the type in that relation with the number (those
  not in the relation when it is negated); a number outside the range of the type is refused when the
  constraint is created.\<close>

theorem constraint_from_text:
  assumes "(dt, k) \<in> set text_types" "read_int s = Some i"
    and "parse_constraint_type kind = Inr ct" "get_constraint_type oper = Inr ct"
  shows "if fits k i
    then \<exists>c. cl_create fp kind (Some s) dt nt = Inr c
      \<and> (\<forall>v. c_validate c (Some (Scalar v)) = Inr (rel_of oper (int_val dt v) i \<noteq> nt)) \<and> c_validate c None = Inr False
    else \<exists>e. cl_create fp kind (Some s) dt nt = Inl e"
proof -
  have dt: "dt \<in> set int_types" using assms(1) by (auto simp: text_types_def int_types_def)
  have "oper \<noteq> Op_EQ" using assms(4) by auto
  note eq = cl_create_oper [OF assms(3,4), of fp "Some s" dt nt]
    create_operator_int [OF assms(1,2) this, of fp] parse_value_int [OF assms(1,2), of fp]
  show ?thesis
  proof (cases "fits k i")
    case True
    have v: "c_validate (C_oper nt oper dt (Some (Scalar (int_bytes k i)))) (Some (Scalar v))
        = Inr (rel_of oper (int_val dt v) i \<noteq> nt)" for v
      using handler_compare_int [OF dt] int_val_int_bytes [OF assms(1) True] by (auto simp: oper_validate_def e_bind_def)
    show ?thesis using eq True v by (simp add: e_bind_def oper_validate_def)
  next
    case False
    then show ?thesis using eq by (auto simp: e_bind_def)
  qed
qed

theorem constraint_from_text_witness:
  "(\<exists>c. cl_create (\<lambda>_ _. Inl Std_error) ''LTEQ'' (Some '' -12x'') TYPE_SHORT False = Inr c
      \<and> (\<forall>v. c_validate c (Some (Scalar v)) = Inr (int_val TYPE_SHORT v \<le> - 12)) \<and> c_validate c None = Inr False)
   \<and> (\<exists>e. cl_create (\<lambda>_ _. Inl Std_error) ''gt'' (Some ''32768'') TYPE_SHORT True = Inl e)"
proof -
  have t: "(TYPE_SHORT, 2) \<in> set text_types" by (simp add: text_types_def)
  have r: "read_int '' -12x'' = Some (- 12)" "read_int ''32768'' = Some 32768"
    by (simp_all add: read_int_def read_nat_def char_digit_def str_defs)
  have p: "parse_constraint_type ''LTEQ'' = Inr CONSTRAINT_LTEQ" "parse_constraint_type ''gt'' = Inr CONSTRAINT_GT"
    by (simp_all add: parse_constraint_type_def str_defs bit_Suc_0_iff)
  show ?thesis
    using constraint_from_text [OF t r(1) p(1), of Op_LTEQ "\<lambda>_ _. Inl Std_error" False] constraint_from_text [OF t r(2) p(2), of Op_GT "\<lambda>_ _. Inl Std_error" True]
    by (simp add: fits_def)
qed

end
