(* ===== verification/TypedBlock.thy ===== *)
theory TypedBlock
  imports IndexedProps TypeSchema
begin

section \<open>Typed blocks (core/includes/typed_block.h, core/src/typed_block.cpp)\<close>

text \<open>
  A typed block is an indexed block whose records are values of one record type. Its file holds,
  between the block header and the data, the size of the stored definition, the definition, a count
  and the table of the typed indexes; \<open>tb_map\<close> are these bytes and \<open>bb_data\<close> of the block is the mapping
  from \<open>get_data_ptr\<close> on. The record functions of the class are not virtual: deletion, commit and
  rollback are those of \<open>IndexedBlock\<close>. The indexes themselves (\<open>typed_hash_index\<close>) are not modelled:
  opening one is an argument, and by \<open>typed_index_rejected\<close> no block has one.
\<close>

record typed_block =
  tb_x :: indexed_block
  tb_type :: "stype option"        \<comment> \<open>\<open>datetype\<close>\<close>
  tb_map :: mem
  tb_estimate :: nat               \<comment> \<open>\<open>estimated_record_size\<close>\<close>

definition BLOCK_MAX_INDEXES :: nat where "BLOCK_MAX_INDEXES = 16"

text \<open>\<open>sizeof (__index_type)\<close>: a flag, an enumeration, a \<open>uint64_t\<close>, 65 and 257 characters.\<close>

definition INDEX_TYPE_SIZE :: nat where "INDEX_TYPE_SIZE = 344"

definition tb_header_offset :: "nat \<Rightarrow> nat" where
  "tb_header_offset type_header_size = 8 + type_header_size + INDEX_TYPE_SIZE * BLOCK_MAX_INDEXES + 1"

definition on_xb :: "('a, indexed_block) cmd \<Rightarrow> ('a, typed_block) cmd" where
  "on_xb m t = (case m (tb_x t) of (r, x) \<Rightarrow> (r, t\<lparr>tb_x := x\<rparr>))"

text \<open>\<open>e\<close>: what a null pointer to the type leads to.\<close>

definition tb_get_type :: "exc \<Rightarrow> (stype, typed_block) cmd" where
  "tb_get_type e t = (case tb_type t of None \<Rightarrow> (Inl e, t) | Some ty \<Rightarrow> (Inr ty, t))"

text \<open>A function of the types on the mapping from a pointer on.\<close>

definition blk_slice :: "nat \<Rightarrow> 'a io \<Rightarrow> ('a, base_block) cmd" where
  "blk_slice off f b =
     (if length (bb_data b) < off then (Inl Mem_fault, b)
      else case f (drop off (bb_data b)) of (r, m) \<Rightarrow> (r, b\<lparr>bb_data := take off (bb_data b) @ m\<rparr>))"

subsection \<open>Creating\<close>

text \<open>\<open>create\<close> writes the size, the definition and an index count of 0 over the start of the data area.\<close>

definition tb_write_header :: "stype \<Rightarrow> (unit, base_block) cmd" where
  "tb_write_header ty =
     c_bind (blk_slice 0 (put_num 8 0 0)) (\<lambda>_.
     c_bind (blk_slice 8 (s_write ty 0)) (\<lambda>n.
     c_bind (blk_slice 0 (put_num 8 0 n)) (\<lambda>_.
     c_bind (blk_slice (8 + n) (put_num 1 0 0)) (\<lambda>_. c_ret ()))))"

definition tb_create :: "blk_env \<Rightarrow> string \<Rightarrow> nat \<Rightarrow> nat \<Rightarrow> string \<Rightarrow> block_usage \<Rightarrow> nat \<Rightarrow> nat \<Rightarrow> nat \<Rightarrow> bool
    \<Rightarrow> bool \<Rightarrow> bool \<Rightarrow> bool \<Rightarrow> bool \<Rightarrow> (string, typed_block) cmd" where
  "tb_create v uuid block_id parent_id filename usage block_size start_index est_record_size overwrite
       exists removed iexists iremoved =
     c_bind (tb_get_type Null_pointer) (\<lambda>ty.
     c_bind (on_xb (on_block (blk_create_block v uuid block_id parent_id filename usage INDEXED block_size start_index
               overwrite exists removed))) (\<lambda>r.
     c_bind (c_check Precondition (\<lambda>_. est_record_size > 0)) (\<lambda>_.
     c_bind (c_mod (\<lambda>t. t\<lparr>tb_estimate := est_record_size\<rparr>)) (\<lambda>_.
     c_bind (on_xb (c_mod (\<lambda>x. x\<lparr>xb_index := Some (fresh_index v)\<rparr>))) (\<lambda>_.
     c_bind (on_xb (\<lambda>x. on_index (bi_create_index v (bh_block_id (bb_header (xb_block x))) (bh_block_uid (bb_header (xb_block x)))
               (bb_filename (xb_block x)) (block_size div est_record_size mod 2 ^ 32)
               (bh_start_index (bb_header (xb_block x))) overwrite iexists iremoved) x)) (\<lambda>_.
     c_bind (on_xb (on_block (tb_write_header ty))) (\<lambda>_.
     c_bind (on_xb (xb_close v)) (\<lambda>_.
     c_bind (c_check Postcondition (\<lambda>_. r \<noteq> [])) (\<lambda>_. c_ret r)))))))))"

subsection \<open>Typed indexes\<close>

text \<open>The pointers of the table that are in use (\<open>find_used_indexes\<close>), and the first that is not.\<close>

definition tb_index_count :: "nat io" where
  "tb_index_count = c_bind (get_num 8 0) (\<lambda>thl. get_num 1 (8 + thl))"

fun tb_used_from :: "nat \<Rightarrow> nat \<Rightarrow> nat list io" where
  "tb_used_from off 0 = c_ret []"
| "tb_used_from off (Suc n) =
     c_bind (get_num 1 off) (\<lambda>used.
     c_bind (tb_used_from (off + INDEX_TYPE_SIZE) n) (\<lambda>is.
     c_ret (if used \<noteq> 0 then off # is else is)))"

definition tb_find_used_indexes :: "nat list io" where
  "tb_find_used_indexes = c_bind (get_num 8 0) (\<lambda>thl.
     c_bind tb_index_count (\<lambda>n. tb_used_from (8 + thl + 1) n))"

fun tb_free_from :: "nat \<Rightarrow> nat \<Rightarrow> nat option io" where
  "tb_free_from off 0 = c_ret None"
| "tb_free_from off (Suc n) =
     c_bind (get_num 1 off) (\<lambda>used. if used = 0 then c_ret (Some off) else tb_free_from (off + INDEX_TYPE_SIZE) n)"

definition tb_find_free_index_ptr :: "nat option io" where
  "tb_find_free_index_ptr = c_bind (get_num 8 0) (\<lambda>thl.
     c_bind tb_index_count (\<lambda>n. tb_free_from (8 + thl + 1) n))"

definition on_map :: "'a io \<Rightarrow> ('a, typed_block) cmd" where
  "on_map f t = (case f (tb_map t) of (r, m) \<Rightarrow> (r, t\<lparr>tb_map := m\<rparr>))"

text \<open>\<open>each f is\<close> runs \<open>f\<close> on the elements in order.\<close>

fun c_each :: "('a \<Rightarrow> (unit, 's) cmd) \<Rightarrow> 'a list \<Rightarrow> (unit, 's) cmd" where
  "c_each f [] = c_ret ()"
| "c_each f (x # xs) = c_bind (f x) (\<lambda>_. c_each f xs)"

text \<open>
  \<open>add_index\<close> runs in a transaction of its own; what it does once it has found a free pointer is the
  argument \<open>use\<close>. Every exception is replaced by an \<open>fs_base_error\<close> after a rollback.
\<close>

definition tb_add_index :: "blk_env \<Rightarrow> string \<Rightarrow> round list \<Rightarrow> (nat \<Rightarrow> string \<Rightarrow> (unit, typed_block) cmd)
    \<Rightarrow> typed_block \<Rightarrow> (unit, typed_block) res option" where
  "tb_add_index v uuid rounds use t =
     (case c_bind (on_map tb_index_count) (\<lambda>n.
           c_bind (c_check Precondition (\<lambda>_. n < BLOCK_MAX_INDEXES)) (\<lambda>_.
           c_assert Precondition (on_xb (on_block blk_is_writeable)))) t of
        (Inl e, t1) \<Rightarrow> Some (Inl e, t1)
      | (Inr _, t1) \<Rightarrow>
          (case xb_start_transaction v 0 [] uuid rounds (tb_x t1) of
             None \<Rightarrow> None
           | Some (Inl e, x) \<Rightarrow> Some (Inl e, t1\<lparr>tb_x := x\<rparr>)
           | Some (Inr tx, x) \<Rightarrow>
               (case c_bind (on_map tb_find_free_index_ptr) (\<lambda>p.
                     case p of None \<Rightarrow> c_throw Null_pointer | Some off \<Rightarrow> use off tx) (t1\<lparr>tb_x := x\<rparr>) of
                  (Inr _, t2) \<Rightarrow> Some (Inr (), t2)
                | (Inl _, t2) \<Rightarrow> Some (c_bind (on_xb (xb_rollback v tx)) (\<lambda>_. c_throw Fs_error) t2))))"

subsection \<open>Opening\<close>

text \<open>\<open>open\<close> reads the definition from the file; the data area starts behind the table of indexes.\<close>

definition tb_open :: "blk_env \<Rightarrow> (nat \<Rightarrow> (unit, typed_block) cmd) \<Rightarrow> nat \<Rightarrow> string \<Rightarrow> block_file option
    \<Rightarrow> index_file option \<Rightarrow> bool \<Rightarrow> (unit, typed_block) cmd" where
  "tb_open v open_index block_id filename file ifile for_update =
     c_bind (on_xb (on_block (blk_open_block v block_id filename file for_update))) (\<lambda>_.
     c_bind (on_xb (c_mod (\<lambda>x. x\<lparr>xb_index := Some (fresh_index v)\<rparr>))) (\<lambda>_.
     c_bind (on_xb (\<lambda>x. on_index (bi_open_index (bh_block_id (bb_header (xb_block x))) (bh_block_uid (bb_header (xb_block x)))
               (bb_filename (xb_block x)) ifile for_update) x)) (\<lambda>_.
     c_bind (on_xb (on_block (blk_slice 0 (get_num 8 0)))) (\<lambda>thl.
     c_bind (on_xb (on_block (blk_slice 8 (read_schema 0)))) (\<lambda>(_, ty).
     c_bind (c_mod (\<lambda>t. t\<lparr>tb_type := Some ty, tb_map := take (tb_header_offset thl) (bb_data (xb_block (tb_x t)))\<rparr>)) (\<lambda>_.
     c_bind (on_xb (on_block (c_mod (\<lambda>b. b\<lparr>bb_data := drop (tb_header_offset thl) (bb_data b),
         bb_write_ptr := (bh_write_state (bb_header b) = WRITABLE
               \<or> (for_update \<and> bh_write_state (bb_header b) = UPDATEABLE))\<rparr>)))) (\<lambda>_.
     c_bind (on_map tb_find_used_indexes) (\<lambda>used.
     c_bind (c_each open_index used) (\<lambda>_.
     on_xb (on_block (c_mod (\<lambda>b. b\<lparr>bb_available := True\<rparr>))))))))))))"

definition tb_close :: "blk_env \<Rightarrow> (unit, typed_block) cmd" where
  "tb_close v = on_xb (xb_close v)"

subsection \<open>Writing\<close>

text \<open>
  The header of the record is filled in step by step in the mapping, the sizes after the value has
  been written: when the type refuses the value, the index that the record took is not given back.
\<close>

definition blk_write_typed :: "blk_env \<Rightarrow> stype \<Rightarrow> tval option \<Rightarrow> string \<Rightarrow> (nat, base_block) cmd" where
  "blk_write_typed v ty source tx =
     c_bind (c_all [c_check State_unavailable bb_available,
                    c_check Null_pointer (\<lambda>_. source \<noteq> None),
                    c_assert Precondition blk_is_writeable,
                    c_assert Precondition (blk_in_transaction v),
                    blk_check_txid tx]) (\<lambda>_.
     c_bind (blk_get_write_ptr v) (\<lambda>off.
     c_bind (blk_poke off (replicate REC_HEADER_SIZE 0)) (\<lambda>_.
     c_bind (blk_get_next_index v) (\<lambda>index.
     c_bind (blk_get_write_offset v) (\<lambda>woff.
     let h = \<lparr>rh_index = index, rh_offset = woff, rh_state = R_DIRTY, rh_data_size = 0,
              rh_uncompressed_size = 0, rh_timestamp = unat (be_now v)\<rparr> in
     c_bind (blk_poke off (enc_rec_header h)) (\<lambda>_.
     c_bind (\<lambda>b. (handler_of ty RM_WRITE, b)) (\<lambda>hw.
     c_bind (blk_get_free_space v) (\<lambda>free.
     let free_s = sub64 free REC_HEADER_SIZE in
     c_bind (c_check Postcondition (\<lambda>_. free_s > 0)) (\<lambda>_.
     c_bind (blk_slice (off + REC_HEADER_SIZE) (h_write hw source 0 free_s)) (\<lambda>n.
     c_bind (blk_poke off (enc_rec_header (h\<lparr>rh_data_size := n, rh_uncompressed_size := n\<rparr>))) (\<lambda>_.
     c_bind (c_mod (blk_ri_update (\<lambda>r. r\<lparr>ri_used_bytes := add64 (ri_used_bytes r) n,
         ri_write_offset := add64 (ri_write_offset r) (REC_HEADER_SIZE + n)\<rparr>))) (\<lambda>_.
     c_bind (c_mod (blk_update_write_usage v (REC_HEADER_SIZE + n))) (\<lambda>_.
     c_bind (c_mod (\<lambda>b. b\<lparr>bb_header := (bb_header b)\<lparr>bh_update_time := be_now v\<rparr>\<rparr>)) (\<lambda>_.
     c_ret off))))))))))))))"

definition tb_write :: "blk_env \<Rightarrow> tval option \<Rightarrow> string \<Rightarrow> (nat, typed_block) cmd" where
  "tb_write v source tx =
     c_bind (c_check Null_pointer (\<lambda>_. source \<noteq> None)) (\<lambda>_.
     c_bind (tb_get_type Mem_fault) (\<lambda>ty.
     on_xb (c_bind (on_block (blk_write_typed v ty source tx)) (\<lambda>off x.
       case header_at (bb_data (xb_block x)) off of
         None \<Rightarrow> (Inl Mem_fault, x)
       | Some h \<Rightarrow>
           c_bind (on_index (bi_write_index v (rh_index h) (rh_offset h) (rh_data_size h) tx)) (\<lambda>_.
           c_ret (rh_index h)) x))))"

subsection \<open>Reading\<close>

definition blk_read_typed :: "stype \<Rightarrow> nat \<Rightarrow> nat \<Rightarrow> nat \<Rightarrow> (rec_header \<times> tval, base_block) cmd" where
  "blk_read_typed ty index off sz =
     c_bind (c_all [c_check State_unavailable bb_available,
       c_check Precondition (\<lambda>b. bh_start_index (bb_header b) \<le> index \<and> index \<le> bh_last_index (bb_header b))]) (\<lambda>_.
     c_bind (\<lambda>b. case header_at (bb_data b) off of None \<Rightarrow> (Inl Mem_fault, b) | Some h \<Rightarrow> (Inr h, b)) (\<lambda>h.
     c_bind (\<lambda>b. (handler_of ty RM_READ, b)) (\<lambda>hr.
     c_bind (blk_slice (off + REC_HEADER_SIZE) (h_read hr 0 (rh_data_size h))) (\<lambda>(_, st).
     case st of None \<Rightarrow> c_throw Null_pointer
     | Some d \<Rightarrow>
       c_bind (c_check Postcondition (\<lambda>_. rh_index h = index \<and> rh_offset h = off \<and> rh_data_size h = sz)) (\<lambda>_.
       c_ret (h, d))))))"

text \<open>The loop of \<open>read_struct\<close>: \<open>n\<close> indices are left before \<open>last_index\<close>. It gives the values and the
  bytes of the records it looked at.\<close>

fun tb_read_loop :: "blk_env \<Rightarrow> stype \<Rightarrow> nat \<Rightarrow> nat \<Rightarrow> nat \<Rightarrow> nat \<Rightarrow> (tval list \<times> nat, indexed_block) cmd" where
  "tb_read_loop v ty r_state index count 0 = c_ret ([], 0)"
| "tb_read_loop v ty r_state index count (Suc n) =
     (if count = 0 then c_ret ([], 0)
      else c_bind (on_index (bi_read_index v index (xb_all_states r_state))) (\<lambda>found.
        case found of
          None \<Rightarrow> tb_read_loop v ty r_state (index + 1) count n
        | Some (_, p) \<Rightarrow>
            c_bind (on_block (blk_read_typed ty (ip_index p) (ip_offset p) (ip_size p))) (\<lambda>(h, d).
            if read_skips r_state h
            then c_bind (tb_read_loop v ty r_state (index + 1) count n) (\<lambda>(ds, bytes). c_ret (ds, ip_size p + bytes))
            else c_bind (tb_read_loop v ty r_state (index + 1) (count - 1) n) (\<lambda>(ds, bytes).
                 c_ret (d # ds, ip_size p + bytes)))))"

definition tb_read_struct :: "blk_env \<Rightarrow> nat \<Rightarrow> nat \<Rightarrow> nat \<Rightarrow> (tval list, typed_block) cmd" where
  "tb_read_struct v index count r_state =
     c_bind (on_xb (on_block (c_all [c_check State_unavailable bb_available,
                              c_check Precondition (\<lambda>_. r_state \<noteq> R_FREE)]))) (\<lambda>_.
     c_bind (tb_get_type Mem_fault) (\<lambda>ty.
     on_xb (\<lambda>x.
       c_bind (tb_read_loop v ty r_state index count (bh_last_index (bb_header (xb_block x)) - index)) (\<lambda>(ds, bytes).
       c_bind (on_block (c_when (bytes > 0) (c_mod (blk_update_read_usage v bytes)))) (\<lambda>_. c_ret ds)) x)))"

end
