(* ===== verification/TypedSpec.thy ===== *)
theory TypedSpec
  imports TypedBlock TypeRoundtrip
begin

section \<open>What a typed block promises\<close>

text \<open>
  A typed write appends the chunk whose payload is the encoding of the value, as \<open>xb_write\<close> would for
  these bytes; a typed read through the index decodes the payloads. With \<open>IndexedSpec\<close> for the commit
  this gives the round trip of a transaction of typed values.
\<close>

subsection \<open>Writing\<close>

lemma slice_write:
  assumes "writes w e" "length e < mx" "mx < 2 ^ 63" "bb_data b = pre @ rest" "off = length pre" "length e < length rest"
  obtains post where "blk_slice off (w 0 mx) b = (Inr (length e), b\<lparr>bb_data := pre @ e @ post\<rparr>)"
    "length post = length rest - length e"
proof -
  obtain post where p: "w 0 mx ([] @ rest) = (Inr (length e), [] @ e @ post)" "length post = length rest - length e"
    by (rule writesE [OF assms(1-3) assms(6), of 0 "[]"]) auto
  then have "blk_slice off (w 0 mx) b = (Inr (length e), b\<lparr>bb_data := pre @ e @ post\<rparr>)"
    using assms(4,5) by (simp add: blk_slice_def)
  then show ?thesis using p(2) that by blast
qed

lemma slice_read:
  assumes "reads r e d" "length e \<le> mx" "mx < 2 ^ 64" "bb_data b = pre @ e @ post" "off = length pre"
  shows "blk_slice off (r 0 mx) b = (Inr (length e, Some d), b)"
proof -
  have "r 0 mx ([] @ e @ post) = (Inr (length e, Some d), [] @ e @ post)"
    using assms(1-3) unfolding reads_def by (metis add_0 list.size(3))
  then show ?thesis using assms(4,5) by (simp add: blk_slice_def)
qed

text \<open>\<open>typed_room b qs n\<close>: the block accepts a value of \<open>n\<close> bytes after the chunks \<open>qs\<close>; the space of two
  record headers is left under \<open>block_size\<close>, and one byte in the mapping.\<close>

definition typed_room :: "base_block \<Rightarrow> chunk list \<Rightarrow> nat \<Rightarrow> bool" where
  "typed_room b qs n \<longleftrightarrow> bb_write_ptr b \<and> bb_updateable b \<and> bh_write_state (bb_header b) = WRITABLE
     \<and> payload_bytes qs + n + 2 * REC_HEADER_SIZE < bh_block_size (bb_header b) \<and> bh_block_size (bb_header b) < 2 ^ 63
     \<and> length (enc_chunks qs) + REC_HEADER_SIZE + n < length (bb_data b)"

lemma typed_pokes:
  assumes "writes w e" "length e < mx" "mx < 2 ^ 63" "bb_data b = pre @ post" "off = length pre"
    "REC_HEADER_SIZE + length e < length post"
  obtains m1 m2 rest where "poke (pre @ post) off (replicate REC_HEADER_SIZE 0) = Some m1"
    "poke m1 off (enc_rec_header h0) = Some m2"
    "\<And>b'. bb_data b' = m2 \<Longrightarrow> blk_slice (off + REC_HEADER_SIZE) (w 0 mx) b'
       = (Inr (length e), b'\<lparr>bb_data := pre @ enc_rec_header h0 @ e @ rest\<rparr>)"
    "poke (pre @ enc_rec_header h0 @ e @ rest) off (enc_rec_header h) = Some (pre @ enc_chunk (h, e) @ rest)"
    "length rest = length post - REC_HEADER_SIZE - length e"
proof -
  let ?p = "drop REC_HEADER_SIZE post"
  have 1: "poke (pre @ post) off (replicate REC_HEADER_SIZE 0) = Some (pre @ replicate REC_HEADER_SIZE 0 @ ?p)"
    using poke_end' [of pre off "replicate REC_HEADER_SIZE 0" post] assms(5,6) by simp
  have 2: "poke (pre @ replicate REC_HEADER_SIZE 0 @ ?p) off (enc_rec_header h0) = Some (pre @ enc_rec_header h0 @ ?p)"
    by (rule poke_at) (use assms(5) in simp_all)
  obtain rest where r: "w 0 mx ([] @ ?p) = (Inr (length e), [] @ e @ rest)" "length rest = length ?p - length e"
    by (rule writesE [OF assms(1-3), of ?p 0 "[]"]) (use assms(6) in auto)
  have 3: "blk_slice (off + REC_HEADER_SIZE) (w 0 mx) b' = (Inr (length e), b'\<lparr>bb_data := pre @ enc_rec_header h0 @ e @ rest\<rparr>)"
    if "bb_data b' = pre @ enc_rec_header h0 @ ?p" for b'
    using that r(1) assms(5) by (simp add: blk_slice_def)
  have 4: "poke (pre @ enc_rec_header h0 @ e @ rest) off (enc_rec_header h) = Some (pre @ enc_rec_header h @ e @ rest)"
    by (rule poke_at) (use assms(5) in simp_all)
  show ?thesis
    by (rule that [OF 1 2 3]) (use 4 r(2) in \<open>simp_all add: enc_chunk_def\<close>)
qed

lemma held_free_space:
  assumes "blk_held v tx b" "bb_rollback b = Some ri"
    "bh_used_bytes (bb_header b) + ri_used_bytes ri + REC_HEADER_SIZE < bh_block_size (bb_header b)"
    "bh_block_size (bb_header b) < 2 ^ 63"
  shows "blk_get_free_space v b = (Inr (bh_block_size (bb_header b) - (bh_used_bytes (bb_header b) + ri_used_bytes ri + REC_HEADER_SIZE)), b)"
proof -
  have "add64 (add64 (bh_used_bytes (bb_header b)) (ri_used_bytes ri)) REC_HEADER_SIZE
      = bh_used_bytes (bb_header b) + ri_used_bytes ri + REC_HEADER_SIZE"
    using assms(3,4) by (simp add: add64_small)
  then show ?thesis
    using assms held_in_tx [OF assms(1)] held_facts [OF assms(1)] by (simp add: blk_get_free_space_def cmd_simps Let_def)
qed

lemma write_typed_eval:
  assumes ses: "blk_session v tx b" and hw: "handler_of ty RM_WRITE = Inr hw"
    and wr: "bb_write_ptr b" "bb_updateable b" "bh_write_state (bb_header b) = WRITABLE"
    and ri: "bb_rollback b = Some ri" and off: "ri_write_offset ri = off"
    and free: "bh_used_bytes (bb_header b) + ri_used_bytes ri + 2 * REC_HEADER_SIZE < bh_block_size (bb_header b)"
      "bh_block_size (bb_header b) < 2 ^ 63"
      "mx = bh_block_size (bb_header b) - (bh_used_bytes (bb_header b) + ri_used_bytes ri + 2 * REC_HEADER_SIZE)"
    and h0: "h0 = \<lparr>rh_index = ri_last_index ri, rh_offset = off, rh_state = R_DIRTY, rh_data_size = 0,
         rh_uncompressed_size = 0, rh_timestamp = unat (be_now v)\<rparr>"
    and p: "poke (bb_data b) off (replicate REC_HEADER_SIZE 0) = Some m1" "poke m1 off (enc_rec_header h0) = Some m2"
      "\<And>b'. bb_data b' = m2 \<Longrightarrow> blk_slice (off + REC_HEADER_SIZE) (h_write hw (Some d) 0 mx) b' = (Inr n, b'\<lparr>bb_data := m3\<rparr>)"
      "poke m3 off (enc_rec_header (h0\<lparr>rh_data_size := n, rh_uncompressed_size := n\<rparr>)) = Some m4"
  shows "blk_write_typed v ty (Some d) tx b = (Inr off, written v (blk_touch v b) m4
     (ri\<lparr>ri_last_index := add64 (ri_last_index ri) 1, ri_used_bytes := add64 (ri_used_bytes ri) n,
         ri_write_offset := add64 off (REC_HEADER_SIZE + n)\<rparr>) (REC_HEADER_SIZE + n))"
proof -
  define b0 where "b0 = blk_touch v b"
  have h0': "blk_held v tx b0" using session_touch_held [OF ses] by (simp add: b0_def)
  define b1 where "b1 = b0\<lparr>bb_data := m1\<rparr>"
  have h1: "blk_held v tx b1" using h0' by (simp add: b1_def held_simps)
  define b2 where "b2 = blk_ri_update (\<lambda>r. r\<lparr>ri_last_index := add64 (ri_last_index r) 1\<rparr>) b1"
  have h2: "blk_held v tx b2" using h1 unfolding b2_def by (rule held_ri_update) simp_all
  define b3 where "b3 = b2\<lparr>bb_data := m2\<rparr>"
  have h3: "blk_held v tx b3" using h2 by (simp add: b3_def held_simps)
  have r0: "bb_rollback b0 = Some ri" "bb_rollback b1 = Some ri" "bb_write_ptr b0"
    using ri wr by (simp_all add: b0_def b1_def)
  have r2: "bb_rollback b2 = Some (ri\<lparr>ri_last_index := add64 (ri_last_index ri) 1\<rparr>)"
    using r0 by (simp add: b2_def)
  have r3: "bb_rollback b3 = Some (ri\<lparr>ri_last_index := add64 (ri_last_index ri) 1\<rparr>)" "bb_header b3 = bb_header b"
    using r2 by (simp_all add: b3_def b2_def b1_def b0_def)
  have av: "bb_available b" using ses by (simp add: blk_session_def)
  have w: "blk_is_writeable b = (Inr True, b)"
    using av wr by (simp add: blk_is_writeable_def cmd_simps)
  have pk: "blk_poke off (replicate REC_HEADER_SIZE 0) b0 = (Inr (), b1)"
    using p(1) by (simp add: blk_poke_def b0_def b1_def)
  have pk2: "blk_poke off (enc_rec_header h0) b2 = (Inr (), b3)"
    using p(2) by (simp add: blk_poke_def b1_def b2_def b3_def)
  have fr: "blk_get_free_space v b3 = (Inr (mx + REC_HEADER_SIZE), b3)"
    using held_free_space [OF h3 r3(1)] r3(2) free by (simp add: REC_HEADER_SIZE_def)
  have "mx + REC_HEADER_SIZE < 2 ^ 64" "mx > 0" using free by (auto simp: REC_HEADER_SIZE_def)
  then have mx: "sub64 (mx + REC_HEADER_SIZE) REC_HEADER_SIZE = mx" "mx > 0"
    by (simp_all add: sub64_le)
  have sl: "blk_slice (off + REC_HEADER_SIZE) (h_write hw (Some d) 0 mx) b3 = (Inr n, b3\<lparr>bb_data := m3\<rparr>)"
    by (rule p(3)) (simp add: b3_def)
  have pk3: "blk_poke off (enc_rec_header (h0\<lparr>rh_data_size := n, rh_uncompressed_size := n\<rparr>)) (b3\<lparr>bb_data := m3\<rparr>)
      = (Inr (), b3\<lparr>bb_data := m4\<rparr>)"
    using p(4) by (simp add: blk_poke_def)
  note steps = session_in_tx [OF ses, folded b0_def] held_check_txid [OF h0'] held_write_ptr(1) [OF h0' r0(3,1)]
    held_next_index [OF h1 r0(2), folded b2_def] held_write_offset [OF h2 r2]
  have "blk_write_typed v ty (Some d) tx b = (Inr off,
      (let b4 = blk_update_write_usage v (REC_HEADER_SIZE + n)
        (blk_ri_update (\<lambda>r. r\<lparr>ri_used_bytes := add64 (ri_used_bytes r) n,
         ri_write_offset := add64 (ri_write_offset r) (REC_HEADER_SIZE + n)\<rparr>) (b3\<lparr>bb_data := m4\<rparr>)) in
       b4\<lparr>bb_header := (bb_header b4)\<lparr>bh_update_time := be_now v\<rparr>\<rparr>))"
    using av off mx(2) unfolding blk_write_typed_def
    by (simp add: cmd_simps w steps pk hw Let_def h0 [symmetric] pk2 fr mx(1) sl pk3 [unfolded h0, simplified])
  also have "blk_ri_update (\<lambda>r. r\<lparr>ri_used_bytes := add64 (ri_used_bytes r) n,
         ri_write_offset := add64 (ri_write_offset r) (REC_HEADER_SIZE + n)\<rparr>) (b3\<lparr>bb_data := m4\<rparr>)
      = b0\<lparr>bb_data := m4, bb_rollback := Some (ri\<lparr>ri_last_index := add64 (ri_last_index ri) 1,
          ri_used_bytes := add64 (ri_used_bytes ri) n,
          ri_write_offset := add64 off (REC_HEADER_SIZE + n)\<rparr>)\<rparr>"
    using r0 off by (simp add: blk_ri_update_def b3_def b2_def b1_def)
  finally show ?thesis
    by (simp add: written_def b0_def Let_def)
qed

text \<open>A typed write leaves the block as a write of the encoded value does.\<close>

lemma write_typed_spec:
  assumes ses: "blk_session v tx b" and rep: "blk_repr b cs ps" and txr: "blk_tx b cs ps"
    and hw: "handler_of ty RM_WRITE = Inr hw" "writes (h_write hw (Some d)) e" and room: "typed_room b (cs @ ps) (length e)"
  obtains b' where
    "blk_write_typed v ty (Some d) tx b = (Inr (length (enc_chunks (cs @ ps))), b')"
    "header_at (bb_data b') (length (enc_chunks (cs @ ps))) = Some (fst (new_chunk v b cs ps (length e) e))"
    "blk_held v tx b'" "blk_repr b' cs (ps @ [new_chunk v b cs ps (length e) e])"
    "blk_tx b' cs (ps @ [new_chunk v b cs ps (length e) e])" "blk_frame b b'"
    "blk_releasable v b' = blk_releasable v b"
proof -
  let ?c = "new_chunk v b cs ps (length e) e" and ?off = "length (enc_chunks (cs @ ps))"
  let ?h0 = "(fst ?c)\<lparr>rh_data_size := 0, rh_uncompressed_size := 0\<rparr>"
  let ?mx = "bh_block_size (bb_header b) - (bh_used_bytes (bb_header b) + payload_bytes ps + 2 * REC_HEADER_SIZE)"
  obtain ri where ri: "bb_rollback b = Some ri" "ri_in_transaction ri" "ri_transaction_id ri = tx"
    using ses by (auto simp: blk_session_def)
  then have ri': "ri_write_offset ri = ?off" "ri_used_bytes ri = payload_bytes ps"
    "ri_last_index ri = bh_start_index (bb_header b) + length cs + length ps"
    using txr by (auto simp: blk_tx_def)
  obtain post where data: "bb_data b = enc_chunks (cs @ ps) @ post"
    using rep by (auto simp: blk_repr_def)
  have u: "bh_used_bytes (bb_header b) = payload_bytes cs" using rep by (simp add: blk_repr_def)
  have rm: "bb_write_ptr b" "bb_updateable b" "bh_write_state (bb_header b) = WRITABLE"
    "REC_HEADER_SIZE + length e < length post" "length e < ?mx" "?mx < 2 ^ 63"
    using room data u by (auto simp: typed_room_def)
  obtain m1 m2 rest where p: "poke (bb_data b) ?off (replicate REC_HEADER_SIZE 0) = Some m1"
    "poke m1 ?off (enc_rec_header ?h0) = Some m2"
    "\<And>b'. bb_data b' = m2 \<Longrightarrow> blk_slice (?off + REC_HEADER_SIZE) (h_write hw (Some d) 0 ?mx) b'
       = (Inr (length e), b'\<lparr>bb_data := enc_chunks (cs @ ps) @ enc_rec_header ?h0 @ e @ rest\<rparr>)"
    "poke (enc_chunks (cs @ ps) @ enc_rec_header ?h0 @ e @ rest) ?off (enc_rec_header (fst ?c)) = Some (enc_chunks (cs @ ps) @ enc_chunk (fst ?c, e) @ rest)"
    "length rest = length post - REC_HEADER_SIZE - length e"
    using typed_pokes [OF hw(2) rm(5,6) data refl rm(4), of ?h0 "fst ?c"] data by auto
  let ?m4 = "enc_chunks (cs @ ps) @ enc_chunk ?c @ rest"
  let ?ri = "ri\<lparr>ri_last_index := add64 (ri_last_index ri) 1, ri_used_bytes := add64 (ri_used_bytes ri) (length e),
         ri_write_offset := add64 ?off (REC_HEADER_SIZE + length e)\<rparr>"
  let ?b = "written v (blk_touch v b) ?m4 ?ri (REC_HEADER_SIZE + length e)"
  have ev: "blk_write_typed v ty (Some d) tx b = (Inr ?off, ?b)"
    by (rule write_typed_eval [OF ses hw(1) rm(1-3) ri(1) ri'(1) _ _ _ _ p(1,2,3)])
      (use room p(4) u ri' in \<open>simp_all add: typed_room_def new_chunk_def\<close>)
  have fits: "blk_fits v b (cs @ ps) (length e)"
    using room by (simp add: typed_room_def blk_fits_def)
  have bnd: "bh_start_index (bb_header b) + length (bb_data b) < 2 ^ 63"
    using rep by (simp add: blk_repr_def)
  have fit: "?off + (REC_HEADER_SIZE + length e) \<le> length (bb_data b)"
    using fits by (simp add: blk_fits_def)
  have cnt: "length (cs @ ps) \<le> ?off"
    using enc_chunks_count [of "cs @ ps"] by (simp add: REC_HEADER_SIZE_def)
  have a: "add64 ?off (REC_HEADER_SIZE + length e) = ?off + (REC_HEADER_SIZE + length e)"
    "add64 (ri_last_index ri) 1 = ri_last_index ri + 1"
    "add64 (ri_used_bytes ri) (length e) = ri_used_bytes ri + length e"
    using bnd fit cnt ri' payload_le_enc [of ps] by (simp_all add: add64_small)
  have len: "length ?m4 = length (bb_data b)"
    using rm(4) data p(5) by (simp add: new_chunk_def)
  have c_ok: "chunks_ok (bh_start_index (bb_header b)) 0 ((cs @ ps) @ [?c])"
    using new_chunk_ok [OF rep fits, of "length e"] bnd fit by simp
  have rep': "blk_repr ?b cs (ps @ [?c])"
    using rep c_ok len bnd by (auto simp: blk_repr_def new_chunk_def)
  have hd: "header_at (bb_data ?b) ?off = Some (fst ?c)"
    using header_at_chunk [OF _ refl, of ?c "enc_chunks (cs @ ps)" rest] c_ok by (simp add: chunks_ok_append)
  show ?thesis
  proof (rule that [OF ev hd _ rep'])
    show "blk_held v tx ?b"
      using session_touch_held [OF ses] by (rule written_held) (simp_all add: ri)
    show "blk_tx ?b cs (ps @ [?c])"
      using a ri' by (simp add: blk_tx_def new_chunk_def)
    show "blk_frame b ?b"
      using len by (auto simp: blk_frame_def)
    show "blk_releasable v ?b = blk_releasable v b"
      using releasable_cong [of ?b "blk_touch v b"] by simp
  qed
qed

lemma on_xb_run: "m (tb_x t) = (r, x) \<Longrightarrow> on_xb m t = (r, t\<lparr>tb_x := x\<rparr>)"
  by (simp add: on_xb_def)

lemma tb_get_type_run: "tb_type t = Some ty \<Longrightarrow> tb_get_type e t = (Inr ty, t)"
  by (simp add: tb_get_type_def)

lemma tb_write_spec:
  assumes run: "xb_running v tx (tb_x t) cs ps" and ty: "tb_type t = Some ty" "handler_of ty RM_WRITE = Inr hw"
    "writes (h_write hw (Some d)) e" and room: "typed_room (xb_block (tb_x t)) (cs @ ps) (length e)"
    and xroom: "xb_room (tb_x t) (length (cs @ ps))"
  obtains x' where
    "tb_write v (Some d) tx t = (Inr (bh_start_index (bb_header (xb_block (tb_x t))) + length (cs @ ps)), t\<lparr>tb_x := x'\<rparr>)"
    "xb_running v tx x' cs (ps @ [new_chunk v (xb_block (tb_x t)) cs ps (length e) e])" "xb_frame (tb_x t) x'"
proof -
  let ?x = "tb_x t"
  let ?b = "xb_block ?x"
  let ?s = "bh_start_index (bb_header ?b)" and ?c = "new_chunk v ?b cs ps (length e) e" and ?off = "length (enc_chunks (cs @ ps))"
  have r: "blk_session v tx ?b" "blk_releasable v ?b" "xb_repr ?x cs ps" "xb_tx ?x tx cs ps"
    using run by (simp_all add: xb_running_def)
  obtain ix where ix: "xb_index ?x = Some ix" "blk_repr ?b cs ps"
    "bi_repr ix (map ip_of cs) (map ip_of ps)" "ih_start_index (bi_header ix) = ?s"
    by (rule xb_reprE [OF r(3)])
  have t': "blk_tx ?b cs ps" "bi_tx ix tx (map ip_of cs) (map ip_of ps)"
    using r(4) ix(1) by (simp_all add: xb_tx_def)
  obtain b' where b': "blk_write_typed v ty (Some d) tx ?b = (Inr ?off, b')" "header_at (bb_data b') ?off = Some (fst ?c)"
    "blk_held v tx b'" "blk_repr b' cs (ps @ [?c])" "blk_tx b' cs (ps @ [?c])" "blk_frame ?b b'"
    "blk_releasable v b' = blk_releasable v ?b"
    by (rule write_typed_spec [OF r(1) ix(2) t'(1) ty(2,3) room])
  have ne: "tx \<noteq> []" using r(1) by (simp add: blk_session_def)
  have small: "?off < 2 ^ 64" "length e < 2 ^ 64"
    using room ix(2) by (simp_all add: typed_room_def blk_repr_def)
  have rm: "length (map ip_of cs @ map ip_of ps) * INDEX_PTR_SIZE + INDEX_PTR_SIZE \<le> length (bi_data ix)"
    "length (bi_data ix) < length (map ip_of cs @ map ip_of ps) * INDEX_PTR_SIZE + INDEX_HEADER_SIZE
      \<or> length (map ip_of cs @ map ip_of ps) * INDEX_PTR_SIZE + INDEX_HEADER_SIZE + INDEX_PTR_SIZE \<le> length (bi_data ix)"
    "ih_write_state (bi_header ix) = WRITABLE"
    using xroom ix(1) by (simp_all add: xb_room_def)
  let ?e = "new_entry ix (map ip_of cs @ map ip_of ps) ?off (length e)"
  obtain ix' where ix': "bi_write_index v (ih_start_index (bi_header ix) + length (map ip_of cs @ map ip_of ps))
      ?off (length e) tx ix = (Inr (length (map ip_of cs @ map ip_of ps) * INDEX_PTR_SIZE), ix')"
    "bi_repr ix' (map ip_of cs) (map ip_of ps @ [?e])" "bi_tx ix' tx (map ip_of cs) (map ip_of ps @ [?e])"
    "bi_header ix' = bi_header ix" "bi_deletes ix' = bi_deletes ix" "length (bi_data ix') = length (bi_data ix)"
    by (rule write_index_spec [OF ix(3) t'(2) ne rm(3,1,2) small])
  have e: "?e = ip_of ?c"
    using ix(4) by (simp add: new_entry_def ip_of_def new_chunk_def)
  let ?x' = "?x\<lparr>xb_block := b', xb_index := Some ix'\<rparr>"
  have oi: "on_index (bi_write_index v (?s + length (cs @ ps)) ?off (length e) tx) (?x\<lparr>xb_block := b'\<rparr>)
      = (Inr (length (map ip_of cs @ map ip_of ps) * INDEX_PTR_SIZE), ?x')"
    using ix'(1) ix(1,4) by (simp add: on_index_def)
  have ob: "on_block (blk_write_typed v ty (Some d) tx) ?x = (Inr ?off, ?x\<lparr>xb_block := b'\<rparr>)"
    by (rule on_block_run) (rule b'(1))
  have h: "rh_index (fst ?c) = ?s + length (cs @ ps)" "rh_offset (fst ?c) = ?off" "rh_data_size (fst ?c) = length e"
    by (simp_all add: new_chunk_def)
  have ev: "tb_write v (Some d) tx t = (Inr (?s + length (cs @ ps)), t\<lparr>tb_x := ?x'\<rparr>)"
    using ob oi b'(2) h tb_get_type_run [OF ty(1)] by (simp add: tb_write_def on_xb_def cmd_simps)
  show ?thesis
    by (rule that [OF ev]) (use b' ix' ix e frame_fields(1) [OF b'(6)] held_session [OF b'(3)] r(2) in
        \<open>simp_all add: xb_running_def xb_repr_def xb_tx_def xb_frame_def\<close>)
qed

subsection \<open>Reading\<close>

definition tb_holds :: "stype \<Rightarrow> chunk list \<Rightarrow> tval list \<Rightarrow> bool" where
  "tb_holds ty cs ds \<longleftrightarrow> list_all2 (\<lambda>c d. k_fits (s_codec ty) d \<and> snd c = k_enc (s_codec ty) d) cs ds"

lemma tb_holdsD:
  assumes "tb_holds ty cs ds" "n < length cs"
  shows "k_fits (s_codec ty) (ds ! n)" "snd (cs ! n) = k_enc (s_codec ty) (ds ! n)" "n < length ds"
  using assms list_all2_nthD [of _ cs ds n] list_all2_lengthD [of _ cs ds] by (auto simp: tb_holds_def)

lemma read_typed_spec:
  assumes rep: "blk_repr b cs ps" and av: "bb_available b" and n: "n < length cs"
    and hr: "handler_of ty RM_READ = Inr hr" "reads (h_read hr) (snd (cs ! n)) d"
  shows "blk_read_typed ty (rh_index (fst (cs ! n))) (rh_offset (fst (cs ! n))) (rh_data_size (fst (cs ! n))) b
    = (Inr (fst (cs ! n), d), b)"
proof -
  have ok: "chunks_ok (bh_start_index (bb_header b)) 0 (cs @ ps)" and bnd: "length (bb_data b) < 2 ^ 64"
    and last: "bh_last_index (bb_header b) = bh_start_index (bb_header b) + length cs"
    using rep by (simp_all add: blk_repr_def)
  have n': "n < length (cs @ ps)" using n by simp
  have nn: "(cs @ ps) ! n = cs ! n" using n by (simp add: nth_append)
  note c = chunks_ok_nth [OF ok n', unfolded nn]
  obtain post where data: "bb_data b = enc_chunks (cs @ ps) @ post"
    using rep by (auto simp: blk_repr_def)
  let ?pre = "enc_chunks (take n (cs @ ps))"
  obtain rest where at: "bb_data b = ?pre @ enc_chunk (cs ! n) @ rest"
    using split_chunk [OF n', of post] data nn by metis
  have h: "header_at (bb_data b) (length ?pre) = Some (fst (cs ! n))"
    using header_at_chunk [OF _ refl, of "cs ! n" ?pre rest] c at by simp
  have "bb_data b = (?pre @ enc_rec_header (fst (cs ! n))) @ snd (cs ! n) @ rest"
    using at by (simp add: enc_chunk_def)
  then have sl: "blk_slice (length ?pre + REC_HEADER_SIZE) (h_read hr 0 (rh_data_size (fst (cs ! n)))) b
      = (Inr (length (snd (cs ! n)), Some d), b)"
    by (intro slice_read [OF hr(2), of _ _ "?pre @ enc_rec_header (fst (cs ! n))" rest]) (use c bnd at in \<open>auto simp: enc_chunk_def\<close>)
  have "rh_offset (fst (cs ! n)) = length ?pre" using c by simp
  then show ?thesis
    using av n last h sl c hr(1) by (simp add: blk_read_typed_def cmd_simps)
qed

text \<open>The values of the chunks that a read selects.\<close>

definition tb_shown :: "stype \<Rightarrow> nat \<Rightarrow> (chunk \<times> tval) list \<Rightarrow> tval list" where
  "tb_shown ty st cds = [k_back (s_codec ty) d. (c, d) \<leftarrow> cds, xb_selects st c]"

lemma tb_shown_simps [simp]:
  "tb_shown ty st [] = []"
  "tb_shown ty st ((c, d) # cds) = (if xb_selects st c then [k_back (s_codec ty) d] else []) @ tb_shown ty st cds"
  by (simp_all add: tb_shown_def)

lemma tb_read_loop_spec:
  assumes "xb_repr x cs ps" "bb_available (xb_block x)" "n + k = length cs" "tb_holds ty cs ds"
    "handler_of ty RM_READ = Inr hr" "implements hr (s_codec ty)"
  shows "\<exists>x' bytes. tb_read_loop v ty st (bh_start_index (bb_header (xb_block x)) + n) count k x =
    (Inr (take count (tb_shown ty st (drop n (zip cs ds))), bytes), x')
    \<and> xb_repr x' cs ps \<and> xb_block x' = xb_block x"
  using assms(1-3)
proof (induction k arbitrary: n count x)
  case 0
  then show ?case by (simp add: cmd_simps)
next
  case (Suc k)
  let ?s = "bh_start_index (bb_header (xb_block x))" and ?d = "k_back (s_codec ty) (ds ! n)"
  have n: "n < length cs" using Suc.prems(3) by simp
  note d = tb_holdsD [OF assms(4) n]
  obtain ix where ix: "xb_index x = Some ix" "blk_repr (xb_block x) cs ps"
    "bi_repr ix (map ip_of cs) (map ip_of ps)" "ih_start_index (bi_header ix) = ?s"
    by (rule xb_reprE [OF Suc.prems(1)])
  have dr: "drop n (zip cs ds) = (cs ! n, ds ! n) # drop (Suc n) (zip cs ds)"
    using n d(3) by (simp flip: Cons_nth_drop_Suc)
  have states: "rh_state (fst (cs ! n)) = R_READABLE \<or> rh_state (fst (cs ! n)) = R_DELETED"
    using ix(2) n by (simp add: blk_repr_def)
  have ro: "on_index (bi_read_index v (?s + n) (xb_all_states st)) x =
      (if xb_all_states st \<or> rh_state (fst (cs ! n)) = R_READABLE
       then (Inr (Some (n * INDEX_PTR_SIZE, ip_of (cs ! n))), x\<lparr>xb_index := Some (bi_update_read_usage v INDEX_PTR_SIZE ix)\<rparr>)
       else (Inr None, x))"
    using read_index_spec [OF ix(3), of n v "xb_all_states st"] n ix(1,4) states
    by (auto simp: on_index_def ip_state_of_def index_states record_states)
  let ?x1 = "x\<lparr>xb_index := Some (bi_update_read_usage v INDEX_PTR_SIZE ix)\<rparr>"
  have rep1: "xb_repr ?x1 cs ps"
    by (rule xb_repr_index [OF ix(1) _ Suc.prems(1)]) simp
  have "reads (h_read hr) (snd (cs ! n)) ?d"
    using implementsD(2) [OF assms(6) d(1)] d(2) by simp
  then have rec: "on_block (blk_read_typed ty (rh_index (fst (cs ! n))) (rh_offset (fst (cs ! n))) (rh_data_size (fst (cs ! n)))) ?x1
      = (Inr (fst (cs ! n), ?d), ?x1)"
    using read_typed_spec [OF ix(2) Suc.prems(2) n assms(5)] by (simp add: on_block_def)
  have ih: "\<exists>x' bytes. tb_read_loop v ty st (?s + Suc n) m k y =
      (Inr (take m (tb_shown ty st (drop (Suc n) (zip cs ds))), bytes), x')
      \<and> xb_repr x' cs ps \<and> xb_block x' = xb_block y" if "xb_repr y cs ps" "xb_block y = xb_block x" for m y
    using Suc.IH [OF that(1), of "Suc n" m] that(2) Suc.prems(2,3) by simp
  show ?case
  proof (cases count)
    case 0
    then show ?thesis using Suc.prems(1) by (simp add: cmd_simps)
  next
    case (Suc m)
    show ?thesis
    proof (cases "xb_all_states st \<or> rh_state (fst (cs ! n)) = R_READABLE")
      case False
      then have "\<not> xb_selects st (cs ! n)"
        using states by (auto simp: xb_selects_def xb_all_states_def)
      then show ?thesis
        using ro False ih [OF Suc.prems(1) refl, of count] dr Suc by (simp add: cmd_simps)
    next
      case True
      then have "read_skips st (fst (cs ! n)) = (\<not> xb_selects st (cs ! n))"
        using states by (auto simp: xb_selects_def xb_all_states_def read_skips_def record_states)
      then show ?thesis
        using ro True rec ih [OF rep1, of count] ih [OF rep1, of m] dr Suc
        by (cases "xb_selects st (cs ! n)") (auto simp: cmd_simps)
    qed
  qed
qed

lemma tb_read_spec:
  assumes rep: "xb_repr (tb_x t) cs ps" and av: "bb_available (xb_block (tb_x t))" and n: "n \<le> length cs" and st: "st \<noteq> R_FREE"
    and ty: "tb_type t = Some ty" "s_wf ty" "tb_holds ty cs ds"
  shows "fst (tb_read_struct v (bh_start_index (bb_header (xb_block (tb_x t))) + n) count st t) =
      Inr (take count (tb_shown ty st (drop n (zip cs ds))))"
proof -
  let ?x = "tb_x t"
  obtain hr where hr: "handler_of ty RM_READ = Inr hr" "implements hr (s_codec ty)"
    using native_read_mode [OF ty(2)] by blast
  have k: "bh_last_index (bb_header (xb_block ?x)) - (bh_start_index (bb_header (xb_block ?x)) + n) = length cs - n"
    using rep by (auto simp: xb_repr_def blk_repr_def)
  have ck: "c_bind (on_xb (on_block (c_all [c_check State_unavailable bb_available, c_check Precondition (\<lambda>_. st \<noteq> R_FREE)]))) k t
      = k () t" for k :: "unit \<Rightarrow> (tval list, typed_block) cmd"
    using av st by (simp add: on_xb_def on_block_def cmd_simps)
  obtain x' bytes where l: "tb_read_loop v ty st (bh_start_index (bb_header (xb_block ?x)) + n) count (length cs - n) ?x =
    (Inr (take count (tb_shown ty st (drop n (zip cs ds))), bytes), x')"
    using tb_read_loop_spec [OF rep av _ ty(3) hr, of n "length cs - n" v st count] n by auto
  obtain y where y: "on_block (c_when (bytes > 0) (c_mod (blk_update_read_usage v bytes))) x' = (Inr (), y)"
    by (cases "0 < bytes") (auto simp: on_block_def c_when_def c_mod_def c_ret_def)
  show ?thesis
    unfolding tb_read_struct_def ck using l y
    by (simp add: tb_get_type_run [OF ty(1)] c_bind_Inr on_xb_def k c_ret_def)
qed

end
