(* ===== verification/TypedProps.thy ===== *)
theory TypedProps
  imports TypedSpec
begin

section \<open>Properties of typed blocks\<close>

subsection \<open>A transaction of values\<close>

fun tb_write_all :: "blk_env \<Rightarrow> tval list \<Rightarrow> string \<Rightarrow> (nat list, typed_block) cmd" where
  "tb_write_all v [] tx = c_ret []"
| "tb_write_all v (d # ds) tx =
     c_bind (tb_write v (Some d) tx) (\<lambda>i. c_bind (tb_write_all v ds tx) (\<lambda>is. c_ret (i # is)))"

definition typed_rooms :: "base_block \<Rightarrow> chunk list \<Rightarrow> u8 list list \<Rightarrow> bool" where
  "typed_rooms b qs es \<longleftrightarrow> bb_write_ptr b \<and> bb_updateable b \<and> bh_write_state (bb_header b) = WRITABLE
     \<and> payload_bytes qs + length (concat es) + 2 * REC_HEADER_SIZE < bh_block_size (bb_header b)
     \<and> bh_block_size (bb_header b) < 2 ^ 63
     \<and> length (enc_chunks qs) + length es * REC_HEADER_SIZE + length (concat es) < length (bb_data b)"

lemma typed_rooms_one: "typed_rooms b qs (e # es) \<Longrightarrow> typed_room b qs (length e)"
  by (auto simp: typed_rooms_def typed_room_def)

lemma typed_rooms_next:
  assumes "typed_rooms b qs (e # es)" "blk_frame b b'"
  shows "typed_rooms b' (qs @ [new_chunk v b cs ps (length e) e]) es"
  using assms frame_fields [OF assms(2)] unfolding typed_rooms_def blk_frame_def
  by (simp add: new_chunk_def)

lemma tb_holds_snoc:
  "tb_holds ty ps ds \<Longrightarrow> k_fits (s_codec ty) d \<Longrightarrow> tb_holds ty (ps @ [new_chunk v b cs ps' n (k_enc (s_codec ty) d)]) (ds @ [d])"
  by (simp add: tb_holds_def list_all2_appendI new_chunk_def)

lemma tb_write_all_spec:
  assumes "xb_running v tx (tb_x t) cs ps" "tb_type t = Some ty" "handler_of ty RM_WRITE = Inr hw" "implements hw (s_codec ty)"
    "\<forall>d \<in> set ds. k_fits (s_codec ty) d" "typed_rooms (xb_block (tb_x t)) (cs @ ps) (map (k_enc (s_codec ty)) ds)"
    "xi_room (tb_x t) (length (cs @ ps) + length ds)" "tb_holds ty ps pvs"
  shows "\<exists>x' qs. tb_write_all v ds tx t = (Inr [bh_start_index (bb_header (xb_block (tb_x t))) + length (cs @ ps)
        ..< bh_start_index (bb_header (xb_block (tb_x t))) + length (cs @ ps) + length ds], t\<lparr>tb_x := x'\<rparr>)
    \<and> xb_running v tx x' cs qs \<and> tb_holds ty qs (pvs @ ds) \<and> xb_frame (tb_x t) x'"
  using assms
proof (induction ds arbitrary: t ps pvs)
  case Nil
  have "xb_index (tb_x t) \<noteq> None" using Nil.prems(7) by (auto simp: xi_room_def)
  then show ?case
    using Nil xb_frame_refl by (intro exI [of _ "tb_x t"] exI [of _ ps]) (simp add: cmd_simps)
next
  case (Cons d ds)
  let ?e = "k_enc (s_codec ty) d" and ?s = "bh_start_index (bb_header (xb_block (tb_x t)))"
  let ?c = "new_chunk v (xb_block (tb_x t)) cs ps (length ?e) ?e"
  have fd: "k_fits (s_codec ty) d" using Cons.prems(5) by simp
  have rm: "typed_room (xb_block (tb_x t)) (cs @ ps) (length ?e)"
    using typed_rooms_one Cons.prems(6) by fastforce
  have xr: "xb_room (tb_x t) (length (cs @ ps))"
    using Cons.prems(7) by (intro xi_room_xb) (auto simp: xi_room_def algebra_simps)
  obtain x1 where x1: "tb_write v (Some d) tx t = (Inr (?s + length (cs @ ps)), t\<lparr>tb_x := x1\<rparr>)"
    "xb_running v tx x1 cs (ps @ [?c])" "xb_frame (tb_x t) x1"
    by (rule tb_write_spec [OF Cons.prems(1-3) implementsD(1) [OF Cons.prems(4) fd] rm xr])
  have fr: "blk_frame (xb_block (tb_x t)) (xb_block x1)" using x1(3) by (simp add: xb_frame_def)
  let ?t = "t\<lparr>tb_x := x1\<rparr>"
  have "typed_rooms (xb_block x1) (cs @ ps @ [?c]) (map (k_enc (s_codec ty)) ds)"
    using typed_rooms_next [OF _ fr, of "cs @ ps" ?e] Cons.prems(6) by simp
  moreover have "xi_room x1 (length (cs @ ps @ [?c]) + length ds)"
    using Cons.prems(7) xb_frame_room [OF x1(3)] by simp
  ultimately obtain x' qs where x': "tb_write_all v ds tx ?t = (Inr [bh_start_index (bb_header (xb_block x1)) + length (cs @ ps @ [?c])
        ..< bh_start_index (bb_header (xb_block x1)) + length (cs @ ps @ [?c]) + length ds], ?t\<lparr>tb_x := x'\<rparr>)"
    "xb_running v tx x' cs qs" "tb_holds ty qs ((pvs @ [d]) @ ds)" "xb_frame x1 x'"
    using Cons.IH [of ?t "ps @ [?c]" "pvs @ [d]"] x1(2) Cons.prems tb_holds_snoc [OF Cons.prems(8) fd] by auto
  show ?case
  proof (intro exI conjI)
    show "tb_write_all v (d # ds) tx t = (Inr [?s + length (cs @ ps) ..< ?s + length (cs @ ps) + length (d # ds)], t\<lparr>tb_x := x'\<rparr>)"
      using x1(1) x'(1) xb_frame_start [OF x1(3)] by (simp add: cmd_simps upt_start_Suc del: upt_Suc)
    show "xb_frame (tb_x t) x'" using x1(3) x'(4) by (rule xb_frame_trans)
  qed (use x' in simp_all)
qed

lemma tb_holds_mark: "tb_holds ty cs ds \<Longrightarrow> tb_holds ty (mark s is cs) ds"
proof (induction "is" arbitrary: cs)
  case (Cons i js)
  have "tb_holds ty (cs[i - s := with_state R_DELETED (cs ! (i - s))]) ds"
  proof (cases "i - s < length cs")
    case True
    then show ?thesis
      using Cons.prems unfolding tb_holds_def
      by (auto simp: list_all2_conv_all_nth nth_list_update with_state_def)
  qed (use Cons.prems in \<open>simp add: list_update_beyond\<close>)
  then show ?case using Cons.IH by simp
qed simp

lemma tb_holds_publish: "tb_holds ty qs ds \<Longrightarrow> tb_holds ty (map (with_state R_READABLE) qs) ds"
  by (simp add: tb_holds_def list_all2_map1 with_state_def)

lemma tb_holds_append: "tb_holds ty cs ds \<Longrightarrow> tb_holds ty cs' ds' \<Longrightarrow> tb_holds ty (cs @ cs') (ds @ ds')"
  by (simp add: tb_holds_def list_all2_appendI)

lemma tb_shown_append: "tb_shown ty st (xs @ ys) = tb_shown ty st xs @ tb_shown ty st ys"
  by (simp add: tb_shown_def)

lemma tb_shown_published:
  "length qs = length ds \<Longrightarrow> tb_shown ty R_READABLE (zip (map (with_state R_READABLE) qs) ds) = map (k_back (s_codec ty)) ds"
  by (induction qs ds rule: list_induct2) (simp_all add: xb_selects_readable)

lemma tb_shown_nth:
  assumes "length cs = length ds"
  shows "tb_shown ty R_READABLE (zip cs ds)
    = [k_back (s_codec ty) (ds ! n). n \<leftarrow> [0..<length cs], rh_state (fst (cs ! n)) = R_READABLE]"
proof -
  have "zip cs ds = map (\<lambda>n. (cs ! n, ds ! n)) [0..<length cs]"
    using assms by (intro nth_equalityI) simp_all
  then show ?thesis
    by (simp add: tb_shown_def xb_selects_readable comp_def split_def if_distrib [of snd] cong: if_cong)
qed

lemma tb_shown_mark:
  assumes "\<forall>i \<in> set dels. s \<le> i \<and> i < s + length cs" "length cs = length ds"
  shows "tb_shown ty R_READABLE (zip (mark s dels cs) ds)
    = [k_back (s_codec ty) (ds ! n). n \<leftarrow> [0..<length cs], rh_state (fst (cs ! n)) = R_READABLE \<and> s + n \<notin> set dels]"
proof -
  have e: "rh_state (fst (mark s dels cs ! n)) = R_READABLE \<longleftrightarrow> rh_state (fst (cs ! n)) = R_READABLE \<and> s + n \<notin> set dels"
    if "n < length cs" for n
    using assms(1) that by (simp add: nth_mark)
  have "concat (map (\<lambda>n. if rh_state (fst (mark s dels cs ! n)) = R_READABLE then [k_back (s_codec ty) (ds ! n)] else []) [0..<length cs])
      = concat (map (\<lambda>n. if rh_state (fst (cs ! n)) = R_READABLE \<and> s + n \<notin> set dels then [k_back (s_codec ty) (ds ! n)] else [])
          [0..<length cs])"
    by (rule arg_cong [where f = concat], rule map_cong) (use e in simp_all)
  then show ?thesis
    using tb_shown_nth [of "mark s dels cs" ds ty] assms(2) by simp
qed


end
