(* ===== verification/TypedDemo.thy ===== *)
theory TypedDemo
  imports TypedProps IndexedDemo
begin

section \<open>The theorems on typed blocks applied to concrete ones\<close>

text \<open>\<open>demo_tb\<close> holds one value of \<open>demo_type\<close> and is in the transaction of \<open>demo_xb\<close>.\<close>

definition demo_chunks :: "chunk list" where
  "demo_chunks = [demo_chunk 0 0 R_READABLE (k_enc (s_codec demo_type) demo_value)]"

definition demo_tb :: "nat list \<Rightarrow> typed_block" where
  "demo_tb dels = \<lparr>tb_x = demo_xb demo_chunks [] 200 500 300 dels, tb_type = Some demo_type, tb_map = [], tb_estimate = 24\<rparr>"

definition demo_back :: tval where
  "demo_back = Rec [Some (Scalar [7, 0]), Some (Str [72, 105]), Some (Scalar [65]), Some (Lst [Str [33]])]"

lemma demo_codec:
  "s_wf demo_type" "k_fits (s_codec demo_type) demo_value" "length (k_enc (s_codec demo_type) demo_value) = 24"
  "k_back (s_codec demo_type) demo_value = demo_back"
  by (simp_all add: demo_defs demo_back_def)

lemma demo_tb_simps [simp]: "tb_x (demo_tb dels) = demo_xb demo_chunks [] 200 500 300 dels" "tb_type (demo_tb dels) = Some demo_type"
  by (simp_all add: demo_tb_def)

lemma demo_chunks_facts: "length demo_chunks = 1" "rh_state (fst (demo_chunks ! 0)) = R_READABLE"
  "payload_bytes demo_chunks = 24" "length (enc_chunks demo_chunks) = 72" "deleted_chunks demo_chunks = 0"
  by (simp_all add: demo_chunks_def demo_chunk_simps deleted_chunks_def demo_codec)

lemma demo_tb_running: "xb_running demo_env ''tx'' (tb_x (demo_tb dels)) demo_chunks []"
  unfolding demo_tb_simps
  by (rule demo_running) (simp_all add: demo_chunks_def demo_chunk_simps demo_codec INDEX_PTR_SIZE_def)

lemma demo_tb_holds: "tb_holds demo_type demo_chunks [demo_value]"
  by (simp add: tb_holds_def demo_chunks_def demo_chunk_def demo_codec)

lemma demo_tb_rooms: "typed_rooms (xb_block (tb_x (demo_tb dels))) demo_chunks (map (k_enc (s_codec demo_type)) [demo_value])"
  by (simp add: typed_rooms_def demo_chunks_facts demo_codec REC_HEADER_SIZE_def)

lemma demo_tb_xi_room: "xi_room (tb_x (demo_tb dels)) (length demo_chunks + length [demo_value])"
  by (simp add: xi_room_def demo_xi_fields demo_chunks_facts INDEX_PTR_SIZE_def INDEX_HEADER_SIZE_def)


end
