(* ===== verification/TypedFaults.thy ===== *)
theory TypedFaults
  imports TypedDemo
begin

section \<open>What goes wrong in a typed block\<close>

subsection \<open>Typed indexes\<close>

lemma get_num_pure: "get_num k off m = (r, m') \<Longrightarrow> m' = m"
  by (auto simp: get_num_def get_bytes_def c_bind_def c_ret_def split: sum.splits prod.splits if_splits option.splits)

lemma index_count_pure: "tb_index_count m = (r, m') \<Longrightarrow> m' = m"
  by (auto simp: tb_index_count_def c_bind_def dest: get_num_pure split: sum.splits prod.splits)

lemma no_free_index:
  assumes "tb_index_count m = (Inr 0, m)"
  shows "fst (tb_find_free_index_ptr m) \<noteq> Inr (Some off)"
  using assms by (auto simp: tb_find_free_index_ptr_def c_bind_def c_ret_def dest: get_num_pure split: sum.splits prod.splits)

text \<open>A block whose table of typed indexes is empty, as \<open>create\<close> leaves it, never gets an
  index: \<open>find_free_index_ptr\<close> looks only at the entries that are counted, so \<open>add_index\<close> finds no free
  one, whatever it would do with it, and its transaction is rolled back.\<close>

theorem typed_index_rejected:
  assumes "fst (tb_index_count (tb_map t)) = Inr 0"
  shows "\<nexists>t'. tb_add_index v uuid rounds use t = Some (Inr (), t')"
proof -
  have n: "tb_index_count (tb_map t) = (Inr 0, tb_map t)"
    using assms index_count_pure [of "tb_map t"] by (metis prod.collapse)
  then have none: "False" if "on_map tb_find_free_index_ptr u = (Inr (Some off), u')" "tb_map u = tb_map t" for u u' off
    using that no_free_index [of "tb_map t" off] by (auto simp: on_map_def split: prod.splits)
  show ?thesis
  proof
    assume "\<exists>t'. tb_add_index v uuid rounds use t = Some (Inr (), t')"
    then obtain t' where a: "tb_add_index v uuid rounds use t = Some (Inr (), t')" ..
    let ?ck = "c_bind (on_map tb_index_count) (\<lambda>n. c_bind (c_check Precondition (\<lambda>_. n < BLOCK_MAX_INDEXES)) (\<lambda>_.
           c_assert Precondition (on_xb (on_block blk_is_writeable))))"
    obtain t1 where t1: "?ck t = (Inr (), t1)"
      using a by (auto simp: tb_add_index_def split: sum.splits prod.splits)
    then have "tb_map t1 = tb_map t"
      using n by (auto simp: c_bind_def on_map_def c_check_def c_assert_def on_xb_def c_ret_def c_throw_def split: sum.splits prod.splits if_splits)
    then show False
      using a t1 by (auto simp: tb_add_index_def c_bind_def c_throw_def dest: none split: sum.splits prod.splits option.splits)
  qed
qed

theorem typed_index_rejected_witness:
  "\<nexists>t'. tb_add_index demo_env ''i'' [] (\<lambda>_ _. c_ret ()) ((demo_tb [])\<lparr>tb_map := replicate 9 0\<rparr>) = Some (Inr (), t')"
  by (rule typed_index_rejected) (simp add: tb_index_count_def get_num_def get_bytes_def peek_def c_bind_def c_ret_def eval_nat_numeral)

subsection \<open>A value that the type refuses\<close>

definition refuses :: "(nat \<Rightarrow> nat \<Rightarrow> nat io) \<Rightarrow> exc \<Rightarrow> nat \<Rightarrow> bool" where
  "refuses w e k \<longleftrightarrow> (\<forall>mx m. k < mx \<longrightarrow> mx < 2 ^ 63 \<longrightarrow> k \<le> length m \<longrightarrow> (\<exists>m'. w 0 mx m = (Inl e, m') \<and> length m' = length m))"

lemma refusesE:
  assumes "refuses w e k" "k < mx" "mx < 2 ^ 63" "k \<le> length m"
  obtains m' where "w 0 mx m = (Inl e, m')" "length m' = length m"
  using assms unfolding refuses_def by blast

text \<open>The block after the failure: only the index in the rollback information and the bytes behind the
  records have changed.\<close>

lemma write_typed_refused:
  assumes ses: "blk_session v tx b" and hw: "handler_of ty RM_WRITE = Inr hw" "refuses (h_write hw (Some d)) e k"
    and ri: "bb_rollback b = Some ri" "ri_write_offset ri = length pre" "ri_used_bytes ri = payload_bytes ps"
      "bh_used_bytes (bb_header b) = payload_bytes cs" "bb_data b = pre @ post" "enc_chunks (cs @ ps) = pre"
    and room: "typed_room b (cs @ ps) k"
  shows "\<exists>post' b'. blk_write_typed v ty (Some d) tx b = (Inl e, b') \<and> blk_held v tx b'
    \<and> b' = (blk_touch v b)\<lparr>bb_data := pre @ post', bb_rollback := Some (ri\<lparr>ri_last_index := add64 (ri_last_index ri) 1\<rparr>)\<rparr>
    \<and> length post' = length post"
proof -
  let ?off = "length pre" and ?p = "drop REC_HEADER_SIZE post"
  define mx where "mx = bh_block_size (bb_header b) - (bh_used_bytes (bb_header b) + ri_used_bytes ri + 2 * REC_HEADER_SIZE)"
  define h0 where "h0 = \<lparr>rh_index = ri_last_index ri, rh_offset = ?off, rh_state = R_DIRTY, rh_data_size = 0,
         rh_uncompressed_size = 0, rh_timestamp = unat (be_now v)\<rparr>"
  have rm: "bb_write_ptr b" "bb_updateable b" "bh_write_state (bb_header b) = WRITABLE" "REC_HEADER_SIZE + k < length post"
    "k < mx" "mx < 2 ^ 63"
    using room ri by (auto simp: typed_room_def mx_def)
  obtain m' where m': "h_write hw (Some d) 0 mx ?p = (Inl e, m')" "length m' = length ?p"
    by (rule refusesE [OF hw(2) rm(5,6), of ?p]) (use rm(4) in simp_all)
  define b0 where "b0 = blk_touch v b"
  have h0': "blk_held v tx b0" using session_touch_held [OF ses] by (simp add: b0_def)
  define b1 where "b1 = b0\<lparr>bb_data := pre @ replicate REC_HEADER_SIZE 0 @ ?p\<rparr>"
  have h1: "blk_held v tx b1" using h0' by (simp add: b1_def held_simps)
  define b2 where "b2 = blk_ri_update (\<lambda>r. r\<lparr>ri_last_index := add64 (ri_last_index r) 1\<rparr>) b1"
  have h2: "blk_held v tx b2" using h1 unfolding b2_def by (rule held_ri_update) simp_all
  define b3 where "b3 = b2\<lparr>bb_data := pre @ enc_rec_header h0 @ ?p\<rparr>"
  have h3: "blk_held v tx b3" using h2 by (simp add: b3_def held_simps)
  have r0: "bb_rollback b0 = Some ri" "bb_rollback b1 = Some ri" "bb_write_ptr b0"
    using ri rm by (simp_all add: b0_def b1_def)
  have r2: "bb_rollback b2 = Some (ri\<lparr>ri_last_index := add64 (ri_last_index ri) 1\<rparr>)"
    using r0 by (simp add: b2_def)
  have r3: "bb_rollback b3 = Some (ri\<lparr>ri_last_index := add64 (ri_last_index ri) 1\<rparr>)" "bb_header b3 = bb_header b"
    using r2 by (simp_all add: b3_def b2_def b1_def b0_def)
  have av: "bb_available b" using ses by (simp add: blk_session_def)
  have w: "blk_is_writeable b = (Inr True, b)"
    using av rm by (simp add: blk_is_writeable_def cmd_simps)
  have "poke (pre @ post) ?off (replicate REC_HEADER_SIZE 0) = Some (pre @ replicate REC_HEADER_SIZE 0 @ ?p)"
    using poke_end' [of pre ?off "replicate REC_HEADER_SIZE 0" post] rm(4) by simp
  then have pk: "blk_poke ?off (replicate REC_HEADER_SIZE 0) b0 = (Inr (), b1)"
    using ri by (simp add: blk_poke_def b0_def b1_def)
  have "poke (pre @ replicate REC_HEADER_SIZE 0 @ ?p) ?off (enc_rec_header h0) = Some (pre @ enc_rec_header h0 @ ?p)"
    by (rule poke_at) simp_all
  then have pk2: "blk_poke ?off (enc_rec_header h0) b2 = (Inr (), b3)"
    by (simp add: blk_poke_def b1_def b2_def b3_def)
  have fr: "blk_get_free_space v b3 = (Inr (mx + REC_HEADER_SIZE), b3)"
    using held_free_space [OF h3 r3(1)] r3(2) room ri by (simp add: REC_HEADER_SIZE_def typed_room_def mx_def)
  have "mx + REC_HEADER_SIZE < 2 ^ 64" using rm(6) by (simp add: REC_HEADER_SIZE_def)
  then have mx: "sub64 (mx + REC_HEADER_SIZE) REC_HEADER_SIZE = mx"
    by (simp add: sub64_le)
  have sl: "blk_slice (?off + REC_HEADER_SIZE) (h_write hw (Some d) 0 mx) b3 = (Inl e, b3\<lparr>bb_data := pre @ enc_rec_header h0 @ m'\<rparr>)"
    using m' by (simp add: blk_slice_def b3_def)
  note steps = session_in_tx [OF ses, folded b0_def] held_check_txid [OF h0'] held_write_ptr(1) [OF h0' r0(3,1)]
    held_next_index [OF h1 r0(2), folded b2_def] held_write_offset [OF h2 r2]
  have "blk_write_typed v ty (Some d) tx b = (Inl e, b3\<lparr>bb_data := pre @ enc_rec_header h0 @ m'\<rparr>)"
    using av ri(2) rm(5) unfolding blk_write_typed_def
    by (simp add: cmd_simps w steps pk hw Let_def h0_def [symmetric] pk2 fr mx sl)
  moreover have "b3\<lparr>bb_data := pre @ enc_rec_header h0 @ m'\<rparr> = (blk_touch v b)\<lparr>bb_data := pre @ enc_rec_header h0 @ m',
      bb_rollback := Some (ri\<lparr>ri_last_index := add64 (ri_last_index ri) 1\<rparr>)\<rparr>"
    using r0 by (simp add: b3_def b2_def b1_def b0_def blk_ri_update_def)
  moreover have "blk_held v tx (b3\<lparr>bb_data := pre @ enc_rec_header h0 @ m'\<rparr>)"
    using h3 by (simp add: held_simps)
  moreover have "length (enc_rec_header h0 @ m') = length post"
    using m'(2) rm(4) by simp
  ultimately show ?thesis by metis
qed

text \<open>The next value is written at the place of the refused one, with the index after it.\<close>

lemma write_typed_next:
  assumes ses: "blk_session v tx b" and hw: "handler_of ty RM_WRITE = Inr hw" "writes (h_write hw (Some d)) e"
    and wr: "bb_write_ptr b" "bb_updateable b" "bh_write_state (bb_header b) = WRITABLE"
    and ri: "bb_rollback b = Some ri" "ri_write_offset ri = length pre" "bb_data b = pre @ post"
    and free: "bh_used_bytes (bb_header b) + ri_used_bytes ri + length e + 2 * REC_HEADER_SIZE < bh_block_size (bb_header b)"
      "bh_block_size (bb_header b) < 2 ^ 63" "REC_HEADER_SIZE + length e < length post"
    and small: "ri_last_index ri < 2 ^ 64" "length pre < 2 ^ 64"
  shows "\<exists>h b'. blk_write_typed v ty (Some d) tx b = (Inr (length pre), b')
    \<and> header_at (bb_data b') (length pre) = Some h \<and> rh_index h = ri_last_index ri"
proof -
  define mx where "mx = bh_block_size (bb_header b) - (bh_used_bytes (bb_header b) + ri_used_bytes ri + 2 * REC_HEADER_SIZE)"
  define h0 where "h0 = \<lparr>rh_index = ri_last_index ri, rh_offset = length pre, rh_state = R_DIRTY, rh_data_size = 0,
         rh_uncompressed_size = 0, rh_timestamp = unat (be_now v)\<rparr>"
  define h where "h = h0\<lparr>rh_data_size := length e, rh_uncompressed_size := length e\<rparr>"
  have mx: "length e < mx" "mx < 2 ^ 63" using free by (simp_all add: mx_def)
  have free': "bh_used_bytes (bb_header b) + ri_used_bytes ri + 2 * REC_HEADER_SIZE < bh_block_size (bb_header b)"
    using free(1) by simp
  obtain m1 m2 rest where p: "poke (bb_data b) (length pre) (replicate REC_HEADER_SIZE 0) = Some m1"
    "poke m1 (length pre) (enc_rec_header h0) = Some m2"
    "\<And>b'. bb_data b' = m2 \<Longrightarrow> blk_slice (length pre + REC_HEADER_SIZE) (h_write hw (Some d) 0 mx) b'
       = (Inr (length e), b'\<lparr>bb_data := pre @ enc_rec_header h0 @ e @ rest\<rparr>)"
    "poke (pre @ enc_rec_header h0 @ e @ rest) (length pre) (enc_rec_header h) = Some (pre @ enc_chunk (h, e) @ rest)"
    by (rule typed_pokes [OF hw(2) mx ri(3) refl free(3), of h0 h]; rule that; simp add: ri(3))
  have now: "unat (be_now v) < 2 ^ 64" using unsigned_less [of "be_now v"] by simp
  have ok: "rec_header_ok h"
    using small free now by (simp add: rec_header_ok_def h_def h0_def record_states)
  have "header_at (pre @ enc_chunk (h, e) @ rest) (length pre) = Some h"
    using header_at_chunk [OF _ refl, of "(h, e)" pre rest] ok by simp
  then show ?thesis
    using write_typed_eval [OF ses hw(1) wr ri(1,2) free' free(2) mx_def h0_def p(1,2,3)] p(4)
    by (auto simp: h_def h0_def)
qed

lemma write_index_gap:
  assumes "bi_repr ix es ps" "bi_tx ix tx es ps" "es @ ps \<noteq> []"
  shows "fst (bi_write_index v (ih_start_index (bi_header ix) + length (es @ ps) + 1) off sz tx ix) = Inl Precondition"
proof -
  obtain ri where ri: "bi_rollback ix = Some ri" "ri_in_transaction ri" "ri_transaction_id ri = tx"
    "ri_last_index ri = last_of (ih_start_index (bi_header ix)) (es @ ps)"
    using assms(2) by (auto simp: bi_tx_def)
  have bnd: "ih_start_index (bi_header ix) + length (bi_data ix) < 2 ^ 63" "length (es @ ps) * INDEX_PTR_SIZE \<le> length (bi_data ix)"
    using assms(1) entries_le [OF assms(1)] by (auto simp: bi_repr_def)
  then have "add64 (bi_get_last_index ix) 1 = ih_start_index (bi_header ix) + length (es @ ps)"
    using ri assms(3) by (cases "es @ ps") (simp_all add: bi_get_last_index_def last_of_def add64_small INDEX_PTR_SIZE_def)
  moreover have "bi_has_space INDEX_PTR_SIZE ix = (Inr (length (bi_data ix) < length (es @ ps) * INDEX_PTR_SIZE + INDEX_HEADER_SIZE
        \<or> length (es @ ps) * INDEX_PTR_SIZE + INDEX_HEADER_SIZE + INDEX_PTR_SIZE \<le> length (bi_data ix)), ix)"
    by (rule bi_has_space_eval [OF assms(1,2)])
  ultimately show ?thesis
    using assms(1) ri by (auto simp: bi_write_index_def cmd_simps bi_repr_def bi_in_transaction_def bi_check_txid_def c_assert_def c_bind_def)
qed

text \<open>When the type refuses a value, the write throws but the index it took stays taken: in a
  block that has a record, the next value in the transaction, whatever it is, goes into the mapping and
  then its entry is refused by the index, so that no more values can be written.\<close>

theorem typed_refused_write:
  assumes "xb_running v tx (tb_x t) cs ps" "cs @ ps \<noteq> []" "tb_type t = Some ty" "handler_of ty RM_WRITE = Inr hw"
    and "refuses (h_write hw (Some d)) e k" "typed_room (xb_block (tb_x t)) (cs @ ps) k"
    and "writes (h_write hw (Some d')) e'" "typed_room (xb_block (tb_x t)) (cs @ ps) (length e')"
  shows "\<exists>x1. tb_write v (Some d) tx t = (Inl e, t\<lparr>tb_x := x1\<rparr>)
    \<and> fst (tb_write v (Some d') tx (t\<lparr>tb_x := x1\<rparr>)) = Inl Precondition"
proof -
  let ?x = "tb_x t"
  let ?b = "xb_block ?x" and ?off = "length (enc_chunks (cs @ ps))"
  let ?s = "bh_start_index (bb_header ?b)"
  have r: "blk_session v tx ?b" "xb_repr ?x cs ps" "xb_tx ?x tx cs ps"
    using assms(1) by (simp_all add: xb_running_def)
  obtain ix where ix: "xb_index ?x = Some ix" "blk_repr ?b cs ps"
    "bi_repr ix (map ip_of cs) (map ip_of ps)" "ih_start_index (bi_header ix) = ?s"
    by (rule xb_reprE [OF r(2)])
  have tx: "blk_tx ?b cs ps" "bi_tx ix tx (map ip_of cs) (map ip_of ps)"
    using r(3) ix(1) by (simp_all add: xb_tx_def)
  obtain ri where ri: "bb_rollback ?b = Some ri" "ri_write_offset ri = ?off" "ri_used_bytes ri = payload_bytes ps"
    "ri_last_index ri = ?s + length cs + length ps"
    using r(1) tx(1) by (auto simp: blk_session_def blk_tx_def)
  obtain post where data: "bb_data ?b = enc_chunks (cs @ ps) @ post"
    using ix(2) by (auto simp: blk_repr_def)
  have u: "bh_used_bytes (bb_header ?b) = payload_bytes cs" using ix(2) by (simp add: blk_repr_def)
  obtain post' b1 where b1: "blk_write_typed v ty (Some d) tx ?b = (Inl e, b1)" "blk_held v tx b1"
    "b1 = (blk_touch v ?b)\<lparr>bb_data := enc_chunks (cs @ ps) @ post',
        bb_rollback := Some (ri\<lparr>ri_last_index := add64 (ri_last_index ri) 1\<rparr>)\<rparr>" "length post' = length post"
    using write_typed_refused [OF r(1) assms(4,5) ri(1-3) u data refl assms(6)] by blast
  let ?x1 = "?x\<lparr>xb_block := b1\<rparr>"
  have w1: "tb_write v (Some d) tx t = (Inl e, t\<lparr>tb_x := ?x1\<rparr>)"
    using b1(1) tb_get_type_run [OF assms(3)] by (simp add: tb_write_def on_xb_def on_block_def cmd_simps)
  have bnd: "?s + length (bb_data ?b) < 2 ^ 63" using ix(2) by (simp add: blk_repr_def)
  have cnt: "length cs + length ps \<le> ?off" "?off \<le> length (bb_data ?b)"
    using enc_chunks_count [of "cs @ ps"] data by (simp_all add: REC_HEADER_SIZE_def)
  have last: "add64 (ri_last_index ri) 1 = ?s + length (cs @ ps) + 1"
    using bnd cnt ri(4) by (simp add: add64_small)
  have "\<exists>h b2. blk_write_typed v ty (Some d') tx b1 = (Inr ?off, b2) \<and> header_at (bb_data b2) ?off = Some h
      \<and> rh_index h = ri_last_index (ri\<lparr>ri_last_index := add64 (ri_last_index ri) 1\<rparr>)"
    by (rule write_typed_next [OF held_session [OF b1(2)] assms(4,7), where post = post'])
      (use b1(3,4) assms(8) ri u data bnd cnt last in \<open>simp_all add: typed_room_def\<close>)
  then obtain m b2 where b2: "blk_write_typed v ty (Some d') tx b1 = (Inr ?off, b2)"
    "header_at (bb_data b2) ?off = Some m" "rh_index m = ?s + length (cs @ ps) + 1"
    using last by auto
  have "fst (bi_write_index v (?s + length (cs @ ps) + 1) (rh_offset m) (rh_data_size m) tx ix) = Inl Precondition"
    using write_index_gap [OF ix(3) tx(2)] ix(4) assms(2) by simp
  then have "fst (tb_write v (Some d') tx (t\<lparr>tb_x := ?x1\<rparr>)) = Inl Precondition"
    using b2 ix(1) tb_get_type_run [of "t\<lparr>tb_x := ?x1\<rparr>" ty] assms(3)
    by (auto simp: tb_write_def on_xb_def on_block_def on_index_def cmd_simps c_bind_def split: prod.splits sum.splits)
  then show ?thesis using w1 by blast
qed

definition demo_short :: stype where
  "demo_short = S_complex (demo_info ''r'' 0) ''short'' [S_string (demo_info ''name'' 0) (Some 3)]"

definition demo_short_tb :: typed_block where
  "demo_short_tb = \<lparr>tb_x = demo_xb demo1 [] 200 500 300 [], tb_type = Some demo_short, tb_map = [], tb_estimate = 24\<rparr>"

lemma demo_refuses:
  assumes "handler_of demo_short RM_WRITE = Inr hw"
  shows "refuses (h_write hw (Some (Rec [Some (Str [65, 66, 67])]))) Type_valid_error 9"
  unfolding refuses_def
proof (intro allI impI)
  fix mx :: nat and m :: mem assume a: "9 < mx" "mx < 2 ^ 63" "9 \<le> length m"
  have p: "put_num 8 0 0 m = (Inr 8, nat_bytes 8 0 @ drop 8 m)"
    using put_num_run [of 8 m 0 "[]" 0] a(3) by simp
  have v: "field_value (S_string (demo_info ''name'' 0) (Some 3)) h (Some (Str [65, 66, 67])) m' = (Inl Type_valid_error, m')" for h m'
    by (simp add: field_value_def demo_info_def lift_e_def c_bind_def print_value_def c_ret_def c_throw_def)
  have "h_write hw (Some (Rec [Some (Str [65, 66, 67])])) 0 mx m = (Inl Type_valid_error, nat_bytes 8 0 @ drop 8 m)"
    using assms a p v by (auto simp: demo_short_def dt_struct_def struct_write_def c_check_def check_pos_def to_long_def
        native_handler_def lift_e_def rec_get_field_def c_bind_def demo_info_def)
  then show "\<exists>m'. h_write hw (Some (Rec [Some (Str [65, 66, 67])])) 0 mx m = (Inl Type_valid_error, m') \<and> length m' = length m"
    using a(3) by auto
qed

theorem typed_refused_write_witness:
  "\<exists>x1. tb_write demo_env (Some (Rec [Some (Str [65, 66, 67])])) ''tx'' demo_short_tb = (Inl Type_valid_error, demo_short_tb\<lparr>tb_x := x1\<rparr>)
    \<and> fst (tb_write demo_env (Some (Rec [Some (Str [65])])) ''tx'' (demo_short_tb\<lparr>tb_x := x1\<rparr>)) = Inl Precondition"
proof -
  have wf: "s_wf demo_short" by (simp add: demo_short_def demo_info_def demo_defs)
  have k: "k_fits (s_codec demo_short) (Rec [Some (Str [65])])" "length (k_enc (s_codec demo_short) (Rec [Some (Str [65])])) = 12"
    by (simp_all add: demo_short_def demo_defs)
  obtain hw where hw: "handler_of demo_short RM_WRITE = Inr hw" "implements hw (s_codec demo_short)"
    using native_read_mode [OF wf] by blast
  have run: "xb_running demo_env ''tx'' (tb_x demo_short_tb) demo1 []"
    unfolding demo_short_tb_def by (simp add: demo1_running)
  have room: "typed_room (xb_block (tb_x demo_short_tb)) (demo1 @ []) 9"
    "typed_room (xb_block (tb_x demo_short_tb)) (demo1 @ []) (length (k_enc (s_codec demo_short) (Rec [Some (Str [65])])))"
    unfolding k(2) by (simp_all add: demo_short_tb_def typed_room_def demo1_facts REC_HEADER_SIZE_def)
  have ne: "demo1 @ [] \<noteq> []" by (simp add: demo1_def)
  have ty: "tb_type demo_short_tb = Some demo_short" by (simp add: demo_short_tb_def)
  show ?thesis
    by (rule typed_refused_write [OF run ne ty hw(1) demo_refuses [OF hw(1)] room(1) implementsD(1) [OF hw(2) k(1)] room(2)])
qed

end
