(* ===== verification/ConfigTree.thy ===== *)
theory ConfigTree
  imports Strings InstState
begin

section \<open>Configuration (common/includes/config.h, common/src/config.cpp)\<close>

text \<open>
  A configuration is a tree of nodes that is built from the value of a JSON parser and looked up by
  paths. A node knows its parent; here a node that was found comes with the chain of nodes from the
  root to it. The maps of a node are lists in their iteration order; the key of an entry is the key of
  the node it holds. The JSON parser, the text of a number and the reading of floating point numbers
  and dates are arguments.
\<close>

subsection \<open>Keys\<close>

definition is_self :: "string \<Rightarrow> bool" where
  "is_self node = (case node of [] \<Rightarrow> False
     | c0 # rest \<Rightarrow> c0 = CHR ''.'' \<and> (case rest of [] \<Rightarrow> True | c1 # _ \<Rightarrow> c1 = CHR ''['' \<or> c1 = CHR ''/''))"

text \<open>
  The match of \<open>(.*)\<close> and a pair of brackets, in a line: both repetitions are greedy, so that the opening
  bracket is the last one before the last closing one. The dot matches no line terminator, and the
  search begins with the first line.
\<close>

definition bracket_match :: "string \<Rightarrow> (string \<times> string) option" where
  "bracket_match s = (case dropWhile (\<lambda>c. c \<noteq> CHR '']'') (rev s) of [] \<Rightarrow> None
     | _ # r \<Rightarrow> (case dropWhile (\<lambda>c. c \<noteq> CHR ''['') r of [] \<Rightarrow> None
         | _ # q \<Rightarrow> Some (rev q, rev (takeWhile (\<lambda>c. c \<noteq> CHR ''['') r))))"

fun text_lines :: "string \<Rightarrow> string list" where
  "text_lines [] = [[]]"
| "text_lines (c # cs) = (if c = CHR 0x0A \<or> c = CHR 0x0D then [] # text_lines cs
     else (case text_lines cs of [] \<Rightarrow> [[c]] | l # ls \<Rightarrow> (c # l) # ls))"

definition key_match :: "string \<Rightarrow> (string \<times> string) option" where
  "key_match s = (case filter (\<lambda>m. m \<noteq> None) (map bracket_match (text_lines s)) of [] \<Rightarrow> None | m # _ \<Rightarrow> m)"

definition parse_key_name :: "string \<Rightarrow> string \<Rightarrow> string" where
  "parse_key_name self key = (case key_match key of
       Some (s, _) \<Rightarrow> if is_self s then self else s
     | None \<Rightarrow> if is_self key then self else key)"

definition parse_key_index :: "string \<Rightarrow> string option" where
  "parse_key_index key = map_option snd (key_match key)"

subsection \<open>The tree\<close>

datatype cvalue = C_basic (cv_key: string) string | C_params (cv_key: string) "cvalue list"
  | C_list (cv_key: string) "cvalue list" | C_node (cv_key: string) "cvalue list"

definition on_path :: "cvalue \<Rightarrow> exc + cvalue list option \<Rightarrow> exc + cvalue list option" where
  "on_path t r = e_bind r (\<lambda>c. Inr (map_option (Cons t) c))"

text \<open>\<open>find (path, offset)\<close> of the four classes.\<close>

function cv_find :: "string list \<Rightarrow> nat \<Rightarrow> cvalue \<Rightarrow> exc + cvalue list option" where
  "cv_find path i (C_basic k v) =
     (if \<not> i < length path then Inl Mem_fault
      else Inr (if i = length path - 1 \<and> k = path ! i then Some [C_basic k v] else None))"
| "cv_find path i (C_params k ps) =
     (if i + 1 \<noteq> length path \<or> parse_key_name k (path ! i) \<noteq> k then Inr None
      else case parse_key_index (path ! i) of None \<Rightarrow> Inr (Some [C_params k ps])
        | Some x \<Rightarrow> Inr (map_option (\<lambda>c. [C_params k ps, c]) (find (\<lambda>c. cv_key c = x) ps)))"
| "cv_find path i (C_list k vs) =
     (if \<not> i < length path then Inl Mem_fault
      else if parse_key_name k (path ! i) \<noteq> k then Inr None
      else case parse_key_index (path ! i) of
          None \<Rightarrow> Inr (if i = length path - 1 then Some [C_list k vs] else None)
        | Some x \<Rightarrow>
            if x = [] then Inr (if i = length path - 1 then Some [C_list k vs] else None)
            else (case std_stoi x of Inl e \<Rightarrow> Inl e
              | Inr n \<Rightarrow> let ii = nat (n mod 2 ^ 32) in
                  if 0 < ii \<and> ii < length vs
                  then if i = length path - 1 then Inr (Some [C_list k vs, vs ! ii])
                       else on_path (C_list k vs) (cv_find path i (vs ! ii))
                  else Inr None))"
| "cv_find path i (C_node k cs) =
     (if \<not> i < length path then Inl Mem_fault
      else if parse_key_name k (path ! i) \<noteq> k then Inr None
      else if i = length path - 1 then Inr (Some [C_node k cs])
      else case find (\<lambda>c. cv_key c = parse_key_name k (path ! (i + 1))) cs of None \<Rightarrow> Inr None
        | Some c \<Rightarrow> on_path (C_node k cs) (cv_find path (i + 1) c))"
  by pat_completeness auto

termination cv_find
  by (relation "measure (\<lambda>(p, i, t). size t)") (auto simp: find_size nth_size)

text \<open>\<open>find (path)\<close>: a path that begins with a slash is looked up from the root.\<close>

definition cv_find_path :: "cvalue list \<Rightarrow> string \<Rightarrow> exc + cvalue list option" where
  "cv_find_path chain path =
     (let parts = str_split (CHR ''/'') path in
      if parts = [] then Inr None
      else if hd parts = [] then cv_find parts 1 (hd chain)
      else let self = last chain; key = parse_key_name (cv_key self) (hd parts);
               parts = (if key \<noteq> [] \<and> key \<noteq> ''.'' \<and> key \<noteq> cv_key self then ''.'' # parts else parts) in
        e_bind (cv_find parts 0 self) (\<lambda>c. Inr (map_option ((@) (butlast chain)) c)))"

subsection \<open>Values\<close>

text \<open>\<open>stof\<close> reads a floating point number; an empty text gives the default.\<close>

definition basic_or :: "'a \<Rightarrow> (string \<Rightarrow> exc + 'a) \<Rightarrow> string \<Rightarrow> exc + 'a" where
  "basic_or dflt read v = (if v = [] then Inr dflt else read v)"

definition get_short_value :: "int \<Rightarrow> string \<Rightarrow> exc + int" where
  "get_short_value dflt = basic_or dflt (\<lambda>v. e_bind (std_stoi v) (\<lambda>n. Inr (if - 32768 \<le> n \<and> n \<le> 32767 then n else dflt)))"

definition get_int_value :: "int \<Rightarrow> string \<Rightarrow> exc + int" where
  "get_int_value dflt = basic_or dflt std_stoi"

definition get_long_value :: "int \<Rightarrow> string \<Rightarrow> exc + int" where
  "get_long_value dflt = basic_or dflt std_stol"

definition get_real_value :: "(string \<Rightarrow> exc + 'f) \<Rightarrow> 'f \<Rightarrow> string \<Rightarrow> exc + 'f" where
  "get_real_value stof dflt = basic_or dflt stof"

text \<open>\<open>get_bool_value\<close> changes the text it holds to lower case; it gives the value and the text.\<close>

definition get_bool_value :: "bool \<Rightarrow> string \<Rightarrow> bool \<times> string" where
  "get_bool_value dflt v = (if v = [] then (dflt, v)
     else let t = str_tolower v in (take 4 (str_ltrim t) = ''true'', t))"

definition get_time_value :: "(string \<Rightarrow> string \<Rightarrow> int) \<Rightarrow> string \<Rightarrow> int \<Rightarrow> string \<Rightarrow> exc + int" where
  "get_time_value get_time format dflt v =
     (if format = [] then Inl Precondition
      else if v = [] then Inr dflt
      else let t = get_time v format in Inr (if t > 0 then t else dflt))"

subsection \<open>Nodes with parameters, lists and children\<close>

text \<open>The insertion into a map: an entry whose key is taken is dropped.\<close>

definition add_key :: "cvalue \<Rightarrow> cvalue list \<Rightarrow> cvalue list" where
  "add_key c cs = (if \<exists>x \<in> set cs. cv_key x = cv_key c then cs else cs @ [c])"

definition params_put_text :: "string \<Rightarrow> string \<Rightarrow> cvalue list \<Rightarrow> exc + cvalue list" where
  "params_put_text key val ps = (if key = [] \<or> val = [] then Inl Precondition else Inr (add_key (C_basic key val) ps))"

definition params_get :: "string \<Rightarrow> cvalue list \<Rightarrow> exc + cvalue option" where
  "params_get key ps = (if key = [] then Inl Precondition else Inr (find (\<lambda>c. cv_key c = key) ps))"

definition basic_value :: "cvalue \<Rightarrow> exc + string" where
  "basic_value c = (case c of C_basic k v \<Rightarrow> Inr v | _ \<Rightarrow> Inl Mem_fault)"

definition params_get_string :: "string \<Rightarrow> cvalue list \<Rightarrow> exc + string" where
  "params_get_string key ps = e_bind (params_get key ps) (\<lambda>c. case c of None \<Rightarrow> Inr [] | Some c \<Rightarrow> basic_value c)"

text \<open>The typed getters: the value is read from the text of the parameter.\<close>

definition params_get_as :: "(string \<Rightarrow> exc + 'a) \<Rightarrow> 'a \<Rightarrow> string \<Rightarrow> cvalue list \<Rightarrow> exc + 'a" where
  "params_get_as read dflt key ps = e_bind (params_get key ps) (\<lambda>c. case c of None \<Rightarrow> Inr dflt
     | Some c \<Rightarrow> e_bind (basic_value c) read)"

definition add_child :: "cvalue \<Rightarrow> cvalue list \<Rightarrow> exc + cvalue list" where
  "add_child c cs = (if cv_key c = [] then Inl Precondition else Inr (add_key c cs))"

definition node_get_value :: "string \<Rightarrow> cvalue \<Rightarrow> exc + cvalue list option" where
  "node_get_value key t =
     (if key = [] then Inl Precondition
      else let parts = str_split (CHR ''/'') key in
        if parts ! 0 = ''.'' then (if length parts < 2 then Inl Mem_fault
          else if parts ! 1 = [] then Inr None else cv_find parts 1 t)
        else cv_find parts 0 t)"

subsection \<open>Building the tree\<close>

datatype json = J_null | J_bool bool | J_number nat | J_string string | J_array "json list" | J_object "(string \<times> json) list"

definition value_text :: "(nat \<Rightarrow> string) \<Rightarrow> json \<Rightarrow> string option" where
  "value_text to_string j = (case j of J_string s \<Rightarrow> Some s | J_number d \<Rightarrow> Some (to_string d)
     | J_bool b \<Rightarrow> Some (if b then ''true'' else ''false'') | _ \<Rightarrow> None)"

definition process_value_node :: "(nat \<Rightarrow> string) \<Rightarrow> string \<Rightarrow> json \<Rightarrow> exc + cvalue option" where
  "process_value_node to_string name j = (if j = J_null then Inl Aborted else Inr (map_option (C_basic name) (value_text to_string j)))"

fun process_params :: "(nat \<Rightarrow> string) \<Rightarrow> (string \<times> json) list \<Rightarrow> cvalue list \<Rightarrow> exc + cvalue list" where
  "process_params ts [] ps = Inr ps"
| "process_params ts ((key, val) # ms) ps = e_bind (process_value_node ts key val) (\<lambda>r.
     process_params ts ms (case r of None \<Rightarrow> ps | Some c \<Rightarrow> add_key c ps))"

definition process_param_node :: "(nat \<Rightarrow> string) \<Rightarrow> string \<Rightarrow> json \<Rightarrow> exc + cvalue option" where
  "process_param_node ts name j = (case j of J_null \<Rightarrow> Inl Aborted
     | J_object ms \<Rightarrow> if ms = [] then Inr None else e_bind (process_params ts ms []) (\<lambda>ps. Inr (Some (C_params name ps)))
     | _ \<Rightarrow> Inr None)"

definition add_made :: "cvalue option \<Rightarrow> cvalue list \<Rightarrow> exc + cvalue list" where
  "add_made r cs = (case r of None \<Rightarrow> Inr cs | Some c \<Rightarrow> add_child c cs)"

text \<open>The loops over the elements of an array and the members of an object; \<open>node\<close> is \<open>process_node\<close>.\<close>

fun process_list :: "(json \<Rightarrow> exc + cvalue option) \<Rightarrow> json list \<Rightarrow> cvalue list \<Rightarrow> exc + cvalue list" where
  "process_list node [] vs = Inr vs"
| "process_list node (j # js) vs =
     e_bind (node j) (\<lambda>r. process_list node js (case r of None \<Rightarrow> vs | Some c \<Rightarrow> vs @ [c]))"

fun process_object :: "(nat \<Rightarrow> string) \<Rightarrow> (string \<Rightarrow> json \<Rightarrow> exc + cvalue option) \<Rightarrow> (string \<times> json) list \<Rightarrow> cvalue list
    \<Rightarrow> exc + cvalue list" where
  "process_object ts node [] cs = Inr cs"
| "process_object ts node ((key, j) # ms) cs =
     e_bind (if key = ''params'' then process_param_node ts key j else node key j) (\<lambda>r.
     e_bind (add_made r cs) (\<lambda>cs. process_object ts node ms cs))"

lemma process_list_cong [fundef_cong]:
  "js = js' \<Longrightarrow> vs = vs' \<Longrightarrow> (\<And>j. j \<in> set js' \<Longrightarrow> f j = g j) \<Longrightarrow> process_list f js vs = process_list g js' vs'"
proof -
  assume "js = js'" "vs = vs'" "\<And>j. j \<in> set js' \<Longrightarrow> f j = g j"
  then show ?thesis
    by (induction js arbitrary: js' vs vs') auto
qed

lemma process_object_ext: "(\<And>k j. (k, j) \<in> set ms \<Longrightarrow> f k j = g k j) \<Longrightarrow> process_object ts f ms = process_object ts g ms"
proof (induction ms)
  case (Cons m ms)
  have "process_object ts f ms = process_object ts g ms" using Cons by auto
  moreover have "f (fst m) (snd m) = g (fst m) (snd m)" using Cons.prems by simp
  ultimately show ?case by (cases m) (auto intro!: ext)
qed auto

lemma process_object_cong [fundef_cong]:
  "ts = ts' \<Longrightarrow> ms = ms' \<Longrightarrow> cs = cs' \<Longrightarrow> (\<And>k j. (k, j) \<in> set ms' \<Longrightarrow> f k j = g k j)
   \<Longrightarrow> process_object ts f ms cs = process_object ts' g ms' cs'"
  using process_object_ext [of ms' f g ts'] by simp

text \<open>\<open>process_node\<close> with \<open>process_list_node\<close> and \<open>process_object_node\<close>.\<close>

fun process_node :: "(nat \<Rightarrow> string) \<Rightarrow> string \<Rightarrow> json \<Rightarrow> exc + cvalue option" where
  "process_node ts name J_null = Inr None"
| "process_node ts name (J_array js) =
     (if js = [] then Inr None else e_bind (process_list (\<lambda>j. process_node ts name j) js []) (\<lambda>vs. Inr (Some (C_list name vs))))"
| "process_node ts name (J_object ms) =
     (if ms = [] then Inr None
      else e_bind (process_object ts (\<lambda>k j. process_node ts k j) ms []) (\<lambda>cs. Inr (Some (C_node name cs))))"
| "process_node ts name j = process_value_node ts name j"

fun process_members :: "(nat \<Rightarrow> string) \<Rightarrow> (string \<times> json) list \<Rightarrow> cvalue list \<Rightarrow> exc + cvalue list" where
  "process_members ts [] cs = Inr cs"
| "process_members ts ((key, j) # ms) cs =
     (if key = [] \<or> j = J_null then process_members ts ms cs
      else e_bind (process_node ts key j) (\<lambda>r. e_bind (add_made r cs) (\<lambda>cs. process_members ts ms cs)))"

definition object_items :: "json \<Rightarrow> (string \<times> json) list" where
  "object_items j = (case j of J_object ms \<Rightarrow> ms | _ \<Rightarrow> [])"

definition process_root :: "(nat \<Rightarrow> string) \<Rightarrow> json \<Rightarrow> exc + cvalue" where
  "process_root ts j = e_bind (process_members ts (object_items j) []) (\<lambda>cs. Inr (C_node ''configuration'' cs))"

subsection \<open>The configuration object\<close>

record config =
  cf_state :: inst_state
  cf_config :: "cvalue option"

definition new_config :: config where
  "new_config = \<lparr>cf_state = state_new, cf_config = None\<rparr>"

definition cf_fail :: "(unit, config) cmd" where
  "cf_fail c = (Inl Config_error, c\<lparr>cf_state := set_error Config_error (cf_state c)\<rparr>)"

text \<open>
  \<open>create\<close>: \<open>file\<close> holds the lines of the file, \<open>None\<close> when it does not open. What was built before an
  error is not kept: no lookup reaches it.
\<close>

definition config_create :: "(string \<Rightarrow> json) \<Rightarrow> (nat \<Rightarrow> string) \<Rightarrow> string \<Rightarrow> string list option \<Rightarrow> (unit, config) cmd" where
  "config_create parse ts filename file c =
     (if filename = [] then (Inl Empty_value, c)
      else case file of None \<Rightarrow> cf_fail c
      | Some lines \<Rightarrow>
          if concat lines = [] then cf_fail c
          else let json = parse (concat lines) in
            (case json of J_object ms \<Rightarrow>
               (let node = (case map_of ms ''configuration'' of None \<Rightarrow> J_null | Some j \<Rightarrow> j) in
                case process_root ts (if node \<noteq> J_null then node else json) of
                  Inr t \<Rightarrow> (Inr (), c\<lparr>cf_config := Some t, cf_state := set_state Available (cf_state c)\<rparr>)
                | Inl Aborted \<Rightarrow> (Inl Aborted, c)
                | Inl e \<Rightarrow> cf_fail c)
             | _ \<Rightarrow> (Inr (), c\<lparr>cf_state := set_state Available (cf_state c)\<rparr>)))"

definition config_find :: "string \<Rightarrow> bool \<Rightarrow> config \<Rightarrow> exc + cvalue list option" where
  "config_find path error c =
     (if \<not> is_available (cf_state c) then Inl State_unavailable
      else e_bind (case cf_config c of None \<Rightarrow> Inr None | Some t \<Rightarrow> cv_find_path [t] path) (\<lambda>r.
        if r = None \<and> error then Inl Not_found_error else Inr r))"

definition found_basic :: "cvalue list option \<Rightarrow> string option" where
  "found_basic r = (case r of None \<Rightarrow> None | Some ch \<Rightarrow> (case last ch of C_basic k v \<Rightarrow> Some v | _ \<Rightarrow> None))"

definition config_get_value :: "string \<Rightarrow> config \<Rightarrow> exc + string" where
  "config_get_value path c = e_bind (config_find path False c) (\<lambda>r. Inr (case found_basic r of None \<Rightarrow> [] | Some v \<Rightarrow> v))"

definition config_get_as :: "(string \<Rightarrow> exc + 'a) \<Rightarrow> 'a \<Rightarrow> string \<Rightarrow> config \<Rightarrow> exc + 'a" where
  "config_get_as read dflt path c = e_bind (config_find path False c) (\<lambda>r. case found_basic r of None \<Rightarrow> Inr dflt | Some v \<Rightarrow> read v)"

definition config_get_params :: "cvalue list \<Rightarrow> exc + cvalue list option" where
  "config_get_params chain = (case last chain of
       C_node k cs \<Rightarrow> e_bind (cv_find_path chain ''./params'') (\<lambda>r.
         Inr (case r of Some ch \<Rightarrow> (case last ch of C_params k ps \<Rightarrow> Some ps | _ \<Rightarrow> None) | None \<Rightarrow> None))
     | _ \<Rightarrow> Inr None)"

definition config_get_basic :: "string \<Rightarrow> cvalue list \<Rightarrow> exc + string option" where
  "config_get_basic name chain = (case last chain of
       C_node k cs \<Rightarrow> e_bind (cv_find_path chain name) (\<lambda>r. Inr (found_basic r))
     | _ \<Rightarrow> Inr None)"

text \<open>\<open>__configurable\<close>: \<open>setup\<close> is the function of the class that is configured.\<close>

definition configure :: "('c \<Rightarrow> (unit, 's) cmd) \<Rightarrow> 'c \<Rightarrow> (unit, inst_state \<times> 's) cmd" where
  "configure setup cfg = (\<lambda>(st, s). case setup cfg s of
       (Inr _, s) \<Rightarrow> (Inr (), (set_state Available st, s))
     | (Inl _, s) \<Rightarrow> (Inl Config_error, (set_error Config_error st, s)))"

end
