(* ===== verification/SchemaDriver.thy ===== *)
theory SchemaDriver
  imports TypeEnums
begin

section \<open>The schema driver (parsers/includes/schema.h, schema_driver.h, parsers/src/schema_driver.cpp)\<close>

text \<open>
  The driver collects what the parser reduces: the type that is being declared, the schema, the index
  that is being declared, and the finished types and indexes. The linked lists of declarations and key
  columns are lists; the indexes are in the iteration order of their map. An \<open>__index_def\<close> is not cleared
  when it is allocated: what its memory holds is an argument. Releasing memory and the debug log are
  left out.
\<close>

subsection \<open>Definitions that were parsed\<close>

record constraint_def =
  cd_is_not :: bool
  cd_constraint :: string
  cd_type :: "string option"
  cd_values :: string

datatype declare_def = Declare (dc_reference: bool) (dc_nullable: bool) (dc_type: string) (dc_variable: "string option")
  (dc_inner: "declare_def list") (dc_constraint: "constraint_def option") (dc_default: "string option")

record reference_type =
  rt_name :: string
  rt_field_count :: nat
  rt_members :: "declare_def list"

record key_column =
  kc_name :: string
  kc_index :: nat
  kc_sort_asc :: bool

datatype index_type_enum = TREE_INDEX | HASH_INDEX | FULLTEXT_INDEX

record index_def =
  ix_name :: string
  ix_schema_name :: string
  ix_type :: index_type_enum
  ix_field_count :: nat
  ix_columns :: "key_column list"

record schema_defn =
  sc_name :: string
  sc_field_count :: nat
  sc_members :: "declare_def list"
  sc_pk_columns :: "key_column list"

fun get_index_name :: "index_type_enum \<Rightarrow> string" where
  "get_index_name FULLTEXT_INDEX = ''FULLTEXT''" | "get_index_name HASH_INDEX = ''HASH''"
| "get_index_name TREE_INDEX = ''TREE''"

definition get_index_type :: "string \<Rightarrow> exc + index_type_enum" where
  "get_index_type type =
     (if type = [] then Inl Empty_value
      else case find (\<lambda>t. type = get_index_name t) [TREE_INDEX, HASH_INDEX, FULLTEXT_INDEX] of
        Some t \<Rightarrow> Inr t | None \<Rightarrow> Inl Type_parser_error)"

subsection \<open>The state\<close>

datatype parse_state = SPS_NONE | SPS_IN_TYPE | SPS_IN_SCHEMA | SPS_IN_INDEX

record declare_stack =
  ds_constraint :: "constraint_def option"
  ds_default :: "string option"
  ds_nullable :: bool

record type_stack =
  ts_current :: "reference_type option"
  ts_declares :: "declare_def list"
  ts_declare :: declare_stack

record schema_stack =
  ss_current :: schema_defn
  ss_declares :: "declare_def list"
  ss_declare :: declare_stack
  ss_pk_columns :: "string option"

record index_stack =
  is_current :: "index_def option"
  is_fields :: "string option"
  is_type :: "string option"

record schema_driver =
  sd_type_stack :: "type_stack option"
  sd_schema_stack :: "schema_stack option"
  sd_index_stack :: "index_stack option"
  sd_name_space :: "string option"
  sd_types :: "string \<rightharpoonup> reference_type"
  sd_indexes :: "(string \<times> index_def) list"
  sd_state :: parse_state

definition empty_declare :: declare_stack where
  "empty_declare = \<lparr>ds_constraint = None, ds_default = None, ds_nullable = False\<rparr>"

definition new_driver :: schema_driver where
  "new_driver = \<lparr>sd_type_stack = None, sd_schema_stack = None, sd_index_stack = None, sd_name_space = None,
     sd_types = Map.empty, sd_indexes = [], sd_state = SPS_NONE\<rparr>"

definition clear_type_stack :: "schema_driver \<Rightarrow> schema_driver" where
  "clear_type_stack s = s\<lparr>sd_type_stack := map_option (\<lambda>t. t\<lparr>ts_current := None, ts_declares := [],
     ts_declare := (ts_declare t)\<lparr>ds_constraint := None, ds_default := None\<rparr>\<rparr>) (sd_type_stack s)\<rparr>"

definition clear_index_stack :: "schema_driver \<Rightarrow> schema_driver" where
  "clear_index_stack s = s\<lparr>sd_index_stack := map_option (\<lambda>t. t\<lparr>is_current := None, is_type := None, is_fields := None\<rparr>)
     (sd_index_stack s)\<rparr>"

subsection \<open>Starting a definition\<close>

definition create_schema :: "string \<Rightarrow> (unit, schema_driver) cmd" where
  "create_schema name s =
     (if (\<exists>t. sd_type_stack s = Some t \<and> ts_current t \<noteq> None) then (Inl Type_parser_error, s)
      else let s = s\<lparr>sd_type_stack := None\<rparr> in
        if sd_schema_stack s \<noteq> None then (Inl Type_parser_error, s)
        else (Inr (), s\<lparr>sd_schema_stack := Some \<lparr>ss_current = \<lparr>sc_name = name, sc_field_count = 0, sc_members = [], sc_pk_columns = []\<rparr>,
               ss_declares = [], ss_declare = empty_declare, ss_pk_columns = None\<rparr>,
             sd_state := SPS_IN_SCHEMA\<rparr>))"

definition add_type :: "string \<Rightarrow> (unit, schema_driver) cmd" where
  "add_type name s =
     (if (\<exists>t. sd_type_stack s = Some t \<and> (ts_current t \<noteq> None \<or> ds_constraint (ts_declare t) \<noteq> None
            \<or> ds_default (ts_declare t) \<noteq> None)) then (Inl Precondition, s)
      else let s = clear_type_stack s;
             t = (case sd_type_stack s of None \<Rightarrow> \<lparr>ts_current = None, ts_declares = [], ts_declare = empty_declare\<rparr> | Some t \<Rightarrow> t) in
        (Inr (), s\<lparr>sd_type_stack := Some (t\<lparr>ts_current := Some \<lparr>rt_name = name, rt_field_count = 0, rt_members = []\<rparr>\<rparr>),
             sd_state := SPS_IN_TYPE\<rparr>))"

text \<open>\<open>raw\<close> is the content of the new \<open>__index_def\<close>; its name and schema name are set, the rest stays.\<close>

definition create_index :: "index_def \<Rightarrow> string \<Rightarrow> string \<Rightarrow> (unit, schema_driver) cmd" where
  "create_index raw name schema s =
     (if name = [] \<or> schema = [] then (Inl Empty_value, s)
      else if (\<exists>t. sd_index_stack s = Some t \<and> (is_current t \<noteq> None \<or> is_fields t \<noteq> None \<or> is_type t \<noteq> None)) then (Inl Precondition, s)
      else case sd_schema_stack s of None \<Rightarrow> (Inl Precondition, s)
      | Some ss \<Rightarrow> if sc_name (ss_current ss) \<noteq> schema then (Inl Precondition, s)
          else let t = (case sd_index_stack s of None \<Rightarrow> \<lparr>is_current = None, is_fields = None, is_type = None\<rparr> | Some t \<Rightarrow> t) in
            (Inr (), s\<lparr>sd_index_stack := Some (t\<lparr>is_current := Some (raw\<lparr>ix_name := name, ix_schema_name := schema\<rparr>)\<rparr>),
               sd_state := SPS_IN_INDEX\<rparr>))"

subsection \<open>Attributes of the field that comes next\<close>

definition on_declare :: "(declare_stack \<Rightarrow> declare_stack) \<Rightarrow> (unit, schema_driver) cmd" where
  "on_declare f s = (case sd_state s of
       SPS_IN_TYPE \<Rightarrow> (case sd_type_stack s of None \<Rightarrow> (Inl Mem_fault, s)
         | Some t \<Rightarrow> (Inr (), s\<lparr>sd_type_stack := Some (t\<lparr>ts_declare := f (ts_declare t)\<rparr>)\<rparr>))
     | SPS_IN_SCHEMA \<Rightarrow> (case sd_schema_stack s of None \<Rightarrow> (Inl Mem_fault, s)
         | Some t \<Rightarrow> (Inr (), s\<lparr>sd_schema_stack := Some (t\<lparr>ss_declare := f (ss_declare t)\<rparr>)\<rparr>))
     | _ \<Rightarrow> (Inr (), s))"

definition set_constraint :: "bool \<Rightarrow> string \<Rightarrow> string \<Rightarrow> (unit, schema_driver) cmd" where
  "set_constraint is_not constraint values s =
     (if constraint = [] \<or> values = [] then (Inl Empty_value, s)
      else on_declare (\<lambda>d. d\<lparr>ds_constraint := Some \<lparr>cd_is_not = is_not, cd_constraint = constraint, cd_type = None,
             cd_values = values\<rparr>\<rparr>) s)"

definition set_default_value :: "string \<Rightarrow> (unit, schema_driver) cmd" where
  "set_default_value val s = (if val = [] then (Inl Empty_value, s) else on_declare (\<lambda>d. d\<lparr>ds_default := Some val\<rparr>) s)"

definition set_nullable :: "(unit, schema_driver) cmd" where
  "set_nullable = on_declare (\<lambda>d. d\<lparr>ds_nullable := True\<rparr>)"

subsection \<open>Declaring a field\<close>

definition check_reference_type :: "string \<Rightarrow> (unit, schema_driver) cmd" where
  "check_reference_type name = c_check Type_parser_error (\<lambda>s. sd_types s name \<noteq> None)"

text \<open>\<open>get_type_var_constraint\<close> and its like: the pending attributes go to the new declaration.\<close>

definition take_attributes :: "string \<Rightarrow> declare_def \<Rightarrow> declare_stack \<Rightarrow> declare_def" where
  "take_attributes type d p = (case d of Declare r n t v i c df \<Rightarrow>
     Declare r n t v i (map_option (\<lambda>c. c\<lparr>cd_type := Some type\<rparr>) (ds_constraint p)) (ds_default p))"

definition push_declare :: "string \<Rightarrow> declare_def \<Rightarrow> (unit, schema_driver) cmd" where
  "push_declare type d s = (case sd_state s of
       SPS_IN_TYPE \<Rightarrow> (case sd_type_stack s of None \<Rightarrow> (Inl Null_pointer, s)
         | Some t \<Rightarrow> (Inr (), s\<lparr>sd_type_stack := Some (t\<lparr>ts_declares := ts_declares t @ [take_attributes type d (ts_declare t)],
             ts_declare := (ts_declare t)\<lparr>ds_constraint := None, ds_default := None\<rparr>\<rparr>)\<rparr>))
     | SPS_IN_SCHEMA \<Rightarrow> (case sd_schema_stack s of None \<Rightarrow> (Inl Null_pointer, s)
         | Some t \<Rightarrow> (Inr (), s\<lparr>sd_schema_stack := Some (t\<lparr>ss_declares := ss_declares t @ [take_attributes type d (ss_declare t)],
             ss_declare := (ss_declare t)\<lparr>ds_constraint := None, ds_default := None\<rparr>\<rparr>)\<rparr>))
     | _ \<Rightarrow> (Inr (), s))"

definition add_declaration :: "string \<Rightarrow> string \<Rightarrow> bool \<Rightarrow> int \<Rightarrow> (unit, schema_driver) cmd" where
  "add_declaration varname type is_ref nullable =
     c_bind (c_all [c_check Empty_value (\<lambda>_. varname \<noteq> []), c_check Empty_value (\<lambda>_. type \<noteq> []),
                    c_when is_ref (check_reference_type type)]) (\<lambda>_.
     push_declare type (Declare is_ref (nullable > 0) type (Some varname) [] None None))"

definition inner_declare :: "bool \<Rightarrow> string \<Rightarrow> declare_def" where
  "inner_declare is_ref type = Declare is_ref False type None [] None None"

definition add_list_decl :: "string \<Rightarrow> string \<Rightarrow> bool \<Rightarrow> int \<Rightarrow> (unit, schema_driver) cmd" where
  "add_list_decl varname type is_ref nullable =
     c_bind (c_all [c_check Empty_value (\<lambda>_. varname \<noteq> []), c_check Empty_value (\<lambda>_. type \<noteq> []),
                    c_when is_ref (check_reference_type type)]) (\<lambda>_.
     push_declare type (Declare False (nullable > 0) ''list'' (Some varname) [inner_declare is_ref type] None None))"

definition add_map_decl :: "string \<Rightarrow> string \<Rightarrow> string \<Rightarrow> bool \<Rightarrow> int \<Rightarrow> (unit, schema_driver) cmd" where
  "add_map_decl varname ktype vtype is_ref nullable =
     c_bind (c_all [c_check Empty_value (\<lambda>_. varname \<noteq> []), c_check Empty_value (\<lambda>_. ktype \<noteq> []),
                    c_check Empty_value (\<lambda>_. vtype \<noteq> []), c_when is_ref (check_reference_type vtype)]) (\<lambda>_.
     push_declare vtype (Declare False (nullable > 0) ''map'' (Some varname) [inner_declare False ktype, inner_declare is_ref vtype] None None))"

subsection \<open>Keys and indexes\<close>

definition set_namespace :: "string \<Rightarrow> (unit, schema_driver) cmd" where
  "set_namespace names s = (if names = [] then (Inl Empty_value, s) else (Inr (), s\<lparr>sd_name_space := Some names\<rparr>))"

definition get_namespace :: "schema_driver \<Rightarrow> string" where
  "get_namespace s = (case sd_name_space s of None \<Rightarrow> [] | Some n \<Rightarrow> n)"

definition set_primary_key :: "string \<Rightarrow> (unit, schema_driver) cmd" where
  "set_primary_key keys s =
     (if keys = [] then (Inl Empty_value, s)
      else case sd_schema_stack s of None \<Rightarrow> (Inl Null_pointer, s)
      | Some t \<Rightarrow> if sd_state s \<noteq> SPS_IN_SCHEMA then (Inl Precondition, s)
          else (Inr (), s\<lparr>sd_schema_stack := Some (t\<lparr>ss_pk_columns := Some keys\<rparr>)\<rparr>))"

definition on_index_stack :: "(index_stack \<Rightarrow> index_stack) \<Rightarrow> (unit, schema_driver) cmd" where
  "on_index_stack f s = (case sd_index_stack s of None \<Rightarrow> (Inl Null_pointer, s)
     | Some t \<Rightarrow> if is_current t = None then (Inl Null_pointer, s) else (Inr (), s\<lparr>sd_index_stack := Some (f t)\<rparr>))"

definition set_index_fields :: "string \<Rightarrow> (unit, schema_driver) cmd" where
  "set_index_fields flds s = (if flds = [] then (Inl Empty_value, s) else on_index_stack (\<lambda>t. t\<lparr>is_fields := Some flds\<rparr>) s)"

definition set_index_type :: "string \<Rightarrow> (unit, schema_driver) cmd" where
  "set_index_type type s = (if type = [] then (Inl Empty_value, s) else on_index_stack (\<lambda>t. t\<lparr>is_type := Some type\<rparr>) s)"

definition get_key_column :: "string \<Rightarrow> exc + key_column" where
  "get_key_column c =
     (if c = [] then Inl Empty_value
      else let a = take 2 (str_split (CHR '' '') c) in
        if a = [] then Inl Postcondition
        else if a ! 0 = [] then Inl Empty_value
        else Inr \<lparr>kc_name = a ! 0, kc_index = 0, kc_sort_asc = (length a = 1 \<or> a ! 1 = ''ASC'')\<rparr>)"

text \<open>The loops over the columns: they are linked one by one, so those before an error stay.\<close>

fun key_columns :: "string list \<Rightarrow> nat \<Rightarrow> exc option \<times> key_column list" where
  "key_columns [] i = (None, [])"
| "key_columns (c # cs) i = (case get_key_column c of
       Inl e \<Rightarrow> (Some e, [])
     | Inr k \<Rightarrow> (case key_columns cs ((i + 1) mod 65536) of (r, ks) \<Rightarrow> (r, k\<lparr>kc_index := i\<rparr> # ks)))"

subsection \<open>Finishing a definition\<close>

definition finish_type :: "(unit, schema_driver) cmd" where
  "finish_type s = (case sd_type_stack s of None \<Rightarrow> (Inl Null_pointer, s)
     | Some t \<Rightarrow> (case ts_current t of None \<Rightarrow> (Inl Null_pointer, s)
       | Some rt \<Rightarrow>
           if ts_declares t = [] then (Inl Empty_value, s)
           else let rt' = rt\<lparr>rt_members := ts_declares t, rt_field_count := rt_field_count rt + length (ts_declares t)\<rparr>;
                    s' = s\<lparr>sd_type_stack := Some (t\<lparr>ts_current := Some rt'\<rparr>)\<rparr> in
             if sd_types s' (rt_name rt') \<noteq> None then (Inl Type_parser_error, s')
             else (Inr (), clear_type_stack (s'\<lparr>sd_types := (sd_types s')(rt_name rt' \<mapsto> rt')\<rparr>))))"

definition finish_schema :: "(unit, schema_driver) cmd" where
  "finish_schema s = (case sd_schema_stack s of None \<Rightarrow> (Inl Null_pointer, s)
     | Some t \<Rightarrow>
         if ss_declares t = [] then (Inl Empty_value, s)
         else let sc = ss_current t;
                  sc' = sc\<lparr>sc_members := ss_declares t, sc_field_count := sc_field_count sc + length (ss_declares t)\<rparr>;
                  put = (\<lambda>sc. s\<lparr>sd_schema_stack := Some (t\<lparr>ss_current := sc\<rparr>)\<rparr>) in
           (case ss_pk_columns t of None \<Rightarrow> (Inr (), put sc')
            | Some keys \<Rightarrow>
                if keys = [] then (Inr (), put sc')
                else let cols = str_split (CHR '','') keys in
                  if cols = [] then (Inl Postcondition, put sc')
                  else (case key_columns cols 0 of (r, ks) \<Rightarrow>
                    (case r of None \<Rightarrow> Inr () | Some e \<Rightarrow> Inl e,
                     put (if ks = [] then sc' else sc'\<lparr>sc_pk_columns := ks\<rparr>)))))"

definition finish_index :: "(unit, schema_driver) cmd" where
  "finish_index s = (case sd_index_stack s of None \<Rightarrow> (Inl Null_pointer, s)
     | Some t \<Rightarrow> (case is_current t of None \<Rightarrow> (Inl Null_pointer, s)
       | Some ix \<Rightarrow> (case is_fields t of None \<Rightarrow> (Inl Empty_value, s)
         | Some flds \<Rightarrow>
             if flds = [] then (Inl Empty_value, s)
             else if map_of (sd_indexes s) (ix_name ix) \<noteq> None then (Inl Type_parser_error, s)
             else let cols = str_split (CHR '','') flds in
               if cols = [] then (Inl Postcondition, s)
               else (case key_columns cols 0 of (r, ks) \<Rightarrow>
                 let ix1 = (if ks = [] then ix else ix\<lparr>ix_columns := ks, ix_field_count := ix_field_count ix + length ks\<rparr>);
                     put = (\<lambda>ix. s\<lparr>sd_index_stack := Some (t\<lparr>is_current := Some ix\<rparr>)\<rparr>) in
                 (case r of Some e \<Rightarrow> (Inl e, put ix1)
                  | None \<Rightarrow>
                    (case (case is_type t of None \<Rightarrow> Inr (ix_type ix1) | Some y \<Rightarrow> if y = [] then Inr (ix_type ix1) else get_index_type y) of
                       Inl e \<Rightarrow> (Inl e, put ix1)
                     | Inr y \<Rightarrow> let ix2 = ix1\<lparr>ix_type := y\<rparr> in
                         (Inr (), clear_index_stack ((put ix2)\<lparr>sd_indexes := sd_indexes s @ [(ix_name ix2, ix2)]\<rparr>))))))))"

definition finish_def :: "(unit, schema_driver) cmd" where
  "finish_def s = (case sd_state s of SPS_IN_TYPE \<Rightarrow> finish_type s | SPS_IN_SCHEMA \<Rightarrow> finish_schema s
     | SPS_IN_INDEX \<Rightarrow> finish_index s | SPS_NONE \<Rightarrow> (Inl Type_parser_error, s))"

end
