(* ===== verification/Translator.thy ===== *)
theory Translator
  imports SchemaDriver TypeSchema
begin

section \<open>The translator (parsers/includes/schema_driver.h)\<close>

text \<open>
  The translator turns the parsed schema into the node of a record type. A field that refers to a type
  is translated by translating that type again; the recursion is bounded by a number of levels, and
  \<open>None\<close> is the result of a translation that goes deeper. The nodes keep no pointer to their parent.
\<close>

type_synonym 'a run = "(exc + 'a) option"

definition r_bind :: "'a run \<Rightarrow> ('a \<Rightarrow> 'b run) \<Rightarrow> 'b run" where
  "r_bind m k = (case m of None \<Rightarrow> None | Some (Inl e) \<Rightarrow> Some (Inl e) | Some (Inr x) \<Rightarrow> k x)"

lemma r_bind_simps [simp]: "r_bind None k = None" "r_bind (Some (Inl e)) k = Some (Inl e)" "r_bind (Some (Inr x)) k = k x"
  by (simp_all add: r_bind_def)

definition not_null :: "'a option \<Rightarrow> exc + 'a" where
  "not_null p = (case p of None \<Rightarrow> Inl Null_pointer | Some x \<Rightarrow> Inr x)"

subsection \<open>Attributes\<close>

definition create_default_value :: "float_parser \<Rightarrow> string \<Rightarrow> dtype \<Rightarrow> exc + tdefault" where
  "create_default_value fp val dt = (if val = [] then Inl Empty_value else dl_create fp val dt)"

definition create_constraint :: "float_parser \<Rightarrow> constraint_def \<Rightarrow> dtype \<Rightarrow> exc + tcons" where
  "create_constraint fp d dt =
     (if cd_constraint d = [] \<or> cd_values d = [] then Inl Empty_value
      else cl_create fp (cd_constraint d) (Some (cd_values d)) dt (cd_is_not d))"

fun s_update :: "(finfo \<Rightarrow> finfo) \<Rightarrow> stype \<Rightarrow> stype" where
  "s_update g (S_native fi dt) = S_native (g fi) dt" | "s_update g (S_string fi mx) = S_string (g fi) mx"
| "s_update g (S_complex fi tn fs) = S_complex (g fi) tn fs" | "s_update g (S_list fi it i) = S_list (g fi) it i"
| "s_update g (S_map fi kt vt k v) = S_map (g fi) kt vt k v"

fun node_set_constraint :: "tcons \<Rightarrow> stype \<Rightarrow> exc + stype" where
  "node_set_constraint c (S_list fi it i) = Inl Base_error"
| "node_set_constraint c t = Inr (s_update (\<lambda>fi. fi\<lparr>fi_constraint := Some c\<rparr>) t)"

fun node_set_default :: "tdefault \<Rightarrow> stype \<Rightarrow> exc + stype" where
  "node_set_default d (S_list fi it i) = Inl Base_error"
| "node_set_default d t = Inr (s_update (\<lambda>fi. fi\<lparr>fi_default := Some d\<rparr>) t)"

definition set_attributes :: "float_parser \<Rightarrow> declare_def \<Rightarrow> stype \<Rightarrow> exc + stype" where
  "set_attributes fp d t0 =
     (let t = s_update (\<lambda>fi. fi\<lparr>fi_nullable := dc_nullable d\<rparr>) t0 in
      e_bind (case dc_constraint d of None \<Rightarrow> Inr t
              | Some c \<Rightarrow> e_bind (create_constraint fp c (s_datatype t)) (\<lambda>c. node_set_constraint c t)) (\<lambda>t.
      case dc_default d of None \<Rightarrow> Inr t
      | Some v \<Rightarrow> e_bind (create_default_value fp v (s_datatype t)) (\<lambda>x. node_set_default x t)))"

subsection \<open>Nodes\<close>

definition new_info :: "string \<Rightarrow> nat \<Rightarrow> finfo" where
  "new_info name index = \<lparr>fi_name = name, fi_index = index, fi_nullable = False, fi_constraint = None, fi_default = None\<rparr>"

text \<open>The node of a native type; \<open>None\<close> for one that is not native, which the callers refuse.\<close>

definition native_node :: "string \<Rightarrow> dtype \<Rightarrow> string \<Rightarrow> nat \<Rightarrow> exc + stype option" where
  "native_node type dt name index =
     (if \<not> is_native dt then Inr None
      else if dt = TYPE_STRING then e_bind (parse_string_size type) (\<lambda>n. Inr (Some (S_string (new_info name index) (Some n))))
      else Inr (Some (S_native (new_info name index) dt)))"

definition inner_native :: "string \<Rightarrow> string \<Rightarrow> nat \<Rightarrow> exc + stype option" where
  "inner_native type name index =
     e_bind (parse_type type) (\<lambda>dt.
       if dt = TYPE_UNKNOWN then Inl Postcondition
       else if \<not> is_inner_type_valid dt then Inl Precondition
       else native_node type dt name index)"

definition with_handlers :: "stype \<Rightarrow> exc + stype" where
  "with_handlers t = e_bind (handler_of t RM_READ) (\<lambda>_. e_bind (handler_of t RM_WRITE) (\<lambda>_. Inr t))"

definition new_list :: "string \<Rightarrow> nat \<Rightarrow> dtype \<Rightarrow> stype \<Rightarrow> exc + stype" where
  "new_list name index it inner = (if \<not> is_inner_type_valid it then Inl Precondition
     else with_handlers (S_list (new_info name index) it (Some inner)))"

definition new_map_node :: "string \<Rightarrow> nat \<Rightarrow> dtype \<Rightarrow> dtype \<Rightarrow> stype \<Rightarrow> exc + stype" where
  "new_map_node name index kt vt val = (if \<not> is_native kt \<or> \<not> is_inner_type_valid vt then Inl Precondition
     else with_handlers (S_map (new_info name index) kt vt None (Some val)))"

fun set_key_type :: "stype \<Rightarrow> stype \<Rightarrow> stype" where
  "set_key_type (S_map fi kt vt k v) key = S_map fi kt vt (Some key) v" | "set_key_type t key = t"

subsection \<open>Fields\<close>

text \<open>\<open>ct name type index\<close> is \<open>create_type\<close>; \<open>tys\<close> are the parsed types.\<close>

type_synonym type_maker = "string \<Rightarrow> reference_type \<Rightarrow> nat \<Rightarrow> stype run"

definition refer :: "type_maker \<Rightarrow> (string \<rightharpoonup> reference_type) \<Rightarrow> string \<Rightarrow> string \<Rightarrow> nat \<Rightarrow> stype run" where
  "refer ct tys type name index = (case tys type of None \<Rightarrow> Some (Inl Base_error) | Some rt \<Rightarrow> ct name rt index)"

definition create_inner_type :: "type_maker \<Rightarrow> (string \<rightharpoonup> reference_type) \<Rightarrow> declare_def \<Rightarrow> string \<Rightarrow> nat \<Rightarrow> stype run" where
  "create_inner_type ct tys d name index =
     (if dc_reference d then refer ct tys (dc_type d) name index
      else Some (e_bind (inner_native (dc_type d) name index) not_null))"

definition inner_datatype :: "declare_def \<Rightarrow> exc + dtype" where
  "inner_datatype d = (if dc_reference d then Inr TYPE_STRUCT
     else e_bind (parse_type (dc_type d)) (\<lambda>dt. if is_inner_type_valid dt then Inr dt else Inl Postcondition))"

definition list_node :: "type_maker \<Rightarrow> (string \<rightharpoonup> reference_type) \<Rightarrow> declare_def \<Rightarrow> string \<Rightarrow> nat \<Rightarrow> stype run" where
  "list_node ct tys d name index = (case dc_inner d of [] \<Rightarrow> Some (Inl Null_pointer)
     | i # is \<Rightarrow> r_bind (Some (inner_datatype i)) (\<lambda>it.
         r_bind (create_inner_type ct tys i name index) (\<lambda>inner. Some (new_list name index it inner))))"

definition map_node :: "type_maker \<Rightarrow> (string \<rightharpoonup> reference_type) \<Rightarrow> declare_def \<Rightarrow> string \<Rightarrow> nat \<Rightarrow> stype run" where
  "map_node ct tys d name index = (case dc_inner d of k # v # is \<Rightarrow>
       r_bind (Some (e_bind (parse_type (dc_type k)) (\<lambda>kt. if is_native kt then Inr kt else Inl Postcondition))) (\<lambda>kt.
       r_bind (Some (inner_datatype v)) (\<lambda>vt.
       r_bind (create_inner_type ct tys v ''value'' 1) (\<lambda>val.
       r_bind (Some (new_map_node name index kt vt val)) (\<lambda>mt.
       r_bind (create_inner_type ct tys k ''key'' 0) (\<lambda>key. Some (Inr (set_key_type mt key)))))))
     | _ \<Rightarrow> Some (Inl Null_pointer))"

definition field_node :: "type_maker \<Rightarrow> (string \<rightharpoonup> reference_type) \<Rightarrow> declare_def \<Rightarrow> string \<Rightarrow> nat \<Rightarrow> stype run" where
  "field_node ct tys d name index =
     (if dc_reference d then refer ct tys (dc_type d) name index
      else r_bind (Some (parse_type (dc_type d))) (\<lambda>ft.
        if ft = TYPE_UNKNOWN then Some (Inl Postcondition)
        else if is_native ft then Some (e_bind (native_node (dc_type d) ft name index) not_null)
        else if ft = TYPE_LIST then list_node ct tys d name index
        else if ft = TYPE_MAP then map_node ct tys d name index
        else Some (Inl Null_pointer)))"

definition tr_field :: "float_parser \<Rightarrow> type_maker \<Rightarrow> (string \<rightharpoonup> reference_type) \<Rightarrow> declare_def \<Rightarrow> nat \<Rightarrow> stype run" where
  "tr_field fp ct tys d index =
     (if dc_type d = [] then Some (Inl Empty_value)
      else case dc_variable d of None \<Rightarrow> Some (Inl Empty_value)
      | Some name \<Rightarrow> if name = [] then Some (Inl Empty_value)
          else r_bind (field_node ct tys d name index) (\<lambda>t. Some (set_attributes fp d t)))"

text \<open>The loop over the members: it throws when the index of the next field reaches 255.\<close>

fun tr_members :: "float_parser \<Rightarrow> type_maker \<Rightarrow> (string \<rightharpoonup> reference_type) \<Rightarrow> declare_def list \<Rightarrow> nat \<Rightarrow> stype list \<Rightarrow> stype list run" where
  "tr_members fp ct tys [] index fs = Some (Inr fs)"
| "tr_members fp ct tys (d # ds) index fs =
     r_bind (tr_field fp ct tys d index) (\<lambda>t.
     r_bind (Some (add_field fs t)) (\<lambda>fs.
       if index + 1 \<ge> 255 then Some (Inl Type_parser_error) else tr_members fp ct tys ds (index + 1) fs))"

fun create_type :: "float_parser \<Rightarrow> (string \<rightharpoonup> reference_type) \<Rightarrow> nat \<Rightarrow> type_maker" where
  "create_type fp tys 0 name rt index = None"
| "create_type fp tys (Suc n) name rt index =
     (if name = [] \<or> rt_name rt = [] then Some (Inl Empty_value)
      else r_bind (tr_members fp (create_type fp tys n) tys (rt_members rt) 0 []) (\<lambda>fs.
        Some (Inr (S_complex (new_info name index) (rt_name rt) fs))))"

definition translate :: "float_parser \<Rightarrow> (string \<rightharpoonup> reference_type) \<Rightarrow> nat \<Rightarrow> schema_defn \<Rightarrow> stype run" where
  "translate fp tys n sc =
     (if sc_name sc = [] then Some (Inl Empty_value)
      else r_bind (tr_members fp (create_type fp tys n) tys (sc_members sc) 0 []) (\<lambda>fs.
        Some (Inr (S_complex (new_info (sc_name sc) 0) (sc_name sc) fs))))"

definition sd_translate :: "float_parser \<Rightarrow> nat \<Rightarrow> schema_driver \<Rightarrow> stype run" where
  "sd_translate fp n s = (case sd_schema_stack s of None \<Rightarrow> Some (Inl Null_pointer)
     | Some t \<Rightarrow> translate fp (sd_types s) n (ss_current t))"

end
