(* ===== verification/TranslatorSpec.thy ===== *)
theory TranslatorSpec
  imports Translator
begin

section \<open>The translator on the tables of the driver\<close>

subsection \<open>References\<close>

definition dc_refs :: "declare_def \<Rightarrow> string set" where
  "dc_refs d = set (map dc_type (filter dc_reference (d # dc_inner d)))"

text \<open>A table is ordered when its types can be listed so that each refers only to earlier ones.\<close>

definition ordered_by :: "(string \<rightharpoonup> reference_type) \<Rightarrow> string list \<Rightarrow> bool" where
  "ordered_by tys ns \<longleftrightarrow> distinct ns \<and> set ns = dom tys
     \<and> (\<forall>i < length ns. \<forall>rt. tys (ns ! i) = Some rt \<longrightarrow> (\<forall>d \<in> set (rt_members rt). dc_refs d \<subseteq> set (take i ns)))"

lemma ordered_by_empty: "ordered_by Map.empty []"
  by (simp add: ordered_by_def)

lemma ordered_by_snoc:
  assumes "ordered_by tys ns" "tys n = None" "\<forall>d \<in> set (rt_members rt). dc_refs d \<subseteq> dom tys"
  shows "ordered_by (tys(n \<mapsto> rt)) (ns @ [n])"
proof -
  have n: "n \<notin> set ns" "distinct ns" "set ns = dom tys" using assms(1,2) by (auto simp: ordered_by_def)
  have "dc_refs d \<subseteq> set (take i (ns @ [n]))"
    if i: "i < length (ns @ [n])" and t: "(tys(n \<mapsto> rt)) ((ns @ [n]) ! i) = Some r" and d: "d \<in> set (rt_members r)" for i r d
  proof (cases "i < length ns")
    case True
    then have "ns ! i \<noteq> n" using n(1) nth_mem by metis
    then have "tys (ns ! i) = Some r" using t True by (simp add: nth_append)
    then show ?thesis using assms(1) True d unfolding ordered_by_def by fastforce
  next
    case False
    then show ?thesis using i t d assms(3) n by (simp add: less_Suc_eq)
  qed
  then show ?thesis
    using n unfolding ordered_by_def by auto
qed

subsection \<open>Two makers that agree on the references\<close>

definition halts :: "'a run \<Rightarrow> bool" where
  "halts m \<longleftrightarrow> m \<noteq> None"

lemma halts_simps [simp]: "halts (Some x)" "\<not> halts None" "halts (if b then m else m') = (if b then halts m else halts m')"
  by (simp_all add: halts_def)

definition agree :: "type_maker \<Rightarrow> type_maker \<Rightarrow> (string \<rightharpoonup> reference_type) \<Rightarrow> string set \<Rightarrow> bool" where
  "agree ct ct' tys R \<longleftrightarrow> (\<forall>r \<in> R. \<forall>rt name i. tys r = Some rt \<longrightarrow> ct name rt i = ct' name rt i)"

definition returns :: "type_maker \<Rightarrow> (string \<rightharpoonup> reference_type) \<Rightarrow> string set \<Rightarrow> bool" where
  "returns ct tys R \<longleftrightarrow> (\<forall>r \<in> R. \<forall>rt name i. tys r = Some rt \<longrightarrow> halts (ct name rt i))"

lemma refer_agree: "agree ct ct' tys R \<Longrightarrow> r \<in> R \<Longrightarrow> refer ct tys r name i = refer ct' tys r name i"
  by (auto simp: agree_def refer_def split: option.splits)

lemma refer_returns: "returns ct tys R \<Longrightarrow> r \<in> R \<Longrightarrow> halts (refer ct tys r name i)"
  by (auto simp: returns_def refer_def split: option.splits)

lemma r_bind_cong: "m = m' \<Longrightarrow> (\<And>x. k x = k' x) \<Longrightarrow> r_bind m k = r_bind m' k'"
  by (auto simp: r_bind_def split: option.splits sum.splits)

lemma r_bind_returns: "halts m \<Longrightarrow> (\<And>x. halts (k x)) \<Longrightarrow> halts (r_bind m k)"
  by (auto simp: r_bind_def halts_def split: option.splits sum.splits)

lemma inner_agree:
  "agree ct ct' tys R \<Longrightarrow> (dc_reference d \<Longrightarrow> dc_type d \<in> R) \<Longrightarrow> create_inner_type ct tys d name i = create_inner_type ct' tys d name i"
  by (simp add: create_inner_type_def refer_agree)

lemma inner_returns:
  "returns ct tys R \<Longrightarrow> (dc_reference d \<Longrightarrow> dc_type d \<in> R) \<Longrightarrow> halts (create_inner_type ct tys d name i)"
  by (cases "dc_reference d") (simp_all add: create_inner_type_def refer_returns)

lemma refs_inner: "x \<in> set (dc_inner d) \<Longrightarrow> dc_reference x \<Longrightarrow> dc_type x \<in> dc_refs d"
  by (auto simp: dc_refs_def)

lemma refs_self: "dc_reference d \<Longrightarrow> dc_type d \<in> dc_refs d"
  by (auto simp: dc_refs_def)

lemma tr_field_agree: "agree ct ct' tys (dc_refs d) \<Longrightarrow> tr_field fp ct tys d i = tr_field fp ct' tys d i"
  by (auto simp: tr_field_def field_node_def list_node_def map_node_def refer_agree [OF _ refs_self]
      inner_agree [OF _ refs_inner] split: option.splits list.splits intro!: r_bind_cong)

lemma list_node_returns: "returns ct tys (dc_refs d) \<Longrightarrow> halts (list_node ct tys d name i)"
  using inner_returns [OF _ refs_inner] unfolding list_node_def
  by (cases "dc_inner d") (auto intro!: r_bind_returns)

lemma map_node_returns:
  assumes "returns ct tys (dc_refs d)"
  shows "halts (map_node ct tys d name i)"
proof -
  have "halts (create_inner_type ct tys x nm j)" if "x \<in> set (dc_inner d)" for x nm j
    using inner_returns [OF assms refs_inner [OF that]] by blast
  then show ?thesis
    unfolding map_node_def
    by (auto intro!: r_bind_returns split: list.split option.split)
qed

lemma field_node_returns: "returns ct tys (dc_refs d) \<Longrightarrow> halts (field_node ct tys d name i)"
  using refer_returns [OF _ refs_self] list_node_returns map_node_returns unfolding field_node_def
  by (auto intro!: r_bind_returns)

lemma tr_field_returns: "returns ct tys (dc_refs d) \<Longrightarrow> halts (tr_field fp ct tys d i)"
  using field_node_returns unfolding tr_field_def
  by (cases "dc_variable d") (auto intro!: r_bind_returns)

lemma tr_members_agree:
  "(\<forall>d \<in> set ds. agree ct ct' tys (dc_refs d)) \<Longrightarrow> tr_members fp ct tys ds i fs = tr_members fp ct' tys ds i fs"
proof (induction ds arbitrary: i fs)
  case (Cons d ds)
  then show ?case
    using tr_field_agree [of ct ct' tys d fp i] by (auto intro!: r_bind_cong)
qed simp

lemma tr_members_returns: "(\<forall>d \<in> set ds. returns ct tys (dc_refs d)) \<Longrightarrow> halts (tr_members fp ct tys ds i fs)"
proof (induction ds arbitrary: i fs)
  case (Cons d ds)
  have "halts (tr_members fp ct tys ds j gs)" for j gs
    using Cons by simp
  then show ?case
    unfolding tr_members.simps using Cons.prems tr_field_returns [of ct tys d fp i]
    by (intro r_bind_returns) (simp_all)
qed simp

subsection \<open>Enough levels\<close>

lemma take_subset_mono: "i \<le> j \<Longrightarrow> set (take i ns) \<subseteq> set (take j ns)"
  by (rule set_take_subset_set_take)

lemma create_type_levels:
  assumes "ordered_by tys ns"
  shows "j < k \<Longrightarrow> j < length ns \<Longrightarrow> tys (ns ! j) = Some rt \<Longrightarrow>
    halts (create_type fp tys k name rt i) \<and> create_type fp tys k name rt i = create_type fp tys (Suc k) name rt i"
proof (induction k arbitrary: j rt name i)
  case (Suc k)
  have ex: "\<exists>j' < j. ns ! j' = r" if "d \<in> set (rt_members rt)" "r \<in> dc_refs d" for d r
  proof -
    have "dc_refs d \<subseteq> set (take j ns)"
      using assms Suc.prems(2,3) that(1) unfolding ordered_by_def by blast
    then have "r \<in> set (take j ns)" using that(2) by blast
    then show ?thesis
      using Suc.prems(2) by (auto simp: in_set_conv_nth)
  qed
  have "agree (create_type fp tys k) (create_type fp tys (Suc k)) tys (dc_refs d)
      \<and> returns (create_type fp tys k) tys (dc_refs d)" if "d \<in> set (rt_members rt)" for d
    unfolding agree_def returns_def using ex [OF that] Suc.IH Suc.prems(1,2)
    by (metis less_SucE less_trans)
  then have ag: "\<forall>d \<in> set (rt_members rt). agree (create_type fp tys k) (create_type fp tys (Suc k)) tys (dc_refs d)"
    and rt: "\<forall>d \<in> set (rt_members rt). returns (create_type fp tys k) tys (dc_refs d)"
    by auto
  have eq: "create_type fp tys (Suc k) name rt i = create_type fp tys (Suc (Suc k)) name rt i"
    using tr_members_agree [OF ag, of fp 0 "[]"] by (simp only: create_type.simps)
  have "halts (create_type fp tys (Suc k) name rt i)"
    using tr_members_returns [OF rt, of fp 0 "[]"]
    by (auto intro!: r_bind_returns)
  then show ?case using eq by blast
qed simp

lemma create_type_enough:
  assumes "ordered_by tys ns" "n \<ge> length ns" "r \<in> dom tys" "tys r = Some rt"
  shows "halts (create_type fp tys n name rt i) \<and> create_type fp tys n name rt i = create_type fp tys (length ns) name rt i"
proof -
  obtain j where j: "j < length ns" "ns ! j = r"
    using assms(1,3) by (metis in_set_conv_nth ordered_by_def)
  have "halts (create_type fp tys (length ns + m) name rt i)
      \<and> create_type fp tys (length ns + m) name rt i = create_type fp tys (length ns) name rt i" for m
  proof (induction m)
    case 0
    have "halts (create_type fp tys (length ns) name rt i)"
      using create_type_levels [OF assms(1) j(1) j(1), of rt fp name i] j(2) assms(4) by blast
    then show ?case by simp
  next
    case (Suc m)
    have "create_type fp tys (length ns + m) name rt i = create_type fp tys (Suc (length ns + m)) name rt i"
      using create_type_levels [OF assms(1), of j "length ns + m" rt fp name i] j assms(4) by simp
    then show ?case using Suc.IH by (metis add_Suc_right)
  qed
  from this [of "n - length ns"] show ?thesis using assms(2) by (metis le_add_diff_inverse)
qed

lemma translate_enough:
  assumes "ordered_by tys ns" "n \<ge> length ns" "\<forall>d \<in> set (sc_members sc). dc_refs d \<subseteq> dom tys"
  shows "halts (translate fp tys n sc) \<and> translate fp tys n sc = translate fp tys (length ns) sc"
proof -
  have ag: "\<forall>d \<in> set (sc_members sc). agree (create_type fp tys n) (create_type fp tys (length ns)) tys (dc_refs d)"
    and rt: "\<forall>d \<in> set (sc_members sc). returns (create_type fp tys n) tys (dc_refs d)"
    using create_type_enough [OF assms(1,2)] assms(3) unfolding agree_def returns_def by blast+
  have "translate fp tys n sc = translate fp tys (length ns) sc"
    using tr_members_agree [OF ag, of fp 0 "[]"] by (simp add: translate_def)
  moreover have "halts (translate fp tys n sc)"
    using tr_members_returns [OF rt, of fp 0 "[]"]
    by (auto simp: translate_def halts_def [symmetric] intro!: r_bind_returns)
  ultimately show ?thesis by blast
qed

end
