(* ===== verification/SchemaReach.thy ===== *)
theory SchemaReach
  imports TranslatorSpec
begin

section \<open>Every state of the driver\<close>

text \<open>
  The calls of the driver as data, the states that any sequence of calls leads to, also when some of
  them throw, and the invariant that makes the translation of such a state end.
\<close>

datatype sd_call =
    Create_schema string | Add_type string | Create_index index_def string string
  | Add_declaration string string bool int | Add_list_decl string string bool int | Add_map_decl string string string bool int
  | Set_constraint bool string string | Set_default string | Set_nullable
  | Set_primary_key string | Set_index_fields string | Set_index_type string | Set_namespace string | Finish_def

fun sd_run :: "sd_call \<Rightarrow> (unit, schema_driver) cmd" where
  "sd_run (Create_schema n) = create_schema n" | "sd_run (Add_type n) = add_type n"
| "sd_run (Create_index raw n sc) = create_index raw n sc"
| "sd_run (Add_declaration v t r n) = add_declaration v t r n" | "sd_run (Add_list_decl v t r n) = add_list_decl v t r n"
| "sd_run (Add_map_decl v k t r n) = add_map_decl v k t r n"
| "sd_run (Set_constraint nt c vs) = set_constraint nt c vs" | "sd_run (Set_default v) = set_default_value v"
| "sd_run Set_nullable = set_nullable" | "sd_run (Set_primary_key ks) = set_primary_key ks"
| "sd_run (Set_index_fields fs) = set_index_fields fs" | "sd_run (Set_index_type t) = set_index_type t"
| "sd_run (Set_namespace n) = set_namespace n" | "sd_run Finish_def = finish_def"

inductive sd_reach :: "schema_driver \<Rightarrow> bool" where
  new: "sd_reach new_driver"
| call: "sd_reach s \<Longrightarrow> sd_reach (snd (sd_run c s))"

subsection \<open>The invariant\<close>

definition refs_ok :: "(string \<rightharpoonup> reference_type) \<Rightarrow> declare_def list \<Rightarrow> bool" where
  "refs_ok tys ds \<longleftrightarrow> (\<forall>d \<in> set ds. dc_refs d \<subseteq> dom tys)"

definition type_stack_ok :: "(string \<rightharpoonup> reference_type) \<Rightarrow> type_stack option \<Rightarrow> bool" where
  "type_stack_ok tys t = (case t of None \<Rightarrow> True | Some t \<Rightarrow> refs_ok tys (ts_declares t))"

definition schema_stack_ok :: "(string \<rightharpoonup> reference_type) \<Rightarrow> schema_stack option \<Rightarrow> bool" where
  "schema_stack_ok tys t = (case t of None \<Rightarrow> True
     | Some t \<Rightarrow> refs_ok tys (ss_declares t) \<and> refs_ok tys (sc_members (ss_current t)))"

definition sd_inv :: "schema_driver \<Rightarrow> bool" where
  "sd_inv s \<longleftrightarrow> (\<exists>ns. ordered_by (sd_types s) ns) \<and> type_stack_ok (sd_types s) (sd_type_stack s)
     \<and> schema_stack_ok (sd_types s) (sd_schema_stack s)"

lemmas inv_defs = sd_inv_def type_stack_ok_def schema_stack_ok_def refs_ok_def

lemma refs_ok_simps [simp]: "refs_ok tys []" "refs_ok tys (ds @ [d]) \<longleftrightarrow> refs_ok tys ds \<and> dc_refs d \<subseteq> dom tys"
  by (auto simp: refs_ok_def)

lemma refs_ok_mono: "refs_ok tys ds \<Longrightarrow> refs_ok (tys(n \<mapsto> rt)) ds"
  by (fastforce simp: refs_ok_def)

lemma stacks_mono:
  "type_stack_ok tys t \<Longrightarrow> type_stack_ok (tys(n \<mapsto> rt)) t" "schema_stack_ok tys u \<Longrightarrow> schema_stack_ok (tys(n \<mapsto> rt)) u"
  by (auto simp: type_stack_ok_def schema_stack_ok_def refs_ok_mono simp del: fun_upd_apply split: option.splits)

lemma refs_take [simp]: "dc_refs (take_attributes type d p) = dc_refs d"
  by (cases d) (simp add: take_attributes_def dc_refs_def)

lemma inv_on_declare: "sd_inv s \<Longrightarrow> sd_inv (snd (on_declare f s))"
  by (auto simp: on_declare_def sd_inv_def type_stack_ok_def schema_stack_ok_def split: parse_state.splits option.splits)

lemma inv_push:
  assumes "sd_inv s" "dc_refs d \<subseteq> dom (sd_types s)"
  shows "sd_inv (snd (push_declare type d s))"
  using assms by (auto simp: push_declare_def sd_inv_def type_stack_ok_def schema_stack_ok_def split: parse_state.splits option.splits)

lemma refs_declare: "dc_refs (Declare r n t v i c df) = (if r then {t} else {}) \<union> set (map dc_type (filter dc_reference i))"
  by (auto simp: dc_refs_def)

lemma inv_add:
  "sd_inv s \<Longrightarrow> sd_inv (snd (add_declaration v t r n s))" "sd_inv s \<Longrightarrow> sd_inv (snd (add_list_decl v t r n s))"
  "sd_inv s \<Longrightarrow> sd_inv (snd (add_map_decl v k t r n s))"
  by (auto simp: add_declaration_def add_list_decl_def add_map_decl_def inner_declare_def cmd_simps check_reference_type_def
      refs_declare intro!: inv_push)

lemma inv_start: "sd_inv s \<Longrightarrow> sd_inv (snd (create_schema n s))" "sd_inv s \<Longrightarrow> sd_inv (snd (add_type n s))"
  "sd_inv s \<Longrightarrow> sd_inv (snd (create_index raw n sc s))"
  by (auto simp: create_schema_def add_type_def create_index_def clear_type_stack_def sd_inv_def type_stack_ok_def
      schema_stack_ok_def Let_def split: option.splits)

lemma inv_attribute: "sd_inv s \<Longrightarrow> sd_inv (snd (set_constraint nt c vs s))" "sd_inv s \<Longrightarrow> sd_inv (snd (set_default_value x s))"
  "sd_inv s \<Longrightarrow> sd_inv (snd (set_nullable s))"
  by (simp_all add: set_constraint_def set_default_value_def set_nullable_def inv_on_declare)

lemma inv_set: "sd_inv s \<Longrightarrow> sd_inv (snd (set_namespace ns s))"
  "sd_inv s \<Longrightarrow> sd_inv (snd (set_primary_key ks s))" "sd_inv s \<Longrightarrow> sd_inv (snd (set_index_fields fs s))"
  "sd_inv s \<Longrightarrow> sd_inv (snd (set_index_type t s))"
  by (auto simp: set_namespace_def set_primary_key_def set_index_fields_def set_index_type_def on_index_stack_def sd_inv_def
      schema_stack_ok_def split: option.splits)

lemma inv_finish_type:
  assumes "sd_inv s"
  shows "sd_inv (snd (finish_type s))"
proof (cases "\<exists>t rt. sd_type_stack s = Some t \<and> ts_current t = Some rt \<and> ts_declares t \<noteq> [] \<and> sd_types s (rt_name rt) = None")
  case True
  then obtain t rt where t: "sd_type_stack s = Some t" "ts_current t = Some rt" "ts_declares t \<noteq> []" "sd_types s (rt_name rt) = None"
    by blast
  obtain ns where ns: "ordered_by (sd_types s) ns" using assms by (auto simp: sd_inv_def)
  let ?rt = "rt\<lparr>rt_members := ts_declares t, rt_field_count := rt_field_count rt + length (ts_declares t)\<rparr>"
  have "\<forall>d \<in> set (rt_members ?rt). dc_refs d \<subseteq> dom (sd_types s)"
    using assms t(1) by (auto simp: inv_defs)
  from ordered_by_snoc [OF ns t(4) this]
  have o: "\<exists>ns. ordered_by ((sd_types s)(rt_name rt \<mapsto> ?rt)) ns" by blast
  have st: "schema_stack_ok ((sd_types s)(rt_name rt \<mapsto> ?rt)) (sd_schema_stack s)"
    using assms by (intro stacks_mono) (simp add: sd_inv_def)
  show ?thesis
    using t o st by (simp add: finish_type_def Let_def sd_inv_def clear_type_stack_def type_stack_ok_def del: fun_upd_apply)
next
  case False
  then show ?thesis
    using assms by (auto simp: finish_type_def Let_def sd_inv_def type_stack_ok_def split: option.splits)
qed

lemma inv_finish: "sd_inv s \<Longrightarrow> sd_inv (snd (finish_schema s))" "sd_inv s \<Longrightarrow> sd_inv (snd (finish_index s))"
  by (auto simp: finish_schema_def finish_index_def clear_index_stack_def Let_def sd_inv_def schema_stack_ok_def
      split: option.splits prod.splits sum.splits)

lemma inv_step: "sd_inv s \<Longrightarrow> sd_inv (snd (sd_run c s))"
  by (cases c) (auto simp: inv_add inv_start inv_attribute inv_set inv_finish inv_finish_type finish_def_def split: parse_state.split)

lemma reach_inv: "sd_reach s \<Longrightarrow> sd_inv s"
proof (induction rule: sd_reach.induct)
  case new
  then show ?case
    using ordered_by_empty by (auto simp: new_driver_def sd_inv_def type_stack_ok_def schema_stack_ok_def)
qed (rule inv_step)

lemma ordered_length: "ordered_by tys ns \<Longrightarrow> length ns = card (dom tys)"
  by (metis distinct_card ordered_by_def)

text \<open>C10. In every state of the driver, whatever calls led to it and whether or not they
  threw, the types refer to each other without a cycle: the translation of the schema ends, with as
  many levels as there are types, and more levels do not change what it gives.\<close>

theorem translate_terminates:
  assumes "sd_reach s"
  shows "\<exists>r. \<forall>m. sd_translate fp (card (dom (sd_types s)) + m) s = Some r"
proof (cases "sd_schema_stack s")
  case None
  then show ?thesis by (simp add: sd_translate_def)
next
  case (Some t)
  obtain ns where ns: "ordered_by (sd_types s) ns" and m: "\<forall>d \<in> set (sc_members (ss_current t)). dc_refs d \<subseteq> dom (sd_types s)"
    using reach_inv [OF assms] Some by (auto simp: inv_defs)
  have "halts (translate fp (sd_types s) (length ns + k) (ss_current t)) \<and> translate fp (sd_types s) (length ns + k) (ss_current t)
      = translate fp (sd_types s) (length ns) (ss_current t)" for k
    by (rule translate_enough [OF ns _ m]) simp
  then show ?thesis
    using Some ordered_length [OF ns] by (simp add: sd_translate_def halts_def) (metis not_Some_eq)
qed

end
