(* ===== verification/SchemaText.thy ===== *)
theory SchemaText
  imports SchemaReach
begin

section \<open>What the grammar does with a schema file (parsers/src/schema_parser.yy)\<close>

text \<open>
  A source file as the grammar sees it, and the calls its actions make, in the order of the
  reductions. Names and values are the texts that the actions pass on; the buffers the actions build
  them in are taken to be large enough. A new \<open>__index_def\<close> comes with the content of its memory.
\<close>

datatype field_kind = K_native string | K_ref string | K_list string | K_list_ref string | K_map string string
  | K_map_ref string string

record field_src =
  f_kind :: field_kind
  f_name :: string
  f_constraint :: "(bool \<times> string \<times> string) option"
  f_default :: "string option"
  f_nullable :: bool

record type_src =
  t_name :: string
  t_fields :: "field_src list"

record key_src =
  k_path :: "string list"
  k_sort :: "string option"

record index_src =
  i_name :: string
  i_schema :: string
  i_columns :: "key_src list"
  i_type :: "string option"

record schema_src =
  s_name :: string
  s_fields :: "field_src list"
  s_keys :: "key_src list option"

record file_src =
  file_namespace :: "string list option"
  file_types :: "type_src list"
  file_schema :: schema_src
  file_indexes :: "(index_def \<times> index_src) list"

fun join_with :: "char \<Rightarrow> string list \<Rightarrow> string" where
  "join_with c [] = []" | "join_with c [w] = w" | "join_with c (w # ws) = w @ c # join_with c ws"

definition column_text :: "key_src \<Rightarrow> string" where
  "column_text k = join_with (CHR ''.'') (k_path k) @ (case k_sort k of None \<Rightarrow> [] | Some s \<Rightarrow> CHR '' '' # s)"

definition columns_text :: "key_src list \<Rightarrow> string" where
  "columns_text ks = join_with (CHR '','') (map column_text ks)"

fun declare_call :: "field_kind \<Rightarrow> string \<Rightarrow> int \<Rightarrow> sd_call" where
  "declare_call (K_native t) n nl = Add_declaration n t False nl" | "declare_call (K_ref t) n nl = Add_declaration n t True nl"
| "declare_call (K_list t) n nl = Add_list_decl n t False nl" | "declare_call (K_list_ref t) n nl = Add_list_decl n t True nl"
| "declare_call (K_map k t) n nl = Add_map_decl n k t False nl" | "declare_call (K_map_ref k t) n nl = Add_map_decl n k t True nl"

definition field_calls :: "field_src \<Rightarrow> sd_call list" where
  "field_calls f =
     (case f_constraint f of None \<Rightarrow> [] | Some (nt, c, vs) \<Rightarrow> [Set_constraint nt c vs])
   @ (case f_default f of None \<Rightarrow> [] | Some v \<Rightarrow> [Set_default v])
   @ (if f_nullable f then [Set_nullable] else [])
   @ [declare_call (f_kind f) (f_name f) (if f_nullable f then 1 else 0)]"

definition type_calls :: "type_src \<Rightarrow> sd_call list" where
  "type_calls t = Add_type (t_name t) # concat (map field_calls (t_fields t)) @ [Finish_def]"

definition schema_calls :: "schema_src \<Rightarrow> sd_call list" where
  "schema_calls s = Create_schema (s_name s) # concat (map field_calls (s_fields s))
     @ (case s_keys s of None \<Rightarrow> [] | Some ks \<Rightarrow> [Set_primary_key (columns_text ks)]) @ [Finish_def]"

definition index_calls :: "index_def \<times> index_src \<Rightarrow> sd_call list" where
  "index_calls = (\<lambda>(raw, i). [Create_index raw (i_name i) (i_schema i), Set_index_fields (columns_text (i_columns i))]
     @ (case i_type i of None \<Rightarrow> [] | Some t \<Rightarrow> [Set_index_type t]) @ [Finish_def])"

definition file_calls :: "file_src \<Rightarrow> sd_call list" where
  "file_calls f = (case file_namespace f of None \<Rightarrow> [] | Some n \<Rightarrow> [Set_namespace (join_with (CHR ''.'') n)])
     @ concat (map type_calls (file_types f)) @ schema_calls (file_schema f) @ concat (map index_calls (file_indexes f))"

text \<open>An exception leaves the parser.\<close>

fun run_calls :: "sd_call list \<Rightarrow> (unit, schema_driver) cmd" where
  "run_calls [] = c_ret ()"
| "run_calls (c # cs) = c_bind (sd_run c) (\<lambda>_. run_calls cs)"

lemma run_calls_append: "run_calls cs s = (Inr (), s') \<Longrightarrow> run_calls (cs @ ds) s = run_calls ds s'"
  by (induction cs arbitrary: s) (auto simp: c_ret_def c_bind_def split: prod.splits sum.splits)

lemma run_calls_one: "sd_run c s = (Inr (), s') \<Longrightarrow> run_calls (c # cs) s = run_calls cs s'"
  by (simp add: c_bind_def)

lemma run_calls_reach: "sd_reach s \<Longrightarrow> sd_reach (snd (run_calls cs s))"
proof (induction cs arbitrary: s)
  case (Cons c cs)
  have r: "sd_reach (snd (sd_run c s))" using Cons.prems by (rule sd_reach.call)
  then show ?case
    using Cons.IH [of "snd (sd_run c s)"] by (auto simp: c_bind_def split: prod.splits sum.splits)
qed (simp add: c_ret_def)

subsection \<open>The tables a file stands for\<close>

fun refs_of :: "field_kind \<Rightarrow> string list" where
  "refs_of (K_ref t) = [t]" | "refs_of (K_list_ref t) = [t]" | "refs_of (K_map_ref k t) = [t]" | "refs_of _ = []"

fun kind_texts :: "field_kind \<Rightarrow> string list" where
  "kind_texts (K_map k t) = [k, t]" | "kind_texts (K_map_ref k t) = [k, t]" | "kind_texts (K_native t) = [t]"
| "kind_texts (K_ref t) = [t]" | "kind_texts (K_list t) = [t]" | "kind_texts (K_list_ref t) = [t]"

fun kind_declare :: "field_kind \<Rightarrow> bool \<times> string \<times> declare_def list" where
  "kind_declare (K_native t) = (False, t, [])" | "kind_declare (K_ref t) = (True, t, [])"
| "kind_declare (K_list t) = (False, ''list'', [inner_declare False t])"
| "kind_declare (K_list_ref t) = (False, ''list'', [inner_declare True t])"
| "kind_declare (K_map k t) = (False, ''map'', [inner_declare False k, inner_declare False t])"
| "kind_declare (K_map_ref k t) = (False, ''map'', [inner_declare False k, inner_declare True t])"

definition declared :: "field_src \<Rightarrow> declare_def" where
  "declared f = (case kind_declare (f_kind f) of (r, t, i) \<Rightarrow>
     Declare r (f_nullable f) t (Some (f_name f)) i
       (map_option (\<lambda>(nt, c, vs). \<lparr>cd_is_not = nt, cd_constraint = c, cd_type = Some (last (kind_texts (f_kind f))), cd_values = vs\<rparr>)
         (f_constraint f)) (f_default f))"

definition key_of :: "nat \<Rightarrow> key_src \<Rightarrow> key_column" where
  "key_of i k = \<lparr>kc_name = join_with (CHR ''.'') (k_path k), kc_index = i, kc_sort_asc = (k_sort k \<noteq> Some ''DESC'')\<rparr>"

definition keys_of :: "key_src list \<Rightarrow> key_column list" where
  "keys_of ks = map (\<lambda>i. key_of i (ks ! i)) [0..<length ks]"

definition type_of :: "type_src \<Rightarrow> reference_type" where
  "type_of t = \<lparr>rt_name = t_name t, rt_field_count = length (t_fields t), rt_members = map declared (t_fields t)\<rparr>"

fun types_of :: "type_src list \<Rightarrow> string \<rightharpoonup> reference_type" where
  "types_of [] = Map.empty" | "types_of (t # ts) = (types_of ts)(t_name t \<mapsto> type_of t)"

definition schema_of :: "schema_src \<Rightarrow> schema_defn" where
  "schema_of s = \<lparr>sc_name = s_name s, sc_field_count = length (s_fields s), sc_members = map declared (s_fields s),
     sc_pk_columns = (case s_keys s of None \<Rightarrow> [] | Some ks \<Rightarrow> keys_of ks)\<rparr>"

definition index_of :: "index_def \<Rightarrow> index_src \<Rightarrow> index_def" where
  "index_of raw i = raw\<lparr>ix_name := i_name i, ix_schema_name := i_schema i, ix_columns := keys_of (i_columns i),
     ix_field_count := ix_field_count raw + length (i_columns i),
     ix_type := (case i_type i of None \<Rightarrow> ix_type raw | Some t \<Rightarrow> (case get_index_type t of Inr y \<Rightarrow> y | Inl _ \<Rightarrow> ix_type raw))\<rparr>"

subsection \<open>Well-formed files\<close>

definition word_ok :: "string \<Rightarrow> bool" where
  "word_ok w \<longleftrightarrow> w \<noteq> [] \<and> set w \<inter> {CHR '','', CHR ''.'', CHR '' ''} = {}"

definition field_ok :: "string set \<Rightarrow> field_src \<Rightarrow> bool" where
  "field_ok defined f \<longleftrightarrow> f_name f \<noteq> [] \<and> [] \<notin> set (kind_texts (f_kind f)) \<and> set (refs_of (f_kind f)) \<subseteq> defined
     \<and> (case f_constraint f of None \<Rightarrow> True | Some (nt, c, vs) \<Rightarrow> c \<noteq> [] \<and> vs \<noteq> []) \<and> f_default f \<noteq> Some []"

definition fields_ok :: "string set \<Rightarrow> field_src list \<Rightarrow> bool" where
  "fields_ok defined fs \<longleftrightarrow> fs \<noteq> [] \<and> (\<forall>f \<in> set fs. field_ok defined f)"

fun types_ok :: "string set \<Rightarrow> type_src list \<Rightarrow> bool" where
  "types_ok defined [] = True"
| "types_ok defined (t # ts) = (t_name t \<notin> defined \<and> fields_ok defined (t_fields t) \<and> types_ok (insert (t_name t) defined) ts)"

definition key_ok :: "key_src \<Rightarrow> bool" where
  "key_ok k \<longleftrightarrow> k_path k \<noteq> [] \<and> (\<forall>w \<in> set (k_path k). word_ok w) \<and> (case k_sort k of None \<Rightarrow> True | Some s \<Rightarrow> s = ''ASC'' \<or> s = ''DESC'')"

definition keys_ok :: "key_src list \<Rightarrow> bool" where
  "keys_ok ks \<longleftrightarrow> ks \<noteq> [] \<and> length ks < 65536 \<and> (\<forall>k \<in> set ks. key_ok k)"

definition index_ok :: "string \<Rightarrow> index_src \<Rightarrow> bool" where
  "index_ok schema i \<longleftrightarrow> i_name i \<noteq> [] \<and> i_schema i = schema \<and> schema \<noteq> [] \<and> keys_ok (i_columns i)
     \<and> (case i_type i of None \<Rightarrow> True | Some t \<Rightarrow> \<exists>y. t = get_index_name y)"

definition file_ok :: "file_src \<Rightarrow> bool" where
  "file_ok f \<longleftrightarrow> (case file_namespace f of None \<Rightarrow> True | Some n \<Rightarrow> n \<noteq> [] \<and> (\<forall>w \<in> set n. word_ok w))
     \<and> types_ok {} (file_types f) \<and> fields_ok (t_name ` set (file_types f)) (s_fields (file_schema f))
     \<and> (case s_keys (file_schema f) of None \<Rightarrow> True | Some ks \<Rightarrow> keys_ok ks)
     \<and> distinct (map (\<lambda>(raw, i). i_name i) (file_indexes f))
     \<and> (\<forall>(raw, i) \<in> set (file_indexes f). index_ok (s_name (file_schema f)) i)"

end
