(* ===== verification/SchemaBuild.thy ===== *)
theory SchemaBuild
  imports SchemaText
begin

section \<open>The driver builds the tables that a file stands for\<close>

subsection \<open>Splitting what was joined\<close>

lemma split_one: "d \<notin> set w \<Longrightarrow> w \<noteq> [] \<Longrightarrow> str_split d w = [w]"
proof -
  assume d: "d \<notin> set w" "w \<noteq> []"
  have t: "takeWhile (\<lambda>c. c \<noteq> d) w = w" "dropWhile (\<lambda>c. c \<noteq> d) w = []"
    using d(1) by (auto simp: takeWhile_eq_all_conv dropWhile_eq_Nil_conv)
  show ?thesis using d(2) by (subst str_split.simps) (simp add: t str_split.simps [of d "[]"])
qed

lemma split_cons: "d \<notin> set w \<Longrightarrow> str_split d (w @ d # s) = w # str_split d s"
proof -
  assume d: "d \<notin> set w"
  have "takeWhile (\<lambda>c. c \<noteq> d) (w @ d # s) = w @ takeWhile (\<lambda>c. c \<noteq> d) (d # s)"
    by (rule takeWhile_append2) (use d in auto)
  moreover have "dropWhile (\<lambda>c. c \<noteq> d) (w @ d # s) = dropWhile (\<lambda>c. c \<noteq> d) (d # s)"
    by (rule dropWhile_append2) (use d in auto)
  ultimately show ?thesis by (subst str_split.simps) simp
qed

lemma split_join: "ws \<noteq> [] \<Longrightarrow> (\<forall>w \<in> set ws. w \<noteq> [] \<and> d \<notin> set w) \<Longrightarrow> str_split d (join_with d ws) = ws"
  by (induction d ws rule: join_with.induct) (simp_all add: split_one split_cons)

lemma set_join: "set (join_with c ws) \<subseteq> insert c (\<Union> (set ` set ws))"
  by (induction c ws rule: join_with.induct) auto

lemma join_empty: "ws \<noteq> [] \<Longrightarrow> (\<forall>w \<in> set ws. w \<noteq> []) \<Longrightarrow> join_with c ws \<noteq> []"
  by (induction c ws rule: join_with.induct) auto

lemma path_text:
  assumes "key_ok k"
  shows "CHR '' '' \<notin> set (join_with (CHR ''.'') (k_path k))" "CHR '','' \<notin> set (join_with (CHR ''.'') (k_path k))"
    "join_with (CHR ''.'') (k_path k) \<noteq> []"
  using assms set_join [of "CHR ''.''" "k_path k"] join_empty [of "k_path k" "CHR ''.''"]
  by (auto simp: key_ok_def word_ok_def)

lemma column_text_ok: "key_ok k \<Longrightarrow> column_text k \<noteq> [] \<and> CHR '','' \<notin> set (column_text k)"
  using path_text [of k] by (auto simp: column_text_def key_ok_def split: option.splits)

lemma key_column_of: "key_ok k \<Longrightarrow> get_key_column (column_text k) = Inr ((key_of 0 k))"
  using path_text [of k] column_text_ok [of k]
  by (auto simp: get_key_column_def column_text_def key_of_def split_cons split_one key_ok_def Let_def split: option.splits)

lemma columns_split:
  assumes "keys_ok ks"
  shows "str_split (CHR '','') (columns_text ks) = map column_text ks" "columns_text ks \<noteq> []"
proof -
  have k: "map column_text ks \<noteq> []" "\<forall>w \<in> set (map column_text ks). w \<noteq> [] \<and> CHR '','' \<notin> set w"
    using assms column_text_ok by (auto simp: keys_ok_def)
  show "str_split (CHR '','') (columns_text ks) = map column_text ks"
    unfolding columns_text_def by (rule split_join [OF k])
  show "columns_text ks \<noteq> []"
    unfolding columns_text_def by (rule join_empty [OF k(1)]) (use k(2) in blast)
qed

lemma key_columns_of:
  assumes "\<forall>k \<in> set ks. key_ok k" "i + length ks < 65537"
  shows "key_columns (map column_text ks) i = (None, map (\<lambda>j. key_of (i + j) (ks ! j)) [0..<length ks])"
  using assms
proof (induction ks arbitrary: i)
  case (Cons k ks)
  have m: "map (\<lambda>j. key_of (i + j) ((k # ks) ! j)) [0..<length (k # ks)]
      = key_of i k # map (\<lambda>j. key_of (i + 1 + j) (ks ! j)) [0..<length ks]"
    by (simp add: upt_conv_Cons map_Suc_upt [symmetric] del: upt_Suc)
  show ?case
  proof (cases ks)
    case Nil
    then show ?thesis using Cons.prems key_column_of [of k] by (simp add: key_of_def)
  next
    case (Cons k' ks')
    then have "(i + 1) mod 65536 = i + 1" using Cons.prems(2) by simp
    then show ?thesis
      unfolding m using Cons.IH [of "i + 1"] Cons.prems key_column_of [of k] by (simp add: key_of_def del: upt_Suc)
  qed
qed simp

subsection \<open>Collecting fields\<close>

text \<open>What a type or a schema has collected so far, and the pending attributes.\<close>

definition collected :: "schema_driver \<Rightarrow> (declare_def list \<times> declare_stack) option" where
  "collected s = (case sd_state s of SPS_IN_TYPE \<Rightarrow> map_option (\<lambda>t. (ts_declares t, ts_declare t)) (sd_type_stack s)
     | SPS_IN_SCHEMA \<Rightarrow> map_option (\<lambda>t. (ss_declares t, ss_declare t)) (sd_schema_stack s) | _ \<Rightarrow> None)"

definition collect :: "declare_def list \<Rightarrow> declare_stack \<Rightarrow> schema_driver \<Rightarrow> schema_driver" where
  "collect ds p s = (case sd_state s of
       SPS_IN_TYPE \<Rightarrow> s\<lparr>sd_type_stack := map_option (\<lambda>t. t\<lparr>ts_declares := ds, ts_declare := p\<rparr>) (sd_type_stack s)\<rparr>
     | SPS_IN_SCHEMA \<Rightarrow> s\<lparr>sd_schema_stack := map_option (\<lambda>t. t\<lparr>ss_declares := ds, ss_declare := p\<rparr>) (sd_schema_stack s)\<rparr>
     | _ \<Rightarrow> s)"

lemma collect_laws:
  "collected s = Some x \<Longrightarrow> collected (collect ds p s) = Some (ds, p)"
  "collect ds p (collect ds' p' s) = collect ds p s"
  "sd_types (collect ds p s) = sd_types s" "sd_state (collect ds p s) = sd_state s"
  "collected s = Some (ds, p) \<Longrightarrow> collect ds p s = s"
  by (auto simp: collected_def collect_def option.map_comp comp_def split: parse_state.splits)

lemma on_declare_collect:
  "collected s = Some (ds, p) \<Longrightarrow> on_declare f s = (Inr (), collect ds (f p) s)"
  by (auto simp: collected_def collect_def on_declare_def split: parse_state.splits)

lemma push_collect:
  "collected s = Some (ds, p) \<Longrightarrow> push_declare type d s
    = (Inr (), collect (ds @ [take_attributes type d p]) (p\<lparr>ds_constraint := None, ds_default := None\<rparr>) s)"
  by (auto simp: collected_def collect_def push_declare_def split: parse_state.splits)

definition pending :: "bool \<Rightarrow> declare_stack" where
  "pending b = \<lparr>ds_constraint = None, ds_default = None, ds_nullable = b\<rparr>"

lemma constraint_step:
  assumes "collected s = Some (ds, pending b)" "field_ok defined f"
  shows "run_calls (case f_constraint f of None \<Rightarrow> [] | Some (nt, c, vs) \<Rightarrow> [Set_constraint nt c vs]) s
    = (Inr (), collect ds ((pending b)\<lparr>ds_constraint := map_option (\<lambda>(nt, c, vs). \<lparr>cd_is_not = nt, cd_constraint = c,
        cd_type = None, cd_values = vs\<rparr>) (f_constraint f)\<rparr>) s)"
  using assms by (auto simp: field_ok_def cmd_simps set_constraint_def on_declare_collect collect_laws(5) pending_def c_bind_def
      split: option.splits)

lemma default_step:
  assumes "collected s = Some (ds, p)" "ds_default p = None" "field_ok defined f"
  shows "run_calls (case f_default f of None \<Rightarrow> [] | Some v \<Rightarrow> [Set_default v]) s
    = (Inr (), collect ds (p\<lparr>ds_default := f_default f\<rparr>) s)"
  using assms by (auto simp: field_ok_def cmd_simps set_default_value_def on_declare_collect collect_laws(5) c_bind_def
      split: option.splits)

lemma nullable_step:
  assumes "collected s = Some (ds, p)"
  shows "run_calls (if f_nullable f then [Set_nullable] else []) s
    = (Inr (), collect ds (p\<lparr>ds_nullable := ds_nullable p \<or> f_nullable f\<rparr>) s)"
  using assms by (auto simp: cmd_simps set_nullable_def on_declare_collect collect_laws(5) c_bind_def)

lemma declare_step:
  assumes "collected s = Some (ds, p)" "field_ok (dom (sd_types s)) f"
  shows "sd_run (declare_call (f_kind f) (f_name f) (if f_nullable f then 1 else 0)) s
    = (Inr (), collect (ds @ [take_attributes (last (kind_texts (f_kind f)))
        (case kind_declare (f_kind f) of (r, t, i) \<Rightarrow> Declare r (f_nullable f) t (Some (f_name f)) i None None) p])
        (p\<lparr>ds_constraint := None, ds_default := None\<rparr>) s)"
  using assms by (cases "f_kind f") (auto simp: field_ok_def add_declaration_def add_list_decl_def add_map_decl_def cmd_simps
      check_reference_type_def push_collect)

lemma field_step:
  assumes "collected s = Some (ds, pending b)" "field_ok (dom (sd_types s)) f"
  shows "run_calls (field_calls f) s = (Inr (), collect (ds @ [declared f]) (pending (b \<or> f_nullable f)) s)"
proof -
  let ?c = "map_option (\<lambda>(nt, c, vs). \<lparr>cd_is_not = nt, cd_constraint = c, cd_type = None, cd_values = vs\<rparr>) (f_constraint f)"
  let ?p1 = "(pending b)\<lparr>ds_constraint := ?c\<rparr>"
  let ?p2 = "?p1\<lparr>ds_default := f_default f\<rparr>"
  let ?p3 = "?p2\<lparr>ds_nullable := ds_nullable ?p2 \<or> f_nullable f\<rparr>"
  note c1 = collect_laws(1) [OF assms(1)]
  note s1 = constraint_step [OF assms]
  have "ds_default ?p1 = None" by (simp add: pending_def)
  note s2 = default_step [OF c1 [of ds ?p1] this assms(2), unfolded collect_laws(2)]
  note s3 = nullable_step [OF c1 [of ds ?p2], of f, unfolded collect_laws(2)]
  have "field_ok (dom (sd_types (collect ds ?p3 s))) f" using assms(2) by (simp add: collect_laws)
  note s4 = declare_step [OF c1 [of ds ?p3] this, unfolded collect_laws(2)]
  have "take_attributes (last (kind_texts (f_kind f)))
        (case kind_declare (f_kind f) of (r, t, i) \<Rightarrow> Declare r (f_nullable f) t (Some (f_name f)) i None None) ?p3 = declared f"
    by (cases "kind_declare (f_kind f)") (simp add: take_attributes_def declared_def pending_def option.map_comp comp_def split_def)
  moreover have "?p3\<lparr>ds_constraint := None, ds_default := None\<rparr> = pending (b \<or> f_nullable f)"
    by (simp add: pending_def)
  ultimately have last: "run_calls [declare_call (f_kind f) (f_name f) (if f_nullable f then 1 else 0)] (collect ds ?p3 s)
      = (Inr (), collect (ds @ [declared f]) (pending (b \<or> f_nullable f)) s)"
    unfolding run_calls_one [OF s4] by (simp only: run_calls.simps c_ret_def)
  show ?thesis
    unfolding field_calls_def run_calls_append [OF s1] run_calls_append [OF s2] run_calls_append [OF s3] by (rule last)
qed

lemma fields_step:
  assumes "collected s = Some (ds, pending b)" "\<forall>f \<in> set fs. field_ok (dom (sd_types s)) f"
  shows "\<exists>b'. run_calls (concat (map field_calls fs)) s = (Inr (), collect (ds @ map declared fs) (pending b') s)"
  using assms
proof (induction fs arbitrary: ds b s)
  case Nil
  then show ?case by (intro exI [of _ b]) (simp add: c_ret_def collect_laws(5))
next
  case (Cons f fs)
  have s1: "run_calls (field_calls f) s = (Inr (), collect (ds @ [declared f]) (pending (b \<or> f_nullable f)) s)"
    by (rule field_step) (use Cons.prems in auto)
  have c: "collected (collect (ds @ [declared f]) (pending (b \<or> f_nullable f)) s) = Some (ds @ [declared f], pending (b \<or> f_nullable f))"
    by (rule collect_laws(1) [OF Cons.prems(1)])
  obtain b' where "run_calls (concat (map field_calls fs)) (collect (ds @ [declared f]) (pending (b \<or> f_nullable f)) s)
      = (Inr (), collect ((ds @ [declared f]) @ map declared fs) (pending b') (collect (ds @ [declared f]) (pending (b \<or> f_nullable f)) s))"
    using Cons.IH [OF c] Cons.prems(2) by (auto simp: collect_laws)
  then show ?case
    using run_calls_append [OF s1] by (auto simp: collect_laws)
qed

subsection \<open>Types\<close>

text \<open>Between two definitions: no type is being declared.\<close>

definition idle :: "schema_driver \<Rightarrow> bool" where
  "idle s \<longleftrightarrow> (case sd_type_stack s of None \<Rightarrow> True
     | Some t \<Rightarrow> ts_current t = None \<and> ds_constraint (ts_declare t) = None \<and> ds_default (ts_declare t) = None)"

lemma add_type_idle:
  assumes "idle s"
  shows "\<exists>b. sd_run (Add_type n) s = (Inr (), s\<lparr>sd_type_stack :=
      Some \<lparr>ts_current = Some \<lparr>rt_name = n, rt_field_count = 0, rt_members = []\<rparr>, ts_declares = [], ts_declare = pending b\<rparr>,
      sd_state := SPS_IN_TYPE\<rparr>)"
proof (cases "sd_type_stack s")
  case None
  then show ?thesis
    by (intro exI [of _ False]) (simp add: add_type_def clear_type_stack_def pending_def empty_declare_def)
next
  case (Some t)
  then show ?thesis
    using assms by (intro exI [of _ "ds_nullable (ts_declare t)"], cases t, cases "ts_declare t")
      (simp add: add_type_def clear_type_stack_def pending_def idle_def)
qed

lemma type_step:
  assumes "idle s" "t_name t \<notin> dom (sd_types s)" "fields_ok (dom (sd_types s)) (t_fields t)"
  shows "\<exists>s'. run_calls (type_calls t) s = (Inr (), s') \<and> idle s' \<and> sd_types s' = (sd_types s)(t_name t \<mapsto> type_of t)
    \<and> sd_schema_stack s' = sd_schema_stack s \<and> sd_index_stack s' = sd_index_stack s \<and> sd_name_space s' = sd_name_space s
    \<and> sd_indexes s' = sd_indexes s"
proof -
  let ?rt = "\<lparr>rt_name = t_name t, rt_field_count = 0, rt_members = []\<rparr>"
  obtain b where a: "sd_run (Add_type (t_name t)) s = (Inr (), s\<lparr>sd_type_stack :=
      Some \<lparr>ts_current = Some ?rt, ts_declares = [], ts_declare = pending b\<rparr>, sd_state := SPS_IN_TYPE\<rparr>)"
    using add_type_idle [OF assms(1)] by blast
  let ?s1 = "s\<lparr>sd_type_stack := Some \<lparr>ts_current = Some ?rt, ts_declares = [], ts_declare = pending b\<rparr>, sd_state := SPS_IN_TYPE\<rparr>"
  have "collected ?s1 = Some ([], pending b)" by (simp add: collected_def)
  then obtain b' where f: "run_calls (concat (map field_calls (t_fields t))) ?s1
      = (Inr (), collect (map declared (t_fields t)) (pending b') ?s1)"
    using fields_step [of ?s1 "[]" b "t_fields t"] assms(3) by (auto simp: fields_ok_def)
  let ?s2 = "collect (map declared (t_fields t)) (pending b') ?s1"
  have s2: "sd_type_stack ?s2 = Some \<lparr>ts_current = Some ?rt, ts_declares = map declared (t_fields t), ts_declare = pending b'\<rparr>"
    "sd_types ?s2 = sd_types s" "sd_state ?s2 = SPS_IN_TYPE"
    "sd_schema_stack ?s2 = sd_schema_stack s" "sd_index_stack ?s2 = sd_index_stack s" "sd_name_space ?s2 = sd_name_space s"
    "sd_indexes ?s2 = sd_indexes s"
    by (simp_all add: collect_def)
  have d: "sd_types s (t_name t) = None" "map declared (t_fields t) \<noteq> []" using assms(2,3) by (auto simp: fields_ok_def)
  have e: "\<exists>s'. run_calls [Finish_def] ?s2 = (Inr (), s') \<and> idle s' \<and> sd_types s' = (sd_types s)(t_name t \<mapsto> type_of t)
    \<and> sd_schema_stack s' = sd_schema_stack s \<and> sd_index_stack s' = sd_index_stack s \<and> sd_name_space s' = sd_name_space s
    \<and> sd_indexes s' = sd_indexes s"
    using d by (simp add: finish_def_def finish_type_def s2 clear_type_stack_def idle_def type_of_def c_bind_def c_ret_def
        del: fun_upd_apply)
  then show ?thesis
    unfolding type_calls_def run_calls_one [OF a] run_calls_append [OF f] by blast
qed

lemma types_of_dom: "dom (types_of ts) = t_name ` set ts"
  by (induction ts) (simp_all add: dom_fun_upd del: fun_upd_apply)

lemma types_ok_disjoint: "types_ok D ts \<Longrightarrow> t_name ` set ts \<inter> D = {}"
  by (induction D ts rule: types_ok.induct) auto

lemma types_step:
  assumes "idle s" "types_ok (dom (sd_types s)) ts"
  shows "\<exists>s'. run_calls (concat (map type_calls ts)) s = (Inr (), s') \<and> idle s' \<and> sd_types s' = sd_types s ++ types_of ts
    \<and> sd_schema_stack s' = sd_schema_stack s \<and> sd_index_stack s' = sd_index_stack s \<and> sd_name_space s' = sd_name_space s
    \<and> sd_indexes s' = sd_indexes s"
  using assms
proof (induction ts arbitrary: s)
  case Nil
  then show ?case by (simp add: c_ret_def)
next
  case (Cons t ts)
  obtain s1 where s1: "run_calls (type_calls t) s = (Inr (), s1)" "idle s1" "sd_types s1 = (sd_types s)(t_name t \<mapsto> type_of t)"
    "sd_schema_stack s1 = sd_schema_stack s" "sd_index_stack s1 = sd_index_stack s" "sd_name_space s1 = sd_name_space s"
    "sd_indexes s1 = sd_indexes s"
    using type_step [OF Cons.prems(1), of t] Cons.prems(2) by (auto simp del: fun_upd_apply)
  have ok: "types_ok (dom (sd_types s1)) ts" using Cons.prems(2) s1(3) by simp
  have n: "t_name t \<notin> dom (types_of ts)"
    using types_ok_disjoint [OF ok] s1(3) by (auto simp: types_of_dom)
  have "(sd_types s)(t_name t \<mapsto> type_of t) ++ types_of ts = sd_types s ++ (types_of ts)(t_name t \<mapsto> type_of t)"
    using n by (auto simp: map_add_def fun_eq_iff domIff split: option.splits)
  then show ?case
    using Cons.IH [OF s1(2) ok] s1(3-7) unfolding list.map concat.simps run_calls_append [OF s1(1)] types_of.simps
    by (simp del: fun_upd_apply map_add_upd)
qed

subsection \<open>The schema and the indexes\<close>

definition no_index :: "schema_driver \<Rightarrow> bool" where
  "no_index s \<longleftrightarrow> (case sd_index_stack s of None \<Rightarrow> True
     | Some t \<Rightarrow> is_current t = None \<and> is_fields t = None \<and> is_type t = None)"

lemma keys_all: "keys_ok ks \<Longrightarrow> key_columns (map column_text ks) 0 = (None, keys_of ks) \<and> keys_of ks \<noteq> []"
  using key_columns_of [of ks 0] by (auto simp: keys_ok_def keys_of_def)

lemma schema_step:
  assumes "idle s" "sd_schema_stack s = None" "fields_ok (dom (sd_types s)) (s_fields c)"
    "case s_keys c of None \<Rightarrow> True | Some ks \<Rightarrow> keys_ok ks"
  shows "\<exists>s'. run_calls (schema_calls c) s = (Inr (), s') \<and> sd_types s' = sd_types s
    \<and> (\<exists>t. sd_schema_stack s' = Some t \<and> ss_current t = schema_of c)
    \<and> sd_index_stack s' = sd_index_stack s \<and> sd_name_space s' = sd_name_space s \<and> sd_indexes s' = sd_indexes s"
proof -
  let ?ss = "\<lparr>ss_current = \<lparr>sc_name = s_name c, sc_field_count = 0, sc_members = [], sc_pk_columns = []\<rparr>,
               ss_declares = [], ss_declare = pending False, ss_pk_columns = None\<rparr>"
  let ?s1 = "s\<lparr>sd_type_stack := None, sd_schema_stack := Some ?ss, sd_state := SPS_IN_SCHEMA\<rparr>"
  have a: "sd_run (Create_schema (s_name c)) s = (Inr (), ?s1)"
    using assms(1,2) by (auto simp: create_schema_def idle_def empty_declare_def pending_def Let_def split: option.splits)
  have "collected ?s1 = Some ([], pending False)" by (simp add: collected_def)
  then obtain b where f: "run_calls (concat (map field_calls (s_fields c))) ?s1
      = (Inr (), collect (map declared (s_fields c)) (pending b) ?s1)"
    using fields_step [of ?s1 "[]" False "s_fields c"] assms(3) by (auto simp: fields_ok_def)
  let ?t = "\<lambda>pk. ?ss\<lparr>ss_declares := map declared (s_fields c), ss_declare := pending b, ss_pk_columns := pk\<rparr>"
  let ?s3 = "\<lambda>pk. ?s1\<lparr>sd_schema_stack := Some (?t pk)\<rparr>"
  have s2: "collect (map declared (s_fields c)) (pending b) ?s1 = ?s3 None"
    by (simp add: collect_def)
  have k: "run_calls (case s_keys c of None \<Rightarrow> [] | Some ks \<Rightarrow> [Set_primary_key (columns_text ks)]) (?s3 None)
      = (Inr (), ?s3 (map_option columns_text (s_keys c)))"
    using assms(4) columns_split(2) by (auto simp: cmd_simps set_primary_key_def c_bind_def split: option.splits)
  have ne: "map declared (s_fields c) \<noteq> []" using assms(3) by (auto simp: fields_ok_def)
  have d: "\<exists>s'. run_calls [Finish_def] (?s3 (map_option columns_text (s_keys c))) = (Inr (), s') \<and> sd_types s' = sd_types s
    \<and> (\<exists>t. sd_schema_stack s' = Some t \<and> ss_current t = schema_of c)
    \<and> sd_index_stack s' = sd_index_stack s \<and> sd_name_space s' = sd_name_space s \<and> sd_indexes s' = sd_indexes s"
  proof (cases "s_keys c")
    case None
    then show ?thesis
      using ne by (simp add: finish_def_def finish_schema_def Let_def c_bind_def c_ret_def schema_of_def)
  next
    case (Some ks)
    then have ks: "keys_ok ks" using assms(4) by simp
    then have "map column_text ks \<noteq> []" by (auto simp: keys_ok_def)
    then show ?thesis
      using ne Some columns_split [OF ks] keys_all [OF ks]
      by (simp add: finish_def_def finish_schema_def Let_def c_bind_def c_ret_def schema_of_def)
  qed
  then show ?thesis
    unfolding schema_calls_def run_calls_one [OF a] run_calls_append [OF f] s2 run_calls_append [OF k] by blast
qed

lemma index_type_ok: "get_index_type (get_index_name y) = Inr y"
  by (cases y) (simp_all add: get_index_type_def)

lemma index_step:
  assumes "no_index s" "sd_schema_stack s = Some t" "index_ok (sc_name (ss_current t)) i" "map_of (sd_indexes s) (i_name i) = None"
  shows "\<exists>s'. run_calls (index_calls (raw, i)) s = (Inr (), s') \<and> no_index s' \<and> sd_types s' = sd_types s
    \<and> sd_schema_stack s' = sd_schema_stack s \<and> sd_name_space s' = sd_name_space s
    \<and> sd_indexes s' = sd_indexes s @ [(i_name i, index_of raw i)]"
proof -
  let ?ix = "raw\<lparr>ix_name := i_name i, ix_schema_name := i_schema i\<rparr>"
  let ?is = "\<lambda>fs ty. \<lparr>is_current = Some ?ix, is_fields = fs, is_type = ty\<rparr>"
  let ?s = "\<lambda>fs ty. s\<lparr>sd_index_stack := Some (?is fs ty), sd_state := SPS_IN_INDEX\<rparr>"
  have ok: "i_name i \<noteq> []" "i_schema i = sc_name (ss_current t)" "sc_name (ss_current t) \<noteq> []" "keys_ok (i_columns i)"
    using assms(3) by (auto simp: index_ok_def)
  have c1: "sd_run (Create_index raw (i_name i) (i_schema i)) s = (Inr (), ?s None None)"
    using assms(1,2) ok by (cases "sd_index_stack s") (auto simp: create_index_def no_index_def Let_def)
  have c2: "sd_run (Set_index_fields (columns_text (i_columns i))) (?s None None) = (Inr (), ?s (Some (columns_text (i_columns i))) None)"
    using columns_split(2) [OF ok(4)] by (simp add: set_index_fields_def on_index_stack_def)
  have c3: "run_calls (case i_type i of None \<Rightarrow> [] | Some t \<Rightarrow> [Set_index_type t]) (?s (Some (columns_text (i_columns i))) None)
      = (Inr (), ?s (Some (columns_text (i_columns i))) (i_type i))"
  proof (cases "i_type i")
    case (Some ty)
    then obtain y where "ty = get_index_name y" using assms(3) by (auto simp: index_ok_def)
    then have "ty \<noteq> []" by (cases y) simp_all
    then show ?thesis using Some by (simp add: set_index_type_def on_index_stack_def c_bind_def c_ret_def)
  qed (simp add: c_ret_def)
  have ne: "map column_text (i_columns i) \<noteq> []" using ok(4) by (auto simp: keys_ok_def)
  have len: "length (keys_of (i_columns i)) = length (i_columns i)" by (simp add: keys_of_def)
  have "\<exists>s'. run_calls [Finish_def] (?s (Some (columns_text (i_columns i))) (i_type i)) = (Inr (), s') \<and> no_index s'
    \<and> sd_types s' = sd_types s \<and> sd_schema_stack s' = sd_schema_stack s \<and> sd_name_space s' = sd_name_space s
    \<and> sd_indexes s' = sd_indexes s @ [(i_name i, index_of raw i)]"
  proof (cases "i_type i")
    case None
    then show ?thesis
      using ne len columns_split [OF ok(4)] keys_all [OF ok(4)] assms(4)
      by (simp add: finish_def_def finish_index_def Let_def c_bind_def c_ret_def index_of_def clear_index_stack_def no_index_def)
  next
    case (Some ty)
    then obtain y where y: "ty = get_index_name y" using assms(3) by (auto simp: index_ok_def)
    then have "ty \<noteq> []" by (cases y) simp_all
    then show ?thesis
      using Some y ne len columns_split [OF ok(4)] keys_all [OF ok(4)] assms(4)
      by (simp add: finish_def_def finish_index_def Let_def c_bind_def c_ret_def index_of_def clear_index_stack_def no_index_def
          index_type_ok)
  qed
  then show ?thesis
    unfolding index_calls_def prod.case append_Cons append_Nil run_calls_one [OF c1] run_calls_one [OF c2] run_calls_append [OF c3]
    by blast
qed

lemma indexes_step:
  assumes "no_index s" "sd_schema_stack s = Some t" "\<forall>(raw, i) \<in> set is. index_ok (sc_name (ss_current t)) i"
    "distinct (map (\<lambda>(raw, i). i_name i) is)" "\<forall>(raw, i) \<in> set is. map_of (sd_indexes s) (i_name i) = None"
  shows "\<exists>s'. run_calls (concat (map index_calls is)) s = (Inr (), s') \<and> sd_types s' = sd_types s
    \<and> sd_schema_stack s' = sd_schema_stack s \<and> sd_name_space s' = sd_name_space s
    \<and> sd_indexes s' = sd_indexes s @ map (\<lambda>(raw, i). (i_name i, index_of raw i)) is"
  using assms
proof (induction "is" arbitrary: s)
  case Nil
  then show ?case by (simp add: c_ret_def)
next
  case (Cons x xs)
  obtain raw i where x: "x = (raw, i)" by (cases x)
  obtain s1 where s1: "run_calls (index_calls (raw, i)) s = (Inr (), s1)" "no_index s1" "sd_types s1 = sd_types s"
    "sd_schema_stack s1 = sd_schema_stack s" "sd_name_space s1 = sd_name_space s"
    "sd_indexes s1 = sd_indexes s @ [(i_name i, index_of raw i)]"
    using index_step [OF Cons.prems(1,2), of i raw] Cons.prems(3,5) x by auto
  have "\<forall>(raw, i) \<in> set xs. map_of (sd_indexes s1) (i_name i) = None"
  proof clarify
    fix a b assume b: "(a, b) \<in> set xs"
    then have "i_name b \<noteq> i_name i" using Cons.prems(4) x by force
    moreover have "map_of (sd_indexes s) (i_name b) = None" using Cons.prems(5) b by auto
    ultimately show "map_of (sd_indexes s1) (i_name b) = None" by (simp add: s1(6) map_add_def)
  qed
  then obtain s' where "run_calls (concat (map index_calls xs)) s1 = (Inr (), s')" "sd_types s' = sd_types s1"
    "sd_schema_stack s' = sd_schema_stack s1" "sd_name_space s' = sd_name_space s1"
    "sd_indexes s' = sd_indexes s1 @ map (\<lambda>(raw, i). (i_name i, index_of raw i)) xs"
    using Cons.IH [of s1] s1(2,4) Cons.prems(2-4) x by auto
  then show ?case
    using s1(3-6) x unfolding list.map concat.simps x run_calls_append [OF s1(1)] by auto
qed

subsection \<open>Files\<close>


text \<open>A file with a type, a schema that refers to it in a list, and an index.\<close>

definition demo_file :: "index_def \<Rightarrow> file_src" where
  "demo_file raw = \<lparr>file_namespace = Some [''com'', ''x''],
     file_types = [\<lparr>t_name = ''tag'', t_fields = [\<lparr>f_kind = K_native ''string(8)'', f_name = ''text'', f_constraint = None,
       f_default = None, f_nullable = True\<rparr>]\<rparr>],
     file_schema = \<lparr>s_name = ''item'', s_fields =
       [\<lparr>f_kind = K_native ''short'', f_name = ''num'', f_constraint = Some (False, ''GTEQ'', ''3''), f_default = Some ''7'', f_nullable = False\<rparr>,
        \<lparr>f_kind = K_list_ref ''tag'', f_name = ''tags'', f_constraint = None, f_default = None, f_nullable = True\<rparr>],
       s_keys = Some [\<lparr>k_path = [''num''], k_sort = None\<rparr>]\<rparr>,
     file_indexes = [(raw, \<lparr>i_name = ''ix'', i_schema = ''item'', i_columns = [\<lparr>k_path = [''tags'', ''text''], k_sort = Some ''DESC''\<rparr>],
       i_type = Some ''HASH''\<rparr>)]\<rparr>"

definition demo_raw :: index_def where
  "demo_raw = \<lparr>ix_name = [], ix_schema_name = [], ix_type = TREE_INDEX, ix_field_count = 0, ix_columns = []\<rparr>"

lemma demo_file_ok: "file_ok (demo_file raw)"
proof -
  have "\<exists>y. ''HASH'' = get_index_name y" by (rule exI [of _ HASH_INDEX]) simp
  then show ?thesis
    by (simp add: demo_file_def file_ok_def fields_ok_def field_ok_def keys_ok_def key_ok_def word_ok_def index_ok_def)
qed


end
