(* ===== verification/ConfigProps.thy ===== *)
theory ConfigProps
  imports ConfigTree SchemaBuild
begin

section \<open>Lookups in a configuration\<close>

subsection \<open>Paths into a JSON value\<close>

text \<open>
  A step goes to the member of an object, to an element of an array that is a member, counted from 0
  over the elements that have a node, or to a parameter.
\<close>

datatype cstep = Child string | Elem string string | Param string

fun step_text :: "cstep \<Rightarrow> string" where
  "step_text (Child k) = k" | "step_text (Elem k x) = k @ ''['' @ x @ '']''" | "step_text (Param x) = ''params['' @ x @ '']''"

fun made :: "json \<Rightarrow> bool" where
  "made J_null = False" | "made (J_array js) = (js \<noteq> [])" | "made (J_object ms) = (ms \<noteq> [])" | "made _ = True"

fun j_at :: "cstep list \<Rightarrow> json \<Rightarrow> json option" where
  "j_at [] j = Some j"
| "j_at (Child k # ss) (J_object ms) = (case map_of ms k of None \<Rightarrow> None | Some j \<Rightarrow> if made j then j_at ss j else None)"
| "j_at (Elem k x # ss) (J_object ms) = (case (map_of ms k, std_stoi x) of
     (Some (J_array js), Inr n) \<Rightarrow> if 0 < n \<and> nat n < length (filter made js) then j_at ss (filter made js ! nat n) else None
   | _ \<Rightarrow> None)"
| "j_at [Param x] (J_object ms) = (case map_of ms ''params'' of Some (J_object ps) \<Rightarrow> map_of ps x | _ \<Rightarrow> None)"
| "j_at _ _ = None"

definition plain :: "string \<Rightarrow> bool" where
  "plain k \<longleftrightarrow> k \<noteq> [] \<and> set k \<inter> {CHR ''['', CHR '']'', CHR ''/'', CHR 0x0A, CHR 0x0D} = {}"

fun step_ok :: "cstep \<Rightarrow> bool" where
  "step_ok (Child k) = (plain k \<and> hd k \<noteq> CHR ''.'' \<and> k \<noteq> ''params'')"
| "step_ok (Elem k x) = (plain k \<and> hd k \<noteq> CHR ''.'' \<and> k \<noteq> ''params'' \<and> plain x)"
| "step_ok (Param x) = plain x"

subsection \<open>Keys\<close>

lemma one_line: "set s \<inter> {CHR 0x0A, CHR 0x0D} = {} \<Longrightarrow> text_lines s = [s]"
  by (induction s) auto

lemma dropWhile_absent: "c \<notin> set s \<Longrightarrow> dropWhile (\<lambda>x. x \<noteq> c) s = []"
  by (metis (mono_tags, lifting) dropWhile_eq_Nil_conv)

lemma match_none: "CHR '']'' \<notin> set s \<Longrightarrow> bracket_match s = None"
  by (simp add: bracket_match_def dropWhile_absent)

lemma match_some:
  assumes "CHR ''['' \<notin> set x" "CHR '']'' \<notin> set x"
  shows "bracket_match (k @ ''['' @ x @ '']'') = Some (k, x)"
proof -
  have "dropWhile (\<lambda>c. c \<noteq> CHR ''['') (rev x @ CHR ''['' # rev k) = CHR ''['' # rev k"
    "takeWhile (\<lambda>c. c \<noteq> CHR ''['') (rev x @ CHR ''['' # rev k) = rev x"
    using assms(1) by (auto simp: dropWhile_append takeWhile_append)
  then show ?thesis by (simp add: bracket_match_def)
qed

lemma not_self: "k \<noteq> [] \<Longrightarrow> hd k \<noteq> CHR ''.'' \<Longrightarrow> \<not> is_self k"
  by (cases k) (simp_all add: is_self_def)

lemma key_child: "plain k \<Longrightarrow> key_match k = None"
  by (auto simp: plain_def key_match_def one_line match_none)

lemma key_elem:
  assumes "plain k" "plain x"
  shows "key_match (k @ ''['' @ x @ '']'') = Some (k, x)"
proof -
  have "set (k @ ''['' @ x @ '']'') \<inter> {CHR 0x0A, CHR 0x0D} = {}" using assms by (auto simp: plain_def)
  moreover have "bracket_match (k @ ''['' @ x @ '']'') = Some (k, x)" using assms(2) by (intro match_some) (auto simp: plain_def)
  ultimately show ?thesis by (simp add: key_match_def one_line)
qed

lemma plain_params: "plain ''params''"
  by (simp add: plain_def)

lemma parse_names:
  "step_ok (Child k) \<Longrightarrow> parse_key_name self k = k"
  "step_ok (Elem k x) \<Longrightarrow> parse_key_name self (k @ ''['' @ x @ '']'') = k \<and> parse_key_index (k @ ''['' @ x @ '']'') = Some x"
  "step_ok (Param x) \<Longrightarrow> parse_key_name self (''params['' @ x @ '']'') = ''params'' \<and> parse_key_index (''params['' @ x @ '']'') = Some x"
  using key_elem [of k x] key_elem [OF plain_params, of x]
  by (auto simp: parse_key_name_def parse_key_index_def key_child plain_def not_self)

lemma parse_self: "parse_key_name self ''.'' = self"
  by (simp add: parse_key_name_def key_match_def bracket_match_def is_self_def)

subsection \<open>What is built\<close>

lemma e_bind_Inr: "e_bind m k = Inr y \<longleftrightarrow> (\<exists>x. m = Inr x \<and> k x = Inr y)"
  by (auto simp: e_bind_def split: sum.splits)

lemma node_key: "process_node ts name j = Inr (Some t) \<Longrightarrow> cv_key t = name"
  by (cases j) (auto simp: e_bind_Inr process_value_node_def value_text_def split: if_splits)

lemma node_made: "process_node ts name j = Inr r \<Longrightarrow> made j \<longleftrightarrow> r \<noteq> None"
  by (cases j) (auto simp: e_bind_Inr process_value_node_def value_text_def split: if_splits)

lemma node_value: "process_node ts name j = Inr (Some t) \<Longrightarrow> value_text ts j = Some v \<Longrightarrow> t = C_basic name v"
  by (cases j) (auto simp: process_value_node_def value_text_def split: if_splits)

abbreviation keyed :: "string \<Rightarrow> cvalue list \<Rightarrow> cvalue option" where
  "keyed k cs \<equiv> find (\<lambda>c. cv_key c = k) cs"

lemma find_append: "find P (xs @ ys) = (case find P xs of None \<Rightarrow> find P ys | Some x \<Rightarrow> Some x)"
  by (induction xs) auto

lemma keyed_none: "keyed k cs = None \<longleftrightarrow> (\<forall>c \<in> set cs. cv_key c \<noteq> k)"
  by (auto simp: find_None_iff)

lemma add_key_keyed: "keyed k (add_key c cs) = (case keyed k cs of None \<Rightarrow> if cv_key c = k then Some c else None | Some x \<Rightarrow> Some x)"
proof (cases "keyed k cs")
  case None
  then show ?thesis using None [unfolded keyed_none] by (auto simp: add_key_def find_append)
qed (simp add: add_key_def find_append)

text \<open>What the children of an object hold.\<close>

definition holds_members :: "(nat \<Rightarrow> string) \<Rightarrow> (string \<times> json) list \<Rightarrow> cvalue list \<Rightarrow> bool" where
  "holds_members ts ms cs \<longleftrightarrow> (\<forall>k j. map_of ms k = Some j \<longrightarrow> made j \<longrightarrow> k \<noteq> [] \<longrightarrow> k \<noteq> ''params'' \<longrightarrow>
     (\<exists>t. process_node ts k j = Inr (Some t) \<and> keyed k cs = Some t))"

definition holds_params :: "(nat \<Rightarrow> string) \<Rightarrow> (string \<times> json) list \<Rightarrow> cvalue list \<Rightarrow> bool" where
  "holds_params ts ms cs \<longleftrightarrow> (\<forall>ps. map_of ms ''params'' = Some (J_object ps) \<longrightarrow> ps \<noteq> [] \<longrightarrow>
     (\<exists>qs. process_params ts ps [] = Inr qs \<and> keyed ''params'' cs = Some (C_params ''params'' qs)))"

lemma add_made_keyed:
  "add_made r cs = Inr cs' \<Longrightarrow> keyed k cs' = (case keyed k cs of
     None \<Rightarrow> (case r of Some c \<Rightarrow> if cv_key c = k then Some c else None | None \<Rightarrow> None) | Some x \<Rightarrow> Some x)"
  by (auto simp: add_made_def add_child_def add_key_keyed split: option.splits if_splits)

lemma object_keeps: "process_object ts (process_node ts) ms cs = Inr cs' \<Longrightarrow> keyed k cs = Some t \<Longrightarrow> keyed k cs' = Some t"
  by (induction ms arbitrary: cs) (auto simp: e_bind_Inr add_made_keyed)

lemma members_keeps: "process_members ts ms cs = Inr cs' \<Longrightarrow> keyed k cs = Some t \<Longrightarrow> keyed k cs' = Some t"
  by (induction ms arbitrary: cs) (auto simp: e_bind_Inr add_made_keyed split: if_splits)

lemma made_key: "process_node ts key j = Inr r \<Longrightarrow> (case r of Some c \<Rightarrow> cv_key c = key | None \<Rightarrow> True)"
  using node_key [of ts key j] by (cases r) auto

lemma param_key: "process_param_node ts key j = Inr (Some c) \<Longrightarrow> cv_key c = key"
  by (cases j) (auto simp: process_param_node_def e_bind_Inr split: if_splits)

lemma object_holds:
  "process_object ts (process_node ts) ms cs = Inr cs' \<Longrightarrow> keyed k cs = None \<Longrightarrow> map_of ms k = Some j \<Longrightarrow> made j \<Longrightarrow> k \<noteq> ''params''
   \<Longrightarrow> \<exists>t. process_node ts k j = Inr (Some t) \<and> keyed k cs' = Some t"
proof (induction ms arbitrary: cs)
  case (Cons m ms)
  obtain key j0 where m: "m = (key, j0)" by (cases m)
  obtain r cs1 where r: "(if key = ''params'' then process_param_node ts key j0 else process_node ts key j0) = Inr r"
    "add_made r cs = Inr cs1" "process_object ts (process_node ts) ms cs1 = Inr cs'"
    using Cons.prems(1) m by (auto simp: e_bind_Inr)
  have rk: "cv_key c = key" if "r = Some c" for c
    using r(1) that node_key param_key by (auto split: if_splits)
  show ?case
  proof (cases "key = k")
    case True
    then have p: "process_node ts k j = Inr r" using Cons.prems(3,5) m r(1) by simp
    then obtain t where t: "r = Some t" using node_made [OF p] Cons.prems(4) by auto
    then have "keyed k cs1 = Some t" using add_made_keyed [OF r(2)] Cons.prems(2) rk True by simp
    then show ?thesis using p t object_keeps [OF r(3)] by blast
  next
    case False
    then have "keyed k cs1 = None" using add_made_keyed [OF r(2), of k] Cons.prems(2) rk by (auto split: option.splits)
    then show ?thesis using Cons.IH [OF r(3)] Cons.prems(3-5) m False by simp
  qed
qed simp

lemma members_holds:
  "process_members ts ms cs = Inr cs' \<Longrightarrow> keyed k cs = None \<Longrightarrow> map_of ms k = Some j \<Longrightarrow> made j \<Longrightarrow> k \<noteq> []
   \<Longrightarrow> \<exists>t. process_node ts k j = Inr (Some t) \<and> keyed k cs' = Some t"
proof (induction ms arbitrary: cs)
  case (Cons m ms)
  obtain key j0 where m: "m = (key, j0)" by (cases m)
  show ?case
  proof (cases "key = [] \<or> j0 = J_null")
    case True
    then show ?thesis using Cons m by (auto split: if_splits)
  next
    case ok: False
    obtain r cs1 where r: "process_node ts key j0 = Inr r" "add_made r cs = Inr cs1" "process_members ts ms cs1 = Inr cs'"
      using Cons.prems(1) m ok by (auto simp: e_bind_Inr)
    have rk: "cv_key c = key" if "r = Some c" for c using r(1) that node_key by blast
    show ?thesis
    proof (cases "key = k")
      case True
      then have p: "process_node ts k j = Inr r" using Cons.prems(3) m r(1) by simp
      then obtain t where t: "r = Some t" using node_made [OF p] Cons.prems(4) by auto
      then have "keyed k cs1 = Some t" using add_made_keyed [OF r(2)] Cons.prems(2) rk True by simp
      then show ?thesis using p t members_keeps [OF r(3)] by blast
    next
      case False
      then have "keyed k cs1 = None" using add_made_keyed [OF r(2), of k] Cons.prems(2) rk by (auto split: option.splits)
      then show ?thesis using Cons.IH [OF r(3)] Cons.prems(3-5) m False by simp
    qed
  qed
qed simp

lemma object_params:
  "process_object ts (process_node ts) ms cs = Inr cs' \<Longrightarrow> keyed ''params'' cs = None \<Longrightarrow> map_of ms ''params'' = Some (J_object ps) \<Longrightarrow> ps \<noteq> []
   \<Longrightarrow> \<exists>qs. process_params ts ps [] = Inr qs \<and> keyed ''params'' cs' = Some (C_params ''params'' qs)"
proof (induction ms arbitrary: cs)
  case (Cons m ms)
  obtain key j0 where m: "m = (key, j0)" by (cases m)
  obtain r cs1 where r: "(if key = ''params'' then process_param_node ts key j0 else process_node ts key j0) = Inr r"
    "add_made r cs = Inr cs1" "process_object ts (process_node ts) ms cs1 = Inr cs'"
    using Cons.prems(1) m by (auto simp: e_bind_Inr)
  show ?case
  proof (cases "key = ''params''")
    case True
    then obtain qs where q: "process_params ts ps [] = Inr qs" "r = Some (C_params ''params'' qs)"
      using r(1) Cons.prems(3,4) m by (auto simp: process_param_node_def e_bind_Inr)
    then have "keyed ''params'' cs1 = Some (C_params ''params'' qs)"
      using add_made_keyed [OF r(2)] Cons.prems(2) by simp
    then show ?thesis using q object_keeps [OF r(3)] by blast
  next
    case False
    then have "cv_key c = key" if "r = Some c" for c using r(1) that node_key by (auto split: if_splits)
    then have "keyed ''params'' cs1 = None"
      using add_made_keyed [OF r(2), of "''params''"] Cons.prems(2) False by (auto split: option.splits)
    then show ?thesis using Cons.IH [OF r(3)] Cons.prems(3,4) m False by simp
  qed
qed simp

lemma list_items:
  "process_list (process_node ts name) js vs = Inr vs' \<Longrightarrow> \<exists>us. vs' = vs @ us \<and> length us = length (filter made js)
     \<and> (\<forall>i < length us. process_node ts name (filter made js ! i) = Inr (Some (us ! i)))"
proof (induction js arbitrary: vs)
  case (Cons j js)
  obtain r where r: "process_node ts name j = Inr r" "process_list (process_node ts name) js (case r of None \<Rightarrow> vs | Some c \<Rightarrow> vs @ [c]) = Inr vs'"
    using Cons.prems by (auto simp: e_bind_Inr)
  from Cons.IH [OF r(2)] obtain us where us: "vs' = (case r of None \<Rightarrow> vs | Some c \<Rightarrow> vs @ [c]) @ us"
    "length us = length (filter made js)" "\<forall>i < length us. process_node ts name (filter made js ! i) = Inr (Some (us ! i))"
    by blast
  show ?case
  proof (cases r)
    case None
    then show ?thesis using us node_made [OF r(1)] by auto
  next
    case (Some c)
    then have "\<forall>i < length (c # us). process_node ts name (filter made (j # js) ! i) = Inr (Some ((c # us) ! i))"
      using us(3) r(1) node_made [OF r(1)] by (auto simp: nth_Cons split: nat.splits)
    then show ?thesis using Some us node_made [OF r(1)] by (intro exI [of _ "c # us"]) auto
  qed
qed simp

lemma params_keeps: "process_params ts ms ps = Inr qs \<Longrightarrow> keyed k ps = Some t \<Longrightarrow> keyed k qs = Some t"
  by (induction ms arbitrary: ps) (auto simp: e_bind_Inr add_key_keyed split: option.splits)

lemma params_hold:
  "process_params ts ms ps = Inr qs \<Longrightarrow> keyed k ps = None \<Longrightarrow> map_of ms k = Some j \<Longrightarrow> value_text ts j = Some v
   \<Longrightarrow> keyed k qs = Some (C_basic k v)"
proof (induction ms arbitrary: ps)
  case (Cons m ms)
  obtain key j0 where m: "m = (key, j0)" by (cases m)
  obtain r where r: "process_value_node ts key j0 = Inr r"
    "process_params ts ms (case r of None \<Rightarrow> ps | Some c \<Rightarrow> add_key c ps) = Inr qs"
    using Cons.prems(1) m by (auto simp: e_bind_Inr)
  show ?case
  proof (cases "key = k")
    case True
    then have "r = Some (C_basic k v)" using r(1) Cons.prems(3,4) m by (auto simp: process_value_node_def split: if_splits)
    then show ?thesis using params_keeps [OF r(2), of k] Cons.prems(2) by (simp add: add_key_keyed)
  next
    case False
    have "keyed k (case r of None \<Rightarrow> ps | Some c \<Rightarrow> add_key c ps) = None"
      using r(1) Cons.prems(2) False by (auto simp: process_value_node_def value_text_def add_key_keyed split: if_splits json.splits)
    then show ?thesis using Cons.IH [OF r(2)] Cons.prems(3,4) m False by simp
  qed
qed simp

subsection \<open>Following a path\<close>

definition ends_in :: "string \<Rightarrow> exc + cvalue list option \<Rightarrow> bool" where
  "ends_in v r \<longleftrightarrow> (\<exists>ch k. r = Inr (Some (ch @ [C_basic k v])))"

lemma ends_in_path: "ends_in v r \<Longrightarrow> ends_in v (on_path t r)"
  by (auto simp: ends_in_def on_path_def e_bind_def)

lemma descend:
  assumes "parse_key_name name (path ! i) = name" "Suc i < length path" "keyed (parse_key_name name (path ! Suc i)) cs = Some c"
    "ends_in v (cv_find path (Suc i) c)"
  shows "ends_in v (cv_find path i (C_node name cs))"
proof -
  have "i \<noteq> length path - 1" using assms(2) by simp
  then show ?thesis using assms ends_in_path by simp
qed

lemma node_object:
  assumes "process_node ts k (J_object ms) = Inr (Some t)"
  shows "\<exists>cs. t = C_node k cs \<and> holds_members ts ms cs \<and> holds_params ts ms cs"
proof -
  obtain cs where "t = C_node k cs" "process_object ts (process_node ts) ms [] = Inr cs"
    using assms by (auto simp: e_bind_Inr split: if_splits)
  then show ?thesis
    using object_holds [of ts ms "[]" cs] object_params [of ts ms "[]" cs] by (simp add: holds_members_def holds_params_def)
qed

lemma node_array:
  assumes "process_node ts k (J_array js) = Inr (Some t)"
  shows "\<exists>vs. t = C_list k vs \<and> length vs = length (filter made js)
    \<and> (\<forall>i < length vs. process_node ts k (filter made js ! i) = Inr (Some (vs ! i)))"
  using assms list_items [of ts k js "[]"] by (auto simp: e_bind_Inr split: if_splits)

lemma j_at_object: "j_at (s # ss) j = Some j' \<Longrightarrow> \<exists>ms. j = J_object ms"
  by (cases j; cases s; cases ss) auto

text \<open>The last step of a path, or the step before an object.\<close>

lemma value_ends:
  "process_node ts k j = Inr (Some c) \<Longrightarrow> value_text ts j = Some v \<Longrightarrow> i = length path - 1 \<Longrightarrow> i < length path \<Longrightarrow> path ! i = k
   \<Longrightarrow> ends_in v (cv_find path i c)"
  using node_value [of ts k j c v] by (auto simp: ends_in_def)

lemma node_finds:
  "holds_members ts ms cs \<Longrightarrow> (\<forall>x. hd steps = Param x \<longrightarrow> holds_params ts ms cs) \<Longrightarrow> steps \<noteq> [] \<Longrightarrow> (\<forall>s \<in> set steps. step_ok s)
   \<Longrightarrow> j_at steps (J_object ms) = Some j \<Longrightarrow> value_text ts j = Some v \<Longrightarrow> parse_key_name name (path ! i) = name
   \<Longrightarrow> i < length path \<Longrightarrow> drop (Suc i) path = map step_text steps \<Longrightarrow> ends_in v (cv_find path i (C_node name cs))"
proof (induction steps arbitrary: ms cs i name)
  case (Cons s ss)
  have l: "length path = Suc (Suc i) + length ss" using arg_cong [OF Cons.prems(9), of length] Cons.prems(8) by simp
  have p: "path ! Suc i = step_text s" "drop (Suc (Suc i)) path = map step_text ss"
    using Cons.prems(9) l Cons_nth_drop_Suc [of "Suc i" path] by simp_all
  have go: "ends_in v (cv_find path i (C_node name cs))"
    if "keyed (parse_key_name name (step_text s)) cs = Some c" "ends_in v (cv_find path (Suc i) c)" for c
    using descend [OF Cons.prems(7)] that l p by simp
  have obj: "ends_in v (cv_find path (Suc i) c)"
    if "process_node ts k (J_object ms') = Inr (Some c)" "ss \<noteq> []" "j_at ss (J_object ms') = Some j"
       "parse_key_name k (path ! Suc i) = k" for k c ms'
  proof -
    note pr = that
    obtain cs' where "c = C_node k cs'" "holds_members ts ms' cs'" "holds_params ts ms' cs'"
      using node_object [OF pr(1)] by blast
    then show ?thesis using Cons.IH [of ms' cs' k "Suc i"] pr Cons.prems(4,6) l p by simp
  qed
  show ?case
  proof (cases s)
    case (Child k)
    then have k: "step_ok (Child k)" using Cons.prems(4) by simp
    obtain j0 where j0: "map_of ms k = Some j0" "made j0" "j_at ss j0 = Some j"
      using Cons.prems(5) Child by (auto split: option.splits if_splits)
    obtain c where c: "process_node ts k j0 = Inr (Some c)" "keyed k cs = Some c"
      using Cons.prems(1) j0 k by (auto simp: holds_members_def plain_def)
    have "ends_in v (cv_find path (Suc i) c)"
    proof (cases ss)
      case Nil
      then show ?thesis using value_ends [OF c(1), of v "Suc i" path] j0(3) Cons.prems(6) l p Child by simp
    next
      case (Cons s' ss')
      then obtain ms' where ms: "j0 = J_object ms'" using j_at_object [of s' ss' j0 j] j0(3) by auto
      show ?thesis using obj [of k ms' c] c(1) j0(3) p Child Cons parse_names(1) [OF k] unfolding ms by simp
    qed
    then show ?thesis using go c parse_names(1) [OF k] Child by simp
  next
    case (Elem k x)
    then have k: "step_ok (Elem k x)" using Cons.prems(4) by simp
    obtain js n where n: "map_of ms k = Some (J_array js)" "std_stoi x = Inr n" "0 < n" "nat n < length (filter made js)"
      "j_at ss (filter made js ! nat n) = Some j"
      using Cons.prems(5) Elem by (auto split: option.splits if_splits json.splits sum.splits)
    have m: "made (J_array js)" using n(4) by (cases js) auto
    obtain c where c: "process_node ts k (J_array js) = Inr (Some c)" "keyed k cs = Some c"
      using Cons.prems(1) [unfolded holds_members_def, rule_format, OF n(1) m] k by (auto simp: plain_def simp del: process_node.simps)
    obtain vs where vs: "c = C_list k vs" "length vs = length (filter made js)"
      "\<forall>i < length vs. process_node ts k (filter made js ! i) = Inr (Some (vs ! i))"
      using node_array [OF c(1)] by blast
    have el: "process_node ts k (filter made js ! nat n) = Inr (Some (vs ! nat n))" using vs n by simp
    have nm: "nat (n mod 2 ^ 32) = nat n" using n(2,3) by (auto simp: std_stoi_def std_sto_def split: option.splits if_splits)
    note pk = parse_names(2) [OF k]
    have x: "x \<noteq> []" using k by (simp add: plain_def)
    have "ends_in v (cv_find path (Suc i) c)"
    proof (cases ss)
      case Nil
      then have "vs ! nat n = C_basic k v" using node_value [OF el] n(5) Cons.prems(6) by simp
      then show ?thesis using vs n nm pk x l p Elem Nil by (auto simp: ends_in_def Let_def)
    next
      case (Cons s' ss')
      then obtain ms' where ms: "filter made js ! nat n = J_object ms'" using j_at_object [of s' ss' _ j] n(5) by auto
      have "ends_in v (cv_find path (Suc i) (vs ! nat n))"
        using obj [of k ms' "vs ! nat n"] el n(5) p Elem Cons pk unfolding ms by simp
      then show ?thesis using vs n nm pk x l p Elem Cons ends_in_path by (simp add: Let_def)
    qed
    then show ?thesis using go c pk Elem by simp
  next
    case (Param x)
    then have k: "step_ok (Param x)" using Cons.prems(4) by simp
    obtain ps where ps: "ss = []" "map_of ms ''params'' = Some (J_object ps)" "map_of ps x = Some j"
      using Cons.prems(5) Param by (cases ss) (auto split: option.splits json.splits)
    obtain qs where qs: "process_params ts ps [] = Inr qs" "keyed ''params'' cs = Some (C_params ''params'' qs)"
      using Cons.prems(2) Param ps by (auto simp: holds_params_def)
    have "keyed x qs = Some (C_basic x v)" using params_hold [OF qs(1), of x] ps(3) Cons.prems(6) by simp
    then have "ends_in v (cv_find path (Suc i) (C_params ''params'' qs))"
      using parse_names(3) [OF k] p l ps Param by (auto simp: ends_in_def)
    then show ?thesis using go qs parse_names(3) [OF k] Param by simp
  qed
qed simp

subsection \<open>Configurations\<close>

text \<open>The object whose members become the children of the root.\<close>

definition config_body :: "(string \<times> json) list \<Rightarrow> json" where
  "config_body ms = (case map_of ms ''configuration'' of None \<Rightarrow> J_object ms | Some j \<Rightarrow> if j = J_null then J_object ms else j)"

lemma create_tree:
  assumes "config_create parse ts file (Some lines) c = (Inr (), c')" "parse (concat lines) = J_object ms"
  shows "is_available (cf_state c') \<and> (\<exists>cs. cf_config c' = Some (C_node ''configuration'' cs)
    \<and> process_members ts (object_items (config_body ms)) [] = Inr cs)"
proof -
  have "process_root ts (config_body ms) = Inr t \<Longrightarrow>
      \<exists>cs. t = C_node ''configuration'' cs \<and> process_members ts (object_items (config_body ms)) [] = Inr cs" for t
    by (auto simp: process_root_def e_bind_Inr)
  then show ?thesis
    using assms by (auto simp: config_create_def cf_fail_def config_body_def Let_def state_simps
      split: if_splits option.splits sum.splits exc.splits)
qed

lemma step_no_slash: "step_ok s \<Longrightarrow> step_text s \<noteq> [] \<and> CHR ''/'' \<notin> set (step_text s)"
  by (cases s) (auto simp: plain_def)

lemma first_step: "step_ok s \<Longrightarrow> \<forall>x. s \<noteq> Param x \<Longrightarrow> parse_key_name self (step_text s) \<noteq> [] \<and> parse_key_name self (step_text s) \<noteq> ''.''"
  using parse_names [of _ self] parse_names(2) [of _ _ self] by (cases s) (auto simp: plain_def)

text \<open>C23. Once a configuration was created from a JSON object, the path of every text, number
  and truth value that the object holds - through objects, through the elements of arrays after the
  first one, and in parameters - leads to the text of this value, as long as the keys are free of
  brackets and slashes, do not begin with a dot, and the path does not begin with the key of the root.\<close>

theorem config_value_found:
  assumes "config_create parse ts file (Some lines) c = (Inr (), c')" "parse (concat lines) = J_object ms"
    "j_at steps (config_body ms) = Some j" "value_text ts j = Some v"
    "steps \<noteq> []" "\<forall>s \<in> set steps. step_ok s" "\<forall>x. hd steps \<noteq> Param x"
    "parse_key_name [] (step_text (hd steps)) \<noteq> ''configuration''"
  shows "config_get_value (join_with (CHR ''/'') (map step_text steps)) c' = Inr v"
proof -
  obtain s ss where st: "steps = s # ss" using assms(5) by (cases steps) auto
  obtain cs where c': "is_available (cf_state c')" "cf_config c' = Some (C_node ''configuration'' cs)"
    "process_members ts (object_items (config_body ms)) [] = Inr cs"
    using create_tree [OF assms(1,2)] by blast
  obtain bs where bs: "config_body ms = J_object bs" using assms(3) j_at_object st by blast
  let ?parts = "map step_text steps"
  have sp: "str_split (CHR ''/'') (join_with (CHR ''/'') ?parts) = ?parts"
    using assms(5,6) step_no_slash by (intro split_join) auto
  have h: "step_ok s" "\<forall>x. s \<noteq> Param x" using st assms(6,7) by auto
  have nm: "parse_key_name self (step_text s) = parse_key_name [] (step_text s)" for self
    using h parse_names [of _ self] parse_names(2) [of _ _ self] parse_names(1) [of _ "[]"] parse_names(2) [of _ _ "[]"] by (cases s) auto
  have "holds_members ts bs cs"
    using members_holds [of ts bs "[]" cs] c'(3) bs by (simp add: holds_members_def object_items_def)
  then have "ends_in v (cv_find (''.'' # ?parts) 0 (C_node ''configuration'' cs))"
    using assms(3-7) bs parse_self by (intro node_finds [where ts = ts and steps = steps and j = j and ms = bs]) auto
  then obtain ch k where f: "cv_find (''.'' # ?parts) 0 (C_node ''configuration'' cs) = Inr (Some (ch @ [C_basic k v]))"
    by (auto simp: ends_in_def)
  have "cv_find_path [C_node ''configuration'' cs] (join_with (CHR ''/'') ?parts) = Inr (Some (ch @ [C_basic k v]))"
    using f step_no_slash [OF h(1)] first_step [OF h, of "''configuration''"] nm [of "''configuration''"] assms(8) sp [unfolded st] st
    by (simp add: cv_find_path_def sp Let_def e_bind_def del: cv_find.simps)
  then show ?thesis
    using c' by (simp add: config_get_value_def config_find_def e_bind_def found_basic_def)
qed

text \<open>A configuration with an object in an array, and its parameters.\<close>

definition demo_json :: "(string \<times> json) list" where
  "demo_json = [(''a'', J_object [(''b'', J_array [J_null, J_bool True, J_object [(''params'', J_object [(''p'', J_string ''v'')])]])])]"

definition demo_config :: config where
  "demo_config = snd (config_create (\<lambda>_. J_object demo_json) (\<lambda>_. []) ''f'' (Some [''x'']) new_config)"

lemma demo_created: "config_create (\<lambda>_. J_object demo_json) (\<lambda>_. []) ''f'' (Some [''x'']) new_config = (Inr (), demo_config)"
  by (simp add: demo_config_def config_create_def demo_json_def process_root_def object_items_def e_bind_def process_value_node_def
      value_text_def process_param_node_def add_made_def add_child_def add_key_def)

lemma stoi_one: "std_stoi ''1'' = Inr 1" "std_stoi ''0'' = Inr 0"
  by (simp_all add: std_stoi_def std_sto_def read_int_def read_nat_def char_digit_def str_defs)

theorem config_value_found_witness: "config_get_value ''a/b[1]/params[p]'' demo_config = Inr ''v''"
proof -
  have "config_get_value (join_with (CHR ''/'') (map step_text [Child ''a'', Elem ''b'' ''1'', Param ''p''])) demo_config = Inr ''v''"
  proof (rule config_value_found [OF demo_created])
    show "j_at [Child ''a'', Elem ''b'' ''1'', Param ''p''] (config_body demo_json) = Some (J_string ''v'')"
      by (simp add: config_body_def demo_json_def stoi_one)
    show "parse_key_name [] (step_text (hd [Child ''a'', Elem ''b'' ''1'', Param ''p''])) \<noteq> ''configuration''"
      by (simp add: parse_names(1) plain_def)
  qed (simp_all add: value_text_def plain_def)
  then show ?thesis by simp
qed

text \<open>The first element of an array cannot be addressed: with index 0 the lookup finds
  nothing, and asking for the value gives the empty text, although the array is not empty.\<close>

theorem config_first_element_lost:
  assumes "config_create parse ts file (Some lines) c = (Inr (), c')" "parse (concat lines) = J_object ms"
    "config_body ms = J_object bs" "map_of bs k = Some (J_array js)" "js \<noteq> []" "step_ok (Elem k x)" "std_stoi x = Inr 0"
    "k \<noteq> ''configuration''"
  shows "config_find (step_text (Elem k x)) False c' = Inr None \<and> config_find (step_text (Elem k x)) True c' = Inl Not_found_error
    \<and> config_get_value (step_text (Elem k x)) c' = Inr []"
proof -
  obtain cs where c': "is_available (cf_state c')" "cf_config c' = Some (C_node ''configuration'' cs)"
    "process_members ts (object_items (config_body ms)) [] = Inr cs"
    using create_tree [OF assms(1,2)] by blast
  have k: "k \<noteq> []" "x \<noteq> []" "k \<noteq> ''.''" using assms(6) by (auto simp: plain_def)
  obtain t where t: "process_node ts k (J_array js) = Inr (Some t)" "keyed k cs = Some t"
    using members_holds [of ts bs "[]" cs k "J_array js"] c'(3) assms(3-5) k by (auto simp: object_items_def)
  obtain vs where vs: "t = C_list k vs" using node_array [OF t(1)] by blast
  let ?p = "step_text (Elem k x)"
  have sp: "str_split (CHR ''/'') ?p = [?p]" using step_no_slash [OF assms(6)] by (intro split_one) auto
  note pk = parse_names(2) [OF assms(6)]
  have l: "cv_find [''.'', ?p] 1 (C_list k vs) = Inr None" using pk k assms(7) by (simp add: Let_def)
  have "cv_find [''.'', ?p] 0 (C_node ''configuration'' cs) = on_path (C_node ''configuration'' cs) (cv_find [''.'', ?p] 1 (C_list k vs))"
    using pk t vs by (simp add: parse_self)
  then have "cv_find [''.'', ?p] 0 (C_node ''configuration'' cs) = Inr None" unfolding l by (simp add: on_path_def e_bind_def)
  then have "cv_find_path [C_node ''configuration'' cs] ?p = Inr None"
    using pk k assms(8) step_no_slash [OF assms(6)] unfolding cv_find_path_def sp Let_def by (simp add: e_bind_def del: cv_find.simps)
  then show ?thesis
    using c' by (simp add: config_get_value_def config_find_def e_bind_def found_basic_def)
qed

definition demo_list :: "(string \<times> json) list" where
  "demo_list = [(''b'', J_array [J_string ''first'', J_string ''second''])]"

definition demo_list_config :: config where
  "demo_list_config = snd (config_create (\<lambda>_. J_object demo_list) (\<lambda>_. []) ''f'' (Some [''x'']) new_config)"

theorem config_first_element_lost_witness:
  "config_find ''b[0]'' True demo_list_config = Inl Not_found_error \<and> config_get_value ''b[0]'' demo_list_config = Inr []"
proof -
  have c: "config_create (\<lambda>_. J_object demo_list) (\<lambda>_. []) ''f'' (Some [''x'']) new_config = (Inr (), demo_list_config)"
    by (simp add: demo_list_config_def config_create_def demo_list_def process_root_def object_items_def e_bind_def process_value_node_def
        value_text_def add_made_def add_child_def)
  have "config_body demo_list = J_object [(''b'', J_array [J_string ''first'', J_string ''second''])]"
    by (simp add: config_body_def demo_list_def)
  from config_first_element_lost [OF c _ this, of "''b''" _ "''0''"] show ?thesis
    by (simp add: plain_def stoi_one)
qed

end
