(* ===== verification/MountStructs.thy ===== *)
theory MountStructs
  imports Strings Complex_Main
begin

section \<open>Mount points (core/includes/mount_structs_v0.h, core/includes/mount_structs.h)\<close>

text \<open>
  The table of mount points in shared memory, the usage counters by hour, and the map that a process
  keeps of locks and table indices. Counters are \<open>uint64_t\<close> and wrap around. Floating point numbers are
  rationals, and \<open>rnd\<close> is the rounding of one operation or conversion to \<open>double\<close>. What an operation reads
  from its surroundings is \<open>mount_env\<close>: the clock, the local hour at that time, and the file system.
\<close>

record mount_env =
  mv_now :: time
  mv_hour :: nat
  mv_exists :: "string \<Rightarrow> bool"
  mv_realpath :: "string \<Rightarrow> string option"   \<comment> \<open>\<open>realpath\<close> of a path that exists\<close>
  mv_free :: "string \<Rightarrow> nat option"          \<comment> \<open>free bytes by \<open>statvfs\<close>, if it succeeds\<close>
  mv_rnd :: "rat \<Rightarrow> rat"

definition MAX_MOUNT_POINTS :: nat where "MAX_MOUNT_POINTS = 32"
definition SIZE_MAX_PATH :: nat where "SIZE_MAX_PATH = 256"
definition MOUNT_VERSION :: "nat \<times> nat" where "MOUNT_VERSION = (0, 1)"

subsection \<open>The records\<close>

record usage_rec =
  ur_index :: nat
  ur_value :: nat
  ur_time :: nat

record usage_metric =
  um_size :: nat
  um_reset_time :: time
  um_total_value :: nat
  um_total_time :: nat
  um_current_index :: nat
  um_records :: "usage_rec list"

datatype mount_state = MP_READ_WRITE | MP_READ_ONLY | MP_UNAVAILABLE | MP_CORRUPTED

record mount_point =
  mp_path :: string
  mp_lock_name :: string
  mp_state :: mount_state
  mp_usage_limit :: int
  mp_total_blocks :: nat
  mp_total_bytes_used :: nat
  mp_last_recycled_time :: time
  mp_total_bytes_written :: nat
  mp_total_bytes_read :: nat
  mp_bytes_written :: usage_metric
  mp_bytes_read :: usage_metric

record mount_data =
  md_version :: "nat \<times> nat"
  md_mount_count :: nat
  md_available_count :: nat
  md_mounts :: "mount_point list"       \<comment> \<open>the array of \<open>MAX_MOUNT_POINTS\<close> records\<close>

record mount_def =
  mdef_path :: string
  mdef_usage_limit :: int
  mdef_state :: mount_state

text \<open>What \<open>memset\<close> leaves of a record.\<close>

definition zero_metric :: usage_metric where
  "zero_metric = \<lparr>um_size = 0, um_reset_time = 0, um_total_value = 0, um_total_time = 0, um_current_index = 0,
     um_records = replicate 24 \<lparr>ur_index = 0, ur_value = 0, ur_time = 0\<rparr>\<rparr>"

definition zero_mount :: mount_point where
  "zero_mount = \<lparr>mp_path = [], mp_lock_name = [], mp_state = MP_READ_WRITE, mp_usage_limit = 0, mp_total_blocks = 0,
     mp_total_bytes_used = 0, mp_last_recycled_time = 0, mp_total_bytes_written = 0, mp_total_bytes_read = 0,
     mp_bytes_written = zero_metric, mp_bytes_read = zero_metric\<rparr>"

definition zero_mounts :: mount_data where
  "zero_mounts = \<lparr>md_version = (0, 0), md_mount_count = 0, md_available_count = 0,
     md_mounts = replicate MAX_MOUNT_POINTS zero_mount\<rparr>"

text \<open>\<open>mounts [i]\<close>, behind the end of the array it is undefined.\<close>

definition md_get :: "nat \<Rightarrow> (mount_point, mount_data) cmd" where
  "md_get i md = (if i < length (md_mounts md) then (Inr (md_mounts md ! i), md) else (Inl Mem_fault, md))"

definition md_put :: "nat \<Rightarrow> mount_point \<Rightarrow> (unit, mount_data) cmd" where
  "md_put i mp md = (if i < length (md_mounts md) then (Inr (), md\<lparr>md_mounts := (md_mounts md)[i := mp]\<rparr>) else (Inl Mem_fault, md))"

subsection \<open>Hourly counters\<close>

definition reset_hourly_metrics :: "mount_env \<Rightarrow> usage_metric \<Rightarrow> usage_metric" where
  "reset_hourly_metrics v m = \<lparr>um_size = 24, um_reset_time = mv_now v, um_total_value = 0, um_total_time = 0,
     um_current_index = 0, um_records = map (\<lambda>i. \<lparr>ur_index = i, ur_value = 0, ur_time = 0\<rparr>) [0..<24]\<rparr>"

text \<open>
  \<open>get_hour (&ti)\<close> overwrites \<open>ti\<close> with the current time, so that both hours in \<open>get_hour_diff\<close> are the
  hour of now.
\<close>

definition get_hour_diff :: "mount_env \<Rightarrow> time \<Rightarrow> nat" where
  "get_hour_diff v ti = (let hours = unat ((mv_now v - ti) div (1000 * 60 * 60)) mod 2 ^ 32 in
     if hours = 0 then mv_hour v - mv_hour v else hours)"

text \<open>One step of the loop that clears the hours that passed: \<open>ii\<close> counts up to the hour.\<close>

definition clear_hour :: "nat \<Rightarrow> nat \<Rightarrow> usage_metric \<Rightarrow> usage_metric" where
  "clear_hour ii index m = (let r = um_records m ! index in
     m\<lparr>um_total_value := sub64 (um_total_value m) (ur_value r), um_total_time := sub64 (um_total_time m) (ur_time r),
       um_records := (um_records m)[index := \<lparr>ur_index = ii, ur_value = 0, ur_time = 0\<rparr>]\<rparr>)"

fun clear_hours :: "nat \<Rightarrow> nat \<Rightarrow> nat \<Rightarrow> (unit, usage_metric) cmd" where
  "clear_hours 0 ii index m = (Inr (), m)"
| "clear_hours (Suc n) ii index m =
     (if index < length (um_records m)
      then clear_hours n (ii + 1) (if index + 1 \<ge> um_size m then 0 else index + 1) (clear_hour ii index m)
      else (Inl Mem_fault, m))"

definition add_usage :: "nat \<Rightarrow> nat \<Rightarrow> (unit, usage_metric) cmd" where
  "add_usage value time m =
     (let m1 = m\<lparr>um_total_value := add64 (um_total_value m) value, um_total_time := add64 (um_total_time m) time\<rparr>;
          i = um_current_index m1 in
      if i < length (um_records m1)
      then (let r = um_records m1 ! i in
        (Inr (), m1\<lparr>um_records := (um_records m1)[i := r\<lparr>ur_value := add64 (ur_value r) value, ur_time := add64 (ur_time r) time\<rparr>]\<rparr>))
      else (Inl Mem_fault, m1))"

definition update_hourly_metrics :: "mount_env \<Rightarrow> nat \<Rightarrow> nat \<Rightarrow> (unit, usage_metric) cmd" where
  "update_hourly_metrics v value time =
     c_bind (\<lambda>m.
       if get_hour_diff v (um_reset_time m) \<ge> um_size m then (Inr (), reset_hourly_metrics v m)
       else if mv_hour v \<noteq> um_current_index m
       then c_bind (clear_hours (mv_hour v + 1) 0 (um_current_index m + 1)) (\<lambda>_.
            c_mod (\<lambda>m. m\<lparr>um_current_index := mv_hour v, um_reset_time := mv_now v\<rparr>)) m
       else (Inr (), m)) (\<lambda>_. add_usage value time)"

text \<open>The counters that \<open>get_hourly_metric\<close> puts into an average: the value and the number it is divided by.\<close>

definition get_hourly_metric :: "mount_env \<Rightarrow> usage_metric \<Rightarrow> exc + nat \<times> nat" where
  "get_hourly_metric v m = (if mv_hour v < 24
     then (if mv_hour v < length (um_records m)
           then (let r = um_records m ! mv_hour v in Inr (ur_value r, ur_time r)) else Inl Mem_fault)
     else Inl Postcondition)"

subsection \<open>mount_utils\<close>

text \<open>\<open>printf\<close> of an unsigned number.\<close>

fun dec_text :: "nat \<Rightarrow> string" where
  "dec_text n = (if n < 10 then [char_of (48 + n)] else dec_text (n div 10) @ [char_of (48 + n mod 10)])"

declare dec_text.simps [simp del]

definition get_lock_name :: "mount_point \<Rightarrow> nat \<Rightarrow> string" where
  "get_lock_name mp index = (let name = mp_path mp;
       off = (if length name \<le> 16 then length name - 1 else 16) in
     ''m_'' @ take off name @ ''_'' @ dec_text index)"

text \<open>
  \<open>M_BYTES\<close> is \<open>1024 * 1024\<close> without parentheses, and \<open>G_BYTES\<close> has one factor more: a division by one of
  them divides once and then multiplies.
\<close>

definition over_mega :: "(rat \<Rightarrow> rat) \<Rightarrow> rat \<Rightarrow> rat" where
  "over_mega rnd x = rnd (rnd (x / 1024) * 1024)"

definition over_giga :: "(rat \<Rightarrow> rat) \<Rightarrow> rat \<Rightarrow> rat" where
  "over_giga rnd x = rnd (over_mega rnd x * 1024)"

definition io_rate :: "(rat \<Rightarrow> rat) \<Rightarrow> usage_metric \<Rightarrow> rat" where
  "io_rate rnd m = (if um_total_time m > 0
     then rnd (rnd (of_nat (um_total_value m)) / rnd (of_nat (um_total_time m))) else 0)"

definition get_mount_usage :: "(rat \<Rightarrow> rat) \<Rightarrow> mount_point \<Rightarrow> rat" where
  "get_mount_usage rnd mp =
     (let d = (\<lambda>n. rnd (of_nat n));
          d_usage = over_mega rnd (d (mp_total_bytes_used mp));
          t_r = over_giga rnd (d (mp_total_bytes_read mp));
          t_w = over_giga rnd (d (mp_total_bytes_written mp));
          r_r = over_giga rnd (d (um_total_value (mp_bytes_read mp)));
          r_w = over_giga rnd (d (um_total_value (mp_bytes_written mp)));
          s1 = rnd (d_usage + t_r);
          s2 = rnd (s1 + rnd (2 * t_w));
          s3 = rnd (s2 + rnd (2 * r_r));
          s4 = rnd (s3 + rnd (3 * r_w));
          s5 = rnd (s4 + rnd (3 * io_rate rnd (mp_bytes_read mp))) in
      rnd (s5 + rnd (4 * io_rate rnd (mp_bytes_written mp))))"

definition get_free_space :: "mount_env \<Rightarrow> string \<Rightarrow> exc + nat" where
  "get_free_space v p = (if p = [] then Inl Precondition
     else case mv_free v p of None \<Rightarrow> Inl Base_error | Some n \<Rightarrow> Inr (n mod 2 ^ 64))"

definition char_toupper :: "char \<Rightarrow> char" where
  "char_toupper c = (let n = of_char c :: nat in if 97 \<le> n \<and> n \<le> 122 then char_of (n - 32) else c)"

definition str_toupper :: "string \<Rightarrow> string" where
  "str_toupper s = map char_toupper s"

definition parse_mount_state :: "string \<Rightarrow> exc + mount_state" where
  "parse_mount_state s = (if s = [] then Inl Precondition else
     (let st = str_toupper (str_trim s) in
      if st = ''READ_WRITE'' then Inr MP_READ_WRITE
      else if st = ''READ_ONLY'' then Inr MP_READ_ONLY
      else if st = ''UNAVAILABLE'' then Inr MP_UNAVAILABLE
      else if st = ''CORRUPTED'' then Inr MP_CORRUPTED
      else Inl Base_error))"

subsection \<open>The map of a process\<close>

text \<open>
  A lock is known by its name. Both keys end with a slash, which is added when it is missing; \<open>insert\<close> into
  an \<open>unordered_map\<close> keeps an entry that is there.
\<close>

record mount_map =
  mm_locks :: "string \<rightharpoonup> string"
  mm_index :: "string \<rightharpoonup> nat"

definition new_mount_map :: mount_map where
  "new_mount_map = \<lparr>mm_locks = Map.empty, mm_index = Map.empty\<rparr>"

definition with_slash :: "string \<Rightarrow> string" where
  "with_slash s = (if last s \<noteq> CHR ''/'' then s @ ''/'' else s)"

definition map_insert :: "'k \<Rightarrow> 'v \<Rightarrow> ('k \<rightharpoonup> 'v) \<Rightarrow> ('k \<rightharpoonup> 'v)" where
  "map_insert k x m = (case m k of None \<Rightarrow> m(k \<mapsto> x) | Some _ \<Rightarrow> m)"

definition add_mount_index :: "string \<Rightarrow> nat \<Rightarrow> (unit, mount_map) cmd" where
  "add_mount_index name i = c_bind (c_check Precondition (\<lambda>_. name \<noteq> [])) (\<lambda>_.
     c_mod (\<lambda>mm. mm\<lparr>mm_index := map_insert (with_slash name) i (mm_index mm)\<rparr>))"

definition get_mount_index :: "string \<Rightarrow> mount_map \<Rightarrow> exc + nat option" where
  "get_mount_index name mm = (if name = [] then Inl Precondition else Inr (mm_index mm (with_slash name)))"

definition add_mount_lock :: "string \<Rightarrow> string \<Rightarrow> (unit, mount_map) cmd" where
  "add_mount_lock name lock = c_bind (c_check Precondition (\<lambda>_. name \<noteq> [])) (\<lambda>_.
     c_mod (\<lambda>mm. mm\<lparr>mm_locks := map_insert (with_slash name) lock (mm_locks mm)\<rparr>))"

definition find_mount_lock :: "string \<Rightarrow> mount_map \<Rightarrow> exc + string option" where
  "find_mount_lock name mm = (if name = [] then Inl Precondition else Inr (mm_locks mm (with_slash name)))"

definition get_mount_lock :: "string \<Rightarrow> mount_data \<Rightarrow> mount_map \<Rightarrow> exc + string option" where
  "get_mount_lock mount md mm = e_bind (get_mount_index mount mm) (\<lambda>i. case i of
       None \<Rightarrow> Inr None
     | Some i \<Rightarrow> if \<not> i < length (md_mounts md) then Inl Mem_fault
         else let mp = md_mounts md ! i in
           if mp_state mp \<noteq> MP_UNAVAILABLE
           then (if mp_lock_name mp = [] then Inl Empty_value else find_mount_lock (mp_lock_name mp) mm)
           else Inr None)"

end
