(* ===== verification/MountClient.thy ===== *)
theory MountClient
  imports MountStructs
begin

section \<open>The mount client (core/includes/clients/mount_client.h)\<close>

text \<open>
  A client has a pointer to the shared table and a map of its own; both are null before \<open>init\<close>. A lock of
  a mount point is held for the whole of the update it guards, so that an update is one step on the table;
  \<open>got\<close> says whether a lock with a timeout was obtained in time.
\<close>

record mount_client =
  mc_mounts :: "mount_data option"
  mc_map :: "mount_map option"

definition new_mount_client :: mount_client where
  "new_mount_client = \<lparr>mc_mounts = None, mc_map = None\<rparr>"

definition on_mount_map :: "('a, mount_map) cmd \<Rightarrow> ('a, mount_client) cmd" where
  "on_mount_map f c = (case mc_map c of None \<Rightarrow> (Inl Mem_fault, c)
     | Some m \<Rightarrow> (case f m of (r, m') \<Rightarrow> (r, c\<lparr>mc_map := Some m'\<rparr>)))"

definition on_mounts :: "('a, mount_data) cmd \<Rightarrow> ('a, mount_client) cmd" where
  "on_mounts f c = (case mc_mounts c of None \<Rightarrow> (Inl Mem_fault, c)
     | Some m \<Rightarrow> (case f m of (r, m') \<Rightarrow> (r, c\<lparr>mc_mounts := Some m'\<rparr>)))"

definition mc_mount :: "nat \<Rightarrow> (mount_point, mount_client) cmd" where
  "mc_mount i = on_mounts (md_get i)"

definition mc_mount_count :: "(nat, mount_client) cmd" where
  "mc_mount_count = on_mounts (c_get md_mount_count)"

definition is_readable :: "nat \<Rightarrow> (bool, mount_client) cmd" where
  "is_readable i = c_bind (mc_mount i) (\<lambda>mp. c_ret (mp_state mp = MP_READ_ONLY \<or> mp_state mp = MP_READ_WRITE))"

definition is_writable :: "nat \<Rightarrow> (bool, mount_client) cmd" where
  "is_writable i = c_bind (mc_mount i) (\<lambda>mp. c_ret (mp_state mp = MP_READ_WRITE))"

subsection \<open>init\<close>

text \<open>The version is compared and the answer is not used.\<close>

definition init_mount :: "nat \<Rightarrow> (unit, mount_client) cmd" where
  "init_mount i = c_bind (mc_mount i) (\<lambda>mp.
     if mp_state mp = MP_UNAVAILABLE then c_ret ()
     else c_bind (c_check Postcondition (\<lambda>_. mp_lock_name mp \<noteq> [])) (\<lambda>_.
          c_bind (on_mount_map (add_mount_lock (mp_lock_name mp) (mp_lock_name mp))) (\<lambda>_.
          on_mount_map (add_mount_index (mp_path mp) i))))"

fun init_mounts :: "nat list \<Rightarrow> (unit, mount_client) cmd" where
  "init_mounts [] = c_ret ()"
| "init_mounts (i # is) = c_bind (init_mount i) (\<lambda>_. init_mounts is)"

definition mc_init :: "mount_data option \<Rightarrow> bool \<Rightarrow> (unit, mount_client) cmd" where
  "mc_init ptr size_ok c = (case ptr of
       None \<Rightarrow> (Inl Null_pointer, c)
     | Some md \<Rightarrow> c_bind (c_all [c_check Precondition (\<lambda>_. size_ok),
           c_mod (\<lambda>c. c\<lparr>mc_mounts := Some md, mc_map := Some new_mount_map\<rparr>)]) (\<lambda>_.
         init_mounts [0..<md_mount_count md]) c)"

subsection \<open>Which mount point a path is under\<close>

definition cannonical_path :: "mount_env \<Rightarrow> string \<Rightarrow> string" where
  "cannonical_path v path = (if path \<noteq> [] then
     (case mv_realpath v path of Some p \<Rightarrow> if p \<noteq> [] \<and> mv_exists v p then p else path | None \<Rightarrow> path) else path)"

fun find_mount_point :: "string \<Rightarrow> string \<Rightarrow> mount_point list \<Rightarrow> exc + string" where
  "find_mount_point path r_path [] = Inr []"
| "find_mount_point path r_path (mp # mps) =
     (let m_path = mp_path mp in
      if m_path = [] then Inl Postcondition
      else if path = m_path then Inr m_path
      else let m = (if \<not> ends_with m_path ''/'' then m_path @ ''/'' else m_path) in
        if starts_with r_path m then Inr m else find_mount_point path r_path mps)"

definition mc_get_mount_point :: "mount_env \<Rightarrow> string \<Rightarrow> (string, mount_client) cmd" where
  "mc_get_mount_point v path c = (case mc_mounts c of
       None \<Rightarrow> (Inl Null_pointer, c)
     | Some md \<Rightarrow> if path = [] then (Inl Precondition, c)
         else (if md_mount_count md \<le> length (md_mounts md)
               then find_mount_point path (cannonical_path v path) (take (md_mount_count md) (md_mounts md))
               else Inl Mem_fault, c))"

text \<open>What most operations begin with: the mount point of the path, its index, and its record.\<close>

definition mc_locate :: "mount_env \<Rightarrow> string \<Rightarrow> (string \<times> nat \<times> mount_point, mount_client) cmd" where
  "mc_locate v path = c_bind (mc_get_mount_point v path) (\<lambda>m_path.
     c_bind (on_mount_map (\<lambda>mm. (get_mount_index m_path mm, mm))) (\<lambda>m_index.
     c_bind mc_mount_count (\<lambda>n.
     case m_index of None \<Rightarrow> c_throw Postcondition
       | Some i \<Rightarrow> if i < n then c_bind (mc_mount i) (\<lambda>mp. c_ret (m_path, i, mp)) else c_throw Postcondition)))"

definition mc_get_mount_lock :: "string \<Rightarrow> (string, mount_client) cmd" where
  "mc_get_mount_lock m_path c = (case (mc_mounts c, mc_map c) of
       (Some md, Some mm) \<Rightarrow> (case get_mount_lock m_path md mm of
            Inl e \<Rightarrow> (Inl e, c) | Inr None \<Rightarrow> (Inl Null_pointer, c) | Inr (Some l) \<Rightarrow> (Inr l, c))
     | _ \<Rightarrow> (Inl Mem_fault, c))"

text \<open>\<open>mc_update i f\<close>: the record at an index is changed in place.\<close>

definition mc_update :: "nat \<Rightarrow> (unit, mount_point) cmd \<Rightarrow> (unit, mount_client) cmd" where
  "mc_update i f = c_bind (mc_mount i) (\<lambda>mp. case f mp of (r, mp') \<Rightarrow>
     c_bind (on_mounts (md_put i mp')) (\<lambda>_ c. (r, c)))"

subsection \<open>The operations\<close>

definition add_bytes_read :: "mount_env \<Rightarrow> nat \<Rightarrow> nat \<Rightarrow> (unit, mount_point) cmd" where
  "add_bytes_read v n time mp =
     (let mp1 = mp\<lparr>mp_total_bytes_read := add64 (mp_total_bytes_read mp) n\<rparr> in
      case update_hourly_metrics v n time (mp_bytes_read mp1) of (r, m) \<Rightarrow> (r, mp1\<lparr>mp_bytes_read := m\<rparr>))"

definition add_bytes_written :: "mount_env \<Rightarrow> nat \<Rightarrow> nat \<Rightarrow> (unit, mount_point) cmd" where
  "add_bytes_written v n time mp =
     (let mp1 = mp\<lparr>mp_total_bytes_written := add64 (mp_total_bytes_written mp) n\<rparr> in
      case update_hourly_metrics v n time (mp_bytes_written mp1) of (r, m) \<Rightarrow> (r, mp1\<lparr>mp_bytes_written := m\<rparr>))"

definition mc_update_read_metrics :: "mount_env \<Rightarrow> bool \<Rightarrow> string \<Rightarrow> nat \<Rightarrow> nat \<Rightarrow> (unit, mount_client) cmd" where
  "mc_update_read_metrics v got path n time = c_bind (mc_locate v path) (\<lambda>(m_path, i, mp).
     c_bind (is_readable i) (\<lambda>r. c_when r
       (c_bind (mc_get_mount_lock m_path) (\<lambda>_.
        c_bind (c_check Lock_timeout (\<lambda>_. got)) (\<lambda>_. mc_update i (add_bytes_read v n time))))))"

definition mc_update_write_metrics :: "mount_env \<Rightarrow> bool \<Rightarrow> string \<Rightarrow> nat \<Rightarrow> nat \<Rightarrow> (unit, mount_client) cmd" where
  "mc_update_write_metrics v got path n time = c_bind (mc_locate v path) (\<lambda>(m_path, i, mp).
     c_bind (is_writable i) (\<lambda>w. c_when w
       (c_bind (mc_get_mount_lock m_path) (\<lambda>_.
        c_bind (c_check Lock_timeout (\<lambda>_. got)) (\<lambda>_. mc_update i (add_bytes_written v n time))))))"

text \<open>\<open>usage_limit - total_bytes_used\<close> is computed in \<open>uint64_t\<close>.\<close>

definition mount_available :: "mount_point \<Rightarrow> nat" where
  "mount_available mp = sub64 (nat (mp_usage_limit mp mod 2 ^ 64)) (mp_total_bytes_used mp)"

definition mc_can_create_block :: "mount_env \<Rightarrow> string \<Rightarrow> nat \<Rightarrow> (bool, mount_client) cmd" where
  "mc_can_create_block v path n = c_bind (mc_locate v path) (\<lambda>(m_path, i, mp).
     c_bind (is_writable i) (\<lambda>w.
     if w \<and> mp_usage_limit mp > 0
     then (case get_free_space v (mp_path mp) of
             Inl e \<Rightarrow> c_throw e
           | Inr actual \<Rightarrow> c_ret (min (mount_available mp) actual \<ge> n))
     else c_ret False))"

definition reserve_bytes :: "nat \<Rightarrow> (unit, mount_point) cmd" where
  "reserve_bytes n = c_mod (\<lambda>mp. mp\<lparr>mp_total_bytes_used := add64 (mp_total_bytes_used mp) n,
     mp_total_blocks := (mp_total_blocks mp + 1) mod 2 ^ 32\<rparr>)"

definition mc_reserve_block :: "mount_env \<Rightarrow> string \<Rightarrow> nat \<Rightarrow> (bool, mount_client) cmd" where
  "mc_reserve_block v path n = c_bind (mc_locate v path) (\<lambda>(m_path, i, mp).
     c_bind (is_writable i) (\<lambda>w.
     if w
     then c_bind (mc_get_mount_lock m_path) (\<lambda>_.
          c_bind (mc_can_create_block v path n) (\<lambda>can.
          c_bind (c_when can (mc_update i (reserve_bytes n))) (\<lambda>_. c_ret can)))
     else c_ret False))"

text \<open>The double that \<open>ULONG_MAX\<close> is converted to is where the search begins.\<close>

fun next_mount :: "(rat \<Rightarrow> rat) \<Rightarrow> nat \<Rightarrow> mount_point list \<Rightarrow> rat \<Rightarrow> string \<Rightarrow> string" where
  "next_mount rnd n [] score mount = mount"
| "next_mount rnd n (mp # mps) score mount =
     (if mp_state mp \<noteq> MP_READ_WRITE then next_mount rnd n mps score mount
      else if mount_available mp < n then next_mount rnd n mps score mount
      else let bs = get_mount_usage rnd mp in
        if score > bs then next_mount rnd n mps bs (mp_path mp) else next_mount rnd n mps score mount)"

definition mc_get_next_mount :: "mount_env \<Rightarrow> nat \<Rightarrow> (string, mount_client) cmd" where
  "mc_get_next_mount v n = on_mounts (\<lambda>md.
     (if md_mount_count md \<le> length (md_mounts md)
      then Inr (next_mount (mv_rnd v) n (take (md_mount_count md) (md_mounts md)) (mv_rnd v (2 ^ 64 - 1)) [])
      else Inl Mem_fault, md))"

definition release_bytes :: "nat \<Rightarrow> (unit, mount_point) cmd" where
  "release_bytes n = c_mod (\<lambda>mp. mp\<lparr>mp_total_bytes_used := sub64 (mp_total_bytes_used mp) n,
     mp_total_blocks := (mp_total_blocks mp + (2 ^ 32 - 1)) mod 2 ^ 32\<rparr>)"

definition mc_release_block :: "mount_env \<Rightarrow> string \<Rightarrow> nat \<Rightarrow> (unit, mount_client) cmd" where
  "mc_release_block v path n = c_bind (mc_locate v path) (\<lambda>(m_path, i, mp).
     c_bind (mc_get_mount_lock m_path) (\<lambda>_. mc_update i (release_bytes n)))"

end
