(* ===== verification/MountManager.thy ===== *)
theory MountManager
  imports MountClient ConfigTree
begin

section \<open>The mount manager (core/includes/server/mount_manager.h)\<close>

text \<open>
  The manager reads the mount points from the configuration and sets up the table: in a new record when
  the node has none, in place otherwise. A configuration node is given as the chain of nodes from the root
  to it. The record is kept as the structure it holds; the task that logs the counters is left out, except
  for what it computes.
\<close>

subsection \<open>Sizes\<close>

text \<open>
  The match of \<open>(\-?[[:digit:]]+)\s*([[:alpha:]]*)\<close>: the first position with digits, a minus in front of
  them, and the letter after the white space that follows; \<open>CHR 0x00\<close> when there is none.
\<close>

definition is_digit :: "char \<Rightarrow> bool" where
  "is_digit c \<longleftrightarrow> char_digit c \<noteq> None"

definition is_alpha :: "char \<Rightarrow> bool" where
  "is_alpha c \<longleftrightarrow> (let n = of_char (char_tolower c) :: nat in 97 \<le> n \<and> n \<le> 122)"

definition unit_after :: "string \<Rightarrow> char" where
  "unit_after s = (case dropWhile char_isspace (dropWhile is_digit s) of [] \<Rightarrow> CHR 0x00
     | c # _ \<Rightarrow> if is_alpha c then char_toupper c else CHR 0x00)"

fun size_match :: "string \<Rightarrow> (bool \<times> nat \<times> char) option" where
  "size_match [] = None"
| "size_match (c # cs) =
     (if c = CHR ''-'' \<and> cs \<noteq> [] \<and> is_digit (hd cs) then Some (True, read_digits cs 0, unit_after cs)
      else if is_digit c then Some (False, read_digits (c # cs) 0, unit_after (c # cs))
      else size_match cs)"

definition parse_size :: "(rat \<Rightarrow> rat) \<Rightarrow> string \<Rightarrow> rat" where
  "parse_size rnd s = (case size_match s of
       None \<Rightarrow> - 1
     | Some (neg, n, u) \<Rightarrow>
         (let d = rnd (if neg then - of_nat n else of_nat n) in
          if d > 0
          then (if u = CHR ''K'' then rnd (d * 1024)
                else if u = CHR ''M'' then rnd (d * 1048576)
                else if u = CHR ''G'' then rnd (rnd (d * 1024) * 1048576)
                else if u = CHR ''T'' then rnd (rnd (d * 1048576) * 1048576)
                else d)
          else d))"

text \<open>The conversion to \<open>long\<close> is undefined for what does not fit.\<close>

definition double_to_long :: "rat \<Rightarrow> exc + int" where
  "double_to_long d = (let n = (if d \<ge> 0 then \<lfloor>d\<rfloor> else \<lceil>d\<rceil>) in
     if - (2 ^ 63) \<le> n \<and> n < 2 ^ 63 then Inr n else Inl Mem_fault)"

subsection \<open>The mount points of the configuration\<close>

text \<open>\<open>cfg_text chain path e\<close>: the text of the node that is found; a node of another kind is the error \<open>e\<close>.\<close>

definition cfg_text :: "cvalue list \<Rightarrow> string \<Rightarrow> exc \<Rightarrow> exc + string option" where
  "cfg_text chain path e = e_bind (cv_find_path chain path) (\<lambda>r. case r of
       None \<Rightarrow> Inr None
     | Some ch \<Rightarrow> (case last ch of
           C_basic k s \<Rightarrow> if s = [] then Inl Postcondition else Inr (Some s)
         | _ \<Rightarrow> Inl e))"

definition is_node :: "cvalue \<Rightarrow> bool" where
  "is_node c \<longleftrightarrow> (case c of C_node k cs \<Rightarrow> True | _ \<Rightarrow> False)"

definition get_mout_def :: "mount_env \<Rightarrow> cvalue list \<Rightarrow> exc + mount_def" where
  "get_mout_def v chain = (if \<not> is_node (last chain) then Inl Precondition else
     e_bind (cfg_text chain ''path'' Postcondition) (\<lambda>name. case name of None \<Rightarrow> Inl Postcondition | Some name \<Rightarrow>
     e_bind (cfg_text chain ''usage-limit'' Precondition) (\<lambda>l.
     e_bind (case l of None \<Rightarrow> Inr (-1) | Some s \<Rightarrow> double_to_long (parse_size (mv_rnd v) s)) (\<lambda>limit.
     e_bind (cfg_text chain ''state'' Precondition) (\<lambda>st.
     e_bind (case st of None \<Rightarrow> Inr MP_READ_WRITE | Some s \<Rightarrow> parse_mount_state s) (\<lambda>ms.
     if mv_exists v name
     then Inr \<lparr>mdef_path = name, mdef_usage_limit = limit, mdef_state = ms\<rparr> else Inl Postcondition))))))"

fun get_mout_defs :: "mount_env \<Rightarrow> cvalue list \<Rightarrow> cvalue list \<Rightarrow> exc + mount_def list" where
  "get_mout_defs v chain [] = Inr []"
| "get_mout_defs v chain (c # cs) =
     (if is_node c
      then e_bind (get_mout_def v (chain @ [c])) (\<lambda>d. e_bind (get_mout_defs v chain cs) (\<lambda>ds. Inr (d # ds)))
      else get_mout_defs v chain cs)"

definition get_mount_points :: "mount_env \<Rightarrow> cvalue list \<Rightarrow> exc + mount_def list" where
  "get_mount_points v chain = (case last chain of
       C_node k cs \<Rightarrow> e_bind (get_mout_def v chain) (\<lambda>d. Inr [d])
     | C_list k vs \<Rightarrow> get_mout_defs v chain vs
     | _ \<Rightarrow> Inr [])"

subsection \<open>load\<close>

text \<open>
  The first time: a table of zeros with a record for each definition, whose state is not the one of the
  definition. A path without room for its NUL and a definition behind the end of the array overrun.
\<close>

definition fresh_mount :: "mount_env \<Rightarrow> mount_def \<Rightarrow> mount_point" where
  "fresh_mount v d = zero_mount\<lparr>mp_path := mdef_path d, mp_state := MP_READ_WRITE, mp_usage_limit := mdef_usage_limit d,
     mp_bytes_read := reset_hourly_metrics v zero_metric, mp_bytes_written := reset_hourly_metrics v zero_metric\<rparr>"

fun fill_mounts :: "mount_env \<Rightarrow> nat \<Rightarrow> mount_def list \<Rightarrow> (unit, mount_data) cmd" where
  "fill_mounts v i [] = c_ret ()"
| "fill_mounts v i (d # ds) =
     c_bind (c_all [c_check Precondition (\<lambda>_. mdef_path d \<noteq> []),
                    c_check Mem_fault (\<lambda>_. length (mdef_path d) < SIZE_MAX_PATH),
                    md_put i (fresh_mount v d)]) (\<lambda>_. fill_mounts v (i + 1) ds)"

definition load_new :: "mount_env \<Rightarrow> mount_def list \<Rightarrow> exc + mount_data" where
  "load_new v ds = (case fill_mounts v 0 ds
       (zero_mounts\<lparr>md_mount_count := length ds mod 2 ^ 16, md_available_count := length ds mod 2 ^ 16\<rparr>) of
     (Inl e, _) \<Rightarrow> Inl e | (Inr _, md) \<Rightarrow> Inr md)"

text \<open>Later: the definitions are looked up among the records by their path, and each other way round.\<close>

definition mount_of_def :: "mount_def \<Rightarrow> mount_data \<Rightarrow> nat option" where
  "mount_of_def d md = find (\<lambda>j. mp_path (md_mounts md ! j) = mdef_path d) [0..<min (md_mount_count md) (length (md_mounts md))]"

definition take_def :: "mount_def \<Rightarrow> mount_point \<Rightarrow> mount_point" where
  "take_def d mp = mp\<lparr>mp_usage_limit := mdef_usage_limit d, mp_state := mdef_state d\<rparr>"

fun update_mounts :: "mount_def list \<Rightarrow> (bool list, mount_data) cmd" where
  "update_mounts [] = c_ret []"
| "update_mounts (d # ds) =
     c_bind (c_check Precondition (\<lambda>_. mdef_path d \<noteq> [])) (\<lambda>_.
     c_bind (c_get (mount_of_def d)) (\<lambda>j. case j of
         None \<Rightarrow> c_bind (update_mounts ds) (\<lambda>fs. c_ret (False # fs))
       | Some j \<Rightarrow> c_bind (md_get j) (\<lambda>mp. c_bind (md_put j (take_def d mp)) (\<lambda>_.
           c_bind (update_mounts ds) (\<lambda>fs. c_ret (True # fs))))))"

text \<open>
  A definition without a record: the count goes up, and the \<open>memset\<close> over the address of the pointer
  overwrites the stack.
\<close>

definition add_mounts :: "bool list \<Rightarrow> (unit, mount_data) cmd" where
  "add_mounts fs = (if list_all id fs then c_ret ()
     else c_bind (c_mod (\<lambda>md. md\<lparr>md_mount_count := (md_mount_count md + 1) mod 2 ^ 16\<rparr>)) (\<lambda>_. c_throw Mem_fault))"

definition def_of_mount :: "mount_def list \<Rightarrow> mount_point \<Rightarrow> mount_def option" where
  "def_of_mount ds mp = find (\<lambda>d. mp_path mp = mdef_path d) ds"

definition without_def :: "mount_env \<Rightarrow> mount_point \<Rightarrow> mount_point" where
  "without_def v mp = mp\<lparr>mp_usage_limit := 0,
     mp_state := (if mv_exists v (mp_path mp) then MP_READ_ONLY else MP_UNAVAILABLE)\<rparr>"

fun match_mounts :: "mount_def list \<Rightarrow> nat list \<Rightarrow> (nat list, mount_data) cmd" where
  "match_mounts ds [] = c_ret []"
| "match_mounts ds (j # js) = c_bind (md_get j) (\<lambda>mp. case def_of_mount ds mp of
       Some d \<Rightarrow> c_bind (md_put j (take_def d mp)) (\<lambda>_. match_mounts ds js)
     | None \<Rightarrow> c_bind (match_mounts ds js) (\<lambda>is. c_ret (j # is)))"

fun retire_mounts :: "mount_env \<Rightarrow> nat list \<Rightarrow> (unit, mount_data) cmd" where
  "retire_mounts v [] = c_ret ()"
| "retire_mounts v (j # js) = c_bind (md_get j) (\<lambda>mp.
     c_bind (c_all [c_check Empty_value (\<lambda>_. mp_path mp \<noteq> []), md_put j (without_def v mp)]) (\<lambda>_. retire_mounts v js))"

definition load_again :: "mount_env \<Rightarrow> mount_def list \<Rightarrow> (unit, mount_data) cmd" where
  "load_again v ds = c_bind (c_mod (\<lambda>md. md\<lparr>md_available_count := length ds mod 2 ^ 16\<rparr>)) (\<lambda>_.
     c_bind (update_mounts ds) (\<lambda>fs. c_bind (add_mounts fs) (\<lambda>_.
     c_bind (c_get md_mount_count) (\<lambda>n. c_bind (match_mounts ds [0..<n]) (retire_mounts v)))))"

text \<open>\<open>load\<close> with what the node has under \<open>MOUNTS_KEY\<close>, and that after it.\<close>

definition mount_load :: "mount_env \<Rightarrow> cvalue list \<Rightarrow> (unit, mount_data option) cmd" where
  "mount_load v chain data = (case get_mount_points v chain of
       Inl e \<Rightarrow> (Inl e, data)
     | Inr ds \<Rightarrow> if ds = [] then (Inl Postcondition, data)
         else (case data of
             None \<Rightarrow> (case load_new v ds of Inl e \<Rightarrow> (Inl e, None) | Inr md \<Rightarrow> (Inr (), Some md))
           | Some md \<Rightarrow> (case load_again v ds md of (r, md') \<Rightarrow> (r, Some md'))))"

subsection \<open>load_finished\<close>

text \<open>The state is the table and the manager's map. A limit is an \<open>int64_t\<close>.\<close>

definition signed64 :: "nat \<Rightarrow> int" where
  "signed64 n = (if n < 2 ^ 63 then int n else int n - 2 ^ 64)"

definition start_mount :: "mount_env \<Rightarrow> nat \<Rightarrow> (unit, mount_client) cmd" where
  "start_mount v i = c_bind (mc_mount i) (\<lambda>mp.
     if mp_state mp = MP_UNAVAILABLE then c_ret ()
     else
       let name = get_lock_name mp i; mp1 = mp\<lparr>mp_lock_name := name\<rparr> in
       c_bind (on_mounts (md_put i mp1)) (\<lambda>_.
       c_bind (if mp_usage_limit mp < 0
               then (case get_free_space v (mp_path mp) of
                   Inl e \<Rightarrow> c_throw e
                 | Inr n \<Rightarrow> c_when (n > 0) (on_mounts (md_put i (mp1\<lparr>mp_usage_limit := signed64 n\<rparr>))))
               else c_ret ()) (\<lambda>_.
       c_bind (on_mount_map (add_mount_lock name name)) (\<lambda>_.
       on_mount_map (add_mount_index (mp_path mp) i)))))"

fun start_mounts :: "mount_env \<Rightarrow> nat list \<Rightarrow> (unit, mount_client) cmd" where
  "start_mounts v [] = c_ret ()"
| "start_mounts v (i # is) = c_bind (start_mount v i) (\<lambda>_. start_mounts v is)"

definition load_finished :: "mount_env \<Rightarrow> mount_data \<Rightarrow> (unit, mount_client) cmd" where
  "load_finished v md = c_bind (c_mod (\<lambda>c. c\<lparr>mc_mounts := Some md, mc_map := Some new_mount_map\<rparr>)) (\<lambda>_.
     start_mounts v [0..<md_mount_count md])"

subsection \<open>The logged counters\<close>

text \<open>\<open>callback\<close>: the values put into the averages of writes and reads, \<open>None\<close> for one that is not logged.\<close>

definition logged_counters :: "mount_env \<Rightarrow> mount_point \<Rightarrow> exc + (nat \<times> nat) option \<times> (nat \<times> nat) option" where
  "logged_counters v mp = (case mp_state mp of
       MP_READ_WRITE \<Rightarrow> e_bind (get_hourly_metric v (mp_bytes_written mp)) (\<lambda>w.
         e_bind (get_hourly_metric v (mp_bytes_read mp)) (\<lambda>r. Inr (Some w, Some r)))
     | MP_READ_ONLY \<Rightarrow> e_bind (get_hourly_metric v (mp_bytes_read mp)) (\<lambda>r. Inr (None, Some r))
     | _ \<Rightarrow> Inr (None, None))"

end
