(* ===== verification/MountProps.thy ===== *)
theory MountProps
  imports MountManager "HOL-Library.Sublist"
begin

section \<open>Properties of the mount points\<close>

text \<open>
  The hourly counters, the mount point of a path, the choice of the next mount point, and the ledger of
  reservations.
\<close>

subsection \<open>Hourly counters\<close>

text \<open>The totals of a counter are the sums of its hours, in \<open>uint64_t\<close>.\<close>

definition metric_ok :: "usage_metric \<Rightarrow> bool" where
  "metric_ok m \<longleftrightarrow> um_size m = 24 \<and> length (um_records m) = 24 \<and> um_current_index m < 24
     \<and> um_total_value m = sum_list (map ur_value (um_records m)) mod 2 ^ 64
     \<and> um_total_time m = sum_list (map ur_time (um_records m)) mod 2 ^ 64"

lemma metric_ok_reset: "metric_ok (reset_hourly_metrics v m)"
  by (simp add: metric_ok_def reset_hourly_metrics_def o_def map_replicate_trivial sum_list_replicate
      flip: map_replicate_const)

lemma sum_list_update_nat:
  assumes "i < length xs"
  shows "sum_list (xs[i := x]) + xs ! i = sum_list xs + (x :: nat)"
  using assms by (induction xs arbitrary: i) (auto simp: nth_Cons split: nat.splits)

lemma sub_mod_sum:
  assumes "b + x = (a :: nat)" "0 < M"
  shows "(a mod M + (M - x mod M)) mod M = b mod M"
proof -
  have le: "x mod M \<le> M"
    using assms(2) by (intro less_imp_le) simp
  have "(a mod M + (M - x mod M)) mod M = (b + x + (M - x mod M)) mod M"
    using assms(1) by (simp add: mod_add_left_eq)
  also have "\<dots> = (b + x mod M + (M - x mod M)) mod M"
    by (simp only: add.assoc mod_add_right_eq) (metis mod_add_left_eq mod_add_right_eq)
  also have "b + x mod M + (M - x mod M) = b + M"
    using le by simp
  finally show ?thesis by simp
qed

lemma sub64_sum: "b + x = a \<Longrightarrow> sub64 (a mod 2 ^ 64) x = b mod 2 ^ 64"
  unfolding sub64_def by (rule sub_mod_sum) simp_all

lemma clear_hour_ok:
  assumes "metric_ok m" "index < 24"
  shows "metric_ok (clear_hour ii index m)"
proof -
  let ?rs = "um_records m" and ?r = "\<lparr>ur_index = ii, ur_value = 0, ur_time = 0\<rparr>"
  have len: "index < length ?rs"
    using assms by (simp add: metric_ok_def)
  then have "sum_list ((map ur_value ?rs)[index := 0]) + map ur_value ?rs ! index = sum_list (map ur_value ?rs) + 0"
    "sum_list ((map ur_time ?rs)[index := 0]) + map ur_time ?rs ! index = sum_list (map ur_time ?rs) + 0"
    by (intro sum_list_update_nat, simp)+
  then have "sum_list (map ur_value (?rs[index := ?r])) + ur_value (?rs ! index) = sum_list (map ur_value ?rs)"
    "sum_list (map ur_time (?rs[index := ?r])) + ur_time (?rs ! index) = sum_list (map ur_time ?rs)"
    using len by (simp_all add: map_update)
  then have "sub64 (sum_list (map ur_value ?rs) mod 2 ^ 64) (ur_value (?rs ! index)) = sum_list (map ur_value (?rs[index := ?r])) mod 2 ^ 64"
    "sub64 (sum_list (map ur_time ?rs) mod 2 ^ 64) (ur_time (?rs ! index)) = sum_list (map ur_time (?rs[index := ?r])) mod 2 ^ 64"
    by (blast intro: sub64_sum)+
  then show ?thesis
    using assms by (simp add: metric_ok_def clear_hour_def Let_def)
qed

lemma clear_hours_ok:
  assumes "metric_ok m" "index < 24"
  shows "\<exists>m'. clear_hours n ii index m = (Inr (), m') \<and> metric_ok m'"
  using assms
proof (induction n arbitrary: ii index m)
  case 0
  then show ?case by simp
next
  case (Suc n)
  have "\<exists>m'. clear_hours n (ii + 1) (if index + 1 \<ge> um_size m then 0 else index + 1) (clear_hour ii index m) = (Inr (), m') \<and> metric_ok m'"
    using Suc.prems by (intro Suc.IH clear_hour_ok) (auto simp: metric_ok_def)
  then show ?case
    using Suc.prems by (auto simp: metric_ok_def)
qed

lemma add_usage_ok:
  assumes "metric_ok m"
  shows "\<exists>m'. add_usage x t m = (Inr (), m') \<and> metric_ok m'"
proof -
  let ?rs = "um_records m" and ?i = "um_current_index m"
  let ?r = "(?rs ! ?i)\<lparr>ur_value := add64 (ur_value (?rs ! ?i)) x, ur_time := add64 (ur_time (?rs ! ?i)) t\<rparr>"
  have len: "?i < length ?rs"
    using assms by (simp add: metric_ok_def)
  have "sum_list (xs[?i := add64 (xs ! ?i) d]) mod 2 ^ 64 = add64 (sum_list xs mod 2 ^ 64) d"
    if "?i < length xs" for xs d
  proof -
    have "sum_list (xs[?i := add64 (xs ! ?i) d]) = sum_list (xs[?i := 0]) + add64 (xs ! ?i) d"
      "sum_list xs = sum_list (xs[?i := 0]) + xs ! ?i"
      using sum_list_update_nat [OF that, of "add64 (xs ! ?i) d"] sum_list_update_nat [OF that, of 0] by simp_all
    then show ?thesis
      by (simp add: add64_def mod_add_left_eq mod_add_right_eq add.assoc)
  qed
  from this [of "map ur_value ?rs" x] this [of "map ur_time ?rs" t] show ?thesis
    using assms len by (auto simp: metric_ok_def add_usage_def Let_def map_update)
qed

text \<open>C19. Every update keeps the totals of a counter equal to the sums over its hours, whatever
  hours have passed; the one exception is the first update after hour 23 within a day, which writes behind
  the end of the array.\<close>
theorem hourly_update:
  assumes "metric_ok m" "mv_hour v < 24"
  shows "if um_current_index m = 23 \<and> mv_hour v \<noteq> 23 \<and> get_hour_diff v (um_reset_time m) < 24
         then fst (update_hourly_metrics v n t m) = Inl Mem_fault
         else fst (update_hourly_metrics v n t m) = Inr ()
            \<and> metric_ok (snd (update_hourly_metrics v n t m))"
proof (cases "get_hour_diff v (um_reset_time m) \<ge> 24")
  case True
  then show ?thesis
    using assms add_usage_ok [OF metric_ok_reset [of v m], of n t]
    by (auto simp: update_hourly_metrics_def c_bind_def metric_ok_def)
next
  case small: False
  show ?thesis
  proof (cases "mv_hour v = um_current_index m")
    case True
    then show ?thesis
      using assms small add_usage_ok [OF assms(1), of n t]
      by (auto simp: update_hourly_metrics_def c_bind_def metric_ok_def)
  next
    case moved: False
    show ?thesis
    proof (cases "um_current_index m = 23")
      case True
      then show ?thesis
        using assms small moved by (simp add: update_hourly_metrics_def c_bind_def metric_ok_def)
    next
      case False
      then have "um_current_index m + 1 < 24"
        using assms by (simp add: metric_ok_def)
      from clear_hours_ok [OF assms(1) this, of "mv_hour v + 1" 0]
      obtain m1 where c: "clear_hours (mv_hour v + 1) 0 (um_current_index m + 1) m = (Inr (), m1)" "metric_ok m1"
        by blast
      have "metric_ok (m1\<lparr>um_current_index := mv_hour v, um_reset_time := mv_now v\<rparr>)"
        using c(2) assms by (simp add: metric_ok_def)
      from add_usage_ok [OF this, of n t] show ?thesis
        using assms small moved False c(1) by (auto simp: update_hourly_metrics_def c_bind_def metric_ok_def c_mod_def
            simp del: clear_hours.simps)
    qed
  qed
qed

definition mount_demo_env :: "nat \<Rightarrow> time \<Rightarrow> mount_env" where
  "mount_demo_env hour now = \<lparr>mv_now = now, mv_hour = hour, mv_exists = (\<lambda>p. True), mv_realpath = Some,
     mv_free = (\<lambda>p. Some 1000000), mv_rnd = id\<rparr>"

theorem hourly_update_witness:
  "fst (update_hourly_metrics (mount_demo_env 0 3600000) 7 1 ((reset_hourly_metrics (mount_demo_env 23 0) zero_metric)\<lparr>um_current_index := 23\<rparr>))
     = Inl Mem_fault"
proof -
  let ?m = "(reset_hourly_metrics (mount_demo_env 23 0) zero_metric)\<lparr>um_current_index := 23\<rparr>"
  have "metric_ok ?m"
    using metric_ok_reset [of "mount_demo_env 23 0" zero_metric] by (simp add: metric_ok_def)
  moreover have "um_current_index ?m = 23 \<and> mv_hour (mount_demo_env 0 3600000) \<noteq> 23
      \<and> get_hour_diff (mount_demo_env 0 3600000) (um_reset_time ?m) < 24"
    by (simp add: mount_demo_env_def get_hour_diff_def reset_hourly_metrics_def)
  ultimately show ?thesis
    using hourly_update [of ?m "mount_demo_env 0 3600000" 7 1] by (simp only: if_True simp_thms) (simp add: mount_demo_env_def)
qed

subsection \<open>The mount point of a path\<close>

text \<open>\<open>ends_with\<close> says of a path that it ends with a slash when its last component is one character.\<close>

definition one_char_leaf :: "string \<Rightarrow> bool" where
  "one_char_leaf m \<longleftrightarrow> (\<exists>d c. m = d @ ''/'' @ [c] \<and> c \<noteq> CHR ''/'')"

lemma rfind_none: "CHR ''/'' \<notin> set m \<Longrightarrow> rfind_from ''/'' m i = npos"
  by (induction m arbitrary: i) auto

lemma rfind_last:
  assumes "CHR ''/'' \<notin> set t" "i + length d < npos"
  shows "rfind_from ''/'' (d @ CHR ''/'' # t) i = i + length d"
  using assms
proof (induction d arbitrary: i)
  case Nil
  then show ?case by (simp add: rfind_none)
next
  case (Cons a d)
  then show ?case
    using Cons.IH [of "i + 1"] by simp
qed

lemma ends_with_slash:
  assumes "length m < npos"
  shows "ends_with m ''/'' \<longleftrightarrow> one_char_leaf m"
proof (cases "CHR ''/'' \<in> set m")
  case True
  then obtain d t where m: "m = d @ CHR ''/'' # t" "CHR ''/'' \<notin> set t"
    by (meson split_list_last)
  then have r: "rfind_from ''/'' m 0 = length d" "length d < npos"
    using rfind_last [of t 0 d] assms by simp_all
  have "ends_with m ''/'' \<longleftrightarrow> length d + 1 = length d + length t"
    using r m(1) by (simp add: ends_with_def add64_def npos_def)
  also have "\<dots> \<longleftrightarrow> (\<exists>c. t = [c])"
    by (cases t; cases "tl t") auto
  also have "\<dots> \<longleftrightarrow> one_char_leaf m"
  proof
    assume "\<exists>c. t = [c]"
    then show "one_char_leaf m"
      using m by (auto simp: one_char_leaf_def)
  next
    assume "one_char_leaf m"
    then obtain d' c where "m = d' @ CHR ''/'' # [c]" "c \<noteq> CHR ''/''"
      by (auto simp: one_char_leaf_def)
    then have "t = [c]"
      using m by (simp add: append_eq_append_conv2 append_eq_Cons_conv Cons_eq_append_conv) auto
    then show "\<exists>c. t = [c]" ..
  qed
  finally show ?thesis .
next
  case False
  then show ?thesis
    by (auto simp: ends_with_def rfind_none one_char_leaf_def)
qed

lemma take_prefix: "take (length p) s = p \<longleftrightarrow> prefix p s"
  by (metis append_eq_conv_conj append_take_drop_id prefix_def)

lemma find_from_later: "i < j \<Longrightarrow> i < npos \<Longrightarrow> find_from sub s j \<noteq> i"
  by (induction sub s j rule: find_from.induct) auto

lemma find_from_self: "sub \<noteq> [] \<Longrightarrow> i < npos \<Longrightarrow> find_from sub s i = i \<longleftrightarrow> prefix sub s"
  using find_from_later [of i "i + 1"] by (cases s) (auto simp: take_prefix [symmetric])

lemma starts_with_prefix:
  assumes "length r < npos" "sub \<noteq> []"
  shows "starts_with r sub \<longleftrightarrow> prefix sub r"
  using assms find_from_self [of sub 0 r] by (auto simp: starts_with_def str_find_def npos_def)

text \<open>The reference: the first mount point that is the path or a directory above it.\<close>

definition is_under :: "string \<Rightarrow> string \<Rightarrow> bool" where
  "is_under m r \<longleftrightarrow> prefix (m @ ''/'') r"

definition plain_mount :: "string \<Rightarrow> bool" where
  "plain_mount m \<longleftrightarrow> m \<noteq> [] \<and> last m \<noteq> CHR ''/'' \<and> \<not> one_char_leaf m \<and> length m < npos"

definition mount_above :: "string \<Rightarrow> string \<Rightarrow> mount_point list \<Rightarrow> mount_point option" where
  "mount_above path r mps = find (\<lambda>mp. path = mp_path mp \<or> is_under (mp_path mp) r) mps"

lemma find_mount_point_plain:
  assumes "\<forall>mp \<in> set mps. plain_mount (mp_path mp)" "length r < npos"
  shows "find_mount_point path r mps = Inr (case mount_above path r mps of None \<Rightarrow> []
     | Some mp \<Rightarrow> if path = mp_path mp then mp_path mp else mp_path mp @ ''/'')"
  using assms by (induction mps)
    (auto simp: mount_above_def plain_mount_def ends_with_slash starts_with_prefix is_under_def Let_def)

text \<open>C17. For mount points without a slash at the end and with a last component of two characters
  or more, the mount point of a path is the first one that is the path itself or a directory above the
  canonical path, and the empty text when there is none.\<close>
theorem mount_point_found:
  assumes "mc_mounts c = Some md" "md_mount_count md \<le> length (md_mounts md)" "path \<noteq> []"
    and "\<forall>mp \<in> set (take (md_mount_count md) (md_mounts md)). plain_mount (mp_path mp)"
    and "length (cannonical_path v path) < npos"
  shows "mc_get_mount_point v path c =
     (Inr (case mount_above path (cannonical_path v path) (take (md_mount_count md) (md_mounts md)) of
        None \<Rightarrow> [] | Some mp \<Rightarrow> if path = mp_path mp then path else mp_path mp @ ''/''), c)"
  using assms by (auto simp: mc_get_mount_point_def find_mount_point_plain split: option.splits)

definition demo_mount :: "string \<Rightarrow> int \<Rightarrow> mount_point" where
  "demo_mount path limit = zero_mount\<lparr>mp_path := path, mp_usage_limit := limit\<rparr>"

definition mount_demo_table :: "mount_point list \<Rightarrow> mount_data" where
  "mount_demo_table mps = \<lparr>md_version = (0, 1), md_mount_count = length mps, md_available_count = length mps, md_mounts = mps\<rparr>"

theorem mount_point_found_witness:
  "mc_get_mount_point (mount_demo_env 0 0) ''/ssd2/f''
     \<lparr>mc_mounts = Some (mount_demo_table [demo_mount ''/ssd'' 10, demo_mount ''/ssd2'' 10]), mc_map = None\<rparr>
   = (Inr ''/ssd2/'', \<lparr>mc_mounts = Some (mount_demo_table [demo_mount ''/ssd'' 10, demo_mount ''/ssd2'' 10]), mc_map = None\<rparr>)"
proof -
  have p: "plain_mount ''/ssd''" "plain_mount ''/ssd2''"
    by (auto simp: plain_mount_def one_char_leaf_def npos_def append_eq_Cons_conv Cons_eq_append_conv)
  show ?thesis
    by (subst mount_point_found [of _ "mount_demo_table [demo_mount ''/ssd'' 10, demo_mount ''/ssd2'' 10]"])
      (simp_all add: mount_demo_table_def demo_mount_def p cannonical_path_def mount_demo_env_def npos_def mount_above_def is_under_def)
qed

text \<open>A mount point whose last component is one character takes every path that begins with
  its text, those of other mount points among them; a mount point with a slash at the end takes no path below
  it.\<close>
theorem mount_point_confused:
  assumes "length r < npos" "path \<noteq> mp_path mp" "mp_path mp \<noteq> []" "length (mp_path mp) < npos"
  shows "(one_char_leaf (mp_path mp) \<and> prefix (mp_path mp) r \<longrightarrow> find_mount_point path r (mp # mps) = Inr (mp_path mp))
    \<and> (last (mp_path mp) = CHR ''/'' \<and> \<not> sublist ''//'' r \<longrightarrow> find_mount_point path r (mp # mps) = find_mount_point path r mps)"
proof -
  have "\<not> one_char_leaf (mp_path mp)" if "last (mp_path mp) = CHR ''/''"
    using that by (auto simp: one_char_leaf_def)
  moreover have "\<not> prefix (mp_path mp @ ''/'') r" if l: "last (mp_path mp) = CHR ''/''" "\<not> sublist ''//'' r"
  proof
    assume "prefix (mp_path mp @ ''/'') r"
    moreover have "mp_path mp @ ''/'' = butlast (mp_path mp) @ ''//''"
      using l(1) assms(3) by (metis append.assoc append_Cons append_Nil append_butlast_last_id)
    ultimately have "sublist ''//'' r"
      by (metis append.assoc prefixE sublist_appendI)
    then show False
      using l(2) by simp
  qed
  ultimately show ?thesis
    using assms by (simp add: ends_with_slash starts_with_prefix)
qed

theorem mount_point_confused_witness:
  "find_mount_point ''/m/ab/f'' ''/m/ab/f'' [demo_mount ''/m/a'' 10, demo_mount ''/m/ab'' 10] = Inr ''/m/a''
   \<and> find_mount_point ''/m/ab/f'' ''/m/ab/f'' [demo_mount ''/m/ab/'' 10] = Inr []"
proof -
  have "one_char_leaf ''/m/a''"
    by (auto simp: one_char_leaf_def append_eq_Cons_conv Cons_eq_append_conv)
  moreover have "\<not> sublist ''//'' ''/m/ab/f''"
    by (auto simp: sublist_def append_eq_Cons_conv Cons_eq_append_conv)
  ultimately show ?thesis
    using mount_point_confused [of "''/m/ab/f''" "''/m/ab/f''" "demo_mount ''/m/a'' 10" "[demo_mount ''/m/ab'' 10]"]
      mount_point_confused [of "''/m/ab/f''" "''/m/ab/f''" "demo_mount ''/m/ab/'' 10" "[]"]
    by (simp add: demo_mount_def npos_def del: find_mount_point.simps(2))
qed

end
