(* ===== verification/MountLedger.thy ===== *)
theory MountLedger
  imports MountProps
begin

section \<open>The space of the mount points\<close>

subsection \<open>The choice of a mount point\<close>

definition fits_mount :: "nat \<Rightarrow> mount_point \<Rightarrow> bool" where
  "fits_mount n mp \<longleftrightarrow> mp_state mp = MP_READ_WRITE \<and> n \<le> mount_available mp"

lemma next_mount_spec:
  "(\<forall>mp \<in> set mps. fits_mount n mp \<longrightarrow> score \<le> get_mount_usage rnd mp) \<and> next_mount rnd n mps score m = m
   \<or> (\<exists>mp \<in> set mps. fits_mount n mp \<and> get_mount_usage rnd mp < score \<and> next_mount rnd n mps score m = mp_path mp
       \<and> (\<forall>mp' \<in> set mps. fits_mount n mp' \<longrightarrow> get_mount_usage rnd mp \<le> get_mount_usage rnd mp'))"
proof (induction mps arbitrary: score m)
  case Nil
  then show ?case by simp
next
  case (Cons a mps)
  show ?case
  proof (cases "fits_mount n a \<and> get_mount_usage rnd a < score")
    case True
    then have "next_mount rnd n (a # mps) score m = next_mount rnd n mps (get_mount_usage rnd a) (mp_path a)"
      by (simp add: fits_mount_def Let_def)
    then show ?thesis
      using Cons.IH [of "get_mount_usage rnd a" "mp_path a"] True by (auto intro: less_imp_le order.strict_trans)
  next
    case False
    then have "next_mount rnd n (a # mps) score m = next_mount rnd n mps score m"
      by (auto simp: fits_mount_def Let_def)
    moreover have "score \<le> get_mount_usage rnd a" if "fits_mount n a"
      using False that by simp
    ultimately show ?thesis
      using Cons.IH [of score m] by (fastforce dest: less_imp_le)
  qed
qed

definition candidates :: "nat \<Rightarrow> mount_data \<Rightarrow> mount_point set" where
  "candidates n md = set (filter (fits_mount n) (take (md_mount_count md) (md_mounts md)))"

text \<open>C18. The mount point chosen for a block is one that is writable and has room for it, with the
  least usage score among those; there is none only when no such mount point has a score below the start
  value of the search.\<close>
theorem next_mount_best:
  assumes "mc_mounts c = Some md" "md_mount_count md \<le> length (md_mounts md)"
  shows "\<exists>m. mc_get_next_mount v n c = (Inr m, c)
     \<and> (m = [] \<and> (\<forall>mp \<in> candidates n md. mv_rnd v (2 ^ 64 - 1) \<le> get_mount_usage (mv_rnd v) mp)
        \<or> (\<exists>mp \<in> candidates n md. m = mp_path mp \<and> get_mount_usage (mv_rnd v) mp < mv_rnd v (2 ^ 64 - 1)
             \<and> (\<forall>mp' \<in> candidates n md. get_mount_usage (mv_rnd v) mp \<le> get_mount_usage (mv_rnd v) mp')))"
proof -
  let ?m = "next_mount (mv_rnd v) n (take (md_mount_count md) (md_mounts md)) (mv_rnd v (2 ^ 64 - 1)) []"
  have "mc_get_next_mount v n c = (Inr ?m, c)"
    using assms by (simp add: mc_get_next_mount_def on_mounts_def)
  then show ?thesis
    using next_mount_spec [of "take (md_mount_count md) (md_mounts md)" n "mv_rnd v (2 ^ 64 - 1)" "mv_rnd v" "[]"]
    unfolding candidates_def by (intro exI [of _ ?m]) auto
qed

theorem next_mount_best_witness:
  "mc_get_next_mount (mount_demo_env 0 0) 7 \<lparr>mc_mounts = Some (mount_demo_table [demo_mount ''/ssd'' 10,
       (demo_mount ''/hdd'' 10)\<lparr>mp_total_bytes_used := 4\<rparr>]), mc_map = None\<rparr>
   = (Inr ''/ssd'', \<lparr>mc_mounts = Some (mount_demo_table [demo_mount ''/ssd'' 10,
       (demo_mount ''/hdd'' 10)\<lparr>mp_total_bytes_used := 4\<rparr>]), mc_map = None\<rparr>)"
  (is "mc_get_next_mount _ _ ?c = _")
proof -
  let ?md = "mount_demo_table [demo_mount ''/ssd'' 10, (demo_mount ''/hdd'' 10)\<lparr>mp_total_bytes_used := 4\<rparr>]"
  have "candidates 7 ?md = {demo_mount ''/ssd'' 10}"
    by (simp add: candidates_def mount_demo_table_def demo_mount_def fits_mount_def mount_available_def sub64_def zero_mount_def)
  moreover have "get_mount_usage (mv_rnd (mount_demo_env 0 0)) (demo_mount ''/ssd'' 10) = 0"
    by (simp add: get_mount_usage_def mount_demo_env_def demo_mount_def zero_mount_def zero_metric_def Let_def
        over_mega_def over_giga_def io_rate_def)
  moreover have "mv_rnd (mount_demo_env 0 0) (2 ^ 64 - 1) = 2 ^ 64 - 1"
    by (simp add: mount_demo_env_def)
  moreover have "mp_path (demo_mount ''/ssd'' 10) = ''/ssd''"
    by (simp add: demo_mount_def)
  moreover have "mc_mounts ?c = Some ?md" "md_mount_count ?md \<le> length (md_mounts ?md)"
    by (simp_all add: mount_demo_table_def)
  ultimately show ?thesis
    using next_mount_best [of ?c ?md "mount_demo_env 0 0" 7] by fastforce
qed

subsection \<open>The ledger\<close>

text \<open>What the operations do to the table: an update touches the one record of the path.\<close>

definition md_set :: "mount_client \<Rightarrow> nat \<Rightarrow> mount_point \<Rightarrow> mount_client" where
  "md_set c i mp = c\<lparr>mc_mounts := map_option (\<lambda>md. md\<lparr>md_mounts := (md_mounts md)[i := mp]\<rparr>) (mc_mounts c)\<rparr>"

definition mc_at :: "mount_client \<Rightarrow> nat \<Rightarrow> mount_point \<Rightarrow> bool" where
  "mc_at c i mp \<longleftrightarrow> (\<exists>md. mc_mounts c = Some md \<and> i < length (md_mounts md) \<and> mp = md_mounts md ! i)"

lemma mc_mount_state: "mc_mount i c = (r, c') \<Longrightarrow> c' = c \<and> (\<forall>mp. r = Inr mp \<longrightarrow> mc_at c i mp)"
  by (auto simp: mc_mount_def on_mounts_def md_get_def mc_at_def split: option.splits if_splits)

lemma mc_mount_at: "mc_at c i mp \<Longrightarrow> mc_mount i c = (Inr mp, c)"
  by (auto simp: mc_mount_def on_mounts_def md_get_def mc_at_def)

lemma mc_locate_state:
  assumes "mc_locate v path c = (r, c')"
  shows "c' = c \<and> (\<forall>m i mp. r = Inr (m, i, mp) \<longrightarrow> mc_at c i mp)"
  using assms
  by (auto simp: mc_locate_def c_bind_def mc_get_mount_point_def on_mount_map_def mc_mount_count_def on_mounts_def c_get_def c_throw_def
      c_ret_def mc_mount_def md_get_def mc_at_def split: prod.splits sum.splits option.splits if_splits)

lemma mc_update_at: "mc_at c i mp \<Longrightarrow> mc_update i f c = (fst (f mp), md_set c i (snd (f mp)))"
  by (auto simp: mc_update_def c_bind_def mc_mount_at on_mounts_def md_put_def mc_at_def md_set_def split: prod.splits)

lemma is_writable_at: "mc_at c i mp \<Longrightarrow> is_writable i c = (Inr (mp_state mp = MP_READ_WRITE), c)"
  by (simp add: is_writable_def c_bind_def mc_mount_at c_ret_def)

lemma is_readable_at:
  "mc_at c i mp \<Longrightarrow> is_readable i c = (Inr (mp_state mp = MP_READ_ONLY \<or> mp_state mp = MP_READ_WRITE), c)"
  by (simp add: is_readable_def c_bind_def mc_mount_at c_ret_def)

lemma mc_lock_state: "mc_get_mount_lock m c = (r, c') \<Longrightarrow> c' = c"
  by (auto simp: mc_get_mount_lock_def split: option.splits sum.splits)

lemma can_create_state:
  assumes "mc_can_create_block v path n c = (r, c')"
  shows "c' = c \<and> (r = Inr True \<longrightarrow> (\<exists>m i mp. mc_locate v path c = (Inr (m, i, mp), c) \<and> mc_at c i mp
     \<and> mp_usage_limit mp > 0 \<and> n \<le> mount_available mp))"
proof (cases "mc_locate v path c")
  case (Pair r0 c0)
  from mc_locate_state [OF this] Pair assms show ?thesis
    by (auto simp: mc_can_create_block_def c_bind_def is_writable_at c_throw_def c_ret_def
        split: sum.splits if_splits)
qed

text \<open>\<open>reserve\<close>, \<open>release\<close> and the updates of the counters, each by what it does to one record.\<close>

lemma reserve_cases:
  assumes "mc_reserve_block v path n c = (r, c')"
  obtains (no) "r \<noteq> Inr True" "c' = c"
    | (yes) m i mp where "r = Inr True" "mc_locate v path c = (Inr (m, i, mp), c)" "mc_at c i mp"
        "mp_usage_limit mp > 0" "n \<le> mount_available mp" "c' = md_set c i (snd (reserve_bytes n mp))"
proof (cases "mc_locate v path c")
  case (Pair r0 c0)
  note pr = that
  note l = mc_locate_state [OF Pair]
  show ?thesis
  proof (cases "\<exists>m i mp. r0 = Inr (m, i, mp)")
    case True
    then obtain m i mp where r0: "r0 = Inr (m, i, mp)" by blast
    then have at: "mc_at c i mp" and loc: "mc_locate v path c = (Inr (m, i, mp), c)"
      using l Pair by simp_all
    obtain rl cl where lk: "mc_get_mount_lock m c = (rl, cl)" by fastforce
    obtain rc cc where cn: "mc_can_create_block v path n c = (rc, cc)" by fastforce
    show ?thesis
    proof (cases "r = Inr True")
      case True
      then show ?thesis
        using assms loc at mc_lock_state [OF lk] can_create_state [OF cn] lk cn
        by (intro pr(2) [of m i mp])
          (auto simp: mc_reserve_block_def c_bind_def is_writable_at c_ret_def c_when_def mc_update_at split: if_splits sum.splits)
    next
      case False
      then show ?thesis
        using assms loc at mc_lock_state [OF lk] can_create_state [OF cn] lk cn
        by (intro pr(1))
          (auto simp: mc_reserve_block_def c_bind_def is_writable_at c_ret_def c_when_def mc_update_at reserve_bytes_def c_mod_def
            split: if_splits sum.splits)
    qed
  next
    case False
    then show ?thesis
      using assms Pair l by (intro pr(1)) (auto simp: mc_reserve_block_def c_bind_def split: sum.splits)
  qed
qed

lemma locate_then:
  assumes "c_bind (mc_locate v path) (\<lambda>(m, i, mp). k m i mp) c = (r, c')"
  obtains (no) e where "mc_locate v path c = (Inl e, c)" "r = Inl e" "c' = c"
    | (yes) m i mp where "mc_locate v path c = (Inr (m, i, mp), c)" "mc_at c i mp" "k m i mp c = (r, c')"
proof (cases "mc_locate v path c")
  case (Pair r0 c0)
  with mc_locate_state [OF Pair] assms that show ?thesis
    by (auto simp: c_bind_def split: sum.splits)
qed

lemma release_cases:
  assumes "mc_release_block v path n c = (r, c')"
  obtains (no) "r \<noteq> Inr ()" "c' = c"
    | (yes) m i mp where "r = Inr ()" "mc_locate v path c = (Inr (m, i, mp), c)" "mc_at c i mp"
        "c' = md_set c i (snd (release_bytes n mp))"
  using assms unfolding mc_release_block_def
proof (cases rule: locate_then)
  case no
  then show ?thesis by (intro that(1)) simp_all
next
  case (yes m i mp)
  obtain rl cl where lk: "mc_get_mount_lock m c = (rl, cl)" by fastforce
  with mc_lock_state [OF lk] yes that show ?thesis
    by (auto simp: c_bind_def mc_update_at release_bytes_def c_mod_def split: sum.splits)
qed

text \<open>The counters of bytes and blocks are what the ledger is about; an update of the usage keeps them.\<close>

definition same_space :: "mount_point \<Rightarrow> mount_point \<Rightarrow> bool" where
  "same_space mp mp' \<longleftrightarrow> mp_total_bytes_used mp' = mp_total_bytes_used mp \<and> mp_total_blocks mp' = mp_total_blocks mp
     \<and> mp_usage_limit mp' = mp_usage_limit mp"

definition kept_space :: "mount_client \<Rightarrow> mount_client \<Rightarrow> bool" where
  "kept_space c c' \<longleftrightarrow> c' = c \<or> (\<exists>i mp mp'. mc_at c i mp \<and> same_space mp mp' \<and> c' = md_set c i mp')"

lemma read_metrics_space:
  assumes "mc_update_read_metrics v got path n t c = (r, c')"
  shows "kept_space c c'"
  using assms unfolding mc_update_read_metrics_def
proof (cases rule: locate_then)
  case (yes m i mp)
  obtain rl cl where lk: "mc_get_mount_lock m c = (rl, cl)" by fastforce
  have "same_space mp (snd (add_bytes_read v n t mp))"
    by (auto simp: same_space_def add_bytes_read_def Let_def split: prod.splits)
  with yes mc_lock_state [OF lk] lk show ?thesis
    by (auto simp: kept_space_def c_bind_def is_readable_at c_when_def c_ret_def c_check_def mc_update_at
        split: sum.splits if_splits)
qed (simp add: kept_space_def)

lemma write_metrics_space:
  assumes "mc_update_write_metrics v got path n t c = (r, c')"
  shows "kept_space c c'"
  using assms unfolding mc_update_write_metrics_def
proof (cases rule: locate_then)
  case (yes m i mp)
  obtain rl cl where lk: "mc_get_mount_lock m c = (rl, cl)" by fastforce
  have "same_space mp (snd (add_bytes_written v n t mp))"
    by (auto simp: same_space_def add_bytes_written_def Let_def split: prod.splits)
  with yes mc_lock_state [OF lk] lk show ?thesis
    by (auto simp: kept_space_def c_bind_def is_writable_at c_when_def c_ret_def c_check_def mc_update_at
        split: sum.splits if_splits)
qed (simp add: kept_space_def)

text \<open>
  The processes act on one table, each with a map of its own; \<open>out\<close> is the list of the reservations that
  are still held, each the index of a mount point and a size. A process gives back what was reserved.
\<close>

definition client_of :: "mount_data \<Rightarrow> mount_map \<Rightarrow> mount_client" where
  "client_of md mm = \<lparr>mc_mounts = Some md, mc_map = Some mm\<rparr>"

inductive mount_step :: "mount_data \<times> (nat \<times> nat) list \<Rightarrow> mount_data \<times> (nat \<times> nat) list \<Rightarrow> bool" where
  reserve: "mc_locate v path (client_of md mm) = (Inr (m, i, mp), c0) \<Longrightarrow>
     mc_reserve_block v path n (client_of md mm) = (Inr True, c') \<Longrightarrow> mc_mounts c' = Some md' \<Longrightarrow>
     mount_step (md, out) (md', (i, n) # out)"
| refused: "mc_reserve_block v path n (client_of md mm) = (r, c') \<Longrightarrow> r \<noteq> Inr True \<Longrightarrow> mc_mounts c' = Some md' \<Longrightarrow>
     mount_step (md, out) (md', out)"
| release: "mc_locate v path (client_of md mm) = (Inr (m, i, mp), c0) \<Longrightarrow> (i, n) \<in> set out \<Longrightarrow>
     mc_release_block v path n (client_of md mm) = (Inr (), c') \<Longrightarrow> mc_mounts c' = Some md' \<Longrightarrow>
     mount_step (md, out) (md', remove1 (i, n) out)"
| not_released: "mc_release_block v path n (client_of md mm) = (Inl e, c') \<Longrightarrow> mc_mounts c' = Some md' \<Longrightarrow>
     mount_step (md, out) (md', out)"
| was_read: "mc_update_read_metrics v got path n t (client_of md mm) = (r, c') \<Longrightarrow> mc_mounts c' = Some md' \<Longrightarrow>
     mount_step (md, out) (md', out)"
| was_written: "mc_update_write_metrics v got path n t (client_of md mm) = (r, c') \<Longrightarrow> mc_mounts c' = Some md' \<Longrightarrow>
     mount_step (md, out) (md', out)"

definition held :: "nat \<Rightarrow> (nat \<times> nat) list \<Rightarrow> nat list" where
  "held i out = map snd (filter (\<lambda>e. fst e = i) out)"

definition ledger_ok :: "int list \<Rightarrow> mount_data \<Rightarrow> (nat \<times> nat) list \<Rightarrow> bool" where
  "ledger_ok limits md out \<longleftrightarrow> map mp_usage_limit (md_mounts md) = limits
     \<and> (\<forall>i < length (md_mounts md). let mp = md_mounts md ! i in
          mp_total_bytes_used mp = sum_list (held i out) \<and> int (sum_list (held i out)) \<le> max 0 (limits ! i)
          \<and> mp_total_blocks mp = length (held i out) mod 2 ^ 32)"

lemma ledger_kept:
  assumes "ledger_ok ls md out" "kept_space (client_of md mm) c'" "mc_mounts c' = Some md'"
  shows "ledger_ok ls md' out"
  using assms
  by (auto simp: kept_space_def client_of_def mc_at_def md_set_def ledger_ok_def same_space_def Let_def nth_list_update
      map_update intro!: list_update_same_conv [THEN iffD2])

lemma held_cons: "held i ((j, n) # out) = (if i = j then n # held i out else held i out)"
  by (simp add: held_def)

lemma held_remove:
  assumes "(j, n) \<in> set out"
  shows "sum_list (held i (remove1 (j, n) out)) + (if i = j then n else 0) = sum_list (held i out)"
    "length (held i (remove1 (j, n) out)) + (if i = j then 1 else 0) = length (held i out)"
  using assms by (induction out) (auto simp: held_def)

lemma ledger_at:
  assumes "ledger_ok ls md out" "i < length (md_mounts md)"
  shows "mp_total_bytes_used (md_mounts md ! i) = sum_list (held i out)"
    "int (sum_list (held i out)) \<le> max 0 (mp_usage_limit (md_mounts md ! i))"
    "mp_total_blocks (md_mounts md ! i) = length (held i out) mod 2 ^ 32"
  using assms by (auto simp: ledger_ok_def Let_def)

text \<open>To show the ledger after one record was replaced.\<close>

lemma ledger_set:
  assumes "ledger_ok ls md out" "mc_at (client_of md mm) i mp" "mc_mounts (md_set (client_of md mm) i mp') = Some md'"
    and "mp_usage_limit mp' = mp_usage_limit mp"
    and "mp_total_bytes_used mp' = sum_list (held i out')" "int (sum_list (held i out')) \<le> max 0 (mp_usage_limit mp)"
    and "mp_total_blocks mp' = length (held i out') mod 2 ^ 32"
    and "\<And>j. j \<noteq> i \<Longrightarrow> held j out' = held j out"
  shows "ledger_ok ls md' out'"
proof -
  have md': "md' = md\<lparr>md_mounts := (md_mounts md)[i := mp']\<rparr>" and i: "i < length (md_mounts md)" "mp = md_mounts md ! i"
    using assms(2,3) by (auto simp: client_of_def mc_at_def md_set_def)
  have "map mp_usage_limit (md_mounts md') = ls"
    using assms(1,4) md' i by (auto simp: ledger_ok_def map_update intro!: list_update_same_conv [THEN iffD2])
  moreover have "ls ! i = mp_usage_limit mp"
    using assms(1) i by (auto simp: ledger_ok_def)
  ultimately show ?thesis
    using assms md' i by (auto simp: ledger_ok_def Let_def nth_list_update)
qed

lemma ledger_reserve:
  assumes ok: "ledger_ok ls md out" and lim: "\<forall>l \<in> set ls. l < 2 ^ 63"
    and at: "mc_at (client_of md mm) i mp" and pos: "mp_usage_limit mp > 0" and n: "n \<le> mount_available mp"
    and md': "mc_mounts (md_set (client_of md mm) i (snd (reserve_bytes n mp))) = Some md'"
  shows "ledger_ok ls md' ((i, n) # out)"
proof (rule ledger_set [OF ok at md'])
  have i: "i < length (md_mounts md)" "mp = md_mounts md ! i"
    using at by (auto simp: client_of_def mc_at_def)
  then have l63: "mp_usage_limit mp < 2 ^ 63"
    using ok lim by (auto simp: ledger_ok_def)
  note u = ledger_at [OF ok i(1), folded i(2)]
  have "nat (mp_usage_limit mp mod 2 ^ 64) = nat (mp_usage_limit mp)"
    using pos l63 by (simp add: mod_pos_pos_trivial)
  then have "mount_available mp = nat (mp_usage_limit mp) - mp_total_bytes_used mp"
    using u pos l63 by (simp add: mount_available_def) (subst sub64_le, auto)
  then have sum: "int (sum_list (held i out) + n) \<le> mp_usage_limit mp"
    using n u pos by linarith
  show "mp_usage_limit (snd (reserve_bytes n mp)) = mp_usage_limit mp"
    by (simp add: reserve_bytes_def c_mod_def)
  show "int (sum_list (held i ((i, n) # out))) \<le> max 0 (mp_usage_limit mp)"
    using sum by (simp add: held_cons)
  have "sum_list (held i out) + n < 2 ^ 64"
    using sum l63 by simp
  then show "mp_total_bytes_used (snd (reserve_bytes n mp)) = sum_list (held i ((i, n) # out))"
    using u by (simp add: reserve_bytes_def c_mod_def held_cons add64_small)
  show "mp_total_blocks (snd (reserve_bytes n mp)) = length (held i ((i, n) # out)) mod 2 ^ 32"
    using u by (simp add: reserve_bytes_def c_mod_def held_cons mod_Suc_eq)
  show "\<And>j. j \<noteq> i \<Longrightarrow> held j ((i, n) # out) = held j out"
    by (simp add: held_cons)
qed

lemma ledger_release:
  assumes ok: "ledger_ok ls md out" and lim: "\<forall>l \<in> set ls. l < 2 ^ 63"
    and at: "mc_at (client_of md mm) i mp" and mem: "(i, n) \<in> set out"
    and md': "mc_mounts (md_set (client_of md mm) i (snd (release_bytes n mp))) = Some md'"
  shows "ledger_ok ls md' (remove1 (i, n) out)"
proof (rule ledger_set [OF ok at md'])
  have i: "i < length (md_mounts md)" "mp = md_mounts md ! i"
    using at by (auto simp: client_of_def mc_at_def)
  then have l63: "mp_usage_limit mp < 2 ^ 63"
    using ok lim by (auto simp: ledger_ok_def)
  note u = ledger_at [OF ok i(1), folded i(2)] and h = held_remove [OF mem, of i, simplified]
  show "mp_usage_limit (snd (release_bytes n mp)) = mp_usage_limit mp"
    by (simp add: release_bytes_def c_mod_def)
  show "int (sum_list (held i (remove1 (i, n) out))) \<le> max 0 (mp_usage_limit mp)"
    using u h by linarith
  have "k < 2 ^ 64" if "int k \<le> max 0 l" "l < 2 ^ 63" for k l
    using that by (simp add: max_def split: if_splits)
  then have "mp_total_bytes_used mp < 2 ^ 64"
    using u(1,2) l63 by simp
  then show "mp_total_bytes_used (snd (release_bytes n mp)) = sum_list (held i (remove1 (i, n) out))"
    using u h by (simp add: release_bytes_def c_mod_def sub64_le)
  have "(Suc k mod 2 ^ 32 + (2 ^ 32 - 1)) mod 2 ^ 32 = k mod 2 ^ 32" for k :: nat
    by (metis (no_types, lifting) Suc_diff_1 Suc_eq_plus1_left add.assoc add.commute mod_add_left_eq mod_add_self2 pos2 zero_less_power)
  moreover have "mp_total_blocks mp = Suc (length (held i (remove1 (i, n) out))) mod 2 ^ 32"
    by (metis u(3) h(2))
  ultimately show "mp_total_blocks (snd (release_bytes n mp)) = length (held i (remove1 (i, n) out)) mod 2 ^ 32"
    by (simp only: release_bytes_def c_mod_def snd_conv) simp
  show "\<And>j. j \<noteq> i \<Longrightarrow> held j (remove1 (i, n) out) = held j out"
    using mem by (simp add: held_def filter_remove1)
qed

lemma ledger_step:
  assumes "mount_step s s'" "ledger_ok ls (fst s) (snd s)" "\<forall>l \<in> set ls. l < 2 ^ 63"
  shows "ledger_ok ls (fst s') (snd s')"
  using assms
proof (cases rule: mount_step.cases)
  case (reserve v path md mm m i mp c0 n c' md' out)
  from reserve(4) show ?thesis
  proof (cases rule: reserve_cases)
    case (yes m1 i1 mp1)
    with reserve assms(2,3) show ?thesis
      by (auto intro: ledger_reserve)
  qed simp
next
  case (refused v path n md mm r c' md' out)
  from refused(3) show ?thesis
    by (cases rule: reserve_cases) (use refused assms(2) in \<open>auto simp: client_of_def\<close>)
next
  case (release v path md mm m i mp c0 n out c' md')
  from release(5) show ?thesis
  proof (cases rule: release_cases)
    case (yes m1 i1 mp1)
    with release assms(2,3) show ?thesis
      by (auto intro: ledger_release)
  qed simp
next
  case (not_released v path n md mm e c' md' out)
  from not_released(3) show ?thesis
    by (cases rule: release_cases) (use not_released assms(2) in \<open>auto simp: client_of_def\<close>)
next
  case (was_read v got path n t md mm r c' md' out)
  then show ?thesis
    using ledger_kept [OF _ read_metrics_space] assms(2) by auto
next
  case (was_written v got path n t md mm r c' md' out)
  then show ?thesis
    using ledger_kept [OF _ write_metrics_space] assms(2) by auto
qed

lemma ledger_run:
  assumes "mount_step\<^sup>*\<^sup>* s s'" "ledger_ok ls (fst s) (snd s)" "\<forall>l \<in> set ls. l < 2 ^ 63"
  shows "ledger_ok ls (fst s') (snd s')"
  using assms(1) by (induction rule: rtranclp_induct) (use assms ledger_step in blast)+


definition demo_map :: mount_map where
  "demo_map = \<lparr>mm_locks = [''m_/ssd_0/'' \<mapsto> ''m_/ssd_0''], mm_index = [''/ssd/'' \<mapsto> 0]\<rparr>"

definition demo_ssd :: "nat \<Rightarrow> nat \<Rightarrow> mount_data" where
  "demo_ssd used blocks = mount_demo_table [(demo_mount ''/ssd'' 10)\<lparr>mp_lock_name := ''m_/ssd_0'',
     mp_total_bytes_used := used, mp_total_blocks := blocks\<rparr>]"

lemma demo_ssd_at: "mc_at (client_of (demo_ssd u b) demo_map) 0 (md_mounts (demo_ssd u b) ! 0)"
  by (simp add: mc_at_def client_of_def demo_ssd_def mount_demo_table_def)

lemma demo_ssd_locate:
  "mc_locate (mount_demo_env 0 0) ''/ssd'' (client_of (demo_ssd u b) demo_map)
     = (Inr (''/ssd'', 0, md_mounts (demo_ssd u b) ! 0), client_of (demo_ssd u b) demo_map)"
proof -
  have "mc_get_mount_point (mount_demo_env 0 0) ''/ssd'' (client_of (demo_ssd u b) demo_map) = (Inr ''/ssd'', client_of (demo_ssd u b) demo_map)"
    by (simp add: mc_get_mount_point_def client_of_def demo_ssd_def mount_demo_table_def demo_mount_def)
  then show ?thesis
    by (simp add: mc_locate_def c_bind_def on_mount_map_def get_mount_index_def with_slash_def demo_map_def client_of_def
        mc_mount_count_def on_mounts_def c_get_def c_ret_def mc_mount_def md_get_def demo_ssd_def mount_demo_table_def)
qed

lemma demo_ssd_reserve:
  "mc_reserve_block (mount_demo_env 0 0) ''/ssd'' 4 (client_of (demo_ssd 0 0) demo_map) = (Inr True, client_of (demo_ssd 4 1) demo_map)"
proof -
  have lk: "mc_get_mount_lock ''/ssd'' (client_of (demo_ssd 0 0) demo_map) = (Inr ''m_/ssd_0'', client_of (demo_ssd 0 0) demo_map)"
    by (simp add: mc_get_mount_lock_def client_of_def get_mount_lock_def e_bind_def get_mount_index_def with_slash_def demo_map_def
        demo_ssd_def mount_demo_table_def demo_mount_def zero_mount_def find_mount_lock_def)
  have mp: "mp_state (md_mounts (demo_ssd 0 0) ! 0) = MP_READ_WRITE" "mp_usage_limit (md_mounts (demo_ssd 0 0) ! 0) = 10"
    "mp_path (md_mounts (demo_ssd 0 0) ! 0) = ''/ssd''" "mount_available (md_mounts (demo_ssd 0 0) ! 0) = 10"
    by (simp_all add: demo_ssd_def mount_demo_table_def demo_mount_def zero_mount_def mount_available_def sub64_def)
  have can: "mc_can_create_block (mount_demo_env 0 0) ''/ssd'' 4 (client_of (demo_ssd 0 0) demo_map) = (Inr True, client_of (demo_ssd 0 0) demo_map)"
    by (simp add: mc_can_create_block_def c_bind_def demo_ssd_locate is_writable_at [OF demo_ssd_at] mp get_free_space_def c_ret_def)
      (simp add: mount_demo_env_def c_ret_def mp)
  have "md_set (client_of (demo_ssd 0 0) demo_map) 0 (snd (reserve_bytes 4 (md_mounts (demo_ssd 0 0) ! 0))) = client_of (demo_ssd 4 1) demo_map"
    by (simp add: md_set_def client_of_def reserve_bytes_def c_mod_def demo_ssd_def mount_demo_table_def add64_def)
  then show ?thesis
    by (simp add: mc_reserve_block_def c_bind_def demo_ssd_locate is_writable_at [OF demo_ssd_at] mp lk can c_when_def
        mc_update_at [OF demo_ssd_at] c_ret_def) (simp add: reserve_bytes_def c_mod_def c_ret_def)
qed


end
