(* ===== verification/MountSetup.thy ===== *)
theory MountSetup
  imports MountLedger
begin

section \<open>Setting up the mount points\<close>

text \<open>
  From the definitions of the configuration through the manager to the map of a client, and what a second
  load does.
\<close>

subsection \<open>Lock names\<close>

lemma dec_text_digits: "c \<in> set (dec_text n) \<Longrightarrow> 48 \<le> (of_char c :: nat) \<and> (of_char c :: nat) \<le> 57"
proof (induction n rule: dec_text.induct)
  case (1 n)
  then show ?case
    by (cases "n < 10") (auto simp: dec_text.simps [of n])
qed

lemma dec_text_value: "foldl (\<lambda>a c. 10 * a + (of_char c - 48)) 0 (dec_text n) = n"
proof (induction n rule: dec_text.induct)
  case (1 n)
  then show ?case
    by (cases "n < 10") (auto simp: dec_text.simps [of n])
qed

lemma dec_text_inj: "dec_text m = dec_text n \<Longrightarrow> m = n"
  by (metis dec_text_value)

lemma dec_text_nonempty: "dec_text n \<noteq> []"
  by (subst dec_text.simps) simp

lemma get_lock_name_inj:
  assumes "get_lock_name mp i = get_lock_name mp' j"
  shows "i = j"
proof -
  have no: "CHR ''_'' \<notin> set (dec_text n)" for n
    using dec_text_digits [of "CHR ''_''" n] by auto
  have tail: "takeWhile (\<lambda>c. c \<noteq> CHR ''_'') (rev (get_lock_name mp k)) = rev (dec_text k)" for mp k
  proof -
    obtain pre where "get_lock_name mp k = pre @ CHR ''_'' # dec_text k"
      by (auto simp: get_lock_name_def Let_def)
    moreover have "takeWhile (\<lambda>c. c \<noteq> CHR ''_'') (rev (dec_text k) @ CHR ''_'' # rev pre)
        = rev (dec_text k) @ takeWhile (\<lambda>c. c \<noteq> CHR ''_'') (CHR ''_'' # rev pre)"
      by (rule takeWhile_append2) (use no [of k] in auto)
    ultimately show ?thesis by simp
  qed
  have "rev (dec_text i) = rev (dec_text j)"
    using tail [of mp i] tail [of mp' j] assms by simp
  then show ?thesis
    by (simp add: dec_text_inj)
qed

lemma with_slash_lock: "with_slash (get_lock_name mp i) = get_lock_name mp i @ ''/''"
proof -
  have "last (get_lock_name mp i) \<in> set (dec_text i)"
    by (simp add: get_lock_name_def Let_def dec_text_nonempty)
  then show ?thesis
    using dec_text_digits [of "last (get_lock_name mp i)" i] by (auto simp: with_slash_def)
qed

lemma get_lock_name_nonempty [simp]: "get_lock_name mp i \<noteq> []"
  by (simp add: get_lock_name_def Let_def)

subsection \<open>The client's map\<close>

definition mount_named :: "mount_data \<Rightarrow> nat \<Rightarrow> bool" where
  "mount_named md i \<longleftrightarrow> i < length (md_mounts md) \<and> mp_state (md_mounts md ! i) \<noteq> MP_UNAVAILABLE
     \<and> mp_path (md_mounts md ! i) \<noteq> [] \<and> mp_lock_name (md_mounts md ! i) = get_lock_name (md_mounts md ! i) i"

abbreviation path_key :: "mount_data \<Rightarrow> nat \<Rightarrow> string" where
  "path_key md i \<equiv> with_slash (mp_path (md_mounts md ! i))"

abbreviation lock_key :: "mount_data \<Rightarrow> nat \<Rightarrow> string" where
  "lock_key md i \<equiv> with_slash (mp_lock_name (md_mounts md ! i))"

definition map_has :: "mount_data \<Rightarrow> mount_map \<Rightarrow> nat \<Rightarrow> bool" where
  "map_has md mm i \<longleftrightarrow> mm_index mm (path_key md i) = Some i \<and> mm_locks mm (lock_key md i) = Some (mp_lock_name (md_mounts md ! i))"

lemma lock_keys_differ: "mount_named md i \<Longrightarrow> mount_named md j \<Longrightarrow> i \<noteq> j \<Longrightarrow> lock_key md i \<noteq> lock_key md j"
  by (auto simp: mount_named_def with_slash_lock dest: get_lock_name_inj)

definition entered :: "mount_data \<Rightarrow> nat \<Rightarrow> mount_map \<Rightarrow> mount_map" where
  "entered md i mm = \<lparr>mm_locks = map_insert (lock_key md i) (mp_lock_name (md_mounts md ! i)) (mm_locks mm),
     mm_index = map_insert (path_key md i) i (mm_index mm)\<rparr>"

lemma init_mount_enters:
  assumes "mc_mounts c = Some md" "mc_map c = Some mm" "mount_named md i"
  shows "init_mount i c = (Inr (), c\<lparr>mc_map := Some (entered md i mm)\<rparr>)"
  using assms
  by (simp add: init_mount_def mount_named_def cmd_simps c_bind_def mc_mount_def on_mounts_def md_get_def on_mount_map_def
      add_mount_lock_def add_mount_index_def entered_def)

lemma init_mounts_enter:
  assumes "mc_mounts c = Some md" "mc_map c = Some mm" "\<forall>i \<in> set is. mount_named md i"
    and "distinct is" "inj_on (path_key md) (set is)"
    and "\<forall>i \<in> set is. mm_index mm (path_key md i) = None \<and> mm_locks mm (lock_key md i) = None"
  shows "\<exists>mm'. init_mounts is c = (Inr (), c\<lparr>mc_map := Some mm'\<rparr>) \<and> (\<forall>i \<in> set is. map_has md mm' i)
     \<and> (\<forall>k. k \<notin> path_key md ` set is \<longrightarrow> mm_index mm' k = mm_index mm k)
     \<and> (\<forall>k. k \<notin> lock_key md ` set is \<longrightarrow> mm_locks mm' k = mm_locks mm k)"
  using assms
proof (induction "is" arbitrary: c mm)
  case Nil
  then show ?case
    by (auto simp: c_ret_def intro!: exI [of _ mm])
next
  case (Cons i js)
  let ?mm = "entered md i mm" and ?c = "c\<lparr>mc_map := Some (entered md i mm)\<rparr>"
  have new: "mm_index ?mm = (mm_index mm)(path_key md i \<mapsto> i)"
    "mm_locks ?mm = (mm_locks mm)(lock_key md i \<mapsto> mp_lock_name (md_mounts md ! i))"
    using Cons.prems by (simp_all add: entered_def map_insert_def)
  have apart: "path_key md i \<notin> path_key md ` set js" "lock_key md i \<notin> lock_key md ` set js"
    using Cons.prems lock_keys_differ [of md i] by (fastforce simp: inj_on_def)+
  have free: "\<forall>j \<in> set js. mm_index ?mm (path_key md j) = None \<and> mm_locks ?mm (lock_key md j) = None"
  proof
    fix j
    assume j: "j \<in> set js"
    then have "path_key md j \<noteq> path_key md i" "lock_key md j \<noteq> lock_key md i"
      using apart by (metis imageI)+
    then show "mm_index ?mm (path_key md j) = None \<and> mm_locks ?mm (lock_key md j) = None"
      using Cons.prems(6) j new by simp
  qed
  obtain mm' where ih: "init_mounts js ?c = (Inr (), ?c\<lparr>mc_map := Some mm'\<rparr>)" "\<forall>i \<in> set js. map_has md mm' i"
    "\<forall>k. k \<notin> path_key md ` set js \<longrightarrow> mm_index mm' k = mm_index ?mm k"
    "\<forall>k. k \<notin> lock_key md ` set js \<longrightarrow> mm_locks mm' k = mm_locks ?mm k"
    using Cons.IH [of ?c ?mm] Cons.prems free by auto
  have "init_mounts (i # js) c = (Inr (), c\<lparr>mc_map := Some mm'\<rparr>)"
    using init_mount_enters [of c md mm i] Cons.prems ih(1) by (simp add: c_bind_def)
  moreover have "map_has md mm' i"
    using ih(3,4) apart new by (auto simp: map_has_def)
  ultimately show ?case
    using ih(2-4) new by (intro exI [of _ mm']) auto
qed

subsection \<open>load and load_finished\<close>

definition started_limit :: "mount_env \<Rightarrow> mount_point \<Rightarrow> int" where
  "started_limit v mp = (if mp_usage_limit mp < 0
     then (case get_free_space v (mp_path mp) of Inr n \<Rightarrow> if n > 0 then signed64 n else mp_usage_limit mp
           | Inl _ \<Rightarrow> mp_usage_limit mp)
     else mp_usage_limit mp)"

definition started :: "mount_env \<Rightarrow> nat \<Rightarrow> mount_point \<Rightarrow> mount_point" where
  "started v i mp = mp\<lparr>mp_lock_name := get_lock_name mp i, mp_usage_limit := started_limit v mp\<rparr>"

definition startable :: "mount_env \<Rightarrow> mount_point \<Rightarrow> bool" where
  "startable v mp \<longleftrightarrow> mp_state mp \<noteq> MP_UNAVAILABLE \<and> mp_path mp \<noteq> [] \<and> (mp_usage_limit mp < 0 \<longrightarrow> mv_free v (mp_path mp) \<noteq> None)"

lemma start_mount_table:
  assumes "mc_mounts c = Some md" "mc_map c = Some mm" "i < length (md_mounts md)" "startable v (md_mounts md ! i)"
  shows "\<exists>mm'. start_mount v i c = (Inr (), c\<lparr>mc_mounts := Some (md\<lparr>md_mounts := (md_mounts md)[i := started v i (md_mounts md ! i)]\<rparr>), mc_map := Some mm'\<rparr>)"
proof -
  let ?mp = "md_mounts md ! i"
  have "\<exists>mm'. c_bind (on_mount_map (add_mount_lock (get_lock_name ?mp i) (get_lock_name ?mp i))) (\<lambda>_. on_mount_map (add_mount_index (mp_path ?mp) i)) c1
      = (Inr (), c1\<lparr>mc_map := Some mm'\<rparr>)" if "mc_map c1 = Some mm" for c1
    using that assms(4) by (auto simp: c_bind_def on_mount_map_def add_mount_lock_def add_mount_index_def cmd_simps startable_def)
  then obtain f where f: "\<And>c1. mc_map c1 = Some mm \<Longrightarrow>
      c_bind (on_mount_map (add_mount_lock (get_lock_name ?mp i) (get_lock_name ?mp i))) (\<lambda>_. on_mount_map (add_mount_index (mp_path ?mp) i)) c1
      = (Inr (), c1\<lparr>mc_map := Some (f c1)\<rparr>)"
    by metis
  show ?thesis
    using assms f
    by (cases "mv_free v (mp_path ?mp)")
      (auto simp: start_mount_def c_bind_assoc c_bind_def [of "mc_mount i"] mc_mount_def on_mounts_def md_get_def md_put_def Let_def
        startable_def started_def started_limit_def get_free_space_def cmd_simps c_bind_def [of "\<lambda>c. case mc_mounts c of None \<Rightarrow> (Inl Mem_fault, c) | Some m \<Rightarrow> f m" for f])
qed

lemma start_mounts_table:
  assumes "mc_mounts c = Some md" "mc_map c = Some mm" "distinct is"
    and "\<forall>i \<in> set is. i < length (md_mounts md) \<and> startable v (md_mounts md ! i)"
  shows "\<exists>c' md'. start_mounts v is c = (Inr (), c') \<and> mc_mounts c' = Some md' \<and> md_mount_count md' = md_mount_count md
     \<and> length (md_mounts md') = length (md_mounts md)
     \<and> (\<forall>j < length (md_mounts md). md_mounts md' ! j = (if j \<in> set is then started v j (md_mounts md ! j) else md_mounts md ! j))"
  using assms
proof (induction "is" arbitrary: c md mm)
  case Nil
  then show ?case by (simp add: c_ret_def)
next
  case (Cons i js)
  let ?md = "md\<lparr>md_mounts := (md_mounts md)[i := started v i (md_mounts md ! i)]\<rparr>"
  obtain mm1 where one: "start_mount v i c = (Inr (), c\<lparr>mc_mounts := Some ?md, mc_map := Some mm1\<rparr>)"
    using start_mount_table [of c md mm i v] Cons.prems by auto
  have "i \<notin> set js" using Cons.prems by simp
  then have keep: "\<forall>j \<in> set js. md_mounts ?md ! j = md_mounts md ! j"
    by (metis mount_data.select_convs(4) mount_data.surjective mount_data.update_convs(4) nth_list_update_neq)
  then obtain c' md' where "start_mounts v js (c\<lparr>mc_mounts := Some ?md, mc_map := Some mm1\<rparr>) = (Inr (), c')"
    "mc_mounts c' = Some md'" "md_mount_count md' = md_mount_count ?md" "length (md_mounts md') = length (md_mounts ?md)"
    "\<forall>j < length (md_mounts ?md). md_mounts md' ! j = (if j \<in> set js then started v j (md_mounts ?md ! j) else md_mounts ?md ! j)"
    using Cons.IH [of "c\<lparr>mc_mounts := Some ?md, mc_map := Some mm1\<rparr>" ?md mm1] Cons.prems by auto
  with one keep \<open>i \<notin> set js\<close> Cons.prems show ?case
    by (intro exI [of _ c'] exI [of _ md']) (auto simp: c_bind_def nth_list_update)
qed

definition good_defs :: "mount_env \<Rightarrow> mount_def list \<Rightarrow> bool" where
  "good_defs v ds \<longleftrightarrow> length ds \<le> MAX_MOUNT_POINTS \<and> distinct (map (with_slash \<circ> mdef_path) ds)
     \<and> (\<forall>d \<in> set ds. mdef_path d \<noteq> [] \<and> length (mdef_path d) < SIZE_MAX_PATH
          \<and> (mdef_usage_limit d < 0 \<longrightarrow> mv_free v (mdef_path d) \<noteq> None))"

lemma fill_mounts_all:
  assumes "\<forall>d \<in> set ds. mdef_path d \<noteq> [] \<and> length (mdef_path d) < SIZE_MAX_PATH" "i + length ds \<le> length (md_mounts md)"
  shows "fill_mounts v i ds md = (Inr (), md\<lparr>md_mounts := take i (md_mounts md) @ map (fresh_mount v) ds @ drop (i + length ds) (md_mounts md)\<rparr>)"
  using assms
proof (induction ds arbitrary: i md)
  case Nil
  then show ?case by (simp add: c_ret_def)
next
  case (Cons d ds)
  let ?md = "md\<lparr>md_mounts := (md_mounts md)[i := fresh_mount v d]\<rparr>"
  have "fill_mounts v i (d # ds) md = fill_mounts v (i + 1) ds ?md"
    using Cons.prems by (simp add: cmd_simps c_bind_def md_put_def)
  moreover have "take (Suc i) ((md_mounts md)[i := fresh_mount v d]) = take i (md_mounts md) @ [fresh_mount v d]"
    using Cons.prems by (simp add: take_Suc_conv_app_nth)
  ultimately show ?case
    using Cons.IH [of "i + 1" ?md] Cons.prems by simp
qed

lemma load_new_table:
  assumes "good_defs v ds"
  shows "load_new v ds = Inr (zero_mounts\<lparr>md_mount_count := length ds, md_available_count := length ds,
     md_mounts := map (fresh_mount v) ds @ replicate (MAX_MOUNT_POINTS - length ds) zero_mount\<rparr>)"
  using assms fill_mounts_all [of ds 0 "zero_mounts\<lparr>md_mount_count := length ds mod 2 ^ 16, md_available_count := length ds mod 2 ^ 16\<rparr>" v]
  by (auto simp: load_new_def good_defs_def zero_mounts_def MAX_MOUNT_POINTS_def)

text \<open>C16. From well-formed definitions the manager makes the table in which the record of each
  definition has its path, is empty and writable; a client that is initialised with it finds the index and
  the lock of every mount point.\<close>
theorem mounts_set_up:
  assumes "good_defs v ds"
  shows "\<exists>md0 c1 md mm. load_new v ds = Inr md0 \<and> load_finished v md0 c = (Inr (), c1) \<and> mc_mounts c1 = Some md
     \<and> mc_init (Some md) True new_mount_client = (Inr (), client_of md mm)
     \<and> (\<forall>i < length ds. let mp = md_mounts md ! i in
          mp_path mp = mdef_path (ds ! i) \<and> mp_state mp = MP_READ_WRITE \<and> mp_total_bytes_used mp = 0 \<and> mp_total_blocks mp = 0
          \<and> get_mount_index (mp_path mp) mm = Inr (Some i)
          \<and> get_mount_lock (mp_path mp) md mm = Inr (Some (mp_lock_name mp)))"
proof -
  let ?md0 = "zero_mounts\<lparr>md_mount_count := length ds, md_available_count := length ds,
     md_mounts := map (fresh_mount v) ds @ replicate (MAX_MOUNT_POINTS - length ds) zero_mount\<rparr>"
  let ?c = "c\<lparr>mc_mounts := Some ?md0, mc_map := Some new_mount_map\<rparr>"
  have at: "md_mounts ?md0 ! i = fresh_mount v (ds ! i)" "ds ! i \<in> set ds" if "i < length ds" for i
    using that by (simp_all add: nth_append)
  have len: "length (md_mounts ?md0) = MAX_MOUNT_POINTS" "length ds \<le> MAX_MOUNT_POINTS"
    using assms by (auto simp: good_defs_def)
  have start: "startable v (fresh_mount v d)" if "d \<in> set ds" for d
    using assms that by (auto simp: good_defs_def startable_def fresh_mount_def)
  have "\<exists>c1 md. start_mounts v [0..<length ds] ?c = (Inr (), c1) \<and> mc_mounts c1 = Some md \<and> md_mount_count md = md_mount_count ?md0
     \<and> length (md_mounts md) = length (md_mounts ?md0)
     \<and> (\<forall>j < length (md_mounts ?md0). md_mounts md ! j
          = (if j \<in> set [0..<length ds] then started v j (md_mounts ?md0 ! j) else md_mounts ?md0 ! j))"
    by (rule start_mounts_table [of _ _ new_mount_map]) (use at start len in auto)
  then obtain c1 md where c1: "start_mounts v [0..<length ds] ?c = (Inr (), c1)" "mc_mounts c1 = Some md"
    and md: "md_mount_count md = length ds" "length (md_mounts md) = MAX_MOUNT_POINTS"
    and recs: "\<And>i. i < length ds \<Longrightarrow> md_mounts md ! i = started v i (fresh_mount v (ds ! i))"
    using at len by fastforce
  have named: "\<forall>i \<in> set [0..<length ds]. mount_named md i"
    using recs md len at assms by (fastforce simp: mount_named_def started_def fresh_mount_def good_defs_def get_lock_name_def)
  have "path_key md i = (with_slash \<circ> mdef_path) (ds ! i)" if "i < length ds" for i
    using recs [OF that] by (simp add: started_def fresh_mount_def)
  then have inj: "inj_on (path_key md) (set [0..<length ds])"
    using assms by (auto simp: inj_on_def good_defs_def distinct_map nth_eq_iff_index_eq)
      (metis at(2) comp_apply inj_on_def nth_eq_iff_index_eq)
  obtain mm where init: "init_mounts [0..<length ds] (client_of md new_mount_map) = (Inr (), client_of md mm)"
    and has: "\<forall>i \<in> set [0..<length ds]. map_has md mm i"
    using init_mounts_enter [of "client_of md new_mount_map" md new_mount_map "[0..<length ds]"] named inj
    by (auto simp: client_of_def new_mount_map_def)
  have "mc_init (Some md) True new_mount_client = (Inr (), client_of md mm)"
    using init md by (simp add: mc_init_def cmd_simps c_bind_def new_mount_client_def client_of_def)
  moreover have "load_finished v ?md0 c = (Inr (), c1)"
    using c1 by (simp add: load_finished_def c_bind_def cmd_simps)
  moreover have "get_mount_index (mp_path (md_mounts md ! i)) mm = Inr (Some i)
     \<and> get_mount_lock (mp_path (md_mounts md ! i)) md mm = Inr (Some (mp_lock_name (md_mounts md ! i)))" if "i < length ds" for i
    using that named has md len
    by (auto simp: get_mount_index_def get_mount_lock_def find_mount_lock_def e_bind_def map_has_def mount_named_def Let_def)
  moreover have "mp_path (md_mounts md ! i) = mdef_path (ds ! i) \<and> mp_state (md_mounts md ! i) = MP_READ_WRITE
     \<and> mp_total_bytes_used (md_mounts md ! i) = 0 \<and> mp_total_blocks (md_mounts md ! i) = 0" if "i < length ds" for i
    using recs [OF that] by (simp add: started_def fresh_mount_def zero_mount_def)
  ultimately show ?thesis
    using load_new_table [OF assms] c1(2) by (intro exI [of _ ?md0] exI [of _ c1] exI [of _ md] exI [of _ mm]) (simp add: Let_def)
qed

theorem mounts_set_up_witness:
  "\<exists>md0 c1 md mm. load_new (mount_demo_env 0 0) [\<lparr>mdef_path = ''/ssd'', mdef_usage_limit = -1, mdef_state = MP_READ_WRITE\<rparr>] = Inr md0
     \<and> load_finished (mount_demo_env 0 0) md0 new_mount_client = (Inr (), c1) \<and> mc_mounts c1 = Some md
     \<and> mc_init (Some md) True new_mount_client = (Inr (), client_of md mm)
     \<and> get_mount_index ''/ssd'' mm = Inr (Some 0)"
proof -
  let ?ds = "[\<lparr>mdef_path = ''/ssd'', mdef_usage_limit = -1, mdef_state = MP_READ_WRITE\<rparr>]"
  have "good_defs (mount_demo_env 0 0) ?ds"
    by (simp add: good_defs_def mount_demo_env_def MAX_MOUNT_POINTS_def SIZE_MAX_PATH_def)
  from mounts_set_up [OF this, of new_mount_client] show ?thesis
    by (auto simp: Let_def)
qed

subsection \<open>A second load\<close>

text \<open>The records after the first pass: one whose path has a definition may have another limit and state.\<close>

definition touched :: "mount_def list \<Rightarrow> mount_point \<Rightarrow> mount_point \<Rightarrow> bool" where
  "touched ds mp mp' \<longleftrightarrow> mp' = mp \<or> (\<exists>d \<in> set ds. mp_path mp = mdef_path d)
     \<and> (\<exists>l st. mp' = mp\<lparr>mp_usage_limit := l, mp_state := st\<rparr>)"

lemma touched_refl [simp]: "touched ds mp mp"
  by (simp add: touched_def)

lemma touched_path: "touched ds mp mp' \<Longrightarrow> mp_path mp' = mp_path mp"
  by (auto simp: touched_def)

lemma touched_trans: "touched ds a b \<Longrightarrow> touched ds b c \<Longrightarrow> touched ds a c"
  unfolding touched_def by (elim disjE conjE exE; simp; blast)

definition known :: "mount_data \<Rightarrow> mount_def \<Rightarrow> bool" where
  "known md d \<longleftrightarrow> (\<exists>j < md_mount_count md. mp_path (md_mounts md ! j) = mdef_path d)"

definition touched_all :: "mount_def list \<Rightarrow> mount_data \<Rightarrow> mount_data \<Rightarrow> bool" where
  "touched_all ds md md' \<longleftrightarrow> md_mount_count md' = md_mount_count md \<and> md_version md' = md_version md
     \<and> md_available_count md' = md_available_count md \<and> length (md_mounts md') = length (md_mounts md)
     \<and> (\<forall>j < length (md_mounts md). touched ds (md_mounts md ! j) (md_mounts md' ! j)
          \<and> (md_mount_count md \<le> j \<longrightarrow> md_mounts md' ! j = md_mounts md ! j))"

lemma mount_of_def_Some:
  assumes "mount_of_def d md = Some j" "md_mount_count md \<le> length (md_mounts md)"
  shows "j < md_mount_count md \<and> j < length (md_mounts md) \<and> mp_path (md_mounts md ! j) = mdef_path d"
  using assms by (auto simp: mount_of_def_def find_Some_iff)

lemma mount_of_def_None:
  assumes "md_mount_count md \<le> length (md_mounts md)"
  shows "mount_of_def d md = None \<longleftrightarrow> \<not> known md d"
  using assms by (auto simp: mount_of_def_def find_None_iff known_def)

lemma known_touched: "touched_all ds md md' \<Longrightarrow> md_mount_count md \<le> length (md_mounts md) \<Longrightarrow> known md' d = known md d"
proof -
  assume t: "touched_all ds md md'" and len: "md_mount_count md \<le> length (md_mounts md)"
  have "mp_path (md_mounts md' ! j) = mp_path (md_mounts md ! j)" if "j < md_mount_count md" for j
    using t len that by (auto simp: touched_all_def intro: touched_path [of ds])
  then show ?thesis
    using t by (auto simp: touched_all_def known_def)
qed

lemma update_mounts_touch:
  assumes "md_mount_count md \<le> length (md_mounts md)" "\<forall>d \<in> set ds. mdef_path d \<noteq> []" "set ds \<subseteq> set ds0"
  shows "\<exists>md'. update_mounts ds md = (Inr (map (known md) ds), md') \<and> touched_all ds0 md md'"
  using assms
proof (induction ds arbitrary: md)
  case Nil
  then show ?case by (simp add: c_ret_def touched_all_def)
next
  case (Cons d ds)
  show ?case
  proof (cases "mount_of_def d md")
    case None
    then obtain md' where "update_mounts ds md = (Inr (map (known md) ds), md')" "touched_all ds0 md md'"
      using Cons.IH [of md] Cons.prems by auto
    then show ?thesis
      using None Cons.prems mount_of_def_None [of md d] by (auto simp: cmd_simps c_bind_def)
  next
    case (Some j)
    note j = mount_of_def_Some [OF Some Cons.prems(1)]
    let ?md = "md\<lparr>md_mounts := (md_mounts md)[j := take_def d (md_mounts md ! j)]\<rparr>"
    have t: "touched_all ds0 md ?md"
      using j Cons.prems(3) by (auto simp: touched_all_def nth_list_update touched_def take_def_def)
    obtain md' where ih: "update_mounts ds ?md = (Inr (map (known ?md) ds), md')" "touched_all ds0 ?md md'"
      using Cons.IH [of ?md] Cons.prems by auto
    have "known ?md = known md"
      using known_touched [OF t Cons.prems(1)] by (intro ext)
    moreover have "touched_all ds0 md md'"
      using t ih(2) by (auto simp: touched_all_def intro: touched_trans)
    moreover have "known md d"
      using Some mount_of_def_None [of md d] Cons.prems(1) by auto
    ultimately show ?thesis
      using Some j ih(1) Cons.prems by (auto simp: cmd_simps c_bind_def md_get_def md_put_def)
  qed
qed

text \<open>The second pass.\<close>

definition settled :: "mount_def list \<Rightarrow> mount_point \<Rightarrow> mount_point" where
  "settled ds mp = (case def_of_mount ds mp of Some d \<Rightarrow> take_def d mp | None \<Rightarrow> mp)"

lemma match_mounts_settle:
  assumes "distinct js" "\<forall>j \<in> set js. j < length (md_mounts md)"
  shows "\<exists>md'. match_mounts ds js md = (Inr (filter (\<lambda>j. def_of_mount ds (md_mounts md ! j) = None) js), md')
     \<and> (\<exists>ms. md' = md\<lparr>md_mounts := ms\<rparr> \<and> length ms = length (md_mounts md)
          \<and> (\<forall>j < length ms. ms ! j = (if j \<in> set js then settled ds (md_mounts md ! j) else md_mounts md ! j)))"
  using assms
proof (induction js arbitrary: md)
  case Nil
  then show ?case by (auto simp: c_ret_def intro: exI [of _ "md_mounts md"])
next
  case (Cons j js)
  let ?mp = "md_mounts md ! j"
  show ?case
  proof (cases "def_of_mount ds ?mp")
    case None
    obtain ms where "match_mounts ds js md
        = (Inr (filter (\<lambda>j. def_of_mount ds (md_mounts md ! j) = None) js), md\<lparr>md_mounts := ms\<rparr>)"
      "length ms = length (md_mounts md)"
      "\<forall>k < length ms. ms ! k = (if k \<in> set js then settled ds (md_mounts md ! k) else md_mounts md ! k)"
      using Cons.IH [of md] Cons.prems by auto
    then show ?thesis
      using None Cons.prems
      by (intro exI [of _ "md\<lparr>md_mounts := ms\<rparr>"]) (auto simp: c_bind_def md_get_def c_ret_def settled_def)
  next
    case (Some d)
    let ?md = "md\<lparr>md_mounts := (md_mounts md)[j := take_def d ?mp]\<rparr>"
    have keep: "md_mounts ?md ! k = md_mounts md ! k" if "k \<in> set js" for k
      using Cons.prems(1) that by (simp add: nth_list_update_neq) (metis nth_list_update_neq)
    then have "filter (\<lambda>j. def_of_mount ds (md_mounts ?md ! j) = None) js = filter (\<lambda>j. def_of_mount ds (md_mounts md ! j) = None) js"
      by (intro filter_cong) simp_all
    then obtain ms where "match_mounts ds js ?md
        = (Inr (filter (\<lambda>j. def_of_mount ds (md_mounts md ! j) = None) js), ?md\<lparr>md_mounts := ms\<rparr>)"
      "length ms = length (md_mounts ?md)"
      "\<forall>k < length ms. ms ! k = (if k \<in> set js then settled ds (md_mounts ?md ! k) else md_mounts ?md ! k)"
      using Cons.IH [of ?md] Cons.prems by auto
    then show ?thesis
      using Some Cons.prems keep
      by (intro exI [of _ "md\<lparr>md_mounts := ms\<rparr>"]) (auto simp: c_bind_def md_get_def md_put_def settled_def nth_list_update)
  qed
qed

lemma retire_mounts_all:
  assumes "distinct js" "\<forall>j \<in> set js. j < length (md_mounts md) \<and> mp_path (md_mounts md ! j) \<noteq> []"
  shows "\<exists>ms. retire_mounts v js md = (Inr (), md\<lparr>md_mounts := ms\<rparr>) \<and> length ms = length (md_mounts md)
     \<and> (\<forall>j < length ms. ms ! j = (if j \<in> set js then without_def v (md_mounts md ! j) else md_mounts md ! j))"
  using assms
proof (induction js arbitrary: md)
  case Nil
  then show ?case by (auto simp: c_ret_def intro: exI [of _ "md_mounts md"])
next
  case (Cons j js)
  let ?md = "md\<lparr>md_mounts := (md_mounts md)[j := without_def v (md_mounts md ! j)]\<rparr>"
  have keep: "md_mounts ?md ! k = md_mounts md ! k" if "k \<in> set js" for k
    using Cons.prems(1) that by (simp add: nth_list_update_neq) (metis nth_list_update_neq)
  obtain ms where "retire_mounts v js ?md = (Inr (), ?md\<lparr>md_mounts := ms\<rparr>)" "length ms = length (md_mounts ?md)"
    "\<forall>k < length ms. ms ! k = (if k \<in> set js then without_def v (md_mounts ?md ! k) else md_mounts ?md ! k)"
    using Cons.IH [of ?md] Cons.prems keep by auto
  then show ?case
    using Cons.prems keep by (intro exI [of _ ms]) (auto simp: cmd_simps c_bind_def md_get_def md_put_def nth_list_update)
qed

text \<open>The last two passes: every record takes its definition or is retired.\<close>

lemma match_then_retire:
  assumes t: "md_mount_count md1 = md_mount_count md" "length (md_mounts md1) = length (md_mounts md)"
      "\<And>j. j < length (md_mounts md) \<Longrightarrow> touched ds (md_mounts md ! j) (md_mounts md1 ! j)"
      "\<And>j. j < length (md_mounts md) \<Longrightarrow> md_mount_count md \<le> j \<Longrightarrow> md_mounts md1 ! j = md_mounts md ! j"
    and n: "md_mount_count md \<le> length (md_mounts md)" "\<forall>j < md_mount_count md. mp_path (md_mounts md ! j) \<noteq> []"
  obtains js ms1 ms2 where "match_mounts ds [0..<md_mount_count md] md1 = (Inr js, md1\<lparr>md_mounts := ms1\<rparr>)"
    "retire_mounts v js (md1\<lparr>md_mounts := ms1\<rparr>) = (Inr (), md1\<lparr>md_mounts := ms2\<rparr>)" "length ms2 = length (md_mounts md)"
    "\<forall>j < length ms2. ms2 ! j = (if j < md_mount_count md
        then (case def_of_mount ds (md_mounts md ! j) of Some d \<Rightarrow> take_def d (md_mounts md ! j)
              | None \<Rightarrow> without_def v (md_mounts md ! j)) else md_mounts md ! j)"
proof -
  let ?js = "[0..<md_mount_count md]"
  let ?none = "filter (\<lambda>j. def_of_mount ds (md_mounts md1 ! j) = None) ?js"
  obtain ms1 where m: "match_mounts ds ?js md1 = (Inr ?none, md1\<lparr>md_mounts := ms1\<rparr>)" "length ms1 = length (md_mounts md1)"
    "\<forall>j < length ms1. ms1 ! j = (if j \<in> set ?js then settled ds (md_mounts md1 ! j) else md_mounts md1 ! j)"
    using match_mounts_settle [of ?js md1 ds] n(1) t by auto
  have path: "mp_path (ms1 ! j) = mp_path (md_mounts md ! j)" if "j < length (md_mounts md)" for j
    using m(2,3) t(2) that touched_path [OF t(3) [OF that]] by (auto simp: settled_def take_def_def split: option.splits)
  obtain ms2 where r: "retire_mounts v ?none (md1\<lparr>md_mounts := ms1\<rparr>) = (Inr (), (md1\<lparr>md_mounts := ms1\<rparr>)\<lparr>md_mounts := ms2\<rparr>)"
    "length ms2 = length ms1" "\<forall>j < length ms2. ms2 ! j = (if j \<in> set ?none then without_def v (ms1 ! j) else ms1 ! j)"
    using retire_mounts_all [of ?none "md1\<lparr>md_mounts := ms1\<rparr>" v] n m(2) t path by auto
  have "ms2 ! j = (if j < md_mount_count md
      then (case def_of_mount ds (md_mounts md ! j) of Some d \<Rightarrow> take_def d (md_mounts md ! j)
            | None \<Rightarrow> without_def v (md_mounts md ! j)) else md_mounts md ! j)" if j: "j < length ms2" for j
  proof -
    have jl: "j < length (md_mounts md)"
      using j m(2) r(2) t(2) by simp
    have same: "def_of_mount ds (md_mounts md1 ! j) = def_of_mount ds (md_mounts md ! j)"
      using touched_path [OF t(3) [OF jl]] by (simp add: def_of_mount_def)
    show ?thesis
    proof (cases "def_of_mount ds (md_mounts md ! j)")
      case None
      then have "md_mounts md1 ! j = md_mounts md ! j"
        using t(3) [OF jl] by (auto simp: touched_def def_of_mount_def find_None_iff)
      then show ?thesis
        using None jl m r t same by (auto simp: settled_def)
    next
      case (Some d)
      then have "take_def d (md_mounts md1 ! j) = take_def d (md_mounts md ! j)"
        using t(3) [OF jl] by (auto simp: touched_def take_def_def)
      then show ?thesis
        using Some jl m r t same by (auto simp: settled_def)
    qed
  qed
  then show ?thesis
    using that [OF m(1), of ms2] r(1,2) m(2) t(2) by simp
qed

text \<open>C40. A later load gives every record the limit and the state of its definition and retires
  the records that have none, when every definition has a record; a definition without a record, a new mount
  point, overwrites the stack.\<close>
theorem mounts_reloaded:
  assumes "md_mount_count md \<le> length (md_mounts md)"
    and "\<forall>j < md_mount_count md. mp_path (md_mounts md ! j) \<noteq> []" "\<forall>d \<in> set ds. mdef_path d \<noteq> []"
  shows "if \<forall>d \<in> set ds. known md d
     then \<exists>ms. load_again v ds md = (Inr (), md\<lparr>md_available_count := length ds mod 2 ^ 16, md_mounts := ms\<rparr>)
        \<and> length ms = length (md_mounts md)
        \<and> (\<forall>j < length ms. ms ! j = (if j < md_mount_count md
             then (case def_of_mount ds (md_mounts md ! j) of Some d \<Rightarrow> take_def d (md_mounts md ! j)
                   | None \<Rightarrow> without_def v (md_mounts md ! j)) else md_mounts md ! j))
     else fst (load_again v ds md) = Inl Mem_fault"
proof -
  let ?md = "md\<lparr>md_available_count := length ds mod 2 ^ 16\<rparr>"
  obtain md1 where u: "update_mounts ds ?md = (Inr (map (known ?md) ds), md1)" "touched_all ds ?md md1"
    using update_mounts_touch [of ?md ds ds] assms by auto
  have k: "known ?md = known md"
    by (intro ext) (simp add: known_def)
  show ?thesis
  proof (cases "\<forall>d \<in> set ds. known md d")
    case False
    then have "\<not> list_all id (map (known md) ds)"
      by (auto simp: list_all_iff)
    then show ?thesis
      using False u(1) k by (auto simp: load_again_def c_bind_def cmd_simps add_mounts_def)
  next
    case True
    then have all: "list_all id (map (known md) ds)"
      by (auto simp: list_all_iff)
    have t: "md_mount_count md1 = md_mount_count md" "length (md_mounts md1) = length (md_mounts md)"
      "\<And>j. j < length (md_mounts md) \<Longrightarrow> touched ds (md_mounts md ! j) (md_mounts md1 ! j)"
      "\<And>j. j < length (md_mounts md) \<Longrightarrow> md_mount_count md \<le> j \<Longrightarrow> md_mounts md1 ! j = md_mounts md ! j"
      "\<And>ms. md1\<lparr>md_mounts := ms\<rparr> = md\<lparr>md_available_count := length ds mod 2 ^ 16, md_mounts := ms\<rparr>"
      using u(2) by (auto simp: touched_all_def)
    obtain js ms1 ms2 where m: "match_mounts ds [0..<md_mount_count md] md1 = (Inr js, md1\<lparr>md_mounts := ms1\<rparr>)"
      "retire_mounts v js (md1\<lparr>md_mounts := ms1\<rparr>) = (Inr (), md1\<lparr>md_mounts := ms2\<rparr>)" "length ms2 = length (md_mounts md)"
      "\<forall>j < length ms2. ms2 ! j = (if j < md_mount_count md
          then (case def_of_mount ds (md_mounts md ! j) of Some d \<Rightarrow> take_def d (md_mounts md ! j)
                | None \<Rightarrow> without_def v (md_mounts md ! j)) else md_mounts md ! j)"
      by (rule match_then_retire [OF t(1-4) assms(1,2)])
    have "load_again v ds md = (Inr (), md\<lparr>md_available_count := length ds mod 2 ^ 16, md_mounts := ms2\<rparr>)"
      using u(1) k all m(1,2) t(1,5) by (simp add: load_again_def c_bind_def cmd_simps add_mounts_def)
    then show ?thesis
      using True m(3,4) by auto
  qed
qed

theorem mounts_reloaded_witness:
  "fst (load_again (mount_demo_env 0 0) [\<lparr>mdef_path = ''/hdd'', mdef_usage_limit = -1, mdef_state = MP_READ_WRITE\<rparr>] (demo_ssd 4 1)) = Inl Mem_fault"
proof -
  have "\<not> known (demo_ssd 4 1) \<lparr>mdef_path = ''/hdd'', mdef_usage_limit = -1, mdef_state = MP_READ_WRITE\<rparr>"
    "\<forall>j < md_mount_count (demo_ssd 4 1). mp_path (md_mounts (demo_ssd 4 1) ! j) \<noteq> []"
    "md_mount_count (demo_ssd 4 1) \<le> length (md_mounts (demo_ssd 4 1))"
    by (simp_all add: known_def demo_ssd_def mount_demo_table_def demo_mount_def)
  then show ?thesis
    using mounts_reloaded [of "demo_ssd 4 1" "[\<lparr>mdef_path = ''/hdd'', mdef_usage_limit = -1, mdef_state = MP_READ_WRITE\<rparr>]" "mount_demo_env 0 0"]
    by simp
qed

end
