(* ===== verification/MmStruct.thy ===== *)
theory MmStruct
  imports InstState Bitset IndexedBlock MountClient
begin

section \<open>The structure of block files (core/includes/mm_struct_header.h, core/includes/block_utils.h)\<close>

text \<open>
  A \<open>mm_manager_struct\<close> keeps the records of one structure in a chain of block files: a header with a
  record for each block, a bitset of the block records in use, the blocks that are open in this process,
  and the one transaction. A pointer to a block is its index in \<open>block_index\<close>. The state holds the file
  system's block files, the write locks and the mount points of the process, since creating and deleting
  blocks changes them; the content of a file whose block is open is the one of the block. What the calls
  read from their surroundings is \<open>mm_env\<close>; the size of the block header in a file is one of them.
\<close>

record mm_env =
  me_blk :: blk_env
  me_mount :: mount_env
  me_got :: bool                              \<comment> \<open>\<open>data_lock\<close> was obtained in time\<close>
  me_uuid :: string
  me_rounds :: "round list"
  me_hour_dir :: string
  me_header_size :: nat                       \<comment> \<open>\<open>sizeof (__block_header)\<close>\<close>
  me_file_size :: "string \<Rightarrow> nat"
  me_index_file :: "string \<Rightarrow> index_file option"
  me_index_removed :: bool

record mm_block_info =
  mb_index :: nat
  mb_used :: bool
  mb_filename :: string
  mb_block_id :: nat
  mb_block_uuid :: string
  mb_deleted :: bool
  mb_start_index :: nat
  mb_last_index :: nat
  mb_created_time :: time
  mb_updated_time :: time
  mb_checksum :: nat

record mm_header =
  mh_version :: "nat \<times> nat"
  mh_name :: string
  mh_dir_prefix :: string
  mh_block_size :: nat
  mh_block_record_size :: nat
  mh_block_count :: nat
  mh_last_block_index :: nat
  mh_write_block_index :: nat
  mh_last_written_index :: nat
  mh_block_expiry_time :: nat
  mh_blocks :: "mm_block_info list"

record mm_transaction =
  mt_in_transaction :: bool
  mt_txid :: string
  mt_starttime :: time
  mt_block :: "nat option"

record mm_struct =
  ms_state :: inst_state
  ms_name :: string
  ms_id :: nat
  ms_type :: block_def
  ms_lock :: bool                              \<comment> \<open>\<open>data_lock\<close> is not null\<close>
  ms_header :: "mm_header option"
  ms_bits :: "bitset option"
  ms_blocks :: "nat \<rightharpoonup> base_block"
  ms_tx :: mm_transaction
  ms_files :: "string \<rightharpoonup> block_file"
  ms_client :: write_client
  ms_mounts :: mount_client

type_synonym 'a mm_cmd = "('a, mm_struct) cmd"

definition MM_MAX_BLOCKS :: nat where "MM_MAX_BLOCKS = 1024"
definition MM_BLOCK_BLOAT_FACTOR :: nat where "MM_BLOCK_BLOAT_FACTOR = 110"
definition MM_STRUCT_VERSION :: "nat \<times> nat" where "MM_STRUCT_VERSION = (0, 1)"
definition ERRCODE_ALLOCATING_BLOCK_SPACE :: nat where "ERRCODE_ALLOCATING_BLOCK_SPACE = 10"
definition ERRCODE_MM_MAX_BLOCKS_USED :: nat where "ERRCODE_MM_MAX_BLOCKS_USED = 11"

definition no_transaction :: mm_transaction where
  "no_transaction = \<lparr>mt_in_transaction = False, mt_txid = [], mt_starttime = 0, mt_block = None\<rparr>"

subsection \<open>The parts of the state\<close>

definition mm_head :: "mm_header mm_cmd" where
  "mm_head s = (case ms_header s of None \<Rightarrow> (Inl Mem_fault, s) | Some h \<Rightarrow> (Inr h, s))"

definition mm_head_upd :: "(mm_header \<Rightarrow> mm_header) \<Rightarrow> unit mm_cmd" where
  "mm_head_upd f s = (case ms_header s of None \<Rightarrow> (Inl Mem_fault, s) | Some h \<Rightarrow> (Inr (), s\<lparr>ms_header := Some (f h)\<rparr>))"

definition mm_info_upd :: "nat \<Rightarrow> (mm_block_info \<Rightarrow> mm_block_info) \<Rightarrow> unit mm_cmd" where
  "mm_info_upd i f = mm_head_upd (\<lambda>h. h\<lparr>mh_blocks := (mh_blocks h)[i := f (mh_blocks h ! i)]\<rparr>)"

text \<open>A method of the block behind a pointer; the lock clients of a process are one object.\<close>

definition on_mm_block :: "nat \<Rightarrow> ('a, base_block) cmd \<Rightarrow> 'a mm_cmd" where
  "on_mm_block i f s = (case ms_blocks s i of None \<Rightarrow> (Inl Mem_fault, s)
     | Some b \<Rightarrow> (case f (b\<lparr>bb_client := ms_client s\<rparr>) of (r, b') \<Rightarrow>
         (r, s\<lparr>ms_blocks := (ms_blocks s)(i \<mapsto> b'), ms_client := bb_client b'\<rparr>)))"

definition on_mm_bits :: "(bitset \<Rightarrow> ('a, bitset) res) \<Rightarrow> 'a mm_cmd" where
  "on_mm_bits f s = (case ms_bits s of None \<Rightarrow> (Inl Mem_fault, s)
     | Some b \<Rightarrow> (case f b of (r, b') \<Rightarrow> (r, s\<lparr>ms_bits := Some b'\<rparr>)))"

definition on_mm_mounts :: "('a, mount_client) cmd \<Rightarrow> 'a mm_cmd" where
  "on_mm_mounts f s = (case f (ms_mounts s) of (r, c) \<Rightarrow> (r, s\<lparr>ms_mounts := c\<rparr>))"

definition mm_available :: "unit mm_cmd" where
  "mm_available = c_check State_unavailable (\<lambda>s. is_available (ms_state s))"

text \<open>\<open>TRY_LOCK_WITH_ERROR (data_lock, ...)\<close>\<close>

definition mm_try_lock :: "mm_env \<Rightarrow> unit mm_cmd" where
  "mm_try_lock v = c_all [c_check Mem_fault ms_lock, c_check Lock_timeout (\<lambda>_. me_got v)]"

text \<open>\<open>catch\<close>: every exception becomes an \<open>fs_base_error\<close>; the marks of the model are not exceptions.\<close>

definition is_thrown :: "exc \<Rightarrow> bool" where
  "is_thrown e \<longleftrightarrow> e \<noteq> Mem_fault \<and> e \<noteq> Blocked \<and> e \<noteq> Aborted"

definition to_fs_error :: "exc \<Rightarrow> exc" where
  "to_fs_error e = (if is_thrown e then Fs_error else e)"

definition new_block_object :: "blk_env \<Rightarrow> write_client \<Rightarrow> base_block" where
  "new_block_object v c = \<lparr>bb_available = False, bb_filename = [], bb_lock = None,
     bb_header = new_block_header v [] 0 0 PRIMARY BASIC 0 0, bb_data = [], bb_write_ptr = False,
     bb_updateable = False, bb_rollback = None, bb_deletes = [], bb_compression = False, bb_client = c,
     bb_write_usage = \<lparr>us_bytes_used = 0, us_elapsed_time = 0, us_last_synced = be_now v\<rparr>,
     bb_read_usage = \<lparr>us_bytes_used = 0, us_elapsed_time = 0, us_last_synced = be_now v\<rparr>, bb_reports = []\<rparr>"

subsection \<open>block_utils\<close>

definition file_of :: "base_block \<Rightarrow> block_file" where
  "file_of b = (bb_header b, bb_data b)"

text \<open>\<open>create_new_block\<close>: the object is created, freed again, and leaves the file behind.\<close>

definition bu_create_new_block :: "mm_env \<Rightarrow> nat \<Rightarrow> nat \<Rightarrow> string \<Rightarrow> block_def \<Rightarrow> block_usage \<Rightarrow> nat \<Rightarrow> nat \<Rightarrow> nat
    \<Rightarrow> string mm_cmd" where
  "bu_create_new_block v block_id parent_id filename type usage block_size est start_index s =
     (let w = me_blk v; exists = filename \<in> dom (ms_files s); b0 = new_block_object w (ms_client s) in
      if type = BASIC
      then (case blk_create w (me_uuid v) block_id parent_id filename usage block_size start_index False exists False b0 of
              (r, b) \<Rightarrow> (r, s\<lparr>ms_client := bb_client b, ms_files := (ms_files s)(filename \<mapsto> file_of b)\<rparr>))
      else if type = INDEXED
      then (case xb_create w (me_uuid v) block_id parent_id filename usage block_size start_index est False exists False
                   (me_index_file v filename \<noteq> None) (me_index_removed v) \<lparr>xb_block = b0, xb_index = None\<rparr> of
              (r, x) \<Rightarrow> (r, s\<lparr>ms_client := bb_client (xb_block x), ms_files := (ms_files s)(filename \<mapsto> file_of (xb_block x))\<rparr>))
      else (Inl Fs_error, s))"

definition bu_create :: "mm_env \<Rightarrow> nat \<Rightarrow> nat \<Rightarrow> string \<Rightarrow> block_def \<Rightarrow> block_usage \<Rightarrow> nat \<Rightarrow> nat \<Rightarrow> nat \<Rightarrow> string mm_cmd" where
  "bu_create v block_id parent_id filename type usage block_size est start_index =
     c_bind (bu_create_new_block v block_id parent_id filename type usage block_size est start_index) (\<lambda>uuid.
     c_bind (c_check Postcondition (\<lambda>_. uuid \<noteq> [])) (\<lambda>_. c_ret uuid))"

text \<open>\<open>delete_block\<close> opens the block and frees it, gives the space back and removes the file.\<close>

definition bu_open_and_free :: "mm_env \<Rightarrow> nat \<Rightarrow> string \<Rightarrow> block_def \<Rightarrow> unit mm_cmd" where
  "bu_open_and_free v block_id filename type s =
     (let w = me_blk v; file = ms_files s filename; b0 = new_block_object w (ms_client s) in
      if type = BASIC
      then (case c_bind (blk_open w block_id filename file False) (\<lambda>_. blk_close w) b0 of
              (r, b) \<Rightarrow> (r, s\<lparr>ms_client := bb_client b\<rparr>))
      else if type = INDEXED
      then (case c_bind (xb_open w block_id filename file (me_index_file v filename) False) (\<lambda>_. xb_close w)
                   \<lparr>xb_block = b0, xb_index = None\<rparr> of
              (r, x) \<Rightarrow> (r, s\<lparr>ms_client := bb_client (xb_block x)\<rparr>))
      else (Inl Fs_error, s))"

definition bu_delete_block :: "mm_env \<Rightarrow> nat \<Rightarrow> string \<Rightarrow> block_def \<Rightarrow> unit mm_cmd" where
  "bu_delete_block v block_id filename type =
     c_bind (bu_open_and_free v block_id filename type) (\<lambda>_.
     c_bind (c_check Empty_value (\<lambda>_. filename \<noteq> [])) (\<lambda>_.
     c_bind (c_get ms_files) (\<lambda>files. c_when (filename \<in> dom files)
       (c_bind (on_mm_mounts (mc_release_block (me_mount v) filename (me_file_size v filename))) (\<lambda>_.
        c_mod (\<lambda>s. s\<lparr>ms_files := (ms_files s)(filename := None)\<rparr>))))))"

definition concat_path :: "string \<Rightarrow> string \<Rightarrow> string" where
  "concat_path path dir = path @ ''/'' @ dir"

definition bu_get_block_dir :: "mm_env \<Rightarrow> nat \<Rightarrow> string mm_cmd" where
  "bu_get_block_dir v n =
     c_bind (on_mm_mounts (mc_get_next_mount (me_mount v) n)) (\<lambda>mount.
     c_bind (c_check (Fs_block_error ERRCODE_BLOCK_OUT_OF_SPACE) (\<lambda>_. mount \<noteq> [])) (\<lambda>_.
     c_bind (on_mm_mounts (mc_reserve_block (me_mount v) mount n)) (\<lambda>reserved.
     c_bind (c_check (Fs_block_error ERRCODE_ALLOCATING_BLOCK_SPACE) (\<lambda>_. reserved)) (\<lambda>_.
     let path = (if \<not> ends_with mount ''/'' then mount @ ''/'' else mount) in
     c_bind (c_all [c_check Postcondition (\<lambda>_. mv_exists (me_mount v) path),
                    c_check Postcondition (\<lambda>_. me_hour_dir v \<noteq> [])]) (\<lambda>_.
     c_ret (cannonical_path (me_mount v) (concat_path path (me_hour_dir v))))))))"

subsection \<open>Blocks of the structure\<close>

definition mm_get_block_info :: "nat \<Rightarrow> mm_block_info mm_cmd" where
  "mm_get_block_info i s = (case ms_header s of
       None \<Rightarrow> (Inl Precondition, s)
     | Some h \<Rightarrow> if \<not> i < mh_block_count h then (Inl Precondition, s)
         else if \<not> i < length (mh_blocks h) then (Inl Mem_fault, s) else (Inr (mh_blocks h ! i), s))"

definition mm_get_block_size :: "mm_header \<Rightarrow> nat \<Rightarrow> exc + nat" where
  "mm_get_block_size h header_size = (if mh_block_record_size h = 0 then Inl Mem_fault
     else let sz = add64 (mh_block_size h) header_size;
              r_count = (mh_block_size h div mh_block_record_size h + 1) mod 2 ^ 32 in
       Inr ((add64 sz (r_count * REC_HEADER_SIZE) * MM_BLOCK_BLOAT_FACTOR) mod 2 ^ 64 div 100))"

definition mm_find_free_index :: "nat mm_cmd" where
  "mm_find_free_index = c_bind (on_mm_bits bitset_get_free_bit) (\<lambda>index.
     if index < 0 then c_throw (Fs_block_error ERRCODE_MM_MAX_BLOCKS_USED)
     else c_bind (on_mm_bits (\<lambda>b. bitset_check_and_set b (nat index))) (\<lambda>ok.
       if ok then c_ret (nat index) else c_throw Fs_error))"

definition mm_open_block :: "mm_env \<Rightarrow> nat \<Rightarrow> mm_block_info \<Rightarrow> bool \<Rightarrow> unit mm_cmd" where
  "mm_open_block v i bi for_update s =
     (case blk_open (me_blk v) (mb_block_id bi) (mb_filename bi) (ms_files s (mb_filename bi)) for_update
             (new_block_object (me_blk v) (ms_client s)) of
        (Inl e, b) \<Rightarrow> (Inl e, s\<lparr>ms_client := bb_client b\<rparr>)
      | (Inr _, b) \<Rightarrow> if bb_available b
          then (Inr (), s\<lparr>ms_client := bb_client b, ms_blocks := (ms_blocks s)(i \<mapsto> b)\<rparr>)
          else (Inl Postcondition, s\<lparr>ms_client := bb_client b\<rparr>))"

text \<open>The pointer is null for a block that is deleted and not open.\<close>

definition mm_get_block :: "mm_env \<Rightarrow> nat \<Rightarrow> bool \<Rightarrow> nat option mm_cmd" where
  "mm_get_block v i for_update = c_bind mm_available (\<lambda>_ s.
     if ms_blocks s i \<noteq> None then (Inr (Some i), s)
     else c_bind (mm_get_block_info i) (\<lambda>bi.
       if mb_deleted bi then c_ret None
       else c_bind (c_check Precondition (\<lambda>_. mb_filename bi \<noteq> [])) (\<lambda>_.
            c_bind (mm_open_block v i bi for_update) (\<lambda>_. c_ret (Some i)))) s)"

text \<open>\<open>block->...\<close> through a pointer that may be null.\<close>

definition on_block_ptr :: "nat option \<Rightarrow> ('a, base_block) cmd \<Rightarrow> 'a mm_cmd" where
  "on_block_ptr p f = (case p of None \<Rightarrow> c_throw Mem_fault | Some i \<Rightarrow> on_mm_block i f)"

definition not_null :: "nat option \<Rightarrow> unit mm_cmd" where
  "not_null p = c_check Null_pointer (\<lambda>_. p \<noteq> None)"

definition blk_get_last_index :: "(nat, base_block) cmd" where
  "blk_get_last_index = c_bind (c_check State_unavailable bb_available) (\<lambda>_. c_get (\<lambda>b. bh_last_index (bb_header b)))"

definition blk_get_start_index :: "(nat, base_block) cmd" where
  "blk_get_start_index = c_bind (c_check State_unavailable bb_available) (\<lambda>_. c_get (\<lambda>b. bh_start_index (bb_header b)))"

text \<open>Closing the block that was written so far; \<open>r_index\<close> is where the new one starts.\<close>

definition mm_finish_last :: "mm_env \<Rightarrow> nat mm_cmd" where
  "mm_finish_last v = c_bind mm_head (\<lambda>h.
     if mh_block_count h > 0
     then c_bind (mm_get_block v (mh_write_block_index h) True) (\<lambda>p.
          c_bind (not_null p) (\<lambda>_.
          c_bind (on_block_ptr p blk_get_last_index) (\<lambda>r_index.
          c_bind (c_check Postcondition (\<lambda>_. r_index = mh_last_written_index h)) (\<lambda>_.
          c_bind (on_block_ptr p blk_finish) (\<lambda>_. c_ret r_index)))))
     else c_ret 0)"

definition new_block_info :: "mm_env \<Rightarrow> nat \<Rightarrow> nat \<Rightarrow> string \<Rightarrow> string \<Rightarrow> nat \<Rightarrow> mm_block_info \<Rightarrow> mm_block_info" where
  "new_block_info v index block_id filename uuid r_index bi = bi\<lparr>mb_used := True, mb_block_id := block_id mod 2 ^ 32,
     mb_start_index := r_index, mb_last_index := r_index, mb_filename := filename, mb_deleted := False,
     mb_block_uuid := uuid, mb_created_time := be_now (me_blk v), mb_updated_time := be_now (me_blk v),
     mb_index := index, mb_checksum := 0\<rparr>"

definition mm_create_new_block :: "mm_env \<Rightarrow> unit mm_cmd" where
  "mm_create_new_block v =
     c_bind mm_find_free_index (\<lambda>index.
     c_bind mm_head (\<lambda>h.
     case mm_get_block_size h (me_header_size v) of Inl e \<Rightarrow> c_throw e | Inr sz \<Rightarrow>
     c_bind (bu_get_block_dir v sz) (\<lambda>m_path.
     c_bind (c_check Postcondition (\<lambda>_. m_path \<noteq> [])) (\<lambda>_ s.
     (let d1 = (if mh_dir_prefix h \<noteq> [] then concat_path m_path (mh_dir_prefix h) else m_path);
          path = concat_path (concat_path d1 (ms_name s)) (''mm_'' @ ms_name s @ ''_block_'' @ dec_text index @ ''.data'') in
      c_bind (c_check Fs_error (\<lambda>s. path \<notin> dom (ms_files s))) (\<lambda>_.
      c_bind (mm_get_block_info index) (\<lambda>bi.
      c_bind (c_check Postcondition (\<lambda>_. \<not> mb_used bi \<or> mb_deleted bi)) (\<lambda>_.
      c_bind (mm_finish_last v) (\<lambda>r_index.
      c_bind (mm_head_upd (\<lambda>h. h\<lparr>mh_last_block_index := (mh_last_block_index h + 1) mod 2 ^ 32\<rparr>)) (\<lambda>_.
      c_bind (bu_create v (mh_last_block_index h) (ms_id s) path (ms_type s) PRIMARY (mh_block_size h) (mh_block_record_size h) r_index) (\<lambda>uuid.
      c_bind (mm_info_upd index (new_block_info v index (mh_last_block_index h) path uuid r_index)) (\<lambda>_.
      mm_head_upd (\<lambda>h. h\<lparr>mh_write_block_index := index, mh_block_count := (mh_block_count h + 1) mod 2 ^ 32\<rparr>)))))))) s)))))"

subsection \<open>Creating and opening a structure\<close>

definition fresh_info :: mm_block_info where
  "fresh_info = \<lparr>mb_index = 0, mb_used = False, mb_filename = [], mb_block_id = 0, mb_block_uuid = [], mb_deleted = False,
     mb_start_index = 0, mb_last_index = 0, mb_created_time = 0, mb_updated_time = 0, mb_checksum = 0\<rparr>"

definition fresh_header :: "string \<Rightarrow> nat \<Rightarrow> nat \<Rightarrow> nat \<Rightarrow> mm_header" where
  "fresh_header name block_size record_size expiry = \<lparr>mh_version = MM_STRUCT_VERSION, mh_name = name, mh_dir_prefix = [],
     mh_block_size = block_size mod 2 ^ 32, mh_block_record_size = record_size, mh_block_count = 0,
     mh_last_block_index = 0, mh_write_block_index = 0, mh_last_written_index = 0, mh_block_expiry_time = expiry,
     mh_blocks = replicate MM_MAX_BLOCKS fresh_info\<rparr>"

text \<open>
  The prefix of the directory is an argument that is not stored. \<open>base_exists\<close> is the answer of the file
  system for the base directory. The bitset is mapped with the number of its bits as the number of its
  bytes; behind its 128 bytes is the header, which is not shown as bits.
\<close>

definition mm_create_new_instance :: "mm_env \<Rightarrow> nat \<Rightarrow> nat \<Rightarrow> string \<Rightarrow> nat \<Rightarrow> bool \<Rightarrow> bool \<Rightarrow> unit mm_cmd" where
  "mm_create_new_instance v block_size record_size dir_prefix expiry overwrite base_exists =
     c_bind (c_check Fs_error (\<lambda>_. \<not> base_exists \<or> overwrite)) (\<lambda>_ s.
     (case bitset_map (replicate 32 0) MM_MAX_BLOCKS of
        Inl e \<Rightarrow> (Inl e, s)
      | Inr bits \<Rightarrow> mm_create_new_block v (s\<lparr>ms_bits := Some bits,
          ms_header := Some (fresh_header (ms_name s) block_size record_size expiry)\<rparr>)))"

definition mm_create :: "mm_env \<Rightarrow> nat \<Rightarrow> string \<Rightarrow> nat \<Rightarrow> nat \<Rightarrow> bool \<Rightarrow> bool \<Rightarrow> unit mm_cmd" where
  "mm_create v record_size dir_prefix block_size expiry overwrite base_exists s =
     (case mm_create_new_instance v block_size record_size dir_prefix expiry overwrite base_exists (s\<lparr>ms_lock := True\<rparr>) of
        (Inr _, s') \<Rightarrow> (Inr (), s'\<lparr>ms_state := set_state Available (ms_state s')\<rparr>)
      | (Inl e, s') \<Rightarrow> if is_thrown e
          then (Inl Fs_error, s'\<lparr>ms_state := set_error Fs_error (ms_state s')\<rparr>) else (Inl e, s'))"

text \<open>\<open>file\<close> is the content of the header file, the words of the bitset and the header.\<close>

definition mm_open :: "(u32 list \<times> mm_header) option \<Rightarrow> unit mm_cmd" where
  "mm_open file s = (case file of
       None \<Rightarrow> (Inl Precondition, s)
     | Some (ws, h) \<Rightarrow> (case bitset_map ws MM_MAX_BLOCKS of
           Inl e \<Rightarrow> (Inl e, s)
         | Inr bits \<Rightarrow> c_bind (c_all [c_mod (\<lambda>s. s\<lparr>ms_bits := Some bits, ms_header := Some h\<rparr>),
               c_check Postcondition (\<lambda>s. strncmp_eq (mh_name h) (ms_name s) (length (ms_name s))),
               c_check Precondition (\<lambda>_. version_compatible (mh_version h) MM_STRUCT_VERSION)]) (\<lambda>_.
             c_mod (\<lambda>s. s\<lparr>ms_lock := True, ms_state := set_state Available (ms_state s)\<rparr>)) s))"

definition mm_get_block_count :: "nat mm_cmd" where
  "mm_get_block_count = c_bind mm_available (\<lambda>_. c_bind mm_head (\<lambda>h. c_ret (mh_block_count h)))"

definition mm_get_last_index :: "nat mm_cmd" where
  "mm_get_last_index = c_bind mm_available (\<lambda>_. c_bind mm_head (\<lambda>h. c_ret (mh_last_written_index h)))"

subsection \<open>The transaction\<close>

definition tx_upd :: "(mm_transaction \<Rightarrow> mm_transaction) \<Rightarrow> unit mm_cmd" where
  "tx_upd f = c_mod (\<lambda>s. s\<lparr>ms_tx := f (ms_tx s)\<rparr>)"

definition tx_has_valid :: "mm_env \<Rightarrow> bool mm_cmd" where
  "tx_has_valid v s = (if mt_in_transaction (ms_tx s)
     then (case mt_block (ms_tx s) of None \<Rightarrow> (Inl Null_pointer, s)
           | Some i \<Rightarrow> on_mm_block i (blk_in_transaction (me_blk v)) s)
     else (Inr False, s))"

text \<open>Starting the block's transaction may take rounds; \<open>None\<close> when they run out.\<close>

definition mm_block_start :: "mm_env \<Rightarrow> u64 \<Rightarrow> nat \<Rightarrow> mm_struct \<Rightarrow> (string, mm_struct) res option" where
  "mm_block_start v timeout i s = (case ms_blocks s i of None \<Rightarrow> Some (Inl Mem_fault, s)
     | Some b \<Rightarrow> map_option (\<lambda>(r, b'). (r, s\<lparr>ms_blocks := (ms_blocks s)(i \<mapsto> b'), ms_client := bb_client b'\<rparr>))
         (blk_start_transaction (me_blk v) timeout [] (me_uuid v) (me_rounds v) (b\<lparr>bb_client := ms_client s\<rparr>)))"

definition tx_start :: "mm_env \<Rightarrow> u64 \<Rightarrow> nat option \<Rightarrow> mm_struct \<Rightarrow> (string, mm_struct) res option" where
  "tx_start v timeout p s = (if mt_in_transaction (ms_tx s) then Some (Inr (mt_txid (ms_tx s)), s)
     else case p of None \<Rightarrow> Some (Inl Null_pointer, s)
     | Some i \<Rightarrow> map_option (\<lambda>(r, s'). case r of
           Inl e \<Rightarrow> (Inl e, s')
         | Inr txid \<Rightarrow> (Inr txid, s'\<lparr>ms_tx := (if txid \<noteq> []
               then (ms_tx s')\<lparr>mt_txid := txid, mt_in_transaction := True, mt_starttime := be_now (me_blk v)\<rparr>
               else (ms_tx s')\<lparr>mt_txid := txid\<rparr>)\<rparr>))
         (mm_block_start v timeout i (s\<lparr>ms_tx := (ms_tx s)\<lparr>mt_block := Some i\<rparr>\<rparr>)))"

definition tx_end :: "mm_env \<Rightarrow> (string \<Rightarrow> (unit, base_block) cmd) \<Rightarrow> bool mm_cmd" where
  "tx_end v f = c_bind (tx_has_valid v) (\<lambda>ok.
     if ok then c_bind (\<lambda>s. on_block_ptr (mt_block (ms_tx s)) (f (mt_txid (ms_tx s))) s) (\<lambda>_.
                c_bind (tx_upd (\<lambda>_. no_transaction)) (\<lambda>_. c_ret True))
     else c_ret False)"

definition mm_start_transaction :: "mm_env \<Rightarrow> u64 \<Rightarrow> mm_struct \<Rightarrow> (bool, mm_struct) res option" where
  "mm_start_transaction v timeout s =
     (case c_bind (mm_try_lock v) (\<lambda>_. c_bind mm_head (\<lambda>h. mm_get_block v (mh_write_block_index h) True)) s of
        (Inl e, s1) \<Rightarrow> Some (Inl e, s1)
      | (Inr p, s1) \<Rightarrow> map_option (\<lambda>(r, s'). (case r of Inl e \<Rightarrow> Inl e | Inr txid \<Rightarrow> Inr (txid \<noteq> []), s')) (tx_start v timeout p s1))"

definition mm_commit :: "mm_env \<Rightarrow> bool mm_cmd" where
  "mm_commit v = tx_end v (blk_commit (me_blk v))"

definition mm_rollback :: "mm_env \<Rightarrow> bool mm_cmd" where
  "mm_rollback v = tx_end v (blk_rollback (me_blk v))"

definition mm_in_transaction :: "mm_env \<Rightarrow> string mm_cmd" where
  "mm_in_transaction v = c_bind (tx_has_valid v) (\<lambda>ok s. (Inr (if ok then mt_txid (ms_tx s) else []), s))"

subsection \<open>Writing\<close>

text \<open>The record goes into the block that is being written; the header and the block's record follow.\<close>

definition mm_put :: "mm_env \<Rightarrow> u8 list option \<Rightarrow> nat option \<Rightarrow> mm_block_info mm_cmd" where
  "mm_put v d p =
     c_bind (c_get (\<lambda>s. mt_txid (ms_tx s))) (\<lambda>txid.
     c_bind (c_check Empty_value (\<lambda>_. txid \<noteq> [])) (\<lambda>_.
     c_bind (on_block_ptr p (blk_write (me_blk v) d txid)) (\<lambda>i.
     c_bind (mm_head_upd (\<lambda>h. h\<lparr>mh_last_written_index := i mod 2 ^ 32\<rparr>)) (\<lambda>_.
     c_bind mm_head (\<lambda>h.
     c_bind (mm_get_block_info (mh_write_block_index h)) (\<lambda>_.
     c_bind (mm_info_upd (mh_write_block_index h) (\<lambda>bi. bi\<lparr>mb_last_index := i mod 2 ^ 32, mb_updated_time := be_now (me_blk v)\<rparr>)) (\<lambda>_.
     mm_get_block_info (mh_write_block_index h))))))))"

definition mm_room :: "mm_env \<Rightarrow> (nat option \<times> nat) mm_cmd" where
  "mm_room v = c_bind mm_head (\<lambda>h.
     c_bind (mm_get_block v (mh_write_block_index h) True) (\<lambda>p.
     c_bind (on_block_ptr p (blk_get_free_space (me_blk v))) (\<lambda>free. c_ret (p, free mod 2 ^ 32))))"

text \<open>When the record does not fit: commit, a new block, and a transaction on it.\<close>

definition mm_next_block :: "mm_env \<Rightarrow> mm_struct \<Rightarrow> (nat option, mm_struct) res option" where
  "mm_next_block v s =
     (case c_bind (mm_commit v) (\<lambda>_. c_bind (mm_create_new_block v) (\<lambda>_. c_bind mm_head (\<lambda>h.
           mm_get_block v (mh_write_block_index h) True))) s of
        (Inl e, s1) \<Rightarrow> Some (Inl e, s1)
      | (Inr p, s1) \<Rightarrow> map_option (\<lambda>(r, s2). (case r of Inl e \<Rightarrow> Inl e
            | Inr ok \<Rightarrow> if ok then Inr p else Inl Postcondition, s2)) (mm_start_transaction v (30 * 1000) s1))"

definition mm_write :: "mm_env \<Rightarrow> u8 list option \<Rightarrow> nat \<Rightarrow> mm_struct \<Rightarrow> (mm_block_info, mm_struct) res option" where
  "mm_write v d n s =
     (case c_bind mm_available (\<lambda>_. c_bind (mm_try_lock v) (\<lambda>_. c_assert Precondition (tx_has_valid v))) s of
        (Inl e, s1) \<Rightarrow> Some (Inl e, s1)
      | (Inr _, s1) \<Rightarrow> map_option (\<lambda>(r, s'). (case r of Inl e \<Rightarrow> Inl (to_fs_error e) | Inr bi \<Rightarrow> Inr bi, s'))
          (case mm_room v s1 of
             (Inl e, s2) \<Rightarrow> Some (Inl e, s2)
           | (Inr (p, free), s2) \<Rightarrow>
               if free < n
               then (case mm_next_block v s2 of None \<Rightarrow> None
                     | Some (Inl e, s3) \<Rightarrow> Some (Inl e, s3)
                     | Some (Inr p', s3) \<Rightarrow> Some (mm_put v d p' s3))
               else Some (mm_put v d p s2)))"

subsection \<open>Reading, removing, deleting\<close>

definition mm_read_from :: "mm_env \<Rightarrow> nat \<Rightarrow> nat \<Rightarrow> u8 list option mm_cmd" where
  "mm_read_from v index block_index =
     c_bind (mm_get_block v block_index False) (\<lambda>p.
     c_bind (not_null p) (\<lambda>_.
     c_bind (on_block_ptr p blk_get_start_index) (\<lambda>first.
     c_bind (on_block_ptr p blk_get_last_index) (\<lambda>last.
     c_bind (c_check Precondition (\<lambda>_. first \<le> index \<and> index \<le> last)) (\<lambda>_.
     c_bind (on_block_ptr p (blk_read (me_blk v) index 1 R_READABLE)) (\<lambda>ds.
     c_ret (case ds of [] \<Rightarrow> None | d # _ \<Rightarrow> Some d)))))))"

text \<open>The variant for a block record takes the id of the block for its index.\<close>

definition mm_read_info :: "mm_env \<Rightarrow> nat \<Rightarrow> mm_block_info option \<Rightarrow> u8 list option mm_cmd" where
  "mm_read_info v index bi = c_bind mm_available (\<lambda>_. case bi of
       None \<Rightarrow> c_throw Null_pointer
     | Some bi \<Rightarrow> c_bind mm_head (\<lambda>h.
         c_bind (c_check Precondition (\<lambda>_. index \<le> mh_last_written_index h)) (\<lambda>_. mm_read_from v index (mb_block_id bi))))"

definition mm_read :: "mm_env \<Rightarrow> nat \<Rightarrow> nat \<Rightarrow> u8 list option mm_cmd" where
  "mm_read v index block_index = c_bind mm_available (\<lambda>_. c_bind mm_head (\<lambda>h.
     c_bind (c_all [c_check Precondition (\<lambda>_. block_index < mh_block_count h),
                    c_check Precondition (\<lambda>_. index \<le> mh_last_written_index h)]) (\<lambda>_. mm_read_from v index block_index)))"

text \<open>The checks of \<open>remove\<close>, up to the start of the block's transaction.\<close>

definition mm_remove_checks :: "mm_env \<Rightarrow> nat \<Rightarrow> nat \<Rightarrow> nat mm_cmd" where
  "mm_remove_checks v index i = c_bind mm_available (\<lambda>_. c_bind mm_head (\<lambda>h.
     c_bind (c_all [c_check Precondition (\<lambda>_. i < mh_block_count h),
                    c_check Precondition (\<lambda>_. index \<le> mh_last_written_index h),
                    mm_try_lock v, c_assert Precondition (tx_has_valid v)]) (\<lambda>_.
     c_bind (mm_get_block v i True) (\<lambda>p.
     c_bind (not_null p) (\<lambda>_.
     c_bind (on_block_ptr p blk_get_start_index) (\<lambda>first.
     c_bind (on_block_ptr p blk_get_last_index) (\<lambda>last.
     c_bind (c_check Precondition (\<lambda>_. first \<le> index \<and> index \<le> last)) (\<lambda>_. c_ret (the p)))))))))"

definition mm_remove :: "mm_env \<Rightarrow> nat \<Rightarrow> nat \<Rightarrow> mm_struct \<Rightarrow> (bool, mm_struct) res option" where
  "mm_remove v index block_index s =
     (case mm_remove_checks v index block_index s of
        (Inl e, s1) \<Rightarrow> Some (Inl e, s1)
      | (Inr i, s1) \<Rightarrow> (case mm_block_start v 0 i s1 of
            None \<Rightarrow> None
          | Some (Inl e, s2) \<Rightarrow> Some (Inl e, s2)
          | Some (Inr txid, s2) \<Rightarrow> Some (
              c_bind (c_check Postcondition (\<lambda>_. txid \<noteq> [])) (\<lambda>_.
              c_bind (on_mm_block i (blk_delete_record (me_blk v) index txid)) (\<lambda>r.
              c_bind (on_mm_block i (blk_commit (me_blk v) txid)) (\<lambda>_.
              c_bind (mm_get_block_info block_index) (\<lambda>_.
              c_bind (mm_info_upd block_index (\<lambda>bi. bi\<lparr>mb_updated_time := be_now (me_blk v)\<rparr>)) (\<lambda>_. c_ret r))))) s2)))"

text \<open>The loop of \<open>get_block_id_for_index\<close>: \<open>ii\<close> counts the bits that are on up to \<open>offset\<close>.\<close>

fun mm_block_for_index :: "nat \<Rightarrow> nat \<Rightarrow> nat \<Rightarrow> nat \<Rightarrow> mm_block_info option mm_cmd" where
  "mm_block_for_index 0 index ii offset = c_ret None"
| "mm_block_for_index (Suc n) index ii offset = c_bind mm_head (\<lambda>h.
     if \<not> ii < mh_block_count h then c_ret None
     else c_bind (on_mm_bits (\<lambda>b. (bitset_check b offset, b))) (\<lambda>on.
       if on
       then c_bind (mm_get_block_info ii) (\<lambda>bi.
            c_bind (c_check Postcondition (\<lambda>_. mb_used bi)) (\<lambda>_.
            if mb_start_index bi \<le> index \<and> index \<le> mb_last_index bi then c_ret (Some bi)
            else mm_block_for_index n index (ii + 1) (offset + 1)))
       else mm_block_for_index n index ii (offset + 1)))"

definition mm_get_block_id_for_index :: "nat \<Rightarrow> mm_block_info option mm_cmd" where
  "mm_get_block_id_for_index index = mm_block_for_index MM_MAX_BLOCKS index 0 0"

text \<open>Freeing an open block closes it and leaves its content in the file.\<close>

definition mm_free_block :: "mm_env \<Rightarrow> nat \<Rightarrow> unit mm_cmd" where
  "mm_free_block v i = c_bind (on_mm_block i (blk_close (me_blk v))) (\<lambda>_. c_mod (\<lambda>s. case ms_blocks s i of
       None \<Rightarrow> s
     | Some b \<Rightarrow> s\<lparr>ms_files := (ms_files s)(bb_filename b \<mapsto> file_of b), ms_blocks := (ms_blocks s)(i := None)\<rparr>))"

definition mm_delete_block :: "mm_env \<Rightarrow> nat \<Rightarrow> bool mm_cmd" where
  "mm_delete_block v block_index = c_bind mm_available (\<lambda>_. c_bind mm_head (\<lambda>h.
     c_bind (c_all [c_check Precondition (\<lambda>_. block_index < mh_block_count h), mm_try_lock v]) (\<lambda>_.
     c_bind (mm_get_block_info block_index) (\<lambda>bi.
     if mb_deleted bi then c_ret False
     else
       c_bind (mm_info_upd block_index (\<lambda>bi. bi\<lparr>mb_deleted := True\<rparr>)) (\<lambda>_.
       c_bind (\<lambda>s. if ms_blocks s block_index \<noteq> None then mm_free_block v block_index s else (Inr (), s)) (\<lambda>_.
       c_bind (on_mm_bits (\<lambda>b. bitset_clear b (mb_index bi))) (\<lambda>_.
       c_bind (\<lambda>s. bu_delete_block v (mb_block_id bi) (mb_filename bi) (ms_type s) s) (\<lambda>_. c_ret True))))))))"

end
