(* ===== verification/MmProps.thy ===== *)
theory MmProps
  imports MmStruct BlockDemo MountProps
begin

section \<open>What the structure of block files does\<close>

text \<open>
  The allocation of a block record fails always, so no structure can be created. On a structure that is
  there (\<open>mm_ready\<close>: a transaction on the block that is being written) the theorems follow a record from
  the write through the commit to the read, and show what is left when the record does not fit.
\<close>

subsection \<open>No block is ever allocated\<close>

lemma check_and_set_twice:
  assumes "bitset_check_and_set b i = (Inr True, b')"
  shows "bitset_check_and_set b' i = (Inr False, b')"
proof -
  have set: "bitset_set b i = (Inr (), b')"
    using assms by (auto simp: bitset_check_and_set_def split: sum.splits bool.splits prod.splits)
  then have lt: "u16 i < bs_max_offset b" "u16 i div 32 < length (bs_data b)"
    and b': "b' = b\<lparr>bs_data := (bs_data b)[u16 i div 32 := (bs_data b ! (u16 i div 32)) OR push_bit (u16 i mod 32) 1]\<rparr>"
    by (auto simp: bitset_set_def Let_def split: if_splits)
  have "bitset_check b' i = Inr True"
    using lt by (simp add: bitset_check_def Let_def b' and_exp_iff_bit bit_or_exp)
  then show ?thesis
    by (simp add: bitset_check_and_set_def)
qed

lemma free_bit_is_set:
  "free_bit_from b k = (Inr n, b') \<Longrightarrow> 0 \<le> n \<Longrightarrow> bitset_check_and_set b' (nat n) = (Inr False, b')"
proof (induction b k rule: free_bit_from.induct)
  case (1 b k)
  show ?case
  proof (cases "k < bs_max_offset b")
    case False
    then show ?thesis
      using 1(2,3) by (simp add: free_bit_from.simps [of b k])
  next
    case True
    obtain r b1 where cs: "bitset_check_and_set b k = (r, b1)"
      by fastforce
    show ?thesis
    proof (cases r)
      case (Inl e)
      then show ?thesis
        using 1(2) True cs by (simp add: free_bit_from.simps [of b k])
    next
      case (Inr ok)
      show ?thesis
      proof (cases ok)
        case True: True
        then show ?thesis
          using 1(2) \<open>k < bs_max_offset b\<close> cs Inr check_and_set_twice
          by (auto simp: free_bit_from.simps [of b k])
      next
        case False
        then have "free_bit_from b (k + 1) = (Inr n, b')"
          using 1(2) True cs Inr by (simp add: free_bit_from.simps [of b k])
        then show ?thesis
          using 1(1) [OF True cs [symmetric]] Inr False 1(3) by simp
      qed
    qed
  qed
qed

lemma get_free_bit_is_set:
  "bitset_get_free_bit b = (Inr n, b') \<Longrightarrow> 0 \<le> n \<Longrightarrow> bitset_check_and_set b' (nat n) = (Inr False, b')"
  unfolding bitset_get_free_bit_def by (rule free_bit_is_set)

lemma find_free_index_fails: "\<exists>e s'. mm_find_free_index s = (Inl e, s') \<and> (\<exists>bits. s' = s\<lparr>ms_bits := bits\<rparr>)"
proof (cases "ms_bits s")
  case None
  then show ?thesis
    by (intro exI conjI [OF _ exI [of _ None]]) (auto simp: mm_find_free_index_def on_mm_bits_def cmd_simps)
next
  case (Some b)
  obtain r b1 where g: "bitset_get_free_bit b = (r, b1)"
    by fastforce
  show ?thesis
  proof (cases r)
    case (Inl e)
    then show ?thesis
      using Some g by (auto simp: mm_find_free_index_def on_mm_bits_def c_bind_def)
  next
    case (Inr n)
    then show ?thesis
      using Some g get_free_bit_is_set [of b n b1]
      by (cases "n < 0") (auto simp: mm_find_free_index_def on_mm_bits_def c_bind_def c_throw_def)
  qed
qed

lemma create_new_block_fails: "\<exists>e bits. mm_create_new_block v s = (Inl e, s\<lparr>ms_bits := bits\<rparr>)"
  using find_free_index_fails [of s] by (auto simp: mm_create_new_block_def c_bind_def)

lemma find_free_index_wf:
  assumes "ms_bits s = Some b" "bitset_wf b"
  shows "\<exists>e s'. mm_find_free_index s = (Inl e, s') \<and> is_thrown e"
proof (cases "bits_of b = {..<bs_max_offset b}")
  case True
  then show ?thesis
    using assms get_free_bit_full [OF assms(2) True]
    by (auto simp: mm_find_free_index_def on_mm_bits_def c_bind_def c_throw_def is_thrown_def)
next
  case False
  then obtain n b1 where g: "bitset_get_free_bit b = (Inr (int n), b1)"
    using get_free_bit_least(1) [OF assms(2)] by blast
  then show ?thesis
    using assms get_free_bit_is_set [OF g]
    by (auto simp: mm_find_free_index_def on_mm_bits_def c_bind_def c_throw_def is_thrown_def)
qed

lemma fresh_bits_free: "bitset_get_free_bit \<lparr>bs_size = 1024, bs_data = replicate 32 0, bs_mapped = True, bs_max_offset = 8192\<rparr>
   = (Inr 0, \<lparr>bs_size = 1024, bs_data = 1 # replicate 31 0, bs_mapped = True, bs_max_offset = 8192\<rparr>)"
proof -
  have r: "replicate 32 (0 :: u32) = 0 # replicate 31 0" "skip_full (take 256 (0 # ws)) = 0" for ws
    by (simp_all add: numeral_eq_Suc less_max_u32)
  have s: "u16 (skip_full (bitset_words \<lparr>bs_size = 1024, bs_data = replicate 32 0, bs_mapped = True, bs_max_offset = 8192\<rparr>)) = 0"
    by (simp add: bitset_words_def r u16_def less_max_u32)
  show ?thesis
    unfolding bitset_get_free_bit_def s unfolding r(1)
    by (subst free_bit_from.simps) (simp add: bitset_check_and_set_def bitset_check_def bitset_set_def u16_def Let_def)
qed

subsection \<open>Properties\<close>


subsection \<open>A structure with a transaction on the block that is being written\<close>

text \<open>\<open>mm_at s i b\<close>: \<open>b\<close> is the open block \<open>i\<close> of the structure, with the lock client of the process.\<close>

definition mm_at :: "mm_struct \<Rightarrow> nat \<Rightarrow> base_block \<Rightarrow> bool" where
  "mm_at s i b \<longleftrightarrow> (\<exists>b0. ms_blocks s i = Some b0 \<and> b = b0\<lparr>bb_client := ms_client s\<rparr>)"

definition mm_has_room_for :: "mm_struct \<Rightarrow> nat \<Rightarrow> bool" where
  "mm_has_room_for s i \<longleftrightarrow> (\<exists>h. ms_header s = Some h \<and> mh_write_block_index h = i \<and> i < mh_block_count h
     \<and> i < length (mh_blocks h))"

definition mm_ready :: "mm_env \<Rightarrow> string \<Rightarrow> nat \<Rightarrow> mm_struct \<Rightarrow> base_block \<Rightarrow> bool" where
  "mm_ready v tx i s b \<longleftrightarrow> is_available (ms_state s) \<and> ms_lock s \<and> me_got v \<and> mm_has_room_for s i \<and> mm_at s i b
     \<and> mt_in_transaction (ms_tx s) \<and> mt_txid (ms_tx s) = tx \<and> mt_block (ms_tx s) = Some i"

definition mm_set :: "nat \<Rightarrow> base_block \<Rightarrow> mm_struct \<Rightarrow> mm_struct" where
  "mm_set i b s = s\<lparr>ms_blocks := (ms_blocks s)(i \<mapsto> b), ms_client := bb_client b\<rparr>"

lemma mm_set_simps [simp]:
  "ms_state (mm_set i b s) = ms_state s" "ms_lock (mm_set i b s) = ms_lock s" "ms_header (mm_set i b s) = ms_header s"
  "ms_tx (mm_set i b s) = ms_tx s" "ms_bits (mm_set i b s) = ms_bits s" "mm_set i b' (mm_set i b s) = mm_set i b' s"
  "ms_files (mm_set i b s) = ms_files s" "ms_blocks (mm_set i b s) i = Some b" "mm_at (mm_set i b s) i b"
  by (simp_all add: mm_set_def mm_at_def)

lemma on_block_at: "mm_at s i b \<Longrightarrow> on_mm_block i f s = (fst (f b), mm_set i (snd (f b)) s)"
  by (auto simp: mm_at_def on_mm_block_def mm_set_def split: prod.splits)

lemma on_block_set [simp]: "on_mm_block i f (mm_set i b s) = (fst (f b), mm_set i (snd (f b)) s)"
  by (simp add: on_block_at [of "mm_set i b s" i b])

lemma ready_set [simp]: "mm_ready v tx i s b \<Longrightarrow> mm_ready v tx i (mm_set i b' s) b'"
  by (simp add: mm_ready_def mm_has_room_for_def)

lemma get_block_at: "mm_at s i b \<Longrightarrow> is_available (ms_state s) \<Longrightarrow> mm_get_block v i u s = (Inr (Some i), s)"
  by (auto simp: mm_at_def mm_get_block_def mm_available_def cmd_simps)

lemma ready_valid:
  assumes "mm_ready v tx i s b" "blk_session (me_blk v) tx b"
  shows "tx_has_valid v s = (Inr True, mm_set i (blk_touch (me_blk v) b) s)"
proof -
  have "mm_at s i b" "mt_in_transaction (ms_tx s)" "mt_block (ms_tx s) = Some i"
    using assms(1) by (simp_all add: mm_ready_def)
  then show ?thesis
    using session_in_tx [OF assms(2)] by (simp add: tx_has_valid_def on_block_at)
qed

text \<open>The first steps of \<open>write\<close>: the checks, and the room that is left in the block.\<close>

lemma write_starts:
  assumes "mm_ready v tx i s b" "blk_session (me_blk v) tx b"
  shows "c_bind mm_available (\<lambda>_. c_bind (mm_try_lock v) (\<lambda>_. c_assert Precondition (tx_has_valid v))) s
    = (Inr (), mm_set i (blk_touch (me_blk v) b) s)"
proof -
  note rv = ready_valid [OF assms]
  have "is_available (ms_state s)" "ms_lock s" "me_got v"
    using assms(1) by (simp_all add: mm_ready_def)
  then show ?thesis
    using rv by (simp add: mm_available_def mm_try_lock_def cmd_simps c_assert_def)
qed

lemma room_ready:
  assumes "mm_ready v tx i s b" "blk_get_free_space (me_blk v) b = (Inr free, b')"
  shows "mm_room v s = (Inr (Some i, free mod 2 ^ 32), mm_set i b' s)"
proof -
  obtain h where h: "ms_header s = Some h" "mh_write_block_index h = i"
    using assms(1) by (auto simp: mm_ready_def mm_has_room_for_def)
  have at: "mm_at s i b" and av: "is_available (ms_state s)"
    using assms(1) by (simp_all add: mm_ready_def)
  show ?thesis
    using h assms(2) by (simp add: mm_room_def mm_head_def get_block_at [OF at av] on_block_ptr_def on_block_at [OF at] cmd_simps)
qed

lemma put_ready:
  assumes "mm_ready v tx i s b" "tx \<noteq> []" "blk_write (me_blk v) d tx b = (Inr n, b')"
  shows "\<exists>bi h. mm_put v d (Some i) s = (Inr bi, (mm_set i b' s)\<lparr>ms_header := Some h\<rparr>)
    \<and> mb_last_index bi = n mod 2 ^ 32 \<and> mh_last_written_index h = n mod 2 ^ 32 \<and> mh_write_block_index h = i
    \<and> i < mh_block_count h \<and> i < length (mh_blocks h) \<and> mh_blocks h ! i = bi"
proof -
  obtain h where h: "ms_header s = Some h" "mh_write_block_index h = i" "i < mh_block_count h" "i < length (mh_blocks h)"
    using assms(1) by (auto simp: mm_ready_def mm_has_room_for_def)
  have at: "mm_at s i b" and tx: "mt_txid (ms_tx s) = tx"
    using assms(1) by (simp_all add: mm_ready_def)
  let ?bi = "(mh_blocks h ! i)\<lparr>mb_last_index := n mod 2 ^ 32, mb_updated_time := be_now (me_blk v)\<rparr>"
  let ?h = "h\<lparr>mh_last_written_index := n mod 2 ^ 32, mh_blocks := (mh_blocks h)[i := ?bi]\<rparr>"
  have "mm_put v d (Some i) s = (Inr ?bi, (mm_set i b' s)\<lparr>ms_header := Some ?h\<rparr>)"
    using h tx assms(2,3)
    by (simp add: mm_put_def mm_head_def mm_head_upd_def mm_info_upd_def mm_get_block_info_def on_block_ptr_def
        on_block_at [OF at] cmd_simps)
  then show ?thesis
    using h by (intro exI [of _ ?bi] exI [of _ ?h]) simp
qed

lemma write_ready:
  assumes rdy: "mm_ready v tx i s b" and ses: "blk_session (me_blk v) tx b" and rep: "blk_repr b cs ps"
    and txr: "blk_tx b cs ps" and room: "blk_room b (cs @ ps) [d]" and small: "bh_block_size (bb_header b) < 2 ^ 32"
  obtains bi b' h where "mm_write v (Some d) (length d) s = Some (Inr bi, (mm_set i b' s)\<lparr>ms_header := Some h\<rparr>)"
    "mb_last_index bi = (bh_last_index (bb_header b) + length ps) mod 2 ^ 32"
    "mh_last_written_index h = (bh_last_index (bb_header b) + length ps) mod 2 ^ 32"
    "mm_ready v tx i ((mm_set i b' s)\<lparr>ms_header := Some h\<rparr>) b'"
    "blk_held (me_blk v) tx b'" "blk_repr b' cs (ps @ [new_chunk (me_blk v) (blk_touch (me_blk v) b) cs ps 0 d])"
    "blk_tx b' cs (ps @ [new_chunk (me_blk v) (blk_touch (me_blk v) b) cs ps 0 d])" "blk_frame (blk_touch (me_blk v) b) b'"
    "blk_releasable (me_blk v) b' = blk_releasable (me_blk v) b"
proof -
  let ?w = "me_blk v"
  let ?b1 = "blk_touch ?w b"
  let ?s1 = "mm_set i ?b1 s"
  have held: "blk_held ?w tx ?b1" using session_touch_held [OF ses] .
  note ses1 = held_session [OF held]
  have rep1: "blk_repr ?b1 cs ps" and tx1: "blk_tx ?b1 cs ps" using rep txr by simp_all
  have rdy1: "mm_ready v tx i ?s1 ?b1" using rdy by simp
  have sum: "payload_bytes cs + payload_bytes ps + length d + REC_HEADER_SIZE < bh_block_size (bb_header ?b1)"
    and fits: "blk_fits ?w ?b1 (cs @ ps) (length d)"
    using room by (simp_all add: blk_room_def blk_fits_def)
  define free where "free = bh_block_size (bb_header ?b1) - (payload_bytes cs + payload_bytes ps + REC_HEADER_SIZE)"
  have "blk_get_free_space ?w ?b1 = (Inr free, ?b1)"
    using free_space_eval [OF ses1 rep1 tx1] sum held_touch [OF held] by (simp add: free_def)
  then have rm: "mm_room v ?s1 = (Inr (Some i, free mod 2 ^ 32), ?s1)"
    using room_ready [OF rdy1] by simp
  have big: "\<not> free mod 2 ^ 32 < length d"
  proof -
    have "free < 2 ^ 32" using small by (simp add: free_def)
    then have "free mod 2 ^ 32 = free" by (rule mod_less)
    then show ?thesis using sum by (simp add: free_def)
  qed
  obtain b' where b': "blk_write ?w (Some d) tx ?b1 = (Inr (bh_last_index (bb_header ?b1) + length ps), b')"
    "blk_held ?w tx b'" "blk_repr b' cs (ps @ [new_chunk ?w ?b1 cs ps 0 d])"
    "blk_tx b' cs (ps @ [new_chunk ?w ?b1 cs ps 0 d])" "blk_frame ?b1 b'" "blk_releasable ?w b' = blk_releasable ?w ?b1"
    by (rule write_spec [OF ses1 rep1 tx1 fits has_space_room [OF ses1 rep1 tx1 sum]])
  have "tx \<noteq> []" using ses by (simp add: blk_session_def)
  from put_ready [OF rdy1 this b'(1)] obtain bi h where p:
    "mm_put v (Some d) (Some i) ?s1 = (Inr bi, (mm_set i b' s)\<lparr>ms_header := Some h\<rparr>)"
    "mb_last_index bi = (bh_last_index (bb_header b) + length ps) mod 2 ^ 32"
    "mh_last_written_index h = (bh_last_index (bb_header b) + length ps) mod 2 ^ 32" "mh_write_block_index h = i"
    "i < mh_block_count h" "i < length (mh_blocks h)"
    by auto
  have w: "mm_write v (Some d) (length d) s = Some (Inr bi, (mm_set i b' s)\<lparr>ms_header := Some h\<rparr>)"
    unfolding mm_write_def write_starts [OF rdy ses] using rm big p(1) by simp
  have "mm_ready v tx i ((mm_set i b' s)\<lparr>ms_header := Some h\<rparr>) b'"
    using rdy p by (simp add: mm_ready_def mm_has_room_for_def mm_at_def mm_set_def)
  then show ?thesis
    using that w p b' by simp
qed

lemma commit_ready:
  assumes "mm_ready v tx i s b" "blk_held (me_blk v) tx b" "blk_commit (me_blk v) tx b = (Inr (), b')"
  shows "mm_commit v s = (Inr True, (mm_set i b' s)\<lparr>ms_tx := no_transaction\<rparr>)"
proof -
  have "mm_at s i b" "mt_block (ms_tx s) = Some i" "mt_txid (ms_tx s) = tx"
    using assms(1) by (simp_all add: mm_ready_def)
  moreover have "mm_at (mm_set i b s) i b"
    by simp
  ultimately show ?thesis
    using ready_valid [OF assms(1) held_session [OF assms(2)]] held_touch [OF assms(2)] assms(3)
    by (simp add: mm_commit_def tx_end_def tx_upd_def on_block_ptr_def c_bind_def [of "\<lambda>s. _ s"]
        on_block_at [of "mm_set i b s" i b] cmd_simps)
qed

lemma mm_read_at:
  assumes "mm_at s i b" "is_available (ms_state s)" "ms_header s = Some h" "i < mh_block_count h" "bb_available b"
    and rep: "blk_repr b cs []" and n: "n < length cs"
    and idx: "bh_start_index (bb_header b) + n \<le> mh_last_written_index h"
  shows "fst (mm_read v (bh_start_index (bb_header b) + n) i s) = Inr (Some (snd (cs ! n)))"
proof -
  have last: "bh_last_index (bb_header b) = bh_start_index (bb_header b) + length cs"
    using rep by (simp add: blk_repr_def)
  have one: "take 1 (drop n cs) = [cs ! n]"
    using n by (simp add: take_Suc_conv_app_nth Cons_nth_drop_Suc [symmetric])
  have rd: "fst (blk_read (me_blk v) (bh_start_index (bb_header b) + n) 1 R_READABLE b) = Inr [snd (cs ! n)]"
    using read_readable [OF rep assms(5), of n "me_blk v" 1] n one by simp
  have set: "on_mm_block i f s = (Inr x, mm_set i b s)" if "f b = (Inr x, b)" for f :: "('x, base_block) cmd" and x
    using on_block_at [OF assms(1), of f] that by simp
  have start: "blk_get_start_index b = (Inr (bh_start_index (bb_header b)), b)"
    and lasti: "blk_get_last_index b = (Inr (bh_last_index (bb_header b)), b)"
    using assms(5) by (simp_all add: blk_get_start_index_def blk_get_last_index_def cmd_simps)
  have at: "mm_at (mm_set i b s) i b" by simp
  show ?thesis
    using assms(2-4) idx n last rd
    by (auto simp: mm_read_def mm_available_def mm_head_def mm_read_from_def get_block_at [OF assms(1,2)]
        not_null_def on_block_ptr_def on_block_at [OF assms(1)] on_block_at [OF at] start lasti cmd_simps
        c_bind_def [of "on_mm_block i (blk_read _ _ _ _)"] split: prod.splits sum.splits)
qed

text \<open>C9. What a transaction writes through the structure and commits is read back under the index
  that the write reported, and the records that were there before are still read; the structure has no
  transaction afterwards.\<close>

theorem mm_write_roundtrip:
  assumes "mm_ready v tx i s b" "blk_session (me_blk v) tx b" "blk_releasable (me_blk v) b"
    and "blk_repr b cs []" "blk_tx b cs []" "bb_deletes b = []" "blk_room b cs [d]"
    and "bh_block_size (bb_header b) < 2 ^ 32" "bh_last_index (bb_header b) < 2 ^ 32"
  shows "\<exists>bi s1 s2. mm_write v (Some d) (length d) s = Some (Inr bi, s1) \<and> mm_commit v s1 = (Inr True, s2)
    \<and> ms_tx s2 = no_transaction \<and> mb_last_index bi = bh_last_index (bb_header b)
    \<and> fst (mm_read v (mb_last_index bi) i s2) = Inr (Some d)
    \<and> (\<forall>n < length cs. fst (mm_read v (bh_start_index (bb_header b) + n) i s2) = Inr (Some (snd (cs ! n))))"
proof -
  let ?c = "new_chunk (me_blk v) (blk_touch (me_blk v) b) cs [] 0 d"
  obtain bi b1 h where w: "mm_write v (Some d) (length d) s = Some (Inr bi, (mm_set i b1 s)\<lparr>ms_header := Some h\<rparr>)"
    "mb_last_index bi = (bh_last_index (bb_header b) + length ([] :: chunk list)) mod 2 ^ 32"
    "mh_last_written_index h = (bh_last_index (bb_header b) + length ([] :: chunk list)) mod 2 ^ 32"
    "mm_ready v tx i ((mm_set i b1 s)\<lparr>ms_header := Some h\<rparr>) b1"
    "blk_held (me_blk v) tx b1" "blk_repr b1 cs ([] @ [?c])"
    "blk_tx b1 cs ([] @ [?c])" "blk_frame (blk_touch (me_blk v) b) b1"
    "blk_releasable (me_blk v) b1 = blk_releasable (me_blk v) b"
    by (rule write_ready [OF assms(1,2,4,5)]) (use assms in simp_all)
  have fr: "bb_deletes b1 = []" "bh_start_index (bb_header b1) = bh_start_index (bb_header b)"
    using w(8) frame_fields(1) [OF w(8)] assms(6) by (simp_all add: blk_frame_def)
  obtain b2 where c: "blk_commit (me_blk v) tx b1 = (Inr (), b2)"
    "blk_repr b2 (cs @ map (with_state R_READABLE) [?c]) []" "bb_available b2"
    "bh_start_index (bb_header b2) = bh_start_index (bb_header b1)"
    by (rule commit_spec [OF held_session [OF w(5)] _ w(6,7)]) (use w(9) assms(3) fr in \<open>simp_all add: \<close>)
  let ?s2 = "(mm_set i b2 ((mm_set i b1 s)\<lparr>ms_header := Some h\<rparr>))\<lparr>ms_tx := no_transaction\<rparr>"
  let ?cs = "cs @ [with_state R_READABLE ?c]"
  have cm: "mm_commit v ((mm_set i b1 s)\<lparr>ms_header := Some h\<rparr>) = (Inr True, ?s2)"
    by (rule commit_ready [OF w(4,5) c(1)])
  have last: "bh_last_index (bb_header b) = bh_start_index (bb_header b2) + length cs"
    using assms(4) c(4) fr by (simp add: blk_repr_def)
  have at: "mm_at ?s2 i b2" "is_available (ms_state ?s2)" "ms_header ?s2 = Some h" "i < mh_block_count h"
    using w(4) by (simp_all add: mm_at_def mm_set_def mm_ready_def mm_has_room_for_def)
  have rd: "fst (mm_read v (bh_start_index (bb_header b2) + n) i ?s2) = Inr (Some (snd (?cs ! n)))" if "n \<le> length cs" for n
    by (rule mm_read_at [OF at c(3)]) (use c(2) that w(3) last assms(9) in simp_all)
  have "snd (?cs ! length cs) = d" by (simp add: new_chunk_def)
  then have new: "fst (mm_read v (mb_last_index bi) i ?s2) = Inr (Some d)"
    using rd [of "length cs"] w(2) last assms(9) by simp
  have old: "fst (mm_read v (bh_start_index (bb_header b) + n) i ?s2) = Inr (Some (snd (cs ! n)))" if "n < length cs" for n
    using rd [of n] that c(4) fr by (simp add: nth_append)
  show ?thesis
    using w(1,2) cm new old assms(9) by (intro exI conjI) auto
qed

text \<open>C38. A record that does not fit into what is left of the block is lost: the write commits
  the transaction, with what was written before, then fails to get a new block and ends with \<open>Fs_error\<close>,
  and the structure has no transaction any more.\<close>

theorem mm_full_block_loses:
  assumes "mm_ready v tx i s b" "blk_session (me_blk v) tx b" "blk_releasable (me_blk v) b"
    and "blk_repr b cs ps" "blk_tx b cs ps" "bb_deletes b = []" "ms_bits s = Some bits" "bitset_wf bits"
    and "payload_bytes cs + payload_bytes ps + REC_HEADER_SIZE < bh_block_size (bb_header b)"
    and "bh_block_size (bb_header b) < payload_bytes cs + payload_bytes ps + REC_HEADER_SIZE + n"
  shows "\<exists>s' b'. mm_write v d n s = Some (Inl Fs_error, s') \<and> ms_tx s' = no_transaction
    \<and> mm_at s' i b' \<and> blk_unlocked b'
    \<and> fst (blk_read w (bh_start_index (bb_header b)) (length cs + length ps + 1) R_READABLE b') = Inr (map snd (cs @ ps))"
proof -
  let ?w = "me_blk v"
  let ?b1 = "blk_touch ?w b"
  let ?s1 = "mm_set i ?b1 s"
  have held: "blk_held ?w tx ?b1" using session_touch_held [OF assms(2)] .
  note ses1 = held_session [OF held]
  have rep1: "blk_repr ?b1 cs ps" and tx1: "blk_tx ?b1 cs ps" using assms(4,5) by simp_all
  have rdy1: "mm_ready v tx i ?s1 ?b1" using assms(1) by simp
  define free where "free = bh_block_size (bb_header ?b1) - (payload_bytes cs + payload_bytes ps + REC_HEADER_SIZE)"
  have "blk_get_free_space ?w ?b1 = (Inr free, ?b1)"
    using free_space_eval [OF ses1 rep1 tx1] assms(9) held_touch [OF held] by (simp add: free_def)
  then have rm: "mm_room v ?s1 = (Inr (Some i, free mod 2 ^ 32), ?s1)"
    using room_ready [OF rdy1] by simp
  have "free mod 2 ^ 32 \<le> free" by (rule mod_less_eq_dividend)
  then have full: "free mod 2 ^ 32 < n"
    using assms(9,10) by (simp add: free_def)
  obtain b2 where c: "blk_commit ?w tx ?b1 = (Inr (), b2)"
    "blk_repr b2 (cs @ map (with_state R_READABLE) ps) []" "bb_available b2" "blk_unlocked b2"
    "bh_start_index (bb_header b2) = bh_start_index (bb_header ?b1)"
    by (rule commit_spec [OF ses1 _ rep1 tx1]) (use assms(3,6) in simp_all)
  let ?s2 = "(mm_set i b2 ?s1)\<lparr>ms_tx := no_transaction\<rparr>"
  have cm: "mm_commit v ?s1 = (Inr True, ?s2)"
    by (rule commit_ready [OF rdy1 held c(1)])
  obtain e bits' where cn: "mm_create_new_block v ?s2 = (Inl e, ?s2\<lparr>ms_bits := bits'\<rparr>)"
    using create_new_block_fails by blast
  have "is_thrown e"
    using find_free_index_wf [of ?s2 bits] assms(7,8) cn by (auto simp: mm_create_new_block_def c_bind_def)
  then have "mm_write v d n s = Some (Inl Fs_error, ?s2\<lparr>ms_bits := bits'\<rparr>)"
    unfolding mm_write_def write_starts [OF assms(1,2)] using rm full cm cn
    by (simp add: mm_next_block_def cmd_simps to_fs_error_def)
  moreover have "fst (blk_read w (bh_start_index (bb_header b)) (length cs + length ps + 1) R_READABLE b2)
      = Inr (map snd (cs @ ps))"
    using read_readable [OF c(2,3), of 0 w "length cs + length ps + 1"] c(5) by simp
  ultimately show ?thesis
    using c(4) by (intro exI [of _ "?s2\<lparr>ms_bits := bits'\<rparr>"] exI [of _ b2]) (simp add: mm_at_def mm_set_def)
qed

subsection \<open>Removing from the block that is being written\<close>

text \<open>The thread that holds the lock gets it again, and the block's transaction starts over.\<close>

lemma start_again:
  assumes ses: "blk_session w tx b" and rel: "blk_releasable w b" and u: "be_user w = Some u" "u \<noteq> []"
    and r: "rd_got r" "rd_env r = (\<lambda>t. t)" "rd_now r = be_now w"
  shows "\<exists>rid. rid \<noteq> [] \<and> blk_start_transaction w timeout [] uuid (r # rs) b
    = Some (Inr rid, blk_setup_transaction w rid (blk_touch w b))"
proof -
  obtain n l where n: "bb_lock b = Some n" "wc_find (bb_client b) n = Some l" "wk_txn_id l \<noteq> []"
    using rel by (auto simp: blk_releasable_def)
  have l: "wk_session (be_call w) l (wc_table (bb_client b))" and av: "bb_available b"
    using ses n by (auto simp: blk_session_def wc_session_def)
  have wa: "wk_available l"
    using l by (auto simp: wk_session_def wk_live_def)
  have "wk_get_lock (be_call w) u timeout [] uuid l (wc_table (bb_client b)) (r # rs)
      = Some (Inr (wk_txn_id l), (l, wk_touch (be_call w) l (wc_table (bb_client b))))"
    using wa u(2) r session_has [OF l] by (simp add: wk_get_lock_def wk_attempt_def)
  then show ?thesis
    using n av u(1) by (intro exI [of _ "wk_txn_id l"]) (simp add: blk_start_transaction_def blk_touch_def wc_touch_def)
qed

lemma restarted_delete:
  assumes held: "blk_held w tx b" and rel: "blk_releasable w b" and rep: "blk_repr b cs ps" and del: "bb_deletes b = []"
    and st: "bh_write_state (bb_header b) = WRITABLE" "n < length cs" "rh_state (fst (cs ! n)) = R_READABLE"
    and u: "be_user w = Some u" "u \<noteq> []" and r: "rd_got r" "rd_env r = (\<lambda>t. t)" "rd_now r = be_now w"
  obtains rid b2 b3 b4 ds where "rid \<noteq> []" "blk_start_transaction w timeout [] uuid (r # rs) b = Some (Inr rid, b2)"
    "blk_delete_record w (bh_start_index (bb_header b) + n) rid b2 = (Inr True, b3)" "blk_commit w rid b3 = (Inr (), b4)"
    "blk_repr b4 (mark (bh_start_index (bb_header b)) ds cs) []" "blk_unlocked b4" "bb_available b4"
    "bh_start_index (bb_header b4) = bh_start_index (bb_header b)" "bh_last_index (bb_header b4) = bh_last_index (bb_header b)"
proof -
  have last: "bh_last_index (bb_header b) = bh_start_index (bb_header b) + length cs"
    using rep by (simp add: blk_repr_def)
  obtain rid where rid: "rid \<noteq> []" "blk_start_transaction w timeout [] uuid (r # rs) b = Some (Inr rid, blk_setup_transaction w rid b)"
    using start_again [OF held_session [OF held] rel u r, of timeout uuid rs] held_touch [OF held] by auto
  define b2 where "b2 = blk_setup_transaction w rid b"
  have rep2: "blk_repr b2 cs []" and tx2: "blk_tx b2 cs []"
    using setup_repr [of b cs w rid] repr_forget [OF rep] by (simp_all add: b2_def)
  have ses2: "blk_session w rid b2" and rel2: "blk_releasable w b2"
    using held_session [OF held] rid(1) rel releasable_cong [of b2 b w] by (auto simp: b2_def blk_session_def blk_setup_transaction_def)
  have hd2: "bb_header b2 = bb_header b" "bb_deletes b2 = []"
    using del by (simp_all add: b2_def blk_setup_transaction_def)
  obtain b3 where b3: "blk_delete_record w (bh_start_index (bb_header b2) + n) rid b2 = (Inr True, b3)"
    "blk_session w rid b3" "blk_repr b3 cs []" "blk_tx b3 cs []" "bb_deletes b3 = bb_deletes b2 @ [bh_start_index (bb_header b2) + n]"
    "blk_releasable w b3 = blk_releasable w b2" "\<exists>t. bb_header b3 = (bb_header b2)\<lparr>bh_update_time := t\<rparr>"
    by (rule delete_record_spec [OF ses2 rep2 tx2 _ st(2,3)]) (use st(1) hd2 in simp_all)
  have hd3: "bh_start_index (bb_header b3) = bh_start_index (bb_header b)" "bh_last_index (bb_header b3) = bh_last_index (bb_header b)"
    using b3(7) hd2 by auto
  obtain b4 where b4: "blk_commit w rid b3 = (Inr (), b4)"
    "blk_repr b4 (mark (bh_start_index (bb_header b3)) (bb_deletes b3) cs @ map (with_state R_READABLE) []) []"
    "blk_unlocked b4" "bb_available b4" "bh_start_index (bb_header b4) = bh_start_index (bb_header b3)"
    "bh_last_index (bb_header b4) = bh_last_index (bb_header b3) + length ([] :: chunk list)"
    by (rule commit_spec [OF b3(2) _ b3(3,4)]) (use b3(5,6) rel2 hd2 hd3 last st(2) in auto)
  show ?thesis
    by (rule that [OF rid(1) rid(2) [folded b2_def] b3(1) [unfolded hd2] b4(1) _ b4(3,4), of "bb_deletes b3"])
      (use b4(2,5,6) hd3 in simp_all)
qed

lemma remove_starts:
  assumes "mm_ready v tx i s b" "blk_session (me_blk v) tx b" "ms_header s = Some h" "i < mh_block_count h"
    "index \<le> mh_last_written_index h" "bh_start_index (bb_header b) \<le> index" "index \<le> bh_last_index (bb_header b)"
  shows "mm_remove_checks v index i s = (Inr i, mm_set i (blk_touch (me_blk v) b) s)"
proof -
  let ?b1 = "blk_touch (me_blk v) b"
  have at1: "mm_at (mm_set i ?b1 s) i ?b1" by simp
  have av: "is_available (ms_state s)" "ms_lock s" "me_got v" "bb_available ?b1"
    using assms(1,2) by (simp_all add: mm_ready_def blk_session_def)
  have "blk_get_start_index ?b1 = (Inr (bh_start_index (bb_header b)), ?b1)"
    "blk_get_last_index ?b1 = (Inr (bh_last_index (bb_header b)), ?b1)"
    using av(4) by (simp_all add: blk_get_start_index_def blk_get_last_index_def cmd_simps)
  then show ?thesis
    using av assms(3-7) ready_valid [OF assms(1,2)] get_block_at [OF at1]
    by (simp add: mm_remove_checks_def mm_available_def mm_head_def mm_try_lock_def not_null_def on_block_ptr_def cmd_simps)
qed

text \<open>C39. Removing a record from the block that is being written starts the transaction of the
  block over: the record is removed, the records that the transaction had written before are lost, the block
  is unlocked, and the structure still says that it is in a transaction.\<close>

theorem mm_remove_drops_pending:
  assumes "mm_ready v tx i s b" "blk_session (me_blk v) tx b" "blk_releasable (me_blk v) b"
    and "blk_repr b cs ps" "blk_tx b cs ps" "bb_deletes b = []" "bh_write_state (bb_header b) = WRITABLE"
    and "n < length cs" "rh_state (fst (cs ! n)) = R_READABLE"
    and "ms_header s = Some h" "bh_start_index (bb_header b) + n \<le> mh_last_written_index h"
    and "be_user (me_blk v) = Some u" "u \<noteq> []" "me_rounds v = r # rs"
    and "rd_got r" "rd_env r = (\<lambda>t. t)" "rd_now r = be_now (me_blk v)"
  shows "\<exists>s' b'. mm_remove v (bh_start_index (bb_header b) + n) i s = Some (Inr True, s') \<and> mm_at s' i b'
    \<and> blk_unlocked b' \<and> mt_in_transaction (ms_tx s')
    \<and> fst (blk_read w (bh_start_index (bb_header b)) (length cs + length ps) R_READABLE b') = Inr (map snd cs)
    \<and> bh_last_index (bb_header b') = bh_start_index (bb_header b) + length cs"
proof -
  let ?w = "me_blk v"
  let ?i = "bh_start_index (bb_header b) + n"
  let ?b1 = "blk_touch ?w b"
  let ?s1 = "mm_set i ?b1 s"
  have last: "bh_last_index (bb_header b) = bh_start_index (bb_header b) + length cs"
    using assms(4) by (simp add: blk_repr_def)
  have hh: "i < mh_block_count h" "i < length (mh_blocks h)"
    using assms(1,10) by (auto simp: mm_ready_def mm_has_room_for_def)
  obtain rid b2 b3 b4 ds where st: "rid \<noteq> []" "blk_start_transaction ?w 0 [] (me_uuid v) (r # rs) ?b1 = Some (Inr rid, b2)"
    "blk_delete_record ?w ?i rid b2 = (Inr True, b3)" "blk_commit ?w rid b3 = (Inr (), b4)"
    "blk_repr b4 (mark (bh_start_index (bb_header b)) ds cs) []" "blk_unlocked b4" "bb_available b4"
    "bh_start_index (bb_header b4) = bh_start_index (bb_header b)" "bh_last_index (bb_header b4) = bh_last_index (bb_header b)"
    using restarted_delete [OF session_touch_held [OF assms(2)] _ _ _ _ assms(8,9,12,13,15-17), of ps 0 "me_uuid v" rs thesis]
      assms(3,4,6,7) by simp
  define h' where "h' = h\<lparr>mh_blocks := (mh_blocks h)[i := (mh_blocks h ! i)\<lparr>mb_updated_time := be_now ?w\<rparr>]\<rparr>"
  define s' where "s' = (mm_set i b4 s)\<lparr>ms_header := Some h'\<rparr>"
  have pre: "mm_remove_checks v ?i i s = (Inr i, ?s1)"
    by (rule remove_starts [OF assms(1,2,10) hh(1) assms(11)]) (use assms(8) last in simp_all)
  have "?b1\<lparr>bb_client := ms_client ?s1\<rparr> = ?b1" by (simp add: mm_set_def)
  then have bs: "mm_block_start v 0 i ?s1 = Some (Inr rid, mm_set i b2 s)"
    using st(2) by (simp add: mm_block_start_def assms(14)) (simp add: mm_set_def)
  have "mm_remove v ?i i s = Some (Inr True, s')"
    unfolding mm_remove_def pre using bs st(1,3,4) hh assms(10)
    by (simp add: mm_get_block_info_def mm_info_upd_def mm_head_upd_def s'_def h'_def cmd_simps)
  moreover have "mm_at s' i b4" "mt_in_transaction (ms_tx s')"
    using assms(1) by (simp_all add: mm_ready_def s'_def mm_at_def mm_set_def)
  moreover have "fst (blk_read w (bh_start_index (bb_header b)) (length cs + length ps) R_READABLE b4) = Inr (map snd cs)"
    using read_readable [OF st(5,7), of 0 w "length cs + length ps"] st(8) by simp
  ultimately show ?thesis
    using st(6,9) last by (intro exI [of _ s'] exI [of _ b4]) simp
qed

subsection \<open>A concrete structure\<close>

definition mm_demo_env :: mm_env where
  "mm_demo_env = \<lparr>me_blk = demo_env, me_mount = mount_demo_env 0 0, me_got = True, me_uuid = ''u'',
     me_rounds = [\<lparr>rd_got = True, rd_now = 1000, rd_env = (\<lambda>t. t)\<rparr>], me_hour_dir = ''d'', me_header_size = 500,
     me_file_size = (\<lambda>_. 0), me_index_file = (\<lambda>_. None), me_index_removed = False\<rparr>"

definition mm_demo_header :: mm_header where
  "mm_demo_header = (fresh_header ''s'' 500 10 0)\<lparr>mh_block_count := 1, mh_last_written_index := 1,
     mh_blocks := [fresh_info\<lparr>mb_used := True, mb_filename := ''f'', mb_block_id := 1\<rparr>]\<rparr>"

definition mm_demo :: "base_block \<Rightarrow> mm_struct" where
  "mm_demo b = \<lparr>ms_state = \<lparr>st_state = Available, st_error = None\<rparr>, ms_name = ''s'', ms_id = 1, ms_type = BASIC,
     ms_lock = True, ms_header = Some mm_demo_header, ms_bits = Some bitset_one_bit, ms_blocks = [0 \<mapsto> b],
     ms_tx = \<lparr>mt_in_transaction = True, mt_txid = ''tx'', mt_starttime = 900, mt_block = Some 0\<rparr>,
     ms_files = (\<lambda>_. None), ms_client = demo_client, ms_mounts = new_mount_client\<rparr>"

lemma mm_demo_ready [simp]: "mm_ready mm_demo_env ''tx'' 0 (mm_demo (demo_block cs ps room bsize dels)) (demo_block cs ps room bsize dels)"
  by (simp add: mm_ready_def mm_has_room_for_def mm_at_def mm_demo_def mm_demo_env_def mm_demo_header_def is_available_def
      fresh_header_def demo_block_def)

lemma mm_demo_fields [simp]: "be_user demo_env = Some ''user''" "be_now demo_env = 1000"
  "me_rounds mm_demo_env = [\<lparr>rd_got = True, rd_now = 1000, rd_env = (\<lambda>t. t)\<rparr>]" "me_blk mm_demo_env = demo_env" "ms_header (mm_demo b) = Some mm_demo_header"
  "mh_last_written_index mm_demo_header = 1" "ms_bits (mm_demo b) = Some bitset_one_bit"
  by (simp_all add: mm_demo_env_def demo_env_def mm_demo_def mm_demo_header_def)

theorem mm_write_roundtrip_witness:
  "\<exists>bi s1 s2. mm_write mm_demo_env (Some [4, 5]) 2 (mm_demo (demo_block demo1 [] 200 500 [])) = Some (Inr bi, s1)
    \<and> mm_commit mm_demo_env s1 = (Inr True, s2) \<and> fst (mm_read mm_demo_env (mb_last_index bi) 0 s2) = Inr (Some [4, 5])"
proof -
  let ?b = "demo_block demo1 [] 200 500 []"
  have rep: "blk_repr ?b demo1 []" by (rule demo1_repr) simp
  have room: "blk_room ?b demo1 [[4, 5]]" by (simp add: blk_room_def demo1_facts REC_HEADER_SIZE_def)
  have "\<exists>bi s1 s2. mm_write mm_demo_env (Some [4, 5]) (length [4 :: u8, 5]) (mm_demo ?b) = Some (Inr bi, s1)
    \<and> mm_commit mm_demo_env s1 = (Inr True, s2) \<and> ms_tx s2 = no_transaction \<and> mb_last_index bi = bh_last_index (bb_header ?b)
    \<and> fst (mm_read mm_demo_env (mb_last_index bi) 0 s2) = Inr (Some [4, 5])
    \<and> (\<forall>n < length demo1. fst (mm_read mm_demo_env (bh_start_index (bb_header ?b) + n) 0 s2) = Inr (Some (snd (demo1 ! n))))"
    by (rule mm_write_roundtrip [OF mm_demo_ready _ _ rep demo_tx demo_fields(1) room]) (simp_all add: demo1_facts)
  moreover have "length [4 :: u8, 5] = 2" by simp
  ultimately show ?thesis by (auto simp only:)
qed

theorem mm_full_block_loses_witness:
  "\<exists>s'. mm_write mm_demo_env (Some (replicate 480 7)) 480 (mm_demo (demo_block demo1 [] 200 500 [])) = Some (Inl Fs_error, s')
    \<and> ms_tx s' = no_transaction"
proof -
  let ?b = "demo_block demo1 [] 200 500 []"
  have rep: "blk_repr ?b demo1 []" by (rule demo1_repr) simp
  have "\<exists>s' b'. mm_write mm_demo_env (Some (replicate 480 7)) 480 (mm_demo ?b) = Some (Inl Fs_error, s') \<and> ms_tx s' = no_transaction
    \<and> mm_at s' 0 b' \<and> blk_unlocked b'
    \<and> fst (blk_read demo_env (bh_start_index (bb_header ?b)) (length demo1 + length ([] :: chunk list) + 1) R_READABLE b')
      = Inr (map snd (demo1 @ []))"
    by (rule mm_full_block_loses [OF mm_demo_ready _ _ rep demo_tx demo_fields(1) mm_demo_fields(7) bitset_one_bit_wf(1)])
      (simp_all add: demo1_facts REC_HEADER_SIZE_def)
  then show ?thesis by fastforce
qed

definition demo_pending :: "chunk list" where
  "demo_pending = [demo_chunk 2 99 R_DIRTY [4]]"

theorem mm_remove_drops_pending_witness:
  "\<exists>s' b'. mm_remove mm_demo_env 1 0 (mm_demo (demo_block demo1 demo_pending 200 500 [])) = Some (Inr True, s') \<and> mm_at s' 0 b'
    \<and> mt_in_transaction (ms_tx s') \<and> fst (blk_read demo_env 0 3 R_READABLE b') = Inr [[1], [2, 3]]"
proof -
  let ?b = "demo_block demo1 demo_pending 200 500 []"
  have rep: "blk_repr ?b demo1 demo_pending"
    by (rule demo_repr) (simp_all add: demo1_def demo_pending_def demo_chunk_simps)
  have st: "rh_state (fst (demo1 ! 1)) = R_READABLE" "1 < length demo1"
    by (simp_all add: demo1_def demo_chunk_def)
  have "\<exists>s' b'. mm_remove mm_demo_env (bh_start_index (bb_header ?b) + 1) 0 (mm_demo ?b) = Some (Inr True, s') \<and> mm_at s' 0 b'
    \<and> blk_unlocked b' \<and> mt_in_transaction (ms_tx s')
    \<and> fst (blk_read demo_env (bh_start_index (bb_header ?b)) (length demo1 + length demo_pending) R_READABLE b') = Inr (map snd demo1)
    \<and> bh_last_index (bb_header b') = bh_start_index (bb_header ?b) + length demo1"
    by (rule mm_remove_drops_pending [OF mm_demo_ready _ _ rep demo_tx demo_fields(1) _ st(2,1) mm_demo_fields(5),
          where u = "''user''" and r = "\<lparr>rd_got = True, rd_now = 1000, rd_env = (\<lambda>t. t)\<rparr>" and rs = "[]"])
      simp_all
  then show ?thesis
    by (simp add: demo1_facts demo_pending_def) blast
qed

end
