(* ===== verification/SchemaNodes.thy ===== *)
theory SchemaNodes
  imports SchemaBuild
begin

section \<open>Nodes of a schema and its indexes (types/includes/schema_def.h, parsers/includes/schema_driver.h)\<close>

text \<open>
  A node knows its parent. Here a node that was found comes with the chain of nodes from the root to
  it, so that names and paths, which the code builds by asking the parent, are functions of the chain.
  \<open>name_index\<close> keeps the first of two fields with the same name, which is the first one in the list.
\<close>

subsection \<open>Looking up by name\<close>

definition s_named :: "stype \<Rightarrow> string" where
  "s_named t = fi_name (s_info t)"

definition below :: "stype \<Rightarrow> exc + stype list option \<Rightarrow> exc + stype list option" where
  "below t r = e_bind r (\<lambda>c. Inr (map_option (Cons t) c))"

text \<open>\<open>find (path, index)\<close>. A map reads the element behind \<open>index\<close>, which for the last one is past the end.\<close>

function s_find :: "string list \<Rightarrow> nat \<Rightarrow> stype \<Rightarrow> exc + stype list option" where
  "s_find path i (S_native fi dt) =
     (if i \<noteq> length path - 1 \<or> path ! i \<noteq> fi_name fi then Inl Precondition else Inr (Some [S_native fi dt]))"
| "s_find path i (S_string fi mx) =
     (if i \<noteq> length path - 1 \<or> path ! i \<noteq> fi_name fi then Inl Precondition else Inr (Some [S_string fi mx]))"
| "s_find path i (S_complex fi tn fs) =
     (if \<not> i < length path - 1 then Inl Precondition
      else if path ! i \<noteq> fi_name fi then Inl Postcondition
      else case find (\<lambda>f. s_named f = path ! (i + 1)) fs of None \<Rightarrow> Inr None
        | Some f \<Rightarrow> below (S_complex fi tn fs) (s_find path (i + 1) f))"
| "s_find path i (S_list fi it inner) =
     (if path ! i \<noteq> fi_name fi then Inl Precondition
      else if i = length path - 1 then Inr (Some [S_list fi it inner])
      else if it \<noteq> TYPE_STRUCT then Inl Precondition
      else case inner of None \<Rightarrow> Inl Mem_fault | Some t \<Rightarrow> below (S_list fi it inner) (s_find path i t))"
| "s_find path i (S_map fi kt vt k v) =
     (if path ! i \<noteq> fi_name fi then Inl Precondition
      else if \<not> i + 1 < length path then Inl Mem_fault
      else if path ! (i + 1) = ''key'' then Inl Precondition
      else if path ! (i + 1) = ''value''
      then if vt \<noteq> TYPE_STRUCT then Inl Precondition
           else case v of None \<Rightarrow> Inl Mem_fault | Some t \<Rightarrow> below (S_map fi kt vt k v) (s_find path (i + 1) t)
      else Inl Base_error)"
  by pat_completeness auto

termination s_find
  by (relation "measure (\<lambda>(p, i, t). size t)") (auto simp: find_size)

definition s_find_key :: "string \<Rightarrow> stype \<Rightarrow> exc + stype list option" where
  "s_find_key key t =
     (if key = [] then Inl Empty_value
      else let parts = str_split (CHR ''.'') key in
        if parts = [] then Inl Postcondition
        else s_find (if hd parts \<noteq> s_named t then s_named t # parts else parts) 0 t)"

subsection \<open>Paths and names\<close>

fun is_collection :: "stype \<Rightarrow> bool" where
  "is_collection (S_list fi it i) = True" | "is_collection (S_map fi kt vt k v) = True" | "is_collection t = False"

text \<open>\<open>get_field_path\<close>: the indices of the chain, and whether there is a collection in it.\<close>

definition get_field_path :: "stype list \<Rightarrow> nat list \<times> bool" where
  "get_field_path chain = (map (\<lambda>t. fi_index (s_info t)) chain, \<exists>t \<in> set chain. is_collection t)"

definition get_canonical_name :: "stype list \<Rightarrow> string" where
  "get_canonical_name chain = (case chain of [] \<Rightarrow> []
     | t # ts \<Rightarrow> join_with (CHR ''.'') (map s_named (t # filter (\<lambda>t. \<not> is_collection t) ts)))"

fun has_complex_type :: "stype \<Rightarrow> exc + bool" where
  "has_complex_type (S_complex fi tn fs) = Inr True"
| "has_complex_type (S_list fi it i) = (case i of None \<Rightarrow> Inl Mem_fault | Some t \<Rightarrow> has_complex_type t)"
| "has_complex_type (S_map fi kt vt k v) = (case v of None \<Rightarrow> Inl Mem_fault | Some t \<Rightarrow> has_complex_type t)"
| "has_complex_type t = Inr False"

text \<open>\<open>get_field_index\<close> collects the fields under their names; an entry whose name is taken is dropped.\<close>

fun index_entries :: "stype list \<Rightarrow> stype \<Rightarrow> (string \<times> stype) list" where
  "index_entries anc (S_complex fi tn fs) = concat (map (index_entries (anc @ [S_complex fi tn fs])) fs)"
| "index_entries anc (S_list fi it i) = (case i of None \<Rightarrow> [] | Some t \<Rightarrow> index_entries (anc @ [S_list fi it i]) t)"
| "index_entries anc (S_map fi kt vt k v) =
     (case k of None \<Rightarrow> [] | Some t \<Rightarrow> index_entries (anc @ [S_map fi kt vt k v]) t)
   @ (case v of None \<Rightarrow> [] | Some t \<Rightarrow> index_entries (anc @ [S_map fi kt vt k v]) t)"
| "index_entries anc t = [(get_canonical_name (anc @ [t]), t)]"

definition get_field_index :: "stype \<Rightarrow> string \<rightharpoonup> stype" where
  "get_field_index t = map_of (index_entries [] t)"

subsection \<open>Looking up by path\<close>

text \<open>\<open>find (parts, count, index)\<close>; the root looks for its field at the start of the path.\<close>

definition field_at :: "stype list \<Rightarrow> nat \<Rightarrow> stype option" where
  "field_at fs i = find (\<lambda>f. fi_index (s_info f) = i) fs"

function s_find_at :: "nat list \<Rightarrow> nat \<Rightarrow> stype \<Rightarrow> exc + stype option" where
  "s_find_at parts i (S_native fi dt) =
     (if i \<noteq> length parts - 1 \<or> parts ! i \<noteq> fi_index fi then Inl Precondition else Inr (Some (S_native fi dt)))"
| "s_find_at parts i (S_string fi mx) =
     (if i \<noteq> length parts - 1 \<or> parts ! i \<noteq> fi_index fi then Inl Precondition else Inr (Some (S_string fi mx)))"
| "s_find_at parts i (S_complex fi tn fs) =
     (if \<not> i < length parts then Inl Precondition
      else case field_at fs (parts ! i) of None \<Rightarrow> Inr None | Some f \<Rightarrow> s_find_at parts (i + 1) f)"
| "s_find_at parts i (S_list fi it inner) =
     (if \<not> i < length parts \<or> parts ! i \<noteq> fi_index fi then Inl Precondition
      else if i = length parts - 1 then Inr (Some (S_list fi it inner))
      else if it \<noteq> TYPE_STRUCT then Inl Precondition
      else case inner of None \<Rightarrow> Inl Mem_fault | Some t \<Rightarrow> s_find_at parts i t)"
| "s_find_at parts i (S_map fi kt vt k v) =
     (if \<not> i < length parts - 1 \<or> parts ! i \<noteq> fi_index fi then Inl Precondition
      else if parts ! (i + 1) = 0 then Inr k
      else if parts ! (i + 1) = 1
      then if i = length parts - 2
           then if is_native vt then Inr v else Inl Precondition
           else if vt \<noteq> TYPE_STRUCT then Inl Precondition
           else case v of None \<Rightarrow> Inl Mem_fault | Some t \<Rightarrow> s_find_at parts (i + 1) t
      else Inl Base_error)"
  by pat_completeness auto

termination s_find_at
  by (relation "measure (\<lambda>(p, i, t). size t)") (auto simp: field_at_def find_size)

fun find_path :: "nat list \<Rightarrow> stype \<Rightarrow> exc + stype option" where
  "find_path parts (S_complex fi tn fs) =
     (if parts = [] then Inl Mem_fault
      else case field_at fs (parts ! 0) of None \<Rightarrow> Inr None | Some f \<Rightarrow> s_find_at parts 1 f)"
| "find_path parts t = Inl Mem_fault"

subsection \<open>Indexes on records\<close>

text \<open>\<open>add_index\<close> does not set the member \<open>count\<close> of the new column: \<open>junk\<close> is what its memory holds.\<close>

record index_column =
  ic_sequence :: nat
  ic_path :: "nat list"
  ic_count :: nat
  ic_sort_asc :: bool
  ic_type :: stype

record record_index =
  rx_name :: string
  rx_type :: index_type_enum
  rx_columns :: "index_column option list"
  rx_complex :: bool

definition new_record_index :: "string \<Rightarrow> nat \<Rightarrow> index_type_enum \<Rightarrow> exc + record_index" where
  "new_record_index name count type =
     (if \<not> 0 < count then Inl Precondition
      else if length name + 1 \<ge> 256 then Inl Mem_fault
      else Inr \<lparr>rx_name = name, rx_type = type, rx_columns = replicate count None, rx_complex = False\<rparr>)"

definition add_index :: "nat \<Rightarrow> nat \<Rightarrow> nat list \<Rightarrow> bool \<Rightarrow> stype \<Rightarrow> record_index \<Rightarrow> exc + record_index" where
  "add_index junk index path dir type r =
     (if \<not> index < length (rx_columns r) \<or> length path \<noteq> length path mod 256 then Inl Precondition
      else Inr (r\<lparr>rx_columns := (rx_columns r)[index := Some \<lparr>ic_sequence = index, ic_path = path, ic_count = junk,
        ic_sort_asc = dir, ic_type = type\<rparr>]\<rparr>))"

definition get_index :: "nat \<Rightarrow> record_index \<Rightarrow> exc + index_column option" where
  "get_index i r = (if i < length (rx_columns r) then Inr (rx_columns r ! i) else Inl Precondition)"

fun column_sizes :: "index_column option list \<Rightarrow> nat \<Rightarrow> exc + nat" where
  "column_sizes [] n = Inr n"
| "column_sizes (c # cs) n = (case c of None \<Rightarrow> Inl Null_pointer
     | Some c \<Rightarrow> if \<not> is_native (s_datatype (ic_type c)) then Inl Precondition
         else e_bind (s_estimate (ic_type c)) (\<lambda>m. column_sizes cs ((n + m) mod 2 ^ 32)))"

definition compute_index_record_size :: "record_index \<Rightarrow> exc + nat" where
  "compute_index_record_size r = column_sizes (rx_columns r) 0"

text \<open>The loop of \<open>get_pk_index\<close> and \<open>get_index\<close>: \<open>limit\<close> is the count at which it ends.\<close>

definition index_key :: "nat \<Rightarrow> stype \<Rightarrow> nat \<Rightarrow> key_column \<Rightarrow> record_index \<Rightarrow> exc + record_index" where
  "index_key junk schema count kc r =
     e_bind (s_find_key (kc_name kc) schema) (\<lambda>f.
     e_bind (not_null f) (\<lambda>chain. case get_field_path chain of (path, complex) \<Rightarrow>
       if path = [] then Inl Empty_value
       else e_bind (add_index junk count path (kc_sort_asc kc) (last chain) r) (\<lambda>r.
         Inr (if complex then r\<lparr>rx_complex := True\<rparr> else r))))"

fun index_keys :: "nat \<Rightarrow> stype \<Rightarrow> nat option \<Rightarrow> nat \<Rightarrow> key_column list \<Rightarrow> record_index \<Rightarrow> exc + record_index" where
  "index_keys junk schema limit count [] r = Inr r"
| "index_keys junk schema limit count (kc # kcs) r =
     (if (case limit of None \<Rightarrow> False | Some n \<Rightarrow> \<not> count < n) then Inr r
      else e_bind (index_key junk schema count kc r) (\<lambda>r. index_keys junk schema limit ((count + 1) mod 256) kcs r))"

definition get_pk_index :: "nat \<Rightarrow> stype \<Rightarrow> schema_defn \<Rightarrow> exc + record_index option" where
  "get_pk_index junk schema sc =
     (if sc_pk_columns sc = [] then Inr None
      else let count = length (sc_pk_columns sc) mod 256 in
        if \<not> 0 < count then Inl Precondition
        else e_bind (new_record_index (''PK_'' @ sc_name sc) count HASH_INDEX) (\<lambda>r.
          e_bind (index_keys junk schema None 0 (sc_pk_columns sc) r) (\<lambda>r. Inr (Some r))))"

definition index_for :: "nat \<Rightarrow> stype \<Rightarrow> index_def \<Rightarrow> exc + record_index" where
  "index_for junk schema ix =
     e_bind (new_record_index (ix_name ix) (ix_field_count ix mod 256) (ix_type ix)) (\<lambda>r.
     index_keys junk schema (Some (ix_field_count ix)) 0 (ix_columns ix) r)"

fun indexes_for :: "nat \<Rightarrow> stype \<Rightarrow> index_def list \<Rightarrow> exc + record_index list" where
  "indexes_for junk schema [] = Inr []"
| "indexes_for junk schema (ix # xs) = e_bind (index_for junk schema ix) (\<lambda>r. e_bind (indexes_for junk schema xs) (\<lambda>rs. Inr (r # rs)))"

definition get_indexes :: "nat \<Rightarrow> stype \<Rightarrow> schema_driver \<Rightarrow> exc + record_index list option" where
  "get_indexes junk schema s = (case sd_schema_stack s of None \<Rightarrow> Inl Null_pointer
     | Some t \<Rightarrow>
         if sd_indexes s = [] \<and> sc_pk_columns (ss_current t) = [] then Inr None
         else e_bind (get_pk_index junk schema (ss_current t)) (\<lambda>pk.
           e_bind (indexes_for junk schema (map snd (sd_indexes s))) (\<lambda>rs.
           Inr (Some ((case pk of None \<Rightarrow> [] | Some r \<Rightarrow> [r]) @ rs)))))"

end
