(* ===== verification/TranslatorProps.thy ===== *)
theory TranslatorProps
  imports SchemaNodes TypeRoundtrip
begin

section \<open>What the translator makes\<close>

subsection \<open>Results that return\<close>

definition run_ok :: "('a \<Rightarrow> bool) \<Rightarrow> 'a run \<Rightarrow> bool" where
  "run_ok P m \<longleftrightarrow> (\<forall>x. m = Some (Inr x) \<longrightarrow> P x)"

lemma run_ok_simps [simp]: "run_ok P (Some (Inr x)) = P x" "run_ok P (Some (Inl e))" "run_ok P None"
  by (simp_all add: run_ok_def)

lemma run_ok_mono: "run_ok P m \<Longrightarrow> (\<And>x. P x \<Longrightarrow> Q x) \<Longrightarrow> run_ok Q m"
  by (simp add: run_ok_def)

lemma run_ok_bind: "run_ok Q m \<Longrightarrow> (\<And>x. Q x \<Longrightarrow> run_ok P (k x)) \<Longrightarrow> run_ok P (r_bind m k)"
  by (auto simp: run_ok_def r_bind_def split: option.splits sum.splits)

lemma run_ok_e_bind: "run_ok Q (Some m) \<Longrightarrow> (\<And>x. Q x \<Longrightarrow> run_ok P (Some (k x))) \<Longrightarrow> run_ok P (Some (e_bind m k))"
  by (cases m) (auto simp: e_bind_def)

subsection \<open>Nodes\<close>

lemma update_simps [simp]:
  "s_info (s_update g t) = g (s_info t)" "s_datatype (s_update g t) = s_datatype t" "s_wf (s_update g t) = s_wf t"
  "is_complex (Some (s_update g t)) = is_complex (Some t)"
  by (cases t; simp add: is_complex_def)+

lemma node_set:
  "node_set_constraint c t = Inr t' \<Longrightarrow> t' = s_update (\<lambda>fi. fi\<lparr>fi_constraint := Some c\<rparr>) t"
  "node_set_default d t = Inr t' \<Longrightarrow> t' = s_update (\<lambda>fi. fi\<lparr>fi_default := Some d\<rparr>) t"
  by (cases t; simp)+

text \<open>A node without attributes, and what a declaration asks of its node.\<close>

definition blank :: "string \<Rightarrow> nat \<Rightarrow> stype \<Rightarrow> bool" where
  "blank name i t \<longleftrightarrow> s_info t = new_info name i \<and> s_wf t"

definition node_for :: "float_parser \<Rightarrow> declare_def \<Rightarrow> nat \<Rightarrow> stype \<Rightarrow> bool" where
  "node_for fp d i t \<longleftrightarrow>
     dc_variable d = Some (s_named t) \<and> fi_index (s_info t) = i \<and> fi_nullable (s_info t) = dc_nullable d
     \<and> (if dc_reference d then is_complex (Some t) else parse_type (dc_type d) = Inr (s_datatype t))
     \<and> (case dc_constraint d of None \<Rightarrow> fi_constraint (s_info t) = None
        | Some c \<Rightarrow> (case create_constraint fp c (s_datatype t) of Inl e \<Rightarrow> False | Inr x \<Rightarrow> fi_constraint (s_info t) = Some x))
     \<and> (case dc_default d of None \<Rightarrow> fi_default (s_info t) = None
        | Some v \<Rightarrow> (case create_default_value fp v (s_datatype t) of Inl e \<Rightarrow> False | Inr x \<Rightarrow> fi_default (s_info t) = Some x))"

lemma set_attributes_ok:
  assumes "blank name i t" "dc_variable d = Some name"
    "if dc_reference d then is_complex (Some t) else parse_type (dc_type d) = Inr (s_datatype t)"
  shows "run_ok (\<lambda>t'. s_wf t' \<and> node_for fp d i t') (Some (set_attributes fp d t))"
proof (cases "set_attributes fp d t")
  case (Inr t')
  then have "t' = s_update (\<lambda>fi. fi\<lparr>fi_nullable := dc_nullable d,
      fi_constraint := (case dc_constraint d of None \<Rightarrow> None
        | Some c \<Rightarrow> (case create_constraint fp c (s_datatype t) of Inl e \<Rightarrow> None | Inr x \<Rightarrow> Some x)),
      fi_default := (case dc_default d of None \<Rightarrow> None
        | Some v \<Rightarrow> (case create_default_value fp v (s_datatype t) of Inl e \<Rightarrow> None | Inr x \<Rightarrow> Some x))\<rparr>) t
    \<and> (case dc_constraint d of None \<Rightarrow> True | Some c \<Rightarrow> \<exists>x. create_constraint fp c (s_datatype t) = Inr x)
    \<and> (case dc_default d of None \<Rightarrow> True | Some v \<Rightarrow> \<exists>x. create_default_value fp v (s_datatype t) = Inr x)"
    using assms(1)
    by (cases t; cases "dc_constraint d"; cases "dc_default d")
      (auto simp: set_attributes_def blank_def new_info_def Let_def e_bind_def split: sum.splits)
  then show ?thesis
    using assms Inr by (auto simp: node_for_def blank_def new_info_def s_named_def split: option.splits)
qed simp

subsection \<open>Handlers that can be made\<close>

lemma list_handler_not_bool: "create_list_handler it sh mode = Inr h \<Longrightarrow> it \<noteq> TYPE_BOOL"
  by (auto simp: create_list_handler_def is_inner_type_valid_def)

lemma map_handler_keys:
  "create_map_handler kt vt sh mode = Inr h \<Longrightarrow> kt \<noteq> TYPE_BOOL \<and> vt \<noteq> TYPE_BOOL \<and> \<not> (kt = TYPE_BYTE \<and> vt = TYPE_STRUCT)"
  by (cases kt; cases vt)
    (auto simp: create_map_handler_def create_byte_map_def create_char_map_def create_short_map_def create_int_map_def
      create_long_map_def create_float_map_def create_double_map_def create_timestamp_map_def create_string_map_def
      map_of_value_def e_bind_def is_inner_type_valid_def split: sum.splits)

lemma with_handlers_eq: "with_handlers t = Inr t' \<Longrightarrow> t' = t \<and> (\<exists>h. handler_of t RM_READ = Inr h)"
  by (auto simp: with_handlers_def e_bind_def split: sum.splits)

lemma new_list_ok:
  assumes "it = TYPE_STRUCT \<Longrightarrow> is_complex (Some inner) \<and> s_wf inner"
  shows "run_ok (\<lambda>t. blank name i t \<and> s_datatype t = TYPE_LIST) (Some (new_list name i it inner))"
  using assms by (cases "new_list name i it inner")
    (auto simp: new_list_def blank_def inner_ok_def dest!: with_handlers_eq list_handler_not_bool split: if_splits)

lemma new_map_node_ok:
  assumes "vt = TYPE_STRUCT \<Longrightarrow> is_complex (Some val) \<and> s_wf val"
  shows "run_ok (\<lambda>t. blank name i t \<and> s_datatype t = TYPE_MAP \<and> (\<exists>fi kt vt k v. t = S_map fi kt vt k v))
    (Some (new_map_node name i kt vt val))"
  using assms by (cases "new_map_node name i kt vt val")
    (auto simp: new_map_node_def blank_def inner_ok_def dest!: with_handlers_eq map_handler_keys split: if_splits)

lemma native_node_ok: "run_ok (\<lambda>t. is_native dt \<and> (\<exists>n. t = n \<and> blank name i n \<and> s_datatype n = dt)) (Some (e_bind (native_node type dt name i) not_null))"
  by (cases "is_native dt"; cases "parse_string_size type")
    (auto simp: native_node_def blank_def not_null_def e_bind_def)

text \<open>The fields made for a list of declarations.\<close>

definition fields_for :: "float_parser \<Rightarrow> declare_def list \<Rightarrow> stype list \<Rightarrow> bool" where
  "fields_for fp ds fs \<longleftrightarrow> length fs = length ds \<and> (\<forall>i < length fs. s_wf (fs ! i) \<and> node_for fp (ds ! i) i (fs ! i))"

subsection \<open>What the translator relies on when it follows a reference\<close>

locale type_maker_contract =
  fixes ct :: type_maker
  assumes made: "run_ok (\<lambda>t. blank name i t \<and> is_complex (Some t)) (ct name rt i)"
begin

lemma refer_ok: "run_ok (\<lambda>t. blank name i t \<and> is_complex (Some t)) (refer ct tys r name i)"
  using made by (simp add: refer_def split: option.split)

lemma inner_ok:
  assumes "inner_datatype d = Inr it"
  shows "run_ok (\<lambda>t. it = TYPE_STRUCT \<longrightarrow> is_complex (Some t) \<and> s_wf t) (create_inner_type ct tys d name i)"
proof (cases "dc_reference d")
  case True
  then show ?thesis
    using refer_ok [of name i tys "dc_type d"] by (auto simp: create_inner_type_def blank_def elim: run_ok_mono)
next
  case False
  then have p: "parse_type (dc_type d) = Inr it"
    using assms by (cases "parse_type (dc_type d)") (auto simp: inner_datatype_def e_bind_def split: if_splits)
  have "run_ok (\<lambda>t. is_native it) (Some (e_bind (native_node (dc_type d) it name i) not_null))"
    by (rule run_ok_mono [OF native_node_ok]) blast
  then show ?thesis
    using False p by (cases it) (simp_all add: create_inner_type_def inner_native_def run_ok_def e_bind_def is_inner_type_valid_def)
qed

lemma list_node_ok: "run_ok (\<lambda>t. blank name i t \<and> s_datatype t = TYPE_LIST) (list_node ct tys d name i)"
proof (cases "dc_inner d")
  case (Cons x xs)
  show ?thesis
  proof (cases "inner_datatype x")
    case (Inr it)
    then show ?thesis
      using Cons new_list_ok by (simp add: list_node_def run_ok_bind [OF inner_ok [OF Inr]])
  qed (simp add: list_node_def Cons)
qed (simp add: list_node_def)

lemma map_node_ok: "run_ok (\<lambda>t. blank name i t \<and> s_datatype t = TYPE_MAP) (map_node ct tys d name i)"
proof -
  have key: "run_ok (\<lambda>t. blank name i t \<and> s_datatype t = TYPE_MAP)
      (r_bind (create_inner_type ct tys k nm j) (\<lambda>key. Some (Inr (set_key_type mt key))))"
    if "blank name i mt \<and> s_datatype mt = TYPE_MAP \<and> (\<exists>fi kt vt k v. mt = S_map fi kt vt k v)" for mt k nm j
    using that by (intro run_ok_bind [of "\<lambda>_. True"]) (auto simp: run_ok_def blank_def)
  have val: "run_ok (\<lambda>t. blank name i t \<and> s_datatype t = TYPE_MAP)
      (r_bind (create_inner_type ct tys v ''value'' 1) (\<lambda>val. r_bind (Some (new_map_node name i kt vt val)) (\<lambda>mt.
        r_bind (create_inner_type ct tys k ''key'' 0) (\<lambda>key. Some (Inr (set_key_type mt key))))))"
    if "inner_datatype v = Inr vt" for k v kt vt
    by (rule run_ok_bind [OF inner_ok [OF that]], rule run_ok_bind [OF new_map_node_ok], blast, rule key, blast)
  show ?thesis
  proof (cases "\<exists>k v xs. dc_inner d = k # v # xs")
    case True
    then obtain k v xs where i: "dc_inner d = k # v # xs" by blast
    show ?thesis
      unfolding map_node_def i list.case
      by (rule run_ok_bind [of "\<lambda>_. True"], simp add: run_ok_def,
          rule run_ok_bind [of "\<lambda>vt. inner_datatype v = Inr vt"], simp add: run_ok_def, rule val)
  next
    case False
    then show ?thesis
      by (auto simp: map_node_def split: list.split)
  qed
qed

lemma field_node_ok: "run_ok (\<lambda>t. blank name i t
    \<and> (if dc_reference d then is_complex (Some t) else parse_type (dc_type d) = Inr (s_datatype t))) (field_node ct tys d name i)"
proof (cases "dc_reference d")
  case True
  then show ?thesis using refer_ok by (simp add: field_node_def)
next
  case False
  show ?thesis
  proof (cases "parse_type (dc_type d)")
    case (Inr ft)
    have n: "run_ok (\<lambda>t. blank name i t \<and> ft = s_datatype t) (Some (e_bind (native_node (dc_type d) ft name i) not_null))"
      by (rule run_ok_mono [OF native_node_ok]) blast
    have l: "ft = TYPE_LIST \<Longrightarrow> run_ok (\<lambda>t. blank name i t \<and> ft = s_datatype t) (list_node ct tys d name i)"
      by (rule run_ok_mono [OF list_node_ok]) simp
    have m: "ft = TYPE_MAP \<Longrightarrow> run_ok (\<lambda>t. blank name i t \<and> ft = s_datatype t) (map_node ct tys d name i)"
      by (rule run_ok_mono [OF map_node_ok]) simp
    show ?thesis
      using False Inr n l m by (simp add: field_node_def)
  qed (simp add: field_node_def False)
qed

lemma tr_field_ok: "run_ok (\<lambda>t. s_wf t \<and> node_for fp d i t) (tr_field fp ct tys d i)"
  by (auto simp: tr_field_def split: option.split intro!: run_ok_bind [OF field_node_ok] set_attributes_ok)

lemma tr_members_ok:
  "length fs = i \<Longrightarrow> (\<forall>j < i. s_wf (fs ! j) \<and> node_for fp (es ! j) j (fs ! j)) \<Longrightarrow> i \<le> 254 \<Longrightarrow> length es = i \<Longrightarrow>
   run_ok (fields_for fp (es @ ds)) (tr_members fp ct tys ds i fs)"
proof (induction ds arbitrary: i fs es)
  case Nil
  then show ?case by (simp add: fields_for_def)
next
  case (Cons d ds)
  have step: "run_ok (fields_for fp (es @ d # ds)) (r_bind (Some (add_field fs t)) (\<lambda>fs.
       if i + 1 \<ge> 255 then Some (Inl Type_parser_error) else tr_members fp ct tys ds (i + 1) fs))"
    if t: "s_wf t \<and> node_for fp d i t" for t
  proof (cases "add_field fs t = Inr (fs @ [t])")
    case True
    have "i < 254 \<Longrightarrow> run_ok (fields_for fp ((es @ [d]) @ ds)) (tr_members fp ct tys ds (i + 1) (fs @ [t]))"
      using Cons.prems t by (intro Cons.IH) (auto simp: nth_append less_Suc_eq)
    then show ?thesis using True by simp
  next
    case False
    have "fi_index (s_info f) < i" if "f \<in> set fs" for f
      using that Cons.prems by (auto simp: in_set_conv_nth node_for_def)
    moreover have "fi_index (s_info t) = i" using t by (simp add: node_for_def)
    ultimately have "\<not> (\<exists>f \<in> set fs. fi_index (s_info f) = fi_index (s_info t))"
      by (metis less_irrefl)
    then have "\<exists>e. add_field fs t = Inl e"
      using False unfolding add_field_def by (simp split: if_splits)
    then show ?thesis by auto
  qed
  show ?case
    unfolding tr_members.simps by (rule run_ok_bind [OF tr_field_ok]) (rule step)
qed

lemma tr_members_all: "run_ok (fields_for fp ds) (tr_members fp ct tys ds 0 [])"
  using tr_members_ok [of "[]" 0 fp "[]" ds tys] by simp

end

text \<open>\<open>create_type\<close> keeps the contract at every number of levels.\<close>

lemma create_type_made: "run_ok (\<lambda>t. blank name i t \<and> is_complex (Some t)) (create_type fp tys n name rt i)"
proof (induction n arbitrary: name rt i)
  case (Suc n)
  have "type_maker_contract (create_type fp tys n)" by unfold_locales (rule Suc)
  from type_maker_contract.tr_members_all [OF this] show ?case
    by (auto simp: blank_def is_complex_def fields_for_def in_set_conv_nth intro!: run_ok_bind [of "fields_for fp (rt_members rt)"])
qed simp

interpretation made_type: type_maker_contract "create_type fp tys n" for fp tys n
  by unfold_locales (rule create_type_made)

lemma translate_fields:
  assumes "translate fp tys n sc = Some (Inr t)"
  shows "\<exists>fs. t = S_complex (new_info (sc_name sc) 0) (sc_name sc) fs \<and> fields_for fp (sc_members sc) fs"
  using assms made_type.tr_members_all [of fp "sc_members sc" fp tys n tys]
  by (auto simp: translate_def run_ok_def r_bind_def split: if_splits option.splits sum.splits)

lemma fields_for_wf: "fields_for fp ds fs \<Longrightarrow> s_wf (S_complex fi tn fs)"
  by (auto simp: fields_for_def in_set_conv_nth)

end
