(* ===== verification/SchemaProps.thy ===== *)
theory SchemaProps
  imports TranslatorProps
begin

section \<open>Properties of translated schemas\<close>

text \<open>
  What holds of the node that the translator makes of the tables of the driver, and of the lookups on
  it, on which the indexes of the schema rest.
\<close>

lemma sd_translate_ok: "sd_translate fp n s = Some (Inr t) \<Longrightarrow> \<exists>sc. translate fp (sd_types s) n sc = Some (Inr t)"
  by (auto simp: sd_translate_def split: option.splits)

text \<open>C13. Every schema that the translator returns is well-formed: reading and
  writing handlers can be made for it, and they implement its record format, whatever types, lists
  and maps it refers to.\<close>

theorem translated_has_handlers:
  assumes "sd_translate fp n s = Some (Inr t)"
  shows "s_wf t \<and> (\<exists>h. handler_of t mode = Inr h \<and> implements h (s_codec t))"
proof -
  obtain sc where "translate fp (sd_types s) n sc = Some (Inr t)"
    using sd_translate_ok [OF assms] by blast
  from translate_fields [OF this] have "s_wf t" using fields_for_wf by auto
  then show ?thesis using s_handler_implements by blast
qed


subsection \<open>Finding a field by its name\<close>

lemma split_field: "CHR ''.'' \<notin> set nm \<Longrightarrow> nm \<noteq> [] \<Longrightarrow> str_split (CHR ''.'') nm = [nm]"
  by (rule split_one)

text \<open>The nodes whose lookup may end at them.\<close>

fun ends_lookup :: "stype \<Rightarrow> bool" where
  "ends_lookup (S_native fi dt) = True" | "ends_lookup (S_string fi mx) = True" | "ends_lookup (S_list fi it i) = True"
| "ends_lookup _ = False"

lemma find_first:
  "i < length fs \<Longrightarrow> g (fs ! i) = x \<Longrightarrow> (\<forall>j < i. g (fs ! j) \<noteq> x) \<Longrightarrow> find (\<lambda>f. g f = x) fs = Some (fs ! i)"
  by (auto simp: find_Some_iff)

lemma find_top:
  assumes "i < length fs" "s_named (fs ! i) = nm" "\<forall>j < i. s_named (fs ! j) \<noteq> nm" "ends_lookup (fs ! i)"
  shows "s_find [fi_name fi, nm] 0 (S_complex fi tn fs) = Inr (Some [S_complex fi tn fs, fs ! i])"
  using find_first [of i fs s_named nm] assms
  by (cases "fs ! i") (auto simp: s_named_def below_def e_bind_def)

text \<open>C14. A field of a translated schema that is native, a string or a list is found under its
  name and under its name qualified by that of the schema - provided that no earlier field has the
  name, that it has no dot and that it is not the name of the schema itself - and the path an index
  keeps for it is the index of the root and that of the field.\<close>

theorem field_found_by_name:
  assumes "sd_translate fp n s = Some (Inr (S_complex fi tn fs))" "i < length fs" "ends_lookup (fs ! i)"
    "\<forall>j < i. s_named (fs ! j) \<noteq> s_named (fs ! i)" "CHR ''.'' \<notin> set (s_named (fs ! i))" "s_named (fs ! i) \<noteq> []"
    "s_named (fs ! i) \<noteq> fi_name fi" "CHR ''.'' \<notin> set (fi_name fi)"
  shows "s_find_key (s_named (fs ! i)) (S_complex fi tn fs) = Inr (Some [S_complex fi tn fs, fs ! i])
    \<and> s_find_key (fi_name fi @ ''.'' @ s_named (fs ! i)) (S_complex fi tn fs) = Inr (Some [S_complex fi tn fs, fs ! i])
    \<and> get_field_path [S_complex fi tn fs, fs ! i] = ([0, i], is_collection (fs ! i))"
proof -
  let ?nm = "s_named (fs ! i)" and ?t = "S_complex fi tn fs"
  obtain sc where sc: "translate fp (sd_types s) n sc = Some (Inr ?t)"
    using sd_translate_ok [OF assms(1)] by blast
  from translate_fields [OF this] have ix: "fi_index fi = 0" "fi_index (s_info (fs ! i)) = i"
    using assms(2) by (auto simp: new_info_def fields_for_def node_for_def)
  have f: "s_find [fi_name fi, ?nm] 0 ?t = Inr (Some [?t, fs ! i])"
    using assms by (intro find_top) auto
  have k1: "str_split (CHR ''.'') ?nm = [?nm]" using assms(5,6) by (rule split_field)
  have k2: "str_split (CHR ''.'') (fi_name fi @ CHR ''.'' # ?nm) = [fi_name fi, ?nm]"
    using split_cons [OF assms(8), of ?nm] k1 by simp
  have n: "s_named ?t = fi_name fi" by (simp add: s_named_def)
  show ?thesis
    using f k1 k2 ix assms(6,7) by (auto simp: s_find_key_def n get_field_path_def Let_def)
qed

text \<open>The path that an index column keeps starts with the index of the root, but the lookup by
  path reads its first element as the index of a field of the root. When the first field of the
  schema is native or a string, the path of every other column is refused, and only the path of the
  first field leads back to it.\<close>

theorem column_path_misses:
  assumes "sd_translate fp n s = Some (Inr (S_complex fi tn fs))" "i < length fs"
    "is_native (s_datatype (fs ! 0))"
  shows "find_path (fst (get_field_path [S_complex fi tn fs, fs ! i])) (S_complex fi tn fs)
    = (if i = 0 then Inr (Some (fs ! 0)) else Inl Precondition)"
proof -
  obtain sc where sc: "translate fp (sd_types s) n sc = Some (Inr (S_complex fi tn fs))"
    using sd_translate_ok [OF assms(1)] by blast
  from translate_fields [OF this] have ix: "fi_index fi = 0" "\<forall>j < length fs. fi_index (s_info (fs ! j)) = j"
    by (auto simp: new_info_def fields_for_def node_for_def)
  have p: "0 < length fs" using assms(2) by linarith
  then have i0: "fi_index (s_info (fs ! 0)) = 0" using ix(2) by blast
  have z: "field_at fs 0 = Some (fs ! 0)"
    unfolding field_at_def using find_first [of 0 fs "\<lambda>f. fi_index (s_info f)", OF p i0] by simp
  show ?thesis
    using z ix i0 assms(2,3) by (cases "fs ! 0") (auto simp: get_field_path_def)
qed

end
