(* ===== verification/SchemaDemo.thy ===== *)
theory SchemaDemo
  imports SchemaProps
begin

section \<open>A schema that is translated\<close>

text \<open>The tables of a file with a type, a schema with fields of each kind, and its translation.\<close>

definition demo_fields :: "field_src list" where
  "demo_fields =
     [\<lparr>f_kind = K_native ''short'', f_name = ''num'', f_constraint = None, f_default = None, f_nullable = False\<rparr>,
      \<lparr>f_kind = K_list_ref ''tag'', f_name = ''tags'', f_constraint = None, f_default = None, f_nullable = True\<rparr>]"

definition demo_tables :: schema_driver where
  "demo_tables = new_driver\<lparr>
     sd_types := types_of [\<lparr>t_name = ''tag'', t_fields = [\<lparr>f_kind = K_native ''char'', f_name = ''c1'', f_constraint = None,
       f_default = None, f_nullable = False\<rparr>]\<rparr>],
     sd_schema_stack := Some \<lparr>ss_current = schema_of \<lparr>s_name = ''item'', s_fields = demo_fields, s_keys = None\<rparr>,
       ss_declares = [], ss_declare = empty_declare, ss_pk_columns = None\<rparr>\<rparr>"

definition demo_tag :: "string \<Rightarrow> nat \<Rightarrow> stype" where
  "demo_tag name i = S_complex (new_info name i) ''tag'' [S_native (new_info ''c1'' 0) TYPE_CHAR]"

definition demo_item :: "stype list" where
  "demo_item = [S_native (new_info ''num'' 0) TYPE_SHORT,
     S_list ((new_info ''tags'' 1)\<lparr>fi_nullable := True\<rparr>) TYPE_STRUCT (Some (demo_tag ''tags'' 1))]"

lemma parse_demo: "parse_type ''short'' = Inr TYPE_SHORT" "parse_type ''char'' = Inr TYPE_CHAR" "parse_type ''list'' = Inr TYPE_LIST"
  using parse_type_name [of "''short''" TYPE_SHORT] parse_type_name [of "''char''" TYPE_CHAR] parse_type_name [of "''list''" TYPE_LIST]
    trim_type_string [of TYPE_SHORT] trim_type_string [of TYPE_CHAR] trim_type_string [of TYPE_LIST]
  by (simp_all add: parse_order_def)

lemma demo_struct: "handler_of (S_list fi TYPE_STRUCT (Some (S_complex gi tn fs))) mode \<noteq> Inl e"
  by (cases mode) (simp_all add: create_list_handler_def new_dt_list_def inner_handler_def is_inner_type_valid_def e_bind_def as_struct_def)

lemma demo_list: "with_handlers (S_list fi TYPE_STRUCT (Some (S_complex gi tn fs))) = Inr (S_list fi TYPE_STRUCT (Some (S_complex gi tn fs)))"
  using demo_struct [of fi gi tn fs] unfolding with_handlers_def e_bind_def by (auto split: sum.split)

lemma demo_translate: "sd_translate fp 1 demo_tables = Some (Inr (S_complex (new_info ''item'' 0) ''item'' demo_item))"
proof -
  have tag: "create_type fp (sd_types demo_tables) 1 nm \<lparr>rt_name = ''tag'', rt_field_count = 1, rt_members =
      [Declare False False ''char'' (Some ''c1'') [] None None]\<rparr> i = Some (Inr (demo_tag nm i))" if "nm \<noteq> []" for nm i
    using that by (simp add: tr_field_def field_node_def parse_demo native_node_def e_bind_def not_null_def set_attributes_def
        add_field_def demo_tag_def new_info_def Let_def)
  show ?thesis
    using tag
    by (simp add: sd_translate_def translate_def demo_tables_def schema_of_def demo_fields_def declared_def inner_declare_def
        type_of_def tr_field_def field_node_def list_node_def create_inner_type_def inner_datatype_def refer_def new_list_def
        parse_demo native_node_def e_bind_def not_null_def set_attributes_def add_field_def new_info_def Let_def demo_item_def
        is_inner_type_valid_def demo_list demo_tag_def)
qed

subsection \<open>The properties at the demo\<close>

theorem translated_has_handlers_witness:
  "\<exists>h. handler_of (S_complex (new_info ''item'' 0) ''item'' demo_item) RM_READ = Inr h
    \<and> implements h (s_codec (S_complex (new_info ''item'' 0) ''item'' demo_item))"
  using translated_has_handlers [OF demo_translate [of "\<lambda>_ _. Inl Std_error"], of RM_READ] by blast


theorem field_found_by_name_witness:
  "s_find_key ''item.tags'' (S_complex (new_info ''item'' 0) ''item'' demo_item)
     = Inr (Some [S_complex (new_info ''item'' 0) ''item'' demo_item, demo_item ! 1])
   \<and> get_field_path [S_complex (new_info ''item'' 0) ''item'' demo_item, demo_item ! 1] = ([0, 1], True)"
  using field_found_by_name [OF demo_translate [of "\<lambda>_ _. Inl Std_error"], of 1]
  by (simp add: demo_item_def s_named_def new_info_def)

theorem column_path_misses_witness:
  "find_path [0, 1] (S_complex (new_info ''item'' 0) ''item'' demo_item) = Inl Precondition
   \<and> find_path [0, 0] (S_complex (new_info ''item'' 0) ''item'' demo_item) = Inr (Some (demo_item ! 0))"
  using column_path_misses [OF demo_translate [of "\<lambda>_ _. Inl Std_error"], of 1]
    column_path_misses [OF demo_translate [of "\<lambda>_ _. Inl Std_error"], of 0]
  by (simp add: demo_item_def new_info_def get_field_path_def)

definition demo_state :: schema_driver where
  "demo_state = snd (run_calls (file_calls (demo_file demo_raw)) new_driver)"

theorem translate_terminates_witness:
  "\<exists>r. \<forall>m. sd_translate (\<lambda>_ _. Inl Std_error) (card (dom (sd_types demo_state)) + m) demo_state = Some r"
  by (rule translate_terminates) (simp add: demo_state_def run_calls_reach sd_reach.new)

end
