(* ===== verification/Spec2Isabelle.thy ===== *)
theory Spec2Isabelle
  imports Prelude Strings Bytes Bitset ExclusiveLock LockTables WriteLock WriteClient Records BaseBlock
    BlockLayout BlockSpec BlockProps BlockDemo
    BlockIndex IndexSpec IndexProps IndexedBlock IndexedSpec IndexedProps IndexedDemo
    InstState RwTable ReadWriteLock RwSystem RwClient WgDemo Buffers
    TypeEnums TypeHandlers TypeConstraints TypeRecords TypeFactory TypeCodec TypeStructs TypeRoundtrip TypeSchema TypeStore TypeStored TypeChecks
    TypedBlock TypedSpec TypedProps TypedDemo TypedFaults
    ConfigTree ConfigProps
    MountStructs MountClient MountManager MountProps MountLedger MountSetup MmStruct MmProps
    SchemaDriver Translator TranslatorSpec SchemaReach SchemaText SchemaBuild SchemaNodes TranslatorProps SchemaProps SchemaDemo
begin

text \<open>
  \<^bold>\<open>ReactFS\<close>, a distributed file system in C++: data is kept as records in memory-mapped block files, blocks
  are shared by processes through lock tables in shared memory, records are typed by schemas that are parsed
  from text, and the space of a node is divided into mount points. This library models that core as
  Isabelle functions and proves what it does, and where it does not do what it means to.

  \<^bold>\<open>Conventions.\<close> (\<open>Prelude\<close>, \<open>Strings\<close>, \<open>Bytes\<close>, \<open>InstState\<close>) A call takes the state of its object and returns
  an exception or a value together with the state that it leaves: \<open>('a, 's) cmd\<close>, composed with \<open>c_bind\<close>.
  \<open>exc\<close> has one constructor per exception class; the text of a message is not kept. \<open>Mem_fault\<close> stands for
  an access that C++ leaves undefined (a null or dangling pointer, a place outside a mapping), \<open>Blocked\<close> for
  a call that waits and \<open>Aborted\<close> for the end of the process. Mapped memory is a list of bytes with \<open>peek\<close>
  and \<open>poke\<close> that fail outside it. Counters of 64 bits are naturals with \<open>add64\<close> and \<open>sub64\<close>, or words;
  narrower fields have their \<open>mod\<close> written out. What a call reads of its surroundings (process, thread,
  time, user, whether a lock could be had in time, the file system, compression, rounding of doubles, the
  text of a floating point number, the regular expressions) is an argument: a record \<open>..._env\<close> or a
  function. An iteration over an \<open>unordered_map\<close> is the list of its entries in the order that is given.

  \<^bold>\<open>The parts, from the bottom up.\<close>

  \<^item> \<^bold>\<open>Bits and bytes.\<close> \<open>Bitset\<close> (common/includes/__bitset.h) implements a set of slots: the locale \<open>slot_pool\<close> says
    what an allocator promises, and the bitset is interpreted in it. \<open>Buffers\<close> (buffer_utils.h) are the length-prefixed
    strings. \<open>Records\<close> (core/includes/block_common_structs_v0.h) has the record header and the index entry with
    their bytes; the locale \<open>fixed_codec\<close> states their round trip.

  \<^item> \<^bold>\<open>Locks.\<close> \<open>ExclusiveLock\<close> (exclusive_lock.h) with all threads of all processes as one transition system.
    \<open>LockTables\<close> (lock_structs_v0.h, write_lock.cpp) is the table of write locks in shared memory, \<open>WriteLock\<close>
    (write_lock.h) the object over it and \<open>WriteClient\<close> the registry of a process and its manager. \<open>RwTable\<close>,
    \<open>ReadWriteLock\<close>, \<open>RwClient\<close> are the same for read/write locks, and \<open>RwSystem\<close> puts the processes that share a record
    together. The locale \<open>lock_session\<close> is the contract of a holder (asking keeps the lock, releasing frees
    it), interpreted by both kinds of lock. Loops that wait take the list of their rounds; \<open>None\<close> is that the
    rounds end before the loop.

  \<^item> \<^bold>\<open>Blocks.\<close> \<open>BaseBlock\<close> (core/includes/base_block.h, core/src/base_block.cpp) is a block file: header, mapping, rollback
    information, the lock of the block. \<open>BlockLayout\<close> and \<open>BlockSpec\<close> relate it to two lists of records, committed
    and pending (\<open>blk_repr\<close>, \<open>blk_tx\<close>); \<open>BlockProps\<close> has the theorems, \<open>BlockDemo\<close> concrete blocks. \<open>BlockIndex\<close>, \<open>IndexSpec\<close> and
    \<open>IndexProps\<close> (base_block_index) do the same for the file of offsets, \<open>IndexedBlock\<close>, \<open>IndexedSpec\<close>,
    \<open>IndexedProps\<close>, \<open>IndexedDemo\<close> (base_indexed_block) for a block with its index, which calls both.

  \<^item> \<^bold>\<open>Types.\<close> \<open>TypeEnums\<close>, \<open>TypeHandlers\<close> (types/includes/types_common.h): the native types and how they are read, written
    and compared. \<open>TypeConstraints\<close> (__constraints.h, schema_helpers.h): constraints and defaults, and \<open>TypeChecks\<close> what
    they accept. \<open>TypeRecords\<close>, \<open>TypeFactory\<close> (type_defs.h, type_helpers.h): values of lists, maps and records, and the
    dispatch that makes their handlers. \<open>TypeCodec\<close>, \<open>TypeStructs\<close>, \<open>TypeRoundtrip\<close> specify a handler as a codec and prove by
    induction on the schema that every handler implements its own. \<open>TypeSchema\<close>, \<open>TypeStore\<close>, \<open>TypeStored\<close> (schema_def.h):
    a schema written to a buffer and loaded from it. \<open>TypedBlock\<close>, \<open>TypedSpec\<close>, \<open>TypedProps\<close>, \<open>TypedDemo\<close>, \<open>TypedFaults\<close>
    (core/includes/typed_block.h, typed_block.cpp): indexed blocks whose records are values of a schema.

  \<^item> \<^bold>\<open>Schemas from text.\<close> \<open>SchemaDriver\<close> (parsers/includes/schema_driver.h, schema_driver.cpp) is the state machine that the
    grammar drives, \<open>SchemaReach\<close> its reachable states and their invariant. \<open>SchemaText\<close> gives the calls of the actions of
    parsers/src/schema_parser.yy for a file, \<open>SchemaBuild\<close> the refinement: the calls leave the tables that the file
    stands for. \<open>Translator\<close>, \<open>TranslatorSpec\<close>, \<open>TranslatorProps\<close> turn the tables into schema nodes; the locale
    \<open>type_maker_contract\<close> is what the creation of a type promises to the creation of its members. \<open>SchemaNodes\<close>
    and \<open>SchemaProps\<close> look fields up by name and path, \<open>SchemaDemo\<close> is a schema that goes all the way.

  \<^item> \<^bold>\<open>Configuration.\<close> \<open>ConfigTree\<close> (common/includes/config.h, common/src/config.cpp) builds the tree from parsed JSON and finds
    values by path; \<open>ConfigProps\<close> proves that every value of the file is found.

  \<^item> \<^bold>\<open>Mount points.\<close> \<open>MountStructs\<close> (core/includes/mount_structs.h) is the shared table with its usage counters per
    hour, \<open>MountClient\<close> (clients/mount_client.h) finds the mount point of a path, reserves and releases its space,
    \<open>MountManager\<close> (server/mount_manager.h) fills the table from the configuration. \<open>MountProps\<close>, \<open>MountLedger\<close> and
    \<open>MountSetup\<close> have the theorems.

  \<^item> \<^bold>\<open>Structures of blocks.\<close> \<open>MmStruct\<close> (core/includes/mm_struct_header.h, mm_structs_v0.h, block_utils.h) chains block files into
    one sequence of records under one transaction; it calls the bitset, the blocks, the locks and the mount points, and
    its state contains theirs. \<open>MmProps\<close> has its theorems.

  \<^item> \<^bold>\<open>Watergate.\<close> \<open>WgTable\<close> (watergate/includes/lock_table.h, lock_table.cpp) and \<open>WgControl\<close> (control.h, control.cpp,
    control_manager.h) limit the use of a resource by semaphores of several priorities. \<open>WgSystem\<close> is the system of
    all processes and the manager, \<open>WgProps\<close> shows that no unit of a semaphore is lost or made, \<open>WgDemo\<close> has
    the properties.

  \<^bold>\<open>What the lemmas show.\<close> Round trips: what a transaction writes and commits is read back, by a block, by an
  indexed block, by a typed block and by a structure of blocks; a value of any schema, and a schema itself, survive writing and
  reading. Refinement: a rollback leaves nothing of its transaction; the read/write lock refines an abstract
  lock; parsing builds the tables of the file. Safety and invariants: at most one holder of each lock, readers
  exclude writers, the units of a semaphore agree with the table, the space that a mount point counts is the
  space that is held. Bounds and termination: the capacity of an index, the counters of an hour, the end of the
  translation. Errors: the theorems named after a fault give the inputs on which the code loses records,
  overwrites memory, or never succeeds.

  \<^bold>\<open>Fuel.\<close> The loops that publish records on commit (\<open>blk_publish\<close>, \<open>bi_publish\<close>) have fuel for each byte of
  the mapping and move by a header at least, and their specifications show that they return. \<open>blk_check_sanity\<close>
  needs a step per record. The translator (\<open>sd_translate\<close>) has one step per type, which \<open>translate_terminates\<close> proves to be
  enough. The readers of schemas have fuel for each byte of the buffer, and \<open>schema_roundtrip\<close> shows
  that this is enough for what was written. \<open>mm_block_for_index\<close> takes at most the 1024 steps of the code.

  \<^bold>\<open>Not modelled.\<close> Third-party code under src/ext, json11 and fmstream; the tables of the generated parser and scanner; the
  generator of C++ classes, whose output is text for a compiler; threads, timers, alarms, signals, callbacks and the
  loops of manager threads, whose passes are calls here; logs and metrics; the environment and start-up; the file
  of shared records of a node, beyond the mount table; directory operations, mmap, shared memory and
  conversions of time; the memory manager, which nothing uses; the compression libraries; the creation of
  POSIX semaphores, the resource drivers and the Java bindings of watergate; tests. The hash index of typed blocks is left out since
  it keeps addresses of the process in the file and its buckets overlap; no block ever gets one
  (\<open>TypedFaults\<close>). Memory is not released in the model, and allocation does not fail.
\<close>

end
